(* ===== verification/Numerics.thy ===== *)
theory Numerics
  imports Prelude Complex_Main "HOL-Library.Log_Nat"
begin

text \<open>
  The arithmetic of the program: Python's \<open>decimal.Decimal\<close> under the default context (28
  significant digits, round half to even) and Python's \<open>float\<close> (IEEE binary64, 53 significant
  bits, round half to even). A number is modelled by its rational value and every arithmetic
  operation rounds its exact result: \<open>round_sig b p\<close> rounds to \<open>p\<close> significant digits in base
  \<open>b\<close>. Values at which the exponent range or the special values (infinities, NaN, subnormal
  numbers) matter are outside this model: the program handles times, prices and quantities.

  The laws that the components use are those of the locale \<open>rounding\<close>: rounding is monotone,
  odd, and exact on the numbers that the format can hold. It is interpreted for both formats.
\<close>

section \<open>Round half to even\<close>

definition round_half_even :: "rat \<Rightarrow> int" where
  "round_half_even x =
     (let f = \<lfloor>x\<rfloor>; d = x - of_int f
      in if d < 1 / 2 then f else if 1 / 2 < d then f + 1 else if even f then f else f + 1)"

lemma round_half_even_bounds:
  "\<lfloor>x\<rfloor> \<le> round_half_even x" "round_half_even x \<le> \<lfloor>x\<rfloor> + 1"
  by (auto simp: round_half_even_def Let_def)

lemma round_half_even_of_int [simp]: "round_half_even (of_int k) = k"
  by (simp add: round_half_even_def)

lemma round_half_even_mono:
  assumes "x \<le> y"
  shows "round_half_even x \<le> round_half_even y"
proof (cases "\<lfloor>x\<rfloor> = \<lfloor>y\<rfloor>")
  case True
  with assms show ?thesis by (auto simp: round_half_even_def Let_def)
next
  case False
  with floor_mono [OF assms] have "\<lfloor>x\<rfloor> + 1 \<le> \<lfloor>y\<rfloor>" by linarith
  with round_half_even_bounds [of x] round_half_even_bounds [of y] show ?thesis by linarith
qed

lemma round_half_even_nonneg: "0 \<le> x \<Longrightarrow> 0 \<le> round_half_even x"
  using round_half_even_mono [of 0 x] round_half_even_of_int [of 0] by simp

lemma round_half_even_le_int: "x \<le> of_int k \<Longrightarrow> round_half_even x \<le> k"
  using round_half_even_mono [of x "of_int k"] by simp

lemma round_half_even_ge_int: "of_int k \<le> x \<Longrightarrow> k \<le> round_half_even x"
  using round_half_even_mono [of "of_int k" x] by simp

section \<open>The magnitude of a number\<close>

text \<open>\<open>mag b x\<close> is the exponent \<open>m\<close> with \<open>b powi (m - 1) \<le> x < b powi m\<close>.\<close>

definition mag :: "nat \<Rightarrow> rat \<Rightarrow> int" where
  "mag b x =
     (let q = quotient_of x;
          k = int (floorlog b (nat (fst q))) - int (floorlog b (nat (snd q)))
      in if x < of_nat b powi k then k else k + 1)"

lemma floorlog_rat_bounds:
  assumes "1 < b" "0 < n"
  shows "of_nat b powi (int (floorlog b n) - 1) \<le> (of_nat n :: rat)"
    and "(of_nat n :: rat) < of_nat b powi int (floorlog b n)"
proof -
  from floorlog_bounds [OF assms(2,1)] have lo: "b ^ (floorlog b n - 1) \<le> n"
    and hi: "n < b ^ floorlog b n" by auto
  have pos: "0 < floorlog b n" using assms by (simp add: floorlog_def)
  have "(of_nat b :: rat) powi (int (floorlog b n) - 1) = of_nat (b ^ (floorlog b n - 1))"
    using pos by (metis One_nat_def Suc_leI of_nat_1 of_nat_diff of_nat_power power_int_of_nat)
  with lo show "of_nat b powi (int (floorlog b n) - 1) \<le> (of_nat n :: rat)"
    by (simp only: of_nat_le_iff)
  have "(of_nat n :: rat) < of_nat (b ^ floorlog b n)" using hi by (simp only: of_nat_less_iff)
  then show "(of_nat n :: rat) < of_nat b powi int (floorlog b n)" by simp
qed

lemma mag_bounds:
  assumes "1 < b" "0 < x"
  shows "of_nat b powi (mag b x - 1) \<le> x" "x < of_nat b powi mag b x"
proof -
  obtain n d where q: "quotient_of x = (n, d)" by (cases "quotient_of x") auto
  have d: "0 < d" using quotient_of_denom_pos [OF q] .
  have x: "x = of_int n / of_int d" using quotient_of_div [OF q] .
  with assms(2) d have n: "0 < n" by (simp add: zero_less_divide_iff)
  define N D where "N = nat n" and "D = nat d"
  have ND: "0 < N" "0 < D" using n d by (auto simp: N_def D_def)
  have xND: "x = of_nat N / of_nat D" using x n d by (simp add: N_def D_def)
  define k where "k = int (floorlog b N) - int (floorlog b D)"
  have b: "(of_nat b :: rat) \<noteq> 0" "(0::rat) < of_nat b" using assms(1) by auto
  note Nb = floorlog_rat_bounds [OF assms(1) ND(1)]
  note Db = floorlog_rat_bounds [OF assms(1) ND(2)]
  have "of_nat b powi (k - 1) * of_nat D \<le> (of_nat b powi (k - 1) * of_nat b powi int (floorlog b D) :: rat)"
    using Db(2) b by (intro mult_left_mono) auto
  also have "\<dots> = of_nat b powi (int (floorlog b N) - 1)"
    using b by (subst power_int_add [symmetric]) (simp_all add: k_def)
  also have "\<dots> \<le> of_nat N" by (rule Nb)
  finally have low: "of_nat b powi (k - 1) \<le> x"
    using ND by (simp add: xND pos_le_divide_eq)
  have "(of_nat N :: rat) < of_nat b powi int (floorlog b N)" by (rule Nb)
  also have "\<dots> = of_nat b powi (k + 1) * of_nat b powi (int (floorlog b D) - 1)"
    using b by (subst power_int_add [symmetric]) (simp_all add: k_def)
  also have "\<dots> \<le> of_nat b powi (k + 1) * of_nat D"
    using Db(1) b by (intro mult_left_mono) auto
  finally have high: "x < of_nat b powi (k + 1)"
    using ND by (simp add: xND pos_divide_less_eq)
  have m: "mag b x = (if x < of_nat b powi k then k else k + 1)"
    by (simp add: mag_def q k_def N_def D_def Let_def)
  show "of_nat b powi (mag b x - 1) \<le> x" using low by (simp add: m)
  show "x < of_nat b powi mag b x" using high by (simp add: m)
qed

lemma mag_mono:
  assumes "1 < b" "0 < x" "x \<le> y"
  shows "mag b x \<le> mag b y"
proof -
  have "of_nat b powi (mag b x - 1) \<le> x" using mag_bounds(1) [OF assms(1,2)] .
  also have "x < of_nat b powi mag b y"
    using assms mag_bounds(2) [of b y] by simp
  finally have "(of_nat b :: rat) powi (mag b x - 1) < of_nat b powi mag b y" .
  then have "mag b x - 1 < mag b y"
    using assms(1) by (metis linorder_not_le of_nat_1 of_nat_less_iff order_less_imp_le power_int_increasing)
  then show ?thesis by simp
qed

section \<open>Rounding to a number of significant digits\<close>

definition round_pos :: "nat \<Rightarrow> nat \<Rightarrow> rat \<Rightarrow> rat" where
  "round_pos b p x =
     (let e = mag b x - int p
      in of_int (round_half_even (x / of_nat b powi e)) * of_nat b powi e)"

definition round_sig :: "nat \<Rightarrow> nat \<Rightarrow> rat \<Rightarrow> rat" where
  "round_sig b p x =
     (if x = 0 then 0 else if 0 < x then round_pos b p x else - round_pos b p (- x))"

text \<open>The result stays in the interval \<open>[b powi (m - 1), b powi m]\<close> of its argument.\<close>

lemma round_pos_bounds:
  assumes "1 < b" "0 < p" "0 < x"
  shows "of_nat b powi (mag b x - 1) \<le> round_pos b p x"
    and "round_pos b p x \<le> of_nat b powi mag b x"
proof -
  let ?B = "of_nat b :: rat"
  define e where "e = mag b x - int p"
  have B: "?B \<noteq> 0" "0 < ?B powi e" using assms(1) by auto
  have lo: "?B powi (mag b x - 1) = of_int (int b ^ (p - 1)) * ?B powi e"
  proof -
    have "?B powi (mag b x - 1) = ?B powi int (p - 1) * ?B powi e"
      using assms B by (subst power_int_add [symmetric]) (auto simp: e_def of_nat_diff)
    then show ?thesis by simp
  qed
  have hi: "?B powi mag b x = of_int (int b ^ p) * ?B powi e"
  proof -
    have "?B powi mag b x = ?B powi int p * ?B powi e"
      using assms B by (subst power_int_add [symmetric]) (auto simp: e_def)
    then show ?thesis by simp
  qed
  have "of_int (int b ^ (p - 1)) \<le> x / ?B powi e"
    using mag_bounds(1) [OF assms(1,3)] B lo by (simp add: pos_le_divide_eq)
  then have "int b ^ (p - 1) \<le> round_half_even (x / ?B powi e)" by (rule round_half_even_ge_int)
  then have "(of_int (int b ^ (p - 1)) :: rat) \<le> of_int (round_half_even (x / ?B powi e))"
    by (simp only: of_int_le_iff)
  then show "?B powi (mag b x - 1) \<le> round_pos b p x"
    using B by (simp add: round_pos_def Let_def lo flip: e_def)
  have "x / ?B powi e \<le> of_int (int b ^ p)"
    using mag_bounds(2) [OF assms(1,3)] B hi by (simp add: pos_divide_le_eq)
  then have "round_half_even (x / ?B powi e) \<le> int b ^ p" by (rule round_half_even_le_int)
  then have "(of_int (round_half_even (x / ?B powi e)) :: rat) \<le> of_int (int b ^ p)"
    by (simp only: of_int_le_iff)
  then show "round_pos b p x \<le> ?B powi mag b x"
    using B by (simp add: round_pos_def Let_def hi flip: e_def)
qed

lemma round_pos_pos: "1 < b \<Longrightarrow> 0 < p \<Longrightarrow> 0 < x \<Longrightarrow> 0 < round_pos b p x"
  using round_pos_bounds(1) [of b p x] by (metis less_le_trans of_nat_0_less_iff
      order_less_trans zero_less_one zero_less_power_int)

lemma round_pos_mono:
  assumes "1 < b" "0 < p" "0 < x" "x \<le> y"
  shows "round_pos b p x \<le> round_pos b p y"
proof (cases "mag b x = mag b y")
  case True
  have pos: "(0::rat) < of_nat b powi (mag b y - int p)" using assms(1) by simp
  have "x / of_nat b powi (mag b y - int p) \<le> y / of_nat b powi (mag b y - int p)"
    using assms(4) pos by (simp add: divide_right_mono)
  then have "round_half_even (x / of_nat b powi (mag b y - int p))
      \<le> round_half_even (y / of_nat b powi (mag b y - int p))" by (rule round_half_even_mono)
  with pos True show ?thesis by (simp add: round_pos_def Let_def)
next
  case False
  with mag_mono [OF assms(1,3,4)] have m: "mag b x \<le> mag b y - 1" by simp
  have "round_pos b p x \<le> of_nat b powi mag b x" by (rule round_pos_bounds(2) [OF assms(1-3)])
  also have "\<dots> \<le> of_nat b powi (mag b y - 1)" using m assms(1) by (intro power_int_increasing) auto
  also have "\<dots> \<le> round_pos b p y" using assms by (intro round_pos_bounds(1)) auto
  finally show ?thesis .
qed

lemma round_sig_minus: "round_sig b p (- x) = - round_sig b p x"
  by (auto simp: round_sig_def)

lemma round_sig_zero [simp]: "round_sig b p 0 = 0"
  by (simp add: round_sig_def)

lemma round_sig_nonneg: "1 < b \<Longrightarrow> 0 < p \<Longrightarrow> 0 \<le> x \<Longrightarrow> 0 \<le> round_sig b p x"
  by (auto simp: round_sig_def order.strict_implies_order round_pos_pos)

lemma round_sig_mono:
  assumes "1 < b" "0 < p" "x \<le> y"
  shows "round_sig b p x \<le> round_sig b p y"
proof -
  consider "0 \<le> x" | "x < 0" "0 \<le> y" | "y < 0" using assms(3) by linarith
  then show ?thesis
  proof cases
    case 1
    with assms show ?thesis
      using round_pos_mono [of b p x y] round_pos_pos [of b p y] by (auto simp: round_sig_def)
  next
    case 2
    with assms round_sig_nonneg [of b p "- x"] round_sig_nonneg [of b p y] show ?thesis
      by (simp add: round_sig_minus)
  next
    case 3
    with assms round_pos_mono [of b p "- y" "- x"] show ?thesis by (auto simp: round_sig_def)
  qed
qed

section \<open>Exact values\<close>

text \<open>The numbers of the format: at most \<open>p\<close> digits and an exponent.\<close>

definition representable :: "nat \<Rightarrow> nat \<Rightarrow> rat \<Rightarrow> bool" where
  "representable b p x \<longleftrightarrow> (\<exists>k j. \<bar>k\<bar> \<le> int b ^ p \<and> x = of_int k * of_nat b powi j)"

lemma representable_minus: "representable b p x \<Longrightarrow> representable b p (- x)"
  unfolding representable_def by (metis abs_minus_cancel minus_mult_left of_int_minus)

lemma representable_of_int: "\<bar>k\<bar> \<le> int b ^ p \<Longrightarrow> representable b p (of_int k)"
  unfolding representable_def by (metis mult.right_neutral power_int_0_right)

lemma round_pos_representable:
  assumes "1 < b" "0 < p" "0 < x"
  shows "representable b p (round_pos b p x)"
proof -
  define k where "k = round_half_even (x / of_nat b powi (mag b x - int p))"
  have hi: "x \<le> of_int (int b ^ p) * of_nat b powi (mag b x - int p)"
  proof -
    have "of_nat b powi mag b x = (of_nat b powi int p * of_nat b powi (mag b x - int p) :: rat)"
      using assms(1) by (subst power_int_add [symmetric]) auto
    with mag_bounds(2) [OF assms(1,3)] show ?thesis by simp
  qed
  have pos: "(0::rat) < of_nat b powi (mag b x - int p)" using assms(1) by simp
  have "0 \<le> k" using assms(3) pos by (auto simp: k_def intro!: round_half_even_nonneg)
  moreover have "k \<le> int b ^ p"
    using hi pos by (auto simp: k_def pos_divide_le_eq intro!: round_half_even_le_int)
  ultimately have "\<bar>k\<bar> \<le> int b ^ p" by simp
  then show ?thesis unfolding representable_def round_pos_def Let_def k_def by blast
qed

lemma round_sig_representable:
  assumes "1 < b" "0 < p"
  shows "representable b p (round_sig b p x)"
proof -
  have "representable b p 0" using representable_of_int [of 0 b p] by simp
  moreover have "0 < x \<Longrightarrow> representable b p (round_pos b p x)" for x
    using assms by (rule round_pos_representable)
  ultimately show ?thesis
    using representable_minus [of b p "round_pos b p (- x)"] by (auto simp: round_sig_def)
qed

text \<open>A number of the format is an integer multiple of the unit that rounding it uses.\<close>

lemma representable_unit:
  assumes b: "1 < b" and p: "0 < p" and x: "0 < x" "x = of_int k * of_nat b powi j"
    and k: "\<bar>k\<bar> \<le> int b ^ p"
  shows "\<exists>n. x / of_nat b powi (mag b x - int p) = of_int n"
proof -
  let ?B = "of_nat b :: rat"
  define e where "e = mag b x - int p"
  have B: "?B \<noteq> 0" "1 < ?B" using b by auto
  have "0 < ?B powi j" using B by simp
  with x have kpos: "0 < k" by (simp add: zero_less_mult_iff)
  show ?thesis
  proof (cases "e \<le> j")
    case True
    have "x / ?B powi e = of_int k * ?B powi (j - e)" using x(2) B by (simp add: power_int_diff)
    also have "?B powi (j - e) = of_int (int b ^ nat (j - e))"
      using True by (simp add: power_int_def)
    finally show ?thesis by (metis e_def of_int_mult)
  next
    case False
    have "?B powi (e + int p - 1) \<le> of_int k * ?B powi j"
      using mag_bounds(1) [OF b x(1)] x(2) by (simp add: e_def)
    also have "\<dots> \<le> of_int (int b ^ p) * ?B powi j"
    proof (rule mult_right_mono)
      show "(of_int k :: rat) \<le> of_int (int b ^ p)" using k by (simp only: of_int_le_iff)
    qed (use B in simp)
    also have "\<dots> = ?B powi (int p + j)" using B by (simp add: power_int_add)
    finally have le: "?B powi (e + int p - 1) \<le> ?B powi (int p + j)" .
    have "e + int p - 1 \<le> int p + j"
      using le B by (metis linorder_not_le power_int_strict_increasing)
    with False have j: "j = e - 1" by simp
    have "?B powi (e + int p - 1) \<le> of_int k * ?B powi j"
      using mag_bounds(1) [OF b x(1)] x(2) by (simp add: e_def)
    moreover have "?B powi (e + int p - 1) = of_int (int b ^ p) * ?B powi j"
    proof -
      have "?B powi (e + int p - 1) = ?B powi int p * ?B powi j"
        using B j by (subst power_int_add [symmetric]) (auto simp: algebra_simps)
      then show ?thesis by simp
    qed
    ultimately have "(of_int (int b ^ p) :: rat) \<le> of_int k" using B by simp
    then have "k = int b ^ p" using k kpos by (simp only: of_int_le_iff)
    then have "x = of_int (int b ^ p) * ?B powi (e - 1)" using x(2) j by simp
    also have "\<dots> = of_int (int b ^ (p - 1)) * ?B powi e"
      using B p by (cases p) (simp_all add: power_int_diff)
    finally have "x / ?B powi e = of_int (int b ^ (p - 1))" using B by simp
    then show ?thesis unfolding e_def by blast
  qed
qed

lemma round_pos_exact:
  assumes "1 < b" "0 < p" "0 < x" "representable b p x"
  shows "round_pos b p x = x"
proof -
  from assms(4) obtain k j where "\<bar>k\<bar> \<le> int b ^ p" "x = of_int k * of_nat b powi j"
    by (auto simp: representable_def)
  with representable_unit [OF assms(1-3)] obtain n
    where "x / of_nat b powi (mag b x - int p) = of_int n" by blast
  moreover from this have "x = of_int n * of_nat b powi (mag b x - int p)"
    using assms(1) by (simp add: divide_eq_eq)
  ultimately show ?thesis by (simp add: round_pos_def)
qed

lemma round_sig_exact:
  assumes "1 < b" "0 < p" "representable b p x"
  shows "round_sig b p x = x"
  using assms round_pos_exact [of b p x] round_pos_exact [of b p "- x"] representable_minus [of b p x]
  by (auto simp: round_sig_def)

section \<open>The interface of rounding\<close>

locale rounding =
  fixes rnd :: "rat \<Rightarrow> rat" and repr :: "rat \<Rightarrow> bool"
  assumes rnd_mono: "x \<le> y \<Longrightarrow> rnd x \<le> rnd y"
    and rnd_exact: "repr x \<Longrightarrow> rnd x = x"
    and repr_rnd: "repr (rnd x)"
    and rnd_minus: "rnd (- x) = - rnd x"
    and rnd_pos: "0 < x \<Longrightarrow> 0 < rnd x"
begin

lemma rnd_idem: "rnd (rnd x) = rnd x"
  by (simp add: rnd_exact repr_rnd)

lemma rnd_zero: "rnd 0 = 0"
  using rnd_minus [of 0] by simp

lemma rnd_neg: "x < 0 \<Longrightarrow> rnd x < 0"
  using rnd_pos [of "- x"] by (simp add: rnd_minus)

lemma rnd_nonneg_iff: "0 \<le> rnd x \<longleftrightarrow> 0 \<le> x"
  using rnd_pos [of x] rnd_neg [of x] rnd_zero by (metis linorder_cases linorder_not_le order_less_imp_le)

lemma rnd_pos_iff: "0 < rnd x \<longleftrightarrow> 0 < x"
  using rnd_pos [of x] rnd_neg [of x] rnd_zero by (metis linorder_cases order_less_asym order_less_irrefl)

lemma rnd_zero_iff: "rnd x = 0 \<longleftrightarrow> x = 0"
  using rnd_pos [of x] rnd_neg [of x] rnd_zero by (metis linorder_cases order_less_irrefl)

lemma rnd_le_repr: "repr y \<Longrightarrow> x \<le> y \<Longrightarrow> rnd x \<le> y"
  using rnd_mono [of x y] by (simp add: rnd_exact)

lemma rnd_ge_repr: "repr y \<Longrightarrow> y \<le> x \<Longrightarrow> y \<le> rnd x"
  using rnd_mono [of y x] by (simp add: rnd_exact)

lemma rnd_greater_repr: "repr y \<Longrightarrow> y < rnd x \<Longrightarrow> y < x"
  using rnd_le_repr [of y x] by (meson linorder_not_le)

lemma rnd_less_repr: "repr y \<Longrightarrow> rnd x < y \<Longrightarrow> x < y"
  using rnd_ge_repr [of y x] by (meson linorder_not_le)

lemma rnd_abs: "rnd \<bar>x\<bar> = \<bar>rnd x\<bar>"
  using rnd_nonneg_iff [of x] by (cases "0 \<le> x") (auto simp: abs_if rnd_minus rnd_neg)

end

text \<open>\<open>Decimal\<close>: 28 significant digits. \<open>float\<close>: 53 significant bits.\<close>

type_synonym decimal = rat
type_synonym float64 = rat

definition dec :: "rat \<Rightarrow> decimal" where
  "dec x = round_sig 10 28 x"

definition fl :: "rat \<Rightarrow> float64" where
  "fl x = round_sig 2 53 x"

abbreviation dec_repr :: "rat \<Rightarrow> bool" where
  "dec_repr \<equiv> representable 10 28"

abbreviation fl_repr :: "rat \<Rightarrow> bool" where
  "fl_repr \<equiv> representable 2 53"

lemma round_sig_pos: "1 < b \<Longrightarrow> 0 < p \<Longrightarrow> 0 < x \<Longrightarrow> 0 < round_sig b p x"
  by (simp add: round_sig_def round_pos_pos)

interpretation decimal: rounding dec dec_repr
  unfolding dec_def
  by unfold_locales
    (simp_all add: round_sig_mono round_sig_exact round_sig_representable round_sig_minus round_sig_pos)

interpretation float: rounding fl fl_repr
  unfolding fl_def
  by unfold_locales
    (simp_all add: round_sig_mono round_sig_exact round_sig_representable round_sig_minus round_sig_pos)

lemma dec_of_int: "\<bar>k\<bar> \<le> 10 ^ 28 \<Longrightarrow> dec (of_int k) = of_int k"
  using representable_of_int [of k 10 28] by (intro decimal.rnd_exact) simp

lemma fl_of_int: "\<bar>k\<bar> \<le> 2 ^ 53 \<Longrightarrow> fl (of_int k) = of_int k"
  using representable_of_int [of k 2 53] by (intro float.rnd_exact) simp

lemma dec_0 [simp]: "dec 0 = 0" and fl_0 [simp]: "fl 0 = 0"
  by (rule decimal.rnd_zero, rule float.rnd_zero)

lemma fl_repr_of_int: "\<bar>k\<bar> \<le> 2 ^ 53 \<Longrightarrow> fl_repr (of_int k)"
  using representable_of_int [of k 2 53] by simp

lemma dec_repr_of_int: "\<bar>k\<bar> \<le> 10 ^ 28 \<Longrightarrow> dec_repr (of_int k)"
  using representable_of_int [of k 10 28] by simp

text \<open>\<open>int(x)\<close> truncates a float towards zero.\<close>

definition trunc :: "rat \<Rightarrow> int" where
  "trunc x = (if 0 \<le> x then \<lfloor>x\<rfloor> else \<lceil>x\<rceil>)"

end
