(* ===== verification/Contracts.thy ===== *)
theory Contracts
  imports Numerics
begin

text \<open>
  The data contracts shared by the components: the exception classes of
  \<open>libs/contracts/errors.py\<close> with their class hierarchy, and the execution schemas of
  \<open>libs/contracts/execution.py\<close>. Points in time (\<open>datetime\<close>) are microseconds since the epoch.
  The text of an exception's message is left out; its class and its attributes are kept. An
  attribute that holds the text of a \<open>Decimal\<close> is modelled by the number (\<open>None\<close> for no text).
\<close>

section \<open>JSON values and time\<close>

type_synonym datetime = int

text \<open>A stored timestamp: the ISO text of a point in time, or any other text.\<close>

datatype stamp = Iso datetime | Text string

datatype json =
  JNull | JBool bool | JNum rat | JStr string | JList "json list" | JObj "(string \<times> json) list"

section \<open>Exceptions\<close>

text \<open>The reasons that the risk gate gives: the sentence and the values that it mentions.\<close>

datatype risk_reason =
    DeploymentMissing string
  | LimitsMissing string
  | OrderValueExceeds decimal decimal
  | PositionSizeExceeds decimal decimal
  | ConcentrationExceeds decimal decimal
  | OpenOrdersExceed int int
  | DailyLossExceeds decimal decimal

datatype exn =
    FXLabError
  | NotFoundError
  | ValidationError
  | SeparationOfDutiesError
  | StrategyNameConflictError (exn_name: string)
  | StrategyArchiveStateError (exn_strategy_id: string) (exn_archive_state: string)
  | RowVersionConflictError (exn_entity: string) (exn_entity_id: string)
      (exn_expected_row_version: int) (exn_actual_row_version: int)
  | AuthError
  | ExternalServiceError
  | TransientError
  | CircuitOpenError (exn_adapter_name: string) (exn_open_since: stamp) (exn_failures: int)
  | RiskGateRejectionError (exn_check_name: string) (exn_severity: string) (exn_reason: "risk_reason option")
      (exn_rg_deployment_id: string) (exn_order_client_id: string)
      (exn_current_value: "decimal option") (exn_limit_value: "decimal option")
  | StateTransitionError (exn_current_state: "string option") (exn_attempted_state: "string option")
  | KillSwitchActiveError (exn_scope: string) (exn_target_id: string) (exn_ks_deployment_id: string)
  | ConfigError
  | IndicatorNotFoundError (exn_indicator_name: string) (exn_available: "string list")
  | RateLimitExceededError (exn_retry_after_seconds: int) (exn_rl_scope: string) (exn_limit: int)
      (exn_window_seconds: int)
  | PyError (exn_class: string)

text \<open>\<open>isinstance\<close> for the base classes that \<open>except\<close> clauses name. \<open>PyError\<close> stands for the
  exceptions outside the hierarchy (\<open>KeyError\<close>, \<open>AssertionError\<close>, ...).\<close>

fun is_not_found :: "exn \<Rightarrow> bool" where
  "is_not_found NotFoundError = True"
| "is_not_found (IndicatorNotFoundError _ _) = True"
| "is_not_found _ = False"

fun is_validation :: "exn \<Rightarrow> bool" where
  "is_validation ValidationError = True"
| "is_validation (RiskGateRejectionError _ _ _ _ _ _ _) = True"
| "is_validation _ = False"

fun is_auth :: "exn \<Rightarrow> bool" where
  "is_auth AuthError = True"
| "is_auth _ = False"

fun is_external_service :: "exn \<Rightarrow> bool" where
  "is_external_service ExternalServiceError = True"
| "is_external_service TransientError = True"
| "is_external_service (CircuitOpenError _ _ _) = True"
| "is_external_service _ = False"

fun is_transient :: "exn \<Rightarrow> bool" where
  "is_transient TransientError = True"
| "is_transient _ = False"

section \<open>Execution schemas\<close>

datatype order_side = BUY | SELL
datatype order_type = MARKET | LIMIT | STOP | STOP_LIMIT
datatype time_in_force = DAY | GTC | IOC | FOK
datatype order_status = PENDING | SUBMITTED | PARTIAL_FILL | FILLED | CANCELLED | REJECTED | EXPIRED
datatype execution_mode = SHADOW | PAPER | LIVE
datatype connection_status = CONNECTED | DISCONNECTED | RECONNECTING | ERROR

fun status_value :: "order_status \<Rightarrow> string" where
  "status_value PENDING = ''pending''"
| "status_value SUBMITTED = ''submitted''"
| "status_value PARTIAL_FILL = ''partial_fill''"
| "status_value FILLED = ''filled''"
| "status_value CANCELLED = ''cancelled''"
| "status_value REJECTED = ''rejected''"
| "status_value EXPIRED = ''expired''"

record order_request =
  rq_client_order_id :: string
  rq_symbol :: string
  rq_side :: order_side
  rq_order_type :: order_type
  rq_quantity :: decimal
  rq_limit_price :: "decimal option"
  rq_stop_price :: "decimal option"
  rq_time_in_force :: time_in_force
  rq_deployment_id :: string
  rq_strategy_id :: string
  rq_correlation_id :: string
  rq_execution_mode :: execution_mode
  rq_metadata :: "(string, json) dict"

text \<open>The field constraints and the model validator that every \<open>OrderRequest\<close> has passed.\<close>

definition order_request_valid :: "order_request \<Rightarrow> bool" where
  "order_request_valid r \<longleftrightarrow>
     1 \<le> length (rq_client_order_id r) \<and> length (rq_client_order_id r) \<le> 255 \<and>
     1 \<le> length (rq_symbol r) \<and> length (rq_symbol r) \<le> 50 \<and>
     0 < rq_quantity r \<and>
     (case rq_limit_price r of None \<Rightarrow> True | Some p \<Rightarrow> 0 < p) \<and>
     (case rq_stop_price r of None \<Rightarrow> True | Some p \<Rightarrow> 0 < p) \<and>
     1 \<le> length (rq_deployment_id r) \<and> length (rq_deployment_id r) \<le> 26 \<and>
     1 \<le> length (rq_strategy_id r) \<and> length (rq_strategy_id r) \<le> 26 \<and>
     1 \<le> length (rq_correlation_id r) \<and> length (rq_correlation_id r) \<le> 255 \<and>
     \<not> (rq_order_type r \<in> {LIMIT, STOP_LIMIT} \<and> rq_limit_price r = None) \<and>
     \<not> (rq_order_type r \<in> {STOP, STOP_LIMIT} \<and> rq_stop_price r = None)"

record order_response =
  os_client_order_id :: string
  os_broker_order_id :: "string option"
  os_symbol :: string
  os_side :: order_side
  os_order_type :: order_type
  os_quantity :: decimal
  os_filled_quantity :: decimal
  os_average_fill_price :: "decimal option"
  os_status :: order_status
  os_limit_price :: "decimal option"
  os_stop_price :: "decimal option"
  os_time_in_force :: time_in_force
  os_submitted_at :: "datetime option"
  os_filled_at :: "datetime option"
  os_cancelled_at :: "datetime option"
  os_rejected_reason :: "string option"
  os_correlation_id :: string
  os_execution_mode :: execution_mode

record order_fill_event =
  fe_fill_id :: string
  fe_order_id :: string
  fe_broker_order_id :: "string option"
  fe_symbol :: string
  fe_side :: order_side
  fe_price :: decimal
  fe_quantity :: decimal
  fe_commission :: decimal
  fe_filled_at :: datetime
  fe_broker_execution_id :: "string option"
  fe_correlation_id :: string

record position_snapshot =
  ps_symbol :: string
  ps_quantity :: decimal
  ps_average_entry_price :: decimal
  ps_market_price :: decimal
  ps_market_value :: decimal
  ps_unrealized_pnl :: decimal
  ps_realized_pnl :: decimal
  ps_cost_basis :: decimal
  ps_updated_at :: datetime

record account_snapshot =
  ac_account_id :: string
  ac_equity :: decimal
  ac_cash :: decimal
  ac_buying_power :: decimal
  ac_portfolio_value :: decimal
  ac_daily_pnl :: decimal
  ac_pending_orders_count :: int
  ac_positions_count :: int
  ac_updated_at :: datetime

record adapter_diagnostics =
  ad_broker_name :: string
  ad_connection_status :: connection_status
  ad_latency_ms :: int
  ad_error_count_1h :: int
  ad_last_heartbeat :: "datetime option"
  ad_last_error :: "string option"
  ad_market_open :: bool
  ad_orders_submitted_today :: int
  ad_orders_filled_today :: int
  ad_uptime_seconds :: int

text \<open>The statuses after which an order never changes (\<open>_TERMINAL_STATUSES\<close>).\<close>

definition terminal_statuses :: "order_status list" where
  "terminal_statuses = [FILLED, CANCELLED, REJECTED, EXPIRED]"

lemma terminal_statuses_iff [simp]:
  "s \<in> set terminal_statuses \<longleftrightarrow> s = FILLED \<or> s = CANCELLED \<or> s = REJECTED \<or> s = EXPIRED"
  by (auto simp: terminal_statuses_def)

section \<open>Decimal operations\<close>

text \<open>The operations of \<open>decimal.Decimal\<close> that the program uses. Each rounds its result; negation and
  \<open>abs\<close> round too. \<open>quantize(Decimal("1"))\<close> rounds to an integer and fails when that takes more
  than 28 digits; division by zero raises.\<close>

definition dadd :: "decimal \<Rightarrow> decimal \<Rightarrow> decimal" where "dadd a b = dec (a + b)"
definition dsub :: "decimal \<Rightarrow> decimal \<Rightarrow> decimal" where "dsub a b = dec (a - b)"
definition dmul :: "decimal \<Rightarrow> decimal \<Rightarrow> decimal" where "dmul a b = dec (a * b)"
definition dneg :: "decimal \<Rightarrow> decimal" where "dneg a = dec (- a)"
definition dabs :: "decimal \<Rightarrow> decimal" where "dabs a = dec \<bar>a\<bar>"

definition ddiv :: "decimal \<Rightarrow> decimal \<Rightarrow> (exn, decimal) result" where
  "ddiv a b =
     (if b = 0 then Inl (PyError (if a = 0 then ''decimal.InvalidOperation'' else ''decimal.DivisionByZero''))
      else Inr (dec (a / b)))"

definition quantize_1 :: "decimal \<Rightarrow> (exn, decimal) result" where
  "quantize_1 a =
     (let n = round_half_even a
      in if 10 ^ 28 \<le> \<bar>n\<bar> then Inl (PyError ''decimal.InvalidOperation'') else Inr (of_int n))"

definition dsum :: "decimal list \<Rightarrow> decimal" where
  "dsum xs = foldl dadd 0 xs"

lemma dsum_snoc: "dsum (xs @ [x]) = dadd (dsum xs) x"
  by (simp add: dsum_def)

lemma dsum_Nil [simp]: "dsum [] = 0"
  by (simp add: dsum_def)

lemma dsum_nonneg: "(\<forall>x\<in>set xs. 0 < x) \<Longrightarrow> 0 \<le> dsum xs"
  by (induction xs rule: rev_induct) (simp_all add: dsum_snoc dadd_def decimal.rnd_nonneg_iff)

lemma dsum_zero_iff: "(\<forall>x\<in>set xs. 0 < x) \<Longrightarrow> dsum xs = 0 \<longleftrightarrow> xs = []"
proof (induction xs rule: rev_induct)
  case (snoc x xs)
  then have "0 < dsum xs + x" using dsum_nonneg [of xs] by auto
  then have "0 < dsum (xs @ [x])" by (simp add: dsum_snoc dadd_def decimal.rnd_pos)
  then show ?case by auto
qed simp

end
