(* ===== verification/Circuit_Breaker.thy ===== *)
theory Circuit_Breaker
  imports Contracts
begin

text \<open>
  The circuit breaker of \<open>services/api/infrastructure/circuit_breaker.py\<close>: a cb_state machine
  CLOSED, OPEN, HALF_OPEN around a callable, with its cb_state persisted to Redis where a client is
  given. The wrapped callable is an argument: its outcome, a raised exception or a value. The
  lock makes every \<open>execute\<close> and \<open>reset\<close> one atomic step.

  Redis is outside the repository. Its contents are a record with one optional value per key the
  breaker uses, and every call may fail: an operation's environment says after how many writes a
  persist is interrupted. Decoding a stored value can fail, which is the constructor \<open>Bad\<close>.
\<close>

section \<open>State\<close>

datatype circuit_state = CLOSED | OPEN | HALF_OPEN

record circuit_breaker_config =
  failure_threshold :: int
  recovery_timeout_s :: float64
  half_open_max_calls :: int
  cb_name :: string

datatype 'a redis_value = Bad | Good 'a

record redis_keys =
  rk_state :: "circuit_state redis_value option"
  rk_failure_count :: "int redis_value option"
  rk_opened_at :: "stamp redis_value option"
  rk_trip_count :: "int redis_value option"
  rk_recovery_count :: "int redis_value option"
  rk_last_failure_at :: "stamp redis_value option"

text \<open>The clock readings and the Redis failures that one operation meets, in order.\<close>

record cb_env =
  now1 :: datetime
  now2 :: datetime
  persist_fail1 :: "nat option"
  persist_fail2 :: "nat option"

record circuit_breaker =
  cb_config :: circuit_breaker_config
  cb_redis :: "redis_keys option"
  cb_state :: circuit_state
  cb_failure_count :: int
  cb_opened_at :: "stamp option"
  cb_half_open_calls :: int
  cb_trip_count :: int
  cb_recovery_count :: int
  cb_last_failure_at :: "stamp option"

section \<open>Persistence\<close>

text \<open>One write of \<open>_persist_state_to_redis\<close>; those for \<open>cb_opened_at\<close> and \<open>cb_last_failure_at\<close> happen
  only when the value is a non-empty text.\<close>

definition truthy_stamp :: "stamp option \<Rightarrow> stamp option" where
  "truthy_stamp s = (case s of Some (Text t) \<Rightarrow> (if t = [] then None else s) | _ \<Rightarrow> s)"

definition persist_writes :: "circuit_breaker \<Rightarrow> (redis_keys \<Rightarrow> redis_keys) list" where
  "persist_writes b =
     [rk_state_update (\<lambda>_. Some (Good (cb_state b))),
      rk_failure_count_update (\<lambda>_. Some (Good (cb_failure_count b)))]
     @ (case truthy_stamp (cb_opened_at b) of None \<Rightarrow> []
        | Some t \<Rightarrow> [rk_opened_at_update (\<lambda>_. Some (Good t))])
     @ [rk_trip_count_update (\<lambda>_. Some (Good (cb_trip_count b))),
        rk_recovery_count_update (\<lambda>_. Some (Good (cb_recovery_count b)))]
     @ (case truthy_stamp (cb_last_failure_at b) of None \<Rightarrow> []
        | Some t \<Rightarrow> [rk_last_failure_at_update (\<lambda>_. Some (Good t))])"

definition persist_state_to_redis :: "nat option \<Rightarrow> circuit_breaker \<Rightarrow> circuit_breaker" where
  "persist_state_to_redis fail b =
     (case cb_redis b of
        None \<Rightarrow> b
      | Some r \<Rightarrow>
          let ws = persist_writes b;
              done = (case fail of None \<Rightarrow> ws | Some n \<Rightarrow> take n ws)
          in b\<lparr>cb_redis := Some (fold (\<lambda>w. w) done r)\<rparr>)"

text \<open>\<open>_load_state_from_redis\<close> assigns key by key and stops at the first failure, keeping what it
  has assigned. \<open>avail\<close> says how many reads succeed before Redis fails.\<close>

definition load_key ::
  "'a redis_value option \<Rightarrow> ('a \<Rightarrow> circuit_breaker \<Rightarrow> circuit_breaker) \<Rightarrow>
     bool \<times> circuit_breaker \<Rightarrow> bool \<times> circuit_breaker" where
  "load_key v assign s =
     (case s of (ok, b) \<Rightarrow>
        if \<not> ok then (False, b)
        else (case v of None \<Rightarrow> (True, b)
              | Some Bad \<Rightarrow> (False, b)
              | Some (Good x) \<Rightarrow> (True, assign x b)))"

definition reachable_key :: "nat \<Rightarrow> nat option \<Rightarrow> bool \<times> circuit_breaker \<Rightarrow> bool \<times> circuit_breaker" where
  "reachable_key i avail s =
     (case s of (ok, b) \<Rightarrow> (ok \<and> (case avail of None \<Rightarrow> True | Some n \<Rightarrow> i < n), b))"

definition load_state_from_redis :: "nat option \<Rightarrow> circuit_breaker \<Rightarrow> circuit_breaker" where
  "load_state_from_redis avail b =
     (case cb_redis b of
        None \<Rightarrow> b
      | Some r \<Rightarrow>
          let s0 = reachable_key 0 avail (True, b);
              s1 = reachable_key 1 avail (load_key (rk_state r) (\<lambda>x. cb_state_update (\<lambda>_. x)) s0);
              s2 = reachable_key 2 avail
                     (load_key (rk_failure_count r) (\<lambda>x. cb_failure_count_update (\<lambda>_. x)) s1);
              s3 = reachable_key 3 avail
                     (load_key (rk_opened_at r) (\<lambda>x. cb_opened_at_update (\<lambda>_. Some x)) s2);
              s4 = reachable_key 4 avail
                     (load_key (rk_trip_count r) (\<lambda>x. cb_trip_count_update (\<lambda>_. x)) s3);
              s5 = reachable_key 5 avail
                     (load_key (rk_recovery_count r) (\<lambda>x. cb_recovery_count_update (\<lambda>_. x)) s4);
              s6 = load_key (rk_last_failure_at r) (\<lambda>x. cb_last_failure_at_update (\<lambda>_. Some x)) s5
          in snd s6)"

text \<open>\<open>__init__\<close>: the in-memory defaults, then the persisted cb_state.\<close>

definition init_defaults :: "circuit_breaker_config \<Rightarrow> redis_keys option \<Rightarrow> circuit_breaker" where
  "init_defaults c r =
     \<lparr>cb_config = c, cb_redis = r, cb_state = CLOSED, cb_failure_count = 0, cb_opened_at = None,
      cb_half_open_calls = 0, cb_trip_count = 0, cb_recovery_count = 0, cb_last_failure_at = None\<rparr>"

definition cb_init ::
  "circuit_breaker_config \<Rightarrow> redis_keys option \<Rightarrow> nat option \<Rightarrow> circuit_breaker" where
  "cb_init c r avail = load_state_from_redis avail (init_defaults c r)"

section \<open>Operations\<close>

definition cb_reset :: "cb_env \<Rightarrow> circuit_breaker \<Rightarrow> circuit_breaker" where
  "cb_reset env b =
     persist_state_to_redis (persist_fail1 env)
       (b\<lparr>cb_state := CLOSED, cb_failure_count := 0, cb_opened_at := None, cb_half_open_calls := 0\<rparr>)"

record cb_metrics =
  m_current_state :: circuit_state
  m_failure_count :: int
  m_trip_count :: int
  m_recovery_count :: int
  m_opened_at :: "stamp option"
  m_last_failure_at :: "stamp option"

definition metrics_of :: "circuit_breaker \<Rightarrow> cb_metrics" where
  "metrics_of b =
     \<lparr>m_current_state = cb_state b, m_failure_count = cb_failure_count b, m_trip_count = cb_trip_count b,
      m_recovery_count = cb_recovery_count b, m_opened_at = cb_opened_at b,
      m_last_failure_at = cb_last_failure_at b\<rparr>"

definition is_permanent :: "exn \<Rightarrow> bool" where
  "is_permanent e \<longleftrightarrow> is_auth e \<or> is_not_found e \<or> is_validation e"

definition is_retriable :: "exn \<Rightarrow> bool" where
  "is_retriable e \<longleftrightarrow> is_transient e \<or> is_external_service e"

text \<open>\<open>open_error b t\<close> is the \<open>CircuitOpenError\<close> the breaker raises.\<close>

definition open_error :: "circuit_breaker \<Rightarrow> stamp \<Rightarrow> exn" where
  "open_error b t = CircuitOpenError (cb_name (cb_config b)) t (cb_failure_count b)"

text \<open>An execution returns the outcome, whether the callable was called, and the new cb_state.\<close>

type_synonym 'a execution = "(exn, 'a) result \<times> bool \<times> circuit_breaker"

definition execute_closed :: "cb_env \<Rightarrow> (exn, 'a) result \<Rightarrow> circuit_breaker \<Rightarrow> 'a execution" where
  "execute_closed env fn b =
     (case fn of
        Inr v \<Rightarrow> (Inr v, True, b\<lparr>cb_failure_count := 0\<rparr>)
      | Inl e \<Rightarrow>
          if is_permanent e then (Inl e, True, b)
          else if is_retriable e then
            let b1 = b\<lparr>cb_failure_count := cb_failure_count b + 1, cb_last_failure_at := Some (Iso (now1 env))\<rparr>
            in if failure_threshold (cb_config b1) \<le> cb_failure_count b1 then
                 let b2 = b1\<lparr>cb_state := OPEN, cb_opened_at := Some (Iso (now2 env)),
                             cb_trip_count := cb_trip_count b1 + 1\<rparr>
                 in (Inl (open_error b2 (Iso (now2 env))), True,
                     persist_state_to_redis (persist_fail1 env) b2)
               else (Inl e, True, b1)
          else (Inl e, True, b))"

definition execute_half_open ::
  "datetime \<Rightarrow> nat option \<Rightarrow> (exn, 'a) result \<Rightarrow> circuit_breaker \<Rightarrow> 'a execution" where
  "execute_half_open now fail fn b =
     (if half_open_max_calls (cb_config b) \<le> cb_half_open_calls b then
        (Inl (open_error b (case cb_opened_at b of Some t \<Rightarrow> t | None \<Rightarrow> Text '''')), False, b)
      else
        let b1 = b\<lparr>cb_half_open_calls := cb_half_open_calls b + 1\<rparr>
        in (case fn of
              Inr v \<Rightarrow>
                (Inr v, True,
                 persist_state_to_redis fail
                   (b1\<lparr>cb_state := CLOSED, cb_failure_count := 0, cb_opened_at := None,
                       cb_half_open_calls := 0, cb_recovery_count := cb_recovery_count b1 + 1\<rparr>))
            | Inl e \<Rightarrow>
                if is_permanent e then
                  (Inl e, True, persist_state_to_redis fail (b1\<lparr>cb_state := OPEN\<rparr>))
                else if is_retriable e then
                  (Inl e, True,
                   persist_state_to_redis fail
                     (b1\<lparr>cb_state := OPEN, cb_opened_at := Some (Iso now), cb_half_open_calls := 0\<rparr>))
                else (Inl e, True, b1)))"

text \<open>The elapsed time is \<open>total_seconds()\<close>: the microseconds divided by a million, as a float.\<close>

definition elapsed_s :: "datetime \<Rightarrow> datetime \<Rightarrow> float64" where
  "elapsed_s now opened = fl (of_int (now - opened) / 1000000)"

definition execute_open :: "cb_env \<Rightarrow> (exn, 'a) result \<Rightarrow> circuit_breaker \<Rightarrow> 'a execution" where
  "execute_open env fn b =
     (case cb_opened_at b of
        None \<Rightarrow> (Inl (PyError ''AssertionError''), False, b)
      | Some (Text t) \<Rightarrow> (Inl (PyError ''ValueError''), False, b)
      | Some (Iso t) \<Rightarrow>
          if elapsed_s (now1 env) t < recovery_timeout_s (cb_config b) then
            (Inl (open_error b (Iso t)), False, b)
          else
            execute_half_open (now2 env) (persist_fail2 env) fn
              (persist_state_to_redis (persist_fail1 env)
                 (b\<lparr>cb_state := HALF_OPEN, cb_half_open_calls := 0\<rparr>)))"

definition execute :: "cb_env \<Rightarrow> (exn, 'a) result \<Rightarrow> circuit_breaker \<Rightarrow> 'a execution" where
  "execute env fn b =
     (case cb_state b of
        CLOSED \<Rightarrow> execute_closed env fn b
      | OPEN \<Rightarrow> execute_open env fn b
      | HALF_OPEN \<Rightarrow> execute_half_open (now1 env) (persist_fail1 env) fn b)"

section \<open>Frame lemmas\<close>

text \<open>Persisting writes Redis only.\<close>

lemma persist_frame [simp]:
  "cb_config (persist_state_to_redis f b) = cb_config b"
  "cb_state (persist_state_to_redis f b) = cb_state b"
  "cb_failure_count (persist_state_to_redis f b) = cb_failure_count b"
  "cb_opened_at (persist_state_to_redis f b) = cb_opened_at b"
  "cb_half_open_calls (persist_state_to_redis f b) = cb_half_open_calls b"
  "cb_trip_count (persist_state_to_redis f b) = cb_trip_count b"
  "cb_recovery_count (persist_state_to_redis f b) = cb_recovery_count b"
  "cb_last_failure_at (persist_state_to_redis f b) = cb_last_failure_at b"
  by (simp_all add: persist_state_to_redis_def Let_def split: option.splits)

lemma permanent_not_retriable: "is_permanent e \<Longrightarrow> \<not> is_retriable e"
  by (cases e) (simp_all add: is_permanent_def is_retriable_def)

lemmas execute_defs = execute_def execute_closed_def execute_open_def execute_half_open_def

lemma execute_config [simp]: "cb_config (snd (snd (execute env fn b))) = cb_config b"
  by (auto simp: execute_defs Let_def split: circuit_state.splits sum.splits option.splits stamp.splits)

lemma reset_config [simp]: "cb_config (cb_reset env b) = cb_config b"
  by (simp add: cb_reset_def)

section \<open>The invariant\<close>

text \<open>A breaker that is not closed knows when it opened; a closed one is below its threshold; the
  probes of a recovery stay within their bound; every recovery was preceded by a trip.\<close>

definition cb_inv :: "circuit_breaker \<Rightarrow> bool" where
  "cb_inv b \<longleftrightarrow>
     (cb_state b \<noteq> CLOSED \<longrightarrow> (\<exists>t. cb_opened_at b = Some (Iso t))) \<and>
     0 \<le> cb_failure_count b \<and>
     (cb_state b = CLOSED \<longrightarrow> cb_failure_count b < failure_threshold (cb_config b)) \<and>
     0 \<le> cb_half_open_calls b \<and>
     cb_half_open_calls b \<le> max 0 (half_open_max_calls (cb_config b)) \<and>
     0 \<le> cb_recovery_count b \<and> cb_recovery_count b \<le> cb_trip_count b \<and>
     (cb_state b \<noteq> CLOSED \<longrightarrow> cb_recovery_count b < cb_trip_count b)"

lemma cb_inv_persist [simp]: "cb_inv (persist_state_to_redis f b) \<longleftrightarrow> cb_inv b"
  by (simp add: cb_inv_def)

lemma cb_inv_defaults [inv_intros]: "0 < failure_threshold c \<Longrightarrow> cb_inv (init_defaults c r)"
  by (simp add: cb_inv_def init_defaults_def)

lemma cb_inv_reset [inv_intros]:
  "cb_inv b \<Longrightarrow> 0 < failure_threshold (cb_config b) \<Longrightarrow> cb_inv (cb_reset env b)"
  by (simp add: cb_inv_def cb_reset_def)

lemma cb_inv_execute_closed:
  assumes "cb_inv b" "cb_state b = CLOSED" "0 < failure_threshold (cb_config b)"
  shows "cb_inv (snd (snd (execute_closed env fn b)))"
proof (cases fn)
  case (Inl e)
  with assms show ?thesis
    by (auto simp: execute_closed_def Let_def cb_inv_def)
next
  case (Inr v)
  with assms show ?thesis by (simp add: execute_closed_def cb_inv_def)
qed

lemma cb_inv_execute_half_open:
  assumes "cb_inv b" "cb_state b = HALF_OPEN" "0 < failure_threshold (cb_config b)"
  shows "cb_inv (snd (snd (execute_half_open now f fn b)))"
proof (cases fn)
  case (Inl e)
  with assms show ?thesis
    by (auto simp: execute_half_open_def Let_def cb_inv_def)
next
  case (Inr v)
  with assms show ?thesis by (auto simp: execute_half_open_def Let_def cb_inv_def)
qed

lemma cb_inv_start_probe:
  "cb_inv b \<Longrightarrow> cb_state b = OPEN \<Longrightarrow> cb_inv (b\<lparr>cb_state := HALF_OPEN, cb_half_open_calls := 0\<rparr>)"
  by (simp add: cb_inv_def)

lemma cb_inv_execute_open:
  assumes "cb_inv b" "cb_state b = OPEN" "0 < failure_threshold (cb_config b)"
  shows "cb_inv (snd (snd (execute_open env fn b)))"
proof -
  have "cb_inv (persist_state_to_redis (persist_fail1 env)
      (b\<lparr>cb_state := HALF_OPEN, cb_half_open_calls := 0\<rparr>))" (is "cb_inv ?b")
    using assms by (simp add: cb_inv_start_probe)
  then have "cb_inv (snd (snd (execute_half_open (now2 env) (persist_fail2 env) fn ?b)))"
    using assms by (intro cb_inv_execute_half_open) auto
  with assms(1) show ?thesis
    by (simp add: execute_open_def split: option.splits stamp.splits)
qed

lemma cb_inv_execute [inv_intros]:
  assumes "cb_inv b" "0 < failure_threshold (cb_config b)"
  shows "cb_inv (snd (snd (execute env fn b)))"
  using assms cb_inv_execute_closed cb_inv_execute_open cb_inv_execute_half_open
  by (cases "cb_state b") (auto simp: execute_def)

section \<open>Runs\<close>

text \<open>The steps of a breaker in a running process: calls and manual resets, in any order.\<close>

inductive cb_step :: "circuit_breaker \<Rightarrow> circuit_breaker \<Rightarrow> bool" where
  exec: "execute env (fn :: (exn, unit) result) b = (r, called, b') \<Longrightarrow> cb_step b b'"
| reset: "cb_step b (cb_reset env b)"

inductive cb_reachable :: "circuit_breaker_config \<Rightarrow> circuit_breaker \<Rightarrow> bool" for c where
  start: "cb_reachable c (init_defaults c r)"
| step: "cb_reachable c b \<Longrightarrow> cb_step b b' \<Longrightarrow> cb_reachable c b'"

inductive_cases cb_stepE: "cb_step b b'"

lemma cb_step_config: "cb_step b b' \<Longrightarrow> cb_config b' = cb_config b"
  by (metis cb_stepE execute_config reset_config snd_conv)

lemma cb_reachable_config: "cb_reachable c b \<Longrightarrow> cb_config b = c"
  by (induction rule: cb_reachable.induct) (auto simp: init_defaults_def cb_step_config)

lemma cb_step_inv: "cb_step b b' \<Longrightarrow> cb_inv b \<Longrightarrow> 0 < failure_threshold (cb_config b) \<Longrightarrow> cb_inv b'"
  by (metis cb_inv_execute cb_inv_reset cb_stepE snd_conv)

lemma cb_reachable_inv:
  assumes "cb_reachable c b" "0 < failure_threshold c"
  shows "cb_inv b"
  using assms
proof (induction rule: cb_reachable.induct)
  case (start r)
  then show ?case by (simp add: cb_inv_defaults)
next
  case (step b b')
  then show ?case using cb_reachable_config [OF step.hyps(1)] by (simp add: cb_step_inv)
qed

section \<open>Properties\<close>

lemma open_error_probe [simp]:
  "open_error (persist_state_to_redis f b) t = open_error b t"
  "open_error (b\<lparr>cb_state := st, cb_half_open_calls := n\<rparr>) t = open_error b t"
  by (simp_all add: open_error_def)

lemma uncalled_error:
  assumes "cb_inv b" "execute env fn b = (r, False, b')"
  shows "\<exists>t. r = Inl (open_error b t)"
  using assms
  by (auto simp: execute_defs cb_inv_def Let_def
      split: circuit_state.splits sum.splits option.splits stamp.splits if_splits)


text \<open>A concrete configuration and environment for the witnesses.\<close>

definition demo_config :: circuit_breaker_config where
  "demo_config = \<lparr>failure_threshold = 2, recovery_timeout_s = 30, half_open_max_calls = 1,
                  cb_name = ''alpaca''\<rparr>"

definition demo_env :: "datetime \<Rightarrow> cb_env" where
  "demo_env t = \<lparr>now1 = t, now2 = t, persist_fail1 = None, persist_fail2 = None\<rparr>"

definition demo_open :: circuit_breaker where
  "demo_open = (init_defaults demo_config None)
     \<lparr>cb_state := OPEN, cb_failure_count := 2, cb_opened_at := Some (Iso 200), cb_trip_count := 1,
      cb_last_failure_at := Some (Iso 200)\<rparr>"

lemmas demo_defs = demo_config_def demo_env_def demo_open_def init_defaults_def

lemma demo_sel:
  "failure_threshold demo_config = 2" "recovery_timeout_s demo_config = 30"
  "half_open_max_calls demo_config = 1" "cb_name demo_config = ''alpaca''"
  "now1 (demo_env t) = t" "now2 (demo_env t) = t"
  "cb_config (init_defaults c r) = c" "cb_state (init_defaults c r) = CLOSED"
  "cb_failure_count (init_defaults c r) = 0" "cb_trip_count (init_defaults c r) = 0"
  "cb_config demo_open = demo_config" "cb_state demo_open = OPEN"
  "cb_opened_at demo_open = Some (Iso 200)" "cb_failure_count demo_open = 2"
  by (simp_all add: demo_defs)

lemma demo_open_reachable: "cb_reachable demo_config demo_open"
proof -
  let ?b0 = "init_defaults demo_config None"
  let ?b1 = "?b0\<lparr>cb_failure_count := 1, cb_last_failure_at := Some (Iso 100)\<rparr>"
  have s1: "cb_step ?b0 ?b1"
    by (rule cb_step.exec [where env = "demo_env 100" and fn = "Inl TransientError"])
      (simp add: demo_defs execute_defs is_permanent_def is_retriable_def)
  have s2: "cb_step ?b1 demo_open"
    by (rule cb_step.exec [where env = "demo_env 200" and fn = "Inl TransientError"])
      (simp add: demo_defs execute_defs is_permanent_def is_retriable_def persist_state_to_redis_def
        Let_def)
  show ?thesis by (rule cb_reachable.step [OF cb_reachable.step [OF cb_reachable.start s1] s2])
qed


subsection \<open>Tripping\<close>

text \<open>A sequence of calls, each with its own environment and outcome.\<close>

fun run_calls :: "(cb_env \<times> (exn, unit) result) list \<Rightarrow> circuit_breaker \<Rightarrow> circuit_breaker" where
  "run_calls [] b = b"
| "run_calls ((env, fn) # cs) b = run_calls cs (snd (snd (execute env fn b)))"

definition retriable_failure :: "(exn, unit) result \<Rightarrow> bool" where
  "retriable_failure fn \<longleftrightarrow> (case fn of Inl e \<Rightarrow> is_retriable e | Inr _ \<Rightarrow> False)"

lemma execute_closed_failure:
  assumes "cb_state b = CLOSED" "retriable_failure fn"
    "cb_failure_count b + 1 < failure_threshold (cb_config b)"
  shows "snd (snd (execute env fn b)) =
    b\<lparr>cb_failure_count := cb_failure_count b + 1, cb_last_failure_at := Some (Iso (now1 env))\<rparr>"
proof -
  from assms(2) obtain e where fn: "fn = Inl e" and e: "is_retriable e"
    by (auto simp: retriable_failure_def split: sum.splits)
  from e have "\<not> is_permanent e" using permanent_not_retriable by blast
  with fn e assms show ?thesis by (simp add: execute_def execute_closed_def Let_def)
qed

lemma execute_trip:
  assumes "cb_state b = CLOSED" "retriable_failure fn"
    "failure_threshold (cb_config b) \<le> cb_failure_count b + 1"
  shows "\<exists>b'. execute env fn b = (Inl (CircuitOpenError (cb_name (cb_config b)) (Iso (now2 env))
           (cb_failure_count b + 1)), True, b') \<and>
         cb_state b' = OPEN \<and> cb_opened_at b' = Some (Iso (now2 env)) \<and>
         cb_trip_count b' = cb_trip_count b + 1"
proof -
  from assms(2) obtain e where fn: "fn = Inl e" and e: "is_retriable e"
    by (auto simp: retriable_failure_def split: sum.splits)
  from e have "\<not> is_permanent e" using permanent_not_retriable by blast
  with fn e assms show ?thesis
    by (simp add: execute_def execute_closed_def Let_def open_error_def)
qed

lemma run_calls_below_threshold:
  assumes "cb_state b = CLOSED" "list_all (retriable_failure \<circ> snd) cs"
    "cb_failure_count b + int (length cs) < failure_threshold (cb_config b)"
  shows "cb_state (run_calls cs b) = CLOSED \<and>
    cb_failure_count (run_calls cs b) = cb_failure_count b + int (length cs) \<and>
    cb_config (run_calls cs b) = cb_config b \<and> cb_trip_count (run_calls cs b) = cb_trip_count b"
  using assms
proof (induction cs arbitrary: b)
  case (Cons c cs)
  obtain env fn where c: "c = (env, fn)" by (cases c)
  let ?b = "b\<lparr>cb_failure_count := cb_failure_count b + 1, cb_last_failure_at := Some (Iso (now1 env))\<rparr>"
  have "snd (snd (execute env fn b)) = ?b"
    using Cons.prems c by (intro execute_closed_failure) auto
  with Cons.IH [of ?b] Cons.prems c show ?case by simp
qed simp

text \<open>
  The breaker trips at exactly the configured number of consecutive failures: after fewer than
  \<open>failure_threshold\<close> retriable failures in a row it is still closed and has counted each of them,
  and the failure that reaches the threshold opens it, counts one trip, stamps \<open>opened_at\<close> and is
  reported as \<open>CircuitOpenError\<close> with the breaker's name and failure count.
\<close>

theorem breaker_trips_at_threshold:
  assumes "cb_state b = CLOSED" "cb_failure_count b = 0"
    "failure_threshold (cb_config b) = int (length cs) + 1"
    "list_all (retriable_failure \<circ> snd) cs" "retriable_failure fn"
  shows "cb_state (run_calls cs b) = CLOSED \<and>
    cb_failure_count (run_calls cs b) = int (length cs) \<and>
    (\<exists>b'. execute env fn (run_calls cs b) =
       (Inl (CircuitOpenError (cb_name (cb_config b)) (Iso (now2 env)) (int (length cs) + 1)), True, b') \<and>
       cb_state b' = OPEN \<and> cb_opened_at b' = Some (Iso (now2 env)) \<and>
       cb_trip_count b' = cb_trip_count b + 1)"
proof -
  let ?b = "run_calls cs b"
  have run: "cb_state ?b = CLOSED" "cb_failure_count ?b = int (length cs)"
    "cb_config ?b = cb_config b" "cb_trip_count ?b = cb_trip_count b"
    using run_calls_below_threshold [OF assms(1,4)] assms(2,3) by auto
  show ?thesis using execute_trip [of ?b fn env] run assms(3,5) by simp
qed

theorem breaker_trips_at_threshold_witness:
  "\<exists>b'. execute (demo_env 200) (Inl TransientError :: (exn, unit) result)
       (run_calls [(demo_env 100, Inl ExternalServiceError)] (init_defaults demo_config None)) =
     (Inl (CircuitOpenError ''alpaca'' (Iso 200) 2), True, b') \<and> cb_state b' = OPEN"
proof -
  have "failure_threshold (cb_config (init_defaults demo_config None)) =
      int (length [(demo_env 100, Inl ExternalServiceError :: (exn, unit) result)]) + 1"
    by (simp add: demo_sel)
  from breaker_trips_at_threshold [OF _ _ this, of "Inl TransientError" "demo_env 200"]
  show ?thesis by (auto simp: demo_sel retriable_failure_def is_retriable_def)
qed

subsection \<open>Failing fast and recovering\<close>

lemma elapsed_s_reached:
  assumes "fl_repr r" "r \<le> of_int (now - t) / 1000000"
  shows "\<not> elapsed_s now t < r"
  using float.rnd_ge_repr [OF assms] by (simp add: elapsed_s_def)

text \<open>
  While the circuit is open and the recovery timeout has not elapsed, every call fails at once:
  the callable is not invoked, the error is \<open>CircuitOpenError\<close> with the time the circuit opened,
  and the breaker does not change, whatever the callable would have done.
\<close>

theorem open_fails_fast:
  assumes "cb_state b = OPEN" "cb_opened_at b = Some (Iso t)"
    "elapsed_s (now1 env) t < recovery_timeout_s (cb_config b)"
  shows "execute env (fn :: (exn, 'a) result) b =
    (Inl (CircuitOpenError (cb_name (cb_config b)) (Iso t) (cb_failure_count b)), False, b)"
  using assms by (simp add: execute_def execute_open_def open_error_def)

theorem open_fails_fast_witness:
  "execute (demo_env 200) (Inr () :: (exn, unit) result) demo_open =
     (Inl (CircuitOpenError ''alpaca'' (Iso 200) 2), False, demo_open)"
  using open_fails_fast [of demo_open 200 "demo_env 200" "Inr ()"]
  by (simp add: demo_sel elapsed_s_def)

text \<open>
  Once the recovery timeout has elapsed, the next call is a probe, and its outcome decides: a
  success is returned and closes the circuit with its counters cleared and one recovery counted;
  a retriable failure is raised as it is and re-opens the circuit with a new \<open>opened_at\<close>; a
  permanent error is raised and re-opens the circuit with the old \<open>opened_at\<close>.
\<close>

theorem probe_decides_recovery:
  assumes "cb_state b = OPEN" "cb_opened_at b = Some (Iso t)" "fl_repr (recovery_timeout_s (cb_config b))"
    "recovery_timeout_s (cb_config b) \<le> of_int (now1 env - t) / 1000000"
    "1 \<le> half_open_max_calls (cb_config b)"
    "execute env (fn :: (exn, 'a) result) b = (r, called, b')"
  shows "called \<and> r = fn \<and>
    (case fn of
       Inr v \<Rightarrow> cb_state b' = CLOSED \<and> cb_failure_count b' = 0 \<and> cb_opened_at b' = None \<and>
         cb_half_open_calls b' = 0 \<and> cb_recovery_count b' = cb_recovery_count b + 1
     | Inl e \<Rightarrow>
         (is_retriable e \<longrightarrow> cb_state b' = OPEN \<and> cb_opened_at b' = Some (Iso (now2 env)) \<and>
            cb_half_open_calls b' = 0) \<and>
         (is_permanent e \<longrightarrow> cb_state b' = OPEN \<and> cb_opened_at b' = Some (Iso t)))"
proof -
  have "\<not> elapsed_s (now1 env) t < recovery_timeout_s (cb_config b)"
    using assms(3,4) by (rule elapsed_s_reached)
  with assms show ?thesis
    by (auto simp: execute_def execute_open_def execute_half_open_def Let_def
        dest: permanent_not_retriable split: sum.splits if_splits)
qed

theorem probe_decides_recovery_witness:
  "\<exists>b'. execute (demo_env 30000200) (Inr 7 :: (exn, nat) result) demo_open = (Inr 7, True, b') \<and>
     cb_state b' = CLOSED \<and> cb_recovery_count b' = 1"
proof -
  obtain r c b' where ex: "execute (demo_env 30000200) (Inr 7 :: (exn, nat) result) demo_open = (r, c, b')"
    by (metis prod_cases3)
  have "fl_repr (recovery_timeout_s (cb_config demo_open))"
    using fl_repr_of_int [of 30] by (simp add: demo_sel)
  from probe_decides_recovery [OF _ _ this _ _ ex, of 200] ex show ?thesis
    by (simp add: demo_sel) (simp add: demo_defs)
qed

subsection \<open>Breakers that never recover\<close>

text \<open>A half-open breaker that has used up its probes refuses every call and does not change.\<close>

lemma exhausted_half_open:
  assumes "cb_state b = HALF_OPEN" "half_open_max_calls (cb_config b) \<le> cb_half_open_calls b"
  shows "\<exists>e. execute env fn b = (Inl e, False, b)"
  using assms by (simp add: execute_def execute_half_open_def)

lemma exhausted_run:
  assumes "cb_state b = HALF_OPEN" "half_open_max_calls (cb_config b) \<le> cb_half_open_calls b"
  shows "run_calls cs b = b"
proof (induction cs)
  case (Cons c cs)
  obtain env fn where c: "c = (env, fn)" by (cases c)
  from exhausted_half_open [OF assms, of env fn] Cons.IH show ?case by (auto simp: c)
qed simp

text \<open>
  An exception that the breaker does not classify (neither permanent nor an external service
  error, for example a \<open>KeyError\<close> in the callable) during a single-probe recovery leaves the
  circuit half-open for good: however much time passes and whatever the callable would return,
  every later call is refused without invoking it. Only a manual reset leaves this state.
\<close>

theorem unclassified_probe_failure_is_permanent:
  assumes "cb_state b = OPEN" "cb_opened_at b = Some (Iso t)"
    "\<not> elapsed_s (now1 env) t < recovery_timeout_s (cb_config b)"
    "half_open_max_calls (cb_config b) = 1" "\<not> is_permanent e" "\<not> is_retriable e"
  shows "\<exists>b'. execute env (Inl e :: (exn, unit) result) b = (Inl e, True, b') \<and>
    (\<forall>cs env' fn. \<exists>e'. execute env' (fn :: (exn, unit) result) (run_calls cs b') =
       (Inl e', False, run_calls cs b')) \<and>
    (\<forall>env'. cb_state (cb_reset env' b') = CLOSED)"
proof -
  obtain b' where b': "execute env (Inl e :: (exn, unit) result) b = (Inl e, True, b')"
      "cb_state b' = HALF_OPEN" "half_open_max_calls (cb_config b') \<le> cb_half_open_calls b'"
    using assms by (auto simp: execute_def execute_open_def execute_half_open_def Let_def)
  then show ?thesis
    using exhausted_run [OF b'(2,3)] exhausted_half_open [OF b'(2,3)] by (auto simp: cb_reset_def)
qed

theorem unclassified_probe_failure_is_permanent_witness:
  "\<exists>b'. execute (demo_env 60000200) (Inl (PyError ''KeyError'') :: (exn, unit) result) demo_open =
       (Inl (PyError ''KeyError''), True, b') \<and>
     (\<forall>env' fn. \<exists>e'. execute env' (fn :: (exn, unit) result) b' = (Inl e', False, b'))"
proof -
  have "fl_repr (30::rat)" using fl_repr_of_int [of 30] by simp
  then have el: "\<not> elapsed_s (now1 (demo_env 60000200)) 200 < recovery_timeout_s (cb_config demo_open)"
    using elapsed_s_reached [of 30 60000200 200] by (simp add: demo_sel)
  have "half_open_max_calls (cb_config demo_open) = 1" by (simp add: demo_sel)
  from unclassified_probe_failure_is_permanent [OF _ _ el this, of "PyError ''KeyError''"]
  obtain b' where b': "execute (demo_env 60000200) (Inl (PyError ''KeyError'') :: (exn, unit) result)
      demo_open = (Inl (PyError ''KeyError''), True, b')"
    and stuck: "\<forall>cs env' fn. \<exists>e'. execute env' (fn :: (exn, unit) result) (run_calls cs b') =
       (Inl e', False, run_calls cs b')"
    by (auto simp: demo_sel is_permanent_def is_retriable_def)
  from stuck have "\<exists>e'. execute env' (fn :: (exn, unit) result) b' = (Inl e', False, b')" for env' fn
    using run_calls.simps(1) by metis
  with b' show ?thesis by blast
qed

subsection \<open>Restarts\<close>

text \<open>
  A restart restores a tripped breaker: when the state was persisted completely, a new breaker
  on the same Redis contents has the same state, counters and timestamps, with no probe in
  progress.
\<close>

theorem restart_restores_state:
  assumes "cb_redis b = Some r" "cb_opened_at b = Some (Iso t)" "cb_last_failure_at b = Some (Iso u)"
  shows "cb_init (cb_config b) (cb_redis (persist_state_to_redis None b)) None =
    (persist_state_to_redis None b)\<lparr>cb_half_open_calls := 0\<rparr>"
  using assms
  by (simp add: cb_init_def load_state_from_redis_def persist_state_to_redis_def persist_writes_def
      truthy_stamp_def Let_def load_key_def reachable_key_def init_defaults_def)

definition empty_redis :: redis_keys where
  "empty_redis = \<lparr>rk_state = None, rk_failure_count = None, rk_opened_at = None,
     rk_trip_count = None, rk_recovery_count = None, rk_last_failure_at = None\<rparr>"

theorem restart_restores_state_witness:
  "cb_state (cb_init demo_config
     (cb_redis (persist_state_to_redis None (demo_open\<lparr>cb_redis := Some empty_redis\<rparr>))) None) = OPEN"
  using restart_restores_state [of "demo_open\<lparr>cb_redis := Some empty_redis\<rparr>" empty_redis 200 200]
  by (simp add: demo_sel) (simp add: demo_defs)

text \<open>
  A persist that is interrupted after its first write, followed by a restart, leaves a breaker
  whose every call fails with \<open>AssertionError\<close>, whatever the callable does: Redis then says OPEN
  without the time the circuit opened, and a call changes neither. The breaker is started on an
  empty Redis with a threshold of one and trips once.
\<close>

theorem interrupted_persist_breaks_restart:
  fixes fn :: "(exn, unit) result"
  shows "let c = demo_config\<lparr>failure_threshold := 1\<rparr>;
             b0 = cb_init c (Some empty_redis) None;
             b1 = snd (snd (execute ((demo_env 100)\<lparr>persist_fail1 := Some 1\<rparr>)
                    (Inl TransientError :: (exn, unit) result) b0));
             b2 = cb_init c (cb_redis b1) None
         in cb_state b1 = OPEN \<and> cb_opened_at b1 = Some (Iso 100) \<and>
            execute env fn b2 = (Inl (PyError ''AssertionError''), False, b2)"
  by (simp add: Let_def demo_defs empty_redis_def cb_init_def load_state_from_redis_def load_key_def
      reachable_key_def execute_def execute_closed_def execute_open_def is_permanent_def
      is_retriable_def persist_state_to_redis_def persist_writes_def)

text \<open>
  A \<open>CircuitOpenError\<close> that the callable raises (a breaker wrapped around another one) is
  counted as a failure of the outer circuit like any other external service error.
\<close>

theorem nested_open_error_counts:
  assumes "cb_state b = CLOSED" "cb_failure_count b + 1 < failure_threshold (cb_config b)"
  shows "execute env (Inl (CircuitOpenError a s n) :: (exn, unit) result) b =
    (Inl (CircuitOpenError a s n), True,
     b\<lparr>cb_failure_count := cb_failure_count b + 1, cb_last_failure_at := Some (Iso (now1 env))\<rparr>)"
  using assms by (simp add: execute_def execute_closed_def is_permanent_def is_retriable_def Let_def)

theorem nested_open_error_counts_witness:
  "cb_failure_count (snd (snd (execute (demo_env 100)
     (Inl (CircuitOpenError ''inner'' (Iso 0) 5) :: (exn, unit) result) (init_defaults demo_config None)))) = 1"
  using nested_open_error_counts [of "init_defaults demo_config None" "demo_env 100" "''inner''" "Iso 0" 5]
  by (simp add: demo_sel)

end
