(* ===== verification/Dsl_Lexer.thy ===== *)
theory Dsl_Lexer
  imports Prelude
begin

text \<open>
  The lexer of the strategy DSL, \<open>tokenize\<close> of \<open>services/api/services/dsl_validator.py\<close>. A
  character stands for the Unicode code point with its number, so the model covers the sources
  whose characters are below 256; on those, \<open>\d\<close> matches the ASCII digits only and \<open>isalpha\<close> is the
  table below. Error messages are constructors that carry the interpolated values.
\<close>

section \<open>Tokens and errors\<close>

datatype token_type =
  NUMBER | IDENTIFIER | OPERATOR | LOGIC | NOT_TOKEN | PLUS | MINUS | STAR | SLASH
  | LPAREN | RPAREN | COMMA | EOF

record token =
  tok_type :: token_type
  tok_value :: string
  tok_line :: nat
  tok_column :: nat

definition Token :: "token_type \<Rightarrow> string \<Rightarrow> nat \<Rightarrow> nat \<Rightarrow> token" where
  "Token ty v l c = \<lparr>tok_type = ty, tok_value = v, tok_line = l, tok_column = c\<rparr>"

lemma Token_sel [simp]:
  "tok_type (Token ty v l c) = ty" "tok_value (Token ty v l c) = v"
  "tok_line (Token ty v l c) = l" "tok_column (Token ty v l c) = c"
  by (simp_all add: Token_def)

datatype dsl_message =
    EmptyExpression
  | UnexpectedCharacter char
  | Expected token_type string string
  | UnexpectedAfterExpression string
  | UnexpectedToken string
  | WrongArguments string nat nat nat
  | UnknownIndicator string
  | IndicatorWithoutCall string string

record dsl_error =
  err_message :: dsl_message
  err_line :: nat
  err_column :: nat
  err_suggestion :: "string option"

definition DslError :: "dsl_message \<Rightarrow> nat \<Rightarrow> nat \<Rightarrow> string option \<Rightarrow> dsl_error" where
  "DslError m l c s = \<lparr>err_message = m, err_line = l, err_column = c, err_suggestion = s\<rparr>"

section \<open>Character classes and case conversion\<close>

definition code :: "char \<Rightarrow> nat" where
  "code c = of_char c"

definition is_digit :: "char \<Rightarrow> bool" where
  "is_digit c \<longleftrightarrow> 48 \<le> code c \<and> code c \<le> 57"

definition is_upper :: "char \<Rightarrow> bool" where
  "is_upper c \<longleftrightarrow> 65 \<le> code c \<and> code c \<le> 90"

definition is_lower :: "char \<Rightarrow> bool" where
  "is_lower c \<longleftrightarrow> 97 \<le> code c \<and> code c \<le> 122"

definition is_ident_start :: "char \<Rightarrow> bool" where
  "is_ident_start c \<longleftrightarrow> is_upper c \<or> is_lower c \<or> code c = 95"

definition is_ident_char :: "char \<Rightarrow> bool" where
  "is_ident_char c \<longleftrightarrow> is_ident_start c \<or> is_digit c"

definition is_alpha :: "char \<Rightarrow> bool" where
  "is_alpha c \<longleftrightarrow> is_upper c \<or> is_lower c \<or> code c = 170 \<or> code c = 181 \<or> code c = 186 \<or>
     192 \<le> code c \<and> code c \<noteq> 215 \<and> code c \<noteq> 247"

definition is_space :: "char \<Rightarrow> bool" where
  "is_space c \<longleftrightarrow> 9 \<le> code c \<and> code c \<le> 13 \<or> 28 \<le> code c \<and> code c \<le> 32 \<or>
     code c = 133 \<or> code c = 160"

definition to_upper :: "string \<Rightarrow> string" where
  "to_upper s = map (\<lambda>c. if is_lower c then char_of (code c - 32) else c) s"

definition to_lower :: "string \<Rightarrow> string" where
  "to_lower s = map (\<lambda>c. if is_upper c then char_of (code c + 32) else c) s"

definition strip :: "string \<Rightarrow> string" where
  "strip s = rev (dropWhile is_space (rev (dropWhile is_space s)))"

definition newline :: char where
  "newline = char_of (10::nat)"

definition is_blank :: "char \<Rightarrow> bool" where
  "is_blank c \<longleftrightarrow> code c = 32 \<or> code c = 9 \<or> code c = 13"

section \<open>Matching one token\<close>

definition KEYWORDS :: "(string, token_type) dict" where
  "KEYWORDS = [(''AND'', LOGIC), (''OR'', LOGIC), (''NOT'', NOT_TOKEN)]"

definition OPERATORS :: "string list" where
  "OPERATORS = [''<='', ''>='', ''=='', ''!='', ''<'', ''>'']"

fun match_operator :: "string list \<Rightarrow> string \<Rightarrow> string option" where
  "match_operator [] s = None"
| "match_operator (op # ops) s = (if take (length op) s = op then Some op else match_operator ops s)"

definition single_char :: "char \<Rightarrow> token_type option" where
  "single_char ch =
     (if ch = CHR ''('' then Some LPAREN
      else if ch = CHR '')'' then Some RPAREN
      else if ch = CHR '','' then Some COMMA
      else if ch = CHR ''+'' then Some PLUS
      else if ch = CHR ''-'' then Some MINUS
      else if ch = CHR ''*'' then Some STAR
      else if ch = CHR ''/'' then Some SLASH
      else None)"

text \<open>\<open>\d+(\.\d+)?\<close>: greedy, the fraction only if a digit follows the dot.\<close>

definition match_number :: "string \<Rightarrow> string option" where
  "match_number s =
     (let whole = takeWhile is_digit s; rest = dropWhile is_digit s
      in if whole = [] then None
         else case rest of
                c # d # r \<Rightarrow>
                  (if c = CHR ''.'' \<and> is_digit d
                   then Some (whole @ c # takeWhile is_digit (d # r)) else Some whole)
              | _ \<Rightarrow> Some whole)"

definition match_ident :: "string \<Rightarrow> string option" where
  "match_ident s =
     (case s of [] \<Rightarrow> None
      | c # r \<Rightarrow> if is_ident_start c then Some (c # takeWhile is_ident_char r) else None)"

definition ident_type :: "string \<Rightarrow> token_type" where
  "ident_type v = (case dict_get KEYWORDS (to_upper v) of Some ty \<Rightarrow> ty | None \<Rightarrow> IDENTIFIER)"

text \<open>The token at the front of a text whose first character is not white space, tried in the
  order of the source. \<open>prev\<close> is the character before it.\<close>

definition next_token :: "char option \<Rightarrow> string \<Rightarrow> (token_type \<times> string) option" where
  "next_token prev s =
     (case match_operator OPERATORS s of
        Some op \<Rightarrow> Some (OPERATOR, op)
      | None \<Rightarrow>
          (case s of [] \<Rightarrow> None | ch # _ \<Rightarrow>
             (case single_char ch of
                Some ty \<Rightarrow> Some (ty, [ch])
              | None \<Rightarrow>
                  (case (match_number s, prev) of
                     (Some v, None) \<Rightarrow> Some (NUMBER, v)
                   | (Some v, Some p) \<Rightarrow>
                       if \<not> is_alpha p then Some (NUMBER, v)
                       else map_option (\<lambda>v. (ident_type v, v)) (match_ident s)
                   | (None, _) \<Rightarrow> map_option (\<lambda>v. (ident_type v, v)) (match_ident s)))))"

section \<open>A token is a non-empty prefix of the text\<close>

definition token_text_ok :: "string \<Rightarrow> string \<Rightarrow> bool" where
  "token_text_ok s v \<longleftrightarrow> v \<noteq> [] \<and> take (length v) s = v"

lemma match_operator_ok: "match_operator ops s = Some v \<Longrightarrow> [] \<notin> set ops \<Longrightarrow> token_text_ok s v"
  by (induction ops) (auto simp: token_text_ok_def split: if_splits)

lemma takeWhile_prefix: "take (length (takeWhile P s)) s = takeWhile P s"
  by (metis append_eq_conv_conj takeWhile_dropWhile_id)

lemma match_number_ok:
  assumes "match_number s = Some v"
  shows "token_text_ok s v"
proof -
  let ?w = "takeWhile is_digit s"
  have s: "s = ?w @ dropWhile is_digit s" by simp
  have w: "?w \<noteq> []" using assms by (auto simp: match_number_def Let_def)
  consider "v = ?w"
    | c d r where "dropWhile is_digit s = c # d # r" "v = ?w @ c # takeWhile is_digit (d # r)"
    using assms by (auto simp: match_number_def Let_def split: list.splits if_splits)
  then show ?thesis
  proof cases
    case 1
    with w show ?thesis by (simp add: token_text_ok_def takeWhile_prefix)
  next
    case 2
    have "take (length v) (?w @ c # d # r) = v"
      using 2(2) takeWhile_prefix [of is_digit "d # r"] by simp
    with s 2 w show ?thesis by (metis append_is_Nil_conv token_text_ok_def)
  qed
qed

lemma match_ident_ok: "match_ident s = Some v \<Longrightarrow> token_text_ok s v"
  by (auto simp: match_ident_def token_text_ok_def takeWhile_prefix split: list.splits if_splits)

lemma next_token_ok: "next_token prev s = Some (ty, v) \<Longrightarrow> token_text_ok s v"
proof -
  assume "next_token prev s = Some (ty, v)"
  then consider "match_operator OPERATORS s = Some v" | ch r where "s = ch # r" "v = [ch]"
    | "match_number s = Some v" | "match_ident s = Some v"
    by (auto simp: next_token_def split: option.splits list.splits if_splits)
  then show ?thesis
  proof cases
    case 1
    then show ?thesis by (rule match_operator_ok) (simp add: OPERATORS_def)
  next
    case 2
    then show ?thesis by (simp add: token_text_ok_def)
  qed (simp_all add: match_number_ok match_ident_ok)
qed

section \<open>The lexer\<close>

function tokenize_loop :: "char option \<Rightarrow> nat \<Rightarrow> nat \<Rightarrow> string \<Rightarrow> (dsl_error, token list) result" where
  "tokenize_loop prev line col [] = Inr [Token EOF '''' line col]"
| "tokenize_loop prev line col (ch # rest) =
     (if ch = newline then tokenize_loop (Some ch) (line + 1) 1 rest
      else if is_blank ch then tokenize_loop (Some ch) line (col + 1) rest
      else case next_token prev (ch # rest) of
             Some (ty, v) \<Rightarrow>
               bind_r (tokenize_loop (Some (last v)) line (col + length v)
                         (drop (length v) (ch # rest)))
                 (\<lambda>ts. Inr (Token ty v line col # ts))
           | None \<Rightarrow> Inl (DslError (UnexpectedCharacter ch) line col None))"
  by pat_completeness auto
termination
  by (relation "measure (\<lambda>(_, _, _, s). length s)")
    (auto dest: next_token_ok simp: token_text_ok_def)

definition tokenize :: "string \<Rightarrow> (dsl_error, token list) result" where
  "tokenize source = tokenize_loop None 1 1 source"

section \<open>Properties of the lexer\<close>

definition is_ws :: "char \<Rightarrow> bool" where
  "is_ws c \<longleftrightarrow> c = newline \<or> is_blank c"

lemma code_newline [simp]: "code newline = 10"
  by (simp add: code_def newline_def)

lemma is_ws_code: "is_ws c \<longleftrightarrow> code c \<in> {9, 10, 13, 32}"
proof -
  have "c = newline \<longleftrightarrow> code c = 10"
    by (metis code_def code_newline char_of_char newline_def)
  then show ?thesis by (auto simp: is_ws_def is_blank_def)
qed

lemma not_ws_classes:
  "is_digit c \<Longrightarrow> \<not> is_ws c" "is_ident_char c \<Longrightarrow> \<not> is_ws c" "is_ident_start c \<Longrightarrow> \<not> is_ws c"
  by (auto simp: is_ws_code is_digit_def is_ident_char_def is_ident_start_def is_upper_def is_lower_def)

lemma match_operator_mem: "match_operator ops s = Some v \<Longrightarrow> v \<in> set ops"
  by (induction ops) (auto split: if_splits)

lemma operator_no_ws: "v \<in> set OPERATORS \<Longrightarrow> list_all (\<lambda>c. \<not> is_ws c) v"
  by (auto simp: OPERATORS_def is_ws_code code_def)

lemma match_number_no_ws: "match_number s = Some v \<Longrightarrow> list_all (\<lambda>c. \<not> is_ws c) v"
proof -
  assume "match_number s = Some v"
  then have "list_all (\<lambda>c. is_digit c \<or> c = CHR ''.'') v"
    by (auto simp: match_number_def Let_def list_all_iff dest: set_takeWhileD
        split: list.splits if_splits)
  moreover have "\<not> is_ws CHR ''.''" by (simp add: is_ws_code code_def)
  ultimately show ?thesis by (auto simp: list_all_iff dest: not_ws_classes)
qed

lemma match_ident_no_ws: "match_ident s = Some v \<Longrightarrow> list_all (\<lambda>c. \<not> is_ws c) v"
  by (auto simp: match_ident_def list_all_iff dest!: set_takeWhileD dest: not_ws_classes
      split: list.splits if_splits)

lemma next_token_no_ws:
  assumes "next_token prev (ch # rest) = Some (ty, v)" "\<not> is_ws ch"
  shows "list_all (\<lambda>c. \<not> is_ws c) v"
proof -
  from assms(1) consider "match_operator OPERATORS (ch # rest) = Some v" | "v = [ch]"
    | "match_number (ch # rest) = Some v" | "match_ident (ch # rest) = Some v"
    by (auto simp: next_token_def split: option.splits if_splits)
  then show ?thesis
    by cases (use assms(2) in \<open>auto simp: operator_no_ws match_number_no_ws match_ident_no_ws
        dest: match_operator_mem\<close>)
qed

lemma ident_type_not_EOF: "ident_type v \<noteq> EOF"
  by (simp add: ident_type_def KEYWORDS_def split: option.splits)

lemma single_char_not_EOF: "single_char c = Some ty \<Longrightarrow> ty \<noteq> EOF"
  by (auto simp: single_char_def split: if_splits)

lemma next_token_not_EOF: "next_token prev s = Some (ty, v) \<Longrightarrow> ty \<noteq> EOF"
  by (auto simp: next_token_def ident_type_not_EOF dest: single_char_not_EOF
      split: option.splits list.splits if_splits)

text \<open>A well-formed token stream ends with its only \<open>EOF\<close>.\<close>

definition stream_ok :: "token list \<Rightarrow> bool" where
  "stream_ok ts \<longleftrightarrow> ts \<noteq> [] \<and> tok_type (last ts) = EOF \<and> EOF \<notin> tok_type ` set (butlast ts)"

lemma stream_ok_Cons: "stream_ok ts \<Longrightarrow> tok_type t \<noteq> EOF \<Longrightarrow> stream_ok (t # ts)"
  by (auto simp: stream_ok_def)

lemma tokenize_loop_sound:
  assumes "tokenize_loop prev line col s = Inr ts"
  shows "concat (map tok_value ts) = filter (\<lambda>c. \<not> is_ws c) s \<and> stream_ok ts"
  using assms
proof (induction prev line col s arbitrary: ts rule: tokenize_loop.induct)
  case (1 prev line col)
  then show ?case by (auto simp: stream_ok_def)
next
  case (2 prev line col ch rest)
  show ?case
  proof (cases "is_ws ch")
    case True
    with 2 show ?thesis by (auto simp: is_ws_def split: if_splits)
  next
    case False
    then have nows: "ch \<noteq> newline" "\<not> is_blank ch" by (auto simp: is_ws_def)
    with "2.prems" obtain ty v ts' where nt: "next_token prev (ch # rest) = Some (ty, v)"
      and rec: "tokenize_loop (Some (last v)) line (col + length v) (drop (length v) (ch # rest)) = Inr ts'"
      and ts: "ts = Token ty v line col # ts'"
      by (auto simp: bind_r_Inr_iff split: option.splits prod.splits)
    from "2.IH"(3) [OF nows nt refl rec]
    have IH: "concat (map tok_value ts') = filter (\<lambda>c. \<not> is_ws c) (drop (length v) (ch # rest))"
      "stream_ok ts'" by auto
    have "take (length v) (ch # rest) = v"
      using next_token_ok [OF nt] by (simp add: token_text_ok_def)
    then have "filter (\<lambda>c. \<not> is_ws c) (ch # rest) =
        filter (\<lambda>c. \<not> is_ws c) v @ filter (\<lambda>c. \<not> is_ws c) (drop (length v) (ch # rest))"
      by (metis append_take_drop_id filter_append)
    moreover have "filter (\<lambda>c. \<not> is_ws c) v = v"
      using next_token_no_ws [OF nt False] by (simp add: list_all_iff)
    ultimately show ?thesis
      using IH ts next_token_not_EOF [OF nt] by (simp add: stream_ok_Cons)
  qed
qed

text \<open>
  Lexing loses nothing: when \<open>tokenize\<close> succeeds, the texts of its tokens, in order, are the
  source with exactly the blanks, tabs, carriage returns and newlines removed, and the stream ends
  with its only \<open>EOF\<close> token.
\<close>

theorem tokenize_lossless:
  assumes "tokenize source = Inr ts"
  shows "concat (map tok_value ts) = filter (\<lambda>c. \<not> is_ws c) source \<and> stream_ok ts"
  using assms tokenize_loop_sound by (simp add: tokenize_def)

theorem tokenize_lossless_witness:
  "\<exists>ts. tokenize ''RSI(14) <= 30.5'' = Inr ts \<and>
     map tok_value ts = [''RSI'', ''('', ''14'', '')'', ''<='', ''30.5'', ''''] \<and>
     concat (map tok_value ts) = ''RSI(14)<=30.5''"
proof -
  let ?ts = "[Token IDENTIFIER ''RSI'' 1 1, Token LPAREN ''('' 1 4, Token NUMBER ''14'' 1 5,
    Token RPAREN '')'' 1 7, Token OPERATOR ''<='' 1 9, Token NUMBER ''30.5'' 1 12, Token EOF '''' 1 16]"
  have ts: "tokenize ''RSI(14) <= 30.5'' = Inr ?ts"
    by code_simp
  from tokenize_lossless [OF ts] show ?thesis using ts by simp
qed

end
