(* ===== verification/Dsl_Parser.thy ===== *)
theory Dsl_Parser
  imports Dsl_Lexer
begin

text \<open>
  The recursive-descent parser \<open>_Parser\<close> of \<open>services/api/services/dsl_validator.py\<close> and the
  entry point \<open>validate_dsl\<close>. The parser object is a record; every method takes it and returns the
  new one. The mutually recursive methods carry fuel, and \<open>None\<close> means that it ran out; the lemma
  \<open>parse_enough\<close> shows that the fuel \<open>parse\<close> supplies always suffices, so \<open>validate_dsl\<close> returns
  for every input. (CPython's limit on the depth of recursion is not modelled.)
\<close>

section \<open>Registry\<close>

definition SUPPORTED_INDICATORS :: "(string, nat \<times> nat) dict" where
  "SUPPORTED_INDICATORS =
     [(''RSI'', 1, 1), (''SMA'', 1, 1), (''EMA'', 1, 1), (''MACD'', 3, 3), (''BBANDS'', 1, 2),
      (''ATR'', 1, 1), (''STOCH'', 2, 3), (''VWAP'', 0, 0), (''ADX'', 1, 1), (''CCI'', 1, 1),
      (''MFI'', 1, 1), (''OBV'', 0, 0), (''WILLR'', 1, 1), (''ROC'', 1, 1)]"

definition BUILTIN_VARIABLES :: "string list" where
  "BUILTIN_VARIABLES = [''price'', ''open'', ''high'', ''low'', ''close'', ''volume'']"

definition get_supported_indicators :: "(string, nat \<times> nat) dict" where
  "get_supported_indicators = SUPPORTED_INDICATORS"

text \<open>The sorted lists that the error messages and \<open>get_builtin_variables\<close> show.\<close>

definition sorted_indicators :: "string list" where
  "sorted_indicators =
     [''ADX'', ''ATR'', ''BBANDS'', ''CCI'', ''EMA'', ''MACD'', ''MFI'', ''OBV'', ''ROC'', ''RSI'',
      ''SMA'', ''STOCH'', ''VWAP'', ''WILLR'']"

definition get_builtin_variables :: "string list" where
  "get_builtin_variables = [''close'', ''high'', ''low'', ''open'', ''price'', ''volume'']"

fun join :: "string \<Rightarrow> string list \<Rightarrow> string" where
  "join sep [] = []"
| "join sep [x] = x"
| "join sep (x # xs) = x @ sep @ join sep xs"

definition quoted :: "string \<Rightarrow> string" where
  "quoted s = CHR 0x27 # s @ [CHR 0x27]"

section \<open>The parser object\<close>

record parser =
  p_tokens :: "token list"
  p_pos :: nat
  p_errors :: "dsl_error list"
  p_indicators :: "string set"
  p_variables :: "string set"

record dsl_validation_result =
  is_valid :: bool
  errors :: "dsl_error list"
  indicators_used :: "string set"
  variables_used :: "string set"

definition parser_init :: "token list \<Rightarrow> parser" where
  "parser_init ts = \<lparr>p_tokens = ts, p_pos = 0, p_errors = [], p_indicators = {}, p_variables = {}\<rparr>"

definition current :: "parser \<Rightarrow> token" where
  "current p = p_tokens p ! min (p_pos p) (length (p_tokens p) - 1)"

abbreviation cur :: "parser \<Rightarrow> token_type" where
  "cur p \<equiv> tok_type (current p)"

definition advance :: "parser \<Rightarrow> parser" where
  "advance p = (if p_pos p < length (p_tokens p) - 1 then p\<lparr>p_pos := p_pos p + 1\<rparr> else p)"

definition add_error :: "dsl_error \<Rightarrow> parser \<Rightarrow> parser" where
  "add_error e p = p\<lparr>p_errors := p_errors p @ [e]\<rparr>"

definition expect :: "token_type \<Rightarrow> string \<Rightarrow> parser \<Rightarrow> parser" where
  "expect ty context p =
     (if cur p = ty then advance p
      else add_error (DslError (Expected ty context (tok_value (current p)))
             (tok_line (current p)) (tok_column (current p)) None) p)"

text \<open>The checks after a call's closing parenthesis (\<open>_parse_primary\<close>).\<close>

definition check_call :: "token \<Rightarrow> nat \<Rightarrow> parser \<Rightarrow> parser" where
  "check_call ident args p =
     (let upper_name = to_upper (tok_value ident)
      in case dict_get SUPPORTED_INDICATORS upper_name of
           Some (min_args, max_args) \<Rightarrow>
             let p1 = p\<lparr>p_indicators := insert upper_name (p_indicators p)\<rparr>
             in if args < min_args \<or> max_args < args then
                  add_error (DslError (WrongArguments upper_name min_args max_args args)
                    (tok_line ident) (tok_column ident)
                    (Some (''Use '' @ upper_name @ ''('' @
                           join '', '' (replicate min_args ''<value>'') @ '')''))) p1
                else p1
         | None \<Rightarrow>
             add_error (DslError (UnknownIndicator (tok_value ident))
               (tok_line ident) (tok_column ident)
               (Some (''Supported indicators: '' @ join '', '' sorted_indicators))) p)"

text \<open>A plain identifier (\<open>_parse_primary\<close>).\<close>

definition check_ident :: "token \<Rightarrow> parser \<Rightarrow> parser" where
  "check_ident ident p =
     (let name = tok_value ident; upper_name = to_upper name
      in if to_lower name \<in> set BUILTIN_VARIABLES
         then p\<lparr>p_variables := insert (to_lower name) (p_variables p)\<rparr>
         else if dict_has SUPPORTED_INDICATORS upper_name then
           add_error (DslError (IndicatorWithoutCall name upper_name)
             (tok_line ident) (tok_column ident)
             (Some (''Add parentheses: '' @ upper_name @ ''(14)''))) p
         else p\<lparr>p_variables := insert name (p_variables p)\<rparr>)"

text \<open>No alternative of \<open>_parse_primary\<close> matched: report the token and consume it.\<close>

definition bad_token :: "parser \<Rightarrow> parser" where
  "bad_token p =
     (let tok = current p;
          suggestion = (if tok_type tok = EOF then Some ''Complete the expression''
                        else if tok_type tok = LOGIC
                        then Some ''Add a condition before the logical operator'' else None)
      in advance (add_error (DslError (UnexpectedToken (tok_value tok))
           (tok_line tok) (tok_column tok) suggestion) p))"

section \<open>The recursive descent\<close>

fun parse_expression :: "nat \<Rightarrow> parser \<Rightarrow> parser option"
and expression_loop :: "nat \<Rightarrow> parser \<Rightarrow> parser option"
and parse_comparison :: "nat \<Rightarrow> parser \<Rightarrow> parser option"
and parse_term :: "nat \<Rightarrow> parser \<Rightarrow> parser option"
and term_loop :: "nat \<Rightarrow> parser \<Rightarrow> parser option"
and parse_unary :: "nat \<Rightarrow> parser \<Rightarrow> parser option"
and parse_primary :: "nat \<Rightarrow> parser \<Rightarrow> parser option"
and args_loop :: "nat \<Rightarrow> nat \<Rightarrow> parser \<Rightarrow> (nat \<times> parser) option" where
  "parse_expression 0 p = None"
| "parse_expression (Suc f) p = Option.bind (parse_comparison f p) (expression_loop f)"
| "expression_loop 0 p = None"
| "expression_loop (Suc f) p =
     (if cur p = LOGIC
      then Option.bind (parse_comparison f (advance p)) (expression_loop f)
      else Some p)"
| "parse_comparison 0 p = None"
| "parse_comparison (Suc f) p =
     Option.bind (parse_term f p)
       (\<lambda>p1. if cur p1 = OPERATOR then parse_term f (advance p1) else Some p1)"
| "parse_term 0 p = None"
| "parse_term (Suc f) p = Option.bind (parse_unary f p) (term_loop f)"
| "term_loop 0 p = None"
| "term_loop (Suc f) p =
     (if cur p = PLUS \<or> cur p = MINUS
      then Option.bind (parse_unary f (advance p)) (term_loop f)
      else Some p)"
| "parse_unary 0 p = None"
| "parse_unary (Suc f) p =
     parse_primary f (if cur p = NOT_TOKEN \<or> cur p = MINUS then advance p else p)"
| "parse_primary 0 p = None"
| "parse_primary (Suc f) p =
     (if cur p = NUMBER then Some (advance p)
      else if cur p = LPAREN then
        Option.bind (parse_expression f (advance p))
          (\<lambda>p1. Some (expect RPAREN (''to close '' @ quoted ''('') p1))
      else if cur p = IDENTIFIER then
        (let ident = current p; p1 = advance p
         in if cur p1 = LPAREN then
              (let p2 = advance p1
               in Option.bind
                    (if cur p2 \<noteq> RPAREN
                     then Option.bind (parse_expression f p2) (args_loop f 1)
                     else Some (0, p2))
                    (\<lambda>(n, p3). Some (check_call ident n
                       (expect RPAREN (''to close '' @ tok_value ident @ ''()'') p3))))
            else Some (check_ident ident p1))
      else Some (bad_token p))"
| "args_loop 0 n p = None"
| "args_loop (Suc f) n p =
     (if cur p = COMMA
      then Option.bind (parse_expression f (advance p)) (args_loop f (n + 1))
      else Some (n, p))"

definition empty_result :: dsl_validation_result where
  "empty_result =
     \<lparr>is_valid = False,
      errors = [DslError EmptyExpression 1 1 (Some (''Enter a condition like '' @ quoted ''RSI(14) < 30''))],
      indicators_used = {}, variables_used = {}\<rparr>"

definition parse_fuel :: "token list \<Rightarrow> nat" where
  "parse_fuel ts = 6 * length ts + 5"

definition parse :: "parser \<Rightarrow> dsl_validation_result option" where
  "parse p =
     (if cur p = EOF then Some empty_result
      else Option.bind (parse_expression (parse_fuel (p_tokens p)) p)
        (\<lambda>p1.
           let p2 = (if cur p1 \<noteq> EOF
                     then add_error (DslError (UnexpectedAfterExpression (tok_value (current p1)))
                            (tok_line (current p1)) (tok_column (current p1)) None) p1
                     else p1)
           in Some \<lparr>is_valid = (length (p_errors p2) = 0), errors = p_errors p2,
                    indicators_used = p_indicators p2, variables_used = p_variables p2\<rparr>))"

definition validate_dsl :: "string \<Rightarrow> dsl_validation_result option" where
  "validate_dsl source =
     (if source = [] \<or> strip source = [] then Some empty_result
      else case tokenize (strip source) of
             Inl e \<Rightarrow> Some \<lparr>is_valid = False, errors = [e], indicators_used = {}, variables_used = {}\<rparr>
           | Inr ts \<Rightarrow> parse (parser_init ts))"

section \<open>Progress and termination\<close>

definition wf_parser :: "parser \<Rightarrow> bool" where
  "wf_parser p \<longleftrightarrow> stream_ok (p_tokens p) \<and> p_pos p < length (p_tokens p)"

text \<open>The tokens after the current one.\<close>

definition remaining :: "parser \<Rightarrow> nat" where
  "remaining p = length (p_tokens p) - 1 - p_pos p"

text \<open>\<open>extends p q\<close>: parsing went from \<open>p\<close> to \<open>q\<close>, never backwards, and only added errors.\<close>

definition extends :: "parser \<Rightarrow> parser \<Rightarrow> bool" where
  "extends p q \<longleftrightarrow> p_tokens q = p_tokens p \<and> p_pos p \<le> p_pos q \<and> p_pos q < length (p_tokens p) \<and>
     (\<exists>es. p_errors q = p_errors p @ es)"

lemma current_wf: "wf_parser p \<Longrightarrow> current p = p_tokens p ! p_pos p"
  by (auto simp: wf_parser_def current_def min_def)

lemma not_EOF_pos:
  assumes "wf_parser p" "cur p \<noteq> EOF"
  shows "p_pos p < length (p_tokens p) - 1"
proof (rule ccontr)
  assume "\<not> p_pos p < length (p_tokens p) - 1"
  with assms(1) have "p_pos p = length (p_tokens p) - 1" "p_tokens p \<noteq> []"
    by (auto simp: wf_parser_def)
  then have "current p = last (p_tokens p)"
    using assms(1) by (simp add: current_wf last_conv_nth)
  with assms show False by (simp add: wf_parser_def stream_ok_def)
qed

lemma extends_refl: "wf_parser p \<Longrightarrow> extends p p"
  by (simp add: extends_def wf_parser_def)

lemma extends_trans: "extends p q \<Longrightarrow> extends q r \<Longrightarrow> extends p r"
  by (auto simp: extends_def)

lemma extends_wf: "extends p q \<Longrightarrow> wf_parser p \<Longrightarrow> wf_parser q"
  by (auto simp: extends_def wf_parser_def)

lemma extends_advance: "wf_parser p \<Longrightarrow> extends p (advance p)"
  by (auto simp: extends_def wf_parser_def advance_def)

lemma extends_add_error: "wf_parser p \<Longrightarrow> extends p (add_error e p)"
  by (simp add: extends_def wf_parser_def add_error_def)

lemma extends_expect: "wf_parser p \<Longrightarrow> extends p (expect ty c p)"
  by (simp add: expect_def extends_advance extends_add_error)

lemma extends_check_call: "wf_parser p \<Longrightarrow> extends p (check_call t n p)"
  by (auto simp: check_call_def Let_def add_error_def extends_def wf_parser_def split: option.splits)

lemma extends_check_ident: "wf_parser p \<Longrightarrow> extends p (check_ident t p)"
  by (auto simp: check_ident_def Let_def add_error_def extends_def wf_parser_def)

lemma extends_bad_token: "wf_parser p \<Longrightarrow> extends p (bad_token p)"
  unfolding bad_token_def Let_def
  by (rule extends_trans [OF extends_add_error extends_advance])
    (auto intro: extends_wf [OF extends_add_error])

lemma remaining_extends: "extends p q \<Longrightarrow> remaining q \<le> remaining p"
  by (auto simp: extends_def remaining_def)

lemma remaining_advance: "wf_parser p \<Longrightarrow> cur p \<noteq> EOF \<Longrightarrow> remaining (advance p) < remaining p"
  using not_EOF_pos [of p] by (auto simp: remaining_def advance_def)

text \<open>A parsing method only moves forward.\<close>

definition forward :: "(parser \<Rightarrow> parser option) \<Rightarrow> bool" where
  "forward m \<longleftrightarrow> (\<forall>p p'. wf_parser p \<longrightarrow> m p = Some p' \<longrightarrow> extends p p')"

lemma forwardD: "forward m \<Longrightarrow> wf_parser p \<Longrightarrow> m p = Some p' \<Longrightarrow> extends p p'"
  by (simp add: forward_def)

lemma forward_bind: "forward m \<Longrightarrow> forward k \<Longrightarrow> forward (\<lambda>p. Option.bind (m p) k)"
  unfolding forward_def by (auto simp: bind_eq_Some_conv) (metis extends_trans extends_wf)

lemma forward_advance: "forward m \<Longrightarrow> forward (\<lambda>p. m (advance p))"
  unfolding forward_def by (metis extends_advance extends_trans extends_wf)

lemma forward_if: "forward m \<Longrightarrow> forward k \<Longrightarrow> forward (\<lambda>p. if P p then m p else k p)"
  by (simp add: forward_def)

lemma forward_Some: "(\<And>p. wf_parser p \<Longrightarrow> extends p (g p)) \<Longrightarrow> forward (\<lambda>p. Some (g p))"
  by (simp add: forward_def)

lemmas forward_rules = forward_bind forward_advance forward_if forward_Some

definition forward_args :: "nat \<Rightarrow> bool" where
  "forward_args f \<longleftrightarrow> (\<forall>n. forward (\<lambda>p. map_option snd (args_loop f n p)))"

lemma forward_argsD:
  "forward_args f \<Longrightarrow> wf_parser p \<Longrightarrow> args_loop f n p = Some (m, p') \<Longrightarrow> extends p p'"
  unfolding forward_args_def forward_def by (metis option.map(2) snd_conv)

text \<open>A call's argument list, and the rest of the call.\<close>

definition call_args :: "nat \<Rightarrow> parser \<Rightarrow> (nat \<times> parser) option" where
  "call_args f p =
     (if cur p \<noteq> RPAREN then Option.bind (parse_expression f p) (args_loop f 1) else Some (0, p))"

lemma parse_primary_Suc:
  "parse_primary (Suc f) p =
     (if cur p = NUMBER then Some (advance p)
      else if cur p = LPAREN then
        Option.bind (parse_expression f (advance p))
          (\<lambda>p1. Some (expect RPAREN (''to close '' @ quoted ''('') p1))
      else if cur p = IDENTIFIER then
        (if cur (advance p) = LPAREN then
           Option.bind (call_args f (advance (advance p)))
             (\<lambda>(n, p3). Some (check_call (current p) n
                (expect RPAREN (''to close '' @ tok_value (current p) @ ''()'') p3)))
         else Some (check_ident (current p) (advance p)))
      else Some (bad_token p))"
  by (simp add: call_args_def Let_def)

lemma call_args_extends:
  assumes "forward (parse_expression f)" "forward_args f" "wf_parser p" "call_args f p = Some (n, q)"
  shows "extends p q"
proof (cases "cur p = RPAREN")
  case True
  with assms(3,4) show ?thesis by (simp add: call_args_def extends_refl)
next
  case False
  with assms(4) obtain p1 where p1: "parse_expression f p = Some p1" "args_loop f 1 p1 = Some (n, q)"
    by (auto simp: call_args_def bind_eq_Some_conv)
  have e: "extends p p1" using assms(1,3) p1(1) by (rule forwardD)
  from forward_argsD [OF assms(2) extends_wf [OF e assms(3)] p1(2)] show ?thesis
    using e by (rule extends_trans [rotated])
qed

lemma forward_primary:
  assumes "forward (parse_expression f)" "forward_args f"
  shows "forward (parse_primary (Suc f))"
  unfolding forward_def
proof (intro allI impI)
  fix p p' assume wf: "wf_parser p" and run: "parse_primary (Suc f) p = Some p'"
  note a1 = extends_advance [OF wf]
  note w1 = extends_wf [OF a1 wf]
  note a2 = extends_trans [OF a1 extends_advance [OF w1]]
  note w2 = extends_wf [OF a2 wf]
  consider (num) "p' = advance p"
    | (paren) p1 c where "parse_expression f (advance p) = Some p1" "p' = expect RPAREN c p1"
    | (call) n p3 c where "call_args f (advance (advance p)) = Some (n, p3)"
        "p' = check_call (current p) n (expect RPAREN c p3)"
    | (ident) "p' = check_ident (current p) (advance p)" | (bad) "p' = bad_token p"
    using run unfolding parse_primary_Suc by (auto simp: bind_eq_Some_conv split: if_splits)
  then show "extends p p'"
  proof cases
    case num
    then show ?thesis using a1 by simp
  next
    case paren
    have "extends p p1" using forwardD [OF assms(1) w1 paren(1)] a1 by (rule extends_trans [rotated])
    then show ?thesis
      using extends_trans extends_expect [OF extends_wf [OF _ wf]] paren(2) by blast
  next
    case call
    have e: "extends p p3"
      using call_args_extends [OF assms w2 call(1)] a2 by (rule extends_trans [rotated])
    note e1 = extends_expect [OF extends_wf [OF e wf], of RPAREN c]
    note e2 = extends_trans [OF e e1]
    from extends_trans [OF e2 extends_check_call [OF extends_wf [OF e2 wf]]] call(2) show ?thesis
      by simp
  next
    case ident
    then show ?thesis using extends_trans [OF a1 extends_check_ident [OF w1]] by simp
  next
    case bad
    then show ?thesis using extends_bad_token [OF wf] by simp
  qed
qed

lemma forward_args_Suc:
  assumes "forward (parse_expression f)" "forward_args f"
  shows "forward_args (Suc f)"
  unfolding forward_args_def
proof
  fix n
  have "forward (\<lambda>p. if cur p = COMMA
      then Option.bind (parse_expression f (advance p)) (\<lambda>q. map_option snd (args_loop f (n + 1) q))
      else Some p)"
    using assms unfolding forward_args_def
    by (intro forward_if forward_bind forward_advance forward_Some extends_refl) auto
  moreover have "map_option snd (args_loop (Suc f) n p) = (if cur p = COMMA
      then Option.bind (parse_expression f (advance p)) (\<lambda>q. map_option snd (args_loop f (n + 1) q))
      else Some p)" for p
    by (cases "parse_expression f (advance p)") auto
  ultimately show "forward (\<lambda>p. map_option snd (args_loop (Suc f) n p))" by simp
qed

lemma forward_all:
  "forward (parse_expression f) \<and> forward (expression_loop f) \<and> forward (parse_comparison f) \<and>
   forward (parse_term f) \<and> forward (term_loop f) \<and> forward (parse_unary f) \<and>
   forward (parse_primary f) \<and> forward_args f"
proof (induction f)
  case 0
  show ?case by (simp add: forward_def forward_args_def)
next
  case (Suc f)
  then have IH: "forward (parse_expression f)" "forward (expression_loop f)"
    "forward (parse_comparison f)" "forward (parse_term f)" "forward (term_loop f)"
    "forward (parse_unary f)" "forward (parse_primary f)" "forward_args f" by auto
  have "forward (\<lambda>p. parse_expression (Suc f) p)"
    unfolding parse_expression.simps by (intro forward_rules IH)
  moreover have "forward (\<lambda>p. expression_loop (Suc f) p)"
    unfolding expression_loop.simps by (intro forward_rules IH extends_refl)
  moreover have "forward (\<lambda>p. parse_comparison (Suc f) p)"
    unfolding parse_comparison.simps by (intro forward_rules IH extends_refl)
  moreover have "forward (\<lambda>p. parse_term (Suc f) p)"
    unfolding parse_term.simps by (intro forward_rules IH)
  moreover have "forward (\<lambda>p. term_loop (Suc f) p)"
    unfolding term_loop.simps by (intro forward_rules IH extends_refl)
  moreover have "forward (\<lambda>p. parse_unary (Suc f) p)"
    unfolding parse_unary.simps if_distrib [of "parse_primary f"] by (intro forward_rules IH)
  moreover have "forward (parse_primary (Suc f))" using IH(1,8) by (rule forward_primary)
  moreover have "forward_args (Suc f)" using IH(1,8) by (rule forward_args_Suc)
  ultimately show ?case by blast
qed

lemmas forward_methods =
  forward_all [THEN conjunct1]
  forward_all [THEN conjunct2, THEN conjunct1]
  forward_all [THEN conjunct2, THEN conjunct2, THEN conjunct1]
  forward_all [THEN conjunct2, THEN conjunct2, THEN conjunct2, THEN conjunct1]
  forward_all [THEN conjunct2, THEN conjunct2, THEN conjunct2, THEN conjunct2, THEN conjunct1]
  forward_all [THEN conjunct2, THEN conjunct2, THEN conjunct2, THEN conjunct2, THEN conjunct2,
    THEN conjunct1]
  forward_all [THEN conjunct2, THEN conjunct2, THEN conjunct2, THEN conjunct2, THEN conjunct2,
    THEN conjunct2, THEN conjunct1]

lemma forward_args_all: "forward_args f"
  using forward_all by blast

text \<open>With at least \<open>6 * remaining p + k\<close> fuel the method returns. The offset \<open>k\<close> orders the methods
  by the calls they make before they consume a token.\<close>

definition returns :: "nat \<Rightarrow> nat \<Rightarrow> (parser \<Rightarrow> 'b option) \<Rightarrow> bool" where
  "returns k f m \<longleftrightarrow> (\<forall>p. wf_parser p \<longrightarrow> 6 * remaining p + k \<le> f \<longrightarrow> m p \<noteq> None)"

lemma returnsD: "returns k f m \<Longrightarrow> wf_parser p \<Longrightarrow> 6 * remaining p + k \<le> f \<Longrightarrow> \<exists>x. m p = Some x"
  by (auto simp: returns_def)

lemma returns_bind:
  assumes "returns k f m" "forward m" "returns j f n" "j \<le> k"
  shows "returns k f (\<lambda>p. Option.bind (m p) n)"
  unfolding returns_def
proof (intro allI impI)
  fix p assume wf: "wf_parser p" and fuel: "6 * remaining p + k \<le> f"
  obtain q where q: "m p = Some q" using assms(1) wf fuel by (auto dest: returnsD)
  have e: "extends p q" using assms(2) wf q by (rule forwardD)
  have "6 * remaining q + j \<le> f" using remaining_extends [OF e] fuel assms(4) by linarith
  with returnsD [OF assms(3) extends_wf [OF e wf]] q show "Option.bind (m p) n \<noteq> None" by auto
qed

lemma returns_advance:
  assumes "returns k f m" "\<And>p. P p \<Longrightarrow> cur p \<noteq> EOF" "k \<le> j + 6"
  shows "returns j f (\<lambda>p. if P p then m (advance p) else Some (g p))"
  unfolding returns_def
proof (intro allI impI)
  fix p assume wf: "wf_parser p" and fuel: "6 * remaining p + j \<le> f"
  show "(if P p then m (advance p) else Some (g p)) \<noteq> None"
  proof (cases "P p")
    case True
    then have "remaining (advance p) < remaining p" using wf assms(2) by (intro remaining_advance) auto
    then have "6 * remaining (advance p) + k \<le> f" using fuel assms(3) by linarith
    with returnsD [OF assms(1) extends_wf [OF extends_advance [OF wf] wf]] True show ?thesis by auto
  qed simp
qed

lemma returns_mono:
  assumes "returns k f m" "k + f' \<le> j + f"
  shows "returns j f' m"
  unfolding returns_def
proof (intro allI impI)
  fix p assume "wf_parser p" "6 * remaining p + j \<le> f'"
  with assms show "m p \<noteq> None" by (auto simp: returns_def)
qed

lemma returns_optional_advance:
  assumes "returns k f m"
  shows "returns k f (\<lambda>p. m (if P p then advance p else p))"
  unfolding returns_def
proof (intro allI impI)
  fix p assume wf: "wf_parser p" and fuel: "6 * remaining p + k \<le> f"
  note e = extends_advance [OF wf]
  have "6 * remaining (advance p) + k \<le> f" using remaining_extends [OF e] fuel by linarith
  with assms wf fuel extends_wf [OF e wf] show "m (if P p then advance p else p) \<noteq> None"
    by (auto simp: returns_def)
qed

lemma returns_call_args:
  assumes "returns 5 f (parse_expression f)" "\<And>n. returns 1 f (args_loop f n)"
  shows "returns 5 f (call_args f)"
proof -
  have "returns 5 f (\<lambda>p. Option.bind (parse_expression f p) (args_loop f 1))"
    using assms(1) forward_methods(1) assms(2) by (rule returns_bind) simp
  then show ?thesis by (auto simp: returns_def call_args_def)
qed

lemma returns_primary:
  assumes "returns 5 f (parse_expression f)" "\<And>n. returns 1 f (args_loop f n)"
  shows "returns 1 (Suc f) (parse_primary (Suc f))"
  unfolding returns_def
proof (intro allI impI)
  fix p assume wf: "wf_parser p" and fuel: "6 * remaining p + 1 \<le> Suc f"
  note w1 = extends_wf [OF extends_advance [OF wf] wf]
  note w2 = extends_wf [OF extends_advance [OF w1] w1]
  show "parse_primary (Suc f) p \<noteq> None"
  proof (cases "cur p = LPAREN \<or> cur p = IDENTIFIER")
    case True
    then have "cur p \<noteq> EOF" by auto
    then have r1: "remaining (advance p) < remaining p" using wf by (rule remaining_advance [rotated])
    have f1: "6 * remaining (advance p) + 5 \<le> f" using r1 fuel by linarith
    have f2: "6 * remaining (advance (advance p)) + 5 \<le> f"
      using remaining_extends [OF extends_advance [OF w1]] f1 by linarith
    from returnsD [OF assms(1) w1 f1] returnsD [OF returns_call_args [OF assms] w2 f2] True
    show ?thesis unfolding parse_primary_Suc by (auto split: prod.splits)
  qed (simp add: parse_primary_Suc del: parse_primary.simps)
qed

lemma returns_all:
  "returns 5 f (parse_expression f) \<and> returns 1 f (expression_loop f) \<and>
   returns 4 f (parse_comparison f) \<and> returns 3 f (parse_term f) \<and> returns 1 f (term_loop f) \<and>
   returns 2 f (parse_unary f) \<and> returns 1 f (parse_primary f) \<and> (\<forall>n. returns 1 f (args_loop f n))"
proof (induction f)
  case 0
  show ?case by (simp add: returns_def)
next
  case (Suc f)
  then have IH: "returns 5 f (parse_expression f)" "returns 1 f (expression_loop f)"
    "returns 4 f (parse_comparison f)" "returns 3 f (parse_term f)" "returns 1 f (term_loop f)"
    "returns 2 f (parse_unary f)" "returns 1 f (parse_primary f)" "\<And>n. returns 1 f (args_loop f n)"
    by auto
  note fw = forward_methods
  have opt: "returns 0 (Suc f) (\<lambda>p1. if cur p1 = OPERATOR then parse_term f (advance p1) else Some p1)"
    by (rule returns_advance [where k = 4, OF returns_mono [OF IH(4)]]) auto
  have "returns 5 (Suc f) (\<lambda>p. parse_expression (Suc f) p)"
    unfolding parse_expression.simps
    using returns_bind [OF returns_mono [OF IH(3)] fw(3) returns_mono [OF IH(2)], of "Suc f" 5 2] by simp
  moreover have "returns 1 (Suc f) (\<lambda>p. expression_loop (Suc f) p)"
    unfolding expression_loop.simps
    by (rule returns_advance [where k = 5])
      (use returns_mono [OF returns_bind [OF IH(3) fw(3) IH(2)], of "Suc f" 5] in auto)
  moreover have "returns 4 (Suc f) (\<lambda>p. parse_comparison (Suc f) p)"
    unfolding parse_comparison.simps
    by (rule returns_bind [OF returns_mono [OF IH(4)] fw(4) opt]) simp_all
  moreover have "returns 3 (Suc f) (\<lambda>p. parse_term (Suc f) p)"
    unfolding parse_term.simps
    using returns_bind [OF returns_mono [OF IH(6)] fw(6) returns_mono [OF IH(5)], of "Suc f" 3 2] by simp
  moreover have "returns 1 (Suc f) (\<lambda>p. term_loop (Suc f) p)"
    unfolding term_loop.simps
    by (rule returns_advance [where k = 3])
      (use returns_mono [OF returns_bind [OF IH(6) fw(6) IH(5)], of "Suc f" 3] in auto)
  moreover have "returns 2 (Suc f) (\<lambda>p. parse_unary (Suc f) p)"
    unfolding parse_unary.simps
    by (rule returns_optional_advance) (rule returns_mono [OF IH(7)], simp)
  moreover have "returns 1 (Suc f) (parse_primary (Suc f))" using IH(1,8) by (rule returns_primary)
  moreover have "returns 1 (Suc f) (\<lambda>p. args_loop (Suc f) n p)" for n
    unfolding args_loop.simps
    by (rule returns_advance [where k = 6])
      (use returns_mono [OF returns_bind [OF IH(1) fw(1) IH(8) [of "n + 1"]], of "Suc f" 6] in auto)
  ultimately show ?case by blast
qed

text \<open>The fuel of \<open>parse\<close> is enough.\<close>

lemma parse_enough:
  assumes "wf_parser p"
  shows "\<exists>p'. parse_expression (parse_fuel (p_tokens p)) p = Some p' \<and> extends p p'"
proof -
  have "6 * remaining p + 5 \<le> parse_fuel (p_tokens p)" by (simp add: remaining_def parse_fuel_def)
  with returnsD [OF returns_all [THEN conjunct1] assms] obtain p'
    where "parse_expression (parse_fuel (p_tokens p)) p = Some p'" by blast
  with forwardD [OF forward_methods(1) assms] show ?thesis by blast
qed

lemma wf_parser_init: "stream_ok ts \<Longrightarrow> wf_parser (parser_init ts)"
  by (auto simp: wf_parser_def parser_init_def stream_ok_def)

text \<open>
  C30. \<open>validate_dsl\<close> returns for every source text: neither the lexer's loop nor the parser's mutual
  recursion and its three loops can run forever, on valid and on malformed input alike.
\<close>

theorem validate_dsl_total: "\<exists>r. validate_dsl source = Some r"
proof (cases "tokenize (strip source)")
  case (Inl e)
  then show ?thesis by (simp add: validate_dsl_def)
next
  case (Inr ts)
  then have "stream_ok ts" using tokenize_loop_sound by (auto simp: tokenize_def)
  from parse_enough [OF wf_parser_init [OF this]] Inr show ?thesis
    by (auto simp: validate_dsl_def parse_def Let_def)
qed

end
