(* ===== verification/Dsl_Grammar.thy ===== *)
theory Dsl_Grammar
  imports Dsl_Parser
begin

text \<open>
  The specification of the DSL and the proof that the validator implements it. The grammar is the
  EBNF that \<open>dsl_validator.py\<close> documents, as an inductive definition over token lists. It is
  decorated with the indicators and the variables that a phrase refers to, and with the argument
  counts that the registry allows. The validator accepts a text exactly when its tokens form an
  expression of this grammar, and then reports exactly its indicators and variables.
\<close>

section \<open>The grammar\<close>

type_synonym phrase = "token list \<Rightarrow> string set \<Rightarrow> string set \<Rightarrow> bool"

inductive g_expr :: phrase and g_etail :: phrase and g_cmp :: phrase and g_term :: phrase
  and g_ttail :: phrase and g_unary :: phrase and g_prim :: phrase
  and g_args :: "nat \<Rightarrow> phrase" where
  expr_cmp: "g_cmp w I V \<Longrightarrow> g_etail w' I' V' \<Longrightarrow> g_expr (w @ w') (I \<union> I') (V \<union> V')"
| etail_none: "g_etail [] {} {}"
| etail_more: "tok_type t = LOGIC \<Longrightarrow> g_cmp w I V \<Longrightarrow> g_etail w' I' V' \<Longrightarrow>
     g_etail (t # w @ w') (I \<union> I') (V \<union> V')"
| cmp_term: "g_term w I V \<Longrightarrow> g_cmp w I V"
| cmp_op: "g_term w I V \<Longrightarrow> tok_type t = OPERATOR \<Longrightarrow> g_term w' I' V' \<Longrightarrow>
     g_cmp (w @ t # w') (I \<union> I') (V \<union> V')"
| term_unary: "g_unary w I V \<Longrightarrow> g_ttail w' I' V' \<Longrightarrow> g_term (w @ w') (I \<union> I') (V \<union> V')"
| ttail_none: "g_ttail [] {} {}"
| ttail_more: "tok_type t = PLUS \<or> tok_type t = MINUS \<Longrightarrow> g_unary w I V \<Longrightarrow> g_ttail w' I' V' \<Longrightarrow>
     g_ttail (t # w @ w') (I \<union> I') (V \<union> V')"
| unary_prim: "g_prim w I V \<Longrightarrow> g_unary w I V"
| unary_op: "tok_type t = NOT_TOKEN \<or> tok_type t = MINUS \<Longrightarrow> g_prim w I V \<Longrightarrow> g_unary (t # w) I V"
| prim_number: "tok_type t = NUMBER \<Longrightarrow> g_prim [t] {} {}"
| prim_paren: "tok_type l = LPAREN \<Longrightarrow> g_expr w I V \<Longrightarrow> tok_type r = RPAREN \<Longrightarrow>
     g_prim (l # w @ [r]) I V"
| prim_builtin: "tok_type t = IDENTIFIER \<Longrightarrow> to_lower (tok_value t) \<in> set BUILTIN_VARIABLES \<Longrightarrow>
     g_prim [t] {} {to_lower (tok_value t)}"
| prim_custom: "tok_type t = IDENTIFIER \<Longrightarrow> to_lower (tok_value t) \<notin> set BUILTIN_VARIABLES \<Longrightarrow>
     dict_get SUPPORTED_INDICATORS (to_upper (tok_value t)) = None \<Longrightarrow>
     g_prim [t] {} {tok_value t}"
| prim_call0: "tok_type t = IDENTIFIER \<Longrightarrow> tok_type l = LPAREN \<Longrightarrow> tok_type r = RPAREN \<Longrightarrow>
     dict_get SUPPORTED_INDICATORS (to_upper (tok_value t)) = Some (0, mx) \<Longrightarrow>
     g_prim [t, l, r] {to_upper (tok_value t)} {}"
| prim_call: "tok_type t = IDENTIFIER \<Longrightarrow> tok_type l = LPAREN \<Longrightarrow> g_expr w I V \<Longrightarrow>
     g_args n w' I' V' \<Longrightarrow> tok_type r = RPAREN \<Longrightarrow>
     dict_get SUPPORTED_INDICATORS (to_upper (tok_value t)) = Some (mn, mx) \<Longrightarrow>
     mn \<le> n + 1 \<Longrightarrow> n + 1 \<le> mx \<Longrightarrow>
     g_prim (t # l # (w @ w') @ [r]) (insert (to_upper (tok_value t)) (I \<union> I')) (V \<union> V')"
| args_none: "g_args 0 [] {} {}"
| args_more: "tok_type t = COMMA \<Longrightarrow> g_expr w I V \<Longrightarrow> g_args n w' I' V' \<Longrightarrow>
     g_args (n + 1) (t # w @ w') (I \<union> I') (V \<union> V')"

text \<open>The first tokens of the phrases.\<close>

lemma g_first:
  "g_expr w I V \<Longrightarrow> w \<noteq> [] \<and> tok_type (hd w) \<in> {NUMBER, LPAREN, IDENTIFIER, NOT_TOKEN, MINUS}"
  "g_etail w I V \<Longrightarrow> w = [] \<or> tok_type (hd w) = LOGIC"
  "g_cmp w I V \<Longrightarrow> w \<noteq> [] \<and> tok_type (hd w) \<in> {NUMBER, LPAREN, IDENTIFIER, NOT_TOKEN, MINUS}"
  "g_term w I V \<Longrightarrow> w \<noteq> [] \<and> tok_type (hd w) \<in> {NUMBER, LPAREN, IDENTIFIER, NOT_TOKEN, MINUS}"
  "g_ttail w I V \<Longrightarrow> w = [] \<or> tok_type (hd w) = PLUS \<or> tok_type (hd w) = MINUS"
  "g_unary w I V \<Longrightarrow> w \<noteq> [] \<and> tok_type (hd w) \<in> {NUMBER, LPAREN, IDENTIFIER, NOT_TOKEN, MINUS}"
  "g_prim w I V \<Longrightarrow> w \<noteq> [] \<and> tok_type (hd w) \<in> {NUMBER, LPAREN, IDENTIFIER}"
  "g_args n w I V \<Longrightarrow> w = [] \<or> tok_type (hd w) = COMMA"
  by (induction rule: g_expr_g_etail_g_cmp_g_term_g_ttail_g_unary_g_prim_g_args.inducts) auto

section \<open>Consuming a phrase\<close>

definition rest :: "parser \<Rightarrow> token list" where
  "rest p = drop (p_pos p) (p_tokens p)"

definition consume :: "token list \<Rightarrow> string set \<Rightarrow> string set \<Rightarrow> parser \<Rightarrow> parser" where
  "consume w I V p =
     p\<lparr>p_pos := p_pos p + length w, p_indicators := p_indicators p \<union> I,
       p_variables := p_variables p \<union> V\<rparr>"

lemma consume_none [simp]: "consume [] {} {} p = p"
  by (simp add: consume_def)

lemma consume_consume: "consume w' I' V' (consume w I V p) = consume (w @ w') (I \<union> I') (V \<union> V') p"
  by (simp add: consume_def Un_assoc add.assoc)

lemma consume_errors [simp]: "p_errors (consume w I V p) = p_errors p"
  by (simp add: consume_def)

lemma rest_consume:
  assumes "rest p = w @ s"
  shows "rest (consume w I V p) = s"
proof -
  have "rest (consume w I V p) = drop (length w) (rest p)"
    by (simp add: rest_def consume_def add.commute)
  with assms show ?thesis by simp
qed

lemma rest_wf: "wf_parser p \<Longrightarrow> rest p \<noteq> [] \<and> current p = hd (rest p)"
  by (simp add: rest_def wf_parser_def current_wf hd_drop_conv_nth)

lemma wf_consume:
  assumes "wf_parser p" "rest p = w @ s" "s \<noteq> []"
  shows "wf_parser (consume w I V p)"
proof -
  have "length (rest p) = length (p_tokens p) - p_pos p" by (simp add: rest_def)
  with assms(2) have "length w + length s = length (p_tokens p) - p_pos p" by simp
  moreover have "0 < length s" using assms(3) by simp
  ultimately have "p_pos p + length w < length (p_tokens p)" by linarith
  with assms(1) show ?thesis by (simp add: wf_parser_def consume_def)
qed

lemma advance_consume:
  assumes "wf_parser p" "cur p \<noteq> EOF"
  shows "advance p = consume [current p] {} {} p" "rest p = current p # rest (advance p)"
proof -
  have pos: "p_pos p < length (p_tokens p) - 1" using assms by (rule not_EOF_pos)
  then show "advance p = consume [current p] {} {} p" by (simp add: advance_def consume_def)
  have "rest p = current p # drop (Suc (p_pos p)) (p_tokens p)"
    using pos assms(1) by (simp add: rest_def current_wf Cons_nth_drop_Suc)
  with pos show "rest p = current p # rest (advance p)" by (simp add: rest_def advance_def)
qed

section \<open>Soundness\<close>

text \<open>\<open>sound m g\<close>: whenever the method \<open>m\<close> returns without a new error, what it consumed is a
  phrase of \<open>g\<close>.\<close>

definition sound :: "(parser \<Rightarrow> parser option) \<Rightarrow> phrase \<Rightarrow> bool" where
  "sound m g \<longleftrightarrow> (\<forall>p p'. wf_parser p \<longrightarrow> m p = Some p' \<longrightarrow> p_errors p' = p_errors p \<longrightarrow>
     (\<exists>w I V s. g w I V \<and> rest p = w @ s \<and> p' = consume w I V p))"

definition cat :: "phrase \<Rightarrow> phrase \<Rightarrow> phrase" where
  "cat g h w I V \<longleftrightarrow> (\<exists>w1 I1 V1 w2 I2 V2. g w1 I1 V1 \<and> h w2 I2 V2 \<and>
     w = w1 @ w2 \<and> I = I1 \<union> I2 \<and> V = V1 \<union> V2)"

definition eps :: phrase where
  "eps w I V \<longleftrightarrow> w = [] \<and> I = {} \<and> V = {}"

definition tok :: "(token_type \<Rightarrow> bool) \<Rightarrow> phrase" where
  "tok P w I V \<longleftrightarrow> (\<exists>t. P (tok_type t) \<and> w = [t] \<and> I = {} \<and> V = {})"

lemma soundD:
  assumes "sound m g" "wf_parser p" "m p = Some p'" "p_errors p' = p_errors p"
  obtains w I V s where "g w I V" "rest p = w @ s" "p' = consume w I V p"
  using assms unfolding sound_def by blast

lemma catI: "g w I V \<Longrightarrow> h w' I' V' \<Longrightarrow> cat g h (w @ w') (I \<union> I') (V \<union> V')"
  unfolding cat_def by blast

lemma sound_mono: "sound m g \<Longrightarrow> (\<And>w I V. g w I V \<Longrightarrow> h w I V) \<Longrightarrow> sound m h"
  unfolding sound_def by blast

lemma extends_errors:
  assumes "extends p q" "extends q r" "p_errors r = p_errors p"
  shows "p_errors q = p_errors p" "p_errors r = p_errors q"
proof -
  obtain es fs where "p_errors q = p_errors p @ es" "p_errors r = p_errors q @ fs"
    using assms(1,2) unfolding extends_def by blast
  with assms(3) show "p_errors q = p_errors p" "p_errors r = p_errors q" by auto
qed

lemma sound_bind:
  assumes "sound m g" "forward m" "sound k h" "forward k"
  shows "sound (\<lambda>p. Option.bind (m p) k) (cat g h)"
  unfolding sound_def
proof (intro allI impI)
  fix p r assume wf: "wf_parser p" and run: "Option.bind (m p) k = Some r"
    and err: "p_errors r = p_errors p"
  from run obtain q where q: "m p = Some q" "k q = Some r" by (auto simp: bind_eq_Some_conv)
  have e1: "extends p q" using assms(2) wf q(1) by (rule forwardD)
  note wq = extends_wf [OF e1 wf]
  have e2: "extends q r" using assms(4) wq q(2) by (rule forwardD)
  note errs = extends_errors [OF e1 e2 err]
  obtain w I V s where 1: "g w I V" "rest p = w @ s" "q = consume w I V p"
    using soundD [OF assms(1) wf q(1) errs(1)] .
  obtain w' I' V' s' where 2: "h w' I' V'" "rest q = w' @ s'" "r = consume w' I' V' q"
    using soundD [OF assms(3) wq q(2) errs(2)] .
  have "rest q = s" using rest_consume [OF 1(2)] 1(3) by simp
  then have "rest p = (w @ w') @ s'" using 1(2) 2(2) by simp
  moreover have "r = consume (w @ w') (I \<union> I') (V \<union> V') p" using 1(3) 2(3) by (simp add: consume_consume)
  moreover have "cat g h (w @ w') (I \<union> I') (V \<union> V')" using 1(1) 2(1) by (rule catI)
  ultimately show "\<exists>w I V s. cat g h w I V \<and> rest p = w @ s \<and> r = consume w I V p" by blast
qed

lemma sound_Some: "sound Some eps"
  by (auto simp: sound_def eps_def)

lemma sound_if:
  assumes "sound m g" "sound k h"
  shows "sound (\<lambda>p. if P p then m p else k p) (\<lambda>w I V. g w I V \<or> h w I V)"
  using assms unfolding sound_def by metis

text \<open>Consuming the current token when its type satisfies \<open>P\<close>.\<close>

lemma sound_token:
  assumes "sound m g" "\<not> P EOF"
  shows "sound (\<lambda>p. if P (cur p) then m (advance p) else None) (cat (tok P) g)"
  unfolding sound_def
proof (intro allI impI)
  fix p r assume wf: "wf_parser p" and run: "(if P (cur p) then m (advance p) else None) = Some r"
    and err: "p_errors r = p_errors p"
  have P: "P (cur p)" and r: "m (advance p) = Some r" using run by (auto split: if_splits)
  then have "cur p \<noteq> EOF" using assms(2) by auto
  note adv = advance_consume [OF wf this]
  have "p_errors r = p_errors (advance p)" using err adv(1) by simp
  then obtain w I V s where 1: "g w I V" "rest (advance p) = w @ s" "r = consume w I V (advance p)"
    using soundD [OF assms(1) extends_wf [OF extends_advance [OF wf] wf] r] by metis
  have "tok P [current p] {} {}" using P by (auto simp: tok_def)
  from catI [of "tok P" _ _ _ g, OF this 1(1)] have "cat (tok P) g (current p # w) I V" by simp
  moreover have "r = consume (current p # w) I V p" using 1(3) adv(1) by (simp add: consume_consume)
  moreover have "rest p = (current p # w) @ s" using adv(2) 1(2) by simp
  ultimately show "\<exists>w I V s. cat (tok P) g w I V \<and> rest p = w @ s \<and> r = consume w I V p" by blast
qed

lemma sound_token_or:
  assumes "sound m g" "\<not> P EOF" "sound k h"
  shows "sound (\<lambda>p. if P (cur p) then m (advance p) else k p)
    (\<lambda>w I V. cat (tok P) g w I V \<or> h w I V)"
  using sound_if [OF sound_token [of m g P, OF assms(1,2)] assms(3), of "\<lambda>p. P (cur p)"]
  by (simp add: if_distrib cong: if_cong)

lemma expect_sound:
  assumes "wf_parser p" "p_errors (expect ty c p) = p_errors p" "ty \<noteq> EOF"
  shows "cur p = ty \<and> expect ty c p = consume [current p] {} {} p \<and> rest p = current p # rest (advance p)"
proof -
  have "cur p = ty" using assms(2) by (auto simp: expect_def add_error_def split: if_splits)
  moreover from this assms have "cur p \<noteq> EOF" by simp
  ultimately show ?thesis using advance_consume [OF assms(1)] by (simp add: expect_def)
qed

lemma check_call_sound:
  assumes "p_errors (check_call t n p) = p_errors p"
  shows "\<exists>mn mx. dict_get SUPPORTED_INDICATORS (to_upper (tok_value t)) = Some (mn, mx) \<and>
    mn \<le> n \<and> n \<le> mx \<and> check_call t n p = consume [] {to_upper (tok_value t)} {} p"
  using assms
  by (auto simp: check_call_def Let_def add_error_def consume_def split: option.splits if_splits)

lemma check_ident_sound:
  assumes "p_errors (check_ident t p) = p_errors p" "tok_type t = IDENTIFIER"
  shows "\<exists>V. g_prim [t] {} V \<and> check_ident t p = consume [] {} V p"
proof (cases "to_lower (tok_value t) \<in> set BUILTIN_VARIABLES")
  case True
  with assms(2) show ?thesis
    by (intro exI [of _ "{to_lower (tok_value t)}"])
      (simp add: check_ident_def Let_def consume_def prim_builtin)
next
  case False
  with assms have "dict_get SUPPORTED_INDICATORS (to_upper (tok_value t)) = None"
    by (cases "dict_get SUPPORTED_INDICATORS (to_upper (tok_value t))")
      (auto simp: check_ident_def Let_def add_error_def split: if_splits)
  with False assms(2) show ?thesis
    by (intro exI [of _ "{tok_value t}"])
      (simp add: check_ident_def Let_def consume_def prim_custom)
qed

lemma bad_token_errors: "p_errors (bad_token p) \<noteq> p_errors p"
  by (simp add: bad_token_def Let_def advance_def add_error_def)

definition sound_args :: "nat \<Rightarrow> bool" where
  "sound_args f \<longleftrightarrow> (\<forall>n p m p'. wf_parser p \<longrightarrow> args_loop f n p = Some (m, p') \<longrightarrow>
     p_errors p' = p_errors p \<longrightarrow>
     (\<exists>k w I V s. m = n + k \<and> g_args k w I V \<and> rest p = w @ s \<and> p' = consume w I V p))"

lemma sound_argsD:
  assumes "sound_args f" "wf_parser p" "args_loop f n p = Some (m, p')" "p_errors p' = p_errors p"
  obtains k w I V s where "m = n + k" "g_args k w I V" "rest p = w @ s" "p' = consume w I V p"
  using assms unfolding sound_args_def by blast

text \<open>An expression followed by the rest of an argument list.\<close>

lemma expr_args_sound:
  assumes "sound (parse_expression f) g_expr" "sound_args f" "wf_parser p"
    "parse_expression f p = Some q" "args_loop f n q = Some (m, r)" "p_errors r = p_errors p"
  shows "\<exists>k w I V w' I' V' s. m = n + k \<and> g_expr w I V \<and> g_args k w' I' V' \<and>
    rest p = (w @ w') @ s \<and> r = consume (w @ w') (I \<union> I') (V \<union> V') p"
proof -
  have e1: "extends p q" using forward_methods(1) assms(3,4) by (rule forwardD)
  note wq = extends_wf [OF e1 assms(3)]
  have e2: "extends q r" using forward_args_all wq assms(5) by (rule forward_argsD)
  note errs = extends_errors [OF e1 e2 assms(6)]
  obtain w I V s where 1: "g_expr w I V" "rest p = w @ s" "q = consume w I V p"
    using soundD [OF assms(1,3,4) errs(1)] .
  obtain k w' I' V' s' where 2: "m = n + k" "g_args k w' I' V'" "rest q = w' @ s'"
      "r = consume w' I' V' q"
    using sound_argsD [OF assms(2) wq assms(5) errs(2)] .
  have "rest q = s" using rest_consume [OF 1(2)] 1(3) by simp
  with 1 2 have "rest p = (w @ w') @ s'" "r = consume (w @ w') (I \<union> I') (V \<union> V') p"
    by (simp_all add: consume_consume)
  with 1(1) 2(1,2) show ?thesis by blast
qed

lemma sound_args_Suc:
  assumes "sound (parse_expression f) g_expr" "sound_args f"
  shows "sound_args (Suc f)"
  unfolding sound_args_def
proof (intro allI impI)
  fix n p m r assume wf: "wf_parser p" and run: "args_loop (Suc f) n p = Some (m, r)"
    and err: "p_errors r = p_errors p"
  show "\<exists>k w I V s. m = n + k \<and> g_args k w I V \<and> rest p = w @ s \<and> r = consume w I V p"
  proof (cases "cur p = COMMA")
    case False
    with run have "m = n" "r = p" by auto
    then show ?thesis using args_none by (metis add_0_right append_Nil consume_none)
  next
    case True
    then have "cur p \<noteq> EOF" by simp
    note adv = advance_consume [OF wf this]
    note w1 = extends_wf [OF extends_advance [OF wf] wf]
    from run True obtain q where q: "parse_expression f (advance p) = Some q"
        "args_loop f (n + 1) q = Some (m, r)" by (auto simp: bind_eq_Some_conv)
    have "p_errors r = p_errors (advance p)" using err adv(1) by simp
    from expr_args_sound [OF assms w1 q this] obtain k w I V w' I' V' s where
      k: "m = n + 1 + k" "g_expr w I V" "g_args k w' I' V'" "rest (advance p) = (w @ w') @ s"
        "r = consume (w @ w') (I \<union> I') (V \<union> V') (advance p)" by blast
    have "g_args (k + 1) (current p # w @ w') (I \<union> I') (V \<union> V')"
      using True k(2,3) by (rule args_more)
    moreover have "r = consume (current p # w @ w') (I \<union> I') (V \<union> V') p"
      using k(5) adv(1) by (simp add: consume_consume)
    moreover have "rest p = (current p # w @ w') @ s" using adv(2) k(4) by simp
    moreover have "m = n + (k + 1)" using k(1) by simp
    ultimately show ?thesis by blast
  qed
qed

text \<open>A call, from its opening parenthesis on.\<close>

lemma call_sound:
  assumes "sound (parse_expression f) g_expr" "sound_args f" "wf_parser p" "tok_type t = IDENTIFIER"
    "tok_type l = LPAREN" "call_args f p = Some (n, q)" "r = check_call t n (expect RPAREN c q)"
    "p_errors r = p_errors p"
  shows "\<exists>w I V s. g_prim (t # l # w) I V \<and> rest p = w @ s \<and> r = consume w I V p"
proof -
  have e1: "extends p q" using forward_methods(1) forward_args_all assms(3,6) by (rule call_args_extends)
  note wq = extends_wf [OF e1 assms(3)]
  have e2: "extends q (expect RPAREN c q)" using wq by (rule extends_expect)
  have e3: "extends (expect RPAREN c q) r"
    using extends_check_call [OF extends_wf [OF e2 wq]] assms(7) by simp
  note errs1 = extends_errors [OF extends_trans [OF e1 e2] e3 assms(8)]
  note errs2 = extends_errors [OF e1 e2 errs1(1)]
  have ex: "cur q = RPAREN" "expect RPAREN c q = consume [current q] {} {} q"
      "rest q = current q # rest (advance q)"
    using expect_sound [OF wq errs2(2)] by auto
  obtain mn mx where ind: "dict_get SUPPORTED_INDICATORS (to_upper (tok_value t)) = Some (mn, mx)"
      "mn \<le> n" "n \<le> mx"
      "r = consume [current q] {to_upper (tok_value t)} {} q"
    using check_call_sound [of t n "expect RPAREN c q"] errs1(2) assms(7) ex(2)
    by (auto simp: consume_consume)
  show ?thesis
  proof (cases "cur p = RPAREN")
    case True
    with assms(6) have "q = p" "n = 0" by (auto simp: call_args_def)
    with ex ind prim_call0 [OF assms(4,5) ex(1)] have "g_prim [t, l, current q] {to_upper (tok_value t)} {}"
      by auto
    moreover have "rest p = [current q] @ rest (advance q)" using ex(3) \<open>q = p\<close> by simp
    ultimately show ?thesis using ind(4) \<open>q = p\<close> by blast
  next
    case False
    with assms(6) obtain q1 where q1: "parse_expression f p = Some q1" "args_loop f 1 q1 = Some (n, q)"
      by (auto simp: call_args_def bind_eq_Some_conv)
    from expr_args_sound [OF assms(1-3) q1 errs2(1)] obtain k w I V w' I' V' s where
      k: "n = 1 + k" "g_expr w I V" "g_args k w' I' V'" "rest p = (w @ w') @ s"
        "q = consume (w @ w') (I \<union> I') (V \<union> V') p" by blast
    have "g_prim (t # l # (w @ w') @ [current q]) (insert (to_upper (tok_value t)) (I \<union> I')) (V \<union> V')"
      using prim_call [OF assms(4,5) k(2,3) ex(1) ind(1)] ind(2,3) k(1) by simp
    moreover have "rest p = ((w @ w') @ [current q]) @ rest (advance q)"
      using k(4) rest_consume [OF k(4)] k(5) ex(3) by simp
    moreover have "r = consume ((w @ w') @ [current q]) (insert (to_upper (tok_value t)) (I \<union> I')) (V \<union> V') p"
      using ind(4) k(5) by (simp add: consume_consume)
    ultimately show ?thesis by blast
  qed
qed

lemma sound_primary:
  assumes "sound (parse_expression f) g_expr" "sound_args f"
  shows "sound (parse_primary (Suc f)) g_prim"
  unfolding sound_def
proof (intro allI impI)
  fix p r assume wf: "wf_parser p" and run: "parse_primary (Suc f) p = Some r"
    and err: "p_errors r = p_errors p"
  note w1 = extends_wf [OF extends_advance [OF wf] wf]
  note w2 = extends_wf [OF extends_advance [OF w1] w1]
  consider (num) "cur p = NUMBER" "r = advance p"
    | (paren) q c where "cur p = LPAREN" "parse_expression f (advance p) = Some q" "r = expect RPAREN c q"
    | (call) n q c where "cur p = IDENTIFIER" "cur (advance p) = LPAREN"
        "call_args f (advance (advance p)) = Some (n, q)"
        "r = check_call (current p) n (expect RPAREN c q)"
    | (ident) "cur p = IDENTIFIER" "r = check_ident (current p) (advance p)" | (bad) "r = bad_token p"
    using run unfolding parse_primary_Suc by (auto simp: bind_eq_Some_conv split: if_splits)
  then show "\<exists>w I V s. g_prim w I V \<and> rest p = w @ s \<and> r = consume w I V p"
  proof cases
    case num
    then have "cur p \<noteq> EOF" by simp
    note adv = advance_consume [OF wf this]
    then have "rest p = [current p] @ rest (advance p)" by simp
    with adv(1) num(2) prim_number [OF num(1)] show ?thesis by metis
  next
    case paren
    then have "cur p \<noteq> EOF" by simp
    note adv = advance_consume [OF wf this]
    have e1: "extends (advance p) q" using forward_methods(1) w1 paren(2) by (rule forwardD)
    note wq = extends_wf [OF e1 w1]
    have "p_errors r = p_errors (advance p)" using err adv(1) by simp
    note errs = extends_errors [OF e1 extends_expect [OF wq], of RPAREN c, folded paren(3), OF this]
    obtain w I V s where 1: "g_expr w I V" "rest (advance p) = w @ s" "q = consume w I V (advance p)"
      using soundD [OF assms(1) w1 paren(2) errs(1)] .
    have ex: "cur q = RPAREN" "r = consume [current q] {} {} q" "rest q = current q # rest (advance q)"
      using expect_sound [OF wq, of RPAREN c] errs(2) paren(3) by auto
    have "g_prim (current p # w @ [current q]) I V" using paren(1) 1(1) ex(1) by (rule prim_paren)
    moreover have "rest q = s" using rest_consume [OF 1(2)] 1(3) by simp
    then have "rest p = (current p # w @ [current q]) @ rest (advance q)" using adv(2) 1(2) ex(3) by simp
    moreover have "r = consume (current p # w @ [current q]) I V p"
      using ex(2) 1(3) adv(1) by (simp add: consume_consume)
    ultimately show ?thesis by blast
  next
    case call
    then have ne: "cur p \<noteq> EOF" "cur (advance p) \<noteq> EOF" by simp_all
    note adv1 = advance_consume [OF wf ne(1)]
    note adv2 = advance_consume [OF w1 ne(2)]
    have "p_errors r = p_errors (advance (advance p))" using err adv1(1) adv2(1) by simp
    from call_sound [OF assms w2 call this] obtain w I V s where
      1: "g_prim (current p # current (advance p) # w) I V" "rest (advance (advance p)) = w @ s"
        "r = consume w I V (advance (advance p))" by blast
    moreover have "rest p = (current p # current (advance p) # w) @ s" using adv1(2) adv2(2) 1(2) by simp
    moreover have "r = consume (current p # current (advance p) # w) I V p"
      using 1(3) adv1(1) adv2(1) by (simp add: consume_consume)
    ultimately show ?thesis by blast
  next
    case ident
    then have "cur p \<noteq> EOF" by simp
    note adv = advance_consume [OF wf this]
    have "p_errors (check_ident (current p) (advance p)) = p_errors (advance p)"
      using err ident(2) adv(1) by simp
    from check_ident_sound [OF this ident(1)] obtain V where
      "g_prim [current p] {} V" "r = consume [] {} V (advance p)" using ident(2) by auto
    moreover from this(2) have "r = consume [current p] {} V p" using adv(1) by (simp add: consume_consume)
    ultimately show ?thesis using adv(2) by (metis append_Cons append_Nil)
  next
    case bad
    with err bad_token_errors show ?thesis by blast
  qed
qed

text \<open>The closure of the phrases under the parser's composition.\<close>

lemma cat_phrases:
  "cat g_cmp g_etail w I V \<Longrightarrow> g_expr w I V"
  "cat (tok (\<lambda>ty. ty = LOGIC)) (cat g_cmp g_etail) w I V \<or> eps w I V \<Longrightarrow> g_etail w I V"
  "cat g_term (\<lambda>w I V. cat (tok (\<lambda>ty. ty = OPERATOR)) g_term w I V \<or> eps w I V) w I V \<Longrightarrow> g_cmp w I V"
  "cat g_unary g_ttail w I V \<Longrightarrow> g_term w I V"
  "cat (tok (\<lambda>ty. ty = PLUS \<or> ty = MINUS)) (cat g_unary g_ttail) w I V \<or> eps w I V \<Longrightarrow> g_ttail w I V"
  "cat (tok (\<lambda>ty. ty = NOT_TOKEN \<or> ty = MINUS)) g_prim w I V \<or> g_prim w I V \<Longrightarrow> g_unary w I V"
  unfolding cat_def tok_def eps_def
       apply (blast intro: expr_cmp)
      apply (auto intro: etail_none etail_more)[1]
     apply (auto intro: cmp_term cmp_op)[1]
    apply (blast intro: term_unary)
   apply (auto intro: ttail_none ttail_more)[1]
  apply (auto intro: unary_prim unary_op)[1]
  done

lemma sound_all:
  "sound (parse_expression f) g_expr \<and> sound (expression_loop f) g_etail \<and>
   sound (parse_comparison f) g_cmp \<and> sound (parse_term f) g_term \<and> sound (term_loop f) g_ttail \<and>
   sound (parse_unary f) g_unary \<and> sound (parse_primary f) g_prim \<and> sound_args f"
proof (induction f)
  case 0
  show ?case by (simp add: sound_def sound_args_def)
next
  case (Suc f)
  then have IH: "sound (parse_expression f) g_expr" "sound (expression_loop f) g_etail"
    "sound (parse_comparison f) g_cmp" "sound (parse_term f) g_term" "sound (term_loop f) g_ttail"
    "sound (parse_unary f) g_unary" "sound (parse_primary f) g_prim" "sound_args f" by auto
  note fw = forward_methods
  have fw_op: "forward (\<lambda>p1. if cur p1 = OPERATOR then parse_term f (advance p1) else Some p1)"
    by (intro forward_rules fw extends_refl)
  have "sound (\<lambda>p. parse_expression (Suc f) p) g_expr"
    unfolding parse_expression.simps
    by (rule sound_mono [OF sound_bind [OF IH(3) fw(3) IH(2) fw(2)] cat_phrases(1)])
  moreover have "sound (\<lambda>p. expression_loop (Suc f) p) g_etail"
    unfolding expression_loop.simps
    by (rule sound_mono [OF sound_token_or [of _ _ "\<lambda>ty. ty = LOGIC",
          OF sound_bind [OF IH(3) fw(3) IH(2) fw(2)] _ sound_Some] cat_phrases(2)]) simp_all
  moreover have "sound (\<lambda>p. parse_comparison (Suc f) p) g_cmp"
    unfolding parse_comparison.simps
    by (rule sound_mono [OF sound_bind [OF IH(4) fw(4) sound_token_or [of _ _ "\<lambda>ty. ty = OPERATOR",
          OF IH(4) _ sound_Some] fw_op] cat_phrases(3)]) simp_all
  moreover have "sound (\<lambda>p. parse_term (Suc f) p) g_term"
    unfolding parse_term.simps
    by (rule sound_mono [OF sound_bind [OF IH(6) fw(6) IH(5) fw(5)] cat_phrases(4)])
  moreover have "sound (\<lambda>p. term_loop (Suc f) p) g_ttail"
    unfolding term_loop.simps
    by (rule sound_mono [OF sound_token_or [of _ _ "\<lambda>ty. ty = PLUS \<or> ty = MINUS",
          OF sound_bind [OF IH(6) fw(6) IH(5) fw(5)] _ sound_Some] cat_phrases(5)]) simp_all
  moreover have "sound (\<lambda>p. parse_unary (Suc f) p) g_unary"
    unfolding parse_unary.simps if_distrib [of "parse_primary f"]
    by (rule sound_mono [OF sound_token_or [of _ _ "\<lambda>ty. ty = NOT_TOKEN \<or> ty = MINUS",
          OF IH(7) _ IH(7)] cat_phrases(6)]) simp_all
  moreover have "sound (parse_primary (Suc f)) g_prim" using IH(1,8) by (rule sound_primary)
  moreover have "sound_args (Suc f)" using IH(1,8) by (rule sound_args_Suc)
  ultimately show ?case by blast
qed

section \<open>Completeness\<close>

text \<open>\<open>accepts m F w I V\<close>: on a text that starts with \<open>w\<close> and continues with a token of \<open>F\<close>, the method
  consumes exactly \<open>w\<close> and reports no error. The sets are the tokens that may follow each phrase.\<close>

definition F_expr :: "token_type set" where "F_expr = {RPAREN, COMMA, EOF}"
definition F_cmp :: "token_type set" where "F_cmp = insert LOGIC F_expr"
definition F_term :: "token_type set" where "F_term = insert OPERATOR F_cmp"
definition F_unary :: "token_type set" where "F_unary = insert PLUS (insert MINUS F_term)"

lemmas F_defs = F_unary_def F_term_def F_cmp_def F_expr_def

definition follows :: "token_type set \<Rightarrow> token list \<Rightarrow> bool" where
  "follows F s \<longleftrightarrow> s \<noteq> [] \<and> tok_type (hd s) \<in> F"

definition accepts :: "(nat \<Rightarrow> parser \<Rightarrow> parser option) \<Rightarrow> token_type set \<Rightarrow> phrase" where
  "accepts m F w I V \<longleftrightarrow> (\<forall>f p p' s. wf_parser p \<longrightarrow> rest p = w @ s \<longrightarrow> follows F s \<longrightarrow>
     m f p = Some p' \<longrightarrow> p' = consume w I V p)"

definition accepts_args :: "nat \<Rightarrow> phrase" where
  "accepts_args k w I V \<longleftrightarrow> (\<forall>f n p m p' s. wf_parser p \<longrightarrow> rest p = w @ s \<longrightarrow> follows {RPAREN} s \<longrightarrow>
     args_loop f n p = Some (m, p') \<longrightarrow> m = n + k \<and> p' = consume w I V p)"

lemma acceptsD:
  "accepts m F w I V \<Longrightarrow> wf_parser p \<Longrightarrow> rest p = w @ s \<Longrightarrow> follows F s \<Longrightarrow> m f p = Some p' \<Longrightarrow>
     p' = consume w I V p"
  unfolding accepts_def by blast

lemma accepts_argsD:
  "accepts_args k w I V \<Longrightarrow> wf_parser p \<Longrightarrow> rest p = w @ s \<Longrightarrow> follows {RPAREN} s \<Longrightarrow>
     args_loop f n p = Some (m, p') \<Longrightarrow> m = n + k \<and> p' = consume w I V p"
  unfolding accepts_args_def by blast

text \<open>The current token when the remaining text is known.\<close>

lemma current_rest: "wf_parser p \<Longrightarrow> rest p = t # s \<Longrightarrow> current p = t"
  using rest_wf by fastforce

lemma cur_follows: "wf_parser p \<Longrightarrow> rest p = s \<Longrightarrow> follows F s \<Longrightarrow> cur p \<in> F"
  using rest_wf by (fastforce simp: follows_def)

lemma follows_wf: "wf_parser p \<Longrightarrow> rest p = w @ s \<Longrightarrow> follows F s \<Longrightarrow> wf_parser (consume w I V p)"
  using wf_consume by (simp add: follows_def)

text \<open>Stepping over one token.\<close>

lemma advance_rest:
  assumes "wf_parser p" "rest p = t # s" "tok_type t \<noteq> EOF"
  shows "advance p = consume [t] {} {} p" "rest (advance p) = s" "wf_parser (advance p)" "cur p = tok_type t"
proof -
  have c: "current p = t" using assms(1,2) by (rule current_rest)
  with assms(3) have ne: "cur p \<noteq> EOF" by simp
  note adv = advance_consume [OF assms(1) ne]
  show "advance p = consume [t] {} {} p" using adv(1) c by simp
  show "rest (advance p) = s" using adv(2) c assms(2) by simp
  show "wf_parser (advance p)" using extends_wf [OF extends_advance [OF assms(1)] assms(1)] .
  show "cur p = tok_type t" using c by simp
qed

lemma accepts_seq:
  assumes "accepts m F w I V" "accepts k G w' I' V'" "\<And>s. follows G s \<Longrightarrow> follows F (w' @ s)"
    "wf_parser p" "rest p = (w @ w') @ s" "follows G s" "Option.bind (m f p) (k g) = Some p'"
  shows "p' = consume (w @ w') (I \<union> I') (V \<union> V') p"
proof -
  from assms(7) obtain q where q: "m f p = Some q" "k g q = Some p'" by (auto simp: bind_eq_Some_conv)
  have r: "rest p = w @ w' @ s" using assms(5) by simp
  have fol: "follows F (w' @ s)" using assms(3,6) .
  have q': "q = consume w I V p" using acceptsD [OF assms(1,4) r fol q(1)] .
  have "wf_parser q" "rest q = w' @ s" using follows_wf [OF assms(4) r fol] rest_consume [OF r] q' by auto
  with acceptsD [OF assms(2) _ _ assms(6) q(2)] q' show ?thesis by (simp add: consume_consume)
qed

text \<open>The two shapes of the methods: a sequence, and a loop guarded by the current token.\<close>

lemma accepts_chain:
  assumes "accepts m F w I V" "accepts k G w' I' V'" "\<And>s. follows G s \<Longrightarrow> follows F (w' @ s)"
    and h: "\<And>p. h 0 p = None" "\<And>f p. h (Suc f) p = Option.bind (m f p) (k f)"
  shows "accepts h G (w @ w') (I \<union> I') (V \<union> V')"
  unfolding accepts_def
proof (intro allI impI)
  fix f p p' s assume "wf_parser p" "rest p = (w @ w') @ s" "follows G s" "h f p = Some p'"
  then show "p' = consume (w @ w') (I \<union> I') (V \<union> V') p"
    by (cases f) (auto simp: h intro: accepts_seq [OF assms(1-3)])
qed

lemma accepts_loop:
  assumes "P (tok_type t)" "\<not> P EOF" "accepts m F w I V" "accepts k G w' I' V'"
    "\<And>s. follows G s \<Longrightarrow> follows F (w' @ s)"
    and h: "\<And>p. h 0 p = None"
      "\<And>f p. h (Suc f) p = (if P (cur p) then Option.bind (m f (advance p)) (k f) else Some p)"
  shows "accepts h G (t # w @ w') (I \<union> I') (V \<union> V')"
  unfolding accepts_def
proof (intro allI impI)
  fix f p p' s assume p: "wf_parser p" "rest p = (t # w @ w') @ s" "follows G s" "h f p = Some p'"
  have "tok_type t \<noteq> EOF" using assms(1,2) by auto
  note adv = advance_rest [OF p(1), of t "(w @ w') @ s", OF _ this]
  from p assms(1) adv have "p' = consume (w @ w') (I \<union> I') (V \<union> V') (advance p)"
    by (cases f) (auto simp: h intro: accepts_seq [OF assms(3-5)])
  then show "p' = consume (t # w @ w') (I \<union> I') (V \<union> V') p"
    using adv p(2) by (simp add: consume_consume)
qed

lemma accepts_loop_none:
  assumes "\<And>ty. ty \<in> G \<Longrightarrow> \<not> P ty" "\<And>p. h 0 p = None" "\<And>f p. \<not> P (cur p) \<Longrightarrow> h (Suc f) p = Some p"
  shows "accepts h G [] {} {}"
  unfolding accepts_def
proof (intro allI impI)
  fix f p p' s assume p: "wf_parser p" "rest p = [] @ s" "follows G s" "h f p = Some p'"
  have "cur p \<in> G" using cur_follows [OF p(1) _ p(3)] p(2) by simp
  with p(4) assms show "p' = consume [] {} {} p" by (cases f) auto
qed

lemma follows_tail:
  "g_etail w I V \<Longrightarrow> follows F_expr s \<Longrightarrow> follows F_cmp (w @ s)"
  "g_ttail w I V \<Longrightarrow> follows F_term s \<Longrightarrow> follows F_unary (w @ s)"
  "g_args k w I V \<Longrightarrow> follows {RPAREN} s \<Longrightarrow> follows F_expr (w @ s)"
  using g_first(2) [of w I V] g_first(5) [of w I V] g_first(8) [of k w I V]
  by (cases w; auto simp: follows_def F_defs)+

text \<open>The rules for comparisons, unary and primary expressions.\<close>

lemma accepts_cmp_term:
  assumes "accepts parse_term F_term w I V"
  shows "accepts parse_comparison F_cmp w I V"
  unfolding accepts_def
proof (intro allI impI)
  fix f p p' s assume p: "wf_parser p" "rest p = w @ s" "follows F_cmp s" "parse_comparison f p = Some p'"
  have fol: "follows F_term s" using p(3) by (auto simp: follows_def F_defs)
  have "cur (consume w I V p) \<in> F_cmp"
    using cur_follows [OF follows_wf [OF p(1,2) fol] rest_consume [OF p(2)] p(3)] .
  moreover from p(4) obtain g q where "f = Suc g" "parse_term g p = Some q"
    by (cases f) (auto simp: bind_eq_Some_conv)
  moreover from this acceptsD [OF assms p(1,2) fol] have "q = consume w I V p" by blast
  ultimately show "p' = consume w I V p" using p(4) by (auto simp: F_defs)
qed

lemma accepts_cmp_op:
  assumes "accepts parse_term F_term w I V" "tok_type t = OPERATOR" "accepts parse_term F_term w' I' V'"
  shows "accepts parse_comparison F_cmp (w @ t # w') (I \<union> I') (V \<union> V')"
  unfolding accepts_def
proof (intro allI impI)
  fix f p p' s assume p: "wf_parser p" "rest p = (w @ t # w') @ s" "follows F_cmp s"
    "parse_comparison f p = Some p'"
  have r: "rest p = w @ (t # w' @ s)" using p(2) by simp
  have fol: "follows F_term (t # w' @ s)" "follows F_term s"
    using p(3) assms(2) by (auto simp: follows_def F_defs)
  from p(4) obtain g q where g: "f = Suc g" "parse_term g p = Some q"
    by (cases f) (auto simp: bind_eq_Some_conv)
  have q: "q = consume w I V p" using acceptsD [OF assms(1) p(1) r fol(1) g(2)] .
  have wq: "wf_parser q" "rest q = t # w' @ s" using q follows_wf [OF p(1) r fol(1)] rest_consume [OF r] by auto
  note adv = advance_rest [OF wq]
  have "parse_term g (advance q) = Some p'" using p(4) g adv assms(2) by simp
  from acceptsD [OF assms(3) _ _ fol(2) this] adv assms(2) have "p' = consume w' I' V' (advance q)" by simp
  with adv assms(2) q show "p' = consume (w @ t # w') (I \<union> I') (V \<union> V') p" by (simp add: consume_consume)
qed

lemma accepts_unary_prim:
  assumes "accepts parse_primary F_unary w I V" "g_prim w J W"
  shows "accepts parse_unary F_unary w I V"
  unfolding accepts_def
proof (intro allI impI)
  fix f p p' s assume p: "wf_parser p" "rest p = w @ s" "follows F_unary s" "parse_unary f p = Some p'"
  obtain t w1 where w: "w = t # w1" "tok_type t \<in> {NUMBER, LPAREN, IDENTIFIER}"
    using g_first(7) [OF assms(2)] by (cases w) auto
  have "current p = t" using current_rest [OF p(1)] p(2) w(1) by simp
  with w(2) p(4) obtain g where "parse_primary g p = Some p'" by (cases f) auto
  from acceptsD [OF assms(1) p(1-3) this] show "p' = consume w I V p" .
qed

lemma accepts_unary_op:
  assumes "tok_type t = NOT_TOKEN \<or> tok_type t = MINUS" "accepts parse_primary F_unary w I V"
  shows "accepts parse_unary F_unary (t # w) I V"
  unfolding accepts_def
proof (intro allI impI)
  fix f p p' s assume p: "wf_parser p" "rest p = (t # w) @ s" "follows F_unary s" "parse_unary f p = Some p'"
  have "tok_type t \<noteq> EOF" using assms(1) by auto
  note adv = advance_rest [OF p(1), of t "w @ s", OF _ this]
  from p(2,4) assms(1) adv obtain g where "parse_primary g (advance p) = Some p'" by (cases f) auto
  from acceptsD [OF assms(2) adv(3) adv(2) p(3) this] p(2) adv(1) show "p' = consume (t # w) I V p"
    by (simp add: consume_consume)
qed

lemma expect_rest:
  assumes "wf_parser p" "rest p = r # s" "tok_type r = ty" "ty \<noteq> EOF"
  shows "expect ty c p = consume [r] {} {} p"
  using advance_rest [OF assms(1,2)] assms(3,4) by (simp add: expect_def)

lemma accepts_number: "tok_type t = NUMBER \<Longrightarrow> accepts parse_primary F_unary [t] {} {}"
  unfolding accepts_def
proof (intro allI impI)
  fix f p p' s assume t: "tok_type t = NUMBER" and p: "wf_parser p" "rest p = [t] @ s"
    "parse_primary f p = Some p'"
  note adv = advance_rest [OF p(1), of t s]
  with t p show "p' = consume [t] {} {} p" by (cases f) auto
qed

lemma accepts_paren:
  assumes "tok_type l = LPAREN" "accepts parse_expression F_expr w I V" "tok_type r = RPAREN"
  shows "accepts parse_primary F_unary (l # w @ [r]) I V"
  unfolding accepts_def
proof (intro allI impI)
  fix f p p' s assume p: "wf_parser p" "rest p = (l # w @ [r]) @ s" "parse_primary f p = Some p'"
  note adv = advance_rest [OF p(1), of l "w @ r # s"]
  from p adv assms(1) obtain g q c where q: "parse_expression g (advance p) = Some q" "p' = expect RPAREN c q"
    by (cases f) (auto simp: bind_eq_Some_conv)
  have fol: "follows F_expr (r # s)" using assms(3) by (simp add: follows_def F_defs)
  have w1: "wf_parser (advance p)" "rest (advance p) = w @ r # s" "advance p = consume [l] {} {} p"
    using adv p(2) assms(1) by auto
  have q': "q = consume w I V (advance p)" using acceptsD [OF assms(2) w1(1,2) fol q(1)] .
  have "wf_parser q" "rest q = r # s" using q' follows_wf [OF w1(1,2) fol] rest_consume [OF w1(2)] by auto
  from expect_rest [OF this assms(3)] q(2) q' w1(3) show "p' = consume (l # w @ [r]) I V p"
    by (simp add: consume_consume)
qed

lemma accepts_ident:
  assumes "tok_type t = IDENTIFIER" "\<And>p. check_ident t p = consume [] {} V p"
  shows "accepts parse_primary F_unary [t] {} V"
  unfolding accepts_def
proof (intro allI impI)
  fix f p p' s assume p: "wf_parser p" "rest p = [t] @ s" "follows F_unary s" "parse_primary f p = Some p'"
  note adv = advance_rest [OF p(1), of t s]
  have c: "current p = t" using current_rest [OF p(1)] p(2) by simp
  have "cur (advance p) \<in> F_unary"
    using cur_follows [OF _ _ p(3)] adv p(2) assms(1) by simp
  then have "cur (advance p) \<noteq> LPAREN" by (auto simp: F_defs)
  with p(4) c assms(1) have "p' = check_ident t (advance p)" by (cases f) (auto simp: Let_def)
  with assms adv p(2) show "p' = consume [t] {} V p" by (simp add: consume_consume)
qed

lemma check_call_consume:
  assumes "dict_get SUPPORTED_INDICATORS (to_upper (tok_value t)) = Some (mn, mx)" "mn \<le> n" "n \<le> mx"
  shows "check_call t n p = consume [] {to_upper (tok_value t)} {} p"
  using assms by (simp add: check_call_def consume_def)

text \<open>The state after an identifier and an opening parenthesis.\<close>

lemma primary_call:
  assumes "wf_parser p" "rest p = t # l # s" "tok_type t = IDENTIFIER" "tok_type l = LPAREN"
    "parse_primary f p = Some p'"
  obtains g n q c where "wf_parser (consume [t, l] {} {} p)" "rest (consume [t, l] {} {} p) = s"
    "call_args g (consume [t, l] {} {} p) = Some (n, q)" "p' = check_call t n (expect RPAREN c q)"
proof -
  note a1 = advance_rest [OF assms(1,2), simplified assms(3), simplified]
  note a2 = advance_rest [OF a1(3,2), simplified assms(4), simplified]
  have c: "current p = t" using current_rest [OF assms(1,2)] .
  from assms(5) a1(4) a2(4) c obtain g n q c' where run: "call_args g (advance (advance p)) = Some (n, q)"
      "p' = check_call t n (expect RPAREN c' q)"
    by (cases f) (auto simp: parse_primary_Suc bind_eq_Some_conv simp del: parse_primary.simps(2))
  have eq: "advance (advance p) = consume [t, l] {} {} p" using a1(1) a2(1) by (simp add: consume_consume)
  show ?thesis using that [of g n q c'] a2(2,3) run unfolding eq by blast
qed

lemma accepts_call0:
  assumes "tok_type t = IDENTIFIER" "tok_type l = LPAREN" "tok_type r = RPAREN"
    "dict_get SUPPORTED_INDICATORS (to_upper (tok_value t)) = Some (0, mx)"
  shows "accepts parse_primary F_unary [t, l, r] {to_upper (tok_value t)} {}"
  unfolding accepts_def
proof (intro allI impI)
  fix f p p' s assume p: "wf_parser p" "rest p = [t, l, r] @ s" "parse_primary f p = Some p'"
  let ?q = "consume [t, l] {} {} p"
  have r: "rest p = t # l # r # s" using p(2) by simp
  obtain g n q c where wq: "wf_parser ?q" "rest ?q = r # s" "call_args g ?q = Some (n, q)"
      "p' = check_call t n (expect RPAREN c q)"
    using primary_call [OF p(1) r assms(1,2) p(3)] .
  have "cur ?q = RPAREN" using current_rest [OF wq(1,2)] assms(3) by simp
  with wq(3) have q: "q = ?q" "n = 0" by (auto simp: call_args_def)
  have "expect RPAREN c q = consume [r] {} {} q" using expect_rest wq(1,2) assms(3) q(1) by blast
  with wq(4) q check_call_consume [OF assms(4)] show "p' = consume [t, l, r] {to_upper (tok_value t)} {} p"
    by (simp add: consume_consume)
qed

lemma accepts_call:
  assumes "tok_type t = IDENTIFIER" "tok_type l = LPAREN" "accepts parse_expression F_expr w I V"
    "g_expr w J W" "accepts_args k w' I' V'" "g_args k w' J' W'" "tok_type r = RPAREN"
    "dict_get SUPPORTED_INDICATORS (to_upper (tok_value t)) = Some (mn, mx)" "mn \<le> k + 1" "k + 1 \<le> mx"
  shows "accepts parse_primary F_unary (t # l # (w @ w') @ [r])
    (insert (to_upper (tok_value t)) (I \<union> I')) (V \<union> V')"
  unfolding accepts_def
proof (intro allI impI)
  fix f p p' s assume p: "wf_parser p" "rest p = (t # l # (w @ w') @ [r]) @ s" "parse_primary f p = Some p'"
  let ?q = "consume [t, l] {} {} p"
  have r: "rest p = t # l # w @ w' @ r # s" using p(2) by simp
  obtain g n q c where wq: "wf_parser ?q" "rest ?q = w @ w' @ r # s" "call_args g ?q = Some (n, q)"
      "p' = check_call t n (expect RPAREN c q)"
    using primary_call [OF p(1) r assms(1,2) p(3)] .
  have fol: "follows {RPAREN} (r # s)" using assms(7) by (simp add: follows_def)
  note fol2 = follows_tail(3) [OF assms(6) fol]
  obtain t0 w0 where "w = t0 # w0" "tok_type t0 \<noteq> RPAREN"
    using g_first(1) [OF assms(4)] by (cases w) auto
  then have "cur ?q \<noteq> RPAREN" using current_rest [OF wq(1)] wq(2) by simp
  with wq(3) obtain q1 where q1: "parse_expression g ?q = Some q1" "args_loop g 1 q1 = Some (n, q)"
    by (auto simp: call_args_def bind_eq_Some_conv)
  have e1: "q1 = consume w I V ?q" using acceptsD [OF assms(3) wq(1,2) fol2 q1(1)] .
  have w1: "wf_parser q1" "rest q1 = w' @ r # s"
    using e1 follows_wf [OF wq(1,2) fol2] rest_consume [OF wq(2)] by auto
  from accepts_argsD [OF assms(5) w1 fol q1(2)] have n: "n = 1 + k" and e2: "q = consume w' I' V' q1" by auto
  have "wf_parser q" "rest q = r # s"
    using e2 follows_wf [OF w1 fol] rest_consume [OF w1(2)] by auto
  from expect_rest [OF this assms(7), of c] have "expect RPAREN c q = consume [r] {} {} q" by simp
  with wq(4) check_call_consume [OF assms(8), of n] assms(9,10) n e1 e2
  show "p' = consume (t # l # (w @ w') @ [r]) (insert (to_upper (tok_value t)) (I \<union> I')) (V \<union> V') p"
    by (simp add: consume_consume)
qed

lemma accepts_args_none: "accepts_args 0 [] {} {}"
  unfolding accepts_args_def
proof (intro allI impI)
  fix f n p m p' s assume p: "wf_parser p" "rest p = [] @ s" "follows {RPAREN} s" "args_loop f n p = Some (m, p')"
  have "cur p \<in> {RPAREN}" using cur_follows [OF p(1) _ p(3)] p(2) by simp
  with p(4) show "m = n + 0 \<and> p' = consume [] {} {} p" by (cases f) auto
qed

lemma accepts_args_more:
  assumes "tok_type t = COMMA" "accepts parse_expression F_expr w I V" "accepts_args k w' I' V'"
    "g_args k w' J W"
  shows "accepts_args (k + 1) (t # w @ w') (I \<union> I') (V \<union> V')"
  unfolding accepts_args_def
proof (intro allI impI)
  fix f n p m p' s assume p: "wf_parser p" "rest p = (t # w @ w') @ s" "follows {RPAREN} s"
    "args_loop f n p = Some (m, p')"
  note adv = advance_rest [OF p(1), of t "w @ w' @ s", simplified assms(1), simplified]
  note fol = follows_tail(3) [OF assms(4) p(3)]
  from p(2,4) adv obtain g q where q: "parse_expression g (advance p) = Some q"
      "args_loop g (n + 1) q = Some (m, p')"
    by (cases f) (auto simp: bind_eq_Some_conv)
  have w1: "wf_parser (advance p)" "rest (advance p) = w @ w' @ s" using adv p(2) by auto
  have e1: "q = consume w I V (advance p)" using acceptsD [OF assms(2) w1 fol q(1)] .
  have "wf_parser q" "rest q = w' @ s" using e1 follows_wf [OF w1 fol] rest_consume [OF w1(2)] by auto
  from accepts_argsD [OF assms(3) this p(3) q(2)] e1 adv p(2)
  show "m = n + (k + 1) \<and> p' = consume (t # w @ w') (I \<union> I') (V \<union> V') p" by (simp add: consume_consume)
qed

lemma check_ident_consume:
  "to_lower (tok_value t) \<in> set BUILTIN_VARIABLES \<Longrightarrow>
     check_ident t p = consume [] {} {to_lower (tok_value t)} p"
  "to_lower (tok_value t) \<notin> set BUILTIN_VARIABLES \<Longrightarrow>
     dict_get SUPPORTED_INDICATORS (to_upper (tok_value t)) = None \<Longrightarrow>
     check_ident t p = consume [] {} {tok_value t} p"
  by (simp_all add: check_ident_def Let_def consume_def)

lemma g_accepts:
  "g_expr w I V \<Longrightarrow> accepts parse_expression F_expr w I V"
  "g_etail w I V \<Longrightarrow> accepts expression_loop F_expr w I V"
  "g_cmp w I V \<Longrightarrow> accepts parse_comparison F_cmp w I V"
  "g_term w I V \<Longrightarrow> accepts parse_term F_term w I V"
  "g_ttail w I V \<Longrightarrow> accepts term_loop F_term w I V"
  "g_unary w I V \<Longrightarrow> accepts parse_unary F_unary w I V"
  "g_prim w I V \<Longrightarrow> accepts parse_primary F_unary w I V"
  "g_args k w I V \<Longrightarrow> accepts_args k w I V"
proof (induction rule: g_expr_g_etail_g_cmp_g_term_g_ttail_g_unary_g_prim_g_args.inducts)
  case (expr_cmp w I V w' I' V')
  show ?case
    by (rule accepts_chain [OF expr_cmp.IH follows_tail(1) [OF expr_cmp.hyps(2)]]) auto
next
  case etail_none
  show ?case by (rule accepts_loop_none [where P = "\<lambda>ty. ty = LOGIC"]) (auto simp: F_defs)
next
  case (etail_more t w I V w' I' V')
  show ?case
    by (rule accepts_loop [where P = "\<lambda>ty. ty = LOGIC", OF _ _ etail_more.IH
          follows_tail(1) [OF etail_more.hyps(3)]]) (use etail_more.hyps(1) in auto)
next
  case (term_unary w I V w' I' V')
  show ?case
    by (rule accepts_chain [OF term_unary.IH follows_tail(2) [OF term_unary.hyps(2)]]) auto
next
  case ttail_none
  show ?case
    by (rule accepts_loop_none [where P = "\<lambda>ty. ty = PLUS \<or> ty = MINUS"]) (auto simp: F_defs)
next
  case (ttail_more t w I V w' I' V')
  show ?case
    by (rule accepts_loop [where P = "\<lambda>ty. ty = PLUS \<or> ty = MINUS", OF _ _ ttail_more.IH
          follows_tail(2) [OF ttail_more.hyps(3)]]) (use ttail_more.hyps(1) in auto)
next
  case (prim_builtin t)
  then show ?case by (intro accepts_ident check_ident_consume(1)) auto
next
  case (prim_custom t)
  then show ?case by (intro accepts_ident check_ident_consume(2)) auto
next
  case (prim_call t l w I V n w' I' V' r mn mx)
  then show ?case by (intro accepts_call) auto
next
  case (args_more t w I V n w' I' V')
  then show ?case by (intro accepts_args_more) auto
qed (auto intro: accepts_cmp_term accepts_cmp_op accepts_unary_prim accepts_unary_op accepts_number
      accepts_paren accepts_call0 accepts_args_none)

section \<open>The validator implements the grammar\<close>

lemma rest_init: "rest (parser_init ts) = ts"
  by (simp add: rest_def parser_init_def)

lemma stream_split:
  assumes "stream_ok (w @ s)" "s \<noteq> []" "tok_type (hd s) = EOF"
  shows "\<exists>e. s = [e]"
proof (rule ccontr)
  assume not: "\<not> ?thesis"
  obtain t s' where s: "s = t # s'" using assms(2) by (cases s) auto
  with not have "s' \<noteq> []" by auto
  then have "butlast (w @ s) = w @ t # butlast s'" using s by (simp add: butlast_append)
  with assms s show False by (simp add: stream_ok_def)
qed

lemma parse_sound:
  assumes "stream_ok ts" "parse (parser_init ts) = Some r" "is_valid r"
  shows "\<exists>w e. ts = w @ [e] \<and> g_expr w (indicators_used r) (variables_used r)"
proof -
  let ?p = "parser_init ts"
  have wf: "wf_parser ?p" using assms(1) by (rule wf_parser_init)
  from assms(2,3) obtain q where q: "parse_expression (parse_fuel (p_tokens ?p)) ?p = Some q"
      "cur q = EOF" "p_errors q = []" "r = \<lparr>is_valid = True, errors = [],
        indicators_used = p_indicators q, variables_used = p_variables q\<rparr>"
    by (auto simp: parse_def empty_result_def bind_eq_Some_conv Let_def add_error_def split: if_splits)
  have "p_errors q = p_errors ?p" using q(3) by (simp add: parser_init_def)
  then obtain w I V s where w: "g_expr w I V" "rest ?p = w @ s" "q = consume w I V ?p"
    using soundD [OF sound_all [THEN conjunct1] wf q(1)] by metis
  have "wf_parser q" using extends_wf [OF forwardD [OF forward_methods(1) wf q(1)] wf] .
  from rest_wf [OF this] rest_consume [OF w(2)] w(3) q(2) have "s \<noteq> []" "tok_type (hd s) = EOF" by auto
  moreover have ts: "ts = w @ s" using w(2) by (simp add: rest_init)
  ultimately obtain e where "s = [e]" using stream_split assms(1) by blast
  moreover have "indicators_used r = I" "variables_used r = V"
    using q(4) w(3) by (simp_all add: consume_def parser_init_def)
  ultimately show ?thesis using ts w(1) by blast
qed

lemma parse_complete:
  assumes "stream_ok (w @ [e])" "g_expr w I V"
  shows "parse (parser_init (w @ [e])) =
    Some \<lparr>is_valid = True, errors = [], indicators_used = I, variables_used = V\<rparr>"
proof -
  let ?p = "parser_init (w @ [e])"
  have wf: "wf_parser ?p" using assms(1) by (rule wf_parser_init)
  obtain q where q: "parse_expression (parse_fuel (p_tokens ?p)) ?p = Some q"
    using parse_enough [OF wf] by blast
  have e: "tok_type e = EOF" using assms(1) by (simp add: stream_ok_def)
  have fol: "follows F_expr [e]" using e by (simp add: follows_def F_defs)
  have r: "rest ?p = w @ [e]" by (rule rest_init)
  have q': "q = consume w I V ?p" using acceptsD [OF g_accepts(1) [OF assms(2)] wf r fol q] .
  have "follows {EOF} [e]" using e by (simp add: follows_def)
  from cur_follows [OF follows_wf [OF wf r fol] rest_consume [OF r] this] have "cur q = EOF"
    using q' by blast
  moreover have "cur ?p \<noteq> EOF"
    using rest_wf [OF wf] r g_first(1) [OF assms(2)] by auto
  ultimately show ?thesis using q q' by (simp add: parse_def consume_def parser_init_def)
qed



text \<open>A call of an unknown function makes the source invalid, although a comment in the parser says that
  it should not block.\<close>

lemma unknown_call_rejected:
  "\<exists>r. validate_dsl ''FOO(1) > 2'' = Some r \<and> \<not> is_valid r \<and> length (errors r) = 1"
proof -
  have "map_option (\<lambda>r. (is_valid r, length (errors r))) (validate_dsl ''FOO(1) > 2'') = Some (False, 1)"
    by code_simp
  then show ?thesis by auto
qed

end
