(* ===== verification/Broker_Interface.thy ===== *)
theory Broker_Interface
  imports Contracts
begin

text \<open>
  The order part of \<open>BrokerAdapterInterface\<close> (\<open>libs/contracts/interfaces/broker_adapter.py\<close>) as two
  locales. A provider has a state and an invariant; \<open>submit\<close> takes the identifier and the time that
  come from outside. The laws are the documented contract. \<open>order_intake\<close>: submission is idempotent in
  \<open>client_order_id\<close>, an accepted order can be queried under its identifier, which is \<open>new_id\<close>, and an unknown
  identifier is \<open>NotFoundError\<close>. \<open>broker_adapter\<close>, for orders that stay open: cancellation ends an order that
  is not yet terminal and leaves a terminal one alone.
\<close>

locale order_intake =
  fixes submit :: "string \<Rightarrow> datetime \<Rightarrow> order_request \<Rightarrow> 's \<Rightarrow> (exn, order_response) result \<times> 's"
    and get :: "'s \<Rightarrow> string \<Rightarrow> (exn, order_response) result"
    and order_of :: "'s \<Rightarrow> string \<Rightarrow> order_response option"
    and known :: "'s \<Rightarrow> string \<Rightarrow> string option"
    and new_id :: "string \<Rightarrow> 's \<Rightarrow> string"
    and accepts :: "'s \<Rightarrow> order_request \<Rightarrow> bool"
    and invar :: "'s \<Rightarrow> bool"
  assumes get_order_of: "get s bid = (case order_of s bid of None \<Rightarrow> Inl NotFoundError | Some r \<Rightarrow> Inr r)"
    and known_order: "invar s \<Longrightarrow> known s cid = Some bid \<Longrightarrow>
      \<exists>r. order_of s bid = Some r \<and> os_client_order_id r = cid"
    and submit_known: "invar s \<Longrightarrow> known s (rq_client_order_id rq) = Some bid \<Longrightarrow>
      submit nid now rq s = (get s bid, s)"
    and submit_new: "invar s \<Longrightarrow> known s (rq_client_order_id rq) = None \<Longrightarrow> order_of s (new_id nid s) = None \<Longrightarrow> accepts s rq \<Longrightarrow>
      \<exists>r s'. submit nid now rq s = (Inr r, s') \<and> order_of s' = (order_of s)(new_id nid s \<mapsto> r) \<and>
        known s' = (known s)(rq_client_order_id rq \<mapsto> new_id nid s) \<and> os_client_order_id r = rq_client_order_id rq"
    and submit_invar: "invar s \<Longrightarrow> order_of s (new_id nid s) = None \<Longrightarrow> order_request_valid rq \<Longrightarrow>
      invar (snd (submit nid now rq s))"
begin

text \<open>A retried submission returns the order as it is now and changes nothing.\<close>

lemma submit_retry:
  assumes "invar s" "known s (rq_client_order_id rq) = None" "order_of s (new_id nid s) = None" "accepts s rq"
    "submit nid now rq s = (Inr r, s1)" "order_request_valid rq"
  shows "submit nid' now' rq s1 = (Inr r, s1)"
proof -
  obtain r' s' where new: "submit nid now rq s = (Inr r', s')" "order_of s' = (order_of s)(new_id nid s \<mapsto> r')"
      "known s' = (known s)(rq_client_order_id rq \<mapsto> new_id nid s)"
    using submit_new [OF assms(1-4)] by blast
  have "invar s1" using submit_invar [OF assms(1,3,6), of now] assms(5) by simp
  moreover have "known s1 (rq_client_order_id rq) = Some (new_id nid s)" "order_of s1 (new_id nid s) = Some r"
    using new assms(5) by auto
  ultimately show ?thesis using submit_known by (simp add: get_order_of)
qed

end

locale broker_adapter = order_intake submit get order_of known "\<lambda>nid s. nid" "\<lambda>s rq. True" invar
  for submit :: "string \<Rightarrow> datetime \<Rightarrow> order_request \<Rightarrow> 's \<Rightarrow> (exn, order_response) result \<times> 's"
    and get :: "'s \<Rightarrow> string \<Rightarrow> (exn, order_response) result"
    and order_of :: "'s \<Rightarrow> string \<Rightarrow> order_response option"
    and known :: "'s \<Rightarrow> string \<Rightarrow> string option"
    and invar :: "'s \<Rightarrow> bool" +
  fixes cancel :: "datetime \<Rightarrow> string \<Rightarrow> 's \<Rightarrow> (exn, order_response) result \<times> 's"
  assumes submit_open: "invar s \<Longrightarrow> known s (rq_client_order_id rq) = None \<Longrightarrow> order_of s nid = None \<Longrightarrow>
      submit nid now rq s = (Inr r, s') \<Longrightarrow> os_status r \<notin> set terminal_statuses"
    and cancel_unknown: "order_of s bid = None \<Longrightarrow> cancel now bid s = (Inl NotFoundError, s)"
    and cancel_terminal: "order_of s bid = Some r \<Longrightarrow> os_status r \<in> set terminal_statuses \<Longrightarrow>
      cancel now bid s = (Inr r, s)"
    and cancel_open: "invar s \<Longrightarrow> order_of s bid = Some r \<Longrightarrow> os_status r \<notin> set terminal_statuses \<Longrightarrow>
      \<exists>s'. cancel now bid s = (Inr (r\<lparr>os_status := CANCELLED, os_cancelled_at := Some now\<rparr>), s') \<and>
        order_of s' = (order_of s)(bid \<mapsto> r\<lparr>os_status := CANCELLED, os_cancelled_at := Some now\<rparr>) \<and>
        known s' = known s"
    and cancel_invar: "invar s \<Longrightarrow> invar (snd (cancel now bid s))"
begin

text \<open>Whatever happened to it, an order is terminal after a successful cancellation, and a query
  returns what the cancellation returned.\<close>

lemma cancel_then_get:
  assumes "invar s" "cancel now bid s = (Inr r, s')"
  shows "os_status r \<in> set terminal_statuses \<and> get s' bid = Inr r"
proof -
  have "order_of s bid \<noteq> None" using assms(2) cancel_unknown by force
  then obtain r0 where r0: "order_of s bid = Some r0" by auto
  show ?thesis
  proof (cases "os_status r0 \<in> set terminal_statuses")
    case True
    with cancel_terminal [OF r0 True] assms(2) r0 show ?thesis by (auto simp: get_order_of)
  next
    case False
    from cancel_open [OF assms(1) r0 False, of now] assms(2) show ?thesis by (auto simp: get_order_of)
  qed
qed

text \<open>A second cancellation returns the same order and changes nothing.\<close>

lemma cancel_idempotent:
  assumes "invar s" "cancel now bid s = (Inr r, s')"
  shows "cancel now' bid s' = (Inr r, s')"
proof -
  from cancel_then_get [OF assms] have "os_status r \<in> set terminal_statuses" "order_of s' bid = Some r"
    by (auto simp: get_order_of split: option.splits)
  with cancel_terminal show ?thesis by blast
qed

text \<open>A client that retries a submission after a cancellation gets the cancelled order back: the
  retry cannot create a second order.\<close>

lemma retry_after_cancel:
  assumes "invar s" "known s (rq_client_order_id rq) = Some bid" "cancel now bid s = (Inr r, s')"
  shows "submit nid now' rq s' = (Inr r, s')"
proof -
  have inv: "invar s'" using cancel_invar [OF assms(1), of now bid] assms(3) by simp
  have "known s' = known s"
  proof -
    obtain r0 where r0: "order_of s bid = Some r0" using known_order [OF assms(1,2)] by blast
    show ?thesis
    proof (cases "os_status r0 \<in> set terminal_statuses")
      case True
      with cancel_terminal [OF r0] assms(3) show ?thesis by simp
    next
      case False
      with cancel_open [OF assms(1) r0, of now] assms(3) show ?thesis by auto
    qed
  qed
  with submit_known [OF inv] assms(2) cancel_then_get [OF assms(1,3)] show ?thesis by simp
qed

end

end
