(* ===== verification/Paper_Broker.thy ===== *)
theory Paper_Broker
  imports Broker_Interface
begin

text \<open>
  The simulated broker of paper trading, \<open>libs/broker/paper_broker_adapter.py\<close>. The object is a
  record with the fields of the class; dictionaries keep their insertion order. Identifiers from
  \<open>uuid4\<close> and clock readings are arguments: a submission takes the new broker order id and the
  time, a tick takes for every order it fills the fill id, the execution id and the time. The
  arithmetic is that of \<open>Decimal\<close>, rounding included. A tick can raise half-way (a fill at a
  price that is not positive is refused by the schema of \<open>OrderFillEvent\<close>), so it returns the
  outcome together with the state it leaves behind. \<open>connect\<close>, \<open>disconnect\<close> and the timeout
  configuration have no effect on this adapter and are left out.
\<close>

section \<open>State\<close>

record position_state =
  po_quantity :: decimal
  po_avg_entry_price :: decimal
  po_realized_pnl :: decimal

record paper_broker =
  pb_market_prices :: "(string, decimal) dict"
  pb_initial_equity :: decimal
  pb_commission :: decimal
  pb_partial_fill_ratio :: decimal
  pb_market_open :: bool
  pb_orders :: "(string, order_response) dict"
  pb_pending_requests :: "(string, order_request) dict"
  pb_client_id_map :: "(string, string) dict"
  pb_fills :: "(string, order_fill_event list) dict"
  pb_positions :: "(string, position_state) dict"
  pb_cash :: decimal
  pb_total_commission :: decimal
  pb_started_at :: datetime

definition paper_init ::
  "(string, decimal) dict \<Rightarrow> decimal \<Rightarrow> decimal \<Rightarrow> decimal \<Rightarrow> bool \<Rightarrow> datetime \<Rightarrow> paper_broker" where
  "paper_init prices equity commission ratio is_open now =
     \<lparr>pb_market_prices = prices, pb_initial_equity = equity, pb_commission = commission,
      pb_partial_fill_ratio = ratio, pb_market_open = is_open, pb_orders = [],
      pb_pending_requests = [], pb_client_id_map = [], pb_fills = [], pb_positions = [],
      pb_cash = equity, pb_total_commission = 0, pb_started_at = now\<rparr>"

section \<open>Orders\<close>

definition new_response :: "string \<Rightarrow> datetime \<Rightarrow> order_request \<Rightarrow> order_response" where
  "new_response bid now rq =
     \<lparr>os_client_order_id = rq_client_order_id rq, os_broker_order_id = Some bid,
      os_symbol = rq_symbol rq, os_side = rq_side rq, os_order_type = rq_order_type rq,
      os_quantity = rq_quantity rq, os_filled_quantity = 0, os_average_fill_price = None,
      os_status = SUBMITTED, os_limit_price = rq_limit_price rq, os_stop_price = rq_stop_price rq,
      os_time_in_force = rq_time_in_force rq, os_submitted_at = Some now, os_filled_at = None,
      os_cancelled_at = None, os_rejected_reason = None,
      os_correlation_id = rq_correlation_id rq, os_execution_mode = rq_execution_mode rq\<rparr>"

definition submit_order ::
  "string \<Rightarrow> datetime \<Rightarrow> order_request \<Rightarrow> paper_broker \<Rightarrow> (exn, order_response) result \<times> paper_broker" where
  "submit_order bid now rq b =
     (case dict_get (pb_client_id_map b) (rq_client_order_id rq) of
        Some existing_id \<Rightarrow>
          ((case dict_get (pb_orders b) existing_id of
              Some r \<Rightarrow> Inr r | None \<Rightarrow> Inl (PyError ''KeyError'')), b)
      | None \<Rightarrow>
          let response = new_response bid now rq
          in (Inr response,
              b\<lparr>pb_orders := dict_set bid response (pb_orders b),
                pb_pending_requests := dict_set bid rq (pb_pending_requests b),
                pb_client_id_map := dict_set (rq_client_order_id rq) bid (pb_client_id_map b),
                pb_fills := dict_set bid [] (pb_fills b)\<rparr>))"

text \<open>The cancelled order copies the fields one by one; \<open>filled_at\<close> and \<open>rejected_reason\<close> are not
  among them and fall back to \<open>None\<close>.\<close>

definition cancel_order ::
  "datetime \<Rightarrow> string \<Rightarrow> paper_broker \<Rightarrow> (exn, order_response) result \<times> paper_broker" where
  "cancel_order now bid b =
     (case dict_get (pb_orders b) bid of
        None \<Rightarrow> (Inl NotFoundError, b)
      | Some existing \<Rightarrow>
          if os_status existing \<in> set terminal_statuses then (Inr existing, b)
          else
            let cancelled = existing\<lparr>os_status := CANCELLED, os_cancelled_at := Some now,
                                     os_filled_at := None, os_rejected_reason := None\<rparr>
            in (Inr cancelled,
                b\<lparr>pb_orders := dict_set bid cancelled (pb_orders b),
                  pb_pending_requests := dict_del bid (pb_pending_requests b)\<rparr>))"

definition get_order :: "paper_broker \<Rightarrow> string \<Rightarrow> (exn, order_response) result" where
  "get_order b bid =
     (case dict_get (pb_orders b) bid of None \<Rightarrow> Inl NotFoundError | Some r \<Rightarrow> Inr r)"

definition list_open_orders :: "paper_broker \<Rightarrow> order_response list" where
  "list_open_orders b =
     filter (\<lambda>o'. os_status o' \<notin> set terminal_statuses) (dict_values (pb_orders b))"

definition get_fills :: "paper_broker \<Rightarrow> string \<Rightarrow> (exn, order_fill_event list) result" where
  "get_fills b bid =
     (if dict_has (pb_orders b) bid
      then Inr (case dict_get (pb_fills b) bid of None \<Rightarrow> [] | Some fs \<Rightarrow> fs)
      else Inl NotFoundError)"

definition get_all_order_states :: "paper_broker \<Rightarrow> order_response list" where
  "get_all_order_states b = dict_values (pb_orders b)"

definition get_submitted_orders_count :: "paper_broker \<Rightarrow> int" where
  "get_submitted_orders_count b = int (length (pb_orders b))"

section \<open>Positions and account\<close>

definition update_position ::
  "string \<Rightarrow> order_side \<Rightarrow> decimal \<Rightarrow> decimal \<Rightarrow> (string, position_state) dict \<Rightarrow>
     (exn, (string, position_state) dict) result" where
  "update_position symbol side quantity price ps =
     (let signed_qty = (if side = BUY then quantity else dneg quantity)
      in case dict_get ps symbol of
           None \<Rightarrow> Inr (dict_set symbol
                     \<lparr>po_quantity = signed_qty, po_avg_entry_price = price, po_realized_pnl = 0\<rparr> ps)
         | Some pos \<Rightarrow>
             let new_qty = dadd (po_quantity pos) signed_qty
             in if new_qty = 0 then
                  let pnl = (if po_quantity pos < 0
                             then dmul (dsub (po_avg_entry_price pos) price) (dabs signed_qty)
                             else dmul (dsub price (po_avg_entry_price pos)) (dabs signed_qty))
                  in Inr (dict_set symbol
                       (pos\<lparr>po_realized_pnl := dadd (po_realized_pnl pos) pnl,
                            po_quantity := 0, po_avg_entry_price := 0\<rparr>) ps)
                else if (0 < po_quantity pos \<and> 0 < signed_qty) \<or> (po_quantity pos < 0 \<and> signed_qty < 0)
                then
                  let total_cost = dadd (dmul (po_avg_entry_price pos) (dabs (po_quantity pos)))
                                        (dmul price (dabs signed_qty))
                  in bind_r (ddiv total_cost (dabs new_qty))
                       (\<lambda>avg. Inr (dict_set symbol
                          (pos\<lparr>po_avg_entry_price := avg, po_quantity := new_qty\<rparr>) ps))
                else
                  let closed_qty = min (dabs signed_qty) (dabs (po_quantity pos));
                      pnl = (if 0 < po_quantity pos
                             then dmul (dsub price (po_avg_entry_price pos)) closed_qty
                             else dmul (dsub (po_avg_entry_price pos) price) closed_qty)
                  in Inr (dict_set symbol
                       (pos\<lparr>po_realized_pnl := dadd (po_realized_pnl pos) pnl,
                            po_quantity := new_qty\<rparr>) ps))"

definition get_positions :: "datetime \<Rightarrow> paper_broker \<Rightarrow> position_snapshot list" where
  "get_positions now b =
     map (\<lambda>(symbol, pos).
            let market_price = (case dict_get (pb_market_prices b) symbol of
                                  Some p \<Rightarrow> p | None \<Rightarrow> po_avg_entry_price pos)
            in \<lparr>ps_symbol = symbol, ps_quantity = po_quantity pos,
                ps_average_entry_price = po_avg_entry_price pos, ps_market_price = market_price,
                ps_market_value = dmul (po_quantity pos) market_price,
                ps_unrealized_pnl = dmul (dsub market_price (po_avg_entry_price pos)) (po_quantity pos),
                ps_realized_pnl = po_realized_pnl pos,
                ps_cost_basis = dmul (dabs (po_quantity pos)) (po_avg_entry_price pos),
                ps_updated_at = now\<rparr>)
       (filter (\<lambda>(symbol, pos). po_quantity pos \<noteq> 0) (pb_positions b))"

definition get_account :: "datetime \<Rightarrow> datetime \<Rightarrow> paper_broker \<Rightarrow> account_snapshot" where
  "get_account now now' b =
     (let positions = get_positions now' b;
          portfolio_value = dsum (map ps_market_value positions);
          unrealized_pnl = dsum (map ps_unrealized_pnl positions)
      in \<lparr>ac_account_id = ''PAPER-ACCOUNT'', ac_equity = dadd (pb_cash b) portfolio_value,
          ac_cash = pb_cash b, ac_buying_power = dmul (pb_cash b) 2,
          ac_portfolio_value = portfolio_value, ac_daily_pnl = unrealized_pnl,
          ac_pending_orders_count = int (length (list_open_orders b)),
          ac_positions_count = int (length positions), ac_updated_at = now\<rparr>)"

definition get_diagnostics :: "datetime \<Rightarrow> paper_broker \<Rightarrow> adapter_diagnostics" where
  "get_diagnostics now b =
     \<lparr>ad_broker_name = ''paper'', ad_connection_status = CONNECTED, ad_latency_ms = 0,
      ad_error_count_1h = 0, ad_last_heartbeat = Some now, ad_last_error = None,
      ad_market_open = pb_market_open b, ad_orders_submitted_today = int (length (pb_orders b)),
      ad_orders_filled_today =
        int (length (filter (\<lambda>o'. os_status o' = FILLED \<or> os_status o' = PARTIAL_FILL)
               (dict_values (pb_orders b)))),
      ad_uptime_seconds = trunc (fl (of_int (now - pb_started_at b) / 1000000))\<rparr>"

definition is_market_open :: "paper_broker \<Rightarrow> bool" where
  "is_market_open b = pb_market_open b"

section \<open>The tick\<close>

definition should_fill :: "order_response \<Rightarrow> decimal \<Rightarrow> bool" where
  "should_fill order market_price =
     (case os_order_type order of
        MARKET \<Rightarrow> True
      | LIMIT \<Rightarrow>
          (case os_side order of
             BUY \<Rightarrow> market_price \<le> (case os_limit_price order of None \<Rightarrow> 0 | Some l \<Rightarrow> l)
           | SELL \<Rightarrow> (case os_limit_price order of None \<Rightarrow> False
                       | Some l \<Rightarrow> if l = 0 then False else l \<le> market_price))
      | STOP \<Rightarrow>
          (case os_side order of
             BUY \<Rightarrow> (case os_stop_price order of None \<Rightarrow> False
                      | Some l \<Rightarrow> if l = 0 then False else l \<le> market_price)
           | SELL \<Rightarrow> market_price \<le> (case os_stop_price order of None \<Rightarrow> 0 | Some l \<Rightarrow> l))
      | STOP_LIMIT \<Rightarrow> False)"

definition determine_fill_price :: "order_response \<Rightarrow> decimal \<Rightarrow> decimal" where
  "determine_fill_price order market_price = market_price"

text \<open>The quantity to fill, the new filled quantity and the new average price.\<close>

definition fill_quantity :: "decimal \<Rightarrow> order_response \<Rightarrow> (exn, decimal) result" where
  "fill_quantity ratio order =
     (let remaining = dsub (os_quantity order) (os_filled_quantity order)
      in bind_r (quantize_1 (dmul remaining ratio))
           (\<lambda>q. Inr (if q \<le> 0 then remaining else q)))"

definition average_price ::
  "order_response \<Rightarrow> decimal \<Rightarrow> decimal \<Rightarrow> decimal \<Rightarrow> (exn, decimal) result" where
  "average_price order fill_price fill_qty new_filled_qty =
     (case os_average_fill_price order of
        Some avg \<Rightarrow>
          if 0 < os_filled_quantity order
          then ddiv (dadd (dmul avg (os_filled_quantity order)) (dmul fill_price fill_qty)) new_filled_qty
          else Inr fill_price
      | None \<Rightarrow> Inr fill_price)"

text \<open>What a tick needs from outside for one order: fill id, execution id and the time.\<close>

type_synonym tick_ids = "string \<Rightarrow> string \<times> string \<times> datetime"

definition filled_response ::
  "order_response \<Rightarrow> decimal \<Rightarrow> decimal \<Rightarrow> bool \<Rightarrow> datetime \<Rightarrow> order_response" where
  "filled_response order new_filled_qty avg_price is_complete now =
     order\<lparr>os_filled_quantity := new_filled_qty, os_average_fill_price := Some avg_price,
           os_status := (if is_complete then FILLED else PARTIAL_FILL),
           os_filled_at := (if is_complete then Some now else None),
           os_cancelled_at := None, os_rejected_reason := None\<rparr>"

definition fill_event ::
  "tick_ids \<Rightarrow> string \<Rightarrow> order_response \<Rightarrow> decimal \<Rightarrow> decimal \<Rightarrow> decimal \<Rightarrow> order_fill_event" where
  "fill_event ids bid order price qty commission =
     (case ids bid of (fill_id, exec_id, now) \<Rightarrow>
        \<lparr>fe_fill_id = fill_id, fe_order_id = os_client_order_id order, fe_broker_order_id = Some bid,
         fe_symbol = os_symbol order, fe_side = os_side order, fe_price = price, fe_quantity = qty,
         fe_commission = commission, fe_filled_at = now, fe_broker_execution_id = Some exec_id,
         fe_correlation_id = os_correlation_id order\<rparr>)"

text \<open>The effect of a fill on the account: the event, the position, the cash, the commission and
  the pending request, in this order. The event's schema requires a positive price and quantity.\<close>

definition book_fill ::
  "tick_ids \<Rightarrow> string \<Rightarrow> order_response \<Rightarrow> decimal \<Rightarrow> decimal \<Rightarrow> bool \<Rightarrow> paper_broker \<Rightarrow>
     (exn, unit) result \<times> paper_broker" where
  "book_fill ids bid order price qty is_complete b =
     (if price \<le> 0 \<or> qty \<le> 0 then (Inl (PyError ''pydantic.ValidationError''), b)
      else
        let event = fill_event ids bid order price qty (pb_commission b);
            fills = (case dict_get (pb_fills b) bid of None \<Rightarrow> [] | Some fs \<Rightarrow> fs);
            b1 = b\<lparr>pb_fills := dict_set bid (fills @ [event]) (pb_fills b)\<rparr>
        in case update_position (os_symbol order) (os_side order) qty price (pb_positions b1) of
             Inl e \<Rightarrow> (Inl e, b1)
           | Inr ps \<Rightarrow>
               (Inr (),
                b1\<lparr>pb_positions := ps,
                   pb_cash := (if os_side order = BUY
                               then dsub (pb_cash b) (dadd (dmul price qty) (pb_commission b))
                               else dadd (pb_cash b) (dsub (dmul price qty) (pb_commission b))),
                   pb_total_commission := dadd (pb_total_commission b) (pb_commission b),
                   pb_pending_requests :=
                     (if is_complete then dict_del bid (pb_pending_requests b)
                      else pb_pending_requests b)\<rparr>))"

text \<open>One iteration of the loop: \<open>None\<close> means that the order was skipped.\<close>

definition process_order ::
  "tick_ids \<Rightarrow> string \<Rightarrow> paper_broker \<Rightarrow> (exn, order_response option) result \<times> paper_broker" where
  "process_order ids bid b =
     (case dict_get (pb_orders b) bid of
        None \<Rightarrow> (Inl (PyError ''KeyError''), b)
      | Some order \<Rightarrow>
          (case (dict_get (pb_pending_requests b) bid, dict_get (pb_market_prices b) (os_symbol order)) of
             (Some rq, Some market_price) \<Rightarrow>
               if \<not> should_fill order market_price then (Inr None, b)
               else
                 let price = determine_fill_price order market_price
                 in (case fill_quantity (pb_partial_fill_ratio b) order of
                       Inl e \<Rightarrow> (Inl e, b)
                     | Inr qty \<Rightarrow>
                         let new_filled = dadd (os_filled_quantity order) qty;
                             is_complete = (os_quantity order \<le> new_filled)
                         in (case average_price order price qty new_filled of
                               Inl e \<Rightarrow> (Inl e, b)
                             | Inr avg \<Rightarrow>
                                 let updated = filled_response order new_filled avg is_complete
                                                 (snd (snd (ids bid)));
                                     b1 = b\<lparr>pb_orders := dict_set bid updated (pb_orders b)\<rparr>
                                 in (case book_fill ids bid order price qty is_complete b1 of
                                       (Inl e, b2) \<Rightarrow> (Inl e, b2)
                                     | (Inr _, b2) \<Rightarrow> (Inr (Some updated), b2))))
           | _ \<Rightarrow> (Inr None, b)))"

fun process_orders ::
  "tick_ids \<Rightarrow> string list \<Rightarrow> paper_broker \<Rightarrow> (exn, order_response list) result \<times> paper_broker" where
  "process_orders ids [] b = (Inr [], b)"
| "process_orders ids (bid # bids) b =
     (case process_order ids bid b of
        (Inl e, b1) \<Rightarrow> (Inl e, b1)
      | (Inr r, b1) \<Rightarrow>
          (case process_orders ids bids b1 of
             (Inl e, b2) \<Rightarrow> (Inl e, b2)
           | (Inr rs, b2) \<Rightarrow> (Inr ((case r of None \<Rightarrow> [] | Some u \<Rightarrow> [u]) @ rs), b2)))"

definition pending_ids :: "paper_broker \<Rightarrow> string list" where
  "pending_ids b =
     map fst (filter (\<lambda>(bid, order). os_status order = SUBMITTED \<or> os_status order = PARTIAL_FILL)
                (pb_orders b))"

definition process_pending_orders ::
  "tick_ids \<Rightarrow> paper_broker \<Rightarrow> (exn, order_response list) result \<times> paper_broker" where
  "process_pending_orders ids b = process_orders ids (pending_ids b) b"

section \<open>Prices and reset\<close>

definition update_market_price :: "string \<Rightarrow> decimal \<Rightarrow> paper_broker \<Rightarrow> paper_broker" where
  "update_market_price symbol price b =
     b\<lparr>pb_market_prices := dict_set symbol price (pb_market_prices b)\<rparr>"

definition paper_clear :: "paper_broker \<Rightarrow> paper_broker" where
  "paper_clear b =
     b\<lparr>pb_orders := [], pb_pending_requests := [], pb_client_id_map := [], pb_fills := [],
       pb_positions := [], pb_cash := pb_initial_equity b, pb_total_commission := 0\<rparr>"

section \<open>Arithmetic of a fill\<close>

lemma dneg_eq: "dneg a = - dec a"
  by (simp add: dneg_def decimal.rnd_minus)

lemma dabs_zero_iff: "dabs a = 0 \<longleftrightarrow> a = 0"
  by (simp add: dabs_def decimal.rnd_zero_iff)

text \<open>A fill is positive as long as something remains, whatever the configured ratio.\<close>

lemma fill_quantity_pos:
  assumes "fill_quantity ratio order = Inr q" "os_filled_quantity order < os_quantity order"
  shows "0 < q"
proof -
  have "0 < dsub (os_quantity order) (os_filled_quantity order)"
    using assms(2) by (simp add: dsub_def decimal.rnd_pos)
  with assms(1) show ?thesis
    by (auto simp: fill_quantity_def Let_def bind_r_Inr_iff split: if_splits)
qed

lemma update_position_total: "\<exists>ps'. update_position symbol side q price ps = Inr ps'"
  by (simp add: update_position_def Let_def ddiv_def dabs_zero_iff split: option.splits)

lemma average_price_total:
  assumes "0 \<le> os_filled_quantity order" "0 < qty"
  shows "\<exists>avg. average_price order price qty (dadd (os_filled_quantity order) qty) = Inr avg"
proof -
  have "0 < dadd (os_filled_quantity order) qty" using assms by (simp add: dadd_def decimal.rnd_pos)
  then show ?thesis by (auto simp: average_price_def ddiv_def split: option.splits)
qed

section \<open>The invariant\<close>

definition order_pending :: "order_response \<Rightarrow> bool" where
  "order_pending r \<longleftrightarrow> os_status r = SUBMITTED \<or> os_status r = PARTIAL_FILL"

text \<open>A fill event of an order is for the order's symbol and side, and the order's price condition
  held at the price of the fill.\<close>

definition fill_justified :: "order_response \<Rightarrow> order_fill_event \<Rightarrow> bool" where
  "fill_justified r e \<longleftrightarrow>
     should_fill r (fe_price e) \<and> 0 < fe_price e \<and> 0 < fe_quantity e \<and>
     fe_symbol e = os_symbol r \<and> fe_side e = os_side r \<and> fe_order_id e = os_client_order_id r"

lemma fill_justified_cancelled [simp]:
  "fill_justified (r\<lparr>os_status := s, os_cancelled_at := c, os_filled_at := f, os_rejected_reason := x\<rparr>) e =
     fill_justified r e"
  by (cases "os_order_type r"; cases "os_side r") (simp_all add: fill_justified_def should_fill_def)

lemma fill_justified_filled [simp]:
  "fill_justified (filled_response r q avg c now) e = fill_justified r e"
  by (cases "os_order_type r"; cases "os_side r")
    (simp_all add: fill_justified_def should_fill_def filled_response_def)

lemma fill_justified_event:
  assumes "should_fill r p" "0 < p" "0 < q"
  shows "fill_justified r (fill_event ids bid r p q c)"
  using assms by (simp add: fill_justified_def fill_event_def split: prod.splits)

text \<open>An order is filed under its own identifiers, its filled quantity is the sum of its fill
  events, each of them justified, its status agrees with that quantity, and it has a pending request exactly while it
  can still be filled.\<close>

definition order_ok :: "paper_broker \<Rightarrow> string \<Rightarrow> order_response \<Rightarrow> bool" where
  "order_ok b bid r \<longleftrightarrow>
     os_broker_order_id r = Some bid \<and>
     dict_get (pb_client_id_map b) (os_client_order_id r) = Some bid \<and>
     0 < os_quantity r \<and>
     (\<exists>fs. dict_get (pb_fills b) bid = Some fs \<and> os_filled_quantity r = dsum (map fe_quantity fs) \<and>
        (\<forall>e\<in>set fs. fill_justified r e)) \<and>
     (os_status r = SUBMITTED \<and> os_filled_quantity r = 0 \<or>
      os_status r = PARTIAL_FILL \<and> 0 < os_filled_quantity r \<and> os_filled_quantity r < os_quantity r \<or>
      os_status r = FILLED \<and> os_quantity r \<le> os_filled_quantity r \<or>
      os_status r = CANCELLED \<and> 0 \<le> os_filled_quantity r \<and> os_filled_quantity r < os_quantity r) \<and>
     (dict_get (pb_pending_requests b) bid \<noteq> None \<longleftrightarrow> order_pending r) \<and>
     (order_pending r \<longrightarrow> os_filled_at r = None \<and> os_cancelled_at r = None \<and> os_rejected_reason r = None)"

definition pb_inv :: "paper_broker \<Rightarrow> bool" where
  "pb_inv b \<longleftrightarrow>
     dict_ok (pb_orders b) \<and>
     (\<forall>bid r. dict_get (pb_orders b) bid = Some r \<longrightarrow> order_ok b bid r) \<and>
     (\<forall>bid. dict_get (pb_orders b) bid = None \<longrightarrow> dict_get (pb_pending_requests b) bid = None) \<and>
     (\<forall>cid bid. dict_get (pb_client_id_map b) cid = Some bid \<longrightarrow>
        (\<exists>r. dict_get (pb_orders b) bid = Some r \<and> os_client_order_id r = cid)) \<and>
     (\<forall>symbol p. dict_get (pb_market_prices b) symbol = Some p \<longrightarrow> 0 < p)"

lemma pb_inv_order: "pb_inv b \<Longrightarrow> dict_get (pb_orders b) bid = Some r \<Longrightarrow> order_ok b bid r"
  by (simp add: pb_inv_def)

lemma pb_inv_price: "pb_inv b \<Longrightarrow> dict_get (pb_market_prices b) symbol = Some p \<Longrightarrow> 0 < p"
  by (simp add: pb_inv_def)

lemma pb_inv_client: "pb_inv b \<Longrightarrow> dict_get (pb_client_id_map b) cid = Some bid \<Longrightarrow>
    \<exists>r. dict_get (pb_orders b) bid = Some r \<and> os_client_order_id r = cid"
  by (simp add: pb_inv_def)

lemma pb_inv_no_order: "pb_inv b \<Longrightarrow> dict_get (pb_orders b) bid = None \<Longrightarrow>
    dict_get (pb_pending_requests b) bid = None"
  by (simp add: pb_inv_def)

lemma pb_inv_dict_ok: "pb_inv b \<Longrightarrow> dict_ok (pb_orders b)"
  by (simp add: pb_inv_def)

text \<open>A step that files one order and leaves the others alone keeps the invariant when the new
  entry is in order.\<close>

lemma pb_inv_one_order:
  assumes inv: "pb_inv b" and orders: "pb_orders b' = dict_set bid r (pb_orders b)"
    and prices: "pb_market_prices b' = pb_market_prices b"
    and new: "order_ok b' bid r"
    and old: "\<And>k r'. k \<noteq> bid \<Longrightarrow> dict_get (pb_orders b) k = Some r' \<Longrightarrow> order_ok b' k r'"
    and none: "\<And>k. k \<noteq> bid \<Longrightarrow> dict_get (pb_pending_requests b') k = dict_get (pb_pending_requests b) k"
    and client: "\<And>cid k. dict_get (pb_client_id_map b') cid = Some k \<Longrightarrow>
      if k = bid then os_client_order_id r = cid else dict_get (pb_client_id_map b) cid = Some k"
  shows "pb_inv b'"
  unfolding pb_inv_def
proof (intro conjI allI impI)
  show "dict_ok (pb_orders b')" using inv by (simp add: orders pb_inv_dict_ok)
  show "order_ok b' k r'" if "dict_get (pb_orders b') k = Some r'" for k r'
    using that new old by (simp add: orders split: if_splits)
  show "dict_get (pb_pending_requests b') k = None" if "dict_get (pb_orders b') k = None" for k
    using that none [of k] pb_inv_no_order [OF inv] by (simp add: orders split: if_splits)
  show "\<exists>r'. dict_get (pb_orders b') k = Some r' \<and> os_client_order_id r' = cid"
    if "dict_get (pb_client_id_map b') cid = Some k" for cid k
    using client [OF that] pb_inv_client [OF inv] by (simp add: orders split: if_splits)
  show "0 < p" if "dict_get (pb_market_prices b') symbol = Some p" for symbol p
    using that pb_inv_price [OF inv] by (simp add: prices)
qed

lemma order_ok_pending:
  assumes "order_ok b bid r" "order_pending r"
  shows "0 \<le> os_filled_quantity r" "os_filled_quantity r < os_quantity r"
  using assms by (auto simp: order_ok_def order_pending_def)

lemma order_pending_iff: "order_ok b bid r \<Longrightarrow> order_pending r \<longleftrightarrow> os_status r \<notin> set terminal_statuses"
  by (auto simp: order_ok_def order_pending_def)

lemma order_ok_cong:
  assumes "dict_get (pb_client_id_map b') (os_client_order_id r) = dict_get (pb_client_id_map b) (os_client_order_id r)"
    "dict_get (pb_fills b') bid = dict_get (pb_fills b) bid"
    "dict_get (pb_pending_requests b') bid = dict_get (pb_pending_requests b) bid"
  shows "order_ok b' bid r \<longleftrightarrow> order_ok b bid r"
  using assms by (simp add: order_ok_def)

subsection \<open>Preservation\<close>

lemma pb_inv_init [inv_intros]:
  "(\<And>symbol p. dict_get prices symbol = Some p \<Longrightarrow> 0 < p) \<Longrightarrow>
     pb_inv (paper_init prices equity commission ratio is_open now)"
  by (simp add: pb_inv_def paper_init_def)

lemma pb_inv_clear [inv_intros]: "pb_inv b \<Longrightarrow> pb_inv (paper_clear b)"
  by (simp add: pb_inv_def paper_clear_def)

lemma pb_inv_price_update [inv_intros]: "pb_inv b \<Longrightarrow> 0 < p \<Longrightarrow> pb_inv (update_market_price symbol p b)"
  by (auto simp: pb_inv_def update_market_price_def order_ok_def)

lemma submit_new_state:
  assumes "dict_get (pb_client_id_map b) (rq_client_order_id rq) = None"
  shows "submit_order bid now rq b = (Inr (new_response bid now rq),
    b\<lparr>pb_orders := dict_set bid (new_response bid now rq) (pb_orders b),
      pb_pending_requests := dict_set bid rq (pb_pending_requests b),
      pb_client_id_map := dict_set (rq_client_order_id rq) bid (pb_client_id_map b),
      pb_fills := dict_set bid [] (pb_fills b)\<rparr>)"
  using assms by (simp add: submit_order_def Let_def)

lemma submit_known_state:
  assumes "pb_inv b" "dict_get (pb_client_id_map b) (rq_client_order_id rq) = Some bid'"
  shows "submit_order bid now rq b = (get_order b bid', b)"
proof -
  obtain r where "dict_get (pb_orders b) bid' = Some r" using assms unfolding pb_inv_def by blast
  with assms(2) show ?thesis by (simp add: submit_order_def get_order_def)
qed

lemma order_ok_new:
  assumes "0 < rq_quantity rq"
    "dict_get (pb_client_id_map b) (rq_client_order_id rq) = Some bid"
    "dict_get (pb_fills b) bid = Some []" "dict_get (pb_pending_requests b) bid \<noteq> None"
  shows "order_ok b bid (new_response bid now rq)"
  using assms by (simp add: order_ok_def new_response_def order_pending_def)

lemma pb_inv_submit [inv_intros]:
  assumes "pb_inv b" "dict_get (pb_orders b) bid = None" "0 < rq_quantity rq"
  shows "pb_inv (snd (submit_order bid now rq b))"
proof (cases "dict_get (pb_client_id_map b) (rq_client_order_id rq)")
  case (Some bid')
  with submit_known_state [OF assms(1) Some, of bid now] assms(1) show ?thesis by simp
next
  case None
  let ?b = "snd (submit_order bid now rq b)"
  note st = submit_new_state [OF None, of bid now]
  have new: "order_ok ?b bid (new_response bid now rq)"
    unfolding st using assms(3) by (intro order_ok_new) simp_all
  have old: "order_ok ?b k r" if k: "dict_get (pb_orders b) k = Some r" for k r
  proof -
    have ok: "order_ok b k r" using assms(1) k by (rule pb_inv_order)
    then have "os_client_order_id r \<noteq> rq_client_order_id rq" using None by (auto simp: order_ok_def)
    moreover have "k \<noteq> bid" using k assms(2) by auto
    ultimately show ?thesis using ok unfolding st by (subst order_ok_cong [where b = b]) simp_all
  qed
  have fresh: "k \<noteq> bid" if "dict_get (pb_client_id_map b) cid = Some k" for cid k
    using pb_inv_client [OF assms(1) that] assms(2) by auto
  show ?thesis
    by (rule pb_inv_one_order [OF assms(1) _ _ new old])
      (use fresh in \<open>auto simp: st new_response_def split: if_splits\<close>)
qed

lemma pb_inv_cancel [inv_intros]:
  assumes "pb_inv b"
  shows "pb_inv (snd (cancel_order now bid b))"
proof (cases "dict_get (pb_orders b) bid")
  case None
  then show ?thesis using assms by (simp add: cancel_order_def)
next
  case (Some r)
  show ?thesis
  proof (cases "os_status r \<in> set terminal_statuses")
    case True
    with Some assms show ?thesis by (simp add: cancel_order_def)
  next
    case False
    let ?r = "r\<lparr>os_status := CANCELLED, os_cancelled_at := Some now, os_filled_at := None,
      os_rejected_reason := None\<rparr>"
    let ?b = "b\<lparr>pb_orders := dict_set bid ?r (pb_orders b),
      pb_pending_requests := dict_del bid (pb_pending_requests b)\<rparr>"
    have st: "snd (cancel_order now bid b) = ?b" using Some False by (simp add: cancel_order_def Let_def)
    have ok: "order_ok b bid r" using assms Some by (rule pb_inv_order)
    have pend: "order_pending r" using order_pending_iff [OF ok] False by simp
    have new: "order_ok ?b bid ?r"
      using ok order_ok_pending [OF ok pend] by (auto simp: order_ok_def order_pending_def)
    have old: "order_ok ?b k r'" if "dict_get (pb_orders b) k = Some r'" "k \<noteq> bid" for k r'
      using pb_inv_order [OF assms that(1)] that(2) by (subst order_ok_cong [where b = b]) simp_all
    have cl: "os_client_order_id r = cid" if "dict_get (pb_client_id_map b) cid = Some bid" for cid
      using pb_inv_client [OF assms that] Some by simp
    show ?thesis unfolding st
      by (rule pb_inv_one_order [OF assms _ _ new old]) (use cl in auto)
  qed
qed


subsection \<open>A tick\<close>

text \<open>The state after a fill, and the three ways in which an iteration of the tick can go: it
  raises before it changed anything, it skips the order, or it books a complete fill.\<close>

definition fill_result ::
  "tick_ids \<Rightarrow> string \<Rightarrow> order_response \<Rightarrow> decimal \<Rightarrow> decimal \<Rightarrow> order_response" where
  "fill_result ids bid order qty avg =
     filled_response order (dadd (os_filled_quantity order) qty) avg
       (os_quantity order \<le> dadd (os_filled_quantity order) qty) (snd (snd (ids bid)))"

lemma process_order_effect:
  assumes inv: "pb_inv b"
  obtains (raised) e where "process_order ids bid b = (Inl e, b)"
      "\<And>order. dict_get (pb_orders b) bid = Some order \<Longrightarrow> order_pending order \<and>
        fill_quantity (pb_partial_fill_ratio b) order = Inl e"
  | (skipped) "process_order ids bid b = (Inr None, b)"
      "\<And>order p. dict_get (pb_orders b) bid = Some order \<Longrightarrow> order_pending order \<Longrightarrow>
        dict_get (pb_market_prices b) (os_symbol order) = Some p \<Longrightarrow> \<not> should_fill order p"
  | (filled) order price qty avg fs b' where
      "process_order ids bid b = (Inr (Some (fill_result ids bid order qty avg)), b')"
      "dict_get (pb_orders b) bid = Some order" "order_pending order"
      "dict_get (pb_market_prices b) (os_symbol order) = Some price" "should_fill order price"
      "fill_quantity (pb_partial_fill_ratio b) order = Inr qty" "0 < qty"
      "dict_get (pb_fills b) bid = Some fs"
      "pb_orders b' = dict_set bid (fill_result ids bid order qty avg) (pb_orders b)"
      "pb_fills b' = dict_set bid (fs @ [fill_event ids bid order price qty (pb_commission b)]) (pb_fills b)"
      "pb_pending_requests b' =
         (if os_quantity order \<le> dadd (os_filled_quantity order) qty
          then dict_del bid (pb_pending_requests b) else pb_pending_requests b)"
      "pb_client_id_map b' = pb_client_id_map b" "pb_market_prices b' = pb_market_prices b"
      "pb_partial_fill_ratio b' = pb_partial_fill_ratio b"
proof -
  show ?thesis
  proof (cases "dict_get (pb_orders b) bid")
    case None
    then show ?thesis by (intro raised) (simp_all add: process_order_def)
  next
    case order: (Some order)
    have ok: "order_ok b bid order" using inv order by (rule pb_inv_order)
    consider (no) "dict_get (pb_pending_requests b) bid = None \<or>
        dict_get (pb_market_prices b) (os_symbol order) = None \<or>
        (\<exists>p. dict_get (pb_market_prices b) (os_symbol order) = Some p \<and> \<not> should_fill order p)"
      | (yes) rq p where "dict_get (pb_pending_requests b) bid = Some rq"
        "dict_get (pb_market_prices b) (os_symbol order) = Some p" "should_fill order p"
      by (metis not_Some_eq)
    then show ?thesis
    proof cases
      case no
      then show ?thesis
        using ok
        by (intro skipped) (auto simp: process_order_def order order_ok_def split: option.splits)
    next
      case yes
      have pend: "order_pending order" using ok yes(1) by (simp add: order_ok_def)
      note filled = order_ok_pending [OF ok pend]
      have price: "0 < p" using inv yes(2) by (rule pb_inv_price)
      obtain fs where fs: "dict_get (pb_fills b) bid = Some fs" using ok by (auto simp: order_ok_def)
      show ?thesis
      proof (cases "fill_quantity (pb_partial_fill_ratio b) order")
        case (Inl e)
        then show ?thesis
          by (intro raised) (auto simp: process_order_def order yes Let_def pend)
      next
        case (Inr qty)
        have qty: "0 < qty" using Inr filled(2) by (rule fill_quantity_pos)
        obtain avg where avg: "average_price order p qty (dadd (os_filled_quantity order) qty) = Inr avg"
          using average_price_total [OF filled(1) qty] by blast
        obtain ps where ps: "update_position (os_symbol order) (os_side order) qty p (pb_positions b) = Inr ps"
          using update_position_total by blast
        show ?thesis
          by (rule that(3) [of order qty avg "snd (process_order ids bid b)" p fs])
            (use price qty in \<open>simp_all add: process_order_def order yes Let_def Inr avg ps fs pend
                 book_fill_def determine_fill_price_def fill_result_def\<close>)
      qed
    qed
  qed
qed

lemma pb_inv_process_order [inv_intros]:
  assumes inv: "pb_inv b"
  shows "pb_inv (snd (process_order ids bid b))"
  using inv
proof (cases rule: process_order_effect [of b ids bid, case_names raised skipped filled])
  case (filled order price qty avg fs b')
  let ?r = "fill_result ids bid order qty avg"
  have ok: "order_ok b bid order" using inv filled(2) by (rule pb_inv_order)
  note le = order_ok_pending [OF ok filled(3)]
  have pos: "0 < dadd (os_filled_quantity order) qty"
    using le(1) filled(7) by (simp add: dadd_def decimal.rnd_pos)
  have "0 < price" using inv filled(4) by (rule pb_inv_price)
  note ev = fill_justified_event [OF filled(5) this filled(7), of ids bid "pb_commission b"]
  obtain oldfs: "os_filled_quantity order = dsum (map fe_quantity fs)" "\<forall>e\<in>set fs. fill_justified order e"
    using ok filled(8) by (auto simp: order_ok_def)
  have "\<forall>e\<in>set (fs @ [fill_event ids bid order price qty (pb_commission b)]). fill_justified ?r e"
    using oldfs(2) ev by (simp add: fill_result_def)
  moreover have "os_filled_quantity ?r =
      dsum (map fe_quantity (fs @ [fill_event ids bid order price qty (pb_commission b)]))"
    by (simp add: fill_result_def filled_response_def oldfs(1) dsum_snoc fill_event_def split: prod.splits)
  ultimately have fs: "\<exists>fs'. dict_get (pb_fills b') bid = Some fs' \<and>
      os_filled_quantity ?r = dsum (map fe_quantity fs') \<and> (\<forall>e\<in>set fs'. fill_justified ?r e)"
    by (simp add: filled)
  have new: "order_ok b' bid ?r"
    unfolding order_ok_def
    using ok filled(3) pos le fs
    by (auto simp: order_ok_def order_pending_def fill_result_def filled_response_def filled)
  have old: "order_ok b' k r'" if "k \<noteq> bid" "dict_get (pb_orders b) k = Some r'" for k r'
    using pb_inv_order [OF inv that(2)] that(1)
    by (subst order_ok_cong [where b = b]) (simp_all add: filled)
  have cl: "os_client_order_id order = cid" if "dict_get (pb_client_id_map b) cid = Some bid" for cid
    using pb_inv_client [OF inv that] filled(2) by simp
  have "pb_inv b'"
    by (rule pb_inv_one_order [OF inv filled(9) filled(13) new old])
      (use cl in \<open>auto simp: filled fill_result_def filled_response_def\<close>)
  then show ?thesis by (simp add: filled)
qed (use inv in simp_all)

lemma pb_inv_process_orders: "pb_inv b \<Longrightarrow> pb_inv (snd (process_orders ids bids b))"
proof (induction bids arbitrary: b)
  case (Cons bid bids)
  have "pb_inv (snd (process_order ids bid b))" using Cons.prems by (rule pb_inv_process_order)
  then show ?case using Cons.IH by (auto split: prod.splits sum.splits) (metis snd_conv)+
qed simp

lemma pb_inv_tick [inv_intros]: "pb_inv b \<Longrightarrow> pb_inv (snd (process_pending_orders ids b))"
  by (simp add: process_pending_orders_def pb_inv_process_orders)

section \<open>The broker contract\<close>

text \<open>The paper broker implements the adapter interface; the facts \<open>paper.submit_retry\<close>,
  \<open>paper.cancel_then_get\<close>, \<open>paper.cancel_idempotent\<close> and \<open>paper.retry_after_cancel\<close> hold of it.\<close>

lemma dict_get_set_fun: "dict_get (dict_set k v d) = (dict_get d)(k \<mapsto> v)"
  by (rule update_conv')

lemma cancel_open_state:
  assumes "pb_inv b" "dict_get (pb_orders b) bid = Some r" "os_status r \<notin> set terminal_statuses"
  shows "cancel_order now bid b = (Inr (r\<lparr>os_status := CANCELLED, os_cancelled_at := Some now\<rparr>),
    b\<lparr>pb_orders := dict_set bid (r\<lparr>os_status := CANCELLED, os_cancelled_at := Some now\<rparr>) (pb_orders b),
      pb_pending_requests := dict_del bid (pb_pending_requests b)\<rparr>)"
proof -
  have ok: "order_ok b bid r" using assms(1,2) by (rule pb_inv_order)
  then have "order_pending r" using order_pending_iff assms(3) by blast
  with ok have "r\<lparr>os_status := CANCELLED, os_cancelled_at := Some now, os_filled_at := None,
      os_rejected_reason := None\<rparr> = r\<lparr>os_status := CANCELLED, os_cancelled_at := Some now\<rparr>"
    by (cases r) (simp add: order_ok_def)
  then show ?thesis using assms(2,3) by (simp add: cancel_order_def Let_def)
qed

interpretation paper: broker_adapter submit_order get_order
  "\<lambda>b. dict_get (pb_orders b)" "\<lambda>b. dict_get (pb_client_id_map b)" pb_inv cancel_order
proof (unfold_locales, goal_cases)
  case (2 b cid bid)
  then show ?case by (rule pb_inv_client)
next
  case (3 b rq bid nid now)
  then show ?case by (rule submit_known_state)
next
  case (4 b rq nid now)
  then show ?case
    by (auto simp: submit_new_state dict_get_set_fun new_response_def)
next
  case (5 b nid rq now)
  then show ?case by (simp add: pb_inv_submit order_request_valid_def)
next
  case (6 b rq nid now r b')
  then show ?case by (auto simp: submit_new_state new_response_def)
next
  case (9 b bid r now)
  then show ?case by (simp add: cancel_open_state dict_get_set_fun)
next
  case (10 b now bid)
  then show ?case by (rule pb_inv_cancel)
qed (simp_all add: get_order_def cancel_order_def)

section \<open>Histories\<close>

inductive pb_step :: "paper_broker \<Rightarrow> paper_broker \<Rightarrow> bool" where
  step_submit: "order_request_valid rq \<Longrightarrow> dict_get (pb_orders b) bid = None \<Longrightarrow>
    pb_step b (snd (submit_order bid now rq b))"
| step_cancel: "pb_step b (snd (cancel_order now bid b))"
| step_tick: "pb_step b (snd (process_pending_orders ids b))"
| step_price: "0 < p \<Longrightarrow> pb_step b (update_market_price symbol p b)"

inductive pb_reachable :: "paper_broker \<Rightarrow> bool" where
  reach_init: "(\<And>symbol p. dict_get prices symbol = Some p \<Longrightarrow> 0 < p) \<Longrightarrow>
    pb_reachable (paper_init prices equity commission ratio is_open now)"
| reach_clear: "pb_reachable b \<Longrightarrow> pb_reachable (paper_clear b)"
| reach_step: "pb_reachable b \<Longrightarrow> pb_step b b' \<Longrightarrow> pb_reachable b'"

lemma pb_step_inv: "pb_step b b' \<Longrightarrow> pb_inv b \<Longrightarrow> pb_inv b'"
  by (cases rule: pb_step.cases) (auto intro: inv_intros simp: order_request_valid_def)

lemma pb_reachable_inv: "pb_reachable b \<Longrightarrow> pb_inv b"
  by (induction rule: pb_reachable.induct) (auto intro: inv_intros dest: pb_step_inv)

lemma pb_steps_inv: "pb_step\<^sup>*\<^sup>* b b' \<Longrightarrow> pb_inv b \<Longrightarrow> pb_inv b'"
  by (induction rule: rtranclp_induct) (auto dest: pb_step_inv)

lemma tick_star: "pb_step\<^sup>*\<^sup>* b (snd (process_pending_orders ids b))"
  by (rule r_into_rtranclp) (rule step_tick)

subsection \<open>What no later step changes\<close>

text \<open>\<open>keeps b b'\<close>: the client identifiers known in \<open>b\<close> still denote the same orders in \<open>b'\<close>, the
  orders of \<open>b\<close> are still there and ask for the same thing, and those that were terminal are the
  same, with the same fills.\<close>

definition same_request :: "order_response \<Rightarrow> order_response \<Rightarrow> bool" where
  "same_request r r' \<longleftrightarrow>
     os_client_order_id r' = os_client_order_id r \<and> os_broker_order_id r' = os_broker_order_id r \<and>
     os_symbol r' = os_symbol r \<and> os_side r' = os_side r \<and> os_order_type r' = os_order_type r \<and>
     os_quantity r' = os_quantity r \<and> os_limit_price r' = os_limit_price r \<and>
     os_stop_price r' = os_stop_price r"

definition keeps :: "paper_broker \<Rightarrow> paper_broker \<Rightarrow> bool" where
  "keeps b b' \<longleftrightarrow>
     (\<forall>cid bid. dict_get (pb_client_id_map b) cid = Some bid \<longrightarrow>
        dict_get (pb_client_id_map b') cid = Some bid) \<and>
     pb_partial_fill_ratio b' = pb_partial_fill_ratio b \<and>
     (\<forall>bid r. dict_get (pb_orders b) bid = Some r \<longrightarrow>
        (\<exists>r'. dict_get (pb_orders b') bid = Some r' \<and> same_request r r')) \<and>
     (\<forall>bid r. dict_get (pb_orders b) bid = Some r \<longrightarrow> os_status r \<in> set terminal_statuses \<longrightarrow>
        dict_get (pb_orders b') bid = Some r \<and> dict_get (pb_fills b') bid = dict_get (pb_fills b) bid)"

lemma same_request_refl [simp]: "same_request r r"
  by (simp add: same_request_def)

lemma same_request_trans: "same_request r r' \<Longrightarrow> same_request r' r'' \<Longrightarrow> same_request r r''"
  by (simp add: same_request_def)

lemma keeps_refl [simp]: "keeps b b"
  by (simp add: keeps_def)

lemma keeps_trans: "keeps b b' \<Longrightarrow> keeps b' b'' \<Longrightarrow> keeps b b''"
  unfolding keeps_def by (fastforce intro: same_request_trans)

lemma keeps_submit:
  assumes "pb_inv b" "dict_get (pb_orders b) bid = None"
  shows "keeps b (snd (submit_order bid now rq b))"
proof (cases "dict_get (pb_client_id_map b) (rq_client_order_id rq)")
  case None
  then show ?thesis using assms by (auto simp: submit_new_state keeps_def)
next
  case (Some k)
  with submit_known_state [OF assms(1) Some] show ?thesis by simp
qed

lemma keeps_cancel: "keeps b (snd (cancel_order now bid b))"
  by (auto simp: cancel_order_def Let_def keeps_def same_request_def split: option.splits)

lemma keeps_process_order:
  assumes inv: "pb_inv b"
  shows "keeps b (snd (process_order ids bid b))"
  using inv
proof (cases rule: process_order_effect [of b ids bid, case_names raised skipped filled])
  case (filled order price qty avg fs b')
  then show ?thesis
    by (auto simp: keeps_def order_pending_def same_request_def fill_result_def filled_response_def)
qed simp_all

lemma keeps_process_orders: "pb_inv b \<Longrightarrow> keeps b (snd (process_orders ids bids b))"
proof (induction bids arbitrary: b)
  case (Cons bid bids)
  obtain res b1 where one: "process_order ids bid b = (res, b1)" by force
  have "keeps b b1" "pb_inv b1"
    using keeps_process_order [OF Cons.prems, of ids bid] pb_inv_process_order [OF Cons.prems, of ids bid]
    by (simp_all add: one)
  moreover have "keeps b1 (snd (process_orders ids bids b1))" using Cons.IH calculation(2) .
  ultimately show ?case
    by (auto simp: one split: prod.splits sum.splits intro: keeps_trans)
qed simp

lemma pb_step_keeps: "pb_step b b' \<Longrightarrow> pb_inv b \<Longrightarrow> keeps b b'"
  by (cases rule: pb_step.cases)
    (auto simp: keeps_submit keeps_cancel keeps_process_orders process_pending_orders_def
      update_market_price_def keeps_def [of b "_ \<lparr>pb_market_prices := _\<rparr>"])

lemma pb_steps_keep: "pb_step\<^sup>*\<^sup>* b b' \<Longrightarrow> pb_inv b \<Longrightarrow> keeps b b'"
proof (induction rule: rtranclp_induct)
  case (step b1 b2)
  then show ?case using pb_steps_inv pb_step_keeps keeps_trans by metis
qed simp

section \<open>Whole quantities\<close>

text \<open>With a fill ratio in the unit interval and whole quantities that \<open>Decimal\<close> holds exactly, the
  arithmetic of a fill is exact.\<close>

definition whole_order :: "order_response \<Rightarrow> bool" where
  "whole_order r \<longleftrightarrow> (\<exists>n f :: int. 0 \<le> f \<and> f \<le> n \<and> n < 10 ^ 28 \<and>
     os_quantity r = of_int n \<and> os_filled_quantity r = of_int f)"

definition whole :: "paper_broker \<Rightarrow> bool" where
  "whole b \<longleftrightarrow> 0 < pb_partial_fill_ratio b \<and> pb_partial_fill_ratio b \<le> 1 \<and>
     (\<forall>bid r. dict_get (pb_orders b) bid = Some r \<longrightarrow> whole_order r)"

lemma fill_quantity_whole:
  assumes q: "os_quantity order = of_int n" "os_filled_quantity order = of_int f"
    and bounds: "0 \<le> f" "f < n" "n < 10 ^ 28" and ratio: "0 < ratio" "ratio \<le> 1"
  shows "\<exists>k. 1 \<le> k \<and> k \<le> n - f \<and> fill_quantity ratio order = Inr (of_int k)"
proof -
  let ?r = "n - f"
  have rem: "dsub (os_quantity order) (os_filled_quantity order) = of_int ?r"
    using bounds dec_of_int [of ?r] by (simp add: dsub_def q)
  define m where "m = dmul (of_int ?r) ratio"
  have "0 < (of_int ?r :: rat)" using bounds by linarith
  then have "0 \<le> of_int ?r * ratio" "of_int ?r * ratio \<le> of_int ?r"
    using ratio by (simp_all add: mult_left_le)
  moreover have "dec_repr (of_int ?r)" using bounds by (intro dec_repr_of_int) simp
  ultimately have m: "0 \<le> m" "m \<le> of_int ?r"
    unfolding m_def dmul_def by (simp add: decimal.rnd_nonneg_iff, blast intro: decimal.rnd_le_repr)
  define k where "k = round_half_even m"
  have k: "0 \<le> k" "k \<le> ?r"
    using round_half_even_nonneg [OF m(1)] round_half_even_le_int [OF m(2)] by (simp_all add: k_def)
  have small: "\<not> 10 ^ 28 \<le> \<bar>k\<bar>" using k bounds by linarith
  have "fill_quantity ratio order = Inr (if k = 0 then of_int ?r else of_int k)"
    unfolding fill_quantity_def Let_def rem m_def [symmetric] quantize_1_def k_def [symmetric]
    using small k(1) by simp
  with k bounds show ?thesis by (cases "k = 0") (auto intro: exI [of _ ?r] exI [of _ k])
qed

lemma dadd_whole: "0 \<le> f \<Longrightarrow> 0 \<le> k \<Longrightarrow> f + k \<le> 10 ^ 28 \<Longrightarrow> dadd (of_int f) (of_int k) = of_int (f + k)"
  using dec_of_int [of "f + k"] by (simp add: dadd_def)

text \<open>A fill of a whole order is whole, makes progress and never exceeds the order.\<close>

lemma whole_fill:
  assumes "whole_order order" "order_ok b bid order" "order_pending order"
    "fill_quantity ratio order = Inr qty" "0 < ratio" "ratio \<le> 1"
  shows "whole_order (fill_result ids bid order qty avg)"
    and "os_filled_quantity order + 1 \<le> os_filled_quantity (fill_result ids bid order qty avg)"
proof -
  obtain n f where nf: "0 \<le> f" "n < 10 ^ 28" "os_quantity order = of_int n" "os_filled_quantity order = of_int f"
    using assms(1) unfolding whole_order_def by blast
  have "f < n" using order_ok_pending(2) [OF assms(2,3)] nf by simp
  then obtain k where k: "1 \<le> k" "k \<le> n - f" "qty = of_int k"
    using fill_quantity_whole [OF nf(3,4,1) _ nf(2) assms(5,6)] assms(4) by auto
  have add: "dadd (of_int f) (of_int k) = of_int (f + k)"
    using nf k by (intro dadd_whole) simp_all
  show "whole_order (fill_result ids bid order qty avg)"
    unfolding whole_order_def
    by (rule exI [of _ n], rule exI [of _ "f + k"])
      (use nf k in \<open>simp add: fill_result_def filled_response_def add del: of_int_add\<close>)
  show "os_filled_quantity order + 1 \<le> os_filled_quantity (fill_result ids bid order qty avg)"
    using k(1) by (simp add: fill_result_def filled_response_def add nf k(3))
qed

lemma whole_no_raise:
  assumes "whole_order order" "order_ok b bid order" "order_pending order" "0 < ratio" "ratio \<le> 1"
  shows "fill_quantity ratio order \<noteq> Inl e"
proof -
  obtain n f where nf: "0 \<le> f" "n < 10 ^ 28" "os_quantity order = of_int n" "os_filled_quantity order = of_int f"
    using assms(1) unfolding whole_order_def by blast
  moreover have "f < n" using order_ok_pending(2) [OF assms(2,3)] nf by simp
  ultimately show ?thesis using fill_quantity_whole assms(4,5) by (metis Inl_Inr_False)
qed

lemma process_order_whole:
  assumes inv: "pb_inv b" and wh: "whole b" and ex: "dict_get (pb_orders b) bid = Some r"
  shows "\<exists>u b'. process_order ids bid b = (Inr u, b') \<and> whole b' \<and>
    pb_market_prices b' = pb_market_prices b \<and>
    (\<forall>k. k \<noteq> bid \<longrightarrow> dict_get (pb_orders b') k = dict_get (pb_orders b) k) \<and>
    (\<exists>r'. dict_get (pb_orders b') bid = Some r' \<and> os_symbol r' = os_symbol r \<and>
       os_order_type r' = os_order_type r \<and>
       (order_pending r \<longrightarrow> (\<exists>p. dict_get (pb_market_prices b) (os_symbol r) = Some p \<and> should_fill r p) \<longrightarrow>
        os_filled_quantity r + 1 \<le> os_filled_quantity r' \<and> os_status r' \<noteq> CANCELLED) \<and>
       os_quantity r' = os_quantity r)"
  using inv
proof (cases rule: process_order_effect [of b ids bid, case_names raised skipped filled])
  case (raised e)
  have "whole_order r" "0 < pb_partial_fill_ratio b" "pb_partial_fill_ratio b \<le> 1"
    using wh ex by (auto simp: whole_def)
  with raised ex pb_inv_order [OF inv ex] whole_no_raise show ?thesis by blast
next
  case skipped
  then show ?thesis using ex wh by auto
next
  case (filled order price qty avg fs b')
  have wo: "whole_order order" "0 < pb_partial_fill_ratio b" "pb_partial_fill_ratio b \<le> 1"
    using wh filled(2) by (auto simp: whole_def)
  note wf = whole_fill [OF wo(1) pb_inv_order [OF inv filled(2)] filled(3,6) wo(2,3)]
  have "whole b'" using wh wf(1) by (simp add: whole_def filled)
  then show ?thesis
    using filled ex wf(2) by (auto simp: fill_result_def filled_response_def)
qed

text \<open>A pass over existing orders returns, keeps the prices, and touches only the listed orders.\<close>

lemma process_orders_whole:
  "pb_inv b \<Longrightarrow> whole b \<Longrightarrow> (\<forall>k\<in>set bids. dict_get (pb_orders b) k \<noteq> None) \<Longrightarrow>
     \<exists>rs b'. process_orders ids bids b = (Inr rs, b') \<and> whole b' \<and>
       pb_market_prices b' = pb_market_prices b \<and>
       (\<forall>k. k \<notin> set bids \<longrightarrow> dict_get (pb_orders b') k = dict_get (pb_orders b) k)"
proof (induction bids arbitrary: b)
  case (Cons bid bids)
  obtain r where r: "dict_get (pb_orders b) bid = Some r" using Cons.prems(3) by auto
  obtain u b1 where one: "process_order ids bid b = (Inr u, b1)" "whole b1"
      "pb_market_prices b1 = pb_market_prices b"
      "\<forall>k. k \<noteq> bid \<longrightarrow> dict_get (pb_orders b1) k = dict_get (pb_orders b) k"
      "dict_get (pb_orders b1) bid \<noteq> None"
    using process_order_whole [OF Cons.prems(1,2) r, of ids] by blast
  have "pb_inv b1" using pb_inv_process_order [OF Cons.prems(1), of ids bid] one(1) by simp
  moreover have "\<forall>k\<in>set bids. dict_get (pb_orders b1) k \<noteq> None"
    using Cons.prems(3) one(4,5) by (metis list.set_intros(2))
  ultimately obtain rs b2 where "process_orders ids bids b1 = (Inr rs, b2)" "whole b2"
      "pb_market_prices b2 = pb_market_prices b1"
      "\<forall>k. k \<notin> set bids \<longrightarrow> dict_get (pb_orders b2) k = dict_get (pb_orders b1) k"
    using Cons.IH one(2) by blast
  with one show ?case by auto
qed simp

lemma process_orders_progress:
  "pb_inv b \<Longrightarrow> whole b \<Longrightarrow> (\<forall>k\<in>set bids. dict_get (pb_orders b) k \<noteq> None) \<Longrightarrow> distinct bids \<Longrightarrow>
   bid \<in> set bids \<Longrightarrow> dict_get (pb_orders b) bid = Some r \<Longrightarrow> order_pending r \<Longrightarrow>
   dict_get (pb_market_prices b) (os_symbol r) = Some p \<Longrightarrow> should_fill r p \<Longrightarrow>
     \<exists>r'. dict_get (pb_orders (snd (process_orders ids bids b))) bid = Some r' \<and>
       os_symbol r' = os_symbol r \<and> os_order_type r' = os_order_type r \<and>
       os_quantity r' = os_quantity r \<and> os_filled_quantity r + 1 \<le> os_filled_quantity r' \<and>
       os_status r' \<noteq> CANCELLED"
proof (induction bids arbitrary: b)
  case (Cons k bids)
  obtain rk where rk: "dict_get (pb_orders b) k = Some rk" using Cons.prems(3) by auto
  obtain u b1 r1 where one: "process_order ids k b = (Inr u, b1)" "whole b1"
      "pb_market_prices b1 = pb_market_prices b"
      "\<forall>j. j \<noteq> k \<longrightarrow> dict_get (pb_orders b1) j = dict_get (pb_orders b) j"
      "dict_get (pb_orders b1) k = Some r1" "os_symbol r1 = os_symbol rk"
      "os_order_type r1 = os_order_type rk" "os_quantity r1 = os_quantity rk"
      "order_pending rk \<longrightarrow> (\<exists>p. dict_get (pb_market_prices b) (os_symbol rk) = Some p \<and> should_fill rk p) \<longrightarrow>
        os_filled_quantity rk + 1 \<le> os_filled_quantity r1 \<and> os_status r1 \<noteq> CANCELLED"
    using process_order_whole [OF Cons.prems(1,2) rk, of ids] by blast
  have inv1: "pb_inv b1" using pb_inv_process_order [OF Cons.prems(1), of ids k] one(1) by simp
  have ex1: "\<forall>j\<in>set bids. dict_get (pb_orders b1) j \<noteq> None"
    using Cons.prems(3) one(4,5) by (metis list.set_intros(2) option.distinct(1))
  have rest: "snd (process_orders ids (k # bids) b) = snd (process_orders ids bids b1)"
    by (auto simp: one(1) split: prod.splits sum.splits)
  show ?case
  proof (cases "k = bid")
    case True
    then have "bid \<notin> set bids" "rk = r" using Cons.prems(4,6) rk by auto
    then have "dict_get (pb_orders (snd (process_orders ids bids b1))) bid = Some r1"
      using process_orders_whole [OF inv1 one(2) ex1, of ids] one(5) True by auto
    then show ?thesis using rest one(6-9) \<open>rk = r\<close> Cons.prems(7-9) by auto
  next
    case False
    then show ?thesis
      unfolding rest using Cons.IH [OF inv1 one(2) ex1] Cons.prems one(3,4) by simp
  qed
qed simp

lemma pending_ids_iff:
  assumes "pb_inv b"
  shows "distinct (pending_ids b)"
    and "bid \<in> set (pending_ids b) \<longleftrightarrow> (\<exists>r. dict_get (pb_orders b) bid = Some r \<and> order_pending r)"
proof -
  have ok: "dict_ok (pb_orders b)" using assms by (rule pb_inv_dict_ok)
  then show "distinct (pending_ids b)"
    by (simp add: pending_ids_def dict_ok_def distinct_map_filter)
  show "bid \<in> set (pending_ids b) \<longleftrightarrow> (\<exists>r. dict_get (pb_orders b) bid = Some r \<and> order_pending r)"
  proof -
    have "bid \<in> set (pending_ids b) \<longleftrightarrow> (\<exists>r. (bid, r) \<in> set (pb_orders b) \<and> order_pending r)"
      by (auto simp: pending_ids_def order_pending_def image_iff)
    then show ?thesis using dict_mem_get [OF ok] dict_get_Some_mem by metis
  qed
qed

lemma tick_whole:
  assumes "pb_inv b" "whole b"
  obtains rs b' where "process_pending_orders ids b = (Inr rs, b')" "pb_inv b'" "whole b'"
    "pb_market_prices b' = pb_market_prices b"
proof -
  have "\<forall>k\<in>set (pending_ids b). dict_get (pb_orders b) k \<noteq> None"
    using pending_ids_iff(2) [OF assms(1)] by auto
  then obtain rs b' where "process_pending_orders ids b = (Inr rs, b')" "whole b'"
      "pb_market_prices b' = pb_market_prices b"
    using process_orders_whole [OF assms, of "pending_ids b" ids] unfolding process_pending_orders_def by blast
  with pb_inv_tick [OF assms(1), of ids] that show ?thesis by simp
qed

lemma tick_progress:
  assumes "pb_inv b" "whole b" "dict_get (pb_orders b) bid = Some r" "order_pending r"
    "dict_get (pb_market_prices b) (os_symbol r) = Some p" "should_fill r p"
  shows "\<exists>r'. dict_get (pb_orders (snd (process_pending_orders ids b))) bid = Some r' \<and>
    os_symbol r' = os_symbol r \<and> os_order_type r' = os_order_type r \<and>
    os_quantity r' = os_quantity r \<and> os_filled_quantity r + 1 \<le> os_filled_quantity r' \<and>
    os_status r' \<noteq> CANCELLED"
  unfolding process_pending_orders_def
  by (rule process_orders_progress)
    (use assms pending_ids_iff [OF assms(1)] in auto)

subsection \<open>Repeated ticks\<close>

definition ticks :: "tick_ids list \<Rightarrow> paper_broker \<Rightarrow> paper_broker" where
  "ticks idss b = fold (\<lambda>ids b. snd (process_pending_orders ids b)) idss b"

lemma ticks_keep: "pb_inv b \<Longrightarrow> keeps b (ticks idss b)"
proof (induction idss arbitrary: b)
  case (Cons ids idss)
  have "keeps b (snd (process_pending_orders ids b))"
    by (rule pb_step_keeps) (rule step_tick, rule Cons.prems)
  moreover have "pb_inv (snd (process_pending_orders ids b))" using Cons.prems by (rule pb_inv_tick)
  ultimately show ?case using Cons.IH keeps_trans by (auto simp: ticks_def)
qed (simp add: ticks_def)

lemma market_order_fills:
  "pb_inv b \<Longrightarrow> whole b \<Longrightarrow> dict_get (pb_orders b) bid = Some r \<Longrightarrow> order_pending r \<Longrightarrow>
   os_order_type r = MARKET \<Longrightarrow> dict_get (pb_market_prices b) (os_symbol r) = Some p \<Longrightarrow>
   os_quantity r - os_filled_quantity r \<le> of_nat (length idss) \<Longrightarrow>
     \<exists>r'. dict_get (pb_orders (ticks idss b)) bid = Some r' \<and> os_status r' = FILLED \<and>
       os_filled_quantity r' = os_quantity r"
proof (induction idss arbitrary: b r)
  case Nil
  then show ?case using order_ok_pending(2) [OF pb_inv_order [OF Nil.prems(1,3)] Nil.prems(4)] by simp
next
  case (Cons ids idss)
  let ?b = "snd (process_pending_orders ids b)"
  have tk: "pb_inv ?b" "whole ?b" "pb_market_prices ?b = pb_market_prices b"
    by (rule tick_whole [OF Cons.prems(1,2), of ids]; simp)+
  have "should_fill r p" using Cons.prems(5) by (simp add: should_fill_def)
  then obtain r1 where r1: "dict_get (pb_orders ?b) bid = Some r1" "os_symbol r1 = os_symbol r"
      "os_order_type r1 = os_order_type r" "os_quantity r1 = os_quantity r"
      "os_filled_quantity r + 1 \<le> os_filled_quantity r1" "os_status r1 \<noteq> CANCELLED"
    using tick_progress [OF Cons.prems(1-4,6)] by blast
  have ok: "order_ok ?b bid r1" using tk(1) r1(1) by (rule pb_inv_order)
  have wo: "whole_order r1" using tk(2) r1(1) by (simp add: whole_def)
  show ?case
  proof (cases "order_pending r1")
    case True
    have "os_quantity r1 - os_filled_quantity r1 \<le> of_nat (length idss)"
      using Cons.prems(7) r1(4,5) by simp
    from Cons.IH [OF tk(1,2) r1(1) True _ _ this] Cons.prems(5,6) r1 tk(3) show ?thesis
      by (simp add: ticks_def)
  next
    case False
    with ok r1(6) have st: "os_status r1 = FILLED" "os_quantity r1 \<le> os_filled_quantity r1"
      by (auto simp: order_ok_def order_pending_def)
    moreover have "os_filled_quantity r1 \<le> os_quantity r1" using wo by (auto simp: whole_order_def)
    moreover have "dict_get (pb_orders (ticks idss ?b)) bid = Some r1"
      using ticks_keep [OF tk(1), of idss] r1(1) st(1) by (simp add: keeps_def)
    ultimately show ?thesis using r1(4) by (simp add: ticks_def)
  qed
qed

subsection \<open>Whole quantities over a history\<close>

definition whole_quantities :: "paper_broker \<Rightarrow> bool" where
  "whole_quantities b \<longleftrightarrow> 0 < pb_partial_fill_ratio b \<and> pb_partial_fill_ratio b \<le> 1 \<and>
     (\<forall>bid r. dict_get (pb_orders b) bid = Some r \<longrightarrow> (\<exists>n. os_quantity r = of_int n \<and> n < 10 ^ 28))"

lemma whole_quantities_back: "keeps b b' \<Longrightarrow> whole_quantities b' \<Longrightarrow> whole_quantities b"
  unfolding keeps_def whole_quantities_def same_request_def by metis

lemma whole_submit:
  assumes inv: "pb_inv b" and wh: "whole b" and q: "order_request_valid rq"
    and wq: "whole_quantities (snd (submit_order bid now rq b))"
  shows "whole (snd (submit_order bid now rq b))"
proof (cases "dict_get (pb_client_id_map b) (rq_client_order_id rq)")
  case (Some k)
  with submit_known_state [OF inv Some] wh show ?thesis by simp
next
  case None
  have "\<exists>n. os_quantity (new_response bid now rq) = of_int n \<and> n < 10 ^ 28"
    using wq unfolding whole_quantities_def submit_new_state [OF None] by (auto dest: spec [of _ bid])
  then obtain n where "rq_quantity rq = of_int n" "n < 10 ^ 28"
    by (auto simp: new_response_def)
  moreover have "0 < rq_quantity rq" using q by (simp add: order_request_valid_def)
  ultimately have "whole_order (new_response bid now rq)"
    by (auto simp: whole_order_def new_response_def intro!: exI [of _ n] exI [of _ "0::int"])
  then show ?thesis using wh by (auto simp: whole_def submit_new_state [OF None])
qed

lemma whole_cancel: "whole b \<Longrightarrow> whole (snd (cancel_order now bid b))"
  by (auto simp: cancel_order_def Let_def whole_def whole_order_def split: option.splits)

lemma whole_step: "pb_step b b' \<Longrightarrow> pb_inv b \<Longrightarrow> whole b \<Longrightarrow> whole_quantities b' \<Longrightarrow> whole b'"
proof (induction rule: pb_step.induct)
  case (step_tick b ids)
  show ?case by (rule tick_whole [OF step_tick(1,2), of ids]) simp
qed (simp_all add: whole_submit whole_cancel, simp add: whole_def update_market_price_def)

lemma whole_reachable: "pb_reachable b \<Longrightarrow> whole_quantities b \<Longrightarrow> whole b"
proof (induction rule: pb_reachable.induct)
  case (reach_step b b')
  have "pb_inv b" using reach_step(1) by (rule pb_reachable_inv)
  with reach_step show ?case using pb_step_keeps whole_quantities_back whole_step by blast
qed (simp_all add: whole_def whole_quantities_def paper_init_def paper_clear_def)

section \<open>Properties\<close>

text \<open>A broker with one open market order, for the witnesses.\<close>

definition demo_request :: "decimal \<Rightarrow> order_request" where
  "demo_request q =
     \<lparr>rq_client_order_id = ''C1'', rq_symbol = ''EURUSD'', rq_side = BUY, rq_order_type = MARKET,
      rq_quantity = q, rq_limit_price = None, rq_stop_price = None, rq_time_in_force = DAY,
      rq_deployment_id = ''D'', rq_strategy_id = ''S'', rq_correlation_id = ''X'',
      rq_execution_mode = PAPER, rq_metadata = []\<rparr>"

definition demo_start :: paper_broker where
  "demo_start = paper_init [(''EURUSD'', 100)] 10000 0 1 True 0"

definition demo_broker :: "decimal \<Rightarrow> paper_broker" where
  "demo_broker q = snd (submit_order ''B1'' 5 (demo_request q) demo_start)"

definition demo_ids :: tick_ids where
  "demo_ids bid = (''F1'', ''E1'', 6)"

lemma demo_valid: "0 < q \<Longrightarrow> order_request_valid (demo_request q)"
  by (simp add: order_request_valid_def demo_request_def)

lemma demo_start_reachable: "pb_reachable demo_start"
  unfolding demo_start_def by (rule reach_init) (simp split: if_splits)

lemma demo_reachable: "0 < q \<Longrightarrow> pb_reachable (demo_broker q)"
  unfolding demo_broker_def
  by (rule reach_step [OF demo_start_reachable], rule step_submit [OF demo_valid])
    (simp_all add: demo_start_def paper_init_def)

lemma demo_broker_eq:
  "demo_broker q = demo_start
     \<lparr>pb_orders := [(''B1'', new_response ''B1'' 5 (demo_request q))],
      pb_pending_requests := [(''B1'', demo_request q)],
      pb_client_id_map := [(''C1'', ''B1'')], pb_fills := [(''B1'', [])]\<rparr>"
  by (simp add: demo_broker_def submit_order_def demo_start_def paper_init_def demo_request_def Let_def)



text \<open>
  C15. An order that has been filled, cancelled, rejected or has expired never changes again, and
  neither do its fills, whatever submissions, cancellations, ticks and price updates follow.
\<close>

theorem terminal_orders_final:
  assumes "pb_reachable b" "pb_step\<^sup>*\<^sup>* b b'" "get_order b bid = Inr r" "os_status r \<in> set terminal_statuses"
  shows "get_order b' bid = Inr r \<and> get_fills b' bid = get_fills b bid"
proof -
  have r: "dict_get (pb_orders b) bid = Some r"
    using assms(3) by (simp add: get_order_def split: option.splits)
  have "keeps b b'" using pb_steps_keep [OF assms(2) pb_reachable_inv [OF assms(1)]] .
  with r assms(4) have "dict_get (pb_orders b') bid = Some r" "dict_get (pb_fills b') bid = dict_get (pb_fills b) bid"
    by (auto simp: keeps_def)
  with r show ?thesis by (simp add: get_order_def get_fills_def)
qed

definition demo_cancelled :: paper_broker where
  "demo_cancelled = snd (cancel_order 9 ''B1'' (demo_broker 7))"

lemma demo_cancelled_reachable: "pb_reachable demo_cancelled"
  unfolding demo_cancelled_def by (rule reach_step [OF demo_reachable [of 7] step_cancel]) simp

lemma demo_cancel_eq: "cancel_order 9 ''B1'' (demo_broker 7) =
  (Inr ((new_response ''B1'' 5 (demo_request 7))\<lparr>os_status := CANCELLED, os_cancelled_at := Some 9\<rparr>),
   demo_cancelled)"
  by (simp add: demo_cancelled_def demo_broker_eq cancel_order_def new_response_def Let_def)

theorem terminal_orders_final_witness:
  "get_order (snd (process_pending_orders demo_ids demo_cancelled)) ''B1'' =
     Inr ((new_response ''B1'' 5 (demo_request 7))\<lparr>os_status := CANCELLED, os_cancelled_at := Some 9\<rparr>)"
proof -
  let ?r = "(new_response ''B1'' 5 (demo_request 7))\<lparr>os_status := CANCELLED, os_cancelled_at := Some 9\<rparr>"
  have "get_order demo_cancelled ''B1'' = Inr ?r"
    using paper.cancel_then_get [OF pb_reachable_inv [OF demo_reachable [of 7]] demo_cancel_eq] by simp
  from terminal_orders_final [OF demo_cancelled_reachable tick_star this] show ?thesis by simp
qed

text \<open>
  C16. A submission is accepted once: after an order has been accepted, a retry with the same
  \<open>client_order_id\<close> returns that order as it is then and changes nothing, however many operations
  lie in between.
\<close>

theorem retry_never_duplicates:
  assumes "pb_reachable b" "order_request_valid rq" "dict_get (pb_client_id_map b) (rq_client_order_id rq) = None"
    "dict_get (pb_orders b) nid = None" "submit_order nid now rq b = (Inr r, b1)" "pb_step\<^sup>*\<^sup>* b1 b2"
  shows "submit_order nid' now' rq b2 = (get_order b2 nid, b2)"
proof -
  have inv: "pb_inv b1"
    using paper.submit_invar [OF pb_reachable_inv [OF assms(1)] assms(4,2), of now] assms(5) by simp
  have "dict_get (pb_client_id_map b1) (rq_client_order_id rq) = Some nid"
    using submit_new_state [OF assms(3), of nid now] assms(5) by auto
  with pb_steps_keep [OF assms(6) inv] have "dict_get (pb_client_id_map b2) (rq_client_order_id rq) = Some nid"
    by (simp add: keeps_def)
  with paper.submit_known [OF pb_steps_inv [OF assms(6) inv]] show ?thesis by simp
qed

theorem retry_never_duplicates_witness:
  "submit_order ''B9'' 8 (demo_request 7) (snd (process_pending_orders demo_ids (demo_broker 7))) =
     (get_order (snd (process_pending_orders demo_ids (demo_broker 7))) ''B1'',
      snd (process_pending_orders demo_ids (demo_broker 7)))"
proof -
  have "submit_order ''B1'' 5 (demo_request 7) demo_start = (Inr (new_response ''B1'' 5 (demo_request 7)), demo_broker 7)"
    by (simp add: demo_broker_def submit_order_def demo_start_def paper_init_def Let_def)
  from retry_never_duplicates [OF demo_start_reachable demo_valid [of 7] _ _ this tick_star]
  show ?thesis by (simp add: demo_start_def paper_init_def)
qed

text \<open>
  After a successful cancellation the order is terminal, and for ever after a query, a second
  cancellation and a retried submission all return it as the cancellation left it, and change
  nothing.
\<close>

theorem cancelled_order_stays:
  assumes "pb_reachable b" "dict_get (pb_client_id_map b) (rq_client_order_id rq) = Some bid"
    "cancel_order now bid b = (Inr r, b1)" "pb_step\<^sup>*\<^sup>* b1 b2"
  shows "os_status r \<in> set terminal_statuses \<and> get_order b2 bid = Inr r \<and>
    cancel_order now' bid b2 = (Inr r, b2) \<and> submit_order nid now'' rq b2 = (Inr r, b2)"
proof -
  note inv = pb_reachable_inv [OF assms(1)]
  have inv1: "pb_inv b1" using paper.cancel_invar [OF inv, of now bid] assms(3) by simp
  note ctg = paper.cancel_then_get [OF inv assms(3)]
  have cid: "dict_get (pb_client_id_map b1) (rq_client_order_id rq) = Some bid"
    using assms(2,3) by (auto simp: cancel_order_def Let_def split: option.splits if_splits)
  note k = pb_steps_keep [OF assms(4) inv1]
  have r2: "dict_get (pb_orders b2) bid = Some r"
    using ctg k by (auto simp: get_order_def keeps_def split: option.splits)
  have cid2: "dict_get (pb_client_id_map b2) (rq_client_order_id rq) = Some bid"
    using cid k by (simp add: keeps_def)
  have "get_order b2 bid = Inr r" using r2 by (simp add: get_order_def)
  moreover have "cancel_order now' bid b2 = (Inr r, b2)" using r2 ctg paper.cancel_terminal by blast
  moreover have "submit_order nid now'' rq b2 = (get_order b2 bid, b2)"
    using pb_steps_inv [OF assms(4) inv1] cid2 by (rule paper.submit_known)
  ultimately show ?thesis using ctg by simp
qed

theorem cancelled_order_stays_witness:
  "cancel_order 11 ''B1'' (snd (process_pending_orders demo_ids demo_cancelled)) =
     (Inr ((new_response ''B1'' 5 (demo_request 7))\<lparr>os_status := CANCELLED, os_cancelled_at := Some 9\<rparr>),
      snd (process_pending_orders demo_ids demo_cancelled))"
  using cancelled_order_stays [OF demo_reachable [of 7] _ demo_cancel_eq tick_star, of "demo_request 7"]
  by (simp add: demo_broker_eq demo_request_def)

text \<open>
  C14. With a fill ratio in the unit interval and whole order quantities below \<open>10\<^sup>28\<close>, no order is
  ever filled beyond its quantity, a filled order is filled exactly, and filled quantities stay
  whole.
\<close>

theorem no_overfill:
  assumes "pb_reachable b" "whole_quantities b" "get_order b bid = Inr r"
  shows "os_filled_quantity r \<le> os_quantity r \<and> os_filled_quantity r \<in> \<int> \<and>
    (os_status r = FILLED \<longrightarrow> os_filled_quantity r = os_quantity r)"
proof -
  have r: "dict_get (pb_orders b) bid = Some r"
    using assms(3) by (simp add: get_order_def split: option.splits)
  have "whole_order r" using whole_reachable [OF assms(1,2)] r by (simp add: whole_def)
  moreover have "order_ok b bid r" using pb_reachable_inv [OF assms(1)] r by (rule pb_inv_order)
  ultimately show ?thesis by (auto simp: whole_order_def order_ok_def)
qed

lemma demo_whole: "whole_quantities (demo_broker 7)"
proof -
  have "\<exists>n. (7::rat) = of_int n \<and> n < 10 ^ 28" by (intro exI [of _ 7]) simp
  then show ?thesis
    by (simp add: whole_quantities_def demo_broker_eq demo_start_def paper_init_def new_response_def
        demo_request_def)
qed

theorem no_overfill_witness:
  "get_order (demo_broker 7) ''B1'' = Inr (new_response ''B1'' 5 (demo_request 7)) \<and>
   os_filled_quantity (new_response ''B1'' 5 (demo_request 7)) \<le> os_quantity (new_response ''B1'' 5 (demo_request 7))"
proof -
  have g: "get_order (demo_broker 7) ''B1'' = Inr (new_response ''B1'' 5 (demo_request 7))"
    by (simp add: get_order_def demo_broker_eq)
  show ?thesis using g no_overfill [OF demo_reachable [of 7] demo_whole g] by simp
qed



lemma fill_quantity_fraction:
  assumes "os_filled_quantity r = 0" "3 / 5 \<le> os_quantity r" "os_quantity r < 1"
  shows "fill_quantity 1 r = Inr 1"
proof -
  define q where "q = dmul (dsub (os_quantity r) (os_filled_quantity r)) 1"
  have q: "q = dec (os_quantity r)" by (simp add: q_def dmul_def dsub_def assms(1) decimal.rnd_idem)
  have "dec_repr (3/5)" unfolding representable_def
    by (intro exI [of _ 6] exI [of _ "-1"]) (simp add: power_int_minus)
  then have "3 / 5 \<le> q" unfolding q using assms(2) by (intro decimal.rnd_ge_repr)
  moreover have "q \<le> 1" unfolding q using assms(3) dec_repr_of_int [of 1] by (intro decimal.rnd_le_repr) simp_all
  ultimately have "round_half_even q = 1"
    using round_half_even_of_int [of 1] floor_unique [of 0 q] by (cases "q = 1") (auto simp: round_half_even_def Let_def)
  then show ?thesis
    by (simp add: fill_quantity_def Let_def quantize_1_def flip: q_def)
qed

lemma no_fills_yet:
  assumes "order_ok b bid r" "os_filled_quantity r = 0" "dict_get (pb_fills b) bid = Some fs"
  shows "fs = []"
proof -
  have "dsum (map fe_quantity fs) = 0" "\<forall>e\<in>set fs. 0 < fe_quantity e"
    using assms by (auto simp: order_ok_def fill_justified_def)
  then show ?thesis using dsum_zero_iff [of "map fe_quantity fs"] by simp
qed

text \<open>
  A quantity below one is rounded up: with the default fill ratio of one, an unfilled market order
  for at least 0.6 and less than one unit is filled with a whole unit, more than was ordered, and
  the account is charged for it.
\<close>

theorem fraction_overfilled:
  assumes "pb_reachable b" "pb_partial_fill_ratio b = 1" "get_order b bid = Inr r"
    "os_status r = SUBMITTED" "os_order_type r = MARKET"
    "dict_get (pb_market_prices b) (os_symbol r) = Some p"
    "3 / 5 \<le> os_quantity r" "os_quantity r < 1"
  shows "\<exists>r' b'. process_order ids bid b = (Inr (Some r'), b') \<and>
    os_status r' = FILLED \<and> os_filled_quantity r' = 1 \<and> os_quantity r' = os_quantity r \<and>
    (\<exists>e. get_fills b' bid = Inr [e] \<and> fe_quantity e = 1)"
proof -
  note inv = pb_reachable_inv [OF assms(1)]
  have r: "dict_get (pb_orders b) bid = Some r"
    using assms(3) by (simp add: get_order_def split: option.splits)
  have ok: "order_ok b bid r" using inv r by (rule pb_inv_order)
  have pend: "order_pending r" using assms(4) by (simp add: order_pending_def)
  have f0: "os_filled_quantity r = 0" using ok assms(4) by (simp add: order_ok_def)
  have fq: "fill_quantity 1 r = Inr 1" using f0 assms(7,8) by (rule fill_quantity_fraction)
  have one: "dadd 0 1 = 1" using dec_of_int [of 1] by (simp add: dadd_def)
  have nofs: "fs = []" if "dict_get (pb_fills b) bid = Some fs" for fs
    using ok f0 that by (rule no_fills_yet)
  show ?thesis
    using inv
  proof (cases rule: process_order_effect [of b ids bid, case_names raised skipped filled])
    case (raised e)
    with r fq assms(2) show ?thesis by auto
  next
    case skipped
    then show ?thesis using skipped(2) [OF r pend assms(6)] assms(5) by (simp add: should_fill_def)
  next
    case (filled order price qty avg fs b')
    have "order = r" "qty = 1" using filled(2,6) r fq assms(2) by auto
    moreover have "fs = []" using filled(8) by (rule nofs)
    ultimately show ?thesis using filled assms(8) f0 one
      by (simp add: fill_result_def filled_response_def get_fills_def fill_event_def split: prod.splits)
  qed
qed


theorem fraction_overfilled_witness:
  "\<exists>r' b'. process_order demo_ids ''B1'' (demo_broker (3 / 5)) = (Inr (Some r'), b') \<and>
     os_status r' = FILLED \<and> os_filled_quantity r' = 1 \<and> os_quantity r' = 3 / 5 \<and>
     (\<exists>e. get_fills b' ''B1'' = Inr [e] \<and> fe_quantity e = 1)"
proof -
  have "get_order (demo_broker (3/5)) ''B1'' = Inr (new_response ''B1'' 5 (demo_request (3/5)))"
    by (simp add: get_order_def demo_broker_eq)
  from fraction_overfilled [OF demo_reachable [of "3/5"] _ this, of 100 demo_ids] show ?thesis
    by (simp add: demo_broker_eq demo_start_def paper_init_def new_response_def demo_request_def)
qed


text \<open>A fill that takes a position through zero, or starts from a flat one, keeps the old entry
  price.\<close>

definition signed_quantity :: "order_side \<Rightarrow> decimal \<Rightarrow> decimal" where
  "signed_quantity side q = (if side = BUY then q else - q)"

lemma update_position_crossing:
  assumes pos: "dict_get ps symbol = Some pos" and q: "0 < q" "dec_repr q"
    and cross: "signed_quantity side q * po_quantity pos \<le> 0" "\<bar>po_quantity pos\<bar> < q"
  shows "\<exists>ps' pos'. update_position symbol side q price ps = Inr ps' \<and> dict_get ps' symbol = Some pos' \<and>
    po_quantity pos' = dec (po_quantity pos + signed_quantity side q) \<and>
    po_avg_entry_price pos' = po_avg_entry_price pos"
proof -
  have sg: "(if side = BUY then q else dneg q) = signed_quantity side q"
    using q by (simp add: signed_quantity_def dneg_eq decimal.rnd_exact)
  have nz: "dadd (po_quantity pos) (signed_quantity side q) \<noteq> 0"
    using cross(2) by (auto simp: dadd_def decimal.rnd_zero_iff signed_quantity_def split: if_splits)
  have op: "\<not> (0 < po_quantity pos \<and> 0 < signed_quantity side q \<or> po_quantity pos < 0 \<and> signed_quantity side q < 0)"
    using cross(1) mult_pos_pos [of "signed_quantity side q" "po_quantity pos"]
      mult_neg_neg [of "signed_quantity side q" "po_quantity pos"] by linarith
  show ?thesis
    unfolding update_position_def Let_def sg pos option.case if_not_P [OF nz] if_not_P [OF op]
    by (simp add: dadd_def)
qed

lemma update_position_close:
  assumes "dict_get ps symbol = Some pos" "po_quantity pos \<noteq> 0" "dec_repr (po_quantity pos)"
  shows "\<exists>ps' pos'. update_position symbol (if 0 < po_quantity pos then SELL else BUY) \<bar>po_quantity pos\<bar> price ps =
    Inr ps' \<and> dict_get ps' symbol = Some pos' \<and> po_quantity pos' = 0 \<and> po_avg_entry_price pos' = 0"
proof -
  have "dadd (po_quantity pos) (- po_quantity pos) = 0" by (simp add: dadd_def)
  moreover have "dneg (po_quantity pos) = - po_quantity pos"
    using assms(3) by (simp add: dneg_eq decimal.rnd_exact)
  ultimately show ?thesis using assms by (auto simp: update_position_def Let_def abs_if)
qed

text \<open>
  Once a position has been closed, the entry price of the next one is lost: the entry stays in
  the table with quantity and price zero, and the next fill in that symbol, on either side and at
  any price, opens a position whose average entry price is zero instead of the price paid.
\<close>

theorem reopened_position_has_no_cost:
  assumes "dict_get ps symbol = Some pos" "po_quantity pos \<noteq> 0" "dec_repr (po_quantity pos)"
    "0 < q" "dec_repr q"
  shows "\<exists>ps1 ps2 pos2.
    update_position symbol (if 0 < po_quantity pos then SELL else BUY) \<bar>po_quantity pos\<bar> exit_price ps = Inr ps1 \<and>
    update_position symbol side q price ps1 = Inr ps2 \<and>
    dict_get ps2 symbol = Some pos2 \<and> po_quantity pos2 = signed_quantity side q \<and> po_avg_entry_price pos2 = 0"
proof -
  obtain ps1 pos1 where one: "update_position symbol (if 0 < po_quantity pos then SELL else BUY) \<bar>po_quantity pos\<bar> exit_price ps = Inr ps1"
      "dict_get ps1 symbol = Some pos1" "po_quantity pos1 = 0" "po_avg_entry_price pos1 = 0"
    using update_position_close [OF assms(1-3)] by blast
  have "dec (signed_quantity side q) = signed_quantity side q"
    using assms(5) by (simp add: signed_quantity_def decimal.rnd_minus decimal.rnd_exact)
  with one update_position_crossing [OF one(2) assms(4,5), of side price] assms(4) show ?thesis by auto
qed

definition demo_positions :: "(string, position_state) dict" where
  "demo_positions = [(''EURUSD'', \<lparr>po_quantity = 10, po_avg_entry_price = 100, po_realized_pnl = 0\<rparr>)]"

lemma dec_repr_small: "dec_repr 10" "dec_repr 15"
  using dec_repr_of_int [of 10] dec_repr_of_int [of 15] by simp_all

theorem reopened_position_has_no_cost_witness:
  "\<exists>ps1 ps2 pos2. update_position ''EURUSD'' SELL 10 110 demo_positions = Inr ps1 \<and>
     update_position ''EURUSD'' BUY 10 120 ps1 = Inr ps2 \<and>
     dict_get ps2 ''EURUSD'' = Some pos2 \<and> po_quantity pos2 = 10 \<and> po_avg_entry_price pos2 = 0"
  using reopened_position_has_no_cost [of demo_positions "''EURUSD''"
      "\<lparr>po_quantity = 10, po_avg_entry_price = 100, po_realized_pnl = 0\<rparr>" 10 110 BUY 120]
  by (simp add: demo_positions_def signed_quantity_def dec_repr_small)

text \<open>
  A fill that reverses a position keeps the entry price of the position it closed: the new
  position, on the other side, is valued from a price at which it was never entered.
\<close>

theorem reversed_position_keeps_old_price:
  assumes "dict_get ps symbol = Some pos" "0 < q" "dec_repr q"
    "signed_quantity side q * po_quantity pos < 0" "\<bar>po_quantity pos\<bar> < q"
  shows "\<exists>ps' pos'. update_position symbol side q price ps = Inr ps' \<and> dict_get ps' symbol = Some pos' \<and>
    po_quantity pos' * po_quantity pos < 0 \<and> po_avg_entry_price pos' = po_avg_entry_price pos"
proof -
  obtain ps' pos' where u: "update_position symbol side q price ps = Inr ps'" "dict_get ps' symbol = Some pos'"
      "po_quantity pos' = dec (po_quantity pos + signed_quantity side q)"
      "po_avg_entry_price pos' = po_avg_entry_price pos"
    using update_position_crossing [OF assms(1-3) order.strict_implies_order [OF assms(4)] assms(5)] by blast
  have "po_quantity pos' * po_quantity pos < 0"
  proof (cases "0 < po_quantity pos")
    case True
    then have "po_quantity pos + signed_quantity side q < 0"
      using assms(2,4,5) by (auto simp: signed_quantity_def mult_less_0_iff split: if_splits)
    with True show ?thesis unfolding u(3) by (simp add: decimal.rnd_neg mult_neg_pos)
  next
    case False
    then have "po_quantity pos < 0" "0 < po_quantity pos + signed_quantity side q"
      using assms(2,4,5) by (auto simp: signed_quantity_def mult_less_0_iff split: if_splits)
    then show ?thesis unfolding u(3) by (simp add: decimal.rnd_pos mult_pos_neg)
  qed
  with u show ?thesis by blast
qed

theorem reversed_position_keeps_old_price_witness:
  "\<exists>ps' pos'. update_position ''EURUSD'' SELL 15 120 demo_positions = Inr ps' \<and>
     dict_get ps' ''EURUSD'' = Some pos' \<and> po_quantity pos' * 10 < 0 \<and> po_avg_entry_price pos' = 100"
  using reversed_position_keeps_old_price [of demo_positions "''EURUSD''"
      "\<lparr>po_quantity = 10, po_avg_entry_price = 100, po_realized_pnl = 0\<rparr>" 15 SELL 120]
  by (simp add: demo_positions_def signed_quantity_def dec_repr_small)

text \<open>
  A tick that finds a market price that is not positive raises, and leaves the order marked
  as filled although no fill event, no position change and no cash movement was booked: the order
  table is updated before the fill event is validated.
\<close>

theorem failed_fill_leaves_order_filled:
  assumes "dict_get (pb_orders b) bid = Some r" "dict_get (pb_pending_requests b) bid \<noteq> None"
    "dict_get (pb_market_prices b) (os_symbol r) = Some p" "p \<le> 0" "should_fill r p"
    "os_average_fill_price r = None" "fill_quantity (pb_partial_fill_ratio b) r = Inr q"
    "os_quantity r \<le> dadd (os_filled_quantity r) q"
  shows "\<exists>b' r'. process_order ids bid b = (Inl (PyError ''pydantic.ValidationError''), b') \<and>
    get_order b' bid = Inr r' \<and> os_status r' = FILLED \<and>
    pb_fills b' = pb_fills b \<and> pb_positions b' = pb_positions b \<and> pb_cash b' = pb_cash b"
  using assms
  by (auto simp: process_order_def Let_def average_price_def book_fill_def determine_fill_price_def
      filled_response_def get_order_def)

theorem failed_fill_leaves_order_filled_witness:
  "\<exists>b' r'. process_order demo_ids ''B1'' (update_market_price ''EURUSD'' 0 (demo_broker 7)) =
       (Inl (PyError ''pydantic.ValidationError''), b') \<and>
     get_order b' ''B1'' = Inr r' \<and> os_status r' = FILLED \<and> pb_cash b' = 10000"
proof -
  let ?b = "update_market_price ''EURUSD'' 0 (demo_broker 7)" and ?r = "new_response ''B1'' 5 (demo_request 7)"
  have d7: "dec 7 = 7" using dec_of_int [of 7] by simp
  have "fill_quantity (pb_partial_fill_ratio ?b) ?r = Inr 7"
    using round_half_even_of_int [of 7]
    by (simp add: fill_quantity_def update_market_price_def demo_broker_eq demo_start_def paper_init_def
        new_response_def demo_request_def dsub_def dmul_def d7 quantize_1_def)
  from failed_fill_leaves_order_filled [OF _ _ _ _ _ _ this, of "''B1''" 0 demo_ids] show ?thesis
    by (simp add: update_market_price_def demo_broker_eq demo_start_def paper_init_def new_response_def
        demo_request_def dadd_def d7 should_fill_def) blast
qed

end
