(* ===== verification/Deployment_Repository.thy ===== *)
theory Deployment_Repository
  imports Contracts
begin

text \<open>
  Deployment records and their persistence: the data of \<open>libs/contracts/deployment.py\<close>, the
  interface \<open>libs/contracts/interfaces/deployment_repository_interface.py\<close> as a record of operations
  that the services receive (they are given a repository object), its documented contract as a
  locale, and the in-memory implementation \<open>libs/contracts/mocks/mock_deployment_repository.py\<close>,
  which provides it. Generated identifiers and clock readings are arguments.
\<close>

section \<open>Data\<close>

datatype deployment_state =
    created | pending_approval | approved | activating | active | frozen
  | deactivating | deactivated | rolled_back | failed

fun state_value :: "deployment_state \<Rightarrow> string" where
  "state_value created = ''created''"
| "state_value pending_approval = ''pending_approval''"
| "state_value approved = ''approved''"
| "state_value activating = ''activating''"
| "state_value active = ''active''"
| "state_value frozen = ''frozen''"
| "state_value deactivating = ''deactivating''"
| "state_value deactivated = ''deactivated''"
| "state_value rolled_back = ''rolled_back''"
| "state_value failed = ''failed''"

definition all_states :: "deployment_state list" where
  "all_states = [created, pending_approval, approved, activating, active, frozen, deactivating,
     deactivated, rolled_back, failed]"

text \<open>\<open>DeploymentState(text)\<close>: \<open>None\<close> stands for the \<open>ValueError\<close> of an unknown value.\<close>

definition parse_state :: "string \<Rightarrow> deployment_state option" where
  "parse_state text = find (\<lambda>s. state_value s = text) all_states"

fun deployment_transitions :: "deployment_state \<Rightarrow> deployment_state list" where
  "deployment_transitions created = [pending_approval, failed]"
| "deployment_transitions pending_approval = [approved, failed]"
| "deployment_transitions approved = [activating, failed]"
| "deployment_transitions activating = [active, failed]"
| "deployment_transitions active = [frozen, deactivating, rolled_back, failed]"
| "deployment_transitions frozen = [active, deactivating, rolled_back, failed]"
| "deployment_transitions deactivating = [deactivated, failed]"
| "deployment_transitions deactivated = []"
| "deployment_transitions rolled_back = []"
| "deployment_transitions failed = []"

definition is_valid_transition :: "deployment_state \<Rightarrow> deployment_state \<Rightarrow> bool" where
  "is_valid_transition from_state to_state \<longleftrightarrow> to_state \<in> set (deployment_transitions from_state)"

lemma parse_state_value [simp]: "parse_state (state_value s) = Some s"
  by (cases s) (simp_all add: parse_state_def all_states_def)

text \<open>A stored risk limits document: a JSON object with at most these keys. A textual limit is the
  text of a \<open>Decimal\<close> or any other text.\<close>

datatype dec_text = DecText decimal | OtherText string

record limits_doc =
  ld_max_position_size :: "dec_text option"
  ld_max_daily_loss :: "dec_text option"
  ld_max_order_value :: "dec_text option"
  ld_max_concentration_pct :: "dec_text option"
  ld_max_open_orders :: "int option"
  ld_max_order_rate_per_minute :: "int option"
  ld_max_notional_per_order :: "dec_text option"

definition empty_doc :: limits_doc where
  "empty_doc =
     \<lparr>ld_max_position_size = None, ld_max_daily_loss = None, ld_max_order_value = None,
      ld_max_concentration_pct = None, ld_max_open_orders = None,
      ld_max_order_rate_per_minute = None, ld_max_notional_per_order = None\<rparr>"

text \<open>The schema \<open>RiskLimits\<close> of a creation request, its defaults and \<open>model_dump()\<close>.\<close>

record risk_limits =
  rl_max_position_size :: dec_text
  rl_max_daily_loss :: dec_text
  rl_max_order_rate_per_minute :: int
  rl_max_notional_per_order :: dec_text

definition default_risk_limits :: risk_limits where
  "default_risk_limits =
     \<lparr>rl_max_position_size = DecText 0, rl_max_daily_loss = DecText 0,
      rl_max_order_rate_per_minute = 60, rl_max_notional_per_order = DecText 0\<rparr>"

definition dump_risk_limits :: "risk_limits \<Rightarrow> limits_doc" where
  "dump_risk_limits r =
     empty_doc\<lparr>ld_max_position_size := Some (rl_max_position_size r),
       ld_max_daily_loss := Some (rl_max_daily_loss r),
       ld_max_order_rate_per_minute := Some (rl_max_order_rate_per_minute r),
       ld_max_notional_per_order := Some (rl_max_notional_per_order r)\<rparr>"

text \<open>\<open>RiskLimits(**document)\<close>: missing keys take their defaults, unknown keys are ignored, and the
  rate must lie between 1 and 10000.\<close>

definition load_risk_limits :: "limits_doc \<Rightarrow> (exn, risk_limits) result" where
  "load_risk_limits d =
     (let rate = (case ld_max_order_rate_per_minute d of None \<Rightarrow> 60 | Some n \<Rightarrow> n)
      in if 1 \<le> rate \<and> rate \<le> 10000 then
           Inr \<lparr>rl_max_position_size = (case ld_max_position_size d of None \<Rightarrow> DecText 0 | Some t \<Rightarrow> t),
                rl_max_daily_loss = (case ld_max_daily_loss d of None \<Rightarrow> DecText 0 | Some t \<Rightarrow> t),
                rl_max_order_rate_per_minute = rate,
                rl_max_notional_per_order =
                  (case ld_max_notional_per_order d of None \<Rightarrow> DecText 0 | Some t \<Rightarrow> t)\<rparr>
         else Inl (PyError ''pydantic.ValidationError''))"

record deployment_create_request =
  dc_strategy_id :: string
  dc_execution_mode :: string
  dc_emergency_posture :: string
  dc_risk_limits :: risk_limits
  dc_custom_posture_config :: "(string, json) dict option"

definition create_request_valid :: "deployment_create_request \<Rightarrow> bool" where
  "create_request_valid r \<longleftrightarrow>
     length (dc_strategy_id r) = 26 \<and>
     dc_execution_mode r \<in> set [''shadow'', ''paper'', ''live''] \<and>
     dc_emergency_posture r \<in> set [''flatten_all'', ''cancel_open'', ''hold'', ''custom''] \<and>
     \<not> (dc_emergency_posture r = ''custom'' \<and> dc_custom_posture_config r \<in> {None, Some []}) \<and>
     1 \<le> rl_max_order_rate_per_minute (dc_risk_limits r) \<and>
     rl_max_order_rate_per_minute (dc_risk_limits r) \<le> 10000"

record deployment =
  dp_id :: string
  dp_strategy_id :: string
  dp_state :: string
  dp_execution_mode :: string
  dp_emergency_posture :: string
  dp_risk_limits :: limits_doc
  dp_custom_posture_config :: "(string, json) dict option"
  dp_deployed_by :: string
  dp_created_at :: datetime
  dp_updated_at :: datetime

record transition_event =
  te_id :: string
  te_deployment_id :: string
  te_from_state :: string
  te_to_state :: string
  te_actor :: string
  te_reason :: string
  te_correlation_id :: string
  te_timestamp :: datetime

section \<open>The interface\<close>

record 's deployment_repo =
  dr_create :: "string \<Rightarrow> datetime \<Rightarrow> string \<Rightarrow> string \<Rightarrow> string \<Rightarrow> limits_doc \<Rightarrow>
    (string, json) dict option \<Rightarrow> string \<Rightarrow> 's \<Rightarrow> deployment \<times> 's"
  dr_get_by_id :: "'s \<Rightarrow> string \<Rightarrow> deployment option"
  dr_update_state :: "datetime \<Rightarrow> string \<Rightarrow> string \<Rightarrow> 's \<Rightarrow> (exn, deployment) result \<times> 's"
  dr_record_transition :: "string \<Rightarrow> datetime \<Rightarrow> string \<Rightarrow> string \<Rightarrow> string \<Rightarrow> string \<Rightarrow> string \<Rightarrow> string \<Rightarrow>
    's \<Rightarrow> transition_event \<times> 's"
  dr_update_risk_limits :: "datetime \<Rightarrow> string \<Rightarrow> limits_doc \<Rightarrow> 's \<Rightarrow> (exn, deployment) result \<times> 's"
  dr_list_transitions :: "'s \<Rightarrow> string \<Rightarrow> transition_event list"
  dr_list_by_state :: "'s \<Rightarrow> string \<Rightarrow> deployment list"

text \<open>The record of a new deployment, and of a recorded transition.\<close>

definition new_deployment ::
  "string \<Rightarrow> datetime \<Rightarrow> string \<Rightarrow> string \<Rightarrow> string \<Rightarrow> limits_doc \<Rightarrow> (string, json) dict option \<Rightarrow>
     string \<Rightarrow> deployment" where
  "new_deployment did now strategy mode posture limits config deployed_by =
     \<lparr>dp_id = did, dp_strategy_id = strategy, dp_state = ''created'', dp_execution_mode = mode,
      dp_emergency_posture = posture, dp_risk_limits = limits, dp_custom_posture_config = config,
      dp_deployed_by = deployed_by, dp_created_at = now, dp_updated_at = now\<rparr>"

definition new_transition ::
  "string \<Rightarrow> datetime \<Rightarrow> string \<Rightarrow> string \<Rightarrow> string \<Rightarrow> string \<Rightarrow> string \<Rightarrow> string \<Rightarrow> transition_event" where
  "new_transition eid now did from_state to_state actor reason corr =
     \<lparr>te_id = eid, te_deployment_id = did, te_from_state = from_state, te_to_state = to_state,
      te_actor = actor, te_reason = reason, te_correlation_id = corr, te_timestamp = now\<rparr>"

locale deployment_repository =
  fixes repo :: "'s deployment_repo" and invar :: "'s \<Rightarrow> bool"
  assumes create_new: "invar s \<Longrightarrow> dr_get_by_id repo s did = None \<Longrightarrow>
      \<exists>s'. dr_create repo did now strategy mode posture limits config deployed_by s =
             (new_deployment did now strategy mode posture limits config deployed_by, s') \<and> invar s' \<and>
        dr_get_by_id repo s' = (dr_get_by_id repo s)
          (did \<mapsto> new_deployment did now strategy mode posture limits config deployed_by) \<and>
        dr_list_transitions repo s' = (dr_list_transitions repo s)(did := [])"
    and update_state_missing: "dr_get_by_id repo s did = None \<Longrightarrow>
      dr_update_state repo now did st s = (Inl NotFoundError, s)"
    and update_state_found: "invar s \<Longrightarrow> dr_get_by_id repo s did = Some d \<Longrightarrow>
      \<exists>s'. dr_update_state repo now did st s = (Inr (d\<lparr>dp_state := st, dp_updated_at := now\<rparr>), s') \<and>
        invar s' \<and> dr_get_by_id repo s' = (dr_get_by_id repo s)(did \<mapsto> d\<lparr>dp_state := st, dp_updated_at := now\<rparr>) \<and>
        dr_list_transitions repo s' = dr_list_transitions repo s"
    and record_found: "invar s \<Longrightarrow> 
      \<exists>s'. dr_record_transition repo eid now did from_state to_state actor reason corr s =
             (new_transition eid now did from_state to_state actor reason corr, s') \<and> invar s' \<and>
        dr_get_by_id repo s' = dr_get_by_id repo s \<and>
        dr_list_transitions repo s' = (dr_list_transitions repo s)
          (did := dr_list_transitions repo s did @
                    [new_transition eid now did from_state to_state actor reason corr])"
    and update_limits_missing: "dr_get_by_id repo s did = None \<Longrightarrow>
      dr_update_risk_limits repo now did limits s = (Inl NotFoundError, s)"
    and update_limits_found: "invar s \<Longrightarrow> dr_get_by_id repo s did = Some d \<Longrightarrow>
      \<exists>s'. dr_update_risk_limits repo now did limits s =
             (Inr (d\<lparr>dp_risk_limits := limits, dp_updated_at := now\<rparr>), s') \<and>
        invar s' \<and>
        dr_get_by_id repo s' = (dr_get_by_id repo s)(did \<mapsto> d\<lparr>dp_risk_limits := limits, dp_updated_at := now\<rparr>) \<and>
        dr_list_transitions repo s' = dr_list_transitions repo s"
    and list_by_state_iff: "invar s \<Longrightarrow>
      d \<in> set (dr_list_by_state repo s st) \<longleftrightarrow> (\<exists>did. dr_get_by_id repo s did = Some d \<and> dp_state d = st)"

section \<open>The in-memory repository\<close>

record mock_repo =
  mr_store :: "(string, deployment) dict"
  mr_transitions :: "(string, transition_event list) dict"

definition mock_init :: mock_repo where
  "mock_init = \<lparr>mr_store = [], mr_transitions = []\<rparr>"

definition mock_create ::
  "string \<Rightarrow> datetime \<Rightarrow> string \<Rightarrow> string \<Rightarrow> string \<Rightarrow> limits_doc \<Rightarrow> (string, json) dict option \<Rightarrow>
     string \<Rightarrow> mock_repo \<Rightarrow> deployment \<times> mock_repo" where
  "mock_create did now strategy mode posture limits config deployed_by s =
     (let rec = new_deployment did now strategy mode posture limits config deployed_by
      in (rec, s\<lparr>mr_store := dict_set did rec (mr_store s),
                 mr_transitions := dict_set did [] (mr_transitions s)\<rparr>))"

definition mock_get_by_id :: "mock_repo \<Rightarrow> string \<Rightarrow> deployment option" where
  "mock_get_by_id s did = dict_get (mr_store s) did"

definition mock_update_state ::
  "datetime \<Rightarrow> string \<Rightarrow> string \<Rightarrow> mock_repo \<Rightarrow> (exn, deployment) result \<times> mock_repo" where
  "mock_update_state now did new_state s =
     (case dict_get (mr_store s) did of
        None \<Rightarrow> (Inl NotFoundError, s)
      | Some rec \<Rightarrow>
          let rec' = rec\<lparr>dp_state := new_state, dp_updated_at := now\<rparr>
          in (Inr rec', s\<lparr>mr_store := dict_set did rec' (mr_store s)\<rparr>))"

definition mock_record_transition ::
  "string \<Rightarrow> datetime \<Rightarrow> string \<Rightarrow> string \<Rightarrow> string \<Rightarrow> string \<Rightarrow> string \<Rightarrow> string \<Rightarrow> mock_repo \<Rightarrow>
     transition_event \<times> mock_repo" where
  "mock_record_transition eid now did from_state to_state actor reason corr s =
     (let event = new_transition eid now did from_state to_state actor reason corr;
          events = (case dict_get (mr_transitions s) did of None \<Rightarrow> [] | Some es \<Rightarrow> es)
      in (event, s\<lparr>mr_transitions := dict_set did (events @ [event]) (mr_transitions s)\<rparr>))"

definition mock_update_risk_limits ::
  "datetime \<Rightarrow> string \<Rightarrow> limits_doc \<Rightarrow> mock_repo \<Rightarrow> (exn, deployment) result \<times> mock_repo" where
  "mock_update_risk_limits now did limits s =
     (case dict_get (mr_store s) did of
        None \<Rightarrow> (Inl NotFoundError, s)
      | Some rec \<Rightarrow>
          let rec' = rec\<lparr>dp_risk_limits := limits, dp_updated_at := now\<rparr>
          in (Inr rec', s\<lparr>mr_store := dict_set did rec' (mr_store s)\<rparr>))"

definition mock_list_transitions :: "mock_repo \<Rightarrow> string \<Rightarrow> transition_event list" where
  "mock_list_transitions s did =
     (case dict_get (mr_transitions s) did of None \<Rightarrow> [] | Some es \<Rightarrow> es)"

definition mock_list_by_state :: "mock_repo \<Rightarrow> string \<Rightarrow> deployment list" where
  "mock_list_by_state s st = filter (\<lambda>d. dp_state d = st) (dict_values (mr_store s))"

definition mock_deployment_repo :: "mock_repo deployment_repo" where
  "mock_deployment_repo =
     \<lparr>dr_create = mock_create, dr_get_by_id = mock_get_by_id, dr_update_state = mock_update_state,
      dr_record_transition = mock_record_transition, dr_update_risk_limits = mock_update_risk_limits,
      dr_list_transitions = mock_list_transitions, dr_list_by_state = mock_list_by_state\<rparr>"

lemmas mock_ops = mock_create_def mock_update_state_def mock_record_transition_def
  mock_update_risk_limits_def

lemma mock_repo_sel [simp]:
  "dr_create mock_deployment_repo = mock_create"
  "dr_get_by_id mock_deployment_repo = mock_get_by_id"
  "dr_update_state mock_deployment_repo = mock_update_state"
  "dr_record_transition mock_deployment_repo = mock_record_transition"
  "dr_update_risk_limits mock_deployment_repo = mock_update_risk_limits"
  "dr_list_transitions mock_deployment_repo = mock_list_transitions"
  "dr_list_by_state mock_deployment_repo = mock_list_by_state"
  by (simp_all add: mock_deployment_repo_def)

definition mock_inv :: "mock_repo \<Rightarrow> bool" where
  "mock_inv s \<longleftrightarrow> dict_ok (mr_store s)"

interpretation mock: deployment_repository mock_deployment_repo mock_inv
proof (unfold_locales, goal_cases)
  case (1 s did now strategy mode posture limits config deployed_by)
  then show ?case
    by (auto simp: mock_create_def Let_def mock_inv_def mock_get_by_id_def mock_list_transitions_def fun_eq_iff)
next
  case (3 s did d now st)
  then show ?case
    by (auto simp: mock_update_state_def Let_def mock_inv_def mock_get_by_id_def mock_list_transitions_def fun_eq_iff)
next
  case (4 s eid now did from_state to_state actor reason corr)
  then show ?case
    by (auto simp: mock_record_transition_def Let_def mock_inv_def mock_get_by_id_def
        mock_list_transitions_def fun_eq_iff)
next
  case (6 s did d now limits)
  then show ?case
    by (auto simp: mock_update_risk_limits_def Let_def mock_inv_def mock_get_by_id_def
        mock_list_transitions_def fun_eq_iff)
next
  case (7 s d st)
  then show ?case
    by (auto simp: mock_list_by_state_def mock_get_by_id_def mock_inv_def dict_values_get)
qed (simp_all add: mock_update_state_def mock_update_risk_limits_def mock_get_by_id_def)

end
