(* ===== verification/Deployment_Service.thy ===== *)
theory Deployment_Service
  imports Deployment_Repository
begin

text \<open>
  The deployment lifecycle, \<open>services/api/services/deployment_service.py\<close>. Every operation takes the
  repository it was constructed with, the audit data that is generated on the way (the times of the
  update and of the audit record, and the identifier of the record), its arguments and the
  repository's state. Reasons are ASCII (the code has a long dash in one of them). The lemmas are proved for every repository that satisfies the contract
  \<open>deployment_repository\<close>.
\<close>

section \<open>Operations\<close>

text \<open>Time of the update, identifier and time of the audit record.\<close>

type_synonym audit = "datetime \<times> string \<times> datetime"

definition get_deployment_or_raise :: "'s deployment_repo \<Rightarrow> string \<Rightarrow> 's \<Rightarrow> (exn, deployment) result" where
  "get_deployment_or_raise repo did s =
     (case dr_get_by_id repo s did of None \<Rightarrow> Inl NotFoundError | Some r \<Rightarrow> Inr r)"

definition transition ::
  "'s deployment_repo \<Rightarrow> audit \<Rightarrow> string \<Rightarrow> deployment_state \<Rightarrow> string \<Rightarrow> string \<Rightarrow> string \<Rightarrow> 's \<Rightarrow>
     (exn, deployment) result \<times> 's" where
  "transition repo a did target_state actor reason corr s =
     (case get_deployment_or_raise repo did s of
        Inl e \<Rightarrow> (Inl e, s)
      | Inr rec \<Rightarrow>
          (case parse_state (dp_state rec) of
             None \<Rightarrow> (Inl (StateTransitionError (Some (dp_state rec)) (Some (state_value target_state))), s)
           | Some current_state \<Rightarrow>
               if target_state \<notin> set (deployment_transitions current_state)
               then (Inl (StateTransitionError (Some (state_value current_state))
                            (Some (state_value target_state))), s)
               else
                 (case dr_update_state repo (fst a) did (state_value target_state) s of
                    (Inl e, s1) \<Rightarrow> (Inl e, s1)
                  | (Inr updated, s1) \<Rightarrow>
                      (Inr updated,
                       snd (dr_record_transition repo (fst (snd a)) (snd (snd a)) did
                              (state_value current_state) (state_value target_state) actor reason corr s1)))))"

definition create_deployment ::
  "'s deployment_repo \<Rightarrow> string \<Rightarrow> datetime \<Rightarrow> deployment_create_request \<Rightarrow> string \<Rightarrow> 's \<Rightarrow>
     deployment \<times> 's" where
  "create_deployment repo did now request deployed_by s =
     dr_create repo did now (dc_strategy_id request) (dc_execution_mode request)
       (dc_emergency_posture request) (dump_risk_limits (dc_risk_limits request))
       (dc_custom_posture_config request) deployed_by s"

definition submit_for_approval ::
  "'s deployment_repo \<Rightarrow> audit \<Rightarrow> string \<Rightarrow> string \<Rightarrow> string \<Rightarrow> 's \<Rightarrow> (exn, deployment) result \<times> 's" where
  "submit_for_approval repo a did actor corr s =
     transition repo a did pending_approval actor ''Submitted for approval'' corr s"

definition approve_deployment ::
  "'s deployment_repo \<Rightarrow> audit \<Rightarrow> string \<Rightarrow> string \<Rightarrow> string \<Rightarrow> 's \<Rightarrow> (exn, deployment) result \<times> 's" where
  "approve_deployment repo a did actor corr s =
     transition repo a did approved actor ''Approved for activation'' corr s"

text \<open>Two transitions in a row; the first one's error ends the operation.\<close>

definition two_step ::
  "'s deployment_repo \<Rightarrow> audit \<Rightarrow> audit \<Rightarrow> string \<Rightarrow> deployment_state \<Rightarrow> string \<Rightarrow> deployment_state \<Rightarrow> string \<Rightarrow>
     string \<Rightarrow> string \<Rightarrow> 's \<Rightarrow> (exn, deployment) result \<times> 's" where
  "two_step repo a a' did st reason st' reason' actor corr s =
     (case transition repo a did st actor reason corr s of
        (Inl e, s1) \<Rightarrow> (Inl e, s1)
      | (Inr _, s1) \<Rightarrow> transition repo a' did st' actor reason' corr s1)"

definition activate_deployment ::
  "'s deployment_repo \<Rightarrow> audit \<Rightarrow> audit \<Rightarrow> string \<Rightarrow> string \<Rightarrow> string \<Rightarrow> 's \<Rightarrow> (exn, deployment) result \<times> 's" where
  "activate_deployment repo a a' did actor corr s =
     (case get_deployment_or_raise repo did s of
        Inl e \<Rightarrow> (Inl e, s)
      | Inr rec \<Rightarrow>
          if dp_emergency_posture rec = '''' then (Inl ValidationError, s)
          else two_step repo a a' did activating ''Activation initiated - pre-activation gates passed''
                 active ''Activation complete'' actor corr s)"

definition freeze_deployment ::
  "'s deployment_repo \<Rightarrow> audit \<Rightarrow> string \<Rightarrow> string \<Rightarrow> string \<Rightarrow> string \<Rightarrow> 's \<Rightarrow> (exn, deployment) result \<times> 's" where
  "freeze_deployment repo a did reason actor corr s = transition repo a did frozen actor reason corr s"

definition unfreeze_deployment ::
  "'s deployment_repo \<Rightarrow> audit \<Rightarrow> string \<Rightarrow> string \<Rightarrow> string \<Rightarrow> 's \<Rightarrow> (exn, deployment) result \<times> 's" where
  "unfreeze_deployment repo a did actor corr s =
     transition repo a did active actor ''Deployment unfrozen'' corr s"

definition deactivate_deployment ::
  "'s deployment_repo \<Rightarrow> audit \<Rightarrow> audit \<Rightarrow> string \<Rightarrow> string \<Rightarrow> string \<Rightarrow> 's \<Rightarrow> (exn, deployment) result \<times> 's" where
  "deactivate_deployment repo a a' did actor corr s =
     two_step repo a a' did deactivating ''Graceful deactivation initiated''
       deactivated ''Deactivation complete'' actor corr s"

definition rollback_deployment ::
  "'s deployment_repo \<Rightarrow> audit \<Rightarrow> string \<Rightarrow> string \<Rightarrow> string \<Rightarrow> 's \<Rightarrow> (exn, deployment) result \<times> 's" where
  "rollback_deployment repo a did actor corr s =
     transition repo a did rolled_back actor ''Emergency rollback'' corr s"

definition get_deployment :: "'s deployment_repo \<Rightarrow> string \<Rightarrow> 's \<Rightarrow> (exn, deployment) result" where
  "get_deployment repo did s = get_deployment_or_raise repo did s"

text \<open>The health report; the figures that are fixed in the code (order and position counts of zero
  and so on) are left out.\<close>

record deployment_health =
  dh_deployment_id :: string
  dh_state :: string
  dh_execution_mode :: string
  dh_emergency_posture :: string
  dh_risk_limits :: risk_limits

definition get_deployment_health :: "'s deployment_repo \<Rightarrow> string \<Rightarrow> 's \<Rightarrow> (exn, deployment_health) result" where
  "get_deployment_health repo did s =
     bind_r (get_deployment_or_raise repo did s) (\<lambda>rec.
     bind_r (if dp_risk_limits rec = empty_doc then Inr default_risk_limits
             else load_risk_limits (dp_risk_limits rec)) (\<lambda>limits.
     Inr \<lparr>dh_deployment_id = dp_id rec, dh_state = dp_state rec,
          dh_execution_mode = dp_execution_mode rec,
          dh_emergency_posture = dp_emergency_posture rec, dh_risk_limits = limits\<rparr>))"

section \<open>Histories\<close>

text \<open>A request to the service, with the data that the environment supplies.\<close>

datatype dep_command =
    Create string datetime deployment_create_request string
  | Submit audit string string string
  | Approve audit string string string
  | Activate audit audit string string string
  | Freeze audit string string string string
  | Unfreeze audit string string string
  | Deactivate audit audit string string string
  | Rollback audit string string string

fun run_command :: "'s deployment_repo \<Rightarrow> dep_command \<Rightarrow> 's \<Rightarrow> (exn, deployment) result \<times> 's" where
  "run_command repo (Create did now request deployed_by) s =
     (case create_deployment repo did now request deployed_by s of (d, s') \<Rightarrow> (Inr d, s'))"
| "run_command repo (Submit a did actor corr) s = submit_for_approval repo a did actor corr s"
| "run_command repo (Approve a did actor corr) s = approve_deployment repo a did actor corr s"
| "run_command repo (Activate a a' did actor corr) s = activate_deployment repo a a' did actor corr s"
| "run_command repo (Freeze a did reason actor corr) s = freeze_deployment repo a did reason actor corr s"
| "run_command repo (Unfreeze a did actor corr) s = unfreeze_deployment repo a did actor corr s"
| "run_command repo (Deactivate a a' did actor corr) s = deactivate_deployment repo a a' did actor corr s"
| "run_command repo (Rollback a did actor corr) s = rollback_deployment repo a did actor corr s"

definition run_commands :: "'s deployment_repo \<Rightarrow> dep_command list \<Rightarrow> 's \<Rightarrow> 's" where
  "run_commands repo cmds s = fold (\<lambda>c s. snd (run_command repo c s)) cmds s"

fun is_create :: "dep_command \<Rightarrow> bool" where
  "is_create (Create _ _ _ _) = True"
| "is_create _ = False"

text \<open>The requests that reach the service have passed the schema.\<close>

fun command_valid :: "dep_command \<Rightarrow> bool" where
  "command_valid (Create did now request deployed_by) = create_request_valid request"
| "command_valid _ = True"

text \<open>Identifiers are ULIDs: the creations of a history use different ones.\<close>

fun created_ids :: "dep_command list \<Rightarrow> string list" where
  "created_ids [] = []"
| "created_ids (Create did now request deployed_by # cmds) = did # created_ids cmds"
| "created_ids (_ # cmds) = created_ids cmds"

section \<open>The lifecycle as a path\<close>

text \<open>The specification: \<open>path s es\<close> follows an audit trail from state \<open>s\<close> through the
  transition map and is the state it ends in, \<open>None\<close> if a step is not allowed or does not start
  where the previous one ended.\<close>

fun path :: "deployment_state \<Rightarrow> transition_event list \<Rightarrow> deployment_state option" where
  "path s [] = Some s"
| "path s (e # es) =
     (case parse_state (te_to_state e) of
        None \<Rightarrow> None
      | Some t \<Rightarrow> if te_from_state e = state_value s \<and> is_valid_transition s t then path t es else None)"

lemma path_append: "path s (es @ es') = Option.bind (path s es) (\<lambda>t. path t es')"
  by (induction es arbitrary: s) (auto split: option.splits)

lemma parse_state_Some: "parse_state text = Some s \<Longrightarrow> text = state_value s"
  by (auto simp: parse_state_def find_Some_iff)

text \<open>A path can leave a set of states, without failing, only over its single exit.\<close>

lemma path_exit:
  assumes "path s es = Some t" "s \<in> A" "t \<notin> A" "t \<noteq> failed"
    and exit: "\<And>x y. x \<in> A \<Longrightarrow> is_valid_transition x y \<Longrightarrow> y \<in> A \<or> y = failed \<or> x = p \<and> y = q"
  shows "\<exists>e\<in>set es. te_from_state e = state_value p \<and> te_to_state e = state_value q"
  using assms(1-4)
proof (induction es arbitrary: s)
  case (Cons e es)
  obtain u where u: "parse_state (te_to_state e) = Some u" "te_from_state e = state_value s"
      "is_valid_transition s u" "path u es = Some t"
    using Cons.prems(1) by (auto split: option.splits if_splits)
  have "u \<noteq> failed"
    using u(4) Cons.prems(4) by (cases es) (auto simp: is_valid_transition_def split: option.splits if_splits)
  then consider "u \<in> A" | "s = p" "u = q" using exit [OF Cons.prems(2) u(3)] by blast
  then show ?case
  proof cases
    case 1
    then show ?thesis using Cons.IH [OF u(4)] Cons.prems(3,4) by auto
  next
    case 2
    then show ?thesis using u(2) parse_state_Some [OF u(1)] by auto
  qed
qed auto

lemma path_approval:
  assumes "path created es = Some t" "t \<notin> {created, pending_approval, failed}"
  shows "\<exists>e\<in>set es. te_from_state e = ''pending_approval'' \<and> te_to_state e = ''approved''"
proof -
  have "\<exists>e\<in>set es. te_from_state e = state_value pending_approval \<and> te_to_state e = state_value approved"
    by (rule path_exit [OF assms(1), where A = "{created, pending_approval}"])
      (use assms(2) in \<open>auto simp: is_valid_transition_def\<close>)
  then show ?thesis by simp
qed

lemma path_activation:
  assumes "path created es = Some t" "t \<notin> {created, pending_approval, approved, failed}"
  shows "\<exists>e\<in>set es. te_from_state e = ''approved'' \<and> te_to_state e = ''activating''"
proof -
  have "\<exists>e\<in>set es. te_from_state e = state_value approved \<and> te_to_state e = state_value activating"
    by (rule path_exit [OF assms(1), where A = "{created, pending_approval, approved}"])
      (use assms(2) in \<open>auto simp: is_valid_transition_def\<close>)
  then show ?thesis by simp
qed

section \<open>Transitions on a repository\<close>

definition allowed :: "deployment \<Rightarrow> deployment_state \<Rightarrow> bool" where
  "allowed d target \<longleftrightarrow> (case parse_state (dp_state d) of None \<Rightarrow> False
     | Some cur \<Rightarrow> is_valid_transition cur target)"

text \<open>What one request does to the deployments: nothing, or it extends the trail of one deployment by
  a valid path and moves it to the end of that path.\<close>

definition advances :: "'s deployment_repo \<Rightarrow> string \<Rightarrow> 's \<Rightarrow> 's \<Rightarrow> bool" where
  "advances repo did s s' \<longleftrightarrow>
     (\<exists>d d' es st st'. dr_get_by_id repo s did = Some d \<and>
        parse_state (dp_state d) = Some st \<and> path st es = Some st' \<and> es \<noteq> [] \<and>
        dp_state d' = state_value st' \<and> dp_id d' = dp_id d \<and>
        dp_emergency_posture d' = dp_emergency_posture d \<and>
        dr_get_by_id repo s' = (dr_get_by_id repo s)(did \<mapsto> d') \<and>
        dr_list_transitions repo s' = (dr_list_transitions repo s)
          (did := dr_list_transitions repo s did @ es))"

text \<open>Every deployment is where its audit trail leads, is filed under its own identifier and has
  declared an emergency posture.\<close>

definition lifecycle_ok :: "'s deployment_repo \<Rightarrow> 's \<Rightarrow> bool" where
  "lifecycle_ok repo s \<longleftrightarrow>
     (\<forall>did d. dr_get_by_id repo s did = Some d \<longrightarrow>
        (\<exists>st. path created (dr_list_transitions repo s did) = Some st \<and> dp_state d = state_value st) \<and>
        dp_id d = did \<and> dp_emergency_posture d \<noteq> '''')"

text \<open>Deployments in a terminal state are the same, with the same trail.\<close>

definition terminal_kept :: "'s deployment_repo \<Rightarrow> 's \<Rightarrow> 's \<Rightarrow> bool" where
  "terminal_kept repo s s' \<longleftrightarrow>
     (\<forall>did d st. dr_get_by_id repo s did = Some d \<longrightarrow> parse_state (dp_state d) = Some st \<longrightarrow>
        deployment_transitions st = [] \<longrightarrow>
        dr_get_by_id repo s' did = Some d \<and> dr_list_transitions repo s' did = dr_list_transitions repo s did)"

context deployment_repository
begin

lemma transition_refused:
  assumes "\<And>d. dr_get_by_id repo s did = Some d \<Longrightarrow> \<not> allowed d target"
  shows "\<exists>e. transition repo a did target actor reason corr s = (Inl e, s)"
  using assms
  by (auto simp: transition_def get_deployment_or_raise_def allowed_def is_valid_transition_def
      split: option.splits)

lemma transition_done:
  assumes "invar s" "dr_get_by_id repo s did = Some d" "allowed d target"
  shows "\<exists>s'. transition repo a did target actor reason corr s =
      (Inr (d\<lparr>dp_state := state_value target, dp_updated_at := fst a\<rparr>), s') \<and> invar s' \<and>
    dr_get_by_id repo s' = (dr_get_by_id repo s)
      (did \<mapsto> d\<lparr>dp_state := state_value target, dp_updated_at := fst a\<rparr>) \<and>
    dr_list_transitions repo s' = (dr_list_transitions repo s)
      (did := dr_list_transitions repo s did @
         [new_transition (fst (snd a)) (snd (snd a)) did (dp_state d) (state_value target) actor reason corr])"
proof -
  obtain cur where cur: "parse_state (dp_state d) = Some cur" "target \<in> set (deployment_transitions cur)"
    using assms(3) by (auto simp: allowed_def is_valid_transition_def split: option.splits)
  have st: "state_value cur = dp_state d" using parse_state_Some [OF cur(1)] by simp
  obtain s1 where s1: "dr_update_state repo (fst a) did (state_value target) s =
        (Inr (d\<lparr>dp_state := state_value target, dp_updated_at := fst a\<rparr>), s1)" "invar s1"
      "dr_get_by_id repo s1 = (dr_get_by_id repo s)
        (did \<mapsto> d\<lparr>dp_state := state_value target, dp_updated_at := fst a\<rparr>)"
      "dr_list_transitions repo s1 = dr_list_transitions repo s"
    using update_state_found [OF assms(1,2)] by blast
  obtain s2 where s2: "dr_record_transition repo (fst (snd a)) (snd (snd a)) did (dp_state d)
        (state_value target) actor reason corr s1 =
      (new_transition (fst (snd a)) (snd (snd a)) did (dp_state d) (state_value target) actor reason corr, s2)"
      "invar s2" "dr_get_by_id repo s2 = dr_get_by_id repo s1"
      "dr_list_transitions repo s2 = (dr_list_transitions repo s1)
        (did := dr_list_transitions repo s1 did @
          [new_transition (fst (snd a)) (snd (snd a)) did (dp_state d) (state_value target) actor reason corr])"
    using record_found [OF s1(2)] by blast
  show ?thesis
    by (rule exI [of _ s2])
      (simp add: transition_def get_deployment_or_raise_def assms(2) cur st s1(1) s2(1,2),
        simp add: s2(3,4) s1(3,4))
qed

lemma transition_advances:
  assumes "invar s"
  shows "(\<exists>e. transition repo a did target actor reason corr s = (Inl e, s)) \<or>
    (\<exists>d s'. transition repo a did target actor reason corr s = (Inr d, s') \<and> invar s' \<and>
       dr_get_by_id repo s' did = Some d \<and> dp_state d = state_value target \<and> advances repo did s s')"
proof (cases "\<exists>d. dr_get_by_id repo s did = Some d \<and> allowed d target")
  case False
  then show ?thesis using transition_refused by blast
next
  case True
  then obtain d where d: "dr_get_by_id repo s did = Some d" "allowed d target" by blast
  let ?d = "d\<lparr>dp_state := state_value target, dp_updated_at := fst a\<rparr>"
    and ?e = "new_transition (fst (snd a)) (snd (snd a)) did (dp_state d) (state_value target) actor reason corr"
  obtain s' where s': "transition repo a did target actor reason corr s = (Inr ?d, s')" "invar s'"
      "dr_get_by_id repo s' = (dr_get_by_id repo s)(did \<mapsto> ?d)"
      "dr_list_transitions repo s' = (dr_list_transitions repo s)(did := dr_list_transitions repo s did @ [?e])"
    using transition_done [OF assms d] by blast
  obtain cur where cur: "parse_state (dp_state d) = Some cur" "is_valid_transition cur target"
    using d(2) by (auto simp: allowed_def split: option.splits)
  have "path cur [?e] = Some target"
    using cur parse_state_Some [OF cur(1)] by (simp add: new_transition_def)
  with s' d(1) cur(1) have "advances repo did s s'"
    unfolding advances_def
    by (intro exI [of _ d] exI [of _ ?d] exI [of _ "[?e]"] exI [of _ cur] exI [of _ target]) simp
  with s' show ?thesis by simp
qed

lemma advances_trans:
  assumes "advances repo did s s1" "advances repo did s1 s2"
  shows "advances repo did s s2"
proof -
  obtain d d1 es st st1 where a: "dr_get_by_id repo s did = Some d" "parse_state (dp_state d) = Some st"
      "path st es = Some st1" "es \<noteq> []" "dp_state d1 = state_value st1" "dp_id d1 = dp_id d"
      "dp_emergency_posture d1 = dp_emergency_posture d"
      "dr_get_by_id repo s1 = (dr_get_by_id repo s)(did \<mapsto> d1)"
      "dr_list_transitions repo s1 = (dr_list_transitions repo s)(did := dr_list_transitions repo s did @ es)"
    using assms(1) unfolding advances_def by blast
  obtain d2 es' st2 where b: "path st1 es' = Some st2" "dp_state d2 = state_value st2" "dp_id d2 = dp_id d1"
      "dp_emergency_posture d2 = dp_emergency_posture d1"
      "dr_get_by_id repo s2 = (dr_get_by_id repo s1)(did \<mapsto> d2)"
      "dr_list_transitions repo s2 = (dr_list_transitions repo s1)(did := dr_list_transitions repo s1 did @ es')"
    using assms(2) a(5,8) unfolding advances_def by auto
  show ?thesis
    unfolding advances_def
    by (intro exI [of _ d] exI [of _ d2] exI [of _ "es @ es'"] exI [of _ st] exI [of _ st2])
      (use a b in \<open>simp add: path_append\<close>)
qed

text \<open>The second of two transitions cannot fail when the map allows it after the first: the
  operation is all or nothing.\<close>

lemma two_step_advances:
  assumes "invar s" "is_valid_transition st st'"
  shows "(\<exists>e. two_step repo a a' did st reason st' reason' actor corr s = (Inl e, s)) \<or>
    (\<exists>d s'. two_step repo a a' did st reason st' reason' actor corr s = (Inr d, s') \<and> invar s' \<and>
       dr_get_by_id repo s' did = Some d \<and> dp_state d = state_value st' \<and> advances repo did s s')"
proof (cases "\<exists>e. transition repo a did st actor reason corr s = (Inl e, s)")
  case True
  then show ?thesis by (auto simp: two_step_def)
next
  case False
  then obtain d s1 where one: "transition repo a did st actor reason corr s = (Inr d, s1)" "invar s1"
      "dr_get_by_id repo s1 did = Some d" "dp_state d = state_value st" "advances repo did s s1"
    using transition_advances [OF assms(1)] by blast
  have al: "allowed d st'" using one(4) assms(2) by (simp add: allowed_def)
  have "\<not> (\<exists>e. transition repo a' did st' actor reason' corr s1 = (Inl e, s1))"
    using transition_done [OF one(2,3) al, of a' actor reason' corr] by auto
  then obtain d2 s2 where "transition repo a' did st' actor reason' corr s1 = (Inr d2, s2)" "invar s2"
      "dr_get_by_id repo s2 did = Some d2" "dp_state d2 = state_value st'" "advances repo did s1 s2"
    using transition_advances [OF one(2)] by blast
  with one show ?thesis by (auto simp: two_step_def intro: advances_trans)
qed

lemma command_effect:
  assumes "invar s" "\<not> is_create c"
  shows "(\<exists>e. run_command repo c s = (Inl e, s)) \<or>
    (\<exists>did d s'. run_command repo c s = (Inr d, s') \<and> invar s' \<and> advances repo did s s')"
proof (cases c)
  case (Submit a did actor corr)
  then show ?thesis using transition_advances [OF assms(1)] by (simp add: submit_for_approval_def) blast
next
  case (Approve a did actor corr)
  then show ?thesis using transition_advances [OF assms(1)] by (simp add: approve_deployment_def) blast
next
  case (Activate a a' did actor corr)
  have "is_valid_transition activating active" by (simp add: is_valid_transition_def)
  from two_step_advances [OF assms(1) this] show ?thesis
    by (simp add: Activate activate_deployment_def get_deployment_or_raise_def split: option.splits) blast
next
  case (Freeze a did reason actor corr)
  then show ?thesis using transition_advances [OF assms(1)] by (simp add: freeze_deployment_def) blast
next
  case (Unfreeze a did actor corr)
  then show ?thesis using transition_advances [OF assms(1)] by (simp add: unfreeze_deployment_def) blast
next
  case (Deactivate a a' did actor corr)
  have "is_valid_transition deactivating deactivated" by (simp add: is_valid_transition_def)
  from two_step_advances [OF assms(1) this] show ?thesis
    by (simp add: Deactivate deactivate_deployment_def) blast
next
  case (Rollback a did actor corr)
  then show ?thesis using transition_advances [OF assms(1)] by (simp add: rollback_deployment_def) blast
qed (use assms in simp)

lemma advances_lifecycle:
  assumes "lifecycle_ok repo s" "advances repo did s s'"
  shows "lifecycle_ok repo s'"
proof -
  obtain d d' es st st' where a: "dr_get_by_id repo s did = Some d" "parse_state (dp_state d) = Some st"
      "path st es = Some st'" "dp_state d' = state_value st'" "dp_id d' = dp_id d"
      "dp_emergency_posture d' = dp_emergency_posture d"
      "dr_get_by_id repo s' = (dr_get_by_id repo s)(did \<mapsto> d')"
      "dr_list_transitions repo s' = (dr_list_transitions repo s)(did := dr_list_transitions repo s did @ es)"
    using assms(2) unfolding advances_def by blast
  have "path created (dr_list_transitions repo s did) = Some st" and own: "dp_id d = did" "dp_emergency_posture d \<noteq> []"
  proof -
    obtain st0 where "path created (dr_list_transitions repo s did) = Some st0" "dp_state d = state_value st0"
        "dp_id d = did" "dp_emergency_posture d \<noteq> []"
      using assms(1) a(1) unfolding lifecycle_ok_def by blast
    with a(2) show "path created (dr_list_transitions repo s did) = Some st" "dp_id d = did"
        "dp_emergency_posture d \<noteq> []" by simp_all
  qed
  then have "path created (dr_list_transitions repo s did @ es) = Some st'" by (simp add: path_append a(3))
  with assms(1) a own show ?thesis by (simp add: lifecycle_ok_def)
qed

lemma advances_terminal: "advances repo did s s' \<Longrightarrow> terminal_kept repo s s'"
  unfolding advances_def terminal_kept_def
proof (elim exE conjE, intro allI impI, goal_cases)
  case (1 d d' es st st' k dk stk)
  have "k \<noteq> did"
  proof
    assume "k = did"
    with 1 have "deployment_transitions st = []" by simp
    with 1 show False by (cases es) (auto simp: is_valid_transition_def split: option.splits if_splits)
  qed
  with 1 show ?case by simp
qed

text \<open>One request: the invariant, the deployments it can add, and the terminal ones it must keep.\<close>

lemma run_command_ok:
  assumes "invar s" "lifecycle_ok repo s" "command_valid c"
    "\<And>did. did \<in> set (created_ids [c]) \<Longrightarrow> dr_get_by_id repo s did = None"
  shows "invar (snd (run_command repo c s)) \<and> lifecycle_ok repo (snd (run_command repo c s)) \<and>
    terminal_kept repo s (snd (run_command repo c s)) \<and>
    (\<forall>did. did \<notin> set (created_ids [c]) \<longrightarrow> dr_get_by_id repo s did = None \<longrightarrow>
       dr_get_by_id repo (snd (run_command repo c s)) did = None)"
proof (cases "is_create c")
  case True
  then obtain did now request deployed_by where c: "c = Create did now request deployed_by"
    by (cases c) auto
  then have none: "dr_get_by_id repo s did = None" using assms(4) by simp
  obtain s' where s': "run_command repo c s = (Inr (new_deployment did now (dc_strategy_id request)
        (dc_execution_mode request) (dc_emergency_posture request) (dump_risk_limits (dc_risk_limits request))
        (dc_custom_posture_config request) deployed_by), s')" "invar s'"
      "dr_get_by_id repo s' = (dr_get_by_id repo s)(did \<mapsto> new_deployment did now (dc_strategy_id request)
        (dc_execution_mode request) (dc_emergency_posture request) (dump_risk_limits (dc_risk_limits request))
        (dc_custom_posture_config request) deployed_by)"
      "dr_list_transitions repo s' = (dr_list_transitions repo s)(did := [])"
    using create_new [OF assms(1) none, of now "dc_strategy_id request" "dc_execution_mode request"
        "dc_emergency_posture request" "dump_risk_limits (dc_risk_limits request)"
        "dc_custom_posture_config request" deployed_by]
    by (auto simp: c create_deployment_def)
  have "dc_emergency_posture request \<noteq> []" using assms(3) by (auto simp: c create_request_valid_def)
  with s' assms(2) none show ?thesis
    by (auto simp: c lifecycle_ok_def new_deployment_def terminal_kept_def)
next
  case False
  then consider e where "run_command repo c s = (Inl e, s)"
    | did d s' where "run_command repo c s = (Inr d, s')" "invar s'" "advances repo did s s'"
    using command_effect [OF assms(1)] by blast
  then show ?thesis
  proof cases
    case 1
    then show ?thesis using assms(1,2) by (simp add: terminal_kept_def)
  next
    case 2
    then show ?thesis
      using advances_lifecycle [OF assms(2)] advances_terminal by (auto simp: advances_def)
  qed
qed

end

lemma created_ids_Cons: "created_ids (c # cmds) = created_ids [c] @ created_ids cmds"
  by (cases c) simp_all

context deployment_repository
begin

lemma run_commands_ok:
  "invar s \<Longrightarrow> lifecycle_ok repo s \<Longrightarrow> (\<forall>c\<in>set cmds. command_valid c) \<Longrightarrow> distinct (created_ids cmds) \<Longrightarrow>
   (\<forall>did\<in>set (created_ids cmds). dr_get_by_id repo s did = None) \<Longrightarrow>
     invar (run_commands repo cmds s) \<and> lifecycle_ok repo (run_commands repo cmds s) \<and>
     terminal_kept repo s (run_commands repo cmds s) \<and>
     (\<forall>did. did \<notin> set (created_ids cmds) \<longrightarrow> dr_get_by_id repo s did = None \<longrightarrow>
        dr_get_by_id repo (run_commands repo cmds s) did = None)"
proof (induction cmds arbitrary: s)
  case Nil
  then show ?case by (simp add: run_commands_def terminal_kept_def)
next
  case (Cons c cmds)
  let ?s = "snd (run_command repo c s)"
  have ids: "distinct (created_ids cmds)" "set (created_ids [c]) \<inter> set (created_ids cmds) = {}"
    using Cons.prems(4) by (simp_all add: created_ids_Cons [of c cmds])
  have "\<And>did. did \<in> set (created_ids [c]) \<Longrightarrow> dr_get_by_id repo s did = None"
    using Cons.prems(5) by (simp add: created_ids_Cons [of c cmds])
  then have one: "invar ?s" "lifecycle_ok repo ?s" "terminal_kept repo s ?s"
      "\<And>did. did \<notin> set (created_ids [c]) \<Longrightarrow> dr_get_by_id repo s did = None \<Longrightarrow> dr_get_by_id repo ?s did = None"
    using run_command_ok [OF Cons.prems(1,2), of c] Cons.prems(3) by auto
  have "\<forall>did\<in>set (created_ids cmds). dr_get_by_id repo ?s did = None"
    using one(4) ids(2) Cons.prems(5) by (fastforce simp: created_ids_Cons [of c cmds])
  from Cons.IH [OF one(1,2) _ ids(1) this] Cons.prems(3) one(3) show ?case
    by (auto simp: run_commands_def terminal_kept_def created_ids_Cons [of c cmds] one(4))
qed

end

lemma created_ids_append: "created_ids (cmds @ cmds') = created_ids cmds @ created_ids cmds'"
proof (induction cmds)
  case (Cons c cmds)
  then show ?case by (cases c) simp_all
qed simp

section \<open>Properties\<close>

text \<open>A history for the witnesses: a deployment that is created, submitted, approved and activated.\<close>

definition demo_create :: deployment_create_request where
  "demo_create =
     \<lparr>dc_strategy_id = ''01HTESTSTRT000000000000001'', dc_execution_mode = ''live'',
      dc_emergency_posture = ''flatten_all'', dc_risk_limits = default_risk_limits,
      dc_custom_posture_config = None\<rparr>"

definition demo_commands :: "dep_command list" where
  "demo_commands =
     [Create ''D1'' 1 demo_create ''U1'', Submit (2, ''E1'', 3) ''D1'' ''U1'' ''X'',
      Approve (4, ''E2'', 5) ''D1'' ''U2'' ''X'', Activate (6, ''E3'', 7) (8, ''E4'', 9) ''D1'' ''U2'' ''X'']"

definition demo_active :: deployment where
  "demo_active =
     \<lparr>dp_id = ''D1'', dp_strategy_id = ''01HTESTSTRT000000000000001'', dp_state = ''active'',
      dp_execution_mode = ''live'', dp_emergency_posture = ''flatten_all'',
      dp_risk_limits = dump_risk_limits default_risk_limits, dp_custom_posture_config = None,
      dp_deployed_by = ''U1'', dp_created_at = 1, dp_updated_at = 8\<rparr>"

lemmas service_defs = submit_for_approval_def approve_deployment_def activate_deployment_def
  freeze_deployment_def unfreeze_deployment_def deactivate_deployment_def rollback_deployment_def
  create_deployment_def two_step_def transition_def get_deployment_or_raise_def

lemma demo_valid_history:
  "\<forall>c\<in>set demo_commands. command_valid c" "distinct (created_ids demo_commands)"
  by (simp_all add: demo_commands_def demo_create_def create_request_valid_def default_risk_limits_def)

lemma mock_start: "mock_inv mock_init" "\<forall>did. dr_get_by_id mock_deployment_repo mock_init did = None"
  by (simp_all add: mock_inv_def mock_init_def mock_get_by_id_def)

lemma demo_run:
  "dr_get_by_id mock_deployment_repo (run_commands mock_deployment_repo demo_commands mock_init) ''D1'' = Some demo_active"
  by (simp add: run_commands_def demo_commands_def service_defs mock_init_def mock_ops mock_get_by_id_def
      Let_def new_deployment_def demo_create_def demo_active_def parse_state_def all_states_def)

lemma lifecycle_start: "\<forall>did. dr_get_by_id repo s did = None \<Longrightarrow> lifecycle_ok repo s"
  by (simp add: lifecycle_ok_def)

text \<open>
  C12. For every repository that keeps its contract and every history of requests: a deployment is in
  the state to which its audit trail leads from \<open>created\<close> through the transition map, each record
  starting where the previous one ended. A trail that reached activity (or what follows it) contains
  the approval and the activation, so no deployment is activated without approval.
\<close>

theorem lifecycle_follows_audit_trail:
  assumes "deployment_repository repo invar" "invar s0" "\<forall>did. dr_get_by_id repo s0 did = None"
    "\<forall>c\<in>set cmds. command_valid c" "distinct (created_ids cmds)"
    "dr_get_by_id repo (run_commands repo cmds s0) did = Some d"
  shows "\<exists>st. path created (dr_list_transitions repo (run_commands repo cmds s0) did) = Some st \<and>
    dp_state d = state_value st \<and>
    (st \<in> {active, frozen, deactivating, deactivated, rolled_back} \<longrightarrow>
       (\<exists>e \<in> set (dr_list_transitions repo (run_commands repo cmds s0) did).
          te_from_state e = ''pending_approval'' \<and> te_to_state e = ''approved'') \<and>
       (\<exists>e \<in> set (dr_list_transitions repo (run_commands repo cmds s0) did).
          te_from_state e = ''approved'' \<and> te_to_state e = ''activating''))"
proof -
  have "lifecycle_ok repo (run_commands repo cmds s0)"
    using deployment_repository.run_commands_ok [OF assms(1,2) lifecycle_start [OF assms(3)] assms(4,5)] assms(3) by simp
  then obtain st where st: "path created (dr_list_transitions repo (run_commands repo cmds s0) did) = Some st"
      "dp_state d = state_value st"
    using assms(6) unfolding lifecycle_ok_def by blast
  then show ?thesis using path_approval [OF st(1)] path_activation [OF st(1)] by auto
qed

theorem lifecycle_follows_audit_trail_witness:
  "path created (dr_list_transitions mock_deployment_repo
     (run_commands mock_deployment_repo demo_commands mock_init) ''D1'') = Some active"
proof -
  obtain st where st: "path created (dr_list_transitions mock_deployment_repo
        (run_commands mock_deployment_repo demo_commands mock_init) ''D1'') = Some st"
      "dp_state demo_active = state_value st"
    using lifecycle_follows_audit_trail [OF mock.deployment_repository_axioms mock_start demo_valid_history demo_run]
    by blast
  have "parse_state (dp_state demo_active) = Some active"
    by (simp add: demo_active_def parse_state_def all_states_def)
  with st show ?thesis by simp
qed

text \<open>
  A deployment that is deactivated, rolled back or failed stays exactly as it is, and its audit
  trail does not grow, whatever requests follow.
\<close>

theorem terminal_deployment_final:
  assumes "deployment_repository repo invar" "invar s0" "\<forall>did. dr_get_by_id repo s0 did = None"
    "\<forall>c\<in>set (cmds @ cmds'). command_valid c" "distinct (created_ids (cmds @ cmds'))"
    "dr_get_by_id repo (run_commands repo cmds s0) did = Some d"
    "dp_state d \<in> {''deactivated'', ''rolled_back'', ''failed''}"
  shows "dr_get_by_id repo (run_commands repo (cmds @ cmds') s0) did = Some d \<and>
    dr_list_transitions repo (run_commands repo (cmds @ cmds') s0) did =
      dr_list_transitions repo (run_commands repo cmds s0) did"
proof -
  let ?s = "run_commands repo cmds s0"
  have valid: "\<forall>c\<in>set cmds. command_valid c" "\<forall>c\<in>set cmds'. command_valid c" using assms(4) by auto
  have ids: "distinct (created_ids cmds)" "distinct (created_ids cmds')"
      "set (created_ids cmds) \<inter> set (created_ids cmds') = {}"
    using assms(5) by (simp_all add: created_ids_append)
  have none: "\<forall>k\<in>X. dr_get_by_id repo s0 k = None" for X using assms(3) by simp
  have one: "invar ?s" "lifecycle_ok repo ?s"
      "\<And>k. k \<notin> set (created_ids cmds) \<Longrightarrow> dr_get_by_id repo ?s k = None"
    using deployment_repository.run_commands_ok [OF assms(1,2) lifecycle_start [OF assms(3)] valid(1) ids(1) none]
      assms(3) by auto
  have "\<forall>k\<in>set (created_ids cmds'). dr_get_by_id repo ?s k = None" using one(3) ids(3) by auto
  then have kept: "terminal_kept repo ?s (run_commands repo cmds' ?s)"
    using deployment_repository.run_commands_ok [OF assms(1) one(1,2) valid(2) ids(2)] by simp
  have "\<exists>st. parse_state (dp_state d) = Some st \<and> deployment_transitions st = []"
    using assms(7) parse_state_value [of deactivated] parse_state_value [of rolled_back]
      parse_state_value [of failed] by auto
  with kept assms(6) have "dr_get_by_id repo (run_commands repo cmds' ?s) did = Some d \<and>
      dr_list_transitions repo (run_commands repo cmds' ?s) did = dr_list_transitions repo ?s did"
    unfolding terminal_kept_def by blast
  then show ?thesis by (simp add: run_commands_def)
qed

definition demo_end :: "dep_command list" where
  "demo_end = [Rollback (10, ''E5'', 11) ''D1'' ''U2'' ''X'']"

lemma demo_end_run:
  "dr_get_by_id mock_deployment_repo (run_commands mock_deployment_repo (demo_commands @ demo_end) mock_init) ''D1'' =
     Some (demo_active\<lparr>dp_state := ''rolled_back'', dp_updated_at := 10\<rparr>)"
  by (simp add: run_commands_def demo_commands_def demo_end_def service_defs mock_init_def mock_ops mock_get_by_id_def
      Let_def new_deployment_def demo_create_def demo_active_def parse_state_def all_states_def)

theorem terminal_deployment_final_witness:
  "dr_get_by_id mock_deployment_repo (run_commands mock_deployment_repo
     ((demo_commands @ demo_end) @ [Unfreeze (12, ''E6'', 13) ''D1'' ''U1'' ''X'']) mock_init) ''D1'' =
   Some (demo_active\<lparr>dp_state := ''rolled_back'', dp_updated_at := 10\<rparr>)"
proof -
  have valid: "\<forall>c\<in>set ((demo_commands @ demo_end) @ [Unfreeze (12, ''E6'', 13) ''D1'' ''U1'' ''X'']). command_valid c"
    using demo_valid_history(1) by (auto simp: demo_end_def)
  have ids: "distinct (created_ids ((demo_commands @ demo_end) @ [Unfreeze (12, ''E6'', 13) ''D1'' ''U1'' ''X'']))"
    by (simp add: demo_commands_def demo_end_def)
  show ?thesis
    using terminal_deployment_final [OF mock.deployment_repository_axioms mock_start valid ids demo_end_run] by simp
qed

text \<open>
  Requests are all or nothing: a request that is refused, for whatever reason, leaves the
  repository unchanged, including the two-step activation and deactivation, whose second step never
  fails after the first has been made.
\<close>

theorem refused_request_changes_nothing:
  assumes "deployment_repository repo invar" "invar s" "run_command repo c s = (Inl e, s')"
  shows "s' = s"
proof (cases "is_create c")
  case True
  then show ?thesis using assms(3) by (cases c) (auto split: prod.splits)
next
  case False
  then show ?thesis using deployment_repository.command_effect [OF assms(1,2) False] assms(3) by auto
qed

theorem refused_request_changes_nothing_witness:
  "snd (run_command mock_deployment_repo (Activate (6, ''E3'', 7) (8, ''E4'', 9) ''D9'' ''U2'' ''X'') mock_init) = mock_init"
  using refused_request_changes_nothing [OF mock.deployment_repository_axioms mock_start(1),
      of "Activate (6, ''E3'', 7) (8, ''E4'', 9) ''D9'' ''U2'' ''X''" NotFoundError mock_init]
  by (simp add: service_defs mock_get_by_id_def mock_init_def)

text \<open>
  Activation succeeds exactly for an approved deployment with a declared emergency posture. It
  then leaves the deployment active and adds the two audit records, in order.
\<close>

theorem activation_exact:
  assumes "deployment_repository repo invar" "invar s" "dr_get_by_id repo s did = Some d"
    "activate_deployment repo a a' did actor corr s = (res, s')"
  shows "((\<exists>d'. res = Inr d') \<longleftrightarrow> dp_state d = ''approved'' \<and> dp_emergency_posture d \<noteq> '''') \<and>
    (\<forall>d'. res = Inr d' \<longrightarrow> dp_state d' = ''active'' \<and> dr_get_by_id repo s' did = Some d' \<and>
       map (\<lambda>e. (te_from_state e, te_to_state e, te_actor e)) (dr_list_transitions repo s' did) =
       map (\<lambda>e. (te_from_state e, te_to_state e, te_actor e)) (dr_list_transitions repo s did) @
         [(''approved'', ''activating'', actor), (''activating'', ''active'', actor)])"
proof (cases "dp_state d = ''approved'' \<and> dp_emergency_posture d \<noteq> []")
  case True
  note R = deployment_repository.transition_done [OF assms(1)]
  have ok: "allowed d activating" using True by (simp add: allowed_def parse_state_def all_states_def is_valid_transition_def)
  obtain d1 s1 where one: "transition repo a did activating actor
        ''Activation initiated - pre-activation gates passed'' corr s = (Inr d1, s1)" "invar s1"
      "dr_get_by_id repo s1 did = Some d1" "dp_state d1 = ''activating''"
      "map (\<lambda>e. (te_from_state e, te_to_state e, te_actor e)) (dr_list_transitions repo s1 did) =
       map (\<lambda>e. (te_from_state e, te_to_state e, te_actor e)) (dr_list_transitions repo s did) @
         [(''approved'', ''activating'', actor)]"
    using R [OF assms(2,3) ok, of a actor "''Activation initiated - pre-activation gates passed''" corr] True
    by (auto simp: new_transition_def)
  have ok1: "allowed d1 active" using one(4) by (simp add: allowed_def parse_state_def all_states_def is_valid_transition_def)
  obtain d2 s2 where two: "transition repo a' did active actor ''Activation complete'' corr s1 = (Inr d2, s2)"
      "dr_get_by_id repo s2 did = Some d2" "dp_state d2 = ''active''"
      "map (\<lambda>e. (te_from_state e, te_to_state e, te_actor e)) (dr_list_transitions repo s2 did) =
       map (\<lambda>e. (te_from_state e, te_to_state e, te_actor e)) (dr_list_transitions repo s1 did) @
         [(''activating'', ''active'', actor)]"
    using R [OF one(2,3) ok1, of a' actor "''Activation complete''" corr] one(4)
    by (auto simp: new_transition_def)
  have "res = Inr d2" "s' = s2"
    using assms(3,4) True one(1) two(1)
    by (simp_all add: activate_deployment_def get_deployment_or_raise_def two_step_def)
  then show ?thesis using True one(5) two by simp
next
  case False
  have "\<not> allowed d activating" if "dp_state d \<noteq> ''approved''"
  proof
    assume "allowed d activating"
    then obtain cur where cur: "parse_state (dp_state d) = Some cur" "is_valid_transition cur activating"
      by (auto simp: allowed_def split: option.splits)
    with that parse_state_Some [OF cur(1)] show False by (cases cur) (auto simp: is_valid_transition_def)
  qed
  then have "\<exists>e. res = Inl e"
    using False assms(3,4) deployment_repository.transition_refused [OF assms(1), of s did activating a actor
        "''Activation initiated - pre-activation gates passed''" corr]
    by (auto simp: activate_deployment_def get_deployment_or_raise_def two_step_def split: if_splits)
  then show ?thesis using False by auto
qed

theorem activation_exact_witness:
  "\<exists>d'. fst (activate_deployment mock_deployment_repo (6, ''E3'', 7) (8, ''E4'', 9) ''D1'' ''U2'' ''X''
     (run_commands mock_deployment_repo (take 3 demo_commands) mock_init)) = Inr d' \<and> dp_state d' = ''active''"
proof -
  let ?s = "run_commands mock_deployment_repo (take 3 demo_commands) mock_init"
  let ?d = "demo_active\<lparr>dp_state := ''approved'', dp_updated_at := 4\<rparr>"
  obtain res s' where ex: "activate_deployment mock_deployment_repo (6, ''E3'', 7) (8, ''E4'', 9) ''D1'' ''U2'' ''X'' ?s = (res, s')"
    by force
  have g: "dr_get_by_id mock_deployment_repo ?s ''D1'' = Some ?d"
    by (simp add: run_commands_def demo_commands_def service_defs mock_init_def mock_ops mock_get_by_id_def
        Let_def new_deployment_def demo_create_def demo_active_def parse_state_def all_states_def)
  have "mock_inv ?s"
    by (simp add: run_commands_def demo_commands_def service_defs mock_init_def mock_ops mock_get_by_id_def
        Let_def new_deployment_def demo_create_def parse_state_def all_states_def mock_inv_def dict_ok_def)
  from activation_exact [OF mock.deployment_repository_axioms this g ex] ex show ?thesis
    by (auto simp: demo_active_def)
qed

end
