(* ===== verification/Risk_Gate.thy ===== *)
theory Risk_Gate
  imports Deployment_Service
begin

text \<open>
  The pre-trade risk gate, \<open>services/api/services/risk_gate_service.py\<close>, with the schemas of
  \<open>libs/contracts/risk.py\<close>. The gate reads the limits from the deployment repository (the interface
  of \<open>Deployment_Repository\<close>) and writes an audit event per evaluated check to the risk event
  repository, whose interface is a record of operations with a contract; the in-memory one,
  \<open>libs/contracts/mocks/mock_risk_event_repository.py\<close>, provides it. A checked or limit value, which
  the code keeps as text, is the number. Event identifiers and times come from a function of the
  number of the event.
\<close>

section \<open>Data\<close>

datatype risk_severity = INFO | WARNING | CRITICAL | HALT

fun severity_value :: "risk_severity \<Rightarrow> string" where
  "severity_value INFO = ''info''"
| "severity_value WARNING = ''warning''"
| "severity_value CRITICAL = ''critical''"
| "severity_value HALT = ''halt''"

record risk_check_result =
  rc_passed :: bool
  rc_check_name :: string
  rc_reason :: "risk_reason option"
  rc_severity :: risk_severity
  rc_current_value :: "decimal option"
  rc_limit_value :: "decimal option"

record risk_event =
  re_event_id :: string
  re_deployment_id :: string
  re_check_name :: string
  re_severity :: risk_severity
  re_passed :: bool
  re_reason :: "risk_reason option"
  re_current_value :: "decimal option"
  re_limit_value :: "decimal option"
  re_order_client_id :: "string option"
  re_symbol :: "string option"
  re_correlation_id :: "string option"
  re_created_at :: datetime

record pre_trade_risk_limits =
  pl_max_position_size :: decimal
  pl_max_daily_loss :: decimal
  pl_max_order_value :: decimal
  pl_max_concentration_pct :: decimal
  pl_max_open_orders :: int

section \<open>The risk event repository\<close>

record 'e risk_event_repo =
  rr_save :: "risk_event \<Rightarrow> 'e \<Rightarrow> 'e"
  rr_list_by_deployment :: "'e \<Rightarrow> string \<Rightarrow> string option \<Rightarrow> int \<Rightarrow> risk_event list"

text \<open>The slice \<open>xs[:n]\<close>.\<close>

definition slice_to :: "int \<Rightarrow> 'a list \<Rightarrow> 'a list" where
  "slice_to n xs = (if 0 \<le> n then take (nat n) xs else take (length xs - nat (- n)) xs)"

locale risk_event_repository =
  fixes erepo :: "'e risk_event_repo" and events :: "'e \<Rightarrow> risk_event list"
  assumes events_save: "events (rr_save erepo ev e) = events e @ [ev]"
    and list_newest_first: "rr_list_by_deployment erepo e did sev n =
      slice_to n (rev (filter (\<lambda>ev. re_deployment_id ev = did \<and>
        (case sev of None \<Rightarrow> True | Some v \<Rightarrow> severity_value (re_severity ev) = v)) (events e)))"

definition mock_event_save :: "risk_event \<Rightarrow> risk_event list \<Rightarrow> risk_event list" where
  "mock_event_save ev es = es @ [ev]"

definition mock_event_list :: "risk_event list \<Rightarrow> string \<Rightarrow> string option \<Rightarrow> int \<Rightarrow> risk_event list" where
  "mock_event_list es did severity n =
     (let filtered = filter (\<lambda>ev. re_deployment_id ev = did) es;
          filtered' = (case severity of None \<Rightarrow> filtered
                       | Some v \<Rightarrow> filter (\<lambda>ev. severity_value (re_severity ev) = v) filtered)
      in slice_to n (rev filtered'))"

definition mock_event_repo :: "risk_event list risk_event_repo" where
  "mock_event_repo = \<lparr>rr_save = mock_event_save, rr_list_by_deployment = mock_event_list\<rparr>"

interpretation mock_events: risk_event_repository mock_event_repo "\<lambda>es. es"
  by unfold_locales
    (auto simp: mock_event_repo_def mock_event_save_def mock_event_list_def Let_def conj_commute split: option.splits)

section \<open>Limits\<close>

definition set_risk_limits ::
  "'s deployment_repo \<Rightarrow> datetime \<Rightarrow> string \<Rightarrow> pre_trade_risk_limits \<Rightarrow> 's \<Rightarrow> (exn, unit) result \<times> 's" where
  "set_risk_limits repo now did limits s =
     (let limits_dict = empty_doc
            \<lparr>ld_max_order_value := Some (DecText (pl_max_order_value limits)),
             ld_max_position_size := Some (DecText (pl_max_position_size limits)),
             ld_max_daily_loss := Some (DecText (pl_max_daily_loss limits)),
             ld_max_concentration_pct := Some (DecText (pl_max_concentration_pct limits)),
             ld_max_open_orders := Some (pl_max_open_orders limits)\<rparr>
      in case dr_update_risk_limits repo now did limits_dict s of
           (Inl e, s') \<Rightarrow> (Inl e, s')
         | (Inr _, s') \<Rightarrow> (Inr (), s'))"

text \<open>\<open>Decimal(str(value))\<close> with the default \<open>"0"\<close>, and the whole \<open>_deserialize_limits\<close>, whose schema
  requires a non-negative order count.\<close>

definition limit_decimal :: "dec_text option \<Rightarrow> (exn, decimal) result" where
  "limit_decimal t =
     (case t of None \<Rightarrow> Inr 0 | Some (DecText d) \<Rightarrow> Inr d
      | Some (OtherText _) \<Rightarrow> Inl (PyError ''decimal.InvalidOperation''))"

definition deserialize_limits :: "limits_doc \<Rightarrow> (exn, pre_trade_risk_limits) result" where
  "deserialize_limits d =
     bind_r (limit_decimal (ld_max_order_value d)) (\<lambda>mov.
     bind_r (limit_decimal (ld_max_position_size d)) (\<lambda>mps.
     bind_r (limit_decimal (ld_max_daily_loss d)) (\<lambda>mdl.
     bind_r (limit_decimal (ld_max_concentration_pct d)) (\<lambda>mcp.
       let moo = (case ld_max_open_orders d of None \<Rightarrow> 0 | Some n \<Rightarrow> n)
       in if moo < 0 then Inl (PyError ''pydantic.ValidationError'')
          else Inr \<lparr>pl_max_position_size = mps, pl_max_daily_loss = mdl, pl_max_order_value = mov,
                    pl_max_concentration_pct = mcp, pl_max_open_orders = moo\<rparr>))))"

definition get_risk_limits :: "'s deployment_repo \<Rightarrow> string \<Rightarrow> 's \<Rightarrow> (exn, pre_trade_risk_limits) result" where
  "get_risk_limits repo did s =
     (case dr_get_by_id repo s did of
        None \<Rightarrow> Inl NotFoundError
      | Some d \<Rightarrow> if dp_risk_limits d = empty_doc then Inl NotFoundError
                  else deserialize_limits (dp_risk_limits d))"

definition clear_risk_limits ::
  "'s deployment_repo \<Rightarrow> datetime \<Rightarrow> string \<Rightarrow> 's \<Rightarrow> (exn, unit) result \<times> 's" where
  "clear_risk_limits repo now did s =
     (case dr_get_by_id repo s did of
        None \<Rightarrow> (Inl NotFoundError, s)
      | Some d \<Rightarrow>
          if dp_risk_limits d = empty_doc then (Inl NotFoundError, s)
          else (case dr_update_risk_limits repo now did empty_doc s of
                  (Inl e, s') \<Rightarrow> (Inl e, s')
                | (Inr _, s') \<Rightarrow> (Inr (), s')))"

definition get_risk_events ::
  "'e risk_event_repo \<Rightarrow> string \<Rightarrow> string option \<Rightarrow> int \<Rightarrow> 'e \<Rightarrow> risk_event list" where
  "get_risk_events erepo did severity n e = rr_list_by_deployment erepo e did severity n"

section \<open>Checks\<close>

definition check_pass :: "string \<Rightarrow> risk_check_result" where
  "check_pass name =
     \<lparr>rc_passed = True, rc_check_name = name, rc_reason = None, rc_severity = INFO,
      rc_current_value = None, rc_limit_value = None\<rparr>"

text \<open>A check that compared two values.\<close>

definition compared :: "string \<Rightarrow> bool \<Rightarrow> risk_reason \<Rightarrow> decimal \<Rightarrow> decimal \<Rightarrow> risk_check_result" where
  "compared name ok reason current limit =
     (if ok then (check_pass name)\<lparr>rc_current_value := Some current, rc_limit_value := Some limit\<rparr>
      else \<lparr>rc_passed = False, rc_check_name = name, rc_reason = Some reason, rc_severity = CRITICAL,
            rc_current_value = Some current, rc_limit_value = Some limit\<rparr>)"

definition check_order_value :: "order_request \<Rightarrow> decimal \<Rightarrow> pre_trade_risk_limits \<Rightarrow> risk_check_result" where
  "check_order_value order market_price limits =
     (if pl_max_order_value limits = 0 then check_pass ''order_value''
      else
        let order_value = dmul (rq_quantity order) market_price
        in compared ''order_value'' (\<not> pl_max_order_value limits < order_value)
             (OrderValueExceeds order_value (pl_max_order_value limits))
             order_value (pl_max_order_value limits))"

definition check_position_size ::
  "order_request \<Rightarrow> position_snapshot option \<Rightarrow> pre_trade_risk_limits \<Rightarrow> risk_check_result" where
  "check_position_size order symbol_position limits =
     (if pl_max_position_size limits = 0 then check_pass ''position_size''
      else
        let current_qty = (case symbol_position of Some p \<Rightarrow> ps_quantity p | None \<Rightarrow> 0);
            order_qty = (if rq_side order = BUY then rq_quantity order else dneg (rq_quantity order));
            resulting_qty = dabs (dadd current_qty order_qty)
        in compared ''position_size'' (\<not> pl_max_position_size limits < resulting_qty)
             (PositionSizeExceeds resulting_qty (pl_max_position_size limits))
             resulting_qty (pl_max_position_size limits))"

text \<open>\<open>quantize(Decimal("0.01"))\<close> raises when the result takes more than 28 digits.\<close>

definition quantize_cent :: "decimal \<Rightarrow> (exn, decimal) result" where
  "quantize_cent a =
     (let n = round_half_even (a * 100)
      in if 10 ^ 28 \<le> \<bar>n\<bar> then Inl (PyError ''decimal.InvalidOperation'') else Inr (of_int n / 100))"

definition total_exposure :: "order_request \<Rightarrow> decimal \<Rightarrow> position_snapshot option \<Rightarrow> decimal" where
  "total_exposure order market_price symbol_position =
     (let current_value = (case symbol_position of Some p \<Rightarrow> dmul (dabs (ps_quantity p)) market_price
                           | None \<Rightarrow> 0);
          order_value = dmul (rq_quantity order) market_price
      in if rq_side order = BUY then dadd current_value order_value
         else dabs (dsub current_value order_value))"

definition check_concentration ::
  "order_request \<Rightarrow> decimal \<Rightarrow> position_snapshot option \<Rightarrow> account_snapshot \<Rightarrow> pre_trade_risk_limits \<Rightarrow>
     (exn, risk_check_result) result" where
  "check_concentration order market_price symbol_position account limits =
     (if pl_max_concentration_pct limits = 0 then Inr (check_pass ''concentration'')
      else if ac_equity account \<le> 0 then Inr (check_pass ''concentration'')
      else
        bind_r (ddiv (total_exposure order market_price symbol_position) (ac_equity account)) (\<lambda>share.
        let concentration_pct = dmul share 100
        in bind_r (quantize_cent concentration_pct) (\<lambda>shown.
           Inr (compared ''concentration'' (\<not> pl_max_concentration_pct limits < concentration_pct)
             (ConcentrationExceeds concentration_pct (pl_max_concentration_pct limits))
             shown (pl_max_concentration_pct limits)))))"

definition check_open_orders :: "account_snapshot \<Rightarrow> pre_trade_risk_limits \<Rightarrow> risk_check_result" where
  "check_open_orders account limits =
     (if pl_max_open_orders limits = 0 then check_pass ''open_orders''
      else
        let total = ac_pending_orders_count account + 1
        in compared ''open_orders'' (\<not> pl_max_open_orders limits < total)
             (OpenOrdersExceed total (pl_max_open_orders limits))
             (of_int total) (of_int (pl_max_open_orders limits)))"

definition check_daily_loss :: "account_snapshot \<Rightarrow> pre_trade_risk_limits \<Rightarrow> risk_check_result" where
  "check_daily_loss account limits =
     (if pl_max_daily_loss limits = 0 then check_pass ''daily_loss''
      else
        compared ''daily_loss''
          (\<not> (ac_daily_pnl account < 0 \<and> pl_max_daily_loss limits < dabs (ac_daily_pnl account)))
          (DailyLossExceeds (dabs (ac_daily_pnl account)) (pl_max_daily_loss limits))
          (dabs (ac_daily_pnl account)) (pl_max_daily_loss limits))"

definition find_position :: "string \<Rightarrow> position_snapshot list \<Rightarrow> position_snapshot option" where
  "find_position symbol positions = find (\<lambda>p. ps_symbol p = symbol) positions"

definition estimate_market_price :: "string \<Rightarrow> position_snapshot list \<Rightarrow> decimal" where
  "estimate_market_price symbol positions =
     (case find (\<lambda>p. ps_symbol p = symbol) positions of Some p \<Rightarrow> ps_market_price p | None \<Rightarrow> 1)"

section \<open>The gate\<close>

type_synonym event_ids = "nat \<Rightarrow> string \<times> datetime"

definition record_event ::
  "'e risk_event_repo \<Rightarrow> string \<times> datetime \<Rightarrow> string \<Rightarrow> risk_check_result \<Rightarrow> order_request \<Rightarrow> string \<Rightarrow> 'e \<Rightarrow> 'e" where
  "record_event erepo i did result order corr e =
     rr_save erepo
       \<lparr>re_event_id = fst i, re_deployment_id = did, re_check_name = rc_check_name result,
        re_severity = rc_severity result, re_passed = rc_passed result, re_reason = rc_reason result,
        re_current_value = rc_current_value result, re_limit_value = rc_limit_value result,
        re_order_client_id = Some (rq_client_order_id order), re_symbol = Some (rq_symbol order),
        re_correlation_id = Some corr, re_created_at = snd i\<rparr> e"

fun run_checks ::
  "'e risk_event_repo \<Rightarrow> event_ids \<Rightarrow> nat \<Rightarrow> string \<Rightarrow> order_request \<Rightarrow> string \<Rightarrow>
     (exn, risk_check_result) result list \<Rightarrow> 'e \<Rightarrow> (exn, risk_check_result) result \<times> 'e" where
  "run_checks erepo ids n did order corr [] e = (Inr (check_pass ''all_checks_passed''), e)"
| "run_checks erepo ids n did order corr (c # cs) e =
     (case c of
        Inl ex \<Rightarrow> (Inl ex, e)
      | Inr result \<Rightarrow>
          let e' = record_event erepo (ids n) did result order corr e
          in if \<not> rc_passed result then (Inr result, e')
             else run_checks erepo ids (Suc n) did order corr cs e')"

definition ordered_checks ::
  "order_request \<Rightarrow> position_snapshot list \<Rightarrow> account_snapshot \<Rightarrow> pre_trade_risk_limits \<Rightarrow>
     (exn, risk_check_result) result list" where
  "ordered_checks order positions account limits =
     (let symbol_position = find_position (rq_symbol order) positions;
          market_price = estimate_market_price (rq_symbol order) positions
      in [Inr (check_order_value order market_price limits),
          Inr (check_position_size order symbol_position limits),
          check_concentration order market_price symbol_position account limits,
          Inr (check_open_orders account limits),
          Inr (check_daily_loss account limits)])"

definition no_limits_failure :: "risk_reason \<Rightarrow> risk_check_result" where
  "no_limits_failure reason =
     \<lparr>rc_passed = False, rc_check_name = ''no_limits_configured'', rc_reason = Some reason,
      rc_severity = CRITICAL, rc_current_value = None, rc_limit_value = None\<rparr>"

definition check_order ::
  "'s deployment_repo \<Rightarrow> 'e risk_event_repo \<Rightarrow> event_ids \<Rightarrow> string \<Rightarrow> order_request \<Rightarrow> position_snapshot list \<Rightarrow>
     account_snapshot \<Rightarrow> string \<Rightarrow> 's \<Rightarrow> 'e \<Rightarrow> (exn, risk_check_result) result \<times> 'e" where
  "check_order repo erepo ids did order positions account corr s e =
     (case dr_get_by_id repo s did of
        None \<Rightarrow>
          let result = no_limits_failure (DeploymentMissing did)
          in (Inr result, record_event erepo (ids 0) did result order corr e)
      | Some d \<Rightarrow>
          if dp_risk_limits d = empty_doc then
            let result = (if dp_execution_mode d = ''live'' then no_limits_failure (LimitsMissing did)
                          else check_pass ''no_limits_configured'')
            in (Inr result, record_event erepo (ids 0) did result order corr e)
          else
            (case deserialize_limits (dp_risk_limits d) of
               Inl ex \<Rightarrow> (Inl ex, e)
             | Inr limits \<Rightarrow>
                 run_checks erepo ids 0 did order corr (ordered_checks order positions account limits) e))"

definition enforce_order ::
  "'s deployment_repo \<Rightarrow> 'e risk_event_repo \<Rightarrow> event_ids \<Rightarrow> string \<Rightarrow> order_request \<Rightarrow> position_snapshot list \<Rightarrow>
     account_snapshot \<Rightarrow> string \<Rightarrow> 's \<Rightarrow> 'e \<Rightarrow> (exn, unit) result \<times> 'e" where
  "enforce_order repo erepo ids did order positions account corr s e =
     (case check_order repo erepo ids did order positions account corr s e of
        (Inl ex, e') \<Rightarrow> (Inl ex, e')
      | (Inr result, e') \<Rightarrow>
          if \<not> rc_passed result
          then (Inl (RiskGateRejectionError (rc_check_name result) (severity_value (rc_severity result))
                  (rc_reason result) did (rq_client_order_id order)
                  (rc_current_value result) (rc_limit_value result)), e')
          else (Inr (), e'))"

section \<open>What the gate admits\<close>

text \<open>The specification: an order is within the limits of a deployment; a limit of zero is no limit.\<close>

definition concentration ::
  "order_request \<Rightarrow> position_snapshot list \<Rightarrow> account_snapshot \<Rightarrow> decimal" where
  "concentration order positions account =
     dmul (dec (total_exposure order (estimate_market_price (rq_symbol order) positions)
                  (find_position (rq_symbol order) positions) / ac_equity account)) 100"

definition within_limits ::
  "order_request \<Rightarrow> position_snapshot list \<Rightarrow> account_snapshot \<Rightarrow> pre_trade_risk_limits \<Rightarrow> bool" where
  "within_limits order positions account limits \<longleftrightarrow>
     (pl_max_order_value limits = 0 \<or>
        dmul (rq_quantity order) (estimate_market_price (rq_symbol order) positions) \<le> pl_max_order_value limits) \<and>
     (pl_max_position_size limits = 0 \<or>
        dabs (dadd (case find_position (rq_symbol order) positions of Some p \<Rightarrow> ps_quantity p | None \<Rightarrow> 0)
          (if rq_side order = BUY then rq_quantity order else dneg (rq_quantity order)))
        \<le> pl_max_position_size limits) \<and>
     (pl_max_concentration_pct limits = 0 \<or> ac_equity account \<le> 0 \<or>
        concentration order positions account \<le> pl_max_concentration_pct limits) \<and>
     (pl_max_open_orders limits = 0 \<or> ac_pending_orders_count account + 1 \<le> pl_max_open_orders limits) \<and>
     (pl_max_daily_loss limits = 0 \<or> 0 \<le> ac_daily_pnl account \<or>
        dabs (ac_daily_pnl account) \<le> pl_max_daily_loss limits)"

text \<open>The concentration has a text with two decimals (it takes at most 28 digits).\<close>

definition reportable ::
  "order_request \<Rightarrow> position_snapshot list \<Rightarrow> account_snapshot \<Rightarrow> pre_trade_risk_limits \<Rightarrow> bool" where
  "reportable order positions account limits \<longleftrightarrow>
     pl_max_concentration_pct limits = 0 \<or> ac_equity account \<le> 0 \<or>
     \<bar>round_half_even (concentration order positions account * 100)\<bar> < 10 ^ 28"

lemma compared_passed [simp]: "rc_passed (compared name ok reason a b) = ok"
  by (simp add: compared_def check_pass_def)

lemma check_pass_passed [simp]: "rc_passed (check_pass name)"
  by (simp add: check_pass_def)

lemma no_limits_failure_passed [simp]: "\<not> rc_passed (no_limits_failure reason)"
  by (simp add: no_limits_failure_def)

definition passing :: "(exn, risk_check_result) result \<Rightarrow> bool" where
  "passing c = (case c of Inl _ \<Rightarrow> False | Inr r \<Rightarrow> rc_passed r)"

lemma run_checks_passing:
  "(\<exists>r. fst (run_checks erepo ids n did order corr cs e) = Inr r \<and> rc_passed r) \<longleftrightarrow> (\<forall>c\<in>set cs. passing c)"
  by (induction cs arbitrary: n e) (auto simp: passing_def Let_def split: sum.splits)

lemma passing_concentration:
  "passing (check_concentration order (estimate_market_price (rq_symbol order) positions)
     (find_position (rq_symbol order) positions) account limits) \<longleftrightarrow>
   (pl_max_concentration_pct limits = 0 \<or> ac_equity account \<le> 0 \<or>
    concentration order positions account \<le> pl_max_concentration_pct limits \<and>
    \<bar>round_half_even (concentration order positions account * 100)\<bar> < 10 ^ 28)"
  by (auto simp: passing_def check_concentration_def ddiv_def quantize_cent_def Let_def
      concentration_def [of order positions account] not_less not_le)

lemma ordered_checks_passing:
  "(\<forall>c\<in>set (ordered_checks order positions account limits). passing c) \<longleftrightarrow>
     within_limits order positions account limits \<and> reportable order positions account limits"
  unfolding ordered_checks_def Let_def within_limits_def reportable_def
  by (simp add: passing_concentration)
    (auto simp: passing_def check_order_value_def check_position_size_def check_open_orders_def
      check_daily_loss_def Let_def not_less)

lemma enforce_iff_check:
  "fst (enforce_order repo erepo ids did order positions account corr s e) = Inr () \<longleftrightarrow>
     (\<exists>r. fst (check_order repo erepo ids did order positions account corr s e) = Inr r \<and> rc_passed r)"
  by (auto simp: enforce_order_def split: prod.splits sum.splits)

lemma enforced_within_limits:
  assumes "fst (enforce_order repo erepo ids did order positions account corr s e) = Inr ()" "dr_get_by_id repo s did = Some d"
    "dp_risk_limits d \<noteq> empty_doc" "deserialize_limits (dp_risk_limits d) = Inr limits"
  shows "within_limits order positions account limits"
  using assms run_checks_passing [of erepo ids 0 did order corr "ordered_checks order positions account limits" e]
  by (simp add: enforce_iff_check check_order_def ordered_checks_passing)

text \<open>Data for the witnesses: an order, an account, and a repository with one limited deployment.\<close>

definition demo_order :: "decimal \<Rightarrow> order_request" where
  "demo_order q =
     \<lparr>rq_client_order_id = ''C1'', rq_symbol = ''EURUSD'', rq_side = BUY, rq_order_type = MARKET,
      rq_quantity = q, rq_limit_price = None, rq_stop_price = None, rq_time_in_force = DAY,
      rq_deployment_id = ''D1'', rq_strategy_id = ''S'', rq_correlation_id = ''X'',
      rq_execution_mode = LIVE, rq_metadata = []\<rparr>"

definition demo_account :: account_snapshot where
  "demo_account =
     \<lparr>ac_account_id = ''A'', ac_equity = 1000, ac_cash = 1000, ac_buying_power = 2000,
      ac_portfolio_value = 0, ac_daily_pnl = 0, ac_pending_orders_count = 0, ac_positions_count = 0,
      ac_updated_at = 0\<rparr>"

definition demo_limits :: pre_trade_risk_limits where
  "demo_limits =
     \<lparr>pl_max_position_size = 0, pl_max_daily_loss = 0, pl_max_order_value = 10,
      pl_max_concentration_pct = 0, pl_max_open_orders = 0\<rparr>"

definition demo_doc :: limits_doc where
  "demo_doc = empty_doc\<lparr>ld_max_order_value := Some (DecText 10)\<rparr>"

definition demo_deployment :: deployment where
  "demo_deployment = demo_active\<lparr>dp_risk_limits := demo_doc\<rparr>"

definition demo_limited :: mock_repo where
  "demo_limited = \<lparr>mr_store = [(''D1'', demo_deployment)], mr_transitions = []\<rparr>"

definition demo_event_ids :: event_ids where
  "demo_event_ids n = (''E'', int n)"

text \<open>
  C3. For a deployment with readable limits, the gate lets an order through exactly when the order is
  within the limits (and its concentration can be reported at all).
\<close>

theorem gate_admits_exactly_within_limits:
  assumes "dr_get_by_id repo s did = Some d" "dp_risk_limits d \<noteq> empty_doc"
    "deserialize_limits (dp_risk_limits d) = Inr limits"
  shows "fst (enforce_order repo erepo ids did order positions account corr s e) = Inr () \<longleftrightarrow>
    within_limits order positions account limits \<and> reportable order positions account limits"
  unfolding enforce_iff_check
  using assms run_checks_passing [of erepo ids 0 did order corr "ordered_checks order positions account limits" e]
  by (simp add: check_order_def ordered_checks_passing)

theorem gate_admits_exactly_within_limits_witness:
  "fst (enforce_order mock_deployment_repo mock_event_repo demo_event_ids ''D1'' (demo_order 5) [] demo_account ''X'' demo_limited [])
     = Inr () \<and>
   fst (enforce_order mock_deployment_repo mock_event_repo demo_event_ids ''D1'' (demo_order 50) [] demo_account ''X'' demo_limited [])
     \<noteq> Inr ()"
proof -
  have d: "dr_get_by_id mock_deployment_repo demo_limited ''D1'' = Some demo_deployment" "dp_risk_limits demo_deployment \<noteq> empty_doc"
    "deserialize_limits (dp_risk_limits demo_deployment) = Inr demo_limits"
    by (simp_all add: demo_limited_def mock_get_by_id_def demo_deployment_def demo_doc_def empty_doc_def deserialize_limits_def
        limit_decimal_def demo_limits_def)
  have "dec 5 = 5" "dec 50 = 50" using dec_of_int [of 5] dec_of_int [of 50] by simp_all
  then show ?thesis
    using gate_admits_exactly_within_limits [OF d, of mock_event_repo demo_event_ids "demo_order 5" "[]" demo_account]
      gate_admits_exactly_within_limits [OF d, of mock_event_repo demo_event_ids "demo_order 50" "[]" demo_account]
    by (simp add: within_limits_def reportable_def demo_limits_def demo_order_def estimate_market_price_def dmul_def)
qed

text \<open>
  C35. The gate fails closed: without a deployment, or for a live deployment without limits, every
  order is rejected with a critical \<open>no_limits_configured\<close> error that names the deployment and
  the order.
\<close>

theorem gate_fails_closed:
  assumes "dr_get_by_id repo s did = None \<or>
    (\<exists>d. dr_get_by_id repo s did = Some d \<and> dp_risk_limits d = empty_doc \<and> dp_execution_mode d = ''live'')"
  shows "\<exists>reason e'. enforce_order repo erepo ids did order positions account corr s e =
    (Inl (RiskGateRejectionError ''no_limits_configured'' ''critical'' (Some reason) did
       (rq_client_order_id order) None None), e')"
  using assms by (auto simp: enforce_order_def check_order_def Let_def no_limits_failure_def)

theorem gate_fails_closed_witness:
  "\<exists>reason e'. enforce_order mock_deployment_repo mock_event_repo demo_event_ids ''D2'' (demo_order 5) [] demo_account ''X'' demo_limited [] =
    (Inl (RiskGateRejectionError ''no_limits_configured'' ''critical'' (Some reason) ''D2'' ''C1'' None None), e')"
  using gate_fails_closed [of mock_deployment_repo demo_limited "''D2''" mock_event_repo demo_event_ids
      "demo_order 5" "[]" demo_account "''X''" "[]"]
  by (simp add: demo_limited_def mock_get_by_id_def demo_order_def)

text \<open>The events that document a decision.\<close>

definition audited :: "string \<Rightarrow> order_request \<Rightarrow> risk_check_result \<Rightarrow> risk_event list \<Rightarrow> bool" where
  "audited did order r evs \<longleftrightarrow>
     evs \<noteq> [] \<and>
     (\<forall>ev\<in>set evs. re_deployment_id ev = did \<and> re_order_client_id ev = Some (rq_client_order_id order) \<and>
        re_symbol ev = Some (rq_symbol order)) \<and>
     (\<forall>ev\<in>set (butlast evs). re_passed ev) \<and> re_passed (last evs) = rc_passed r \<and>
     (\<not> rc_passed r \<longrightarrow> re_check_name (last evs) = rc_check_name r \<and> re_reason (last evs) = rc_reason r \<and>
        re_severity (last evs) = rc_severity r \<and> re_current_value (last evs) = rc_current_value r \<and>
        re_limit_value (last evs) = rc_limit_value r)"

context risk_event_repository
begin

lemma record_event_audited:
  "\<exists>ev. events (record_event erepo i did r order corr e) = events e @ [ev] \<and> audited did order r [ev]"
  by (simp add: record_event_def events_save audited_def)

lemma run_checks_audited:
  "cs \<noteq> [] \<Longrightarrow> run_checks erepo ids n did order corr cs e = (Inr r, e') \<Longrightarrow>
     \<exists>evs. events e' = events e @ evs \<and> audited did order r evs"
proof (induction cs arbitrary: n e)
  case (Cons c cs)
  obtain result where c: "c = Inr result" using Cons.prems(2) by (cases c) auto
  let ?e = "record_event erepo (ids n) did result order corr e"
  obtain ev where ev: "events ?e = events e @ [ev]" "audited did order result [ev]"
    using record_event_audited by blast
  show ?case
  proof (cases "rc_passed result \<and> cs \<noteq> []")
    case True
    then have "run_checks erepo ids (Suc n) did order corr cs ?e = (Inr r, e')"
      using Cons.prems(2) c by (simp add: Let_def)
    then obtain evs where "events e' = events ?e @ evs" "audited did order r evs"
      using Cons.IH True by blast
    with ev True show ?thesis by (intro exI [of _ "ev # evs"]) (auto simp: audited_def)
  next
    case False
    then have "e' = ?e" "rc_passed r = rc_passed result" "\<not> rc_passed result \<Longrightarrow> r = result"
      using Cons.prems(2) c by (auto simp: Let_def split: if_splits)
    with ev show ?thesis by (intro exI [of _ "[ev]"]) (auto simp: audited_def)
  qed
qed simp

lemma check_order_audited:
  assumes "check_order repo erepo ids did order positions account corr s e = (Inr r, e')"
  shows "\<exists>evs. events e' = events e @ evs \<and> audited did order r evs"
proof -
  have "ordered_checks order positions account limits \<noteq> []" for limits
    by (simp add: ordered_checks_def Let_def)
  then show ?thesis
    using assms record_event_audited run_checks_audited
    by (simp add: check_order_def Let_def split: option.splits if_splits sum.splits) (metis | blast)+
qed

end

text \<open>
  Every decision is audited: when the gate decides, the events it has added all carry the
  deployment and the order, all but the last record passed checks, and the last one agrees with the
  decision; a rejection is the last event, with its reason and its values.
\<close>

theorem every_decision_audited:
  assumes "risk_event_repository erepo events"
    "check_order repo erepo ids did order positions account corr s e = (Inr r, e')"
  shows "\<exists>evs. events e' = events e @ evs \<and> audited did order r evs"
  using assms by (rule risk_event_repository.check_order_audited)

theorem every_decision_audited_witness:
  "\<exists>evs. snd (check_order mock_deployment_repo mock_event_repo demo_event_ids ''D2'' (demo_order 5) [] demo_account
      ''X'' demo_limited []) = evs \<and> audited ''D2'' (demo_order 5) (no_limits_failure (DeploymentMissing ''D2'')) evs"
proof -
  obtain e' where c: "check_order mock_deployment_repo mock_event_repo demo_event_ids ''D2'' (demo_order 5) []
      demo_account ''X'' demo_limited [] = (Inr (no_limits_failure (DeploymentMissing ''D2'')), e')"
    by (simp add: check_order_def demo_limited_def mock_get_by_id_def Let_def)
  from every_decision_audited [OF mock_events.risk_event_repository_axioms c] c show ?thesis by simp
qed

text \<open>
  Limits that are set can be read back, whatever they are, and clearing them makes a later read
  fail; in between, other deployments and the audit trails are untouched.
\<close>

theorem limits_round_trip:
  assumes "deployment_repository repo invar" "invar s" "dr_get_by_id repo s did = Some d"
    "0 \<le> pl_max_open_orders limits"
  shows "\<exists>s1 s2. set_risk_limits repo now did limits s = (Inr (), s1) \<and>
    get_risk_limits repo did s1 = Inr limits \<and>
    clear_risk_limits repo now' did s1 = (Inr (), s2) \<and> get_risk_limits repo did s2 = Inl NotFoundError \<and>
    (\<forall>k. k \<noteq> did \<longrightarrow> dr_get_by_id repo s2 k = dr_get_by_id repo s k) \<and>
    dr_list_transitions repo s2 = dr_list_transitions repo s"
proof -
  define doc where "doc = empty_doc
    \<lparr>ld_max_order_value := Some (DecText (pl_max_order_value limits)),
     ld_max_position_size := Some (DecText (pl_max_position_size limits)),
     ld_max_daily_loss := Some (DecText (pl_max_daily_loss limits)),
     ld_max_concentration_pct := Some (DecText (pl_max_concentration_pct limits)),
     ld_max_open_orders := Some (pl_max_open_orders limits)\<rparr>"
  have ne: "doc \<noteq> empty_doc" by (simp add: doc_def empty_doc_def)
  have reads: "deserialize_limits doc = Inr limits"
    using assms(4) by (simp add: doc_def deserialize_limits_def limit_decimal_def)
  obtain s1 where s1: "dr_update_risk_limits repo now did doc s = (Inr (d\<lparr>dp_risk_limits := doc, dp_updated_at := now\<rparr>), s1)"
      "invar s1" "dr_get_by_id repo s1 = (dr_get_by_id repo s)(did \<mapsto> d\<lparr>dp_risk_limits := doc, dp_updated_at := now\<rparr>)"
      "dr_list_transitions repo s1 = dr_list_transitions repo s"
    using deployment_repository.update_limits_found [OF assms(1-3)] by blast
  have g1: "dr_get_by_id repo s1 did = Some (d\<lparr>dp_risk_limits := doc, dp_updated_at := now\<rparr>)" by (simp add: s1)
  obtain d2 s2 where s2: "dr_update_risk_limits repo now' did empty_doc s1 = (Inr d2, s2)" "dp_risk_limits d2 = empty_doc"
      "dr_get_by_id repo s2 = (dr_get_by_id repo s1)(did \<mapsto> d2)" "dr_list_transitions repo s2 = dr_list_transitions repo s1"
    using deployment_repository.update_limits_found [OF assms(1) s1(2) g1, of now' empty_doc] by auto
  show ?thesis
    by (rule exI [of _ s1], rule exI [of _ s2])
      (simp add: set_risk_limits_def clear_risk_limits_def get_risk_limits_def s1 s2 ne reads Let_def flip: doc_def)
qed

theorem limits_round_trip_witness:
  "\<exists>s1 s2. set_risk_limits mock_deployment_repo 1 ''D1'' demo_limits demo_limited = (Inr (), s1) \<and>
     get_risk_limits mock_deployment_repo ''D1'' s1 = Inr demo_limits \<and>
     clear_risk_limits mock_deployment_repo 2 ''D1'' s1 = (Inr (), s2)"
proof -
  have "mock_inv demo_limited" by (simp add: mock_inv_def demo_limited_def dict_ok_def)
  moreover have "dr_get_by_id mock_deployment_repo demo_limited ''D1'' = Some demo_deployment"
    by (simp add: demo_limited_def mock_get_by_id_def)
  moreover have "0 \<le> pl_max_open_orders demo_limits" by (simp add: demo_limits_def)
  ultimately show ?thesis
    using limits_round_trip [OF mock.deployment_repository_axioms, of demo_limited "''D1''" demo_deployment demo_limits 1 2]
    by blast
qed

section \<open>Gaps\<close>

text \<open>
  A deployment takes its limits from the creation request, under keys that the gate does not
  read: the largest notional value per order and the order rate are never enforced. With the
  default limits (or any request whose position size and daily loss are zero) a new live
  deployment is not treated as one without limits; its every order is admitted.
\<close>

theorem creation_limits_not_enforced:
  assumes "deployment_repository repo invar" "invar s" "dr_get_by_id repo s did = None"
    "rl_max_position_size (dc_risk_limits request) = DecText 0"
    "rl_max_daily_loss (dc_risk_limits request) = DecText 0"
    "create_deployment repo did now request deployed_by s = (d, s')"
  shows "fst (enforce_order repo erepo ids did order positions account corr s' e) = Inr ()"
proof -
  have "dr_get_by_id repo s' did = Some (new_deployment did now (dc_strategy_id request) (dc_execution_mode request)
      (dc_emergency_posture request) (dump_risk_limits (dc_risk_limits request)) (dc_custom_posture_config request) deployed_by)"
    using deployment_repository.create_new [OF assms(1-3), of now "dc_strategy_id request" "dc_execution_mode request"
        "dc_emergency_posture request" "dump_risk_limits (dc_risk_limits request)" "dc_custom_posture_config request" deployed_by]
      assms(6) by (auto simp: create_deployment_def)
  moreover have "dump_risk_limits (dc_risk_limits request) \<noteq> empty_doc"
    by (simp add: dump_risk_limits_def empty_doc_def)
  moreover have "deserialize_limits (dump_risk_limits (dc_risk_limits request)) =
      Inr \<lparr>pl_max_position_size = 0, pl_max_daily_loss = 0, pl_max_order_value = 0,
           pl_max_concentration_pct = 0, pl_max_open_orders = 0\<rparr>"
    by (simp add: deserialize_limits_def dump_risk_limits_def empty_doc_def limit_decimal_def assms(4,5))
  ultimately show ?thesis
    unfolding enforce_iff_check
    using run_checks_passing [of erepo ids 0 did order corr]
    by (simp add: check_order_def new_deployment_def ordered_checks_passing within_limits_def reportable_def)
qed

theorem creation_limits_not_enforced_witness:
  "fst (enforce_order mock_deployment_repo mock_event_repo demo_event_ids ''D1'' (demo_order 1000000) [] demo_account ''X''
     (snd (create_deployment mock_deployment_repo ''D1'' 1
        (demo_create\<lparr>dc_risk_limits := default_risk_limits\<lparr>rl_max_notional_per_order := DecText 5\<rparr>\<rparr>) ''U1'' mock_init)) [])
     = Inr ()"
proof -
  let ?rq = "demo_create\<lparr>dc_risk_limits := default_risk_limits\<lparr>rl_max_notional_per_order := DecText 5\<rparr>\<rparr>"
  have none: "dr_get_by_id mock_deployment_repo mock_init ''D1'' = None" using mock_start(2) by simp
  have zero: "rl_max_position_size (dc_risk_limits ?rq) = DecText 0" "rl_max_daily_loss (dc_risk_limits ?rq) = DecText 0"
    by (simp_all add: default_risk_limits_def)
  show ?thesis
    by (rule creation_limits_not_enforced [OF mock.deployment_repository_axioms mock_start(1) none zero
          prod.collapse [symmetric]])
qed

text \<open>The value of an order in a symbol without an open position is computed with a price of one: any
  quantity up to the value limit passes the order value check, whatever the instrument costs.\<close>

lemma new_symbol_priced_at_one:
  assumes "\<forall>p\<in>set positions. ps_symbol p \<noteq> rq_symbol order" "dec_repr (rq_quantity order)"
    "rq_quantity order \<le> pl_max_order_value limits"
  shows "rc_passed (check_order_value order (estimate_market_price (rq_symbol order) positions) limits)"
proof -
  have "find (\<lambda>p. ps_symbol p = rq_symbol order) positions = None"
    using assms(1) by (simp add: find_None_iff)
  then have "dmul (rq_quantity order) (estimate_market_price (rq_symbol order) positions) = rq_quantity order"
    using assms(2) by (simp add: estimate_market_price_def dmul_def decimal.rnd_exact)
  with assms(3) show ?thesis by (simp add: check_order_value_def Let_def)
qed

text \<open>
  A sale is taken to reduce the exposure even when the position is short: doubling a short
  position counts as an exposure of zero and passes every concentration limit.
\<close>

theorem short_sale_counts_as_reduction:
  assumes "find_position (rq_symbol order) positions = Some p" "rq_side order = SELL"
    "ps_quantity p = - rq_quantity order" "0 < rq_quantity order" "dec_repr (rq_quantity order)"
    "0 < pl_max_concentration_pct limits"
  shows "\<exists>r. check_concentration order (estimate_market_price (rq_symbol order) positions)
     (find_position (rq_symbol order) positions) account limits = Inr r \<and> rc_passed r"
proof -
  have "total_exposure order price (Some p) = 0" for price
    using assms(2-5) by (simp add: total_exposure_def Let_def dabs_def dsub_def decimal.rnd_exact)
  then show ?thesis
    using assms(1,6) by (simp add: check_concentration_def ddiv_def dmul_def quantize_cent_def
        round_half_even_def Let_def)
qed

definition demo_short :: position_snapshot where
  "demo_short =
     \<lparr>ps_symbol = ''EURUSD'', ps_quantity = - 10, ps_average_entry_price = 100, ps_market_price = 100,
      ps_market_value = - 1000, ps_unrealized_pnl = 0, ps_realized_pnl = 0, ps_cost_basis = 1000,
      ps_updated_at = 0\<rparr>"

theorem short_sale_counts_as_reduction_witness:
  "\<exists>r. check_concentration ((demo_order 10)\<lparr>rq_side := SELL\<rparr>) 100 (Some demo_short) demo_account
      (demo_limits\<lparr>pl_max_concentration_pct := 1\<rparr>) = Inr r \<and> rc_passed r"
  using short_sale_counts_as_reduction [of "(demo_order 10)\<lparr>rq_side := SELL\<rparr>" "[demo_short]" demo_short
      "demo_limits\<lparr>pl_max_concentration_pct := 1\<rparr>" demo_account] dec_repr_of_int [of 10]
  by (simp add: demo_order_def demo_short_def find_position_def estimate_market_price_def)

end
