(* ===== verification/Kill_Switch_Repository.thy ===== *)
theory Kill_Switch_Repository
  imports Contracts
begin

text \<open>
  Kill switch events and their persistence: the scopes and triggers of \<open>libs/contracts/safety.py\<close>,
  the interface \<open>libs/contracts/interfaces/kill_switch_event_repository_interface.py\<close> as a record of
  operations, its documented contract as a locale, and the in-memory implementation
  \<open>libs/contracts/mocks/mock_kill_switch_event_repository.py\<close>, which provides it. Timestamps are
  stored as ISO texts of UTC times; they are modelled by the points in time, whose order is the order
  of those texts.
\<close>

section \<open>Data\<close>

datatype kill_switch_scope = GLOBAL | STRATEGY | SYMBOL

fun scope_value :: "kill_switch_scope \<Rightarrow> string" where
  "scope_value GLOBAL = ''global''"
| "scope_value STRATEGY = ''strategy''"
| "scope_value SYMBOL = ''symbol''"

text \<open>\<open>KillSwitchScope(text)\<close>: \<open>None\<close> stands for the \<open>ValueError\<close> of an unknown value.\<close>

definition parse_scope :: "string \<Rightarrow> kill_switch_scope option" where
  "parse_scope text = find (\<lambda>s. scope_value s = text) [GLOBAL, STRATEGY, SYMBOL]"

lemma scope_value_inject [simp]: "scope_value a = scope_value b \<longleftrightarrow> a = b"
  by (cases a; cases b) simp_all

lemma parse_scope_value [simp]: "parse_scope (scope_value s) = Some s"
  by (cases s) (simp_all add: parse_scope_def)

datatype halt_trigger = KILL_SWITCH | DAILY_LOSS | REGIME | DATA_STATE | MANUAL

record ks_event =
  ke_id :: string
  ke_scope :: string
  ke_target_id :: string
  ke_activated_by :: string
  ke_activated_at :: datetime
  ke_deactivated_at :: "datetime option"
  ke_reason :: string
  ke_mtth_ms :: "int option"
  ke_created_at :: datetime
  ke_updated_at :: datetime

text \<open>What an event switches off: its scope and its target.\<close>

abbreviation ke_key :: "ks_event \<Rightarrow> string \<times> string" where
  "ke_key e \<equiv> (ke_scope e, ke_target_id e)"

section \<open>The interface\<close>

record 'r ks_repo =
  kr_save :: "string \<Rightarrow> string \<Rightarrow> string \<Rightarrow> datetime \<Rightarrow> string \<Rightarrow> int option \<Rightarrow> 'r \<Rightarrow> ks_event \<times> 'r"
  kr_get_active :: "'r \<Rightarrow> string \<Rightarrow> string \<Rightarrow> ks_event option"
  kr_list_active :: "'r \<Rightarrow> ks_event list"
  kr_deactivate :: "string \<Rightarrow> datetime \<Rightarrow> int option \<Rightarrow> 'r \<Rightarrow> (exn, ks_event) result \<times> 'r"
  kr_list_by_scope :: "'r \<Rightarrow> string \<Rightarrow> int \<Rightarrow> ks_event list"

text \<open>The scopes and targets that are switched off; at most one event is active for each.\<close>

definition active_keys :: "'r ks_repo \<Rightarrow> 'r \<Rightarrow> (string \<times> string) set" where
  "active_keys repo r = ke_key ` set (kr_list_active repo r)"

definition one_active :: "'r ks_repo \<Rightarrow> 'r \<Rightarrow> bool" where
  "one_active repo r \<longleftrightarrow> inj_on ke_key (set (kr_list_active repo r))"

text \<open>The contract: \<open>get_active\<close> finds an event that \<open>list_active\<close> lists, if there is one; a saved event
  is active and new; deactivating an active event takes it, and no other, off the list; the list is
  ordered by activation time, the latest first.\<close>

locale kill_switch_event_repository =
  fixes repo :: "'r ks_repo" and invar :: "'r \<Rightarrow> bool"
  assumes get_active_some: "invar r \<Longrightarrow> kr_get_active repo r scope target = Some e \<Longrightarrow>
      e \<in> set (kr_list_active repo r) \<and> ke_key e = (scope, target)"
    and get_active_none: "invar r \<Longrightarrow> kr_get_active repo r scope target = None \<Longrightarrow>
      e \<in> set (kr_list_active repo r) \<Longrightarrow> ke_key e \<noteq> (scope, target)"
    and save_new: "invar r \<Longrightarrow> \<exists>e r'. kr_save repo scope target who now reason mtth r = (e, r') \<and> invar r' \<and>
      set (kr_list_active repo r') = insert e (set (kr_list_active repo r)) \<and>
      e \<notin> set (kr_list_active repo r) \<and> ke_key e = (scope, target) \<and> ke_activated_by e = who \<and>
      ke_activated_at e = now \<and> ke_reason e = reason \<and> ke_mtth_ms e = mtth \<and> ke_deactivated_at e = None"
    and deactivate_active: "invar r \<Longrightarrow> e \<in> set (kr_list_active repo r) \<Longrightarrow>
      \<exists>e' r'. kr_deactivate repo (ke_id e) now mtth r = (Inr e', r') \<and> invar r' \<and>
        ke_deactivated_at e' = Some now \<and>
        set (kr_list_active repo r') = set (kr_list_active repo r) - {e}"
    and list_active_sorted: "invar r \<Longrightarrow> sorted_wrt (\<lambda>a b. ke_activated_at b \<le> ke_activated_at a) (kr_list_active repo r)"
begin

lemma active_key_iff: "invar r \<Longrightarrow> (scope, target) \<in> active_keys repo r \<longleftrightarrow> kr_get_active repo r scope target \<noteq> None"
  using get_active_some [of r scope target] get_active_none [of r scope target]
  by (cases "kr_get_active repo r scope target") (auto simp: active_keys_def image_iff)

lemma save_inactive:
  assumes "invar r" "one_active repo r" "(scope, target) \<notin> active_keys repo r"
    "kr_save repo scope target who now reason mtth r = (e, r')"
  shows "invar r' \<and> one_active repo r' \<and> active_keys repo r' = insert (scope, target) (active_keys repo r)"
proof -
  from save_new [OF assms(1), of scope target who now reason mtth] assms(4)
  have s: "invar r'" "set (kr_list_active repo r') = insert e (set (kr_list_active repo r))"
    "ke_key e = (scope, target)" by auto
  with assms(2,3) show ?thesis by (auto simp: one_active_def active_keys_def)
qed

lemma deactivate_key:
  assumes "invar r" "one_active repo r" "kr_get_active repo r scope target = Some e"
  shows "\<exists>e' r'. kr_deactivate repo (ke_id e) now mtth r = (Inr e', r') \<and> invar r' \<and> one_active repo r' \<and>
    active_keys repo r' = active_keys repo r - {(scope, target)}"
proof -
  have inj: "inj_on ke_key (set (kr_list_active repo r))" using assms(2) by (simp add: one_active_def)
  from get_active_some [OF assms(1,3)] have e: "e \<in> set (kr_list_active repo r)" "ke_key e = (scope, target)" by auto
  from deactivate_active [OF assms(1) e(1), of now mtth] obtain e' r' where
    r': "kr_deactivate repo (ke_id e) now mtth r = (Inr e', r')" "invar r'"
      "set (kr_list_active repo r') = set (kr_list_active repo r) - {e}" by blast
  have "invar r' \<and> one_active repo r'" using inj by (auto simp: one_active_def r' intro: inj_on_subset)
  moreover have "active_keys repo r' = active_keys repo r - {(scope, target)}"
    using inj_on_image_set_diff [OF inj, of "set (kr_list_active repo r)" "{e}"] e by (simp add: active_keys_def r')
  ultimately show ?thesis using r' by blast
qed

end

section \<open>The in-memory repository\<close>

text \<open>Identifiers are numbered: \<open>f"mock-ks-{counter:06d}"\<close>.\<close>

fun digits :: "nat \<Rightarrow> string" where
  "digits n = (if n < 10 then [char_of (48 + n)] else digits (n div 10) @ [char_of (48 + n mod 10)])"

declare digits.simps [simp del]

definition pad6 :: "nat \<Rightarrow> string" where
  "pad6 n = replicate (6 - length (digits n)) (char_of (48 :: nat)) @ digits n"

definition mock_event_id :: "nat \<Rightarrow> string" where
  "mock_event_id n = ''mock-ks-'' @ pad6 n"

text \<open>Numbers can be read back from their digits, so the identifiers differ.\<close>

definition digits_value :: "string \<Rightarrow> nat" where
  "digits_value s = foldl (\<lambda>a c. 10 * a + (of_char c - 48)) 0 s"

lemma digits_value_digits: "digits_value (digits n) = n"
  by (induction n rule: digits.induct) (subst digits.simps, auto simp: digits_value_def of_char_of)

lemma digits_value_zeros: "digits_value (replicate k (char_of (48 :: nat)) @ s) = digits_value s"
  by (induction k) (simp_all add: digits_value_def of_char_of)

lemma mock_event_id_inject [simp]: "mock_event_id m = mock_event_id n \<longleftrightarrow> m = n"
proof
  assume "mock_event_id m = mock_event_id n"
  then have "digits_value (pad6 m) = digits_value (pad6 n)" by (simp add: mock_event_id_def)
  then show "m = n" by (simp add: pad6_def digits_value_zeros digits_value_digits)
qed simp

record mock_ks =
  mk_store :: "(string, ks_event) dict"
  mk_counter :: nat

definition mock_ks_init :: mock_ks where
  "mock_ks_init = \<lparr>mk_store = [], mk_counter = 0\<rparr>"

definition ks_save ::
  "string \<Rightarrow> string \<Rightarrow> string \<Rightarrow> datetime \<Rightarrow> string \<Rightarrow> int option \<Rightarrow> mock_ks \<Rightarrow> ks_event \<times> mock_ks" where
  "ks_save scope target who now reason mtth r =
     (let counter = mk_counter r + 1;
          event = \<lparr>ke_id = mock_event_id counter, ke_scope = scope, ke_target_id = target,
                   ke_activated_by = who, ke_activated_at = now, ke_deactivated_at = None,
                   ke_reason = reason, ke_mtth_ms = mtth, ke_created_at = now, ke_updated_at = now\<rparr>
      in (event, r\<lparr>mk_store := dict_set (mock_event_id counter) event (mk_store r), mk_counter := counter\<rparr>))"

definition ks_get_active :: "mock_ks \<Rightarrow> string \<Rightarrow> string \<Rightarrow> ks_event option" where
  "ks_get_active r scope target =
     find (\<lambda>e. ke_scope e = scope \<and> ke_target_id e = target \<and> ke_deactivated_at e = None)
       (dict_values (mk_store r))"

text \<open>Both listings are stable sorts by activation time in reverse.\<close>

definition ks_list_active :: "mock_ks \<Rightarrow> ks_event list" where
  "ks_list_active r =
     sort_key (\<lambda>e. - ke_activated_at e) (filter (\<lambda>e. ke_deactivated_at e = None) (dict_values (mk_store r)))"

definition ks_deactivate ::
  "string \<Rightarrow> datetime \<Rightarrow> int option \<Rightarrow> mock_ks \<Rightarrow> (exn, ks_event) result \<times> mock_ks" where
  "ks_deactivate eid now mtth r =
     (case dict_get (mk_store r) eid of
        None \<Rightarrow> (Inl NotFoundError, r)
      | Some e \<Rightarrow>
          let e' = e\<lparr>ke_deactivated_at := Some now,
                      ke_mtth_ms := (case mtth of None \<Rightarrow> ke_mtth_ms e | Some m \<Rightarrow> Some m)\<rparr>
          in (Inr e', r\<lparr>mk_store := dict_set eid e' (mk_store r)\<rparr>))"

text \<open>A slice \<open>[:limit]\<close> with a negative limit drops that many from the end.\<close>

definition ks_list_by_scope :: "mock_ks \<Rightarrow> string \<Rightarrow> int \<Rightarrow> ks_event list" where
  "ks_list_by_scope r scope limit =
     (let events = sort_key (\<lambda>e. - ke_activated_at e) (filter (\<lambda>e. ke_scope e = scope) (dict_values (mk_store r)))
      in if 0 \<le> limit then take (nat limit) events else take (length events - nat (- limit)) events)"

definition ks_clear :: "mock_ks \<Rightarrow> mock_ks" where
  "ks_clear r = mock_ks_init"

definition mock_ks_repo :: "mock_ks ks_repo" where
  "mock_ks_repo =
     \<lparr>kr_save = ks_save, kr_get_active = ks_get_active, kr_list_active = ks_list_active,
      kr_deactivate = ks_deactivate, kr_list_by_scope = ks_list_by_scope\<rparr>"

lemma mock_ks_repo_sel [simp]:
  "kr_save mock_ks_repo = ks_save"
  "kr_get_active mock_ks_repo = ks_get_active"
  "kr_list_active mock_ks_repo = ks_list_active"
  "kr_deactivate mock_ks_repo = ks_deactivate"
  "kr_list_by_scope mock_ks_repo = ks_list_by_scope"
  by (simp_all add: mock_ks_repo_def)

text \<open>Events are stored under their own identifiers, which were numbered up to the counter.\<close>

definition mock_ks_inv :: "mock_ks \<Rightarrow> bool" where
  "mock_ks_inv r \<longleftrightarrow> dict_ok (mk_store r) \<and>
     (\<forall>k e. dict_get (mk_store r) k = Some e \<longrightarrow> ke_id e = k \<and> (\<exists>n \<le> mk_counter r. k = mock_event_id n))"

lemma mock_ks_inv_init [simp]: "mock_ks_inv mock_ks_init"
  by (simp add: mock_ks_inv_def mock_ks_init_def)

lemma mock_ks_inv_ok: "mock_ks_inv r \<Longrightarrow> dict_ok (mk_store r)"
  by (simp add: mock_ks_inv_def)

lemma ks_list_active_mem:
  "mock_ks_inv r \<Longrightarrow> e \<in> set (ks_list_active r) \<longleftrightarrow>
     dict_get (mk_store r) (ke_id e) = Some e \<and> ke_deactivated_at e = None"
  by (auto simp: ks_list_active_def dict_values_get mock_ks_inv_def)

lemma mock_ks_fresh: "mock_ks_inv r \<Longrightarrow> dict_get (mk_store r) (mock_event_id (Suc (mk_counter r))) = None"
proof (rule ccontr)
  assume i: "mock_ks_inv r" and "dict_get (mk_store r) (mock_event_id (Suc (mk_counter r))) \<noteq> None"
  then obtain e where "dict_get (mk_store r) (mock_event_id (Suc (mk_counter r))) = Some e" by blast
  with i obtain n where "n \<le> mk_counter r" "mock_event_id (Suc (mk_counter r)) = mock_event_id n"
    unfolding mock_ks_inv_def by blast
  then show False by simp
qed

lemma mock_ks_inv_save:
  "mock_ks_inv r \<Longrightarrow> mock_ks_inv (snd (ks_save scope target who now reason mtth r))"
  by (auto simp: mock_ks_inv_def ks_save_def Let_def) (metis le_Suc_eq)

lemma mock_ks_inv_deactivate: "mock_ks_inv r \<Longrightarrow> mock_ks_inv (snd (ks_deactivate eid now mtth r))"
  by (auto simp: mock_ks_inv_def ks_deactivate_def Let_def split: option.splits)

interpretation mock_ks: kill_switch_event_repository mock_ks_repo mock_ks_inv
proof (unfold_locales, goal_cases)
  case (1 r scope target e)
  then have "e \<in> set (dict_values (mk_store r))" "ke_key e = (scope, target)" "ke_deactivated_at e = None"
    by (auto simp: ks_get_active_def find_Some_iff)
  then show ?case by (simp add: ks_list_active_def)
next
  case (2 r scope target e)
  then show ?case by (auto simp: ks_get_active_def find_None_iff ks_list_active_def)
next
  case (3 r scope target who now reason mtth)
  define e r' where "e = fst (ks_save scope target who now reason mtth r)"
    and "r' = snd (ks_save scope target who now reason mtth r)"
  have i: "mock_ks_inv r'" using mock_ks_inv_save [OF 3] by (simp add: r'_def)
  have st: "dict_get (mk_store r') = (dict_get (mk_store r))(ke_id e \<mapsto> e)" and none: "dict_get (mk_store r) (ke_id e) = None"
    using mock_ks_fresh [OF 3] by (auto simp: r'_def e_def ks_save_def Let_def fun_eq_iff)
  have e: "ke_key e = (scope, target)" "ke_activated_by e = who" "ke_activated_at e = now" "ke_reason e = reason"
      "ke_mtth_ms e = mtth" "ke_deactivated_at e = None"
    by (simp_all add: e_def ks_save_def Let_def)
  have "x \<in> set (ks_list_active r') \<longleftrightarrow> x = e \<or> x \<in> set (ks_list_active r)" for x
    using none by (auto simp: ks_list_active_mem [OF i] ks_list_active_mem [OF 3] st e split: if_splits)
  moreover have "e \<notin> set (ks_list_active r)" using none by (simp add: ks_list_active_mem [OF 3])
  ultimately show ?case using i e
    by (intro exI [of _ e] exI [of _ r']) (auto simp: e_def r'_def)
next
  case (4 r e now mtth)
  then have g: "dict_get (mk_store r) (ke_id e) = Some e" by (simp add: ks_list_active_mem)
  define e' r' where "e' = e\<lparr>ke_deactivated_at := Some now, ke_mtth_ms := (case mtth of None \<Rightarrow> ke_mtth_ms e | Some m \<Rightarrow> Some m)\<rparr>"
    and "r' = r\<lparr>mk_store := dict_set (ke_id e) e' (mk_store r)\<rparr>"
  have d: "ks_deactivate (ke_id e) now mtth r = (Inr e', r')"
    by (simp add: ks_deactivate_def g e'_def r'_def Let_def)
  have i: "mock_ks_inv r'" using mock_ks_inv_deactivate [OF 4(1), of "ke_id e" now mtth] d by simp
  have st: "dict_get (mk_store r') = (dict_get (mk_store r))(ke_id e \<mapsto> e')" and e': "ke_deactivated_at e' \<noteq> None"
    by (auto simp: r'_def e'_def fun_eq_iff)
  have "x \<in> set (ks_list_active r') \<longleftrightarrow> x \<in> set (ks_list_active r) \<and> x \<noteq> e" for x
    using g e' by (auto simp: ks_list_active_mem [OF i] ks_list_active_mem [OF 4(1)] st split: if_splits)
  then have "set (ks_list_active r') = set (ks_list_active r) - {e}" by blast
  with d i show ?case by (auto simp: e'_def)
next
  case (5 r)
  have "sorted (map (\<lambda>e. - ke_activated_at e) (ks_list_active r))" by (simp add: ks_list_active_def)
  then show ?case by (simp add: sorted_map)
qed

end
