(* ===== verification/Adapters.thy ===== *)
theory Adapters
  imports Contracts
begin

text \<open>
  The world outside the services: the host (clock, identifier generators, \<open>time.sleep\<close>) and the
  broker adapters, objects of the interface \<open>libs/contracts/interfaces/broker_adapter.py\<close> that a
  service is given. Their state is one type \<open>'w\<close>, so that a call or a pause can have any effect, also
  on other adapters; a call may raise and may answer differently every time. The registry of
  adapters is \<open>services/api/infrastructure/broker_registry.py\<close>.
\<close>

record 'w host =
  h_now :: "'w \<Rightarrow> datetime \<times> 'w"
  h_monotonic_ns :: "'w \<Rightarrow> int \<times> 'w"
  h_monotonic :: "'w \<Rightarrow> rat \<times> 'w"
  h_ulid :: "'w \<Rightarrow> string \<times> 'w"
  h_sleep :: "int \<Rightarrow> 'w \<Rightarrow> 'w"

record 'w adapter =
  a_connect :: "'w \<Rightarrow> (exn, unit) result \<times> 'w"
  a_disconnect :: "'w \<Rightarrow> (exn, unit) result \<times> 'w"
  a_submit_order :: "order_request \<Rightarrow> 'w \<Rightarrow> (exn, order_response) result \<times> 'w"
  a_cancel_order :: "string \<Rightarrow> 'w \<Rightarrow> (exn, order_response) result \<times> 'w"
  a_get_order :: "string \<Rightarrow> 'w \<Rightarrow> (exn, order_response) result \<times> 'w"
  a_list_open_orders :: "'w \<Rightarrow> (exn, order_response list) result \<times> 'w"
  a_get_fills :: "string \<Rightarrow> 'w \<Rightarrow> (exn, order_fill_event list) result \<times> 'w"
  a_get_positions :: "'w \<Rightarrow> (exn, position_snapshot list) result \<times> 'w"
  a_get_account :: "'w \<Rightarrow> (exn, account_snapshot) result \<times> 'w"
  a_is_paper_adapter :: bool

section \<open>The registry\<close>

type_synonym 'w registry = "(string, 'w adapter \<times> string) dict"

text \<open>The adapter is connected outside the lock, so another thread may register the deployment in
  between: \<open>between\<close> is what the registry has become when the connection stands.\<close>

definition reg_register ::
  "('w registry \<Rightarrow> 'w registry) \<Rightarrow> string \<Rightarrow> 'w adapter \<Rightarrow> string \<Rightarrow> 'w registry \<Rightarrow> 'w \<Rightarrow>
     (exn, unit) result \<times> 'w registry \<times> 'w" where
  "reg_register between did a broker_type reg w =
     (if dict_has reg did then (Inl (PyError ''ValueError''), reg, w)
      else
        (case a_connect a w of
           (Inl e, w1) \<Rightarrow> (Inl e, between reg, w1)
         | (Inr _, w1) \<Rightarrow>
             let reg1 = between reg
             in if dict_has reg1 did then (Inl (PyError ''ValueError''), reg1, snd (a_disconnect a w1))
                else (Inr (), dict_set did (a, broker_type) reg1, w1)))"

definition reg_deregister :: "string \<Rightarrow> 'w registry \<Rightarrow> 'w \<Rightarrow> (exn, unit) result \<times> 'w registry \<times> 'w" where
  "reg_deregister did reg w =
     (case dict_get reg did of
        None \<Rightarrow> (Inl NotFoundError, reg, w)
      | Some (a, broker_type) \<Rightarrow> (Inr (), dict_del did reg, snd (a_disconnect a w)))"

definition reg_get :: "'w registry \<Rightarrow> string \<Rightarrow> (exn, 'w adapter) result" where
  "reg_get reg did = (case dict_get reg did of None \<Rightarrow> Inl NotFoundError | Some (a, _) \<Rightarrow> Inr a)"

definition reg_get_broker_type :: "'w registry \<Rightarrow> string \<Rightarrow> (exn, string) result" where
  "reg_get_broker_type reg did = (case dict_get reg did of None \<Rightarrow> Inl NotFoundError | Some (_, t) \<Rightarrow> Inr t)"

definition reg_is_registered :: "'w registry \<Rightarrow> string \<Rightarrow> bool" where
  "reg_is_registered reg did = dict_has reg did"

definition reg_count :: "'w registry \<Rightarrow> int" where
  "reg_count reg = int (length reg)"

text \<open>Every adapter is disconnected, errors ignored; the registry is empty at once.\<close>

definition reg_deregister_all :: "'w registry \<Rightarrow> 'w \<Rightarrow> int \<times> 'w registry \<times> 'w" where
  "reg_deregister_all reg w =
     (int (length reg), [], foldl (\<lambda>w (did, a, t). snd (a_disconnect a w)) w reg)"

lemma reg_get_registered: "reg_get reg did = Inr a \<Longrightarrow> reg_is_registered reg did"
  by (auto simp: reg_get_def reg_is_registered_def split: option.splits)

lemma reg_registered_get: "reg_is_registered reg did \<Longrightarrow> \<exists>a. reg_get reg did = Inr a"
  by (auto simp: reg_get_def reg_is_registered_def split: option.splits)

end
