(* ===== verification/Kill_Switch.thy ===== *)
theory Kill_Switch
  imports Kill_Switch_Repository Deployment_Repository Adapters
begin

text \<open>
  The kill switch service, \<open>services/api/services/kill_switch_service.py\<close>. It acts on the world
  outside through the broker adapters of its registry and the host, and on the repositories that it
  is given. Log lines and metrics are left out.
\<close>

section \<open>Data\<close>

datatype emergency_posture = flatten_all | cancel_open | hold | custom

text \<open>\<open>EmergencyPostureType(text)\<close>: \<open>None\<close> stands for the \<open>ValueError\<close> of an unknown value.\<close>

definition parse_posture :: "string \<Rightarrow> emergency_posture option" where
  "parse_posture text =
     dict_get [(''flatten_all'', flatten_all), (''cancel_open'', cancel_open), (''hold'', hold), (''custom'', custom)] text"

record halt_event =
  he_event_id :: string
  he_scope :: kill_switch_scope
  he_target_id :: string
  he_trigger :: halt_trigger
  he_reason :: string
  he_activated_by :: string
  he_activated_at :: datetime
  he_confirmed_at :: "datetime option"
  he_mtth_ms :: "int option"
  he_orders_cancelled :: int
  he_positions_flattened :: int

record kill_switch_status =
  ss_scope :: kill_switch_scope
  ss_target_id :: string
  ss_is_active :: bool
  ss_activated_at :: "datetime option"
  ss_deactivated_at :: "datetime option"
  ss_activated_by :: "string option"
  ss_reason :: "string option"

record failed_position =
  fp_symbol :: string
  fp_quantity :: decimal
  fp_market_value :: decimal

record posture_verification =
  pv_verified :: bool
  pv_positions_closed :: int
  pv_positions_failed :: "failed_position list"
  pv_residual_exposure_usd :: decimal
  pv_timeout_s :: int
  pv_duration_ms :: int

record posture_decision =
  pd_decision_id :: string
  pd_deployment_id :: string
  pd_posture :: emergency_posture
  pd_trigger :: halt_trigger
  pd_reason :: string
  pd_orders_cancelled :: int
  pd_positions_flattened :: int
  pd_executed_at :: datetime
  pd_duration_ms :: int
  pd_verification :: "posture_verification option"

record cancellation_result =
  cr_cancelled_count :: int
  cr_failed_count :: int
  cr_failed_order_ids :: "string list"

record flatten_result =
  fr_flattened_count :: int
  fr_failed_count :: int
  fr_failed_symbols :: "string list"

section \<open>Cancelling open orders\<close>

text \<open>Up to three attempts: a \<open>TransientError\<close> is retried after 1 and 2 seconds (the third delay is
  never used), any other exception ends the loop.\<close>

definition max_retries :: nat where "max_retries = 3"

definition backoff_delays :: "int list" where "backoff_delays = [1, 2, 4]"

fun cancel_attempts :: "'w host \<Rightarrow> 'w adapter \<Rightarrow> string \<Rightarrow> nat list \<Rightarrow> 'w \<Rightarrow> bool \<times> 'w" where
  "cancel_attempts h a bid [] w = (False, w)"
| "cancel_attempts h a bid (attempt # attempts) w =
     (case a_cancel_order a bid w of
        (Inr _, w1) \<Rightarrow> (True, w1)
      | (Inl e, w1) \<Rightarrow>
          if is_transient e then
            cancel_attempts h a bid attempts
              (if attempt < max_retries - 1 then h_sleep h (backoff_delays ! attempt) w1 else w1)
          else (False, w1))"

text \<open>One order: the cancellation counts when the order is terminal afterwards.\<close>

definition cancel_one :: "'w host \<Rightarrow> 'w adapter \<Rightarrow> string \<Rightarrow> 'w \<Rightarrow> bool \<times> 'w" where
  "cancel_one h a bid w =
     (case cancel_attempts h a bid [0..<max_retries] w of
        (False, w1) \<Rightarrow> (False, w1)
      | (True, w1) \<Rightarrow>
          (case a_get_order a bid w1 of
             (Inl _, w2) \<Rightarrow> (False, w2)
           | (Inr verified_order, w2) \<Rightarrow>
               (os_status verified_order \<in> set [CANCELLED, FILLED, REJECTED, EXPIRED], w2)))"

fun cancel_orders ::
  "'w host \<Rightarrow> 'w adapter \<Rightarrow> order_response list \<Rightarrow> int \<Rightarrow> string list \<Rightarrow> 'w \<Rightarrow> (int \<times> string list) \<times> 'w" where
  "cancel_orders h a [] count failed_ids w = ((count, failed_ids), w)"
| "cancel_orders h a (order # orders) count failed_ids w =
     (case os_broker_order_id order of
        None \<Rightarrow> cancel_orders h a orders count failed_ids w
      | Some bid \<Rightarrow>
          (case cancel_one h a bid w of
             (True, w1) \<Rightarrow> cancel_orders h a orders (count + 1) failed_ids w1
           | (False, w1) \<Rightarrow> cancel_orders h a orders count (failed_ids @ [bid]) w1))"

definition cancel_open_orders ::
  "'w host \<Rightarrow> 'w adapter \<Rightarrow> 'w \<Rightarrow> (exn, cancellation_result) result \<times> 'w" where
  "cancel_open_orders h a w =
     (case a_list_open_orders a w of
        (Inl e, w1) \<Rightarrow> (Inl e, w1)
      | (Inr open_orders, w1) \<Rightarrow>
          (case cancel_orders h a open_orders 0 [] w1 of
             ((count, failed_ids), w2) \<Rightarrow>
               (Inr \<lparr>cr_cancelled_count = count, cr_failed_count = int (length failed_ids),
                     cr_failed_order_ids = failed_ids\<rparr>, w2)))"

section \<open>Flattening positions\<close>

definition close_request :: "position_snapshot \<Rightarrow> string \<Rightarrow> string \<Rightarrow> order_request" where
  "close_request pos ulid1 ulid2 =
     \<lparr>rq_client_order_id = ''flatten-'' @ ps_symbol pos @ ''-'' @ ulid1, rq_symbol = ps_symbol pos,
      rq_side = (if 0 < ps_quantity pos then SELL else BUY), rq_order_type = MARKET,
      rq_quantity = dabs (ps_quantity pos), rq_limit_price = None, rq_stop_price = None,
      rq_time_in_force = IOC, rq_deployment_id = ''system'', rq_strategy_id = ''system'',
      rq_correlation_id = ''flatten-'' @ ulid2, rq_execution_mode = PAPER, rq_metadata = []\<rparr>"

text \<open>Step 1: one close order per open position. A request that its schema refuses, and a submission
  that raises, make the symbol a failed one.\<close>

definition submit_close ::
  "'w host \<Rightarrow> 'w adapter \<Rightarrow> position_snapshot \<Rightarrow> 'w \<Rightarrow> bool \<times> 'w" where
  "submit_close h a pos w =
     (case h_ulid h w of (u1, w1) \<Rightarrow> case h_ulid h w1 of (u2, w2) \<Rightarrow>
        let rq = close_request pos u1 u2
        in if order_request_valid rq
           then (case a_submit_order a rq w2 of (Inl _, w3) \<Rightarrow> (False, w3) | (Inr _, w3) \<Rightarrow> (True, w3))
           else (False, w2))"

fun submit_closes ::
  "'w host \<Rightarrow> 'w adapter \<Rightarrow> position_snapshot list \<Rightarrow> (string, decimal) dict \<Rightarrow> string list \<Rightarrow> 'w \<Rightarrow>
     ((string, decimal) dict \<times> string list) \<times> 'w" where
  "submit_closes h a [] submitted failed_syms w = ((submitted, failed_syms), w)"
| "submit_closes h a (pos # ps) submitted failed_syms w =
     (if ps_quantity pos = 0 then submit_closes h a ps submitted failed_syms w
      else (case submit_close h a pos w of
              (True, w1) \<Rightarrow> submit_closes h a ps (dict_set (ps_symbol pos) (ps_quantity pos) submitted) failed_syms w1
            | (False, w1) \<Rightarrow> submit_closes h a ps submitted (failed_syms @ [ps_symbol pos]) w1))"

text \<open>Step 2: poll once a second while symbols are left. The dictionary comprehension keeps the last
  position of a symbol.\<close>

definition current_symbols :: "position_snapshot list \<Rightarrow> (string, decimal) dict" where
  "current_symbols ps = foldl (\<lambda>d p. dict_set (ps_symbol p) (ps_quantity p) d) [] ps"

definition closed_symbols :: "position_snapshot list \<Rightarrow> (string, decimal) dict \<Rightarrow> string list" where
  "closed_symbols ps submitted =
     filter (\<lambda>s. case dict_get (current_symbols ps) s of None \<Rightarrow> True | Some q \<Rightarrow> q = 0) (map fst submitted)"

fun poll_closed ::
  "'w host \<Rightarrow> 'w adapter \<Rightarrow> nat \<Rightarrow> (string, decimal) dict \<Rightarrow> int \<Rightarrow> 'w \<Rightarrow> ((string, decimal) dict \<times> int) \<times> 'w" where
  "poll_closed h a 0 submitted count w = ((submitted, count), w)"
| "poll_closed h a (Suc polls) submitted count w =
     (if submitted = [] then ((submitted, count), w)
      else (case a_get_positions a (h_sleep h 1 w) of
              (Inl _, w1) \<Rightarrow> poll_closed h a polls submitted count w1
            | (Inr ps, w1) \<Rightarrow>
                let closed = closed_symbols ps submitted
                in poll_closed h a polls (foldl (\<lambda>d s. dict_del s d) submitted closed)
                     (count + int (length closed)) w1))"

definition max_polls :: nat where "max_polls = 10"

definition flatten_positions ::
  "'w host \<Rightarrow> 'w adapter \<Rightarrow> 'w \<Rightarrow> (exn, flatten_result) result \<times> 'w" where
  "flatten_positions h a w =
     (case a_get_positions a w of
        (Inl e, w1) \<Rightarrow> (Inl e, w1)
      | (Inr positions, w1) \<Rightarrow>
          (case submit_closes h a positions [] [] w1 of
             ((submitted, failed_syms), w2) \<Rightarrow>
               (case poll_closed h a max_polls submitted 0 w2 of
                  ((left_over, count), w3) \<Rightarrow>
                    let failed_syms' = failed_syms @ map fst left_over
                    in (Inr \<lparr>fr_flattened_count = count, fr_failed_count = int (length failed_syms'),
                             fr_failed_symbols = failed_syms'\<rparr>, w3))))"

section \<open>Verification of a posture\<close>

fun poll_flat :: "'w host \<Rightarrow> 'w adapter \<Rightarrow> nat \<Rightarrow> 'w \<Rightarrow> bool \<times> 'w" where
  "poll_flat h a 0 w = (False, w)"
| "poll_flat h a (Suc polls) w =
     (case a_get_positions a w of
        (Inl _, w1) \<Rightarrow> poll_flat h a polls (h_sleep h 1 w1)
      | (Inr ps, w1) \<Rightarrow>
          if filter (\<lambda>p. ps_quantity p \<noteq> 0) ps = [] then (True, w1)
          else poll_flat h a polls (h_sleep h 1 w1))"

fun poll_no_orders :: "'w host \<Rightarrow> 'w adapter \<Rightarrow> nat \<Rightarrow> 'w \<Rightarrow> bool \<times> 'w" where
  "poll_no_orders h a 0 w = (False, w)"
| "poll_no_orders h a (Suc polls) w =
     (case a_list_open_orders a w of
        (Inl _, w1) \<Rightarrow> poll_no_orders h a polls (h_sleep h 1 w1)
      | (Inr open_orders, w1) \<Rightarrow>
          if open_orders = [] then (True, w1) else poll_no_orders h a polls (h_sleep h 1 w1))"

text \<open>The final look at the positions: the flat ones are counted, the others listed with their
  market value. When it raises, nothing is listed.\<close>

definition failed_position_of :: "position_snapshot \<Rightarrow> failed_position" where
  "failed_position_of p =
     \<lparr>fp_symbol = ps_symbol p, fp_quantity = ps_quantity p, fp_market_value = ps_market_value p\<rparr>"

definition final_positions ::
  "'w adapter \<Rightarrow> 'w \<Rightarrow> (int \<times> failed_position list \<times> decimal) \<times> 'w" where
  "final_positions a w =
     (case a_get_positions a w of
        (Inl _, w1) \<Rightarrow> ((0, [], 0), w1)
      | (Inr ps, w1) \<Rightarrow>
          ((int (length (filter (\<lambda>p. ps_quantity p = 0) ps)),
            map failed_position_of (filter (\<lambda>p. ps_quantity p \<noteq> 0) ps),
            foldl (\<lambda>r p. dadd r (dabs (ps_market_value p))) 0 (filter (\<lambda>p. ps_quantity p \<noteq> 0) ps)), w1))"

text \<open>Elapsed milliseconds between two readings of the monotonic clock.\<close>

definition elapsed_ms :: "int \<Rightarrow> int \<Rightarrow> int" where
  "elapsed_ms start_ns end_ns = (end_ns - start_ns) div 1000000"

text \<open>The schema of the result requires an exposure and a duration that are not negative and a
  timeout of at least one second.\<close>

definition verify_posture_execution ::
  "'w host \<Rightarrow> int \<Rightarrow> 'w adapter \<Rightarrow> bool \<Rightarrow> 'w \<Rightarrow> (exn, posture_verification) result \<times> 'w" where
  "verify_posture_execution h timeout_s a verify_positions w =
     (case h_monotonic_ns h w of (start_ns, w1) \<Rightarrow>
      case (if verify_positions then
              (case poll_flat h a (nat timeout_s) w1 of (all_flat, w2) \<Rightarrow>
               case final_positions a w2 of ((n, open_positions, residual), w3) \<Rightarrow>
                 ((all_flat \<and> length open_positions = 0, n, open_positions, residual), w3))
            else
              (case poll_no_orders h a (nat timeout_s) w1 of (all_cancelled, w2) \<Rightarrow>
                 ((all_cancelled, 0, [], 0), w2))) of ((verified, n, open_positions, residual), w4) \<Rightarrow>
      case h_monotonic_ns h w4 of (end_ns, w5) \<Rightarrow>
        (if residual < 0 \<or> timeout_s < 1 \<or> elapsed_ms start_ns end_ns < 0
         then Inl (PyError ''pydantic.ValidationError'')
         else Inr \<lparr>pv_verified = verified, pv_positions_closed = n, pv_positions_failed = open_positions,
                   pv_residual_exposure_usd = residual, pv_timeout_s = timeout_s,
                   pv_duration_ms = elapsed_ms start_ns end_ns\<rparr>, w5))"

section \<open>Emergency posture\<close>

text \<open>The registry, the deployment repository and the verification timeout: what the constructor
  stores.\<close>

record ('w, 'd) kill_switch_service =
  ks_adapter_registry :: "(string, 'w adapter) dict"
  ks_deployment_repo :: "'d deployment_repo"
  ks_verification_timeout_s :: int

text \<open>The posture's actions: orders cancelled, positions flattened, and the verification.\<close>

definition run_posture ::
  "'w host \<Rightarrow> int \<Rightarrow> 'w adapter \<Rightarrow> emergency_posture \<Rightarrow> 'w \<Rightarrow>
     (exn, int \<times> int \<times> posture_verification option) result \<times> 'w" where
  "run_posture h timeout_s a posture w =
     (case posture of
        flatten_all \<Rightarrow>
          (case cancel_open_orders h a w of
             (Inl e, w1) \<Rightarrow> (Inl e, w1)
           | (Inr c, w1) \<Rightarrow>
               (case flatten_positions h a w1 of
                  (Inl e, w2) \<Rightarrow> (Inl e, w2)
                | (Inr f, w2) \<Rightarrow>
                    (case verify_posture_execution h timeout_s a True w2 of
                       (Inl e, w3) \<Rightarrow> (Inl e, w3)
                     | (Inr v, w3) \<Rightarrow> (Inr (cr_cancelled_count c, fr_flattened_count f, Some v), w3))))
      | cancel_open \<Rightarrow>
          (case cancel_open_orders h a w of
             (Inl e, w1) \<Rightarrow> (Inl e, w1)
           | (Inr c, w1) \<Rightarrow>
               (case verify_posture_execution h timeout_s a False w1 of
                  (Inl e, w2) \<Rightarrow> (Inl e, w2)
                | (Inr v, w2) \<Rightarrow> (Inr (cr_cancelled_count c, 0, Some v), w2)))
      | _ \<Rightarrow> (Inr (0, 0, None), w))"

definition execute_emergency_posture ::
  "'w host \<Rightarrow> ('w, 'd) kill_switch_service \<Rightarrow> string \<Rightarrow> halt_trigger \<Rightarrow> string \<Rightarrow> 'd \<Rightarrow> 'w \<Rightarrow>
     (exn, posture_decision) result \<times> 'w" where
  "execute_emergency_posture h ks did trigger reason d w =
     (case dr_get_by_id (ks_deployment_repo ks) d did of
        None \<Rightarrow> (Inl NotFoundError, w)
      | Some deployment \<Rightarrow>
          (case dict_get (ks_adapter_registry ks) did of
             None \<Rightarrow> (Inl NotFoundError, w)
           | Some a \<Rightarrow>
               (case parse_posture (dp_emergency_posture deployment) of
                  None \<Rightarrow> (Inl (PyError ''ValueError''), w)
                | Some posture \<Rightarrow>
                    (case h_monotonic_ns h w of (start_ns, w1) \<Rightarrow>
                     case run_posture h (ks_verification_timeout_s ks) a posture w1 of
                       (Inl e, w2) \<Rightarrow> (Inl e, w2)
                     | (Inr (cancelled, flattened, verification), w2) \<Rightarrow>
                         (case h_monotonic_ns h w2 of (end_ns, w3) \<Rightarrow>
                          case h_ulid h w3 of (u, w4) \<Rightarrow>
                          case h_now h w4 of (now, w5) \<Rightarrow>
                            (if elapsed_ms start_ns end_ns < 0 then Inl (PyError ''pydantic.ValidationError'')
                             else Inr \<lparr>pd_decision_id = u, pd_deployment_id = did, pd_posture = posture,
                                pd_trigger = trigger, pd_reason = reason, pd_orders_cancelled = cancelled,
                                pd_positions_flattened = flattened, pd_executed_at = now,
                                pd_duration_ms = elapsed_ms start_ns end_ns, pd_verification = verification\<rparr>,
                             w5))))))"

section \<open>Activation and deactivation\<close>

definition scope_affects_adapter ::
  "('w, 'd) kill_switch_service \<Rightarrow> 'd \<Rightarrow> kill_switch_scope \<Rightarrow> string \<Rightarrow> string \<Rightarrow> bool" where
  "scope_affects_adapter ks d scope target did =
     (if scope = GLOBAL then True
      else case (if scope = STRATEGY then dr_get_by_id (ks_deployment_repo ks) d did else None) of
             Some deployment \<Rightarrow> dp_strategy_id deployment = target
           | None \<Rightarrow> scope = SYMBOL)"

text \<open>An escalation's reason, and the loop over the adapters. The exceptions of an escalation are
  caught; an exception from listing the open orders is not.\<close>

definition escalation_reason :: "int \<Rightarrow> string" where
  "escalation_reason n =
     ''Escalation from failed kill switch order cancellation: '' @ digits (nat n) @ '' orders failed''"

fun halt_adapters ::
  "'w host \<Rightarrow> ('w, 'd) kill_switch_service \<Rightarrow> kill_switch_scope \<Rightarrow> string \<Rightarrow> (string, 'w adapter) dict \<Rightarrow>
     int \<Rightarrow> 'd \<Rightarrow> 'w \<Rightarrow> (exn, int) result \<times> 'w" where
  "halt_adapters h ks scope target [] cancelled_total d w = (Inr cancelled_total, w)"
| "halt_adapters h ks scope target ((did, a) # adapters) cancelled_total d w =
     (if scope_affects_adapter ks d scope target did then
        (case cancel_open_orders h a w of
           (Inl e, w1) \<Rightarrow> (Inl e, w1)
         | (Inr c, w1) \<Rightarrow>
             halt_adapters h ks scope target adapters (cancelled_total + cr_cancelled_count c) d
               (if 0 < cr_failed_count c
                then snd (execute_emergency_posture h ks did KILL_SWITCH (escalation_reason (cr_failed_count c)) d w1)
                else w1))
      else halt_adapters h ks scope target adapters cancelled_total d w)"

definition activate_kill_switch ::
  "'w host \<Rightarrow> 'r ks_repo \<Rightarrow> ('w, 'd) kill_switch_service \<Rightarrow> kill_switch_scope \<Rightarrow> string \<Rightarrow> string \<Rightarrow> string \<Rightarrow>
     halt_trigger \<Rightarrow> 'd \<Rightarrow> 'r \<Rightarrow> 'w \<Rightarrow> (exn, halt_event) result \<times> 'r \<times> 'w" where
  "activate_kill_switch h repo ks scope target reason who trigger d r w =
     (case kr_get_active repo r (scope_value scope) target of
        Some _ \<Rightarrow> (Inl (StateTransitionError (Some ''active'') (Some ''active'')), r, w)
      | None \<Rightarrow>
          (case h_now h w of (activated_at, w1) \<Rightarrow>
           case h_monotonic_ns h w1 of (start_ns, w2) \<Rightarrow>
           case halt_adapters h ks scope target (ks_adapter_registry ks) 0 d w2 of
             (Inl e, w3) \<Rightarrow> (Inl e, r, w3)
           | (Inr cancelled_total, w3) \<Rightarrow>
               (case h_monotonic_ns h w3 of (end_ns, w4) \<Rightarrow>
                case h_now h w4 of (confirmed_at, w5) \<Rightarrow>
                case kr_save repo (scope_value scope) target who activated_at reason
                       (Some (elapsed_ms start_ns end_ns)) r of (_, r') \<Rightarrow>
                case h_ulid h w5 of (u, w6) \<Rightarrow>
                  (Inr \<lparr>he_event_id = u, he_scope = scope, he_target_id = target, he_trigger = trigger,
                        he_reason = reason, he_activated_by = who, he_activated_at = activated_at,
                        he_confirmed_at = Some confirmed_at,
                        he_mtth_ms = Some (elapsed_ms start_ns end_ns), he_orders_cancelled = cancelled_total,
                        he_positions_flattened = 0\<rparr>, r', w6))))"

definition deactivate_kill_switch ::
  "'w host \<Rightarrow> 'r ks_repo \<Rightarrow> kill_switch_scope \<Rightarrow> string \<Rightarrow> string \<Rightarrow> 'r \<Rightarrow> 'w \<Rightarrow>
     (exn, halt_event) result \<times> 'r \<times> 'w" where
  "deactivate_kill_switch h repo scope target who r w =
     (case kr_get_active repo r (scope_value scope) target of
        None \<Rightarrow> (Inl NotFoundError, r, w)
      | Some active_event \<Rightarrow>
          (case h_now h w of (deactivated_at, w1) \<Rightarrow>
           case kr_deactivate repo (ke_id active_event) deactivated_at None r of
             (Inl e, r') \<Rightarrow> (Inl e, r', w1)
           | (Inr _, r') \<Rightarrow>
               (case h_ulid h w1 of (u, w2) \<Rightarrow>
                case h_now h w2 of (now, w3) \<Rightarrow>
                  (Inr \<lparr>he_event_id = u, he_scope = scope, he_target_id = target, he_trigger = KILL_SWITCH,
                        he_reason = ''Deactivated by '' @ who, he_activated_by = who, he_activated_at = now,
                        he_confirmed_at = Some deactivated_at, he_mtth_ms = None, he_orders_cancelled = 0,
                        he_positions_flattened = 0\<rparr>, r', w3))))"

definition is_halted :: "'r ks_repo \<Rightarrow> 'r \<Rightarrow> string \<Rightarrow> string option \<Rightarrow> string option \<Rightarrow> bool" where
  "is_halted repo r deployment_id strategy_id symbol =
     (if kr_get_active repo r ''global'' ''global'' \<noteq> None then True
      else if (case strategy_id of None \<Rightarrow> False | Some s \<Rightarrow> kr_get_active repo r ''strategy'' s \<noteq> None) then True
      else (case symbol of None \<Rightarrow> False | Some s \<Rightarrow> kr_get_active repo r ''symbol'' s \<noteq> None))"

fun get_status_list :: "ks_event list \<Rightarrow> (exn, kill_switch_status list) result" where
  "get_status_list [] = Inr []"
| "get_status_list (e # es) =
     (case parse_scope (ke_scope e) of
        None \<Rightarrow> Inl (PyError ''ValueError'')
      | Some scope \<Rightarrow>
          bind_r (get_status_list es) (\<lambda>rest.
            Inr (\<lparr>ss_scope = scope, ss_target_id = ke_target_id e, ss_is_active = True,
                  ss_activated_at = Some (ke_activated_at e), ss_deactivated_at = None,
                  ss_activated_by = Some (ke_activated_by e), ss_reason = Some (ke_reason e)\<rparr> # rest)))"

definition get_status :: "'r ks_repo \<Rightarrow> 'r \<Rightarrow> (exn, kill_switch_status list) result" where
  "get_status repo r = get_status_list (kr_list_active repo r)"

section \<open>Verification of a halt\<close>

record halt_order =
  ho_deployment_id :: string
  ho_broker_order_id :: "string option"
  ho_symbol :: string
  ho_status :: order_status
  ho_quantity :: decimal

record halt_position =
  hp_deployment_id :: string
  hp_symbol :: string
  hp_quantity :: decimal
  hp_market_value :: decimal

record halt_report =
  hr_verified :: bool
  hr_open_orders_remaining :: "halt_order list"
  hr_open_positions_remaining :: "halt_position list"
  hr_residual_exposure :: "(string, decimal) dict"

definition halt_order_of :: "string \<Rightarrow> order_response \<Rightarrow> halt_order" where
  "halt_order_of did r =
     \<lparr>ho_deployment_id = did, ho_broker_order_id = os_broker_order_id r, ho_symbol = os_symbol r,
      ho_status = os_status r, ho_quantity = os_quantity r\<rparr>"

definition halt_position_of :: "string \<Rightarrow> position_snapshot \<Rightarrow> halt_position" where
  "halt_position_of did p =
     \<lparr>hp_deployment_id = did, hp_symbol = ps_symbol p, hp_quantity = ps_quantity p,
      hp_market_value = ps_market_value p\<rparr>"

definition add_exposure :: "position_snapshot \<Rightarrow> (string, decimal) dict \<Rightarrow> (string, decimal) dict" where
  "add_exposure p d =
     dict_set (ps_symbol p)
       (dadd (case dict_get d (ps_symbol p) of None \<Rightarrow> 0 | Some v \<Rightarrow> v) (dabs (ps_market_value p))) d"

text \<open>One adapter: its orders stay in the report even when the query for its positions raises.\<close>

definition inspect_adapter :: "string \<Rightarrow> 'w adapter \<Rightarrow> halt_report \<Rightarrow> 'w \<Rightarrow> halt_report \<times> 'w" where
  "inspect_adapter did a rep w =
     (case a_list_open_orders a w of
        (Inl _, w1) \<Rightarrow> (rep, w1)
      | (Inr orders, w1) \<Rightarrow>
          let rep1 = rep\<lparr>hr_open_orders_remaining := hr_open_orders_remaining rep @ map (halt_order_of did) orders\<rparr>
          in (case a_get_positions a w1 of
                (Inl _, w2) \<Rightarrow> (rep1, w2)
              | (Inr ps, w2) \<Rightarrow>
                  let open_ps = filter (\<lambda>p. ps_quantity p \<noteq> 0) ps
                  in (rep1\<lparr>hr_open_positions_remaining :=
                             hr_open_positions_remaining rep1 @ map (halt_position_of did) open_ps,
                           hr_residual_exposure := fold add_exposure open_ps (hr_residual_exposure rep1)\<rparr>, w2)))"

fun inspect_adapters ::
  "('w, 'd) kill_switch_service \<Rightarrow> kill_switch_scope \<Rightarrow> string \<Rightarrow> (string, 'w adapter) dict \<Rightarrow> halt_report \<Rightarrow>
     'd \<Rightarrow> 'w \<Rightarrow> halt_report \<times> 'w" where
  "inspect_adapters ks scope target [] rep d w = (rep, w)"
| "inspect_adapters ks scope target ((did, a) # adapters) rep d w =
     (if scope_affects_adapter ks d scope target did
      then (case inspect_adapter did a rep w of (rep', w1) \<Rightarrow> inspect_adapters ks scope target adapters rep' d w1)
      else inspect_adapters ks scope target adapters rep d w)"

definition empty_report :: halt_report where
  "empty_report =
     \<lparr>hr_verified = False, hr_open_orders_remaining = [], hr_open_positions_remaining = [],
      hr_residual_exposure = []\<rparr>"

definition verify_halt ::
  "('w, 'd) kill_switch_service \<Rightarrow> kill_switch_scope \<Rightarrow> string \<Rightarrow> 'd \<Rightarrow> 'w \<Rightarrow> halt_report \<times> 'w" where
  "verify_halt ks scope target d w =
     (case inspect_adapters ks scope target (ks_adapter_registry ks) empty_report d w of (rep, w1) \<Rightarrow>
        (rep\<lparr>hr_verified := (length (hr_open_orders_remaining rep) = 0 \<and>
                             length (hr_open_positions_remaining rep) = 0)\<rparr>, w1))"

section \<open>Accounting\<close>

text \<open>Whatever the adapter does, every listed order with an identifier is counted once, as cancelled or
  as failed.\<close>

lemma cancel_orders_account:
  "cancel_orders h a orders count ids w = ((count', ids'), w') \<Longrightarrow>
   count' + int (length ids') = count + int (length ids) + int (length (filter (\<lambda>r. os_broker_order_id r \<noteq> None) orders))"
proof (induction orders arbitrary: count ids w)
  case (Cons order orders)
  show ?case
  proof (cases "os_broker_order_id order")
    case None
    with Cons show ?thesis by simp
  next
    case (Some bid)
    obtain b w1 where "cancel_one h a bid w = (b, w1)" by fastforce
    with Cons Some show ?thesis by (cases b) fastforce+
  qed
qed simp

lemma dict_del_all:
  "dict_ok d \<Longrightarrow> set ks \<subseteq> set (map fst d) \<Longrightarrow> distinct ks \<Longrightarrow>
   dict_ok (foldl (\<lambda>d s. dict_del s d) d ks) \<and>
   length (foldl (\<lambda>d s. dict_del s d) d ks) + length ks = length d \<and>
   set (map fst (foldl (\<lambda>d s. dict_del s d) d ks)) = set (map fst d) - set ks"
proof (induction ks arbitrary: d)
  case (Cons k ks)
  have keys: "set (map fst (dict_del k d)) = set (map fst d) - {k}" by (simp add: delete_keys)
  have ok: "dict_ok (dict_del k d)" using Cons.prems(1) by simp
  have "length (dict_del k d) = card (set (map fst (dict_del k d)))" "length d = card (set (map fst d))"
    using ok Cons.prems(1) by (metis dict_ok_def distinct_card length_map)+
  with keys Cons.prems(2) have len: "length (dict_del k d) + 1 = length d" by (simp add: card_Diff_singleton)
      (metis card_gt_0_iff empty_iff finite_imageI finite_set Suc_pred)
  have "set ks \<subseteq> set (map fst (dict_del k d))" using keys Cons.prems by auto
  from Cons.IH [OF ok this] keys Cons.prems len show ?case by auto
qed simp

lemma closed_symbols_sub: "set (closed_symbols ps d) \<subseteq> set (map fst d)"
  by (auto simp: closed_symbols_def)

lemma closed_symbols_distinct: "dict_ok d \<Longrightarrow> distinct (closed_symbols ps d)"
  by (simp add: closed_symbols_def dict_ok_def)

lemma poll_closed_account:
  "dict_ok submitted \<Longrightarrow> poll_closed h a polls submitted count w = ((left_over, count'), w') \<Longrightarrow>
   count' + int (length left_over) = count + int (length submitted) \<and> set (map fst left_over) \<subseteq> set (map fst submitted)"
proof (induction polls arbitrary: submitted count w)
  case (Suc polls)
  obtain res w1 where p: "a_get_positions a (h_sleep h 1 w) = (res, w1)" by fastforce
  show ?case
  proof (cases res)
    case (Inr ps)
    note del = dict_del_all [OF Suc.prems(1) closed_symbols_sub [of ps] closed_symbols_distinct [OF Suc.prems(1), of ps]]
    show ?thesis
    proof (cases "submitted = []")
      case False
      then have "poll_closed h a polls (foldl (\<lambda>d s. dict_del s d) submitted (closed_symbols ps submitted))
          (count + int (length (closed_symbols ps submitted))) w1 = ((left_over, count'), w')"
        using Suc.prems(2) p Inr by (simp add: Let_def)
      from Suc.IH [OF conjunct1 [OF del] this] del show ?thesis by auto
    qed (use Suc.prems in simp)
  qed (use Suc p in \<open>auto split: if_splits\<close>)
qed simp

lemma submit_closes_account:
  "distinct (map ps_symbol ps) \<Longrightarrow> dict_ok submitted \<Longrightarrow> set (map ps_symbol ps) \<inter> set (map fst submitted) = {} \<Longrightarrow>
   submit_closes h a ps submitted failed_syms w = ((submitted', failed_syms'), w') \<Longrightarrow>
   dict_ok submitted' \<and>
   length submitted' + length failed_syms' =
     length submitted + length failed_syms + length (filter (\<lambda>p. ps_quantity p \<noteq> 0) ps)"
proof (induction ps arbitrary: submitted failed_syms w)
  case (Cons pos ps)
  obtain b w1 where c: "submit_close h a pos w = (b, w1)" by fastforce
  have new: "dict_set (ps_symbol pos) v submitted = submitted @ [(ps_symbol pos, v)]" for v
    using Cons.prems(3) by (intro dict_set_new) (auto simp: map_of_eq_None_iff)
  have ok: "dict_ok (submitted @ [(ps_symbol pos, v)])" for v
    using Cons.prems(2,3) by (auto simp: dict_ok_def)
  show ?case
  proof (cases "ps_quantity pos = 0 \<or> \<not> b")
    case True
    with Cons c show ?thesis by (auto split: if_splits)
  next
    case False
    with Cons.IH [OF _ ok, of "ps_quantity pos" failed_syms w1] Cons.prems c show ?thesis by (auto simp: new)
  qed
qed simp

lemma flatten_account:
  assumes "a_get_positions a w = (Inr ps, w1)" "distinct (map ps_symbol ps)"
    "flatten_positions h a w = (Inr f, w')"
  shows "fr_flattened_count f + fr_failed_count f = int (length (filter (\<lambda>p. ps_quantity p \<noteq> 0) ps))"
proof -
  obtain s fs w2 where c: "submit_closes h a ps [] [] w1 = ((s, fs), w2)" by (metis prod.exhaust)
  obtain l n w3 where q: "poll_closed h a max_polls s 0 w2 = ((l, n), w3)" by (metis prod.exhaust)
  have s: "dict_ok s" "length s + length fs = length (filter (\<lambda>p. ps_quantity p \<noteq> 0) ps)"
    using submit_closes_account [OF assms(2) _ _ c] by auto
  from poll_closed_account [OF s(1) q] s(2) assms(1,3) c q show ?thesis
    by (auto simp: flatten_positions_def Let_def)
qed

section \<open>Histories of requests\<close>

datatype ks_request =
    Activate kill_switch_scope string string string halt_trigger
  | Deactivate kill_switch_scope string string

fun request_key :: "ks_request \<Rightarrow> string \<times> string" where
  "request_key (Activate scope target _ _ _) = (scope_value scope, target)"
| "request_key (Deactivate scope target _) = (scope_value scope, target)"

fun is_activation :: "ks_request \<Rightarrow> bool" where
  "is_activation (Activate _ _ _ _ _) = True"
| "is_activation (Deactivate _ _ _) = False"

fun serve ::
  "'w host \<Rightarrow> 'r ks_repo \<Rightarrow> ('w, 'd) kill_switch_service \<Rightarrow> ks_request \<Rightarrow> 'd \<Rightarrow> 'r \<Rightarrow> 'w \<Rightarrow>
     (exn, halt_event) result \<times> 'r \<times> 'w" where
  "serve h repo ks (Activate scope target reason who trigger) d r w =
     activate_kill_switch h repo ks scope target reason who trigger d r w"
| "serve h repo ks (Deactivate scope target who) d r w = deactivate_kill_switch h repo scope target who r w"

text \<open>The accepted requests of a history, in their order; each request sees the deployments of its time.\<close>

fun serve_all ::
  "'w host \<Rightarrow> 'r ks_repo \<Rightarrow> ('w, 'd) kill_switch_service \<Rightarrow> (ks_request \<times> 'd) list \<Rightarrow> 'r \<Rightarrow> 'w \<Rightarrow>
     ks_request list \<times> 'r \<times> 'w" where
  "serve_all h repo ks [] r w = ([], r, w)"
| "serve_all h repo ks ((q, d) # qs) r w =
     (case serve h repo ks q d r w of (res, r1, w1) \<Rightarrow>
      case serve_all h repo ks qs r1 w1 of (accepted, r2, w2) \<Rightarrow>
        ((case res of Inl _ \<Rightarrow> [] | Inr _ \<Rightarrow> [q]) @ accepted, r2, w2))"

text \<open>A switch is in force when the last accepted request about it was an activation.\<close>

definition in_force :: "ks_request list \<Rightarrow> string \<times> string \<Rightarrow> bool" where
  "in_force accepted k =
     (case find (\<lambda>q. request_key q = k) (rev accepted) of None \<Rightarrow> False | Some q \<Rightarrow> is_activation q)"

lemma in_force_Nil [simp]: "\<not> in_force [] k"
  by (simp add: in_force_def)

lemma in_force_snoc [simp]: "in_force (qs @ [q]) k = (if request_key q = k then is_activation q else in_force qs k)"
  by (simp add: in_force_def)

lemma in_force_step:
  "{k. in_force (qs @ [q]) k} =
     (if is_activation q then insert (request_key q) {k. in_force qs k} else {k. in_force qs k} - {request_key q})"
  by auto

context kill_switch_event_repository
begin

lemma activate_effect:
  assumes "invar r" "one_active repo r" "activate_kill_switch h repo ks scope target reason who trigger d r w = (res, r', w')"
  shows "(\<exists>e. res = Inl e \<and> r' = r) \<or>
    (\<exists>ev. res = Inr ev \<and> (scope_value scope, target) \<notin> active_keys repo r \<and> invar r' \<and> one_active repo r' \<and>
       active_keys repo r' = insert (scope_value scope, target) (active_keys repo r))"
proof (cases "kr_get_active repo r (scope_value scope) target")
  case None
  then have k: "(scope_value scope, target) \<notin> active_keys repo r" by (simp add: active_key_iff assms(1))
  show ?thesis
    using assms(3) None save_inactive [OF assms(1,2) k] k
    by (auto simp: activate_kill_switch_def split: prod.splits sum.splits)
qed (use assms(3) in \<open>auto simp: activate_kill_switch_def\<close>)

lemma deactivate_effect:
  assumes "invar r" "one_active repo r" "deactivate_kill_switch h repo scope target who r w = (res, r', w')"
  shows "(\<exists>e. res = Inl e \<and> r' = r) \<or>
    (\<exists>ev. res = Inr ev \<and> invar r' \<and> one_active repo r' \<and> active_keys repo r' = active_keys repo r - {(scope_value scope, target)})"
proof (cases "kr_get_active repo r (scope_value scope) target")
  case (Some e)
  obtain now w1 where n: "h_now h w = (now, w1)" by fastforce
  obtain e' r1 where k: "kr_deactivate repo (ke_id e) now None r = (Inr e', r1)" "invar r1" "one_active repo r1"
      "active_keys repo r1 = active_keys repo r - {(scope_value scope, target)}"
    using deactivate_key [OF assms(1,2) Some, of now None] by blast
  have "\<exists>ev. res = Inr ev" "r' = r1"
    using assms(3) Some n k(1) by (auto simp: deactivate_kill_switch_def split: prod.splits)
  with k show ?thesis by blast
qed (use assms(3) in \<open>auto simp: deactivate_kill_switch_def\<close>)

lemma serve_effect:
  assumes "invar r" "one_active repo r" "serve h repo ks q d r w = (res, r', w')" "active_keys repo r = {k. in_force qs k}"
  shows "invar r' \<and> one_active repo r' \<and>
    active_keys repo r' = {k. in_force (qs @ (case res of Inl _ \<Rightarrow> [] | Inr _ \<Rightarrow> [q])) k}"
proof (cases q)
  case (Activate scope target reason who trigger)
  then have "activate_kill_switch h repo ks scope target reason who trigger d r w = (res, r', w')" using assms(3) by simp
  from activate_effect [OF assms(1,2) this] show ?thesis
    by (elim disjE exE conjE) (simp_all add: Activate assms in_force_step del: in_force_snoc)
next
  case (Deactivate scope target who)
  then have "deactivate_kill_switch h repo scope target who r w = (res, r', w')" using assms(3) by simp
  from deactivate_effect [OF assms(1,2) this] show ?thesis
    by (elim disjE exE conjE) (simp_all add: Deactivate assms in_force_step del: in_force_snoc)
qed

lemma serve_all_effect:
  "invar r \<Longrightarrow> one_active repo r \<Longrightarrow> active_keys repo r = {k. in_force qs k} \<Longrightarrow>
   serve_all h repo ks reqs r w = (accepted, r', w') \<Longrightarrow>
   invar r' \<and> active_keys repo r' = {k. in_force (qs @ accepted) k}"
proof (induction reqs arbitrary: r w qs accepted)
  case (Cons x reqs)
  obtain q d where x: "x = (q, d)" by fastforce
  obtain res r1 w1 where s: "serve h repo ks q d r w = (res, r1, w1)" by (metis prod.exhaust)
  obtain acc r2 w2 where t: "serve_all h repo ks reqs r1 w1 = (acc, r2, w2)" by (metis prod.exhaust)
  let ?q = "case res of Inl _ \<Rightarrow> [] | Inr _ \<Rightarrow> [q]"
  have "invar r1 \<and> one_active repo r1 \<and> active_keys repo r1 = {k. in_force (qs @ ?q) k}"
    using serve_effect [OF Cons.prems(1,2) s Cons.prems(3)] .
  with Cons.IH [of r1 "qs @ ?q" w1 acc] Cons.prems(4) x s t show ?case by auto
qed simp

lemma halted_iff:
  assumes "invar r"
  shows "is_halted repo r did strategy symbol \<longleftrightarrow> (''global'', ''global'') \<in> active_keys repo r \<or>
    (\<exists>s. strategy = Some s \<and> (''strategy'', s) \<in> active_keys repo r) \<or>
    (\<exists>s. symbol = Some s \<and> (''symbol'', s) \<in> active_keys repo r)"
  by (auto simp: is_halted_def active_key_iff [OF assms] split: option.splits)

end

section \<open>Properties\<close>

lemma served_keys:
  assumes "kill_switch_event_repository repo invar" "invar r0" "kr_list_active repo r0 = []"
    "serve_all h repo ks requests r0 w0 = (accepted, r, w)"
  shows "invar r \<and> active_keys repo r = {k. in_force accepted k}"
proof -
  have "active_keys repo r0 = {k. in_force [] k}" "one_active repo r0"
    using assms(3) by (simp_all add: active_keys_def one_active_def)
  from kill_switch_event_repository.serve_all_effect [OF assms(1,2) this(2,1) assms(4)] show ?thesis by simp
qed


definition demo_host :: "int host" where
  "demo_host = \<lparr>h_now = (\<lambda>w. (w, w)), h_monotonic_ns = (\<lambda>w. (w, w + 1000000)), h_monotonic = (\<lambda>w. (of_int w, w)),
     h_ulid = (\<lambda>w. (''U'', w)), h_sleep = (\<lambda>n w. w + n)\<rparr>"

definition demo_unreachable :: "int adapter" where
  "demo_unreachable = \<lparr>a_connect = (\<lambda>w. (Inl TransientError, w)), a_disconnect = (\<lambda>w. (Inr (), w)),
     a_submit_order = (\<lambda>rq w. (Inl TransientError, w)), a_cancel_order = (\<lambda>bid w. (Inl TransientError, w)),
     a_get_order = (\<lambda>bid w. (Inl TransientError, w)), a_list_open_orders = (\<lambda>w. (Inl TransientError, w)),
     a_get_fills = (\<lambda>bid w. (Inl TransientError, w)), a_get_positions = (\<lambda>w. (Inl TransientError, w)),
     a_get_account = (\<lambda>w. (Inl TransientError, w)), a_is_paper_adapter = False\<rparr>"

definition demo_service :: "(string, int adapter) dict \<Rightarrow> (int, mock_repo) kill_switch_service" where
  "demo_service registry = \<lparr>ks_adapter_registry = registry, ks_deployment_repo = mock_deployment_repo,
     ks_verification_timeout_s = 30\<rparr>"

definition demo_requests :: "(ks_request \<times> mock_repo) list" where
  "demo_requests =
     [(Activate GLOBAL ''global'' ''test'' ''ops'' MANUAL, mock_init),
      (Activate STRATEGY ''S1'' ''loss'' ''risk'' DAILY_LOSS, mock_init),
      (Deactivate GLOBAL ''global'' ''ops'', mock_init)]"

lemma demo_ks_run:
  "fst (serve_all demo_host mock_ks_repo (demo_service []) demo_requests mock_ks_init 5) = map fst demo_requests"
  by (simp add: demo_requests_def activate_kill_switch_def deactivate_kill_switch_def demo_host_def demo_service_def
      ks_get_active_def ks_save_def ks_deactivate_def mock_ks_init_def dict_values_def Let_def)


text \<open>
  An activation whose first look at an affected adapter fails is lost: when listing the open orders
  of an affected adapter raises, the activation raises, and nothing is recorded, so that trading is
  not halted.
\<close>

theorem unreachable_adapter_prevents_halt:
  assumes "kr_get_active repo r (scope_value scope) target = None"
    "(did, a) \<in> set (ks_adapter_registry ks)" "scope_affects_adapter ks d scope target did"
    "\<And>w. \<exists>e w'. a_list_open_orders a w = (Inl e, w')"
  shows "\<exists>e w'. activate_kill_switch h repo ks scope target reason who trigger d r w = (Inl e, r, w')"
proof -
  have "\<exists>e w'. halt_adapters h ks scope target adapters n d w1 = (Inl e, w')"
    if "(did, a) \<in> set adapters" for adapters n w1
    using that
  proof (induction adapters arbitrary: n w1)
    case (Cons x adapters)
    obtain did' a' where x: "x = (did', a')" by fastforce
    obtain e w2 where "a_list_open_orders a w1 = (Inl e, w2)" using assms(4) by blast
    then have "cancel_open_orders h a w1 = (Inl e, w2)" by (simp add: cancel_open_orders_def)
    with Cons x assms(3) show ?case by (cases "(did', a') = (did, a)") (auto split: prod.splits sum.splits)
  qed simp
  note halts = this [OF assms(2)]
  obtain t w1 where t: "h_now h w = (t, w1)" by fastforce
  obtain ns w2 where ns: "h_monotonic_ns h w1 = (ns, w2)" by fastforce
  obtain e w' where "halt_adapters h ks scope target (ks_adapter_registry ks) 0 d w2 = (Inl e, w')" using halts by blast
  with assms(1) t ns show ?thesis by (simp add: activate_kill_switch_def)
qed

theorem unreachable_adapter_prevents_halt_witness:
  "\<exists>e r' w'. activate_kill_switch demo_host mock_ks_repo (demo_service [(''D1'', demo_unreachable)]) GLOBAL ''global''
      ''test'' ''ops'' MANUAL mock_init mock_ks_init 5 = (Inl e, r', w') \<and> \<not> is_halted mock_ks_repo r' ''D1'' None None"
proof -
  have none: "kr_get_active mock_ks_repo mock_ks_init (scope_value GLOBAL) ''global'' = None"
    by (simp add: ks_get_active_def mock_ks_init_def dict_values_def)
  have "\<exists>e w'. activate_kill_switch demo_host mock_ks_repo (demo_service [(''D1'', demo_unreachable)]) GLOBAL ''global''
      ''test'' ''ops'' MANUAL mock_init mock_ks_init 5 = (Inl e, mock_ks_init, w')"
    by (rule unreachable_adapter_prevents_halt [OF none, of "''D1''" demo_unreachable])
      (simp_all add: demo_service_def scope_affects_adapter_def demo_unreachable_def)
  with none show ?thesis by (auto simp: is_halted_def)
qed

text \<open>A halt is reported as verified when no affected adapter could be asked.\<close>

lemma unreachable_adapters_verified:
  assumes "\<And>did a w. (did, a) \<in> set (ks_adapter_registry ks) \<Longrightarrow> \<exists>e w'. a_list_open_orders a w = (Inl e, w')"
  shows "hr_verified (fst (verify_halt ks scope target d w))"
proof -
  have "fst (inspect_adapters ks scope target adapters rep d w) = rep"
    if "set adapters \<subseteq> set (ks_adapter_registry ks)" for adapters rep w
    using that
  proof (induction adapters arbitrary: w)
    case (Cons x adapters)
    obtain did a where x: "x = (did, a)" by fastforce
    then obtain e w1 where "a_list_open_orders a w = (Inl e, w1)" using assms [of did a w] Cons.prems by auto
    then show ?case using Cons by (simp add: x inspect_adapter_def)
  qed simp
  from this [of "ks_adapter_registry ks" empty_report w] show ?thesis
    by (auto simp: verify_halt_def empty_report_def split: prod.splits)
qed

text \<open>
  Flattening accounts for every open position, whatever the adapter does: each is either counted
  as flattened or listed as failed, exactly once, and the procedure ends after at most ten polls.
\<close>

theorem flatten_accounts_for_positions:
  assumes "a_get_positions a w = (Inr positions, w1)" "distinct (map ps_symbol positions)"
  shows "\<exists>f w'. flatten_positions h a w = (Inr f, w') \<and>
    fr_flattened_count f + fr_failed_count f = int (length (filter (\<lambda>p. ps_quantity p \<noteq> 0) positions)) \<and>
    fr_failed_count f = int (length (fr_failed_symbols f))"
proof -
  obtain s fs w2 where c: "submit_closes h a positions [] [] w1 = ((s, fs), w2)" by (metis prod.exhaust)
  obtain l n w3 where q: "poll_closed h a max_polls s 0 w2 = ((l, n), w3)" by (metis prod.exhaust)
  obtain f w' where run: "flatten_positions h a w = (Inr f, w')" "fr_failed_count f = int (length (fr_failed_symbols f))"
    using assms(1) c q by (simp add: flatten_positions_def Let_def)
  with flatten_account [OF assms run(1)] show ?thesis by blast
qed

definition demo_position :: position_snapshot where
  "demo_position = \<lparr>ps_symbol = ''AAPL'', ps_quantity = 10, ps_average_entry_price = 100, ps_market_price = 100,
     ps_market_value = 1000, ps_unrealized_pnl = 0, ps_realized_pnl = 0, ps_cost_basis = 1000, ps_updated_at = 0\<rparr>"

definition demo_stuck :: "int adapter" where
  "demo_stuck = demo_unreachable\<lparr>a_get_positions := (\<lambda>w. (Inr [demo_position], w))\<rparr>"

theorem flatten_accounts_for_positions_witness:
  "\<exists>f w'. flatten_positions demo_host demo_stuck 5 = (Inr f, w') \<and> fr_flattened_count f + fr_failed_count f = 1"
  using flatten_accounts_for_positions [of demo_stuck 5 "[demo_position]" 5 demo_host]
  by (auto simp: demo_stuck_def demo_position_def)

end
