(* ===== verification/Kill_Switch_Venues.thy ===== *)
theory Kill_Switch_Venues
  imports Kill_Switch Paper_Broker
begin

text \<open>
  What the kill switch service achieves on the brokers' side: the contract of the adapters that it
  relies on, as locales, the effect of its procedures under that contract, and the paper brokers of
  the program as a provider.
\<close>

section \<open>The contract of the adapters\<close>

text \<open>
  \<open>view did w bid\<close> is the order \<open>bid\<close> on the venue behind the adapter of deployment \<open>did\<close>. The contract
  is what a broker promises even when its calls fail: orders do not disappear, a terminal order never
  changes, an answer to a query is the order, and the list of open orders is complete. A call may raise
  at any time, and orders may be filled or arrive at any time.
\<close>

definition orders_kept :: "(string \<Rightarrow> 'w \<Rightarrow> string \<Rightarrow> order_response option) \<Rightarrow> 'w \<Rightarrow> 'w \<Rightarrow> bool" where
  "orders_kept view w w' \<longleftrightarrow>
     (\<forall>did bid r. view did w bid = Some r \<longrightarrow>
        (\<exists>r'. view did w' bid = Some r' \<and> (os_status r \<in> set terminal_statuses \<longrightarrow> r' = r)))"

definition order_done :: "(string \<Rightarrow> 'w \<Rightarrow> string \<Rightarrow> order_response option) \<Rightarrow> string \<Rightarrow> 'w \<Rightarrow> string \<Rightarrow> bool" where
  "order_done view did w bid \<longleftrightarrow> (\<exists>r. view did w bid = Some r \<and> os_status r \<in> set terminal_statuses)"

definition order_exists :: "(string \<Rightarrow> 'w \<Rightarrow> string \<Rightarrow> order_response option) \<Rightarrow> string \<Rightarrow> 'w \<Rightarrow> string \<Rightarrow> bool" where
  "order_exists view did w bid \<longleftrightarrow> view did w bid \<noteq> None"

lemma orders_kept_refl [simp]: "orders_kept view w w"
  by (simp add: orders_kept_def)

lemma orders_kept_trans: "orders_kept view w w1 \<Longrightarrow> orders_kept view w1 w2 \<Longrightarrow> orders_kept view w w2"
  unfolding orders_kept_def by blast

lemma order_done_kept: "orders_kept view w w' \<Longrightarrow> order_done view did w bid \<Longrightarrow> order_done view did w' bid"
  unfolding orders_kept_def order_done_def by blast

lemma order_exists_kept: "orders_kept view w w' \<Longrightarrow> order_exists view did w bid \<Longrightarrow> order_exists view did w' bid"
  unfolding orders_kept_def order_exists_def by blast

locale order_venues =
  fixes h :: "'w host" and registry :: "(string, 'w adapter) dict"
    and view :: "string \<Rightarrow> 'w \<Rightarrow> string \<Rightarrow> order_response option" and ok :: "'w \<Rightarrow> bool"
  assumes now_keeps: "ok w \<Longrightarrow> ok (snd (h_now h w)) \<and> orders_kept view w (snd (h_now h w))"
    and monotonic_keeps: "ok w \<Longrightarrow> ok (snd (h_monotonic_ns h w)) \<and> orders_kept view w (snd (h_monotonic_ns h w))"
    and ulid_keeps: "ok w \<Longrightarrow> ok (snd (h_ulid h w)) \<and> orders_kept view w (snd (h_ulid h w))"
    and sleep_keeps: "ok w \<Longrightarrow> ok (h_sleep h n w) \<and> orders_kept view w (h_sleep h n w)"
    and list_keeps: "ok w \<Longrightarrow> (did, a) \<in> set registry \<Longrightarrow>
      ok (snd (a_list_open_orders a w)) \<and> orders_kept view w (snd (a_list_open_orders a w))"
    and cancel_keeps: "ok w \<Longrightarrow> (did, a) \<in> set registry \<Longrightarrow>
      ok (snd (a_cancel_order a bid w)) \<and> orders_kept view w (snd (a_cancel_order a bid w))"
    and get_keeps: "ok w \<Longrightarrow> (did, a) \<in> set registry \<Longrightarrow>
      ok (snd (a_get_order a bid w)) \<and> orders_kept view w (snd (a_get_order a bid w))"
    and positions_keeps: "ok w \<Longrightarrow> (did, a) \<in> set registry \<Longrightarrow>
      ok (snd (a_get_positions a w)) \<and> orders_kept view w (snd (a_get_positions a w))"
    and submit_keeps: "ok w \<Longrightarrow> (did, a) \<in> set registry \<Longrightarrow> order_request_valid rq \<Longrightarrow>
      ok (snd (a_submit_order a rq w)) \<and> orders_kept view w (snd (a_submit_order a rq w))"
    and get_true: "ok w \<Longrightarrow> (did, a) \<in> set registry \<Longrightarrow> a_get_order a bid w = (Inr r, w') \<Longrightarrow> view did w' bid = Some r"
    and list_complete: "ok w \<Longrightarrow> (did, a) \<in> set registry \<Longrightarrow> a_list_open_orders a w = (Inr orders, w') \<Longrightarrow>
      order_exists view did w bid \<Longrightarrow> \<not> order_done view did w' bid \<Longrightarrow>
      \<exists>order\<in>set orders. os_broker_order_id order = Some bid"
begin

abbreviation evolves :: "'w \<Rightarrow> 'w \<Rightarrow> bool" where
  "evolves w w' \<equiv> ok w' \<and> orders_kept view w w'"

lemma evolves_trans: "evolves w w1 \<Longrightarrow> evolves w1 w2 \<Longrightarrow> evolves w w2"
  by (blast intro: orders_kept_trans)

lemma cancel_attempts_keeps:
  assumes "(did, a) \<in> set registry"
  shows "ok w \<Longrightarrow> evolves w (snd (cancel_attempts h a bid attempts w))"
proof (induction attempts arbitrary: w)
  case (Cons k ks)
  obtain res w1 where c: "a_cancel_order a bid w = (res, w1)" by fastforce
  have w1: "evolves w w1" using cancel_keeps [OF Cons.prems assms, of bid] c by simp
  let ?w2 = "if k < max_retries - 1 then h_sleep h (backoff_delays ! k) w1 else w1"
  have w2: "evolves w ?w2" using w1 sleep_keeps [of w1 "backoff_delays ! k"] by (auto intro: orders_kept_trans)
  then have "evolves w (snd (cancel_attempts h a bid ks ?w2))"
    using Cons.IH [of ?w2] by (meson orders_kept_trans)
  with w1 c show ?case by (cases res) auto
qed simp

lemma cancel_one_keeps:
  assumes "(did, a) \<in> set registry" "ok w"
  shows "evolves w (snd (cancel_one h a bid w))"
proof -
  obtain b w1 where c: "cancel_attempts h a bid [0..<max_retries] w = (b, w1)" by fastforce
  have w1: "evolves w w1" using cancel_attempts_keeps [OF assms, of bid "[0..<max_retries]"] c by simp
  obtain res w2 where g: "a_get_order a bid w1 = (res, w2)" by fastforce
  have "evolves w w2" using w1 get_keeps [OF _ assms(1), of w1 bid] g by (auto intro: orders_kept_trans)
  with w1 c g show ?thesis by (cases b; cases res) (simp_all add: cancel_one_def)
qed

lemma cancel_one_true:
  assumes "(did, a) \<in> set registry" "ok w" "cancel_one h a bid w = (True, w')"
  shows "order_done view did w' bid"
proof -
  obtain b w1 where c: "cancel_attempts h a bid [0..<max_retries] w = (b, w1)" by fastforce
  have w1: "ok w1" using cancel_attempts_keeps [OF assms(1,2), of bid "[0..<max_retries]"] c by simp
  from assms(3) c obtain r where "a_get_order a bid w1 = (Inr r, w')" "os_status r \<in> set terminal_statuses"
    by (auto simp: cancel_one_def split: prod.splits bool.splits sum.splits)
  with get_true [OF w1 assms(1)] show ?thesis by (auto simp: order_done_def)
qed

lemma cancel_orders_keeps:
  assumes "(did, a) \<in> set registry"
  shows "ok w \<Longrightarrow> evolves w (snd (cancel_orders h a orders count failed_ids w))"
proof (induction orders arbitrary: count failed_ids w)
  case (Cons order orders)
  show ?case
  proof (cases "os_broker_order_id order")
    case (Some bid)
    obtain b w1 where c: "cancel_one h a bid w = (b, w1)" by fastforce
    have w1: "evolves w w1" using cancel_one_keeps [OF assms Cons.prems, of bid] c by simp
    have "evolves w (snd (cancel_orders h a orders n ids w1))" for n ids
      using evolves_trans [OF w1 Cons.IH] w1 by blast
    with Some c show ?thesis by (cases b) simp_all
  qed (simp add: Cons)
qed simp

text \<open>Every listed order is terminal afterwards or on the failed list, which only grows.\<close>

lemma cancel_orders_sound:
  assumes "(did, a) \<in> set registry"
  shows "ok w \<Longrightarrow> cancel_orders h a orders count failed_ids w = ((count', failed_ids'), w') \<Longrightarrow>
    set failed_ids \<subseteq> set failed_ids' \<and>
    (\<forall>order\<in>set orders. \<forall>bid. os_broker_order_id order = Some bid \<longrightarrow>
       order_done view did w' bid \<or> bid \<in> set failed_ids')"
proof (induction orders arbitrary: count failed_ids w)
  case (Cons order orders)
  show ?case
  proof (cases "os_broker_order_id order")
    case None
    with Cons show ?thesis by auto
  next
    case (Some bid)
    obtain b w1 where c: "cancel_one h a bid w = (b, w1)" by fastforce
    have w1: "ok w1" using cancel_one_keeps [OF assms Cons.prems(1), of bid] c by simp
    show ?thesis
    proof (cases b)
      case True
      then have run: "cancel_orders h a orders (count + 1) failed_ids w1 = ((count', failed_ids'), w')"
        using Cons.prems(2) Some c by simp
      have "order_done view did w' bid"
        using cancel_one_true [OF assms Cons.prems(1)] c True
          cancel_orders_keeps [OF assms w1, of orders "count + 1" failed_ids] run by (auto intro: order_done_kept)
      with Cons.IH [OF w1 run] Some show ?thesis by auto
    next
      case False
      then have "cancel_orders h a orders count (failed_ids @ [bid]) w1 = ((count', failed_ids'), w')"
        using Cons.prems(2) Some c by simp
      from Cons.IH [OF w1 this] Some show ?thesis by auto
    qed
  qed
qed simp

lemma cancel_open_orders_keeps:
  assumes "(did, a) \<in> set registry" "ok w"
  shows "evolves w (snd (cancel_open_orders h a w))"
proof -
  obtain res w1 where l: "a_list_open_orders a w = (res, w1)" by fastforce
  have w1: "evolves w w1" using list_keeps [OF assms(2,1)] l by simp
  show ?thesis
  proof (cases res)
    case (Inr orders)
    have "evolves w (snd (cancel_orders h a orders 0 [] w1))"
      using evolves_trans [OF w1] cancel_orders_keeps [OF assms(1)] w1 by blast
    with l Inr show ?thesis by (auto simp: cancel_open_orders_def split: prod.splits)
  qed (use l w1 in \<open>simp add: cancel_open_orders_def\<close>)
qed

lemma cancel_open_orders_sound:
  assumes "(did, a) \<in> set registry" "ok w" "cancel_open_orders h a w = (Inr c, w')" "order_exists view did w bid"
  shows "order_done view did w' bid \<or> bid \<in> set (cr_failed_order_ids c)"
proof -
  from assms(3) obtain orders w1 where l: "a_list_open_orders a w = (Inr orders, w1)"
    by (auto simp: cancel_open_orders_def split: prod.splits sum.splits)
  have w1: "ok w1" using list_keeps [OF assms(2,1)] l by simp
  obtain n ids where run: "cancel_orders h a orders 0 [] w1 = ((n, ids), w')" and ids: "cr_failed_order_ids c = ids"
    using assms(3) l by (auto simp: cancel_open_orders_def split: prod.splits)
  show ?thesis
  proof (cases "order_done view did w1 bid")
    case True
    with cancel_orders_keeps [OF assms(1) w1, of orders 0 "[]"] run show ?thesis by (auto intro: order_done_kept)
  next
    case False
    from list_complete [OF assms(2,1) l assms(4) this] cancel_orders_sound [OF assms(1) w1 run] ids
    show ?thesis by blast
  qed
qed

lemma submit_close_keeps:
  assumes "(did, a) \<in> set registry" "ok w"
  shows "evolves w (snd (submit_close h a pos w))"
proof -
  obtain u1 w1 where u1: "h_ulid h w = (u1, w1)" by fastforce
  obtain u2 w2 where u2: "h_ulid h w1 = (u2, w2)" by fastforce
  have w2: "evolves w w2" using ulid_keeps [OF assms(2)] ulid_keeps [of w1] u1 u2 by (auto intro: orders_kept_trans)
  obtain res w3 where s: "a_submit_order a (close_request pos u1 u2) w2 = (res, w3)" by fastforce
  have "order_request_valid (close_request pos u1 u2) \<Longrightarrow> evolves w w3"
    using submit_keeps [OF _ assms(1), of w2 "close_request pos u1 u2"] w2 s by (auto intro: orders_kept_trans)
  with w2 u1 u2 s show ?thesis by (cases res) (simp_all add: submit_close_def Let_def)
qed

lemma submit_closes_keeps:
  assumes "(did, a) \<in> set registry"
  shows "ok w \<Longrightarrow> evolves w (snd (submit_closes h a ps submitted failed_syms w))"
proof (induction ps arbitrary: submitted failed_syms w)
  case (Cons pos ps)
  obtain b w1 where c: "submit_close h a pos w = (b, w1)" by fastforce
  have w1: "evolves w w1" using submit_close_keeps [OF assms Cons.prems, of pos] c by simp
  have "evolves w (snd (submit_closes h a ps s f w1))" for s f
    using evolves_trans [OF w1 Cons.IH] w1 by blast
  with Cons c show ?case by (cases b) simp_all
qed simp

lemma poll_closed_keeps:
  assumes "(did, a) \<in> set registry"
  shows "ok w \<Longrightarrow> evolves w (snd (poll_closed h a polls submitted count w))"
proof (induction polls arbitrary: submitted count w)
  case (Suc polls)
  obtain res w1 where p: "a_get_positions a (h_sleep h 1 w) = (res, w1)" by fastforce
  have w1: "evolves w w1"
    using sleep_keeps [OF Suc.prems, of 1] positions_keeps [OF _ assms, of "h_sleep h 1 w"] p
    by (auto intro: orders_kept_trans)
  have "evolves w (snd (poll_closed h a polls s n w1))" for s n
    using evolves_trans [OF w1 Suc.IH] w1 by blast
  with Suc.prems p show ?case by (cases res) (simp_all add: Let_def)
qed simp

lemma flatten_positions_keeps:
  assumes "(did, a) \<in> set registry" "ok w"
  shows "evolves w (snd (flatten_positions h a w))"
proof -
  obtain res w1 where p: "a_get_positions a w = (res, w1)" by fastforce
  have w1: "evolves w w1" using positions_keeps [OF assms(2,1)] p by simp
  show ?thesis
  proof (cases res)
    case (Inr ps)
    obtain s f w2 where c: "submit_closes h a ps [] [] w1 = ((s, f), w2)" by (metis prod.exhaust)
    have w2: "evolves w w2" using evolves_trans [OF w1] submit_closes_keeps [OF assms(1), of w1 ps "[]" "[]"] w1 c by simp
    obtain l n w3 where q: "poll_closed h a max_polls s 0 w2 = ((l, n), w3)" by (metis prod.exhaust)
    have "evolves w w3" using evolves_trans [OF w2] poll_closed_keeps [OF assms(1), of w2 max_polls s 0] w2 q by simp
    with p Inr c q show ?thesis by (simp add: flatten_positions_def Let_def)
  qed (use p w1 in \<open>simp add: flatten_positions_def\<close>)
qed

lemma poll_flat_keeps:
  assumes "(did, a) \<in> set registry"
  shows "ok w \<Longrightarrow> evolves w (snd (poll_flat h a polls w))"
proof (induction polls arbitrary: w)
  case (Suc polls)
  obtain res w1 where p: "a_get_positions a w = (res, w1)" by fastforce
  have w1: "evolves w w1" using positions_keeps [OF Suc.prems assms] p by simp
  have w2: "evolves w (h_sleep h 1 w1)" using w1 sleep_keeps [of w1 1] by (auto intro: orders_kept_trans)
  have "evolves w (snd (poll_flat h a polls (h_sleep h 1 w1)))" using evolves_trans [OF w2 Suc.IH] w2 by blast
  with w1 p show ?case by (cases res) simp_all
qed simp

lemma poll_no_orders_keeps:
  assumes "(did, a) \<in> set registry"
  shows "ok w \<Longrightarrow> evolves w (snd (poll_no_orders h a polls w))"
proof (induction polls arbitrary: w)
  case (Suc polls)
  obtain res w1 where p: "a_list_open_orders a w = (res, w1)" by fastforce
  have w1: "evolves w w1" using list_keeps [OF Suc.prems assms] p by simp
  have w2: "evolves w (h_sleep h 1 w1)" using w1 sleep_keeps [of w1 1] by (auto intro: orders_kept_trans)
  have "evolves w (snd (poll_no_orders h a polls (h_sleep h 1 w1)))" using evolves_trans [OF w2 Suc.IH] w2 by blast
  with w1 p show ?case by (cases res) simp_all
qed simp

lemma final_positions_keeps:
  assumes "(did, a) \<in> set registry" "ok w"
  shows "evolves w (snd (final_positions a w))"
  using positions_keeps [OF assms(2,1)] by (auto simp: final_positions_def split: prod.splits sum.splits)

lemma verify_posture_keeps:
  assumes "(did, a) \<in> set registry" "ok w"
  shows "evolves w (snd (verify_posture_execution h timeout a vp w))"
proof -
  obtain start_ns w1 where m1: "h_monotonic_ns h w = (start_ns, w1)" by fastforce
  have w1: "evolves w w1" using monotonic_keeps [OF assms(2)] m1 by simp
  obtain flat w2 where pf: "poll_flat h a (nat timeout) w1 = (flat, w2)" by fastforce
  obtain n ops res w3 where fp: "final_positions a w2 = ((n, ops, res), w3)" by (metis prod.exhaust)
  obtain none w2' where po: "poll_no_orders h a (nat timeout) w1 = (none, w2')" by fastforce
  have w2: "evolves w w2" using evolves_trans [OF w1] poll_flat_keeps [OF assms(1), of w1 "nat timeout"] w1 pf by simp
  have w3: "evolves w w3" using evolves_trans [OF w2] final_positions_keeps [OF assms(1), of w2] w2 fp by simp
  have w2': "evolves w w2'" using evolves_trans [OF w1] poll_no_orders_keeps [OF assms(1), of w1 "nat timeout"] w1 po by simp
  have "evolves w (snd (h_monotonic_ns h w3))" "evolves w (snd (h_monotonic_ns h w2'))"
    using evolves_trans [OF w3] monotonic_keeps [of w3] w3 evolves_trans [OF w2'] monotonic_keeps [of w2'] w2' by blast+
  then show ?thesis using m1 pf fp po by (auto simp: verify_posture_execution_def split: prod.splits)
qed

lemma run_posture_keeps:
  assumes "(did, a) \<in> set registry" "ok w"
  shows "evolves w (snd (run_posture h timeout a posture w))"
proof -
  obtain c w1 where c: "cancel_open_orders h a w = (c, w1)" by fastforce
  have w1: "evolves w w1" using cancel_open_orders_keeps [OF assms] c by simp
  obtain f w2 where f: "flatten_positions h a w1 = (f, w2)" by fastforce
  have w2: "evolves w w2" using evolves_trans [OF w1] flatten_positions_keeps [OF assms(1), of w1] w1 f by simp
  have v: "evolves w (snd (verify_posture_execution h timeout a vp w1))"
    "evolves w (snd (verify_posture_execution h timeout a vp w2))" for vp
    using evolves_trans [OF w1] evolves_trans [OF w2] verify_posture_keeps [OF assms(1)] w1 w2 by blast+
  show ?thesis
    using w1 w2 v [of True] v [of False] c f assms(2)
    by (auto simp: run_posture_def split: prod.splits sum.splits emergency_posture.splits)
qed

end

text \<open>The same for a service whose registry the venues are.\<close>

locale halted_venues = order_venues h registry view ok
  for h :: "'w host" and registry :: "(string, 'w adapter) dict"
    and view :: "string \<Rightarrow> 'w \<Rightarrow> string \<Rightarrow> order_response option" and ok :: "'w \<Rightarrow> bool" +
  fixes ks :: "('w, 'd) kill_switch_service"
  assumes registry: "ks_adapter_registry ks = registry"
begin

lemma execute_posture_keeps:
  assumes "ok w"
  shows "evolves w (snd (execute_emergency_posture h ks did trigger reason d w))"
proof (cases "dict_get registry did")
  case (Some a)
  then have a: "(did, a) \<in> set registry" by (rule dict_get_Some_mem)
  obtain start_ns w1 where m1: "h_monotonic_ns h w = (start_ns, w1)" by fastforce
  have w1: "evolves w w1" using monotonic_keeps [OF assms] m1 by simp
  have "evolves w (snd (execute_emergency_posture h ks did trigger reason d w))"
    if d: "dr_get_by_id (ks_deployment_repo ks) d did = Some dep" and p: "parse_posture (dp_emergency_posture dep) = Some posture"
    for dep posture
  proof -
    obtain res w2 where rp: "run_posture h (ks_verification_timeout_s ks) a posture w1 = (res, w2)" by fastforce
    have w2: "evolves w w2" using evolves_trans [OF w1] run_posture_keeps [OF a] w1 rp by (metis snd_conv)
    obtain end_ns w3 where m2: "h_monotonic_ns h w2 = (end_ns, w3)" by fastforce
    have w3: "evolves w w3" using evolves_trans [OF w2] monotonic_keeps [of w2] w2 m2 by simp
    obtain u w4 where u: "h_ulid h w3 = (u, w4)" by fastforce
    have w4: "evolves w w4" using evolves_trans [OF w3] ulid_keeps [of w3] w3 u by simp
    obtain now w5 where n: "h_now h w4 = (now, w5)" by fastforce
    have w5: "evolves w w5" using evolves_trans [OF w4] now_keeps [of w4] w4 n by simp
    show ?thesis
      using w2 w5 d p Some m1 rp m2 u n
      by (cases res) (auto simp: execute_emergency_posture_def registry)
  qed
  then show ?thesis using assms Some
    by (cases "dr_get_by_id (ks_deployment_repo ks) d did")
      (auto simp: execute_emergency_posture_def registry split: option.splits)
qed (use assms in \<open>simp add: execute_emergency_posture_def registry split: option.splits\<close>)

lemma halt_adapters_keeps:
  "ok w \<Longrightarrow> set adapters \<subseteq> set registry \<Longrightarrow> evolves w (snd (halt_adapters h ks scope target adapters n d w))"
proof (induction adapters arbitrary: n w)
  case (Cons x adapters)
  obtain did a where x: "x = (did, a)" by fastforce
  then have a: "(did, a) \<in> set registry" and sub: "set adapters \<subseteq> set registry" using Cons.prems by auto
  obtain res w1 where c: "cancel_open_orders h a w = (res, w1)" by fastforce
  have w1: "evolves w w1" using cancel_open_orders_keeps [OF a Cons.prems(1)] c by simp
  have w2: "evolves w (snd (execute_emergency_posture h ks did KILL_SWITCH reason d w1))" for reason
    using evolves_trans [OF w1] execute_posture_keeps w1 by blast
  have "evolves w (snd (halt_adapters h ks scope target adapters m d w'))" if "evolves w w'" for m w'
    using evolves_trans [OF that Cons.IH] that sub by blast
  then show ?case using x c w1 w2 Cons.IH [OF Cons.prems(1) sub] by (cases res) simp_all
qed simp

end

text \<open>A venue that is reachable: the list of its orders, a query for an order it knows and the
  cancellation of one do not raise, and a cancelled order is terminal.\<close>

locale reachable_venues = halted_venues +
  assumes list_answers: "ok w \<Longrightarrow> (did, a) \<in> set registry \<Longrightarrow>
      \<exists>orders w'. a_list_open_orders a w = (Inr orders, w') \<and>
        (\<forall>order\<in>set orders. \<forall>bid. os_broker_order_id order = Some bid \<longrightarrow> order_exists view did w' bid)"
    and cancel_answers: "ok w \<Longrightarrow> (did, a) \<in> set registry \<Longrightarrow> order_exists view did w bid \<Longrightarrow>
      \<exists>r w'. a_cancel_order a bid w = (Inr r, w') \<and> order_done view did w' bid"
    and get_answers: "ok w \<Longrightarrow> (did, a) \<in> set registry \<Longrightarrow> order_exists view did w bid \<Longrightarrow>
      \<exists>r w'. a_get_order a bid w = (Inr r, w')"
begin

lemma cancel_one_succeeds:
  assumes "(did, a) \<in> set registry" "ok w" "order_exists view did w bid"
  shows "\<exists>w'. cancel_one h a bid w = (True, w')"
proof -
  obtain r w1 where c: "a_cancel_order a bid w = (Inr r, w1)" "order_done view did w1 bid"
    using cancel_answers [OF assms(2,1,3)] by blast
  have w1: "ok w1" using cancel_keeps [OF assms(2,1), of bid] c(1) by simp
  have "order_exists view did w1 bid" using c(2) by (auto simp: order_done_def order_exists_def)
  then obtain r' w2 where g: "a_get_order a bid w1 = (Inr r', w2)" using get_answers [OF w1 assms(1)] by blast
  have "view did w2 bid = Some r'" using get_true [OF w1 assms(1) g] .
  moreover have "order_done view did w2 bid"
    using order_done_kept c(2) get_keeps [OF w1 assms(1), of bid] g by (metis snd_conv)
  ultimately have "os_status r' \<in> set terminal_statuses" by (simp add: order_done_def)
  then show ?thesis using c(1) g by (auto simp: cancel_one_def max_retries_def numeral_3_eq_3 upt_conv_Cons)
qed

lemma cancel_orders_succeeds:
  assumes "(did, a) \<in> set registry"
  shows "ok w \<Longrightarrow> \<forall>order\<in>set orders. \<forall>bid. os_broker_order_id order = Some bid \<longrightarrow> order_exists view did w bid \<Longrightarrow>
    \<exists>n w'. cancel_orders h a orders count ids w = ((n, ids), w')"
proof (induction orders arbitrary: count w)
  case (Cons order orders)
  show ?case
  proof (cases "os_broker_order_id order")
    case None
    with Cons show ?thesis by simp
  next
    case (Some bid)
    obtain w1 where c: "cancel_one h a bid w = (True, w1)"
      using cancel_one_succeeds [OF assms Cons.prems(1), of bid] Cons.prems(2) Some by auto
    have w1: "evolves w w1" using cancel_one_keeps [OF assms Cons.prems(1), of bid] c by simp
    then have "\<forall>order\<in>set orders. \<forall>bid. os_broker_order_id order = Some bid \<longrightarrow> order_exists view did w1 bid"
      using Cons.prems(2) order_exists_kept by (metis list.set_intros(2))
    with Cons.IH w1 Some c show ?thesis by simp
  qed
qed simp

lemma cancel_open_orders_succeeds:
  assumes "(did, a) \<in> set registry" "ok w"
  shows "\<exists>c w'. cancel_open_orders h a w = (Inr c, w') \<and> cr_failed_order_ids c = [] \<and> cr_failed_count c = 0"
proof -
  obtain orders w1 where l: "a_list_open_orders a w = (Inr orders, w1)"
      "\<forall>order\<in>set orders. \<forall>bid. os_broker_order_id order = Some bid \<longrightarrow> order_exists view did w1 bid"
    using list_answers [OF assms(2,1)] by blast
  have "ok w1" using list_keeps [OF assms(2,1)] l(1) by simp
  from cancel_orders_succeeds [OF assms(1) this l(2), of 0 "[]"] l(1) show ?thesis
    by (auto simp: cancel_open_orders_def)
qed

text \<open>The loop over the affected adapters ends all their orders and does not raise.\<close>

lemma halt_adapters_succeeds:
  "ok w \<Longrightarrow> set adapters \<subseteq> set registry \<Longrightarrow>
   \<exists>m w'. halt_adapters h ks scope target adapters n d w = (Inr m, w') \<and>
     (\<forall>(did, a)\<in>set adapters. \<forall>bid. scope_affects_adapter ks d scope target did \<longrightarrow>
        order_exists view did w bid \<longrightarrow> order_done view did w' bid)"
proof (induction adapters arbitrary: n w)
  case (Cons x adapters)
  obtain did a where x: "x = (did, a)" by fastforce
  then have a: "(did, a) \<in> set registry" and sub: "set adapters \<subseteq> set registry" using Cons.prems by auto
  show ?case
  proof (cases "scope_affects_adapter ks d scope target did")
    case True
    obtain c w1 where c: "cancel_open_orders h a w = (Inr c, w1)" "cr_failed_order_ids c = []" "cr_failed_count c = 0"
      using cancel_open_orders_succeeds [OF a Cons.prems(1)] by blast
    have w1: "evolves w w1" using cancel_open_orders_keeps [OF a Cons.prems(1)] c by simp
    obtain m w' where r: "halt_adapters h ks scope target adapters (n + cr_cancelled_count c) d w1 = (Inr m, w')"
        "\<forall>(did, a)\<in>set adapters. \<forall>bid. scope_affects_adapter ks d scope target did \<longrightarrow>
           order_exists view did w1 bid \<longrightarrow> order_done view did w' bid"
      using Cons.IH [of w1 "n + cr_cancelled_count c"] w1 sub by blast
    have "evolves w1 w'"
      using halt_adapters_keeps [of w1 adapters scope target "n + cr_cancelled_count c" d] w1 sub r(1) by simp
    moreover have "order_done view did w1 bid" if "order_exists view did w bid" for bid
      using cancel_open_orders_sound [OF a Cons.prems(1) c(1) that] c(2) by simp
    ultimately have hd: "order_done view did w' bid" if "order_exists view did w bid" for bid
      using that order_done_kept [of view w1 w' did bid] by simp
    have tl: "order_done view did' w' bid"
      if "(did', a') \<in> set adapters" "scope_affects_adapter ks d scope target did'" "order_exists view did' w bid" for did' a' bid
      using r(2) that order_exists_kept [of view w w1 did' bid] w1 by blast
    have "halt_adapters h ks scope target (x # adapters) n d w = (Inr m, w')" using r(1) c x True by simp
    moreover have "\<forall>(did, a)\<in>set (x # adapters). \<forall>bid. scope_affects_adapter ks d scope target did \<longrightarrow>
        order_exists view did w bid \<longrightarrow> order_done view did w' bid"
      using hd tl x by auto
    ultimately show ?thesis by blast
  qed (use Cons.IH [OF Cons.prems(1) sub] x in auto)
qed simp

end

section \<open>Paper brokers as venues\<close>

text \<open>A world of paper brokers, one per deployment, with a clock and a supply of fresh identifiers. While
  the service sleeps, every broker is ticked.\<close>

record paper_world =
  pw_brokers :: "(string, paper_broker) dict"
  pw_time :: datetime
  pw_uuid :: "nat \<Rightarrow> string"
  pw_next :: nat
  pw_tick_ids :: tick_ids

definition on_broker ::
  "string \<Rightarrow> (paper_broker \<Rightarrow> (exn, 'a) result \<times> paper_broker) \<Rightarrow> paper_world \<Rightarrow> (exn, 'a) result \<times> paper_world" where
  "on_broker did f w =
     (case dict_get (pw_brokers w) did of
        None \<Rightarrow> (Inl ExternalServiceError, w)
      | Some b \<Rightarrow> (case f b of (res, b') \<Rightarrow> (res, w\<lparr>pw_brokers := dict_set did b' (pw_brokers w)\<rparr>)))"

definition paper_adapter :: "string \<Rightarrow> paper_world adapter" where
  "paper_adapter did =
     \<lparr>a_connect = (\<lambda>w. (Inr (), w)), a_disconnect = (\<lambda>w. (Inr (), w)),
      a_submit_order = (\<lambda>rq w.
        on_broker did (submit_order (pw_uuid w (pw_next w)) (pw_time w) rq) (w\<lparr>pw_next := Suc (pw_next w)\<rparr>)),
      a_cancel_order = (\<lambda>bid w. on_broker did (cancel_order (pw_time w) bid) w),
      a_get_order = (\<lambda>bid. on_broker did (\<lambda>b. (get_order b bid, b))),
      a_list_open_orders = on_broker did (\<lambda>b. (Inr (list_open_orders b), b)),
      a_get_fills = (\<lambda>bid. on_broker did (\<lambda>b. (get_fills b bid, b))),
      a_get_positions = (\<lambda>w. on_broker did (\<lambda>b. (Inr (get_positions (pw_time w) b), b)) w),
      a_get_account = (\<lambda>w. on_broker did (\<lambda>b. (Inr (get_account (pw_time w) (pw_time w) b), b)) w),
      a_is_paper_adapter = True\<rparr>"

definition paper_registry :: "string list \<Rightarrow> (string, paper_world adapter) dict" where
  "paper_registry dids = map (\<lambda>did. (did, paper_adapter did)) dids"

definition paper_host :: "paper_world host" where
  "paper_host =
     \<lparr>h_now = (\<lambda>w. (pw_time w, w)), h_monotonic_ns = (\<lambda>w. (1000 * pw_time w, w)), h_monotonic = (\<lambda>w. (of_int (pw_time w) / 1000000, w)),
      h_ulid = (\<lambda>w. (pw_uuid w (pw_next w), w\<lparr>pw_next := Suc (pw_next w)\<rparr>)),
      h_sleep = (\<lambda>n w. w\<lparr>pw_time := pw_time w + 1000000 * n,
        pw_brokers := map (\<lambda>(did, b). (did, snd (process_pending_orders (pw_tick_ids w) b))) (pw_brokers w)\<rparr>)\<rparr>"

definition paper_view :: "string \<Rightarrow> paper_world \<Rightarrow> string \<Rightarrow> order_response option" where
  "paper_view did w bid = (case dict_get (pw_brokers w) did of None \<Rightarrow> None | Some b \<Rightarrow> dict_get (pb_orders b) bid)"

definition paper_ok :: "string list \<Rightarrow> paper_world \<Rightarrow> bool" where
  "paper_ok dids w \<longleftrightarrow> inj (pw_uuid w) \<and> (\<forall>did\<in>set dids. dict_get (pw_brokers w) did \<noteq> None) \<and>
     (\<forall>did b. dict_get (pw_brokers w) did = Some b \<longrightarrow> pb_inv b \<and>
        (\<forall>n\<ge>pw_next w. dict_get (pb_orders b) (pw_uuid w n) = None))"

lemma dict_get_map: "dict_get (map (\<lambda>(k, v). (k, f v)) d) k = map_option f (dict_get d k)"
  by (induction d) auto

lemma paper_adapter_sel [simp]:
  "a_list_open_orders (paper_adapter did) = on_broker did (\<lambda>b. (Inr (list_open_orders b), b))"
  "a_cancel_order (paper_adapter did) bid w = on_broker did (cancel_order (pw_time w) bid) w"
  "a_get_order (paper_adapter did) bid = on_broker did (\<lambda>b. (get_order b bid, b))"
  "a_get_positions (paper_adapter did) w = on_broker did (\<lambda>b. (Inr (get_positions (pw_time w) b), b)) w"
  "a_submit_order (paper_adapter did) rq w =
     on_broker did (submit_order (pw_uuid w (pw_next w)) (pw_time w) rq) (w\<lparr>pw_next := Suc (pw_next w)\<rparr>)"
  by (simp_all add: paper_adapter_def)

lemma paper_host_sel [simp]:
  "h_now paper_host w = (pw_time w, w)"
  "h_monotonic_ns paper_host w = (1000 * pw_time w, w)"
  "h_ulid paper_host w = (pw_uuid w (pw_next w), w\<lparr>pw_next := Suc (pw_next w)\<rparr>)"
  "h_sleep paper_host n w = w\<lparr>pw_time := pw_time w + 1000000 * n,
     pw_brokers := map (\<lambda>(did, b). (did, snd (process_pending_orders (pw_tick_ids w) b))) (pw_brokers w)\<rparr>"
  by (simp_all add: paper_host_def)

lemma paper_registry_mem: "(did, a) \<in> set (paper_registry dids) \<longleftrightarrow> did \<in> set dids \<and> a = paper_adapter did"
  by (auto simp: paper_registry_def)

lemma paper_ok_broker:
  "paper_ok dids w \<Longrightarrow> dict_get (pw_brokers w) did = Some b \<Longrightarrow>
     pb_inv b \<and> (\<forall>n\<ge>pw_next w. dict_get (pb_orders b) (pw_uuid w n) = None)"
  unfolding paper_ok_def by blast

lemma paper_ok_get: "paper_ok dids w \<Longrightarrow> did \<in> set dids \<Longrightarrow> \<exists>b. dict_get (pw_brokers w) did = Some b"
  unfolding paper_ok_def by blast

lemma keeps_order:
  "keeps b b' \<Longrightarrow> dict_get (pb_orders b) bid = Some r \<Longrightarrow>
   \<exists>r'. dict_get (pb_orders b') bid = Some r' \<and> (os_status r \<in> set terminal_statuses \<longrightarrow> r' = r)"
  by (cases "os_status r \<in> set terminal_statuses") (unfold keeps_def, blast+)

text \<open>An operation on one broker that keeps its orders and uses no identifier that is still to come
  keeps the orders of all.\<close>

lemma on_broker_evolves:
  assumes "paper_ok dids w" "\<And>b. dict_get (pw_brokers w) did = Some b \<Longrightarrow> pb_inv (snd (f b)) \<and> keeps b (snd (f b)) \<and>
      (\<forall>n\<ge>pw_next w. dict_get (pb_orders (snd (f b))) (pw_uuid w n) = None)"
  shows "paper_ok dids (snd (on_broker did f w)) \<and> orders_kept paper_view w (snd (on_broker did f w))"
proof (cases "dict_get (pw_brokers w) did")
  case None
  with assms(1) show ?thesis by (simp add: on_broker_def)
next
  case (Some b)
  obtain res b' where f: "f b = (res, b')" by fastforce
  have b': "pb_inv b'" "keeps b b'" "\<forall>n\<ge>pw_next w. dict_get (pb_orders b') (pw_uuid w n) = None"
    using assms(2) [OF Some] by (simp_all add: f)
  have "paper_ok dids (w\<lparr>pw_brokers := dict_set did b' (pw_brokers w)\<rparr>)"
    using assms(1) b'(1,3) unfolding paper_ok_def by auto
  moreover have "orders_kept paper_view w (w\<lparr>pw_brokers := dict_set did b' (pw_brokers w)\<rparr>)"
    using keeps_order [OF b'(2)] Some by (auto simp: orders_kept_def paper_view_def split: option.splits)
  ultimately show ?thesis using Some f by (simp add: on_broker_def)
qed

lemma paper_next_ok: "paper_ok dids w \<Longrightarrow> paper_ok dids (w\<lparr>pw_next := Suc (pw_next w)\<rparr>)"
  unfolding paper_ok_def by auto

lemma paper_view_next [simp]: "paper_view did (w\<lparr>pw_next := n\<rparr>) = paper_view did w"
  by (simp add: paper_view_def fun_eq_iff)

lemma orders_kept_next [simp]:
  "orders_kept paper_view (w\<lparr>pw_next := n\<rparr>) w' = orders_kept paper_view w w'"
  "orders_kept paper_view w (w'\<lparr>pw_next := n\<rparr>) = orders_kept paper_view w w'"
  by (simp_all add: orders_kept_def)

lemma submit_fresh:
  "dict_get (pb_orders b) k = None \<Longrightarrow> k \<noteq> bid \<Longrightarrow> dict_get (pb_orders (snd (submit_order bid now rq b))) k = None"
  by (auto simp: submit_order_def Let_def split: option.splits)

lemma cancel_fresh: "dict_get (pb_orders b) k = None \<Longrightarrow> dict_get (pb_orders (snd (cancel_order now bid b))) k = None"
  by (auto simp: cancel_order_def Let_def split: option.splits)

lemma process_orders_fresh:
  "pb_inv b \<Longrightarrow> dict_get (pb_orders b) k = None \<Longrightarrow> dict_get (pb_orders (snd (process_orders ids bids b))) k = None"
proof (induction bids arbitrary: b)
  case (Cons bid bids)
  obtain res b1 where one: "process_order ids bid b = (res, b1)" by fastforce
  have "dict_get (pb_orders b1) k = None"
    using Cons.prems(1)
  proof (cases rule: process_order_effect [of b ids bid, case_names raised skipped filled])
    case (filled order price qty avg fs b')
    with one Cons.prems(2) show ?thesis by auto
  qed (use one Cons.prems(2) in auto)
  moreover have "pb_inv b1" using pb_inv_process_order [OF Cons.prems(1), of ids bid] by (simp add: one)
  ultimately have "dict_get (pb_orders (snd (process_orders ids bids b1))) k = None" using Cons.IH by blast
  with \<open>dict_get (pb_orders b1) k = None\<close> show ?case by (auto simp: one split: prod.splits sum.splits)
qed simp

lemma tick_world_evolves:
  assumes "paper_ok dids w"
  shows "paper_ok dids (h_sleep paper_host n w) \<and> orders_kept paper_view w (h_sleep paper_host n w)"
proof -
  let ?tick = "\<lambda>b. snd (process_pending_orders (pw_tick_ids w) b)"
  have t: "pb_inv (?tick b) \<and> keeps b (?tick b) \<and> (\<forall>n\<ge>pw_next w. dict_get (pb_orders (?tick b)) (pw_uuid w n) = None)"
    if "dict_get (pw_brokers w) did = Some b" for did b
    using paper_ok_broker [OF assms that]
    by (auto simp: pb_inv_process_orders process_pending_orders_def keeps_process_orders process_orders_fresh)
  have "paper_ok dids (h_sleep paper_host n w)"
    using assms t unfolding paper_ok_def by (auto simp: dict_get_map)
  moreover have "orders_kept paper_view w (h_sleep paper_host n w)"
    using t keeps_order unfolding orders_kept_def
    by (simp add: paper_view_def dict_get_map del: terminal_statuses_iff split: option.splits) blast
  ultimately show ?thesis by blast
qed

lemma paper_cancel_answers:
  assumes "paper_ok dids w" "order_exists paper_view did w bid"
  shows "\<exists>r w'. on_broker did (cancel_order now bid) w = (Inr r, w') \<and> order_done paper_view did w' bid"
proof -
  obtain b r0 where b: "dict_get (pw_brokers w) did = Some b" "dict_get (pb_orders b) bid = Some r0"
    using assms(2) by (auto simp: order_exists_def paper_view_def split: option.splits)
  obtain r b' where c: "cancel_order now bid b = (Inr r, b')"
    using b(2) by (cases "os_status r0 \<in> set terminal_statuses") (auto simp: cancel_order_def Let_def)
  have "os_status r \<in> set terminal_statuses \<and> get_order b' bid = Inr r"
    using paper.cancel_then_get c paper_ok_broker [OF assms(1) b(1)] by blast
  with b c show ?thesis
    by (auto simp: on_broker_def order_done_def paper_view_def get_order_def split: option.splits)
qed

lemma paper_list_answers:
  assumes "paper_ok dids w" "did \<in> set dids"
  obtains b where "on_broker did (\<lambda>b. (Inr (list_open_orders b), b)) w =
      (Inr (list_open_orders b), w\<lparr>pw_brokers := dict_set did b (pw_brokers w)\<rparr>)"
    "dict_get (pw_brokers w) did = Some b" "pb_inv b"
proof -
  obtain b where b: "dict_get (pw_brokers w) did = Some b" using paper_ok_get [OF assms] by blast
  with that [of b] paper_ok_broker [OF assms(1) b] show thesis by (simp add: on_broker_def)
qed

lemma paper_view_same [simp]:
  "dict_get (pw_brokers w) did = Some b \<Longrightarrow>
   paper_view did' (w\<lparr>pw_brokers := dict_set did b (pw_brokers w)\<rparr>) bid = paper_view did' w bid"
  by (simp add: paper_view_def)

lemma list_open_orders_mem:
  "pb_inv b \<Longrightarrow> r \<in> set (list_open_orders b) \<longleftrightarrow>
     (\<exists>bid. dict_get (pb_orders b) bid = Some r \<and> os_broker_order_id r = Some bid \<and> os_status r \<notin> set terminal_statuses)"
  using pb_inv_order [of b] by (fastforce simp: list_open_orders_def dict_values_get pb_inv_dict_ok order_ok_def)

definition paper_service :: "string list \<Rightarrow> 'd deployment_repo \<Rightarrow> int \<Rightarrow> (paper_world, 'd) kill_switch_service" where
  "paper_service dids repo timeout =
     \<lparr>ks_adapter_registry = paper_registry dids, ks_deployment_repo = repo, ks_verification_timeout_s = timeout\<rparr>"

interpretation paper_venues: order_venues paper_host "paper_registry dids" paper_view "paper_ok dids" for dids
proof (unfold_locales, goal_cases)
  case (4 w n)
  then show ?case by (rule tick_world_evolves)
next
  case (6 w did a bid)
  show ?case
    unfolding paper_registry_mem [THEN iffD1, OF 6(2), THEN conjunct2] paper_adapter_sel
    by (rule on_broker_evolves [OF 6(1)])
      (use paper_ok_broker [OF 6(1), of did] in \<open>auto simp: pb_inv_cancel keeps_cancel cancel_fresh\<close>)
next
  case (9 w did a rq)
  let ?w = "w\<lparr>pw_next := Suc (pw_next w)\<rparr>"
  have "inj (pw_uuid w)" using 9(1) by (simp add: paper_ok_def)
  then have "paper_ok dids (snd (on_broker did (submit_order (pw_uuid w (pw_next w)) (pw_time w) rq) ?w)) \<and>
      orders_kept paper_view ?w (snd (on_broker did (submit_order (pw_uuid w (pw_next w)) (pw_time w) rq) ?w))"
    using paper_ok_broker [OF 9(1), of did] 9(3)
    by (intro on_broker_evolves [OF paper_next_ok [OF 9(1)]])
      (auto simp: pb_inv_submit keeps_submit submit_fresh order_request_valid_def inj_eq)
  with 9(2) show ?case by (simp add: paper_registry_mem)
next
  case (10 w did a bid r w')
  then show ?case
    by (auto simp: paper_registry_mem on_broker_def paper_view_def get_order_def split: option.splits)
next
  case (11 w did a orders w' bid)
  obtain b where b: "a_list_open_orders a w = (Inr (list_open_orders b), w\<lparr>pw_brokers := dict_set did b (pw_brokers w)\<rparr>)"
      "dict_get (pw_brokers w) did = Some b" "pb_inv b"
    using paper_list_answers [OF 11(1)] 11(2) by (auto simp: paper_registry_mem)
  obtain r where r: "dict_get (pb_orders b) bid = Some r" using 11(4) b(2) by (auto simp: order_exists_def paper_view_def)
  have o': "orders = list_open_orders b" "w' = w\<lparr>pw_brokers := dict_set did b (pw_brokers w)\<rparr>" using 11(3) b(1) by auto
  have "os_status r \<notin> set terminal_statuses" using 11(5) r by (simp add: o'(2) order_done_def paper_view_def)
  moreover have "os_broker_order_id r = Some bid" using pb_inv_order [OF b(3) r] by (simp add: order_ok_def)
  ultimately show ?case using r b(3) unfolding o'(1) by (intro bexI [of _ r]) (auto simp: list_open_orders_mem)
qed (auto simp: paper_registry_mem paper_next_ok tick_world_evolves intro!: on_broker_evolves dest: paper_ok_broker)

interpretation paper_halt: reachable_venues paper_host "paper_registry dids" paper_view "paper_ok dids"
  "paper_service dids repo timeout" for dids repo timeout
proof (unfold_locales, goal_cases)
  case (2 w did a)
  obtain b where b: "a_list_open_orders a w = (Inr (list_open_orders b), w\<lparr>pw_brokers := dict_set did b (pw_brokers w)\<rparr>)"
      "dict_get (pw_brokers w) did = Some b" "pb_inv b"
    using paper_list_answers [OF 2(1)] 2(2) by (auto simp: paper_registry_mem)
  then show ?case by (auto simp: order_exists_def list_open_orders_mem paper_view_def)
next
  case (3 w did a bid)
  then show ?case using paper_cancel_answers [OF 3(1,3)] by (simp add: paper_registry_mem)
next
  case (4 w did a bid)
  then show ?case
    by (auto simp: paper_registry_mem on_broker_def order_exists_def paper_view_def get_order_def split: option.splits)
qed (simp add: paper_service_def)

context reachable_venues
begin

lemma activate_succeeds:
  assumes "ok w" "kr_get_active repo r (scope_value scope) target = None"
  shows "\<exists>event r' w'. activate_kill_switch h repo ks scope target reason who trigger d r w = (Inr event, r', w') \<and>
    (\<forall>did a bid. (did, a) \<in> set registry \<and> scope_affects_adapter ks d scope target did \<and>
       order_exists view did w bid \<longrightarrow> order_done view did w' bid)"
proof -
  obtain t w1 where t: "h_now h w = (t, w1)" by fastforce
  have w1: "evolves w w1" using now_keeps [OF assms(1)] t by simp
  obtain ns w2 where ns: "h_monotonic_ns h w1 = (ns, w2)" by fastforce
  have w2: "evolves w w2" using evolves_trans [OF w1] monotonic_keeps [of w1] w1 ns by simp
  obtain m w3 where halt: "halt_adapters h ks scope target registry 0 d w2 = (Inr m, w3)"
      "\<forall>(did, a)\<in>set registry. \<forall>bid. scope_affects_adapter ks d scope target did \<longrightarrow>
         order_exists view did w2 bid \<longrightarrow> order_done view did w3 bid"
    using halt_adapters_succeeds [of w2 registry] w2 by blast
  have w3: "ok w3" using halt_adapters_keeps [of w2 registry scope target 0 d] w2 halt(1) by simp
  obtain ns' w4 where ns': "h_monotonic_ns h w3 = (ns', w4)" by fastforce
  have w4: "evolves w3 w4" using monotonic_keeps [OF w3] ns' by simp
  obtain t' w5 where t': "h_now h w4 = (t', w5)" by fastforce
  have w5: "evolves w3 w5" using evolves_trans [OF w4] now_keeps [of w4] w4 t' by simp
  obtain u w6 where u: "h_ulid h w5 = (u, w6)" by fastforce
  have w6: "evolves w3 w6" using evolves_trans [OF w5] ulid_keeps [of w5] w5 u by simp
  obtain e r' where s: "kr_save repo (scope_value scope) target who t reason (Some (elapsed_ms ns ns')) r = (e, r')" by fastforce
  have "order_done view did w6 bid"
    if "(did, a) \<in> set registry" "scope_affects_adapter ks d scope target did" "order_exists view did w bid" for did a bid
  proof -
    have "order_exists view did w2 bid" using w2 that(3) by (blast intro: order_exists_kept)
    then have "order_done view did w3 bid" using halt(2) that(1,2) by blast
    then show ?thesis using w6 by (blast intro: order_done_kept)
  qed
  moreover obtain event where
    "activate_kill_switch h repo ks scope target reason who trigger d r w = (Inr event, r', w6)"
    using assms(2) t ns halt(1) ns' t' u s by (simp add: activate_kill_switch_def registry)
  ultimately show ?thesis by blast
qed

end

section \<open>Properties\<close>


definition demo_world :: paper_world where
  "demo_world = \<lparr>pw_brokers = [(''D1'', demo_broker 7)], pw_time = 100, pw_uuid = (\<lambda>n. replicate (n + 3) CHR ''u''),
     pw_next = 0, pw_tick_ids = demo_ids\<rparr>"

lemma demo_world_ok: "paper_ok [''D1''] demo_world"
  using pb_reachable_inv [OF demo_reachable [of 7]]
  by (auto simp: paper_ok_def demo_world_def demo_broker_eq inj_def numeral_3_eq_3)

lemma demo_world_order: "order_exists paper_view ''D1'' demo_world ''B1''"
  by (simp add: order_exists_def paper_view_def demo_world_def demo_broker_eq)


text \<open>
  The report of a cancellation can be trusted, also when calls fail: each order that existed on
  the venue is terminal afterwards or on the failed list, and every listed order with an identifier is
  counted once.
\<close>

theorem cancellation_report_sound:
  assumes "order_venues h registry view ok" "(did, a) \<in> set registry" "ok w" "cancel_open_orders h a w = (Inr c, w')"
  shows "(\<forall>bid. order_exists view did w bid \<longrightarrow> order_done view did w' bid \<or> bid \<in> set (cr_failed_order_ids c)) \<and>
    (\<exists>orders w1. a_list_open_orders a w = (Inr orders, w1) \<and>
       cr_cancelled_count c + cr_failed_count c = int (length (filter (\<lambda>r. os_broker_order_id r \<noteq> None) orders)))"
proof -
  from assms(4) obtain orders w1 n ids where l: "a_list_open_orders a w = (Inr orders, w1)"
      "cancel_orders h a orders 0 [] w1 = ((n, ids), w')" "cr_cancelled_count c = n" "cr_failed_count c = int (length ids)"
    by (auto simp: cancel_open_orders_def split: prod.splits sum.splits)
  with cancel_orders_account [OF l(2)] order_venues.cancel_open_orders_sound [OF assms] show ?thesis by auto
qed

theorem cancellation_report_sound_witness:
  "\<exists>c w'. cancel_open_orders paper_host (paper_adapter ''D1'') demo_world = (Inr c, w') \<and>
     cr_failed_order_ids c = [] \<and> cr_cancelled_count c = 1 \<and> order_done paper_view ''D1'' w' ''B1''"
proof -
  have mem: "(''D1'', paper_adapter ''D1'') \<in> set (paper_registry [''D1''])" by (simp add: paper_registry_mem)
  obtain c w' where c: "cancel_open_orders paper_host (paper_adapter ''D1'') demo_world = (Inr c, w')"
      "cr_failed_order_ids c = []" "cr_failed_count c = 0"
    using paper_halt.cancel_open_orders_succeeds [OF mem demo_world_ok] by blast
  note sound = cancellation_report_sound [OF paper_venues.order_venues_axioms mem demo_world_ok c(1)]
  have "order_done paper_view ''D1'' w' ''B1''" using sound demo_world_order c(2) by auto
  moreover have "cr_cancelled_count c = 1"
    using sound c(3) by (auto simp: on_broker_def demo_world_def demo_broker_eq list_open_orders_def dict_values_def new_response_def)
  ultimately show ?thesis using c by blast
qed

end
