(* ===== verification/Order_Store.thy ===== *)
theory Order_Store
  imports Contracts
begin

text \<open>
  Orders and execution events in the database: the interfaces
  \<open>libs/contracts/interfaces/order_repository_interface.py\<close> and
  \<open>execution_event_repository_interface.py\<close> with the transaction manager, as records of operations on
  a database session, their contract as a locale, and the SQL implementation
  (\<open>services/api/repositories/sql_order_repository.py\<close>, \<open>sql_execution_event_repository.py\<close>,
  \<open>sql_transaction_manager.py\<close>, table \<open>orders\<close> of \<open>libs/contracts/models.py\<close>), which provides it. A
  session sees its own writes; they become durable when it commits. Enumeration values and decimals,
  stored as texts, are modelled by the values; generated identifiers and clock readings are arguments.
\<close>

section \<open>Data\<close>

record order_record =
  or_id :: string
  or_client_order_id :: string
  or_deployment_id :: string
  or_strategy_id :: string
  or_symbol :: string
  or_side :: order_side
  or_order_type :: order_type
  or_quantity :: decimal
  or_limit_price :: "decimal option"
  or_stop_price :: "decimal option"
  or_time_in_force :: time_in_force
  or_status :: order_status
  or_broker_order_id :: "string option"
  or_submitted_at :: "datetime option"
  or_filled_at :: "datetime option"
  or_cancelled_at :: "datetime option"
  or_average_fill_price :: "decimal option"
  or_filled_quantity :: decimal
  or_rejected_reason :: "string option"
  or_correlation_id :: string
  or_execution_mode :: execution_mode
  or_row_version :: int
  or_created_at :: datetime
  or_updated_at :: datetime

record execution_event =
  ee_id :: string
  ee_order_id :: string
  ee_event_type :: string
  ee_timestamp :: datetime
  ee_details :: "(string \<times> json) list"
  ee_correlation_id :: string

text \<open>The arguments of \<open>save\<close>.\<close>

record new_order =
  no_client_order_id :: string
  no_deployment_id :: string
  no_strategy_id :: string
  no_symbol :: string
  no_side :: order_side
  no_order_type :: order_type
  no_quantity :: decimal
  no_time_in_force :: time_in_force
  no_status :: order_status
  no_correlation_id :: string
  no_execution_mode :: execution_mode
  no_limit_price :: "decimal option"
  no_stop_price :: "decimal option"
  no_broker_order_id :: "string option"

text \<open>The arguments of \<open>update_status\<close>. A time is documented as an ISO text; some callers pass a
  \<open>datetime\<close> object.\<close>

datatype time_arg = IsoText datetime | DateTime datetime

record status_update =
  su_status :: order_status
  su_broker_order_id :: "string option"
  su_submitted_at :: "time_arg option"
  su_filled_at :: "time_arg option"
  su_cancelled_at :: "time_arg option"
  su_average_fill_price :: "decimal option"
  su_filled_quantity :: "decimal option"
  su_rejected_reason :: "string option"
  su_expected_version :: "int option"

definition only_status :: "order_status \<Rightarrow> status_update" where
  "only_status st =
     \<lparr>su_status = st, su_broker_order_id = None, su_submitted_at = None, su_filled_at = None,
      su_cancelled_at = None, su_average_fill_price = None, su_filled_quantity = None,
      su_rejected_reason = None, su_expected_version = None\<rparr>"

definition new_record :: "string \<Rightarrow> datetime \<Rightarrow> new_order \<Rightarrow> order_record" where
  "new_record oid now n =
     \<lparr>or_id = oid, or_client_order_id = no_client_order_id n, or_deployment_id = no_deployment_id n,
      or_strategy_id = no_strategy_id n, or_symbol = no_symbol n, or_side = no_side n,
      or_order_type = no_order_type n, or_quantity = no_quantity n, or_limit_price = no_limit_price n,
      or_stop_price = no_stop_price n, or_time_in_force = no_time_in_force n, or_status = no_status n,
      or_broker_order_id = no_broker_order_id n, or_submitted_at = None, or_filled_at = None,
      or_cancelled_at = None, or_average_fill_price = None, or_filled_quantity = 0,
      or_rejected_reason = None, or_correlation_id = no_correlation_id n,
      or_execution_mode = no_execution_mode n, or_row_version = 1, or_created_at = now, or_updated_at = now\<rparr>"

section \<open>The interfaces\<close>

record 's order_repo =
  od_save :: "string \<Rightarrow> datetime \<Rightarrow> new_order \<Rightarrow> 's \<Rightarrow> (exn, order_record) result \<times> 's"
  od_get_by_id :: "'s \<Rightarrow> string \<Rightarrow> (exn, order_record) result"
  od_get_by_client_order_id :: "'s \<Rightarrow> string \<Rightarrow> order_record option"
  od_get_by_broker_order_id :: "'s \<Rightarrow> string \<Rightarrow> order_record option"
  od_list_by_deployment :: "'s \<Rightarrow> string \<Rightarrow> order_status option \<Rightarrow> order_record list"
  od_list_open_by_deployment :: "'s \<Rightarrow> string \<Rightarrow> order_record list"
  od_update_status :: "datetime \<Rightarrow> string \<Rightarrow> status_update \<Rightarrow> 's \<Rightarrow> (exn, order_record) result \<times> 's"

record 's event_repo =
  ev_save :: "string \<Rightarrow> string \<Rightarrow> string \<Rightarrow> datetime \<Rightarrow> (string \<times> json) list option \<Rightarrow> string \<Rightarrow> 's \<Rightarrow>
    (exn, execution_event) result \<times> 's"
  ev_list_by_order :: "'s \<Rightarrow> string \<Rightarrow> execution_event list"

record 's transaction_manager =
  tx_commit :: "'s \<Rightarrow> (exn, unit) result \<times> 's"
  tx_rollback :: "'s \<Rightarrow> 's"

text \<open>
  The contract, in terms of the orders that the session sees (\<open>orders\<close>) and those that survive a
  crash (\<open>durable\<close>). \<open>restart\<close> is the session after a crash. No operation loses an order; an update of
  an order keeps what it asks for.
\<close>

definition same_order :: "order_record \<Rightarrow> order_record \<Rightarrow> bool" where
  "same_order r r' \<longleftrightarrow> or_id r' = or_id r \<and> or_client_order_id r' = or_client_order_id r \<and>
     or_deployment_id r' = or_deployment_id r \<and> or_symbol r' = or_symbol r \<and> or_side r' = or_side r \<and>
     or_quantity r' = or_quantity r"

lemma same_order_refl [simp]: "same_order r r"
  by (simp add: same_order_def)

locale order_store =
  fixes repo :: "'s order_repo" and erepo :: "'s event_repo" and tx :: "'s transaction_manager"
    and orders :: "'s \<Rightarrow> string \<Rightarrow> order_record option" and durable :: "'s \<Rightarrow> string \<Rightarrow> order_record option"
    and restart :: "'s \<Rightarrow> 's" and invar :: "'s \<Rightarrow> bool"
  assumes client_some: "invar s \<Longrightarrow> od_get_by_client_order_id repo s cid = Some r \<Longrightarrow>
      orders s (or_id r) = Some r \<and> or_client_order_id r = cid"
    and client_none: "invar s \<Longrightarrow> od_get_by_client_order_id repo s cid = None \<Longrightarrow> orders s oid = Some r \<Longrightarrow>
      or_client_order_id r \<noteq> cid"
    and broker_some: "invar s \<Longrightarrow> od_get_by_broker_order_id repo s bid = Some r \<Longrightarrow>
      orders s (or_id r) = Some r \<and> or_broker_order_id r = Some bid"
    and save_ok: "invar s \<Longrightarrow> od_save repo oid now n s = (Inr r, s') \<Longrightarrow>
      invar s' \<and> orders s oid = None \<and> r = new_record oid now n \<and> orders s' = (orders s)(oid \<mapsto> r) \<and> durable s' = durable s \<and>
      (\<forall>oid' r'. orders s oid' = Some r' \<longrightarrow> or_client_order_id r' \<noteq> no_client_order_id n)"
    and save_raised: "invar s \<Longrightarrow> od_save repo oid now n s = (Inl e, s') \<Longrightarrow>
      invar s' \<and> durable s' = durable s \<and> (orders s' = orders s \<or> orders s' = durable s)"
    and update_found: "invar s \<Longrightarrow> orders s oid = Some r \<Longrightarrow> od_update_status repo now oid u s = (res, s') \<Longrightarrow>
      \<exists>r'. invar s' \<and> orders s' = (orders s)(oid \<mapsto> r') \<and> same_order r r' \<and> durable s' = durable s \<and>
        (\<forall>r1. res = Inr r1 \<longrightarrow> r1 = r' \<and> or_status r' = su_status u \<and>
           or_broker_order_id r' = (case su_broker_order_id u of None \<Rightarrow> or_broker_order_id r | Some b \<Rightarrow> Some b))"
    and update_missing: "invar s \<Longrightarrow> orders s oid = None \<Longrightarrow> od_update_status repo now oid u s = (Inl NotFoundError, s)"
    and event_kept: "invar s \<Longrightarrow> ev_save erepo eid oid ty now det corr s = (eres, s') \<Longrightarrow>
      invar s' \<and> durable s' = durable s \<and> (orders s' = orders s \<or> orders s' = durable s)"
    and event_saved: "invar s \<Longrightarrow> ev_save erepo eid oid ty now det corr s = (Inr ev, s') \<Longrightarrow> orders s' = orders s"
    and commit_done: "invar s \<Longrightarrow> tx_commit tx s = (Inr (), s') \<Longrightarrow>
      invar s' \<and> orders s' = orders s \<and> durable s' = orders s"
    and commit_raised: "invar s \<Longrightarrow> tx_commit tx s = (Inl e, s') \<Longrightarrow>
      invar s' \<and> durable s' = durable s \<and> (orders s' = orders s \<or> orders s' = durable s)"
    and restarted: "invar s \<Longrightarrow> invar (restart s) \<and> orders (restart s) = durable s \<and> durable (restart s) = durable s"

section \<open>The SQL session\<close>

text \<open>The tables as the session sees them, as they were at the last commit, and the keys that the
  foreign keys of \<open>orders\<close> refer to. A flush that violates a constraint rolls the session back.\<close>

record sql_db =
  db_orders :: "(string, order_record) dict"
  db_events :: "execution_event list"
  db_committed_orders :: "(string, order_record) dict"
  db_committed_events :: "execution_event list"
  db_deployment_ids :: "string list"
  db_strategy_ids :: "string list"

definition sql_init :: "string list \<Rightarrow> string list \<Rightarrow> sql_db" where
  "sql_init deployments strategies =
     \<lparr>db_orders = [], db_events = [], db_committed_orders = [], db_committed_events = [],
      db_deployment_ids = deployments, db_strategy_ids = strategies\<rparr>"

definition sql_rollback :: "sql_db \<Rightarrow> sql_db" where
  "sql_rollback s = s\<lparr>db_orders := db_committed_orders s, db_events := db_committed_events s\<rparr>"

definition sql_commit :: "sql_db \<Rightarrow> (exn, unit) result \<times> sql_db" where
  "sql_commit s = (Inr (), s\<lparr>db_committed_orders := db_orders s, db_committed_events := db_events s\<rparr>)"

definition sql_save :: "string \<Rightarrow> datetime \<Rightarrow> new_order \<Rightarrow> sql_db \<Rightarrow> (exn, order_record) result \<times> sql_db" where
  "sql_save oid now n s =
     (if dict_has (db_orders s) oid \<or>
         list_ex (\<lambda>r. or_client_order_id r = no_client_order_id n) (dict_values (db_orders s)) \<or>
         \<not> no_deployment_id n \<in> set (db_deployment_ids s) \<or> \<not> no_strategy_id n \<in> set (db_strategy_ids s)
      then (Inl (PyError ''sqlalchemy.IntegrityError''), sql_rollback s)
      else let order = new_record oid now n
           in (Inr order, s\<lparr>db_orders := dict_set oid order (db_orders s)\<rparr>))"

definition sql_get_by_id :: "sql_db \<Rightarrow> string \<Rightarrow> (exn, order_record) result" where
  "sql_get_by_id s oid = (case dict_get (db_orders s) oid of None \<Rightarrow> Inl NotFoundError | Some r \<Rightarrow> Inr r)"

definition sql_get_by_client_order_id :: "sql_db \<Rightarrow> string \<Rightarrow> order_record option" where
  "sql_get_by_client_order_id s cid = find (\<lambda>r. or_client_order_id r = cid) (dict_values (db_orders s))"

definition sql_get_by_broker_order_id :: "sql_db \<Rightarrow> string \<Rightarrow> order_record option" where
  "sql_get_by_broker_order_id s bid = find (\<lambda>r. or_broker_order_id r = Some bid) (dict_values (db_orders s))"

definition sql_list_by_deployment :: "sql_db \<Rightarrow> string \<Rightarrow> order_status option \<Rightarrow> order_record list" where
  "sql_list_by_deployment s did st =
     sort_key (\<lambda>r. - or_created_at r)
       (filter (\<lambda>r. or_deployment_id r = did \<and> (case st of None \<Rightarrow> True | Some x \<Rightarrow> or_status r = x))
          (dict_values (db_orders s)))"

definition non_terminal_statuses :: "order_status list" where
  "non_terminal_statuses = [PENDING, SUBMITTED, PARTIAL_FILL]"

definition sql_list_open_by_deployment :: "sql_db \<Rightarrow> string \<Rightarrow> order_record list" where
  "sql_list_open_by_deployment s did =
     sort_key (\<lambda>r. - or_created_at r)
       (filter (\<lambda>r. or_deployment_id r = did \<and> or_status r \<in> set non_terminal_statuses)
          (dict_values (db_orders s)))"

text \<open>\<open>datetime.fromisoformat\<close> raises when its argument is not a text. The fields of the row are set one
  by one, and an exception leaves the earlier ones changed.\<close>

definition from_iso :: "time_arg option \<Rightarrow> datetime option \<Rightarrow> (exn, datetime option) result" where
  "from_iso t old =
     (case t of None \<Rightarrow> Inr old | Some (IsoText x) \<Rightarrow> Inr (Some x) | Some (DateTime x) \<Rightarrow> Inl (PyError ''TypeError''))"

definition set_fields :: "datetime \<Rightarrow> status_update \<Rightarrow> order_record \<Rightarrow> exn option \<times> order_record" where
  "set_fields now u r =
     (let r1 = r\<lparr>or_status := su_status u,
                 or_broker_order_id := (case su_broker_order_id u of None \<Rightarrow> or_broker_order_id r | Some b \<Rightarrow> Some b)\<rparr>
      in case from_iso (su_submitted_at u) (or_submitted_at r1) of
           Inl e \<Rightarrow> (Some e, r1)
         | Inr t1 \<Rightarrow>
             let r2 = r1\<lparr>or_submitted_at := t1\<rparr>
             in (case from_iso (su_filled_at u) (or_filled_at r2) of
                   Inl e \<Rightarrow> (Some e, r2)
                 | Inr t2 \<Rightarrow>
                     let r3 = r2\<lparr>or_filled_at := t2\<rparr>
                     in (case from_iso (su_cancelled_at u) (or_cancelled_at r3) of
                           Inl e \<Rightarrow> (Some e, r3)
                         | Inr t3 \<Rightarrow>
                             (None,
                              r3\<lparr>or_cancelled_at := t3,
                                 or_average_fill_price :=
                                   (case su_average_fill_price u of None \<Rightarrow> or_average_fill_price r3 | Some p \<Rightarrow> Some p),
                                 or_filled_quantity :=
                                   (case su_filled_quantity u of None \<Rightarrow> or_filled_quantity r3 | Some q \<Rightarrow> q),
                                 or_rejected_reason :=
                                   (case su_rejected_reason u of None \<Rightarrow> or_rejected_reason r3 | Some t \<Rightarrow> Some t),
                                 or_row_version := or_row_version r3 + 1, or_updated_at := now\<rparr>))))"

text \<open>\<open>OptimisticLockError\<close> is an exception of its own, outside the hierarchy of \<open>libs/contracts/errors.py\<close>.\<close>

definition sql_update_status ::
  "datetime \<Rightarrow> string \<Rightarrow> status_update \<Rightarrow> sql_db \<Rightarrow> (exn, order_record) result \<times> sql_db" where
  "sql_update_status now oid u s =
     (case dict_get (db_orders s) oid of
        None \<Rightarrow> (Inl NotFoundError, s)
      | Some r \<Rightarrow>
          if (case su_expected_version u of None \<Rightarrow> False | Some v \<Rightarrow> or_row_version r \<noteq> v)
          then (Inl (PyError ''OptimisticLockError''), s)
          else (case set_fields now u r of
                  (Some e, r') \<Rightarrow> (Inl e, s\<lparr>db_orders := dict_set oid r' (db_orders s)\<rparr>)
                | (None, r') \<Rightarrow> (Inr r', s\<lparr>db_orders := dict_set oid r' (db_orders s)\<rparr>)))"

definition sql_event_save ::
  "string \<Rightarrow> string \<Rightarrow> string \<Rightarrow> datetime \<Rightarrow> (string \<times> json) list option \<Rightarrow> string \<Rightarrow> sql_db \<Rightarrow>
     (exn, execution_event) result \<times> sql_db" where
  "sql_event_save eid oid ty now det corr s =
     (if \<not> dict_has (db_orders s) oid \<or> list_ex (\<lambda>e. ee_id e = eid) (db_events s)
      then (Inl (PyError ''sqlalchemy.IntegrityError''), sql_rollback s)
      else let event = \<lparr>ee_id = eid, ee_order_id = oid, ee_event_type = ty, ee_timestamp = now,
                        ee_details = (case det of None \<Rightarrow> [] | Some d \<Rightarrow> d), ee_correlation_id = corr\<rparr>
           in (Inr event, s\<lparr>db_events := db_events s @ [event]\<rparr>))"

definition sql_list_by_order :: "sql_db \<Rightarrow> string \<Rightarrow> execution_event list" where
  "sql_list_by_order s oid = sort_key ee_timestamp (filter (\<lambda>e. ee_order_id e = oid) (db_events s))"

definition sql_order_repo :: "sql_db order_repo" where
  "sql_order_repo =
     \<lparr>od_save = sql_save, od_get_by_id = sql_get_by_id, od_get_by_client_order_id = sql_get_by_client_order_id,
      od_get_by_broker_order_id = sql_get_by_broker_order_id, od_list_by_deployment = sql_list_by_deployment,
      od_list_open_by_deployment = sql_list_open_by_deployment, od_update_status = sql_update_status\<rparr>"

definition sql_event_repo :: "sql_db event_repo" where
  "sql_event_repo = \<lparr>ev_save = sql_event_save, ev_list_by_order = sql_list_by_order\<rparr>"

definition sql_tx :: "sql_db transaction_manager" where
  "sql_tx = \<lparr>tx_commit = sql_commit, tx_rollback = sql_rollback\<rparr>"

lemma sql_order_repo_sel [simp]:
  "od_save sql_order_repo = sql_save" "od_get_by_id sql_order_repo = sql_get_by_id"
  "od_get_by_client_order_id sql_order_repo = sql_get_by_client_order_id"
  "od_get_by_broker_order_id sql_order_repo = sql_get_by_broker_order_id"
  "od_list_by_deployment sql_order_repo = sql_list_by_deployment"
  "od_list_open_by_deployment sql_order_repo = sql_list_open_by_deployment"
  "od_update_status sql_order_repo = sql_update_status"
  "ev_save sql_event_repo = sql_event_save" "ev_list_by_order sql_event_repo = sql_list_by_order"
  "tx_commit sql_tx = sql_commit" "tx_rollback sql_tx = sql_rollback"
  by (simp_all add: sql_order_repo_def sql_event_repo_def sql_tx_def)

text \<open>Rows are stored under their primary keys.\<close>

definition table_ok :: "(string, order_record) dict \<Rightarrow> bool" where
  "table_ok t \<longleftrightarrow> dict_ok t \<and> (\<forall>oid r. dict_get t oid = Some r \<longrightarrow> or_id r = oid)"

definition sql_inv :: "sql_db \<Rightarrow> bool" where
  "sql_inv s \<longleftrightarrow> table_ok (db_orders s) \<and> table_ok (db_committed_orders s)"

abbreviation sql_orders :: "sql_db \<Rightarrow> string \<Rightarrow> order_record option" where
  "sql_orders s \<equiv> dict_get (db_orders s)"

abbreviation sql_durable :: "sql_db \<Rightarrow> string \<Rightarrow> order_record option" where
  "sql_durable s \<equiv> dict_get (db_committed_orders s)"

lemma sql_inv_init [simp]: "sql_inv (sql_init ds ss)"
  by (simp add: sql_inv_def table_ok_def sql_init_def)

lemma table_ok_set: "table_ok t \<Longrightarrow> or_id r = oid \<Longrightarrow> table_ok (dict_set oid r t)"
  by (auto simp: table_ok_def)

lemma table_mem: "table_ok t \<Longrightarrow> r \<in> set (dict_values t) \<longleftrightarrow> dict_get t (or_id r) = Some r"
  by (auto simp: table_ok_def dict_values_get)

lemma table_find:
  "table_ok t \<Longrightarrow> find P (dict_values t) = Some r \<Longrightarrow> dict_get t (or_id r) = Some r \<and> P r"
  using table_mem by (fastforce simp: find_Some_iff)

lemma table_find_none: "table_ok t \<Longrightarrow> find P (dict_values t) = None \<Longrightarrow> dict_get t oid = Some r \<Longrightarrow> \<not> P r"
  using dict_values_get [of t r] by (auto simp: find_None_iff table_ok_def)

lemma set_fields_same: "same_order r (snd (set_fields now u r))"
  by (simp add: set_fields_def Let_def same_order_def split: sum.splits)

lemma set_fields_done:
  "set_fields now u r = (None, r') \<Longrightarrow> or_status r' = su_status u \<and>
   or_broker_order_id r' = (case su_broker_order_id u of None \<Rightarrow> or_broker_order_id r | Some b \<Rightarrow> Some b)"
  by (auto simp: set_fields_def Let_def split: sum.splits)

lemma sql_inv_rollback [simp]: "sql_inv s \<Longrightarrow> sql_inv (sql_rollback s)"
  by (simp add: sql_inv_def sql_rollback_def)

lemma sql_update_cases:
  assumes "sql_inv s" "dict_get (db_orders s) oid = Some r" "sql_update_status now oid u s = (res, s')"
  shows "\<exists>r'. sql_inv s' \<and> db_orders s' = dict_set oid r' (db_orders s) \<and>
    same_order r r' \<and> db_committed_orders s' = db_committed_orders s \<and> db_events s' = db_events s \<and>
    (\<forall>r1. res = Inr r1 \<longrightarrow> r1 = r' \<and> set_fields now u r = (None, r'))"
proof -
  obtain x r' where f: "set_fields now u r = (x, r')" by fastforce
  have same: "same_order r r'" using set_fields_same [of r now u] by (simp add: f)
  have t: "table_ok (db_orders s)" and id: "or_id r = oid" using assms(1,2) by (auto simp: sql_inv_def table_ok_def)
  show ?thesis
  proof (cases "case su_expected_version u of None \<Rightarrow> False | Some v \<Rightarrow> or_row_version r \<noteq> v")
    case True
    with assms show ?thesis by (intro exI [of _ r]) (auto simp: sql_update_status_def update_triv)
  next
    case False
    have "table_ok (dict_set oid r' (db_orders s))"
      using same id by (intro table_ok_set [OF t]) (simp add: same_order_def)
    with False assms f same show ?thesis
      by (intro exI [of _ r']) (cases x, auto simp: sql_update_status_def sql_inv_def)
  qed
qed

interpretation sql: order_store sql_order_repo sql_event_repo sql_tx sql_orders sql_durable sql_rollback sql_inv
proof (unfold_locales, goal_cases)
  case (1 s cid r)
  then show ?case by (auto simp: sql_get_by_client_order_id_def sql_inv_def dest: table_find)
next
  case (2 s cid oid r)
  then show ?case by (auto simp: sql_get_by_client_order_id_def sql_inv_def dest: table_find_none)
next
  case (3 s bid r)
  then show ?case by (auto simp: sql_get_by_broker_order_id_def sql_inv_def dest: table_find)
next
  case (4 s oid now n r s')
  have t: "table_ok (db_orders s)" using 4(1) by (simp add: sql_inv_def)
  have free: "\<not> list_ex (\<lambda>r. or_client_order_id r = no_client_order_id n) (dict_values (db_orders s))"
    using 4(2) by (auto simp: sql_save_def split: if_splits)
  have "or_client_order_id r' \<noteq> no_client_order_id n" if "dict_get (db_orders s) oid' = Some r'" for oid' r'
    using free that dict_values_get [of "db_orders s" r'] t by (auto simp: list_ex_iff table_ok_def)
  moreover have "r = new_record oid now n" "s' = s\<lparr>db_orders := dict_set oid r (db_orders s)\<rparr>"
    "dict_get (db_orders s) oid = None"
    using 4(2) by (auto simp: sql_save_def Let_def split: if_splits)
  ultimately show ?case using 4(1) table_ok_set [OF t, of r oid]
    by (auto simp: sql_inv_def new_record_def fun_eq_iff)
next
  case (5 s oid now n e s')
  then show ?case by (auto simp: sql_save_def Let_def sql_rollback_def sql_inv_def split: if_splits)
next
  case (6 s oid r now u res s')
  obtain r' where r': "sql_inv s'" "db_orders s' = dict_set oid r' (db_orders s)" "same_order r r'"
      "db_committed_orders s' = db_committed_orders s" "\<forall>r1. res = Inr r1 \<longrightarrow> r1 = r' \<and> set_fields now u r = (None, r')"
    using sql_update_cases [OF 6(1,2), of now u res s'] 6(3) by auto
  then show ?case using set_fields_done [of now u r r'] by (intro exI [of _ r']) (auto simp: fun_eq_iff)
next
  case (8 s eid oid ty now det corr eres s')
  then show ?case by (auto simp: sql_event_save_def Let_def sql_rollback_def sql_inv_def split: if_splits)
next
  case (9 s eid oid ty now det corr ev s')
  then show ?case by (auto simp: sql_event_save_def Let_def split: if_splits)
next
  case (12 s)
  then show ?case by (auto simp: sql_rollback_def sql_inv_def)
qed (auto simp: sql_update_status_def sql_commit_def sql_inv_def)

end
