(* ===== verification/Live_Execution.thy ===== *)
theory Live_Execution
  imports Order_Store Risk_Gate Kill_Switch
begin

text \<open>
  The live execution service, \<open>services/api/services/live_execution_service.py\<close>: an order for a live
  deployment passes the environment check, the deployment's state, the adapter's kind, the kill
  switch, the idempotency check and the risk gate, is committed to the database, and only then goes to
  the broker; the broker's answer is stored and committed. The submission is split where the code
  calls the broker, because the process may crash on either side of that call. Metrics and log lines
  are left out; the text of an exception is a function of the exception.
\<close>

section \<open>State\<close>

record position_cache =
  pc_positions :: "position_snapshot list"
  pc_account :: account_snapshot
  pc_timestamp :: rat
  pc_pending_exposure :: "(string, decimal) dict"

record ('s, 'w, 'e, 'd, 'r) live_service =
  lv_deployment_repo :: "'d deployment_repo"
  lv_order_repo :: "'s order_repo"
  lv_event_repo :: "'s event_repo"
  lv_risk_events :: "'e risk_event_repo"
  lv_registry :: "'w registry"
  lv_ks_repo :: "'r ks_repo"
  lv_tx :: "'s transaction_manager option"
  lv_cache_ttl :: rat
  lv_allowed_modes :: "string list"
  lv_exn_text :: "exn \<Rightarrow> string"

record ('s, 'w, 'e) live_state =
  ls_db :: 's
  ls_world :: 'w
  ls_risk :: 'e
  ls_cache :: "position_cache option"

text \<open>\<open>ALLOWED_EXECUTION_MODES\<close>, split at commas.\<close>

fun split_commas :: "string \<Rightarrow> string \<Rightarrow> string list" where
  "split_commas acc [] = [acc]"
| "split_commas acc (c # cs) = (if c = CHR '','' then acc # split_commas [] cs else split_commas (acc @ [c]) cs)"

definition allowed_modes :: "string option \<Rightarrow> string list" where
  "allowed_modes env = split_commas [] (case env of None \<Rightarrow> ''shadow,paper,live'' | Some t \<Rightarrow> t)"

section \<open>Sequencing\<close>

text \<open>The next statement runs unless the previous one raised.\<close>

definition then_do ::
  "(exn, 'a) result \<times> 't \<Rightarrow> ('a \<Rightarrow> 't \<Rightarrow> (exn, 'b) result \<times> 't) \<Rightarrow> (exn, 'b) result \<times> 't" where
  "then_do m f = (case m of (Inl e, t) \<Rightarrow> (Inl e, t) | (Inr x, t) \<Rightarrow> f x t)"

lemma then_do_simps [simp]: "then_do (Inl e, t) f = (Inl e, t)" "then_do (Inr x, t) f = f x t"
  by (simp_all add: then_do_def)

definition on_db :: "('s \<Rightarrow> (exn, 'a) result \<times> 's) \<Rightarrow> ('s, 'w, 'e) live_state \<Rightarrow> (exn, 'a) result \<times> ('s, 'w, 'e) live_state" where
  "on_db f st = (case f (ls_db st) of (res, s) \<Rightarrow> (res, st\<lparr>ls_db := s\<rparr>))"

definition on_world :: "('w \<Rightarrow> 'a \<times> 'w) \<Rightarrow> ('s, 'w, 'e) live_state \<Rightarrow> 'a \<times> ('s, 'w, 'e) live_state" where
  "on_world f st = (case f (ls_world st) of (res, w) \<Rightarrow> (res, st\<lparr>ls_world := w\<rparr>))"

section \<open>Helpers\<close>

definition is_position_cache_fresh ::
  "'w host \<Rightarrow> rat \<Rightarrow> ('s, 'w, 'e) live_state \<Rightarrow> bool \<times> ('s, 'w, 'e) live_state" where
  "is_position_cache_fresh h ttl st =
     (case ls_cache st of
        None \<Rightarrow> (False, st)
      | Some c \<Rightarrow> (case on_world (h_monotonic h) st of (now, st1) \<Rightarrow> (fl (now - pc_timestamp c) \<le> ttl, st1)))"

definition order_price :: "order_record \<Rightarrow> decimal option" where
  "order_price r = (case or_average_fill_price r of Some p \<Rightarrow> Some p | None \<Rightarrow> or_limit_price r)"

definition add_pending :: "(string, decimal) dict \<Rightarrow> order_record \<Rightarrow> (string, decimal) dict" where
  "add_pending d r =
     (if or_status r \<notin> set [SUBMITTED, PARTIAL_FILL] \<or> or_symbol r = [] then d
      else
        let pending_qty = dsub (or_quantity r) (or_filled_quantity r)
        in case order_price r of
             None \<Rightarrow> d
           | Some price \<Rightarrow>
               if price \<noteq> 0 \<and> 0 < pending_qty then
                 dict_set (or_symbol r)
                   (dadd (case dict_get d (or_symbol r) of None \<Rightarrow> 0 | Some v \<Rightarrow> v) (dmul pending_qty price)) d
               else d)"

definition calculate_pending_exposure :: "'s order_repo \<Rightarrow> string \<Rightarrow> 's \<Rightarrow> (string, decimal) dict" where
  "calculate_pending_exposure repo did s = foldl add_pending [] (od_list_open_by_deployment repo s did)"

text \<open>The cache has no key: it is the same for all deployments. The pending exposure is stored in it
  and read by nothing.\<close>

definition get_cached_or_fresh ::
  "('s, 'w, 'e, 'd, 'r) live_service \<Rightarrow> 'w host \<Rightarrow> string \<Rightarrow> 'w adapter \<Rightarrow> ('s, 'w, 'e) live_state \<Rightarrow>
     (exn, position_snapshot list \<times> account_snapshot) result \<times> ('s, 'w, 'e) live_state" where
  "get_cached_or_fresh lv h did a st =
     (case is_position_cache_fresh h (lv_cache_ttl lv) st of
        (True, st1) \<Rightarrow>
          (case ls_cache st1 of
             None \<Rightarrow> (Inl (PyError ''AssertionError''), st1)
           | Some c \<Rightarrow> (Inr (pc_positions c, pc_account c), st1))
      | (False, st1) \<Rightarrow>
          then_do (on_world (a_get_positions a) st1) (\<lambda>positions st2.
          then_do (on_world (a_get_account a) st2) (\<lambda>account st3.
          let exposure = calculate_pending_exposure (lv_order_repo lv) did (ls_db st3)
          in case on_world (h_monotonic h) st3 of (now, st4) \<Rightarrow>
               (Inr (positions, account),
                st4\<lparr>ls_cache := Some \<lparr>pc_positions = positions, pc_account = account, pc_timestamp = now,
                                     pc_pending_exposure = exposure\<rparr>\<rparr>))))"

definition validate_deployment ::
  "('s, 'w, 'e, 'd, 'r) live_service \<Rightarrow> 'd \<Rightarrow> string \<Rightarrow> (exn, unit) result" where
  "validate_deployment lv d did =
     (case dr_get_by_id (lv_deployment_repo lv) d did of
        None \<Rightarrow> Inl NotFoundError
      | Some rec \<Rightarrow>
          if dp_state rec \<noteq> ''active'' then Inl (StateTransitionError (Some (dp_state rec)) (Some ''active''))
          else if dp_execution_mode rec \<noteq> ''live''
          then Inl (StateTransitionError (Some (dp_execution_mode rec)) (Some ''live''))
          else if \<not> reg_is_registered (lv_registry lv) did then Inl NotFoundError
          else Inr ())"

definition check_kill_switch ::
  "('s, 'w, 'e, 'd, 'r) live_service \<Rightarrow> 'r \<Rightarrow> string \<Rightarrow> string option \<Rightarrow> string option \<Rightarrow> (exn, unit) result" where
  "check_kill_switch lv r did strategy symbol =
     (if is_halted (lv_ks_repo lv) r did strategy symbol
      then Inl (KillSwitchActiveError ''deployment'' did did) else Inr ())"

definition lv_record_event ::
  "('s, 'w, 'e, 'd, 'r) live_service \<Rightarrow> 'w host \<Rightarrow> string \<Rightarrow> string \<Rightarrow> string \<Rightarrow> (string \<times> json) list \<Rightarrow>
     ('s, 'w, 'e) live_state \<Rightarrow> (exn, unit) result \<times> ('s, 'w, 'e) live_state" where
  "lv_record_event lv h oid ty corr details st =
     (case on_world (h_now h) st of (now, st1) \<Rightarrow>
      case on_world (h_ulid h) st1 of (eid, st2) \<Rightarrow>
        then_do (on_db (ev_save (lv_event_repo lv) eid oid ty now (Some details) corr) st2) (\<lambda>_ st3. (Inr (), st3)))"

definition lv_update ::
  "('s, 'w, 'e, 'd, 'r) live_service \<Rightarrow> 'w host \<Rightarrow> string \<Rightarrow> status_update \<Rightarrow> ('s, 'w, 'e) live_state \<Rightarrow>
     (exn, unit) result \<times> ('s, 'w, 'e) live_state" where
  "lv_update lv h oid u st =
     (case on_world (h_now h) st of (now, st1) \<Rightarrow>
        then_do (on_db (od_update_status (lv_order_repo lv) now oid u) st1) (\<lambda>_ st2. (Inr (), st2)))"

definition lv_commit ::
  "('s, 'w, 'e, 'd, 'r) live_service \<Rightarrow> ('s, 'w, 'e) live_state \<Rightarrow> (exn, unit) result \<times> ('s, 'w, 'e) live_state" where
  "lv_commit lv st = (case lv_tx lv of None \<Rightarrow> (Inr (), st) | Some tx \<Rightarrow> on_db (tx_commit tx) st)"

section \<open>Submission\<close>

definition stored_response :: "order_record \<Rightarrow> order_response" where
  "stored_response r =
     \<lparr>os_client_order_id = or_client_order_id r, os_broker_order_id = or_broker_order_id r,
      os_symbol = or_symbol r, os_side = or_side r, os_order_type = or_order_type r,
      os_quantity = or_quantity r, os_filled_quantity = or_filled_quantity r,
      os_average_fill_price = or_average_fill_price r, os_status = or_status r,
      os_limit_price = or_limit_price r, os_stop_price = or_stop_price r,
      os_time_in_force = or_time_in_force r, os_submitted_at = or_submitted_at r,
      os_filled_at = or_filled_at r, os_cancelled_at = or_cancelled_at r,
      os_rejected_reason = or_rejected_reason r, os_correlation_id = or_correlation_id r,
      os_execution_mode = or_execution_mode r\<rparr>"

definition nonzero :: "decimal option \<Rightarrow> decimal option" where
  "nonzero p = (case p of None \<Rightarrow> None | Some x \<Rightarrow> if x = 0 then None else Some x)"

definition live_order :: "string \<Rightarrow> order_request \<Rightarrow> string \<Rightarrow> new_order" where
  "live_order did rq corr =
     \<lparr>no_client_order_id = rq_client_order_id rq, no_deployment_id = did, no_strategy_id = rq_strategy_id rq,
      no_symbol = rq_symbol rq, no_side = rq_side rq, no_order_type = rq_order_type rq,
      no_quantity = rq_quantity rq, no_time_in_force = rq_time_in_force rq, no_status = PENDING,
      no_correlation_id = corr, no_execution_mode = LIVE, no_limit_price = nonzero (rq_limit_price rq),
      no_stop_price = nonzero (rq_stop_price rq), no_broker_order_id = None\<rparr>"

text \<open>Steps 0 to 5, up to the call of the broker.\<close>

datatype 'w admission = Refused exn | Duplicate order_response | Admitted string "'w adapter"

text \<open>Steps 0 to 2 read only: the adapter to use, or the exception.\<close>

definition pre_checks ::
  "('s, 'w, 'e, 'd, 'r) live_service \<Rightarrow> 'd \<Rightarrow> 'r \<Rightarrow> string \<Rightarrow> order_request \<Rightarrow> (exn, 'w adapter) result" where
  "pre_checks lv d r did rq =
     (if ''live'' \<notin> set (lv_allowed_modes lv) then Inl ConfigError
      else
        bind_r (validate_deployment lv d did) (\<lambda>_.
        if lv_tx lv = None then Inl ConfigError
        else
          bind_r (reg_get (lv_registry lv) did) (\<lambda>a.
          case dr_get_by_id (lv_deployment_repo lv) d did of
            None \<Rightarrow> Inl (PyError ''TypeError'')
          | Some rec \<Rightarrow>
              if dp_execution_mode rec = ''live'' \<and> a_is_paper_adapter a then Inl ConfigError
              else bind_r (check_kill_switch lv r did (Some (rq_strategy_id rq)) (Some (rq_symbol rq))) (\<lambda>_. Inr a))))"

text \<open>Step 4: the risk gate on the cached or fresh account.\<close>

definition risk_step ::
  "('s, 'w, 'e, 'd, 'r) live_service \<Rightarrow> 'w host \<Rightarrow> event_ids \<Rightarrow> 'd \<Rightarrow> string \<Rightarrow> order_request \<Rightarrow> string \<Rightarrow> 'w adapter \<Rightarrow>
     ('s, 'w, 'e) live_state \<Rightarrow> (exn, unit) result \<times> ('s, 'w, 'e) live_state" where
  "risk_step lv h ids d did rq corr a st =
     then_do (get_cached_or_fresh lv h did a st) (\<lambda>(positions, account) st1.
       case enforce_order (lv_deployment_repo lv) (lv_risk_events lv) ids did rq positions account corr d (ls_risk st1) of
         (res, e) \<Rightarrow> (res, st1\<lparr>ls_risk := e\<rparr>))"

text \<open>Step 5: the order and the event \<open>risk_checked\<close>, committed before the broker is called.\<close>

definition persist_step ::
  "('s, 'w, 'e, 'd, 'r) live_service \<Rightarrow> 'w host \<Rightarrow> string \<Rightarrow> order_request \<Rightarrow> string \<Rightarrow> ('s, 'w, 'e) live_state \<Rightarrow>
     (exn, string) result \<times> ('s, 'w, 'e) live_state" where
  "persist_step lv h did rq corr st =
     (case on_world (h_ulid h) st of (oid, st1) \<Rightarrow>
      case on_world (h_now h) st1 of (now, st2) \<Rightarrow>
        then_do (on_db (od_save (lv_order_repo lv) oid now (live_order did rq corr)) st2) (\<lambda>rec st3.
        then_do (lv_record_event lv h (or_id rec) ''risk_checked'' corr
                   [(''result'', JStr ''passed''), (''deployment_id'', JStr did)] st3) (\<lambda>_ st4.
        then_do (lv_commit lv st4) (\<lambda>_ st5. (Inr (or_id rec), st5)))))"

definition admit_live_order ::
  "('s, 'w, 'e, 'd, 'r) live_service \<Rightarrow> 'w host \<Rightarrow> event_ids \<Rightarrow> 'd \<Rightarrow> 'r \<Rightarrow> string \<Rightarrow> order_request \<Rightarrow> string \<Rightarrow>
     ('s, 'w, 'e) live_state \<Rightarrow> 'w admission \<times> ('s, 'w, 'e) live_state" where
  "admit_live_order lv h ids d r did rq corr st =
     (case pre_checks lv d r did rq of
        Inl e \<Rightarrow> (Refused e, st)
      | Inr a \<Rightarrow>
          (case od_get_by_client_order_id (lv_order_repo lv) (ls_db st) (rq_client_order_id rq) of
             Some existing \<Rightarrow> (Duplicate (stored_response existing), st)
           | None \<Rightarrow>
               (case then_do (risk_step lv h ids d did rq corr a st) (\<lambda>_. persist_step lv h did rq corr) of
                  (Inl e, st1) \<Rightarrow> (Refused e, st1)
                | (Inr oid, st1) \<Rightarrow> (Admitted oid a, st1))))"

text \<open>Steps 6 and 7, after the broker has answered or raised.\<close>

definition broker_failed ::
  "('s, 'w, 'e, 'd, 'r) live_service \<Rightarrow> 'w host \<Rightarrow> string \<Rightarrow> string \<Rightarrow> exn \<Rightarrow> ('s, 'w, 'e) live_state \<Rightarrow>
     (exn, order_response) result \<times> ('s, 'w, 'e) live_state" where
  "broker_failed lv h oid corr e st =
     (let reason = ''Broker submission failed: '' @ lv_exn_text lv e
      in then_do (lv_update lv h oid ((only_status REJECTED)\<lparr>su_rejected_reason := Some reason\<rparr>) st) (\<lambda>_ st1.
         then_do (lv_record_event lv h oid ''rejected'' corr [(''reason'', JStr reason)] st1) (\<lambda>_ st2.
         then_do (lv_commit lv st2) (\<lambda>_ st3. (Inl ExternalServiceError, st3\<lparr>ls_cache := None\<rparr>)))))"

definition acknowledgement :: "order_response \<Rightarrow> status_update" where
  "acknowledgement resp =
     \<lparr>su_status = os_status resp, su_broker_order_id = os_broker_order_id resp,
      su_submitted_at = map_option IsoText (os_submitted_at resp),
      su_filled_at = map_option IsoText (os_filled_at resp), su_cancelled_at = None,
      su_average_fill_price = os_average_fill_price resp,
      su_filled_quantity = Some (os_filled_quantity resp),
      su_rejected_reason = (if os_rejected_reason resp = Some [] then None else os_rejected_reason resp),
      su_expected_version = None\<rparr>"

definition json_text :: "string option \<Rightarrow> json" where
  "json_text t = (case t of None \<Rightarrow> JNull | Some x \<Rightarrow> JStr x)"

definition json_decimal :: "decimal option \<Rightarrow> json" where
  "json_decimal p = (case p of None \<Rightarrow> JStr ''None'' | Some x \<Rightarrow> JNum x)"

definition broker_answered ::
  "('s, 'w, 'e, 'd, 'r) live_service \<Rightarrow> 'w host \<Rightarrow> string \<Rightarrow> string \<Rightarrow> order_response \<Rightarrow> ('s, 'w, 'e) live_state \<Rightarrow>
     (exn, order_response) result \<times> ('s, 'w, 'e) live_state" where
  "broker_answered lv h oid corr resp st =
     then_do (lv_update lv h oid (acknowledgement resp) st) (\<lambda>_ st1.
     then_do (lv_record_event lv h oid ''submitted'' corr
                [(''broker_order_id'', json_text (os_broker_order_id resp)),
                 (''broker_status'', JStr (status_value (os_status resp)))] st1) (\<lambda>_ st2.
     then_do (if os_status resp = FILLED
              then lv_record_event lv h oid ''filled'' corr
                     [(''broker_order_id'', json_text (os_broker_order_id resp)),
                      (''fill_price'', json_decimal (os_average_fill_price resp)),
                      (''filled_quantity'', JNum (os_filled_quantity resp))] st2
              else (Inr (), st2)) (\<lambda>_ st3.
     then_do (lv_commit lv st3) (\<lambda>_ st4. (Inr resp, st4\<lparr>ls_cache := None\<rparr>)))))"

definition submit_live_order ::
  "('s, 'w, 'e, 'd, 'r) live_service \<Rightarrow> 'w host \<Rightarrow> event_ids \<Rightarrow> 'd \<Rightarrow> 'r \<Rightarrow> string \<Rightarrow> order_request \<Rightarrow> string \<Rightarrow>
     ('s, 'w, 'e) live_state \<Rightarrow> (exn, order_response) result \<times> ('s, 'w, 'e) live_state" where
  "submit_live_order lv h ids d r did rq corr st =
     (case admit_live_order lv h ids d r did rq corr st of
        (Refused e, st1) \<Rightarrow> (Inl e, st1)
      | (Duplicate resp, st1) \<Rightarrow> (Inr resp, st1)
      | (Admitted oid a, st1) \<Rightarrow>
          (case on_world (a_submit_order a rq) st1 of
             (Inl e, st2) \<Rightarrow> broker_failed lv h oid corr e st2
           | (Inr resp, st2) \<Rightarrow> broker_answered lv h oid corr resp st2))"

section \<open>Cancellation, synchronisation and queries\<close>

definition cancel_live_order ::
  "('s, 'w, 'e, 'd, 'r) live_service \<Rightarrow> 'w host \<Rightarrow> string \<Rightarrow> string \<Rightarrow> string \<Rightarrow> ('s, 'w, 'e) live_state \<Rightarrow>
     (exn, order_response) result \<times> ('s, 'w, 'e) live_state" where
  "cancel_live_order lv h did bid corr st =
     (case od_get_by_broker_order_id (lv_order_repo lv) (ls_db st) bid of
        None \<Rightarrow> (Inl NotFoundError, st)
      | Some rec \<Rightarrow>
          (case reg_get (lv_registry lv) did of
             Inl e \<Rightarrow> (Inl e, st)
           | Inr a \<Rightarrow>
               then_do (on_world (a_cancel_order a bid) st) (\<lambda>resp st1.
               case (if os_status resp = CANCELLED
                     then (case on_world (h_now h) st1 of (now, st2) \<Rightarrow> (Some (IsoText now), st2))
                     else (None, st1)) of (cancelled_at, st2) \<Rightarrow>
               then_do (lv_update lv h (or_id rec) ((only_status (os_status resp))\<lparr>su_cancelled_at := cancelled_at\<rparr>) st2) (\<lambda>_ st3.
               then_do (lv_record_event lv h (or_id rec)
                          (if os_status resp = CANCELLED then ''cancelled'' else ''cancel_requested'') corr
                          [(''broker_order_id'', JStr bid), (''broker_status'', JStr (status_value (os_status resp)))] st3) (\<lambda>_ st4.
               then_do (lv_commit lv st4) (\<lambda>_ st5. (Inr resp, st5)))))))"

definition sync_order_status ::
  "('s, 'w, 'e, 'd, 'r) live_service \<Rightarrow> 'w host \<Rightarrow> string \<Rightarrow> string \<Rightarrow> string \<Rightarrow> ('s, 'w, 'e) live_state \<Rightarrow>
     (exn, order_response) result \<times> ('s, 'w, 'e) live_state" where
  "sync_order_status lv h did bid corr st =
     (case od_get_by_broker_order_id (lv_order_repo lv) (ls_db st) bid of
        None \<Rightarrow> (Inl NotFoundError, st)
      | Some rec \<Rightarrow>
          (case reg_get (lv_registry lv) did of
             Inl e \<Rightarrow> (Inl e, st)
           | Inr a \<Rightarrow>
               then_do (on_world (a_get_order a bid) st) (\<lambda>resp st1.
               then_do (lv_update lv h (or_id rec)
                          ((only_status (os_status resp))
                             \<lparr>su_filled_at := map_option IsoText (os_filled_at resp),
                              su_average_fill_price := os_average_fill_price resp,
                              su_filled_quantity := Some (os_filled_quantity resp)\<rparr>) st1) (\<lambda>_ st2.
               then_do (lv_record_event lv h (or_id rec) ''synced'' corr
                          [(''broker_order_id'', JStr bid), (''synced_status'', JStr (status_value (os_status resp)))] st2)
                 (\<lambda>_ st3. (Inr resp, st3))))))"

definition list_live_orders ::
  "('s, 'w, 'e, 'd, 'r) live_service \<Rightarrow> string \<Rightarrow> order_status option \<Rightarrow> ('s, 'w, 'e) live_state \<Rightarrow> order_record list" where
  "list_live_orders lv did st_filter st = od_list_by_deployment (lv_order_repo lv) (ls_db st) did st_filter"

definition get_live_positions ::
  "('s, 'w, 'e, 'd, 'r) live_service \<Rightarrow> string \<Rightarrow> ('s, 'w, 'e) live_state \<Rightarrow>
     (exn, position_snapshot list) result \<times> ('s, 'w, 'e) live_state" where
  "get_live_positions lv did st =
     (case reg_get (lv_registry lv) did of Inl e \<Rightarrow> (Inl e, st) | Inr a \<Rightarrow> on_world (a_get_positions a) st)"

definition get_live_account ::
  "('s, 'w, 'e, 'd, 'r) live_service \<Rightarrow> string \<Rightarrow> ('s, 'w, 'e) live_state \<Rightarrow>
     (exn, account_snapshot) result \<times> ('s, 'w, 'e) live_state" where
  "get_live_account lv did st =
     (case reg_get (lv_registry lv) did of Inl e \<Rightarrow> (Inl e, st) | Inr a \<Rightarrow> on_world (a_get_account a) st)"

text \<open>Totals of unrealized and realized profit, and the positions.\<close>

definition get_live_pnl ::
  "('s, 'w, 'e, 'd, 'r) live_service \<Rightarrow> string \<Rightarrow> ('s, 'w, 'e) live_state \<Rightarrow>
     (exn, decimal \<times> decimal \<times> position_snapshot list) result \<times> ('s, 'w, 'e) live_state" where
  "get_live_pnl lv did st =
     then_do (get_live_positions lv did st) (\<lambda>ps st1.
       (Inr (dsum (map ps_unrealized_pnl ps), dsum (map ps_realized_pnl ps), ps), st1))"

section \<open>The database under the service\<close>

text \<open>No order is lost: what was stored is still stored, with the same order under each key.\<close>

definition keeps_orders :: "(string \<Rightarrow> order_record option) \<Rightarrow> (string \<Rightarrow> order_record option) \<Rightarrow> bool" where
  "keeps_orders m m' \<longleftrightarrow> (\<forall>oid r. m oid = Some r \<longrightarrow> (\<exists>r'. m' oid = Some r' \<and> same_order r r'))"

lemma keeps_orders_refl [simp]: "keeps_orders m m"
  by (auto simp: keeps_orders_def)

lemma same_order_trans: "same_order r r' \<Longrightarrow> same_order r' r'' \<Longrightarrow> same_order r r''"
  by (simp add: same_order_def)

lemma keeps_orders_trans: "keeps_orders m m' \<Longrightarrow> keeps_orders m' m'' \<Longrightarrow> keeps_orders m m''"
  unfolding keeps_orders_def by (meson same_order_trans)

lemma keeps_orders_upd: "m oid = None \<Longrightarrow> keeps_orders m (m(oid \<mapsto> r))"
  "m oid = Some r \<Longrightarrow> same_order r r' \<Longrightarrow> keeps_orders m (m(oid \<mapsto> r'))"
  by (auto simp: keeps_orders_def)

definition client_known :: "(string \<Rightarrow> order_record option) \<Rightarrow> string \<Rightarrow> bool" where
  "client_known m cid \<longleftrightarrow> (\<exists>oid r. m oid = Some r \<and> or_client_order_id r = cid)"

lemma client_known_kept: "keeps_orders m m' \<Longrightarrow> client_known m cid \<Longrightarrow> client_known m' cid"
  unfolding keeps_orders_def client_known_def same_order_def by metis

locale live_store = order_store repo erepo tx orders durable restart invar
  for repo :: "'s order_repo" and erepo :: "'s event_repo" and tx :: "'s transaction_manager"
    and orders :: "'s \<Rightarrow> string \<Rightarrow> order_record option" and durable :: "'s \<Rightarrow> string \<Rightarrow> order_record option"
    and restart :: "'s \<Rightarrow> 's" and invar :: "'s \<Rightarrow> bool" +
  fixes lv :: "('s, 'w, 'e, 'd, 'r) live_service"
  assumes order_repo: "lv_order_repo lv = repo" and event_repo: "lv_event_repo lv = erepo" and tx_wired: "lv_tx lv = Some tx"
begin

text \<open>The session extends what is durable.\<close>

definition db_ok :: "'s \<Rightarrow> bool" where
  "db_ok s \<longleftrightarrow> invar s \<and> keeps_orders (durable s) (orders s)"

text \<open>What every operation of the service does to the database.\<close>

definition db_evolves :: "'s \<Rightarrow> 's \<Rightarrow> bool" where
  "db_evolves s s' \<longleftrightarrow> db_ok s' \<and> keeps_orders (durable s) (durable s')"

lemma db_evolves_refl [simp]: "db_ok s \<Longrightarrow> db_evolves s s"
  by (simp add: db_evolves_def)

lemma db_evolves_trans: "db_evolves s s1 \<Longrightarrow> db_evolves s1 s2 \<Longrightarrow> db_evolves s s2"
  unfolding db_evolves_def by (blast intro: keeps_orders_trans)

lemma db_evolves_ok: "db_evolves s s' \<Longrightarrow> db_ok s'"
  by (simp add: db_evolves_def)

lemma save_evolves:
  assumes "db_ok s" "od_save repo oid now n s = (res, s')"
  shows "db_evolves s s'"
proof (cases res)
  case (Inl e)
  with assms save_raised [of s oid now n e s'] show ?thesis by (auto simp: db_evolves_def db_ok_def)
next
  case (Inr r)
  with assms save_ok [of s oid now n r s']
  have "invar s'" "orders s oid = None" "orders s' = (orders s)(oid \<mapsto> r)" "durable s' = durable s"
    by (auto simp: db_ok_def)
  with assms(1) keeps_orders_trans [OF _ keeps_orders_upd(1)] show ?thesis by (simp add: db_evolves_def db_ok_def)
qed

lemma update_evolves:
  assumes "db_ok s" "od_update_status repo now oid u s = (res, s')"
  shows "db_evolves s s'"
proof (cases "orders s oid")
  case None
  with assms update_missing [of s oid now u] show ?thesis by (auto simp: db_ok_def)
next
  case (Some r)
  obtain r' where "invar s'" "orders s' = (orders s)(oid \<mapsto> r')" "same_order r r'" "durable s' = durable s"
    using update_found [OF _ Some assms(2)] assms(1) by (auto simp: db_ok_def)
  with assms(1) keeps_orders_trans [OF _ keeps_orders_upd(2) [of "orders s" oid r r']] Some show ?thesis
    by (simp add: db_evolves_def db_ok_def)
qed

lemma event_evolves: "db_ok s \<Longrightarrow> ev_save erepo eid oid ty now det corr s = (res, s') \<Longrightarrow> db_evolves s s'"
  using event_kept [of s eid oid ty now det corr res s'] by (auto simp: db_evolves_def db_ok_def)

lemma commit_evolves: "db_ok s \<Longrightarrow> tx_commit tx s = (res, s') \<Longrightarrow> db_evolves s s'"
  using commit_done [of s s'] commit_raised [of s _ s'] by (cases res) (auto simp: db_evolves_def db_ok_def)

lemma restart_evolves: "db_ok s \<Longrightarrow> db_evolves s (restart s)"
  using restarted [of s] by (simp add: db_evolves_def db_ok_def)

abbreviation st_evolves :: "('s, 'w, 'e) live_state \<Rightarrow> ('s, 'w, 'e) live_state \<Rightarrow> bool" where
  "st_evolves st st' \<equiv> db_evolves (ls_db st) (ls_db st')"

lemma on_world_db [simp]: "ls_db (snd (on_world f st)) = ls_db st"
  by (simp add: on_world_def split: prod.splits)

lemma lv_record_event_evolves:
  "db_ok (ls_db st) \<Longrightarrow> st_evolves st (snd (lv_record_event lv h oid ty corr det st))"
  by (auto simp: lv_record_event_def on_db_def then_do_def on_world_def event_repo split: prod.splits sum.splits
      dest: event_evolves)

lemma lv_update_evolves: "db_ok (ls_db st) \<Longrightarrow> st_evolves st (snd (lv_update lv h oid u st))"
  by (auto simp: lv_update_def on_db_def then_do_def on_world_def order_repo split: prod.splits sum.splits
      dest: update_evolves)

lemma lv_commit_evolves: "db_ok (ls_db st) \<Longrightarrow> st_evolves st (snd (lv_commit lv st))"
  by (auto simp: lv_commit_def tx_wired on_db_def split: prod.splits dest: commit_evolves)

text \<open>A sequence of evolving statements evolves.\<close>

lemma then_do_evolves:
  "st_evolves st (snd m) \<Longrightarrow> (\<And>x st1. m = (Inr x, st1) \<Longrightarrow> db_ok (ls_db st1) \<Longrightarrow> st_evolves st1 (snd (f x st1))) \<Longrightarrow>
   st_evolves st (snd (then_do m f))"
  by (cases m; cases "fst m") (auto simp: then_do_def intro: db_evolves_trans db_evolves_ok)

lemma risk_step_db [simp]: "ls_db (snd (risk_step lv h ids d did rq corr a st)) = ls_db st"
  by (auto simp: risk_step_def get_cached_or_fresh_def is_position_cache_fresh_def then_do_def on_world_def Let_def
      split: prod.splits sum.splits option.splits bool.splits)

text \<open>A successful persist step makes the order durable, as pending and without a broker identifier,
  and its client identifier was unknown before.\<close>

lemma persist_step_evolves:
  assumes "db_ok (ls_db st)"
  shows "st_evolves st (snd (persist_step lv h did rq corr st))"
proof -
  obtain oid st1 where u: "on_world (h_ulid h) st = (oid, st1)" by fastforce
  obtain now st2 where n: "on_world (h_now h) st1 = (now, st2)" by fastforce
  have db: "ls_db st2 = ls_db st" using on_world_db [of "h_ulid h" st] on_world_db [of "h_now h" st1] u n by simp
  have "st_evolves st2 (snd (on_db (od_save (lv_order_repo lv) oid now (live_order did rq corr)) st2))"
    using save_evolves assms db by (auto simp: on_db_def order_repo split: prod.splits)
  then have "st_evolves st2 (snd (then_do (on_db (od_save (lv_order_repo lv) oid now (live_order did rq corr)) st2) (\<lambda>rec st3.
      then_do (lv_record_event lv h (or_id rec) ''risk_checked'' corr
          [(''result'', JStr ''passed''), (''deployment_id'', JStr did)] st3) (\<lambda>_ st4.
      then_do (lv_commit lv st4) (\<lambda>_ st5. (Inr (or_id rec), st5))))))"
    by (intro then_do_evolves) (simp_all add: lv_record_event_evolves lv_commit_evolves)
  then show ?thesis by (simp add: persist_step_def u n db)
qed

lemma persist_step_durable:
  assumes "db_ok (ls_db st)" "persist_step lv h did rq corr st = (Inr oid, st')"
  shows "orders (ls_db st') = durable (ls_db st') \<and>
    (\<exists>now. durable (ls_db st') oid = Some (new_record oid now (live_order did rq corr)))"
proof -
  obtain u st1 where u: "on_world (h_ulid h) st = (u, st1)" by fastforce
  obtain now st2 where n: "on_world (h_now h) st1 = (now, st2)" by fastforce
  have db: "ls_db st2 = ls_db st" using on_world_db [of "h_ulid h" st] on_world_db [of "h_now h" st1] u n by simp
  obtain rec s3 where sv: "od_save repo u now (live_order did rq corr) (ls_db st2) = (Inr rec, s3)"
    using assms(2) by (auto simp: persist_step_def u n on_db_def order_repo then_do_def split: prod.splits sum.splits)
  have s3: "invar s3" "rec = new_record u now (live_order did rq corr)" "orders s3 = (orders (ls_db st))(u \<mapsto> rec)"
    using save_ok [OF _ sv] assms(1) by (auto simp: db_ok_def db)
  obtain st4 where ev: "lv_record_event lv h (or_id rec) ''risk_checked'' corr
      [(''result'', JStr ''passed''), (''deployment_id'', JStr did)] (st2\<lparr>ls_db := s3\<rparr>) = (Inr (), st4)"
    using assms(2) sv by (auto simp: persist_step_def u n on_db_def order_repo then_do_def split: prod.splits sum.splits)
  have s4: "invar (ls_db st4) \<and> orders (ls_db st4) = orders s3"
    using ev event_kept [of s3] event_saved [of s3] s3(1)
    by (auto simp: lv_record_event_def on_db_def on_world_def then_do_def event_repo split: prod.splits sum.splits)
  have "lv_commit lv st4 = (Inr (), st')" "oid = or_id rec"
    using assms(2) sv ev by (auto simp: persist_step_def u n on_db_def order_repo then_do_def split: prod.splits sum.splits)
  then have "orders (ls_db st') = orders s3" "durable (ls_db st') = orders s3"
    using commit_done [of "ls_db st4"] s4 by (auto simp: lv_commit_def tx_wired on_db_def split: prod.splits)
  moreover have "or_id rec = u" by (simp add: s3(2) new_record_def)
  ultimately show ?thesis using s3 \<open>oid = or_id rec\<close> by auto
qed

lemma admit_cases:
  assumes "admit_live_order lv h ids d r did rq corr st = (ad, st')"
  obtains (refused) e where "ad = Refused e" "pre_checks lv d r did rq = Inl e" "st' = st"
  | (duplicate) a existing where "pre_checks lv d r did rq = Inr a" "ad = Duplicate (stored_response existing)" "st' = st"
      "od_get_by_client_order_id repo (ls_db st) (rq_client_order_id rq) = Some existing"
  | (gate) a e where "pre_checks lv d r did rq = Inr a" "ad = Refused e"
      "od_get_by_client_order_id repo (ls_db st) (rq_client_order_id rq) = None"
      "risk_step lv h ids d did rq corr a st = (Inl e, st')"
  | (stored) a st1 res where "pre_checks lv d r did rq = Inr a"
      "od_get_by_client_order_id repo (ls_db st) (rq_client_order_id rq) = None"
      "risk_step lv h ids d did rq corr a st = (Inr (), st1)" "persist_step lv h did rq corr st1 = (res, st')"
      "ad = (case res of Inl e \<Rightarrow> Refused e | Inr oid \<Rightarrow> Admitted oid a)"
proof (cases "pre_checks lv d r did rq")
  case (Inl e)
  with assms refused show thesis by (auto simp: admit_live_order_def)
next
  case (Inr a)
  show thesis
  proof (cases "od_get_by_client_order_id repo (ls_db st) (rq_client_order_id rq)")
    case (Some existing)
    with assms Inr duplicate show thesis by (auto simp: admit_live_order_def order_repo)
  next
    case None
    obtain x st1 where rs: "risk_step lv h ids d did rq corr a st = (x, st1)" by fastforce
    show thesis
    proof (cases x)
      case (Inl e)
      with assms Inr None rs gate show thesis by (auto simp: admit_live_order_def order_repo)
    next
      case (Inr u)
      obtain res st2 where ps: "persist_step lv h did rq corr st1 = (res, st2)" by fastforce
      have "ad = (case res of Inl e \<Rightarrow> Refused e | Inr oid \<Rightarrow> Admitted oid a)" "st' = st2"
        using assms \<open>pre_checks lv d r did rq = Inr a\<close> None rs Inr ps
        by (auto simp: admit_live_order_def order_repo split: sum.splits)
      with stored [OF \<open>pre_checks lv d r did rq = Inr a\<close> None, of st1 res] rs Inr ps show thesis by simp
    qed
  qed
qed

lemma admit_evolves:
  assumes "db_ok (ls_db st)"
  shows "st_evolves st (snd (admit_live_order lv h ids d r did rq corr st))"
proof -
  obtain ad st' where ad: "admit_live_order lv h ids d r did rq corr st = (ad, st')" by fastforce
  from ad show ?thesis
  proof (cases rule: admit_cases)
    case (gate a e)
    with risk_step_db [of h ids d did rq corr a st] assms ad show ?thesis by simp
  next
    case (stored a st1 res)
    then have "ls_db st1 = ls_db st" using risk_step_db [of h ids d did rq corr a st] by simp
    with stored persist_step_evolves [of st1 h did rq corr] assms ad show ?thesis by simp
  qed (use assms ad in simp_all)
qed

lemma admitted:
  assumes "db_ok (ls_db st)" "admit_live_order lv h ids d r did rq corr st = (Admitted oid a, st')"
  shows "pre_checks lv d r did rq = Inr a" "\<not> client_known (orders (ls_db st)) (rq_client_order_id rq)"
    "\<exists>st1. risk_step lv h ids d did rq corr a st = (Inr (), st1)"
    "orders (ls_db st') = durable (ls_db st')"
    "\<exists>now. durable (ls_db st') oid = Some (new_record oid now (live_order did rq corr))"
proof -
  obtain st1 where s: "pre_checks lv d r did rq = Inr a"
      "od_get_by_client_order_id repo (ls_db st) (rq_client_order_id rq) = None"
      "risk_step lv h ids d did rq corr a st = (Inr (), st1)" "persist_step lv h did rq corr st1 = (Inr oid, st')"
    using assms(2) by (cases rule: admit_cases) (auto split: sum.splits)
  have "ls_db st1 = ls_db st" using risk_step_db [of h ids d did rq corr a st] s(3) by simp
  with persist_step_durable [OF _ s(4)] assms(1)
  show "orders (ls_db st') = durable (ls_db st')"
    "\<exists>now. durable (ls_db st') oid = Some (new_record oid now (live_order did rq corr))" by auto
  show "\<not> client_known (orders (ls_db st)) (rq_client_order_id rq)"
    using client_none [OF _ s(2)] assms(1) by (auto simp: client_known_def db_ok_def)
qed (use assms(2) in \<open>cases rule: admit_cases, auto split: sum.splits\<close>)+

lemma broker_failed_evolves: "db_ok (ls_db st) \<Longrightarrow> st_evolves st (snd (broker_failed lv h oid corr e st))"
  unfolding broker_failed_def Let_def
  by (intro then_do_evolves) (simp_all add: lv_record_event_evolves lv_commit_evolves lv_update_evolves)

lemma broker_answered_evolves: "db_ok (ls_db st) \<Longrightarrow> st_evolves st (snd (broker_answered lv h oid corr resp st))"
  unfolding broker_answered_def
  by (intro then_do_evolves) (simp_all add: lv_record_event_evolves lv_commit_evolves lv_update_evolves)

lemma submit_evolves:
  assumes "db_ok (ls_db st)"
  shows "st_evolves (snd (admit_live_order lv h ids d r did rq corr st)) (snd (submit_live_order lv h ids d r did rq corr st))"
proof -
  obtain ad st1 where ad: "admit_live_order lv h ids d r did rq corr st = (ad, st1)" by fastforce
  have ok: "db_ok (ls_db st1)" using admit_evolves [OF assms, of h ids d r did rq corr] db_evolves_ok ad by simp
  show ?thesis
  proof (cases ad)
    case (Admitted oid a)
    obtain res st2 where w: "on_world (a_submit_order a rq) st1 = (res, st2)" by fastforce
    have "ls_db st2 = ls_db st1" using on_world_db [of "a_submit_order a rq" st1] w by simp
    with Admitted ad w ok broker_failed_evolves [of st2] broker_answered_evolves [of st2] show ?thesis
      by (cases res) (simp_all add: submit_live_order_def)
  qed (use ad ok in \<open>simp_all add: submit_live_order_def\<close>)
qed

lemma lv_update_world_evolves:
  "db_ok (ls_db st) \<Longrightarrow> st_evolves st (snd (lv_update lv h oid u (st\<lparr>ls_world := w\<rparr>)))"
  using lv_update_evolves [of "st\<lparr>ls_world := w\<rparr>"] by simp

lemma cancel_live_evolves:
  assumes "db_ok (ls_db st)"
  shows "st_evolves st (snd (cancel_live_order lv h did bid corr st))"
  unfolding cancel_live_order_def using assms
  by (auto split: option.splits sum.splits prod.splits intro!: then_do_evolves
      simp: lv_record_event_evolves lv_commit_evolves lv_update_evolves)
    (auto simp: on_world_def lv_update_world_evolves split: prod.splits if_splits)

lemma sync_evolves:
  assumes "db_ok (ls_db st)"
  shows "st_evolves st (snd (sync_order_status lv h did bid corr st))"
  unfolding sync_order_status_def using assms
  by (auto split: option.splits sum.splits intro!: then_do_evolves
      simp: lv_record_event_evolves lv_commit_evolves lv_update_evolves)

end

section \<open>Histories\<close>

text \<open>
  What can happen to the service: requests, changes of the world outside, and crashes. A crash loses
  what the session has not committed. During a submission it can strike before the broker is called
  (as if it had come before or after the refused request) or after: then the broker has the order,
  and the database has what was committed before the call.
\<close>

datatype ('w, 'd, 'r) live_op =
    LSubmit event_ids 'd 'r string order_request string
  | LSubmit_Crash event_ids 'd 'r string order_request string
  | LCancel string string string
  | LSync string string string
  | LCrash
  | LOutside "'w \<Rightarrow> 'w"

definition crash :: "('s \<Rightarrow> 's) \<Rightarrow> ('s, 'w, 'e) live_state \<Rightarrow> ('s, 'w, 'e) live_state" where
  "crash restart st = st\<lparr>ls_db := restart (ls_db st), ls_cache := None\<rparr>"

text \<open>The requests that reach the broker, and the state afterwards.\<close>

fun live_step ::
  "('s, 'w, 'e, 'd, 'r) live_service \<Rightarrow> 'w host \<Rightarrow> ('s \<Rightarrow> 's) \<Rightarrow> ('w, 'd, 'r) live_op \<Rightarrow> ('s, 'w, 'e) live_state \<Rightarrow>
     order_request list \<times> ('s, 'w, 'e) live_state" where
  "live_step lv h restart (LSubmit ids d r did rq corr) st =
     ((case fst (admit_live_order lv h ids d r did rq corr st) of Admitted _ _ \<Rightarrow> [rq] | _ \<Rightarrow> []),
      snd (submit_live_order lv h ids d r did rq corr st))"
| "live_step lv h restart (LSubmit_Crash ids d r did rq corr) st =
     (case admit_live_order lv h ids d r did rq corr st of
        (Admitted oid a, st1) \<Rightarrow> ([rq], crash restart (snd (on_world (a_submit_order a rq) st1)))
      | (_, st1) \<Rightarrow> ([], crash restart st1))"
| "live_step lv h restart (LCancel did bid corr) st = ([], snd (cancel_live_order lv h did bid corr st))"
| "live_step lv h restart (LSync did bid corr) st = ([], snd (sync_order_status lv h did bid corr st))"
| "live_step lv h restart LCrash st = ([], crash restart st)"
| "live_step lv h restart (LOutside f) st = ([], st\<lparr>ls_world := f (ls_world st)\<rparr>)"

fun live_run ::
  "('s, 'w, 'e, 'd, 'r) live_service \<Rightarrow> 'w host \<Rightarrow> ('s \<Rightarrow> 's) \<Rightarrow> ('w, 'd, 'r) live_op list \<Rightarrow> ('s, 'w, 'e) live_state \<Rightarrow>
     order_request list \<times> ('s, 'w, 'e) live_state" where
  "live_run lv h restart [] st = ([], st)"
| "live_run lv h restart (op # ops) st =
     (case live_step lv h restart op st of (calls, st1) \<Rightarrow>
      case live_run lv h restart ops st1 of (calls', st2) \<Rightarrow> (calls @ calls', st2))"

context live_store
begin

lemma crash_evolves: "db_ok (ls_db st) \<Longrightarrow> st_evolves st (crash restart st)"
  by (simp add: crash_def restart_evolves)

lemma admitted_known:
  assumes "db_ok (ls_db st)" "admit_live_order lv h ids d r did rq corr st = (Admitted oid a, st')" "db_evolves (ls_db st') s"
  shows "client_known (durable s) (rq_client_order_id rq) \<and> \<not> client_known (durable (ls_db st)) (rq_client_order_id rq)"
proof
  obtain now where "durable (ls_db st') oid = Some (new_record oid now (live_order did rq corr))"
    using admitted(5) [OF assms(1,2)] by blast
  then have "client_known (durable (ls_db st')) (rq_client_order_id rq)"
    by (auto simp: client_known_def new_record_def live_order_def intro!: exI [of _ oid])
  with assms(3) show "client_known (durable s) (rq_client_order_id rq)"
    unfolding db_evolves_def by (blast intro: client_known_kept)
  show "\<not> client_known (durable (ls_db st)) (rq_client_order_id rq)"
    using admitted(2) [OF assms(1,2)] assms(1) client_known_kept unfolding db_ok_def by blast
qed

lemma live_step_effect:
  assumes "db_ok (ls_db st)" "live_step lv h restart op st = (calls, st')"
  shows "st_evolves st st' \<and> (calls = [] \<or> (\<exists>rq. calls = [rq] \<and> client_known (durable (ls_db st')) (rq_client_order_id rq) \<and>
    \<not> client_known (durable (ls_db st)) (rq_client_order_id rq)))"
proof (cases op)
  case (LSubmit ids d r did rq corr)
  obtain ad st1 where ad: "admit_live_order lv h ids d r did rq corr st = (ad, st1)" by fastforce
  have e: "st_evolves st st1" "st_evolves st1 st'"
    using admit_evolves [OF assms(1), of h ids d r did rq corr] submit_evolves [OF assms(1), of h ids d r did rq corr]
      ad assms(2) LSubmit by auto
  show ?thesis
  proof (cases ad)
    case (Admitted oid a)
    with admitted_known [OF assms(1) _ e(2)] ad assms(2) LSubmit db_evolves_trans [OF e] show ?thesis by auto
  qed (use ad assms(2) LSubmit db_evolves_trans [OF e] in auto)
next
  case (LSubmit_Crash ids d r did rq corr)
  obtain ad st1 where ad: "admit_live_order lv h ids d r did rq corr st = (ad, st1)" by fastforce
  have e1: "st_evolves st st1" using admit_evolves [OF assms(1), of h ids d r did rq corr] ad by simp
  have ok: "db_ok (ls_db st1)" using db_evolves_ok [OF e1] .
  show ?thesis
  proof (cases ad)
    case (Admitted oid a)
    have st': "st' = crash restart (snd (on_world (a_submit_order a rq) st1))" and calls: "calls = [rq]"
      using ad Admitted assms(2) LSubmit_Crash by auto
    have e2: "st_evolves st1 st'" using crash_evolves [of "snd (on_world (a_submit_order a rq) st1)"] ok st' by simp
    with admitted_known [OF assms(1) _ e2] ad Admitted calls db_evolves_trans [OF e1 e2] show ?thesis by auto
  qed (use ad assms(2) LSubmit_Crash db_evolves_trans [OF e1] crash_evolves [OF ok] in auto)
qed (use assms cancel_live_evolves sync_evolves crash_evolves in auto)

lemma live_run_effect:
  "db_ok (ls_db st) \<Longrightarrow> live_run lv h restart ops st = (calls, st') \<Longrightarrow>
   st_evolves st st' \<and> distinct (map rq_client_order_id calls) \<and>
   (\<forall>rq\<in>set calls. client_known (durable (ls_db st')) (rq_client_order_id rq) \<and>
      \<not> client_known (durable (ls_db st)) (rq_client_order_id rq))"
proof (induction ops arbitrary: st calls st')
  case (Cons op ops)
  obtain c1 st1 where s: "live_step lv h restart op st = (c1, st1)" by fastforce
  obtain c2 st2 where t: "live_run lv h restart ops st1 = (c2, st2)" by fastforce
  have eq: "calls = c1 @ c2" "st' = st2" using Cons.prems(2) s t by auto
  have e1: "st_evolves st st1" and c1: "c1 = [] \<or> (\<exists>rq. c1 = [rq] \<and> client_known (durable (ls_db st1)) (rq_client_order_id rq) \<and>
      \<not> client_known (durable (ls_db st)) (rq_client_order_id rq))"
    using live_step_effect [OF Cons.prems(1) s] by auto
  note IH = Cons.IH [OF db_evolves_ok [OF e1] t]
  have e2: "st_evolves st1 st2" using IH by blast
  have up: "client_known (durable (ls_db st)) cid \<Longrightarrow> client_known (durable (ls_db st1)) cid"
    "client_known (durable (ls_db st1)) cid \<Longrightarrow> client_known (durable (ls_db st2)) cid" for cid
    using e1 e2 client_known_kept unfolding db_evolves_def by blast+
  show ?case using c1 IH db_evolves_trans [OF e1 e2] up by (auto simp: eq)
qed simp

end

definition sql_live_service ::
  "'d deployment_repo \<Rightarrow> 'e risk_event_repo \<Rightarrow> 'w registry \<Rightarrow> 'r ks_repo \<Rightarrow> rat \<Rightarrow> string list \<Rightarrow> (exn \<Rightarrow> string) \<Rightarrow>
     (sql_db, 'w, 'e, 'd, 'r) live_service" where
  "sql_live_service drepo rrepo reg ksrepo ttl modes exn_text =
     \<lparr>lv_deployment_repo = drepo, lv_order_repo = sql_order_repo, lv_event_repo = sql_event_repo,
      lv_risk_events = rrepo, lv_registry = reg, lv_ks_repo = ksrepo, lv_tx = Some sql_tx,
      lv_cache_ttl = ttl, lv_allowed_modes = modes, lv_exn_text = exn_text\<rparr>"

interpretation sql_live: live_store sql_order_repo sql_event_repo sql_tx sql_orders sql_durable sql_rollback sql_inv
  "sql_live_service drepo rrepo reg ksrepo ttl modes exn_text" for drepo rrepo reg ksrepo ttl modes exn_text
  by unfold_locales (simp_all add: sql_live_service_def)

section \<open>Properties\<close>

lemma pre_checks_passed:
  assumes "pre_checks lv d r did rq = Inr a"
  shows "''live'' \<in> set (lv_allowed_modes lv)" "reg_get (lv_registry lv) did = Inr a"
    "\<exists>rec. dr_get_by_id (lv_deployment_repo lv) d did = Some rec \<and> dp_state rec = ''active'' \<and> dp_execution_mode rec = ''live''"
    "\<not> a_is_paper_adapter a" "lv_tx lv \<noteq> None"
    "\<not> is_halted (lv_ks_repo lv) r did (Some (rq_strategy_id rq)) (Some (rq_symbol rq))"
  using assms
  by (auto simp: pre_checks_def validate_deployment_def check_kill_switch_def bind_r_def
      split: if_splits option.splits sum.splits)

lemma halted_refused:
  assumes "is_halted (lv_ks_repo lv) r did (Some (rq_strategy_id rq)) (Some (rq_symbol rq))"
  shows "\<exists>e. submit_live_order lv h ids d r did rq corr st = (Inl e, st)"
proof -
  have "\<exists>e. pre_checks lv d r did rq = Inl e"
    using pre_checks_passed(6) [of lv d r did rq] assms by (cases "pre_checks lv d r did rq") auto
  then show ?thesis by (auto simp: submit_live_order_def admit_live_order_def)
qed

text \<open>
  C2. An order reaches the broker only after every check, and never before it is safe in the database:
  when the submission goes on to call the broker, live trading is allowed by the environment, the
  deployment is active and live, the adapter is the registered one and not a paper adapter, trading
  is not halted, no order with the client identifier was known, the risk gate has let the order
  through, and the order is committed as pending, so that it survives a crash during the call.
\<close>

theorem broker_called_only_after_all_checks:
  assumes store: "live_store repo erepo tx orders durable restart invar lv"
    and "invar (ls_db st)" "keeps_orders (durable (ls_db st)) (orders (ls_db st))"
    and adm: "admit_live_order lv h ids d r did rq corr st = (Admitted oid a, st')"
  shows "''live'' \<in> set (lv_allowed_modes lv) \<and> reg_get (lv_registry lv) did = Inr a \<and> \<not> a_is_paper_adapter a \<and>
    (\<exists>rec. dr_get_by_id (lv_deployment_repo lv) d did = Some rec \<and> dp_state rec = ''active'' \<and>
       dp_execution_mode rec = ''live'') \<and>
    \<not> is_halted (lv_ks_repo lv) r did (Some (rq_strategy_id rq)) (Some (rq_symbol rq)) \<and>
    \<not> client_known (orders (ls_db st)) (rq_client_order_id rq) \<and>
    (\<exists>positions account st1. get_cached_or_fresh lv h did a st = (Inr (positions, account), st1) \<and>
       fst (enforce_order (lv_deployment_repo lv) (lv_risk_events lv) ids did rq positions account corr d (ls_risk st1)) = Inr ()) \<and>
    (\<exists>now. durable (ls_db st') oid = Some (new_record oid now (live_order did rq corr)))"
proof -
  have ok: "live_store.db_ok orders durable invar (ls_db st)"
    using assms(2,3) live_store.db_ok_def [OF store] by blast
  note adm = live_store.admitted [OF store ok adm]
  obtain st2 where "risk_step lv h ids d did rq corr a st = (Inr (), st2)" using adm(3) by blast
  then have "\<exists>positions account st1. get_cached_or_fresh lv h did a st = (Inr (positions, account), st1) \<and>
       fst (enforce_order (lv_deployment_repo lv) (lv_risk_events lv) ids did rq positions account corr d (ls_risk st1)) = Inr ()"
    by (auto simp: risk_step_def then_do_def split: prod.splits sum.splits)
  with adm(2,5) pre_checks_passed [OF adm(1)] show ?thesis by blast
qed

text \<open>The data of the witnesses: a venue that acknowledges every order, an active live deployment.\<close>

definition demo_ack :: "order_request \<Rightarrow> order_response" where
  "demo_ack rq =
     \<lparr>os_client_order_id = rq_client_order_id rq, os_broker_order_id = Some ''V1'', os_symbol = rq_symbol rq,
      os_side = rq_side rq, os_order_type = rq_order_type rq, os_quantity = rq_quantity rq, os_filled_quantity = 0,
      os_average_fill_price = None, os_status = SUBMITTED, os_limit_price = None, os_stop_price = None,
      os_time_in_force = rq_time_in_force rq, os_submitted_at = Some 9, os_filled_at = None, os_cancelled_at = None,
      os_rejected_reason = None, os_correlation_id = ''X'', os_execution_mode = LIVE\<rparr>"

definition demo_venue :: "int adapter" where
  "demo_venue = demo_unreachable\<lparr>a_get_positions := (\<lambda>w. (Inr [], w)), a_get_account := (\<lambda>w. (Inr demo_account, w)),
     a_submit_order := (\<lambda>rq w. (Inr (demo_ack rq), w + 1))\<rparr>"

definition demo_clock :: "int host" where
  "demo_clock = demo_host\<lparr>h_ulid := (\<lambda>w. (replicate (nat w) CHR ''u'', w + 1))\<rparr>"

definition demo_live :: "(sql_db, int, risk_event list, mock_repo, mock_ks) live_service" where
  "demo_live = sql_live_service mock_deployment_repo mock_event_repo [(''D1'', demo_venue, ''demo'')] mock_ks_repo 2
     [''live''] (\<lambda>e. [])"

definition demo_live_state :: "(sql_db, int, risk_event list) live_state" where
  "demo_live_state = \<lparr>ls_db = sql_init [''D1''] [''S''], ls_world = 1, ls_risk = [], ls_cache = None\<rparr>"

lemma demo_live_sel [simp]:
  "lv_deployment_repo demo_live = mock_deployment_repo" "lv_order_repo demo_live = sql_order_repo"
  "lv_event_repo demo_live = sql_event_repo" "lv_risk_events demo_live = mock_event_repo"
  "lv_registry demo_live = [(''D1'', demo_venue, ''demo'')]" "lv_ks_repo demo_live = mock_ks_repo"
  "lv_tx demo_live = Some sql_tx" "lv_cache_ttl demo_live = 2" "lv_allowed_modes demo_live = [''live'']"
  by (simp_all add: demo_live_def sql_live_service_def)

lemma demo_live_store: "live_store sql_order_repo sql_event_repo sql_tx sql_orders sql_durable sql_rollback sql_inv demo_live"
  unfolding demo_live_def by (rule sql_live.live_store_axioms)

lemma demo_gate: "\<exists>e'. enforce_order mock_deployment_repo mock_event_repo ids ''D1'' (demo_order 5) [] demo_account corr demo_limited e = (Inr (), e')"
proof -
  have "dec 5 = 5" using dec_of_int [of 5] by simp
  then show ?thesis
    by (simp add: enforce_order_def check_order_def demo_limited_def mock_get_by_id_def demo_deployment_def demo_doc_def
        empty_doc_def deserialize_limits_def limit_decimal_def ordered_checks_def Let_def check_order_value_def compared_def
        check_position_size_def check_concentration_def check_open_orders_def check_daily_loss_def demo_order_def
        estimate_market_price_def dmul_def check_pass_def)
qed

lemma demo_pre_checks: "pre_checks demo_live demo_limited mock_ks_init ''D1'' (demo_order q) = Inr demo_venue"
  by (simp add: pre_checks_def validate_deployment_def demo_limited_def mock_get_by_id_def demo_deployment_def demo_active_def
      reg_is_registered_def reg_get_def check_kill_switch_def is_halted_def ks_get_active_def mock_ks_init_def dict_values_def
      demo_venue_def demo_unreachable_def)

lemma demo_risk_step:
  "\<exists>st1. risk_step demo_live demo_clock demo_event_ids demo_limited ''D1'' (demo_order 5) ''X'' demo_venue demo_live_state = (Inr (), st1) \<and>
     ls_db st1 = sql_init [''D1''] [''S''] \<and> ls_world st1 = 1"
proof -
  obtain e' where "enforce_order mock_deployment_repo mock_event_repo demo_event_ids ''D1'' (demo_order 5) [] demo_account ''X''
      demo_limited [] = (Inr (), e')" using demo_gate by blast
  then show ?thesis
    by (simp add: demo_live_state_def risk_step_def get_cached_or_fresh_def is_position_cache_fresh_def on_world_def
        demo_venue_def Let_def demo_clock_def demo_host_def)
qed

lemma demo_persist_step:
  assumes "ls_db st1 = sql_init [''D1''] [''S'']"
  shows "\<exists>oid st'. persist_step demo_live demo_clock ''D1'' (demo_order 5) ''X'' st1 = (Inr oid, st')"
  using assms
  by (simp add: persist_step_def sql_init_def dict_values_def on_world_def demo_clock_def demo_host_def on_db_def sql_save_def
      live_order_def demo_order_def new_record_def lv_record_event_def sql_event_save_def lv_commit_def sql_commit_def Let_def)

lemma demo_admitted:
  "\<exists>oid st'. admit_live_order demo_live demo_clock demo_event_ids demo_limited mock_ks_init ''D1'' (demo_order 5) ''X'' demo_live_state =
     (Admitted oid demo_venue, st')"
proof -
  obtain st1 where r: "risk_step demo_live demo_clock demo_event_ids demo_limited ''D1'' (demo_order 5) ''X'' demo_venue demo_live_state
      = (Inr (), st1)" "ls_db st1 = sql_init [''D1''] [''S'']" using demo_risk_step by blast
  obtain oid st' where p: "persist_step demo_live demo_clock ''D1'' (demo_order 5) ''X'' st1 = (Inr oid, st')"
    using demo_persist_step [OF r(2)] by blast
  have "sql_get_by_client_order_id (ls_db demo_live_state) cid = None" for cid
    by (simp add: demo_live_state_def sql_get_by_client_order_id_def sql_init_def dict_values_def)
  with r p show ?thesis by (simp add: admit_live_order_def demo_pre_checks)
qed

theorem broker_called_only_after_all_checks_witness:
  "\<exists>oid st'. admit_live_order demo_live demo_clock demo_event_ids demo_limited mock_ks_init ''D1'' (demo_order 5) ''X'' demo_live_state =
     (Admitted oid demo_venue, st') \<and>
   (\<exists>now. sql_durable (ls_db st') oid = Some (new_record oid now (live_order ''D1'' (demo_order 5) ''X'')))"
proof -
  obtain oid st' where a: "admit_live_order demo_live demo_clock demo_event_ids demo_limited mock_ks_init ''D1'' (demo_order 5) ''X''
      demo_live_state = (Admitted oid demo_venue, st')" using demo_admitted by blast
  have s: "sql_inv (ls_db demo_live_state)"
    "keeps_orders (sql_durable (ls_db demo_live_state)) (sql_orders (ls_db demo_live_state))"
    by (simp_all add: demo_live_state_def sql_init_def keeps_orders_def sql_inv_def table_ok_def)
  from broker_called_only_after_all_checks [OF demo_live_store s a] a show ?thesis by blast
qed

text \<open>
  C1. At most one order reaches the broker per client identifier, over every history of submissions,
  cancellations and synchronisations, with crashes at any moment and whatever the brokers, the clock and
  the deployments do; and each one that reached it is recorded durably.
\<close>

theorem at_most_one_broker_submission:
  assumes store: "live_store repo erepo tx orders durable restart invar lv"
    and "invar (ls_db st)" "keeps_orders (durable (ls_db st)) (orders (ls_db st))"
    and "live_run lv h restart ops st = (calls, st')"
  shows "distinct (map rq_client_order_id calls) \<and>
    (\<forall>rq\<in>set calls. client_known (durable (ls_db st')) (rq_client_order_id rq))"
  using live_store.live_run_effect [OF store _ assms(4)] live_store.db_ok_def [OF store] assms(2,3) by blast

theorem at_most_one_broker_submission_witness:
  "\<exists>st'. live_run demo_live demo_clock sql_rollback
     [LSubmit_Crash demo_event_ids demo_limited mock_ks_init ''D1'' (demo_order 5) ''X'',
      LSubmit demo_event_ids demo_limited mock_ks_init ''D1'' (demo_order 5) ''X''] demo_live_state = ([demo_order 5], st')"
proof -
  let ?ops = "[LSubmit_Crash demo_event_ids demo_limited mock_ks_init ''D1'' (demo_order 5) ''X'',
      LSubmit demo_event_ids demo_limited mock_ks_init ''D1'' (demo_order 5) ''X'']"
  obtain calls st' where run: "live_run demo_live demo_clock sql_rollback ?ops demo_live_state = (calls, st')" by fastforce
  have s: "sql_inv (ls_db demo_live_state)"
    "keeps_orders (sql_durable (ls_db demo_live_state)) (sql_orders (ls_db demo_live_state))"
    by (simp_all add: demo_live_state_def sql_init_def keeps_orders_def sql_inv_def table_ok_def)
  have "distinct (map rq_client_order_id calls)"
    using at_most_one_broker_submission [OF demo_live_store s run] by blast
  moreover obtain cs where "calls = demo_order 5 # cs" "cs = [] \<or> cs = [demo_order 5]"
    using run demo_admitted by (auto split: prod.splits admission.splits)
  ultimately show ?thesis using run by auto
qed

text \<open>
  The cached account belongs to whichever deployment filled the cache: while it is fresh, an order
  of any deployment is checked against it, and that deployment's own adapter is not asked. After an
  order of one deployment was rejected by the risk gate, the next order of another one is judged by the
  first one's positions and account.
\<close>

theorem risk_checked_on_foreign_account:
  assumes "pre_checks lv d r did rq = Inr a" "ls_cache st = None"
    "od_get_by_client_order_id (lv_order_repo lv) (ls_db st) (rq_client_order_id rq) = None"
    "a_get_positions a (ls_world st) = (Inr positions, w1)" "a_get_account a w1 = (Inr account, w2)"
    "h_monotonic h w2 = (t, w3)"
    "enforce_order (lv_deployment_repo lv) (lv_risk_events lv) ids did rq positions account corr d (ls_risk st) = (Inl e, ev)"
    "h_monotonic h w3 = (t', w4)" "fl (t' - t) \<le> lv_cache_ttl lv"
  shows "\<exists>st1. submit_live_order lv h ids d r did rq corr st = (Inl e, st1) \<and>
    (\<forall>ids2 did2 rq2 corr2 a2. fst (risk_step lv h ids2 d did2 rq2 corr2 a2 st1) =
       fst (enforce_order (lv_deployment_repo lv) (lv_risk_events lv) ids2 did2 rq2 positions account corr2 d ev))"
proof -
  let ?c = "\<lparr>pc_positions = positions, pc_account = account, pc_timestamp = t,
      pc_pending_exposure = calculate_pending_exposure (lv_order_repo lv) did (ls_db st)\<rparr>"
  let ?st1 = "st\<lparr>ls_world := w3, ls_risk := ev, ls_cache := Some ?c\<rparr>"
  have "submit_live_order lv h ids d r did rq corr st = (Inl e, ?st1)"
    using assms(1-7)
    by (simp add: submit_live_order_def admit_live_order_def risk_step_def get_cached_or_fresh_def
        is_position_cache_fresh_def on_world_def Let_def)
  moreover have "fst (risk_step lv h ids2 d did2 rq2 corr2 a2 ?st1) =
      fst (enforce_order (lv_deployment_repo lv) (lv_risk_events lv) ids2 did2 rq2 positions account corr2 d ev)" for ids2 did2 rq2 corr2 a2
    using assms(8,9)
    by (simp add: risk_step_def get_cached_or_fresh_def is_position_cache_fresh_def on_world_def split: prod.splits)
  ultimately show ?thesis by blast
qed

lemma demo_refused:
  "\<exists>e ev. enforce_order mock_deployment_repo mock_event_repo ids ''D1'' (demo_order 50) [] demo_account corr demo_limited st = (Inl e, ev)"
proof -
  have "dec 50 = 50" using dec_of_int [of 50] by simp
  then show ?thesis
    by (simp add: enforce_order_def check_order_def demo_limited_def mock_get_by_id_def demo_deployment_def demo_doc_def
        empty_doc_def deserialize_limits_def limit_decimal_def ordered_checks_def Let_def check_order_value_def compared_def
        demo_order_def estimate_market_price_def dmul_def)
qed

theorem risk_checked_on_foreign_account_witness:
  "\<exists>e st1 ev. submit_live_order demo_live demo_clock demo_event_ids demo_limited mock_ks_init ''D1'' (demo_order 50) ''X'' demo_live_state
       = (Inl e, st1) \<and>
     fst (risk_step demo_live demo_clock demo_event_ids demo_limited ''D2'' (demo_order 5) ''Y'' demo_unreachable st1) =
       fst (enforce_order mock_deployment_repo mock_event_repo demo_event_ids ''D2'' (demo_order 5) [] demo_account ''Y'' demo_limited ev)"
proof -
  obtain e ev where "enforce_order mock_deployment_repo mock_event_repo demo_event_ids ''D1'' (demo_order 50) [] demo_account ''X''
      demo_limited [] = (Inl e, ev)" using demo_refused by blast
  moreover have "pre_checks demo_live demo_limited mock_ks_init ''D1'' (demo_order 50) = Inr demo_venue"
    by (rule demo_pre_checks)
  ultimately show ?thesis
    using risk_checked_on_foreign_account [of demo_live demo_limited mock_ks_init "''D1''" "demo_order 50" demo_venue demo_live_state
        "[]" 1 demo_account 1 demo_clock 1 1 demo_event_ids "''X''" e ev 1 1]
    by (auto simp: demo_live_state_def sql_get_by_client_order_id_def sql_init_def dict_values_def demo_venue_def demo_clock_def
        demo_host_def)
qed

end
