(* ===== verification/Order_Session.thy ===== *)
theory Order_Session
  imports Live_Execution
begin

text \<open>
  Services that update orders in one session without committing: what such a session may have changed.
  The lemmas hold for every order store and every set of orders that a service is allowed to touch;
  the recovery service and the partial fill monitor use them.
\<close>

section \<open>Changes confined to some orders\<close>

definition only_changed ::
  "(order_record \<Rightarrow> bool) \<Rightarrow> (string \<Rightarrow> order_record option) \<Rightarrow> (string \<Rightarrow> order_record option) \<Rightarrow> bool" where
  "only_changed P m m' \<longleftrightarrow> keeps_orders m m' \<and> (\<forall>oid. \<not> (\<exists>r. m oid = Some r \<and> P r) \<longrightarrow> m' oid = m oid)"

lemma only_changed_refl [simp]: "only_changed P m m"
  by (simp add: only_changed_def)

lemma only_changedD: "only_changed P m m' \<Longrightarrow> m' oid = m oid \<or> (\<exists>r. m oid = Some r \<and> P r)"
  by (auto simp: only_changed_def)

lemma only_changed_upd:
  assumes "only_changed P m m'" "m oid = Some r" "P r" "m' oid = Some r1" "same_order r1 r2"
  shows "only_changed P m (m'(oid \<mapsto> r2))"
  using assms keeps_orders_trans [OF _ keeps_orders_upd(2) [of m' oid r1 r2]] by (auto simp: only_changed_def)

text \<open>A session that started from the durable orders \<open>m\<close> and has touched only orders with \<open>P\<close>.\<close>

context order_store
begin

definition session_ok ::
  "(order_record \<Rightarrow> bool) \<Rightarrow> (string \<Rightarrow> order_record option) \<Rightarrow> ('s, 'w, 'e) live_state \<Rightarrow> bool" where
  "session_ok P m st \<longleftrightarrow> invar (ls_db st) \<and> durable (ls_db st) = m \<and> only_changed P m (orders (ls_db st))"

lemma session_world [simp]: "session_ok P m (st\<lparr>ls_world := w\<rparr>) = session_ok P m st"
  by (simp add: session_ok_def)

lemma on_world_session [simp]: "session_ok P m (snd (on_world f st)) = session_ok P m st"
  by (simp add: on_world_def split: prod.splits)

lemma then_do_session:
  "session_ok P m (snd a) \<Longrightarrow> (\<And>x st1. session_ok P m st1 \<Longrightarrow> session_ok P m (snd (f x st1))) \<Longrightarrow>
   session_ok P m (snd (then_do a f))"
  by (cases a; cases "fst a") (auto simp: then_do_def)

lemma update_session:
  assumes "m oid = Some r" "P r" "session_ok P m st"
  shows "session_ok P m (snd (on_db (od_update_status repo now oid u) st))"
proof -
  obtain res s' where u: "od_update_status repo now oid u (ls_db st) = (res, s')" by fastforce
  obtain r1 where r1: "orders (ls_db st) oid = Some r1"
    using assms(1,3) unfolding session_ok_def only_changed_def keeps_orders_def by blast
  obtain r2 where r2: "invar s'" "orders s' = (orders (ls_db st))(oid \<mapsto> r2)" "same_order r1 r2" "durable s' = durable (ls_db st)"
    using update_found [OF _ r1 u] assms(3) by (auto simp: session_ok_def)
  with only_changed_upd [of P m "orders (ls_db st)" oid r r1 r2] r1 assms u show ?thesis by (simp add: on_db_def session_ok_def)
qed

lemma event_session:
  assumes "session_ok P m st"
  shows "session_ok P m (snd (on_db (ev_save erepo eid oid ty now det corr) st))"
proof -
  obtain res s' where e: "ev_save erepo eid oid ty now det corr (ls_db st) = (res, s')" by fastforce
  from event_kept [OF _ e] assms
  have "invar s'" "durable s' = m" "orders s' = orders (ls_db st) \<or> orders s' = m" by (auto simp: session_ok_def)
  with e assms show ?thesis by (auto simp: on_db_def session_ok_def)
qed

lemma fresh_session: "invar (ls_db st) \<Longrightarrow> session_ok P (durable (ls_db st)) (st\<lparr>ls_db := restart (ls_db st)\<rparr>)"
  using restarted [of "ls_db st"] by (simp add: session_ok_def)

text \<open>An order that the session shows with \<open>P\<close> has \<open>P\<close> in the database, too, when \<open>P\<close> is about it.\<close>

lemma shown_touchable:
  assumes "session_ok P m st" "orders (ls_db st) oid = Some r" "P r"
  shows "\<exists>r0. m oid = Some r0 \<and> P r0"
  using only_changedD [of P m "orders (ls_db st)" oid] assms unfolding session_ok_def by (metis)

end

text \<open>Stores whose list of open orders shows orders of the session; the SQL store is one.\<close>

locale order_listing = order_store repo erepo tx orders durable restart invar
  for repo :: "'s order_repo" and erepo :: "'s event_repo" and tx :: "'s transaction_manager"
    and orders :: "'s \<Rightarrow> string \<Rightarrow> order_record option" and durable :: "'s \<Rightarrow> string \<Rightarrow> order_record option"
    and restart :: "'s \<Rightarrow> 's" and invar :: "'s \<Rightarrow> bool" +
  assumes list_open: "invar s \<Longrightarrow> r \<in> set (od_list_open_by_deployment repo s did) \<Longrightarrow>
      orders s (or_id r) = Some r \<and> or_deployment_id r = did"
begin

lemma listed_touchable:
  assumes "session_ok P m st" "r \<in> set (od_list_open_by_deployment repo (ls_db st) did)" "P r"
  shows "\<exists>r0. m (or_id r) = Some r0 \<and> P r0"
  using shown_touchable [OF assms(1) _ assms(3)] list_open [OF _ assms(2)] assms(1) by (auto simp: session_ok_def)

end

lemma sql_list_open_sound:
  "sql_inv s \<Longrightarrow> r \<in> set (sql_list_open_by_deployment s did) \<Longrightarrow> sql_orders s (or_id r) = Some r \<and> or_deployment_id r = did"
  by (auto simp: sql_list_open_by_deployment_def sql_inv_def table_mem)

interpretation sql_listing: order_listing sql_order_repo sql_event_repo sql_tx sql_orders sql_durable sql_rollback sql_inv
  by unfold_locales (simp add: sql_list_open_sound)

end
