(* ===== verification/Order_Recovery.thy ===== *)
theory Order_Recovery
  imports Order_Session
begin

text \<open>
  The recovery of orders after a restart,
  \<open>services/api/services/orphaned_order_recovery_service.py\<close> with the reports of
  \<open>libs/contracts/orphan_recovery.py\<close>: open orders of the database are compared with what the broker
  lists. The service works on the same database session and outside world as the execution
  services. Log lines are left out.
\<close>

section \<open>Reports\<close>

record recovery_result =
  rr_order_id :: string
  rr_client_order_id :: string
  rr_symbol :: string
  rr_side :: order_side
  rr_quantity :: decimal
  rr_action :: string
  rr_broker_order_id :: "string option"
  rr_status :: order_status
  rr_filled_quantity :: "decimal option"
  rr_average_fill_price :: "decimal option"
  rr_error_message :: "string option"
  rr_timestamp :: datetime

record recovery_report =
  rp_deployment_id :: string
  rp_recovered_count :: int
  rp_cancelled_count :: int
  rp_failed_count :: int
  rp_details :: "recovery_result list"
  rp_started_at :: datetime
  rp_completed_at :: datetime

definition result_of ::
  "order_record \<Rightarrow> string \<Rightarrow> string option \<Rightarrow> order_status \<Rightarrow> decimal option \<Rightarrow> decimal option \<Rightarrow> string option \<Rightarrow>
     datetime \<Rightarrow> recovery_result" where
  "result_of r action bid st filled avg err now =
     \<lparr>rr_order_id = or_id r, rr_client_order_id = or_client_order_id r, rr_symbol = or_symbol r,
      rr_side = or_side r, rr_quantity = or_quantity r, rr_action = action, rr_broker_order_id = bid,
      rr_status = st, rr_filled_quantity = filled, rr_average_fill_price = avg, rr_error_message = err,
      rr_timestamp = now\<rparr>"

record ('s, 'w, 'd) recovery_service =
  rv_deployment_repo :: "'d deployment_repo"
  rv_order_repo :: "'s order_repo"
  rv_event_repo :: "'s event_repo"
  rv_registry :: "'w registry"
  rv_exn_text :: "exn \<Rightarrow> string"

section \<open>One order\<close>

definition rv_record_event ::
  "('s, 'w, 'd) recovery_service \<Rightarrow> 'w host \<Rightarrow> string \<Rightarrow> string \<Rightarrow> string \<Rightarrow> (string \<times> json) list \<Rightarrow>
     ('s, 'w, 'e) live_state \<Rightarrow> (exn, unit) result \<times> ('s, 'w, 'e) live_state" where
  "rv_record_event rv h oid ty corr details st =
     (case on_world (h_now h) st of (now, st1) \<Rightarrow>
      case on_world (h_ulid h) st1 of (eid, st2) \<Rightarrow>
        then_do (on_db (ev_save (rv_event_repo rv) eid oid ty now (Some details) corr) st2) (\<lambda>_ st3. (Inr (), st3)))"

definition rv_update ::
  "('s, 'w, 'd) recovery_service \<Rightarrow> 'w host \<Rightarrow> string \<Rightarrow> status_update \<Rightarrow> ('s, 'w, 'e) live_state \<Rightarrow>
     (exn, unit) result \<times> ('s, 'w, 'e) live_state" where
  "rv_update rv h oid u st =
     (case on_world (h_now h) st of (now, st1) \<Rightarrow>
        then_do (on_db (od_update_status (rv_order_repo rv) now oid u) st1) (\<lambda>_ st2. (Inr (), st2)))"

text \<open>The body of the \<open>try\<close> of \<open>_recover_pending_order\<close>: the broker's submission time is passed on as a
  \<open>datetime\<close> object. An order that the broker does not list as open is marked as expired.\<close>

definition try_recover_pending ::
  "('s, 'w, 'd) recovery_service \<Rightarrow> 'w host \<Rightarrow> order_record \<Rightarrow> 'w adapter \<Rightarrow> string \<Rightarrow> ('s, 'w, 'e) live_state \<Rightarrow>
     (exn, recovery_result) result \<times> ('s, 'w, 'e) live_state" where
  "try_recover_pending rv h r a corr st =
     then_do (on_world (a_list_open_orders a) st) (\<lambda>broker_orders st1.
       case find (\<lambda>b. os_client_order_id b = or_client_order_id r) broker_orders of
         Some b \<Rightarrow>
           then_do (rv_update rv h (or_id r)
                      ((only_status (os_status b))
                         \<lparr>su_broker_order_id := os_broker_order_id b,
                          su_submitted_at := map_option DateTime (os_submitted_at b)\<rparr>) st1) (\<lambda>_ st2.
           then_do (rv_record_event rv h (or_id r) ''orphan_recovered'' corr
                      [(''action'', JStr ''imported''), (''broker_order_id'', json_text (os_broker_order_id b)),
                       (''status'', JStr (status_value (os_status b)))] st2) (\<lambda>_ st3.
           case on_world (h_now h) st3 of (now, st4) \<Rightarrow>
             (Inr (result_of r ''imported'' (os_broker_order_id b) (os_status b) None None None now), st4)))
       | None \<Rightarrow>
           then_do (rv_update rv h (or_id r) (only_status EXPIRED) st1) (\<lambda>_ st2.
           then_do (rv_record_event rv h (or_id r) ''orphan_expired'' corr
                      [(''action'', JStr ''expired''), (''status'', JStr ''expired'')] st2) (\<lambda>_ st3.
           case on_world (h_now h) st3 of (now, st4) \<Rightarrow>
             (Inr (result_of r ''expired'' None EXPIRED None None None now), st4))))"

text \<open>An exception is reported as a skipped order.\<close>

definition caught ::
  "('s, 'w, 'd) recovery_service \<Rightarrow> 'w host \<Rightarrow> order_record \<Rightarrow> string option \<Rightarrow>
     (exn, recovery_result) result \<times> ('s, 'w, 'e) live_state \<Rightarrow> recovery_result \<times> ('s, 'w, 'e) live_state" where
  "caught rv h r bid m =
     (case m of
        (Inr res, st) \<Rightarrow> (res, st)
      | (Inl e, st) \<Rightarrow>
          (case on_world (h_now h) st of (now, st1) \<Rightarrow>
             (result_of r ''skipped'' bid (or_status r) None None (Some (rv_exn_text rv e)) now, st1)))"

definition recover_pending_order ::
  "('s, 'w, 'd) recovery_service \<Rightarrow> 'w host \<Rightarrow> order_record \<Rightarrow> 'w adapter \<Rightarrow> string \<Rightarrow> ('s, 'w, 'e) live_state \<Rightarrow>
     recovery_result \<times> ('s, 'w, 'e) live_state" where
  "recover_pending_order rv h r a corr st = caught rv h r None (try_recover_pending rv h r a corr st)"

definition sync_partial_fill_order ::
  "('s, 'w, 'd) recovery_service \<Rightarrow> 'w host \<Rightarrow> order_record \<Rightarrow> 'w adapter \<Rightarrow> string \<Rightarrow> ('s, 'w, 'e) live_state \<Rightarrow>
     recovery_result \<times> ('s, 'w, 'e) live_state" where
  "sync_partial_fill_order rv h r a corr st =
     (case or_broker_order_id r of
        None \<Rightarrow> (case on_world (h_now h) st of (now, st1) \<Rightarrow>
                   (result_of r ''skipped'' None (or_status r) None None None now, st1))
      | Some bid \<Rightarrow>
          if bid = [] then (case on_world (h_now h) st of (now, st1) \<Rightarrow>
                              (result_of r ''skipped'' None (or_status r) None None None now, st1))
          else
            caught rv h r (Some bid)
              (then_do (on_world (a_get_fills a bid) st) (\<lambda>fills st1.
                 if fills \<noteq> [] then
                   let filled_total = dsum (map fe_quantity fills);
                       total_cost = dsum (map (\<lambda>f. dmul (fe_quantity f) (fe_price f)) fills)
                   in case (if 0 < filled_total then ddiv total_cost filled_total else Inr 0) of
                        Inl e \<Rightarrow> (Inl e, st1)
                      | Inr avg \<Rightarrow>
                          then_do (rv_update rv h (or_id r)
                                     ((only_status (or_status r))\<lparr>su_filled_quantity := Some filled_total,
                                        su_average_fill_price := Some avg\<rparr>) st1) (\<lambda>_ st2.
                          then_do (rv_record_event rv h (or_id r) ''orphan_synced_fills'' corr
                                     [(''action'', JStr ''synced_fills''), (''filled_quantity'', JNum filled_total),
                                      (''average_fill_price'', JNum avg)] st2) (\<lambda>_ st3.
                          case on_world (h_now h) st3 of (now, st4) \<Rightarrow>
                            (Inr (result_of r ''synced_fills'' (Some bid) (or_status r) (Some filled_total) (Some avg)
                                    None now), st4)))
                 else (case on_world (h_now h) st1 of (now, st2) \<Rightarrow>
                         (Inr (result_of r ''skipped'' (Some bid) (or_status r) None None None now), st2)))))"

section \<open>All orders\<close>

definition no_broker_id :: "order_record \<Rightarrow> bool" where
  "no_broker_id r = (case or_broker_order_id r of None \<Rightarrow> True | Some b \<Rightarrow> b = [])"

text \<open>The loop over the open orders of the database: results, recovered and failed counts.\<close>

fun recover_loop ::
  "('s, 'w, 'd) recovery_service \<Rightarrow> 'w host \<Rightarrow> 'w adapter \<Rightarrow> string \<Rightarrow> order_record list \<Rightarrow>
     recovery_result list \<times> int \<times> int \<Rightarrow> ('s, 'w, 'e) live_state \<Rightarrow>
     (recovery_result list \<times> int \<times> int) \<times> ('s, 'w, 'e) live_state" where
  "recover_loop rv h a corr [] acc st = (acc, st)"
| "recover_loop rv h a corr (r # rs) (details, recovered, failures) st =
     (if or_status r = PENDING \<and> no_broker_id r then
        (case recover_pending_order rv h r a corr st of (res, st1) \<Rightarrow>
           recover_loop rv h a corr rs
             (details @ [res],
              (if rr_action res = ''imported'' then recovered + 1 else recovered),
              (if rr_action res \<noteq> ''imported'' \<and> rr_error_message res \<notin> {None, Some []} then failures + 1 else failures)) st1)
      else if or_status r = PARTIAL_FILL \<and> \<not> no_broker_id r then
        (case sync_partial_fill_order rv h r a corr st of (res, st1) \<Rightarrow>
           recover_loop rv h a corr rs (details @ [res], recovered, failures) st1)
      else recover_loop rv h a corr rs (details, recovered, failures) st)"

text \<open>Broker orders that the database does not know are counted as cancelled; nothing is cancelled.\<close>

definition recover_orphaned_orders ::
  "('s, 'w, 'd) recovery_service \<Rightarrow> 'w host \<Rightarrow> 'd \<Rightarrow> string \<Rightarrow> string \<Rightarrow> ('s, 'w, 'e) live_state \<Rightarrow>
     (exn, recovery_report) result \<times> ('s, 'w, 'e) live_state" where
  "recover_orphaned_orders rv h d did corr st =
     (case on_world (h_now h) st of (start_time, st0) \<Rightarrow>
      case dr_get_by_id (rv_deployment_repo rv) d did of
        None \<Rightarrow> (Inl NotFoundError, st0)
      | Some _ \<Rightarrow>
          (case reg_get (rv_registry rv) did of
             Inl e \<Rightarrow> (Inl e, st0)
           | Inr a \<Rightarrow>
               let internal = od_list_open_by_deployment (rv_order_repo rv) (ls_db st0) did
               in then_do (on_world (a_list_open_orders a) st0) (\<lambda>broker_open st1.
                  case recover_loop rv h a corr internal ([], 0, 0) st1 of ((details, recovered, failures), st2) \<Rightarrow>
                  case on_world (h_now h) st2 of (end_time, st3) \<Rightarrow>
                    (Inr \<lparr>rp_deployment_id = did, rp_recovered_count = recovered,
                          rp_cancelled_count =
                            int (length (filter (\<lambda>b. os_client_order_id b \<notin> set (map or_client_order_id internal)) broker_open)),
                          rp_failed_count = failures, rp_details = details, rp_started_at = start_time,
                          rp_completed_at = end_time\<rparr>, st3))))"

text \<open>Every active live deployment; one that raises is left out of the reports.\<close>

fun recover_each ::
  "('s, 'w, 'd) recovery_service \<Rightarrow> 'w host \<Rightarrow> 'd \<Rightarrow> string \<Rightarrow> string list \<Rightarrow> ('s, 'w, 'e) live_state \<Rightarrow>
     recovery_report list \<times> ('s, 'w, 'e) live_state" where
  "recover_each rv h d corr [] st = ([], st)"
| "recover_each rv h d corr (did # dids) st =
     (case recover_orphaned_orders rv h d did corr st of (res, st1) \<Rightarrow>
      case recover_each rv h d corr dids st1 of (reports, st2) \<Rightarrow>
        ((case res of Inl _ \<Rightarrow> [] | Inr rep \<Rightarrow> [rep]) @ reports, st2))"

definition recover_all_deployments ::
  "('s, 'w, 'd) recovery_service \<Rightarrow> 'w host \<Rightarrow> 'd \<Rightarrow> string \<Rightarrow> ('s, 'w, 'e) live_state \<Rightarrow>
     recovery_report list \<times> ('s, 'w, 'e) live_state" where
  "recover_all_deployments rv h d corr st =
     recover_each rv h d corr
       (map dp_id (filter (\<lambda>x. dp_execution_mode x = ''live'') (dr_list_by_state (rv_deployment_repo rv) d ''active''))) st"


section \<open>At start-up\<close>

text \<open>The recovery phase of \<open>lifespan\<close> in \<open>services/api/main.py\<close>: a new session, the recovery of all
  deployments, and the session is closed, which ends its transaction without a commit.\<close>

definition startup_orphan_recovery ::
  "('s, 'w, 'd) recovery_service \<Rightarrow> 'w host \<Rightarrow> ('s \<Rightarrow> 's) \<Rightarrow> 'd \<Rightarrow> ('s, 'w, 'e) live_state \<Rightarrow>
     recovery_report list \<times> ('s, 'w, 'e) live_state" where
  "startup_orphan_recovery rv h close d st =
     (case recover_all_deployments rv h d ''startup-orphan-recovery'' (st\<lparr>ls_db := close (ls_db st)\<rparr>) of
        (reports, st1) \<Rightarrow> (reports, st1\<lparr>ls_db := close (ls_db st1)\<rparr>))"

section \<open>What recovery may change\<close>

definition is_orphan :: "order_record \<Rightarrow> bool" where
  "is_orphan r \<longleftrightarrow> or_status r = PENDING \<and> no_broker_id r \<or> or_status r = PARTIAL_FILL \<and> \<not> no_broker_id r"

text \<open>The orders that recovery may touch: orphans of the given deployments.\<close>

definition orphan_in :: "string set \<Rightarrow> order_record \<Rightarrow> bool" where
  "orphan_in dids r \<longleftrightarrow> is_orphan r \<and> or_deployment_id r \<in> dids"

abbreviation live_deployment_ids :: "'d deployment_repo \<Rightarrow> 'd \<Rightarrow> string set" where
  "live_deployment_ids drepo d \<equiv>
     dp_id ` {x \<in> set (dr_list_by_state drepo d ''active''). dp_execution_mode x = ''live''}"

locale recovery_store = order_listing repo erepo tx orders durable restart invar
  for repo :: "'s order_repo" and erepo :: "'s event_repo" and tx :: "'s transaction_manager"
    and orders :: "'s \<Rightarrow> string \<Rightarrow> order_record option" and durable :: "'s \<Rightarrow> string \<Rightarrow> order_record option"
    and restart :: "'s \<Rightarrow> 's" and invar :: "'s \<Rightarrow> bool" +
  fixes rv :: "('s, 'w, 'd) recovery_service"
  assumes order_repo: "rv_order_repo rv = repo" and event_repo: "rv_event_repo rv = erepo"
begin

abbreviation recoverable :: "string set \<Rightarrow> (string \<Rightarrow> order_record option) \<Rightarrow> string \<Rightarrow> bool" where
  "recoverable dids m oid \<equiv> \<exists>r. m oid = Some r \<and> orphan_in dids r"

lemma rv_update_session:
  "recoverable dids m oid \<Longrightarrow> session_ok (orphan_in dids) m st \<Longrightarrow> session_ok (orphan_in dids) m (snd (rv_update rv h oid u st))"
  by (auto simp: rv_update_def order_repo on_world_def split: prod.splits intro!: then_do_session update_session)

lemma rv_event_session:
  "session_ok (orphan_in dids) m st \<Longrightarrow> session_ok (orphan_in dids) m (snd (rv_record_event rv h oid ty corr det st))"
  by (auto simp: rv_record_event_def event_repo on_world_def split: prod.splits intro!: then_do_session event_session)

lemma caught_session: "session_ok (orphan_in dids) m (snd a) \<Longrightarrow> session_ok (orphan_in dids) m (snd (caught rv h r bid a))"
  by (auto simp: caught_def on_world_def split: prod.splits sum.splits)

lemma try_recover_session:
  "recoverable dids m (or_id r) \<Longrightarrow> session_ok (orphan_in dids) m st \<Longrightarrow> session_ok (orphan_in dids) m (snd (try_recover_pending rv h r a corr st))"
  unfolding try_recover_pending_def
  by (auto split: option.splits prod.splits intro!: then_do_session rv_update_session rv_event_session
      simp: on_world_def)

lemma recover_pending_session:
  "recoverable dids m (or_id r) \<Longrightarrow> session_ok (orphan_in dids) m st \<Longrightarrow> session_ok (orphan_in dids) m (snd (recover_pending_order rv h r a corr st))"
  by (simp add: recover_pending_order_def caught_session try_recover_session)

lemma sync_partial_session:
  assumes "recoverable dids m (or_id r)" "session_ok (orphan_in dids) m st"
  shows "session_ok (orphan_in dids) m (snd (sync_partial_fill_order rv h r a corr st))"
  unfolding sync_partial_fill_order_def Let_def using assms
  by (auto split: option.splits prod.splits sum.splits
      intro!: caught_session then_do_session rv_update_session rv_event_session simp: on_world_def)

lemma recover_loop_session:
  "\<forall>r\<in>set rs. is_orphan r \<longrightarrow> recoverable dids m (or_id r) \<Longrightarrow> session_ok (orphan_in dids) m st \<Longrightarrow>
   session_ok (orphan_in dids) m (snd (recover_loop rv h a corr rs acc st))"
proof (induction rs arbitrary: acc st)
  case (Cons r rs)
  obtain details recovered failures where acc: "acc = (details, recovered, failures)" by (cases acc) auto
  have p: "session_ok (orphan_in dids) m (snd (recover_pending_order rv h r a corr st))" if "or_status r = PENDING \<and> no_broker_id r"
    using that Cons.prems by (intro recover_pending_session) (auto simp: is_orphan_def)
  have q: "session_ok (orphan_in dids) m (snd (sync_partial_fill_order rv h r a corr st))" if "or_status r = PARTIAL_FILL \<and> \<not> no_broker_id r"
    using that Cons.prems by (intro sync_partial_session) (auto simp: is_orphan_def)
  show ?case
    using Cons p q by (auto simp: acc split: prod.splits)
qed simp

lemma listed_orphan:
  assumes "session_ok (orphan_in dids) m st" "r \<in> set (od_list_open_by_deployment repo (ls_db st) did)" "did \<in> dids" "is_orphan r"
  shows "recoverable dids m (or_id r)"
  using assms list_open [OF _ assms(2)] by (intro listed_touchable [OF assms(1,2)]) (auto simp: session_ok_def orphan_in_def)

lemma recover_orphaned_session:
  assumes "session_ok (orphan_in dids) m st" "did \<in> dids"
  shows "session_ok (orphan_in dids) m (snd (recover_orphaned_orders rv h d did corr st))"
proof -
  have orphans: "\<forall>r\<in>set (od_list_open_by_deployment repo (ls_db st) did). is_orphan r \<longrightarrow> recoverable dids m (or_id r)"
    using listed_orphan [OF assms(1) _ assms(2)] by blast
  have loop: "session_ok (orphan_in dids) m st2" if "session_ok (orphan_in dids) m st1"
      "recover_loop rv h a corr (od_list_open_by_deployment repo (ls_db st) did) acc st1 = (res, st2)" for a acc st1 res st2
    using recover_loop_session [OF orphans that(1), of h a corr acc] that(2) by simp
  show ?thesis using assms(1)
    by (auto simp: recover_orphaned_orders_def Let_def order_repo on_world_def split: option.splits sum.splits prod.splits
        intro!: then_do_session dest: loop)
qed

lemma recover_each_session:
  "session_ok (orphan_in dids) m st \<Longrightarrow> set ds \<subseteq> dids \<Longrightarrow> session_ok (orphan_in dids) m (snd (recover_each rv h d corr ds st))"
proof (induction ds arbitrary: st)
  case (Cons did ds)
  then have "session_ok (orphan_in dids) m (snd (recover_orphaned_orders rv h d did corr st))" by (intro recover_orphaned_session) auto
  with Cons.IH [of "snd (recover_orphaned_orders rv h d did corr st)"] Cons.prems(2) show ?case
    by (auto split: prod.splits)
qed simp

lemma recover_all_session:
  assumes "session_ok (orphan_in (live_deployment_ids (rv_deployment_repo rv) d)) m st"
    "recover_all_deployments rv h d corr st = (reports, st')"
  shows "session_ok (orphan_in (live_deployment_ids (rv_deployment_repo rv) d)) m st'"
  using recover_each_session [OF assms(1), of "map dp_id (filter (\<lambda>x. dp_execution_mode x = ''live'')
      (dr_list_by_state (rv_deployment_repo rv) d ''active''))" h d corr] assms(2)
  by (simp add: recover_all_deployments_def image_def)

end


section \<open>Properties\<close>

definition sql_recovery_service ::
  "'d deployment_repo \<Rightarrow> 'w registry \<Rightarrow> (exn \<Rightarrow> string) \<Rightarrow> (sql_db, 'w, 'd) recovery_service" where
  "sql_recovery_service drepo reg exn_text =
     \<lparr>rv_deployment_repo = drepo, rv_order_repo = sql_order_repo, rv_event_repo = sql_event_repo,
      rv_registry = reg, rv_exn_text = exn_text\<rparr>"

interpretation sql_recovery: recovery_store sql_order_repo sql_event_repo sql_tx sql_orders sql_durable sql_rollback sql_inv
  "sql_recovery_service drepo reg exn_text" for drepo reg exn_text
  by unfold_locales (simp_all add: sql_recovery_service_def)

text \<open>
  C33. Recovery changes nothing but orphans: whatever the brokers answer, in a session that starts from the
  committed orders every order stays, with its identity, and an order that is not a pending order without
  broker identifier or a partially filled order with one, of an active live deployment, stays as it was.
\<close>

theorem recovery_changes_only_orphans:
  assumes "recovery_store repo erepo tx orders durable restart invar rv" "invar (ls_db st)"
    "recover_all_deployments rv h d corr (st\<lparr>ls_db := restart (ls_db st)\<rparr>) = (reports, st')"
  shows "only_changed (orphan_in (live_deployment_ids (rv_deployment_repo rv) d)) (durable (ls_db st)) (orders (ls_db st'))"
  using recovery_store.recover_all_session [OF assms(1) order_store.fresh_session [OF order_listing.axioms(1) [OF recovery_store.axioms(1) [OF assms(1)]] assms(2)] assms(3)]
    order_store.session_ok_def [OF order_listing.axioms(1) [OF recovery_store.axioms(1) [OF assms(1)]]] by blast

text \<open>
  The recovery at start-up leaves no trace: its session is closed without a commit, so afterwards the
  database holds what it held before, whatever the reports say.
\<close>

theorem startup_recovery_not_committed:
  assumes "recovery_store repo erepo tx orders durable restart invar rv" "invar (ls_db st)"
    "startup_orphan_recovery rv h restart d st = (reports, st')"
  shows "orders (ls_db st') = durable (ls_db st) \<and> durable (ls_db st') = durable (ls_db st)"
proof -
  obtain st1 where r: "recover_all_deployments rv h d ''startup-orphan-recovery'' (st\<lparr>ls_db := restart (ls_db st)\<rparr>) = (reports, st1)"
    and st': "st' = st1\<lparr>ls_db := restart (ls_db st1)\<rparr>"
    using assms(3) by (auto simp: startup_orphan_recovery_def split: prod.splits)
  have "invar (ls_db st1)" "durable (ls_db st1) = durable (ls_db st)"
    using recovery_store.recover_all_session [OF assms(1) order_store.fresh_session [OF order_listing.axioms(1) [OF recovery_store.axioms(1) [OF assms(1)]] assms(2)] r]
      order_store.session_ok_def [OF order_listing.axioms(1) [OF recovery_store.axioms(1) [OF assms(1)]]] by blast+
  moreover have "order_store repo erepo tx orders durable restart invar" using assms(1) by (simp add: recovery_store_def order_listing_def)
  ultimately show ?thesis using order_store.restarted [of repo erepo tx orders durable restart invar "ls_db st1"]
    by (simp add: st')
qed

text \<open>The data of the witnesses: a pending order that the venue filled while the service was down, so
  that the venue does not list it as open.\<close>

definition demo_pending :: order_record where
  "demo_pending = new_record ''O1'' 1 (live_order ''D1'' (demo_order 5) ''X'')"

definition demo_open_venue :: "order_response list \<Rightarrow> int adapter" where
  "demo_open_venue bs = demo_venue\<lparr>a_list_open_orders := (\<lambda>w. (Inr bs, w))\<rparr>"

definition demo_recovery :: "order_response list \<Rightarrow> (sql_db, int, mock_repo) recovery_service" where
  "demo_recovery bs = sql_recovery_service mock_deployment_repo [(''D1'', demo_open_venue bs, ''demo'')] (\<lambda>e. ''failed'')"

definition demo_crashed :: "(sql_db, int, risk_event list) live_state" where
  "demo_crashed = demo_live_state\<lparr>ls_db := (sql_init [''D1''] [''S''])\<lparr>db_orders := [(''O1'', demo_pending)],
     db_committed_orders := [(''O1'', demo_pending)]\<rparr>\<rparr>"

lemma demo_recovery_store:
  "recovery_store sql_order_repo sql_event_repo sql_tx sql_orders sql_durable sql_rollback sql_inv (demo_recovery bs)"
  unfolding demo_recovery_def by (rule sql_recovery.recovery_store_axioms)

lemma demo_crashed_inv: "sql_inv (ls_db demo_crashed)"
  by (simp add: demo_crashed_def sql_inv_def table_ok_def sql_init_def demo_pending_def new_record_def dict_ok_def)

text \<open>
  The recovery marks the order as expired, and the report has one entry that says so.
\<close>

lemma demo_recovered:
  "\<exists>reports st'. recover_all_deployments (demo_recovery []) demo_clock demo_limited corr
      (demo_crashed\<lparr>ls_db := sql_rollback (ls_db demo_crashed)\<rparr>) = (reports, st') \<and>
     map (map rr_action \<circ> rp_details) reports = [[''expired'']] \<and>
     (\<exists>r. sql_orders (ls_db st') ''O1'' = Some r \<and> or_status r = EXPIRED)"
  by (simp add: demo_recovery_def sql_recovery_service_def recover_all_deployments_def demo_limited_def
      mock_list_by_state_def demo_deployment_def demo_active_def dict_values_def recover_orphaned_orders_def on_world_def
      demo_clock_def demo_host_def mock_get_by_id_def reg_get_def Let_def demo_crashed_def demo_live_state_def sql_rollback_def
      sql_init_def sql_list_open_by_deployment_def demo_pending_def new_record_def live_order_def demo_order_def
      non_terminal_statuses_def demo_open_venue_def no_broker_id_def recover_pending_order_def try_recover_pending_def
      rv_update_def on_db_def sql_update_status_def only_status_def set_fields_def from_iso_def rv_record_event_def
      sql_event_save_def caught_def result_of_def)


theorem recovery_changes_only_orphans_witness:
  "\<exists>reports st'. recover_all_deployments (demo_recovery []) demo_clock demo_limited ''R''
      (demo_crashed\<lparr>ls_db := sql_rollback (ls_db demo_crashed)\<rparr>) = (reports, st') \<and>
     sql_orders (ls_db st') ''O2'' = None \<and> (\<exists>r. sql_orders (ls_db st') ''O1'' = Some r \<and> same_order demo_pending r)"
proof -
  obtain reports st' where r: "recover_all_deployments (demo_recovery []) demo_clock demo_limited ''R''
      (demo_crashed\<lparr>ls_db := sql_rollback (ls_db demo_crashed)\<rparr>) = (reports, st')" using demo_recovered by blast
  have d: "sql_durable (ls_db demo_crashed) ''O2'' = None" "sql_durable (ls_db demo_crashed) ''O1'' = Some demo_pending"
    by (simp_all add: demo_crashed_def)
  from recovery_changes_only_orphans [OF demo_recovery_store demo_crashed_inv r] d
  have "sql_orders (ls_db st') ''O2'' = None" "\<exists>r. sql_orders (ls_db st') ''O1'' = Some r \<and> same_order demo_pending r"
    by (auto simp: only_changed_def keeps_orders_def orphan_in_def)
  with r show ?thesis by blast
qed

theorem startup_recovery_not_committed_witness:
  "\<exists>reports st'. startup_orphan_recovery (demo_recovery []) demo_clock sql_rollback demo_limited demo_crashed = (reports, st') \<and>
     map (map rr_action \<circ> rp_details) reports = [[''expired'']] \<and> sql_orders (ls_db st') ''O1'' = Some demo_pending"
proof -
  obtain reports st' where r: "startup_orphan_recovery (demo_recovery []) demo_clock sql_rollback demo_limited demo_crashed = (reports, st')"
    by fastforce
  have "map (map rr_action \<circ> rp_details) reports = [[''expired'']]"
    using r demo_recovered [of "''startup-orphan-recovery''"] by (auto simp: startup_orphan_recovery_def)
  with r startup_recovery_not_committed [OF demo_recovery_store demo_crashed_inv r] show ?thesis by (simp add: demo_crashed_def)
qed

text \<open>A pending order that the broker does not list as open is marked as expired, although the broker may
  have filled it: its own record of the order is not read.\<close>

lemma unlisted_order_expired:
  assumes "rv_order_repo rv = sql_order_repo" "rv_event_repo rv = sql_event_repo"
    "a_list_open_orders a (ls_world st) = (Inr bs, w)"
    "\<forall>b\<in>set bs. os_client_order_id b \<noteq> or_client_order_id r" "sql_orders (ls_db st) (or_id r) = Some r0"
    "\<And>w. list_all (\<lambda>e. ee_id e \<noteq> fst (h_ulid h w)) (db_events (ls_db st))"
  shows "rr_status (fst (recover_pending_order rv h r a corr st)) = EXPIRED \<and>
    map_option or_status (sql_orders (ls_db (snd (recover_pending_order rv h r a corr st))) (or_id r)) = Some EXPIRED"
proof -
  have "find (\<lambda>b. os_client_order_id b = or_client_order_id r) bs = None" using assms(4) by (auto simp: find_None_iff)
  moreover have "\<not> list_ex (\<lambda>e. ee_id e = eid) (db_events (ls_db st))" if "h_ulid h w = (eid, w')" for w eid w'
    using assms(6) [of w] that by (auto simp: list_ex_iff list_all_iff)
  ultimately show ?thesis using assms(1-3,5)
    by (auto simp: recover_pending_order_def try_recover_pending_def on_world_def rv_update_def on_db_def then_do_def
        sql_update_status_def only_status_def set_fields_def from_iso_def rv_record_event_def sql_event_save_def Let_def
        caught_def result_of_def split: prod.splits sum.splits if_splits)
qed

text \<open>
  With the SQL repository an order that the broker does have is not imported: the time of
  submission is passed as an object where a text is expected, the update raises after it has set the
  status and the broker identifier of the row, and the order is reported as skipped, without an event
  and without a new row version.
\<close>

theorem found_order_not_imported:
  assumes "rv_order_repo rv = sql_order_repo" "a_list_open_orders a (ls_world st) = (Inr bs, w)"
    "find (\<lambda>b. os_client_order_id b = or_client_order_id r) bs = Some b" "os_submitted_at b = Some t"
    "sql_orders (ls_db st) (or_id r) = Some r0"
  shows "\<exists>res st'. recover_pending_order rv h r a corr st = (res, st') \<and> rr_action res = ''skipped'' \<and>
    rr_error_message res = Some (rv_exn_text rv (PyError ''TypeError'')) \<and> db_events (ls_db st') = db_events (ls_db st) \<and>
    (\<exists>r'. sql_orders (ls_db st') (or_id r) = Some r' \<and> or_status r' = os_status b \<and>
       (os_broker_order_id b \<noteq> None \<longrightarrow> or_broker_order_id r' = os_broker_order_id b) \<and>
       or_submitted_at r' = or_submitted_at r0 \<and> or_row_version r' = or_row_version r0)"
  using assms
  by (auto simp: recover_pending_order_def try_recover_pending_def on_world_def rv_update_def on_db_def then_do_def
      sql_update_status_def only_status_def set_fields_def from_iso_def Let_def caught_def result_of_def
      split: prod.splits sum.splits option.splits)

theorem found_order_not_imported_witness:
  "\<exists>res st'. recover_pending_order (demo_recovery [demo_ack (demo_order 5)]) demo_clock demo_pending
      (demo_open_venue [demo_ack (demo_order 5)]) ''R'' demo_crashed = (res, st') \<and> rr_action res = ''skipped'' \<and>
     db_events (ls_db st') = [] \<and> (\<exists>r'. sql_orders (ls_db st') ''O1'' = Some r' \<and> or_broker_order_id r' = Some ''V1'')"
proof -
  let ?b = "demo_ack (demo_order 5)"
  have h: "rv_order_repo (demo_recovery [?b]) = sql_order_repo"
    "a_list_open_orders (demo_open_venue [?b]) (ls_world demo_crashed) = (Inr [?b], ls_world demo_crashed)"
    "find (\<lambda>b. os_client_order_id b = or_client_order_id demo_pending) [?b] = Some ?b" "os_submitted_at ?b = Some 9"
    "sql_orders (ls_db demo_crashed) (or_id demo_pending) = Some demo_pending"
    by (simp_all add: demo_recovery_def sql_recovery_service_def demo_open_venue_def demo_ack_def demo_order_def demo_pending_def
        new_record_def live_order_def demo_crashed_def)
  have "os_broker_order_id ?b = Some ''V1''" "db_events (ls_db demo_crashed) = []" "or_id demo_pending = ''O1''"
    by (simp_all add: demo_ack_def demo_crashed_def sql_init_def demo_pending_def new_record_def)
  then show ?thesis
    using found_order_not_imported [OF h, of demo_clock "''R''"] by (simp add: ex_simps) blast
qed

end
