(* ===== verification/Reconciliation.thy ===== *)
theory Reconciliation
  imports Order_Store Adapters Deployment_Repository
begin

text \<open>
  Comparison of the database with the broker: \<open>services/api/services/reconciliation_service.py\<close>, the
  reports of \<open>libs/contracts/reconciliation.py\<close>, their in-memory repository
  \<open>libs/contracts/mocks/mock_reconciliation_repository.py\<close>, and the periodic job's tick
  (\<open>services/api/infrastructure/periodic_reconciliation_job.py\<close>). The order in which Python iterates
  over a set is not specified: it is the argument \<open>it\<close>, which lists the elements of a list without
  repetition. Decimals in reports, written as texts, are modelled by the values. Metrics and log lines
  are left out.
\<close>

section \<open>Data\<close>

datatype recon_trigger = STARTUP | RECONNECT | SCHEDULED | MANUAL

datatype discrepancy_type =
    MISSING_ORDER | EXTRA_ORDER | QUANTITY_MISMATCH | PRICE_MISMATCH | STATUS_MISMATCH
  | MISSING_POSITION | EXTRA_POSITION

record discrepancy =
  dc_type :: discrepancy_type
  dc_entity_type :: string
  dc_entity_id :: string
  dc_symbol :: "string option"
  dc_field :: "string option"
  dc_internal_value :: "json option"
  dc_broker_value :: "json option"
  dc_auto_resolved :: bool
  dc_resolution :: "string option"

definition discrepancy_of :: "discrepancy_type \<Rightarrow> string \<Rightarrow> string \<Rightarrow> string option \<Rightarrow> discrepancy" where
  "discrepancy_of ty entity eid symbol =
     \<lparr>dc_type = ty, dc_entity_type = entity, dc_entity_id = eid, dc_symbol = symbol, dc_field = None,
      dc_internal_value = None, dc_broker_value = None, dc_auto_resolved = False, dc_resolution = None\<rparr>"

record recon_report =
  rc_report_id :: string
  rc_deployment_id :: string
  rc_trigger :: recon_trigger
  rc_discrepancies :: "discrepancy list"
  rc_resolved_count :: nat
  rc_unresolved_count :: nat
  rc_status :: string
  rc_orders_checked :: nat
  rc_positions_checked :: nat
  rc_created_at :: datetime

record 'q recon_repo =
  rq_save :: "recon_report \<Rightarrow> 'q \<Rightarrow> 'q"
  rq_get_by_id :: "'q \<Rightarrow> string \<Rightarrow> recon_report option"
  rq_list_by_deployment :: "'q \<Rightarrow> string \<Rightarrow> nat \<Rightarrow> recon_report list"

text \<open>An adapter may have \<open>get_all_order_states\<close> or \<open>get_all_orders\<close> besides the interface.\<close>

record 'w recon_adapter = "'w adapter" +
  ra_get_all_order_states :: "('w \<Rightarrow> (exn, order_response list) result \<times> 'w) option"
  ra_get_all_orders :: "('w \<Rightarrow> (exn, order_response list) result \<times> 'w) option"

text \<open>A row of the position repository: the symbol and the quantity, where it has them.\<close>

type_synonym position_row = "string \<times> decimal option"

record ('d, 's, 'p, 'q, 'w) recon_service =
  rs_deployment_repo :: "'d deployment_repo"
  rs_recon_repo :: "'q recon_repo"
  rs_adapters :: "(string, 'w recon_adapter) dict"
  rs_order_repo :: "'s order_repo option"
  rs_positions_of :: "('p \<Rightarrow> string \<Rightarrow> (exn, position_row list) result) option"
  rs_order_states :: "(string, (string, order_status) dict) dict"
  rs_order_quantities :: "(string, (string, decimal) dict) dict"
  rs_order_prices :: "(string, (string, decimal) dict) dict"
  rs_positions :: "(string, (string, decimal) dict) dict"

section \<open>The in-memory report repository\<close>

type_synonym mock_recon = "(string, recon_report) dict"

definition mock_recon_save :: "recon_report \<Rightarrow> mock_recon \<Rightarrow> mock_recon" where
  "mock_recon_save report q = dict_set (rc_report_id report) report q"

definition mock_recon_list :: "mock_recon \<Rightarrow> string \<Rightarrow> nat \<Rightarrow> recon_report list" where
  "mock_recon_list q did limit =
     take limit (sort_key (\<lambda>r. - rc_created_at r) (filter (\<lambda>r. rc_deployment_id r = did) (dict_values q)))"

definition mock_recon_repo :: "mock_recon recon_repo" where
  "mock_recon_repo = \<lparr>rq_save = mock_recon_save, rq_get_by_id = dict_get, rq_list_by_deployment = mock_recon_list\<rparr>"

section \<open>The comparison\<close>

definition is_safe_status_lag :: "order_status \<Rightarrow> order_status \<Rightarrow> bool" where
  "is_safe_status_lag internal broker =
     (case internal of
        SUBMITTED \<Rightarrow> broker \<in> set [FILLED, PARTIAL_FILL, CANCELLED]
      | PENDING \<Rightarrow> broker \<in> set [SUBMITTED, FILLED, PARTIAL_FILL, CANCELLED]
      | PARTIAL_FILL \<Rightarrow> broker \<in> set [FILLED]
      | _ \<Rightarrow> False)"

definition get_all_broker_orders :: "'w recon_adapter \<Rightarrow> 'w \<Rightarrow> (exn, order_response list) result \<times> 'w" where
  "get_all_broker_orders a =
     (case ra_get_all_order_states a of
        Some f \<Rightarrow> f
      | None \<Rightarrow> (case ra_get_all_orders a of Some f \<Rightarrow> f | None \<Rightarrow> a_list_open_orders a))"

definition broker_order_map :: "order_response list \<Rightarrow> (string, order_response) dict" where
  "broker_order_map bs = dict_of (map (\<lambda>b. (os_client_order_id b, b)) bs)"

definition status_mismatch :: "string \<Rightarrow> order_status \<Rightarrow> order_response \<Rightarrow> discrepancy" where
  "status_mismatch oid st b =
     (let auto = is_safe_status_lag st (os_status b)
      in (discrepancy_of STATUS_MISMATCH ''order'' oid (Some (os_symbol b)))
           \<lparr>dc_field := Some ''status'', dc_internal_value := Some (JStr (status_value st)),
            dc_broker_value := Some (JStr (status_value (os_status b))), dc_auto_resolved := auto,
            dc_resolution := (if auto then Some ''Safe status lag: broker is ahead of internal'' else None)\<rparr>)"

text \<open>Orders that only one side knows, and orders with different statuses.\<close>

definition state_discrepancies ::
  "(string list \<Rightarrow> string list) \<Rightarrow> (string, order_status) dict \<Rightarrow> (string, order_response) dict \<Rightarrow> discrepancy list" where
  "state_discrepancies it states bmap =
     map (\<lambda>oid. discrepancy_of MISSING_ORDER ''order'' oid None) (it (filter (\<lambda>oid. \<not> dict_has bmap oid) (map fst states))) @
     concat (map (\<lambda>oid. case dict_get bmap oid of
                     None \<Rightarrow> []
                   | Some b \<Rightarrow> [discrepancy_of EXTRA_ORDER ''order'' oid (Some (os_symbol b))])
              (it (filter (\<lambda>oid. \<not> dict_has states oid) (map fst bmap)))) @
     concat (map (\<lambda>oid. case (dict_get states oid, dict_get bmap oid) of
                     (Some st, Some b) \<Rightarrow> if status_value st \<noteq> status_value (os_status b) then [status_mismatch oid st b] else []
                   | _ \<Rightarrow> [])
              (it (filter (dict_has bmap) (map fst states))))"

definition quantity_discrepancies :: "(string, decimal) dict \<Rightarrow> (string, order_response) dict \<Rightarrow> discrepancy list" where
  "quantity_discrepancies quantities bmap =
     concat (map (\<lambda>(oid, expected). case dict_get bmap oid of
                     None \<Rightarrow> []
                   | Some b \<Rightarrow>
                       if expected \<noteq> os_quantity b then
                         [(discrepancy_of QUANTITY_MISMATCH ''order'' oid (Some (os_symbol b)))
                            \<lparr>dc_field := Some ''quantity'', dc_internal_value := Some (JNum expected),
                             dc_broker_value := Some (JNum (os_quantity b))\<rparr>]
                       else []) quantities)"

definition price_discrepancies :: "(string, decimal) dict \<Rightarrow> (string, order_response) dict \<Rightarrow> discrepancy list" where
  "price_discrepancies prices bmap =
     concat (map (\<lambda>(oid, expected). case dict_get bmap oid of
                     None \<Rightarrow> []
                   | Some b \<Rightarrow>
                       (case os_average_fill_price b of
                          None \<Rightarrow> []
                        | Some price \<Rightarrow>
                            if expected \<noteq> price then
                              [(discrepancy_of PRICE_MISMATCH ''order'' oid (Some (os_symbol b)))
                                 \<lparr>dc_field := Some ''average_fill_price'', dc_internal_value := Some (JNum expected),
                                  dc_broker_value := Some (JNum price)\<rparr>]
                            else [])) prices)"

text \<open>Positions are compared by symbol; the quantities of a symbol that both sides have are not.\<close>

definition position_discrepancies ::
  "(string list \<Rightarrow> string list) \<Rightarrow> (string, decimal) dict \<Rightarrow> (string, position_snapshot) dict \<Rightarrow> discrepancy list" where
  "position_discrepancies it internal bpos =
     map (\<lambda>sym. (discrepancy_of MISSING_POSITION ''position'' sym (Some sym))
              \<lparr>dc_internal_value := map_option JNum (dict_get internal sym), dc_broker_value := Some (JStr ''0'')\<rparr>)
       (it (filter (\<lambda>sym. \<not> dict_has bpos sym) (map fst internal))) @
     map (\<lambda>sym. (discrepancy_of EXTRA_POSITION ''position'' sym (Some sym))
              \<lparr>dc_internal_value := Some (JStr ''0''), dc_broker_value := map_option (\<lambda>p. JNum (ps_quantity p)) (dict_get bpos sym)\<rparr>)
       (it (filter (\<lambda>sym. \<not> dict_has internal sym) (map fst bpos)))"

section \<open>Operations\<close>

text \<open>The internal state: from the repository when there is one, otherwise the injected tables.\<close>

definition internal_states :: "('d, 's, 'p, 'q, 'w) recon_service \<Rightarrow> 's \<Rightarrow> string \<Rightarrow> (string, order_status) dict option" where
  "internal_states rs s did =
     (case rs_order_repo rs of
        None \<Rightarrow> dict_get (rs_order_states rs) did
      | Some repo \<Rightarrow> Some (dict_of (map (\<lambda>r. (or_client_order_id r, or_status r)) (od_list_by_deployment repo s did None))))"

definition internal_quantities :: "('d, 's, 'p, 'q, 'w) recon_service \<Rightarrow> 's \<Rightarrow> string \<Rightarrow> (string, decimal) dict" where
  "internal_quantities rs s did =
     (let injected = (case dict_get (rs_order_quantities rs) did of None \<Rightarrow> [] | Some t \<Rightarrow> t)
      in case rs_order_repo rs of
           None \<Rightarrow> injected
         | Some repo \<Rightarrow>
             if injected \<noteq> [] then injected
             else dict_of (map (\<lambda>r. (or_client_order_id r, or_quantity r)) (od_list_by_deployment repo s did None)))"

definition internal_prices :: "('d, 's, 'p, 'q, 'w) recon_service \<Rightarrow> 's \<Rightarrow> string \<Rightarrow> (string, decimal) dict" where
  "internal_prices rs s did =
     (let injected = (case dict_get (rs_order_prices rs) did of None \<Rightarrow> [] | Some t \<Rightarrow> t)
      in case rs_order_repo rs of
           None \<Rightarrow> injected
         | Some repo \<Rightarrow>
             if injected \<noteq> [] then injected
             else dict_of (List.map_filter (\<lambda>r. map_option (\<lambda>p. (or_client_order_id r, p)) (or_average_fill_price r))
                            (od_list_by_deployment repo s did None)))"

definition internal_positions :: "('d, 's, 'p, 'q, 'w) recon_service \<Rightarrow> 'p \<Rightarrow> string \<Rightarrow> (string, decimal) dict option" where
  "internal_positions rs p did =
     (case rs_positions_of rs of
        None \<Rightarrow> dict_get (rs_positions rs) did
      | Some f \<Rightarrow>
          (case f p did of
             Inl _ \<Rightarrow> dict_get (rs_positions rs) did
           | Inr rows \<Rightarrow>
               Some (dict_of (List.map_filter (\<lambda>(sym, q). if sym = [] then None else map_option (Pair sym) q) rows))))"

definition report_of ::
  "string \<Rightarrow> datetime \<Rightarrow> string \<Rightarrow> recon_trigger \<Rightarrow> discrepancy list \<Rightarrow> nat \<Rightarrow> nat \<Rightarrow> recon_report" where
  "report_of rid now did trigger ds orders_checked positions_checked =
     (let resolved = length (filter dc_auto_resolved ds)
      in \<lparr>rc_report_id = rid, rc_deployment_id = did, rc_trigger = trigger, rc_discrepancies = ds,
          rc_resolved_count = resolved, rc_unresolved_count = length ds - resolved,
          rc_status = (if ds = [] then ''completed'' else ''completed_with_discrepancies''),
          rc_orders_checked = orders_checked, rc_positions_checked = positions_checked, rc_created_at = now\<rparr>)"

definition run_reconciliation ::
  "('d, 's, 'p, 'q, 'w) recon_service \<Rightarrow> 'w host \<Rightarrow> (string list \<Rightarrow> string list) \<Rightarrow> 'd \<Rightarrow> 's \<Rightarrow> 'p \<Rightarrow> string \<Rightarrow> recon_trigger \<Rightarrow>
     'q \<Rightarrow> 'w \<Rightarrow> (exn, recon_report) result \<times> 'q \<times> 'w" where
  "run_reconciliation rs h it d s p did trigger q w =
     (case dr_get_by_id (rs_deployment_repo rs) d did of
        None \<Rightarrow> (Inl NotFoundError, q, w)
      | Some _ \<Rightarrow>
          (case dict_get (rs_adapters rs) did of
             None \<Rightarrow> (Inl NotFoundError, q, w)
           | Some a \<Rightarrow>
               (case get_all_broker_orders a w of
                  (Inl e, w1) \<Rightarrow> (Inl e, q, w1)
                | (Inr bs, w1) \<Rightarrow>
                    (case a_get_positions a w1 of
                       (Inl e, w2) \<Rightarrow> (Inl e, q, w2)
                     | (Inr ps, w2) \<Rightarrow>
                         let bmap = broker_order_map bs;
                             bpos = dict_of (map (\<lambda>x. (ps_symbol x, x)) ps);
                             (ds1, orders_checked) =
                               (case internal_states rs s did of
                                  None \<Rightarrow> ([], length bmap)
                                | Some states \<Rightarrow> (state_discrepancies it states bmap, max (length states) (length bmap)));
                             (ds2, positions_checked) =
                               (case internal_positions rs p did of
                                  None \<Rightarrow> ([], length bpos)
                                | Some internal \<Rightarrow> (position_discrepancies it internal bpos, max (length internal) (length bpos)));
                             ds = ds1 @ quantity_discrepancies (internal_quantities rs s did) bmap @
                                  price_discrepancies (internal_prices rs s did) bmap @ ds2
                         in (case h_ulid h w2 of (rid, w3) \<Rightarrow>
                             case h_now h w3 of (now, w4) \<Rightarrow>
                               let report = report_of rid now did trigger ds orders_checked positions_checked
                               in (Inr report, rq_save (rs_recon_repo rs) report q, w4))))))"

definition get_report :: "('d, 's, 'p, 'q, 'w) recon_service \<Rightarrow> 'q \<Rightarrow> string \<Rightarrow> (exn, recon_report) result" where
  "get_report rs q rid = (case rq_get_by_id (rs_recon_repo rs) q rid of None \<Rightarrow> Inl NotFoundError | Some r \<Rightarrow> Inr r)"

definition list_reports :: "('d, 's, 'p, 'q, 'w) recon_service \<Rightarrow> 'q \<Rightarrow> string \<Rightarrow> nat \<Rightarrow> recon_report list" where
  "list_reports rs q did limit = rq_list_by_deployment (rs_recon_repo rs) q did limit"

text \<open>A tick of the periodic job over the active live deployments: the identifiers that were reconciled. An
  exception of one deployment does not stop the others.\<close>

fun reconcile_each ::
  "('d, 's, 'p, 'q, 'w) recon_service \<Rightarrow> 'w host \<Rightarrow> (string list \<Rightarrow> string list) \<Rightarrow> 'd \<Rightarrow> 's \<Rightarrow> 'p \<Rightarrow> string list \<Rightarrow>
     'q \<Rightarrow> 'w \<Rightarrow> string list \<times> 'q \<times> 'w" where
  "reconcile_each rs h it d s p [] q w = ([], q, w)"
| "reconcile_each rs h it d s p (did # dids) q w =
     (if did = [] then reconcile_each rs h it d s p dids q w
      else
        (case run_reconciliation rs h it d s p did SCHEDULED q w of (res, q1, w1) \<Rightarrow>
         case reconcile_each rs h it d s p dids q1 w1 of (reconciled, q2, w2) \<Rightarrow>
           ((case res of Inl _ \<Rightarrow> [] | Inr _ \<Rightarrow> [did]) @ reconciled, q2, w2)))"

definition check_and_reconcile ::
  "('d, 's, 'p, 'q, 'w) recon_service \<Rightarrow> 'w host \<Rightarrow> (string list \<Rightarrow> string list) \<Rightarrow> 'd \<Rightarrow> 's \<Rightarrow> 'p \<Rightarrow> 'q \<Rightarrow> 'w \<Rightarrow>
     string list \<times> 'q \<times> 'w" where
  "check_and_reconcile rs h it d s p q w =
     reconcile_each rs h it d s p
       (map dp_id (filter (\<lambda>x. dp_execution_mode x = ''live'') (dr_list_by_state (rs_deployment_repo rs) d ''active''))) q w"


section \<open>Exactness\<close>

text \<open>What Python promises about the iteration over a set.\<close>

definition set_order :: "(string list \<Rightarrow> string list) \<Rightarrow> bool" where
  "set_order it \<longleftrightarrow> (\<forall>xs. set (it xs) = set xs \<and> distinct (it xs))"

lemma set_orderD [simp]: "set_order it \<Longrightarrow> set (it xs) = set xs"
  by (simp add: set_order_def)

lemma set_order_Nil_iff: "set_order it \<Longrightarrow> it xs = [] \<longleftrightarrow> xs = []"
  by (metis set_orderD set_empty)

lemma status_value_inj [simp]: "status_value x = status_value y \<longleftrightarrow> x = y"
  by (cases x; cases y) simp_all

lemma one_sided_set:
  assumes "set_order it"
  shows "set (it (filter (\<lambda>k. \<not> dict_has e k) (map fst d))) = {k. dict_get d k \<noteq> None \<and> dict_get e k = None}"
  using assms dict_get_keys [of _ d] by auto

lemma both_sided_set:
  assumes "set_order it"
  shows "set (it (filter (dict_has e) (map fst d))) = {k. dict_get d k \<noteq> None \<and> dict_get e k \<noteq> None}"
  using assms dict_get_keys [of _ d] by auto

lemma missing_mem:
  assumes "set_order it"
  shows "x \<in> set (map f (it (filter (\<lambda>k. \<not> dict_has e k) (map fst d)))) \<longleftrightarrow>
    (\<exists>k v. dict_get d k = Some v \<and> dict_get e k = None \<and> x = f k)"
  unfolding set_map one_sided_set [OF assms] by auto

text \<open>The discrepancies between two tables of orders are exactly these.\<close>

lemma state_discrepancies_mem:
  assumes "set_order it"
  shows "x \<in> set (state_discrepancies it states bmap) \<longleftrightarrow>
    (\<exists>oid st. dict_get states oid = Some st \<and> dict_get bmap oid = None \<and> x = discrepancy_of MISSING_ORDER ''order'' oid None) \<or>
    (\<exists>oid b. dict_get states oid = None \<and> dict_get bmap oid = Some b \<and>
       x = discrepancy_of EXTRA_ORDER ''order'' oid (Some (os_symbol b))) \<or>
    (\<exists>oid st b. dict_get states oid = Some st \<and> dict_get bmap oid = Some b \<and> st \<noteq> os_status b \<and> x = status_mismatch oid st b)"
proof -
  have extra: "x \<in> set (concat (map (\<lambda>oid. case dict_get bmap oid of None \<Rightarrow> []
      | Some b \<Rightarrow> [discrepancy_of EXTRA_ORDER ''order'' oid (Some (os_symbol b))])
        (it (filter (\<lambda>oid. \<not> dict_has states oid) (map fst bmap))))) \<longleftrightarrow>
      (\<exists>oid b. dict_get states oid = None \<and> dict_get bmap oid = Some b \<and>
        x = discrepancy_of EXTRA_ORDER ''order'' oid (Some (os_symbol b)))"
    unfolding set_concat set_map one_sided_set [OF assms] by auto
  have differ: "x \<in> set (concat (map (\<lambda>oid. case (dict_get states oid, dict_get bmap oid) of
        (Some st, Some b) \<Rightarrow> if status_value st \<noteq> status_value (os_status b) then [status_mismatch oid st b] else []
      | _ \<Rightarrow> []) (it (filter (dict_has bmap) (map fst states))))) \<longleftrightarrow>
      (\<exists>oid st b. dict_get states oid = Some st \<and> dict_get bmap oid = Some b \<and> st \<noteq> os_status b \<and> x = status_mismatch oid st b)"
    unfolding set_concat set_map both_sided_set [OF assms] by (auto split: if_splits) blast
  show ?thesis
    unfolding state_discrepancies_def set_append Un_iff missing_mem [OF assms] extra differ by blast
qed

lemma quantity_discrepancies_Nil:
  "dict_ok quantities \<Longrightarrow> quantity_discrepancies quantities bmap = [] \<longleftrightarrow>
   (\<forall>oid expected b. dict_get quantities oid = Some expected \<longrightarrow> dict_get bmap oid = Some b \<longrightarrow> expected = os_quantity b)"
  unfolding quantity_discrepancies_def concat_eq_Nil_conv
  by (auto simp: dict_get_iff_mem split: option.splits if_splits)

lemma price_discrepancies_Nil:
  "dict_ok prices \<Longrightarrow> price_discrepancies prices bmap = [] \<longleftrightarrow>
   (\<forall>oid expected b price. dict_get prices oid = Some expected \<longrightarrow> dict_get bmap oid = Some b \<longrightarrow>
      os_average_fill_price b = Some price \<longrightarrow> expected = price)"
  unfolding price_discrepancies_def concat_eq_Nil_conv
  by (auto simp: dict_get_iff_mem split: option.splits if_splits)

lemma state_discrepancies_Nil:
  assumes "set_order it"
  shows "state_discrepancies it states bmap = [] \<longleftrightarrow> (\<forall>oid. dict_get states oid = map_option os_status (dict_get bmap oid))"
proof -
  have "state_discrepancies it states bmap = [] \<longleftrightarrow>
      (\<forall>oid. (\<forall>st. dict_get states oid = Some st \<longrightarrow> dict_get bmap oid \<noteq> None) \<and>
         (\<forall>b. dict_get bmap oid = Some b \<longrightarrow> dict_get states oid \<noteq> None) \<and>
         (\<forall>st b. dict_get states oid = Some st \<longrightarrow> dict_get bmap oid = Some b \<longrightarrow> st = os_status b))"
    unfolding set_empty [symmetric] set_eq_iff state_discrepancies_mem [OF assms] empty_iff eq_False de_Morgan_disj all_conj_distrib not_ex de_Morgan_conj by (simp only: imp_conv_disj [symmetric] not_not) blast
  also have "\<dots> \<longleftrightarrow> (\<forall>oid. dict_get states oid = map_option os_status (dict_get bmap oid))"
  proof (rule iff_allI)
    fix oid
    show "((\<forall>st. dict_get states oid = Some st \<longrightarrow> dict_get bmap oid \<noteq> None) \<and>
         (\<forall>b. dict_get bmap oid = Some b \<longrightarrow> dict_get states oid \<noteq> None) \<and>
         (\<forall>st b. dict_get states oid = Some st \<longrightarrow> dict_get bmap oid = Some b \<longrightarrow> st = os_status b)) \<longleftrightarrow>
       dict_get states oid = map_option os_status (dict_get bmap oid)"
      by (cases "dict_get states oid"; cases "dict_get bmap oid") simp_all
  qed
  finally show ?thesis .
qed

lemma position_discrepancies_Nil:
  assumes "set_order it"
  shows "position_discrepancies it internal bpos = [] \<longleftrightarrow> fst ` set internal = fst ` set bpos"
  using assms
  by (auto simp: position_discrepancies_def set_order_Nil_iff filter_empty_conv map_of_eq_None_iff)


text \<open>Tables that are built from lists of records with distinct keys.\<close>

lemma get_dict_of:
  assumes "distinct (map f xs)"
  shows "dict_get (dict_of (map (\<lambda>x. (f x, g x)) xs)) k = Some v \<longleftrightarrow> (\<exists>x\<in>set xs. f x = k \<and> g x = v)"
proof -
  have "dict_of (map (\<lambda>x. (f x, g x)) xs) = map (\<lambda>x. (f x, g x)) xs" using assms by (simp add: dict_of_distinct o_def)
  moreover have "dict_ok (map (\<lambda>x. (f x, g x)) xs)" using assms by (simp add: dict_ok_def o_def)
  ultimately show ?thesis by (auto simp: dict_get_iff_mem)
qed

lemma get_dict_of_filter:
  assumes "distinct (map f xs)"
  shows "dict_get (dict_of (List.map_filter (\<lambda>x. map_option (Pair (f x)) (g x)) xs)) k = Some v \<longleftrightarrow>
    (\<exists>x\<in>set xs. f x = k \<and> g x = Some v)"
proof -
  let ?l = "List.map_filter (\<lambda>x. map_option (Pair (f x)) (g x)) xs"
  have "set (map fst ?l) \<subseteq> set (map f xs)" "distinct (map fst ?l)" if "distinct (map f xs)"
    using that by (induction xs) (auto simp: List.map_filter_simps split: option.splits)
  then have "dict_of ?l = ?l" "dict_ok ?l" using assms by (simp_all add: dict_of_distinct dict_ok_def)
  then show ?thesis by (auto simp: dict_get_iff_mem map_filter_def split: option.splits) (force simp: image_iff)+
qed


lemma dict_of_keys: "fst ` set (dict_of kvs) = fst ` set kvs"
proof (induction kvs rule: rev_induct)
  case (snoc kv kvs)
  then show ?case by (cases kv) (simp add: dom_update insert_commute)
qed simp

section \<open>Properties\<close>

text \<open>When two books agree: the same orders, and for each of them the same status, the same quantity and,
  where both have one, the same average price.\<close>

definition books_agree :: "order_record list \<Rightarrow> order_response list \<Rightarrow> bool" where
  "books_agree rs bs \<longleftrightarrow> or_client_order_id ` set rs = os_client_order_id ` set bs \<and>
     (\<forall>r\<in>set rs. \<forall>b\<in>set bs. or_client_order_id r = os_client_order_id b \<longrightarrow>
        or_status r = os_status b \<and> or_quantity r = os_quantity b \<and>
        (\<forall>x y. or_average_fill_price r = Some x \<longrightarrow> os_average_fill_price b = Some y \<longrightarrow> x = y))"

definition held_symbols :: "position_row list \<Rightarrow> string set" where
  "held_symbols rows = {sym. sym \<noteq> [] \<and> (\<exists>q. (sym, Some q) \<in> set rows)}"

lemma get_broker_order:
  "distinct (map os_client_order_id bs) \<Longrightarrow>
   dict_get (broker_order_map bs) oid = Some b \<longleftrightarrow> b \<in> set bs \<and> os_client_order_id b = oid"
  unfolding broker_order_map_def using get_dict_of [of os_client_order_id bs "\<lambda>b. b" oid b] by auto

text \<open>Two tables with the keys of two lists agree when the lists have the same keys and agree on them.\<close>

lemma tables_agree:
  assumes "\<And>k v. dict_get d k = Some v \<longleftrightarrow> (\<exists>x\<in>A. f x = k \<and> p x = v)" "\<And>k y. dict_get e k = Some y \<longleftrightarrow> y \<in> B \<and> g y = k"
  shows "(\<forall>k. dict_get d k = map_option q (dict_get e k)) \<longleftrightarrow> f ` A = g ` B \<and> (\<forall>x\<in>A. \<forall>y\<in>B. f x = g y \<longrightarrow> p x = q y)"
proof (intro iffI conjI ballI impI allI)
  assume eq: "\<forall>k. dict_get d k = map_option q (dict_get e k)"
  show same: "p x = q y" if "x \<in> A" "y \<in> B" "f x = g y" for x y
  proof -
    have "dict_get d (f x) = Some (p x)" "dict_get e (f x) = Some y" using assms that by auto
    with eq [rule_format, of "f x"] show ?thesis by simp
  qed
  show "f ` A = g ` B"
  proof (intro equalityI subsetI)
    fix k assume "k \<in> f ` A"
    then have "\<exists>v. dict_get d k = Some v" using assms(1) by blast
    with eq have "\<exists>y. dict_get e k = Some y" by auto
    then show "k \<in> g ` B" using assms(2) by auto
  next
    fix k assume "k \<in> g ` B"
    then have "\<exists>y. dict_get e k = Some y" using assms(2) by blast
    with eq have "\<exists>v. dict_get d k = Some v" by auto
    then show "k \<in> f ` A" using assms(1) by auto
  qed
next
  fix k assume ag: "f ` A = g ` B \<and> (\<forall>x\<in>A. \<forall>y\<in>B. f x = g y \<longrightarrow> p x = q y)"
  show "dict_get d k = map_option q (dict_get e k)"
  proof (cases "dict_get e k")
    case None
    then have "k \<notin> g ` B" using assms(2) by (metis imageE option.distinct(1))
    then have "k \<notin> f ` A" using ag by simp
    then have "dict_get d k = None" using assms(1) by (cases "dict_get d k") auto
    with None show ?thesis by simp
  next
    case (Some y)
    then have y: "y \<in> B" "g y = k" using assms(2) by auto
    then obtain x where "x \<in> A" "f x = k" using ag by (metis imageE imageI)
    with y ag assms(1) have "dict_get d k = Some (q y)" by auto
    with Some show ?thesis by simp
  qed
qed

lemma order_comparison_Nil:
  assumes it: "set_order it" and d: "distinct (map or_client_order_id rs)" "distinct (map os_client_order_id bs)"
  shows "state_discrepancies it (dict_of (map (\<lambda>r. (or_client_order_id r, or_status r)) rs)) (broker_order_map bs) = [] \<and>
     quantity_discrepancies (dict_of (map (\<lambda>r. (or_client_order_id r, or_quantity r)) rs)) (broker_order_map bs) = [] \<and>
     price_discrepancies (dict_of (List.map_filter (\<lambda>r. map_option (\<lambda>p. (or_client_order_id r, p)) (or_average_fill_price r)) rs))
       (broker_order_map bs) = [] \<longleftrightarrow> books_agree rs bs"
proof -
  have "state_discrepancies it (dict_of (map (\<lambda>r. (or_client_order_id r, or_status r)) rs)) (broker_order_map bs) = [] \<longleftrightarrow>
      or_client_order_id ` set rs = os_client_order_id ` set bs \<and>
      (\<forall>r\<in>set rs. \<forall>b\<in>set bs. or_client_order_id r = os_client_order_id b \<longrightarrow> or_status r = os_status b)"
    unfolding state_discrepancies_Nil [OF it] by (rule tables_agree [OF get_dict_of [OF d(1)] get_broker_order [OF d(2)]])
  moreover have "quantity_discrepancies (dict_of (map (\<lambda>r. (or_client_order_id r, or_quantity r)) rs)) (broker_order_map bs) = [] \<longleftrightarrow>
      (\<forall>r\<in>set rs. \<forall>b\<in>set bs. or_client_order_id r = os_client_order_id b \<longrightarrow> or_quantity r = os_quantity b)"
    unfolding quantity_discrepancies_Nil [OF dict_of_ok] get_dict_of [OF d(1)] get_broker_order [OF d(2)] by blast
  moreover have "price_discrepancies (dict_of (List.map_filter (\<lambda>r. map_option (\<lambda>p. (or_client_order_id r, p)) (or_average_fill_price r)) rs))
       (broker_order_map bs) = [] \<longleftrightarrow>
      (\<forall>r\<in>set rs. \<forall>b\<in>set bs. or_client_order_id r = os_client_order_id b \<longrightarrow>
         (\<forall>x y. or_average_fill_price r = Some x \<longrightarrow> os_average_fill_price b = Some y \<longrightarrow> x = y))"
    unfolding price_discrepancies_Nil [OF dict_of_ok] get_dict_of_filter [OF d(1)] get_broker_order [OF d(2)] by blast
  ultimately show ?thesis unfolding books_agree_def by blast
qed



text \<open>The data of the witnesses: an order that was filled, known to the database and to the broker.\<close>

definition demo_booked :: order_record where
  "demo_booked =
     \<lparr>or_id = ''O1'', or_client_order_id = ''C1'', or_deployment_id = ''D1'', or_strategy_id = ''S'', or_symbol = ''EURUSD'',
      or_side = BUY, or_order_type = MARKET, or_quantity = 10, or_limit_price = None, or_stop_price = None,
      or_time_in_force = DAY, or_status = FILLED, or_broker_order_id = Some ''V1'', or_submitted_at = Some 2,
      or_filled_at = Some 3, or_cancelled_at = None, or_average_fill_price = Some 1, or_filled_quantity = 10,
      or_rejected_reason = None, or_correlation_id = ''X'', or_execution_mode = LIVE, or_row_version = 2,
      or_created_at = 1, or_updated_at = 3\<rparr>"

definition demo_broker_view :: order_response where
  "demo_broker_view =
     \<lparr>os_client_order_id = ''C1'', os_broker_order_id = Some ''V1'', os_symbol = ''EURUSD'', os_side = BUY,
      os_order_type = MARKET, os_quantity = 10, os_filled_quantity = 10, os_average_fill_price = Some 1,
      os_status = FILLED, os_limit_price = None, os_stop_price = None, os_time_in_force = DAY,
      os_submitted_at = Some 2, os_filled_at = Some 3, os_cancelled_at = None, os_rejected_reason = None,
      os_correlation_id = ''X'', os_execution_mode = LIVE\<rparr>"

definition demo_position :: "decimal \<Rightarrow> position_snapshot" where
  "demo_position x =
     \<lparr>ps_symbol = ''EURUSD'', ps_quantity = x, ps_average_entry_price = 1, ps_market_price = 1, ps_market_value = x,
      ps_unrealized_pnl = 0, ps_realized_pnl = 0, ps_cost_basis = x, ps_updated_at = 3\<rparr>"

text \<open>The venue lists no open orders; \<open>all\<close> is its further operation, if it has one.\<close>

definition demo_recon_adapter :: "(int \<Rightarrow> (exn, order_response list) result \<times> int) option \<Rightarrow> int recon_adapter" where
  "demo_recon_adapter all =
     \<lparr>a_connect = (\<lambda>w. (Inr (), w)), a_disconnect = (\<lambda>w. (Inr (), w)),
      a_submit_order = (\<lambda>rq w. (Inl TransientError, w)), a_cancel_order = (\<lambda>bid w. (Inl TransientError, w)),
      a_get_order = (\<lambda>bid w. (Inr demo_broker_view, w)), a_list_open_orders = (\<lambda>w. (Inr [], w)),
      a_get_fills = (\<lambda>bid w. (Inr [], w)), a_get_positions = (\<lambda>w. (Inr [demo_position 1000], w)),
      a_get_account = (\<lambda>w. (Inl TransientError, w)), a_is_paper_adapter = False,
      ra_get_all_order_states = None, ra_get_all_orders = all\<rparr>"

definition demo_recon ::
  "(int \<Rightarrow> (exn, order_response list) result \<times> int) option \<Rightarrow>
     (mock_repo, sql_db, position_row list, mock_recon, int) recon_service" where
  "demo_recon all =
     \<lparr>rs_deployment_repo = mock_deployment_repo, rs_recon_repo = mock_recon_repo,
      rs_adapters = [(''D1'', demo_recon_adapter all)], rs_order_repo = Some sql_order_repo,
      rs_positions_of = Some (\<lambda>rows did. Inr rows), rs_order_states = [], rs_order_quantities = [],
      rs_order_prices = [], rs_positions = []\<rparr>"

definition demo_recon_host :: "int host" where
  "demo_recon_host = \<lparr>h_now = (\<lambda>w. (w, w)), h_monotonic_ns = (\<lambda>w. (w, w)), h_monotonic = (\<lambda>w. (of_int w, w)),
     h_ulid = (\<lambda>w. (''U'', w + 1)), h_sleep = (\<lambda>n w. w + n)\<rparr>"

definition demo_known :: mock_repo where
  "demo_known = \<lparr>mr_store = [(''D1'', \<lparr>dp_id = ''D1'', dp_strategy_id = ''S'', dp_state = ''active'',
      dp_execution_mode = ''live'', dp_emergency_posture = ''flatten_all'', dp_risk_limits = empty_doc,
      dp_custom_posture_config = None, dp_deployed_by = ''U1'', dp_created_at = 1, dp_updated_at = 1\<rparr>)], mr_transitions = []\<rparr>"

definition demo_books :: sql_db where
  "demo_books = (sql_init [''D1''] [''S''])\<lparr>db_orders := [(''O1'', demo_booked)], db_committed_orders := [(''O1'', demo_booked)]\<rparr>"

lemma demo_books_list: "od_list_by_deployment sql_order_repo demo_books ''D1'' None = [demo_booked]"
  by (simp add: sql_list_by_deployment_def demo_books_def dict_values_def demo_booked_def)

lemma set_order_remdups: "set_order remdups"
  by (simp add: set_order_def)


lemma run_reconciliation_report:
  assumes "run_reconciliation rs h it d s p did trigger q w = (Inr report, q', w')" "dict_get (rs_adapters rs) did = Some a"
    "get_all_broker_orders a w = (Inr bs, w1)" "internal_states rs s did = Some states"
  shows "set (state_discrepancies it states (broker_order_map bs)) \<subseteq> set (rc_discrepancies report)"
    "rc_unresolved_count report = length (rc_discrepancies report) - length (filter dc_auto_resolved (rc_discrepancies report))"
proof -
  obtain ps w2 where "a_get_positions a w1 = (Inr ps, w2)"
    using assms by (cases "a_get_positions a w1"; cases "fst (a_get_positions a w1)") (auto simp: run_reconciliation_def split: option.splits)
  with assms show "set (state_discrepancies it states (broker_order_map bs)) \<subseteq> set (rc_discrepancies report)"
    "rc_unresolved_count report = length (rc_discrepancies report) - length (filter dc_auto_resolved (rc_discrepancies report))"
    by (cases "internal_positions rs p did";
        auto simp: run_reconciliation_def report_of_def Let_def split: option.splits prod.splits)+
qed

text \<open>
  An adapter that offers only the interface shows its open orders: every order of the database that is
  no longer open at the broker, such as a filled one, is reported as missing and stays unresolved.
\<close>

theorem closed_orders_reported_missing:
  assumes "run_reconciliation rs h it d s p did trigger q w = (Inr report, q', w')" "set_order it"
    "rs_order_repo rs = Some repo" "dict_get (rs_adapters rs) did = Some a"
    "ra_get_all_order_states a = None" "ra_get_all_orders a = None" "a_list_open_orders a w = (Inr bs, w1)"
    "r \<in> set (od_list_by_deployment repo s did None)" "\<forall>b\<in>set bs. os_client_order_id b \<noteq> or_client_order_id r"
  shows "discrepancy_of MISSING_ORDER ''order'' (or_client_order_id r) None \<in> set (rc_discrepancies report) \<and>
    0 < rc_unresolved_count report"
proof -
  let ?x = "discrepancy_of MISSING_ORDER ''order'' (or_client_order_id r) None"
  let ?states = "dict_of (map (\<lambda>r. (or_client_order_id r, or_status r)) (od_list_by_deployment repo s did None))"
  have "or_client_order_id r \<in> fst ` set ?states" using assms(8) by (simp add: dict_of_keys image_image)
  then obtain st where st: "dict_get ?states (or_client_order_id r) = Some st" by (auto simp: dict_get_keys)
  have b: "dict_get (broker_order_map bs) (or_client_order_id r) = None"
    using assms(9) by (auto simp: map_of_eq_None_iff broker_order_map_def dict_of_keys)
  have m: "?x \<in> set (state_discrepancies it ?states (broker_order_map bs))"
    unfolding state_discrepancies_mem [OF assms(2)] using st b by (intro disjI1 exI [of _ "or_client_order_id r"] exI [of _ st]) simp
  have "get_all_broker_orders a w = (Inr bs, w1)" "internal_states rs s did = Some ?states"
    using assms(3,5-7) by (simp_all add: internal_states_def get_all_broker_orders_def)
  note report = run_reconciliation_report [OF assms(1,4) this]
  have x: "?x \<in> set (rc_discrepancies report)" by (rule subsetD [OF report(1) m])
  have "\<not> dc_auto_resolved ?x" by (simp add: discrepancy_of_def)
  then have "length (filter dc_auto_resolved (rc_discrepancies report)) < length (rc_discrepancies report)"
    by (rule length_filter_less [OF x])
  with x report(2) show ?thesis by simp
qed

theorem closed_orders_reported_missing_witness:
  "\<exists>report q' w'. run_reconciliation (demo_recon None) demo_recon_host remdups demo_known demo_books [] ''D1'' MANUAL [] 5 =
      (Inr report, q', w') \<and> discrepancy_of MISSING_ORDER ''order'' ''C1'' None \<in> set (rc_discrepancies report)"
proof -
  have "\<exists>report q' w'. run_reconciliation (demo_recon None) demo_recon_host remdups demo_known demo_books [] ''D1'' MANUAL [] 5 =
      (Inr report, q', w')"
    by (simp add: run_reconciliation_def demo_recon_def demo_known_def mock_get_by_id_def get_all_broker_orders_def
        demo_recon_adapter_def demo_recon_host_def Let_def split: prod.splits)
  then obtain report q' w' where run: "run_reconciliation (demo_recon None) demo_recon_host remdups demo_known demo_books [] ''D1''
      MANUAL [] 5 = (Inr report, q', w')" by blast
  have "or_client_order_id demo_booked = ''C1''" by (simp add: demo_booked_def)
  then show ?thesis
    using run closed_orders_reported_missing [OF run set_order_remdups, of sql_order_repo "demo_recon_adapter None" "[]" 5 demo_booked]
    by (simp add: demo_books_list demo_recon_def demo_recon_adapter_def del: sql_order_repo_sel)
qed

end
