(* ===== verification/Partial_Fill_Monitor.thy ===== *)
theory Partial_Fill_Monitor
  imports Order_Session
begin

text \<open>
  The monitor of partially filled orders, \<open>services/api/services/partial_fill_monitor_service.py\<close> with the
  schemas of \<open>libs/contracts/partial_fill.py\<close>: each partially filled order of a deployment is compared
  with the broker and is completed, left alone, cancelled or reported, depending on the policy. The
  service asks the object that it is given for an adapter with \<open>get_adapter\<close>; that operation is a
  field of the service. Log lines are left out.
\<close>

section \<open>Data\<close>

record partial_fill_policy =
  pf_timeout_seconds :: int
  pf_min_fill_ratio :: rat
  pf_action_on_timeout :: string

record partial_fill_resolution =
  pr_order_id :: string
  pr_broker_order_id :: string
  pr_original_quantity :: decimal
  pr_filled_quantity :: decimal
  pr_fill_ratio :: rat
  pr_action_taken :: string
  pr_cancelled_at :: "datetime option"
  pr_error_message :: "string option"

text \<open>The broker identifier of a row may be missing, and is passed on as \<open>None\<close> then: what the adapter's
  operations do with it is a part of the adapter.\<close>

record 'w pm_adapter = "'w adapter" +
  pa_get_order_none :: "'w \<Rightarrow> (exn, order_response) result \<times> 'w"
  pa_cancel_order_none :: "'w \<Rightarrow> (exn, order_response) result \<times> 'w"

definition pm_get_order :: "'w pm_adapter \<Rightarrow> string option \<Rightarrow> 'w \<Rightarrow> (exn, order_response) result \<times> 'w" where
  "pm_get_order a bid = (case bid of None \<Rightarrow> pa_get_order_none a | Some b \<Rightarrow> a_get_order a b)"

definition pm_cancel_order :: "'w pm_adapter \<Rightarrow> string option \<Rightarrow> 'w \<Rightarrow> (exn, order_response) result \<times> 'w" where
  "pm_cancel_order a bid = (case bid of None \<Rightarrow> pa_cancel_order_none a | Some b \<Rightarrow> a_cancel_order a b)"

record ('s, 'w) monitor_service =
  pm_order_repo :: "'s order_repo"
  pm_event_repo :: "'s event_repo"
  pm_get_adapter :: "string \<Rightarrow> (exn, 'w pm_adapter) result"
  pm_exn_text :: "exn \<Rightarrow> string"

text \<open>\<open>BrokerAdapterRegistry\<close>, the class that the constructor names, has no attribute \<open>get_adapter\<close>.\<close>

definition registry_get_adapter :: "'w registry \<Rightarrow> string \<Rightarrow> (exn, 'w pm_adapter) result" where
  "registry_get_adapter reg did = Inl (PyError ''AttributeError'')"

text \<open>The resolution is validated: the broker identifier is a text that is not empty, and the ratio, a
  Decimal quotient converted to a float, lies between 0 and 1.\<close>

definition resolution_of ::
  "string \<Rightarrow> string option \<Rightarrow> decimal \<Rightarrow> decimal \<Rightarrow> string \<Rightarrow> datetime option \<Rightarrow> string option \<Rightarrow>
     (exn, partial_fill_resolution) result" where
  "resolution_of oid bid original filled action cancelled_at err =
     bind_r (ddiv filled original) (\<lambda>q.
       let ratio = fl q
       in case bid of
            None \<Rightarrow> Inl (PyError ''pydantic.ValidationError'')
          | Some b \<Rightarrow>
              if b = [] \<or> oid = [] \<or> ratio < 0 \<or> 1 < ratio then Inl (PyError ''pydantic.ValidationError'')
              else Inr \<lparr>pr_order_id = oid, pr_broker_order_id = b, pr_original_quantity = original,
                        pr_filled_quantity = filled, pr_fill_ratio = ratio, pr_action_taken = action,
                        pr_cancelled_at = cancelled_at, pr_error_message = err\<rparr>)"

text \<open>\<open>str(status).lower()\<close> of a member of the enumeration \<open>OrderStatus\<close>.\<close>

definition status_text :: "order_status \<Rightarrow> string" where
  "status_text st = ''orderstatus.'' @ status_value st"

section \<open>Operations\<close>

definition pm_update ::
  "('s, 'w) monitor_service \<Rightarrow> 'w host \<Rightarrow> string \<Rightarrow> status_update \<Rightarrow> ('s, 'w, 'e) live_state \<Rightarrow>
     (exn, unit) result \<times> ('s, 'w, 'e) live_state" where
  "pm_update pm h oid u st =
     (case on_world (h_now h) st of (now, st1) \<Rightarrow>
        then_do (on_db (od_update_status (pm_order_repo pm) now oid u) st1) (\<lambda>_ st2. (Inr (), st2)))"

definition pm_event ::
  "('s, 'w) monitor_service \<Rightarrow> 'w host \<Rightarrow> string \<Rightarrow> string \<Rightarrow> datetime \<Rightarrow> (string \<times> json) list \<Rightarrow> string \<Rightarrow>
     ('s, 'w, 'e) live_state \<Rightarrow> (exn, unit) result \<times> ('s, 'w, 'e) live_state" where
  "pm_event pm h oid ty now details corr st =
     (case on_world (h_ulid h) st of (eid, st1) \<Rightarrow>
        then_do (on_db (ev_save (pm_event_repo pm) eid oid ty now (Some details) corr) st1) (\<lambda>_ st2. (Inr (), st2)))"

text \<open>The body of the \<open>try\<close> of \<open>_cancel_partial_order\<close>: the broker's answer to the cancellation is not
  used.\<close>

definition try_cancel_partial ::
  "('s, 'w) monitor_service \<Rightarrow> 'w host \<Rightarrow> string \<Rightarrow> string option \<Rightarrow> decimal \<Rightarrow> decimal \<Rightarrow> string \<Rightarrow> 'w pm_adapter \<Rightarrow>
     ('s, 'w, 'e) live_state \<Rightarrow> (exn, partial_fill_resolution) result \<times> ('s, 'w, 'e) live_state" where
  "try_cancel_partial pm h oid bid original filled corr a st =
     then_do (on_world (pm_cancel_order a bid) st) (\<lambda>_ st1.
     case on_world (h_now h) st1 of (now, st2) \<Rightarrow>
     then_do (pm_update pm h oid ((only_status CANCELLED)\<lparr>su_filled_quantity := Some filled, su_cancelled_at := Some (IsoText now)\<rparr>) st2)
       (\<lambda>_ st3.
     then_do (pm_event pm h oid ''partial_fill_timeout_cancelled'' now
                [(''action'', JStr ''cancelled_remaining''), (''filled_qty'', JNum filled),
                 (''cancelled_qty'', JNum (dsub original filled))] corr st3) (\<lambda>_ st4.
     (resolution_of oid bid original filled ''cancelled_remaining'' (Some now) None, st4))))"

definition cancel_partial_order ::
  "('s, 'w) monitor_service \<Rightarrow> 'w host \<Rightarrow> string \<Rightarrow> string option \<Rightarrow> decimal \<Rightarrow> decimal \<Rightarrow> string \<Rightarrow> 'w pm_adapter \<Rightarrow>
     ('s, 'w, 'e) live_state \<Rightarrow> (exn, partial_fill_resolution) result \<times> ('s, 'w, 'e) live_state" where
  "cancel_partial_order pm h oid bid original filled corr a st =
     (case try_cancel_partial pm h oid bid original filled corr a st of
        (Inr res, st1) \<Rightarrow> (Inr res, st1)
      | (Inl e, st1) \<Rightarrow>
          if is_external_service e \<and> \<not> is_transient e then
            (resolution_of oid bid original filled ''error'' None (Some (''Failed to cancel at broker: '' @ pm_exn_text pm e)), st1)
          else (Inl e, st1))"

definition alert_partial_order ::
  "('s, 'w) monitor_service \<Rightarrow> 'w host \<Rightarrow> string \<Rightarrow> string option \<Rightarrow> decimal \<Rightarrow> decimal \<Rightarrow> rat \<Rightarrow> string \<Rightarrow>
     ('s, 'w, 'e) live_state \<Rightarrow> (exn, partial_fill_resolution) result \<times> ('s, 'w, 'e) live_state" where
  "alert_partial_order pm h oid bid original filled elapsed corr st =
     (case on_world (h_now h) st of (now, st1) \<Rightarrow>
        then_do (pm_event pm h oid ''partial_fill_timeout_alert'' now
                   [(''action'', JStr ''alert_sent''), (''filled_qty'', JNum filled), (''remaining_qty'', JNum (dsub original filled)),
                    (''elapsed_seconds'', JNum elapsed)] corr st1) (\<lambda>_ st2.
          (resolution_of oid bid original filled ''alert_sent'' None None, st2)))"

definition elapsed_seconds :: "datetime \<Rightarrow> datetime \<Rightarrow> rat" where
  "elapsed_seconds now submitted = fl (of_int (now - submitted) / 1000000)"

definition fully_filled :: "order_response \<Rightarrow> bool" where
  "fully_filled b \<longleftrightarrow> status_text (os_status b) = ''filled'' \<or> os_quantity b \<le> os_filled_quantity b"

definition resolve_partial_fill ::
  "('s, 'w) monitor_service \<Rightarrow> 'w host \<Rightarrow> order_record \<Rightarrow> string \<Rightarrow> partial_fill_policy \<Rightarrow> string \<Rightarrow> ('s, 'w, 'e) live_state \<Rightarrow>
     (exn, partial_fill_resolution) result \<times> ('s, 'w, 'e) live_state" where
  "resolve_partial_fill pm h r did policy corr st =
     (case pm_get_adapter pm did of
        Inl e \<Rightarrow> (Inl (if is_not_found e then NotFoundError else e), st)
      | Inr a \<Rightarrow>
          (case on_world (pm_get_order a (or_broker_order_id r)) st of
             (Inl e, st1) \<Rightarrow> (Inl (if is_not_found e then NotFoundError else e), st1)
           | (Inr b, st1) \<Rightarrow>
               let filled = os_filled_quantity b; original = os_quantity b;
                   oid = or_id r; bid = or_broker_order_id r
               in
                 if fully_filled b then
                   (case on_world (h_now h) st1 of (now, st2) \<Rightarrow>
                    then_do (pm_update pm h oid ((only_status FILLED)\<lparr>su_filled_quantity := Some filled,
                               su_filled_at := Some (IsoText now)\<rparr>) st2) (\<lambda>_ st3.
                    then_do (pm_event pm h oid ''partial_fill_completed'' now
                               [(''action'', JStr ''fully_filled''), (''filled_qty'', JNum filled)] corr st3) (\<lambda>_ st4.
                    (resolution_of oid bid original filled ''fully_filled'' None None, st4))))
                 else
                   (case or_submitted_at r of
                      None \<Rightarrow> (resolution_of oid bid original filled ''alert_sent'' None (Some ''Missing submitted_at timestamp''), st1)
                    | Some submitted_at \<Rightarrow>
                        (case on_world (h_now h) st1 of (now, st2) \<Rightarrow>
                           let elapsed = elapsed_seconds now submitted_at
                           in if elapsed \<le> of_int (pf_timeout_seconds policy) then
                                (resolution_of oid bid original filled ''alert_sent'' None None, st2)
                              else if pf_action_on_timeout policy = ''cancel_remaining'' then
                                cancel_partial_order pm h oid bid original filled corr a st2
                              else alert_partial_order pm h oid bid original filled elapsed corr st2))))"

fun resolve_each ::
  "('s, 'w) monitor_service \<Rightarrow> 'w host \<Rightarrow> order_record list \<Rightarrow> string \<Rightarrow> partial_fill_policy \<Rightarrow> string \<Rightarrow> ('s, 'w, 'e) live_state \<Rightarrow>
     (exn, partial_fill_resolution list) result \<times> ('s, 'w, 'e) live_state" where
  "resolve_each pm h [] did policy corr st = (Inr [], st)"
| "resolve_each pm h (r # rs) did policy corr st =
     then_do (resolve_partial_fill pm h r did policy corr st) (\<lambda>res st1.
     then_do (resolve_each pm h rs did policy corr st1) (\<lambda>ress st2. (Inr (res # ress), st2)))"

definition check_partial_fills ::
  "('s, 'w) monitor_service \<Rightarrow> 'w host \<Rightarrow> string \<Rightarrow> partial_fill_policy \<Rightarrow> string \<Rightarrow> ('s, 'w, 'e) live_state \<Rightarrow>
     (exn, partial_fill_resolution list) result \<times> ('s, 'w, 'e) live_state" where
  "check_partial_fills pm h did policy corr st =
     resolve_each pm h (filter (\<lambda>r. or_status r = PARTIAL_FILL) (od_list_open_by_deployment (pm_order_repo pm) (ls_db st) did))
       did policy corr st"

section \<open>What the monitor may change\<close>

definition partial_of :: "string \<Rightarrow> order_record \<Rightarrow> bool" where
  "partial_of did r \<longleftrightarrow> or_status r = PARTIAL_FILL \<and> or_deployment_id r = did"

locale monitor_store = order_listing repo erepo tx orders durable restart invar
  for repo :: "'s order_repo" and erepo :: "'s event_repo" and tx :: "'s transaction_manager"
    and orders :: "'s \<Rightarrow> string \<Rightarrow> order_record option" and durable :: "'s \<Rightarrow> string \<Rightarrow> order_record option"
    and restart :: "'s \<Rightarrow> 's" and invar :: "'s \<Rightarrow> bool" +
  fixes pm :: "('s, 'w) monitor_service"
  assumes order_repo: "pm_order_repo pm = repo" and event_repo: "pm_event_repo pm = erepo"
begin

lemma pm_update_session:
  "\<exists>r. m oid = Some r \<and> P r \<Longrightarrow> session_ok P m st \<Longrightarrow> session_ok P m (snd (pm_update pm h oid u st))"
  by (auto simp: pm_update_def order_repo on_world_def split: prod.splits intro!: then_do_session update_session)

lemma pm_event_session: "session_ok P m st \<Longrightarrow> session_ok P m (snd (pm_event pm h oid ty now det corr st))"
  by (auto simp: pm_event_def event_repo on_world_def split: prod.splits intro!: then_do_session event_session)

lemma try_cancel_session:
  "\<exists>r. m oid = Some r \<and> P r \<Longrightarrow> session_ok P m st \<Longrightarrow>
   session_ok P m (snd (try_cancel_partial pm h oid bid original filled corr a st))"
  unfolding try_cancel_partial_def
  by (auto split: prod.splits intro!: then_do_session pm_update_session pm_event_session simp: on_world_def)

lemma cancel_session:
  assumes "\<exists>r. m oid = Some r \<and> P r" "session_ok P m st"
  shows "session_ok P m (snd (cancel_partial_order pm h oid bid original filled corr a st))"
  using try_cancel_session [OF assms, of h bid original filled corr a]
  by (auto simp: cancel_partial_order_def split: prod.splits sum.splits)

lemma alert_session:
  "session_ok P m st \<Longrightarrow> session_ok P m (snd (alert_partial_order pm h oid bid original filled elapsed corr st))"
  by (auto simp: alert_partial_order_def on_world_def split: prod.splits intro!: then_do_session pm_event_session)

lemma resolve_session:
  assumes "\<exists>x. m (or_id r) = Some x \<and> P x" "session_ok P m st"
  shows "session_ok P m (snd (resolve_partial_fill pm h r did policy corr st))"
  unfolding resolve_partial_fill_def Let_def using assms
  by (auto simp: on_world_def split: sum.splits prod.splits option.splits
      intro!: then_do_session pm_update_session pm_event_session cancel_session alert_session)

lemma resolve_each_session:
  "\<forall>r\<in>set rs. \<exists>x. m (or_id r) = Some x \<and> P x \<Longrightarrow> session_ok P m st \<Longrightarrow>
   session_ok P m (snd (resolve_each pm h rs did policy corr st))"
proof (induction rs arbitrary: st)
  case (Cons r rs)
  then have "session_ok P m (snd (resolve_partial_fill pm h r did policy corr st))" by (intro resolve_session) auto
  with Cons show ?case by (auto intro!: then_do_session)
qed simp

lemma check_session:
  assumes "session_ok (partial_of did) m st"
  shows "session_ok (partial_of did) m (snd (check_partial_fills pm h did policy corr st))"
  unfolding check_partial_fills_def order_repo
proof (intro resolve_each_session ballI assms)
  fix r assume "r \<in> set (filter (\<lambda>r. or_status r = PARTIAL_FILL) (od_list_open_by_deployment repo (ls_db st) did))"
  with list_open [of "ls_db st" r did] assms have "partial_of did r" "r \<in> set (od_list_open_by_deployment repo (ls_db st) did)"
    by (auto simp: partial_of_def session_ok_def)
  with listed_touchable [OF assms] show "\<exists>x. m (or_id r) = Some x \<and> partial_of did x" by blast
qed

end

definition sql_monitor_service :: "(string \<Rightarrow> (exn, 'w pm_adapter) result) \<Rightarrow> (exn \<Rightarrow> string) \<Rightarrow> (sql_db, 'w) monitor_service" where
  "sql_monitor_service get_adapter exn_text =
     \<lparr>pm_order_repo = sql_order_repo, pm_event_repo = sql_event_repo, pm_get_adapter = get_adapter, pm_exn_text = exn_text\<rparr>"

interpretation sql_monitor: monitor_store sql_order_repo sql_event_repo sql_tx sql_orders sql_durable sql_rollback sql_inv
  "sql_monitor_service get_adapter exn_text" for get_adapter exn_text
  by unfold_locales (simp_all add: sql_monitor_service_def)

section \<open>Properties\<close>

text \<open>
  The monitor changes only partially filled orders of the deployment that it is asked about, whatever the
  broker answers: in a session that starts from the committed orders every order stays, with its identity,
  and every other order stays as it was.
\<close>

theorem monitor_changes_only_partial_fills:
  assumes "monitor_store repo erepo tx orders durable restart invar pm" "invar (ls_db st)"
    "check_partial_fills pm h did policy corr (st\<lparr>ls_db := restart (ls_db st)\<rparr>) = (res, st')"
  shows "only_changed (partial_of did) (durable (ls_db st)) (orders (ls_db st'))"
proof -
  have store: "order_store repo erepo tx orders durable restart invar"
    using assms(1) by (simp add: monitor_store_def order_listing_def)
  show ?thesis
    using monitor_store.check_session [OF assms(1) order_store.fresh_session [OF store assms(2)], of did h policy corr]
      assms(3) by (simp add: order_store.session_ok_def [OF store])
qed

text \<open>The data of the witnesses: a venue that has filled 4 of 5 and fills the rest before it sees the
  cancellation.\<close>

definition demo_partial :: order_record where
  "demo_partial = (new_record ''O1'' 1 (live_order ''D1'' (demo_order 5) ''X''))
     \<lparr>or_status := PARTIAL_FILL, or_broker_order_id := Some ''V1'', or_submitted_at := Some 0, or_filled_quantity := 4\<rparr>"

definition demo_monitored :: "int pm_adapter" where
  "demo_monitored =
     \<lparr>a_connect = (\<lambda>w. (Inr (), w)), a_disconnect = (\<lambda>w. (Inr (), w)), a_submit_order = (\<lambda>rq w. (Inl TransientError, w)),
      a_cancel_order = (\<lambda>bid w. (Inr ((demo_ack (demo_order 5))\<lparr>os_status := FILLED, os_filled_quantity := 5\<rparr>), w)),
      a_get_order = (\<lambda>bid w. (Inr ((demo_ack (demo_order 5))\<lparr>os_status := PARTIAL_FILL, os_filled_quantity := 4\<rparr>), w)),
      a_list_open_orders = (\<lambda>w. (Inr [], w)), a_get_fills = (\<lambda>bid w. (Inr [], w)), a_get_positions = (\<lambda>w. (Inr [], w)),
      a_get_account = (\<lambda>w. (Inl TransientError, w)), a_is_paper_adapter = False,
      pa_get_order_none = (\<lambda>w. (Inl NotFoundError, w)), pa_cancel_order_none = (\<lambda>w. (Inl NotFoundError, w))\<rparr>"

definition demo_monitor :: "(sql_db, int) monitor_service" where
  "demo_monitor = sql_monitor_service (\<lambda>did. Inr demo_monitored) (\<lambda>e. ''failed'')"

definition demo_policy :: partial_fill_policy where
  "demo_policy = \<lparr>pf_timeout_seconds = 300, pf_min_fill_ratio = 0, pf_action_on_timeout = ''cancel_remaining''\<rparr>"

definition demo_half_done :: "(sql_db, int, risk_event list) live_state" where
  "demo_half_done = demo_live_state\<lparr>ls_db := (sql_init [''D1''] [''S''])\<lparr>db_orders := [(''O1'', demo_partial)],
     db_committed_orders := [(''O1'', demo_partial)]\<rparr>, ls_world := 600000000\<rparr>"

lemma demo_half_done_inv: "sql_inv (ls_db demo_half_done)"
  by (simp add: demo_half_done_def sql_inv_def table_ok_def sql_init_def demo_partial_def new_record_def dict_ok_def)

lemma demo_listed: "sql_list_open_by_deployment (ls_db demo_half_done) ''D1'' = [demo_partial]"
  by (simp add: sql_list_open_by_deployment_def demo_half_done_def dict_values_def demo_partial_def new_record_def live_order_def
      non_terminal_statuses_def)

theorem monitor_changes_only_partial_fills_witness:
  "\<exists>res st'. check_partial_fills demo_monitor demo_clock ''D2'' demo_policy ''M''
      (demo_half_done\<lparr>ls_db := sql_rollback (ls_db demo_half_done)\<rparr>) = (res, st') \<and> sql_orders (ls_db st') ''O1'' = Some demo_partial"
proof -
  obtain res st' where run: "check_partial_fills demo_monitor demo_clock ''D2'' demo_policy ''M''
      (demo_half_done\<lparr>ls_db := sql_rollback (ls_db demo_half_done)\<rparr>) = (res, st')" by fastforce
  have "monitor_store sql_order_repo sql_event_repo sql_tx sql_orders sql_durable sql_rollback sql_inv demo_monitor"
    unfolding demo_monitor_def by (rule sql_monitor.monitor_store_axioms)
  from monitor_changes_only_partial_fills [OF this demo_half_done_inv run]
  have "sql_orders (ls_db st') ''O1'' = sql_durable (ls_db demo_half_done) ''O1''"
    by (auto simp: only_changed_def partial_of_def demo_half_done_def demo_partial_def new_record_def live_order_def)
  with run show ?thesis by (simp add: demo_half_done_def)
qed

text \<open>
  With the registry class of the code the monitor never resolves anything: as soon as a deployment has
  a partially filled order, the check raises, and nothing is changed.
\<close>

theorem monitor_fails_on_registry:
  assumes "pm_get_adapter pm = registry_get_adapter reg"
    "r \<in> set (od_list_open_by_deployment (pm_order_repo pm) (ls_db st) did)" "or_status r = PARTIAL_FILL"
  shows "check_partial_fills pm h did policy corr st = (Inl (PyError ''AttributeError''), st)"
proof -
  obtain x xs where "filter (\<lambda>r. or_status r = PARTIAL_FILL) (od_list_open_by_deployment (pm_order_repo pm) (ls_db st) did) = x # xs"
    using assms(2,3) by (cases "filter (\<lambda>r. or_status r = PARTIAL_FILL) (od_list_open_by_deployment (pm_order_repo pm) (ls_db st) did)")
      (auto simp: filter_empty_conv)
  then show ?thesis
    by (simp add: check_partial_fills_def resolve_partial_fill_def assms(1) registry_get_adapter_def)
qed

theorem monitor_fails_on_registry_witness:
  "check_partial_fills (demo_monitor\<lparr>pm_get_adapter := registry_get_adapter [(''D1'', demo_venue, ''demo'')]\<rparr>) demo_clock ''D1''
      demo_policy ''M'' demo_half_done = (Inl (PyError ''AttributeError''), demo_half_done)"
proof -
  let ?pm = "demo_monitor\<lparr>pm_get_adapter := registry_get_adapter [(''D1'', demo_venue, ''demo'')]\<rparr>"
  have "demo_partial \<in> set (od_list_open_by_deployment (pm_order_repo ?pm) (ls_db demo_half_done) ''D1'')"
    by (simp add: demo_monitor_def sql_monitor_service_def demo_listed)
  from monitor_fails_on_registry [OF _ this, of "[(''D1'', demo_venue, ''demo'')]"] show ?thesis
    by (simp add: demo_partial_def)
qed

text \<open>
  When the timeout of a partially filled order has expired, its cancellation is requested and the row
  is marked as cancelled with the quantity that was filled before, whatever the broker answers: an order
  that was filled in the meantime, which the broker answers with, is recorded as cancelled.
\<close>

theorem cancel_answer_ignored:
  assumes "pm_order_repo pm = sql_order_repo" "pm_event_repo pm = sql_event_repo"
    "pm_get_adapter pm did = Inr a" "or_broker_order_id r = Some bid" "a_get_order a bid (ls_world st) = (Inr b, w1)"
    "os_filled_quantity b < os_quantity b" "or_submitted_at r = Some t" "h_now h w1 = (now, w2)"
    "of_int (pf_timeout_seconds policy) < elapsed_seconds now t" "pf_action_on_timeout policy = ''cancel_remaining''"
    "a_cancel_order a bid w2 = (Inr answer, w3)" "sql_orders (ls_db st) (or_id r) = Some r0"
    "\<And>w. list_all (\<lambda>e. ee_id e \<noteq> fst (h_ulid h w)) (db_events (ls_db st))"
  shows "map_option (\<lambda>x. (or_status x, or_filled_quantity x))
      (sql_orders (ls_db (snd (resolve_partial_fill pm h r did policy corr st))) (or_id r)) =
    Some (CANCELLED, os_filled_quantity b)"
proof -
  have "status_text x \<noteq> ''filled''" for x by (simp add: status_text_def)
  then have "\<not> fully_filled b" using assms(6) by (simp add: fully_filled_def)
  moreover have "\<not> list_ex (\<lambda>e. ee_id e = eid) (db_events (ls_db st))" if "h_ulid h w = (eid, w')" for w eid w'
    using assms(13) [of w] that by (auto simp: list_ex_iff list_all_iff)
  ultimately show ?thesis using assms(1-12)
    by (auto simp: resolve_partial_fill_def Let_def on_world_def pm_get_order_def cancel_partial_order_def try_cancel_partial_def
        pm_cancel_order_def pm_update_def pm_event_def on_db_def then_do_def sql_update_status_def only_status_def set_fields_def
        from_iso_def sql_event_save_def split: prod.splits sum.splits if_splits)
qed

lemma demo_elapsed: "elapsed_seconds 600000000 0 = 600"
  using fl_of_int [of 600] by (simp add: elapsed_seconds_def)

theorem cancel_answer_ignored_witness:
  "(\<exists>answer. a_cancel_order demo_monitored ''V1'' 600000000 = (Inr answer, 600000000) \<and> os_status answer = FILLED) \<and>
   map_option (\<lambda>x. (or_status x, or_filled_quantity x))
      (sql_orders (ls_db (snd (resolve_partial_fill demo_monitor demo_clock demo_partial ''D1'' demo_policy ''M'' demo_half_done))) ''O1'') =
    Some (CANCELLED, 4)"
proof -
  let ?b = "(demo_ack (demo_order 5))\<lparr>os_status := PARTIAL_FILL, os_filled_quantity := 4\<rparr>"
  have h: "pm_order_repo demo_monitor = sql_order_repo" "pm_event_repo demo_monitor = sql_event_repo"
    "pm_get_adapter demo_monitor ''D1'' = Inr demo_monitored" "or_broker_order_id demo_partial = Some ''V1''"
    "a_get_order demo_monitored ''V1'' (ls_world demo_half_done) = (Inr ?b, 600000000)"
    "os_filled_quantity ?b < os_quantity ?b" "or_submitted_at demo_partial = Some 0"
    "h_now demo_clock 600000000 = (600000000, 600000000)"
    "of_int (pf_timeout_seconds demo_policy) < elapsed_seconds 600000000 0" "pf_action_on_timeout demo_policy = ''cancel_remaining''"
    "a_cancel_order demo_monitored ''V1'' 600000000 =
       (Inr ((demo_ack (demo_order 5))\<lparr>os_status := FILLED, os_filled_quantity := 5\<rparr>), 600000000)"
    "sql_orders (ls_db demo_half_done) (or_id demo_partial) = Some demo_partial"
    by (simp_all add: demo_monitor_def sql_monitor_service_def demo_partial_def new_record_def demo_monitored_def demo_half_done_def
        demo_ack_def demo_order_def demo_clock_def demo_host_def demo_policy_def demo_elapsed)
  have "list_all (\<lambda>e. ee_id e \<noteq> fst (h_ulid demo_clock w)) (db_events (ls_db demo_half_done))" for w
    by (simp add: demo_half_done_def sql_init_def)
  from cancel_answer_ignored [OF h this, of "''M''"] h(11) show ?thesis by (simp add: demo_partial_def new_record_def demo_ack_def)
qed

end
