(* ===== verification/Float64.thy ===== *)
theory Float64
  imports Numerics Contracts
begin

text \<open>
  Python's \<open>float\<close> with its special values, for the code that relies on them: results that are too large
  become infinite, small ones are subnormal, and a comparison with not a number is false. A zero has no
  sign here: no comparison and none of the operations below can tell the two zeros apart. Numbers are
  rounded to 53 bits, half to even, with the least exponent of binary64.
\<close>

datatype py_float = NaN | Inf bool | Num rat

definition round64 :: "rat \<Rightarrow> py_float" where
  "round64 x =
     (if x = 0 then Num 0
      else
        let e = max (mag 2 \<bar>x\<bar> - 53) (- 1074);
            y = of_int (round_half_even (\<bar>x\<bar> / 2 powi e)) * 2 powi e
        in if 2 ^ 1024 \<le> y then Inf (x < 0) else Num (if x < 0 then - y else y))"

definition isnan :: "py_float \<Rightarrow> bool" where
  "isnan x \<longleftrightarrow> x = NaN"

fun f_neg :: "py_float \<Rightarrow> py_float" where
  "f_neg NaN = NaN"
| "f_neg (Inf s) = Inf (\<not> s)"
| "f_neg (Num x) = Num (- x)"

fun f_add :: "py_float \<Rightarrow> py_float \<Rightarrow> py_float" where
  "f_add (Num x) (Num y) = round64 (x + y)"
| "f_add (Inf s) (Inf t) = (if s = t then Inf s else NaN)"
| "f_add (Inf s) (Num y) = Inf s"
| "f_add (Num x) (Inf t) = Inf t"
| "f_add _ _ = NaN"

definition f_sub :: "py_float \<Rightarrow> py_float \<Rightarrow> py_float" where
  "f_sub x y = f_add x (f_neg y)"

fun f_mul :: "py_float \<Rightarrow> py_float \<Rightarrow> py_float" where
  "f_mul (Num x) (Num y) = round64 (x * y)"
| "f_mul (Inf s) (Inf t) = Inf (s \<noteq> t)"
| "f_mul (Inf s) (Num y) = (if y = 0 then NaN else Inf (s \<noteq> (y < 0)))"
| "f_mul (Num x) (Inf t) = (if x = 0 then NaN else Inf ((x < 0) \<noteq> t))"
| "f_mul _ _ = NaN"

text \<open>Division; its callers exclude a divisor that equals zero, for which Python raises.\<close>

fun f_div :: "py_float \<Rightarrow> py_float \<Rightarrow> (exn, py_float) result" where
  "f_div (Num x) (Num y) = (if y = 0 then Inl (PyError ''ZeroDivisionError'') else Inr (round64 (x / y)))"
| "f_div (Inf s) (Num y) = (if y = 0 then Inl (PyError ''ZeroDivisionError'') else Inr (Inf (s \<noteq> (y < 0))))"
| "f_div (Num x) (Inf t) = Inr (Num 0)"
| "f_div NaN (Num y) = (if y = 0 then Inl (PyError ''ZeroDivisionError'') else Inr NaN)"
| "f_div _ _ = Inr NaN"

fun f_less :: "py_float \<Rightarrow> py_float \<Rightarrow> bool" where
  "f_less (Num x) (Num y) \<longleftrightarrow> x < y"
| "f_less (Inf s) (Inf t) \<longleftrightarrow> s \<and> \<not> t"
| "f_less (Inf s) (Num y) \<longleftrightarrow> s"
| "f_less (Num x) (Inf t) \<longleftrightarrow> \<not> t"
| "f_less _ _ \<longleftrightarrow> False"

definition f_eq :: "py_float \<Rightarrow> py_float \<Rightarrow> bool" where
  "f_eq x y \<longleftrightarrow> x = y \<and> x \<noteq> NaN"

definition f_le :: "py_float \<Rightarrow> py_float \<Rightarrow> bool" where
  "f_le x y \<longleftrightarrow> f_less x y \<or> f_eq x y"

text \<open>Conversions: of a \<open>Decimal\<close> through its text, and of an integer, which raises when it is too large.\<close>

definition f_of_decimal :: "decimal \<Rightarrow> py_float" where
  "f_of_decimal d = round64 d"

definition f_of_int :: "int \<Rightarrow> (exn, py_float) result" where
  "f_of_int k = (case round64 (of_int k) of Num x \<Rightarrow> Inr (Num x) | _ \<Rightarrow> Inl (PyError ''OverflowError''))"

text \<open>Conversions to an integer by \<open>math.floor\<close>, \<open>math.ceil\<close> and \<open>round\<close> of a float.\<close>

definition f_to_int :: "(rat \<Rightarrow> int) \<Rightarrow> py_float \<Rightarrow> (exn, int) result" where
  "f_to_int r x =
     (case x of NaN \<Rightarrow> Inl (PyError ''ValueError'') | Inf _ \<Rightarrow> Inl (PyError ''OverflowError'') | Num q \<Rightarrow> Inr (r q))"

section \<open>Comparisons are exact\<close>

lemma f_less_irrefl [simp]: "\<not> f_less x x"
  by (cases x) simp_all

lemma f_less_NaN [simp]: "\<not> f_less NaN x" "\<not> f_less x NaN"
  by (cases x; simp)+

lemma f_less_trans: "f_less x y \<Longrightarrow> f_less y z \<Longrightarrow> f_less x z"
  by (cases x; cases y; cases z) auto

lemma f_eq_Num [simp]: "f_eq (Num x) (Num y) \<longleftrightarrow> x = y"
  by (simp add: f_eq_def)

lemma f_le_Num [simp]: "f_le (Num x) (Num y) \<longleftrightarrow> x \<le> y"
  by (auto simp: f_le_def f_eq_def)

lemma f_div_nonzero: "\<not> f_eq y (Num 0) \<Longrightarrow> \<exists>z. f_div x y = Inr z"
  by (cases x; cases y) (auto simp: f_eq_def)

section \<open>Numbers that a float can hold\<close>

lemma round64_exact:
  assumes x: "x = of_int k * 2 powi e" and k: "\<bar>k\<bar> < 2 ^ 53" and e: "- 1074 \<le> e" "e \<le> 971"
  shows "round64 x = Num x"
proof (cases "x = 0")
  case False
  let ?E = "max (mag 2 \<bar>x\<bar> - 53) (- 1074)"
  have two: "(0::rat) < 2 powi i" for i by simp
  have ax: "\<bar>x\<bar> = of_int \<bar>k\<bar> * 2 powi e" by (simp add: x abs_mult)
  have "of_int \<bar>k\<bar> < (2::rat) ^ 53" using k by (metis of_int_less_iff of_int_numeral of_int_power)
  then have "\<bar>x\<bar> < 2 ^ 53 * 2 powi e" unfolding ax using two [of e] by (rule mult_strict_right_mono)
  also have "\<dots> = 2 powi (53 + e)" by (simp add: power_int_add flip: power_int_numeral)
  finally have less: "\<bar>x\<bar> < 2 powi (53 + e)" .
  have "2 powi (mag 2 \<bar>x\<bar> - 1) \<le> \<bar>x\<bar>" using mag_bounds(1) [of 2 "\<bar>x\<bar>"] False by simp
  with less have "(2::rat) powi (mag 2 \<bar>x\<bar> - 1) < 2 powi (53 + e)" by simp
  then have "mag 2 \<bar>x\<bar> - 1 < 53 + e"
    by (metis leD linorder_not_less one_le_numeral power_int_increasing)
  then have E: "?E \<le> e" using e by simp
  have "\<bar>x\<bar> / 2 powi ?E = of_int \<bar>k\<bar> * 2 powi (e - ?E)" unfolding ax by (simp add: power_int_diff)
  also have "\<dots> = of_int (\<bar>k\<bar> * 2 ^ nat (e - ?E))" using E by (simp add: power_int_def)
  finally have "round_half_even (\<bar>x\<bar> / 2 powi ?E) = \<bar>k\<bar> * 2 ^ nat (e - ?E)"
    and q: "\<bar>x\<bar> / 2 powi ?E = of_int (\<bar>k\<bar> * 2 ^ nat (e - ?E))"
    by (metis round_half_even_of_int, assumption)
  then have y: "of_int (round_half_even (\<bar>x\<bar> / 2 powi ?E)) * 2 powi ?E = \<bar>x\<bar>"
    by (metis q nonzero_eq_divide_eq power_int_eq_0_iff zero_neq_numeral)
  have "(2::rat) powi (53 + e) \<le> 2 powi 1024" using e by (intro power_int_increasing) auto
  with less have "\<bar>x\<bar> < 2 ^ 1024" by simp
  then show ?thesis using False y by (auto simp: round64_def Let_def)
qed (simp add: round64_def)

lemma round64_of_int: "\<bar>k\<bar> < 2 ^ 53 \<Longrightarrow> round64 (of_int k) = Num (of_int k)"
  using round64_exact [of "of_int k" k 0] by simp

lemma round64_half: "\<bar>k\<bar> < 2 ^ 53 \<Longrightarrow> round64 (of_int k / 2) = Num (of_int k / 2)"
  using round64_exact [of "of_int k / 2" k "- 1"] by simp

lemma round64_numeral: "numeral n < (2::int) ^ 53 \<Longrightarrow> round64 (numeral n) = Num (numeral n)"
  "numeral n < (2::int) ^ 53 \<Longrightarrow> round64 (- numeral n) = Num (- numeral n)"
  "round64 0 = Num 0" "round64 1 = Num 1" "round64 (1 / 2) = Num (1 / 2)"
  using round64_of_int [of "numeral n"] round64_of_int [of "- numeral n"] round64_of_int [of 0] round64_of_int [of 1] round64_half [of 1]
  by simp_all

end
