(* ===== verification/Market_Data.thy ===== *)
theory Market_Data
  imports Float64
begin

text \<open>
  Candles, \<open>libs/contracts/market_data.py\<close>. Prices are \<open>Decimal\<close>s that are not negative; the fields that
  the modelled code does not read (volume-weighted average, number of trades) are left out.
\<close>

datatype candle_interval = M1 | M5 | M15 | H1 | H4 | D1

definition interval_seconds :: "candle_interval \<Rightarrow> int" where
  "interval_seconds i = (case i of M1 \<Rightarrow> 60 | M5 \<Rightarrow> 300 | M15 \<Rightarrow> 900 | H1 \<Rightarrow> 3600 | H4 \<Rightarrow> 14400 | D1 \<Rightarrow> 86400)"

record candle =
  cn_symbol :: string
  cn_interval :: candle_interval
  cn_open :: decimal
  cn_high :: decimal
  cn_low :: decimal
  cn_close :: decimal
  cn_volume :: int
  cn_timestamp :: datetime
  cn_spread :: "decimal option"

text \<open>The price fields that conditions and formulas may name.\<close>

definition price_fields :: "string list" where
  "price_fields = [''open'', ''high'', ''low'', ''close'', ''volume'', ''spread'']"

text \<open>The volume of a candle is far below the range of a float, whose conversion then never raises.\<close>

definition read_price :: "string \<Rightarrow> candle \<Rightarrow> py_float" where
  "read_price f c =
     (if f = ''open'' then f_of_decimal (cn_open c)
      else if f = ''high'' then f_of_decimal (cn_high c)
      else if f = ''low'' then f_of_decimal (cn_low c)
      else if f = ''close'' then f_of_decimal (cn_close c)
      else if f = ''volume'' then round64 (of_int (cn_volume c))
      else case cn_spread c of None \<Rightarrow> NaN | Some s \<Rightarrow> f_of_decimal s)"

end
