(* ===== verification/Strategy_IR.thy ===== *)
theory Strategy_IR
  imports Contracts
begin

text \<open>
  The strategy representation that an author submits, \<open>libs/contracts/strategy_ir.py\<close>: the parts that the
  reference resolver, the lookback scan, the compiler and the risk translator read (indicators, derived
  fields, entry logic, exit logic, filters, data requirements, risk model), and the identifiers inside its expressions. The regular expressions of
  the two modules are functions on texts.
\<close>

section \<open>Data\<close>

text \<open>Indicators: identifier, timeframe, and the fields of the type.\<close>

datatype indicator =
    EmaIndicator (indicator_id: string) (indicator_timeframe: string) (indicator_source: string) int
  | SmaIndicator (indicator_id: string) (indicator_timeframe: string) (indicator_source: string) int
  | RsiIndicator (indicator_id: string) (indicator_timeframe: string) (indicator_source: string) int
  | AtrIndicator (indicator_id: string) (indicator_timeframe: string) int
  | AdxIndicator (indicator_id: string) (indicator_timeframe: string) int
  | BollingerUpperIndicator (indicator_id: string) (indicator_timeframe: string) (indicator_source: string) int rat
  | BollingerLowerIndicator (indicator_id: string) (indicator_timeframe: string) (indicator_source: string) int rat
  | RollingStddevIndicator (indicator_id: string) (indicator_timeframe: string) (indicator_source: string) int
  | RollingHighIndicator (indicator_id: string) (indicator_timeframe: string) (indicator_source: string) int
  | RollingLowIndicator (indicator_id: string) (indicator_timeframe: string) (indicator_source: string) int
  | RollingMaxIndicator (indicator_id: string) (indicator_timeframe: string) (indicator_source: string) int
  | RollingMinIndicator (indicator_id: string) (indicator_timeframe: string) (indicator_source: string) int
  | ZscoreIndicator (indicator_id: string) (indicator_timeframe: string) (indicator_source: string)
      (mean_source: string) (std_source: string)
  | CalendarBusinessDayIndexIndicator (indicator_id: string) (indicator_timeframe: string)
  | CalendarDaysToMonthEndIndicator (indicator_id: string) (indicator_timeframe: string)

datatype rhs_value = RhsText string | RhsNum rat

record leaf_condition =
  lc_lhs :: string
  lc_operator :: string
  lc_rhs :: rhs_value
  lc_units :: "string option"

datatype condition = Leaf leaf_condition | Sub string "condition list"

type_synonym condition_tree = "string \<times> condition list"

record basket_template =
  bt_id :: string
  bt_active_when :: leaf_condition
  bt_legs :: "(string \<times> string \<times> rat) list"

record entry_logic =
  el_long :: "condition_tree option"
  el_short :: "condition_tree option"
  el_basket_templates :: "basket_template list option"
  el_entry_filters :: "condition_tree option"

datatype exit_stop =
    AtrMultipleStop string rat
  | BasketAtrMultipleStop string rat
  | RiskRewardMultipleStop rat
  | OppositeInnerBandTouchStop
  | MiddleBandCloseViolationStop
  | ChannelExitStop leaf_condition leaf_condition
  | MeanReversionToMidStop leaf_condition leaf_condition
  | CalendarExitStop leaf_condition
  | BasketOpenLossPctStop rat
  | ZscoreStop leaf_condition

record trailing_stop_rule =
  tr_enabled :: bool
  tr_type :: string

record time_exit_rule =
  te_enabled :: bool
  te_max_bars_in_trade :: int

record exit_logic =
  xl_primary_exit :: "exit_stop option"
  xl_initial_stop :: "exit_stop option"
  xl_take_profit :: "exit_stop option"
  xl_trailing_exit :: "exit_stop option"
  xl_catastrophic_zscore_stop :: "exit_stop option"
  xl_scheduled_exit :: "exit_stop option"
  xl_equity_stop :: "exit_stop option"
  xl_trailing_stop :: "trailing_stop_rule option"
  xl_time_exit :: "time_exit_rule option"
  xl_max_bars_in_trade :: "int option"
  xl_same_bar_priority :: "string list"

record ir_filter =
  if_id :: string
  if_lhs :: "string option"
  if_rhs :: "rhs_value option"

record derived_field =
  df_id :: string
  df_formula :: string

record data_requirements =
  dq_primary_timeframe :: string
  dq_confirmation_timeframes :: "string list"
  dq_required_fields :: "string list"

record position_sizing =
  sz_method :: string
  sz_risk_pct_of_equity :: rat

record risk_model =
  rm_position_sizing :: position_sizing
  rm_max_open_positions :: "int option"
  rm_daily_loss_limit_pct :: rat
  rm_max_drawdown_halt_pct :: rat
  rm_pyramiding :: bool

record strategy_ir =
  ir_strategy_name :: string
  ir_universe_symbols :: "string list"
  ir_data_requirements :: data_requirements
  ir_indicators :: "indicator list"
  ir_entry_logic :: entry_logic
  ir_exit_logic :: exit_logic
  ir_filters :: "ir_filter list option"
  ir_derived_fields :: "derived_field list option"
  ir_risk_model :: risk_model

text \<open>A strategy without any rule, from which examples are built.\<close>

definition no_exits :: exit_logic where
  "no_exits = \<lparr>xl_primary_exit = None, xl_initial_stop = None, xl_take_profit = None, xl_trailing_exit = None,
     xl_catastrophic_zscore_stop = None, xl_scheduled_exit = None, xl_equity_stop = None, xl_trailing_stop = None,
     xl_time_exit = None, xl_max_bars_in_trade = None, xl_same_bar_priority = []\<rparr>"

definition blank_ir :: strategy_ir where
  "blank_ir = \<lparr>ir_strategy_name = ''demo'', ir_universe_symbols = [''EURUSD''],
     ir_data_requirements = \<lparr>dq_primary_timeframe = ''1h'', dq_confirmation_timeframes = [], dq_required_fields = [''close'']\<rparr>,
     ir_indicators = [],
     ir_entry_logic = \<lparr>el_long = None, el_short = None, el_basket_templates = None, el_entry_filters = None\<rparr>,
     ir_exit_logic = no_exits, ir_filters = None, ir_derived_fields = None,
     ir_risk_model = \<lparr>rm_position_sizing = \<lparr>sz_method = ''fixed_fractional_risk'', sz_risk_pct_of_equity = 1\<rparr>,
       rm_max_open_positions = None, rm_daily_loss_limit_pct = 2, rm_max_drawdown_halt_pct = 10, rm_pyramiding = False\<rparr>\<rparr>"

text \<open>The exit rules that the modules look at, with the names of their attributes.\<close>

definition exit_stops :: "exit_logic \<Rightarrow> (string \<times> exit_stop) list" where
  "exit_stops x =
     concat (map (\<lambda>(name, s). case s of None \<Rightarrow> [] | Some stop \<Rightarrow> [(name, stop)])
       [(''primary_exit'', xl_primary_exit x), (''initial_stop'', xl_initial_stop x), (''take_profit'', xl_take_profit x),
        (''trailing_exit'', xl_trailing_exit x), (''catastrophic_zscore_stop'', xl_catastrophic_zscore_stop x),
        (''scheduled_exit'', xl_scheduled_exit x), (''equity_stop'', xl_equity_stop x)])"

text \<open>A loop with a counter over a list.\<close>

fun each :: "(nat \<Rightarrow> 'a \<Rightarrow> 's \<Rightarrow> (exn, 's) result) \<Rightarrow> nat \<Rightarrow> 'a list \<Rightarrow> 's \<Rightarrow> (exn, 's) result" where
  "each f i [] s = Inr s"
| "each f i (x # xs) s = bind_r (f i x s) (each f (Suc i) xs)"

section \<open>Identifiers\<close>

definition ident_start :: "char \<Rightarrow> bool" where
  "ident_start c \<longleftrightarrow> (let n = of_char c :: nat in 65 \<le> n \<and> n \<le> 90 \<or> 97 \<le> n \<and> n \<le> 122 \<or> n = 95)"

definition ascii_digit :: "char \<Rightarrow> bool" where
  "ascii_digit c \<longleftrightarrow> (let n = of_char c :: nat in 48 \<le> n \<and> n \<le> 57)"

definition ident_char :: "char \<Rightarrow> bool" where
  "ident_char c \<longleftrightarrow> ident_start c \<or> ascii_digit c"

text \<open>\<open>findall\<close> of \<open>[A-Za-z_][A-Za-z0-9_]*\<close>.\<close>

function idents :: "string \<Rightarrow> string list" where
  "idents [] = []"
| "idents (c # cs) =
     (if ident_start c then (c # takeWhile ident_char cs) # idents (dropWhile ident_char cs) else idents cs)"
  by pat_completeness auto
termination by (relation "measure length") (auto simp: less_Suc_eq_le length_dropWhile_le)

declare idents.simps [simp del]

text \<open>The text of a natural number, and its value.\<close>

definition digit_char :: "nat \<Rightarrow> char" where
  "digit_char d = char_of (48 + d)"

fun nat_text :: "nat \<Rightarrow> string" where
  "nat_text n = (if n < 10 then [digit_char n] else nat_text (n div 10) @ [digit_char (n mod 10)])"

declare nat_text.simps [simp del]

definition text_nat :: "string \<Rightarrow> nat" where
  "text_nat t = foldl (\<lambda>n c. 10 * n + (of_char c - 48)) 0 t"

text \<open>A match of \<open>^(?P<base>.+)_prev_(?P<lag>\d+)$\<close>: the dollar sign also matches before a final newline,
  and the dot does not match a newline.\<close>

definition ends_with :: "string \<Rightarrow> string \<Rightarrow> bool" where
  "ends_with s suffix \<longleftrightarrow> length suffix \<le> length s \<and> drop (length s - length suffix) s = suffix"

definition chop :: "string \<Rightarrow> string \<Rightarrow> string" where
  "chop s suffix = take (length s - length suffix) s"

definition line_feed :: char where
  "line_feed = CHR 0x0A"

definition prev_match :: "string \<Rightarrow> (string \<times> nat) option" where
  "prev_match s =
     (let s1 = (if s \<noteq> [] \<and> last s = line_feed then butlast s else s);
          lag = rev (takeWhile ascii_digit (rev s1));
          body = rev (dropWhile ascii_digit (rev s1));
          base = chop body ''_prev_''
      in if lag \<noteq> [] \<and> ends_with body ''_prev_'' \<and> base \<noteq> [] \<and> line_feed \<notin> set base then Some (base, text_nat lag) else None)"

lemma prev_match_shorter: "prev_match s = Some (base, lag) \<Longrightarrow> length base < length s"
proof -
  assume m: "prev_match s = Some (base, lag)"
  define s1 where "s1 = (if s \<noteq> [] \<and> last s = line_feed then butlast s else s)"
  have "length s1 \<le> length s" by (simp add: s1_def)
  moreover have "length (rev (dropWhile ascii_digit (rev s1))) \<le> length s1" using length_dropWhile_le [of ascii_digit "rev s1"] by simp
  moreover have "length base < length (rev (dropWhile ascii_digit (rev s1)))"
    using m by (auto simp: prev_match_def Let_def s1_def [symmetric] ends_with_def chop_def split: if_splits)
  ultimately show ?thesis by simp
qed

end
