(* ===== verification/Backtest_Broker.thy ===== *)
theory Backtest_Broker
  imports Market_Data Strategy_IR "HOL-Library.Multiset"
begin

text \<open>
  The broker of a backtest, \<open>libs/strategy_ir/paper_broker_adapter.py\<close>, with the value objects of
  \<open>libs/strategy_ir/interfaces/broker_adapter_interface.py\<close>. Orders wait in a list and are filled in full against
  the bars of their symbol; fills update a book of signed units and average prices, and what a closing
  fill realises is added to the balance. The market data provider is a record of the two operations that
  the broker calls; prices are rounded \<open>Decimal\<close>s.

  A bar whose fill event is refused (a price below zero) raises in the middle of the loop: the book and
  the balance keep the fills made so far, and the list of waiting orders is the old one.
\<close>

section \<open>State and operations\<close>

datatype trade_side = Buy | Sell
datatype bt_order_type = MarketOrder | LimitOrder

record order_ref =
  rf_broker_order_id :: string
  rf_client_extension_id :: string
  rf_symbol :: string
  rf_side :: trade_side
  rf_units :: int

record bt_fill_event =
  fe_order_ref :: order_ref
  fe_symbol :: string
  fe_side :: trade_side
  fe_units :: int
  fe_fill_price :: decimal
  fe_slippage_pips :: int
  fe_bar_index :: nat

record pending_order =
  po_order_ref :: order_ref
  po_order_type :: bt_order_type
  po_limit_price :: "decimal option"
  po_stop_price :: "decimal option"

record bt_position =
  bp_symbol :: string
  bp_units :: int
  bp_average_price :: decimal

record account_state =
  as_account_id :: string
  as_balance :: decimal
  as_unrealized_pl :: decimal
  as_margin_used :: decimal
  as_margin_available :: decimal
  as_currency :: string

record market_data =
  md_supports :: "string \<Rightarrow> bool"
  md_get_pip_size :: "string \<Rightarrow> (exn, decimal) result"

record bt_broker =
  bb_market_data :: market_data
  bb_pip_slippage :: "(string, int) dict"
  bb_by_extension_id :: "(string, order_ref) dict"
  bb_pending :: "pending_order list"
  bb_cancelled_ids :: "string set"
  bb_positions :: "(string, int \<times> decimal) dict"
  bb_balance :: decimal
  bb_last_bar :: "(string, candle) dict"
  bb_next_order_id :: nat
  bb_bar_index :: nat

definition new_bt_broker :: "decimal \<Rightarrow> (string, int) dict \<Rightarrow> market_data \<Rightarrow> (exn, bt_broker) result" where
  "new_bt_broker starting_balance slippage md =
     (if starting_balance < 0 then Inl (PyError ''ValueError'')
      else Inr \<lparr>bb_market_data = md, bb_pip_slippage = slippage, bb_by_extension_id = [], bb_pending = [], bb_cancelled_ids = {},
                bb_positions = [], bb_balance = starting_balance, bb_last_bar = [], bb_next_order_id = 1, bb_bar_index = 0\<rparr>)"

definition bad_arguments :: "string \<Rightarrow> int \<Rightarrow> bt_order_type \<Rightarrow> string \<Rightarrow> decimal option \<Rightarrow> decimal option \<Rightarrow> bool" where
  "bad_arguments symbol units order_type ext limit stop =
     (symbol = '''' \<or> ext = '''' \<or> units \<le> 0 \<or> (order_type = LimitOrder \<and> limit = None \<and> stop = None) \<or>
      (limit \<noteq> None \<and> stop \<noteq> None) \<or> (case limit of None \<Rightarrow> False | Some p \<Rightarrow> p \<le> 0) \<or> (case stop of None \<Rightarrow> False | Some p \<Rightarrow> p \<le> 0))"

definition place_order ::
  "string \<Rightarrow> trade_side \<Rightarrow> int \<Rightarrow> bt_order_type \<Rightarrow> string \<Rightarrow> decimal option \<Rightarrow> decimal option \<Rightarrow> bt_broker \<Rightarrow> (exn, order_ref) result \<times> bt_broker" where
  "place_order symbol side units order_type ext limit stop b =
     (if bad_arguments symbol units order_type ext limit stop then (Inl (PyError ''ValueError''), b)
      else if \<not> md_supports (bb_market_data b) symbol then (Inl (PyError ''PaperBrokerError''), b)
      else case dict_get (bb_by_extension_id b) ext of
             Some existing \<Rightarrow> (Inr existing, b)
           | None \<Rightarrow>
               let ref = \<lparr>rf_broker_order_id = ''PAPER-ORDER-'' @ nat_text (bb_next_order_id b), rf_client_extension_id = ext,
                          rf_symbol = symbol, rf_side = side, rf_units = units\<rparr>
               in (Inr ref, b\<lparr>bb_next_order_id := bb_next_order_id b + 1, bb_by_extension_id := dict_set ext ref (bb_by_extension_id b),
                     bb_pending := bb_pending b @ [\<lparr>po_order_ref = ref, po_order_type = order_type, po_limit_price = limit, po_stop_price = stop\<rparr>]\<rparr>))"

definition bt_cancel_order :: "order_ref \<Rightarrow> bt_broker \<Rightarrow> bt_broker" where
  "bt_cancel_order ref b =
     b\<lparr>bb_cancelled_ids := insert (rf_broker_order_id ref) (bb_cancelled_ids b),
       bb_pending := filter (\<lambda>p. rf_broker_order_id (po_order_ref p) \<noteq> rf_broker_order_id ref) (bb_pending b)\<rparr>"

definition get_position :: "string \<Rightarrow> bt_broker \<Rightarrow> (exn, bt_position option) result" where
  "get_position symbol b =
     (case dict_get (bb_positions b) symbol of
        None \<Rightarrow> Inr None
      | Some (units, avg) \<Rightarrow>
          if avg < 0 then Inl (PyError ''pydantic.ValidationError'')
          else Inr (Some \<lparr>bp_symbol = symbol, bp_units = units, bp_average_price = avg\<rparr>))"

definition compute_unrealized_pl :: "bt_broker \<Rightarrow> decimal" where
  "compute_unrealized_pl b =
     foldl (\<lambda>total (symbol, units, avg).
              case dict_get (bb_last_bar b) symbol of
                None \<Rightarrow> total
              | Some bar \<Rightarrow>
                  let mid = dec (dec (cn_high bar + cn_low bar) / 2)
                  in if 0 < units then dec (total + dec (dec (mid - avg) * of_int units))
                     else dec (total + dec (dec (avg - mid) * of_int \<bar>units\<bar>)))
           0 (bb_positions b)"

definition get_account_state :: "bt_broker \<Rightarrow> (exn, account_state) result" where
  "get_account_state b =
     (let unrealized = compute_unrealized_pl b; available = dec (bb_balance b + unrealized)
      in if available < 0 then Inl (PyError ''pydantic.ValidationError'')
         else Inr \<lparr>as_account_id = ''PAPER-ACCOUNT-0001'', as_balance = bb_balance b, as_unrealized_pl = unrealized,
                   as_margin_used = 0, as_margin_available = available, as_currency = ''USD''\<rparr>)"

section \<open>Fills\<close>

definition compute_fill_price :: "pending_order \<Rightarrow> candle \<Rightarrow> decimal option" where
  "compute_fill_price p c =
     (let side = rf_side (po_order_ref p)
      in case po_stop_price p of
           Some stop \<Rightarrow>
             if side = Buy then (if stop \<le> cn_high c then Some stop else None)
             else (if cn_low c \<le> stop then Some stop else None)
         | None \<Rightarrow>
             (case po_limit_price p of
                Some limit \<Rightarrow>
                  if side = Buy then (if cn_low c \<le> limit then Some limit else None)
                  else (if limit \<le> cn_high c then Some limit else None)
              | None \<Rightarrow> if po_order_type p = MarketOrder then Some (cn_open c) else None))"

definition apply_slippage :: "market_data \<Rightarrow> decimal \<Rightarrow> trade_side \<Rightarrow> string \<Rightarrow> int \<Rightarrow> (exn, decimal) result" where
  "apply_slippage md base side symbol pips =
     (if pips = 0 then Inr base
      else bind_r (md_get_pip_size md symbol) (\<lambda>pip_size.
        let adjustment = dec (of_int pips * pip_size)
        in Inr (if side = Buy then dec (base + adjustment) else dec (base - adjustment))))"

definition signed_units :: "trade_side \<Rightarrow> int \<Rightarrow> int" where
  "signed_units side units = (if side = Buy then units else - units)"

text \<open>What a fill makes of the entry of its symbol (\<open>None\<close>: no position), and what it realises (\<open>None\<close>: nothing is closed).\<close>

definition fill_entry :: "(int \<times> decimal) option \<Rightarrow> int \<Rightarrow> decimal \<Rightarrow> (int \<times> decimal) option \<times> decimal option" where
  "fill_entry entry signed price =
     (case entry of
        None \<Rightarrow> (Some (signed, price), None)
      | Some (existing, avg) \<Rightarrow>
          if (0 < existing \<and> 0 < signed) \<or> (existing < 0 \<and> signed < 0) then
            let new_units = existing + signed;
                total_cost = dec (dec (avg * of_int \<bar>existing\<bar>) + dec (price * of_int \<bar>signed\<bar>))
            in (Some (new_units, dec (total_cost / of_int \<bar>new_units\<bar>)), None)
          else
            let closing = min \<bar>existing\<bar> \<bar>signed\<bar>;
                realised = (if 0 < existing then dec (dec (price - avg) * of_int closing) else dec (dec (avg - price) * of_int closing));
                rest_old = \<bar>existing\<bar> - closing;
                rest_new = \<bar>signed\<bar> - closing
            in (if rest_old = 0 \<and> rest_new = 0 then None
                else if 0 < rest_old then Some ((if 0 < existing then 1 else - 1) * rest_old, avg)
                else Some ((if 0 < signed then 1 else - 1) * rest_new, price),
                Some realised))"

definition apply_fill_to_book :: "string \<Rightarrow> trade_side \<Rightarrow> int \<Rightarrow> decimal \<Rightarrow> bt_broker \<Rightarrow> bt_broker" where
  "apply_fill_to_book symbol side units price b =
     (let (entry, realised) = fill_entry (dict_get (bb_positions b) symbol) (signed_units side units) price
      in b\<lparr>bb_positions := (case entry of None \<Rightarrow> dict_del symbol (bb_positions b) | Some e \<Rightarrow> dict_set symbol e (bb_positions b)),
           bb_balance := (case realised of None \<Rightarrow> bb_balance b | Some r \<Rightarrow> dec (bb_balance b + r))\<rparr>)"

text \<open>The loop over the waiting orders: the fills made, and the orders that stay.\<close>

fun fill_each ::
  "string \<Rightarrow> candle \<Rightarrow> nat \<Rightarrow> pending_order list \<Rightarrow> bt_broker \<Rightarrow> (exn, bt_fill_event list \<times> pending_order list) result \<times> bt_broker" where
  "fill_each symbol c idx [] b = (Inr ([], []), b)"
| "fill_each symbol c idx (p # ps) b =
     (let ref = po_order_ref p;
          keep = (\<lambda>(r, b'). (bind_r r (\<lambda>(fills, still). Inr (fills, p # still)), b'))
      in if rf_symbol ref \<noteq> symbol then keep (fill_each symbol c idx ps b)
         else case compute_fill_price p c of
           None \<Rightarrow> keep (fill_each symbol c idx ps b)
         | Some base \<Rightarrow>
             let pips = (case dict_get (bb_pip_slippage b) symbol of None \<Rightarrow> 0 | Some n \<Rightarrow> n)
             in case apply_slippage (bb_market_data b) base (rf_side ref) symbol pips of
                  Inl e \<Rightarrow> (Inl e, b)
                | Inr price \<Rightarrow>
                    let b1 = apply_fill_to_book symbol (rf_side ref) (rf_units ref) price b
                    in if price < 0 \<or> pips < 0 then (Inl (PyError ''pydantic.ValidationError''), b1)
                       else
                         let fill = \<lparr>fe_order_ref = ref, fe_symbol = symbol, fe_side = rf_side ref, fe_units = rf_units ref,
                                     fe_fill_price = price, fe_slippage_pips = pips, fe_bar_index = idx\<rparr>;
                             (r, b2) = fill_each symbol c idx ps b1
                         in (bind_r r (\<lambda>(fills, still). Inr (fill # fills, still)), b2))"

definition submit_bar :: "string \<Rightarrow> candle \<Rightarrow> bt_broker \<Rightarrow> (exn, bt_fill_event list) result \<times> bt_broker" where
  "submit_bar symbol c b =
     (if symbol \<noteq> cn_symbol c then (Inl (PyError ''ValueError''), b)
      else
        let b1 = b\<lparr>bb_last_bar := dict_set symbol c (bb_last_bar b), bb_bar_index := bb_bar_index b + 1\<rparr>
        in case fill_each symbol c (bb_bar_index b) (bb_pending b) b1 of
             (Inl e, b2) \<Rightarrow> (Inl e, b2)
           | (Inr (fills, still), b2) \<Rightarrow> (Inr fills, b2\<lparr>bb_pending := still\<rparr>))"

section \<open>The book is the sum of the fills\<close>

text \<open>Numbers have different texts.\<close>

lemma text_nat_snoc: "d < 10 \<Longrightarrow> text_nat (t @ [digit_char d]) = 10 * text_nat t + d"
  by (simp add: text_nat_def digit_char_def)

lemma text_nat_nat_text: "text_nat (nat_text n) = n"
proof (induction n rule: nat_text.induct)
  case (1 n)
  show ?case
  proof (cases "n < 10")
    case True
    then show ?thesis using text_nat_snoc [of n "[]"] by (simp add: nat_text.simps [of n] text_nat_def)
  next
    case False
    with 1 show ?thesis by (simp add: nat_text.simps [of n] text_nat_snoc)
  qed
qed

lemma nat_text_inject [simp]: "nat_text m = nat_text n \<longleftrightarrow> m = n"
  by (metis text_nat_nat_text)

definition units_of :: "string \<Rightarrow> bt_broker \<Rightarrow> int" where
  "units_of s b = (case dict_get (bb_positions b) s of None \<Rightarrow> 0 | Some (units, avg) \<Rightarrow> units)"

definition fill_units :: "string \<Rightarrow> bt_fill_event \<Rightarrow> int" where
  "fill_units s f = (if fe_symbol f = s then signed_units (fe_side f) (fe_units f) else 0)"

definition net_units :: "string \<Rightarrow> bt_fill_event list \<Rightarrow> int" where
  "net_units s fs = sum_list (map (fill_units s) fs)"

lemma net_units_simps [simp]:
  "net_units s [] = 0" "net_units s (f # fs) = fill_units s f + net_units s fs" "net_units s (fs @ gs) = net_units s fs + net_units s gs"
  by (simp_all add: net_units_def)

text \<open>No entry of the book has zero units.\<close>

definition book_ok :: "bt_broker \<Rightarrow> bool" where
  "book_ok b \<longleftrightarrow> (\<forall>s. case dict_get (bb_positions b) s of None \<Rightarrow> True | Some (units, avg) \<Rightarrow> units \<noteq> 0)"

lemma book_entry_iff: "book_ok b \<Longrightarrow> dict_get (bb_positions b) s = None \<longleftrightarrow> units_of s b = 0"
  unfolding book_ok_def units_of_def by (auto split: option.splits prod.splits dest: spec [of _ s])

lemma apply_fill_other [simp]:
  "bb_market_data (apply_fill_to_book s side n p b) = bb_market_data b" "bb_pip_slippage (apply_fill_to_book s side n p b) = bb_pip_slippage b"
  "bb_by_extension_id (apply_fill_to_book s side n p b) = bb_by_extension_id b" "bb_pending (apply_fill_to_book s side n p b) = bb_pending b"
  "bb_cancelled_ids (apply_fill_to_book s side n p b) = bb_cancelled_ids b" "bb_next_order_id (apply_fill_to_book s side n p b) = bb_next_order_id b"
  "bb_last_bar (apply_fill_to_book s side n p b) = bb_last_bar b" "bb_bar_index (apply_fill_to_book s side n p b) = bb_bar_index b"
  by (simp_all add: apply_fill_to_book_def split: prod.split)

lemma apply_fill_here:
  "dict_get (bb_positions (apply_fill_to_book s side n p b)) s = fst (fill_entry (dict_get (bb_positions b) s) (signed_units side n) p)"
  by (auto simp: apply_fill_to_book_def split: prod.split option.split)

lemma apply_fill_elsewhere:
  "s' \<noteq> s \<Longrightarrow> dict_get (bb_positions (apply_fill_to_book s side n p b)) s' = dict_get (bb_positions b) s'"
  by (auto simp: apply_fill_to_book_def split: option.split prod.split)

lemma apply_fill_entry:
  assumes "0 < n" "book_ok b"
  shows "case dict_get (bb_positions (apply_fill_to_book s side n p b)) s of
           None \<Rightarrow> units_of s b + signed_units side n = 0
         | Some (units, avg) \<Rightarrow> units = units_of s b + signed_units side n \<and> units \<noteq> 0"
proof (cases "dict_get (bb_positions b) s")
  case None
  then show ?thesis using assms(1) by (simp add: apply_fill_here fill_entry_def units_of_def signed_units_def)
next
  case (Some e)
  obtain u avg where e: "e = (u, avg)" by force
  have u: "u \<noteq> 0" using assms(2) Some e by (auto simp: book_ok_def dest: spec [of _ s])
  show ?thesis
    using assms(1) u Some e by (cases side) (auto simp: apply_fill_here fill_entry_def units_of_def signed_units_def Let_def min_def)
qed

lemma apply_fill_units:
  assumes "0 < n" "book_ok b"
  shows "units_of s' (apply_fill_to_book s side n p b) = units_of s' b + (if s' = s then signed_units side n else 0)"
    and "book_ok (apply_fill_to_book s side n p b)"
proof -
  note e = apply_fill_entry [OF assms, of s side p]
  show "units_of s' (apply_fill_to_book s side n p b) = units_of s' b + (if s' = s then signed_units side n else 0)"
  proof (cases "s' = s")
    case True
    show ?thesis using e unfolding True units_of_def [of s "apply_fill_to_book s side n p b"] by (auto split: option.splits)
  next
    case False
    then show ?thesis by (simp add: units_of_def apply_fill_elsewhere)
  qed
  show "book_ok (apply_fill_to_book s side n p b)"
    unfolding book_ok_def
  proof
    fix t
    show "case dict_get (bb_positions (apply_fill_to_book s side n p b)) t of None \<Rightarrow> True | Some (units, avg) \<Rightarrow> units \<noteq> 0"
      using e assms(2) by (cases "t = s") (auto simp: apply_fill_elsewhere book_ok_def split: option.splits prod.splits)
  qed
qed

text \<open>What the loop does: the fills and the orders that stay are the waiting orders, each fill is the whole order, and
  the book moves by the fills.\<close>

definition fill_of :: "bt_fill_event \<Rightarrow> bool" where
  "fill_of f \<longleftrightarrow> fe_symbol f = rf_symbol (fe_order_ref f) \<and> fe_side f = rf_side (fe_order_ref f) \<and> fe_units f = rf_units (fe_order_ref f) \<and>
     0 \<le> fe_fill_price f"

lemma fill_each_other:
  "fill_each s c idx ps b = (r, b') \<Longrightarrow>
     bb_market_data b' = bb_market_data b \<and> bb_pip_slippage b' = bb_pip_slippage b \<and> bb_by_extension_id b' = bb_by_extension_id b \<and>
     bb_pending b' = bb_pending b \<and> bb_cancelled_ids b' = bb_cancelled_ids b \<and> bb_next_order_id b' = bb_next_order_id b \<and>
     bb_last_bar b' = bb_last_bar b \<and> bb_bar_index b' = bb_bar_index b"
proof (induction ps arbitrary: b r b')
  case (Cons p ps)
  let ?fill = "\<lambda>price. apply_fill_to_book s (rf_side (po_order_ref p)) (rf_units (po_order_ref p)) price b"
  from Cons.prems consider (go) r' where "fill_each s c idx ps b = (r', b')" | (stop) "b' = b" | (refused) price where "b' = ?fill price"
    | (fill) price r' where "fill_each s c idx ps (?fill price) = (r', b')"
    by (auto simp: Let_def split: if_splits option.splits sum.splits prod.splits)
  then show ?case by cases (use Cons.IH in \<open>fastforce+\<close>)
qed simp

lemma fill_each_sound:
  assumes "fill_each s c idx ps b = (Inr (fills, still), b')" "\<forall>p\<in>set ps. 0 < rf_units (po_order_ref p)" "book_ok b"
  shows "units_of t b' = units_of t b + net_units t fills \<and> book_ok b' \<and>
    mset (map fe_order_ref fills) + mset (map po_order_ref still) = mset (map po_order_ref ps) \<and> (\<forall>f\<in>set fills. fill_of f \<and> fe_symbol f = s)"
  using assms
proof (induction ps arbitrary: b fills still b')
  case (Cons p ps)
  show ?case
  proof (cases "rf_symbol (po_order_ref p) = s \<and> compute_fill_price p c \<noteq> None")
    case False
    then obtain st where r: "fill_each s c idx ps b = (Inr (fills, st), b')" "still = p # st"
      using Cons.prems(1) by (fastforce simp: Let_def bind_r_Inr_iff split: if_splits option.splits prod.splits)
    show ?thesis using Cons.IH [OF r(1) _ Cons.prems(3)] Cons.prems(2) r(2) by simp
  next
    case True
    let ?pips = "case dict_get (bb_pip_slippage b) s of None \<Rightarrow> 0 | Some n \<Rightarrow> n"
    from True Cons.prems(1) obtain base price fs where r: "compute_fill_price p c = Some base" "\<not> price < 0"
      "fill_each s c idx ps (apply_fill_to_book s (rf_side (po_order_ref p)) (rf_units (po_order_ref p)) price b) = (Inr (fs, still), b')"
      "fills = \<lparr>fe_order_ref = po_order_ref p, fe_symbol = s, fe_side = rf_side (po_order_ref p), fe_units = rf_units (po_order_ref p),
         fe_fill_price = price, fe_slippage_pips = ?pips, fe_bar_index = idx\<rparr> # fs"
      by (fastforce simp: Let_def bind_r_Inr_iff split: if_splits option.splits sum.splits prod.splits)
    have n: "0 < rf_units (po_order_ref p)" using Cons.prems(2) by simp
    note a = apply_fill_units [OF n Cons.prems(3)]
    show ?thesis
      using Cons.IH [OF r(3) _ a(2)] Cons.prems(2) True r(2,4) a(1) [of t] by (auto simp: fill_units_def fill_of_def)
  qed
qed simp

text \<open>Histories: placements, cancellations and bars in any order. A bar that raises ends a history.\<close>

inductive bt_reach :: "bt_broker \<Rightarrow> bt_broker \<Rightarrow> bt_fill_event list \<Rightarrow> bool" for b0 where
  start: "bt_reach b0 b0 []"
| placed: "bt_reach b0 b fs \<Longrightarrow> place_order s side n ot ext limit stop b = (r, b') \<Longrightarrow> bt_reach b0 b' fs"
| cancelled: "bt_reach b0 b fs \<Longrightarrow> bt_reach b0 (bt_cancel_order ref b) fs"
| bar: "bt_reach b0 b fs \<Longrightarrow> submit_bar s c b = (Inr fills, b') \<Longrightarrow> bt_reach b0 b' (fs @ fills)"

definition known_refs :: "bt_broker \<Rightarrow> bt_fill_event list \<Rightarrow> order_ref list" where
  "known_refs b fs = map fe_order_ref fs @ map po_order_ref (bb_pending b)"

definition ref_ok :: "bt_broker \<Rightarrow> order_ref \<Rightarrow> bool" where
  "ref_ok b r \<longleftrightarrow> 0 < rf_units r \<and> dict_get (bb_by_extension_id b) (rf_client_extension_id r) = Some r \<and>
     (\<exists>k<bb_next_order_id b. rf_broker_order_id r = ''PAPER-ORDER-'' @ nat_text k)"

definition bt_inv :: "bt_broker \<Rightarrow> bt_fill_event list \<Rightarrow> bool" where
  "bt_inv b fs \<longleftrightarrow> book_ok b \<and> (\<forall>t. units_of t b = net_units t fs) \<and> (\<forall>f\<in>set fs. fill_of f) \<and>
     distinct (map rf_broker_order_id (known_refs b fs)) \<and> (\<forall>r\<in>set (known_refs b fs). ref_ok b r)"

lemma place_order_cases:
  obtains (same) r where "place_order s side n ot ext limit stop b = (r, b)"
  | (new) ref where "0 < n" "s \<noteq> ''''" "rf_units ref = n" "rf_client_extension_id ref = ext" "rf_symbol ref = s" "rf_side ref = side"
      "rf_broker_order_id ref = ''PAPER-ORDER-'' @ nat_text (bb_next_order_id b)" "dict_get (bb_by_extension_id b) ext = None"
      "place_order s side n ot ext limit stop b = (Inr ref, b\<lparr>bb_next_order_id := bb_next_order_id b + 1,
         bb_by_extension_id := dict_set ext ref (bb_by_extension_id b),
         bb_pending := bb_pending b @ [\<lparr>po_order_ref = ref, po_order_type = ot, po_limit_price = limit, po_stop_price = stop\<rparr>]\<rparr>)"
proof (cases "bad_arguments s n ot ext limit stop \<or> \<not> md_supports (bb_market_data b) s \<or> dict_get (bb_by_extension_id b) ext \<noteq> None")
  case True
  then have "\<exists>r. place_order s side n ot ext limit stop b = (r, b)" by (auto simp: place_order_def split: option.splits)
  then show thesis by (blast intro: same)
next
  case False
  let ?ref = "\<lparr>rf_broker_order_id = ''PAPER-ORDER-'' @ nat_text (bb_next_order_id b), rf_client_extension_id = ext, rf_symbol = s, rf_side = side,
    rf_units = n\<rparr>"
  show thesis by (rule new [of ?ref]) (use False in \<open>auto simp: place_order_def bad_arguments_def Let_def\<close>)
qed

lemma place_order_inv:
  assumes "bt_inv b fs" "place_order s side n ot ext limit stop b = (r, b')"
  shows "bt_inv b' fs"
proof (cases rule: place_order_cases [of s side n ot ext limit stop b])
  case same
  then show ?thesis using assms by simp
next
  case (new ref)
  have old: "\<forall>q\<in>set (known_refs b fs). ref_ok b q \<and> rf_broker_order_id q \<noteq> rf_broker_order_id ref"
    using assms(1) new(7) by (auto simp: bt_inv_def ref_ok_def)
  have keep: "ref_ok b q \<Longrightarrow> ref_ok b' q" for q
    using new(8,9) assms(2) by (auto simp: ref_ok_def intro: less_SucI)
  have "ref_ok b' ref" using new assms(2) by (auto simp: ref_ok_def)
  moreover have "known_refs b' fs = known_refs b fs @ [ref]" using new(9) assms(2) by (auto simp: known_refs_def)
  moreover have "book_ok b' = book_ok b" "units_of t b' = units_of t b" for t
    using new(9) assms(2) by (auto simp: book_ok_def units_of_def)
  ultimately show ?thesis using assms(1) old keep unfolding bt_inv_def by (auto simp: image_iff)
qed

lemma cancel_inv:
  assumes "bt_inv b fs"
  shows "bt_inv (bt_cancel_order ref b) fs"
proof -
  have k: "set (known_refs (bt_cancel_order ref b) fs) \<subseteq> set (known_refs b fs)" by (auto simp: known_refs_def bt_cancel_order_def)
  have "distinct (map rf_broker_order_id (known_refs (bt_cancel_order ref b) fs))"
    using assms by (auto simp: bt_inv_def known_refs_def bt_cancel_order_def comp_def distinct_map_filter)
  then show ?thesis
    using assms k by (auto simp: bt_inv_def book_ok_def units_of_def bt_cancel_order_def ref_ok_def)
qed

lemma submit_bar_cases:
  assumes "submit_bar s c b = (Inr fills, b')"
  obtains still b1 where "fill_each s c (bb_bar_index b) (bb_pending b)
      (b\<lparr>bb_last_bar := dict_set s c (bb_last_bar b), bb_bar_index := bb_bar_index b + 1\<rparr>) = (Inr (fills, still), b1)"
    "b' = b1\<lparr>bb_pending := still\<rparr>" "s = cn_symbol c"
  using assms by (auto simp: submit_bar_def Let_def split: if_splits prod.splits sum.splits)

lemma submit_bar_inv:
  assumes "bt_inv b fs" "submit_bar s c b = (Inr fills, b')"
  shows "bt_inv b' (fs @ fills)"
proof -
  let ?b = "b\<lparr>bb_last_bar := dict_set s c (bb_last_bar b), bb_bar_index := bb_bar_index b + 1\<rparr>"
  obtain still b1 where r: "fill_each s c (bb_bar_index b) (bb_pending b) ?b = (Inr (fills, still), b1)" "b' = b1\<lparr>bb_pending := still\<rparr>"
    by (rule submit_bar_cases [OF assms(2)])
  have pos: "\<forall>p\<in>set (bb_pending b). 0 < rf_units (po_order_ref p)" using assms(1) by (auto simp: bt_inv_def known_refs_def ref_ok_def)
  have ok: "book_ok ?b" "units_of t ?b = net_units t fs" for t using assms(1) by (auto simp: bt_inv_def book_ok_def units_of_def)
  note snd = fill_each_sound [OF r(1) pos ok(1)]
  have m: "mset (known_refs b' (fs @ fills)) = mset (known_refs b fs)"
    using snd [of "''''"] r(2) by (simp add: known_refs_def ac_simps)
  have d: "distinct (map rf_broker_order_id (known_refs b' (fs @ fills)))"
    using mset_eq_imp_distinct_iff [of "map rf_broker_order_id (known_refs b' (fs @ fills))" "map rf_broker_order_id (known_refs b fs)"] m assms(1)
    unfolding bt_inv_def by (metis mset_map)
  have "ref_ok b' q = ref_ok b q" for q using fill_each_other [OF r(1)] r(2) by (simp add: ref_ok_def)
  moreover have "book_ok b' = book_ok b1" "units_of t b' = units_of t b1" for t using r(2) by (simp_all add: book_ok_def units_of_def)
  moreover have "set (known_refs b' (fs @ fills)) = set (known_refs b fs)" using m by (metis set_mset_mset)
  ultimately show ?thesis using assms(1) snd ok(2) d unfolding bt_inv_def by auto
qed

lemma bt_reach_inv:
  assumes "bt_reach b0 b fs" "new_bt_broker balance slippage md = Inr b0"
  shows "bt_inv b fs"
  using assms
proof (induction rule: bt_reach.induct)
  case start
  then show ?case by (auto simp: new_bt_broker_def bt_inv_def book_ok_def units_of_def known_refs_def split: if_splits)
qed (blast intro: place_order_inv cancel_inv submit_bar_inv)+

text \<open>
  The backtest broker's book is the sum of its fills: after any placements, cancellations and bars, the
  units held in a symbol are the net units of the fills reported for it, a symbol is in the book exactly when
  that sum is not zero, every fill is the whole of an accepted order at a price that is not negative, and no
  order is filled twice or still waiting after its fill.
\<close>

theorem book_is_net_of_fills:
  assumes "new_bt_broker balance slippage md = Inr b0" "bt_reach b0 b fs"
  shows "(\<forall>s. case dict_get (bb_positions b) s of None \<Rightarrow> net_units s fs = 0 | Some (units, avg) \<Rightarrow> units = net_units s fs \<and> units \<noteq> 0) \<and>
    (\<forall>f\<in>set fs. fill_of f \<and> dict_get (bb_by_extension_id b) (rf_client_extension_id (fe_order_ref f)) = Some (fe_order_ref f) \<and>
       fe_order_ref f \<notin> set (map po_order_ref (bb_pending b))) \<and>
    distinct (map (rf_broker_order_id \<circ> fe_order_ref) fs)"
proof -
  have i: "bt_inv b fs" by (rule bt_reach_inv [OF assms(2,1)])
  have "case dict_get (bb_positions b) s of None \<Rightarrow> net_units s fs = 0 | Some (units, avg) \<Rightarrow> units = net_units s fs \<and> units \<noteq> 0" for s
  proof -
    have "units_of s b = net_units s fs" "book_ok b" using i by (simp_all add: bt_inv_def)
    with book_entry_iff [of b s] show ?thesis by (auto simp: units_of_def split: option.splits)
  qed
  moreover have "distinct (map (rf_broker_order_id \<circ> fe_order_ref) fs)" using i by (simp add: bt_inv_def known_refs_def comp_def)
  moreover have "\<forall>f\<in>set fs. fill_of f \<and> dict_get (bb_by_extension_id b) (rf_client_extension_id (fe_order_ref f)) = Some (fe_order_ref f) \<and>
       fe_order_ref f \<notin> set (map po_order_ref (bb_pending b))"
    using i by (auto simp: bt_inv_def known_refs_def ref_ok_def)
  ultimately show ?thesis by blast
qed

definition demo_md :: market_data where
  "demo_md = \<lparr>md_supports = (\<lambda>s. s = ''EURUSD''), md_get_pip_size = (\<lambda>s. Inr (1 / 10000))\<rparr>"

definition demo_fx_bar :: "rat \<Rightarrow> candle" where
  "demo_fx_bar p = \<lparr>cn_symbol = ''EURUSD'', cn_interval = H1, cn_open = p, cn_high = p + 1, cn_low = p, cn_close = p, cn_volume = 1,
     cn_timestamp = 0, cn_spread = None\<rparr>"

theorem book_is_net_of_fills_witness:
  "\<exists>b0 b fs. new_bt_broker 100 [] demo_md = Inr b0 \<and> bt_reach b0 b fs \<and> length fs = 1 \<and> dict_get (bb_positions b) ''EURUSD'' = Some (7, 2) \<and>
     net_units ''EURUSD'' fs = 7"
proof -
  obtain b0 where b0: "new_bt_broker 100 [] demo_md = Inr b0" by (simp add: new_bt_broker_def)
  let ?placed = "snd (place_order ''EURUSD'' Buy 7 MarketOrder ''X1'' None None b0)"
  obtain fs where f: "fst (submit_bar ''EURUSD'' (demo_fx_bar 2) ?placed) = Inr fs" "length fs = 1"
    "dict_get (bb_positions (snd (submit_bar ''EURUSD'' (demo_fx_bar 2) ?placed))) ''EURUSD'' = Some (7, 2)"
    using b0 by (auto simp: new_bt_broker_def place_order_def bad_arguments_def demo_md_def submit_bar_def demo_fx_bar_def compute_fill_price_def
        apply_slippage_def apply_fill_to_book_def fill_entry_def signed_units_def Let_def)
  have "bt_reach b0 ?placed []" by (rule bt_reach.placed [OF bt_reach.start]) (simp add: prod_eq_iff)
  then have r: "bt_reach b0 (snd (submit_bar ''EURUSD'' (demo_fx_bar 2) ?placed)) ([] @ fs)"
    by (rule bt_reach.bar) (use f(1) in \<open>simp add: prod_eq_iff\<close>)
  from book_is_net_of_fills [OF b0 r] f(2,3) b0 r show ?thesis by (fastforce dest: spec [of _ "''EURUSD''"])
qed

end
