(* ===== verification/Lookback.thy ===== *)
theory Lookback
  imports Strategy_IR Float64
begin

text \<open>
  References to earlier bars, \<open>libs/strategy_ir/lookback.py\<close>: the buffer of the last values of an indicator
  or price field, and the scan of a strategy for names with the suffix \<open>_prev_N\<close>, which plans the
  capacities of the buffers.
\<close>

section \<open>The buffer\<close>

record lookback_buffer =
  lb_capacity :: nat
  lb_values :: "py_float list"
  lb_count :: nat

definition new_buffer :: "int \<Rightarrow> (exn, lookback_buffer) result" where
  "new_buffer capacity =
     (if capacity < 1 then Inl (PyError ''ValueError'')
      else Inr \<lparr>lb_capacity = nat capacity, lb_values = replicate (nat capacity) NaN, lb_count = 0\<rparr>)"

text \<open>The values move one place to the front, and the new one takes the last place.\<close>

definition lb_push :: "py_float \<Rightarrow> lookback_buffer \<Rightarrow> lookback_buffer" where
  "lb_push v b =
     (let shifted = tl (lb_values b) @ [last (lb_values b)]
      in b\<lparr>lb_values := shifted[length shifted - 1 := v],
           lb_count := (if lb_count b < lb_capacity b then lb_count b + 1 else lb_count b)\<rparr>)"

definition lb_get :: "int \<Rightarrow> lookback_buffer \<Rightarrow> (exn, py_float) result" where
  "lb_get n b =
     (if n < 1 \<or> int (lb_capacity b) < n then Inl (PyError ''ValueError'')
      else if int (lb_count b) < n then Inr NaN
      else Inr (lb_values b ! (length (lb_values b) - nat n)))"

definition lb_reset :: "lookback_buffer \<Rightarrow> lookback_buffer" where
  "lb_reset b = b\<lparr>lb_values := replicate (lb_capacity b) NaN, lb_count := 0\<rparr>"

section \<open>The plan\<close>

type_synonym lookback_plan = "(string, nat) dict"

definition record_token :: "nat \<Rightarrow> string \<Rightarrow> lookback_plan \<Rightarrow> (exn, lookback_plan) result" where
  "record_token i token caps =
     (case prev_match token of
        None \<Rightarrow> Inr caps
      | Some (base, lag) \<Rightarrow>
          if lag < 1 then Inl (PyError ''ValueError'')
          else
            let existing = (case dict_get caps base of None \<Rightarrow> 0 | Some n \<Rightarrow> n)
            in Inr (if existing < lag then dict_set base lag caps else caps))"

definition scan_expression :: "string \<Rightarrow> lookback_plan \<Rightarrow> (exn, lookback_plan) result" where
  "scan_expression e = each record_token 0 (idents e)"

definition scan_leaf :: "leaf_condition \<Rightarrow> lookback_plan \<Rightarrow> (exn, lookback_plan) result" where
  "scan_leaf leaf caps =
     bind_r (scan_expression (lc_lhs leaf) caps) (\<lambda>caps1.
       case lc_rhs leaf of RhsText e \<Rightarrow> scan_expression e caps1 | RhsNum _ \<Rightarrow> Inr caps1)"

fun scan_conditions :: "condition list \<Rightarrow> lookback_plan \<Rightarrow> (exn, lookback_plan) result" where
  "scan_conditions [] caps = Inr caps"
| "scan_conditions (Leaf leaf # cs) caps = bind_r (scan_leaf leaf caps) (\<lambda>caps1. scan_conditions cs caps1)"
| "scan_conditions (Sub op ds # cs) caps = bind_r (scan_conditions ds caps) (\<lambda>caps1. scan_conditions cs caps1)"

definition scan_condition_tree :: "condition_tree option \<Rightarrow> lookback_plan \<Rightarrow> (exn, lookback_plan) result" where
  "scan_condition_tree tree caps = (case tree of None \<Rightarrow> Inr caps | Some (op, cs) \<Rightarrow> scan_conditions cs caps)"

definition scan_entry_logic :: "entry_logic \<Rightarrow> lookback_plan \<Rightarrow> (exn, lookback_plan) result" where
  "scan_entry_logic el caps =
     bind_r (scan_condition_tree (el_long el) caps) (\<lambda>caps1.
     bind_r (scan_condition_tree (el_short el) caps1) (\<lambda>caps2.
     bind_r (each (\<lambda>i bt. scan_leaf (bt_active_when bt)) 0 (case el_basket_templates el of None \<Rightarrow> [] | Some bts \<Rightarrow> bts) caps2) (\<lambda>caps3.
     scan_condition_tree (el_entry_filters el) caps3)))"

definition scan_exit_stop :: "exit_stop \<Rightarrow> lookback_plan \<Rightarrow> (exn, lookback_plan) result" where
  "scan_exit_stop stop caps =
     (case stop of
        ChannelExitStop lng short \<Rightarrow> bind_r (scan_leaf lng caps) (scan_leaf short)
      | MeanReversionToMidStop lng short \<Rightarrow> bind_r (scan_leaf lng caps) (scan_leaf short)
      | CalendarExitStop cond \<Rightarrow> scan_leaf cond caps
      | ZscoreStop cond \<Rightarrow> scan_leaf cond caps
      | _ \<Rightarrow> Inr caps)"

definition scan_exit_logic :: "exit_logic \<Rightarrow> lookback_plan \<Rightarrow> (exn, lookback_plan) result" where
  "scan_exit_logic x = each (\<lambda>i (name, stop). scan_exit_stop stop) 0 (exit_stops x)"

definition scan_filter :: "nat \<Rightarrow> ir_filter \<Rightarrow> lookback_plan \<Rightarrow> (exn, lookback_plan) result" where
  "scan_filter i flt caps =
     (case if_lhs flt of
        None \<Rightarrow> Inr caps
      | Some lhs \<Rightarrow>
          bind_r (scan_expression lhs caps) (\<lambda>caps1.
            case if_rhs flt of Some (RhsText e) \<Rightarrow> scan_expression e caps1 | _ \<Rightarrow> Inr caps1))"

definition scan_filters :: "ir_filter list \<Rightarrow> lookback_plan \<Rightarrow> (exn, lookback_plan) result" where
  "scan_filters = each scan_filter 0"

definition resolve_lookback :: "strategy_ir \<Rightarrow> (exn, lookback_plan) result" where
  "resolve_lookback ir =
     bind_r (scan_entry_logic (ir_entry_logic ir) []) (\<lambda>caps1.
     bind_r (scan_exit_logic (ir_exit_logic ir) caps1) (\<lambda>caps2.
     case ir_filters ir of None \<Rightarrow> Inr caps2 | Some fs \<Rightarrow> scan_filters fs caps2))"

definition split_prev_suffix :: "string \<Rightarrow> (string \<times> nat) option" where
  "split_prev_suffix token =
     (case prev_match token of None \<Rightarrow> None | Some (base, lag) \<Rightarrow> if lag < 1 then None else Some (base, lag))"


section \<open>The buffer keeps the last values\<close>

text \<open>A buffer that holds the last values of a history.\<close>

definition holds :: "py_float list \<Rightarrow> lookback_buffer \<Rightarrow> bool" where
  "holds xs b \<longleftrightarrow> 1 \<le> lb_capacity b \<and> length (lb_values b) = lb_capacity b \<and> lb_count b = min (length xs) (lb_capacity b) \<and>
     (\<forall>n. 1 \<le> n \<longrightarrow> n \<le> lb_count b \<longrightarrow> lb_values b ! (lb_capacity b - n) = rev xs ! (n - 1))"

lemma new_buffer_holds: "new_buffer c = Inr b \<Longrightarrow> holds [] b \<and> lb_capacity b = nat c"
  by (auto simp: new_buffer_def holds_def split: if_splits)

lemma lb_reset_holds: "holds xs b \<Longrightarrow> holds [] (lb_reset b)"
  by (auto simp: holds_def lb_reset_def)

lemma lb_push_holds:
  assumes "holds xs b"
  shows "holds (xs @ [v]) (lb_push v b) \<and> lb_capacity (lb_push v b) = lb_capacity b"
proof -
  let ?c = "lb_capacity b"
  let ?vs = "lb_values b"
  have c: "1 \<le> ?c" "length ?vs = ?c" "lb_count b = min (length xs) ?c" using assms by (simp_all add: holds_def)
  have vs: "lb_values (lb_push v b) = tl ?vs @ [v]"
    using c by (simp add: lb_push_def Let_def list_update_append)
  have old: "(tl ?vs @ [v]) ! (?c - n) = rev (xs @ [v]) ! (n - 1)" if n: "1 \<le> n" "n \<le> min (length xs + 1) ?c" for n
  proof (cases "n = 1")
    case True
    then show ?thesis using c by (simp add: nth_append)
  next
    case False
    have "?c - n < length (tl ?vs)" "Suc (?c - n) = ?c - (n - 1)" using n c False by auto
    then have "(tl ?vs @ [v]) ! (?c - n) = ?vs ! (?c - (n - 1))" by (simp add: nth_append nth_tl)
    also have "1 \<le> n - 1 \<and> n - 1 \<le> lb_count b" using n c False by auto
    then have "?vs ! (?c - (n - 1)) = rev xs ! (n - 1 - 1)" using assms unfolding holds_def by blast
    also have "\<dots> = rev (xs @ [v]) ! (n - 1)" using n False by (simp add: nth_Cons')
    finally show ?thesis .
  qed
  have "lb_count (lb_push v b) = min (length xs + 1) ?c" using c by (auto simp: lb_push_def Let_def)
  with c vs old show ?thesis by (auto simp: holds_def lb_push_def Let_def)
qed

lemma pushes_hold: "holds xs b \<Longrightarrow> holds (xs @ ys) (fold lb_push ys b) \<and> lb_capacity (fold lb_push ys b) = lb_capacity b"
proof (induction ys arbitrary: xs b)
  case (Cons y ys)
  from lb_push_holds [OF Cons.prems, of y] Cons.IH [of "xs @ [y]" "lb_push y b"] show ?case by simp
qed simp

lemma lb_get_holds:
  assumes "holds xs b"
  shows "lb_get n b = (if n < 1 \<or> int (lb_capacity b) < n then Inl (PyError ''ValueError'')
    else if nat n \<le> length xs then Inr (rev xs ! (nat n - 1)) else Inr NaN)"
  using assms by (auto simp: lb_get_def holds_def nat_le_iff)

section \<open>The plan covers every reference\<close>

text \<open>The names that the scan looks at.\<close>

definition leaf_tokens :: "leaf_condition \<Rightarrow> string list" where
  "leaf_tokens leaf = idents (lc_lhs leaf) @ (case lc_rhs leaf of RhsText e \<Rightarrow> idents e | RhsNum _ \<Rightarrow> [])"

fun conditions_tokens :: "condition list \<Rightarrow> string list" where
  "conditions_tokens [] = []"
| "conditions_tokens (Leaf leaf # cs) = leaf_tokens leaf @ conditions_tokens cs"
| "conditions_tokens (Sub op ds # cs) = conditions_tokens ds @ conditions_tokens cs"

definition tree_tokens :: "condition_tree option \<Rightarrow> string list" where
  "tree_tokens tree = (case tree of None \<Rightarrow> [] | Some (op, cs) \<Rightarrow> conditions_tokens cs)"

definition stop_tokens :: "exit_stop \<Rightarrow> string list" where
  "stop_tokens stop =
     (case stop of
        ChannelExitStop lng short \<Rightarrow> leaf_tokens lng @ leaf_tokens short
      | MeanReversionToMidStop lng short \<Rightarrow> leaf_tokens lng @ leaf_tokens short
      | CalendarExitStop cond \<Rightarrow> leaf_tokens cond
      | ZscoreStop cond \<Rightarrow> leaf_tokens cond
      | _ \<Rightarrow> [])"

definition filter_tokens :: "ir_filter \<Rightarrow> string list" where
  "filter_tokens flt =
     (case if_lhs flt of
        None \<Rightarrow> []
      | Some lhs \<Rightarrow> idents lhs @ (case if_rhs flt of Some (RhsText e) \<Rightarrow> idents e | _ \<Rightarrow> []))"

definition lookback_tokens :: "strategy_ir \<Rightarrow> string list" where
  "lookback_tokens ir =
     (let el = ir_entry_logic ir
      in tree_tokens (el_long el) @ tree_tokens (el_short el) @
         concat (map (\<lambda>bt. leaf_tokens (bt_active_when bt)) (case el_basket_templates el of None \<Rightarrow> [] | Some bts \<Rightarrow> bts)) @
         tree_tokens (el_entry_filters el) @
         concat (map (\<lambda>(name, stop). stop_tokens stop) (exit_stops (ir_exit_logic ir))) @
         concat (map filter_tokens (case ir_filters ir of None \<Rightarrow> [] | Some fs \<Rightarrow> fs)))"

definition scans :: "string list \<Rightarrow> (lookback_plan \<Rightarrow> (exn, lookback_plan) result) \<Rightarrow> bool" where
  "scans ts f \<longleftrightarrow> (\<forall>caps. f caps = each record_token 0 ts caps)"

lemma each_record: "each record_token i ts = each record_token 0 ts"
proof (induction ts arbitrary: i)
  case (Cons t ts)
  have "record_token i t = record_token 0 t" by (simp add: fun_eq_iff record_token_def)
  moreover have "each record_token (Suc i) ts = each record_token (Suc 0) ts" using Cons.IH [of "Suc i"] Cons.IH [of "Suc 0"] by simp
  ultimately show ?case by (intro ext) simp
qed (simp add: fun_eq_iff)

lemma each_append: "each f i (xs @ ys) s = bind_r (each f i xs s) (each f (i + length xs) ys)"
proof (induction xs arbitrary: i s)
  case (Cons x xs)
  then show ?case by (cases "f i x s") simp_all
qed simp

lemma scans_bind: "scans xs f \<Longrightarrow> scans ys g \<Longrightarrow> scans (xs @ ys) (\<lambda>caps. bind_r (f caps) g)"
  unfolding scans_def each_append
proof
  fix caps assume "\<forall>caps. f caps = each record_token 0 xs caps" "\<forall>caps. g caps = each record_token 0 ys caps"
  then have "f caps = each record_token 0 xs caps" "g = each record_token 0 ys" by (simp_all add: fun_eq_iff)
  then show "bind_r (f caps) g = bind_r (each record_token 0 xs caps) (each record_token (0 + length xs) ys)"
    using each_record [of "0 + length xs" ys] by metis
qed

lemma scans_Inr [simp]: "scans [] Inr"
  by (simp add: scans_def)

lemma scans_each: "(\<And>i x. x \<in> set xs \<Longrightarrow> scans (ts x) (f i x)) \<Longrightarrow> scans (concat (map ts xs)) (each f i xs)"
proof (induction xs arbitrary: i)
  case Nil
  show ?case by (simp add: scans_def)
next
  case (Cons x xs)
  have "each f i (x # xs) = (\<lambda>caps. bind_r (f i x caps) (each f (Suc i) xs))" by (simp add: fun_eq_iff)
  with scans_bind [OF Cons.prems [of x i] Cons.IH [of "Suc i"]] Cons.prems show ?case by simp
qed

lemma scans_expression: "scans (idents e) (scan_expression e)"
  by (simp add: scans_def scan_expression_def)

lemma scans_leaf: "scans (leaf_tokens leaf) (scan_leaf leaf)"
  using scans_bind [OF scans_expression scans_expression] scans_bind [OF scans_expression scans_Inr]
  by (cases "lc_rhs leaf") (simp_all add: leaf_tokens_def scan_leaf_def [abs_def])

lemma scans_conditions: "scans (conditions_tokens cs) (scan_conditions cs)"
proof (induction cs rule: conditions_tokens.induct)
  case (2 leaf cs)
  have "scan_conditions (Leaf leaf # cs) = (\<lambda>caps. bind_r (scan_leaf leaf caps) (scan_conditions cs))" by (simp add: fun_eq_iff)
  with scans_bind [OF scans_leaf 2] show ?case by simp
next
  case (3 op ds cs)
  have "scan_conditions (Sub op ds # cs) = (\<lambda>caps. bind_r (scan_conditions ds caps) (scan_conditions cs))" by (simp add: fun_eq_iff)
  with scans_bind [OF 3] show ?case by simp
qed (simp add: scans_def)

lemma scans_tree: "scans (tree_tokens tree) (scan_condition_tree tree)"
  using scans_conditions
  by (cases tree) (auto simp: tree_tokens_def scan_condition_tree_def [abs_def] scans_def split: prod.splits)

lemma scans_stop: "scans (stop_tokens stop) (scan_exit_stop stop)"
  using scans_bind [OF scans_leaf scans_leaf] scans_leaf
  by (cases stop) (simp_all add: stop_tokens_def scan_exit_stop_def [abs_def])

lemma scans_filter: "scans (filter_tokens flt) (scan_filter i flt)"
  using scans_bind [OF scans_expression scans_expression] scans_bind [OF scans_expression scans_Inr]
  by (cases "if_lhs flt"; cases "if_rhs flt"; cases "the (if_rhs flt)")
    (simp_all add: filter_tokens_def scan_filter_def [abs_def])

lemma scans_entry:
  "scans (tree_tokens (el_long el) @ tree_tokens (el_short el) @
     concat (map (\<lambda>bt. leaf_tokens (bt_active_when bt)) (case el_basket_templates el of None \<Rightarrow> [] | Some bts \<Rightarrow> bts)) @
     tree_tokens (el_entry_filters el)) (scan_entry_logic el)"
  unfolding scan_entry_logic_def [abs_def]
  by (intro scans_bind scans_tree scans_each scans_leaf)

lemma resolve_lookback_tokens: "resolve_lookback ir = each record_token 0 (lookback_tokens ir) []"
proof -
  have x: "scans (concat (map (\<lambda>(name, stop). stop_tokens stop) (exit_stops (ir_exit_logic ir)))) (scan_exit_logic (ir_exit_logic ir))"
    unfolding scan_exit_logic_def by (rule scans_each) (auto simp: scans_stop split: prod.splits)
  have "scans (concat (map filter_tokens (case ir_filters ir of None \<Rightarrow> [] | Some fs \<Rightarrow> fs)))
      (\<lambda>caps. case ir_filters ir of None \<Rightarrow> Inr caps | Some fs \<Rightarrow> scan_filters fs caps)"
    using scans_each [of _ filter_tokens scan_filter] scans_filter
    by (cases "ir_filters ir") (simp_all add: scan_filters_def)
  from scans_bind [OF scans_entry scans_bind [OF x this], of "ir_entry_logic ir"] show ?thesis
    by (simp add: scans_def resolve_lookback_def lookback_tokens_def Let_def)
qed

definition lags :: "string \<Rightarrow> string list \<Rightarrow> nat set" where
  "lags base ts = {lag. \<exists>t \<in> set ts. prev_match t = Some (base, lag)}"

text \<open>A capacity is planned for exactly the names that are looked back at, and it is the largest lag.\<close>

definition plans :: "string list \<Rightarrow> lookback_plan \<Rightarrow> bool" where
  "plans ts caps \<longleftrightarrow> (\<forall>base. 0 \<notin> lags base ts \<and> dict_get caps base = (if lags base ts = {} then None else Some (Max (lags base ts))))"

lemma lags_finite [simp]: "finite (lags base ts)"
proof -
  have "lags base ts \<subseteq> (\<lambda>t. snd (the (prev_match t))) ` set ts" by (force simp: lags_def)
  then show ?thesis using finite_surj [of "set ts"] by blast
qed

lemma lags_snoc: "lags base (ts @ [t]) = (case prev_match t of Some (b, lag) \<Rightarrow> if b = base then insert lag (lags base ts) else lags base ts
    | None \<Rightarrow> lags base ts)"
  by (auto simp: lags_def split: option.splits)

lemma record_token_plans:
  assumes "plans ts caps"
  shows "(case record_token i t caps of
      Inl e \<Rightarrow> e = PyError ''ValueError'' \<and> (\<exists>base. prev_match t = Some (base, 0))
    | Inr caps1 \<Rightarrow> plans (ts @ [t]) caps1)"
proof (cases "prev_match t")
  case None
  then show ?thesis using assms by (simp add: record_token_def plans_def lags_snoc)
next
  case (Some p)
  obtain b lag where p: "prev_match t = Some (b, lag)" using Some by (cases p) simp
  let ?L = "lags b ts"
  have g: "dict_get caps b = (if ?L = {} then None else Some (Max ?L))" "0 \<notin> ?L" using assms by (simp_all add: plans_def)
  have "plans (ts @ [t]) (if (case dict_get caps b of None \<Rightarrow> 0 | Some n \<Rightarrow> n) < lag then dict_set b lag caps else caps)" if "0 < lag"
    unfolding plans_def
  proof (intro allI conjI)
    fix base
    show "0 \<notin> lags base (ts @ [t])" using assms that p by (auto simp: plans_def lags_snoc)
    show "dict_get (if (case dict_get caps b of None \<Rightarrow> 0 | Some n \<Rightarrow> n) < lag then dict_set b lag caps else caps) base =
        (if lags base (ts @ [t]) = {} then None else Some (Max (lags base (ts @ [t]))))"
    proof (cases "base = b \<and> ?L \<noteq> {}")
      case True
      then have "Max (insert lag ?L) = max lag (Max ?L)" by simp
      then show ?thesis using True g p by (simp add: lags_snoc max_def del: Max_insert Max_less_iff)
    next
      case False
      then show ?thesis using assms g that p by (auto simp: plans_def lags_snoc)
    qed
  qed
  then show ?thesis using p by (auto simp: record_token_def Let_def)
qed

lemma record_tokens_plan:
  "plans ts caps \<Longrightarrow> (case each record_token i us caps of
      Inl e \<Rightarrow> e = PyError ''ValueError'' \<and> (\<exists>base. 0 \<in> lags base us)
    | Inr caps1 \<Rightarrow> plans (ts @ us) caps1)"
proof (induction us arbitrary: ts caps i)
  case (Cons t us)
  have more: "0 \<in> lags base us \<Longrightarrow> 0 \<in> lags base (t # us)" for base by (auto simp: lags_def)
  show ?case
  proof (cases "record_token i t caps")
    case (Inl e)
    then show ?thesis using record_token_plans [OF Cons.prems, where i = i and t = t] by (auto simp: lags_def)
  next
    case (Inr caps1)
    then have "plans (ts @ [t]) caps1" using record_token_plans [OF Cons.prems, where i = i and t = t] by simp
    from Cons.IH [OF this, of "Suc i"] more Inr show ?thesis by (auto split: sum.splits)
  qed
qed simp

text \<open>
  The plan of a strategy's lookback buffers: \<open>resolve_lookback\<close> raises \<open>ValueError\<close> exactly when some name of
  the entry conditions, exit conditions or filters has the suffix \<open>_prev_0\<close>, and nothing else; otherwise it returns a
  capacity for exactly the names that are looked back at, each the largest lag that the strategy asks for, whatever the
  order of the references.
\<close>

theorem lookback_plan_exact:
  "case resolve_lookback ir of
     Inl e \<Rightarrow> e = PyError ''ValueError'' \<and> (\<exists>base. 0 \<in> lags base (lookback_tokens ir))
   | Inr caps \<Rightarrow>
       \<not> (\<exists>base. 0 \<in> lags base (lookback_tokens ir)) \<and>
       (\<forall>base. dict_get caps base =
          (if lags base (lookback_tokens ir) = {} then None else Some (Max (lags base (lookback_tokens ir)))))"
proof -
  have "plans [] []" by (simp add: plans_def lags_def)
  from record_tokens_plan [OF this, where i = 0 and us = "lookback_tokens ir"] show ?thesis
    unfolding resolve_lookback_tokens by (simp add: plans_def split: sum.splits)
qed

lemma resolved_plans: "resolve_lookback ir = Inr caps \<Longrightarrow> plans (lookback_tokens ir) caps"
proof -
  assume r: "resolve_lookback ir = Inr caps"
  have "plans [] []" by (simp add: plans_def lags_def)
  from record_tokens_plan [OF this, where i = 0 and us = "lookback_tokens ir"] r show ?thesis by (simp add: resolve_lookback_tokens)
qed

text \<open>
  Every reference to an earlier bar that the strategy makes can be served: where the plan is made and a condition
  names \<open>base_prev_lag\<close>, the plan has a capacity for \<open>base\<close> with which a buffer can be built, and after any history of
  pushed values reading that buffer \<open>lag\<close> bars back returns the value pushed \<open>lag\<close> bars ago, or not a number while the
  history is shorter than that; it never raises.
\<close>

theorem earlier_bar_reference_served:
  assumes "resolve_lookback ir = Inr caps" "t \<in> set (lookback_tokens ir)" "prev_match t = Some (base, lag)"
  shows "\<exists>n b. dict_get caps base = Some n \<and> new_buffer (int n) = Inr b \<and>
    (\<forall>xs. lb_get (int lag) (fold lb_push xs b) = Inr (if lag \<le> length xs then rev xs ! (lag - 1) else NaN))"
proof -
  have l: "lag \<in> lags base (lookback_tokens ir)" using assms by (auto simp: lags_def)
  define n where "n = Max (lags base (lookback_tokens ir))"
  have p: "plans (lookback_tokens ir) caps" using assms by (simp add: resolved_plans)
  then have "0 < lag" using l by (metis neq0_conv plans_def)
  moreover have "lag \<le> n" using l by (simp add: n_def)
  moreover have "dict_get caps base = Some n" using p l by (auto simp: plans_def n_def)
  moreover obtain b where b: "new_buffer (int n) = Inr b" using \<open>0 < lag\<close> \<open>lag \<le> n\<close> by (simp add: new_buffer_def)
  moreover have "lb_get (int lag) (fold lb_push xs b) = Inr (if lag \<le> length xs then rev xs ! (lag - 1) else NaN)" for xs
    using pushes_hold [of "[]" b xs] new_buffer_holds [OF b] lb_get_holds [of xs "fold lb_push xs b" "int lag"] \<open>0 < lag\<close> \<open>lag \<le> n\<close>
    by auto
  ultimately show ?thesis by blast
qed

definition lookback_demo :: strategy_ir where
  "lookback_demo = blank_ir\<lparr>ir_entry_logic := (ir_entry_logic blank_ir)
     \<lparr>el_long := Some (''and'', [Leaf \<lparr>lc_lhs = ''c'', lc_operator = ''>'', lc_rhs = RhsText ''c_prev_2'', lc_units = None\<rparr>])\<rparr>\<rparr>"

lemma lookback_demo_tokens: "lookback_tokens lookback_demo = [''c'', ''c_prev_2'']"
  by (simp add: lookback_tokens_def lookback_demo_def blank_ir_def no_exits_def tree_tokens_def leaf_tokens_def exit_stops_def idents.simps
      ident_start_def ident_char_def ascii_digit_def)

lemma lookback_demo_prev: "prev_match ''c'' = None" "prev_match ''c_prev_2'' = Some (''c'', 2)"
  by (simp_all add: prev_match_def Let_def ascii_digit_def line_feed_def ends_with_def chop_def text_nat_def)

theorem earlier_bar_reference_served_witness:
  "\<exists>n b. dict_get [(''c'', 2)] ''c'' = Some n \<and> new_buffer (int n) = Inr b \<and>
     lb_get 2 (fold lb_push [Num 5, Num 7, Num 8] b) = Inr (Num 7) \<and> lb_get 2 (fold lb_push [Num 5] b) = Inr NaN"
proof -
  have "resolve_lookback lookback_demo = Inr [(''c'', 2)]"
    by (simp add: resolve_lookback_tokens lookback_demo_tokens record_token_def lookback_demo_prev)
  from earlier_bar_reference_served [OF this, of "''c_prev_2''" "''c''" 2] obtain n b where
    n: "dict_get [(''c'', 2)] ''c'' = Some n" "new_buffer (int n) = Inr b"
    and g: "\<forall>xs. lb_get (int 2) (fold lb_push xs b) = Inr (if 2 \<le> length xs then rev xs ! (2 - 1) else NaN)"
    by (auto simp: lookback_demo_tokens lookback_demo_prev)
  from n spec [OF g, of "[Num 5, Num 7, Num 8]"] spec [OF g, of "[Num 5]"] show ?thesis by auto
qed

end
