(* ===== verification/Cross_Timeframe.thy ===== *)
theory Cross_Timeframe
  imports Market_Data Strategy_IR
begin

text \<open>
  Prices of higher timeframes, the class \<open>_CrossTimeframeAggregator\<close> of \<open>libs/strategy_ir/compiler.py\<close>: the
  candles of a symbol are collected in buckets that are aligned to the epoch, and a name such as
  \<open>close_1d\<close> reads the bucket that was closed last. The four timeframes are the keys of the table
  \<open>_CROSS_TIMEFRAME_SECONDS\<close>. Candles carry times after the epoch.
\<close>

section \<open>Names\<close>

datatype timeframe = TF15m | TF1h | TF4h | TF1d

definition timeframe_text :: "timeframe \<Rightarrow> string" where
  "timeframe_text tf = (case tf of TF15m \<Rightarrow> ''15m'' | TF1h \<Rightarrow> ''1h'' | TF4h \<Rightarrow> ''4h'' | TF1d \<Rightarrow> ''1d'')"

definition timeframe_seconds :: "timeframe \<Rightarrow> int" where
  "timeframe_seconds tf = (case tf of TF15m \<Rightarrow> 900 | TF1h \<Rightarrow> 3600 | TF4h \<Rightarrow> 14400 | TF1d \<Rightarrow> 86400)"

definition cross_timeframe_bases :: "string list" where
  "cross_timeframe_bases = [''open'', ''high'', ''low'', ''close'', ''volume'']"

definition split_cross_timeframe_ref :: "string \<Rightarrow> (string \<times> timeframe) option" where
  "split_cross_timeframe_ref ident =
     (case filter (\<lambda>tf. ends_with ident (CHR ''_'' # timeframe_text tf) \<and>
                        chop ident (CHR ''_'' # timeframe_text tf) \<in> set cross_timeframe_bases) [TF15m, TF1h, TF4h, TF1d] of
        [] \<Rightarrow> None
      | tf # _ \<Rightarrow> Some (chop ident (CHR ''_'' # timeframe_text tf), tf))"

section \<open>Buckets\<close>

record bucket =
  bk_id :: int
  bk_open :: py_float
  bk_high :: py_float
  bk_low :: py_float
  bk_close :: py_float
  bk_volume :: py_float
  bk_end :: int
  bk_closed :: bool

record aggregator =
  ag_timeframes :: "timeframe list"
  ag_pending :: "(string \<times> timeframe, bucket) dict"
  ag_last_closed :: "(string \<times> timeframe, bucket) dict"

definition new_aggregator :: "timeframe list \<Rightarrow> aggregator" where
  "new_aggregator tfs = \<lparr>ag_timeframes = tfs, ag_pending = [], ag_last_closed = []\<rparr>"

definition candle_seconds :: "candle \<Rightarrow> int" where
  "candle_seconds c = trunc (fl (of_int (cn_timestamp c) / 1000000))"

definition bar_end :: "candle \<Rightarrow> int" where
  "bar_end c = candle_seconds c + (let s = interval_seconds (cn_interval c) in if 0 < s then s else 1)"

definition fresh_bucket :: "int \<Rightarrow> candle \<Rightarrow> bucket" where
  "fresh_bucket n c =
     (let i = candle_seconds c div n
      in \<lparr>bk_id = i, bk_open = read_price ''open'' c, bk_high = read_price ''high'' c, bk_low = read_price ''low'' c,
          bk_close = read_price ''close'' c, bk_volume = read_price ''volume'' c, bk_end = (i + 1) * n, bk_closed = False\<rparr>)"

definition roll_bucket :: "candle \<Rightarrow> bucket \<Rightarrow> bucket" where
  "roll_bucket c b =
     b\<lparr>bk_high := (if f_less (bk_high b) (read_price ''high'' c) \<or> isnan (bk_high b) then read_price ''high'' c else bk_high b),
       bk_low := (if f_less (read_price ''low'' c) (bk_low b) \<or> isnan (bk_low b) then read_price ''low'' c else bk_low b),
       bk_close := read_price ''close'' c, bk_volume := f_add (bk_volume b) (read_price ''volume'' c)\<rparr>"

definition snapshot :: "string \<times> timeframe \<Rightarrow> bucket \<Rightarrow> aggregator \<Rightarrow> aggregator" where
  "snapshot key p ag = ag\<lparr>ag_last_closed := dict_set key (p\<lparr>bk_closed := True\<rparr>) (ag_last_closed ag)\<rparr>"

text \<open>One round of the loop over the timeframes.\<close>

definition update_timeframe :: "string \<Rightarrow> candle \<Rightarrow> timeframe \<Rightarrow> aggregator \<Rightarrow> aggregator" where
  "update_timeframe symbol c tf ag =
     (let key = (symbol, tf);
          n = timeframe_seconds tf;
          (ag1, p) =
            (case dict_get (ag_pending ag) key of
               None \<Rightarrow> (ag, fresh_bucket n c)
             | Some p \<Rightarrow>
                 if bk_id p \<noteq> candle_seconds c div n
                 then (if \<not> bk_closed p \<and> 0 \<le> bk_id p then snapshot key p ag else ag, fresh_bucket n c)
                 else (ag, roll_bucket c p));
          done_now = (\<not> bk_closed p \<and> bk_end p \<le> bar_end c);
          p2 = (if done_now then p\<lparr>bk_closed := True\<rparr> else p);
          ag2 = (if done_now then snapshot key p2 ag1 else ag1)
      in ag2\<lparr>ag_pending := dict_set key p2 (ag_pending ag2)\<rparr>)"

definition update_aggregator :: "string \<Rightarrow> candle \<Rightarrow> aggregator \<Rightarrow> aggregator" where
  "update_aggregator symbol c ag = fold (update_timeframe symbol c) (ag_timeframes ag) ag"

definition bucket_field :: "string \<Rightarrow> bucket \<Rightarrow> py_float" where
  "bucket_field base b =
     (if base = ''open'' then bk_open b else if base = ''high'' then bk_high b else if base = ''low'' then bk_low b
      else if base = ''close'' then bk_close b else if base = ''volume'' then bk_volume b else NaN)"

definition get_last_closed :: "string \<Rightarrow> timeframe \<Rightarrow> string \<Rightarrow> aggregator \<Rightarrow> py_float" where
  "get_last_closed symbol tf base ag =
     (case dict_get (ag_last_closed ag) (symbol, tf) of None \<Rightarrow> NaN | Some b \<Rightarrow> bucket_field base b)"

section \<open>One symbol and one timeframe\<close>

text \<open>The entries of a key, and what a candle of the symbol does to them.\<close>

definition key_state :: "string \<times> timeframe \<Rightarrow> aggregator \<Rightarrow> bucket option \<times> bucket option" where
  "key_state key ag = (dict_get (ag_pending ag) key, dict_get (ag_last_closed ag) key)"

definition key_step :: "int \<Rightarrow> candle \<Rightarrow> bucket option \<times> bucket option \<Rightarrow> bucket option \<times> bucket option" where
  "key_step n c st =
     (let (p, closed1) =
            (case fst st of
               None \<Rightarrow> (fresh_bucket n c, snd st)
             | Some p \<Rightarrow>
                 if bk_id p \<noteq> candle_seconds c div n
                 then (fresh_bucket n c, if \<not> bk_closed p \<and> 0 \<le> bk_id p then Some (p\<lparr>bk_closed := True\<rparr>) else snd st)
                 else (roll_bucket c p, snd st))
      in if \<not> bk_closed p \<and> bk_end p \<le> bar_end c then (Some (p\<lparr>bk_closed := True\<rparr>), Some (p\<lparr>bk_closed := True\<rparr>))
         else (Some p, closed1))"

lemma update_timeframe_key:
  "key_state (s, tf) (update_timeframe s c tf ag) = key_step (timeframe_seconds tf) c (key_state (s, tf) ag)"
  by (cases "dict_get (ag_pending ag) (s, tf)")
    (simp_all add: key_state_def key_step_def update_timeframe_def snapshot_def Let_def split: prod.splits)

lemma update_timeframe_other:
  "key \<noteq> (s, tf) \<Longrightarrow> key_state key (update_timeframe s c tf ag) = key_state key ag"
  by (cases "dict_get (ag_pending ag) (s, tf)")
    (auto simp: key_state_def update_timeframe_def snapshot_def Let_def split: prod.splits)

lemma update_timeframe_timeframes [simp]: "ag_timeframes (update_timeframe s c tf ag) = ag_timeframes ag"
  by (cases "dict_get (ag_pending ag) (s, tf)")
    (simp_all add: update_timeframe_def snapshot_def Let_def split: prod.splits)

lemma fold_timeframes:
  "ag_timeframes (fold (update_timeframe s c) tfs ag) = ag_timeframes ag"
  "distinct tfs \<Longrightarrow> key_state (s', tf) (fold (update_timeframe s c) tfs ag) =
     (if s' = s \<and> tf \<in> set tfs then key_step (timeframe_seconds tf) c (key_state (s', tf) ag) else key_state (s', tf) ag)"
proof (induction tfs arbitrary: ag)
  case (Cons t tfs)
  { case 1 show ?case using Cons.IH(1) by simp }
  { case 2
    then have d: "distinct tfs" "t \<notin> set tfs" by auto
    show ?case
    proof (cases "(s', tf) = (s, t)")
      case True
      then show ?thesis using Cons.IH(2) [OF d(1), of "update_timeframe s c t ag"] d update_timeframe_key [of s t c ag] by auto
    next
      case False
      then show ?thesis using d update_timeframe_other [OF False, of c ag] by (auto simp: Cons.IH(2))
    qed }
qed simp_all

text \<open>The aggregator after a history of bars of several symbols.\<close>

definition observe :: "timeframe list \<Rightarrow> candle list \<Rightarrow> aggregator" where
  "observe tfs cs = fold (\<lambda>c. update_aggregator (cn_symbol c) c) cs (new_aggregator tfs)"

lemma observe_snoc: "observe tfs (cs @ [c]) = update_aggregator (cn_symbol c) c (observe tfs cs)"
  by (simp add: observe_def)

lemma observe_timeframes [simp]: "ag_timeframes (observe tfs cs) = tfs"
proof (induction cs rule: rev_induct)
  case Nil
  show ?case by (simp add: observe_def new_aggregator_def)
next
  case (snoc c cs)
  then show ?case by (simp add: observe_snoc update_aggregator_def fold_timeframes(1))
qed

lemma observe_key:
  assumes "distinct tfs" "tf \<in> set tfs"
  shows "key_state (s, tf) (observe tfs cs) =
    fold (key_step (timeframe_seconds tf)) (filter (\<lambda>c. cn_symbol c = s) cs) (None, None)"
proof (induction cs rule: rev_induct)
  case Nil
  show ?case by (simp add: observe_def new_aggregator_def key_state_def)
next
  case (snoc c cs)
  show ?case
    by (cases "cn_symbol c = s") (use snoc assms in \<open>simp_all add: observe_snoc update_aggregator_def fold_timeframes(2)\<close>)
qed

section \<open>The bucket that was closed last\<close>

text \<open>The bucket of a candle, and the bars of a bucket taken together: first open, highest high, lowest low, last
  close, sum of the volumes.\<close>

abbreviation bucket_of :: "int \<Rightarrow> candle \<Rightarrow> int" where
  "bucket_of n c \<equiv> candle_seconds c div n"

definition in_bucket :: "int \<Rightarrow> int \<Rightarrow> candle list \<Rightarrow> candle list" where
  "in_bucket n k cs = filter (\<lambda>c. bucket_of n c = k) cs"

definition aggregate :: "int \<Rightarrow> candle list \<Rightarrow> bucket" where
  "aggregate n cs = foldl (\<lambda>b c. roll_bucket c b) (fresh_bucket n (hd cs)) (tl cs)"

text \<open>Bars in the order of time that do not overlap and lie within one bucket each.\<close>

fun bars_ok :: "int \<Rightarrow> candle list \<Rightarrow> bool" where
  "bars_ok n [] \<longleftrightarrow> True"
| "bars_ok n [c] \<longleftrightarrow> 0 \<le> candle_seconds c \<and> bar_end c \<le> (bucket_of n c + 1) * n"
| "bars_ok n (c # d # cs) \<longleftrightarrow>
     0 \<le> candle_seconds c \<and> bar_end c \<le> (bucket_of n c + 1) * n \<and> bar_end c \<le> candle_seconds d \<and> bars_ok n (d # cs)"

lemma bars_ok_snoc:
  "bars_ok n (cs @ [c]) \<longleftrightarrow> bars_ok n cs \<and> 0 \<le> candle_seconds c \<and> bar_end c \<le> (bucket_of n c + 1) * n \<and>
     (cs = [] \<or> bar_end (last cs) \<le> candle_seconds c)"
  by (induction n cs rule: bars_ok.induct) auto

lemma bar_end_greater: "candle_seconds c < bar_end c"
  by (simp add: bar_end_def Let_def)

lemma bars_ok_buckets:
  assumes "bars_ok n cs" "0 < n" "c \<in> set cs"
  shows "bucket_of n c \<le> bucket_of n (last cs)"
  using assms
proof (induction cs rule: rev_induct)
  case (snoc d cs)
  show ?case
  proof (cases "c = d")
    case False
    then have c: "c \<in> set cs" "cs \<noteq> []" using snoc.prems by auto
    then have "bucket_of n c \<le> bucket_of n (last cs)" using snoc by (simp add: bars_ok_snoc)
    also have "candle_seconds (last cs) \<le> candle_seconds d"
      using snoc.prems c bar_end_greater [of "last cs"] by (auto simp: bars_ok_snoc)
    then have "bucket_of n (last cs) \<le> bucket_of n d" using snoc.prems by (intro zdiv_mono1) auto
    finally show ?thesis by simp
  qed simp
qed simp

text \<open>The buckets whose end has been reached by the bars seen so far.\<close>

definition closed_buckets :: "int \<Rightarrow> candle list \<Rightarrow> int set" where
  "closed_buckets n cs = {k \<in> bucket_of n ` set cs. (k + 1) * n \<le> bar_end (last cs)}"

definition key_ok :: "int \<Rightarrow> candle list \<Rightarrow> bucket option \<times> bucket option \<Rightarrow> bool" where
  "key_ok n cs st \<longleftrightarrow>
     (if cs = [] then st = (None, None)
      else
        fst st = Some ((aggregate n (in_bucket n (bucket_of n (last cs)) cs))
                         \<lparr>bk_closed := ((bucket_of n (last cs) + 1) * n \<le> bar_end (last cs))\<rparr>) \<and>
        snd st = (if closed_buckets n cs = {} then None
                  else Some ((aggregate n (in_bucket n (Max (closed_buckets n cs)) cs))\<lparr>bk_closed := True\<rparr>)))"

lemma aggregate_snoc: "cs \<noteq> [] \<Longrightarrow> aggregate n (cs @ [c]) = roll_bucket c (aggregate n cs)"
  by (cases cs) (simp_all add: aggregate_def)

lemma roll_fields [simp]:
  "bk_id (roll_bucket c b) = bk_id b" "bk_end (roll_bucket c b) = bk_end b" "bk_closed (roll_bucket c b) = bk_closed b"
  "roll_bucket c (b\<lparr>bk_closed := x\<rparr>) = (roll_bucket c b)\<lparr>bk_closed := x\<rparr>"
  by (simp_all add: roll_bucket_def)

lemma aggregate_fields:
  "cs \<noteq> [] \<Longrightarrow> bk_id (aggregate n cs) = bucket_of n (hd cs) \<and> bk_end (aggregate n cs) = (bucket_of n (hd cs) + 1) * n \<and>
     \<not> bk_closed (aggregate n cs)"
proof (induction cs rule: rev_induct)
  case (snoc c cs)
  then show ?case by (cases "cs = []") (simp_all add: aggregate_snoc, simp add: aggregate_def fresh_bucket_def Let_def)
qed simp

lemma in_bucket_hd: "in_bucket n k cs \<noteq> [] \<Longrightarrow> bucket_of n (hd (in_bucket n k cs)) = k"
  using hd_in_set [of "in_bucket n k cs"] by (simp add: in_bucket_def)

lemma in_bucket_snoc: "in_bucket n k (cs @ [c]) = in_bucket n k cs @ (if bucket_of n c = k then [c] else [])"
  by (simp add: in_bucket_def)

lemma bucket_below: "0 < n \<Longrightarrow> j < bucket_of n c \<Longrightarrow> (j + 1) * n \<le> candle_seconds c"
  by (smt (verit) mult_right_mono div_mult_mod_eq pos_mod_sign)

lemma bucket_above: "0 < (n::int) \<Longrightarrow> (k + 1) * n \<le> x \<Longrightarrow> k < x div n"
  using zdiv_mono1 [of "(k + 1) * n" x n] by simp

lemma closed_buckets_snoc:
  assumes "0 < n" "bars_ok n (cs @ [c])"
  shows "closed_buckets n (cs @ [c]) =
    (if (bucket_of n c + 1) * n \<le> bar_end c then bucket_of n ` set (cs @ [c])
     else {k \<in> bucket_of n ` set cs. k < bucket_of n c})"
proof -
  have le: "k \<le> bucket_of n c" if "k \<in> bucket_of n ` set (cs @ [c])" for k
    using that bars_ok_buckets [OF assms(2,1)] by auto
  have low: "(k + 1) * n \<le> bar_end c" if "k < bucket_of n c" for k
    using bucket_below [OF assms(1) that] bar_end_greater [of c] by simp
  show ?thesis
  proof (cases "(bucket_of n c + 1) * n \<le> bar_end c")
    case True
    then have "(k + 1) * n \<le> bar_end c" if "k \<in> bucket_of n ` set (cs @ [c])" for k
      using le [OF that] low [of k] by (cases "k = bucket_of n c") auto
    then show ?thesis using True by (auto simp: closed_buckets_def)
  next
    case False
    have "(k + 1) * n \<le> bar_end c \<longleftrightarrow> k < bucket_of n c" if "k \<in> bucket_of n ` set (cs @ [c])" for k
      using le [OF that] low [of k] False by (cases "k = bucket_of n c") auto
    then have "closed_buckets n (cs @ [c]) = {k \<in> bucket_of n ` set (cs @ [c]). k < bucket_of n c}"
      by (auto simp: closed_buckets_def)
    then show ?thesis using False by auto
  qed
qed

lemma closed_same_bucket:
  assumes "0 < n" "bars_ok n cs" "cs \<noteq> []" "\<not> (bucket_of n (last cs) + 1) * n \<le> bar_end (last cs)"
  shows "{k \<in> bucket_of n ` set cs. k < bucket_of n (last cs)} = closed_buckets n cs"
proof -
  have "cs = butlast cs @ [last cs]" using assms(3) by simp
  then have "closed_buckets n cs = {k \<in> bucket_of n ` set (butlast cs). k < bucket_of n (last cs)}"
    using closed_buckets_snoc [of n "butlast cs" "last cs"] assms by metis
  moreover have "set cs = insert (last cs) (set (butlast cs))"
    using arg_cong [OF \<open>cs = butlast cs @ [last cs]\<close>, of set] by simp
  ultimately show ?thesis by auto
qed

lemma Max_buckets:
  assumes "0 < n" "bars_ok n cs" "cs \<noteq> []"
  shows "Max (bucket_of n ` set cs) = bucket_of n (last cs)"
  using bars_ok_buckets [OF assms(2,1)] assms(3) by (intro Max_eqI) auto

lemma key_step_ok:
  assumes n: "0 < n" and ok: "bars_ok n (cs @ [c])" and st: "key_ok n cs st"
  shows "key_ok n (cs @ [c]) (key_step n c st)"
proof -
  let ?k = "bucket_of n c"
  let ?m = "bucket_of n (last cs)"
  let ?complete = "(?k + 1) * n \<le> bar_end c"
  have okcs: "bars_ok n cs" using ok by (simp add: bars_ok_snoc)
  have fresh: "bk_id (fresh_bucket n c) = ?k" "bk_end (fresh_bucket n c) = (?k + 1) * n" "\<not> bk_closed (fresh_bucket n c)"
    by (simp_all add: fresh_bucket_def Let_def)
  have mx: "Max (bucket_of n ` set (cs @ [c])) = ?k" using Max_buckets [OF n ok] by simp
  note cb = closed_buckets_snoc [OF n ok]
  consider "cs = []" | "cs \<noteq> []" "?m < ?k" | "cs \<noteq> []" "?m = ?k"
    using bars_ok_buckets [OF ok n, of "last cs"] by fastforce
  then show ?thesis
  proof cases
    case 1
    then have "st = (None, None)" using st by (simp add: key_ok_def)
    then show ?thesis using 1 fresh cb by (auto simp: key_ok_def key_step_def in_bucket_def aggregate_def)
  next
    case 2
    let ?b = "aggregate n (in_bucket n ?m cs)"
    have ne: "in_bucket n ?m cs \<noteq> []" "in_bucket n ?k cs = []"
      using 2 bars_ok_buckets [OF okcs n] by (fastforce simp: in_bucket_def filter_empty_conv)+
    have m0: "0 \<le> ?m" using okcs 2(1) n by (cases cs rule: rev_cases) (auto simp: bars_ok_snoc pos_imp_zdiv_nonneg_iff)
    have b: "bk_id ?b = ?m" using aggregate_fields [OF ne(1)] in_bucket_hd [OF ne(1)] by simp
    have "Max (bucket_of n ` set cs) = ?m" by (rule Max_buckets [OF n okcs 2(1)])
    moreover have "{j \<in> bucket_of n ` set cs. j < ?k} = bucket_of n ` set cs"
      using bars_ok_buckets [OF okcs n] 2(2) by fastforce
    moreover have "closed_buckets n cs = bucket_of n ` set cs" if "(?m + 1) * n \<le> bar_end (last cs)"
      using closed_buckets_snoc [of n "butlast cs" "last cs"] n okcs 2(1) that by simp
    ultimately have "snd (key_step n c st) = (if ?complete then Some ((fresh_bucket n c)\<lparr>bk_closed := True\<rparr>)
        else Some (?b\<lparr>bk_closed := True\<rparr>))"
      "fst (key_step n c st) = Some ((fresh_bucket n c)\<lparr>bk_closed := ?complete\<rparr>)"
      using st 2 b m0 fresh by (auto simp: key_ok_def key_step_def)
    then show ?thesis
      using cb mx 2 ne \<open>Max (bucket_of n ` set cs) = ?m\<close> \<open>{j \<in> bucket_of n ` set cs. j < ?k} = bucket_of n ` set cs\<close>
      by (auto simp: key_ok_def in_bucket_snoc aggregate_def)
  next
    case 3
    let ?b = "aggregate n (in_bucket n ?m cs)"
    have ne: "in_bucket n ?m cs \<noteq> []" using 3(1) by (auto simp: in_bucket_def filter_empty_conv)
    have b: "bk_id ?b = ?m" "bk_end ?b = (?m + 1) * n" "\<not> bk_closed ?b"
      using aggregate_fields [OF ne] in_bucket_hd [OF ne] by auto
    have nc: "\<not> (?m + 1) * n \<le> bar_end (last cs)"
    proof
      assume "(?m + 1) * n \<le> bar_end (last cs)"
      then have "(?m + 1) * n \<le> candle_seconds c" using ok 3(1) by (auto simp: bars_ok_snoc)
      from bucket_above [OF n this] 3(2) show False by simp
    qed
    then have s: "fst st = Some (?b\<lparr>bk_closed := False\<rparr>)" using st 3(1) by (simp add: key_ok_def)
    have same: "{j \<in> bucket_of n ` set cs. j < ?k} = closed_buckets n cs"
      using closed_same_bucket [OF n okcs 3(1) nc] 3(2) by simp
    have roll: "aggregate n (in_bucket n ?k (cs @ [c])) = roll_bucket c ?b"
      using 3(2) ne by (simp add: in_bucket_snoc aggregate_snoc)
    have other: "in_bucket n (Max (closed_buckets n cs)) (cs @ [c]) = in_bucket n (Max (closed_buckets n cs)) cs"
      if "closed_buckets n cs \<noteq> {}"
    proof -
      have "finite (closed_buckets n cs)" by (simp add: closed_buckets_def)
      from Max_in [OF this that] same have "Max (closed_buckets n cs) < ?k" by blast
      then show ?thesis by (simp add: in_bucket_snoc)
    qed
    have step: "key_step n c st = (if ?complete then (Some ((roll_bucket c ?b)\<lparr>bk_closed := True\<rparr>), Some ((roll_bucket c ?b)\<lparr>bk_closed := True\<rparr>))
        else (Some ((roll_bucket c ?b)\<lparr>bk_closed := False\<rparr>), snd st))"
      using s b 3(2) by (simp add: key_step_def)
    have old: "snd st = (if closed_buckets n cs = {} then None
        else Some ((aggregate n (in_bucket n (Max (closed_buckets n cs)) cs))\<lparr>bk_closed := True\<rparr>))"
      using st 3(1) by (simp add: key_ok_def)
    show ?thesis
    proof (cases ?complete)
      case True
      then have "closed_buckets n (cs @ [c]) = bucket_of n ` set (cs @ [c])" using cb by simp
      then show ?thesis using True step roll mx by (simp add: key_ok_def del: set_append)
    next
      case False
      then have "closed_buckets n (cs @ [c]) = closed_buckets n cs" using cb same by simp
      then show ?thesis using False step roll old other by (simp add: key_ok_def)
    qed
  qed
qed

lemma keys_ok:
  assumes "0 < n" "bars_ok n cs"
  shows "key_ok n cs (fold (key_step n) cs (None, None))"
  using assms(2)
proof (induction cs rule: rev_induct)
  case (snoc c cs)
  then have "key_ok n cs (fold (key_step n) cs (None, None))" by (simp add: bars_ok_snoc)
  from key_step_ok [OF assms(1) snoc.prems this] show ?case by simp
qed (simp add: key_ok_def)

lemma timeframe_seconds_pos [simp]: "0 < timeframe_seconds tf"
  by (simp add: timeframe_seconds_def split: timeframe.splits)


definition demo_bar :: "string \<Rightarrow> int \<Rightarrow> rat \<Rightarrow> candle" where
  "demo_bar s t p = \<lparr>cn_symbol = s, cn_interval = M15, cn_open = p, cn_high = p, cn_low = p, cn_close = p, cn_volume = 1,
     cn_timestamp = t * 1000000, cn_spread = None\<rparr>"

lemma demo_bar_fields [simp]:
  "cn_symbol (demo_bar s t p) = s" "cn_timestamp (demo_bar s t p) = t * 1000000" "cn_close (demo_bar s t p) = p"
  "cn_interval (demo_bar s t p) = M15" "cn_open (demo_bar s t p) = p" "cn_high (demo_bar s t p) = p" "cn_low (demo_bar s t p) = p"
  by (simp_all add: demo_bar_def)

lemma demo_bar_seconds: "0 \<le> t \<Longrightarrow> t \<le> 2 ^ 53 \<Longrightarrow> candle_seconds (demo_bar s t p) = t"
  by (simp add: candle_seconds_def fl_of_int trunc_def)


end
