(* ===== verification/Expressions.thy ===== *)
theory Expressions
  imports Lookback Cross_Timeframe
begin

text \<open>
  Arithmetic in strategies. \<open>libs/strategy_ir/formula_evaluator.py\<close> evaluates the formulas of derived fields;
  \<open>_compile_ast_node\<close> and \<open>_compile_identifier\<close> of \<open>libs/strategy_ir/compiler.py\<close> turn the expressions of
  conditions into closures, which are values of the datatype \<open>value_fn\<close> here, run by \<open>run_value\<close>. The parser
  of Python expressions (\<open>ast.parse\<close>) is the argument \<open>parse\<close>; its trees are values of \<open>expr\<close>, in which the node
  classes that no code looks into are \<open>OtherExpr\<close>. The functions of the C library (\<open>sqrt\<close>, \<open>log\<close>, \<open>exp\<close>, \<open>pow\<close>)
  are the argument \<open>libm\<close>.
\<close>

section \<open>Expressions\<close>

datatype py_const = CInt int | CFloat py_float | CBool bool | COther string

datatype expr =
    Constant py_const
  | Name string
  | UnaryOp string expr
  | BinOp string expr expr
  | Call expr "expr list" bool
  | OtherExpr string "expr list"

type_synonym parser = "string \<Rightarrow> (exn, expr) result"

definition value_error :: exn where
  "value_error = PyError ''ValueError''"

text \<open>A parse in which \<open>SyntaxError\<close> becomes \<open>ValueError\<close>.\<close>

definition parse_or_value_error :: "parser \<Rightarrow> string \<Rightarrow> (exn, expr) result" where
  "parse_or_value_error parse source =
     (case parse source of Inl e \<Rightarrow> Inl (if e = PyError ''SyntaxError'' then value_error else e) | Inr t \<Rightarrow> Inr t)"

section \<open>Formulas\<close>

text \<open>Every node of the tree is on the list of allowed nodes, and every constant is an integer or a float.\<close>

fun formula_ok :: "expr \<Rightarrow> bool" where
  "formula_ok (Constant (CInt _)) \<longleftrightarrow> True"
| "formula_ok (Constant (CFloat _)) \<longleftrightarrow> True"
| "formula_ok (Constant _) \<longleftrightarrow> False"
| "formula_ok (Name _) \<longleftrightarrow> True"
| "formula_ok (UnaryOp op e) \<longleftrightarrow> op \<in> {''UAdd'', ''USub''} \<and> formula_ok e"
| "formula_ok (BinOp op l r) \<longleftrightarrow> op \<in> {''Add'', ''Sub'', ''Mult'', ''Div''} \<and> formula_ok l \<and> formula_ok r"
| "formula_ok (Call _ _ _) \<longleftrightarrow> False"
| "formula_ok (OtherExpr _ _) \<longleftrightarrow> False"

definition compile_formula :: "parser \<Rightarrow> string \<Rightarrow> (exn, expr) result" where
  "compile_formula parse source =
     bind_r (parse_or_value_error parse source) (\<lambda>t. if formula_ok t then Inr t else Inl value_error)"

definition const_value :: "py_const \<Rightarrow> (exn, py_float) result" where
  "const_value c = (case c of CInt k \<Rightarrow> f_of_int k | CFloat x \<Rightarrow> Inr x | _ \<Rightarrow> Inl value_error)"

definition unary_value :: "string \<Rightarrow> py_float \<Rightarrow> (exn, py_float) result" where
  "unary_value op x =
     (if op = ''UAdd'' then Inr x else if op = ''USub'' then Inr (f_neg x) else Inl (PyError ''AssertionError''))"

definition binary_value :: "string \<Rightarrow> py_float \<Rightarrow> py_float \<Rightarrow> (exn, py_float) result" where
  "binary_value op x y =
     (if op = ''Add'' then Inr (f_add x y)
      else if op = ''Sub'' then Inr (f_sub x y)
      else if op = ''Mult'' then Inr (f_mul x y)
      else if op = ''Div'' then (if f_eq y (Num 0) then Inr NaN else f_div x y)
      else Inl (PyError ''AssertionError''))"

fun eval_node :: "expr \<Rightarrow> (string, py_float) dict \<Rightarrow> (exn, py_float) result" where
  "eval_node (Constant c) values = const_value c"
| "eval_node (Name x) values = (case dict_get values x of None \<Rightarrow> Inl value_error | Some v \<Rightarrow> Inr v)"
| "eval_node (UnaryOp op e) values = bind_r (eval_node e values) (unary_value op)"
| "eval_node (BinOp op l r) values =
     bind_r (eval_node l values) (\<lambda>x. bind_r (eval_node r values) (\<lambda>y. binary_value op x y))"
| "eval_node (Call _ _ _) values = Inl (PyError ''AssertionError'')"
| "eval_node (OtherExpr _ _) values = Inl (PyError ''AssertionError'')"

section \<open>Compiled expressions\<close>

datatype value_fn =
    ConstFn py_float
  | PriceFn string
  | ValueFn string
  | CrossFn string timeframe
  | PrevFn string nat
  | UaddFn value_fn
  | UsubFn value_fn
  | AddFn value_fn value_fn
  | SubFn value_fn value_fn
  | MultFn value_fn value_fn
  | DivFn value_fn value_fn
  | CallFn string "value_fn list"
  | SpreadInPips value_fn

text \<open>What the identifiers of one compilation may be: indicators, derived fields, and the capacities of the buffers.\<close>

record scope =
  sc_indicator_ids :: "string list"
  sc_derived_ids :: "string list"
  sc_buffers :: "(string, lookback_buffer) dict"

definition compile_identifier :: "scope \<Rightarrow> string \<Rightarrow> (exn, value_fn) result" where
  "compile_identifier sc ident =
     (if ident \<in> set price_fields then Inr (PriceFn ident)
      else if ident \<in> set (sc_indicator_ids sc) then Inr (ValueFn ident)
      else if ident \<in> set (sc_derived_ids sc) then Inr (ValueFn ident)
      else
        case split_cross_timeframe_ref ident of
          Some (base, tf) \<Rightarrow> Inr (CrossFn base tf)
        | None \<Rightarrow>
            (case split_prev_suffix ident of
               None \<Rightarrow> Inl (PyError ''IRReferenceError'')
             | Some (base, lag) \<Rightarrow>
                 (case dict_get (sc_buffers sc) base of
                    None \<Rightarrow> Inl (PyError ''IRReferenceError'')
                  | Some b \<Rightarrow> if lb_capacity b < lag then Inl (PyError ''IRReferenceError'') else Inr (PrevFn base lag))))"

definition function_names :: "string list" where
  "function_names = [''abs'', ''min'', ''max'', ''sqrt'', ''log'', ''exp'', ''pow'', ''sign'', ''floor'', ''ceil'', ''round'']"

fun compile_ast_node :: "scope \<Rightarrow> expr \<Rightarrow> (exn, value_fn) result"
  and compile_args :: "scope \<Rightarrow> expr list \<Rightarrow> (exn, value_fn list) result" where
  "compile_ast_node sc (Constant c) = bind_r (const_value c) (\<lambda>x. Inr (ConstFn x))"
| "compile_ast_node sc (Name x) = compile_identifier sc x"
| "compile_ast_node sc (UnaryOp op e) =
     bind_r (compile_ast_node sc e) (\<lambda>f.
       if op = ''UAdd'' then Inr (UaddFn f) else if op = ''USub'' then Inr (UsubFn f) else Inl value_error)"
| "compile_ast_node sc (BinOp op l r) =
     bind_r (compile_ast_node sc l) (\<lambda>f. bind_r (compile_ast_node sc r) (\<lambda>g.
       if op = ''Add'' then Inr (AddFn f g) else if op = ''Sub'' then Inr (SubFn f g)
       else if op = ''Mult'' then Inr (MultFn f g) else if op = ''Div'' then Inr (DivFn f g) else Inl value_error))"
| "compile_ast_node sc (Call func args keywords) =
     (case func of
        Name fn \<Rightarrow>
          if fn \<notin> set function_names then Inl value_error
          else if keywords then Inl value_error
          else bind_r (compile_args sc args) (\<lambda>fs. Inr (CallFn fn fs))
      | _ \<Rightarrow> Inl value_error)"
| "compile_ast_node sc (OtherExpr _ _) = Inl value_error"
| "compile_args sc [] = Inr []"
| "compile_args sc (e # es) = bind_r (compile_ast_node sc e) (\<lambda>f. bind_r (compile_args sc es) (\<lambda>fs. Inr (f # fs)))"

definition compile_value_expr :: "parser \<Rightarrow> scope \<Rightarrow> string \<Rightarrow> (exn, value_fn) result" where
  "compile_value_expr parse sc expression = bind_r (parse_or_value_error parse expression) (compile_ast_node sc)"

section \<open>Running a closure\<close>

record open_trade =
  ot_direction :: int
  ot_entry_price :: py_float
  ot_entry_atr :: py_float
  ot_stop_distance :: py_float
  ot_entry_inner_band_upper :: py_float
  ot_entry_inner_band_lower :: py_float
  ot_entry_bar_index :: nat

record basket_state =
  bs_open_loss :: py_float
  bs_equity :: py_float
  bs_latest_atr :: py_float

record eval_ctx =
  ex_candle :: candle
  ex_values :: "(string, py_float) dict"
  ex_position :: "position_snapshot option"
  ex_buffers :: "(string, lookback_buffer) dict"
  ex_open_trade :: "open_trade option"
  ex_bar_counter :: nat
  ex_cross_tf :: aggregator
  ex_basket_state :: basket_state

definition value_of :: "(string, py_float) dict \<Rightarrow> string \<Rightarrow> py_float" where
  "value_of values x = (case dict_get values x of None \<Rightarrow> NaN | Some v \<Rightarrow> v)"

definition pip_size_for_symbol :: "string \<Rightarrow> py_float" where
  "pip_size_for_symbol symbol = round64 (if ends_with symbol ''JPY'' then 1 / 100 else 1 / 10000)"

text \<open>The functions of the table. Arguments in the wrong number raise \<open>TypeError\<close>, as do \<open>min\<close> and \<open>max\<close> of a
  single float and \<open>round\<close> with a float as the number of digits.\<close>

definition math_call :: "(string \<Rightarrow> py_float list \<Rightarrow> (exn, py_float) result) \<Rightarrow> string \<Rightarrow> py_float list \<Rightarrow> (exn, py_float) result" where
  "math_call libm fn args =
     (let type_error = Inl (PyError ''TypeError'');
          integral = (\<lambda>r. case args of [x] \<Rightarrow> bind_r (f_to_int r x) f_of_int | _ \<Rightarrow> type_error)
      in if fn = ''abs'' then (case args of [x] \<Rightarrow> Inr (case x of Inf _ \<Rightarrow> Inf False | Num q \<Rightarrow> Num \<bar>q\<bar> | NaN \<Rightarrow> NaN) | _ \<Rightarrow> type_error)
         else if fn = ''min'' then
           (case args of x # y # ys \<Rightarrow> Inr (foldl (\<lambda>m z. if f_less z m then z else m) x (y # ys)) | _ \<Rightarrow> type_error)
         else if fn = ''max'' then
           (case args of x # y # ys \<Rightarrow> Inr (foldl (\<lambda>m z. if f_less m z then z else m) x (y # ys)) | _ \<Rightarrow> type_error)
         else if fn = ''sign'' then
           (case args of [x] \<Rightarrow> Inr (if f_eq x (Num 0) then Num 0 else if f_less (Num 0) x then Num 1 else Num (- 1)) | _ \<Rightarrow> type_error)
         else if fn = ''floor'' then integral floor
         else if fn = ''ceil'' then integral ceiling
         else if fn = ''round'' then integral round_half_even
         else libm fn args)"

fun run_value :: "(string \<Rightarrow> py_float list \<Rightarrow> (exn, py_float) result) \<Rightarrow> value_fn \<Rightarrow> eval_ctx \<Rightarrow> (exn, py_float) result"
  and run_args :: "(string \<Rightarrow> py_float list \<Rightarrow> (exn, py_float) result) \<Rightarrow> value_fn list \<Rightarrow> eval_ctx \<Rightarrow> (exn, py_float list) result" where
  "run_value libm (ConstFn x) ctx = Inr x"
| "run_value libm (PriceFn f) ctx = Inr (read_price f (ex_candle ctx))"
| "run_value libm (ValueFn x) ctx = Inr (value_of (ex_values ctx) x)"
| "run_value libm (CrossFn base tf) ctx = Inr (get_last_closed (cn_symbol (ex_candle ctx)) tf base (ex_cross_tf ctx))"
| "run_value libm (PrevFn base n) ctx =
     (case dict_get (ex_buffers ctx) base of None \<Rightarrow> Inl (PyError ''KeyError'') | Some b \<Rightarrow> lb_get (int n) b)"
| "run_value libm (UaddFn f) ctx = run_value libm f ctx"
| "run_value libm (UsubFn f) ctx = bind_r (run_value libm f ctx) (\<lambda>x. Inr (f_neg x))"
| "run_value libm (AddFn f g) ctx = bind_r (run_value libm f ctx) (\<lambda>x. bind_r (run_value libm g ctx) (\<lambda>y. Inr (f_add x y)))"
| "run_value libm (SubFn f g) ctx = bind_r (run_value libm f ctx) (\<lambda>x. bind_r (run_value libm g ctx) (\<lambda>y. Inr (f_sub x y)))"
| "run_value libm (MultFn f g) ctx = bind_r (run_value libm f ctx) (\<lambda>x. bind_r (run_value libm g ctx) (\<lambda>y. Inr (f_mul x y)))"
| "run_value libm (DivFn f g) ctx =
     bind_r (run_value libm g ctx) (\<lambda>y.
       if f_eq y (Num 0) then Inr NaN else bind_r (run_value libm f ctx) (\<lambda>x. f_div x y))"
| "run_value libm (CallFn fn fs) ctx = bind_r (run_args libm fs ctx) (math_call libm fn)"
| "run_value libm (SpreadInPips f) ctx =
     bind_r (run_value libm f ctx) (\<lambda>x.
       if isnan x then Inr NaN
       else let pip = pip_size_for_symbol (cn_symbol (ex_candle ctx)) in if f_le pip (Num 0) then Inr NaN else f_div x pip)"
| "run_args libm [] ctx = Inr []"
| "run_args libm (f # fs) ctx = bind_r (run_value libm f ctx) (\<lambda>x. bind_r (run_args libm fs ctx) (\<lambda>xs. Inr (x # xs)))"

section \<open>Accepted formulas\<close>

fun names_of :: "expr \<Rightarrow> string set" where
  "names_of (Constant _) = {}"
| "names_of (Name x) = {x}"
| "names_of (UnaryOp _ e) = names_of e"
| "names_of (BinOp _ l r) = names_of l \<union> names_of r"
| "names_of (Call _ _ _) = {}"
| "names_of (OtherExpr _ _) = {}"

text \<open>All integer constants of an expression fit into a float.\<close>

fun constants_fit :: "expr \<Rightarrow> bool" where
  "constants_fit (Constant (CInt k)) \<longleftrightarrow> (\<exists>x. f_of_int k = Inr x)"
| "constants_fit (Constant _) \<longleftrightarrow> True"
| "constants_fit (Name _) \<longleftrightarrow> True"
| "constants_fit (UnaryOp _ e) \<longleftrightarrow> constants_fit e"
| "constants_fit (BinOp _ l r) \<longleftrightarrow> constants_fit l \<and> constants_fit r"
| "constants_fit (Call _ _ _) \<longleftrightarrow> True"
| "constants_fit (OtherExpr _ _) \<longleftrightarrow> True"

lemma binary_value_total: "op \<in> {''Add'', ''Sub'', ''Mult'', ''Div''} \<Longrightarrow> \<exists>z. binary_value op x y = Inr z"
  using f_div_nonzero [of y x] by (auto simp: binary_value_def)

lemma unary_value_total: "op \<in> {''UAdd'', ''USub''} \<Longrightarrow> \<exists>z. unary_value op x = Inr z"
  by (auto simp: unary_value_def)

lemma operations_no_error:
  "op \<in> {''UAdd'', ''USub''} \<Longrightarrow> unary_value op x \<noteq> Inl e"
  "op \<in> {''Add'', ''Sub'', ''Mult'', ''Div''} \<Longrightarrow> binary_value op x y \<noteq> Inl e"
  using unary_value_total [of op x] binary_value_total [of op x y] by auto

lemma f_of_int_error: "f_of_int k = Inl e \<Longrightarrow> e = PyError ''OverflowError''"
  by (auto simp: f_of_int_def split: py_float.splits)

lemma eval_node_total:
  "formula_ok t \<Longrightarrow> constants_fit t \<Longrightarrow> \<forall>x\<in>names_of t. dict_get values x \<noteq> None \<Longrightarrow> \<exists>v. eval_node t values = Inr v"
proof (induction t rule: formula_ok.induct)
  case (5 op e)
  then obtain v where "eval_node e values = Inr v" by auto
  then show ?case using unary_value_total [of op v] 5 by simp
next
  case (6 op l r)
  then obtain v w where "eval_node l values = Inr v" "eval_node r values = Inr w" by (auto simp: ball_Un)
  then show ?case using binary_value_total [of op v w] 6 by simp
qed (auto simp: const_value_def)

lemma eval_node_error:
  "formula_ok t \<Longrightarrow> eval_node t values = Inl e \<Longrightarrow>
     e = value_error \<and> (\<exists>x\<in>names_of t. dict_get values x = None) \<or> e = PyError ''OverflowError'' \<and> \<not> constants_fit t"
proof (induction t arbitrary: e rule: formula_ok.induct)
  case (5 op e')
  then show ?case using operations_no_error(1) [of op] by (cases "eval_node e' values") simp_all
next
  case (6 op l r)
  show ?case
  proof (cases "eval_node l values")
    case (Inl e')
    then show ?thesis using 6 by auto
  next
    case (Inr v)
    then show ?thesis using 6 operations_no_error(2) [of op v] by (cases "eval_node r values") auto
  qed
qed (auto simp: const_value_def dest: f_of_int_error split: option.splits)

text \<open>
  C37. What the formula compiler accepts cannot go wrong: a formula that passed the list of allowed nodes
  evaluates to a float on every dictionary that has its names, division by zero included. The only
  exceptions are \<open>ValueError\<close> for a name that the dictionary lacks and \<open>OverflowError\<close> for an integer constant beyond the
  range of floats; the \<open>AssertionError\<close> branches of the evaluator cannot be reached.
\<close>

theorem accepted_formula_never_stuck:
  assumes "compile_formula parse source = Inr t"
  shows "case eval_node t values of
      Inr v \<Rightarrow> True
    | Inl e \<Rightarrow> e = value_error \<and> \<not> names_of t \<subseteq> dom (dict_get values) \<or> e = PyError ''OverflowError'' \<and> \<not> constants_fit t"
proof -
  have "formula_ok t" using assms by (auto simp: compile_formula_def bind_r_Inr_iff split: if_splits)
  then show ?thesis using eval_node_error [of t "values"] by (cases "eval_node t values") (auto simp: dom_def)
qed

definition demo_parse :: parser where
  "demo_parse s = (if s = ''a / b'' then Inr (BinOp ''Div'' (Name ''a'') (Name ''b''))
     else if s = ''c'' then Inr (Name ''c'') else if s = ''c_prev_2'' then Inr (Name ''c_prev_2'')
     else if s = ''close'' then Inr (Name ''close'') else if s = ''close_prev_1'' then Inr (Name ''close_prev_1'')
     else Inl (PyError ''SyntaxError''))"

theorem accepted_formula_never_stuck_witness:
  "\<exists>t v. compile_formula demo_parse ''a / b'' = Inr t \<and> eval_node t [(''a'', Num 1), (''b'', Num 0)] = Inr v"
proof -
  define t where "t = BinOp ''Div'' (Name ''a'') (Name ''b'')"
  have c: "compile_formula demo_parse ''a / b'' = Inr t"
    by (simp add: compile_formula_def parse_or_value_error_def demo_parse_def t_def)
  have "names_of t \<subseteq> dom (dict_get [(''a'', Num 1), (''b'', Num 0)])" "constants_fit t" by (simp_all add: t_def)
  with accepted_formula_never_stuck [OF c, of "[(''a'', Num 1), (''b'', Num 0)]"] c show ?thesis
    by (cases "eval_node t [(''a'', Num 1), (''b'', Num 0)]") auto
qed

section \<open>Formulas and conditions agree\<close>

lemma compile_constants_fit: "formula_ok t \<Longrightarrow> compile_ast_node sc t = Inr f \<Longrightarrow> constants_fit t"
  by (induction t arbitrary: f rule: formula_ok.induct) (auto simp: bind_r_Inr_iff const_value_def)

text \<open>
  The two evaluators of arithmetic agree: an expression that both accept has the same value as a formula of
  a derived field and inside a condition, for every dictionary that gives each name the value that the
  condition reads for it. The closures of the compiler therefore compute what the reference evaluation of the
  syntax tree computes, although they divide in a different order.
\<close>

theorem formula_and_condition_agree:
  assumes "formula_ok t" "compile_ast_node sc t = Inr f"
    "\<forall>x\<in>names_of t. \<forall>g. compile_identifier sc x = Inr g \<longrightarrow> (\<exists>v. run_value libm g ctx = Inr v \<and> dict_get values x = Some v)"
  shows "\<exists>v. eval_node t values = Inr v \<and> run_value libm f ctx = Inr v"
  using assms
proof (induction t arbitrary: f rule: formula_ok.induct)
  case (5 op e)
  then obtain g where g: "compile_ast_node sc e = Inr g" "f = (if op = ''UAdd'' then UaddFn g else UsubFn g)"
    by (auto simp: bind_r_Inr_iff split: if_splits)
  then obtain v where "eval_node e values = Inr v" "run_value libm g ctx = Inr v" using 5 by auto
  then show ?case using g 5 by (auto simp: unary_value_def)
next
  case (6 op l r)
  then obtain g h where gh: "compile_ast_node sc l = Inr g" "compile_ast_node sc r = Inr h"
    "f = (if op = ''Add'' then AddFn g h else if op = ''Sub'' then SubFn g h else if op = ''Mult'' then MultFn g h else DivFn g h)"
    by (auto simp: bind_r_Inr_iff split: if_splits)
  obtain x where x: "eval_node l values = Inr x" "run_value libm g ctx = Inr x" using 6 gh by auto
  obtain y where y: "eval_node r values = Inr y" "run_value libm h ctx = Inr y" using 6 gh by auto
  show ?case using gh x y 6 f_div_nonzero [of y x] by (auto simp: binary_value_def)
qed (auto simp: bind_r_Inr_iff)

definition demo_eval :: eval_ctx where
  "demo_eval = \<lparr>ex_candle = demo_bar ''EURUSD'' 1800 3, ex_values = [(''b'', Num 2)], ex_position = None, ex_buffers = [],
     ex_open_trade = None, ex_bar_counter = 0, ex_cross_tf = new_aggregator [],
     ex_basket_state = \<lparr>bs_open_loss = Num 0, bs_equity = NaN, bs_latest_atr = NaN\<rparr>\<rparr>"

definition no_libm :: "string \<Rightarrow> py_float list \<Rightarrow> (exn, py_float) result" where
  "no_libm fn args = Inl value_error"

theorem formula_and_condition_agree_witness:
  "\<exists>v. eval_node (BinOp ''Div'' (Name ''close'') (Name ''b'')) [(''close'', f_of_decimal 3), (''b'', Num 2)] = Inr v \<and>
     run_value no_libm (DivFn (PriceFn ''close'') (ValueFn ''b'')) demo_eval = Inr v"
proof -
  let ?t = "BinOp ''Div'' (Name ''close'') (Name ''b'')"
  let ?sc = "\<lparr>sc_indicator_ids = [''b''], sc_derived_ids = [], sc_buffers = []\<rparr>"
  have c: "compile_ast_node ?sc ?t = Inr (DivFn (PriceFn ''close'') (ValueFn ''b''))"
    by (simp add: compile_identifier_def price_fields_def)
  have n: "\<forall>x\<in>names_of ?t. \<forall>g. compile_identifier ?sc x = Inr g \<longrightarrow>
      (\<exists>v. run_value no_libm g demo_eval = Inr v \<and> dict_get [(''close'', f_of_decimal 3), (''b'', Num 2)] x = Some v)"
    by (simp add: compile_identifier_def price_fields_def demo_eval_def read_price_def value_of_def)
  show ?thesis by (rule formula_and_condition_agree [OF _ c n]) simp
qed

end
