(* ===== verification/Topological_Sort.thy ===== *)
theory Topological_Sort
  imports Contracts "HOL-Library.List_Lexorder" "HOL-Library.Char_ord"
begin

text \<open>
  The topological sort of \<open>libs/strategy_ir/reference_resolver.py\<close> (\<open>_topological_sort\<close>), for graphs given as
  a table from nodes to the sets of their successors. Sets are lists without repetition. The loop
  terminates on every input: the measure is the number of ready nodes plus the number of nodes with a
  positive in-degree.
\<close>

type_synonym 'k graph = "('k, 'k list) dict"

definition edge_set :: "'k graph \<Rightarrow> ('k \<times> 'k) set" where
  "edge_set g = {(a, b). \<exists>ts. dict_get g a = Some ts \<and> b \<in> set ts}"

abbreviation nodes :: "'k graph \<Rightarrow> 'k set" where
  "nodes g \<equiv> fst ` set g"

definition graph_ok :: "'k graph \<Rightarrow> bool" where
  "graph_ok g \<longleftrightarrow> dict_ok g \<and> (\<forall>a ts. dict_get g a = Some ts \<longrightarrow> distinct ts \<and> set ts \<subseteq> nodes g)"

text \<open>\<open>d[k] += n\<close>, which raises \<open>KeyError\<close> for an unknown key.\<close>

definition bump :: "int \<Rightarrow> 'k \<Rightarrow> ('k, int) dict \<Rightarrow> (exn, ('k, int) dict) result" where
  "bump n k d = (case dict_get d k of None \<Rightarrow> Inl (PyError ''KeyError'') | Some v \<Rightarrow> Inr (dict_set k (v + n) d))"

fun in_degrees :: "'k list \<Rightarrow> ('k, int) dict \<Rightarrow> (exn, ('k, int) dict) result" where
  "in_degrees [] d = Inr d"
| "in_degrees (t # ts) d = bind_r (bump 1 t d) (in_degrees ts)"

text \<open>The successors of a node that was taken out lose one incoming edge each.\<close>

fun release :: "'k list \<Rightarrow> ('k, int) dict \<Rightarrow> 'k list \<Rightarrow> (exn, ('k, int) dict \<times> 'k list) result" where
  "release [] d ready = Inr (d, ready)"
| "release (t # ts) d ready =
     bind_r (bump (- 1) t d) (\<lambda>d'. release ts d' (if dict_get d' t = Some 0 then ready @ [t] else ready))"

definition positives :: "('k, int) dict \<Rightarrow> nat" where
  "positives d = length (filter (\<lambda>kv. 0 < snd kv) d)"

lemma positives_set:
  "dict_get d k = Some v \<Longrightarrow>
   positives (dict_set k w d) + (if 0 < v then 1 else 0) = positives d + (if 0 < w then 1 else 0)"
proof (induction d)
  case (Cons kv d)
  then show ?case by (cases kv) (auto simp: positives_def split: if_splits)
qed simp

lemma release_measure:
  "release ts d ready = Inr (d', ready') \<Longrightarrow> length ready' + positives d' \<le> length ready + positives d"
proof (induction ts arbitrary: d ready)
  case (Cons t ts)
  obtain v where v: "dict_get d t = Some v" using Cons.prems by (auto simp: bump_def split: option.splits)
  let ?d = "dict_set t (v - 1) d"
  let ?r = "if v = 1 then ready @ [t] else ready"
  have "release ts ?d ?r = Inr (d', ready')" using Cons.prems v by (simp add: bump_def)
  from Cons.IH [OF this] positives_set [OF v, of "v - 1"] show ?case by (auto split: if_splits)
qed simp

function kahn_loop :: "('k::linorder) graph \<Rightarrow> ('k, int) dict \<Rightarrow> 'k list \<Rightarrow> 'k list \<Rightarrow> (exn, 'k list) result" where
  "kahn_loop g d ready order =
     (case sort ready of
        [] \<Rightarrow> Inr order
      | node # rest \<Rightarrow>
          (case dict_get g node of
             None \<Rightarrow> Inl (PyError ''KeyError'')
           | Some ts \<Rightarrow>
               (case release (sort ts) d rest of
                  Inl e \<Rightarrow> Inl e
                | Inr (d', ready') \<Rightarrow> kahn_loop g d' ready' (order @ [node]))))"
  by pat_completeness auto
termination
proof (relation "measure (\<lambda>(g, d, ready, order). length ready + positives d)")
  fix g :: "('k::linorder) graph" and d ready order node rest ts x d' ready'
  assume "sort ready = node # rest" "release (sort ts) d rest = Inr x" "(d', ready') = x"
  then have "length ready = Suc (length rest)" "release (sort ts) d rest = Inr (d', ready')"
    using length_sort [of "\<lambda>x. x" ready] by simp_all
  with release_measure [of "sort ts" d rest d' ready']
  show "((g, d', ready', order @ [node]), g, d, ready, order) \<in> measure (\<lambda>(g, d, ready, order). length ready + positives d)"
    by simp
qed simp

declare kahn_loop.simps [simp del]

definition topological_sort :: "('k::linorder) graph \<Rightarrow> (exn, 'k list) result" where
  "topological_sort g =
     (let all_nodes = sort (map fst g)
      in bind_r (in_degrees (concat (map snd g)) (map (\<lambda>k. (k, 0)) all_nodes)) (\<lambda>d.
         bind_r (kahn_loop g d (sort (map fst (filter (\<lambda>kn. snd kn = 0) d))) []) (\<lambda>order.
         if length order \<noteq> length all_nodes then Inl (PyError ''IRReferenceError'') else Inr order)))"


section \<open>Correctness\<close>

text \<open>A table of degrees on the nodes, as a function.\<close>

definition degrees :: "'k set \<Rightarrow> ('k \<Rightarrow> nat) \<Rightarrow> ('k, int) dict \<Rightarrow> bool" where
  "degrees V f d \<longleftrightarrow> dict_ok d \<and> (\<forall>k. dict_get d k = (if k \<in> V then Some (int (f k)) else None))"

lemma in_degrees_count:
  "degrees V f d \<Longrightarrow> set ts \<subseteq> V \<Longrightarrow> \<exists>d'. in_degrees ts d = Inr d' \<and> degrees V (\<lambda>k. f k + count_list ts k) d'"
proof (induction ts arbitrary: d f)
  case (Cons t ts)
  have "bump 1 t d = Inr (dict_set t (int (f t) + 1) d)" using Cons.prems by (simp add: bump_def degrees_def)
  moreover have "degrees V (f(t := f t + 1)) (dict_set t (int (f t) + 1) d)" using Cons.prems by (auto simp: degrees_def)
  from Cons.IH [OF this] Cons.prems(2) obtain d' where "in_degrees ts (dict_set t (int (f t) + 1) d) = Inr d'"
    "degrees V (\<lambda>k. (f(t := f t + 1)) k + count_list ts k) d'" by auto
  moreover have "(\<lambda>k. (f(t := f t + 1)) k + count_list ts k) = (\<lambda>k. f k + count_list (t # ts) k)" by auto
  ultimately show ?case by auto
qed simp

lemma release_effect:
  "degrees V f d \<Longrightarrow> distinct ts \<Longrightarrow> set ts \<subseteq> V \<Longrightarrow> \<forall>t\<in>set ts. 0 < f t \<Longrightarrow>
   \<exists>d'. release ts d ready = Inr (d', ready @ filter (\<lambda>t. f t = 1) ts) \<and>
     degrees V (\<lambda>k. if k \<in> set ts then f k - 1 else f k) d'"
proof (induction ts arbitrary: d f ready)
  case (Cons t ts)
  let ?f = "f(t := f t - 1)"
  let ?d = "dict_set t (int (f t) - 1) d"
  have b: "bump (- 1) t d = Inr ?d" using Cons.prems by (simp add: bump_def degrees_def)
  have deg: "degrees V ?f ?d" using Cons.prems by (auto simp: degrees_def)
  have zero: "dict_get ?d t = Some 0 \<longleftrightarrow> f t = 1" using Cons.prems by auto
  from Cons.IH [OF deg, of "if f t = 1 then ready @ [t] else ready"] Cons.prems
  obtain d' where d': "release ts ?d (if f t = 1 then ready @ [t] else ready) =
      Inr (d', (if f t = 1 then ready @ [t] else ready) @ filter (\<lambda>t. ?f t = 1) ts)"
    "degrees V (\<lambda>k. if k \<in> set ts then ?f k - 1 else ?f k) d'" by fastforce
  have "filter (\<lambda>x. ?f x = 1) ts = filter (\<lambda>x. f x = 1) ts" using Cons.prems(2) by (intro filter_cong) auto
  moreover have "(\<lambda>k. if k \<in> set ts then ?f k - 1 else ?f k) = (\<lambda>k. if k \<in> set (t # ts) then f k - 1 else f k)"
    using Cons.prems(2) by auto
  ultimately show ?case using b d' zero by simp
qed simp

text \<open>The invariant of the loop: the degrees count the edges from nodes that are not yet placed, the
  ready nodes are the unplaced nodes without such edges, and a placed node comes after its sources.\<close>

definition ordered :: "('k \<times> 'k) set \<Rightarrow> 'k list \<Rightarrow> bool" where
  "ordered E order \<longleftrightarrow> (\<forall>xs b ys a. order = xs @ b # ys \<longrightarrow> (a, b) \<in> E \<longrightarrow> a \<in> set xs)"

definition open_sources :: "'k graph \<Rightarrow> 'k list \<Rightarrow> 'k \<Rightarrow> 'k set" where
  "open_sources g order k = {a. (a, k) \<in> edge_set g \<and> a \<notin> set order}"

definition kahn_inv :: "'k graph \<Rightarrow> ('k, int) dict \<Rightarrow> 'k list \<Rightarrow> 'k list \<Rightarrow> bool" where
  "kahn_inv g d ready order \<longleftrightarrow>
     degrees (nodes g) (\<lambda>k. card (open_sources g order k)) d \<and> distinct (order @ ready) \<and>
     set order \<subseteq> nodes g \<and> set ready = {k \<in> nodes g. k \<notin> set order \<and> open_sources g order k = {}} \<and>
     ordered (edge_set g) order"

lemma edge_nodes:
  assumes "graph_ok g" "(a, b) \<in> edge_set g"
  shows "a \<in> nodes g \<and> b \<in> nodes g"
proof -
  obtain ts where ts: "dict_get g a = Some ts" "b \<in> set ts" using assms(2) by (auto simp: edge_set_def)
  from map_of_SomeD [OF ts(1)] have "a \<in> nodes g" by (metis fst_conv imageI)
  moreover have "set ts \<subseteq> nodes g" using assms(1) ts(1) unfolding graph_ok_def by blast
  ultimately show ?thesis using ts(2) by blast
qed

lemma finite_open_sources: "graph_ok g \<Longrightarrow> finite (open_sources g order k)"
  by (rule finite_subset [of _ "nodes g"]) (auto simp: open_sources_def dest: edge_nodes)

lemma open_sources_snoc: "open_sources g (order @ [n]) k = open_sources g order k - {n}"
  by (auto simp: open_sources_def)

lemma ordered_snoc:
  assumes "ordered E order" "\<And>a. (a, n) \<in> E \<Longrightarrow> a \<in> set order"
  shows "ordered E (order @ [n])"
  unfolding ordered_def
proof (intro allI impI)
  fix xs b ys a assume eq: "order @ [n] = xs @ b # ys" and e: "(a, b) \<in> E"
  show "a \<in> set xs"
  proof (cases ys rule: rev_cases)
    case Nil
    with eq e assms(2) show ?thesis by simp
  next
    case (snoc zs z)
    with eq have "order = xs @ b # zs" by simp
    with assms(1) e show ?thesis by (auto simp: ordered_def)
  qed
qed

lemma ordered_sources: "ordered E order \<Longrightarrow> b \<in> set order \<Longrightarrow> (a, b) \<in> E \<Longrightarrow> a \<in> set order"
  by (drule split_list) (auto simp: ordered_def)

lemma kahn_step:
  assumes ok: "graph_ok g" and inv: "kahn_inv g d ready order" and srt: "sort ready = n # rest"
  shows "\<exists>ts d' ready'. dict_get g n = Some ts \<and> release (sort ts) d rest = Inr (d', ready') \<and>
    kahn_inv g d' ready' (order @ [n])"
proof -
  have set_ready: "set ready = insert n (set rest)" and dist: "distinct (n # rest)"
    using srt inv set_sort [of "\<lambda>x. x" ready] distinct_sort [of "\<lambda>x. x" ready] by (auto simp: kahn_inv_def)
  then have n: "n \<in> nodes g" "n \<notin> set order" "open_sources g order n = {}" using inv by (auto simp: kahn_inv_def)
  obtain ts where ts: "dict_get g n = Some ts" using n(1) by (metis map_of_eq_None_iff not_None_eq)
  have tsn: "distinct ts" "set ts \<subseteq> nodes g" using ok ts unfolding graph_ok_def by blast+
  have succ: "k \<in> set ts \<longleftrightarrow> n \<in> open_sources g order k" for k
    using ts n(2) by (simp add: edge_set_def open_sources_def)
  have fin: "finite (open_sources g order k)" for k using finite_open_sources [OF ok] .
  have pos: "\<forall>t\<in>set (sort ts). 0 < card (open_sources g order t)" using succ fin by (auto simp: card_gt_0_iff)
  have deg: "degrees (nodes g) (\<lambda>k. card (open_sources g order k)) d" using inv by (simp add: kahn_inv_def)
  obtain d' where d': "release (sort ts) d rest = Inr (d', rest @ filter (\<lambda>t. card (open_sources g order t) = 1) (sort ts))"
    "degrees (nodes g) (\<lambda>k. if k \<in> set (sort ts) then card (open_sources g order k) - 1 else card (open_sources g order k)) d'"
    using release_effect [OF deg _ _ pos, of rest] tsn by auto
  have card: "(if k \<in> set (sort ts) then card (open_sources g order k) - 1 else card (open_sources g order k)) =
      card (open_sources g (order @ [n]) k)" for k
    using succ [of k] by (simp add: open_sources_snoc card_Diff_singleton_if)
  let ?new = "filter (\<lambda>t. card (open_sources g order t) = 1) (sort ts)"
  have new: "t \<in> set ?new \<longleftrightarrow> t \<in> set ts \<and> open_sources g (order @ [n]) t = {}" for t
    using succ [of t] by (auto simp: open_sources_snoc card_1_singleton_iff)
  have "n \<notin> set ts" using succ n(3) by simp
  have unplaced: "t \<notin> set order" if "t \<in> set ts" for t
    using ordered_sources [of "edge_set g" order t n] inv n(2) succ [of t] that by (auto simp: kahn_inv_def open_sources_def)
  have rest: "k \<in> set rest \<longleftrightarrow> k \<in> nodes g \<and> k \<notin> set order \<and> k \<noteq> n \<and> open_sources g order k = {}" for k
    using set_ready dist inv by (auto simp: kahn_inv_def)
  have "set (rest @ ?new) = {k \<in> nodes g. k \<notin> set (order @ [n]) \<and> open_sources g (order @ [n]) k = {}}"
  proof (intro set_eqI)
    fix k
    show "k \<in> set (rest @ ?new) \<longleftrightarrow> k \<in> {k \<in> nodes g. k \<notin> set (order @ [n]) \<and> open_sources g (order @ [n]) k = {}}"
      using rest [of k] new [of k] succ [of k] unplaced [of k] \<open>n \<notin> set ts\<close> tsn(2) by (auto simp: open_sources_snoc)
  qed
  moreover have "distinct ((order @ [n]) @ rest @ ?new)"
    using inv dist tsn(1) n(2) rest new succ unplaced \<open>n \<notin> set ts\<close> by (auto simp: kahn_inv_def)
  moreover have "ordered (edge_set g) (order @ [n])"
    using inv n(3) by (intro ordered_snoc) (auto simp: kahn_inv_def open_sources_def)
  ultimately have "kahn_inv g d' (rest @ ?new) (order @ [n])"
    using d'(2) n(1) inv unfolding card by (simp add: kahn_inv_def)
  with ts d'(1) show ?thesis by blast
qed


lemma kahn_loop_result:
  "graph_ok g \<Longrightarrow> kahn_inv g d ready order \<Longrightarrow> \<exists>d' order'. kahn_loop g d ready order = Inr order' \<and> kahn_inv g d' [] order'"
proof (induction g d ready order rule: kahn_loop.induct)
  case (1 g d ready order)
  show ?case
  proof (cases "sort ready")
    case Nil
    then have "ready = []" by (metis length_0_conv length_sort)
    moreover have "kahn_loop g d ready order = Inr order" using Nil by (subst kahn_loop.simps) simp
    ultimately show ?thesis using 1 by auto
  next
    case (Cons n rest)
    obtain ts d' ready' where s: "dict_get g n = Some ts" "release (sort ts) d rest = Inr (d', ready')"
      "kahn_inv g d' ready' (order @ [n])" using kahn_step [OF 1(2,3) Cons] by blast
    moreover have "kahn_loop g d ready order = kahn_loop g d' ready' (order @ [n])"
      using Cons s by (subst kahn_loop.simps) simp
    ultimately show ?thesis using 1(1) [OF Cons s(1,2) refl 1(2) s(3)] by simp
  qed
qed

lemma no_source_free_cycle:
  assumes "finite U" "U \<noteq> {}" "\<And>k. k \<in> U \<Longrightarrow> \<exists>a\<in>U. (a, k) \<in> E"
  shows "\<not> acyclic E"
proof
  assume "acyclic E"
  then have wf: "wf (E \<inter> U \<times> U)"
    using assms(1) finite_acyclic_wf [of "E \<inter> U \<times> U"] acyclic_subset [of E "E \<inter> U \<times> U"] by simp
  obtain x where "x \<in> U" using assms(2) by blast
  then have "\<exists>k\<in>U. \<forall>a. (a, k) \<in> E \<inter> U \<times> U \<longrightarrow> a \<notin> U" using wf unfolding wf_eq_minimal by blast
  then obtain k where "k \<in> U" "\<forall>a. (a, k) \<in> E \<inter> U \<times> U \<longrightarrow> a \<notin> U" by blast
  moreover from assms(3) [OF this(1)] obtain a where "a \<in> U" "(a, k) \<in> E" by blast
  ultimately show False by blast
qed

lemma takeWhile_up_to: "b \<notin> set xs \<Longrightarrow> takeWhile (\<lambda>x. x \<noteq> b) (xs @ b # ys) = xs"
  by (induction xs) auto

lemma ordered_acyclic:
  assumes "ordered E order" "\<And>a b. (a, b) \<in> E \<Longrightarrow> b \<in> set order"
  shows "acyclic E"
proof (rule acyclic_subset [OF wf_acyclic])
  show "wf (measure (\<lambda>k. length (takeWhile (\<lambda>x. x \<noteq> k) order)))" by simp
  show "E \<subseteq> measure (\<lambda>k. length (takeWhile (\<lambda>x. x \<noteq> k) order))"
  proof (intro subrelI)
    fix a b assume e: "(a, b) \<in> E"
    obtain xs ys where b: "order = xs @ b # ys" "b \<notin> set xs" using split_list_first [OF assms(2) [OF e]] by blast
    then have "a \<in> set xs" using assms(1) e by (auto simp: ordered_def)
    from split_list_first [OF this] obtain us vs where a: "xs = us @ a # vs" "a \<notin> set us" by blast
    have "takeWhile (\<lambda>x. x \<noteq> b) order = xs" unfolding b(1) by (rule takeWhile_up_to [OF b(2)])
    moreover have "takeWhile (\<lambda>x. x \<noteq> a) order = us"
      unfolding b(1) a(1) append_assoc append_Cons by (rule takeWhile_up_to [OF a(2)])
    ultimately show "(a, b) \<in> measure (\<lambda>k. length (takeWhile (\<lambda>x. x \<noteq> k) order))" using a(1) by simp
  qed
qed

lemma count_list_distinct: "distinct ts \<Longrightarrow> count_list ts k = (if k \<in> set ts then 1 else 0)"
  by (induction ts) auto

lemma count_edges:
  assumes "graph_ok g"
  shows "count_list (concat (map snd g)) k = card (open_sources g [] k)"
proof -
  have ok: "dict_ok g" using assms by (simp add: graph_ok_def)
  have counts: "count_list (concat (map snd h)) k = card {a. \<exists>ts. (a, ts) \<in> set h \<and> k \<in> set ts}"
    if "distinct (map fst h)" "\<forall>(a, ts)\<in>set h. distinct ts" for h
    using that
  proof (induction h)
    case (Cons x h)
    obtain a ts where x: "x = (a, ts)" by fastforce
    let ?S = "{a. \<exists>ts. (a, ts) \<in> set h \<and> k \<in> set ts}"
    have fin: "finite ?S" by (rule finite_subset [of _ "fst ` set h"]) force+
    have "a \<notin> ?S" using Cons.prems(1) x by force
    moreover have "{b. \<exists>us. (b, us) \<in> set (x # h) \<and> k \<in> set us} = (if k \<in> set ts then insert a ?S else ?S)" using x by auto
    moreover have "count_list ts k = (if k \<in> set ts then 1 else 0)"
      using Cons.prems(2) x by (simp add: count_list_distinct)
    ultimately show ?case using Cons fin x by simp
  qed simp
  have "distinct (map fst g)" "\<forall>(a, ts)\<in>set g. distinct ts"
    using assms ok dict_mem_get [OF ok] unfolding graph_ok_def dict_ok_def by blast+
  from counts [OF this] have "count_list (concat (map snd g)) k = card {a. \<exists>ts. (a, ts) \<in> set g \<and> k \<in> set ts}" .
  also have "{a. \<exists>ts. (a, ts) \<in> set g \<and> k \<in> set ts} = open_sources g [] k"
    by (simp add: open_sources_def edge_set_def dict_get_iff_mem [OF ok])
  finally show ?thesis .
qed

lemma topological_sort_cases:
  assumes ok: "graph_ok g"
  obtains (sorted) order where "topological_sort g = Inr order" "acyclic (edge_set g)" "distinct order" "set order = nodes g"
      "ordered (edge_set g) order"
  | (cyclic) "topological_sort g = Inl (PyError ''IRReferenceError'')" "\<not> acyclic (edge_set g)"
proof -
  have dist: "distinct (map fst g)" using ok by (simp add: graph_ok_def dict_ok_def)
  let ?d0 = "map (\<lambda>k. (k, 0 :: int)) (sort (map fst g))"
  have "dict_get ?d0 k = (if k \<in> nodes g then Some 0 else None)" for k
    by (simp add: map_of_map_restrict restrict_map_def)
  then have "degrees (nodes g) (\<lambda>_. 0) ?d0" using dist by (simp add: degrees_def dict_ok_def o_def)
  moreover have "set (concat (map snd g)) \<subseteq> nodes g" using ok by (force simp: graph_ok_def dict_get_iff_mem)
  ultimately obtain d where d: "in_degrees (concat (map snd g)) ?d0 = Inr d"
    "degrees (nodes g) (\<lambda>k. card (open_sources g [] k)) d"
    using in_degrees_count [of "nodes g" "\<lambda>_. 0" ?d0 "concat (map snd g)"] by (auto simp: count_edges [OF ok])
  let ?ready = "sort (map fst (filter (\<lambda>kn. snd kn = 0) d))"
  have "distinct ?ready" using d(2) distinct_map_filter [of fst d] by (simp add: degrees_def dict_ok_def)
  moreover have "k \<in> set ?ready \<longleftrightarrow> k \<in> nodes g \<and> open_sources g [] k = {}" for k
  proof -
    have "k \<in> set ?ready \<longleftrightarrow> (k, 0) \<in> set d" by force
    also have "\<dots> \<longleftrightarrow> dict_get d k = Some 0" using d(2) dict_get_iff_mem [of d k 0] unfolding degrees_def by blast
    finally have "k \<in> set ?ready \<longleftrightarrow> dict_get d k = Some 0" .
    then show ?thesis using d(2) finite_open_sources [OF ok, of "[]" k] by (auto simp: degrees_def)
  qed
  ultimately have "kahn_inv g d ?ready []" using d(2) by (auto simp: kahn_inv_def ordered_def)
  from kahn_loop_result [OF ok this] obtain d' order where o: "kahn_loop g d ?ready [] = Inr order" "kahn_inv g d' [] order" by blast
  have len: "length order = length g \<longleftrightarrow> set order = nodes g"
    using o(2) dist card_subset_eq [of "nodes g" "set order"] distinct_card [of order] distinct_card [of "map fst g"]
    by (auto simp: kahn_inv_def)
  have ts: "topological_sort g = (if length order \<noteq> length g then Inl (PyError ''IRReferenceError'') else Inr order)"
    using d(1) o(1) by (simp add: topological_sort_def Let_def)
  show thesis
  proof (cases "set order = nodes g")
    case True
    have "acyclic (edge_set g)"
      using o(2) True edge_nodes [OF ok] by (intro ordered_acyclic [of _ order]) (auto simp: kahn_inv_def)
    with True ts len o(2) sorted show thesis by (auto simp: kahn_inv_def)
  next
    case False
    have "\<exists>a\<in>nodes g - set order. (a, k) \<in> edge_set g" if "k \<in> nodes g - set order" for k
    proof -
      have "open_sources g order k \<noteq> {}" using that o(2) by (auto simp: kahn_inv_def)
      then show ?thesis using edge_nodes [OF ok] by (auto simp: open_sources_def)
    qed
    moreover have "finite (nodes g - set order)" "nodes g - set order \<noteq> {}" using False o(2) by (auto simp: kahn_inv_def)
    ultimately have "\<not> acyclic (edge_set g)" using no_source_free_cycle by blast
    with False ts len cyclic show thesis by simp
  qed
qed

end
