(* ===== verification/Reference_Resolver.thy ===== *)
theory Reference_Resolver
  imports Strategy_IR Topological_Sort
begin

text \<open>
  The reference resolver of the strategy compiler, \<open>libs/strategy_ir/reference_resolver.py\<close>: it classifies
  every identifier of a strategy and orders indicators and derived fields so that each comes after
  what it reads. The constants of the code's working state are the record \<open>resolver_ctx\<close>, the two
  fields that change are \<open>resolver_work\<close>. The table of edges is built from a set, whose order has no
  effect.
\<close>

section \<open>State\<close>

datatype raw_value = RawText string | RawNum rat

record resolved_reference =
  rf_location :: string
  rf_raw_value :: raw_value
  rf_kind :: string
  rf_target_id :: "string option"

record resolver_ctx =
  cx_indicator_ids :: "string list"
  cx_derived_field_ids :: "string list"
  cx_price_fields :: "string list"
  cx_confirmation_timeframes :: "string list"
  cx_primary_timeframe :: string
  cx_has_basket_templates :: bool

record resolver_work =
  wk_references :: "resolved_reference list"
  wk_edges_out :: "string graph"

definition ir_reference_error :: exn where
  "ir_reference_error = PyError ''IRReferenceError''"

definition math_functions :: "string list" where
  "math_functions = [''abs'', ''min'', ''max'', ''sqrt'', ''log'', ''exp'', ''pow'', ''sign'', ''floor'', ''ceil'', ''round'']"

definition basket_synthetic_fields :: "string list" where
  "basket_synthetic_fields = [''spread_basket_average'']"

definition derived_ids :: "strategy_ir \<Rightarrow> string list" where
  "derived_ids ir = (case ir_derived_fields ir of None \<Rightarrow> [] | Some dfs \<Rightarrow> map df_id dfs)"

definition build_state :: "strategy_ir \<Rightarrow> (exn, resolver_ctx \<times> resolver_work) result" where
  "build_state ir =
     (let indicator_ids = map indicator_id (ir_indicators ir);
          derived_field_ids = derived_ids ir
      in if list_ex (\<lambda>i. i \<in> set derived_field_ids) indicator_ids then Inl ir_reference_error
         else Inr (\<lparr>cx_indicator_ids = indicator_ids, cx_derived_field_ids = derived_field_ids,
                    cx_price_fields = dq_required_fields (ir_data_requirements ir),
                    cx_confirmation_timeframes = dq_confirmation_timeframes (ir_data_requirements ir),
                    cx_primary_timeframe = dq_primary_timeframe (ir_data_requirements ir),
                    cx_has_basket_templates = (el_basket_templates (ir_entry_logic ir) \<noteq> None)\<rparr>,
                   \<lparr>wk_references = [], wk_edges_out = map (\<lambda>i. (i, [])) (remdups (indicator_ids @ derived_field_ids))\<rparr>))"

section \<open>Classification\<close>

definition is_cross_timeframe_ref :: "resolver_ctx \<Rightarrow> string \<Rightarrow> bool" where
  "is_cross_timeframe_ref cx identifier \<longleftrightarrow>
     CHR ''_'' \<in> set identifier \<and>
     list_ex (\<lambda>tf. ends_with identifier (CHR ''_'' # tf) \<and> chop identifier (CHR ''_'' # tf) \<in> set (cx_price_fields cx))
       (cx_confirmation_timeframes cx @ [cx_primary_timeframe cx])"

text \<open>The kind of an identifier and, for a node of the graph, the node; \<open>known\<close> are the keys of \<open>edges_out\<close>.\<close>

function lookup_identifier :: "resolver_ctx \<Rightarrow> string list \<Rightarrow> string \<Rightarrow> string option \<times> string option" where
  "lookup_identifier cx known identifier =
     (if identifier \<in> set (cx_indicator_ids cx) then (Some ''indicator'', Some identifier)
      else if identifier \<in> set (cx_derived_field_ids cx) then (Some ''derived_field'', Some identifier)
      else if identifier \<in> set (cx_price_fields cx) then (Some ''price_field'', None)
      else if is_cross_timeframe_ref cx identifier then (Some ''cross_timeframe'', None)
      else if cx_has_basket_templates cx \<and> identifier \<in> set basket_synthetic_fields then (Some ''basket_synthetic'', None)
      else
        (case prev_match identifier of
           None \<Rightarrow> (None, None)
         | Some (base, lag) \<Rightarrow>
             (case lookup_identifier cx known base of
                (None, _) \<Rightarrow> (None, None)
              | (Some base_kind, base_target) \<Rightarrow>
                  (Some ''previous_bar'',
                   (case base_target of
                      Some t \<Rightarrow> Some t
                    | None \<Rightarrow> if base \<in> set known then Some base else None)))))"
  by pat_completeness auto
termination by (relation "measure (\<lambda>(cx, known, s). length s)") (auto dest: prev_match_shorter)

declare lookup_identifier.simps [simp del]

definition add_reference :: "string \<Rightarrow> raw_value \<Rightarrow> string \<Rightarrow> string option \<Rightarrow> resolver_work \<Rightarrow> resolver_work" where
  "add_reference loc raw kind target wk =
     wk\<lparr>wk_references := wk_references wk @
       [\<lparr>rf_location = loc, rf_raw_value = raw, rf_kind = kind, rf_target_id = target\<rparr>]\<rparr>"

text \<open>\<open>edges_out[target].add(dependent)\<close>, when both are given and the target is a node.\<close>

definition add_edge :: "string option \<Rightarrow> string option \<Rightarrow> string graph \<Rightarrow> string graph" where
  "add_edge target dep g =
     (case (dep, target) of
        (Some b, Some a) \<Rightarrow>
          (case dict_get g a of
             None \<Rightarrow> g
           | Some ts \<Rightarrow> dict_set a (if b \<in> set ts then ts else ts @ [b]) g)
      | _ \<Rightarrow> g)"

definition classify_atom ::
  "resolver_ctx \<Rightarrow> string \<Rightarrow> string \<Rightarrow> string option \<Rightarrow> resolver_work \<Rightarrow> (exn, resolver_work) result" where
  "classify_atom cx identifier loc dep wk =
     (case lookup_identifier cx (map fst (wk_edges_out wk)) identifier of
        (None, _) \<Rightarrow> Inl ir_reference_error
      | (Some kind, target) \<Rightarrow>
          let wk1 = add_reference loc (RawText identifier) kind target wk
          in Inr (wk1\<lparr>wk_edges_out := add_edge target dep (wk_edges_out wk1)\<rparr>))"

definition classify_indicator_only_ref ::
  "resolver_ctx \<Rightarrow> string \<Rightarrow> string \<Rightarrow> string option \<Rightarrow> resolver_work \<Rightarrow> (exn, resolver_work) result" where
  "classify_indicator_only_ref cx identifier loc dep wk =
     (if identifier \<notin> set (cx_indicator_ids cx) then Inl ir_reference_error
      else
        let wk1 = add_reference loc (RawText identifier) ''indicator'' (Some identifier) wk
        in Inr (wk1\<lparr>wk_edges_out := add_edge (Some identifier) dep (wk_edges_out wk1)\<rparr>))"

definition index_at :: "string \<Rightarrow> nat \<Rightarrow> string" where
  "index_at loc i = loc @ ''['' @ nat_text i @ '']''"

definition resolve_token ::
  "resolver_ctx \<Rightarrow> string \<Rightarrow> string option \<Rightarrow> nat \<Rightarrow> string \<Rightarrow> resolver_work \<Rightarrow> (exn, resolver_work) result" where
  "resolve_token cx loc dep i token wk =
     (if token \<in> set math_functions then Inr (add_reference loc (RawText token) ''expression_atom'' None wk)
      else classify_atom cx token loc dep wk)"

definition resolve_expression ::
  "resolver_ctx \<Rightarrow> string \<Rightarrow> string \<Rightarrow> string option \<Rightarrow> resolver_work \<Rightarrow> (exn, resolver_work) result" where
  "resolve_expression cx expression loc dep wk =
     (if idents expression = [] then Inr (add_reference loc (RawText expression) ''literal'' None wk)
      else each (resolve_token cx loc dep) 0 (idents expression) wk)"

section \<open>The parts of a strategy\<close>

definition resolve_indicator ::
  "resolver_ctx \<Rightarrow> nat \<Rightarrow> indicator \<Rightarrow> resolver_work \<Rightarrow> (exn, resolver_work) result" where
  "resolve_indicator cx i ind wk =
     (case ind of
        ZscoreIndicator zid tf src mean std \<Rightarrow>
          bind_r (classify_indicator_only_ref cx mean (index_at ''indicators'' i @ ''.mean_source'') (Some zid) wk)
            (classify_indicator_only_ref cx std (index_at ''indicators'' i @ ''.std_source'') (Some zid))
      | _ \<Rightarrow> Inr wk)"

definition resolve_indicator_definitions :: "resolver_ctx \<Rightarrow> strategy_ir \<Rightarrow> resolver_work \<Rightarrow> (exn, resolver_work) result" where
  "resolve_indicator_definitions cx ir = each (resolve_indicator cx) 0 (ir_indicators ir)"

definition resolve_derived_fields :: "resolver_ctx \<Rightarrow> strategy_ir \<Rightarrow> resolver_work \<Rightarrow> (exn, resolver_work) result" where
  "resolve_derived_fields cx ir wk =
     (case ir_derived_fields ir of
        None \<Rightarrow> Inr wk
      | Some dfs \<Rightarrow>
          each (\<lambda>i df. resolve_expression cx (df_formula df) (index_at ''derived_fields'' i @ ''.formula'') (Some (df_id df))) 0 dfs wk)"

definition resolve_leaf_condition ::
  "resolver_ctx \<Rightarrow> leaf_condition \<Rightarrow> string \<Rightarrow> resolver_work \<Rightarrow> (exn, resolver_work) result" where
  "resolve_leaf_condition cx leaf loc wk =
     bind_r (resolve_expression cx (lc_lhs leaf) (loc @ ''.lhs'') None wk) (\<lambda>wk1.
       case lc_rhs leaf of
         RhsText e \<Rightarrow> resolve_expression cx e (loc @ ''.rhs'') None wk1
       | RhsNum x \<Rightarrow> Inr (add_reference (loc @ ''.rhs'') (RawNum x) ''literal'' None wk1))"

fun resolve_conditions ::
  "resolver_ctx \<Rightarrow> string \<Rightarrow> nat \<Rightarrow> condition list \<Rightarrow> resolver_work \<Rightarrow> (exn, resolver_work) result" where
  "resolve_conditions cx loc i [] wk = Inr wk"
| "resolve_conditions cx loc i (Leaf leaf # cs) wk =
     bind_r (resolve_leaf_condition cx leaf (index_at (loc @ ''.conditions'') i) wk) (\<lambda>wk1.
       resolve_conditions cx loc (Suc i) cs wk1)"
| "resolve_conditions cx loc i (Sub op ds # cs) wk =
     bind_r (resolve_conditions cx (index_at (loc @ ''.conditions'') i) 0 ds wk) (\<lambda>wk1.
       resolve_conditions cx loc (Suc i) cs wk1)"

definition resolve_condition_tree ::
  "resolver_ctx \<Rightarrow> condition_tree option \<Rightarrow> string \<Rightarrow> resolver_work \<Rightarrow> (exn, resolver_work) result" where
  "resolve_condition_tree cx tree loc wk =
     (case tree of None \<Rightarrow> Inr wk | Some (op, cs) \<Rightarrow> resolve_conditions cx loc 0 cs wk)"

definition resolve_basket_template ::
  "resolver_ctx \<Rightarrow> nat \<Rightarrow> basket_template \<Rightarrow> resolver_work \<Rightarrow> (exn, resolver_work) result" where
  "resolve_basket_template cx i template =
     resolve_leaf_condition cx (bt_active_when template) (index_at ''entry_logic.basket_templates'' i @ ''.active_when'')"

definition resolve_entry_logic :: "resolver_ctx \<Rightarrow> entry_logic \<Rightarrow> resolver_work \<Rightarrow> (exn, resolver_work) result" where
  "resolve_entry_logic cx el wk =
     bind_r (resolve_condition_tree cx (el_long el) ''entry_logic.long.logic'' wk) (\<lambda>wk1.
     bind_r (resolve_condition_tree cx (el_short el) ''entry_logic.short.logic'' wk1) (\<lambda>wk2.
     bind_r (each (resolve_basket_template cx) 0 (case el_basket_templates el of None \<Rightarrow> [] | Some bts \<Rightarrow> bts) wk2) (\<lambda>wk3.
     resolve_condition_tree cx (el_entry_filters el) ''entry_logic.entry_filters'' wk3)))"

definition resolve_exit_stop ::
  "resolver_ctx \<Rightarrow> exit_stop \<Rightarrow> string \<Rightarrow> resolver_work \<Rightarrow> (exn, resolver_work) result" where
  "resolve_exit_stop cx stop loc wk =
     (case stop of
        AtrMultipleStop ind _ \<Rightarrow> classify_indicator_only_ref cx ind (loc @ ''.indicator'') None wk
      | BasketAtrMultipleStop ind _ \<Rightarrow> classify_indicator_only_ref cx ind (loc @ ''.indicator'') None wk
      | ChannelExitStop lng short \<Rightarrow>
          bind_r (resolve_leaf_condition cx lng (loc @ ''.long_condition'') wk)
            (resolve_leaf_condition cx short (loc @ ''.short_condition''))
      | MeanReversionToMidStop lng short \<Rightarrow>
          bind_r (resolve_leaf_condition cx lng (loc @ ''.long_condition'') wk)
            (resolve_leaf_condition cx short (loc @ ''.short_condition''))
      | CalendarExitStop cond \<Rightarrow> resolve_leaf_condition cx cond (loc @ ''.condition'') wk
      | ZscoreStop cond \<Rightarrow> resolve_leaf_condition cx cond (loc @ ''.condition'') wk
      | _ \<Rightarrow> Inr wk)"

definition resolve_exit_logic :: "resolver_ctx \<Rightarrow> exit_logic \<Rightarrow> resolver_work \<Rightarrow> (exn, resolver_work) result" where
  "resolve_exit_logic cx x =
     each (\<lambda>i (name, stop). resolve_exit_stop cx stop (''exit_logic.'' @ name)) 0 (exit_stops x)"

definition resolve_filter :: "resolver_ctx \<Rightarrow> nat \<Rightarrow> ir_filter \<Rightarrow> resolver_work \<Rightarrow> (exn, resolver_work) result" where
  "resolve_filter cx i flt wk =
     (case if_lhs flt of
        None \<Rightarrow> Inr wk
      | Some lhs \<Rightarrow>
          bind_r (classify_atom cx lhs (index_at ''filters'' i @ ''.lhs'') None wk) (\<lambda>wk1.
            case if_rhs flt of
              Some (RhsText e) \<Rightarrow> resolve_expression cx e (index_at ''filters'' i @ ''.rhs'') None wk1
            | _ \<Rightarrow> Inr wk1))"

definition resolve_filters :: "resolver_ctx \<Rightarrow> strategy_ir \<Rightarrow> resolver_work \<Rightarrow> (exn, resolver_work) result" where
  "resolve_filters cx ir = each (resolve_filter cx) 0 (case ir_filters ir of None \<Rightarrow> [] | Some fs \<Rightarrow> fs)"

record resolved_references =
  rd_references :: "resolved_reference list"
  rd_topological_order :: "string list"

definition resolve :: "strategy_ir \<Rightarrow> (exn, resolved_references) result" where
  "resolve ir =
     bind_r (build_state ir) (\<lambda>(cx, wk0).
     bind_r (resolve_indicator_definitions cx ir wk0) (\<lambda>wk1.
     bind_r (resolve_derived_fields cx ir wk1) (\<lambda>wk2.
     bind_r (resolve_entry_logic cx (ir_entry_logic ir) wk2) (\<lambda>wk3.
     bind_r (resolve_exit_logic cx (ir_exit_logic ir) wk3) (\<lambda>wk4.
     bind_r (resolve_filters cx ir wk4) (\<lambda>wk5.
     bind_r (topological_sort (wk_edges_out wk5)) (\<lambda>order.
     Inr \<lparr>rd_references = wk_references wk5, rd_topological_order = order\<rparr>)))))))"


section \<open>Names\<close>

text \<open>
  What an identifier may be, and which node it reads. A name is direct when it is a node, a price
  field, a price field of another timeframe or a synthetic field; otherwise it may refer to an earlier
  bar of a name.
\<close>

definition node_names :: "resolver_ctx \<Rightarrow> string set" where
  "node_names cx = set (cx_indicator_ids cx) \<union> set (cx_derived_field_ids cx)"

definition field_name :: "resolver_ctx \<Rightarrow> string \<Rightarrow> bool" where
  "field_name cx s \<longleftrightarrow> s \<in> set (cx_price_fields cx) \<or> is_cross_timeframe_ref cx s \<or>
     cx_has_basket_templates cx \<and> s \<in> set basket_synthetic_fields"

inductive known_name :: "resolver_ctx \<Rightarrow> string \<Rightarrow> bool" for cx where
  known_node: "s \<in> node_names cx \<Longrightarrow> known_name cx s"
| known_field: "field_name cx s \<Longrightarrow> known_name cx s"
| known_prev: "prev_match s = Some (base, lag) \<Longrightarrow> known_name cx base \<Longrightarrow> known_name cx s"

inductive reads_node :: "resolver_ctx \<Rightarrow> string \<Rightarrow> string \<Rightarrow> bool" for cx where
  reads_itself: "s \<in> node_names cx \<Longrightarrow> reads_node cx s s"
| reads_prev: "s \<notin> node_names cx \<Longrightarrow> \<not> field_name cx s \<Longrightarrow> prev_match s = Some (base, lag) \<Longrightarrow> reads_node cx base a \<Longrightarrow>
    reads_node cx s a"

inductive_simps known_name_iff: "known_name cx s"
inductive_simps reads_node_iff: "reads_node cx s a"

lemma lookup_cases:
  "lookup_identifier cx known s =
     (if s \<in> node_names cx then (Some (if s \<in> set (cx_indicator_ids cx) then ''indicator'' else ''derived_field''), Some s)
      else if field_name cx s then
        (Some (if s \<in> set (cx_price_fields cx) then ''price_field''
               else if is_cross_timeframe_ref cx s then ''cross_timeframe'' else ''basket_synthetic''), None)
      else
        (case prev_match s of
           None \<Rightarrow> (None, None)
         | Some (base, lag) \<Rightarrow>
             (case lookup_identifier cx known base of
                (None, _) \<Rightarrow> (None, None)
              | (Some base_kind, base_target) \<Rightarrow>
                  (Some ''previous_bar'',
                   (case base_target of Some t \<Rightarrow> Some t | None \<Rightarrow> if base \<in> set known then Some base else None)))))"
  by (subst lookup_identifier.simps) (simp add: node_names_def field_name_def; blast)

lemma lookup_known: "fst (lookup_identifier cx known s) \<noteq> None \<longleftrightarrow> known_name cx s"
proof (induction s rule: measure_induct_rule [of length])
  case (less s)
  show ?case
  proof (cases "prev_match s")
    case None
    then show ?thesis by (subst lookup_cases, subst known_name_iff) auto
  next
    case (Some p)
    obtain base lag where p: "p = (base, lag)" by fastforce
    from less [OF prev_match_shorter [of s base lag]] Some p
    have "fst (lookup_identifier cx known base) \<noteq> None \<longleftrightarrow> known_name cx base" by simp
    then show ?thesis using Some p
      by (subst lookup_cases, subst known_name_iff) (auto split: prod.splits option.splits)
  qed
qed

lemma lookup_target:
  assumes "set known = node_names cx"
  shows "snd (lookup_identifier cx known s) = Some a \<longleftrightarrow> reads_node cx s a"
proof (induction s rule: measure_induct_rule [of length])
  case (less s)
  show ?case
  proof (cases "prev_match s")
    case None
    then show ?thesis by (subst lookup_cases, subst reads_node_iff) auto
  next
    case (Some p)
    obtain base lag where p: "p = (base, lag)" by fastforce
    from less [OF prev_match_shorter [of s base lag]] Some p
    have IH: "snd (lookup_identifier cx known base) = Some a \<longleftrightarrow> reads_node cx base a" by simp
    have base: "base \<in> set known \<Longrightarrow> snd (lookup_identifier cx known base) = Some base"
      using assms by (subst lookup_cases) simp
    have none: "fst (lookup_identifier cx known base) = None \<Longrightarrow> snd (lookup_identifier cx known base) = None"
      by (subst (asm) lookup_cases, subst lookup_cases) (auto split: prod.splits option.splits if_splits)
    show ?thesis using Some p IH base none
      by (subst lookup_cases, subst reads_node_iff) (auto split: prod.splits option.splits)
  qed
qed

lemma reads_node_in: "reads_node cx s a \<Longrightarrow> a \<in> node_names cx"
  by (induction rule: reads_node.induct) auto


section \<open>What the parts check and add\<close>

text \<open>A part of the resolver, on graphs with the nodes \<open>N\<close>: it succeeds exactly under the condition \<open>ok\<close>, and
  adds the edges \<open>D\<close> then.\<close>

definition runs :: "string set \<Rightarrow> bool \<Rightarrow> (string \<times> string) set \<Rightarrow> (resolver_work \<Rightarrow> (exn, resolver_work) result) \<Rightarrow> bool" where
  "runs N ok D f \<longleftrightarrow>
     (\<forall>wk. graph_ok (wk_edges_out wk) \<longrightarrow> nodes (wk_edges_out wk) = N \<longrightarrow>
        (if ok then \<exists>wk'. f wk = Inr wk' \<and> graph_ok (wk_edges_out wk') \<and> nodes (wk_edges_out wk') = N \<and>
                      edge_set (wk_edges_out wk') = edge_set (wk_edges_out wk) \<union> D
         else f wk = Inl ir_reference_error))"

lemma runs_Inr [simp]: "runs N True {} Inr"
  by (simp add: runs_def)

lemma runs_reference [simp]: "runs N True {} (\<lambda>wk. Inr (add_reference loc raw kind target wk))"
  by (simp add: runs_def add_reference_def)

lemma runs_fail: "runs N False D (\<lambda>wk. Inl ir_reference_error)"
  by (simp add: runs_def)

lemma runs_bind:
  assumes "runs N c D f" "runs N c' D' g"
  shows "runs N (c \<and> c') (D \<union> D') (\<lambda>wk. bind_r (f wk) g)"
  unfolding runs_def
proof (intro allI impI)
  fix wk :: resolver_work assume wk: "graph_ok (wk_edges_out wk)" "nodes (wk_edges_out wk) = N"
  show "if c \<and> c' then \<exists>wk'. bind_r (f wk) g = Inr wk' \<and> graph_ok (wk_edges_out wk') \<and> nodes (wk_edges_out wk') = N \<and>
      edge_set (wk_edges_out wk') = edge_set (wk_edges_out wk) \<union> (D \<union> D') else bind_r (f wk) g = Inl ir_reference_error"
  proof (cases c)
    case True
    with assms(1) wk obtain wk1 where w1: "f wk = Inr wk1" "graph_ok (wk_edges_out wk1)" "nodes (wk_edges_out wk1) = N"
      "edge_set (wk_edges_out wk1) = edge_set (wk_edges_out wk) \<union> D" by (auto simp: runs_def)
    with assms(2) True show ?thesis by (auto simp: runs_def Un_assoc)
  next
    case False
    with assms(1) wk show ?thesis by (auto simp: runs_def)
  qed
qed

lemma runs_each:
  assumes "\<And>i x. x \<in> set xs \<Longrightarrow> runs N (c x) (D x) (f i x)"
  shows "runs N (\<forall>x\<in>set xs. c x) (\<Union>x\<in>set xs. D x) (each f i xs)"
  using assms
proof (induction xs arbitrary: i)
  case Nil
  have "each f i [] = Inr" by (simp add: fun_eq_iff)
  then show ?case by simp
next
  case (Cons x xs)
  have "each f i (x # xs) = (\<lambda>wk. bind_r (f i x wk) (each f (Suc i) xs))" by (simp add: fun_eq_iff)
  with runs_bind [OF Cons.prems [of x i] Cons.IH [of "Suc i"]] Cons.prems show ?case by simp
qed

lemma runs_cong: "runs N c D f \<Longrightarrow> c = c' \<Longrightarrow> (c \<Longrightarrow> D = D') \<Longrightarrow> runs N c' D' f"
  by (cases c) (auto simp: runs_def)

lemma add_edge_effect:
  assumes "graph_ok g" "\<And>b. dep = Some b \<Longrightarrow> b \<in> nodes g"
  shows "graph_ok (add_edge target dep g) \<and> nodes (add_edge target dep g) = nodes g \<and>
    edge_set (add_edge target dep g) =
      edge_set g \<union> (case (dep, target) of (Some b, Some a) \<Rightarrow> if a \<in> nodes g then {(a, b)} else {} | _ \<Rightarrow> {})"
proof (cases "\<exists>a b ts. dep = Some b \<and> target = Some a \<and> dict_get g a = Some ts")
  case True
  then obtain a b ts where d: "dep = Some b" "target = Some a" "dict_get g a = Some ts" by blast
  let ?ts = "if b \<in> set ts then ts else ts @ [b]"
  have eq: "add_edge target dep g = dict_set a ?ts g" using d by (simp add: add_edge_def)
  have n: "a \<in> nodes g" using d(3) by (metis dict_get_keys option.distinct(1))
  have nodes: "nodes (dict_set a ?ts g) = nodes g"
    using dict_set_keys_old [of g a ?ts] d(3) by (metis option.distinct(1) set_map)
  have "graph_ok (dict_set a ?ts g)"
    unfolding graph_ok_def nodes
  proof (intro conjI allI impI)
    show "dict_ok (dict_set a ?ts g)" using assms(1) by (simp add: graph_ok_def)
    fix k us assume k: "dict_get (dict_set a ?ts g) k = Some us"
    have ok: "distinct us' \<and> set us' \<subseteq> nodes g" if "dict_get g k' = Some us'" for k' us'
      using assms(1) that unfolding graph_ok_def by blast
    have "distinct us \<and> set us \<subseteq> nodes g"
    proof (cases "k = a")
      case True
      then have "us = ?ts" using k by simp
      then show ?thesis using ok [OF d(3)] assms(2) [OF d(1)] by simp
    next
      case False
      then show ?thesis using k ok [of k us] by simp
    qed
    then show "distinct us" "set us \<subseteq> nodes g" by blast+
  qed
  moreover have "edge_set (dict_set a ?ts g) = edge_set g \<union> {(a, b)}" using d(3) by (auto simp: edge_set_def split: if_splits)
  ultimately show ?thesis using eq nodes n d by simp
next
  case False
  then have "add_edge target dep g = g" by (auto simp: add_edge_def split: option.splits)
  moreover have "(case (dep, target) of (Some b, Some a) \<Rightarrow> if a \<in> nodes g then {(a, b)} else {} | _ \<Rightarrow> {}) = {}"
    using False by (auto simp: dict_get_keys split: option.splits)
  ultimately show ?thesis using assms(1) by simp
qed


text \<open>When the expressions of a strategy are in order, and what an expression reads.\<close>

definition expression_ok :: "resolver_ctx \<Rightarrow> string \<Rightarrow> bool" where
  "expression_ok cx e \<longleftrightarrow> (\<forall>t\<in>set (idents e). t \<in> set math_functions \<or> known_name cx t)"

definition expression_reads :: "resolver_ctx \<Rightarrow> string \<Rightarrow> string set" where
  "expression_reads cx e = {a. \<exists>t\<in>set (idents e). t \<notin> set math_functions \<and> reads_node cx t a}"

definition leaf_ok :: "resolver_ctx \<Rightarrow> leaf_condition \<Rightarrow> bool" where
  "leaf_ok cx leaf \<longleftrightarrow> expression_ok cx (lc_lhs leaf) \<and> (case lc_rhs leaf of RhsText e \<Rightarrow> expression_ok cx e | RhsNum _ \<Rightarrow> True)"

fun conditions_ok :: "resolver_ctx \<Rightarrow> condition list \<Rightarrow> bool" where
  "conditions_ok cx [] = True"
| "conditions_ok cx (Leaf leaf # cs) = (leaf_ok cx leaf \<and> conditions_ok cx cs)"
| "conditions_ok cx (Sub op ds # cs) = (conditions_ok cx ds \<and> conditions_ok cx cs)"

definition tree_ok :: "resolver_ctx \<Rightarrow> condition_tree option \<Rightarrow> bool" where
  "tree_ok cx tree = (case tree of None \<Rightarrow> True | Some (op, cs) \<Rightarrow> conditions_ok cx cs)"

definition stop_ok :: "resolver_ctx \<Rightarrow> exit_stop \<Rightarrow> bool" where
  "stop_ok cx stop =
     (case stop of
        AtrMultipleStop ind _ \<Rightarrow> ind \<in> set (cx_indicator_ids cx)
      | BasketAtrMultipleStop ind _ \<Rightarrow> ind \<in> set (cx_indicator_ids cx)
      | ChannelExitStop lng short \<Rightarrow> leaf_ok cx lng \<and> leaf_ok cx short
      | MeanReversionToMidStop lng short \<Rightarrow> leaf_ok cx lng \<and> leaf_ok cx short
      | CalendarExitStop cond \<Rightarrow> leaf_ok cx cond
      | ZscoreStop cond \<Rightarrow> leaf_ok cx cond
      | _ \<Rightarrow> True)"

definition filter_ok :: "resolver_ctx \<Rightarrow> ir_filter \<Rightarrow> bool" where
  "filter_ok cx flt =
     (case if_lhs flt of
        None \<Rightarrow> True
      | Some lhs \<Rightarrow> known_name cx lhs \<and> (case if_rhs flt of Some (RhsText e) \<Rightarrow> expression_ok cx e | _ \<Rightarrow> True))"

definition indicator_ok :: "resolver_ctx \<Rightarrow> indicator \<Rightarrow> bool" where
  "indicator_ok cx ind =
     (case ind of
        ZscoreIndicator zid tf src mean std \<Rightarrow> mean \<in> set (cx_indicator_ids cx) \<and> std \<in> set (cx_indicator_ids cx)
      | _ \<Rightarrow> True)"

lemma runs_atom:
  assumes "\<And>b. dep = Some b \<Longrightarrow> b \<in> node_names cx"
  shows "runs (node_names cx) (known_name cx s) {(a, b). dep = Some b \<and> reads_node cx s a} (classify_atom cx s loc dep)"
  unfolding runs_def
proof (intro allI impI)
  fix wk :: resolver_work assume wk: "graph_ok (wk_edges_out wk)" "nodes (wk_edges_out wk) = node_names cx"
  let ?g = "wk_edges_out wk"
  obtain kind target where l: "lookup_identifier cx (map fst ?g) s = (kind, target)" by fastforce
  have k: "kind \<noteq> None \<longleftrightarrow> known_name cx s" using lookup_known [of cx "map fst ?g" s] l by simp
  have t: "target = Some a \<longleftrightarrow> reads_node cx s a" for a using lookup_target [of "map fst ?g" cx s a] wk l by simp
  have fn: "reads_node cx s a \<Longrightarrow> reads_node cx s a' \<Longrightarrow> a = a'" for a a' using t by (metis option.inject)
  have "(case (dep, target) of (Some b, Some a) \<Rightarrow> if a \<in> nodes ?g then {(a, b)} else {} | _ \<Rightarrow> {}) =
      {(a, b). dep = Some b \<and> reads_node cx s a}"
    using t reads_node_in [of cx s] wk(2) fn by (auto split: option.splits)
  with add_edge_effect [OF wk(1), of dep target] assms wk(2) l k
  show "if known_name cx s then \<exists>wk'. classify_atom cx s loc dep wk = Inr wk' \<and> graph_ok (wk_edges_out wk') \<and>
      nodes (wk_edges_out wk') = node_names cx \<and>
      edge_set (wk_edges_out wk') = edge_set ?g \<union> {(a, b). dep = Some b \<and> reads_node cx s a}
    else classify_atom cx s loc dep wk = Inl ir_reference_error"
    by (auto simp: classify_atom_def Let_def add_reference_def split: option.splits)
qed

lemma runs_indicator_ref:
  assumes "\<And>b. dep = Some b \<Longrightarrow> b \<in> node_names cx"
  shows "runs (node_names cx) (s \<in> set (cx_indicator_ids cx)) {(a, b). dep = Some b \<and> a = s}
    (classify_indicator_only_ref cx s loc dep)"
  unfolding runs_def
proof (intro allI impI)
  fix wk :: resolver_work assume wk: "graph_ok (wk_edges_out wk)" "nodes (wk_edges_out wk) = node_names cx"
  let ?g = "wk_edges_out wk"
  have "(case (dep, Some s) of (Some b, Some a) \<Rightarrow> if a \<in> nodes ?g then {(a, b)} else {} | _ \<Rightarrow> {}) = {(a, b). dep = Some b \<and> a = s}"
    if "s \<in> set (cx_indicator_ids cx)" using that wk(2) by (auto simp: node_names_def split: option.splits)
  with add_edge_effect [OF wk(1), of dep "Some s"] assms wk(2)
  show "if s \<in> set (cx_indicator_ids cx) then \<exists>wk'. classify_indicator_only_ref cx s loc dep wk = Inr wk' \<and>
      graph_ok (wk_edges_out wk') \<and> nodes (wk_edges_out wk') = node_names cx \<and>
      edge_set (wk_edges_out wk') = edge_set ?g \<union> {(a, b). dep = Some b \<and> a = s}
    else classify_indicator_only_ref cx s loc dep wk = Inl ir_reference_error"
    by (auto simp: classify_indicator_only_ref_def Let_def add_reference_def)
qed

lemma runs_token:
  assumes "\<And>b. dep = Some b \<Longrightarrow> b \<in> node_names cx"
  shows "runs (node_names cx) (t \<in> set math_functions \<or> known_name cx t)
    {(a, b). dep = Some b \<and> t \<notin> set math_functions \<and> reads_node cx t a} (resolve_token cx loc dep i t)"
proof (cases "t \<in> set math_functions")
  case True
  then have "resolve_token cx loc dep i t = (\<lambda>wk. Inr (add_reference loc (RawText t) ''expression_atom'' None wk))"
    by (simp add: fun_eq_iff resolve_token_def)
  with True show ?thesis by simp
next
  case False
  then have "resolve_token cx loc dep i t = classify_atom cx t loc dep" by (simp add: fun_eq_iff resolve_token_def)
  with False runs_atom [OF assms] show ?thesis by simp
qed

lemma runs_expression:
  assumes "\<And>b. dep = Some b \<Longrightarrow> b \<in> node_names cx"
  shows "runs (node_names cx) (expression_ok cx e) {(a, b). dep = Some b \<and> a \<in> expression_reads cx e} (resolve_expression cx e loc dep)"
proof (cases "idents e = []")
  case True
  then have "resolve_expression cx e loc dep = (\<lambda>wk. Inr (add_reference loc (RawText e) ''literal'' None wk))"
    by (simp add: fun_eq_iff resolve_expression_def)
  with True show ?thesis by (simp add: expression_ok_def expression_reads_def)
next
  case False
  then have eq: "resolve_expression cx e loc dep = each (resolve_token cx loc dep) 0 (idents e)"
    by (simp add: fun_eq_iff resolve_expression_def)
  have "runs (node_names cx) (\<forall>t\<in>set (idents e). t \<in> set math_functions \<or> known_name cx t)
      (\<Union>t\<in>set (idents e). {(a, b). dep = Some b \<and> t \<notin> set math_functions \<and> reads_node cx t a})
      (each (resolve_token cx loc dep) 0 (idents e))"
    by (rule runs_each) (rule runs_token [OF assms])
  then show ?thesis unfolding eq
    by (rule runs_cong) (auto simp: expression_ok_def expression_reads_def)
qed

lemmas runs_plain_expression = runs_expression [of None, simplified]

lemma runs_leaf: "runs (node_names cx) (leaf_ok cx leaf) {} (resolve_leaf_condition cx leaf loc)"
proof (cases "lc_rhs leaf")
  case (RhsText e)
  have "resolve_leaf_condition cx leaf loc =
      (\<lambda>wk. bind_r (resolve_expression cx (lc_lhs leaf) (loc @ ''.lhs'') None wk) (resolve_expression cx e (loc @ ''.rhs'') None))"
    using RhsText by (simp add: fun_eq_iff resolve_leaf_condition_def)
  with RhsText runs_bind [OF runs_plain_expression runs_plain_expression] show ?thesis by (simp add: leaf_ok_def)
next
  case (RhsNum x)
  have "resolve_leaf_condition cx leaf loc =
      (\<lambda>wk. bind_r (resolve_expression cx (lc_lhs leaf) (loc @ ''.lhs'') None wk)
         (\<lambda>wk1. Inr (add_reference (loc @ ''.rhs'') (RawNum x) ''literal'' None wk1)))"
    using RhsNum by (simp add: fun_eq_iff resolve_leaf_condition_def)
  with RhsNum runs_bind [OF runs_plain_expression runs_reference] show ?thesis by (simp add: leaf_ok_def)
qed

lemma runs_conditions: "runs (node_names cx) (conditions_ok cx cs) {} (resolve_conditions cx loc i cs)"
proof (induction cx cs arbitrary: loc i rule: conditions_ok.induct)
  case (1 cx)
  have "resolve_conditions cx loc i [] = Inr" by (simp add: fun_eq_iff)
  then show ?case by simp
next
  case (2 cx leaf cs)
  have "resolve_conditions cx loc i (Leaf leaf # cs) =
      (\<lambda>wk. bind_r (resolve_leaf_condition cx leaf (index_at (loc @ ''.conditions'') i) wk) (resolve_conditions cx loc (Suc i) cs))"
    by (simp add: fun_eq_iff)
  with runs_bind [OF runs_leaf 2] show ?case by simp
next
  case (3 cx op ds cs)
  have "resolve_conditions cx loc i (Sub op ds # cs) =
      (\<lambda>wk. bind_r (resolve_conditions cx (index_at (loc @ ''.conditions'') i) 0 ds wk) (resolve_conditions cx loc (Suc i) cs))"
    by (simp add: fun_eq_iff)
  with runs_bind [OF 3(1) 3(2)] show ?case by simp
qed

lemma runs_tree: "runs (node_names cx) (tree_ok cx tree) {} (resolve_condition_tree cx tree loc)"
proof (cases tree)
  case None
  have "resolve_condition_tree cx tree loc = Inr" using None by (simp add: fun_eq_iff resolve_condition_tree_def)
  with None show ?thesis by (simp add: tree_ok_def)
next
  case (Some t)
  have "resolve_condition_tree cx tree loc = resolve_conditions cx loc 0 (snd t)"
    using Some by (simp add: fun_eq_iff resolve_condition_tree_def split: prod.splits)
  with Some runs_conditions show ?thesis by (simp add: tree_ok_def split: prod.splits)
qed

lemma runs_stop: "runs (node_names cx) (stop_ok cx stop) {} (resolve_exit_stop cx stop loc)"
proof -
  note two = runs_bind [OF runs_leaf runs_leaf, simplified] and ref = runs_indicator_ref [of None, simplified]
  show ?thesis
    using two ref runs_leaf by (cases stop) (simp_all add: stop_ok_def resolve_exit_stop_def [abs_def])
qed

lemma runs_filter: "runs (node_names cx) (filter_ok cx flt) {} (resolve_filter cx i flt)"
proof -
  note atom = runs_atom [of None, simplified]
  show ?thesis
    using runs_bind [OF atom runs_plain_expression] runs_bind [OF atom runs_Inr]
    by (cases "if_lhs flt"; cases "if_rhs flt"; cases "the (if_rhs flt)") (simp_all add: filter_ok_def resolve_filter_def [abs_def])
qed

lemma runs_indicator:
  assumes "indicator_id ind \<in> node_names cx"
  shows "runs (node_names cx) (indicator_ok cx ind)
    {(a, b). \<exists>tf src mean std. ind = ZscoreIndicator b tf src mean std \<and> (a = mean \<or> a = std)} (resolve_indicator cx i ind)"
proof (cases "\<exists>zid tf src mean std. ind = ZscoreIndicator zid tf src mean std")
  case True
  then obtain zid tf src mean std where z: "ind = ZscoreIndicator zid tf src mean std" by blast
  have r: "runs (node_names cx) (s \<in> set (cx_indicator_ids cx)) {(a, b). Some zid = Some b \<and> a = s}
      (classify_indicator_only_ref cx s loc (Some zid))" for s loc
    by (rule runs_indicator_ref) (use assms z in simp)
  have eq: "resolve_indicator cx i ind = (\<lambda>wk. bind_r
      (classify_indicator_only_ref cx mean (index_at ''indicators'' i @ ''.mean_source'') (Some zid) wk)
      (classify_indicator_only_ref cx std (index_at ''indicators'' i @ ''.std_source'') (Some zid)))"
    using z by (simp add: fun_eq_iff resolve_indicator_def)
  show ?thesis unfolding eq by (rule runs_cong [OF runs_bind [OF r r]]) (auto simp: z indicator_ok_def)
next
  case False
  then have "resolve_indicator cx i ind = Inr" by (auto simp: fun_eq_iff resolve_indicator_def split: indicator.splits)
  moreover have "indicator_ok cx ind" using False by (auto simp: indicator_ok_def split: indicator.splits)
  ultimately show ?thesis using False by (auto intro!: runs_cong [OF runs_Inr])
qed

section \<open>The whole strategy\<close>

definition ctx_of :: "strategy_ir \<Rightarrow> resolver_ctx" where
  "ctx_of ir =
     \<lparr>cx_indicator_ids = map indicator_id (ir_indicators ir), cx_derived_field_ids = derived_ids ir,
      cx_price_fields = dq_required_fields (ir_data_requirements ir),
      cx_confirmation_timeframes = dq_confirmation_timeframes (ir_data_requirements ir),
      cx_primary_timeframe = dq_primary_timeframe (ir_data_requirements ir),
      cx_has_basket_templates = (el_basket_templates (ir_entry_logic ir) \<noteq> None)\<rparr>"

abbreviation derived_fields_of :: "strategy_ir \<Rightarrow> derived_field list" where
  "derived_fields_of ir \<equiv> (case ir_derived_fields ir of None \<Rightarrow> [] | Some dfs \<Rightarrow> dfs)"

abbreviation templates_of :: "entry_logic \<Rightarrow> basket_template list" where
  "templates_of el \<equiv> (case el_basket_templates el of None \<Rightarrow> [] | Some bts \<Rightarrow> bts)"

abbreviation filters_of :: "strategy_ir \<Rightarrow> ir_filter list" where
  "filters_of ir \<equiv> (case ir_filters ir of None \<Rightarrow> [] | Some fs \<Rightarrow> fs)"

definition entry_ok :: "resolver_ctx \<Rightarrow> entry_logic \<Rightarrow> bool" where
  "entry_ok cx el \<longleftrightarrow> tree_ok cx (el_long el) \<and> tree_ok cx (el_short el) \<and>
     (\<forall>bt\<in>set (templates_of el). leaf_ok cx (bt_active_when bt)) \<and> tree_ok cx (el_entry_filters el)"

text \<open>Every name of the strategy is known, and no derived field has the name of an indicator.\<close>

definition well_scoped :: "strategy_ir \<Rightarrow> bool" where
  "well_scoped ir \<longleftrightarrow>
     set (map indicator_id (ir_indicators ir)) \<inter> set (derived_ids ir) = {} \<and>
     (\<forall>ind\<in>set (ir_indicators ir). indicator_ok (ctx_of ir) ind) \<and>
     (\<forall>df\<in>set (derived_fields_of ir). expression_ok (ctx_of ir) (df_formula df)) \<and>
     entry_ok (ctx_of ir) (ir_entry_logic ir) \<and>
     (\<forall>(name, stop)\<in>set (exit_stops (ir_exit_logic ir)). stop_ok (ctx_of ir) stop) \<and>
     (\<forall>flt\<in>set (filters_of ir). filter_ok (ctx_of ir) flt)"

text \<open>\<open>(a, b)\<close>: node \<open>b\<close> reads node \<open>a\<close>.\<close>

definition dependencies :: "strategy_ir \<Rightarrow> (string \<times> string) set" where
  "dependencies ir =
     {(a, b). \<exists>tf src mean std. ZscoreIndicator b tf src mean std \<in> set (ir_indicators ir) \<and> (a = mean \<or> a = std)} \<union>
     {(a, b). \<exists>df\<in>set (derived_fields_of ir). b = df_id df \<and> a \<in> expression_reads (ctx_of ir) (df_formula df)}"

lemma bind_r_assoc: "bind_r (bind_r r f) g = bind_r r (\<lambda>x. bind_r (f x) g)"
  by (cases r) simp_all

definition resolve_parts :: "strategy_ir \<Rightarrow> resolver_work \<Rightarrow> (exn, resolver_work) result" where
  "resolve_parts ir wk =
     bind_r (resolve_indicator_definitions (ctx_of ir) ir wk) (\<lambda>wk1.
     bind_r (resolve_derived_fields (ctx_of ir) ir wk1) (\<lambda>wk2.
     bind_r (resolve_entry_logic (ctx_of ir) (ir_entry_logic ir) wk2) (\<lambda>wk3.
     bind_r (resolve_exit_logic (ctx_of ir) (ir_exit_logic ir) wk3) (resolve_filters (ctx_of ir) ir))))"

lemma resolve_as_parts:
  "resolve ir = bind_r (build_state ir) (\<lambda>(cx, wk0). bind_r (resolve_parts ir wk0) (\<lambda>wk.
     bind_r (topological_sort (wk_edges_out wk)) (\<lambda>order.
     Inr \<lparr>rd_references = wk_references wk, rd_topological_order = order\<rparr>)))"
  by (auto simp: resolve_def resolve_parts_def build_state_def ctx_of_def Let_def bind_r_assoc)

lemma runs_entry: "runs (node_names cx) (entry_ok cx el) {} (resolve_entry_logic cx el)"
proof -
  have t: "runs (node_names cx) (\<forall>bt\<in>set (templates_of el). leaf_ok cx (bt_active_when bt)) (\<Union>bt\<in>set (templates_of el). {})
      (each (resolve_basket_template cx) 0 (templates_of el))"
    by (rule runs_each) (simp add: resolve_basket_template_def runs_leaf)
  from runs_bind [OF runs_tree [of cx "el_long el" "''entry_logic.long.logic''"] runs_bind [OF runs_tree
      [of cx "el_short el" "''entry_logic.short.logic''"] runs_bind [OF t runs_tree [of cx "el_entry_filters el" "''entry_logic.entry_filters''"]]]]
  show ?thesis by (simp add: entry_ok_def resolve_entry_logic_def [abs_def])
qed

lemma runs_derived:
  assumes "set (derived_ids ir) \<subseteq> node_names cx"
  shows "runs (node_names cx) (\<forall>df\<in>set (derived_fields_of ir). expression_ok cx (df_formula df))
    {(a, b). \<exists>df\<in>set (derived_fields_of ir). b = df_id df \<and> a \<in> expression_reads cx (df_formula df)} (resolve_derived_fields cx ir)"
proof -
  let ?f = "\<lambda>i df. resolve_expression cx (df_formula df) (index_at ''derived_fields'' i @ ''.formula'') (Some (df_id df))"
  have eq: "resolve_derived_fields cx ir = each ?f 0 (derived_fields_of ir)"
    by (simp add: fun_eq_iff resolve_derived_fields_def split: option.splits)
  have r: "runs (node_names cx) (\<forall>df\<in>set (derived_fields_of ir). expression_ok cx (df_formula df))
      (\<Union>df\<in>set (derived_fields_of ir). {(a, b). Some (df_id df) = Some b \<and> a \<in> expression_reads cx (df_formula df)})
      (each ?f 0 (derived_fields_of ir))"
  proof (rule runs_each)
    fix i df assume "df \<in> set (derived_fields_of ir)"
    then have "df_id df \<in> node_names cx" using assms by (auto simp: derived_ids_def split: option.splits)
    then show "runs (node_names cx) (expression_ok cx (df_formula df))
        {(a, b). Some (df_id df) = Some b \<and> a \<in> expression_reads cx (df_formula df)} (?f i df)"
      by (intro runs_expression) simp
  qed
  show ?thesis unfolding eq by (rule runs_cong [OF r]) auto
qed

lemma runs_parts:
  "runs (node_names (ctx_of ir))
     ((\<forall>ind\<in>set (ir_indicators ir). indicator_ok (ctx_of ir) ind) \<and>
      (\<forall>df\<in>set (derived_fields_of ir). expression_ok (ctx_of ir) (df_formula df)) \<and>
      entry_ok (ctx_of ir) (ir_entry_logic ir) \<and>
      (\<forall>(name, stop)\<in>set (exit_stops (ir_exit_logic ir)). stop_ok (ctx_of ir) stop) \<and>
      (\<forall>flt\<in>set (filters_of ir). filter_ok (ctx_of ir) flt))
     (dependencies ir) (resolve_parts ir)"
proof -
  let ?cx = "ctx_of ir"
  have ids: "set (derived_ids ir) \<subseteq> node_names ?cx" "\<And>ind. ind \<in> set (ir_indicators ir) \<Longrightarrow> indicator_id ind \<in> node_names ?cx"
    by (auto simp: node_names_def ctx_of_def)
  have a: "runs (node_names ?cx) (\<forall>ind\<in>set (ir_indicators ir). indicator_ok ?cx ind)
      (\<Union>ind\<in>set (ir_indicators ir). {(a, b). \<exists>tf src mean std. ind = ZscoreIndicator b tf src mean std \<and> (a = mean \<or> a = std)})
      (resolve_indicator_definitions ?cx ir)"
    unfolding resolve_indicator_definitions_def by (intro runs_each runs_indicator ids(2))
  have x: "runs (node_names ?cx) (\<forall>(name, stop)\<in>set (exit_stops (ir_exit_logic ir)). stop_ok ?cx stop)
      (\<Union>ns\<in>set (exit_stops (ir_exit_logic ir)). {}) (resolve_exit_logic ?cx (ir_exit_logic ir))"
    unfolding resolve_exit_logic_def by (rule runs_each) (auto simp: runs_stop split: prod.splits)
  have f: "runs (node_names ?cx) (\<forall>flt\<in>set (filters_of ir). filter_ok ?cx flt) (\<Union>flt\<in>set (filters_of ir). {}) (resolve_filters ?cx ir)"
    unfolding resolve_filters_def by (rule runs_each) (simp add: runs_filter)
  show ?thesis
    unfolding resolve_parts_def [abs_def]
    by (rule runs_cong [OF runs_bind [OF a runs_bind [OF runs_derived [OF ids(1)] runs_bind [OF runs_entry runs_bind [OF x f]]]]])
      (auto simp: dependencies_def)
qed


lemma build_state_cases:
  "build_state ir =
     (if set (map indicator_id (ir_indicators ir)) \<inter> set (derived_ids ir) \<noteq> {} then Inl ir_reference_error
      else Inr (ctx_of ir, \<lparr>wk_references = [],
        wk_edges_out = map (\<lambda>i. (i, [])) (remdups (map indicator_id (ir_indicators ir) @ derived_ids ir))\<rparr>))"
  by (auto simp: build_state_def ctx_of_def Let_def list_ex_iff)

lemma initial_graph:
  "graph_ok (map (\<lambda>i. (i, [])) (remdups xs))" "nodes (map (\<lambda>i. (i, [])) (remdups xs)) = set xs"
  "edge_set (map (\<lambda>i. (i, [])) (remdups xs)) = {}"
proof -
  have get: "dict_get (map (\<lambda>i. (i, [])) (remdups xs)) k = Some ts \<Longrightarrow> ts = []" for k ts by (auto dest!: map_of_SomeD)
  then show "graph_ok (map (\<lambda>i. (i, [])) (remdups xs))" "edge_set (map (\<lambda>i. (i, [])) (remdups xs)) = {}"
    by (fastforce simp: graph_ok_def dict_ok_def o_def, fastforce simp: edge_set_def)
qed (simp add: image_image)

lemma resolve_cases:
  obtains (resolved) res where "resolve ir = Inr res" "well_scoped ir" "acyclic (dependencies ir)"
      "distinct (rd_topological_order res)" "set (rd_topological_order res) = node_names (ctx_of ir)"
      "ordered (dependencies ir) (rd_topological_order res)"
  | (refused) "resolve ir = Inl ir_reference_error" "\<not> (well_scoped ir \<and> acyclic (dependencies ir))"
proof (cases "well_scoped ir")
  case True
  let ?wk = "\<lparr>wk_references = [], wk_edges_out = map (\<lambda>i. (i, [])) (remdups (map indicator_id (ir_indicators ir) @ derived_ids ir))\<rparr>"
  have b: "build_state ir = Inr (ctx_of ir, ?wk)" using True by (simp add: build_state_cases well_scoped_def)
  have N: "node_names (ctx_of ir) = set (map indicator_id (ir_indicators ir) @ derived_ids ir)"
    by (simp add: node_names_def ctx_of_def)
  obtain wk where wk: "resolve_parts ir ?wk = Inr wk" "graph_ok (wk_edges_out wk)" "nodes (wk_edges_out wk) = node_names (ctx_of ir)"
    "edge_set (wk_edges_out wk) = dependencies ir"
    using runs_parts [of ir, unfolded runs_def, rule_format, of ?wk] True initial_graph [of "map indicator_id (ir_indicators ir) @ derived_ids ir"]
    by (auto simp: well_scoped_def N)
  have r: "resolve ir = bind_r (topological_sort (wk_edges_out wk)) (\<lambda>order.
      Inr \<lparr>rd_references = wk_references wk, rd_topological_order = order\<rparr>)"
    by (simp add: resolve_as_parts b wk(1))
  from wk(2) show thesis
  proof (cases rule: topological_sort_cases)
    case (sorted order)
    with r wk True resolved show thesis by simp
  next
    case cyclic
    with r wk refused show thesis by (simp add: ir_reference_error_def)
  qed
next
  case False
  have "resolve ir = Inl ir_reference_error"
  proof (cases "set (map indicator_id (ir_indicators ir)) \<inter> set (derived_ids ir) \<noteq> {}")
    case True
    then show ?thesis by (simp add: resolve_as_parts build_state_cases)
  next
    case apart: False
    let ?wk = "\<lparr>wk_references = [], wk_edges_out = map (\<lambda>i. (i, [])) (remdups (map indicator_id (ir_indicators ir) @ derived_ids ir))\<rparr>"
    have "node_names (ctx_of ir) = set (map indicator_id (ir_indicators ir) @ derived_ids ir)"
      by (simp add: node_names_def ctx_of_def)
    then have "resolve_parts ir ?wk = Inl ir_reference_error"
      using runs_parts [of ir, unfolded runs_def, rule_format, of ?wk] False apart
        initial_graph [of "map indicator_id (ir_indicators ir) @ derived_ids ir"]
      by (auto simp: well_scoped_def split: if_splits)
    then show ?thesis using apart by (simp add: resolve_as_parts build_state_cases)
  qed
  with False refused show thesis by blast
qed

section \<open>Properties\<close>


text \<open>
  The order that the resolver returns can be computed from left to right: it lists every indicator and
  every derived field once, and each comes after all the nodes that it reads, also when it reads an
  earlier bar of them.
\<close>

theorem resolved_order_respects_dependencies:
  assumes "resolve ir = Inr res"
  shows "distinct (rd_topological_order res) \<and>
    set (rd_topological_order res) = indicator_id ` set (ir_indicators ir) \<union> set (derived_ids ir) \<and>
    (\<forall>xs b ys a. rd_topological_order res = xs @ b # ys \<longrightarrow> (a, b) \<in> dependencies ir \<longrightarrow> a \<in> set xs)"
  using assms by (cases ir rule: resolve_cases) (auto simp: ordered_def node_names_def ctx_of_def)

definition demo_leaf :: "string \<Rightarrow> string \<Rightarrow> leaf_condition" where
  "demo_leaf l r = \<lparr>lc_lhs = l, lc_operator = ''>'', lc_rhs = RhsText r, lc_units = None\<rparr>"

definition demo_ir :: strategy_ir where
  "demo_ir = blank_ir
     \<lparr>ir_data_requirements := \<lparr>dq_primary_timeframe = ''1h'', dq_confirmation_timeframes = [''1d''], dq_required_fields = [''close'']\<rparr>,
      ir_indicators := [ZscoreIndicator ''z'' ''1h'' ''close'' ''m'' ''s'', SmaIndicator ''m'' ''1h'' ''close'' 20,
        RollingStddevIndicator ''s'' ''1h'' ''close'' 20],
      ir_entry_logic := (ir_entry_logic blank_ir)
        \<lparr>el_long := Some (''and'', [Leaf (demo_leaf ''abs(z)'' ''gap_prev_1 * 2''), Sub ''or'' [Leaf (demo_leaf ''close_1d'' ''m'')]])\<rparr>,
      ir_exit_logic := no_exits\<lparr>xl_primary_exit := Some (ZscoreStop (demo_leaf ''z'' ''0''))\<rparr>,
      ir_derived_fields := Some [\<lparr>df_id = ''gap'', df_formula = ''close - m_prev_2''\<rparr>]\<rparr>"

lemma demo_idents:
  "idents ''abs(z)'' = [''abs'', ''z'']" "idents ''gap_prev_1 * 2'' = [''gap_prev_1'']" "idents ''close_1d'' = [''close_1d'']"
  "idents ''m'' = [''m'']" "idents ''z'' = [''z'']" "idents ''0'' = []" "idents ''close - m_prev_2'' = [''close'', ''m_prev_2'']"
  by (simp_all add: idents.simps ident_start_def ident_char_def ascii_digit_def)

lemma demo_prev: "prev_match ''gap_prev_1'' = Some (''gap'', 1)" "prev_match ''m_prev_2'' = Some (''m'', 2)"
  by (simp_all add: prev_match_def Let_def ascii_digit_def line_feed_def ends_with_def chop_def text_nat_def)

lemma demo_ctx:
  "cx_indicator_ids (ctx_of demo_ir) = [''z'', ''m'', ''s'']" "cx_derived_field_ids (ctx_of demo_ir) = [''gap'']"
  "cx_price_fields (ctx_of demo_ir) = [''close'']" "cx_confirmation_timeframes (ctx_of demo_ir) = [''1d'']"
  "cx_primary_timeframe (ctx_of demo_ir) = ''1h''" "\<not> cx_has_basket_templates (ctx_of demo_ir)"
  by (simp_all add: ctx_of_def demo_ir_def blank_ir_def derived_ids_def)

lemma demo_names_known:
  "known_name (ctx_of demo_ir) ''z''" "known_name (ctx_of demo_ir) ''m''" "known_name (ctx_of demo_ir) ''gap_prev_1''"
  "known_name (ctx_of demo_ir) ''close_1d''" "known_name (ctx_of demo_ir) ''close''" "known_name (ctx_of demo_ir) ''m_prev_2''"
proof -
  show n: "known_name (ctx_of demo_ir) ''z''" "known_name (ctx_of demo_ir) ''m''"
    by (rule known_node, simp add: node_names_def demo_ctx)+
  have "known_name (ctx_of demo_ir) ''gap''" by (rule known_node) (simp add: node_names_def demo_ctx)
  from known_prev [OF demo_prev(1) this] known_prev [OF demo_prev(2) n(2)]
  show "known_name (ctx_of demo_ir) ''gap_prev_1''" "known_name (ctx_of demo_ir) ''m_prev_2''" by auto
  show "known_name (ctx_of demo_ir) ''close_1d''" "known_name (ctx_of demo_ir) ''close''"
    by (rule known_field, simp add: field_name_def demo_ctx is_cross_timeframe_ref_def ends_with_def chop_def)+
qed

lemma demo_parts:
  "ir_indicators demo_ir = [ZscoreIndicator ''z'' ''1h'' ''close'' ''m'' ''s'', SmaIndicator ''m'' ''1h'' ''close'' 20,
     RollingStddevIndicator ''s'' ''1h'' ''close'' 20]"
  "derived_fields_of demo_ir = [\<lparr>df_id = ''gap'', df_formula = ''close - m_prev_2''\<rparr>]" "derived_ids demo_ir = [''gap'']"
  "el_long (ir_entry_logic demo_ir) =
     Some (''and'', [Leaf (demo_leaf ''abs(z)'' ''gap_prev_1 * 2''), Sub ''or'' [Leaf (demo_leaf ''close_1d'' ''m'')]])"
  "el_short (ir_entry_logic demo_ir) = None" "el_basket_templates (ir_entry_logic demo_ir) = None"
  "el_entry_filters (ir_entry_logic demo_ir) = None"
  "exit_stops (ir_exit_logic demo_ir) = [(''primary_exit'', ZscoreStop (demo_leaf ''z'' ''0''))]" "filters_of demo_ir = []"
  by (simp_all add: demo_ir_def blank_ir_def no_exits_def exit_stops_def derived_ids_def)

lemma demo_well_scoped: "well_scoped demo_ir"
  unfolding well_scoped_def entry_ok_def demo_parts
  by (simp add: demo_ctx indicator_ok_def expression_ok_def tree_ok_def leaf_ok_def stop_ok_def demo_leaf_def demo_idents
      math_functions_def demo_names_known)

lemma demo_reads: "reads_node (ctx_of demo_ir) ''m_prev_2'' a \<longleftrightarrow> a = ''m''" "\<not> reads_node (ctx_of demo_ir) ''close'' a"
proof -
  have "reads_node (ctx_of demo_ir) ''m'' a \<longleftrightarrow> a = ''m''"
    by (subst reads_node_iff) (auto simp: node_names_def demo_ctx)
  then show "reads_node (ctx_of demo_ir) ''m_prev_2'' a \<longleftrightarrow> a = ''m''"
    by (subst reads_node_iff) (auto simp: node_names_def demo_ctx demo_prev field_name_def is_cross_timeframe_ref_def ends_with_def)
  show "\<not> reads_node (ctx_of demo_ir) ''close'' a"
    by (subst reads_node_iff) (auto simp: node_names_def demo_ctx field_name_def)
qed

lemma demo_dependencies: "dependencies demo_ir = {(''m'', ''z''), (''s'', ''z''), (''m'', ''gap'')}"
  unfolding dependencies_def demo_parts by (auto simp: expression_reads_def demo_idents demo_reads math_functions_def)

lemma demo_acyclic: "acyclic (dependencies demo_ir)"
proof (rule acyclic_subset [OF wf_acyclic])
  show "wf (measure (\<lambda>s. if s = ''z'' \<or> s = ''gap'' then 1 else 0))" by simp
  show "dependencies demo_ir \<subseteq> measure (\<lambda>s. if s = ''z'' \<or> s = ''gap'' then 1 else 0)" by (simp add: demo_dependencies)
qed

theorem resolved_order_respects_dependencies_witness:
  "\<exists>res. resolve demo_ir = Inr res \<and> set (rd_topological_order res) = {''z'', ''m'', ''s'', ''gap''} \<and>
     (\<forall>xs ys. rd_topological_order res = xs @ ''z'' # ys \<longrightarrow> ''m'' \<in> set xs \<and> ''s'' \<in> set xs)"
proof -
  obtain res where r: "resolve demo_ir = Inr res" using demo_well_scoped demo_acyclic by (cases demo_ir rule: resolve_cases) auto
  from resolved_order_respects_dependencies [OF r] r show ?thesis
    by (auto simp: demo_dependencies demo_parts)
qed

end
