(* ===== verification/Strategy_Risk.thy ===== *)
theory Strategy_Risk
  imports Float64 Strategy_IR
begin

text \<open>
  The risk model of a compiled strategy, \<open>libs/strategy_ir/risk_translator.py\<close>: the sizing of a position, the gate in
  front of a trade and the bookkeeping after it. Texts of decisions are left out, their reasons kept. A day is the
  number of a UTC day.
\<close>

section \<open>Data\<close>

definition supported_sizing_methods :: "string list" where
  "supported_sizing_methods = [''fixed_fractional_risk'', ''fixed_basket_risk'']"

record proposed_trade =
  pt_symbol :: string
  pt_direction :: string
  pt_entry_price :: py_float
  pt_stop_price :: py_float
  pt_bar_timestamp :: datetime

record closed_trade =
  ct_symbol :: string
  ct_realized_pnl :: py_float
  ct_closed_at :: datetime

datatype gate_decision = Allow | Block string

record equity_state =
  es_starting_equity :: py_float
  es_current_equity :: py_float
  es_peak_equity :: py_float
  es_daily_realized_pnl :: py_float
  es_current_trading_day :: "int option"
  es_halted :: bool
  es_halt_reason :: string

record compiled_risk_model =
  cr_risk_pct_of_equity :: py_float
  cr_daily_loss_limit_pct :: py_float
  cr_max_drawdown_halt_pct :: py_float
  cr_method :: string

definition invalid_risk_input :: exn where
  "invalid_risk_input = PyError ''InvalidRiskInputError''"

section \<open>Operations\<close>

definition translate :: "risk_model \<Rightarrow> (exn, compiled_risk_model) result" where
  "translate rm =
     (if sz_method (rm_position_sizing rm) \<notin> set supported_sizing_methods then Inl (PyError ''UnsupportedRiskMethodError'')
      else Inr \<lparr>cr_risk_pct_of_equity = round64 (sz_risk_pct_of_equity (rm_position_sizing rm)),
                cr_daily_loss_limit_pct = round64 (rm_daily_loss_limit_pct rm),
                cr_max_drawdown_halt_pct = round64 (rm_max_drawdown_halt_pct rm),
                cr_method = sz_method (rm_position_sizing rm)\<rparr>)"

definition make_initial_equity_state :: "py_float \<Rightarrow> (exn, equity_state) result" where
  "make_initial_equity_state e =
     (if \<not> f_less (Num 0) e then Inl invalid_risk_input
      else Inr \<lparr>es_starting_equity = e, es_current_equity = e, es_peak_equity = e, es_daily_realized_pnl = Num 0,
                es_current_trading_day = None, es_halted = False, es_halt_reason = []\<rparr>)"

text \<open>A hundredth of a percentage; the divisor is not zero.\<close>

definition fraction :: "py_float \<Rightarrow> py_float" where
  "fraction pct = (case f_div pct (Num 100) of Inr x \<Rightarrow> x | Inl e \<Rightarrow> NaN)"

definition f_abs :: "py_float \<Rightarrow> py_float" where
  "f_abs x = (case x of Inf _ \<Rightarrow> Inf False | Num q \<Rightarrow> Num \<bar>q\<bar> | NaN \<Rightarrow> NaN)"

definition position_sizer :: "compiled_risk_model \<Rightarrow> py_float \<Rightarrow> py_float \<Rightarrow> py_float \<Rightarrow> (exn, py_float) result" where
  "position_sizer m entry stop equity =
     (if \<not> f_less (Num 0) entry then Inl invalid_risk_input
      else if \<not> f_less (Num 0) equity then Inl invalid_risk_input
      else
        let stop_distance = f_abs (f_sub entry stop)
        in if f_eq stop_distance (Num 0) then Inl invalid_risk_input
           else f_div (f_mul (fraction (cr_risk_pct_of_equity m)) equity) stop_distance)"

definition drawdown_floor :: "compiled_risk_model \<Rightarrow> equity_state \<Rightarrow> py_float" where
  "drawdown_floor m s = f_mul (es_peak_equity s) (f_sub (Num 1) (fraction (cr_max_drawdown_halt_pct m)))"

definition daily_loss_threshold :: "compiled_risk_model \<Rightarrow> equity_state \<Rightarrow> py_float" where
  "daily_loss_threshold m s = f_mul (f_neg (fraction (cr_daily_loss_limit_pct m))) (es_starting_equity s)"

definition pre_trade_gate :: "compiled_risk_model \<Rightarrow> proposed_trade \<Rightarrow> equity_state \<Rightarrow> gate_decision" where
  "pre_trade_gate m proposed s =
     (if es_halted s then Block (if es_halt_reason s = [] then ''halted'' else es_halt_reason s)
      else if f_le (es_daily_realized_pnl s) (daily_loss_threshold m s) then Block ''daily_loss_limit_breached''
      else if f_le (es_current_equity s) (drawdown_floor m s) then Block ''max_drawdown_halt_breached''
      else Allow)"

definition day_of :: "datetime \<Rightarrow> int" where
  "day_of t = t div 86400000000"

definition apply_close :: "closed_trade \<Rightarrow> equity_state \<Rightarrow> equity_state" where
  "apply_close t s =
     (let new_day = day_of (ct_closed_at t);
          s1 = (if es_current_trading_day s \<noteq> Some new_day
                then s\<lparr>es_daily_realized_pnl := Num 0, es_current_trading_day := Some new_day\<rparr> else s);
          s2 = s1\<lparr>es_current_equity := f_add (es_current_equity s1) (ct_realized_pnl t),
                  es_daily_realized_pnl := f_add (es_daily_realized_pnl s1) (ct_realized_pnl t)\<rparr>
      in if f_less (es_peak_equity s2) (es_current_equity s2) then s2\<lparr>es_peak_equity := es_current_equity s2\<rparr> else s2)"

definition post_trade_gate :: "compiled_risk_model \<Rightarrow> closed_trade \<Rightarrow> equity_state \<Rightarrow> equity_state" where
  "post_trade_gate m t s =
     (let s1 = apply_close t s
      in if f_le (es_current_equity s1) (drawdown_floor m s1) \<and> \<not> es_halted s1
         then s1\<lparr>es_halted := True, es_halt_reason := ''max_drawdown_halt_breached''\<rparr> else s1)"

section \<open>A drawdown stops trading for good\<close>

lemma apply_close_halt [simp]:
  "es_halted (apply_close t s) = es_halted s" "es_halt_reason (apply_close t s) = es_halt_reason s"
  by (simp_all add: apply_close_def Let_def)

lemma post_trade_gate_halted:
  "es_halted s \<Longrightarrow> es_halted (post_trade_gate m t s) \<and> es_halt_reason (post_trade_gate m t s) = es_halt_reason s"
  by (simp add: post_trade_gate_def Let_def)

lemma halt_stays: "es_halted s \<Longrightarrow> es_halted (fold (post_trade_gate m) ts s)"
  by (induction ts arbitrary: s) (simp_all add: post_trade_gate_halted)

text \<open>
  The drawdown halt is a latch: after any history of closed trades in which the equity was once at or below
  the drawdown floor when a trade was closed, every proposed trade is blocked, however far the equity
  has recovered since and on whatever day.
\<close>

theorem drawdown_halt_is_final:
  assumes "f_le (es_current_equity (apply_close t s)) (drawdown_floor m (apply_close t s))"
  shows "\<exists>reason. pre_trade_gate m proposed (fold (post_trade_gate m) later (post_trade_gate m t s)) = Block reason"
proof -
  have "es_halted (post_trade_gate m t s)" using assms by (simp add: post_trade_gate_def Let_def)
  from halt_stays [OF this] show ?thesis by (simp add: pre_trade_gate_def)
qed

definition demo_risk :: compiled_risk_model where
  "demo_risk = \<lparr>cr_risk_pct_of_equity = Num 1, cr_daily_loss_limit_pct = Num 50, cr_max_drawdown_halt_pct = Num 50,
     cr_method = ''fixed_fractional_risk''\<rparr>"

definition demo_equity :: equity_state where
  "demo_equity = \<lparr>es_starting_equity = Num 8, es_current_equity = Num 8, es_peak_equity = Num 8, es_daily_realized_pnl = Num 0,
     es_current_trading_day = None, es_halted = False, es_halt_reason = []\<rparr>"

definition demo_loss :: "datetime \<Rightarrow> closed_trade" where
  "demo_loss t = \<lparr>ct_symbol = ''EURUSD'', ct_realized_pnl = Num (- 6), ct_closed_at = t\<rparr>"

definition demo_proposal :: "datetime \<Rightarrow> proposed_trade" where
  "demo_proposal t = \<lparr>pt_symbol = ''EURUSD'', pt_direction = ''long'', pt_entry_price = Num 1, pt_stop_price = Num 2, pt_bar_timestamp = t\<rparr>"

lemma demo_arithmetic:
  "fraction (Num 50) = Num (1 / 2)" "f_add (Num 8) (Num (- 6)) = Num 2" "f_add (Num 0) (Num (- 6)) = Num (- 6)"
  "f_mul (Num 8) (f_sub (Num 1) (Num (1 / 2))) = Num 4" "f_mul (f_neg (Num (1 / 2))) (Num 8) = Num (- 4)"
  using round64_exact [of "1 / 2" 1 "- 1"] by (simp_all add: fraction_def f_sub_def round64_numeral)

theorem drawdown_halt_is_final_witness:
  "\<exists>reason. pre_trade_gate demo_risk (demo_proposal 9) (fold (post_trade_gate demo_risk) [] (post_trade_gate demo_risk (demo_loss 0) demo_equity)) =
     Block reason"
  by (rule drawdown_halt_is_final)
    (simp add: apply_close_def Let_def drawdown_floor_def demo_loss_def demo_equity_def demo_risk_def demo_arithmetic round64_numeral f_sub_def)

text \<open>Histories of a strategy that asks the gate before every trade; a trade can be closed while one is open.\<close>

datatype risk_event = Propose proposed_trade | CloseTrade closed_trade

fun gated_run :: "compiled_risk_model \<Rightarrow> risk_event list \<Rightarrow> nat \<times> equity_state \<Rightarrow> gate_decision list" where
  "gated_run m [] st = []"
| "gated_run m (Propose p # es) (n, s) =
     (let d = pre_trade_gate m p s in d # gated_run m es (if d = Allow then (n + 1, s) else (n, s)))"
| "gated_run m (CloseTrade t # es) (n, s) =
     (if n = 0 then gated_run m es (n, s) else gated_run m es (n - 1, post_trade_gate m t s))"

text \<open>
  The daily loss limit does not end with the day: the gate reads no time, and the day's result is reset only
  when a trade is closed on another day. Once the limit is reached and the strategy holds no position, every
  proposal of every later day is blocked, whatever happens.
\<close>

theorem daily_loss_block_has_no_end:
  assumes "\<not> es_halted s" "f_le (es_daily_realized_pnl s) (daily_loss_threshold m s)" "d \<in> set (gated_run m es (0, s))"
  shows "d = Block ''daily_loss_limit_breached''"
  using assms(3)
proof (induction es)
  case (Cons e es)
  have "pre_trade_gate m p s = Block ''daily_loss_limit_breached''" for p using assms(1,2) by (simp add: pre_trade_gate_def)
  then show ?case using Cons by (cases e) (auto simp: Let_def)
qed simp

theorem daily_loss_block_has_no_end_witness:
  "\<exists>d \<in> set (gated_run demo_risk [CloseTrade (demo_loss (10 ^ 20)), Propose (demo_proposal (10 ^ 20))]
     (0, demo_equity\<lparr>es_daily_realized_pnl := Num (- 6)\<rparr>)). d = Block ''daily_loss_limit_breached''"
proof -
  let ?s = "demo_equity\<lparr>es_daily_realized_pnl := Num (- 6)\<rparr>"
  let ?d = "pre_trade_gate demo_risk (demo_proposal (10 ^ 20)) ?s"
  have m: "?d \<in> set (gated_run demo_risk [CloseTrade (demo_loss (10 ^ 20)), Propose (demo_proposal (10 ^ 20))] (0, ?s))"
    by (simp add: Let_def)
  have "?d = Block ''daily_loss_limit_breached''"
    by (rule daily_loss_block_has_no_end [OF _ _ m])
      (simp_all add: daily_loss_threshold_def demo_equity_def demo_risk_def demo_arithmetic round64_numeral)
  with m show ?thesis by metis
qed

end
