(* ===== verification/Strategy_Compiler.thy ===== *)
theory Strategy_Compiler
  imports Expressions Reference_Resolver Strategy_Risk Dsl_Lexer
begin

text \<open>
  \<open>StrategyIRCompiler\<close> of \<open>libs/strategy_ir/compiler.py\<close>: from the representation of a strategy to the closures that
  decide entries and exits. A closure is a value of a datatype with one constructor per closure of the
  source and the values it captures; its body is the function \<open>run_\<dots>\<close> of the datatype. A closure over a lookback
  buffer reads the buffer of that name in the context, since the strategy pushes into the same object.
\<close>

section \<open>Conditions\<close>

record leaf_fn =
  lf_lhs :: value_fn
  lf_operator :: string
  lf_rhs :: value_fn

datatype cond_fn = LeafFn leaf_fn | AndFn "cond_fn list" | OrFn "cond_fn list"

definition comparison_operators :: "string list" where
  "comparison_operators = [''>'', ''>='', ''<'', ''<='', ''=='', ''!='']"

definition compare :: "string \<Rightarrow> py_float \<Rightarrow> py_float \<Rightarrow> bool" where
  "compare op x y =
     (if op = ''>'' then f_less y x else if op = ''>='' then f_le y x else if op = ''<'' then f_less x y
      else if op = ''<='' then f_le x y else if op = ''=='' then f_eq x y else \<not> f_eq x y)"

definition compile_leaf :: "parser \<Rightarrow> scope \<Rightarrow> leaf_condition \<Rightarrow> (exn, leaf_fn) result" where
  "compile_leaf parse sc leaf =
     (if lc_operator leaf \<notin> set comparison_operators then Inl value_error
      else
        bind_r (compile_value_expr parse sc (lc_lhs leaf)) (\<lambda>lhs.
        bind_r (case lc_rhs leaf of RhsText e \<Rightarrow> compile_value_expr parse sc e | RhsNum x \<Rightarrow> Inr (ConstFn (round64 x))) (\<lambda>rhs.
        let in_pips = (strip (lc_lhs leaf) = ''spread'' \<and> to_lower (case lc_units leaf of None \<Rightarrow> [] | Some u \<Rightarrow> u) = ''pips'')
        in Inr \<lparr>lf_lhs = (if in_pips then SpreadInPips lhs else lhs), lf_operator = lc_operator leaf, lf_rhs = rhs\<rparr>)))"

definition run_leaf :: "(string \<Rightarrow> py_float list \<Rightarrow> (exn, py_float) result) \<Rightarrow> leaf_fn \<Rightarrow> eval_ctx \<Rightarrow> (exn, bool) result" where
  "run_leaf libm f ctx =
     (case bind_r (run_value libm (lf_lhs f) ctx) (\<lambda>x. bind_r (run_value libm (lf_rhs f) ctx) (\<lambda>y. Inr (x, y))) of
        Inl e \<Rightarrow> if e \<in> {PyError ''KeyError'', value_error} then Inr False else Inl e
      | Inr (x, y) \<Rightarrow> Inr (if isnan x \<or> isnan y then False else compare (lf_operator f) x y))"

definition tree_fn :: "string \<Rightarrow> cond_fn list \<Rightarrow> cond_fn" where
  "tree_fn op fs = (if to_lower op = ''and'' then AndFn fs else OrFn fs)"

fun compile_conditions :: "parser \<Rightarrow> scope \<Rightarrow> condition list \<Rightarrow> (exn, cond_fn list) result" where
  "compile_conditions parse sc [] = Inr []"
| "compile_conditions parse sc (Leaf leaf # cs) =
     bind_r (compile_leaf parse sc leaf) (\<lambda>f. bind_r (compile_conditions parse sc cs) (\<lambda>fs. Inr (LeafFn f # fs)))"
| "compile_conditions parse sc (Sub op ds # cs) =
     (if to_lower op \<notin> {''and'', ''or''} then Inl value_error
      else bind_r (compile_conditions parse sc ds) (\<lambda>gs.
             bind_r (compile_conditions parse sc cs) (\<lambda>fs. Inr (tree_fn op gs # fs))))"

definition compile_condition_tree :: "parser \<Rightarrow> scope \<Rightarrow> condition_tree \<Rightarrow> (exn, cond_fn) result" where
  "compile_condition_tree parse sc tree =
     (if to_lower (fst tree) \<notin> {''and'', ''or''} then Inl value_error
      else bind_r (compile_conditions parse sc (snd tree)) (\<lambda>fs. Inr (tree_fn (fst tree) fs)))"

text \<open>\<open>all\<close> stops at the first child that is false, \<open>any\<close> at the first that is true.\<close>

fun run_cond :: "(string \<Rightarrow> py_float list \<Rightarrow> (exn, py_float) result) \<Rightarrow> cond_fn \<Rightarrow> eval_ctx \<Rightarrow> (exn, bool) result"
  and run_all :: "(string \<Rightarrow> py_float list \<Rightarrow> (exn, py_float) result) \<Rightarrow> cond_fn list \<Rightarrow> eval_ctx \<Rightarrow> (exn, bool) result"
  and run_any :: "(string \<Rightarrow> py_float list \<Rightarrow> (exn, py_float) result) \<Rightarrow> cond_fn list \<Rightarrow> eval_ctx \<Rightarrow> (exn, bool) result" where
  "run_cond libm (LeafFn f) ctx = run_leaf libm f ctx"
| "run_cond libm (AndFn fs) ctx = run_all libm fs ctx"
| "run_cond libm (OrFn fs) ctx = run_any libm fs ctx"
| "run_all libm [] ctx = Inr True"
| "run_all libm (f # fs) ctx = bind_r (run_cond libm f ctx) (\<lambda>b. if b then run_all libm fs ctx else Inr False)"
| "run_any libm [] ctx = Inr False"
| "run_any libm (f # fs) ctx = bind_r (run_cond libm f ctx) (\<lambda>b. if b then Inr True else run_any libm fs ctx)"

section \<open>Entries\<close>

text \<open>A basket's closure: the filter, the templates with the symbols to buy and to sell, and the side.\<close>

datatype entry_fn =
    TreeEntry cond_fn
  | BasketEntry "cond_fn option" "(leaf_fn \<times> string list \<times> string list) list" bool

definition compile_legs :: "(string \<times> string \<times> rat) list \<Rightarrow> (exn, string list \<times> string list) result" where
  "compile_legs legs =
     (if list_ex (\<lambda>(sym, side, w). to_lower side \<notin> {''buy'', ''sell''}) legs then Inl value_error
      else Inr (map fst (filter (\<lambda>(sym, side, w). to_lower side = ''buy'') legs),
                map fst (filter (\<lambda>(sym, side, w). to_lower side = ''sell'') legs)))"

fun compile_templates :: "parser \<Rightarrow> scope \<Rightarrow> basket_template list \<Rightarrow> (exn, (leaf_fn \<times> string list \<times> string list) list) result" where
  "compile_templates parse sc [] = Inr []"
| "compile_templates parse sc (bt # bts) =
     bind_r (compile_leaf parse sc (bt_active_when bt)) (\<lambda>f.
     bind_r (compile_legs (bt_legs bt)) (\<lambda>legs.
     bind_r (compile_templates parse sc bts) (\<lambda>fs. Inr ((f, legs) # fs))))"

definition compile_basket_templates ::
  "parser \<Rightarrow> scope \<Rightarrow> basket_template list \<Rightarrow> condition_tree option \<Rightarrow> (exn, entry_fn option \<times> entry_fn option) result" where
  "compile_basket_templates parse sc templates entry_filters =
     bind_r (compile_templates parse sc templates) (\<lambda>compiled.
     bind_r (case entry_filters of None \<Rightarrow> Inr None | Some tree \<Rightarrow> bind_r (compile_condition_tree parse sc tree) (\<lambda>f. Inr (Some f))) (\<lambda>gate.
     Inr (if list_ex (\<lambda>(f, longs, shorts). longs \<noteq> []) compiled then Some (BasketEntry gate compiled True) else None,
          if list_ex (\<lambda>(f, longs, shorts). shorts \<noteq> []) compiled then Some (BasketEntry gate compiled False) else None)))"

fun run_templates ::
  "(string \<Rightarrow> py_float list \<Rightarrow> (exn, py_float) result) \<Rightarrow> bool \<Rightarrow> (leaf_fn \<times> string list \<times> string list) list \<Rightarrow> eval_ctx \<Rightarrow> (exn, bool) result" where
  "run_templates libm want_long [] ctx = Inr False"
| "run_templates libm want_long ((f, longs, shorts) # ts) ctx =
     bind_r (run_leaf libm f ctx) (\<lambda>active.
       if active \<and> cn_symbol (ex_candle ctx) \<in> set (if want_long then longs else shorts) then Inr True
       else run_templates libm want_long ts ctx)"

definition run_entry :: "(string \<Rightarrow> py_float list \<Rightarrow> (exn, py_float) result) \<Rightarrow> entry_fn \<Rightarrow> eval_ctx \<Rightarrow> (exn, bool) result" where
  "run_entry libm f ctx =
     (case f of
        TreeEntry c \<Rightarrow> run_cond libm c ctx
      | BasketEntry gate ts want_long \<Rightarrow>
          bind_r (case gate of None \<Rightarrow> Inr True | Some c \<Rightarrow> run_cond libm c ctx) (\<lambda>open.
            if \<not> open then Inr False else run_templates libm want_long ts ctx))"

section \<open>Exits\<close>

record exit_wiring =
  wr_atr_indicator_id :: "string option"
  wr_atr_multiple :: py_float
  wr_rr_multiple :: py_float
  wr_bb_upper_inner_id :: "string option"
  wr_bb_lower_inner_id :: "string option"
  wr_bb_mid_id :: "string option"
  wr_time_exit_max_bars :: "int option"
  wr_basket_atr_indicator_id :: "string option"
  wr_basket_atr_multiple :: py_float

datatype exit_fn =
    TwoSided leaf_fn leaf_fn
  | Single leaf_fn
  | AtrStop
  | RrTakeProfit py_float
  | OppositeBand string string
  | MiddleBand string
  | BasketAtr py_float
  | BasketPct py_float
  | TimeExit int

text \<open>The band with the smallest deviation, then the smallest identifier; the first average that matches its length
  and source, otherwise the first.\<close>

definition least_band :: "(rat \<times> string) list \<Rightarrow> string option" where
  "least_band cands = (case cands of [] \<Rightarrow> None | c # cs \<Rightarrow>
     Some (snd (foldl (\<lambda>m x. if fst x < fst m \<or> fst x = fst m \<and> snd x < snd m then x else m) c cs)))"

definition upper_bands :: "strategy_ir \<Rightarrow> (rat \<times> string) list" where
  "upper_bands ir = concat (map (\<lambda>i. case i of BollingerUpperIndicator ident tf src len dev \<Rightarrow> [(dev, ident)] | _ \<Rightarrow> []) (ir_indicators ir))"

definition lower_bands :: "strategy_ir \<Rightarrow> (rat \<times> string) list" where
  "lower_bands ir = concat (map (\<lambda>i. case i of BollingerLowerIndicator ident tf src len dev \<Rightarrow> [(dev, ident)] | _ \<Rightarrow> []) (ir_indicators ir))"

definition resolve_inner_bollinger_ids :: "strategy_ir \<Rightarrow> string option \<times> string option" where
  "resolve_inner_bollinger_ids ir = (least_band (upper_bands ir), least_band (lower_bands ir))"

definition resolve_middle_band_id :: "strategy_ir \<Rightarrow> string option" where
  "resolve_middle_band_id ir =
     (let smas = concat (map (\<lambda>i. case i of SmaIndicator ident tf src len \<Rightarrow> [(ident, src, len)] | _ \<Rightarrow> []) (ir_indicators ir));
          uppers = concat (map (\<lambda>i. case i of BollingerUpperIndicator ident tf src len dev \<Rightarrow> [(dev, src, len)] | _ \<Rightarrow> []) (ir_indicators ir))
      in case smas of
           [] \<Rightarrow> None
         | first # _ \<Rightarrow>
             (case uppers of
                [] \<Rightarrow> Some (fst first)
              | u # us \<Rightarrow>
                  let inner = foldl (\<lambda>m x. if fst x < fst m then x else m) u us
                  in case filter (\<lambda>(ident, src, len). (src, len) = snd inner) smas of
                       [] \<Rightarrow> Some (fst first)
                     | sma # _ \<Rightarrow> Some (fst sma)))"

definition resolve_exit_wiring :: "strategy_ir \<Rightarrow> (exn, exit_wiring) result" where
  "resolve_exit_wiring ir =
     (let ids = map indicator_id (ir_indicators ir); x = ir_exit_logic ir;
          wiring = \<lparr>wr_atr_indicator_id = (case xl_initial_stop x of Some (AtrMultipleStop ind mult) \<Rightarrow> Some ind | _ \<Rightarrow> None),
                    wr_atr_multiple = (case xl_initial_stop x of Some (AtrMultipleStop ind mult) \<Rightarrow> round64 mult | _ \<Rightarrow> NaN),
                    wr_rr_multiple = (case xl_take_profit x of Some (RiskRewardMultipleStop mult) \<Rightarrow> round64 mult | _ \<Rightarrow> NaN),
                    wr_bb_upper_inner_id = fst (resolve_inner_bollinger_ids ir),
                    wr_bb_lower_inner_id = snd (resolve_inner_bollinger_ids ir),
                    wr_bb_mid_id = resolve_middle_band_id ir,
                    wr_time_exit_max_bars = (case xl_time_exit x of Some r \<Rightarrow> if te_enabled r then Some (te_max_bars_in_trade r) else None | None \<Rightarrow> None),
                    wr_basket_atr_indicator_id = (case xl_initial_stop x of Some (BasketAtrMultipleStop ind mult) \<Rightarrow> Some ind | _ \<Rightarrow> None),
                    wr_basket_atr_multiple = (case xl_initial_stop x of Some (BasketAtrMultipleStop ind mult) \<Rightarrow> round64 mult | _ \<Rightarrow> NaN)\<rparr>
      in case xl_initial_stop x of
           Some (AtrMultipleStop ind mult) \<Rightarrow> if ind \<notin> set ids then Inl ir_reference_error else Inr wiring
         | Some (BasketAtrMultipleStop ind mult) \<Rightarrow> if ind \<notin> set ids then Inl ir_reference_error else Inr wiring
         | _ \<Rightarrow> Inr wiring)"

definition middle_band_evaluator :: "exit_wiring \<Rightarrow> (exn, exit_fn) result" where
  "middle_band_evaluator wr = (case wr_bb_mid_id wr of None \<Rightarrow> Inl ir_reference_error | Some mid \<Rightarrow> Inr (MiddleBand mid))"

definition compile_exit_stop :: "parser \<Rightarrow> scope \<Rightarrow> exit_wiring \<Rightarrow> exit_stop \<Rightarrow> (exn, exit_fn) result" where
  "compile_exit_stop parse sc wr stop =
     (case stop of
        MeanReversionToMidStop lng short \<Rightarrow>
          bind_r (compile_leaf parse sc lng) (\<lambda>f. bind_r (compile_leaf parse sc short) (\<lambda>g. Inr (TwoSided f g)))
      | ChannelExitStop lng short \<Rightarrow>
          bind_r (compile_leaf parse sc lng) (\<lambda>f. bind_r (compile_leaf parse sc short) (\<lambda>g. Inr (TwoSided f g)))
      | CalendarExitStop cond \<Rightarrow> bind_r (compile_leaf parse sc cond) (\<lambda>f. Inr (Single f))
      | ZscoreStop cond \<Rightarrow> bind_r (compile_leaf parse sc cond) (\<lambda>f. Inr (Single f))
      | AtrMultipleStop ind mult \<Rightarrow> if wr_atr_indicator_id wr \<noteq> Some ind then Inl ir_reference_error else Inr AtrStop
      | RiskRewardMultipleStop mult \<Rightarrow>
          if isnan (wr_rr_multiple wr) \<or> f_le (wr_rr_multiple wr) (Num 0) then Inl value_error
          else Inr (RrTakeProfit (wr_rr_multiple wr))
      | OppositeInnerBandTouchStop \<Rightarrow>
          (case (wr_bb_upper_inner_id wr, wr_bb_lower_inner_id wr) of
             (Some u, Some l) \<Rightarrow> Inr (OppositeBand u l)
           | _ \<Rightarrow> Inl ir_reference_error)
      | MiddleBandCloseViolationStop \<Rightarrow> middle_band_evaluator wr
      | BasketAtrMultipleStop ind mult \<Rightarrow>
          if ind \<notin> set (sc_indicator_ids sc) then Inl ir_reference_error else Inr (BasketAtr (round64 mult))
      | BasketOpenLossPctStop pct \<Rightarrow> if f_le (round64 pct) (Num 0) then Inl value_error else Inr (BasketPct (round64 pct)))"

text \<open>The exit rules that are compiled, in the order of the loop. The attribute \<open>catastrophic_zscore_stop\<close> is not
  among them.\<close>

definition compiled_exit_stops :: "exit_logic \<Rightarrow> (string \<times> exit_stop option) list" where
  "compiled_exit_stops x =
     [(''primary_exit'', xl_primary_exit x), (''initial_stop'', xl_initial_stop x), (''take_profit'', xl_take_profit x),
      (''trailing_exit'', xl_trailing_exit x), (''scheduled_exit'', xl_scheduled_exit x), (''equity_stop'', xl_equity_stop x)]"

fun compile_stops :: "parser \<Rightarrow> scope \<Rightarrow> exit_wiring \<Rightarrow> (string \<times> exit_stop option) list \<Rightarrow> (exn, (string, exit_fn) dict) result" where
  "compile_stops parse sc wr [] = Inr []"
| "compile_stops parse sc wr ((name, None) # xs) = compile_stops parse sc wr xs"
| "compile_stops parse sc wr ((name, Some stop) # xs) =
     bind_r (compile_exit_stop parse sc wr stop) (\<lambda>f. bind_r (compile_stops parse sc wr xs) (\<lambda>fs. Inr ((name, f) # fs)))"

definition compile_trailing_stop_rule :: "exit_wiring \<Rightarrow> trailing_stop_rule \<Rightarrow> (exn, exit_fn) result" where
  "compile_trailing_stop_rule wr r =
     (if to_lower (strip (tr_type r)) = ''middle_band_close_violation'' then middle_band_evaluator wr else Inl value_error)"

definition compile_exit_logic :: "parser \<Rightarrow> scope \<Rightarrow> exit_wiring \<Rightarrow> exit_logic \<Rightarrow> (exn, (string, exit_fn) dict) result" where
  "compile_exit_logic parse sc wr x =
     bind_r (compile_stops parse sc wr (compiled_exit_stops x)) (\<lambda>fs.
     bind_r (case xl_trailing_stop x of
               None \<Rightarrow> Inr []
             | Some r \<Rightarrow> if tr_enabled r then bind_r (compile_trailing_stop_rule wr r) (\<lambda>f. Inr [(''trailing_stop'', f)]) else Inr []) (\<lambda>gs.
     Inr (fs @ gs @
       (case xl_time_exit x of
          None \<Rightarrow> []
        | Some r \<Rightarrow> if te_enabled r
                    then (case wr_time_exit_max_bars wr of None \<Rightarrow> [] | Some n \<Rightarrow> [(''time_exit'', TimeExit n)]) else []))))"

definition canonical_exit_name :: "string \<Rightarrow> string" where
  "canonical_exit_name raw = (if raw = ''stop_loss'' then ''initial_stop'' else raw)"

definition freeze_exit_priority :: "(string, exit_fn) dict \<Rightarrow> string list \<Rightarrow> (exn, (string \<times> exit_fn) list) result" where
  "freeze_exit_priority exits priority =
     (let names = map canonical_exit_name priority
      in if list_ex (\<lambda>name. dict_get exits name = None) names then Inl ir_reference_error
         else
           let listed = rev (remdups (rev names));
               rest = filter (\<lambda>name. name \<notin> set listed) (sort (map fst exits))
           in Inr (map (\<lambda>name. (name, the (dict_get exits name))) (listed @ rest)))"

end
