(* ===== verification/Compiled_Strategy.thy ===== *)
theory Compiled_Strategy
  imports Strategy_Compiler
begin

text \<open>
  \<open>StrategyIRCompiler.compile\<close> and the compiled strategy \<open>IRStrategy\<close> of \<open>libs/strategy_ir/compiler.py\<close>. What
  compilation fixes is a record, what \<open>evaluate\<close> changes from bar to bar another one. The identifier of a
  signal, a hash of a text, is modelled by the parts of that text.
\<close>

section \<open>Compilation\<close>

record ir_strategy =
  st_ir :: strategy_ir
  st_deployment_id :: string
  st_long_entry :: "entry_fn option"
  st_short_entry :: "entry_fn option"
  st_exit_checks :: "(string \<times> exit_fn) list"
  st_indicator_ids :: "string list"
  st_risk_model :: compiled_risk_model
  st_exit_wiring :: exit_wiring
  st_derived_field_specs :: "(string \<times> expr) list"
  st_has_basket_exits :: bool

record strategy_state =
  ss_lookback_buffers :: "(string, lookback_buffer) dict"
  ss_open_trades :: "(string, open_trade) dict"
  ss_bar_counter :: nat
  ss_cross_tf :: aggregator

fun collect_timeframes :: "resolved_reference list \<Rightarrow> (exn, timeframe list) result" where
  "collect_timeframes [] = Inr []"
| "collect_timeframes (r # rs) =
     (case rf_raw_value r of
        RawText raw \<Rightarrow>
          if rf_kind r \<noteq> ''cross_timeframe'' then collect_timeframes rs
          else (case split_cross_timeframe_ref raw of
                  None \<Rightarrow> Inl ir_reference_error
                | Some (base, tf) \<Rightarrow> bind_r (collect_timeframes rs) (\<lambda>tfs. Inr (tf # tfs)))
      | RawNum _ \<Rightarrow> collect_timeframes rs)"

text \<open>The set of timeframes, sorted by their texts.\<close>

definition collect_cross_timeframe_timeframes :: "resolved_reference list \<Rightarrow> (exn, timeframe list) result" where
  "collect_cross_timeframe_timeframes refs =
     bind_r (collect_timeframes refs) (\<lambda>tfs. Inr (filter (\<lambda>tf. tf \<in> set tfs) [TF15m, TF1d, TF1h, TF4h]))"

fun compile_specs :: "parser \<Rightarrow> (string \<times> string) list \<Rightarrow> (exn, (string \<times> expr) list) result" where
  "compile_specs parse [] = Inr []"
| "compile_specs parse ((ident, formula) # xs) =
     bind_r (compile_formula parse formula) (\<lambda>t. bind_r (compile_specs parse xs) (\<lambda>ts. Inr ((ident, t) # ts)))"

definition compile_derived_field_specs :: "parser \<Rightarrow> strategy_ir \<Rightarrow> string list \<Rightarrow> (exn, (string \<times> expr) list) result" where
  "compile_derived_field_specs parse ir order =
     (case ir_derived_fields ir of
        None \<Rightarrow> Inr []
      | Some dfs \<Rightarrow>
          let formula_by_id = dict_of (map (\<lambda>df. (df_id df, df_formula df)) dfs);
              ordered = filter (\<lambda>ident. dict_get formula_by_id ident \<noteq> None) order
          in compile_specs parse
               (map (\<lambda>ident. (ident, the (dict_get formula_by_id ident))) ordered @
                map (\<lambda>df. (df_id df, df_formula df)) (filter (\<lambda>df. df_id df \<notin> set ordered) dfs)))"

fun allocate_lookback_buffers :: "string list \<Rightarrow> lookback_plan \<Rightarrow> (exn, (string, lookback_buffer) dict) result" where
  "allocate_lookback_buffers ids [] = Inr []"
| "allocate_lookback_buffers ids ((base, lag) # plan) =
     (if base \<notin> set ids \<and> base \<notin> set price_fields then Inl ir_reference_error
      else bind_r (new_buffer (int lag)) (\<lambda>b. bind_r (allocate_lookback_buffers ids plan) (\<lambda>bs. Inr ((base, b) # bs))))"

definition detect_basket_exits :: "exit_logic \<Rightarrow> bool" where
  "detect_basket_exits x = list_ex (\<lambda>(name, stop). case stop of
     Some (BasketAtrMultipleStop ind mult) \<Rightarrow> True | Some (BasketOpenLossPctStop pct) \<Rightarrow> True | _ \<Rightarrow> False) (compiled_exit_stops x)"

definition compile_side :: "parser \<Rightarrow> scope \<Rightarrow> condition_tree option \<Rightarrow> (exn, entry_fn option) result" where
  "compile_side parse sc tree =
     (case tree of None \<Rightarrow> Inr None | Some t \<Rightarrow> bind_r (compile_condition_tree parse sc t) (\<lambda>f. Inr (Some (TreeEntry f))))"

definition compile_entries :: "parser \<Rightarrow> scope \<Rightarrow> entry_logic \<Rightarrow> (exn, entry_fn option \<times> entry_fn option) result" where
  "compile_entries parse sc el =
     bind_r (compile_side parse sc (el_long el)) (\<lambda>lng.
     bind_r (compile_side parse sc (el_short el)) (\<lambda>short.
     case el_basket_templates el of
       None \<Rightarrow> Inr (lng, short)
     | Some [] \<Rightarrow> Inr (lng, short)
     | Some bts \<Rightarrow>
         bind_r (compile_basket_templates parse sc bts (el_entry_filters el)) (\<lambda>(blong, bshort).
           Inr (if blong \<noteq> None then blong else lng, if bshort \<noteq> None then bshort else short))))"

definition compile :: "parser \<Rightarrow> strategy_ir \<Rightarrow> string \<Rightarrow> (exn, ir_strategy \<times> strategy_state) result" where
  "compile parse ir deployment_id =
     bind_r (resolve ir) (\<lambda>resolved.
     bind_r (collect_cross_timeframe_timeframes (rd_references resolved)) (\<lambda>tfs.
     let ids = map indicator_id (ir_indicators ir) in
     bind_r (compile_derived_field_specs parse ir (rd_topological_order resolved)) (\<lambda>specs.
     bind_r (resolve_exit_wiring ir) (\<lambda>wiring.
     bind_r (resolve_lookback ir) (\<lambda>plan.
     bind_r (allocate_lookback_buffers ids plan) (\<lambda>buffers.
     let sc = \<lparr>sc_indicator_ids = ids, sc_derived_ids = map fst specs, sc_buffers = buffers\<rparr> in
     bind_r (compile_entries parse sc (ir_entry_logic ir)) (\<lambda>(lng, short).
     bind_r (compile_exit_logic parse sc wiring (ir_exit_logic ir)) (\<lambda>exits.
     bind_r (freeze_exit_priority exits (xl_same_bar_priority (ir_exit_logic ir))) (\<lambda>checks.
     bind_r (translate (ir_risk_model ir)) (\<lambda>risk.
     Inr (\<lparr>st_ir = ir, st_deployment_id = deployment_id, st_long_entry = lng, st_short_entry = short, st_exit_checks = checks,
           st_indicator_ids = ids, st_risk_model = risk, st_exit_wiring = wiring, st_derived_field_specs = specs,
           st_has_basket_exits = detect_basket_exits (ir_exit_logic ir)\<rparr>,
          \<lparr>ss_lookback_buffers = buffers, ss_open_trades = [], ss_bar_counter = 0, ss_cross_tf = new_aggregator tfs\<rparr>)))))))))))"

section \<open>Evaluation\<close>

datatype indicator_values = NoValues | Scalar py_float | Series "py_float list"

definition extract_latest_indicator_values :: "(string, indicator_values) dict \<Rightarrow> (string, py_float) dict" where
  "extract_latest_indicator_values inds =
     map (\<lambda>(ident, v). (ident, case v of NoValues \<Rightarrow> NaN | Scalar x \<Rightarrow> x | Series xs \<Rightarrow> if xs = [] then NaN else last xs)) inds"

text \<open>The dictionary of a formula: the price fields, overwritten by indicators and earlier derived fields.\<close>

definition formula_values :: "candle \<Rightarrow> (string, py_float) dict \<Rightarrow> (string, py_float) dict" where
  "formula_values c vals = foldl (\<lambda>d (k, v). dict_set k v d) (map (\<lambda>f. (f, read_price f c)) price_fields) vals"

fun compute_derived_fields :: "candle \<Rightarrow> (string \<times> expr) list \<Rightarrow> (string, py_float) dict \<Rightarrow> (exn, (string, py_float) dict) result" where
  "compute_derived_fields c [] vals = Inr vals"
| "compute_derived_fields c ((ident, t) # specs) vals =
     (case eval_node t (formula_values c vals) of
        Inl e \<Rightarrow> if e = value_error then compute_derived_fields c specs (dict_set ident NaN vals) else Inl e
      | Inr v \<Rightarrow> compute_derived_fields c specs (dict_set ident v vals))"

definition new_open_trade :: "exit_wiring \<Rightarrow> position_snapshot \<Rightarrow> (string, py_float) dict \<Rightarrow> nat \<Rightarrow> open_trade" where
  "new_open_trade wr p vals counter =
     (let read = (\<lambda>ident. case ident of None \<Rightarrow> NaN | Some x \<Rightarrow> value_of vals x);
          atr = read (wr_atr_indicator_id wr)
      in \<lparr>ot_direction = (if 0 < ps_quantity p then 1 else - 1), ot_entry_price = f_of_decimal (ps_average_entry_price p),
          ot_entry_atr = atr,
          ot_stop_distance = (if wr_atr_indicator_id wr \<noteq> None \<and> \<not> isnan atr \<and> \<not> isnan (wr_atr_multiple wr)
                              then f_mul (wr_atr_multiple wr) atr else NaN),
          ot_entry_inner_band_upper = read (wr_bb_upper_inner_id wr), ot_entry_inner_band_lower = read (wr_bb_lower_inner_id wr),
          ot_entry_bar_index = counter\<rparr>)"

definition holding :: "position_snapshot option \<Rightarrow> bool" where
  "holding p \<longleftrightarrow> (case p of None \<Rightarrow> False | Some q \<Rightarrow> ps_quantity q \<noteq> 0)"

definition observe_position_state ::
  "ir_strategy \<Rightarrow> string \<Rightarrow> position_snapshot option \<Rightarrow> (string, py_float) dict \<Rightarrow> strategy_state \<Rightarrow> open_trade option \<times> strategy_state" where
  "observe_position_state st symbol position vals ss =
     (if \<not> holding position then (None, ss\<lparr>ss_open_trades := dict_del symbol (ss_open_trades ss)\<rparr>)
      else
        case dict_get (ss_open_trades ss) symbol of
          Some t \<Rightarrow> (Some t, ss)
        | None \<Rightarrow>
            let t = new_open_trade (st_exit_wiring st) (the position) vals (ss_bar_counter ss)
            in (Some t, ss\<lparr>ss_open_trades := dict_set symbol t (ss_open_trades ss)\<rparr>))"

definition stop_active :: "open_trade \<Rightarrow> bool" where
  "stop_active t \<longleftrightarrow> \<not> (isnan (ot_stop_distance t) \<or> f_le (ot_stop_distance t) (Num 0))"

definition run_exit :: "(string \<Rightarrow> py_float list \<Rightarrow> (exn, py_float) result) \<Rightarrow> exit_fn \<Rightarrow> eval_ctx \<Rightarrow> (exn, bool) result" where
  "run_exit libm f ctx =
     (let low = read_price ''low'' (ex_candle ctx); high = read_price ''high'' (ex_candle ctx); bk = ex_basket_state ctx
      in case f of
           TwoSided g h \<Rightarrow>
             (case ex_position ctx of
                None \<Rightarrow> Inr False
              | Some p \<Rightarrow> if ps_quantity p = 0 then Inr False else run_leaf libm (if 0 < ps_quantity p then g else h) ctx)
         | Single g \<Rightarrow> run_leaf libm g ctx
         | AtrStop \<Rightarrow>
             Inr (case ex_open_trade ctx of
                    None \<Rightarrow> False
                  | Some t \<Rightarrow> stop_active t \<and>
                      (if 0 < ot_direction t then f_le low (f_sub (ot_entry_price t) (ot_stop_distance t))
                       else f_le (f_add (ot_entry_price t) (ot_stop_distance t)) high))
         | RrTakeProfit rr \<Rightarrow>
             Inr (case ex_open_trade ctx of
                    None \<Rightarrow> False
                  | Some t \<Rightarrow> stop_active t \<and>
                      (let tp = f_mul rr (ot_stop_distance t)
                       in if 0 < ot_direction t then f_le (f_add (ot_entry_price t) tp) high else f_le low (f_sub (ot_entry_price t) tp)))
         | OppositeBand u l \<Rightarrow>
             Inr (case ex_open_trade ctx of
                    None \<Rightarrow> False
                  | Some t \<Rightarrow> if 0 < ot_direction t then f_le low (value_of (ex_values ctx) l) else f_le (value_of (ex_values ctx) u) high)
         | MiddleBand m \<Rightarrow>
             Inr (case ex_open_trade ctx of
                    None \<Rightarrow> False
                  | Some t \<Rightarrow>
                      let mid = value_of (ex_values ctx) m; close = read_price ''close'' (ex_candle ctx)
                      in if 0 < ot_direction t then f_less close mid else f_less mid close)
         | BasketAtr mult \<Rightarrow>
             Inr (\<not> f_le (bs_open_loss bk) (Num 0) \<and> \<not> (isnan (bs_latest_atr bk) \<or> f_le (bs_latest_atr bk) (Num 0)) \<and>
                  f_le (f_mul mult (bs_latest_atr bk)) (bs_open_loss bk))
         | BasketPct pct \<Rightarrow>
             (if f_le (bs_open_loss bk) (Num 0) \<or> isnan (bs_equity bk) \<or> f_le (bs_equity bk) (Num 0) then Inr False
              else bind_r (f_div (bs_open_loss bk) (bs_equity bk)) (\<lambda>q. Inr (f_le pct (f_mul q (Num 100)))))
         | TimeExit n \<Rightarrow>
             Inr (case ex_open_trade ctx of
                    None \<Rightarrow> False
                  | Some t \<Rightarrow> n \<le> int (ex_bar_counter ctx) - int (ot_entry_bar_index t)))"

text \<open>The first exit check that fires, in the frozen order.\<close>

fun first_exit :: "(string \<Rightarrow> py_float list \<Rightarrow> (exn, py_float) result) \<Rightarrow> (string \<times> exit_fn) list \<Rightarrow> eval_ctx \<Rightarrow> (exn, string option) result" where
  "first_exit libm [] ctx = Inr None"
| "first_exit libm ((name, f) # checks) ctx = bind_r (run_exit libm f ctx) (\<lambda>b. if b then Inr (Some name) else first_exit libm checks ctx)"

datatype signal_direction = LONG | SHORT
datatype signal_type = ENTRY | EXIT

record signal =
  sg_id :: "string \<times> string \<times> datetime \<times> signal_type \<times> signal_direction"
  sg_strategy_id :: string
  sg_deployment_id :: string
  sg_symbol :: string
  sg_direction :: signal_direction
  sg_signal_type :: signal_type
  sg_indicators_used :: "(string, py_float) dict"
  sg_bar_timestamp :: datetime
  sg_generated_at :: datetime
  sg_correlation_id :: string
  sg_metadata :: "(string, string) dict"

text \<open>The clock of a compiled strategy is set to the bar before a signal is made, unless it is a fixed one.\<close>

datatype clock = BarClock | FixedClock datetime

definition clock_now :: "clock \<Rightarrow> candle \<Rightarrow> datetime" where
  "clock_now ck c = (case ck of BarClock \<Rightarrow> cn_timestamp c | FixedClock t \<Rightarrow> t)"

definition build_signal ::
  "ir_strategy \<Rightarrow> clock \<Rightarrow> string \<Rightarrow> candle \<Rightarrow> signal_direction \<Rightarrow> signal_type \<Rightarrow> (string, py_float) dict \<Rightarrow> string \<Rightarrow> (string, string) dict \<Rightarrow> signal" where
  "build_signal st ck symbol c dir ty vals corr md =
     \<lparr>sg_id = (ir_strategy_name (st_ir st), symbol, cn_timestamp c, ty, dir), sg_strategy_id = ir_strategy_name (st_ir st),
      sg_deployment_id = st_deployment_id st, sg_symbol = symbol, sg_direction = dir, sg_signal_type = ty,
      sg_indicators_used = filter (\<lambda>kv. \<not> isnan (snd kv)) vals, sg_bar_timestamp = cn_timestamp c,
      sg_generated_at = clock_now ck c, sg_correlation_id = corr, sg_metadata = md\<rparr>"

definition run_entry_option :: "(string \<Rightarrow> py_float list \<Rightarrow> (exn, py_float) result) \<Rightarrow> entry_fn option \<Rightarrow> eval_ctx \<Rightarrow> (exn, bool) result" where
  "run_entry_option libm f ctx = (case f of None \<Rightarrow> Inr False | Some g \<Rightarrow> run_entry libm g ctx)"

text \<open>The body of the \<open>try\<close>: exits while a position is held, entries while flat.\<close>

definition decide ::
  "(string \<Rightarrow> py_float list \<Rightarrow> (exn, py_float) result) \<Rightarrow> ir_strategy \<Rightarrow> clock \<Rightarrow> string \<Rightarrow> string \<Rightarrow> eval_ctx \<Rightarrow> (exn, signal option) result" where
  "decide libm st ck symbol corr ctx =
     (let c = ex_candle ctx; vals = ex_values ctx
      in if holding (ex_position ctx) then
           bind_r (first_exit libm (st_exit_checks st) ctx) (\<lambda>fired.
             Inr (case fired of
                    None \<Rightarrow> None
                  | Some name \<Rightarrow>
                      Some (build_signal st ck symbol c (if 0 < ps_quantity (the (ex_position ctx)) then SHORT else LONG) EXIT vals corr
                        [(''exit_reason'', name)])))
         else
           bind_r (run_entry_option libm (st_long_entry st) ctx) (\<lambda>lng.
             if lng then Inr (Some (build_signal st ck symbol c LONG ENTRY vals corr [(''side'', ''long'')]))
             else bind_r (run_entry_option libm (st_short_entry st) ctx) (\<lambda>short.
               Inr (if short then Some (build_signal st ck symbol c SHORT ENTRY vals corr [(''side'', ''short'')]) else None))))"

definition push_lookback_values :: "candle \<Rightarrow> (string, py_float) dict \<Rightarrow> (string, lookback_buffer) dict \<Rightarrow> (string, lookback_buffer) dict" where
  "push_lookback_values c vals buffers =
     map (\<lambda>(base, b). (base, lb_push (if base \<in> set price_fields then read_price base c else value_of vals base) b)) buffers"

text \<open>The \<open>finally\<close> block.\<close>

definition finish_bar :: "string \<Rightarrow> candle \<Rightarrow> (string, py_float) dict \<Rightarrow> strategy_state \<Rightarrow> strategy_state" where
  "finish_bar symbol c vals ss =
     ss\<lparr>ss_lookback_buffers := push_lookback_values c vals (ss_lookback_buffers ss),
        ss_cross_tf := update_aggregator symbol c (ss_cross_tf ss), ss_bar_counter := ss_bar_counter ss + 1\<rparr>"

definition default_basket_state :: basket_state where
  "default_basket_state = \<lparr>bs_open_loss = Num 0, bs_equity = NaN, bs_latest_atr = NaN\<rparr>"

text \<open>\<open>provided\<close> is what the registered provider of the basket's state returns at this moment, if there is one.\<close>

definition evaluate ::
  "(string \<Rightarrow> py_float list \<Rightarrow> (exn, py_float) result) \<Rightarrow> ir_strategy \<Rightarrow> clock \<Rightarrow> basket_state option \<Rightarrow> string \<Rightarrow> candle list \<Rightarrow>
     (string, indicator_values) dict \<Rightarrow> position_snapshot option \<Rightarrow> string \<Rightarrow> strategy_state \<Rightarrow>
     (exn, signal option) result \<times> strategy_state" where
  "evaluate libm st ck provided symbol candles inds position corr ss =
     (if candles = [] then (Inr None, ss)
      else
        let c = last candles
        in case compute_derived_fields c (st_derived_field_specs st) (extract_latest_indicator_values inds) of
             Inl e \<Rightarrow> (Inl e, ss)
           | Inr vals \<Rightarrow>
               let (open_tr, ss1) = observe_position_state st symbol position vals ss;
                   basket = (if st_has_basket_exits st then (case provided of None \<Rightarrow> default_basket_state | Some b \<Rightarrow> b)
                             else default_basket_state);
                   ctx = \<lparr>ex_candle = c, ex_values = vals, ex_position = position, ex_buffers = ss_lookback_buffers ss1,
                          ex_open_trade = open_tr, ex_bar_counter = ss_bar_counter ss1, ex_cross_tf = ss_cross_tf ss1,
                          ex_basket_state = basket\<rparr>
               in (decide libm st ck symbol corr ctx, finish_bar symbol c vals ss1))"

end
