(* ===== verification/Backtest_Run.thy ===== *)
theory Backtest_Run
  imports Backtest_Broker Compiled_Strategy
begin

text \<open>
  The bar loop of a backtest: \<open>services/api/services/synthetic_backtest_executor.py\<close> and the helpers it
  shares with \<open>services/cli/run_synthetic_backtest.py\<close> (indicator computation, trade pairing, position snapshots, order sides).
  Each bar goes to the broker first, then to the compiled strategy, whose signal becomes a market order
  that the next bar of the symbol fills. An exception ends the run.

  The indicator engine (array computations) is an argument; a bar's values come from it as they are.
\<close>

section \<open>Indicators\<close>

definition backtest_error :: exn where
  "backtest_error = PyError ''SyntheticBacktestError''"

record indicator_result =
  in_values :: "py_float list option"
  in_components :: "(string, py_float list) dict"

datatype engine_args = NoArgs | Period int | PeriodStd int rat | Sources "py_float list" "py_float list" "py_float list"

type_synonym indicator_engine = "string \<Rightarrow> candle list \<Rightarrow> engine_args \<Rightarrow> (exn, indicator_result) result"

definition rekey :: "indicator_result \<Rightarrow> indicator_result" where
  "rekey raw = \<lparr>in_values = in_values raw, in_components = []\<rparr>"

definition extract_component :: "string \<Rightarrow> indicator_result \<Rightarrow> (exn, indicator_result) result" where
  "extract_component name raw =
     (case dict_get (in_components raw) name of
        None \<Rightarrow> Inl backtest_error
      | Some xs \<Rightarrow> Inr \<lparr>in_values = Some xs, in_components = []\<rparr>)"

definition array_from_result :: "indicator_result \<Rightarrow> (exn, py_float list) result" where
  "array_from_result r = (case in_values r of None \<Rightarrow> Inl backtest_error | Some xs \<Rightarrow> Inr xs)"

definition resolve_source_array :: "string \<Rightarrow> candle list \<Rightarrow> (string, indicator_result) dict \<Rightarrow> (exn, py_float list) result" where
  "resolve_source_array source candles already =
     (if source \<in> {''open'', ''high'', ''low'', ''close''} then Inr (map (read_price source) candles)
      else case dict_get already source of None \<Rightarrow> Inl backtest_error | Some r \<Rightarrow> array_from_result r)"

definition lookup_indicator_array :: "string \<Rightarrow> (string, indicator_result) dict \<Rightarrow> (exn, py_float list) result" where
  "lookup_indicator_array ref already = (case dict_get already ref of None \<Rightarrow> Inl backtest_error | Some r \<Rightarrow> array_from_result r)"

definition compute_one :: "indicator_engine \<Rightarrow> indicator \<Rightarrow> candle list \<Rightarrow> (string, indicator_result) dict \<Rightarrow> (exn, indicator_result) result" where
  "compute_one engine ind candles already =
     (let plain = (\<lambda>name args. bind_r (engine name candles args) (\<lambda>raw. Inr (rekey raw)))
      in case ind of
           SmaIndicator ident tf src n \<Rightarrow> plain ''SMA'' (Period n)
         | EmaIndicator ident tf src n \<Rightarrow> plain ''EMA'' (Period n)
         | RsiIndicator ident tf src n \<Rightarrow> plain ''RSI'' (Period n)
         | AtrIndicator ident tf n \<Rightarrow> plain ''ATR'' (Period n)
         | AdxIndicator ident tf n \<Rightarrow> plain ''ADX'' (Period n)
         | BollingerUpperIndicator ident tf src n dev \<Rightarrow>
             bind_r (engine ''BOLLINGER_BANDS'' candles (PeriodStd n dev)) (extract_component ''upper'')
         | BollingerLowerIndicator ident tf src n dev \<Rightarrow>
             bind_r (engine ''BOLLINGER_BANDS'' candles (PeriodStd n dev)) (extract_component ''lower'')
         | RollingHighIndicator ident tf src n \<Rightarrow> plain ''ROLLING_HIGH'' (Period n)
         | RollingLowIndicator ident tf src n \<Rightarrow> plain ''ROLLING_LOW'' (Period n)
         | RollingMaxIndicator ident tf src n \<Rightarrow> plain ''ROLLING_MAX'' (Period n)
         | RollingMinIndicator ident tf src n \<Rightarrow> plain ''ROLLING_MIN'' (Period n)
         | RollingStddevIndicator ident tf src n \<Rightarrow> plain ''ROLLING_STDDEV'' (Period n)
         | ZscoreIndicator ident tf src mean std \<Rightarrow>
             bind_r (resolve_source_array src candles already) (\<lambda>value.
             bind_r (lookup_indicator_array mean already) (\<lambda>m.
             bind_r (lookup_indicator_array std already) (\<lambda>s. plain ''ZSCORE'' (Sources value m s))))
         | CalendarBusinessDayIndexIndicator ident tf \<Rightarrow> plain ''CALENDAR_BUSINESS_DAY_INDEX'' NoArgs
         | CalendarDaysToMonthEndIndicator ident tf \<Rightarrow> plain ''CALENDAR_DAYS_TO_MONTH_END'' NoArgs)"

text \<open>Every failure of an indicator is reported as \<open>SyntheticBacktestError\<close>.\<close>

fun compute_indicators ::
  "indicator_engine \<Rightarrow> candle list \<Rightarrow> indicator list \<Rightarrow> (string, indicator_result) dict \<Rightarrow> (exn, (string, indicator_result) dict) result" where
  "compute_indicators engine candles [] out = Inr out"
| "compute_indicators engine candles (ind # inds) out =
     (case compute_one engine ind candles out of
        Inl e \<Rightarrow> Inl backtest_error
      | Inr r \<Rightarrow> compute_indicators engine candles inds (dict_set (indicator_id ind) r out))"

definition compute :: "indicator_engine \<Rightarrow> indicator list \<Rightarrow> candle list \<Rightarrow> (exn, (string, indicator_result) dict) result" where
  "compute engine inds candles = (if candles = [] then Inr [] else compute_indicators engine candles inds [])"

section \<open>Trade pairing\<close>

record trade_record =
  tc_symbol :: string
  tc_side :: string
  tc_units :: int
  tc_entry_bar_index :: nat
  tc_entry_timestamp :: datetime
  tc_entry_price :: decimal
  tc_entry_extension_id :: string
  tc_exit_bar_index :: "nat option"
  tc_exit_timestamp :: "datetime option"
  tc_exit_price :: "decimal option"
  tc_exit_extension_id :: "string option"
  tc_pnl :: "decimal option"

record trade_pairer =
  tp_open :: "(string, trade_record list) dict"
  tp_closed :: "trade_record list"

definition opened_trade :: "bt_fill_event \<Rightarrow> datetime \<Rightarrow> trade_record" where
  "opened_trade f ts =
     \<lparr>tc_symbol = fe_symbol f, tc_side = (if fe_side f = Buy then ''long'' else ''short''), tc_units = fe_units f,
      tc_entry_bar_index = fe_bar_index f, tc_entry_timestamp = ts, tc_entry_price = fe_fill_price f,
      tc_entry_extension_id = rf_client_extension_id (fe_order_ref f), tc_exit_bar_index = None, tc_exit_timestamp = None,
      tc_exit_price = None, tc_exit_extension_id = None, tc_pnl = None\<rparr>"

definition closed_by :: "bt_fill_event \<Rightarrow> datetime \<Rightarrow> trade_record \<Rightarrow> trade_record" where
  "closed_by f ts t =
     t\<lparr>tc_exit_bar_index := Some (fe_bar_index f), tc_exit_timestamp := Some ts, tc_exit_price := Some (fe_fill_price f),
       tc_exit_extension_id := Some (rf_client_extension_id (fe_order_ref f)),
       tc_pnl := Some (if tc_side t = ''long'' then dec (dec (fe_fill_price f - tc_entry_price t) * of_int (tc_units t))
                       else dec (dec (tc_entry_price t - fe_fill_price f) * of_int (tc_units t)))\<rparr>"

definition record_fill :: "bt_fill_event \<Rightarrow> datetime \<Rightarrow> trade_pairer \<Rightarrow> trade_pairer" where
  "record_fill f ts p =
     (let symbol = fe_symbol f; opens = (case dict_get (tp_open p) symbol of None \<Rightarrow> [] | Some xs \<Rightarrow> xs)
      in case opens of
           [] \<Rightarrow> p\<lparr>tp_open := dict_set symbol [opened_trade f ts] (tp_open p)\<rparr>
         | head # rest \<Rightarrow>
             let was_long = (tc_side head = ''long'')
             in if (was_long \<and> fe_side f = Sell) \<or> (\<not> was_long \<and> fe_side f = Buy)
                then p\<lparr>tp_closed := tp_closed p @ [closed_by f ts head], tp_open := dict_set symbol rest (tp_open p)\<rparr>
                else p\<lparr>tp_open := dict_set symbol (opens @ [opened_trade f ts]) (tp_open p)\<rparr>)"

definition finalise :: "trade_pairer \<Rightarrow> trade_record list" where
  "finalise p = tp_closed p @ concat (dict_values (tp_open p))"

section \<open>One bar\<close>

definition position_of :: "bt_broker \<Rightarrow> string \<Rightarrow> candle \<Rightarrow> (exn, position_snapshot option) result" where
  "position_of b symbol c =
     bind_r (get_position symbol b) (\<lambda>pos.
       Inr (case pos of
              None \<Rightarrow> None
            | Some p \<Rightarrow>
                let quantity = of_int (bp_units p); market_value = dec (quantity * cn_close c); cost_basis = dec (quantity * bp_average_price p)
                in Some \<lparr>ps_symbol = symbol, ps_quantity = quantity, ps_average_entry_price = bp_average_price p, ps_market_price = cn_close c,
                         ps_market_value = market_value, ps_unrealized_pnl = dec (market_value - cost_basis), ps_realized_pnl = 0,
                         ps_cost_basis = cost_basis, ps_updated_at = cn_timestamp c\<rparr>))"

definition signal_to_order_side :: "signal_type \<Rightarrow> signal_direction \<Rightarrow> position_snapshot option \<Rightarrow> trade_side option" where
  "signal_to_order_side ty dir position =
     (if ty = ENTRY then Some (case dir of LONG \<Rightarrow> Buy | SHORT \<Rightarrow> Sell)
      else case position of
             None \<Rightarrow> None
           | Some p \<Rightarrow> if ps_quantity p = 0 then None else if 0 < ps_quantity p then Some Sell else Some Buy)"

definition basket_step ::
  "string option \<Rightarrow> (string, py_float) dict \<Rightarrow> (string, py_float) dict \<Rightarrow> string \<Rightarrow> bt_position option \<Rightarrow>
     py_float \<times> py_float \<times> py_float \<times> bool \<Rightarrow> py_float \<times> py_float \<times> py_float \<times> bool" where
  "basket_step atr_id last_close last_atr sy pos acc =
     (case pos of
        None \<Rightarrow> acc
      | Some p \<Rightarrow>
          let close = value_of last_close sy; (net, loss, atr_money, seen) = acc
          in if bp_units p = 0 \<or> isnan close then acc
             else
               let units = round64 (of_int (bp_units p));
                   pnl = f_mul (f_sub close (f_of_decimal (bp_average_price p))) units;
                   atr = value_of last_atr sy;
                   counts = (atr_id \<noteq> None \<and> \<not> isnan atr \<and> f_less (Num 0) atr)
               in (f_add net pnl, if f_less pnl (Num 0) then f_add loss (f_neg pnl) else loss,
                   if counts then f_add atr_money (f_mul atr (f_abs units)) else atr_money, seen \<or> counts))"

fun basket_loop ::
  "bt_broker \<Rightarrow> string option \<Rightarrow> (string, py_float) dict \<Rightarrow> (string, py_float) dict \<Rightarrow> string list \<Rightarrow>
     py_float \<times> py_float \<times> py_float \<times> bool \<Rightarrow> (exn, py_float \<times> py_float \<times> py_float \<times> bool) result" where
  "basket_loop b atr_id last_close last_atr [] acc = Inr acc"
| "basket_loop b atr_id last_close last_atr (sy # sys) acc =
     bind_r (get_position sy b) (\<lambda>pos. basket_loop b atr_id last_close last_atr sys (basket_step atr_id last_close last_atr sy pos acc))"

definition basket_state_provider ::
  "bt_broker \<Rightarrow> string list \<Rightarrow> string option \<Rightarrow> (string, py_float) dict \<Rightarrow> (string, py_float) dict \<Rightarrow> (exn, basket_state) result" where
  "basket_state_provider b symbols atr_id last_close last_atr =
     bind_r (basket_loop b atr_id last_close last_atr symbols (Num 0, Num 0, Num 0, False)) (\<lambda>(net, loss, atr_money, seen).
       let equity = f_add (f_of_decimal (bb_balance b)) net
       in Inr \<lparr>bs_open_loss = loss, bs_equity = (if f_less (Num 0) equity then equity else NaN),
               bs_latest_atr = (if seen then atr_money else NaN)\<rparr>)"

definition mark_to_market_equity :: "bt_broker \<Rightarrow> string \<Rightarrow> candle \<Rightarrow> (exn, decimal) result" where
  "mark_to_market_equity b symbol c =
     bind_r (get_position symbol b) (\<lambda>pos.
       let realized = bb_balance b
       in Inr (case pos of
                 None \<Rightarrow> if 0 \<le> realized then realized else 0
               | Some p \<Rightarrow>
                   if bp_units p = 0 then (if 0 \<le> realized then realized else 0)
                   else
                     let equity = dec (realized + dec (dec (cn_close c - bp_average_price p) * of_int (bp_units p)))
                     in if equity < 0 then 0 else equity))"

record backtest_bar =
  bk_candle :: candle
  bk_equity :: decimal

record run_state =
  rn_broker :: bt_broker
  rn_pairer :: trade_pairer
  rn_strategy :: strategy_state
  rn_bufs :: "(string, candle list) dict"
  rn_last_close :: "(string, py_float) dict"
  rn_last_atr :: "(string, py_float) dict"
  rn_counter :: nat
  rn_samples :: "backtest_bar list"

record run_config =
  rc_libm :: "string \<Rightarrow> py_float list \<Rightarrow> (exn, py_float) result"
  rc_engine :: indicator_engine
  rc_strategy :: ir_strategy
  rc_symbols :: "string list"
  rc_correlation_id :: string

definition paper_order_units :: int where
  "paper_order_units = 10000"

definition pad8 :: "nat \<Rightarrow> string" where
  "pad8 n = replicate (8 - length (nat_text n)) (CHR ''0'') @ nat_text n"

definition push_bar :: "candle list \<Rightarrow> candle \<Rightarrow> candle list" where
  "push_bar buf c = (let xs = buf @ [c] in if 600 < length xs then drop (length xs - 600) xs else xs)"

definition latest_inputs :: "(string, indicator_result) dict \<Rightarrow> (string, indicator_values) dict" where
  "latest_inputs inds = map (\<lambda>(ident, r). (ident, case in_values r of None \<Rightarrow> NoValues | Some xs \<Rightarrow> Series xs)) inds"

text \<open>The last value of the basket's ATR indicator, when it has one.\<close>

definition sampled_atr :: "string option \<Rightarrow> string \<Rightarrow> (string, indicator_result) dict \<Rightarrow> (string, py_float) dict \<Rightarrow> (string, py_float) dict" where
  "sampled_atr atr_id symbol inds last_atr =
     (case atr_id of
        None \<Rightarrow> last_atr
      | Some ident \<Rightarrow>
          (case dict_get inds ident of
             None \<Rightarrow> last_atr
           | Some r \<Rightarrow>
               (case in_values r of
                  None \<Rightarrow> last_atr
                | Some xs \<Rightarrow> if xs = [] \<or> isnan (last xs) then last_atr else dict_set symbol (last xs) last_atr)))"

text \<open>\<open>evaluate\<close> with the registered provider, which it calls after the derived fields.\<close>

definition evaluate_with_provider ::
  "run_config \<Rightarrow> bt_broker \<Rightarrow> (string, py_float) dict \<Rightarrow> (string, py_float) dict \<Rightarrow> string \<Rightarrow> candle list \<Rightarrow> (string, indicator_values) dict \<Rightarrow>
     position_snapshot option \<Rightarrow> strategy_state \<Rightarrow> (exn, signal option) result \<times> strategy_state" where
  "evaluate_with_provider cf b last_close last_atr symbol buf inds position ss =
     (let st = rc_strategy cf; run = (\<lambda>provided. evaluate (rc_libm cf) st BarClock provided symbol buf inds position (rc_correlation_id cf) ss)
      in if st_has_basket_exits st then
           (case basket_state_provider b (rc_symbols cf) (wr_basket_atr_indicator_id (st_exit_wiring st)) last_close last_atr of
              Inr bs \<Rightarrow> run (Some bs)
            | Inl e \<Rightarrow>
                (case compute_derived_fields (last buf) (st_derived_field_specs st) (extract_latest_indicator_values inds) of
                   Inl e' \<Rightarrow> (Inl e', ss)
                 | Inr vals \<Rightarrow> (Inl e, snd (observe_position_state st symbol position vals ss))))
         else run None)"

definition act_on_signal :: "run_config \<Rightarrow> string \<Rightarrow> position_snapshot option \<Rightarrow> signal option \<Rightarrow> run_state \<Rightarrow> (exn, run_state) result" where
  "act_on_signal cf symbol position sig s =
     (case sig of
        None \<Rightarrow> Inr s
      | Some g \<Rightarrow>
          (case signal_to_order_side (sg_signal_type g) (sg_direction g) position of
             None \<Rightarrow> Inr s
           | Some side \<Rightarrow>
               let n = rn_counter s + 1
               in case place_order symbol side paper_order_units MarketOrder (rc_correlation_id cf @ ''-'' @ pad8 n) None None (rn_broker s) of
                    (Inl e, b) \<Rightarrow> Inl backtest_error
                  | (Inr ref, b) \<Rightarrow> Inr (s\<lparr>rn_counter := n, rn_broker := b\<rparr>)))"

definition bar_step :: "run_config \<Rightarrow> candle \<Rightarrow> run_state \<Rightarrow> (exn, run_state) result" where
  "bar_step cf c s =
     (let symbol = cn_symbol c
      in case dict_get (rn_bufs s) symbol of
           None \<Rightarrow> Inl (PyError ''KeyError'')
         | Some old \<Rightarrow>
             let buf = push_bar old c
             in case submit_bar symbol c (rn_broker s) of
                  (Inl e, b) \<Rightarrow> Inl e
                | (Inr fills, b) \<Rightarrow>
                    let pairer = foldl (\<lambda>p f. record_fill f (cn_timestamp c) p) (rn_pairer s) fills
                    in bind_r (compute (rc_engine cf) (ir_indicators (st_ir (rc_strategy cf))) buf) (\<lambda>inds.
                       bind_r (position_of b symbol c) (\<lambda>position.
                       let last_close = dict_set symbol (f_of_decimal (cn_close c)) (rn_last_close s);
                           last_atr = sampled_atr (wr_basket_atr_indicator_id (st_exit_wiring (rc_strategy cf))) symbol inds (rn_last_atr s);
                           (answer, ss) = evaluate_with_provider cf b last_close last_atr symbol buf (latest_inputs inds) position (rn_strategy s)
                       in bind_r answer (\<lambda>sig.
                          bind_r (mark_to_market_equity b symbol c) (\<lambda>equity.
                          act_on_signal cf symbol position sig
                            (s\<lparr>rn_broker := b, rn_pairer := pairer, rn_strategy := ss, rn_bufs := dict_set symbol buf (rn_bufs s),
                               rn_last_close := last_close, rn_last_atr := last_atr,
                               rn_samples := rn_samples s @ [\<lparr>bk_candle = c, bk_equity = equity\<rparr>]\<rparr>))))))"

fun run_bars :: "run_config \<Rightarrow> candle list \<Rightarrow> run_state \<Rightarrow> (exn, run_state) result" where
  "run_bars cf [] s = Inr s"
| "run_bars cf (c # cs) s = bind_r (bar_step cf c s) (run_bars cf cs)"

definition new_run :: "bt_broker \<Rightarrow> strategy_state \<Rightarrow> string list \<Rightarrow> run_state" where
  "new_run b ss symbols =
     \<lparr>rn_broker = b, rn_pairer = \<lparr>tp_open = [], tp_closed = []\<rparr>, rn_strategy = ss, rn_bufs = map (\<lambda>s. (s, [])) symbols, rn_last_close = [],
      rn_last_atr = [], rn_counter = 0, rn_samples = []\<rparr>"

section \<open>One position per symbol\<close>

definition waiting :: "string \<Rightarrow> bt_broker \<Rightarrow> pending_order list" where
  "waiting t b = filter (\<lambda>q. rf_symbol (po_order_ref q) = t) (bb_pending b)"

definition open_trades :: "string \<Rightarrow> trade_pairer \<Rightarrow> trade_record list" where
  "open_trades t p = (case dict_get (tp_open p) t of None \<Rightarrow> [] | Some xs \<Rightarrow> xs)"

definition run_order :: "pending_order \<Rightarrow> bool" where
  "run_order q \<longleftrightarrow> po_order_type q = MarketOrder \<and> po_limit_price q = None \<and> po_stop_price q = None \<and> rf_units (po_order_ref q) = paper_order_units"

text \<open>The order that a position may wait for, and the trade that a position belongs to.\<close>

definition closes :: "int \<Rightarrow> trade_side \<Rightarrow> bool" where
  "closes units side \<longleftrightarrow> (0 < units \<and> side = Sell) \<or> (units < 0 \<and> side = Buy)"

definition trade_of :: "int \<Rightarrow> decimal \<Rightarrow> trade_record \<Rightarrow> bool" where
  "trade_of units avg t \<longleftrightarrow> tc_entry_price t = avg \<and> tc_units t = paper_order_units \<and> tc_pnl t = None \<and> tc_exit_price t = None \<and>
     ((tc_side t = ''long'' \<and> units = paper_order_units) \<or> (tc_side t = ''short'' \<and> units = - paper_order_units))"

definition symbol_ok :: "bt_broker \<Rightarrow> trade_pairer \<Rightarrow> string \<Rightarrow> bool" where
  "symbol_ok b p t \<longleftrightarrow> length (waiting t b) \<le> 1 \<and> (\<forall>q\<in>set (waiting t b). run_order q) \<and>
     (case dict_get (bb_positions b) t of
        None \<Rightarrow> open_trades t p = []
      | Some (units, avg) \<Rightarrow>
          (\<exists>tr. open_trades t p = [tr] \<and> trade_of units avg tr) \<and> (\<forall>q\<in>set (waiting t b). closes units (rf_side (po_order_ref q))))"

definition realised :: "decimal \<Rightarrow> trade_record list \<Rightarrow> decimal" where
  "realised start ts = foldl (\<lambda>a t. dec (a + (case tc_pnl t of None \<Rightarrow> 0 | Some x \<Rightarrow> x))) start ts"

definition books_ok :: "decimal \<Rightarrow> bt_broker \<Rightarrow> trade_pairer \<Rightarrow> bool" where
  "books_ok start b p \<longleftrightarrow> (\<forall>t. symbol_ok b p t) \<and> bb_pip_slippage b = [] \<and> bb_balance b = realised start (tp_closed p) \<and>
     (\<forall>t\<in>set (tp_closed p). tc_pnl t \<noteq> None \<and> tc_exit_price t \<noteq> None)"

lemma units_pos [simp]: "0 < paper_order_units" "paper_order_units \<noteq> 0" "\<not> paper_order_units < 0"
  by (simp_all add: paper_order_units_def)

text \<open>A bar without slippage fills every market order of its symbol at the open, in the order of placement.\<close>

definition market_fill :: "candle \<Rightarrow> nat \<Rightarrow> pending_order \<Rightarrow> bt_fill_event" where
  "market_fill c idx q =
     \<lparr>fe_order_ref = po_order_ref q, fe_symbol = rf_symbol (po_order_ref q), fe_side = rf_side (po_order_ref q), fe_units = rf_units (po_order_ref q),
      fe_fill_price = cn_open c, fe_slippage_pips = 0, fe_bar_index = idx\<rparr>"

definition book_order :: "candle \<Rightarrow> pending_order \<Rightarrow> bt_broker \<Rightarrow> bt_broker" where
  "book_order c q b = apply_fill_to_book (rf_symbol (po_order_ref q)) (rf_side (po_order_ref q)) (rf_units (po_order_ref q)) (cn_open c) b"

lemma fill_each_market:
  assumes "fill_each s c idx ps b = (Inr (fills, still), b')" "bb_pip_slippage b = []"
    "\<forall>q\<in>set ps. rf_symbol (po_order_ref q) = s \<longrightarrow> run_order q"
  shows "still = filter (\<lambda>q. rf_symbol (po_order_ref q) \<noteq> s) ps \<and>
    fills = map (market_fill c idx) (filter (\<lambda>q. rf_symbol (po_order_ref q) = s) ps) \<and>
    b' = foldl (\<lambda>b q. book_order c q b) b (filter (\<lambda>q. rf_symbol (po_order_ref q) = s) ps)"
  using assms
proof (induction ps arbitrary: b fills still b')
  case (Cons p ps)
  show ?case
  proof (cases "rf_symbol (po_order_ref p) = s")
    case False
    then obtain st where r: "fill_each s c idx ps b = (Inr (fills, st), b')" "still = p # st"
      using Cons.prems(1) by (fastforce simp: Let_def bind_r_Inr_iff split: prod.splits)
    from Cons.IH [OF r(1) Cons.prems(2)] Cons.prems(3) r(2) False show ?thesis by simp
  next
    case True
    then have q: "compute_fill_price p c = Some (cn_open c)" using Cons.prems(3) by (simp add: compute_fill_price_def run_order_def Let_def)
    have n: "apply_slippage md base side s (case dict_get (bb_pip_slippage b) s of None \<Rightarrow> 0 | Some n \<Rightarrow> n) = Inr base" for md base side
      using Cons.prems(2) by (simp add: apply_slippage_def)
    from True q n Cons.prems(1,2) obtain fs where r: "fill_each s c idx ps (book_order c p b) = (Inr (fs, still), b')"
      "fills = market_fill c idx p # fs"
      by (fastforce simp: Let_def bind_r_Inr_iff book_order_def market_fill_def split: if_splits prod.splits)
    have "bb_pip_slippage (book_order c p b) = []" using Cons.prems(2) by (simp add: book_order_def)
    from Cons.IH [OF r(1) this] Cons.prems(3) r(2) True show ?thesis by simp
  qed
qed simp

lemma submit_bar_market:
  assumes "submit_bar s c b = (Inr fills, b')" "books_ok start b p"
  shows "fills = map (market_fill c (bb_bar_index b)) (waiting s b) \<and> bb_pip_slippage b' = [] \<and>
    bb_pending b' = filter (\<lambda>q. rf_symbol (po_order_ref q) \<noteq> s) (bb_pending b) \<and>
    (case waiting s b of [] \<Rightarrow> bb_positions b' = bb_positions b \<and> bb_balance b' = bb_balance b
     | q # _ \<Rightarrow> bb_positions b' = bb_positions (book_order c q b) \<and> bb_balance b' = bb_balance (book_order c q b))"
proof -
  let ?b = "b\<lparr>bb_last_bar := dict_set s c (bb_last_bar b), bb_bar_index := bb_bar_index b + 1\<rparr>"
  obtain still b1 where r: "fill_each s c (bb_bar_index b) (bb_pending b) ?b = (Inr (fills, still), b1)" "b' = b1\<lparr>bb_pending := still\<rparr>"
    by (rule submit_bar_cases [OF assms(1)])
  have m: "\<forall>q\<in>set (bb_pending b). rf_symbol (po_order_ref q) = s \<longrightarrow> run_order q" "length (waiting s b) \<le> 1" "bb_pip_slippage ?b = []"
    using assms(2) by (auto simp: books_ok_def symbol_ok_def waiting_def)
  note f = fill_each_market [OF r(1) m(3,1)]
  have o: "bb_positions (book_order c q ?b) = bb_positions (book_order c q b)" "bb_balance (book_order c q ?b) = bb_balance (book_order c q b)" for q
    by (auto simp: book_order_def apply_fill_to_book_def split: prod.split option.split)
  show ?thesis
  proof (cases "waiting s b")
    case Nil
    then show ?thesis using f r(2) m(3) by (simp add: waiting_def)
  next
    case (Cons q qs)
    then have "waiting s b = [q]" using m(2) by simp
    then show ?thesis using f r(2) m(3) o by (simp add: waiting_def book_order_def)
  qed
qed

text \<open>A fill of a run either opens a position and a trade or closes both, with the same result.\<close>

lemma opening_fill:
  assumes "symbol_ok b p s" "q \<in> set (waiting s b)" "dict_get (bb_positions b) s = None"
  shows "book_order c q b = b\<lparr>bb_positions := dict_set s (signed_units (rf_side (po_order_ref q)) paper_order_units, cn_open c) (bb_positions b)\<rparr>"
    and "record_fill (market_fill c idx q) ts p = p\<lparr>tp_open := dict_set s [opened_trade (market_fill c idx q) ts] (tp_open p)\<rparr>"
    and "trade_of (signed_units (rf_side (po_order_ref q)) paper_order_units) (cn_open c) (opened_trade (market_fill c idx q) ts)"
proof -
  have q: "rf_symbol (po_order_ref q) = s" "rf_units (po_order_ref q) = paper_order_units"
    using assms(1,2) by (auto simp: waiting_def symbol_ok_def run_order_def)
  have o: "open_trades s p = []" using assms(1,3) by (simp add: symbol_ok_def)
  show "book_order c q b = b\<lparr>bb_positions := dict_set s (signed_units (rf_side (po_order_ref q)) paper_order_units, cn_open c) (bb_positions b)\<rparr>"
    using assms(3) q by (simp add: book_order_def apply_fill_to_book_def fill_entry_def)
  show "record_fill (market_fill c idx q) ts p = p\<lparr>tp_open := dict_set s [opened_trade (market_fill c idx q) ts] (tp_open p)\<rparr>"
    using o q by (simp add: record_fill_def open_trades_def market_fill_def Let_def)
  show "trade_of (signed_units (rf_side (po_order_ref q)) paper_order_units) (cn_open c) (opened_trade (market_fill c idx q) ts)"
    using q by (cases "rf_side (po_order_ref q)") (simp_all add: trade_of_def opened_trade_def market_fill_def signed_units_def)
qed

lemma fill_entry_close:
  "0 < n \<Longrightarrow> fill_entry (Some (n, avg)) (- n) price = (None, Some (dec (dec (price - avg) * of_int n)))"
  "0 < n \<Longrightarrow> fill_entry (Some (- n, avg)) n price = (None, Some (dec (dec (avg - price) * of_int n)))"
  by (simp_all add: fill_entry_def)

lemma closing_fill:
  assumes "symbol_ok b p s" "q \<in> set (waiting s b)" "dict_get (bb_positions b) s = Some (u, avg)" "open_trades s p = [tr]"
  obtains r where "book_order c q b = b\<lparr>bb_positions := dict_del s (bb_positions b), bb_balance := dec (bb_balance b + r)\<rparr>"
    "tc_pnl (closed_by (market_fill c idx q) ts tr) = Some r"
    "record_fill (market_fill c idx q) ts p =
       p\<lparr>tp_open := dict_set s [] (tp_open p), tp_closed := tp_closed p @ [closed_by (market_fill c idx q) ts tr]\<rparr>"
proof -
  have q: "rf_symbol (po_order_ref q) = s" "rf_units (po_order_ref q) = paper_order_units"
    using assms(1,2) by (auto simp: waiting_def symbol_ok_def run_order_def)
  have t: "trade_of u avg tr" and cl: "closes u (rf_side (po_order_ref q))" using assms by (auto simp: symbol_ok_def)
  let ?r = "if 0 < u then dec (dec (cn_open c - avg) * of_int paper_order_units) else dec (dec (avg - cn_open c) * of_int paper_order_units)"
  have "fill_entry (Some (u, avg)) (signed_units (rf_side (po_order_ref q)) paper_order_units) (cn_open c) = (None, Some ?r)"
    using t cl fill_entry_close [OF units_pos(1), of avg "cn_open c"] by (auto simp: trade_of_def closes_def signed_units_def)
  then have b: "book_order c q b = b\<lparr>bb_positions := dict_del s (bb_positions b), bb_balance := dec (bb_balance b + ?r)\<rparr>"
    using assms(3) q by (simp add: book_order_def apply_fill_to_book_def)
  have "tc_pnl (closed_by (market_fill c idx q) ts tr) = Some ?r"
    using t by (auto simp: trade_of_def closed_by_def market_fill_def)
  moreover have "record_fill (market_fill c idx q) ts p =
       p\<lparr>tp_open := dict_set s [] (tp_open p), tp_closed := tp_closed p @ [closed_by (market_fill c idx q) ts tr]\<rparr>"
    using assms(4) t cl q by (auto simp: record_fill_def open_trades_def market_fill_def trade_of_def closes_def Let_def split: option.splits)
  ultimately show thesis using b by (rule that [rotated])
qed

text \<open>After a bar: the books agree, and nothing waits for the bar's symbol.\<close>

lemma bar_keeps_books:
  assumes "books_ok start b p" "submit_bar s c b = (Inr fills, b')" "p' = foldl (\<lambda>p f. record_fill f ts p) p fills"
  shows "books_ok start b' p' \<and> waiting s b' = []"
proof -
  note m = submit_bar_market [OF assms(2,1)]
  have w: "waiting s b' = []" "t \<noteq> s \<Longrightarrow> waiting t b' = waiting t b" for t
    using m by (auto simp: waiting_def filter_empty_conv intro!: filter_cong)
  have ok: "symbol_ok b p t" for t using assms(1) by (simp add: books_ok_def)
  show ?thesis
  proof (cases "waiting s b")
    case Nil
    then have "p' = p" "bb_positions b' = bb_positions b" "bb_balance b' = bb_balance b" using m assms(3) by auto
    moreover have "symbol_ok b' p t" for t
      using ok [of t] w(2) [of t] calculation(2) by (cases "t = s") (auto simp: symbol_ok_def w(1) split: option.splits)
    ultimately show ?thesis using assms(1) m w(1) by (simp add: books_ok_def)
  next
    case (Cons q qs)
    then have q: "q \<in> set (waiting s b)" and f: "fills = [market_fill c (bb_bar_index b) q]"
      and b': "bb_positions b' = bb_positions (book_order c q b)" "bb_balance b' = bb_balance (book_order c q b)"
      using m ok [of s] by (auto simp: symbol_ok_def)
    have p': "p' = record_fill (market_fill c (bb_bar_index b) q) ts p" using f assms(3) by simp
    show ?thesis
    proof (cases "dict_get (bb_positions b) s")
      case None
      note o = opening_fill [OF ok q None, of c] opening_fill(2,3) [OF ok q None, of c "bb_bar_index b" ts]
      have "symbol_ok b' p' t" for t
        using ok [of t] w(2) [of t] b' o by (cases "t = s") (auto simp: symbol_ok_def w(1) p' open_trades_def split: option.splits)
      then show ?thesis using assms(1) m w(1) b' o by (simp add: books_ok_def p')
    next
      case (Some e)
      obtain u avg where e: "e = (u, avg)" by force
      then obtain tr where tr: "open_trades s p = [tr]" using ok [of s] Some by (auto simp: symbol_ok_def)
      obtain r where r: "book_order c q b = b\<lparr>bb_positions := dict_del s (bb_positions b), bb_balance := dec (bb_balance b + r)\<rparr>"
        "tc_pnl (closed_by (market_fill c (bb_bar_index b) q) ts tr) = Some r"
        "record_fill (market_fill c (bb_bar_index b) q) ts p =
           p\<lparr>tp_open := dict_set s [] (tp_open p), tp_closed := tp_closed p @ [closed_by (market_fill c (bb_bar_index b) q) ts tr]\<rparr>"
        using closing_fill [OF ok q Some [unfolded e] tr] by metis
      have "symbol_ok b' p' t" for t
        using ok [of t] w(2) [of t] b' r by (cases "t = s") (auto simp: symbol_ok_def w(1) p' open_trades_def split: option.splits)
      moreover have "bb_balance b' = realised start (tp_closed p')" using assms(1) b' r by (simp add: books_ok_def p' realised_def)
      moreover have "tc_exit_price (closed_by (market_fill c (bb_bar_index b) q) ts tr) \<noteq> None" by (simp add: closed_by_def)
      ultimately show ?thesis using assms(1) m w(1) r by (simp add: books_ok_def p')
    qed
  qed
qed

text \<open>A strategy enters when flat and exits when it holds a position.\<close>

lemma build_signal_type [simp]: "sg_signal_type (build_signal st ck symbol c dir ty vals corr md) = ty"
  by (simp add: build_signal_def)

lemma decide_signal_type:
  "decide libm st ck symbol corr ctx = Inr (Some g) \<Longrightarrow> sg_signal_type g = (if holding (ex_position ctx) then EXIT else ENTRY)"
proof (cases "holding (ex_position ctx)")
  case True
  assume "decide libm st ck symbol corr ctx = Inr (Some g)"
  with True obtain fired where "(case fired of None \<Rightarrow> None | Some name \<Rightarrow> Some (build_signal st ck symbol (ex_candle ctx)
      (if 0 < ps_quantity (the (ex_position ctx)) then SHORT else LONG) EXIT (ex_values ctx) corr [(''exit_reason'', name)])) = Some g"
    unfolding decide_def Let_def by (auto simp only: bind_r_Inr_iff if_True sum.inject)
  then show ?thesis using True by (cases fired) auto
next
  case False
  assume "decide libm st ck symbol corr ctx = Inr (Some g)"
  with False show ?thesis unfolding decide_def Let_def by (auto simp: bind_r_Inr_iff simp del: option.case_eq_if split: if_splits)
qed

lemma evaluate_signal_type:
  assumes "evaluate libm st ck provided symbol candles inds position corr ss = (Inr (Some g), ss')"
  shows "sg_signal_type g = (if holding position then EXIT else ENTRY)"
proof -
  from assms obtain vals where v: "candles \<noteq> []"
    "compute_derived_fields (last candles) (st_derived_field_specs st) (extract_latest_indicator_values inds) = Inr vals"
    by (auto simp: evaluate_def Let_def split: if_splits sum.splits)
  from assms v obtain ctx where "decide libm st ck symbol corr ctx = Inr (Some g)" "ex_position ctx = position"
    by (auto simp: evaluate_def Let_def split: prod.splits)
  from decide_signal_type [OF this(1)] this(2) show ?thesis by simp
qed

lemma evaluate_with_provider_type:
  "evaluate_with_provider cf b lc la symbol buf inds position ss = (Inr (Some g), ss') \<Longrightarrow>
     sg_signal_type g = (if holding position then EXIT else ENTRY)"
  by (auto simp: evaluate_with_provider_def Let_def split: if_splits sum.splits dest: evaluate_signal_type)

lemma act_keeps_books:
  assumes "act_on_signal cf symbol position sig s = Inr s'" "books_ok start (rn_broker s) (rn_pairer s)" "waiting symbol (rn_broker s) = []"
    "position_of (rn_broker s) symbol c = Inr position"
    "\<And>g. sig = Some g \<Longrightarrow> sg_signal_type g = (if holding position then EXIT else ENTRY)"
  shows "books_ok start (rn_broker s') (rn_pairer s')"
proof (cases "s' = s \<or> rn_broker s' = rn_broker s")
  case True
  with assms(1,2) show ?thesis by (auto simp: act_on_signal_def Let_def split: option.splits prod.splits sum.splits)
next
  case False
  then obtain g side r ext where g: "sig = Some g" "signal_to_order_side (sg_signal_type g) (sg_direction g) position = Some side"
      "place_order symbol side paper_order_units MarketOrder ext None None (rn_broker s) = (r, rn_broker s')" "rn_pairer s' = rn_pairer s"
    using assms(1) by (auto simp: act_on_signal_def Let_def split: option.splits prod.splits sum.splits)
  let ?b = "rn_broker s"
  from g(3) False obtain ref where n: "rf_units ref = paper_order_units" "rf_symbol ref = symbol" "rf_side ref = side"
      "rn_broker s' = ?b\<lparr>bb_next_order_id := bb_next_order_id ?b + 1, bb_by_extension_id := dict_set ext ref (bb_by_extension_id ?b),
         bb_pending := bb_pending ?b @ [\<lparr>po_order_ref = ref, po_order_type = MarketOrder, po_limit_price = None, po_stop_price = None\<rparr>]\<rparr>"
    by (cases rule: place_order_cases [of symbol side paper_order_units MarketOrder ext None None ?b]) auto
  have w: "waiting t (rn_broker s') = waiting t ?b @ (if t = symbol then
      [\<lparr>po_order_ref = ref, po_order_type = MarketOrder, po_limit_price = None, po_stop_price = None\<rparr>] else [])" for t
    using n by (simp add: waiting_def)
  have cl: "closes u side" if h: "dict_get (bb_positions ?b) symbol = Some (u, avg)" for u avg
  proof -
    have "u \<noteq> 0" using assms(2) h by (auto simp: books_ok_def symbol_ok_def trade_of_def dest!: spec [of _ symbol])
    moreover obtain ps where "position = Some ps" "ps_quantity ps = of_int u"
      using assms(4) h by (auto simp: position_of_def get_position_def bind_r_Inr_iff Let_def split: if_splits)
    ultimately show ?thesis using g(2) assms(5) [OF g(1)]
      by (auto simp: signal_to_order_side_def holding_def closes_def split: if_splits)
  qed
  have "symbol_ok (rn_broker s') (rn_pairer s') t" for t
  proof -
    have ok: "symbol_ok ?b (rn_pairer s) t" using assms(2) by (simp add: books_ok_def)
    have "bb_positions (rn_broker s') = bb_positions ?b" using n by simp
    then show ?thesis using ok cl n assms(3) unfolding symbol_ok_def w g(4)
      by (cases "t = symbol") (auto simp: run_order_def split: option.splits)
  qed
  then show ?thesis using assms(2) n g(4) by (simp add: books_ok_def)
qed

lemma bar_step_cases:
  assumes "bar_step cf c s = Inr s'"
  obtains old fills b inds position sig ss equity lc la where "submit_bar (cn_symbol c) c (rn_broker s) = (Inr fills, b)"
    "position_of b (cn_symbol c) c = Inr position" "mark_to_market_equity b (cn_symbol c) c = Inr equity"
    "evaluate_with_provider cf b lc la (cn_symbol c) (push_bar old c) (latest_inputs inds) position (rn_strategy s) = (Inr sig, ss)"
    "act_on_signal cf (cn_symbol c) position sig
      (s\<lparr>rn_broker := b, rn_pairer := foldl (\<lambda>p f. record_fill f (cn_timestamp c) p) (rn_pairer s) fills, rn_strategy := ss,
         rn_bufs := dict_set (cn_symbol c) (push_bar old c) (rn_bufs s), rn_last_close := lc, rn_last_atr := la,
         rn_samples := rn_samples s @ [\<lparr>bk_candle = c, bk_equity = equity\<rparr>]\<rparr>) = Inr s'"
proof -
  let ?sym = "cn_symbol c"
  let ?lc = "dict_set ?sym (f_of_decimal (cn_close c)) (rn_last_close s)"
  let ?la = "\<lambda>inds. sampled_atr (wr_basket_atr_indicator_id (st_exit_wiring (rc_strategy cf))) ?sym inds (rn_last_atr s)"
  from assms obtain old fills b where o: "dict_get (rn_bufs s) ?sym = Some old" and b: "submit_bar ?sym c (rn_broker s) = (Inr fills, b)"
    by (auto simp: bar_step_def Let_def split: option.splits prod.splits sum.splits)
  with assms obtain inds position where i: "compute (rc_engine cf) (ir_indicators (st_ir (rc_strategy cf))) (push_bar old c) = Inr inds"
    and pos: "position_of b ?sym c = Inr position" by (auto simp: bar_step_def Let_def bind_r_Inr_iff)
  obtain answer ss where ev: "evaluate_with_provider cf b ?lc (?la inds) ?sym (push_bar old c) (latest_inputs inds) position (rn_strategy s) = (answer, ss)"
    by force
  from assms o b i pos ev show thesis by (auto simp: bar_step_def Let_def bind_r_Inr_iff intro: that)
qed

lemma bar_step_keeps_books:
  assumes "bar_step cf c s = Inr s'" "books_ok start (rn_broker s) (rn_pairer s)"
  shows "books_ok start (rn_broker s') (rn_pairer s')"
  using assms(1)
proof (cases rule: bar_step_cases)
  case (1 old fills b inds position sig ss equity lc la)
  from bar_keeps_books [OF assms(2) 1(1) refl] 1(2) show ?thesis
    by (intro act_keeps_books [OF 1(5)]) (use evaluate_with_provider_type 1(4) in auto)
qed

lemma run_keeps_books:
  "run_bars cf cs s = Inr s' \<Longrightarrow> books_ok start (rn_broker s) (rn_pairer s) \<Longrightarrow> books_ok start (rn_broker s') (rn_pairer s')"
  by (induction cs arbitrary: s) (auto simp: bind_r_Inr_iff dest: bar_step_keeps_books)

lemma new_run_books: "new_bt_broker start [] md = Inr b \<Longrightarrow> books_ok start (rn_broker (new_run b ss symbols)) (rn_pairer (new_run b ss symbols))"
  by (auto simp: new_bt_broker_def new_run_def books_ok_def symbol_ok_def waiting_def open_trades_def realised_def split: if_splits)

text \<open>
  C27. A backtest never pyramids: after every bar, each symbol is flat or holds exactly one order size, at most one
  order waits per symbol, and an order that waits while a position is held closes it, whatever strategy,
  indicators and bars of several symbols in any order.
\<close>

theorem one_position_per_symbol:
  assumes "new_bt_broker start [] md = Inr b" "run_bars cf cs (new_run b ss symbols) = Inr s"
  shows "units_of t (rn_broker s) \<in> {- paper_order_units, 0, paper_order_units} \<and> length (waiting t (rn_broker s)) \<le> 1 \<and>
    (units_of t (rn_broker s) \<noteq> 0 \<longrightarrow> (\<forall>q\<in>set (waiting t (rn_broker s)). closes (units_of t (rn_broker s)) (rf_side (po_order_ref q))))"
proof -
  have "symbol_ok (rn_broker s) (rn_pairer s) t" using run_keeps_books [OF assms(2) new_run_books [OF assms(1)]] by (simp add: books_ok_def)
  then show ?thesis by (auto simp: symbol_ok_def units_of_def trade_of_def split: option.splits)
qed

text \<open>
  C28. The trade log explains the balance: at the end of a backtest the broker's balance is the starting balance plus
  the results of the closed trades, added in the order of closing with the same rounding, and the open
  trades of the log are the broker's positions, at the price and on the side of the book.
\<close>

theorem trade_log_explains_balance:
  assumes "new_bt_broker start [] md = Inr b" "run_bars cf cs (new_run b ss symbols) = Inr s"
  shows "bb_balance (rn_broker s) = realised start (tp_closed (rn_pairer s)) \<and>
    (\<forall>t\<in>set (tp_closed (rn_pairer s)). tc_pnl t \<noteq> None \<and> tc_exit_price t \<noteq> None) \<and>
    (\<forall>sy. case dict_get (bb_positions (rn_broker s)) sy of
       None \<Rightarrow> open_trades sy (rn_pairer s) = []
     | Some (units, avg) \<Rightarrow> \<exists>tr. open_trades sy (rn_pairer s) = [tr] \<and> trade_of units avg tr)"
proof -
  have ok: "books_ok start (rn_broker s) (rn_pairer s)" by (rule run_keeps_books [OF assms(2) new_run_books [OF assms(1)]])
  then have "case dict_get (bb_positions (rn_broker s)) sy of
       None \<Rightarrow> open_trades sy (rn_pairer s) = []
     | Some (units, avg) \<Rightarrow> \<exists>tr. open_trades sy (rn_pairer s) = [tr] \<and> trade_of units avg tr" for sy
    by (auto simp: books_ok_def symbol_ok_def split: option.splits dest!: spec [of _ sy])
  with ok show ?thesis by (simp add: books_ok_def)
qed

text \<open>A strategy that always enters, and leaves on the next bar.\<close>

definition demo_always :: leaf_fn where
  "demo_always = \<lparr>lf_lhs = ConstFn (Num 1), lf_operator = ''<'', lf_rhs = ConstFn (Num 2)\<rparr>"

definition demo_strategy :: ir_strategy where
  "demo_strategy = \<lparr>st_ir = blank_ir, st_deployment_id = ''D1'', st_long_entry = Some (TreeEntry (LeafFn demo_always)), st_short_entry = None,
     st_exit_checks = [(''primary_exit'', Single demo_always)], st_indicator_ids = [],
     st_risk_model = \<lparr>cr_risk_pct_of_equity = Num 1, cr_daily_loss_limit_pct = Num 2, cr_max_drawdown_halt_pct = Num 10, cr_method = ''''\<rparr>,
     st_exit_wiring = \<lparr>wr_atr_indicator_id = None, wr_atr_multiple = NaN, wr_rr_multiple = NaN, wr_bb_upper_inner_id = None,
       wr_bb_lower_inner_id = None, wr_bb_mid_id = None, wr_time_exit_max_bars = None, wr_basket_atr_indicator_id = None,
       wr_basket_atr_multiple = NaN\<rparr>,
     st_derived_field_specs = [], st_has_basket_exits = False\<rparr>"

definition demo_config :: run_config where
  "demo_config = \<lparr>rc_libm = no_libm, rc_engine = (\<lambda>name candles args. Inl backtest_error), rc_strategy = demo_strategy,
     rc_symbols = [''EURUSD''], rc_correlation_id = ''X''\<rparr>"

definition demo_state :: strategy_state where
  "demo_state = \<lparr>ss_lookback_buffers = [], ss_open_trades = [], ss_bar_counter = 0, ss_cross_tf = new_aggregator []\<rparr>"

definition demo_md2 :: market_data where
  "demo_md2 = \<lparr>md_supports = (\<lambda>s. True), md_get_pip_size = (\<lambda>s. Inr 1)\<rparr>"

lemma demo_ext_ids: "pad8 1 = ''00000001''" "pad8 2 = ''00000002''"
  by code_simp+

lemma demo_decs: "dec 1 = 1" "dec 10000 = 10000" "dec 20000 = 20000" "dec 30000 = 30000" "dec 2 = 2" "dec 3 = 3"
  using dec_of_int [of 1] dec_of_int [of 10000] dec_of_int [of 20000] dec_of_int [of 30000] dec_of_int [of 2] dec_of_int [of 3] by simp_all

lemma demo_compute: "compute engine (ir_indicators (st_ir demo_strategy)) buf = Inr []"
  by (simp add: compute_def demo_strategy_def blank_ir_def)

lemma demo_always_true: "run_leaf libm demo_always ctx = Inr True"
  by (simp add: run_leaf_def demo_always_def isnan_def compare_def)

lemma demo_decide:
  "(\<And>p. ex_position ctx = Some p \<Longrightarrow> 0 < ps_quantity p) \<Longrightarrow>
     \<exists>g. decide libm demo_strategy ck symbol corr ctx = Inr (Some g) \<and> sg_direction g = (if ex_position ctx = None then LONG else SHORT)"
  by (cases "ex_position ctx")
    (auto simp: decide_def demo_strategy_def holding_def run_entry_option_def run_entry_def run_exit_def demo_always_true build_signal_def Let_def)

lemma demo_evaluate:
  assumes "buf \<noteq> []" "\<And>p. position = Some p \<Longrightarrow> 0 < ps_quantity p"
  shows "\<exists>g ss'. evaluate_with_provider demo_config b lc la symbol buf (latest_inputs []) position ss = (Inr (Some g), ss') \<and>
    sg_direction g = (if position = None then LONG else SHORT)"
proof -
  obtain t ss1 where o: "observe_position_state demo_strategy symbol position [] ss = (t, ss1)" by force
  have v: "compute_derived_fields (last buf) (st_derived_field_specs demo_strategy) (extract_latest_indicator_values []) = Inr []"
    by (simp add: demo_strategy_def extract_latest_indicator_values_def)
  let ?ctx = "\<lparr>ex_candle = last buf, ex_values = [], ex_position = position, ex_buffers = ss_lookback_buffers ss1, ex_open_trade = t,
    ex_bar_counter = ss_bar_counter ss1, ex_cross_tf = ss_cross_tf ss1, ex_basket_state = default_basket_state\<rparr>"
  have nb: "st_has_basket_exits demo_strategy = False" by (simp add: demo_strategy_def)
  obtain g where g: "decide no_libm demo_strategy BarClock symbol ''X'' ?ctx = Inr (Some g)" "sg_direction g = (if position = None then LONG else SHORT)"
    using demo_decide [of ?ctx no_libm BarClock symbol "''X''"] assms(2) by auto
  show ?thesis
    using assms(1) o v nb g by (simp add: evaluate_with_provider_def demo_config_def latest_inputs_def evaluate_def)
qed

lemma demo_bar_step:
  assumes "dict_get (rn_bufs s) ''EURUSD'' = Some old" "submit_bar ''EURUSD'' (demo_fx_bar x) (rn_broker s) = (Inr fills, b)"
    "position_of b ''EURUSD'' (demo_fx_bar x) = Inr position" "\<And>p. position = Some p \<Longrightarrow> 0 < ps_quantity p"
    "mark_to_market_equity b ''EURUSD'' (demo_fx_bar x) = Inr eq"
    "place_order ''EURUSD'' (if position = None then Buy else Sell) paper_order_units MarketOrder (''X-'' @ pad8 (rn_counter s + 1)) None None b = (Inr ref, b')"
  shows "\<exists>s'. bar_step demo_config (demo_fx_bar x) s = Inr s' \<and> rn_broker s' = b' \<and> rn_counter s' = rn_counter s + 1 \<and>
    rn_pairer s' = foldl (\<lambda>p f. record_fill f 0 p) (rn_pairer s) fills \<and> (\<exists>buf. dict_get (rn_bufs s') ''EURUSD'' = Some buf)"
proof -
  have buf: "push_bar old (demo_fx_bar x) \<noteq> []" by (simp add: push_bar_def Let_def)
  let ?lc = "dict_set ''EURUSD'' (f_of_decimal (cn_close (demo_fx_bar x))) (rn_last_close s)"
  let ?la = "sampled_atr (wr_basket_atr_indicator_id (st_exit_wiring demo_strategy)) ''EURUSD'' [] (rn_last_atr s)"
  obtain g ss where e: "evaluate_with_provider demo_config b ?lc ?la ''EURUSD'' (push_bar old (demo_fx_bar x)) (latest_inputs []) position (rn_strategy s) =
      (Inr (Some g), ss)" "sg_direction g = (if position = None then LONG else SHORT)"
    using demo_evaluate [OF buf assms(4)] by blast
  have ty: "sg_signal_type g = (if holding position then EXIT else ENTRY)" by (rule evaluate_with_provider_type [OF e(1)])
  have side: "signal_to_order_side (sg_signal_type g) (sg_direction g) position = Some (if position = None then Buy else Sell)"
    using assms(4) e(2) ty by (cases position) (auto simp: signal_to_order_side_def holding_def)
  have f: "cn_symbol (demo_fx_bar x) = ''EURUSD''" "cn_timestamp (demo_fx_bar x) = 0" "rc_strategy demo_config = demo_strategy"
    "rc_correlation_id demo_config = ''X''" by (simp_all add: demo_fx_bar_def demo_config_def)
  show ?thesis
    using assms(1-3,5,6) e(1) side f demo_compute by (auto simp: bar_step_def act_on_signal_def Let_def)
qed

lemma demo_backtest:
  assumes "new_bt_broker 0 [] demo_md2 = Inr b"
  obtains s where "run_bars demo_config [demo_fx_bar 2, demo_fx_bar 2, demo_fx_bar 3] (new_run b demo_state [''EURUSD'']) = Inr s"
    "bb_balance (rn_broker s) = 10000" "length (tp_closed (rn_pairer s)) = 1"
proof -
  let ?s0 = "new_run b demo_state [''EURUSD'']"
  note defs = submit_bar_def demo_fx_bar_def compute_fill_price_def apply_slippage_def apply_fill_to_book_def fill_entry_def signed_units_def
    position_of_def get_position_def mark_to_market_equity_def place_order_def bad_arguments_def paper_order_units_def demo_md2_def demo_decs Let_def
  have b: "b = \<lparr>bb_market_data = demo_md2, bb_pip_slippage = [], bb_by_extension_id = [], bb_pending = [], bb_cancelled_ids = {},
      bb_positions = [], bb_balance = 0, bb_last_bar = [], bb_next_order_id = 1, bb_bar_index = 0\<rparr>"
    using assms by (simp add: new_bt_broker_def)
  have s0: "rn_broker ?s0 = b" "rn_counter ?s0 = 0" "rn_pairer ?s0 = \<lparr>tp_open = [], tp_closed = []\<rparr>" "dict_get (rn_bufs ?s0) ''EURUSD'' = Some []"
    by (simp_all add: new_run_def)
  let ?ref = "\<lambda>k ext side. \<lparr>rf_broker_order_id = ''PAPER-ORDER-'' @ nat_text k, rf_client_extension_id = ext, rf_symbol = ''EURUSD'', rf_side = side,
    rf_units = paper_order_units\<rparr>"
  let ?po = "\<lambda>r. \<lparr>po_order_ref = r, po_order_type = MarketOrder, po_limit_price = None, po_stop_price = None\<rparr>"
  let ?r1 = "?ref 1 ''X-00000001'' Buy"
  let ?r2 = "?ref 2 ''X-00000002'' Sell"
  let ?a1 = "b\<lparr>bb_last_bar := [(''EURUSD'', demo_fx_bar 2)], bb_bar_index := 1\<rparr>"
  let ?b1 = "?a1\<lparr>bb_next_order_id := 2, bb_by_extension_id := [(''X-00000001'', ?r1)], bb_pending := [?po ?r1]\<rparr>"
  let ?a2 = "?b1\<lparr>bb_bar_index := 2, bb_pending := [], bb_positions := [(''EURUSD'', paper_order_units, 2)]\<rparr>"
  let ?b2 = "?a2\<lparr>bb_next_order_id := 3, bb_by_extension_id := [(''X-00000001'', ?r1), (''X-00000002'', ?r2)], bb_pending := [?po ?r2]\<rparr>"
  let ?a3 = "?b2\<lparr>bb_last_bar := [(''EURUSD'', demo_fx_bar 3)], bb_bar_index := 3, bb_pending := [], bb_positions := [], bb_balance := 10000\<rparr>"
  have a: "submit_bar ''EURUSD'' (demo_fx_bar 2) (rn_broker ?s0) = (Inr [], ?a1)" "position_of ?a1 ''EURUSD'' (demo_fx_bar 2) = Inr None"
    "mark_to_market_equity ?a1 ''EURUSD'' (demo_fx_bar 2) = Inr 0"
    unfolding s0 by (simp_all add: b defs)
  have e1: "pad8 (rn_counter ?s0 + 1) = ''00000001''" unfolding s0 by (simp add: demo_ext_ids [simplified])
  have p1: "place_order ''EURUSD'' (if None = (None :: position_snapshot option) then Buy else Sell) paper_order_units MarketOrder (''X-'' @ pad8 (rn_counter ?s0 + 1)) None None ?a1 = (Inr ?r1, ?b1)"
    unfolding e1 by (simp add: b defs)
  obtain s1 where s1: "bar_step demo_config (demo_fx_bar 2) ?s0 = Inr s1" "rn_broker s1 = ?b1" "rn_counter s1 = 1"
      "rn_pairer s1 = \<lparr>tp_open = [], tp_closed = []\<rparr>" "\<exists>buf. dict_get (rn_bufs s1) ''EURUSD'' = Some buf"
    using demo_bar_step [OF s0(4) a(1,2) _ a(3) p1] s0 by auto
  have c: "submit_bar ''EURUSD'' (demo_fx_bar 2) (rn_broker s1) = (Inr [market_fill (demo_fx_bar 2) 1 (?po ?r1)], ?a2)"
    "mark_to_market_equity ?a2 ''EURUSD'' (demo_fx_bar 2) = Inr 0"
    unfolding s1 by (simp_all add: b defs market_fill_def)
  obtain ps where ps: "position_of ?a2 ''EURUSD'' (demo_fx_bar 2) = Inr (Some ps)" "0 < ps_quantity ps" by (simp add: b defs)
  have e2: "pad8 (rn_counter s1 + 1) = ''00000002''" unfolding s1 one_add_one by (rule demo_ext_ids)
  have p2: "place_order ''EURUSD'' (if Some ps = None then Buy else Sell) paper_order_units MarketOrder (''X-'' @ pad8 (rn_counter s1 + 1)) None None ?a2 = (Inr ?r2, ?b2)"
    unfolding e2 by (simp add: b defs)
  obtain s2 where s2: "bar_step demo_config (demo_fx_bar 2) s1 = Inr s2" "rn_broker s2 = ?b2" "rn_counter s2 = 2"
      "rn_pairer s2 = record_fill (market_fill (demo_fx_bar 2) 1 (?po ?r1)) 0 \<lparr>tp_open = [], tp_closed = []\<rparr>" "\<exists>buf. dict_get (rn_bufs s2) ''EURUSD'' = Some buf"
    using s1(5) demo_bar_step [OF _ c(1) ps(1) _ c(2) p2] s1 ps(2) by auto
  have e3: "pad8 (2 + 1) = ''00000003''" by code_simp
  have d: "submit_bar ''EURUSD'' (demo_fx_bar 3) (rn_broker s2) = (Inr [market_fill (demo_fx_bar 3) 2 (?po ?r2)], ?a3)"
    "position_of ?a3 ''EURUSD'' (demo_fx_bar 3) = Inr None" "mark_to_market_equity ?a3 ''EURUSD'' (demo_fx_bar 3) = Inr 10000"
    unfolding s2 by (simp_all add: b defs market_fill_def)
  obtain ref b3 where p3: "place_order ''EURUSD'' (if None = (None :: position_snapshot option) then Buy else Sell) paper_order_units MarketOrder
      (''X-'' @ pad8 (rn_counter s2 + 1)) None None ?a3 = (Inr ref, b3)" "bb_balance b3 = 10000"
    unfolding s2 e3 by (simp add: b defs)
  obtain s3 where s3: "bar_step demo_config (demo_fx_bar 3) s2 = Inr s3" "rn_broker s3 = b3"
      "rn_pairer s3 = record_fill (market_fill (demo_fx_bar 3) 2 (?po ?r2)) 0 (rn_pairer s2)"
    using s2(5) demo_bar_step [OF _ d(1,2) _ d(3) p3(1)] by auto
  have "length (tp_closed (rn_pairer s3)) = 1" unfolding s3 s2 by (simp add: record_fill_def market_fill_def opened_trade_def Let_def)
  moreover have "run_bars demo_config [demo_fx_bar 2, demo_fx_bar 2, demo_fx_bar 3] ?s0 = Inr s3" using s1(1) s2(1) s3(1) by simp
  ultimately show thesis using that p3(2) s3(2) by blast
qed

theorem one_position_per_symbol_witness:
  "\<exists>b s. new_bt_broker 0 [] demo_md2 = Inr b \<and>
     run_bars demo_config [demo_fx_bar 2, demo_fx_bar 2, demo_fx_bar 3] (new_run b demo_state [''EURUSD'']) = Inr s \<and>
     units_of ''EURUSD'' (rn_broker s) \<in> {- paper_order_units, 0, paper_order_units}"
proof -
  obtain b where b: "new_bt_broker 0 [] demo_md2 = Inr b" by (simp add: new_bt_broker_def)
  obtain s where s: "run_bars demo_config [demo_fx_bar 2, demo_fx_bar 2, demo_fx_bar 3] (new_run b demo_state [''EURUSD'']) = Inr s"
    by (rule demo_backtest [OF b])
  from one_position_per_symbol [OF b s] b s show ?thesis by blast
qed

theorem trade_log_explains_balance_witness:
  "\<exists>b s. new_bt_broker 0 [] demo_md2 = Inr b \<and>
     run_bars demo_config [demo_fx_bar 2, demo_fx_bar 2, demo_fx_bar 3] (new_run b demo_state [''EURUSD'']) = Inr s \<and>
     length (tp_closed (rn_pairer s)) = 1 \<and> realised 0 (tp_closed (rn_pairer s)) = 10000"
proof -
  obtain b where b: "new_bt_broker 0 [] demo_md2 = Inr b" by (simp add: new_bt_broker_def)
  obtain s where s: "run_bars demo_config [demo_fx_bar 2, demo_fx_bar 2, demo_fx_bar 3] (new_run b demo_state [''EURUSD'']) = Inr s"
    "bb_balance (rn_broker s) = 10000" "length (tp_closed (rn_pairer s)) = 1"
    by (rule demo_backtest [OF b])
  from trade_log_explains_balance [OF b s(1)] b s show ?thesis by auto
qed

end
