(* ===== verification/Ir_Preprocessor.thy ===== *)
theory Ir_Preprocessor
  imports Contracts
begin

text \<open>
  The preprocessor that a backtest applies to a submitted strategy before it is validated: \<open>_IRPreprocessor\<close> of
  \<open>services/cli/run_synthetic_backtest.py\<close>. It works on the decoded JSON text, so every assumption about its shape that fails is
  an exception of Python (\<open>AttributeError\<close>, \<open>TypeError\<close>). The texts of the report are left out: a
  dropped condition is reported by its value.
\<close>

section \<open>JSON values\<close>

definition type_error :: exn where
  "type_error = PyError ''TypeError''"

definition truthy :: "json \<Rightarrow> bool" where
  "truthy j = (case j of JNull \<Rightarrow> False | JBool b \<Rightarrow> b | JNum x \<Rightarrow> x \<noteq> 0 | JStr s \<Rightarrow> s \<noteq> [] | JList xs \<Rightarrow> xs \<noteq> [] | JObj d \<Rightarrow> d \<noteq> [])"

text \<open>\<open>j.get(key)\<close> with \<open>None\<close> as the default, iteration, and the test whether a value can be hashed.\<close>

definition py_get :: "json \<Rightarrow> string \<Rightarrow> (exn, json) result" where
  "py_get j key = (case j of JObj d \<Rightarrow> Inr (case dict_get d key of None \<Rightarrow> JNull | Some v \<Rightarrow> v) | _ \<Rightarrow> Inl (PyError ''AttributeError''))"

definition py_iter :: "json \<Rightarrow> (exn, json list) result" where
  "py_iter j =
     (case j of
        JList xs \<Rightarrow> Inr xs
      | JStr s \<Rightarrow> Inr (map (\<lambda>c. JStr [c]) s)
      | JObj d \<Rightarrow> Inr (map (JStr \<circ> fst) d)
      | _ \<Rightarrow> Inl type_error)"

definition hashable :: "json \<Rightarrow> bool" where
  "hashable j = (case j of JList xs \<Rightarrow> False | JObj d \<Rightarrow> False | _ \<Rightarrow> True)"

definition is_dict :: "json \<Rightarrow> bool" where
  "is_dict j = (case j of JObj d \<Rightarrow> True | _ \<Rightarrow> False)"

section \<open>Sanitising\<close>

definition unsupported_price_fields :: "string list" where
  "unsupported_price_fields = [''spread_basket_average'']"

definition priority_name_aliases :: "(string, string) dict" where
  "priority_name_aliases = [(''stop_loss'', ''initial_stop'')]"

definition leaf_is_unsupported :: "(string, json) dict \<Rightarrow> bool" where
  "leaf_is_unsupported leaf =
     list_ex (\<lambda>side. case dict_get leaf side of Some (JStr s) \<Rightarrow> s \<in> set unsupported_price_fields | _ \<Rightarrow> False) [''lhs'', ''rhs'']"

definition is_tree :: "(string, json) dict \<Rightarrow> bool" where
  "is_tree d \<longleftrightarrow> dict_get d ''op'' \<noteq> None \<and> dict_get d ''conditions'' \<noteq> None"

text \<open>The children of a tree, in the order of iteration; only a list can hold trees.\<close>

fun child_list :: "json option \<Rightarrow> (exn, json list) result" where
  "child_list None = Inr []"
| "child_list (Some j) = py_iter j"

lemma size_child: "dict_get d k = Some (JList xs) \<Longrightarrow> size_list size xs < size_list (size_prod (\<lambda>_. 0) size) d"
  by (induction d) (auto split: if_splits)

lemma child_list_size: "child_list (dict_get d k) = Inr xs \<Longrightarrow> is_dict x \<Longrightarrow> x \<in> set xs \<Longrightarrow> size x < size (JObj d)"
proof -
  assume a: "child_list (dict_get d k) = Inr xs" "is_dict x" "x \<in> set xs"
  then obtain ys where "dict_get d k = Some (JList ys)" "ys = xs"
    by (auto simp: py_iter_def is_dict_def split: option.splits json.splits) (cases "dict_get d k"; auto simp: py_iter_def split: json.splits)
  with size_child [of d k ys] size_list_estimation' [of x xs "size x" size] a(3) show ?thesis by simp
qed

lemma bind_r_cong [fundef_cong]: "r = r' \<Longrightarrow> (\<And>v. r' = Inr v \<Longrightarrow> f v = g v) \<Longrightarrow> bind_r r f = bind_r r' g"
  by (cases r') (simp_all add: bind_r_def)

definition tree_size :: "json list \<Rightarrow> nat" where
  "tree_size xs = foldr (\<lambda>x n. max (if is_dict x then size x else 0) n) xs 0"

lemma tree_size_simps [simp]:
  "tree_size [] = 0" "tree_size (x # xs) = max (if is_dict x then size x else 0) (tree_size xs)"
  by (simp_all add: tree_size_def)

lemma tree_size_less: "0 < n \<Longrightarrow> (\<And>x. x \<in> set xs \<Longrightarrow> is_dict x \<Longrightarrow> size x < n) \<Longrightarrow> tree_size xs < n"
  by (induction xs) auto

function strip_tree :: "(string, json) dict \<Rightarrow> (exn, (string, json) dict \<times> json list) result"
  and strip_children :: "json list \<Rightarrow> (exn, json list \<times> json list) result" where
  "strip_tree d =
     bind_r (child_list (dict_get d ''conditions'')) (\<lambda>xs.
     bind_r (strip_children xs) (\<lambda>(kept, dropped). Inr (dict_set ''conditions'' (JList kept) d, dropped)))"
| "strip_children [] = Inr ([], [])"
| "strip_children (x # xs) =
     (case x of
        JObj d \<Rightarrow>
          if is_tree d then
            bind_r (strip_tree d) (\<lambda>(d', dropped). bind_r (strip_children xs) (\<lambda>(kept, more). Inr (JObj d' # kept, dropped @ more)))
          else if leaf_is_unsupported d then bind_r (strip_children xs) (\<lambda>(kept, dropped). Inr (kept, x # dropped))
          else bind_r (strip_children xs) (\<lambda>(kept, dropped). Inr (x # kept, dropped))
      | _ \<Rightarrow> bind_r (strip_children xs) (\<lambda>(kept, dropped). Inr (x # kept, dropped)))"
  by pat_completeness auto

termination
proof (relation "measures [case_sum (\<lambda>d. size (JObj d)) tree_size, case_sum (\<lambda>d. 0) (\<lambda>xs. Suc (length xs))]", goal_cases)
  case (2 d xs)
  have "tree_size xs < size (JObj d)" by (rule tree_size_less) (use 2 child_list_size in auto)
  then show ?case by simp
qed (auto simp: is_dict_def)

declare strip_tree.simps [simp del]

definition strip_any :: "json \<Rightarrow> (exn, (string, json) dict \<times> json list) result" where
  "strip_any j = (case j of JObj d \<Rightarrow> strip_tree d | _ \<Rightarrow> Inl (PyError ''AttributeError''))"

text \<open>The value of a key that is a dictionary or absent, as the code reads it with \<open>{}\<close> as the default.\<close>

definition sub_dict :: "(string, json) dict \<Rightarrow> string \<Rightarrow> (exn, (string, json) dict option) result" where
  "sub_dict out key =
     (case dict_get out key of None \<Rightarrow> Inr None | Some (JObj d) \<Rightarrow> Inr (Some d) | Some _ \<Rightarrow> Inl (PyError ''AttributeError''))"

definition strip_side :: "string \<Rightarrow> (string, json) dict \<Rightarrow> (exn, (string, json) dict \<times> json list) result" where
  "strip_side side entry_logic =
     (case dict_get entry_logic side of
        None \<Rightarrow> Inr (entry_logic, [])
      | Some JNull \<Rightarrow> Inr (entry_logic, [])
      | Some (JObj entry) \<Rightarrow>
          (case dict_get entry ''logic'' of
             None \<Rightarrow> Inr (entry_logic, [])
           | Some JNull \<Rightarrow> Inr (entry_logic, [])
           | Some tree \<Rightarrow>
               bind_r (strip_any tree) (\<lambda>(d, dropped).
                 Inr (dict_set side (JObj (dict_set ''logic'' (JObj d) entry)) entry_logic, dropped)))
      | Some _ \<Rightarrow> Inl (PyError ''AttributeError''))"

definition has_conditions :: "(string, json) dict \<Rightarrow> bool" where
  "has_conditions d = (case dict_get d ''conditions'' of None \<Rightarrow> False | Some c \<Rightarrow> truthy c)"

definition strip_entry_filters :: "(string, json) dict \<Rightarrow> (exn, (string, json) dict \<times> json list) result" where
  "strip_entry_filters entry_logic =
     (case dict_get entry_logic ''entry_filters'' of
        Some (JObj filters) \<Rightarrow>
          if has_conditions filters then
            bind_r (strip_tree filters) (\<lambda>(d, dropped).
              if has_conditions d
              then Inr (dict_set ''entry_filters'' (JObj d) entry_logic, dropped)
              else Inr (dict_del ''entry_filters'' entry_logic, dropped))
          else Inr (entry_logic, [])
      | _ \<Rightarrow> Inr (entry_logic, []))"

definition sanitize_entry_logic :: "(string, json) dict \<Rightarrow> (exn, (string, json) dict \<times> json list) result" where
  "sanitize_entry_logic out =
     bind_r (sub_dict out ''entry_logic'') (\<lambda>entry.
       case entry of
         None \<Rightarrow> Inr (out, [])
       | Some e0 \<Rightarrow>
           bind_r (strip_side ''long'' e0) (\<lambda>(e1, dr1).
           bind_r (strip_side ''short'' e1) (\<lambda>(e2, dr2).
           bind_r (strip_entry_filters e2) (\<lambda>(e3, dr3). Inr (dict_set ''entry_logic'' (JObj e3) out, dr1 @ dr2 @ dr3)))))"

definition field_dropped :: "json \<Rightarrow> bool" where
  "field_dropped f = (case f of JStr s \<Rightarrow> s \<in> set unsupported_price_fields | _ \<Rightarrow> False)"

definition sanitize_required_fields :: "(string, json) dict \<Rightarrow> (exn, (string, json) dict \<times> json list) result" where
  "sanitize_required_fields out =
     bind_r (sub_dict out ''data_requirements'') (\<lambda>req.
       case req of
         None \<Rightarrow> Inr (out, [])
       | Some r \<Rightarrow>
           (case dict_get r ''required_fields'' of
              Some (JList fs) \<Rightarrow>
                if list_ex (\<lambda>f. \<not> hashable f) fs then Inl type_error
                else Inr (dict_set ''data_requirements'' (JObj (dict_set ''required_fields'' (JList (filter (\<lambda>f. \<not> field_dropped f) fs)) r)) out,
                          filter field_dropped fs)
            | _ \<Rightarrow> Inr (out, [])))"

definition stop_names :: "string list" where
  "stop_names = [''primary_exit'', ''initial_stop'', ''take_profit'', ''trailing_exit'', ''scheduled_exit'', ''equity_stop'']"

definition configured :: "(string, json) dict \<Rightarrow> string list" where
  "configured x =
     filter (\<lambda>name. case dict_get x name of None \<Rightarrow> False | Some v \<Rightarrow> v \<noteq> JNull) stop_names @
     filter (\<lambda>name. case dict_get x name of
                      Some (JObj rule) \<Rightarrow> (case dict_get rule ''enabled'' of None \<Rightarrow> False | Some v \<Rightarrow> truthy v)
                    | _ \<Rightarrow> False) [''trailing_stop'', ''time_exit'']"

definition priority_kept :: "(string, json) dict \<Rightarrow> json \<Rightarrow> bool" where
  "priority_kept x name =
     (case name of JStr s \<Rightarrow> (case dict_get priority_name_aliases s of None \<Rightarrow> s | Some c \<Rightarrow> c) \<in> set (configured x) | _ \<Rightarrow> False)"

definition sanitize_priority :: "(string, json) dict \<Rightarrow> (exn, (string, json) dict \<times> json list) result" where
  "sanitize_priority out =
     bind_r (sub_dict out ''exit_logic'') (\<lambda>exit.
       case exit of
         None \<Rightarrow> Inr (out, [])
       | Some x \<Rightarrow>
           bind_r (child_list (dict_get x ''same_bar_priority'')) (\<lambda>names.
             if list_ex (\<lambda>f. \<not> hashable f) names then Inl type_error
             else Inr (if dict_get x ''same_bar_priority'' = None then out
                       else dict_set ''exit_logic'' (JObj (dict_set ''same_bar_priority'' (JList (filter (priority_kept x) names)) x)) out,
                       filter (\<lambda>f. \<not> priority_kept x f) names)))"

record preprocess_report =
  pp_dropped_conditions :: "json list"
  pp_dropped_required_fields :: "json list"
  pp_dropped_priority_entries :: "json list"

definition sanitize :: "json \<Rightarrow> (exn, json \<times> preprocess_report) result" where
  "sanitize raw =
     (case raw of
        JObj d \<Rightarrow>
          bind_r (sanitize_entry_logic d) (\<lambda>(d1, conditions).
          bind_r (sanitize_required_fields d1) (\<lambda>(d2, fs).
          bind_r (sanitize_priority d2) (\<lambda>(d3, names).
          Inr (JObj d3, \<lparr>pp_dropped_conditions = conditions, pp_dropped_required_fields = fs, pp_dropped_priority_entries = names\<rparr>))))
      | _ \<Rightarrow> Inl (PyError ''AttributeError''))"

section \<open>A sanitised strategy stays as it is\<close>

lemma dict_set_same: "dict_get d k = Some v \<Longrightarrow> dict_set k v d = d"
  by (induction d) (auto split: if_splits)

lemma strip_tree_keys:
  "strip_tree d = Inr (d', dropped) \<Longrightarrow> (\<exists>xs. dict_get d' ''conditions'' = Some (JList xs)) \<and> dict_get d' ''op'' = dict_get d ''op''"
  by (auto simp: strip_tree.simps [of d] bind_r_Inr_iff split: prod.splits)

lemma strip_again:
  "strip_tree d = Inr (d', dropped) \<Longrightarrow> strip_tree d' = Inr (d', [])"
  "strip_children xs = Inr (kept, dropped') \<Longrightarrow> strip_children kept = Inr (kept, [])"
proof (induction d and xs arbitrary: d' dropped and kept dropped' rule: strip_tree_strip_children.induct)
  case (1 d)
  then obtain xs kept where x: "child_list (dict_get d ''conditions'') = Inr xs" "strip_children xs = Inr (kept, dropped)"
    "d' = dict_set ''conditions'' (JList kept) d" by (auto simp: strip_tree.simps [of d] bind_r_Inr_iff split: prod.splits)
  from 1(1) [OF x(1,2)] have "strip_children kept = Inr (kept, [])" .
  then show ?case unfolding x(3) by (subst strip_tree.simps) (simp add: py_iter_def dict_set_same)
next
  case (3 x xs)
  consider (tree) d where "x = JObj d" "is_tree d" | (leaf) "\<nexists>d. x = JObj d \<and> is_tree d" by blast
  then show ?case
  proof cases
    case tree
    with "3.prems" obtain d2 dr2 kept2 more2 where r: "strip_tree d = Inr (d2, dr2)" "strip_children xs = Inr (kept2, more2)" "kept = JObj d2 # kept2"
      by (auto simp: bind_r_Inr_iff split: prod.splits)
    have t: "is_tree d2" using strip_tree_keys [OF r(1)] tree(2) by (auto simp: is_tree_def)
    have "strip_tree d2 = Inr (d2, [])" by (rule "3.IH"(6) [OF tree r(1)])
    moreover have "strip_children kept2 = Inr (kept2, [])" by (rule "3.IH"(7) [OF tree r(1) refl r(2)])
    ultimately show ?thesis using r(3) t by simp
  next
    case leaf
    with "3.prems" obtain kept2 more2 where r: "strip_children xs = Inr (kept2, more2)"
      "kept = kept2 \<or> (kept = x # kept2 \<and> (\<nexists>d. x = JObj d \<and> leaf_is_unsupported d))"
      by (cases x) (auto simp: bind_r_Inr_iff split: prod.splits if_splits)
    have "strip_children kept2 = Inr (kept2, [])"
      using "3.IH" leaf r(1) by (cases x) (metis, metis, metis, metis, metis, metis)
    then show ?thesis using r(2) leaf by (cases x) auto
  qed
qed auto

lemma strip_side_again:
  assumes "strip_side side e = Inr (e', dropped)"
  shows "strip_side side e' = Inr (e', [])"
proof (cases "e' = e \<and> dropped = []")
  case False
  then obtain entry tree d where t: "dict_get e side = Some (JObj entry)" "dict_get entry ''logic'' = Some (JObj tree)"
      "strip_tree tree = Inr (d, dropped)" "e' = dict_set side (JObj (dict_set ''logic'' (JObj d) entry)) e"
    using assms by (auto simp: strip_side_def strip_any_def bind_r_Inr_iff split: option.splits json.splits prod.splits)
  show ?thesis using strip_again(1) [OF t(3)] by (simp add: strip_side_def strip_any_def t(4) dict_set_same)
qed (use assms in simp)

lemma strip_side_frame:
  "strip_side side e = Inr (e', dropped) \<Longrightarrow> k \<noteq> side \<Longrightarrow> dict_get e' k = dict_get e k"
  by (auto simp: strip_side_def bind_r_Inr_iff split: option.splits json.splits prod.splits)

lemma strip_filters_frame:
  "strip_entry_filters e = Inr (e', dropped) \<Longrightarrow> k \<noteq> ''entry_filters'' \<Longrightarrow> dict_get e' k = dict_get e k"
  by (auto simp: strip_entry_filters_def bind_r_Inr_iff split: option.splits json.splits prod.splits if_splits)

lemma strip_filters_again:
  assumes "strip_entry_filters e = Inr (e', dropped)"
  shows "strip_entry_filters e' = Inr (e', [])"
proof (cases "e' = e \<and> dropped = []")
  case False
  then obtain filters d where f: "dict_get e ''entry_filters'' = Some (JObj filters)" "strip_tree filters = Inr (d, dropped)"
      "e' = (if has_conditions d then dict_set ''entry_filters'' (JObj d) e
             else dict_del ''entry_filters'' e)"
    using assms by (auto simp: strip_entry_filters_def bind_r_Inr_iff split: option.splits json.splits prod.splits if_splits)
  show ?thesis using strip_again(1) [OF f(2)] by (auto simp: strip_entry_filters_def f(3) dict_set_same)
qed (use assms in simp)

text \<open>The result of \<open>strip_side\<close> depends on the entry of the side only.\<close>

lemma strip_side_stable:
  assumes "strip_side side e = Inr (e, [])" "dict_get e' side = dict_get e side"
  shows "strip_side side e' = Inr (e', [])"
proof (cases "\<exists>entry tree. dict_get e side = Some (JObj entry) \<and> dict_get entry ''logic'' = Some (JObj tree)")
  case True
  then obtain entry tree where t: "dict_get e side = Some (JObj entry)" "dict_get entry ''logic'' = Some (JObj tree)" by blast
  with assms(1) obtain d where d: "strip_tree tree = Inr (d, [])" "dict_set side (JObj (dict_set ''logic'' (JObj d) entry)) e = e"
    by (auto simp: strip_side_def strip_any_def bind_r_Inr_iff)
  from d(2) have "dict_get e side = Some (JObj (dict_set ''logic'' (JObj d) entry))" by (metis dict_get_set)
  then show ?thesis using t d(1) assms(2) dict_set_same [of e' side] by (simp add: strip_side_def strip_any_def)
next
  case False
  then show ?thesis using assms by (auto simp: strip_side_def strip_any_def split: option.splits json.splits)
qed

lemma entry_logic_again:
  assumes "sanitize_entry_logic d = Inr (d', dropped)"
  shows "sanitize_entry_logic d' = Inr (d', [])"
proof (cases "sub_dict d ''entry_logic''")
  case (Inr entry)
  show ?thesis
  proof (cases entry)
    case None
    then show ?thesis using assms Inr by (simp add: sanitize_entry_logic_def)
  next
    case (Some e0)
    with assms Inr obtain e1 dr1 e2 dr2 e3 dr3 where e: "strip_side ''long'' e0 = Inr (e1, dr1)" "strip_side ''short'' e1 = Inr (e2, dr2)"
        "strip_entry_filters e2 = Inr (e3, dr3)" "d' = dict_set ''entry_logic'' (JObj e3) d"
      by (auto simp: sanitize_entry_logic_def bind_r_Inr_iff split: prod.splits)
    have "strip_side ''long'' e3 = Inr (e3, [])"
      by (rule strip_side_stable [OF strip_side_again [OF e(1)]]) (use strip_side_frame [OF e(2)] strip_filters_frame [OF e(3)] in simp)
    moreover have "strip_side ''short'' e3 = Inr (e3, [])"
      by (rule strip_side_stable [OF strip_side_again [OF e(2)]]) (use strip_filters_frame [OF e(3)] in simp)
    ultimately show ?thesis
      using strip_filters_again [OF e(3)] e(4) by (simp add: sanitize_entry_logic_def sub_dict_def dict_set_same)
  qed
qed (use assms in \<open>simp add: sanitize_entry_logic_def\<close>)

lemma sub_dict_Some: "sub_dict d k = Inr (Some x) \<longleftrightarrow> dict_get d k = Some (JObj x)"
  by (auto simp: sub_dict_def split: option.splits json.splits)

lemma sub_dict_None: "sub_dict d k = Inr None \<longleftrightarrow> dict_get d k = None"
  by (auto simp: sub_dict_def split: option.splits json.splits)

lemma sub_dict_eq: "dict_get d' k = dict_get d k \<Longrightarrow> sub_dict d' k = sub_dict d k"
  by (simp add: sub_dict_def)

lemma set_fixes: "dict_set k v d = d \<Longrightarrow> dict_get d k = Some v"
  by (metis dict_get_set)

text \<open>The stages change one key each, do nothing a second time, and depend on their key only.\<close>

lemma entry_logic_frame: "sanitize_entry_logic d = Inr (d', dropped) \<Longrightarrow> k \<noteq> ''entry_logic'' \<Longrightarrow> dict_get d' k = dict_get d k"
  by (auto simp: sanitize_entry_logic_def bind_r_Inr_iff split: option.splits prod.splits)

lemma required_fields_frame: "sanitize_required_fields d = Inr (d', dropped) \<Longrightarrow> k \<noteq> ''data_requirements'' \<Longrightarrow> dict_get d' k = dict_get d k"
  by (auto simp: sanitize_required_fields_def sub_dict_def bind_r_def split: option.splits json.splits if_splits)

lemma priority_frame: "sanitize_priority d = Inr (d', dropped) \<Longrightarrow> k \<noteq> ''exit_logic'' \<Longrightarrow> dict_get d' k = dict_get d k"
  by (auto simp: sanitize_priority_def bind_r_Inr_iff split: option.splits if_splits)

lemma entry_logic_stable:
  assumes "sanitize_entry_logic d = Inr (d, [])" "dict_get d' ''entry_logic'' = dict_get d ''entry_logic''"
  shows "sanitize_entry_logic d' = Inr (d', [])"
proof (cases "dict_get d ''entry_logic''")
  case None
  then show ?thesis using assms by (simp add: sanitize_entry_logic_def sub_dict_def)
next
  case (Some j)
  with assms(1) obtain e where e: "j = JObj e" by (auto simp: sanitize_entry_logic_def sub_dict_def bind_r_Inr_iff split: json.splits)
  with Some assms(1) obtain e1 dr1 e2 dr2 e3 dr3 where s: "strip_side ''long'' e = Inr (e1, dr1)" "strip_side ''short'' e1 = Inr (e2, dr2)"
      "strip_entry_filters e2 = Inr (e3, dr3)" "dr1 @ dr2 @ dr3 = []" "dict_set ''entry_logic'' (JObj e3) d = d"
    by (auto simp: sanitize_entry_logic_def sub_dict_def bind_r_Inr_iff split: prod.splits)
  have "e3 = e" using set_fixes [OF s(5)] Some e by simp
  then show ?thesis using s assms(2) Some e dict_set_same [of d' "''entry_logic''"] by (simp add: sanitize_entry_logic_def sub_dict_def)
qed

lemma required_fields_again:
  assumes "sanitize_required_fields d = Inr (d', dropped)"
  shows "sanitize_required_fields d' = Inr (d', [])"
proof (cases "\<exists>r fs. dict_get d ''data_requirements'' = Some (JObj r) \<and> dict_get r ''required_fields'' = Some (JList fs)")
  case True
  then obtain r fs where r: "dict_get d ''data_requirements'' = Some (JObj r)" "dict_get r ''required_fields'' = Some (JList fs)" by blast
  let ?r = "dict_set ''required_fields'' (JList (filter (\<lambda>f. \<not> field_dropped f) fs)) r"
  have d': "d' = dict_set ''data_requirements'' (JObj ?r) d" "\<not> list_ex (\<lambda>f. \<not> hashable f) fs"
    using assms r by (auto simp: sanitize_required_fields_def sub_dict_def split: if_splits)
  have "\<not> list_ex (\<lambda>f. \<not> hashable f) (filter (\<lambda>f. \<not> field_dropped f) fs)" using d'(2) by (auto simp: list_ex_iff)
  moreover have "dict_set ''data_requirements'' (JObj (dict_set ''required_fields'' (JList (filter (\<lambda>f. \<not> field_dropped f) fs)) ?r)) d' = d'"
    unfolding d'(1) by (simp add: dict_set_same)
  ultimately show ?thesis by (simp add: sanitize_required_fields_def sub_dict_def d'(1) filter_empty_conv dict_set_same)
next
  case False
  with assms have "d' = d" "dropped = []" by (auto simp: sanitize_required_fields_def sub_dict_def bind_r_def split: option.splits json.splits)
  with assms show ?thesis by simp
qed

lemma required_fields_stable:
  assumes "sanitize_required_fields d = Inr (d, [])" "dict_get d' ''data_requirements'' = dict_get d ''data_requirements''"
  shows "sanitize_required_fields d' = Inr (d', [])"
proof (cases "\<exists>r fs. dict_get d ''data_requirements'' = Some (JObj r) \<and> dict_get r ''required_fields'' = Some (JList fs)")
  case True
  then obtain r fs where r: "dict_get d ''data_requirements'' = Some (JObj r)" "dict_get r ''required_fields'' = Some (JList fs)" by blast
  then have f: "dict_set ''data_requirements'' (JObj (dict_set ''required_fields'' (JList (filter (\<lambda>f. \<not> field_dropped f) fs)) r)) d = d"
    "\<not> list_ex (\<lambda>f. \<not> hashable f) fs" "filter field_dropped fs = []"
    using assms(1) by (auto simp: sanitize_required_fields_def sub_dict_def split: if_splits)
  have "dict_set ''required_fields'' (JList (filter (\<lambda>f. \<not> field_dropped f) fs)) r = r" using set_fixes [OF f(1)] r(1) by simp
  then show ?thesis using f(2,3) r assms(2) dict_set_same [of d' "''data_requirements''"]
    by (simp add: sanitize_required_fields_def sub_dict_def)
next
  case False
  with assms show ?thesis by (auto simp: sanitize_required_fields_def sub_dict_def bind_r_def split: option.splits json.splits)
qed

lemma priority_kept_set: "priority_kept (dict_set ''same_bar_priority'' v x) = priority_kept x"
  by (rule ext) (simp add: priority_kept_def configured_def stop_names_def split: json.split)

lemma priority_again:
  assumes "sanitize_priority d = Inr (d', dropped)"
  shows "sanitize_priority d' = Inr (d', [])"
proof (cases "sub_dict d ''exit_logic''")
  case (Inr ex)
  show ?thesis
  proof (cases ex)
    case None
    then show ?thesis using assms Inr by (simp add: sanitize_priority_def)
  next
    case (Some x)
    with assms Inr obtain names where n: "child_list (dict_get x ''same_bar_priority'') = Inr names" "\<not> list_ex (\<lambda>f. \<not> hashable f) names"
      "d' = (if dict_get x ''same_bar_priority'' = None then d
             else dict_set ''exit_logic'' (JObj (dict_set ''same_bar_priority'' (JList (filter (priority_kept x) names)) x)) d)"
      by (auto simp: sanitize_priority_def bind_r_Inr_iff split: if_splits)
    show ?thesis
    proof (cases "dict_get x ''same_bar_priority''")
      case None
      then show ?thesis using assms n Some Inr by (auto simp: sanitize_priority_def)
    next
      case (Some p)
      let ?x = "dict_set ''same_bar_priority'' (JList (filter (priority_kept x) names)) x"
      have d': "d' = dict_set ''exit_logic'' (JObj ?x) d" using n(3) Some by simp
      have "\<not> list_ex (\<lambda>f. \<not> hashable f) (filter (priority_kept x) names)" using n(2) by (auto simp: list_ex_iff)
      then show ?thesis unfolding d'
        by (simp add: sanitize_priority_def sub_dict_def py_iter_def priority_kept_set filter_empty_conv dict_set_same)
    qed
  qed
qed (use assms in \<open>simp add: sanitize_priority_def\<close>)

text \<open>
  C40. Sanitising is idempotent: a strategy that the preprocessor has accepted is left as it is by a second pass,
  which drops nothing. So it makes no difference that the command line sanitises a strategy for its header
  and the executor sanitises it again.
\<close>

theorem sanitize_idempotent:
  assumes "sanitize raw = Inr (out, report)"
  shows "sanitize out = Inr (out, \<lparr>pp_dropped_conditions = [], pp_dropped_required_fields = [], pp_dropped_priority_entries = []\<rparr>)"
proof -
  from assms obtain d d1 c1 d2 c2 d3 c3 where s: "sanitize_entry_logic d = Inr (d1, c1)" "sanitize_required_fields d1 = Inr (d2, c2)"
      "sanitize_priority d2 = Inr (d3, c3)" "out = JObj d3"
    by (auto simp: sanitize_def bind_r_Inr_iff split: json.splits prod.splits)
  have "sanitize_required_fields d3 = Inr (d3, [])"
    by (rule required_fields_stable [OF required_fields_again [OF s(2)]]) (use priority_frame [OF s(3)] in simp)
  moreover have "sanitize_entry_logic d3 = Inr (d3, [])"
    by (rule entry_logic_stable [OF entry_logic_again [OF s(1)]])
      (use priority_frame [OF s(3)] required_fields_frame [OF s(2)] in simp)
  ultimately show ?thesis using priority_again [OF s(3)] s(4) by (simp add: sanitize_def)
qed

definition demo_json :: json where
  "demo_json = JObj [(''entry_logic'', JObj [(''long'', JObj [(''logic'', JObj [(''op'', JStr ''and''),
       (''conditions'', JList [JObj [(''lhs'', JStr ''spread_basket_average''), (''rhs'', JNum 2)], JObj [(''lhs'', JStr ''close''), (''rhs'', JNum 1)]])])])]),
     (''exit_logic'', JObj [(''same_bar_priority'', JList [JStr ''stop_loss'', JStr ''time_exit'']), (''initial_stop'', JObj [(''type'', JStr ''x'')])])]"

theorem sanitize_idempotent_witness:
  "\<exists>out report. sanitize demo_json = Inr (out, report) \<and> pp_dropped_priority_entries report = [JStr ''time_exit''] \<and> out \<noteq> demo_json \<and>
     (\<exists>r. sanitize out = Inr (out, r))"
proof -
  have "case sanitize demo_json of Inl e \<Rightarrow> False | Inr (out, report) \<Rightarrow> pp_dropped_priority_entries report = [JStr ''time_exit''] \<and> out \<noteq> demo_json"
    by code_simp
  then obtain out report where s: "sanitize demo_json = Inr (out, report)" "pp_dropped_priority_entries report = [JStr ''time_exit'']" "out \<noteq> demo_json"
    by (auto split: sum.splits)
  from sanitize_idempotent [OF s(1)] s show ?thesis by blast
qed

end
