(* ===== verification/Strategy_Runs.thy ===== *)
theory Strategy_Runs
  imports Compiled_Strategy
begin

text \<open>
  What a compiled strategy does: which signal a bar gives, in which order derived fields are computed, what names of
  earlier bars and the time exit count, and which parts of a strategy have no effect.
\<close>

section \<open>One bar\<close>

text \<open>The context in which the closures of a bar run.\<close>

definition bar_ctx ::
  "ir_strategy \<Rightarrow> basket_state option \<Rightarrow> string \<Rightarrow> candle \<Rightarrow> (string, py_float) dict \<Rightarrow> position_snapshot option \<Rightarrow> strategy_state \<Rightarrow> eval_ctx" where
  "bar_ctx st provided symbol c vals position ss =
     (let (open_tr, ss1) = observe_position_state st symbol position vals ss
      in \<lparr>ex_candle = c, ex_values = vals, ex_position = position, ex_buffers = ss_lookback_buffers ss1,
          ex_open_trade = open_tr, ex_bar_counter = ss_bar_counter ss1, ex_cross_tf = ss_cross_tf ss1,
          ex_basket_state = (if st_has_basket_exits st then (case provided of None \<Rightarrow> default_basket_state | Some b \<Rightarrow> b)
                             else default_basket_state)\<rparr>)"

lemma evaluate_bar:
  assumes "candles \<noteq> []"
    "compute_derived_fields (last candles) (st_derived_field_specs st) (extract_latest_indicator_values inds) = Inr vals"
  shows "evaluate libm st ck provided symbol candles inds position corr ss =
    (decide libm st ck symbol corr (bar_ctx st provided symbol (last candles) vals position ss),
     finish_bar symbol (last candles) vals (snd (observe_position_state st symbol position vals ss)))"
  using assms by (simp add: evaluate_def bar_ctx_def Let_def split: prod.splits)

lemma bar_ctx_fields [simp]:
  "ex_candle (bar_ctx st provided symbol c vals position ss) = c" "ex_values (bar_ctx st provided symbol c vals position ss) = vals"
  "ex_position (bar_ctx st provided symbol c vals position ss) = position"
  by (simp_all add: bar_ctx_def split: prod.splits)

lemma first_exit_Some:
  "first_exit libm checks ctx = Inr (Some name) \<Longrightarrow>
     \<exists>xs f ys. checks = xs @ (name, f) # ys \<and> run_exit libm f ctx = Inr True \<and> (\<forall>(n, g)\<in>set xs. run_exit libm g ctx = Inr False)"
proof (induction checks)
  case (Cons nf checks)
  obtain n g where nf: "nf = (n, g)" by force
  from Cons.prems nf obtain b where b: "run_exit libm g ctx = Inr b" by (cases "run_exit libm g ctx") auto
  show ?case
  proof (cases b)
    case True
    then show ?thesis using Cons.prems nf b by (intro exI [of _ "[]"]) auto
  next
    case False
    then obtain xs f ys where "checks = xs @ (name, f) # ys" "run_exit libm f ctx = Inr True" "\<forall>(n, g)\<in>set xs. run_exit libm g ctx = Inr False"
      using Cons nf b by auto
    then show ?thesis using nf b False by (intro exI [of _ "nf # xs"] exI [of _ f] exI [of _ ys]) simp
  qed
qed simp

lemma first_exit_None: "first_exit libm checks ctx = Inr None \<longleftrightarrow> (\<forall>(n, g)\<in>set checks. run_exit libm g ctx = Inr False)"
proof (induction checks)
  case (Cons nf checks)
  obtain n g where nf: "nf = (n, g)" by force
  show ?case using nf Cons.IH by (cases "run_exit libm g ctx") auto
qed simp

text \<open>The closing direction of a position.\<close>

definition closing :: "position_snapshot \<Rightarrow> signal_direction" where
  "closing p = (if 0 < ps_quantity p then SHORT else LONG)"


section \<open>Derived fields\<close>

lemma eval_node_cong: "(\<forall>x\<in>names_of t. dict_get d x = dict_get d' x) \<Longrightarrow> formula_ok t \<Longrightarrow> eval_node t d = eval_node t d'"
  by (induction t rule: formula_ok.induct) (auto simp: ball_Un)

lemma foldl_dict_set: "dict_ok kvs \<Longrightarrow> dict_get (foldl (\<lambda>d (k, v). dict_set k v d) d kvs) x =
    (case dict_get kvs x of None \<Rightarrow> dict_get d x | Some v \<Rightarrow> Some v)"
proof (induction kvs arbitrary: d)
  case (Cons kv kvs)
  obtain k v where kv: "kv = (k, v)" by force
  have n: "dict_get kvs k = None" "dict_ok kvs" using Cons.prems kv by (simp_all add: dict_ok_def map_of_eq_None_iff)
  show ?case using Cons.IH [OF n(2)] kv n(1) by (cases "x = k") (simp_all split: option.splits)
qed simp

lemma formula_values_get: "dict_ok vals \<Longrightarrow> dict_get (formula_values c vals) x =
    (case dict_get vals x of None \<Rightarrow> dict_get (map (\<lambda>f. (f, read_price f c)) price_fields) x | Some v \<Rightarrow> Some v)"
  by (simp add: formula_values_def foldl_dict_set)

text \<open>The value that the equation of a derived field gives it.\<close>

definition field_value :: "candle \<Rightarrow> (string, py_float) dict \<Rightarrow> expr \<Rightarrow> py_float" where
  "field_value c vals t = (case eval_node t (formula_values c vals) of Inr v \<Rightarrow> v | Inl e \<Rightarrow> NaN)"

text \<open>No formula reads its own field or a later one.\<close>

fun in_order :: "(string \<times> expr) list \<Rightarrow> bool" where
  "in_order [] \<longleftrightarrow> True"
| "in_order ((d, t) # specs) \<longleftrightarrow> names_of t \<inter> insert d (fst ` set specs) = {} \<and> d \<notin> fst ` set specs \<and> in_order specs"

lemma compute_derived_frame:
  "compute_derived_fields c specs vals = Inr vals' \<Longrightarrow> dict_ok vals \<Longrightarrow>
     dict_ok vals' \<and> (\<forall>x. x \<notin> fst ` set specs \<longrightarrow> dict_get vals' x = dict_get vals x)"
proof (induction c specs vals rule: compute_derived_fields.induct)
  case (2 c ident t specs vals)
  then show ?case by (auto split: sum.splits if_splits)
qed simp

lemma compute_derived_solves:
  "compute_derived_fields c specs vals = Inr vals' \<Longrightarrow> dict_ok vals \<Longrightarrow> in_order specs \<Longrightarrow> \<forall>(d, t)\<in>set specs. formula_ok t \<Longrightarrow>
     \<forall>(d, t)\<in>set specs. dict_get vals' d = Some (field_value c vals' t)"
proof (induction c specs vals rule: compute_derived_fields.induct)
  case (2 c ident t specs vals)
  define v where "v = field_value c vals t"
  have step: "compute_derived_fields c specs (dict_set ident v vals) = Inr vals'"
    using "2.prems"(1) by (auto simp: v_def field_value_def split: sum.splits if_splits)
  have ok: "dict_ok (dict_set ident v vals)" using "2.prems"(2) by simp
  have frame: "dict_ok vals'" "\<And>x. x \<notin> fst ` set specs \<Longrightarrow> dict_get vals' x = dict_get (dict_set ident v vals) x"
    using compute_derived_frame [OF step ok] by auto
  have rest: "\<forall>(d, t)\<in>set specs. dict_get vals' d = Some (field_value c vals' t)"
  proof (cases "eval_node t (formula_values c vals)")
    case (Inl e)
    then have "e = value_error" using "2.prems"(1) by (simp split: if_splits)
    then show ?thesis using "2.IH"(1) [OF Inl] "2.prems" step ok Inl by (simp add: v_def field_value_def)
  next
    case (Inr w)
    then show ?thesis using "2.IH"(2) [OF Inr] "2.prems" step ok by (simp add: v_def field_value_def)
  qed
  have "dict_get vals' ident = Some v" using frame(2) [of ident] "2.prems"(3) by simp
  moreover have "dict_get (formula_values c vals') x = dict_get (formula_values c vals) x" if "x \<in> names_of t" for x
  proof -
    have "x \<noteq> ident" "x \<notin> fst ` set specs" using that "2.prems"(3) by auto
    then have "dict_get vals' x = dict_get vals x" using frame(2) [of x] by simp
    then show ?thesis by (simp add: formula_values_get frame(1) "2.prems"(2))
  qed
  then have "eval_node t (formula_values c vals') = eval_node t (formula_values c vals)"
    using "2.prems"(4) by (intro eval_node_cong) auto
  ultimately show ?case using rest by (simp add: v_def field_value_def)
qed simp

lemma compile_specs_Inr:
  "compile_specs parse xs = Inr specs \<Longrightarrow> map fst specs = map fst xs \<and> (\<forall>(d, t)\<in>set specs. formula_ok t) \<and>
     (\<forall>i<length xs. compile_formula parse (snd (xs ! i)) = Inr (snd (specs ! i)))"
proof (induction xs arbitrary: specs)
  case (Cons x xs)
  obtain ident formula where x: "x = (ident, formula)" by force
  from Cons.prems x obtain t ts where t: "compile_formula parse formula = Inr t" "compile_specs parse xs = Inr ts" "specs = (ident, t) # ts"
    by (auto simp: bind_r_Inr_iff)
  have "formula_ok t" using t(1) by (auto simp: compile_formula_def bind_r_Inr_iff split: if_splits)
  then show ?case using Cons.IH [OF t(2)] t x by (auto simp: nth_Cons split: nat.splits)
qed simp

lemma dict_of_get_mem: "dict_get (dict_of kvs) k = Some v \<Longrightarrow> (k, v) \<in> set kvs"
proof (induction kvs rule: rev_induct)
  case (snoc kv kvs)
  then show ?case by (cases kv) (auto split: if_splits)
qed simp

lemma dict_of_get_None: "dict_get (dict_of kvs) k = None \<longleftrightarrow> k \<notin> fst ` set kvs"
proof (induction kvs rule: rev_induct)
  case (snoc kv kvs)
  then show ?case by (cases kv) auto
qed simp

fun no_back :: "('a \<times> 'a) set \<Rightarrow> 'a list \<Rightarrow> bool" where
  "no_back r [] \<longleftrightarrow> True"
| "no_back r (b # bs) \<longleftrightarrow> (\<forall>a\<in>set (b # bs). (a, b) \<notin> r) \<and> no_back r bs"

lemma ordered_no_back: "ordered r (as @ l) \<Longrightarrow> distinct (as @ l) \<Longrightarrow> no_back r l"
proof (induction l arbitrary: as)
  case (Cons b bs)
  have "a \<in> set as" if "(a, b) \<in> r" for a using Cons.prems(1) that unfolding ordered_def by blast
  then have "\<forall>a\<in>set (b # bs). (a, b) \<notin> r" using Cons.prems(2) by auto
  then show ?case using Cons.IH [of "as @ [b]"] Cons.prems by simp
qed simp

lemma no_back_filter: "no_back r l \<Longrightarrow> no_back r (filter P l)"
  by (induction l) auto

lemma no_back_in_order:
  "no_back r (map fst specs) \<Longrightarrow> distinct (map fst specs) \<Longrightarrow>
     \<forall>(d, t)\<in>set specs. \<forall>x\<in>names_of t. x \<in> N \<longrightarrow> (x, d) \<in> r \<Longrightarrow> fst ` set specs \<subseteq> N \<Longrightarrow> in_order specs"
proof (induction specs)
  case (Cons dt specs)
  obtain d t where dt: "dt = (d, t)" by force
  have "x \<notin> insert d (fst ` set specs)" if "x \<in> names_of t" for x
    using Cons.prems dt that by (cases "x \<in> N") auto
  then show ?case using Cons dt by auto
qed simp

text \<open>
  C24. Derived fields get the values that their formulas define, whatever the order in which the author wrote
  them: after the computation of a bar every field has the value of its formula over the final values of all
  indicators, price fields and derived fields, or not a number where the formula names something without a
  value. The resolver's order makes one pass enough. The parser is assumed to return only names that
  occur in the text as identifiers, and no field to have the name of a function.
\<close>

theorem derived_fields_solve_their_equations:
  assumes "resolve ir = Inr res" "compile_derived_field_specs parse ir (rd_topological_order res) = Inr specs"
    "\<forall>s t. parse s = Inr t \<longrightarrow> names_of t \<subseteq> set (idents s)" "set (derived_ids ir) \<inter> set math_functions = {}"
    "dict_ok vals" "compute_derived_fields c specs vals = Inr vals'"
  shows "fst ` set specs = set (derived_ids ir) \<and> (\<forall>(d, t)\<in>set specs. dict_get vals' d = Some (field_value c vals' t))"
proof (cases "ir_derived_fields ir")
  case None
  then show ?thesis using assms(2) by (simp add: compile_derived_field_specs_def derived_ids_def)
next
  case (Some dfs)
  let ?order = "rd_topological_order res"
  let ?table = "dict_of (map (\<lambda>df. (df_id df, df_formula df)) dfs)"
  let ?ordered = "filter (\<lambda>ident. dict_get ?table ident \<noteq> None) ?order"
  have o: "distinct ?order" "set ?order = node_names (ctx_of ir)" "ordered (dependencies ir) ?order"
    using assms(1) by (cases ir rule: resolve_cases; simp)+
  have ids: "derived_ids ir = map df_id dfs" using Some by (simp add: derived_ids_def)
  have keys: "dict_get ?table x \<noteq> None \<longleftrightarrow> x \<in> set (derived_ids ir)" for x
    unfolding dict_of_get_None ids by force
  have all: "set ?ordered = set (derived_ids ir)"
    using o(2) keys by (auto simp: node_names_def ctx_of_def)
  have rest: "filter (\<lambda>df. df_id df \<notin> set ?ordered) dfs = []" unfolding filter_empty_conv all ids by auto
  have cs: "compile_specs parse (map (\<lambda>ident. (ident, the (dict_get ?table ident))) ?ordered) = Inr specs"
    using assms(2) Some rest by (simp add: compile_derived_field_specs_def Let_def)
  note specs = compile_specs_Inr [OF cs]
  have fst_specs: "map fst specs = ?ordered" using specs by (simp add: o_def)
  have reads: "(x, d) \<in> dependencies ir" if dt: "(d, t) \<in> set specs" and x: "x \<in> names_of t" "x \<in> set (derived_ids ir)" for d t x
  proof -
    obtain i where i: "i < length specs" "specs ! i = (d, t)" using dt by (auto simp: in_set_conv_nth)
    have len: "length specs = length ?ordered" using arg_cong [OF fst_specs, of length] by simp
    have d: "?ordered ! i = d" using fst_specs i by (metis fst_conv nth_map)
    obtain f where f: "dict_get ?table d = Some f" "compile_formula parse f = Inr t"
    proof -
      have "d \<in> set ?ordered" using d i(1) len nth_mem [of i ?ordered] by simp
      then obtain f where "dict_get ?table d = Some f" by auto
      moreover have "compile_formula parse (the (dict_get ?table d)) = Inr t"
        using specs i len d by (auto dest!: spec [of _ i])
      ultimately show thesis using that by simp
    qed
    have "parse f = Inr t"
      using f(2) by (auto simp: compile_formula_def parse_or_value_error_def bind_r_Inr_iff split: sum.splits if_splits)
    then have "x \<in> set (idents f)" using assms(3) x(1) by blast
    moreover have "reads_node (ctx_of ir) x x"
      by (subst reads_node_iff) (use x(2) in \<open>auto simp: node_names_def ctx_of_def\<close>)
    ultimately have "x \<in> expression_reads (ctx_of ir) f" using x(2) assms(4) by (auto simp: expression_reads_def)
    moreover obtain df where "df \<in> set dfs" "df_id df = d" "df_formula df = f" using dict_of_get_mem [OF f(1)] by auto
    ultimately show ?thesis using Some by (auto simp: dependencies_def)
  qed
  have "no_back (dependencies ir) (map fst specs)"
    unfolding fst_specs by (rule no_back_filter) (use ordered_no_back [of "dependencies ir" "[]"] o in simp)
  moreover have "distinct (map fst specs)" unfolding fst_specs using o(1) by simp
  moreover have keyset: "fst ` set specs = set (derived_ids ir)" using fst_specs all by (metis list.set_map)
  ultimately have "in_order specs" using reads by (intro no_back_in_order [of "dependencies ir" _ "set (derived_ids ir)"]) auto
  then show ?thesis using compute_derived_solves [OF assms(6,5)] specs keyset by blast
qed

definition demo_derived :: strategy_ir where
  "demo_derived = blank_ir\<lparr>ir_derived_fields := Some [\<lparr>df_id = ''g'', df_formula = ''f''\<rparr>, \<lparr>df_id = ''f'', df_formula = ''close''\<rparr>]\<rparr>"

definition name_parse :: parser where
  "name_parse s = (if s \<in> {''f'', ''close''} then Inr (Name s) else Inl (PyError ''SyntaxError''))"

theorem derived_fields_solve_their_equations_witness:
  "\<exists>vals'. compute_derived_fields (demo_bar ''EURUSD'' 1800 3) [(''f'', Name ''close''), (''g'', Name ''f'')] [] = Inr vals' \<and>
     dict_get vals' ''g'' = Some (field_value (demo_bar ''EURUSD'' 1800 3) vals' (Name ''f''))"
proof -
  have "map_sum id rd_topological_order (resolve demo_derived) = Inr [''f'', ''g'']" by code_simp
  then obtain res where res: "resolve demo_derived = Inr res" "rd_topological_order res = [''f'', ''g'']"
    by (cases "resolve demo_derived") auto
  have specs: "compile_derived_field_specs name_parse demo_derived [''f'', ''g''] = Inr [(''f'', Name ''close''), (''g'', Name ''f'')]"
    by code_simp
  have parse: "\<forall>s t. name_parse s = Inr t \<longrightarrow> names_of t \<subseteq> set (idents s)"
    by (auto simp: name_parse_def idents.simps ident_start_def ident_char_def split: if_splits)
  have ids: "set (derived_ids demo_derived) \<inter> set math_functions = {}" by code_simp
  obtain vals' where v: "compute_derived_fields (demo_bar ''EURUSD'' 1800 3) [(''f'', Name ''close''), (''g'', Name ''f'')] [] = Inr vals'"
    by (simp add: formula_values_def price_fields_def)
  from derived_fields_solve_their_equations [OF res(1) specs [folded res(2)] parse ids dict_ok_Nil v] v show ?thesis by auto
qed

section \<open>Histories of bars\<close>

text \<open>The arguments of a call of \<open>evaluate\<close>, and the state after it. The bars of several symbols are fed to one compiled
  strategy, as \<open>services/api/services/synthetic_backtest_executor.py\<close> does.\<close>

record bar_input =
  bi_symbol :: string
  bi_candles :: "candle list"
  bi_indicators :: "(string, indicator_values) dict"
  bi_position :: "position_snapshot option"
  bi_provided :: "basket_state option"
  bi_correlation_id :: string

definition step_bar ::
  "(string \<Rightarrow> py_float list \<Rightarrow> (exn, py_float) result) \<Rightarrow> ir_strategy \<Rightarrow> clock \<Rightarrow> bar_input \<Rightarrow> strategy_state \<Rightarrow> strategy_state" where
  "step_bar libm st ck b ss =
     snd (evaluate libm st ck (bi_provided b) (bi_symbol b) (bi_candles b) (bi_indicators b) (bi_position b) (bi_correlation_id b) ss)"

definition bar_values :: "ir_strategy \<Rightarrow> bar_input \<Rightarrow> (exn, (string, py_float) dict) result" where
  "bar_values st b = compute_derived_fields (last (bi_candles b)) (st_derived_field_specs st) (extract_latest_indicator_values (bi_indicators b))"

text \<open>A bar with a candle whose derived fields can be computed, and the value of a name in it.\<close>

definition bar_ok :: "ir_strategy \<Rightarrow> bar_input \<Rightarrow> bool" where
  "bar_ok st b \<longleftrightarrow> bi_candles b \<noteq> [] \<and> (\<exists>vals. bar_values st b = Inr vals)"

definition bar_value :: "ir_strategy \<Rightarrow> bar_input \<Rightarrow> string \<Rightarrow> py_float" where
  "bar_value st b x =
     (if x \<in> set price_fields then read_price x (last (bi_candles b))
      else case bar_values st b of Inr vals \<Rightarrow> value_of vals x | Inl e \<Rightarrow> NaN)"

lemma observe_position_fields:
  "ss_lookback_buffers (snd (observe_position_state st s p vals ss)) = ss_lookback_buffers ss"
  "ss_bar_counter (snd (observe_position_state st s p vals ss)) = ss_bar_counter ss"
  "ss_cross_tf (snd (observe_position_state st s p vals ss)) = ss_cross_tf ss"
  by (simp_all add: observe_position_state_def Let_def split: option.splits)

lemma step_bar_ok:
  assumes "bar_ok st b" "bar_values st b = Inr vals"
  shows "step_bar libm st ck b ss =
    finish_bar (bi_symbol b) (last (bi_candles b)) vals (snd (observe_position_state st (bi_symbol b) (bi_position b) vals ss))"
  using assms evaluate_bar [of "bi_candles b" st "bi_indicators b" vals] by (simp add: step_bar_def bar_ok_def bar_values_def)

lemma push_lookback_get: "dict_get (push_lookback_values c vals bufs) x =
    map_option (lb_push (if x \<in> set price_fields then read_price x c else value_of vals x)) (dict_get bufs x)"
  unfolding push_lookback_values_def by (induction bufs) auto

lemma step_bar_fields:
  assumes "bar_ok st b"
  shows "dict_get (ss_lookback_buffers (step_bar libm st ck b ss)) x = map_option (lb_push (bar_value st b x)) (dict_get (ss_lookback_buffers ss) x)"
    "ss_bar_counter (step_bar libm st ck b ss) = ss_bar_counter ss + 1"
proof -
  obtain vals where v: "bar_values st b = Inr vals" using assms by (auto simp: bar_ok_def)
  note step = step_bar_ok [OF assms v, of libm ck ss]
  show "dict_get (ss_lookback_buffers (step_bar libm st ck b ss)) x = map_option (lb_push (bar_value st b x)) (dict_get (ss_lookback_buffers ss) x)"
    by (simp add: step finish_bar_def push_lookback_get observe_position_fields bar_value_def v)
  show "ss_bar_counter (step_bar libm st ck b ss) = ss_bar_counter ss + 1"
    by (simp add: step finish_bar_def observe_position_fields)
qed

lemma history_buffers:
  "\<forall>b\<in>set bs. bar_ok st b \<Longrightarrow> dict_get (ss_lookback_buffers (fold (step_bar libm st ck) bs ss)) x =
     map_option (fold lb_push (map (\<lambda>b. bar_value st b x) bs)) (dict_get (ss_lookback_buffers ss) x)"
  "\<forall>b\<in>set bs. bar_ok st b \<Longrightarrow> ss_bar_counter (fold (step_bar libm st ck) bs ss) = ss_bar_counter ss + length bs"
proof (induction bs arbitrary: ss)
  case Nil
  { case 1 show ?case by (simp add: option.map_ident) }
  { case 2 show ?case by simp }
next
  case (Cons b bs)
  { case 1 then show ?case using Cons.IH(1) [of "step_bar libm st ck b ss"] step_bar_fields(1) [of st b libm ck ss x]
      by (simp add: option.map_comp o_def) }
  { case 2 then show ?case using Cons.IH(2) [of "step_bar libm st ck b ss"] step_bar_fields(2) [of st b libm ck ss] by simp }
qed

lemma allocate_get:
  "allocate_lookback_buffers ids plan = Inr bufs \<Longrightarrow> dict_get plan x = Some n \<Longrightarrow>
     \<exists>b. dict_get bufs x = Some b \<and> new_buffer (int n) = Inr b"
proof (induction ids plan arbitrary: bufs rule: allocate_lookback_buffers.induct)
  case (2 ids base lag plan)
  from "2.prems"(1) obtain b bs where b: "new_buffer (int lag) = Inr b" "allocate_lookback_buffers ids plan = Inr bs" "bufs = (base, b) # bs"
    "\<not> (base \<notin> set ids \<and> base \<notin> set price_fields)"
    by (auto simp: bind_r_Inr_iff split: if_splits)
  show ?case using "2.IH" [OF b(4) b(2)] "2.prems"(2) b by (cases "x = base") auto
qed simp

lemma compile_parts:
  assumes "compile parse ir did = Inr (st, ss)"
  obtains res plan where "resolve ir = Inr res" "resolve_lookback ir = Inr plan"
    "allocate_lookback_buffers (map indicator_id (ir_indicators ir)) plan = Inr (ss_lookback_buffers ss)"
    "compile_derived_field_specs parse ir (rd_topological_order res) = Inr (st_derived_field_specs st)"
    "ss_bar_counter ss = 0" "ss_open_trades ss = []"
  using assms by (auto simp: compile_def Let_def bind_r_Inr_iff split: prod.splits)

text \<open>
  A reference to an earlier bar counts the bars of all symbols: after any history of bars that were fed to a
  compiled strategy, the name \<open>base_prev_n\<close> reads the value of \<open>base\<close> in the bar that was evaluated \<open>n\<close> calls
  before, or not a number when there were fewer calls. For one symbol this is the value \<open>n\<close> bars ago; with
  bars of several symbols in turn, it is the value of another symbol.
\<close>

theorem earlier_bar_counts_all_symbols:
  assumes "compile parse ir did = Inr (st, ss0)" "t \<in> set (lookback_tokens ir)" "prev_match t = Some (base, n)"
    "\<forall>b\<in>set bs. bar_ok st b"
  shows "run_value libm (PrevFn base n) (bar_ctx st provided symbol c vals position (fold (step_bar libm st ck) bs ss0)) =
    Inr (if n \<le> length bs then bar_value st (rev bs ! (n - 1)) base else NaN)"
proof -
  obtain plan where plan: "resolve_lookback ir = Inr plan"
    "allocate_lookback_buffers (map indicator_id (ir_indicators ir)) plan = Inr (ss_lookback_buffers ss0)"
    using compile_parts [OF assms(1)] by metis
  obtain k where k: "dict_get plan base = Some k" "1 \<le> n" "n \<le> k"
    using resolved_plans [OF plan(1)] assms(2,3) unfolding plans_def
    by (smt (verit) One_nat_def Suc_leI empty_iff lags_def lags_finite Max_ge mem_Collect_eq neq0_conv)
  obtain b0 where b0: "dict_get (ss_lookback_buffers ss0) base = Some b0" "new_buffer (int k) = Inr b0"
    using allocate_get [OF plan(2) k(1)] by blast
  let ?vs = "map (\<lambda>b. bar_value st b base) bs"
  have h: "holds ?vs (fold lb_push ?vs b0)" "lb_capacity (fold lb_push ?vs b0) = k"
    using pushes_hold [of "[]" b0 ?vs] new_buffer_holds [OF b0(2)] by auto
  have "dict_get (ss_lookback_buffers (fold (step_bar libm st ck) bs ss0)) base = Some (fold lb_push ?vs b0)"
    using history_buffers(1) [OF assms(4), of libm ck ss0 base] b0(1) by simp
  moreover have "ex_buffers (bar_ctx st provided symbol c vals position ss) = ss_lookback_buffers ss" for ss
    using observe_position_fields(1) [of st symbol position vals ss] by (cases "observe_position_state st symbol position vals ss") (simp add: bar_ctx_def)
  ultimately have "run_value libm (PrevFn base n) (bar_ctx st provided symbol c vals position (fold (step_bar libm st ck) bs ss0)) =
      lb_get (int n) (fold lb_push ?vs b0)" by simp
  then show ?thesis using lb_get_holds [OF h(1), of "int n"] h(2) k(2,3) by (auto simp: rev_map nth_map)
qed

text \<open>The entry that the strategy keeps for a symbol that is held.\<close>

lemma step_bar_open_trade:
  assumes "bar_ok st b"
  shows "bi_symbol b \<noteq> s \<Longrightarrow> dict_get (ss_open_trades (step_bar libm st ck b ss)) s = dict_get (ss_open_trades ss) s"
    "bi_symbol b = s \<Longrightarrow> holding (bi_position b) \<Longrightarrow> dict_get (ss_open_trades ss) s = Some t \<Longrightarrow>
       dict_get (ss_open_trades (step_bar libm st ck b ss)) s = Some t"
    "bi_symbol b = s \<Longrightarrow> holding (bi_position b) \<Longrightarrow> dict_get (ss_open_trades ss) s = None \<Longrightarrow>
       \<exists>t. dict_get (ss_open_trades (step_bar libm st ck b ss)) s = Some t \<and> ot_entry_bar_index t = ss_bar_counter ss"
proof -
  obtain vals where v: "bar_values st b = Inr vals" using assms by (auto simp: bar_ok_def)
  note step = step_bar_ok [OF assms v, of libm ck ss]
  show "bi_symbol b \<noteq> s \<Longrightarrow> dict_get (ss_open_trades (step_bar libm st ck b ss)) s = dict_get (ss_open_trades ss) s"
    by (simp add: step finish_bar_def observe_position_state_def Let_def split: option.splits)
  show "bi_symbol b = s \<Longrightarrow> holding (bi_position b) \<Longrightarrow> dict_get (ss_open_trades ss) s = Some t \<Longrightarrow>
      dict_get (ss_open_trades (step_bar libm st ck b ss)) s = Some t"
    by (simp add: step finish_bar_def observe_position_state_def)
  show "bi_symbol b = s \<Longrightarrow> holding (bi_position b) \<Longrightarrow> dict_get (ss_open_trades ss) s = None \<Longrightarrow>
      \<exists>t. dict_get (ss_open_trades (step_bar libm st ck b ss)) s = Some t \<and> ot_entry_bar_index t = ss_bar_counter ss"
    by (simp add: step finish_bar_def observe_position_state_def Let_def new_open_trade_def)
qed

lemma history_open_trade:
  "\<forall>b\<in>set bs. bar_ok st b \<and> (bi_symbol b = s \<longrightarrow> holding (bi_position b)) \<Longrightarrow> dict_get (ss_open_trades ss) s = Some t \<Longrightarrow>
     dict_get (ss_open_trades (fold (step_bar libm st ck) bs ss)) s = Some t"
proof (induction bs arbitrary: ss)
  case (Cons b bs)
  have "dict_get (ss_open_trades (step_bar libm st ck b ss)) s = Some t"
    using step_bar_open_trade(1,2) [of st b s] Cons.prems by (cases "bi_symbol b = s") simp_all
  with Cons show ?case by simp
qed simp

text \<open>
  The time exit counts the bars of all symbols: when a position of a symbol is first seen in a bar and is held
  ever since, the time exit with the limit \<open>m\<close> fires in a later bar of the symbol exactly when at least \<open>m\<close> bars of
  any symbols have been evaluated since the entry, that bar's predecessor included. With \<open>k\<close> symbols in turn
  a position is closed after about \<open>m / k\<close> of its own bars, although the rule limits the bars in the trade.
\<close>

theorem time_exit_counts_all_symbols:
  assumes "bar_ok st b0" "bi_symbol b0 = s" "holding (bi_position b0)" "dict_get (ss_open_trades ss) s = None"
    "\<forall>b\<in>set bs. bar_ok st b \<and> (bi_symbol b = s \<longrightarrow> holding (bi_position b))" "holding position"
  shows "run_exit libm (TimeExit m) (bar_ctx st provided s c vals position (fold (step_bar libm st ck) (b0 # bs) ss)) =
    Inr (m \<le> 1 + int (length bs))"
proof -
  let ?ss = "fold (step_bar libm st ck) (b0 # bs) ss"
  obtain t where t: "dict_get (ss_open_trades (step_bar libm st ck b0 ss)) s = Some t" "ot_entry_bar_index t = ss_bar_counter ss"
    using step_bar_open_trade(3) [OF assms(1) assms(2-4)] by blast
  have o: "dict_get (ss_open_trades ?ss) s = Some t" using history_open_trade [OF assms(5) t(1)] by simp
  have "ss_bar_counter ?ss = ss_bar_counter ss + 1 + length bs"
    using history_buffers(2) [of "b0 # bs" st libm ck ss] assms(1,5) by simp
  moreover have "observe_position_state st s position vals ?ss = (Some t, ?ss)"
    using o assms(6) by (simp add: observe_position_state_def)
  ultimately show ?thesis using t(2) by (auto simp: run_exit_def bar_ctx_def)
qed

definition demo_prev :: strategy_ir where
  "demo_prev = blank_ir\<lparr>ir_entry_logic := (ir_entry_logic blank_ir)
     \<lparr>el_long := Some (''and'', [Leaf \<lparr>lc_lhs = ''close'', lc_operator = ''>'', lc_rhs = RhsText ''close_prev_1'', lc_units = None\<rparr>])\<rparr>\<rparr>"

definition demo_input :: "string \<Rightarrow> rat \<Rightarrow> position_snapshot option \<Rightarrow> bar_input" where
  "demo_input s p pos = \<lparr>bi_symbol = s, bi_candles = [demo_bar s 1800 p], bi_indicators = [], bi_position = pos, bi_provided = None,
     bi_correlation_id = ''X''\<rparr>"

lemma demo_prev_compiles:
  "\<exists>st ss. compile demo_parse demo_prev ''D1'' = Inr (st, ss) \<and> st_derived_field_specs st = []"
proof -
  have r: "case resolve demo_prev of Inl e \<Rightarrow> False | Inr res \<Rightarrow> collect_cross_timeframe_timeframes (rd_references res) = Inr [] \<and>
      compile_derived_field_specs demo_parse demo_prev (rd_topological_order res) = Inr []" by code_simp
  obtain w where w: "resolve_exit_wiring demo_prev = Inr w"
    by (simp add: resolve_exit_wiring_def demo_prev_def blank_ir_def no_exits_def Let_def)
  have p: "resolve_lookback demo_prev = Inr [(''close'', Suc 0)]" by code_simp
  obtain bs where a: "allocate_lookback_buffers (map indicator_id (ir_indicators demo_prev)) [(''close'', Suc 0)] = Inr bs" "bs = [(''close'', snd (hd bs))]"
    "lb_capacity (snd (hd bs)) = 1" by (simp add: new_buffer_def price_fields_def)
  let ?sc = "\<lparr>sc_indicator_ids = map indicator_id (ir_indicators demo_prev), sc_derived_ids = [], sc_buffers = bs\<rparr>"
  have m: "split_prev_suffix ''close_prev_1'' = Some (''close'', 1)" "split_cross_timeframe_ref ''close_prev_1'' = None"
    "to_lower ''and'' = ''and''" "strip ''close'' = ''close''" by code_simp+
  have sb: "dict_get bs ''close'' = Some (snd (hd bs))" by (subst a(2)) simp
  obtain en where e: "compile_entries demo_parse ?sc (ir_entry_logic demo_prev) = Inr en"
    by (simp add: compile_entries_def compile_side_def demo_prev_def blank_ir_def compile_condition_tree_def
        compile_leaf_def comparison_operators_def compile_value_expr_def parse_or_value_error_def demo_parse_def
        compile_identifier_def price_fields_def m sb a(3) Let_def)
  obtain lng short where en: "en = (lng, short)" by force
  have x: "ir_exit_logic demo_prev = no_exits" "compile_exit_logic demo_parse ?sc w no_exits = Inr []" "freeze_exit_priority [] [] = Inr []"
    by (simp_all add: demo_prev_def blank_ir_def compile_exit_logic_def compiled_exit_stops_def no_exits_def freeze_exit_priority_def)
  obtain k where t: "translate (ir_risk_model demo_prev) = Inr k"
    by (simp add: translate_def demo_prev_def blank_ir_def supported_sizing_methods_def)
  obtain res where res: "resolve demo_prev = Inr res" "collect_cross_timeframe_timeframes (rd_references res) = Inr []"
    "compile_derived_field_specs demo_parse demo_prev (rd_topological_order res) = Inr []"
    using r by (cases "resolve demo_prev") auto
  have pr: "xl_same_bar_priority no_exits = []" by (simp add: no_exits_def)
  show ?thesis by (simp add: compile_def res w p a(1) e en x t pr Let_def del: allocate_lookback_buffers.simps)
qed

theorem earlier_bar_counts_all_symbols_witness:
  "\<exists>st ss0. compile demo_parse demo_prev ''D1'' = Inr (st, ss0) \<and>
     run_value no_libm (PrevFn ''close'' 1) (bar_ctx st None ''EURUSD'' (demo_bar ''EURUSD'' 2700 3) [] None
       (fold (step_bar no_libm st BarClock) [demo_input ''EURUSD'' 3 None, demo_input ''USDJPY'' 150 None] ss0)) =
     Inr (f_of_decimal 150)"
proof -
  obtain st ss0 where c: "compile demo_parse demo_prev ''D1'' = Inr (st, ss0)" "st_derived_field_specs st = []"
    using demo_prev_compiles by blast
  let ?bs = "[demo_input ''EURUSD'' 3 None, demo_input ''USDJPY'' 150 None]"
  have t: "''close_prev_1'' \<in> set (lookback_tokens demo_prev)" "prev_match ''close_prev_1'' = Some (''close'', 1)" by code_simp+
  have ok: "\<forall>b\<in>set ?bs. bar_ok st b" using c(2) by (simp add: bar_ok_def bar_values_def demo_input_def)
  from earlier_bar_counts_all_symbols [OF c(1) t ok, of no_libm None "''EURUSD''" "demo_bar ''EURUSD'' 2700 3" "[]" None BarClock] c(1)
  show ?thesis by (auto simp: bar_value_def price_fields_def demo_input_def read_price_def)
qed

definition demo_held :: position_snapshot where
  "demo_held = \<lparr>ps_symbol = ''EURUSD'', ps_quantity = 1, ps_average_entry_price = 3, ps_market_price = 3, ps_market_value = 3,
     ps_unrealized_pnl = 0, ps_realized_pnl = 0, ps_cost_basis = 3, ps_updated_at = 0\<rparr>"

theorem time_exit_counts_all_symbols_witness:
  "\<exists>st ss. run_exit no_libm (TimeExit 2) (bar_ctx st None ''EURUSD'' (demo_bar ''EURUSD'' 2700 3) [] (Some demo_held)
     (fold (step_bar no_libm st BarClock) (demo_input ''EURUSD'' 3 (Some demo_held) # [demo_input ''USDJPY'' 150 None]) ss)) = Inr True"
proof -
  obtain st ss where c: "compile demo_parse demo_prev ''D1'' = Inr (st, ss)" "st_derived_field_specs st = []"
    using demo_prev_compiles by blast
  have o: "ss_open_trades ss = []" using compile_parts [OF c(1)] by metis
  have b: "bar_ok st (demo_input s p pos)" for s p pos using c(2) by (simp add: bar_ok_def bar_values_def demo_input_def)
  have "run_exit no_libm (TimeExit 2) (bar_ctx st None ''EURUSD'' (demo_bar ''EURUSD'' 2700 3) [] (Some demo_held)
     (fold (step_bar no_libm st BarClock) (demo_input ''EURUSD'' 3 (Some demo_held) # [demo_input ''USDJPY'' 150 None]) ss)) =
     Inr (2 \<le> 1 + int (length [demo_input ''USDJPY'' 150 None]))"
    by (rule time_exit_counts_all_symbols) (simp_all add: b o holding_def demo_held_def, simp_all add: demo_input_def holding_def demo_held_def)
  then show ?thesis by auto
qed


section \<open>Parts without effect\<close>

text \<open>Two computations that return the same value when both return.\<close>

definition agree :: "('e, 'a) result \<Rightarrow> ('e, 'a) result \<Rightarrow> bool" where
  "agree r r' \<longleftrightarrow> (\<forall>x y. r = Inr x \<longrightarrow> r' = Inr y \<longrightarrow> x = y)"

lemma agree_refl [simp]: "agree r r"
  by (simp add: agree_def)

lemma agree_Inl [simp]: "agree (Inl e) r" "agree r (Inl e)"
  by (simp_all add: agree_def)

lemma agree_bind: "agree r r' \<Longrightarrow> (\<And>v. agree (f v) (g v)) \<Longrightarrow> agree (bind_r r f) (bind_r r' g)"
  by (auto simp: agree_def bind_r_Inr_iff)

lemma agree_if: "(c \<Longrightarrow> agree r r') \<Longrightarrow> (\<not> c \<Longrightarrow> agree s s') \<Longrightarrow> agree (if c then r else s) (if c then r' else s')"
  by simp

text \<open>Scopes that differ in the buffers only.\<close>

definition same_names :: "scope \<Rightarrow> scope \<Rightarrow> bool" where
  "same_names sc sc' \<longleftrightarrow> set (sc_indicator_ids sc) = set (sc_indicator_ids sc') \<and> set (sc_derived_ids sc) = set (sc_derived_ids sc')"

lemma agree_identifier: "same_names sc sc' \<Longrightarrow> agree (compile_identifier sc x) (compile_identifier sc' x)"
  by (auto simp: same_names_def compile_identifier_def agree_def split: option.splits if_splits prod.splits)

lemma agree_ast:
  "same_names sc sc' \<Longrightarrow> agree (compile_ast_node sc t) (compile_ast_node sc' t)"
  "same_names sc sc' \<Longrightarrow> agree (compile_args sc ts) (compile_args sc' ts)"
proof (induction sc t and sc ts rule: compile_ast_node_compile_args.induct)
  case (5 sc func args kws)
  then show ?case by (cases func) (auto intro!: agree_bind)
qed (auto intro!: agree_bind agree_identifier)

lemma agree_value_expr: "same_names sc sc' \<Longrightarrow> agree (compile_value_expr parse sc e) (compile_value_expr parse sc' e)"
  unfolding compile_value_expr_def by (intro agree_bind agree_ast agree_refl)

lemma agree_leaf: "same_names sc sc' \<Longrightarrow> agree (compile_leaf parse sc leaf) (compile_leaf parse sc' leaf)"
  unfolding compile_leaf_def by (cases "lc_rhs leaf") (auto intro!: agree_if agree_bind agree_value_expr)

lemma agree_conditions: "same_names sc sc' \<Longrightarrow> agree (compile_conditions parse sc cs) (compile_conditions parse sc' cs)"
  by (induction parse sc cs rule: compile_conditions.induct) (auto intro!: agree_bind agree_leaf)

lemma agree_tree: "same_names sc sc' \<Longrightarrow> agree (compile_condition_tree parse sc t) (compile_condition_tree parse sc' t)"
  unfolding compile_condition_tree_def by (auto intro!: agree_bind agree_conditions)

lemma agree_templates: "same_names sc sc' \<Longrightarrow> agree (compile_templates parse sc bts) (compile_templates parse sc' bts)"
  by (induction parse sc bts rule: compile_templates.induct) (auto intro!: agree_bind agree_leaf)

lemma agree_entries: "same_names sc sc' \<Longrightarrow> agree (compile_entries parse sc el) (compile_entries parse sc' el)"
proof -
  assume s: "same_names sc sc'"
  have side: "agree (compile_side parse sc tree) (compile_side parse sc' tree)" for tree
    using s by (cases tree) (auto simp: compile_side_def intro!: agree_bind agree_tree)
  have basket: "agree (compile_basket_templates parse sc bts ef) (compile_basket_templates parse sc' bts ef)" for bts ef
    using s unfolding compile_basket_templates_def by (cases ef) (auto intro!: agree_bind agree_templates agree_tree)
  show ?thesis unfolding compile_entries_def
    by (intro agree_bind side) (cases "el_basket_templates el", auto split: list.splits intro!: agree_bind basket)
qed

lemma agree_exit_stop: "same_names sc sc' \<Longrightarrow> agree (compile_exit_stop parse sc wr stop) (compile_exit_stop parse sc' wr stop)"
  by (cases stop) (auto simp: compile_exit_stop_def same_names_def intro!: agree_bind agree_leaf)

lemma agree_stops: "same_names sc sc' \<Longrightarrow> agree (compile_stops parse sc wr xs) (compile_stops parse sc' wr xs)"
  by (induction parse sc wr xs rule: compile_stops.induct) (auto intro!: agree_bind agree_exit_stop)

lemma agree_exit_logic:
  "same_names sc sc' \<Longrightarrow> compiled_exit_stops x' = compiled_exit_stops x \<Longrightarrow> xl_trailing_stop x' = xl_trailing_stop x \<Longrightarrow>
     xl_time_exit x' = xl_time_exit x \<Longrightarrow> agree (compile_exit_logic parse sc wr x) (compile_exit_logic parse sc' wr x')"
  unfolding compile_exit_logic_def by (auto intro!: agree_bind agree_stops)

lemma derived_specs_names: "compile_derived_field_specs parse ir order = Inr specs \<Longrightarrow> fst ` set specs = set (derived_ids ir)"
proof -
  assume c: "compile_derived_field_specs parse ir order = Inr specs"
  show ?thesis
  proof (cases "ir_derived_fields ir")
    case None
    then show ?thesis using c by (simp add: compile_derived_field_specs_def derived_ids_def)
  next
    case (Some dfs)
    let ?table = "dict_of (map (\<lambda>df. (df_id df, df_formula df)) dfs)"
    let ?ordered = "filter (\<lambda>ident. dict_get ?table ident \<noteq> None) order"
    have "map fst specs = ?ordered @ map df_id (filter (\<lambda>df. df_id df \<notin> set ?ordered) dfs)"
      using compile_specs_Inr [of parse _ specs] c Some by (fastforce simp: compile_derived_field_specs_def Let_def o_def)
    from arg_cong [OF this, of set] have "fst ` set specs = set ?ordered \<union> df_id ` {df \<in> set dfs. df_id df \<notin> set ?ordered}"
      by simp
    moreover have "set ?ordered \<subseteq> df_id ` set dfs" by (auto simp: dict_of_get_None)
    ultimately show ?thesis using Some by (auto simp: derived_ids_def)
  qed
qed

lemma compile_all:
  assumes "compile parse ir did = Inr (st, ss)"
  obtains res specs wiring sc lng short exits checks risk where "resolve ir = Inr res"
    "compile_derived_field_specs parse ir (rd_topological_order res) = Inr specs" "resolve_exit_wiring ir = Inr wiring"
    "sc_indicator_ids sc = map indicator_id (ir_indicators ir)" "sc_derived_ids sc = map fst specs"
    "compile_entries parse sc (ir_entry_logic ir) = Inr (lng, short)" "compile_exit_logic parse sc wiring (ir_exit_logic ir) = Inr exits"
    "freeze_exit_priority exits (xl_same_bar_priority (ir_exit_logic ir)) = Inr checks" "translate (ir_risk_model ir) = Inr risk"
    "st = \<lparr>st_ir = ir, st_deployment_id = did, st_long_entry = lng, st_short_entry = short, st_exit_checks = checks,
       st_indicator_ids = map indicator_id (ir_indicators ir), st_risk_model = risk, st_exit_wiring = wiring, st_derived_field_specs = specs,
       st_has_basket_exits = detect_basket_exits (ir_exit_logic ir)\<rparr>"
proof -
  from assms obtain res tfs specs wiring plan buffers lng short exits checks risk where r: "resolve ir = Inr res"
    "compile_derived_field_specs parse ir (rd_topological_order res) = Inr specs" "resolve_exit_wiring ir = Inr wiring"
    and sc: "compile_entries parse \<lparr>sc_indicator_ids = map indicator_id (ir_indicators ir), sc_derived_ids = map fst specs, sc_buffers = buffers\<rparr>
      (ir_entry_logic ir) = Inr (lng, short)"
    "compile_exit_logic parse \<lparr>sc_indicator_ids = map indicator_id (ir_indicators ir), sc_derived_ids = map fst specs, sc_buffers = buffers\<rparr>
      wiring (ir_exit_logic ir) = Inr exits"
    "freeze_exit_priority exits (xl_same_bar_priority (ir_exit_logic ir)) = Inr checks" "translate (ir_risk_model ir) = Inr risk"
    "st = \<lparr>st_ir = ir, st_deployment_id = did, st_long_entry = lng, st_short_entry = short, st_exit_checks = checks,
       st_indicator_ids = map indicator_id (ir_indicators ir), st_risk_model = risk, st_exit_wiring = wiring, st_derived_field_specs = specs,
       st_has_basket_exits = detect_basket_exits (ir_exit_logic ir)\<rparr>"
    by (auto simp: compile_def Let_def bind_r_Inr_iff)
  show thesis by (rule that [OF r _ _ sc]) simp_all
qed

text \<open>What the wiring is a function of.\<close>

lemma resolve_exit_wiring_cong:
  assumes "ir_indicators ir' = ir_indicators ir" "xl_initial_stop (ir_exit_logic ir') = xl_initial_stop (ir_exit_logic ir)"
    "xl_take_profit (ir_exit_logic ir') = xl_take_profit (ir_exit_logic ir)" "xl_time_exit (ir_exit_logic ir') = xl_time_exit (ir_exit_logic ir)"
  shows "resolve_exit_wiring ir' = resolve_exit_wiring ir"
  unfolding resolve_exit_wiring_def resolve_inner_bollinger_ids_def resolve_middle_band_id_def upper_bands_def lower_bands_def Let_def assms ..

text \<open>
  Filters, the catastrophic stop and the limit \<open>max_bars_in_trade\<close> do nothing: two strategies that differ in these
  parts only, both of which the compiler accepts, have the same entry conditions, the same exit checks in the same
  order, the same wiring and the same risk model. The parts are validated, and then no code evaluates
  them.
\<close>

theorem filters_and_catastrophic_stop_have_no_effect:
  assumes "compile parse ir did = Inr (st, ss)"
    "compile parse (ir\<lparr>ir_filters := fs, ir_exit_logic := (ir_exit_logic ir)\<lparr>xl_catastrophic_zscore_stop := z, xl_max_bars_in_trade := m\<rparr>\<rparr>) did =
       Inr (st', ss')"
  shows "st' = st\<lparr>st_ir := st_ir st', st_derived_field_specs := st_derived_field_specs st'\<rparr>"
proof -
  let ?ir = "ir\<lparr>ir_filters := fs, ir_exit_logic := (ir_exit_logic ir)\<lparr>xl_catastrophic_zscore_stop := z, xl_max_bars_in_trade := m\<rparr>\<rparr>"
  obtain res specs wiring sc lng short exits checks risk where a0: "resolve ir = Inr res" and a:
    "compile_derived_field_specs parse ir (rd_topological_order res) = Inr specs" "resolve_exit_wiring ir = Inr wiring"
    "sc_indicator_ids sc = map indicator_id (ir_indicators ir)" "sc_derived_ids sc = map fst specs"
    "compile_entries parse sc (ir_entry_logic ir) = Inr (lng, short)" "compile_exit_logic parse sc wiring (ir_exit_logic ir) = Inr exits"
    "freeze_exit_priority exits (xl_same_bar_priority (ir_exit_logic ir)) = Inr checks" "translate (ir_risk_model ir) = Inr risk"
    "st = \<lparr>st_ir = ir, st_deployment_id = did, st_long_entry = lng, st_short_entry = short, st_exit_checks = checks,
       st_indicator_ids = map indicator_id (ir_indicators ir), st_risk_model = risk, st_exit_wiring = wiring, st_derived_field_specs = specs,
       st_has_basket_exits = detect_basket_exits (ir_exit_logic ir)\<rparr>" by (rule compile_all [OF assms(1)])
  obtain res' specs' wiring' sc' lng' short' exits' checks' risk' where b0: "resolve ?ir = Inr res'" and b:
    "compile_derived_field_specs parse ?ir (rd_topological_order res') = Inr specs'" "resolve_exit_wiring ?ir = Inr wiring'"
    "sc_indicator_ids sc' = map indicator_id (ir_indicators ?ir)" "sc_derived_ids sc' = map fst specs'"
    "compile_entries parse sc' (ir_entry_logic ?ir) = Inr (lng', short')" "compile_exit_logic parse sc' wiring' (ir_exit_logic ?ir) = Inr exits'"
    "freeze_exit_priority exits' (xl_same_bar_priority (ir_exit_logic ?ir)) = Inr checks'" "translate (ir_risk_model ?ir) = Inr risk'"
    "st' = \<lparr>st_ir = ?ir, st_deployment_id = did, st_long_entry = lng', st_short_entry = short', st_exit_checks = checks',
       st_indicator_ids = map indicator_id (ir_indicators ?ir), st_risk_model = risk', st_exit_wiring = wiring', st_derived_field_specs = specs',
       st_has_basket_exits = detect_basket_exits (ir_exit_logic ?ir)\<rparr>" by (rule compile_all [OF assms(2)])
  have stops: "compiled_exit_stops (ir_exit_logic ?ir) = compiled_exit_stops (ir_exit_logic ir)" by (simp add: compiled_exit_stops_def)
  have names: "same_names sc sc'"
    using derived_specs_names [OF a(1)] derived_specs_names [OF b(1)] a(3,4) b(3,4) by (simp add: same_names_def derived_ids_def)
  have "resolve_exit_wiring ?ir = resolve_exit_wiring ir" by (rule resolve_exit_wiring_cong) simp_all
  then have w: "wiring' = wiring" using a(2) b(2) by simp
  have e: "lng' = lng" "short' = short" using agree_entries [OF names, of parse "ir_entry_logic ir"] a(5) b(5) by (auto simp: agree_def)
  have x: "exits' = exits" using agree_exit_logic [OF names stops, of parse wiring] a(6) b(6) w by (auto simp: agree_def)
  have c: "checks' = checks" "risk' = risk" using a(7,8) b(7,8) x by auto
  show ?thesis using a(9) b(9) w e c stops by (simp add: detect_basket_exits_def)
qed

theorem filters_and_catastrophic_stop_have_no_effect_witness:
  "\<exists>st ss st' ss'. compile demo_parse demo_prev ''D1'' = Inr (st, ss) \<and>
     compile demo_parse (demo_prev\<lparr>ir_filters := Some [], ir_exit_logic := (ir_exit_logic demo_prev)
       \<lparr>xl_catastrophic_zscore_stop := None, xl_max_bars_in_trade := Some 1\<rparr>\<rparr>) ''D1'' = Inr (st', ss') \<and>
     st_exit_checks st' = st_exit_checks st"
proof -
  let ?ir = "demo_prev\<lparr>ir_filters := Some [], ir_exit_logic := (ir_exit_logic demo_prev)
       \<lparr>xl_catastrophic_zscore_stop := None, xl_max_bars_in_trade := Some 1\<rparr>\<rparr>"
  obtain st ss where c: "compile demo_parse demo_prev ''D1'' = Inr (st, ss)" using demo_prev_compiles by blast
  have same: "resolve ?ir = resolve demo_prev" "resolve_lookback ?ir = resolve_lookback demo_prev" by code_simp+
  have w: "resolve_exit_wiring ?ir = resolve_exit_wiring demo_prev" by (rule resolve_exit_wiring_cong) simp_all
  have d: "compile_derived_field_specs demo_parse ?ir = compile_derived_field_specs demo_parse demo_prev"
    by (rule ext) (simp add: compile_derived_field_specs_def)
  have x: "compile_exit_logic demo_parse sc wr (ir_exit_logic ?ir) = compile_exit_logic demo_parse sc wr (ir_exit_logic demo_prev)" for sc wr
    by (simp add: compile_exit_logic_def compiled_exit_stops_def)
  have "\<exists>st' ss'. compile demo_parse ?ir ''D1'' = Inr (st', ss')"
    using c unfolding compile_def same w d x by (auto simp: bind_r_def Let_def split: sum.splits prod.splits)
  then obtain st' ss' where c': "compile demo_parse ?ir ''D1'' = Inr (st', ss')" by blast
  have "st_exit_checks st' = st_exit_checks st"
    using filters_and_catastrophic_stop_have_no_effect [OF c c'] by (metis ir_strategy.select_convs(5) ir_strategy.surjective ir_strategy.update_convs(1,9))
  with c c' show ?thesis by blast
qed

end
