(* ===== verification/Backtest_Executor.thy ===== *)
theory Backtest_Executor
  imports Backtest_Run Ir_Preprocessor Strategy_Runs "HOL-Library.Product_Lexorder"
begin

text \<open>
  A backtest from the submitted text to its result: \<open>SyntheticBacktestExecutor.execute\<close> of
  \<open>services/api/services/synthetic_backtest_executor.py\<close> with the symbol and timeframe helpers of
  \<open>services/cli/run_synthetic_backtest.py\<close>, and the result schema of \<open>libs/contracts/backtest.py\<close>. Arguments are the schema
  validation (pydantic), the parser and the transcendental functions of Python, the indicator engine and
  the market data provider. The Sharpe ratio, whose text conversion is not modelled, is left out of the
  result.
\<close>

section \<open>Inputs\<close>

record backtest_request =
  br_strategy_ir_dict :: json
  br_symbols :: "string list"
  br_timeframe :: string
  br_start :: int
  br_end :: int
  br_seed :: int
  br_starting_balance :: decimal
  br_deployment_id :: string

record data_provider =
  dp_quotes :: market_data
  dp_fetch_bars :: "string \<Rightarrow> string \<Rightarrow> datetime \<Rightarrow> datetime \<Rightarrow> (exn, candle list) result"

record platform =
  pf_validate :: "json \<Rightarrow> (exn, strategy_ir) result"
  pf_parse :: parser
  pf_libm :: "string \<Rightarrow> py_float list \<Rightarrow> (exn, py_float) result"
  pf_engine :: indicator_engine
  pf_provider :: "int \<Rightarrow> data_provider"

definition synthetic_supported_symbols :: "string list" where
  "synthetic_supported_symbols = [''EURUSD'', ''GBPUSD'', ''USDJPY'', ''USDCHF'', ''AUDUSD'', ''USDCAD'', ''NZDUSD'']"

definition timeframe_normalisation :: "(string, string) dict" where
  "timeframe_normalisation =
     [(''M15'', ''M15''), (''15m'', ''M15''), (''H1'', ''H1''), (''1h'', ''H1''), (''H4'', ''H4''), (''4h'', ''H4''),
      (''D'', ''D''), (''D1'', ''D''), (''1d'', ''D'')]"

fun split_on :: "char \<Rightarrow> string \<Rightarrow> string list" where
  "split_on c [] = [[]]"
| "split_on c (x # xs) = (if x = c then [] # split_on c xs else (case split_on c xs of [] \<Rightarrow> [[x]] | y # ys \<Rightarrow> (x # y) # ys))"

fun join_with :: "string \<Rightarrow> string list \<Rightarrow> string" where
  "join_with sep [] = []"
| "join_with sep [x] = x"
| "join_with sep (x # xs) = x @ sep @ join_with sep xs"

definition resolve_symbols :: "strategy_ir \<Rightarrow> string option \<Rightarrow> (exn, string list) result" where
  "resolve_symbols ir override =
     (let candidates = (case override of
                          None \<Rightarrow> ir_universe_symbols ir
                        | Some t \<Rightarrow> if t = [] then ir_universe_symbols ir else filter (\<lambda>s. s \<noteq> []) (map strip (split_on (CHR '','') t)));
          supported = sort (remdups (filter (\<lambda>s. s \<in> set synthetic_supported_symbols) candidates))
      in if supported = [] then Inl backtest_error else Inr supported)"

definition resolve_timeframe :: "strategy_ir \<Rightarrow> string option \<Rightarrow> (exn, string) result" where
  "resolve_timeframe ir override =
     (case dict_get timeframe_normalisation (case override of None \<Rightarrow> dq_primary_timeframe (ir_data_requirements ir) | Some t \<Rightarrow> t) of
        None \<Rightarrow> Inl backtest_error
      | Some tf \<Rightarrow> Inr tf)"

definition int_text :: "int \<Rightarrow> string" where
  "int_text k = (if k < 0 then ''-'' @ nat_text (nat (- k)) else nat_text (nat k))"

definition midnight :: "int \<Rightarrow> datetime" where
  "midnight day = day * 86400000000"

section \<open>Results\<close>

record backtest_trade =
  bt_timestamp :: datetime
  bt_symbol :: string
  bt_side :: string
  bt_quantity :: decimal
  bt_price :: decimal

definition new_backtest_trade :: "datetime \<Rightarrow> string \<Rightarrow> string \<Rightarrow> decimal \<Rightarrow> decimal \<Rightarrow> (exn, backtest_trade) result" where
  "new_backtest_trade ts symbol side quantity price =
     (if quantity \<le> 0 \<or> price \<le> 0 then Inl (PyError ''pydantic.ValidationError'')
      else Inr \<lparr>bt_timestamp = ts, bt_symbol = symbol, bt_side = side, bt_quantity = quantity, bt_price = price\<rparr>)"

fun trades_of_records :: "trade_record list \<Rightarrow> (exn, backtest_trade list) result" where
  "trades_of_records [] = Inr []"
| "trades_of_records (r # rs) =
     (let long = (tc_side r = ''long'')
      in bind_r (new_backtest_trade (tc_entry_timestamp r) (tc_symbol r) (if long then ''buy'' else ''sell'') (of_int (tc_units r)) (tc_entry_price r)) (\<lambda>entry.
         bind_r (case (tc_exit_timestamp r, tc_exit_price r) of
                   (Some ts, Some price) \<Rightarrow>
                     bind_r (new_backtest_trade ts (tc_symbol r) (if long then ''sell'' else ''buy'') (of_int (tc_units r)) price) (\<lambda>x. Inr [x])
                 | _ \<Rightarrow> Inr []) (\<lambda>exit.
         bind_r (trades_of_records rs) (\<lambda>more. Inr (entry # exit @ more)))))"

definition records_to_backtest_trades :: "trade_record list \<Rightarrow> (exn, backtest_trade list) result" where
  "records_to_backtest_trades rs =
     bind_r (trades_of_records rs) (\<lambda>ts. Inr (sort_key (\<lambda>t. (bt_timestamp t, bt_symbol t, bt_side t)) ts))"

record run_metrics =
  mt_total_return_pct :: decimal
  mt_annualized_return_pct :: decimal
  mt_max_drawdown_pct :: decimal
  mt_total_trades :: nat
  mt_win_rate :: decimal
  mt_profit_factor :: decimal

definition drawdown_step :: "decimal \<times> decimal \<Rightarrow> backtest_bar \<Rightarrow> decimal \<times> decimal" where
  "drawdown_step acc sample =
     (let (peak0, max_dd) = acc; peak = (if peak0 < bk_equity sample then bk_equity sample else peak0)
      in if 0 < peak then
           let dd_pct = dec (dec (dec (bk_equity sample - peak) / peak) * 100)
           in (peak, if dd_pct < max_dd then dd_pct else max_dd)
         else (peak, max_dd))"

definition pnls :: "trade_record list \<Rightarrow> decimal list" where
  "pnls rs = concat (map (\<lambda>r. case tc_pnl r of None \<Rightarrow> [] | Some x \<Rightarrow> [x]) rs)"

definition decimal_sum :: "decimal list \<Rightarrow> decimal" where
  "decimal_sum xs = foldl (\<lambda>a x. dec (a + x)) 0 xs"

definition compute_metrics :: "trade_record list \<Rightarrow> decimal \<Rightarrow> decimal \<Rightarrow> backtest_bar list \<Rightarrow> run_metrics" where
  "compute_metrics rs ending starting samples =
     (let closed = pnls rs; total = length closed; wins = length (filter (\<lambda>x. 0 < x) closed);
          total_return = (if 0 < starting then dec (dec (dec (ending - starting) / starting) * 100) else 0);
          gross_profit = decimal_sum (filter (\<lambda>x. 0 < x) closed);
          gross_loss = decimal_sum (map uminus (filter (\<lambda>x. x < 0) closed))
      in \<lparr>mt_total_return_pct = total_return, mt_annualized_return_pct = total_return,
          mt_max_drawdown_pct = snd (foldl drawdown_step (starting, 0) samples), mt_total_trades = total,
          mt_win_rate = (if total = 0 then 0 else dec (of_nat wins / of_nat total)),
          mt_profit_factor = (if 0 < gross_loss then dec (gross_profit / gross_loss) else 0)\<rparr>)"

record backtest_result =
  bx_strategy_id :: string
  bx_symbols :: "string list"
  bx_metrics :: run_metrics
  bx_final_equity :: decimal
  bx_trades :: "backtest_trade list"
  bx_equity_curve :: "backtest_bar list"
  bx_indicators_computed :: "string list"
  bx_bars_processed :: nat

text \<open>The bounds that the result schema checks.\<close>

definition result_ok :: "run_metrics \<Rightarrow> decimal \<Rightarrow> bool" where
  "result_ok mt final_equity \<longleftrightarrow> mt_max_drawdown_pct mt \<le> 0 \<and> 0 \<le> mt_win_rate mt \<and> mt_win_rate mt \<le> 1 \<and> 0 \<le> mt_profit_factor mt \<and> 0 \<le> final_equity"

section \<open>The run\<close>

fun fetch_all :: "data_provider \<Rightarrow> string \<Rightarrow> datetime \<Rightarrow> datetime \<Rightarrow> string list \<Rightarrow> (exn, candle list) result" where
  "fetch_all dp tf start stop [] = Inr []"
| "fetch_all dp tf start stop (s # ss) =
     bind_r (dp_fetch_bars dp s tf start stop) (\<lambda>bars. bind_r (fetch_all dp tf start stop ss) (\<lambda>more. Inr (bars @ more)))"

definition or_backtest_error :: "(exn, 'a) result \<Rightarrow> (exn, 'a) result" where
  "or_backtest_error r = (case r of Inl e \<Rightarrow> Inl backtest_error | Inr v \<Rightarrow> Inr v)"

definition execute_backtest :: "platform \<Rightarrow> backtest_request \<Rightarrow> (exn, backtest_result) result" where
  "execute_backtest pf rq =
     (if br_end rq < br_start rq then Inl backtest_error
      else
        bind_r (sanitize (br_strategy_ir_dict rq)) (\<lambda>(sanitised, report).
        bind_r (or_backtest_error (pf_validate pf sanitised)) (\<lambda>ir.
        bind_r (resolve_symbols ir (if br_symbols rq = [] then None else Some (join_with '','' (br_symbols rq)))) (\<lambda>symbols.
        bind_r (resolve_timeframe ir (Some (br_timeframe rq))) (\<lambda>tf.
        let dp = pf_provider pf (br_seed rq) in
        bind_r (new_bt_broker (br_starting_balance rq) [] (dp_quotes dp)) (\<lambda>b.
        bind_r (or_backtest_error (compile (pf_parse pf) ir (br_deployment_id rq))) (\<lambda>(st, ss).
        bind_r (fetch_all dp tf (midnight (br_start rq)) (midnight (br_end rq)) symbols) (\<lambda>bars.
        if bars = [] then Inl backtest_error
        else
          let cf = \<lparr>rc_libm = pf_libm pf, rc_engine = pf_engine pf, rc_strategy = st, rc_symbols = symbols,
                    rc_correlation_id = ''m2d3-executor-'' @ int_text (br_seed rq)\<rparr>
          in bind_r (run_bars cf (sort_key (\<lambda>c. (cn_timestamp c, cn_symbol c)) bars) (new_run b ss symbols)) (\<lambda>s.
             let records = finalise (rn_pairer s); ending = bb_balance (rn_broker s);
                 mt = compute_metrics records ending (br_starting_balance rq) (rn_samples s)
             in bind_r (records_to_backtest_trades records) (\<lambda>trades.
                if \<not> result_ok mt ending then Inl (PyError ''pydantic.ValidationError'')
                else Inr \<lparr>bx_strategy_id = (if ir_strategy_name ir = [] then ''synthetic-backtest'' else ir_strategy_name ir),
                          bx_symbols = symbols, bx_metrics = mt, bx_final_equity = ending, bx_trades = trades,
                          bx_equity_curve = rn_samples s, bx_indicators_computed = map indicator_id (ir_indicators ir),
                          bx_bars_processed = length (rn_samples s)\<rparr>))))))))))"

section \<open>Indicators are computed as listed\<close>

text \<open>A z-score whose sources are not computed before it fails, and every failure has the same class.\<close>

lemma compute_indicators_error: "compute_indicators engine cs inds out = Inl e \<Longrightarrow> e = backtest_error"
  by (induction inds arbitrary: out) (auto split: sum.splits)

lemma compute_indicators_keys:
  "compute_indicators engine cs inds out = Inr out' \<Longrightarrow> dict_get out' k \<noteq> None \<longleftrightarrow> dict_get out k \<noteq> None \<or> k \<in> indicator_id ` set inds"
  by (induction inds arbitrary: out) (auto split: sum.splits)

lemma compute_indicators_append:
  "compute_indicators engine cs (xs @ ys) out = bind_r (compute_indicators engine cs xs out) (compute_indicators engine cs ys)"
  by (induction xs arbitrary: out) (auto split: sum.splits)

lemma zscore_too_early:
  assumes "inds = before @ ZscoreIndicator ident tf src mean std # after" "cs \<noteq> []"
    "mean \<notin> indicator_id ` set before \<or> std \<notin> indicator_id ` set before"
  shows "compute engine inds cs = Inl backtest_error"
proof (cases "compute_indicators engine cs before []")
  case (Inl e)
  then show ?thesis using assms(2) compute_indicators_error [OF Inl] by (simp add: compute_def assms(1) compute_indicators_append)
next
  case (Inr out)
  have "dict_get out mean = None \<or> dict_get out std = None" using compute_indicators_keys [OF Inr, of mean] compute_indicators_keys [OF Inr, of std] assms(3) by auto
  then have "\<exists>e. compute_one engine (ZscoreIndicator ident tf src mean std) cs out = Inl e"
    by (cases "resolve_source_array src cs out"; cases "dict_get out mean")
      (auto simp: compute_one_def lookup_indicator_array_def Let_def array_from_result_def split: option.splits)
  then show ?thesis using assms(2) Inr by (auto simp: compute_def assms(1) compute_indicators_append)
qed

text \<open>
  The order in which an author lists indicators matters: a strategy in which a z-score is listed before the
  indicators it reads is resolved and compiled (the resolver even computes the order that would work), but
  its backtest fails on the first bar, since the indicators are computed as they are listed.
\<close>

theorem zscore_listed_first_fails_at_run_time:
  assumes "compile parse ir did = Inr (st, ss)" "ir_indicators ir = before @ ZscoreIndicator ident tf src mean std # after"
    "mean \<notin> indicator_id ` set before \<or> std \<notin> indicator_id ` set before" "rc_strategy cf = st"
    "new_bt_broker start [] md = Inr b" "cn_symbol c \<in> set symbols"
  shows "run_bars cf (c # cs) (new_run b ss symbols) = Inl backtest_error"
proof -
  have ir: "st_ir st = ir" using assms(1) by (auto simp: compile_def Let_def bind_r_Inr_iff split: prod.splits)
  have buf: "\<exists>buf. dict_get (rn_bufs (new_run b ss symbols)) (cn_symbol c) = Some buf"
    using assms(6) by (induction symbols) (auto simp: new_run_def)
  obtain b' where s: "submit_bar (cn_symbol c) c b = (Inr [], b')"
    using assms(5) by (auto simp: new_bt_broker_def submit_bar_def Let_def split: if_splits)
  have n: "push_bar old c \<noteq> []" for old by (simp add: push_bar_def Let_def)
  from buf s show ?thesis
    using zscore_too_early [OF assms(2) n assms(3)] assms(4) ir
    by (auto simp: bar_step_def Let_def) (simp_all add: new_run_def)
qed

definition demo_zscore :: strategy_ir where
  "demo_zscore = blank_ir\<lparr>ir_indicators := [ZscoreIndicator ''z'' ''1h'' ''close'' ''m'' ''d'', SmaIndicator ''m'' ''1h'' ''close'' 20,
     RollingStddevIndicator ''d'' ''1h'' ''close'' 20]\<rparr>"

lemma demo_zscore_compiles: "\<exists>st ss. compile demo_parse demo_zscore ''D1'' = Inr (st, ss)"
proof -
  have r: "case resolve demo_zscore of Inl e \<Rightarrow> False | Inr res \<Rightarrow> collect_cross_timeframe_timeframes (rd_references res) = Inr [] \<and>
      compile_derived_field_specs demo_parse demo_zscore (rd_topological_order res) = Inr []" by code_simp
  then obtain res where res: "resolve demo_zscore = Inr res" "collect_cross_timeframe_timeframes (rd_references res) = Inr []"
    "compile_derived_field_specs demo_parse demo_zscore (rd_topological_order res) = Inr []"
    by (cases "resolve demo_zscore") auto
  have p: "resolve_lookback demo_zscore = Inr []" by code_simp
  show ?thesis
    by (simp add: compile_def res p)
      (simp add: demo_zscore_def blank_ir_def no_exits_def resolve_exit_wiring_def compile_entries_def compile_side_def compile_exit_logic_def
        compiled_exit_stops_def freeze_exit_priority_def translate_def supported_sizing_methods_def Let_def)
qed

theorem zscore_listed_first_fails_at_run_time_witness:
  "\<exists>st ss b. compile demo_parse demo_zscore ''D1'' = Inr (st, ss) \<and>
     run_bars (demo_config\<lparr>rc_strategy := st\<rparr>) [demo_fx_bar 2] (new_run b ss [''EURUSD'']) = Inl backtest_error"
proof -
  obtain st ss where c: "compile demo_parse demo_zscore ''D1'' = Inr (st, ss)" using demo_zscore_compiles by blast
  obtain b where b: "new_bt_broker 0 [] demo_md2 = Inr b" by (simp add: new_bt_broker_def)
  have "run_bars (demo_config\<lparr>rc_strategy := st\<rparr>) [demo_fx_bar 2] (new_run b ss [''EURUSD'']) = Inl backtest_error"
    by (rule zscore_listed_first_fails_at_run_time [OF c _ _ _ b, of "[]" "''z''" "''1h''" "''close''" "''m''" "''d''"])
      (simp_all add: demo_zscore_def demo_fx_bar_def)
  with c show ?thesis by blast
qed

section \<open>The reported metrics\<close>

definition samples_ok :: "backtest_bar list \<Rightarrow> bool" where
  "samples_ok samples \<longleftrightarrow> (\<forall>x\<in>set samples. 0 \<le> bk_equity x \<and> dec_repr (bk_equity x))"

lemma dec_repr_consts [simp]: "dec_repr 0" "dec_repr 1" "dec_repr (- 1)" "dec_repr (- 100)"
  using dec_repr_of_int [of 0] dec_repr_of_int [of 1] dec_repr_of_int [of "- 1"] dec_repr_of_int [of "- 100"] by simp_all

lemma drawdown_step_bounds:
  assumes "- 100 \<le> m" "m \<le> 0" "dec_repr p" "0 \<le> bk_equity x" "dec_repr (bk_equity x)" "drawdown_step (p, m) x = (p', m')"
  shows "- 100 \<le> m' \<and> m' \<le> 0 \<and> dec_repr p'"
proof (cases "0 < p'")
  case True
  have p': "dec_repr p'" "bk_equity x \<le> p'" using assms(3,5,6) by (auto simp: drawdown_step_def Let_def split: if_splits)
  let ?q = "dec (dec (bk_equity x - p') / p')"
  have "- p' \<le> dec (bk_equity x - p')"
    using decimal.rnd_ge_repr [of "- p'" "bk_equity x - p'"] representable_minus [OF p'(1)] assms(4) by simp
  then have "- 1 \<le> dec (bk_equity x - p') / p'" using True by (simp add: le_divide_eq)
  then have "- 1 \<le> ?q" by (rule decimal.rnd_ge_repr [OF dec_repr_consts(3)])
  then have "- 100 \<le> dec (?q * 100)" by (intro decimal.rnd_ge_repr dec_repr_consts) simp
  moreover have "dec (bk_equity x - p') \<le> 0" using decimal.rnd_le_repr [of 0 "bk_equity x - p'"] p'(2) by simp
  then have "?q \<le> 0" using True by (intro decimal.rnd_le_repr dec_repr_consts) (simp add: divide_le_0_iff)
  then have "dec (?q * 100) \<le> 0" by (intro decimal.rnd_le_repr dec_repr_consts) (simp add: mult_le_0_iff)
  ultimately show ?thesis using assms(1,2,6) p' True by (auto simp: drawdown_step_def Let_def split: if_splits)
next
  case False
  then show ?thesis using assms by (auto simp: drawdown_step_def Let_def split: if_splits)
qed

lemma max_drawdown_bounds:
  "samples_ok samples \<Longrightarrow> dec_repr p \<Longrightarrow> - 100 \<le> m \<Longrightarrow> m \<le> 0 \<Longrightarrow>
     - 100 \<le> snd (foldl drawdown_step (p, m) samples) \<and> snd (foldl drawdown_step (p, m) samples) \<le> 0"
proof (induction samples arbitrary: p m)
  case (Cons x samples)
  obtain p' m' where s: "drawdown_step (p, m) x = (p', m')" by force
  have "- 100 \<le> m' \<and> m' \<le> 0 \<and> dec_repr p'"
    by (rule drawdown_step_bounds [OF _ _ _ _ _ s]) (use Cons.prems in \<open>auto simp: samples_ok_def\<close>)
  with Cons s show ?case by (simp add: samples_ok_def)
qed simp

lemma decimal_sum_nonneg: "(\<forall>x\<in>set xs. 0 \<le> x) \<Longrightarrow> 0 \<le> decimal_sum xs"
proof -
  have "(\<forall>x\<in>set xs. 0 \<le> x) \<Longrightarrow> 0 \<le> a \<Longrightarrow> 0 \<le> foldl (\<lambda>a x. dec (a + x)) a xs" for a
    by (induction xs arbitrary: a) (auto simp: decimal.rnd_nonneg_iff)
  then show "(\<forall>x\<in>set xs. 0 \<le> x) \<Longrightarrow> 0 \<le> decimal_sum xs" by (simp add: decimal_sum_def)
qed

lemma win_rate_bounds:
  "0 \<le> mt_win_rate (compute_metrics rs ending start samples) \<and> mt_win_rate (compute_metrics rs ending start samples) \<le> 1"
proof -
  let ?w = "length (filter (\<lambda>x. 0 < x) (pnls rs))"
  have "(of_nat ?w :: rat) / of_nat (length (pnls rs)) \<le> 1" by (cases "pnls rs = []") (simp_all add: divide_le_eq)
  then have "dec (of_nat ?w / of_nat (length (pnls rs))) \<le> 1" by (intro decimal.rnd_le_repr dec_repr_consts)
  then show ?thesis by (simp add: compute_metrics_def Let_def decimal.rnd_nonneg_iff)
qed

lemma profit_factor_bound: "0 \<le> mt_profit_factor (compute_metrics rs ending start samples)"
  using decimal_sum_nonneg [of "filter (\<lambda>x. 0 < x) (pnls rs)"] by (auto simp: compute_metrics_def Let_def decimal.rnd_nonneg_iff)

text \<open>The samples of a run.\<close>

lemma realised_repr: "dec_repr start \<Longrightarrow> dec_repr (realised start ts)"
  by (induction ts rule: rev_induct) (simp_all add: realised_def decimal.repr_rnd)

lemma equity_sample_ok:
  "mark_to_market_equity b symbol c = Inr x \<Longrightarrow> dec_repr (bb_balance b) \<Longrightarrow> 0 \<le> x \<and> dec_repr x"
  by (auto simp: mark_to_market_equity_def bind_r_Inr_iff Let_def decimal.repr_rnd split: option.splits if_splits)

lemma act_samples: "act_on_signal cf symbol position sig s = Inr s' \<Longrightarrow> rn_samples s' = rn_samples s"
  by (auto simp: act_on_signal_def Let_def split: option.splits prod.splits sum.splits)

lemma bar_step_samples:
  assumes "bar_step cf c s = Inr s'" "books_ok start (rn_broker s) (rn_pairer s)" "dec_repr start" "samples_ok (rn_samples s)"
  shows "samples_ok (rn_samples s') \<and> length (rn_samples s') = Suc (length (rn_samples s))"
  using assms(1)
proof (cases rule: bar_step_cases)
  case (1 old fills b inds position sig ss equity lc la)
  from bar_keeps_books [OF assms(2) 1(1) refl, of 0] have "dec_repr (bb_balance b)" using realised_repr [OF assms(3)] by (simp add: books_ok_def)
  with assms(4) equity_sample_ok [OF 1(3)] act_samples [OF 1(5)] show ?thesis by (auto simp: samples_ok_def)
qed

lemma run_samples:
  "run_bars cf cs s = Inr s' \<Longrightarrow> books_ok start (rn_broker s) (rn_pairer s) \<Longrightarrow> dec_repr start \<Longrightarrow> samples_ok (rn_samples s) \<Longrightarrow>
     samples_ok (rn_samples s') \<and> length (rn_samples s') = length (rn_samples s) + length cs"
proof (induction cs arbitrary: s)
  case (Cons c cs)
  then obtain s1 where s1: "bar_step cf c s = Inr s1" "run_bars cf cs s1 = Inr s'" by (auto simp: bind_r_Inr_iff)
  from Cons.IH [OF s1(2) bar_step_keeps_books [OF s1(1) Cons.prems(2)]] bar_step_samples [OF s1(1) Cons.prems(2-4)] Cons.prems(3)
  show ?case by simp
qed simp

text \<open>
  The metrics of a finished backtest are within their bounds: with a starting balance that a \<open>Decimal\<close> holds, the
  maximal drawdown is between -100 and 0 percent, the win rate between 0 and 1, the profit factor not
  negative, and the equity curve has one sample per bar, so that the result is refused only when the final
  balance is negative.
\<close>

theorem metrics_within_bounds:
  assumes "new_bt_broker start [] md = Inr b" "run_bars cf cs (new_run b ss symbols) = Inr s" "dec_repr start"
    "mt = compute_metrics (finalise (rn_pairer s)) (bb_balance (rn_broker s)) start (rn_samples s)"
  shows "- 100 \<le> mt_max_drawdown_pct mt \<and> mt_max_drawdown_pct mt \<le> 0 \<and> 0 \<le> mt_win_rate mt \<and> mt_win_rate mt \<le> 1 \<and> 0 \<le> mt_profit_factor mt \<and>
    length (rn_samples s) = length cs \<and> (result_ok mt (bb_balance (rn_broker s)) \<longleftrightarrow> 0 \<le> bb_balance (rn_broker s))"
proof -
  have s: "samples_ok (rn_samples s) \<and> length (rn_samples s) = length cs"
    using run_samples [OF assms(2) new_run_books [OF assms(1)] assms(3)] by (simp add: new_run_def samples_ok_def)
  have "- 100 \<le> mt_max_drawdown_pct mt \<and> mt_max_drawdown_pct mt \<le> 0"
    using max_drawdown_bounds [of "rn_samples s" start 0] s assms(3,4) by (simp add: compute_metrics_def Let_def)
  with s win_rate_bounds [of "finalise (rn_pairer s)" "bb_balance (rn_broker s)" start "rn_samples s"]
    profit_factor_bound [of "finalise (rn_pairer s)" "bb_balance (rn_broker s)" start "rn_samples s"]
  show ?thesis using assms(4) by (simp add: result_ok_def)
qed

theorem metrics_within_bounds_witness:
  "\<exists>b s. new_bt_broker 0 [] demo_md2 = Inr b \<and>
     run_bars demo_config [demo_fx_bar 2, demo_fx_bar 2, demo_fx_bar 3] (new_run b demo_state [''EURUSD'']) = Inr s \<and>
     result_ok (compute_metrics (finalise (rn_pairer s)) (bb_balance (rn_broker s)) 0 (rn_samples s)) (bb_balance (rn_broker s)) \<and>
     length (rn_samples s) = 3"
proof -
  obtain b where b: "new_bt_broker 0 [] demo_md2 = Inr b" by (simp add: new_bt_broker_def)
  obtain s where s: "run_bars demo_config [demo_fx_bar 2, demo_fx_bar 2, demo_fx_bar 3] (new_run b demo_state [''EURUSD'']) = Inr s"
    "bb_balance (rn_broker s) = 10000" by (rule demo_backtest [OF b])
  from metrics_within_bounds [OF b s(1) dec_repr_consts(1) refl] s b show ?thesis by auto
qed

end
