(* ===== verification/Research_Runs.thy ===== *)
theory Research_Runs
  imports Backtest_Executor
begin

text \<open>
  Research runs: the statuses, configuration, results and records of \<open>libs/contracts/research_run.py\<close>, the
  repository interface \<open>libs/contracts/interfaces/research_run_repository.py\<close> as a record of operations with its
  contract as a locale, the in-memory repository \<open>libs/contracts/mocks/mock_research_run_repository.py\<close> that provides
  it, and \<open>services/api/services/research_run_service.py\<close> over any repository. The operations of the service on the
  executor pool are in \<open>Run_Pool\<close>.
\<close>

section \<open>Statuses\<close>

datatype research_run_type = Backtest | Walk_Forward | Monte_Carlo | Composite

datatype research_run_status = Pending | Queued | Running | Completed | Failed | Cancelled

definition terminal_run_statuses :: "research_run_status list" where
  "terminal_run_statuses = [Completed, Failed, Cancelled]"

fun valid_status_transitions :: "research_run_status \<Rightarrow> research_run_status list" where
  "valid_status_transitions Pending = [Queued, Cancelled]"
| "valid_status_transitions Queued = [Running, Cancelled]"
| "valid_status_transitions Running = [Completed, Failed, Cancelled]"
| "valid_status_transitions Completed = []"
| "valid_status_transitions Failed = []"
| "valid_status_transitions Cancelled = []"

definition is_terminal_status :: "research_run_status \<Rightarrow> bool" where
  "is_terminal_status s \<longleftrightarrow> s \<in> set terminal_run_statuses"

definition validate_status_transition :: "research_run_status \<Rightarrow> research_run_status \<Rightarrow> bool" where
  "validate_status_transition current target \<longleftrightarrow> target \<in> set (valid_status_transitions current)"

definition invalid_transition :: exn where
  "invalid_transition = PyError ''InvalidStatusTransitionError''"

section \<open>Records\<close>

text \<open>The configurations of the engines are left out: the service always leaves them empty.\<close>

record research_run_config =
  gc_run_type :: research_run_type
  gc_strategy_id :: string
  gc_strategy_version_id :: "string option"
  gc_signal_strategy_id :: "string option"
  gc_symbols :: "string list"
  gc_initial_equity :: decimal
  gc_metadata :: "(string, json) dict"

fun normalise_symbols :: "string list \<Rightarrow> string list \<Rightarrow> string list" where
  "normalise_symbols seen [] = []"
| "normalise_symbols seen (s # ss) =
     (let upper = to_upper (strip s)
      in if upper \<noteq> [] \<and> upper \<notin> set seen then upper # normalise_symbols (upper # seen) ss else normalise_symbols seen ss)"

definition new_run_config ::
  "research_run_type \<Rightarrow> string \<Rightarrow> string option \<Rightarrow> string option \<Rightarrow> string list \<Rightarrow> decimal \<Rightarrow> (string, json) dict \<Rightarrow> (exn, research_run_config) result" where
  "new_run_config ty strategy version signal symbols equity meta =
     (if strategy = [] \<or> symbols = [] \<or> equity \<le> 0 then Inl (PyError ''pydantic.ValidationError'')
      else Inr \<lparr>gc_run_type = ty, gc_strategy_id = strategy, gc_strategy_version_id = version, gc_signal_strategy_id = signal,
                gc_symbols = normalise_symbols [] symbols, gc_initial_equity = equity, gc_metadata = meta\<rparr>)"

text \<open>The values of the summary: \<open>str\<close> of a \<open>Decimal\<close>, or a number. \<open>NoMetric\<close> is \<open>None\<close>.\<close>

datatype metric = DecimalText decimal | Count int | NoMetric

record research_run_result =
  gr_backtest_result :: "backtest_result option"
  gr_summary_metrics :: "(string, metric) dict"
  gr_completed_at :: datetime

text \<open>The texts of error messages, by their parts.\<close>

datatype run_note = LoadFailed string exn | ExecutionFailed exn | RaisedUnexpectedly exn | UserRequested

record research_run_record =
  rr_id :: string
  rr_config :: research_run_config
  rr_status :: research_run_status
  rr_result :: "research_run_result option"
  rr_error_message :: "run_note option"
  rr_created_by :: string
  rr_created_at :: datetime
  rr_updated_at :: datetime
  rr_started_at :: "datetime option"
  rr_completed_at :: "datetime option"

definition new_run_record :: "string \<Rightarrow> research_run_config \<Rightarrow> string \<Rightarrow> datetime \<Rightarrow> datetime \<Rightarrow> (exn, research_run_record) result" where
  "new_run_record run_id config user created updated =
     (if run_id = [] \<or> user = [] then Inl (PyError ''pydantic.ValidationError'')
      else Inr \<lparr>rr_id = run_id, rr_config = config, rr_status = Pending, rr_result = None, rr_error_message = None, rr_created_by = user,
                rr_created_at = created, rr_updated_at = updated, rr_started_at = None, rr_completed_at = None\<rparr>)"

text \<open>What a transition makes of a record.\<close>

definition moved_to :: "datetime \<Rightarrow> research_run_status \<Rightarrow> run_note option \<Rightarrow> research_run_record \<Rightarrow> research_run_record" where
  "moved_to now s note r =
     r\<lparr>rr_status := s, rr_updated_at := now,
       rr_started_at := (if s = Running then Some now else rr_started_at r),
       rr_completed_at := (if s \<in> {Completed, Failed, Cancelled} then Some now else rr_completed_at r),
       rr_error_message := (case note of None \<Rightarrow> rr_error_message r | Some n \<Rightarrow> Some n)\<rparr>"

definition with_result :: "datetime \<Rightarrow> research_run_result \<Rightarrow> research_run_record \<Rightarrow> research_run_record" where
  "with_result now res r = r\<lparr>rr_result := Some res, rr_updated_at := now\<rparr>"

section \<open>The interface of the repository\<close>

record 'r run_repo =
  rp_create :: "research_run_record \<Rightarrow> 'r \<Rightarrow> (exn, research_run_record) result \<times> 'r"
  rp_get_by_id :: "'r \<Rightarrow> string \<Rightarrow> research_run_record option"
  rp_update_status :: "datetime \<Rightarrow> string \<Rightarrow> research_run_status \<Rightarrow> run_note option \<Rightarrow> 'r \<Rightarrow> (exn, research_run_record) result \<times> 'r"
  rp_save_result :: "datetime \<Rightarrow> string \<Rightarrow> research_run_result \<Rightarrow> 'r \<Rightarrow> (exn, research_run_record) result \<times> 'r"
  rp_list_by_strategy :: "'r \<Rightarrow> string \<Rightarrow> int \<Rightarrow> int \<Rightarrow> research_run_record list \<times> nat"
  rp_list_by_user :: "'r \<Rightarrow> string \<Rightarrow> int \<Rightarrow> int \<Rightarrow> research_run_record list \<times> nat"
  rp_list_by_strategy_id :: "'r \<Rightarrow> string \<Rightarrow> int \<Rightarrow> int \<Rightarrow> (exn, research_run_record list \<times> nat) result"
  rp_count_by_status :: "'r \<Rightarrow> research_run_status option \<Rightarrow> nat"

text \<open>The contract: a repository behaves as a map from identifiers to records, in which a record is created once and moved along
  the valid transitions only; a call that raises changes nothing.\<close>

locale research_run_repository =
  fixes repo :: "'r run_repo" and invar :: "'r \<Rightarrow> bool"
  assumes create_new: "invar r \<Longrightarrow> rp_get_by_id repo r (rr_id rec) = None \<Longrightarrow>
      \<exists>r'. rp_create repo rec r = (Inr rec, r') \<and> invar r' \<and> rp_get_by_id repo r' = (rp_get_by_id repo r)(rr_id rec \<mapsto> rec)"
    and create_old: "invar r \<Longrightarrow> rp_get_by_id repo r (rr_id rec) = Some old \<Longrightarrow> \<exists>e. rp_create repo rec r = (Inl e, r)"
    and update_none: "invar r \<Longrightarrow> rp_get_by_id repo r i = None \<Longrightarrow> rp_update_status repo now i s note r = (Inl NotFoundError, r)"
    and update_invalid: "invar r \<Longrightarrow> rp_get_by_id repo r i = Some rec \<Longrightarrow> \<not> validate_status_transition (rr_status rec) s \<Longrightarrow>
      rp_update_status repo now i s note r = (Inl invalid_transition, r)"
    and update_valid: "invar r \<Longrightarrow> rp_get_by_id repo r i = Some rec \<Longrightarrow> validate_status_transition (rr_status rec) s \<Longrightarrow>
      \<exists>r'. rp_update_status repo now i s note r = (Inr (moved_to now s note rec), r') \<and> invar r' \<and>
        rp_get_by_id repo r' = (rp_get_by_id repo r)(i \<mapsto> moved_to now s note rec)"
    and save_none: "invar r \<Longrightarrow> rp_get_by_id repo r i = None \<Longrightarrow> rp_save_result repo now i res r = (Inl NotFoundError, r)"
    and save_some: "invar r \<Longrightarrow> rp_get_by_id repo r i = Some rec \<Longrightarrow>
      \<exists>r'. rp_save_result repo now i res r = (Inr (with_result now res rec), r') \<and> invar r' \<and>
        rp_get_by_id repo r' = (rp_get_by_id repo r)(i \<mapsto> with_result now res rec)"
    and stored_id: "invar r \<Longrightarrow> rp_get_by_id repo r i = Some rec \<Longrightarrow> rr_id rec = i"

section \<open>The in-memory repository\<close>

text \<open>\<open>xs[i:j]\<close>.\<close>

definition py_slice :: "'a list \<Rightarrow> int \<Rightarrow> int \<Rightarrow> 'a list" where
  "py_slice xs i j =
     (let n = int (length xs); clamp = (\<lambda>k. if k < 0 then max 0 (k + n) else min k n)
      in take (nat (clamp j - clamp i)) (drop (nat (clamp i)) xs))"

type_synonym mock_runs = "(string, research_run_record) dict"

definition mr_create :: "research_run_record \<Rightarrow> mock_runs \<Rightarrow> (exn, research_run_record) result \<times> mock_runs" where
  "mr_create rec d = (if dict_has d (rr_id rec) then (Inl (PyError ''ValueError''), d) else (Inr rec, dict_set (rr_id rec) rec d))"

definition mr_update_status ::
  "datetime \<Rightarrow> string \<Rightarrow> research_run_status \<Rightarrow> run_note option \<Rightarrow> mock_runs \<Rightarrow> (exn, research_run_record) result \<times> mock_runs" where
  "mr_update_status now i s note d =
     (case dict_get d i of
        None \<Rightarrow> (Inl NotFoundError, d)
      | Some existing \<Rightarrow>
          if \<not> validate_status_transition (rr_status existing) s then (Inl invalid_transition, d)
          else let updated = moved_to now s note existing in (Inr updated, dict_set i updated d))"

definition mr_save_result :: "datetime \<Rightarrow> string \<Rightarrow> research_run_result \<Rightarrow> mock_runs \<Rightarrow> (exn, research_run_record) result \<times> mock_runs" where
  "mr_save_result now i res d =
     (case dict_get d i of
        None \<Rightarrow> (Inl NotFoundError, d)
      | Some existing \<Rightarrow> let updated = with_result now res existing in (Inr updated, dict_set i updated d))"

definition newest_first :: "(research_run_record \<Rightarrow> bool) \<Rightarrow> mock_runs \<Rightarrow> research_run_record list" where
  "newest_first p d = sort_key (\<lambda>r. - rr_created_at r) (filter p (dict_values d))"

definition mr_list_by_strategy :: "mock_runs \<Rightarrow> string \<Rightarrow> int \<Rightarrow> int \<Rightarrow> research_run_record list \<times> nat" where
  "mr_list_by_strategy d strategy limit offset =
     (let matches = newest_first (\<lambda>r. gc_strategy_id (rr_config r) = strategy) d in (py_slice matches offset (offset + limit), length matches))"

definition mr_list_by_user :: "mock_runs \<Rightarrow> string \<Rightarrow> int \<Rightarrow> int \<Rightarrow> research_run_record list \<times> nat" where
  "mr_list_by_user d user limit offset =
     (let matches = newest_first (\<lambda>r. rr_created_by r = user) d in (py_slice matches offset (offset + limit), length matches))"

definition mr_count_by_status :: "mock_runs \<Rightarrow> research_run_status option \<Rightarrow> nat" where
  "mr_count_by_status d s =
     (case s of None \<Rightarrow> length d | Some t \<Rightarrow> length (filter (\<lambda>r. rr_status r = t) (dict_values d)))"

definition mr_list_by_strategy_id :: "mock_runs \<Rightarrow> string \<Rightarrow> int \<Rightarrow> int \<Rightarrow> (exn, research_run_record list \<times> nat) result" where
  "mr_list_by_strategy_id d strategy page page_size =
     (if page_size < 1 then Inl (PyError ''ValueError'')
      else
        let offset = ((if 1 \<le> page then page else 1) - 1) * page_size;
            matches = newest_first (\<lambda>r. gc_strategy_id (rr_config r) = strategy) d
        in Inr (py_slice matches offset (offset + page_size), length matches))"

definition mock_run_repo :: "mock_runs run_repo" where
  "mock_run_repo =
     \<lparr>rp_create = mr_create, rp_get_by_id = dict_get, rp_update_status = mr_update_status, rp_save_result = mr_save_result,
      rp_list_by_strategy = mr_list_by_strategy, rp_list_by_user = mr_list_by_user, rp_list_by_strategy_id = mr_list_by_strategy_id,
      rp_count_by_status = mr_count_by_status\<rparr>"

definition mock_runs_ok :: "mock_runs \<Rightarrow> bool" where
  "mock_runs_ok d \<longleftrightarrow> dict_ok d \<and> (\<forall>i rec. dict_get d i = Some rec \<longrightarrow> rr_id rec = i)"

lemma moved_to_simps [simp]:
  "rr_id (moved_to now s note r) = rr_id r" "rr_status (moved_to now s note r) = s" "rr_result (moved_to now s note r) = rr_result r"
  "rr_id (with_result now res r) = rr_id r" "rr_status (with_result now res r) = rr_status r" "rr_result (with_result now res r) = Some res"
  by (simp_all add: moved_to_def with_result_def)

lemmas mock_run_defs = mock_run_repo_def mr_create_def mr_update_status_def mr_save_result_def mock_runs_ok_def

interpretation mock_runs: research_run_repository mock_run_repo mock_runs_ok
  by unfold_locales (auto simp: mock_run_defs Let_def dict_has_iff fun_eq_iff split: option.splits)

section \<open>Plans\<close>

text \<open>The parts of an experiment plan that the service reads; dates are texts.\<close>

record date_range =
  dr_start :: string
  dr_end :: string

record experiment_plan =
  ep_strategy_name :: string
  ep_strategy_version :: string
  ep_dataset_ref :: string
  ep_random_seed :: int
  ep_run_purpose :: string
  ep_in_sample :: date_range
  ep_out_of_sample :: date_range
  ep_holdout :: date_range
  ep_walk_forward_enabled :: bool

record resolved_dataset =
  rd_dataset_ref :: string
  rd_dataset_id :: string
  rd_symbols :: "string list"

definition is_leap :: "nat \<Rightarrow> bool" where
  "is_leap y \<longleftrightarrow> y mod 4 = 0 \<and> (y mod 100 \<noteq> 0 \<or> y mod 400 = 0)"

definition days_in_month :: "nat \<Rightarrow> nat \<Rightarrow> nat" where
  "days_in_month y m = (if m = 2 then (if is_leap y then 29 else 28) else if m \<in> {4, 6, 9, 11} then 30 else 31)"

text \<open>Days since 1 January 1970 of a date of the Gregorian calendar.\<close>

definition day_number :: "nat \<Rightarrow> nat \<Rightarrow> nat \<Rightarrow> int" where
  "day_number y m d =
     (let n = int y - 1
      in 365 * n + n div 4 - n div 100 + n div 400 + int (sum_list (map (days_in_month y) [1..<m])) + int d - 719163)"

text \<open>\<open>strptime\<close> with the format of year, month and day: four digits, then one or two; the day may have a blank for its first digit.\<close>

definition month_text_ok :: "string \<Rightarrow> bool" where
  "month_text_ok t \<longleftrightarrow> list_all ascii_digit t \<and> (length t = 1 \<or> length t = 2) \<and> 1 \<le> text_nat t \<and> text_nat t \<le> 12"

definition day_digits :: "string \<Rightarrow> string" where
  "day_digits t = (case t of [c, d] \<Rightarrow> if c = CHR '' '' then [d] else t | _ \<Rightarrow> t)"

definition parse_date :: "string \<Rightarrow> int option" where
  "parse_date t =
     (case split_on (CHR ''-'') t of
        [y, m, d0] \<Rightarrow>
          let d = day_digits d0
          in if length y = 4 \<and> list_all ascii_digit y \<and> month_text_ok m \<and> list_all ascii_digit d \<and> (length d = 1 \<or> length d = 2)
                \<and> 1 \<le> text_nat d \<and> text_nat d \<le> days_in_month (text_nat y) (text_nat m) \<and> 1 \<le> text_nat y
             then Some (day_number (text_nat y) (text_nat m) (text_nat d)) else None
      | _ \<Rightarrow> None)"

fun first_window :: "date_range list \<Rightarrow> (int \<times> int) option" where
  "first_window [] = None"
| "first_window (r # rs) =
     (case (parse_date (dr_start r), parse_date (dr_end r)) of
        (Some s, Some e) \<Rightarrow> if s \<le> e then Some (s, e) else first_window rs
      | _ \<Rightarrow> first_window rs)"

definition select_replay_window :: "datetime \<Rightarrow> experiment_plan \<Rightarrow> int \<times> int" where
  "select_replay_window now plan =
     (case first_window [ep_holdout plan, ep_out_of_sample plan, ep_in_sample plan] of
        Some w \<Rightarrow> w
      | None \<Rightarrow> let fallback_end = now div 86400000000 in (fallback_end - 60, fallback_end))"

definition extract_primary_timeframe :: "json \<Rightarrow> (exn, string) result" where
  "extract_primary_timeframe ir =
     bind_r (py_get ir ''data_requirements'') (\<lambda>req.
       Inr (case req of
              JObj d \<Rightarrow> (case dict_get d ''primary_timeframe'' of Some (JStr tf) \<Rightarrow> if tf = [] then ''H1'' else tf | _ \<Rightarrow> ''H1'')
            | _ \<Rightarrow> ''H1''))"

section \<open>The service\<close>

type_synonym ir_loader = "string \<Rightarrow> (exn, json) result"
type_synonym run_executor = "backtest_request \<Rightarrow> (exn, backtest_result) result"

record 'r run_service =
  sv_repo :: "'r run_repo"
  sv_executor :: "run_executor option"
  sv_ir_loader :: "ir_loader option"

text \<open>The request of a run, which the synchronous path and the worker of the pool build alike.\<close>

definition run_request :: "datetime \<Rightarrow> string \<Rightarrow> experiment_plan \<Rightarrow> resolved_dataset \<Rightarrow> json \<Rightarrow> (exn, backtest_request) result" where
  "run_request now run_id plan ds ir =
     (let (start_d, end_d) = select_replay_window now plan
      in bind_r (extract_primary_timeframe ir) (\<lambda>tf.
           Inr \<lparr>br_strategy_ir_dict = ir, br_symbols = rd_symbols ds, br_timeframe = tf, br_start = start_d, br_end = end_d,
                br_seed = ep_random_seed plan, br_starting_balance = 100000, br_deployment_id = ''run-'' @ run_id\<rparr>))"

definition run_result_of :: "datetime \<Rightarrow> backtest_result \<Rightarrow> research_run_result" where
  "run_result_of now b =
     \<lparr>gr_backtest_result = Some b,
      gr_summary_metrics =
        [(''total_return_pct'', DecimalText (mt_total_return_pct (bx_metrics b))), (''max_drawdown_pct'', DecimalText (mt_max_drawdown_pct (bx_metrics b))),
         (''win_rate'', DecimalText (mt_win_rate (bx_metrics b))), (''profit_factor'', DecimalText (mt_profit_factor (bx_metrics b))),
         (''total_trades'', Count (int (mt_total_trades (bx_metrics b)))), (''final_equity'', DecimalText (bx_final_equity b)),
         (''bars_processed'', Count (int (bx_bars_processed b)))],
      gr_completed_at = now\<rparr>"

text \<open>\<open>ts k\<close> is the \<open>k\<close>-th reading of the clock in a call.\<close>

definition submit_run :: "'r run_service \<Rightarrow> (nat \<Rightarrow> datetime) \<Rightarrow> string \<Rightarrow> research_run_config \<Rightarrow> string \<Rightarrow> 'r \<Rightarrow> (exn, research_run_record) result \<times> 'r" where
  "submit_run sv ts run_id config user r =
     (case new_run_record run_id config user (ts 0) (ts 1) of
        Inl e \<Rightarrow> (Inl e, r)
      | Inr rec \<Rightarrow>
          (case rp_create (sv_repo sv) rec r of
             (Inl e, r1) \<Rightarrow> (Inl e, r1)
           | (Inr _, r1) \<Rightarrow> rp_update_status (sv_repo sv) (ts 2) run_id Queued None r1))"

definition mark_failed :: "'r run_service \<Rightarrow> datetime \<Rightarrow> string \<Rightarrow> run_note \<Rightarrow> 'r \<Rightarrow> (exn, research_run_record) result \<times> 'r" where
  "mark_failed sv now run_id note r = rp_update_status (sv_repo sv) now run_id Failed (Some note) r"

text \<open>The record of the failure is persisted, then the exception is raised again, as an \<open>FXLabError\<close> if the executor raised its own.\<close>

definition fail_and_raise :: "'r run_service \<Rightarrow> datetime \<Rightarrow> string \<Rightarrow> exn \<Rightarrow> 'r \<Rightarrow> (exn, research_run_record) result \<times> 'r" where
  "fail_and_raise sv now run_id e r =
     (case mark_failed sv now run_id (if e = backtest_error then ExecutionFailed e else RaisedUnexpectedly e) r of
        (Inl e', r') \<Rightarrow> (Inl e', r')
      | (Inr _, r') \<Rightarrow> (Inl (if e = backtest_error then FXLabError else e), r'))"

definition execute_synchronously ::
  "'r run_service \<Rightarrow> run_executor \<Rightarrow> ir_loader \<Rightarrow> (nat \<Rightarrow> datetime) \<Rightarrow> string \<Rightarrow> string \<Rightarrow> experiment_plan \<Rightarrow> resolved_dataset \<Rightarrow> 'r \<Rightarrow>
     (exn, research_run_record) result \<times> 'r" where
  "execute_synchronously sv executor loader ts run_id strategy plan ds r =
     (case rp_update_status (sv_repo sv) (ts 0) run_id Running None r of
        (Inl e, r1) \<Rightarrow> (Inl e, r1)
      | (Inr _, r1) \<Rightarrow>
          (case loader strategy of
             Inl e \<Rightarrow> mark_failed sv (ts 1) run_id (LoadFailed strategy e) r1
           | Inr ir \<Rightarrow>
               (case run_request (ts 1) run_id plan ds ir of
                  Inl e \<Rightarrow> (Inl e, r1)
                | Inr rq \<Rightarrow>
                    (case executor rq of
                       Inl e \<Rightarrow> fail_and_raise sv (ts 2) run_id e r1
                     | Inr b \<Rightarrow>
                         (case rp_save_result (sv_repo sv) (ts 3) run_id (run_result_of (ts 2) b) r1 of
                            (Inl e, r2) \<Rightarrow> (Inl e, r2)
                          | (Inr _, r2) \<Rightarrow> rp_update_status (sv_repo sv) (ts 4) run_id Completed None r2)))))"

text \<open>The submission to the pool, \<open>submit\<close>, is an argument: the pool is only called when it is there.\<close>

definition plan_metadata :: "experiment_plan \<Rightarrow> resolved_dataset \<Rightarrow> (string, json) dict" where
  "plan_metadata plan ds =
     [(''source'', JStr ''experiment_plan''), (''experiment_plan_strategy_name'', JStr (ep_strategy_name plan)),
      (''experiment_plan_strategy_version'', JStr (ep_strategy_version plan)), (''experiment_plan_dataset_ref'', JStr (ep_dataset_ref plan)),
      (''experiment_plan_dataset_id'', JStr (rd_dataset_id ds)), (''experiment_plan_random_seed'', JNum (of_int (ep_random_seed plan))),
      (''experiment_plan_run_purpose'', JStr (ep_run_purpose plan))]"

definition submit_from_ir ::
  "'r run_service \<Rightarrow> (string \<Rightarrow> (exn, unit) result) option \<Rightarrow> (nat \<Rightarrow> datetime) \<Rightarrow> string \<Rightarrow> string \<Rightarrow> experiment_plan \<Rightarrow> resolved_dataset \<Rightarrow> string \<Rightarrow> bool \<Rightarrow> 'r \<Rightarrow>
     (exn, research_run_record) result \<times> 'r" where
  "submit_from_ir sv submit ts run_id strategy plan ds user auto_execute r =
     (case new_run_config (if ep_walk_forward_enabled plan then Walk_Forward else Backtest) strategy None (Some strategy) (rd_symbols ds) 100000
             (plan_metadata plan ds) of
        Inl e \<Rightarrow> (Inl e, r)
      | Inr config \<Rightarrow>
          (case submit_run sv ts run_id config user r of
             (Inl e, r1) \<Rightarrow> (Inl e, r1)
           | (Inr queued, r1) \<Rightarrow>
               if \<not> auto_execute then
                 (case (submit, sv_ir_loader sv) of
                    (Some hand_over, Some _) \<Rightarrow> (bind_r (hand_over run_id) (\<lambda>_. Inr queued), r1)
                  | _ \<Rightarrow> (Inr queued, r1))
               else
                 (case (sv_executor sv, sv_ir_loader sv) of
                    (Some executor, Some loader) \<Rightarrow> execute_synchronously sv executor loader (\<lambda>k. ts (k + 3)) run_id strategy plan ds r1
                  | _ \<Rightarrow> (Inr queued, r1))))"

definition get_run :: "'r run_service \<Rightarrow> 'r \<Rightarrow> string \<Rightarrow> research_run_record option" where
  "get_run sv r run_id = rp_get_by_id (sv_repo sv) r run_id"

definition cancel_run :: "'r run_service \<Rightarrow> datetime \<Rightarrow> string \<Rightarrow> 'r \<Rightarrow> (exn, research_run_record) result \<times> 'r" where
  "cancel_run sv now run_id r =
     (case rp_get_by_id (sv_repo sv) r run_id of
        None \<Rightarrow> (Inl NotFoundError, r)
      | Some existing \<Rightarrow>
          if rr_status existing = Running then (Inl invalid_transition, r)
          else rp_update_status (sv_repo sv) now run_id Cancelled None r)"


text \<open>\<open>abort\<close> is the pool's \<open>cancel_run\<close>, with whatever the workers do to the repository while it is awaited.\<close>

record run_cancel_result =
  xc_run_id :: string
  xc_previous_status :: research_run_status
  xc_current_status :: research_run_status
  xc_cancelled :: bool
  xc_reason :: string

definition not_cancelled :: "string \<Rightarrow> research_run_status \<Rightarrow> research_run_status \<Rightarrow> string \<Rightarrow> run_cancel_result" where
  "not_cancelled run_id prev cur reason =
     \<lparr>xc_run_id = run_id, xc_previous_status = prev, xc_current_status = cur, xc_cancelled = False, xc_reason = reason\<rparr>"

definition write_cancelled :: "'r run_service \<Rightarrow> datetime \<Rightarrow> string \<Rightarrow> research_run_status \<Rightarrow> 'r \<Rightarrow> (exn, run_cancel_result) result \<times> 'r" where
  "write_cancelled sv now run_id prev r =
     (case rp_update_status (sv_repo sv) now run_id Cancelled (Some UserRequested) r of
        (Inl e, r') \<Rightarrow> (Inl e, r')
      | (Inr rec, r') \<Rightarrow>
          (Inr \<lparr>xc_run_id = run_id, xc_previous_status = prev, xc_current_status = rr_status rec, xc_cancelled = True,
                xc_reason = ''user_requested''\<rparr>, r'))"

definition cancel_run_with_abort ::
  "'r run_service \<Rightarrow> ('r \<Rightarrow> bool \<times> 'r) option \<Rightarrow> datetime \<Rightarrow> string \<Rightarrow> 'r \<Rightarrow> (exn, run_cancel_result) result \<times> 'r" where
  "cancel_run_with_abort sv abort now run_id r =
     (case rp_get_by_id (sv_repo sv) r run_id of
        None \<Rightarrow> (Inl NotFoundError, r)
      | Some existing \<Rightarrow>
          let prev = rr_status existing
          in if prev \<in> {Completed, Failed, Cancelled} then (Inr (not_cancelled run_id prev prev ''terminal_state''), r)
             else if prev = Running \<and> abort \<noteq> None then
               (let (aborted, r1) = the abort r
                in if aborted then write_cancelled sv now run_id prev r1
                   else case rp_get_by_id (sv_repo sv) r1 run_id of
                          None \<Rightarrow> (Inl NotFoundError, r1)
                        | Some refreshed \<Rightarrow>
                            if rr_status refreshed \<in> {Completed, Failed, Cancelled}
                            then (Inr (not_cancelled run_id prev (rr_status refreshed) ''task_already_finished''), r1)
                            else write_cancelled sv now run_id prev r1)
             else write_cancelled sv now run_id prev r)"

definition list_runs :: "'r run_service \<Rightarrow> 'r \<Rightarrow> string option \<Rightarrow> string option \<Rightarrow> int \<Rightarrow> int \<Rightarrow> research_run_record list \<times> nat" where
  "list_runs sv r strategy user limit offset =
     (case strategy of
        Some s \<Rightarrow> rp_list_by_strategy (sv_repo sv) r s limit offset
      | None \<Rightarrow> (case user of Some u \<Rightarrow> rp_list_by_user (sv_repo sv) r u limit offset | None \<Rightarrow> ([], 0)))"

definition get_run_result :: "'r run_service \<Rightarrow> 'r \<Rightarrow> string \<Rightarrow> research_run_result option" where
  "get_run_result sv r run_id = (case rp_get_by_id (sv_repo sv) r run_id of None \<Rightarrow> None | Some rec \<Rightarrow> rr_result rec)"

section \<open>Results of a run\<close>

definition run_not_completed :: exn where
  "run_not_completed = PyError ''RunNotCompletedError''"

definition require_completed_record :: "'r run_service \<Rightarrow> 'r \<Rightarrow> string \<Rightarrow> (exn, research_run_result) result" where
  "require_completed_record sv r run_id =
     (case rp_get_by_id (sv_repo sv) r run_id of
        None \<Rightarrow> Inl NotFoundError
      | Some rec \<Rightarrow>
          (case rr_result rec of
             None \<Rightarrow> Inl run_not_completed
           | Some res \<Rightarrow> if rr_status rec \<noteq> Completed then Inl run_not_completed else Inr res))"

text \<open>The curve comes from the bars: the synthetic executor writes no signal summary. \<open>run_results.py\<close> bounds its values.\<close>

record equity_curve_response =
  ec_run_id :: string
  ec_point_count :: nat
  ec_points :: "(datetime \<times> decimal) list"

definition get_equity_curve :: "'r run_service \<Rightarrow> 'r \<Rightarrow> string \<Rightarrow> (exn, equity_curve_response) result" where
  "get_equity_curve sv r run_id =
     bind_r (require_completed_record sv r run_id) (\<lambda>res.
       let points = (case gr_backtest_result res of
                       None \<Rightarrow> []
                     | Some b \<Rightarrow> map (\<lambda>bar. (cn_timestamp (bk_candle bar), bk_equity bar)) (bx_equity_curve b))
       in if list_ex (\<lambda>(t, e). e < 0) points \<or> run_id = [] then Inl (PyError ''pydantic.ValidationError'')
          else Inr \<lparr>ec_run_id = run_id, ec_point_count = length points, ec_points = sort_key fst points\<rparr>)"

definition max_blotter_page_size :: int where
  "max_blotter_page_size = 1000"

record trade_blotter_entry =
  tb_trade_id :: string
  tb_trade :: backtest_trade
  tb_commission :: decimal
  tb_slippage :: decimal

record trade_blotter_page =
  tg_run_id :: string
  tg_page :: int
  tg_page_size :: int
  tg_total_count :: int
  tg_total_pages :: int
  tg_trades :: "trade_blotter_entry list"

definition trade_id :: "nat \<Rightarrow> string" where
  "trade_id n = ''trade-'' @ replicate (6 - length (nat_text n)) (CHR ''0'') @ nat_text n"

definition blotter_entry_ok :: "backtest_trade \<Rightarrow> bool" where
  "blotter_entry_ok t \<longleftrightarrow> bt_symbol t \<noteq> [] \<and> bt_side t \<in> {''buy'', ''sell''} \<and> 0 < bt_quantity t \<and> 0 < bt_price t"

definition blotter_entries :: "backtest_trade list \<Rightarrow> trade_blotter_entry list" where
  "blotter_entries ts =
     sort_key (\<lambda>e. (bt_timestamp (tb_trade e), tb_trade_id e))
       (map (\<lambda>(i, t). \<lparr>tb_trade_id = trade_id i, tb_trade = t, tb_commission = 0, tb_slippage = 0\<rparr>) (enumerate 0 ts))"

definition ceil_pages :: "int \<Rightarrow> int \<Rightarrow> int" where
  "ceil_pages n page_size = (n + page_size - 1) div page_size"

definition get_blotter :: "'r run_service \<Rightarrow> 'r \<Rightarrow> string \<Rightarrow> int \<Rightarrow> int \<Rightarrow> (exn, trade_blotter_page) result" where
  "get_blotter sv r run_id page page_size =
     (if page < 1 then Inl (PyError ''ValueError'')
      else if page_size < 1 then Inl (PyError ''ValueError'')
      else
        bind_r (require_completed_record sv r run_id) (\<lambda>res.
          let trades = (case gr_backtest_result res of None \<Rightarrow> [] | Some b \<Rightarrow> bx_trades b);
              entries = blotter_entries trades; n = int (length entries); start = (page - 1) * page_size
          in if \<not> list_all blotter_entry_ok trades \<or> run_id = [] \<or> max_blotter_page_size < page_size then Inl (PyError ''pydantic.ValidationError'')
             else Inr \<lparr>tg_run_id = run_id, tg_page = page, tg_page_size = page_size, tg_total_count = n,
                       tg_total_pages = (if n = 0 then 0 else ceil_pages n page_size),
                       tg_trades = py_slice entries start (start + page_size)\<rparr>))"

record run_metrics_view =
  rv_run_id :: string
  rv_completed_at :: datetime
  rv_metrics :: "run_metrics option"
  rv_final_equity :: "decimal option"
  rv_bars_processed :: nat
  rv_summary_metrics :: "(string, metric) dict"

definition get_metrics :: "'r run_service \<Rightarrow> 'r \<Rightarrow> string \<Rightarrow> (exn, run_metrics_view) result" where
  "get_metrics sv r run_id =
     bind_r (require_completed_record sv r run_id) (\<lambda>res.
       if run_id = [] then Inl (PyError ''pydantic.ValidationError'')
       else Inr (case gr_backtest_result res of
                   Some b \<Rightarrow> \<lparr>rv_run_id = run_id, rv_completed_at = gr_completed_at res, rv_metrics = Some (bx_metrics b), rv_final_equity = Some (bx_final_equity b),
                              rv_bars_processed = bx_bars_processed b, rv_summary_metrics = gr_summary_metrics res\<rparr>
                 | None \<Rightarrow> \<lparr>rv_run_id = run_id, rv_completed_at = gr_completed_at res, rv_metrics = None, rv_final_equity = None,
                            rv_bars_processed = 0, rv_summary_metrics = gr_summary_metrics res\<rparr>))"

text \<open>The row of a list of runs; a metric is read from the result, or from the flat summary when there is no result of a backtest.\<close>

record run_summary_metrics =
  rm_total_return_pct :: "decimal option"
  rm_win_rate :: "decimal option"
  rm_trade_count :: int

record run_summary_item =
  ri_id :: string
  ri_status :: research_run_status
  ri_started_at :: "datetime option"
  ri_completed_at :: "datetime option"
  ri_summary_metrics :: run_summary_metrics

fun to_decimal :: "metric \<Rightarrow> decimal option" where
  "to_decimal NoMetric = None"
| "to_decimal (DecimalText d) = Some d"
| "to_decimal (Count n) = Some (of_int n)"

fun to_int :: "metric \<Rightarrow> int" where
  "to_int NoMetric = 0"
| "to_int (DecimalText d) = trunc d"
| "to_int (Count n) = n"

definition flat_get :: "(string, metric) dict \<Rightarrow> string \<Rightarrow> metric" where
  "flat_get d k = (case dict_get d k of None \<Rightarrow> NoMetric | Some v \<Rightarrow> v)"

text \<open>\<open>x or y\<close>: the text of a number is never empty.\<close>

definition metric_or :: "metric \<Rightarrow> metric \<Rightarrow> metric" where
  "metric_or x y = (if x = NoMetric \<or> x = Count 0 then y else x)"

definition project_summary_metrics :: "research_run_record \<Rightarrow> run_summary_metrics" where
  "project_summary_metrics rec =
     (case rr_result rec of
        None \<Rightarrow> \<lparr>rm_total_return_pct = None, rm_win_rate = None, rm_trade_count = 0\<rparr>
      | Some res \<Rightarrow>
          (case gr_backtest_result res of
             Some b \<Rightarrow> \<lparr>rm_total_return_pct = Some (mt_total_return_pct (bx_metrics b)), rm_win_rate = Some (mt_win_rate (bx_metrics b)),
                        rm_trade_count = int (mt_total_trades (bx_metrics b))\<rparr>
           | None \<Rightarrow>
               let flat = gr_summary_metrics res
               in \<lparr>rm_total_return_pct = to_decimal (flat_get flat ''total_return_pct''), rm_win_rate = to_decimal (flat_get flat ''win_rate''),
                   rm_trade_count = to_int (metric_or (flat_get flat ''total_trades'') (flat_get flat ''trade_count''))\<rparr>))"

definition max_strategy_runs_page_size :: int where
  "max_strategy_runs_page_size = 200"

record strategy_runs_page =
  sg_runs :: "run_summary_item list"
  sg_page :: int
  sg_page_size :: int
  sg_total_count :: nat
  sg_total_pages :: int

definition list_runs_for_strategy :: "'r run_service \<Rightarrow> 'r \<Rightarrow> string \<Rightarrow> int \<Rightarrow> int \<Rightarrow> (exn, strategy_runs_page) result" where
  "list_runs_for_strategy sv r strategy page page_size =
     bind_r (rp_list_by_strategy_id (sv_repo sv) r strategy page page_size) (\<lambda>(records, n).
       let items = map (\<lambda>rec. \<lparr>ri_id = rr_id rec, ri_status = rr_status rec, ri_started_at = rr_started_at rec,
                               ri_completed_at = rr_completed_at rec, ri_summary_metrics = project_summary_metrics rec\<rparr>) records
       in if page < 1 \<or> page_size < 1 \<or> max_strategy_runs_page_size < page_size \<or> list_ex (\<lambda>i. rm_trade_count (ri_summary_metrics i) < 0) items
          then Inl (PyError ''pydantic.ValidationError'')
          else Inr \<lparr>sg_runs = items, sg_page = page, sg_page_size = page_size, sg_total_count = n,
                    sg_total_pages = ceil_pages (int n) page_size\<rparr>)"


section \<open>What the contract gives\<close>

context research_run_repository
begin

lemma update_cases:
  assumes "invar r" "rp_update_status repo now i s note r = (res, r')"
  obtains (refused) e where "res = Inl e" "r' = r" "\<And>rec. rp_get_by_id repo r i = Some rec \<Longrightarrow> \<not> validate_status_transition (rr_status rec) s"
  | (moved) rec where "rp_get_by_id repo r i = Some rec" "validate_status_transition (rr_status rec) s" "res = Inr (moved_to now s note rec)"
      "invar r'" "rp_get_by_id repo r' = (rp_get_by_id repo r)(i \<mapsto> moved_to now s note rec)"
proof (cases "rp_get_by_id repo r i")
  case None
  with update_none [OF assms(1) None] assms(2) show ?thesis by (intro refused) auto
next
  case (Some rec)
  show ?thesis
  proof (cases "validate_status_transition (rr_status rec) s")
    case True
    with update_valid [OF assms(1) Some True, of now "note"] assms(2) Some show ?thesis by (intro moved) auto
  next
    case False
    with update_invalid [OF assms(1) Some False] assms(2) Some show ?thesis by (intro refused) auto
  qed
qed

lemma save_cases:
  assumes "invar r" "rp_save_result repo now i res r = (ans, r')"
  obtains (missing) "ans = Inl NotFoundError" "r' = r" "rp_get_by_id repo r i = None"
  | (saved) rec where "rp_get_by_id repo r i = Some rec" "ans = Inr (with_result now res rec)" "invar r'"
      "rp_get_by_id repo r' = (rp_get_by_id repo r)(i \<mapsto> with_result now res rec)"
  using save_none [of r i now res] save_some [of r i _ now res] assms by (cases "rp_get_by_id repo r i") auto

lemma create_cases:
  assumes "invar r" "rp_create repo rec r = (ans, r')"
  obtains (refused) e where "ans = Inl e" "r' = r" "rp_get_by_id repo r (rr_id rec) \<noteq> None"
  | (created) "rp_get_by_id repo r (rr_id rec) = None" "ans = Inr rec" "invar r'" "rp_get_by_id repo r' = (rp_get_by_id repo r)(rr_id rec \<mapsto> rec)"
  using create_new [of r rec] create_old [of r rec] assms by (cases "rp_get_by_id repo r (rr_id rec)") auto

lemma write_cancelled_settles:
  assumes "invar r" "sv_repo sv = repo" "write_cancelled sv now i prev r = (Inr answer, r')"
  shows "\<exists>rec. rp_get_by_id repo r' i = Some rec \<and> rr_status rec = xc_current_status answer \<and> rr_status rec = Cancelled \<and>
    rr_error_message rec = Some UserRequested \<and> xc_cancelled answer"
proof -
  obtain res r1 where u: "rp_update_status repo now i Cancelled (Some UserRequested) r = (res, r1)" by force
  from assms(1) u show ?thesis
    using assms(2,3) u by (cases rule: update_cases) (auto simp: write_cancelled_def moved_to_def)
qed

lemma cancel_settles:
  assumes "invar r" "sv_repo sv = repo" "cancel_run_with_abort sv abort now i r = (Inr answer, r')"
    "\<And>f q. abort = Some f \<Longrightarrow> invar q \<Longrightarrow> invar (snd (f q))"
  shows "\<exists>rec. rp_get_by_id repo r' i = Some rec \<and> rr_status rec = xc_current_status answer \<and> is_terminal_status (rr_status rec) \<and>
    (xc_cancelled answer \<longrightarrow> rr_status rec = Cancelled \<and> rr_error_message rec = Some UserRequested)"
proof -
  have w: ?thesis if "invar q" "write_cancelled sv now i prev q = (Inr answer, r')" for q prev
    using write_cancelled_settles [OF that(1) assms(2) that(2)] by (auto simp: is_terminal_status_def terminal_run_statuses_def)
  obtain old where old: "rp_get_by_id repo r i = Some old"
    using assms(2,3) by (auto simp: cancel_run_with_abort_def split: option.splits)
  consider (settled) "rr_status old \<in> {Completed, Failed, Cancelled}" | (written) "write_cancelled sv now i (rr_status old) r = (Inr answer, r')"
    | (aborted) f where "abort = Some f" "rr_status old \<notin> {Completed, Failed, Cancelled}" "rr_status old = Running"
    using assms(2,3) old by (auto simp: cancel_run_with_abort_def Let_def split: if_splits)
  then show ?thesis
  proof cases
    case settled
    then show ?thesis using assms(2,3) old
      by (auto simp: cancel_run_with_abort_def not_cancelled_def Let_def is_terminal_status_def terminal_run_statuses_def)
  next
    case written
    show ?thesis by (rule w [OF assms(1) written])
  next
    case (aborted f)
    obtain a q where fr: "f r = (a, q)" by force
    then have q: "invar q" using assms(1) assms(4) [OF aborted(1), of r] by simp
    from aborted assms(2,3) old fr have "if a then write_cancelled sv now i Running q = (Inr answer, r')
      else case rp_get_by_id repo q i of
         None \<Rightarrow> False
       | Some rec \<Rightarrow> if rr_status rec \<in> {Completed, Failed, Cancelled} then answer = not_cancelled i Running (rr_status rec) ''task_already_finished'' \<and> r' = q
                    else write_cancelled sv now i Running q = (Inr answer, r')"
      by (auto simp: cancel_run_with_abort_def split: if_splits option.splits)
    with w [OF q] show ?thesis
      by (cases "write_cancelled sv now i Running q = (Inr answer, r')")
        (auto simp: not_cancelled_def is_terminal_status_def terminal_run_statuses_def split: if_splits option.splits)
  qed
qed

end

text \<open>
  The answer to a cancellation is the truth about the run: for every repository that keeps its contract and whatever
  the pool and the workers do to it meanwhile, a cancellation that answers leaves the run in a terminal status, which is
  the status it reports; if it reports that the run was cancelled, the record is cancelled with the user's
  request as its reason.
\<close>

theorem cancel_answer_truthful:
  assumes "research_run_repository (sv_repo sv) invar" "invar r" "cancel_run_with_abort sv abort now i r = (Inr answer, r')"
    "\<And>f q. abort = Some f \<Longrightarrow> invar q \<Longrightarrow> invar (snd (f q))"
  shows "\<exists>rec. rp_get_by_id (sv_repo sv) r' i = Some rec \<and> rr_status rec = xc_current_status answer \<and> is_terminal_status (rr_status rec) \<and>
    (xc_cancelled answer \<longrightarrow> rr_status rec = Cancelled \<and> rr_error_message rec = Some UserRequested)"
  by (rule research_run_repository.cancel_settles [OF assms(1,2) refl assms(3)]) (rule assms(4))

section \<open>Pages\<close>

lemma concat_chunks: "concat (map (\<lambda>k. take m (drop (k * m) xs)) [0..<n]) = take (n * m) xs"
proof (induction n)
  case (Suc n)
  have "take (n * m) xs @ take m (drop (n * m) xs) = take (n * m + m) xs" by (simp add: take_add)
  with Suc show ?case by (simp add: add.commute)
qed simp

lemma py_slice_window:
  assumes "0 \<le> p" "0 \<le> m"
  shows "py_slice xs p (p + m) = take (nat m) (drop (nat p) xs)"
proof (cases "p + m \<le> int (length xs)")
  case True
  then show ?thesis using assms by (simp add: py_slice_def Let_def min_def)
next
  case False
  then have "length (drop (nat p) xs) \<le> nat m" by simp
  with False assms show ?thesis by (auto simp: py_slice_def Let_def min_def)
qed

lemma py_slice_chunk: "0 \<le> k \<Longrightarrow> 0 \<le> m \<Longrightarrow> py_slice xs (k * m) (k * m + m) = take (nat m) (drop (nat k * nat m) xs)"
  by (simp add: py_slice_window nat_mult_distrib)

lemma ceil_pages_enough:
  assumes "1 \<le> m" "0 \<le> n"
  shows "n \<le> ceil_pages n m * m" "0 \<le> ceil_pages n m" "(ceil_pages n m - 1) * m < max n 1"
proof -
  define q where "q = (n + m - 1) div m"
  have "q * m + (n + m - 1) mod m = n + m - 1" by (simp add: q_def)
  moreover have "0 \<le> (n + m - 1) mod m" "(n + m - 1) mod m < m" using assms by simp_all
  ultimately have "n \<le> q * m" "q * m - m < max n 1" by linarith+
  then show "n \<le> ceil_pages n m * m" "(ceil_pages n m - 1) * m < max n 1" by (simp_all add: ceil_pages_def q_def left_diff_distrib)
  show "0 \<le> ceil_pages n m" using assms by (simp add: ceil_pages_def pos_imp_zdiv_nonneg_iff)
qed

lemma blotter_entries_mset: "mset (map tb_trade (blotter_entries ts)) = mset ts"
proof -
  have "map tb_trade (map (\<lambda>(i, t). \<lparr>tb_trade_id = trade_id i, tb_trade = t, tb_commission = 0, tb_slippage = 0\<rparr>) (enumerate 0 ts)) = ts"
    by (simp add: comp_def case_prod_unfold)
  then have "image_mset tb_trade (mset (map (\<lambda>(i, t). \<lparr>tb_trade_id = trade_id i, tb_trade = t, tb_commission = 0, tb_slippage = 0\<rparr>) (enumerate 0 ts))) = mset ts"
    by (metis mset_map)
  then show ?thesis unfolding blotter_entries_def mset_map [of tb_trade] mset_sort .
qed

lemma blotter_length [simp]: "length (blotter_entries ts) = length ts"
  by (simp add: blotter_entries_def)

text \<open>
  The pages of the blotter are the trades of the run: for every page size that the schema admits, the pages from
  the first to the reported number of pages, put together, contain every trade exactly once, in the order of
  their times.
\<close>

theorem blotter_pages_exact:
  assumes "require_completed_record sv r i = Inr res" "gr_backtest_result res = Some b" "list_all blotter_entry_ok (bx_trades b)" "i \<noteq> []"
    "1 \<le> m" "m \<le> max_blotter_page_size"
  shows "\<exists>pages. map (\<lambda>k. get_blotter sv r i (int k + 1) m) [0..<nat (ceil_pages (int (length (bx_trades b))) m)] = map Inr pages \<and>
    mset (map tb_trade (concat (map tg_trades pages))) = mset (bx_trades b) \<and>
    sorted (map (\<lambda>e. bt_timestamp (tb_trade e)) (concat (map tg_trades pages))) \<and>
    (\<forall>p\<in>set pages. tg_total_pages p = int (length pages) \<and> tg_total_count p = int (length (bx_trades b)) \<and> int (length (tg_trades p)) \<le> m)"
proof -
  let ?es = "blotter_entries (bx_trades b)" and ?n = "nat (ceil_pages (int (length (bx_trades b))) m)"
  define page where "page k = \<lparr>tg_run_id = i, tg_page = int k + 1, tg_page_size = m, tg_total_count = int (length (bx_trades b)),
      tg_total_pages = int ?n, tg_trades = take (nat m) (drop (k * nat m) ?es)\<rparr>" for k
  note enough = ceil_pages_enough [OF assms(5), of "int (length (bx_trades b))"]
  have zero: "ceil_pages 0 m = 0" using assms(5) by (simp add: ceil_pages_def)
  have "get_blotter sv r i (int k + 1) m = Inr (page k)" for k
    using assms enough(2) zero py_slice_chunk [of "int k" m ?es] by (auto simp: get_blotter_def page_def Let_def)
  then have "map (\<lambda>k. get_blotter sv r i (int k + 1) m) [0..<?n] = map Inr (map page [0..<?n])" by simp
  moreover have all: "concat (map tg_trades (map page [0..<?n])) = ?es"
  proof -
    have "int (length (bx_trades b)) \<le> int ?n * m" using enough by simp
    then have "int (length ?es) \<le> int (?n * nat m)" using assms(5) by simp
    then have "length ?es \<le> ?n * nat m" by (simp only: of_nat_le_iff)
    then show ?thesis by (simp add: comp_def page_def concat_chunks)
  qed
  moreover have "sorted (map (\<lambda>e. bt_timestamp (tb_trade e)) ?es)"
  proof -
    have "sorted (map (\<lambda>e. (bt_timestamp (tb_trade e), tb_trade_id e)) ?es)" by (simp add: blotter_entries_def)
    then have "sorted_wrt (\<lambda>x y. bt_timestamp (tb_trade x) \<le> bt_timestamp (tb_trade y)) ?es"
      unfolding sorted_map by (rule sorted_wrt_mono_rel [rotated]) (auto simp: less_eq_prod_def)
    then show ?thesis by (simp add: sorted_map)
  qed
  moreover have "\<forall>p\<in>set (map page [0..<?n]). tg_total_pages p = int (length (map page [0..<?n])) \<and> tg_total_count p = int (length (bx_trades b)) \<and> int (length (tg_trades p)) \<le> m"
    using assms(5) by (auto simp: page_def)
  ultimately show ?thesis using blotter_entries_mset [of "bx_trades b"] by (metis all)
qed


section \<open>The outcome of a submission\<close>

context research_run_repository
begin

lemma submit_run_fresh:
  assumes "invar r" "sv_repo sv = repo" "rp_get_by_id repo r i = None" "i \<noteq> []" "user \<noteq> []"
  shows "\<exists>rec r'. submit_run sv ts i config user r = (Inr rec, r') \<and> invar r' \<and> rp_get_by_id repo r' = (rp_get_by_id repo r)(i \<mapsto> rec) \<and>
    rr_status rec = Queued \<and> rr_result rec = None \<and> rr_config rec = config \<and> rr_created_by rec = user"
proof -
  obtain rec where rec: "new_run_record i config user (ts 0) (ts 1) = Inr rec" "rr_id rec = i" "rr_status rec = Pending" "rr_result rec = None"
      "rr_config rec = config" "rr_created_by rec = user"
    using assms(4,5) by (simp add: new_run_record_def)
  obtain r1 where c: "rp_create repo rec r = (Inr rec, r1)" "invar r1" "rp_get_by_id repo r1 = (rp_get_by_id repo r)(i \<mapsto> rec)"
    using create_new [OF assms(1), of rec] assms(3) rec(2) by auto
  obtain r2 where "rp_update_status repo (ts 2) i Queued None r1 = (Inr (moved_to (ts 2) Queued None rec), r2)" "invar r2"
      "rp_get_by_id repo r2 = (rp_get_by_id repo r1)(i \<mapsto> moved_to (ts 2) Queued None rec)"
    using update_valid [OF c(2), of i rec Queued "ts 2" None] c(3) rec(3) by (auto simp: validate_status_transition_def)
  with c rec assms(2) show ?thesis by (auto simp: submit_run_def moved_to_def)
qed

lemma update_from:
  assumes "invar r" "rp_get_by_id repo r i = Some rec" "s \<in> set (valid_status_transitions (rr_status rec))"
  obtains r' where "rp_update_status repo now i s n r = (Inr (moved_to now s n rec), r')" "invar r'"
    "rp_get_by_id repo r' = (rp_get_by_id repo r)(i \<mapsto> moved_to now s n rec)"
  using update_valid [OF assms(1,2), of s now n] assms(3) by (auto simp: validate_status_transition_def)

lemma execute_synchronously_outcome:
  assumes "invar r" "sv_repo sv = repo" "rp_get_by_id repo r i = Some old" "rr_status old = Queued" "rr_result old = None"
  shows "\<exists>rec r' ans. execute_synchronously sv executor loader ts i strategy plan ds r = (ans, r') \<and> invar r' \<and>
    rp_get_by_id repo r' = (rp_get_by_id repo r)(i \<mapsto> rec) \<and>
    (case loader strategy of
       Inl e \<Rightarrow> rr_status rec = Failed \<and> rr_error_message rec = Some (LoadFailed strategy e) \<and> ans = Inr rec
     | Inr ir \<Rightarrow>
         (case run_request (ts 1) i plan ds ir of
            Inl e \<Rightarrow> rr_status rec = Running \<and> ans = Inl e
          | Inr rq \<Rightarrow>
              (case executor rq of
                 Inl e \<Rightarrow> rr_status rec = Failed \<and> rr_result rec = None \<and> ans = Inl (if e = backtest_error then FXLabError else e)
               | Inr b \<Rightarrow> rr_status rec = Completed \<and> rr_result rec = Some (run_result_of (ts 2) b) \<and> ans = Inr rec)))"
proof -
  let ?rec = "moved_to (ts 0) Running None old"
  obtain r1 where r1: "rp_update_status repo (ts 0) i Running None r = (Inr ?rec, r1)" "invar r1" "rp_get_by_id repo r1 = (rp_get_by_id repo r)(i \<mapsto> ?rec)"
    by (rule update_from [OF assms(1,3), of Running "ts 0" None]) (simp_all add: assms(4))
  have get1: "rp_get_by_id repo r1 i = Some ?rec" using r1(3) by simp
  have failed: "\<exists>r'. mark_failed sv now i n r1 = (Inr (moved_to now Failed (Some n) ?rec), r') \<and> invar r' \<and>
      rp_get_by_id repo r' = (rp_get_by_id repo r)(i \<mapsto> moved_to now Failed (Some n) ?rec)" for now n
    by (rule update_from [OF r1(2) get1, of Failed now "Some n"]) (simp_all add: mark_failed_def assms(2) r1(3))
  show ?thesis
  proof (cases "loader strategy")
    case (Inl e)
    with failed [of "ts 1" "LoadFailed strategy e"] r1(1) assms(2) show ?thesis by (auto simp: execute_synchronously_def moved_to_def)
  next
    case loaded: (Inr ir)
    show ?thesis
    proof (cases "run_request (ts 1) i plan ds ir")
      case (Inl e)
      with loaded r1 assms(2) show ?thesis by (auto simp: execute_synchronously_def)
    next
      case request: (Inr rq)
      show ?thesis
      proof (cases "executor rq")
        case (Inl e)
        let ?n = "if e = backtest_error then ExecutionFailed e else RaisedUnexpectedly e"
        from failed [of "ts 2" ?n] obtain r' where "mark_failed sv (ts 2) i ?n r1 = (Inr (moved_to (ts 2) Failed (Some ?n) ?rec), r')" "invar r'"
          "rp_get_by_id repo r' = (rp_get_by_id repo r)(i \<mapsto> moved_to (ts 2) Failed (Some ?n) ?rec)" by blast
        with Inl loaded request r1(1) assms(2,5) show ?thesis
          by (intro exI [of _ "moved_to (ts 2) Failed (Some ?n) ?rec"] exI [of _ r']) (simp add: execute_synchronously_def fail_and_raise_def)
      next
        case (Inr b)
        let ?res = "run_result_of (ts 2) b"
        obtain r2 where r2: "rp_save_result repo (ts 3) i ?res r1 = (Inr (with_result (ts 3) ?res ?rec), r2)" "invar r2"
            "rp_get_by_id repo r2 = (rp_get_by_id repo r1)(i \<mapsto> with_result (ts 3) ?res ?rec)"
          using save_some [OF r1(2) get1] by blast
        have "rp_get_by_id repo r2 i = Some (with_result (ts 3) ?res ?rec)" using r2(3) by simp
        from update_from [OF r2(2) this, of Completed "ts 4" None] obtain r3 where
          "rp_update_status repo (ts 4) i Completed None r2 = (Inr (moved_to (ts 4) Completed None (with_result (ts 3) ?res ?rec)), r3)" "invar r3"
          "rp_get_by_id repo r3 = (rp_get_by_id repo r2)(i \<mapsto> moved_to (ts 4) Completed None (with_result (ts 3) ?res ?rec))"
          by auto
        with Inr loaded request r1 r2 assms(2) show ?thesis by (auto simp: execute_synchronously_def)
      qed
    qed
  qed
qed

end



section \<open>Examples\<close>

definition demo_range :: date_range where
  "demo_range = \<lparr>dr_start = ''2024-01-05'', dr_end = ''2024-02-05''\<rparr>"

definition demo_plan :: experiment_plan where
  "demo_plan = \<lparr>ep_strategy_name = ''s'', ep_strategy_version = ''1'', ep_dataset_ref = ''d'', ep_random_seed = 7, ep_run_purpose = ''test'',
     ep_in_sample = demo_range, ep_out_of_sample = demo_range, ep_holdout = demo_range, ep_walk_forward_enabled = False\<rparr>"

definition demo_dataset :: resolved_dataset where
  "demo_dataset = \<lparr>rd_dataset_ref = ''d'', rd_dataset_id = ''d'', rd_symbols = [''EURUSD'']\<rparr>"

definition demo_trade :: "int \<Rightarrow> backtest_trade" where
  "demo_trade t = \<lparr>bt_timestamp = t, bt_symbol = ''EURUSD'', bt_side = ''buy'', bt_quantity = 1, bt_price = 1\<rparr>"

definition demo_result :: backtest_result where
  "demo_result = \<lparr>bx_strategy_id = ''s'', bx_symbols = [''EURUSD''],
     bx_metrics = \<lparr>mt_total_return_pct = 0, mt_annualized_return_pct = 0, mt_max_drawdown_pct = 0, mt_total_trades = 0, mt_win_rate = 0, mt_profit_factor = 0\<rparr>,
     bx_final_equity = 100000, bx_trades = [demo_trade 1, demo_trade 2, demo_trade 3], bx_equity_curve = [], bx_indicators_computed = [], bx_bars_processed = 0\<rparr>"

definition demo_runs :: "mock_runs run_service" where
  "demo_runs = \<lparr>sv_repo = mock_run_repo, sv_executor = Some (\<lambda>rq. Inr demo_result), sv_ir_loader = Some (\<lambda>s. Inr (JObj []))\<rparr>"

definition demo_record :: "research_run_status \<Rightarrow> research_run_record" where
  "demo_record s = \<lparr>rr_id = ''r'', rr_config = \<lparr>gc_run_type = Backtest, gc_strategy_id = ''s'', gc_strategy_version_id = None, gc_signal_strategy_id = None,
     gc_symbols = [''EURUSD''], gc_initial_equity = 100000, gc_metadata = []\<rparr>, rr_status = s, rr_result = Some (run_result_of 0 demo_result),
     rr_error_message = None, rr_created_by = ''u'', rr_created_at = 0, rr_updated_at = 0, rr_started_at = Some 0, rr_completed_at = None\<rparr>"

lemmas demo_run_defs = demo_runs_def demo_record_def mock_run_defs

lemma demo_contract: "research_run_repository (sv_repo demo_runs) mock_runs_ok"
  by (simp add: demo_runs_def mock_runs.research_run_repository_axioms)

theorem cancel_answer_truthful_witness:
  "\<exists>answer r'. cancel_run_with_abort demo_runs (Some (\<lambda>r. (True, r))) 9 ''r'' [(''r'', demo_record Running)] = (Inr answer, r') \<and>
     (\<exists>rec. dict_get r' ''r'' = Some rec \<and> rr_status rec = Cancelled)"
proof -
  let ?r = "[(''r'', demo_record Running)]"
  obtain answer r' where c: "cancel_run_with_abort demo_runs (Some (\<lambda>r. (True, r))) 9 ''r'' ?r = (Inr answer, r')" "xc_cancelled answer"
    by (simp add: cancel_run_with_abort_def demo_run_defs write_cancelled_def validate_status_transition_def Let_def)
  have "mock_runs_ok ?r" by (simp add: mock_runs_ok_def demo_record_def dict_ok_def)
  have "\<exists>rec. rp_get_by_id (sv_repo demo_runs) r' ''r'' = Some rec \<and> rr_status rec = xc_current_status answer \<and> is_terminal_status (rr_status rec) \<and>
      (xc_cancelled answer \<longrightarrow> rr_status rec = Cancelled \<and> rr_error_message rec = Some UserRequested)"
    by (rule cancel_answer_truthful [OF demo_contract \<open>mock_runs_ok ?r\<close> c(1)]) auto
  with c show ?thesis by (auto simp: demo_runs_def mock_run_repo_def)
qed

theorem blotter_pages_exact_witness:
  "\<exists>pages. map (\<lambda>k. get_blotter demo_runs [(''r'', demo_record Completed)] ''r'' (int k + 1) 2) [0..<2] = map Inr pages \<and>
     mset (map tb_trade (concat (map tg_trades pages))) = {#demo_trade 1, demo_trade 2, demo_trade 3#}"
proof -
  have "ceil_pages 3 2 = 2" by (simp add: ceil_pages_def)
  then show ?thesis
    using blotter_pages_exact [of demo_runs "[(''r'', demo_record Completed)]" "''r''" "run_result_of 0 demo_result" demo_result 2]
    by (auto simp: require_completed_record_def demo_run_defs run_result_of_def demo_result_def blotter_entry_ok_def demo_trade_def max_blotter_page_size_def)
qed


end
