(* ===== verification/Run_Pool.thy ===== *)
theory Run_Pool
  imports Research_Runs
begin

text \<open>
  The executor pool of research runs, \<open>services/api/services/run_executor_pool.py\<close>: the worker that executes a run in a
  thread, and the pool that bounds the tasks that wait for workers. Every call of the repository is atomic; between two
  calls of a worker anything else may happen, so a worker is a program counter, and an inductive relation interleaves
  the workers, the event loop and the requests of the service. Aborting a task does not stop its thread: once
  started, a thread runs to its end.
\<close>

section \<open>The worker\<close>

record submitted_run =
  sb_run_id :: string
  sb_strategy_id :: string
  sb_plan :: experiment_plan
  sb_dataset :: resolved_dataset

record 'r run_worker =
  wk_repo :: "'r run_repo"
  wk_executor :: run_executor
  wk_ir_loader :: ir_loader

text \<open>\<open>execute\<close>: \<open>None\<close> is a normal return. The failure to persist a failure is swallowed.\<close>

definition worker_mark_failed :: "'r run_worker \<Rightarrow> datetime \<Rightarrow> string \<Rightarrow> run_note \<Rightarrow> 'r \<Rightarrow> 'r" where
  "worker_mark_failed w now run_id n r = snd (rp_update_status (wk_repo w) now run_id Failed (Some n) r)"

definition worker_execute :: "'r run_worker \<Rightarrow> (nat \<Rightarrow> datetime) \<Rightarrow> submitted_run \<Rightarrow> 'r \<Rightarrow> exn option \<times> 'r" where
  "worker_execute w ts sb r =
     (let run_id = sb_run_id sb
      in case rp_update_status (wk_repo w) (ts 0) run_id Running None r of
           (Inl e, r1) \<Rightarrow> (Some e, r1)
         | (Inr _, r1) \<Rightarrow>
             (case wk_ir_loader w (sb_strategy_id sb) of
                Inl e \<Rightarrow> (None, worker_mark_failed w (ts 2) run_id (LoadFailed (sb_strategy_id sb) e) r1)
              | Inr ir \<Rightarrow>
                  (case run_request (ts 1) run_id (sb_plan sb) (sb_dataset sb) ir of
                     Inl e \<Rightarrow> (Some e, r1)
                   | Inr rq \<Rightarrow>
                       (case wk_executor w rq of
                          Inl e \<Rightarrow>
                            if e = backtest_error then (Some FXLabError, worker_mark_failed w (ts 2) run_id (ExecutionFailed e) r1)
                            else (Some e, worker_mark_failed w (ts 2) run_id (RaisedUnexpectedly e) r1)
                        | Inr b \<Rightarrow>
                            (case rp_save_result (wk_repo w) (ts 2) run_id (run_result_of (ts 1) b) r1 of
                               (Inl e, r2) \<Rightarrow> (Some e, r2)
                             | (Inr _, r2) \<Rightarrow>
                                 (case rp_update_status (wk_repo w) (ts 3) run_id Completed None r2 of
                                    (Inl e, r3) \<Rightarrow> (Some e, r3)
                                  | (Inr _, r3) \<Rightarrow> (None, r3)))))))"

text \<open>The same in atomic steps: where a worker stands, and what its next step does.\<close>

datatype worker_pc =
    AtStart
  | AtWork
  | AtFailure run_note "exn option"
  | AtSave research_run_result
  | AtComplete
  | AtEnd "exn option"

fun worker_step :: "'r run_worker \<Rightarrow> datetime \<Rightarrow> submitted_run \<Rightarrow> worker_pc \<Rightarrow> 'r \<Rightarrow> worker_pc \<times> 'r" where
  "worker_step w now sb AtStart r =
     (case rp_update_status (wk_repo w) now (sb_run_id sb) Running None r of (Inl e, r') \<Rightarrow> (AtEnd (Some e), r') | (Inr _, r') \<Rightarrow> (AtWork, r'))"
| "worker_step w now sb AtWork r =
     ((case wk_ir_loader w (sb_strategy_id sb) of
         Inl e \<Rightarrow> AtFailure (LoadFailed (sb_strategy_id sb) e) None
       | Inr ir \<Rightarrow>
           (case run_request now (sb_run_id sb) (sb_plan sb) (sb_dataset sb) ir of
              Inl e \<Rightarrow> AtEnd (Some e)
            | Inr rq \<Rightarrow>
                (case wk_executor w rq of
                   Inl e \<Rightarrow> if e = backtest_error then AtFailure (ExecutionFailed e) (Some FXLabError) else AtFailure (RaisedUnexpectedly e) (Some e)
                 | Inr b \<Rightarrow> AtSave (run_result_of now b)))), r)"
| "worker_step w now sb (AtFailure n x) r = (AtEnd x, worker_mark_failed w now (sb_run_id sb) n r)"
| "worker_step w now sb (AtSave res) r =
     (case rp_save_result (wk_repo w) now (sb_run_id sb) res r of (Inl e, r') \<Rightarrow> (AtEnd (Some e), r') | (Inr _, r') \<Rightarrow> (AtComplete, r'))"
| "worker_step w now sb AtComplete r =
     (case rp_update_status (wk_repo w) now (sb_run_id sb) Completed None r of (Inl e, r') \<Rightarrow> (AtEnd (Some e), r') | (Inr _, r') \<Rightarrow> (AtEnd None, r'))"
| "worker_step w now sb (AtEnd x) r = (AtEnd x, r)"

fun worker_run :: "'r run_worker \<Rightarrow> (nat \<Rightarrow> datetime) \<Rightarrow> submitted_run \<Rightarrow> nat \<Rightarrow> worker_pc \<times> 'r \<Rightarrow> worker_pc \<times> 'r" where
  "worker_run w ts sb 0 s = s"
| "worker_run w ts sb (Suc k) s = worker_run w (\<lambda>j. ts (Suc j)) sb k (case s of (pc, r) \<Rightarrow> worker_step w (ts 0) sb pc r)"

lemma worker_run_end [simp]: "worker_run w ts sb k (AtEnd x, r) = (AtEnd x, r)"
  by (induction k arbitrary: ts) simp_all

text \<open>A worker that is not interrupted ends after four steps, as \<open>execute\<close> does.\<close>

lemma worker_run_execute:
  "worker_run w ts sb 4 (AtStart, r) = (case worker_execute w ts sb r of (x, r') \<Rightarrow> (AtEnd x, r'))"
  by (auto simp: worker_execute_def Let_def eval_nat_numeral split: sum.splits prod.splits)

section \<open>The pool\<close>

text \<open>A task waits for the semaphore, holds it while its thread works, and ends; the callback then takes it off the table of
  tasks in flight. \<open>tk_pc\<close> is the thread, \<open>None\<close> as long as there is none.\<close>

datatype task_phase = Waiting | Holding | Ended

record pool_task =
  tk_run :: submitted_run
  tk_phase :: task_phase
  tk_pc :: "worker_pc option"
  tk_called_back :: bool

record 'r run_pool =
  pl_max_concurrent_runs :: nat
  pl_inflight :: "(string, nat) dict"
  pl_tasks :: "pool_task list"
  pl_repo :: 'r

definition default_max_concurrent_runs :: nat where
  "default_max_concurrent_runs = 4"

definition new_pool :: "int \<Rightarrow> 'r \<Rightarrow> (exn, 'r run_pool) result" where
  "new_pool m r =
     (if m < 1 then Inl (PyError ''ValueError'')
      else Inr \<lparr>pl_max_concurrent_runs = nat m, pl_inflight = [], pl_tasks = [], pl_repo = r\<rparr>)"

definition inflight_count :: "'r run_pool \<Rightarrow> nat" where
  "inflight_count p = length (pl_inflight p)"

definition pool_submit :: "submitted_run \<Rightarrow> 'r run_pool \<Rightarrow> (exn, nat) result \<times> 'r run_pool" where
  "pool_submit sb p =
     (if dict_has (pl_inflight p) (sb_run_id sb) then (Inl (PyError ''RuntimeError''), p)
      else let n = length (pl_tasks p)
           in (Inr n, p\<lparr>pl_tasks := pl_tasks p @ [\<lparr>tk_run = sb, tk_phase = Waiting, tk_pc = None, tk_called_back = False\<rparr>],
                        pl_inflight := dict_set (sb_run_id sb) n (pl_inflight p)\<rparr>))"

definition holders :: "'r run_pool \<Rightarrow> nat" where
  "holders p = length (filter (\<lambda>t. tk_phase t = Holding) (pl_tasks p))"

text \<open>\<open>_run\<close>: taking the semaphore and handing the worker to a thread, and returning when the thread has ended.\<close>

definition pool_acquire :: "nat \<Rightarrow> 'r run_pool \<Rightarrow> 'r run_pool" where
  "pool_acquire n p = p\<lparr>pl_tasks := (pl_tasks p)[n := (pl_tasks p ! n)\<lparr>tk_phase := Holding, tk_pc := Some AtStart\<rparr>]\<rparr>"

definition pool_finish :: "nat \<Rightarrow> 'r run_pool \<Rightarrow> 'r run_pool" where
  "pool_finish n p = p\<lparr>pl_tasks := (pl_tasks p)[n := (pl_tasks p ! n)\<lparr>tk_phase := Ended\<rparr>]\<rparr>"

text \<open>The callback removes whatever task is registered under the run.\<close>

definition pool_on_done :: "nat \<Rightarrow> 'r run_pool \<Rightarrow> 'r run_pool" where
  "pool_on_done n p =
     p\<lparr>pl_tasks := (pl_tasks p)[n := (pl_tasks p ! n)\<lparr>tk_called_back := True\<rparr>],
       pl_inflight := dict_del (sb_run_id (tk_run (pl_tasks p ! n))) (pl_inflight p)\<rparr>"

text \<open>\<open>cancel_run\<close>: the task ends at once and gives the semaphore back. A thread that has not started yet may be dropped
  (\<open>dropped\<close>); one that has started goes on.\<close>

definition pool_cancel_run :: "bool \<Rightarrow> string \<Rightarrow> 'r run_pool \<Rightarrow> bool \<times> 'r run_pool" where
  "pool_cancel_run dropped run_id p =
     (case dict_get (pl_inflight p) run_id of
        None \<Rightarrow> (False, p)
      | Some n \<Rightarrow>
          let t = pl_tasks p ! n; p1 = p\<lparr>pl_inflight := dict_del run_id (pl_inflight p)\<rparr>
          in if tk_phase t = Ended then (True, p1)
             else (True, p1\<lparr>pl_tasks := (pl_tasks p)[n := t\<lparr>tk_phase := Ended, tk_pc := (if dropped \<and> tk_pc t = Some AtStart then None else tk_pc t)\<rparr>]\<rparr>))"

definition pool_work :: "'r run_worker \<Rightarrow> datetime \<Rightarrow> nat \<Rightarrow> 'r run_pool \<Rightarrow> 'r run_pool" where
  "pool_work w now n p =
     (let t = pl_tasks p ! n
      in case tk_pc t of
           None \<Rightarrow> p
         | Some pc \<Rightarrow>
             let (pc', r') = worker_step w now (tk_run t) pc (pl_repo p)
             in p\<lparr>pl_tasks := (pl_tasks p)[n := t\<lparr>tk_pc := Some pc'\<rparr>], pl_repo := r'\<rparr>)"

section \<open>Interleavings\<close>

text \<open>One step of the system: the two calls with which the service records a new run, the call with which it records a
  cancellation (at any time, for any run), the pool's operations, and a step of a thread.\<close>

inductive run_step :: "'r run_worker \<Rightarrow> 'r run_pool \<Rightarrow> 'r run_pool \<Rightarrow> bool" for w where
  record_run: "new_run_record i config user t0 t1 = Inr rec \<Longrightarrow> run_step w p (p\<lparr>pl_repo := snd (rp_create (wk_repo w) rec (pl_repo p))\<rparr>)"
| queue_run: "run_step w p (p\<lparr>pl_repo := snd (rp_update_status (wk_repo w) now i Queued None (pl_repo p))\<rparr>)"
| record_cancelled: "run_step w p (p\<lparr>pl_repo := snd (rp_update_status (wk_repo w) now i Cancelled n (pl_repo p))\<rparr>)"
| submit: "run_step w p (snd (pool_submit sb p))"
| acquire: "n < length (pl_tasks p) \<Longrightarrow> tk_phase (pl_tasks p ! n) = Waiting \<Longrightarrow> holders p < pl_max_concurrent_runs p \<Longrightarrow> run_step w p (pool_acquire n p)"
| work: "n < length (pl_tasks p) \<Longrightarrow> run_step w p (pool_work w now n p)"
| finish: "n < length (pl_tasks p) \<Longrightarrow> tk_phase (pl_tasks p ! n) = Holding \<Longrightarrow> tk_pc (pl_tasks p ! n) = Some (AtEnd x) \<Longrightarrow> run_step w p (pool_finish n p)"
| on_done: "n < length (pl_tasks p) \<Longrightarrow> tk_phase (pl_tasks p ! n) = Ended \<Longrightarrow> \<not> tk_called_back (pl_tasks p ! n) \<Longrightarrow> run_step w p (pool_on_done n p)"
| cancel: "run_step w p (snd (pool_cancel_run dropped i p))"

inductive run_reach :: "'r run_worker \<Rightarrow> 'r run_pool \<Rightarrow> 'r run_pool \<Rightarrow> bool" for w p0 where
  start: "run_reach w p0 p0"
| step: "run_reach w p0 p \<Longrightarrow> run_step w p p' \<Longrightarrow> run_reach w p0 p'"


section \<open>What every interleaving keeps\<close>

fun past_start :: "worker_pc \<Rightarrow> bool" where
  "past_start AtStart = False"
| "past_start (AtEnd x) = False"
| "past_start pc = True"

text \<open>How the records may develop: a run that was started stays so, and a result is kept.\<close>

definition settled_le :: "(string \<rightharpoonup> research_run_record) \<Rightarrow> (string \<rightharpoonup> research_run_record) \<Rightarrow> bool" where
  "settled_le m m' \<longleftrightarrow> (\<forall>i rec. m i = Some rec \<longrightarrow> (\<exists>rec'. m' i = Some rec' \<and>
     (rr_status rec \<notin> {Pending, Queued} \<longrightarrow> rr_status rec' \<notin> {Pending, Queued}) \<and> (rr_result rec \<noteq> None \<longrightarrow> rr_result rec' \<noteq> None)))"

definition completed_ok :: "(string \<rightharpoonup> research_run_record) \<Rightarrow> bool" where
  "completed_ok m \<longleftrightarrow> (\<forall>i rec. m i = Some rec \<longrightarrow> rr_status rec = Completed \<longrightarrow> rr_result rec \<noteq> None)"

definition stands :: "(string \<rightharpoonup> research_run_record) \<Rightarrow> string \<Rightarrow> worker_pc \<Rightarrow> bool" where
  "stands m i pc \<longleftrightarrow> (\<exists>rec. m i = Some rec \<and> rr_status rec \<notin> {Pending, Queued} \<and> (pc = AtComplete \<longrightarrow> rr_result rec \<noteq> None))"

lemma settled_le_refl [simp]: "settled_le m m"
  by (auto simp: settled_le_def)

lemma stands_mono: "stands m i pc \<Longrightarrow> settled_le m m' \<Longrightarrow> stands m' i pc"
  unfolding stands_def settled_le_def by blast

context research_run_repository
begin

lemma update_le:
  assumes "invar r" "completed_ok (rp_get_by_id repo r)"
    "s \<noteq> Completed \<or> (\<exists>rec. rp_get_by_id repo r i = Some rec \<and> rr_result rec \<noteq> None)"
    "rp_update_status repo now i s n r = (res, r')"
  shows "invar r' \<and> settled_le (rp_get_by_id repo r) (rp_get_by_id repo r') \<and> completed_ok (rp_get_by_id repo r')"
  using assms(1,4)
proof (cases rule: update_cases)
  case (moved rec)
  then have "rr_status rec \<notin> {Pending, Queued} \<longrightarrow> s \<notin> {Pending, Queued}" by (cases "rr_status rec") (auto simp: validate_status_transition_def)
  with moved assms(2,3) show ?thesis by (auto simp: settled_le_def completed_ok_def)
qed (use assms in simp)

lemma save_le:
  assumes "invar r" "completed_ok (rp_get_by_id repo r)" "rp_save_result repo now i res r = (ans, r')"
  shows "invar r' \<and> settled_le (rp_get_by_id repo r) (rp_get_by_id repo r') \<and> completed_ok (rp_get_by_id repo r')"
  using assms(1,3) by (cases rule: save_cases) (use assms in \<open>auto simp: settled_le_def completed_ok_def\<close>)

lemma create_le:
  assumes "invar r" "completed_ok (rp_get_by_id repo r)" "rr_status rec \<noteq> Completed" "rp_create repo rec r = (ans, r')"
  shows "invar r' \<and> settled_le (rp_get_by_id repo r) (rp_get_by_id repo r') \<and> completed_ok (rp_get_by_id repo r')"
  using assms(1,4) by (cases rule: create_cases) (use assms in \<open>auto simp: settled_le_def completed_ok_def\<close>)

lemma worker_step_ok:
  assumes "invar r" "completed_ok (rp_get_by_id repo r)" "wk_repo w = repo" "past_start pc \<Longrightarrow> stands (rp_get_by_id repo r) (sb_run_id sb) pc"
    "worker_step w now sb pc r = (pc', r')"
  shows "invar r' \<and> settled_le (rp_get_by_id repo r) (rp_get_by_id repo r') \<and> completed_ok (rp_get_by_id repo r')"
    and "past_start pc' \<Longrightarrow> stands (rp_get_by_id repo r') (sb_run_id sb) pc'"
    and "past_start pc' \<Longrightarrow> \<not> past_start pc \<Longrightarrow> \<exists>rec. rp_get_by_id repo r (sb_run_id sb) = Some rec \<and> rr_status rec = Queued"
proof -
  let ?i = "sb_run_id sb"
  have "(invar r' \<and> settled_le (rp_get_by_id repo r) (rp_get_by_id repo r') \<and> completed_ok (rp_get_by_id repo r')) \<and>
    (past_start pc' \<longrightarrow> stands (rp_get_by_id repo r') ?i pc') \<and>
    (past_start pc' \<longrightarrow> \<not> past_start pc \<longrightarrow> (\<exists>rec. rp_get_by_id repo r ?i = Some rec \<and> rr_status rec = Queued))"
  proof (cases pc)
    case AtStart
    obtain ans q where u: "rp_update_status repo now ?i Running None r = (ans, q)" by force
    with assms(3,5) AtStart have q: "r' = q" "pc' = (case ans of Inl e \<Rightarrow> AtEnd (Some e) | Inr _ \<Rightarrow> AtWork)" by (auto split: sum.splits)
    from assms(1) u have "past_start pc' \<Longrightarrow> stands (rp_get_by_id repo q) ?i AtWork \<and> (\<exists>rec. rp_get_by_id repo r ?i = Some rec \<and> rr_status rec = Queued)"
    proof (cases rule: update_cases)
      case (moved rec)
      then have "rr_status rec = Queued" by (cases "rr_status rec") (auto simp: validate_status_transition_def)
      with moved show ?thesis by (auto simp: stands_def)
    qed (use q in simp)
    then show ?thesis using update_le [OF assms(1,2) _ u] q AtStart by (auto split: sum.splits)
  next
    case AtWork
    with assms(3,5) have "r' = r" "pc' \<noteq> AtComplete" by (auto split: sum.splits if_splits)
    with assms(1,2,4) AtWork show ?thesis by (auto simp: stands_def)
  next
    case (AtFailure n x)
    obtain ans q where u: "rp_update_status repo now ?i Failed (Some n) r = (ans, q)" by force
    with assms(3,5) AtFailure update_le [OF assms(1,2) _ u] show ?thesis by (auto simp: worker_mark_failed_def)
  next
    case (AtSave res)
    obtain ans q where u: "rp_save_result repo now ?i res r = (ans, q)" by force
    with assms(3,5) AtSave have q: "r' = q" "pc' = (case ans of Inl e \<Rightarrow> AtEnd (Some e) | Inr _ \<Rightarrow> AtComplete)" by (auto split: sum.splits)
    from assms(4) AtSave have "stands (rp_get_by_id repo r) ?i pc" by simp
    with assms(1) u have "past_start pc' \<Longrightarrow> stands (rp_get_by_id repo q) ?i AtComplete"
      using q by (cases rule: save_cases) (auto simp: stands_def)
    then show ?thesis using save_le [OF assms(1,2) u] q AtSave by (auto split: sum.splits)
  next
    case AtComplete
    obtain ans q where u: "rp_update_status repo now ?i Completed None r = (ans, q)" by force
    with assms(3,5) AtComplete have q: "r' = q" "\<not> past_start pc'" by (auto split: sum.splits)
    have "\<exists>rec. rp_get_by_id repo r ?i = Some rec \<and> rr_result rec \<noteq> None" using assms(4) AtComplete by (auto simp: stands_def)
    with q update_le [OF assms(1,2) _ u] show ?thesis by auto
  qed (use assms in auto)
  then show "invar r' \<and> settled_le (rp_get_by_id repo r) (rp_get_by_id repo r') \<and> completed_ok (rp_get_by_id repo r')"
    "past_start pc' \<Longrightarrow> stands (rp_get_by_id repo r') ?i pc'"
    "past_start pc' \<Longrightarrow> \<not> past_start pc \<Longrightarrow> \<exists>rec. rp_get_by_id repo r ?i = Some rec \<and> rr_status rec = Queued" by blast+
qed

end


text \<open>The invariant of the system.\<close>

definition computing :: "'r run_pool \<Rightarrow> nat \<Rightarrow> bool" where
  "computing p n \<longleftrightarrow> n < length (pl_tasks p) \<and> (case tk_pc (pl_tasks p ! n) of None \<Rightarrow> False | Some pc \<Rightarrow> past_start pc)"

lemma computing_iff: "computing p n \<longleftrightarrow> n < length (pl_tasks p) \<and> (\<exists>pc. tk_pc (pl_tasks p ! n) = Some pc \<and> past_start pc)"
  by (auto simp: computing_def split: option.splits)

definition run_of :: "'r run_pool \<Rightarrow> nat \<Rightarrow> string" where
  "run_of p n = sb_run_id (tk_run (pl_tasks p ! n))"

definition workers_ok :: "(string \<rightharpoonup> research_run_record) \<Rightarrow> 'r run_pool \<Rightarrow> bool" where
  "workers_ok m p \<longleftrightarrow> (\<forall>n. computing p n \<longrightarrow> stands m (run_of p n) (the (tk_pc (pl_tasks p ! n)))) \<and>
     (\<forall>k n. computing p k \<longrightarrow> computing p n \<longrightarrow> run_of p k = run_of p n \<longrightarrow> k = n)"

lemma workers_ok_mono: "workers_ok m p \<Longrightarrow> settled_le m m' \<Longrightarrow> workers_ok m' p"
  by (auto simp: workers_ok_def intro: stands_mono)

text \<open>A change of the tasks that lets no further worker pass its start keeps the invariant.\<close>

lemma workers_ok_fewer:
  assumes "workers_ok m p"
    "\<And>n. computing p' n \<Longrightarrow> computing p n \<and> tk_pc (pl_tasks p' ! n) = tk_pc (pl_tasks p ! n) \<and> run_of p' n = run_of p n"
  shows "workers_ok m p'"
  using assms unfolding workers_ok_def by metis

lemma filter_update_le:
  assumes "n < length xs"
  shows "length (filter P (xs[n := x])) \<le> length (filter P xs) + (if P x \<and> \<not> P (xs ! n) then 1 else 0)"
proof -
  have "filter P (xs[n := x]) = filter P (take n xs) @ filter P [x] @ filter P (drop (Suc n) xs)"
    using assms by (simp add: upd_conv_take_nth_drop)
  moreover have "filter P xs = filter P (take n xs) @ filter P [xs ! n] @ filter P (drop (Suc n) xs)"
    using assms by (metis append_Cons append_Nil filter_append id_take_nth_drop)
  ultimately show ?thesis by simp
qed

context research_run_repository
begin

definition pool_inv :: "'r run_pool \<Rightarrow> bool" where
  "pool_inv p \<longleftrightarrow> invar (pl_repo p) \<and> completed_ok (rp_get_by_id repo (pl_repo p)) \<and> workers_ok (rp_get_by_id repo (pl_repo p)) p \<and>
     holders p \<le> pl_max_concurrent_runs p \<and> (\<forall>i n. dict_get (pl_inflight p) i = Some n \<longrightarrow> n < length (pl_tasks p))"

lemma pool_inv_repo:
  assumes "pool_inv p" "invar r \<and> settled_le (rp_get_by_id repo (pl_repo p)) (rp_get_by_id repo r) \<and> completed_ok (rp_get_by_id repo r)"
  shows "pool_inv (p\<lparr>pl_repo := r\<rparr>)"
proof -
  have "workers_ok (rp_get_by_id repo r) p" using assms by (auto simp: pool_inv_def intro: workers_ok_mono)
  then have "workers_ok (rp_get_by_id repo r) (p\<lparr>pl_repo := r\<rparr>)" by (rule workers_ok_fewer) (auto simp: computing_def run_of_def)
  with assms show ?thesis by (simp add: pool_inv_def holders_def)
qed

lemma pool_inv_work:
  assumes "pool_inv p" "n < length (pl_tasks p)" "wk_repo w = repo"
  shows "pool_inv (pool_work w now n p)"
proof (cases "tk_pc (pl_tasks p ! n)")
  case None
  then show ?thesis using assms(1) by (simp add: pool_work_def Let_def)
next
  case (Some pc)
  let ?t = "pl_tasks p ! n" and ?get = "rp_get_by_id repo"
  obtain pc' r' where step: "worker_step w now (tk_run ?t) pc (pl_repo p) = (pc', r')" by force
  let ?p = "p\<lparr>pl_tasks := (pl_tasks p)[n := ?t\<lparr>tk_pc := Some pc'\<rparr>], pl_repo := r'\<rparr>"
  have p: "pool_work w now n p = ?p" using Some step by (simp add: pool_work_def Let_def)
  have ok: "workers_ok (?get (pl_repo p)) p" and stands: "past_start pc \<Longrightarrow> stands (?get (pl_repo p)) (sb_run_id (tk_run ?t)) pc"
    using assms(1,2) Some by (auto simp: pool_inv_def workers_ok_def computing_def run_of_def split: option.splits)
  have inv: "invar (pl_repo p)" "completed_ok (?get (pl_repo p))" using assms(1) by (simp_all add: pool_inv_def)
  have le: "invar r'" "settled_le (?get (pl_repo p)) (?get r')" "completed_ok (?get r')"
    and after: "past_start pc' \<Longrightarrow> stands (?get r') (sb_run_id (tk_run ?t)) pc'"
    and fresh: "past_start pc' \<Longrightarrow> \<not> past_start pc \<Longrightarrow> \<exists>rec. ?get (pl_repo p) (sb_run_id (tk_run ?t)) = Some rec \<and> rr_status rec = Queued"
    using worker_step_ok [OF inv assms(3) _ step] stands by blast+
  have same: "computing ?p k \<longleftrightarrow> computing p k" "run_of ?p k = run_of p k" "pl_tasks ?p ! k = pl_tasks p ! k" if "k \<noteq> n" for k
    using that by (simp_all add: computing_def run_of_def)
  have here: "computing ?p n \<longleftrightarrow> past_start pc'" "run_of ?p n = run_of p n" "tk_pc (pl_tasks ?p ! n) = Some pc'" using assms(2) by (simp_all add: computing_def run_of_def)
  have alone: "run_of p k \<noteq> run_of p n" if "computing p k" "k \<noteq> n" "past_start pc'" for k
  proof (cases "past_start pc")
    case True
    then have "computing p n" using Some assms(2) by (simp add: computing_def)
    with ok that show ?thesis by (auto simp: workers_ok_def)
  next
    case False
    from fresh [OF that(3) this] obtain rec where "?get (pl_repo p) (run_of p n) = Some rec" "rr_status rec = Queued" by (auto simp: run_of_def)
    moreover have "stands (?get (pl_repo p)) (run_of p k) (the (tk_pc (pl_tasks p ! k)))" using ok that(1) by (auto simp: workers_ok_def)
    ultimately show ?thesis by (auto simp: stands_def)
  qed
  have "workers_ok (?get r') ?p"
    unfolding workers_ok_def
  proof (intro conjI allI impI)
    fix k assume k: "computing ?p k"
    show "stands (?get r') (run_of ?p k) (the (tk_pc (pl_tasks ?p ! k)))"
    proof (cases "k = n")
      case True
      with k here after show ?thesis by (auto simp: run_of_def)
    next
      case False
      with k same ok have "stands (?get (pl_repo p)) (run_of p k) (the (tk_pc (pl_tasks p ! k)))" by (simp add: workers_ok_def)
      from stands_mono [OF this le(2)] same [OF False] show ?thesis by simp
    qed
  next
    fix k j assume kj: "computing ?p k" "computing ?p j" "run_of ?p k = run_of ?p j"
    show "k = j"
    proof (cases "k = n \<or> j = n")
      case True
      with kj here alone [of k] alone [of j] same show ?thesis by metis
    next
      case False
      with kj same ok show ?thesis by (auto simp: workers_ok_def)
    qed
  qed
  moreover have "holders ?p \<le> pl_max_concurrent_runs ?p"
    using filter_update_le [OF assms(2), of "\<lambda>t. tk_phase t = Holding" "?t\<lparr>tk_pc := Some pc'\<rparr>"] assms(1) by (simp add: pool_inv_def holders_def)
  ultimately show ?thesis using le assms(1) by (simp add: p pool_inv_def)
qed

lemma pool_inv_task:
  assumes "pool_inv p" "n < length (pl_tasks p)" "p' = p\<lparr>pl_tasks := (pl_tasks p)[n := t], pl_inflight := d\<rparr>"
    "tk_run t = tk_run (pl_tasks p ! n)" "tk_pc t = tk_pc (pl_tasks p ! n) \<or> tk_pc t = Some AtStart \<or> tk_pc t = None"
    "tk_phase t = Holding \<Longrightarrow> tk_phase (pl_tasks p ! n) \<noteq> Holding \<Longrightarrow> holders p < pl_max_concurrent_runs p"
    "\<And>i k. dict_get d i = Some k \<Longrightarrow> k < length (pl_tasks p)"
  shows "pool_inv p'"
proof -
  have "workers_ok (rp_get_by_id repo (pl_repo p)) p'"
    by (rule workers_ok_fewer [of _ p])
      (use assms in \<open>auto simp: pool_inv_def computing_iff run_of_def nth_list_update split: if_splits\<close>)
  moreover have "holders p' \<le> pl_max_concurrent_runs p'"
    using filter_update_le [OF assms(2), of "\<lambda>t. tk_phase t = Holding" t] assms(1,3,6) by (auto simp: pool_inv_def holders_def split: if_splits)
  ultimately show ?thesis using assms(1,3,7) by (auto simp: pool_inv_def)
qed

lemma pool_inv_submit: "pool_inv p \<Longrightarrow> pool_inv (snd (pool_submit sb p))"
proof -
  assume p: "pool_inv p"
  let ?p = "snd (pool_submit sb p)"
  have "workers_ok (rp_get_by_id repo (pl_repo p)) ?p"
    by (rule workers_ok_fewer [of _ p])
      (use p in \<open>auto simp: pool_inv_def pool_submit_def Let_def computing_def run_of_def nth_append split: if_splits option.splits\<close>)
  with p show ?thesis by (auto simp: pool_inv_def pool_submit_def Let_def holders_def dest: less_SucI)
qed

lemma pool_inv_step:
  assumes "run_step w p p'" "wk_repo w = repo" "pool_inv p"
  shows "pool_inv p'"
  using assms(1)
proof cases
  case (record_run i config user t0 t1 rec)
  obtain ans r where c: "rp_create repo rec (pl_repo p) = (ans, r)" by force
  moreover have "rr_status rec \<noteq> Completed" using record_run(2) by (auto simp: new_run_record_def split: if_splits)
  ultimately show ?thesis
    using pool_inv_repo [OF assms(3)] create_le [of "pl_repo p" rec ans r] assms(2,3) by (simp add: record_run(1) pool_inv_def)
next
  case (queue_run now i)
  obtain ans r where c: "rp_update_status repo now i Queued None (pl_repo p) = (ans, r)" by force
  then show ?thesis
    using pool_inv_repo [OF assms(3)] update_le [OF _ _ _ c] assms(2,3) by (simp add: queue_run pool_inv_def)
next
  case (record_cancelled now i n)
  obtain ans r where c: "rp_update_status repo now i Cancelled n (pl_repo p) = (ans, r)" by force
  then show ?thesis
    using pool_inv_repo [OF assms(3)] update_le [OF _ _ _ c] assms(2,3) by (simp add: record_cancelled pool_inv_def)
next
  case (submit sb)
  then show ?thesis using pool_inv_submit [OF assms(3)] by simp
next
  case (acquire n)
  show ?thesis
    by (rule pool_inv_task [OF assms(3) acquire(2), where t = "(pl_tasks p ! n)\<lparr>tk_phase := Holding, tk_pc := Some AtStart\<rparr>" and d = "pl_inflight p"])
      (use acquire assms(3) in \<open>auto simp: pool_acquire_def pool_inv_def\<close>)
next
  case (work n now)
  then show ?thesis using pool_inv_work [OF assms(3) _ assms(2)] by simp
next
  case (finish n x)
  show ?thesis
    by (rule pool_inv_task [OF assms(3) finish(2), where t = "(pl_tasks p ! n)\<lparr>tk_phase := Ended\<rparr>" and d = "pl_inflight p"])
      (use finish assms(3) in \<open>auto simp: pool_finish_def pool_inv_def\<close>)
next
  case (on_done n)
  show ?thesis
    by (rule pool_inv_task [OF assms(3) on_done(2), where t = "(pl_tasks p ! n)\<lparr>tk_called_back := True\<rparr>" and d = "dict_del (sb_run_id (tk_run (pl_tasks p ! n))) (pl_inflight p)"])
      (use on_done assms(3) in \<open>auto simp: pool_on_done_def pool_inv_def split: if_splits\<close>)
next
  case (cancel dropped i)
  show ?thesis
  proof (cases "dict_get (pl_inflight p) i")
    case None
    then show ?thesis using assms(3) by (simp add: cancel pool_cancel_run_def)
  next
    case (Some n)
    then have n: "n < length (pl_tasks p)" using assms(3) by (simp add: pool_inv_def)
    let ?t = "pl_tasks p ! n"
    let ?u = "if tk_phase ?t = Ended then ?t else ?t\<lparr>tk_phase := Ended, tk_pc := (if dropped \<and> tk_pc ?t = Some AtStart then None else tk_pc ?t)\<rparr>"
    show ?thesis
      by (rule pool_inv_task [OF assms(3) n, where t = ?u and d = "dict_del i (pl_inflight p)"])
        (use Some assms(3) in \<open>auto simp: cancel pool_cancel_run_def pool_inv_def Let_def split: if_splits\<close>)
  qed
qed

lemma pool_inv_reach:
  assumes "run_reach w p0 p" "wk_repo w = repo" "pool_inv p0"
  shows "pool_inv p"
  using assms(1)
proof induction
  case start
  show ?case by (rule assms(3))
next
  case (step p p')
  show ?case by (rule pool_inv_step [OF step.hyps(2) assms(2) step.IH])
qed

end


context research_run_repository
begin

text \<open>A step changes neither the bound nor the runs of the tasks, and a worker passes its start only if its run was queued.\<close>

lemma step_frame:
  assumes "run_step w p p'" "wk_repo w = repo" "pool_inv p"
  shows "settled_le (rp_get_by_id repo (pl_repo p)) (rp_get_by_id repo (pl_repo p')) \<and> pl_max_concurrent_runs p' = pl_max_concurrent_runs p \<and>
    length (pl_tasks p) \<le> length (pl_tasks p') \<and> (\<forall>k < length (pl_tasks p). run_of p' k = run_of p k) \<and>
    (\<forall>k. computing p' k \<longrightarrow> computing p k \<or> (\<exists>rec. rp_get_by_id repo (pl_repo p) (run_of p' k) = Some rec \<and> rr_status rec = Queued))"
  using assms(1)
proof cases
  case (record_run i config user t0 t1 rec)
  obtain ans r where c: "rp_create repo rec (pl_repo p) = (ans, r)" by force
  moreover have "rr_status rec \<noteq> Completed" using record_run(2) by (auto simp: new_run_record_def split: if_splits)
  ultimately show ?thesis
    using create_le [of "pl_repo p" rec ans r] assms(2,3) by (simp add: record_run(1) pool_inv_def computing_def run_of_def)
next
  case (queue_run now i)
  obtain ans r where c: "rp_update_status repo now i Queued None (pl_repo p) = (ans, r)" by force
  then show ?thesis using update_le [OF _ _ _ c] assms(2,3) by (simp add: queue_run pool_inv_def computing_def run_of_def)
next
  case (record_cancelled now i n)
  obtain ans r where c: "rp_update_status repo now i Cancelled n (pl_repo p) = (ans, r)" by force
  then show ?thesis using update_le [OF _ _ _ c] assms(2,3) by (simp add: record_cancelled pool_inv_def computing_def run_of_def)
next
  case (submit sb)
  then show ?thesis by (auto simp: pool_submit_def Let_def computing_iff run_of_def nth_append)
next
  case (acquire n)
  then show ?thesis by (auto simp: pool_acquire_def computing_iff run_of_def nth_list_update)
next
  case (work n now)
  show ?thesis
  proof (cases "tk_pc (pl_tasks p ! n)")
    case None
    with work show ?thesis by (simp add: pool_work_def Let_def)
  next
    case (Some pc)
    let ?t = "pl_tasks p ! n"
    obtain pc' r' where step: "worker_step w now (tk_run ?t) pc (pl_repo p) = (pc', r')" by force
    have inv: "invar (pl_repo p)" "completed_ok (rp_get_by_id repo (pl_repo p))"
      and stands: "past_start pc \<Longrightarrow> stands (rp_get_by_id repo (pl_repo p)) (sb_run_id (tk_run ?t)) pc"
      using assms(3) work(2) Some by (auto simp: pool_inv_def workers_ok_def computing_iff run_of_def)
    from worker_step_ok [OF inv assms(2) _ step] stands
    have "settled_le (rp_get_by_id repo (pl_repo p)) (rp_get_by_id repo r')"
      "past_start pc' \<Longrightarrow> \<not> past_start pc \<Longrightarrow> \<exists>rec. rp_get_by_id repo (pl_repo p) (sb_run_id (tk_run ?t)) = Some rec \<and> rr_status rec = Queued" by blast+
    with work Some step show ?thesis by (auto simp: pool_work_def Let_def computing_iff run_of_def nth_list_update)
  qed
next
  case (finish n x)
  then show ?thesis by (auto simp: pool_finish_def computing_iff run_of_def nth_list_update)
next
  case (on_done n)
  then show ?thesis by (auto simp: pool_on_done_def computing_iff run_of_def nth_list_update)
next
  case (cancel dropped i)
  moreover have "\<And>n. dict_get (pl_inflight p) i = Some n \<Longrightarrow> n < length (pl_tasks p)" using assms(3) by (simp add: pool_inv_def)
  ultimately show ?thesis
    by (auto simp: pool_cancel_run_def Let_def computing_iff run_of_def nth_list_update split: option.splits if_splits)
qed

lemma reach_max:
  assumes "run_reach w p0 p" "wk_repo w = repo" "pool_inv p0"
  shows "pl_max_concurrent_runs p = pl_max_concurrent_runs p0"
  using assms(1)
proof induction
  case (step p p')
  with step_frame [OF step.hyps(2) assms(2) pool_inv_reach [OF step.hyps(1) assms(2,3)]] show ?case by simp
qed simp

lemma reach_once:
  assumes "run_reach w p p'" "wk_repo w = repo" "pool_inv p" "computing p n"
  shows "n < length (pl_tasks p') \<and> run_of p' n = run_of p n \<and>
    (\<exists>rec. rp_get_by_id repo (pl_repo p') (run_of p n) = Some rec \<and> rr_status rec \<notin> {Pending, Queued}) \<and>
    (\<forall>k. computing p' k \<longrightarrow> run_of p' k = run_of p n \<longrightarrow> k = n)"
  using assms(1)
proof induction
  case start
  have "stands (rp_get_by_id repo (pl_repo p)) (run_of p n) (the (tk_pc (pl_tasks p ! n)))"
    and "\<And>k. computing p k \<Longrightarrow> run_of p k = run_of p n \<Longrightarrow> k = n" using assms(3,4) by (auto simp: pool_inv_def workers_ok_def)
  then show ?case using assms(4) by (auto simp: stands_def computing_iff)
next
  case (step q q')
  note f = step_frame [OF step.hyps(2) assms(2) pool_inv_reach [OF step.hyps(1) assms(2,3)]]
  from step.IH obtain rec where rec: "rp_get_by_id repo (pl_repo q) (run_of p n) = Some rec" "rr_status rec \<notin> {Pending, Queued}" by blast
  from f rec obtain rec' where "rp_get_by_id repo (pl_repo q') (run_of p n) = Some rec'" "rr_status rec' \<notin> {Pending, Queued}"
    unfolding settled_le_def by blast
  moreover have "k = n" if k: "computing q' k" "run_of q' k = run_of p n" for k
  proof -
    from f k rec have "computing q k" by fastforce
    moreover from this f k(2) have "run_of q k = run_of p n" by (simp add: computing_iff)
    ultimately show ?thesis using step.IH by blast
  qed
  ultimately show ?case using f step.IH by (auto intro: order.strict_trans2)
qed

lemma pool_safe:
  assumes "wk_repo w = repo" "invar r" "\<forall>i. rp_get_by_id repo r i = None" "new_pool m r = Inr p0" "run_reach w p0 p" "run_reach w p p'"
  shows "holders p \<le> nat m \<and> completed_ok (rp_get_by_id repo (pl_repo p)) \<and>
    (computing p n \<longrightarrow> computing p' k \<longrightarrow> run_of p n = run_of p' k \<longrightarrow> k = n)"
proof -
  have p0: "pool_inv p0" "pl_max_concurrent_runs p0 = nat m"
    using assms(2-4) by (auto simp: new_pool_def pool_inv_def completed_ok_def workers_ok_def computing_def holders_def split: if_splits)
  have "pool_inv p" by (rule pool_inv_reach [OF assms(5,1) p0(1)])
  moreover have "pl_max_concurrent_runs p = nat m" using reach_max [OF assms(5,1) p0(1)] p0(2) by simp
  ultimately show ?thesis using reach_once [OF assms(6,1), of n] by (auto simp: pool_inv_def)
qed

end

text \<open>
  C20. Whatever the interleaving of requests, cancellations, tasks and worker threads, for every repository that keeps its contract:
  at most the configured number of tasks hold the semaphore, every run is executed by at most one worker ever (two workers
  that are past their start, at the same time or at different times, are the same if they work on the same run), and a run that
  is completed has its result.
\<close>

theorem run_executed_once:
  assumes "research_run_repository (wk_repo w) invar" "invar r" "\<forall>i. rp_get_by_id (wk_repo w) r i = None" "new_pool m r = Inr p0"
    "run_reach w p0 p" "run_reach w p p'"
  shows "holders p \<le> nat m \<and> (computing p n \<longrightarrow> computing p' k \<longrightarrow> run_of p n = run_of p' k \<longrightarrow> k = n) \<and>
    (rp_get_by_id (wk_repo w) (pl_repo p) i = Some rec \<longrightarrow> rr_status rec = Completed \<longrightarrow> rr_result rec \<noteq> None)"
  using research_run_repository.pool_safe [OF assms(1) refl assms(2-6), of n k] by (auto simp: completed_ok_def)


section \<open>Aborting a task does not stop its worker\<close>

definition demo_worker :: "mock_runs run_worker" where
  "demo_worker = \<lparr>wk_repo = mock_run_repo, wk_executor = (\<lambda>rq. Inr demo_result), wk_ir_loader = (\<lambda>s. Inr (JObj []))\<rparr>"

definition demo_submission :: "string \<Rightarrow> submitted_run" where
  "demo_submission i = \<lparr>sb_run_id = i, sb_strategy_id = ''s'', sb_plan = demo_plan, sb_dataset = demo_dataset\<rparr>"

definition demo_new_record :: "string \<Rightarrow> research_run_record" where
  "demo_new_record i = \<lparr>rr_id = i, rr_config = rr_config (demo_record Pending), rr_status = Pending, rr_result = None, rr_error_message = None,
     rr_created_by = ''u'', rr_created_at = 0, rr_updated_at = 0, rr_started_at = None, rr_completed_at = None\<rparr>"

definition demo_pool :: "mock_runs run_pool" where
  "demo_pool = \<lparr>pl_max_concurrent_runs = 1, pl_inflight = [], pl_tasks = [], pl_repo = []\<rparr>"

text \<open>A run is recorded, queued and handed to the pool; its task takes the semaphore and its thread starts.\<close>

definition demo_recorded :: "string \<Rightarrow> mock_runs run_pool \<Rightarrow> mock_runs run_pool" where
  "demo_recorded i p = p\<lparr>pl_repo := snd (mr_create (demo_new_record i) (pl_repo p))\<rparr>"

definition demo_queued :: "string \<Rightarrow> mock_runs run_pool \<Rightarrow> mock_runs run_pool" where
  "demo_queued i p = p\<lparr>pl_repo := snd (mr_update_status 1 i Queued None (pl_repo p))\<rparr>"

definition demo_launch :: "string \<Rightarrow> nat \<Rightarrow> mock_runs run_pool \<Rightarrow> mock_runs run_pool" where
  "demo_launch i n p = pool_work demo_worker 2 n (pool_acquire n (snd (pool_submit (demo_submission i) (demo_queued i (demo_recorded i p)))))"

lemma demo_launch_reach:
  assumes "run_reach demo_worker p0 p" "n = length (pl_tasks p)" "dict_get (pl_inflight p) i = None" "i \<noteq> []" "holders p < pl_max_concurrent_runs p"
  shows "run_reach demo_worker p0 (demo_launch i n p)"
proof -
  let ?q = "demo_queued i (demo_recorded i p)"
  have "new_run_record i (rr_config (demo_record Pending)) ''u'' 0 0 = Inr (demo_new_record i)"
    using assms(4) by (simp add: new_run_record_def demo_new_record_def)
  from run_reach.step [OF assms(1) run_step.record_run [OF this]] have "run_reach demo_worker p0 (demo_recorded i p)"
    by (simp add: demo_recorded_def demo_worker_def mock_run_repo_def)
  from run_reach.step [OF this run_step.queue_run [of _ _ 1 i]] have "run_reach demo_worker p0 ?q"
    by (simp add: demo_queued_def demo_worker_def mock_run_repo_def)
  from run_reach.step [OF this run_step.submit] have r: "run_reach demo_worker p0 (snd (pool_submit (demo_submission i) ?q))" .
  have "pl_tasks (snd (pool_submit (demo_submission i) ?q)) = pl_tasks p @ [\<lparr>tk_run = demo_submission i, tk_phase = Waiting, tk_pc = None, tk_called_back = False\<rparr>]"
    "pl_max_concurrent_runs (snd (pool_submit (demo_submission i) ?q)) = pl_max_concurrent_runs p"
    using assms(3) by (simp_all add: pool_submit_def demo_queued_def demo_recorded_def demo_submission_def dict_has_def Let_def)
  then have "run_step demo_worker (snd (pool_submit (demo_submission i) ?q)) (pool_acquire n (snd (pool_submit (demo_submission i) ?q)))"
    using assms(2,5) by (intro run_step.acquire) (simp_all add: holders_def)
  from run_reach.step [OF r this] have "run_reach demo_worker p0 (pool_acquire n (snd (pool_submit (demo_submission i) ?q)))" .
  from run_reach.step [OF this run_step.work [of n _ _ 2]] show ?thesis
    using assms(2,3) by (simp add: demo_launch_def pool_acquire_def pool_submit_def demo_queued_def demo_recorded_def demo_submission_def dict_has_def Let_def)
qed

text \<open>The first run is aborted, the second is launched, the cancellation is recorded, and the first worker goes on and saves its result.\<close>

definition demo_aborted :: "mock_runs run_pool" where
  "demo_aborted = demo_launch ''b'' 1 (snd (pool_cancel_run False ''a'' (demo_launch ''a'' 0 demo_pool)))"

definition demo_late :: "mock_runs run_pool" where
  "demo_late = pool_work demo_worker 5 0 (pool_work demo_worker 4 0
     (demo_aborted\<lparr>pl_repo := snd (mr_update_status 3 ''a'' Cancelled (Some UserRequested) (pl_repo demo_aborted))\<rparr>))"

lemmas demo_pool_defs = demo_pool_def demo_launch_def demo_queued_def demo_recorded_def demo_aborted_def demo_late_def demo_worker_def
  demo_submission_def demo_new_record_def pool_submit_def pool_acquire_def pool_cancel_run_def pool_work_def mock_run_repo_def mr_create_def
  mr_update_status_def mr_save_result_def validate_status_transition_def dict_has_def Let_def holders_def computing_def run_of_def

lemma demo_run_request: "\<exists>rq. run_request now i demo_plan demo_dataset (JObj []) = Inr rq"
  by (cases "select_replay_window now demo_plan") (simp add: run_request_def extract_primary_timeframe_def py_get_def)

lemma demo_aborted_reach: "run_reach demo_worker demo_pool demo_aborted"
proof -
  have "run_reach demo_worker demo_pool (demo_launch ''a'' 0 demo_pool)"
    by (rule demo_launch_reach [OF run_reach.start]) (simp_all add: demo_pool_def holders_def)
  from run_reach.step [OF this run_step.cancel]
  have "run_reach demo_worker demo_pool (snd (pool_cancel_run False ''a'' (demo_launch ''a'' 0 demo_pool)))" .
  then show ?thesis unfolding demo_aborted_def by (rule demo_launch_reach) (simp_all add: demo_pool_defs)
qed

lemma demo_late_from:
  assumes "run_reach demo_worker p demo_aborted"
  shows "run_reach demo_worker p demo_late"
proof -
  have n: "0 < length (pl_tasks demo_aborted)" by (simp add: demo_pool_defs)
  from run_reach.step [OF assms run_step.record_cancelled [of _ _ 3 "''a''" "Some UserRequested"]]
  have "run_reach demo_worker p (demo_aborted\<lparr>pl_repo := snd (mr_update_status 3 ''a'' Cancelled (Some UserRequested) (pl_repo demo_aborted))\<rparr>)"
    by (simp add: demo_worker_def mock_run_repo_def)
  from run_reach.step [OF this run_step.work [of 0 _ _ 4]] n
  have "run_reach demo_worker p (pool_work demo_worker 4 0 (demo_aborted\<lparr>pl_repo := snd (mr_update_status 3 ''a'' Cancelled (Some UserRequested) (pl_repo demo_aborted))\<rparr>))"
    by simp
  from run_reach.step [OF this run_step.work [of 0 _ _ 5]] n show ?thesis
    unfolding demo_late_def by (simp add: pool_work_def Let_def split: option.splits prod.splits)
qed

text \<open>
  Aborting a task does not stop its worker: in a pool for one run, after the first run was aborted and its cancellation
  recorded, the worker of that run still computes beside that of the second run, so that two workers compute although the
  pool admits one, and it saves the result of the run that is already cancelled.
\<close>

theorem aborted_worker_goes_on:
  "\<exists>p p' rec. new_pool 1 [] = Inr p \<and> run_reach demo_worker p p' \<and> computing p' 0 \<and> computing p' 1 \<and> pl_max_concurrent_runs p' = 1 \<and>
     rp_get_by_id mock_run_repo (pl_repo p') ''a'' = Some rec \<and> rr_status rec = Cancelled \<and> rr_result rec \<noteq> None"
proof -
  obtain rq where rq: "run_request 4 ''a'' demo_plan demo_dataset (JObj []) = Inr rq" using demo_run_request by blast
  have "new_pool 1 [] = Inr demo_pool" by (simp add: new_pool_def demo_pool_def)
  moreover have "computing demo_late 0 \<and> computing demo_late 1 \<and> pl_max_concurrent_runs demo_late = 1" by (simp add: demo_pool_defs rq)
  moreover have "\<exists>rec. rp_get_by_id mock_run_repo (pl_repo demo_late) ''a'' = Some rec \<and> rr_status rec = Cancelled \<and> rr_result rec \<noteq> None"
    by (simp add: demo_pool_defs rq)
  ultimately show ?thesis using demo_late_from [OF demo_aborted_reach] by blast
qed

theorem run_executed_once_witness:
  "holders demo_aborted \<le> 1 \<and> computing demo_aborted 1 \<and> computing demo_late 0 \<and> run_of demo_aborted 1 \<noteq> run_of demo_late 0"
proof -
  have r: "research_run_repository (wk_repo demo_worker) mock_runs_ok" by (simp add: demo_worker_def mock_runs.research_run_repository_axioms)
  have e: "mock_runs_ok []" "\<forall>i. rp_get_by_id (wk_repo demo_worker) [] i = None" "new_pool 1 [] = Inr demo_pool"
    by (simp_all add: mock_runs_ok_def dict_ok_def demo_worker_def mock_run_repo_def new_pool_def demo_pool_def)
  have "run_reach demo_worker demo_aborted demo_late" by (rule demo_late_from) (rule run_reach.start)
  moreover obtain rq where "run_request 4 ''a'' demo_plan demo_dataset (JObj []) = Inr rq" using demo_run_request by blast
  then have "computing demo_aborted 1" "computing demo_late 0" by (simp_all add: demo_pool_defs)
  ultimately show ?thesis using run_executed_once [OF r e demo_aborted_reach, of demo_late 1 0] by auto
qed

end
