(* ===== verification/Synthetic_Market.thy ===== *)
theory Synthetic_Market
  imports Backtest_Broker Strategy_Risk
begin

text \<open>
  The synthetic market data of a backtest, \<open>libs/strategy_ir/synthetic_market_data_provider.py\<close>: validation of the request, alignment
  of the window, the seed of the generator, and the random walk that becomes candles. The random
  generator and the elementary functions of the array library are arguments.
\<close>

unbundle bit_operations_syntax

section \<open>Tables\<close>

definition supported_symbols :: "string list" where
  "supported_symbols = [''EURUSD'', ''GBPUSD'', ''USDJPY'', ''USDCHF'', ''AUDUSD'', ''USDCAD'', ''NZDUSD'']"

definition pip_sizes :: "(string, decimal) dict" where
  "pip_sizes = [(''EURUSD'', 1 / 10000), (''GBPUSD'', 1 / 10000), (''USDJPY'', 1 / 100), (''USDCHF'', 1 / 10000),
     (''AUDUSD'', 1 / 10000), (''USDCAD'', 1 / 10000), (''NZDUSD'', 1 / 10000)]"

definition synthetic_spread_pips :: "(string, rat) dict" where
  "synthetic_spread_pips = [(''EURUSD'', 5 / 10), (''GBPUSD'', 5 / 10), (''USDJPY'', 6 / 10), (''USDCHF'', 5 / 10),
     (''AUDUSD'', 5 / 10), (''USDCAD'', 5 / 10), (''NZDUSD'', 5 / 10)]"

definition timeframe_table :: "(string, int \<times> candle_interval) dict" where
  "timeframe_table = [(''M15'', 900, M15), (''15m'', 900, M15), (''H1'', 3600, H1), (''1h'', 3600, H1), (''H4'', 14400, H4), (''4h'', 14400, H4),
     (''D'', 86400, D1), (''D1'', 86400, D1), (''1d'', 86400, D1)]"

record walk_params =
  wp_start_price :: py_float
  wp_drift :: py_float
  wp_vol :: py_float

definition walk_literals :: "rat \<Rightarrow> rat \<Rightarrow> rat \<Rightarrow> walk_params" where
  "walk_literals p d v = \<lparr>wp_start_price = round64 p, wp_drift = round64 d, wp_vol = round64 v\<rparr>"

definition default_symbol_params :: "(string, walk_params) dict" where
  "default_symbol_params =
     [(''EURUSD'', walk_literals (11 / 10) (2 / 100) (6 / 100)), (''GBPUSD'', walk_literals (127 / 100) (15 / 1000) (7 / 100)),
      (''USDJPY'', walk_literals 150 (1 / 100) (8 / 100)), (''USDCHF'', walk_literals (9 / 10) (- 1 / 100) (6 / 100)),
      (''AUDUSD'', walk_literals (66 / 100) (5 / 1000) (75 / 1000)), (''USDCAD'', walk_literals (135 / 100) (1 / 100) (55 / 1000)),
      (''NZDUSD'', walk_literals (61 / 100) 0 (7 / 100))]"

definition seconds_per_year :: int where
  "seconds_per_year = 31536000"

section \<open>The provider\<close>

record synthetic_provider =
  sp_seed :: int
  sp_params :: "(string, walk_params) dict"
  sp_fetch_log :: "(string \<times> string \<times> datetime \<times> datetime) list"

text \<open>An override names the three parameters of a symbol.\<close>

fun apply_overrides ::
  "(string \<times> (string, py_float) dict) list \<Rightarrow> (string, walk_params) dict \<Rightarrow> (exn, (string, walk_params) dict) result" where
  "apply_overrides [] params = Inr params"
| "apply_overrides ((s, ov) # ovs) params =
     (if s \<notin> set supported_symbols then Inl (PyError ''ValueError'')
      else case (dict_get ov ''start_price'', dict_get ov ''drift'', dict_get ov ''vol'') of
             (Some p, Some d, Some v) \<Rightarrow> apply_overrides ovs (dict_set s \<lparr>wp_start_price = p, wp_drift = d, wp_vol = v\<rparr> params)
           | _ \<Rightarrow> Inl (PyError ''ValueError''))"

definition new_provider :: "int \<Rightarrow> (string \<times> (string, py_float) dict) list \<Rightarrow> (exn, synthetic_provider) result" where
  "new_provider seed overrides =
     bind_r (apply_overrides overrides default_symbol_params) (\<lambda>params. Inr \<lparr>sp_seed = seed, sp_params = params, sp_fetch_log = []\<rparr>)"

definition supports :: "string \<Rightarrow> bool" where
  "supports symbol \<longleftrightarrow> symbol \<in> set supported_symbols"

definition get_pip_size :: "string \<Rightarrow> (exn, decimal) result" where
  "get_pip_size symbol = (case dict_get pip_sizes symbol of None \<Rightarrow> Inl (PyError ''ValueError'') | Some p \<Rightarrow> Inr p)"

definition provider_quotes :: market_data where
  "provider_quotes = \<lparr>md_supports = supports, md_get_pip_size = get_pip_size\<rparr>"

text \<open>\<open>timestamp()\<close> is a float of seconds, which \<open>int\<close> truncates.\<close>

definition align_down :: "datetime \<Rightarrow> int \<Rightarrow> int" where
  "align_down ts bar_seconds = (trunc (fl (of_int ts / 1000000)) div bar_seconds) * bar_seconds"

fun stable_fold :: "int \<Rightarrow> nat \<Rightarrow> string \<Rightarrow> int" where
  "stable_fold acc i [] = acc"
| "stable_fold acc i (c # cs) = stable_fold ((acc * 1315423911) XOR (int (of_char c) * (int i + 7))) (i + 1) cs"

definition stable_int :: "string \<Rightarrow> int" where
  "stable_int text = take_bit 64 (stable_fold 0 1 text)"

text \<open>The normal numbers of a generator that is seeded with the given entropy, four per bar; a refused seed raises.\<close>

type_synonym normals = "int list \<Rightarrow> nat \<Rightarrow> (exn, (py_float \<times> py_float \<times> py_float \<times> py_float) list) result"

record array_math =
  am_exp :: "py_float \<Rightarrow> py_float"
  am_sqrt :: "py_float \<Rightarrow> py_float"

text \<open>\<open>max\<close> and \<open>min\<close> keep the first of equal or incomparable arguments.\<close>

definition f_max :: "py_float \<Rightarrow> py_float \<Rightarrow> py_float" where
  "f_max x y = (if f_less x y then y else x)"

definition f_min :: "py_float \<Rightarrow> py_float \<Rightarrow> py_float" where
  "f_min x y = (if f_less y x then y else x)"

text \<open>Formatting with a fixed number of decimals rounds the exact value, half to even; what is not a number or infinite
  is refused by the candle's schema.\<close>

definition quantise :: "nat \<Rightarrow> py_float \<Rightarrow> (exn, decimal) result" where
  "quantise decimals v =
     (case (if f_less v (Num 0) then Num 0 else v) of
        Num x \<Rightarrow> Inr (of_int (round_half_even (x * 10 ^ decimals)) / 10 ^ decimals)
      | _ \<Rightarrow> Inl (PyError ''pydantic.ValidationError''))"

fun walk_closes :: "array_math \<Rightarrow> py_float \<Rightarrow> py_float list \<Rightarrow> py_float list" where
  "walk_closes am prev [] = []"
| "walk_closes am prev (r # rs) = (let c = f_mul prev (am_exp am r) in c # walk_closes am c rs)"

record bar_shape =
  bh_symbol :: string
  bh_interval :: candle_interval
  bh_seconds :: int
  bh_decimals :: nat
  bh_spread :: decimal
  bh_vol :: py_float

definition shape_candle ::
  "array_math \<Rightarrow> bar_shape \<Rightarrow> int \<Rightarrow> py_float \<Rightarrow> py_float \<Rightarrow> py_float \<times> py_float \<times> py_float \<times> py_float \<Rightarrow> (exn, candle) result" where
  "shape_candle am sh ts bar_open bar_close shocks =
     (let (s0, s1, s2, s3) = shocks;
          half = f_mul (bh_vol sh) (Num (1 / 2));
          high_factor = am_exp am (f_mul (f_abs s1) half);
          low_factor = am_exp am (f_neg (f_mul (f_abs s2) half));
          raw_high = f_max (f_max (f_mul (f_max bar_open bar_close) high_factor) bar_open) bar_close;
          raw_low = f_min (f_min (f_mul (f_min bar_open bar_close) low_factor) bar_open) bar_close
      in bind_r (f_to_int round_half_even (f_mul (Num 10000) (am_exp am (f_mul (Num (1 / 2)) s3)))) (\<lambda>volume.
         bind_r (quantise (bh_decimals sh) bar_open) (\<lambda>o4.
         bind_r (quantise (bh_decimals sh) raw_high) (\<lambda>h4.
         bind_r (quantise (bh_decimals sh) raw_low) (\<lambda>l4.
         bind_r (quantise (bh_decimals sh) bar_close) (\<lambda>c4.
         Inr \<lparr>cn_symbol = bh_symbol sh, cn_interval = bh_interval sh, cn_open = o4, cn_high = h4, cn_low = l4, cn_close = c4,
              cn_volume = max 1 volume, cn_timestamp = ts * 1000000, cn_spread = Some (bh_spread sh)\<rparr>))))))"

fun shape_candles ::
  "array_math \<Rightarrow> bar_shape \<Rightarrow> int \<Rightarrow> py_float \<Rightarrow> (py_float \<times> py_float \<times> py_float \<times> py_float \<times> py_float) list \<Rightarrow> (exn, candle list) result" where
  "shape_candles am sh ts bar_open [] = Inr []"
| "shape_candles am sh ts bar_open ((bar_close, shocks) # rest) =
     bind_r (shape_candle am sh ts bar_open bar_close shocks) (\<lambda>c.
     bind_r (shape_candles am sh (ts + bh_seconds sh) bar_close rest) (\<lambda>cs. Inr (c # cs)))"

definition generate_candles ::
  "array_math \<Rightarrow> string \<Rightarrow> candle_interval \<Rightarrow> int \<Rightarrow> int \<Rightarrow> walk_params \<Rightarrow> (py_float \<times> py_float \<times> py_float \<times> py_float) list \<Rightarrow> (exn, candle list) result" where
  "generate_candles am symbol interval bar_seconds start params rows =
     (let dt = round64 (of_int bar_seconds / of_int seconds_per_year);
          drift = f_mul (f_sub (wp_drift params) (f_mul (f_mul (Num (1 / 2)) (wp_vol params)) (wp_vol params))) dt;
          vol = f_mul (wp_vol params) (am_sqrt am dt);
          closes = walk_closes am (wp_start_price params) (map (\<lambda>(s0, s1, s2, s3). f_add drift (f_mul vol s0)) rows);
          decimals = (if ends_with symbol ''JPY'' then 3 else 5)
      in case (dict_get synthetic_spread_pips symbol, dict_get pip_sizes symbol) of
           (Some pips, Some pip) \<Rightarrow>
             bind_r (quantise decimals (f_mul (round64 pips) (round64 pip))) (\<lambda>spread.
               shape_candles am \<lparr>bh_symbol = symbol, bh_interval = interval, bh_seconds = bar_seconds, bh_decimals = decimals,
                 bh_spread = spread, bh_vol = vol\<rparr> start (wp_start_price params) (zip closes rows))
         | _ \<Rightarrow> Inl (PyError ''KeyError''))"

definition fetch_bars ::
  "array_math \<Rightarrow> normals \<Rightarrow> string \<Rightarrow> string \<Rightarrow> datetime \<Rightarrow> datetime \<Rightarrow> synthetic_provider \<Rightarrow> (exn, candle list) result \<times> synthetic_provider" where
  "fetch_bars am rng symbol timeframe start stop p =
     (if \<not> supports symbol then (Inl (PyError ''ValueError''), p)
      else case dict_get timeframe_table timeframe of
             None \<Rightarrow> (Inl (PyError ''ValueError''), p)
           | Some (bar_seconds, interval) \<Rightarrow>
               if stop < start then (Inl (PyError ''ValueError''), p)
               else
                 let first = align_down start bar_seconds; final = align_down stop bar_seconds;
                     p1 = p\<lparr>sp_fetch_log := sp_fetch_log p @ [(symbol, timeframe, start, stop)]\<rparr>;
                     bar_count = (final - first) div bar_seconds + 1
                 in if bar_count \<le> 0 then (Inr [], p1)
                    else
                      (bind_r (rng [sp_seed p, stable_int symbol, stable_int timeframe, first, final] (nat bar_count)) (\<lambda>rows.
                         case dict_get (sp_params p) symbol of
                           None \<Rightarrow> Inl (PyError ''KeyError'')
                         | Some params \<Rightarrow> generate_candles am symbol interval bar_seconds first params rows), p1))"

section \<open>Well-formed bars\<close>

lemma quantise_nonneg: "quantise k v = Inr q \<Longrightarrow> 0 \<le> q"
  by (cases v) (auto simp: quantise_def round_half_even_nonneg split: if_splits)

lemma quantise_mono:
  assumes "quantise k v = Inr p" "quantise k w = Inr q" "\<not> f_less w v"
  shows "p \<le> q"
proof -
  have mono: "of_int (round_half_even (x * 10 ^ k)) / 10 ^ k \<le> (of_int (round_half_even (y * 10 ^ k)) / 10 ^ k :: rat)" if "x \<le> y" for x y :: rat
    using round_half_even_mono [of "x * 10 ^ k" "y * 10 ^ k"] that by (simp add: divide_right_mono)
  show ?thesis
    using assms mono mono [of 0] by (cases v; cases w) (auto simp: quantise_def split: if_splits)
qed

lemma f_less_asym: "f_less x y \<Longrightarrow> \<not> f_less y x"
  using f_less_trans f_less_irrefl by blast

lemma f_max_bounds: "\<not> f_less (f_max x y) y" "\<not> f_less (f_max x y) x" "\<not> f_less x z \<Longrightarrow> \<not> f_less (f_max x y) z"
  by (auto simp: f_max_def dest: f_less_asym f_less_trans)

lemma f_min_bounds: "\<not> f_less y (f_min x y)" "\<not> f_less x (f_min x y)" "\<not> f_less z x \<Longrightarrow> \<not> f_less z (f_min x y)"
  by (auto simp: f_min_def dest: f_less_asym f_less_trans)

definition candle_ok :: "candle \<Rightarrow> bool" where
  "candle_ok c \<longleftrightarrow> 0 \<le> cn_low c \<and> cn_low c \<le> cn_open c \<and> cn_low c \<le> cn_close c \<and> cn_open c \<le> cn_high c \<and> cn_close c \<le> cn_high c \<and> 1 \<le> cn_volume c"

lemma shape_candle_ok:
  assumes "shape_candle am sh ts bar_open bar_close shocks = Inr c"
  shows "candle_ok c \<and> cn_symbol c = bh_symbol sh \<and> cn_timestamp c = ts * 1000000 \<and>
    quantise (bh_decimals sh) bar_open = Inr (cn_open c) \<and> quantise (bh_decimals sh) bar_close = Inr (cn_close c)"
proof -
  obtain s0 s1 s2 s3 where s: "shocks = (s0, s1, s2, s3)" by (metis surj_pair)
  let ?half = "f_mul (bh_vol sh) (Num (1 / 2))"
  let ?high = "f_max (f_max (f_mul (f_max bar_open bar_close) (am_exp am (f_mul (f_abs s1) ?half))) bar_open) bar_close"
  let ?low = "f_min (f_min (f_mul (f_min bar_open bar_close) (am_exp am (f_neg (f_mul (f_abs s2) ?half)))) bar_open) bar_close"
  from assms obtain volume o4 h4 l4 c4 where q: "quantise (bh_decimals sh) bar_open = Inr o4" "quantise (bh_decimals sh) ?high = Inr h4"
      "quantise (bh_decimals sh) ?low = Inr l4" "quantise (bh_decimals sh) bar_close = Inr c4"
      "c = \<lparr>cn_symbol = bh_symbol sh, cn_interval = bh_interval sh, cn_open = o4, cn_high = h4, cn_low = l4, cn_close = c4,
         cn_volume = max 1 volume, cn_timestamp = ts * 1000000, cn_spread = Some (bh_spread sh)\<rparr>"
    by (auto simp: shape_candle_def s Let_def bind_r_Inr_iff)
  have "o4 \<le> h4" by (rule quantise_mono [OF q(1,2)]) (intro f_max_bounds)
  moreover have "c4 \<le> h4" by (rule quantise_mono [OF q(4,2)]) (intro f_max_bounds)
  moreover have "l4 \<le> o4" by (rule quantise_mono [OF q(3,1)]) (intro f_min_bounds)
  moreover have "l4 \<le> c4" by (rule quantise_mono [OF q(3,4)]) (intro f_min_bounds)
  ultimately show ?thesis using q quantise_nonneg [OF q(3)] by (simp add: candle_ok_def)
qed

text \<open>Consecutive bars: one per step of the timeframe, each opening where the one before closed.\<close>

fun chained :: "int \<Rightarrow> int \<Rightarrow> candle list \<Rightarrow> bool" where
  "chained seconds ts [] \<longleftrightarrow> True"
| "chained seconds ts [c] \<longleftrightarrow> cn_timestamp c = ts * 1000000"
| "chained seconds ts (c # d # cs) \<longleftrightarrow> cn_timestamp c = ts * 1000000 \<and> cn_open d = cn_close c \<and> chained seconds (ts + seconds) (d # cs)"

lemma shape_candles_ok:
  assumes "shape_candles am sh ts bar_open rows = Inr cs"
  shows "(\<forall>c\<in>set cs. candle_ok c \<and> cn_symbol c = bh_symbol sh) \<and> length cs = length rows \<and> chained (bh_seconds sh) ts cs \<and>
    (cs \<noteq> [] \<longrightarrow> quantise (bh_decimals sh) bar_open = Inr (cn_open (hd cs)))"
  using assms
proof (induction rows arbitrary: ts bar_open cs)
  case (Cons row rows)
  obtain bar_close shocks where row: "row = (bar_close, shocks)" by (metis surj_pair)
  with Cons.prems obtain c rest where r: "shape_candle am sh ts bar_open bar_close shocks = Inr c"
      "shape_candles am sh (ts + bh_seconds sh) bar_close rows = Inr rest" "cs = c # rest"
    by (auto simp: bind_r_Inr_iff)
  have "chained (bh_seconds sh) ts (c # rest)"
    using Cons.IH [OF r(2)] shape_candle_ok [OF r(1)] by (cases rest) simp_all
  then show ?case using Cons.IH [OF r(2)] shape_candle_ok [OF r(1)] r(3) by simp
qed simp

lemma walk_closes_length [simp]: "length (walk_closes am p rs) = length rs"
  by (induction rs arbitrary: p) (simp_all add: Let_def)

text \<open>
  Synthetic bars are well formed: whatever the random numbers and the seed, every bar that is returned has its
  open and close between its low and its high, no negative price and a positive volume, the bars follow each
  other by exactly one step of the timeframe from the aligned start, each opens at the close of the one
  before, and with one row of random numbers per bar they are as many as the window has steps, both ends
  included.
\<close>

theorem synthetic_bars_well_formed:
  assumes "fetch_bars am rng symbol timeframe start stop p = (Inr cs, p')" "dict_get timeframe_table timeframe = Some (seconds, interval)"
    "\<And>entropy n rows. rng entropy n = Inr rows \<Longrightarrow> length rows = n"
  shows "(\<forall>c\<in>set cs. candle_ok c \<and> cn_symbol c = symbol) \<and> chained seconds (align_down start seconds) cs \<and>
    length cs = nat ((align_down stop seconds - align_down start seconds) div seconds + 1)"
proof -
  let ?first = "align_down start seconds"
  let ?count = "(align_down stop seconds - ?first) div seconds + 1"
  show ?thesis
  proof (cases "?count \<le> 0")
    case True
    with assms(1,2) show ?thesis by (auto simp: fetch_bars_def Let_def split: if_splits)
  next
    case False
    with assms(1,2) obtain rows params where r: "rng [sp_seed p, stable_int symbol, stable_int timeframe, ?first, align_down stop seconds] (nat ?count) = Inr rows"
        "generate_candles am symbol interval seconds ?first params rows = Inr cs"
      by (auto simp: fetch_bars_def Let_def bind_r_Inr_iff split: if_splits option.splits)
    from r(2) obtain spread vol decimals where "shape_candles am \<lparr>bh_symbol = symbol, bh_interval = interval, bh_seconds = seconds, bh_decimals = decimals,
        bh_spread = spread, bh_vol = vol\<rparr> ?first (wp_start_price params)
        (zip (walk_closes am (wp_start_price params) (map (\<lambda>(s0, s1, s2, s3). f_add
          (f_mul (f_sub (wp_drift params) (f_mul (f_mul (Num (1 / 2)) (wp_vol params)) (wp_vol params))) (round64 (of_int seconds / of_int seconds_per_year)))
          (f_mul vol s0)) rows)) rows) = Inr cs"
      by (auto simp: generate_candles_def Let_def bind_r_Inr_iff split: option.splits)
    from shape_candles_ok [OF this] assms(3) [OF r(1)] show ?thesis by simp
  qed
qed

definition flat_math :: array_math where
  "flat_math = \<lparr>am_exp = (\<lambda>x. Num 1), am_sqrt = (\<lambda>x. Num 1)\<rparr>"

definition flat_normals :: normals where
  "flat_normals entropy n = Inr (replicate n (Num 0, Num 0, Num 0, Num 0))"


lemma round64_unit:
  assumes "\<bar>x\<bar> \<le> 1"
  shows "\<exists>y. round64 x = Num y \<and> \<bar>y\<bar> \<le> 1"
proof (cases "x = 0")
  case False
  define e where "e = max (mag 2 \<bar>x\<bar> - 53) (- 1074)"
  define y :: rat where "y = of_int (round_half_even (\<bar>x\<bar> / 2 powi e)) * 2 powi e"
  have "mag 2 \<bar>x\<bar> \<le> 1"
  proof (rule ccontr)
    assume "\<not> mag 2 \<bar>x\<bar> \<le> 1"
    then have "(2::rat) powi 1 \<le> 2 powi (mag 2 \<bar>x\<bar> - 1)" by (intro power_int_increasing) auto
    with mag_bounds(1) [of 2 "\<bar>x\<bar>"] False assms show False by simp
  qed
  then have e: "e \<le> 0" by (simp add: e_def)
  have one: "(of_int (2 ^ nat (- e)) :: rat) * 2 powi e = 1"
  proof -
    have "(2::rat) ^ nat (- e) = 2 powi (- e)" using e by (simp add: power_int_def)
    then show ?thesis by (simp add: power_int_minus)
  qed
  have "(0::rat) < 2 powi e" by simp
  then have "\<bar>x\<bar> / 2 powi e \<le> of_int (2 ^ nat (- e))" using one assms by (simp add: pos_divide_le_eq)
  then have "round_half_even (\<bar>x\<bar> / 2 powi e) \<le> 2 ^ nat (- e)" by (rule round_half_even_le_int)
  then have "y \<le> of_int (2 ^ nat (- e)) * 2 powi e"
    unfolding y_def by (intro mult_right_mono) (simp_all only: of_int_le_iff, simp)
  then have "y \<le> 1" using one by simp
  moreover have "0 \<le> y" by (simp add: y_def round_half_even_nonneg)
  moreover have "(1::rat) < 2 ^ 1024" by simp
  ultimately show ?thesis using False by (auto simp: round64_def e_def y_def Let_def)
qed (simp add: round64_def)

lemma quantise_unit:
  assumes "\<bar>x\<bar> \<le> 1" "\<bar>y\<bar> \<le> 1"
  shows "\<exists>q. quantise k (f_mul (round64 x) (round64 y)) = Inr q"
proof -
  from assms obtain a b where ab: "round64 x = Num a" "round64 y = Num b" "\<bar>a\<bar> \<le> 1" "\<bar>b\<bar> \<le> 1" using round64_unit by blast
  then have "\<bar>a * b\<bar> \<le> 1" using mult_le_one [of "\<bar>a\<bar>" "\<bar>b\<bar>"] by (simp add: abs_mult)
  then obtain c where "round64 (a * b) = Num c" using round64_unit by blast
  with ab show ?thesis by (simp add: quantise_def)
qed

definition flat_provider :: synthetic_provider where
  "flat_provider = \<lparr>sp_seed = 7, sp_params = [(''EURUSD'', \<lparr>wp_start_price = Num 1, wp_drift = Num 0, wp_vol = Num 0\<rparr>)], sp_fetch_log = []\<rparr>"

lemma flat_fetch:
  "\<exists>cs p'. fetch_bars flat_math flat_normals ''EURUSD'' ''H1'' 0 3600000000 flat_provider = (Inr cs, p')"
proof -
  obtain spread where spread: "quantise 5 (f_mul (round64 (5 / 10)) (round64 (1 / 10000))) = Inr spread"
    using quantise_unit [of "5 / 10" "1 / 10000" 5] by auto
  have align: "align_down 0 3600 = 0" "align_down 3600000000 3600 = 3600"
    using fl_of_int [of 3600] by (simp_all add: align_down_def trunc_def)
  obtain dt where dt: "round64 (of_int 3600 / of_int seconds_per_year) = Num dt"
    using round64_unit [of "of_int 3600 / of_int seconds_per_year"] by (auto simp: seconds_per_year_def)
  have "\<exists>cs. generate_candles flat_math ''EURUSD'' H1 3600 0 \<lparr>wp_start_price = Num 1, wp_drift = Num 0, wp_vol = Num 0\<rparr>
      [(Num 0, Num 0, Num 0, Num 0), (Num 0, Num 0, Num 0, Num 0)] = Inr cs"
    using spread dt
    by (simp add: generate_candles_def Let_def ends_with_def synthetic_spread_pips_def pip_sizes_def shape_candle_def flat_math_def f_sub_def
        round64_numeral f_max_def f_min_def quantise_def f_to_int_def f_abs_def)
  then show ?thesis
    by (auto simp: fetch_bars_def supports_def supported_symbols_def timeframe_table_def align flat_normals_def flat_provider_def numeral_2_eq_2)
qed

theorem synthetic_bars_well_formed_witness:
  "\<exists>cs p'. fetch_bars flat_math flat_normals ''EURUSD'' ''H1'' 0 3600000000 flat_provider = (Inr cs, p') \<and>
     (\<forall>c\<in>set cs. candle_ok c) \<and> length cs = 2"
proof -
  obtain cs p' where f: "fetch_bars flat_math flat_normals ''EURUSD'' ''H1'' 0 3600000000 flat_provider = (Inr cs, p')"
    using flat_fetch by blast
  have "align_down 0 3600 = 0" "align_down 3600000000 3600 = 3600"
    using fl_of_int [of 3600] by (simp_all add: align_down_def trunc_def)
  moreover have "dict_get timeframe_table ''H1'' = Some (3600, H1)" by (simp add: timeframe_table_def)
  ultimately show ?thesis
    using synthetic_bars_well_formed [OF f, of 3600 H1] f by (auto simp: flat_normals_def)
qed

end
