(* ===== verification/Paper_Execution.thy ===== *)
theory Paper_Execution
  imports Paper_Broker Risk_Gate
begin

text \<open>
  The paper execution service, \<open>services/api/services/paper_execution_service.py\<close>: one paper broker per deployment, the check of the
  deployment and the risk gate in front of it. The gate reads the broker before the order is submitted and the two are
  not one atomic step: a submission has two parts, between which other requests may run.
\<close>

section \<open>The service\<close>

type_synonym adapters = "(string, paper_broker) dict"

definition pe_get_adapter :: "adapters \<Rightarrow> string \<Rightarrow> (exn, paper_broker) result" where
  "pe_get_adapter ads did = (case dict_get ads did of None \<Rightarrow> Inl NotFoundError | Some b \<Rightarrow> Inr b)"

definition validate_deployment_for_execution :: "'s deployment_repo \<Rightarrow> 's \<Rightarrow> string \<Rightarrow> adapters \<Rightarrow> (exn, unit) result" where
  "validate_deployment_for_execution repo s did ads =
     (case dr_get_by_id repo s did of
        None \<Rightarrow> Inl NotFoundError
      | Some d \<Rightarrow>
          if dp_state d \<noteq> ''active'' then Inl (StateTransitionError (Some (dp_state d)) (Some ''active''))
          else if dp_execution_mode d \<noteq> ''paper'' then Inl (StateTransitionError (Some (dp_execution_mode d)) (Some ''paper''))
          else if \<not> dict_has ads did then Inl NotFoundError
          else Inr ())"

definition pe_register_deployment :: "string \<Rightarrow> decimal \<Rightarrow> (string, decimal) dict \<Rightarrow> decimal \<Rightarrow> datetime \<Rightarrow> adapters \<Rightarrow> (exn, unit) result \<times> adapters" where
  "pe_register_deployment did equity prices commission now ads =
     (if dict_has ads did then (Inl ValidationError, ads)
      else (Inr (), dict_set did (paper_init prices equity commission 1 True now) ads))"

definition pe_deregister_deployment :: "string \<Rightarrow> adapters \<Rightarrow> (exn, unit) result \<times> adapters" where
  "pe_deregister_deployment did ads = (if \<not> dict_has ads did then (Inl NotFoundError, ads) else (Inr (), dict_del did ads))"

text \<open>The first part of a submission: the deployment is checked and the gate judges the order by the broker's positions and account.\<close>

definition gate_paper_order ::
  "'s deployment_repo \<Rightarrow> 'e risk_event_repo \<Rightarrow> event_ids \<Rightarrow> datetime \<Rightarrow> string \<Rightarrow> order_request \<Rightarrow> string \<Rightarrow> 's \<Rightarrow> adapters \<Rightarrow> 'e \<Rightarrow> (exn, unit) result \<times> 'e" where
  "gate_paper_order repo erepo ids now did rq corr s ads e =
     (case validate_deployment_for_execution repo s did ads of
        Inl x \<Rightarrow> (Inl x, e)
      | Inr _ \<Rightarrow>
          (case dict_get ads did of
             None \<Rightarrow> (Inl (PyError ''KeyError''), e)
           | Some b \<Rightarrow> enforce_order repo erepo ids did rq (get_positions now b) (get_account now now b) corr s e))"

text \<open>An operation on the broker of a deployment, which the service looks up and whose changes stay in it.\<close>

definition on_adapter :: "string \<Rightarrow> (paper_broker \<Rightarrow> (exn, 'a) result \<times> paper_broker) \<Rightarrow> adapters \<Rightarrow> (exn, 'a) result \<times> adapters" where
  "on_adapter did f ads =
     (case pe_get_adapter ads did of
        Inl x \<Rightarrow> (Inl x, ads)
      | Inr b \<Rightarrow> (case f b of (r, b') \<Rightarrow> (r, dict_set did b' ads)))"

definition submit_paper_order ::
  "'s deployment_repo \<Rightarrow> 'e risk_event_repo \<Rightarrow> event_ids \<Rightarrow> datetime \<Rightarrow> string \<Rightarrow> string \<Rightarrow> order_request \<Rightarrow> string \<Rightarrow> 's \<Rightarrow> adapters \<times> 'e \<Rightarrow>
     (exn, order_response) result \<times> adapters \<times> 'e" where
  "submit_paper_order repo erepo ids now bid did rq corr s st =
     (case st of (ads, e) \<Rightarrow>
        (case gate_paper_order repo erepo ids now did rq corr s ads e of
           (Inl x, e') \<Rightarrow> (Inl x, ads, e')
         | (Inr _, e') \<Rightarrow> (case on_adapter did (submit_order bid now rq) ads of (r, ads') \<Rightarrow> (r, ads', e'))))"

definition pe_process_pending_orders :: "tick_ids \<Rightarrow> string \<Rightarrow> adapters \<Rightarrow> (exn, order_response list) result \<times> adapters" where
  "pe_process_pending_orders ids did = on_adapter did (process_pending_orders ids)"

definition cancel_paper_order :: "datetime \<Rightarrow> string \<Rightarrow> string \<Rightarrow> adapters \<Rightarrow> (exn, order_response) result \<times> adapters" where
  "cancel_paper_order now did bid = on_adapter did (cancel_order now bid)"

definition pe_update_market_price :: "string \<Rightarrow> string \<Rightarrow> decimal \<Rightarrow> adapters \<Rightarrow> (exn, unit) result \<times> adapters" where
  "pe_update_market_price did symbol price = on_adapter did (\<lambda>b. (Inr (), update_market_price symbol price b))"

definition get_paper_positions :: "datetime \<Rightarrow> string \<Rightarrow> adapters \<Rightarrow> (exn, position_snapshot list) result" where
  "get_paper_positions now did ads = bind_r (pe_get_adapter ads did) (\<lambda>b. Inr (get_positions now b))"

definition get_paper_account :: "datetime \<Rightarrow> string \<Rightarrow> adapters \<Rightarrow> (exn, account_snapshot) result" where
  "get_paper_account now did ads = bind_r (pe_get_adapter ads did) (\<lambda>b. Inr (get_account now now b))"

definition get_open_orders :: "string \<Rightarrow> adapters \<Rightarrow> (exn, order_response list) result" where
  "get_open_orders did ads = bind_r (pe_get_adapter ads did) (\<lambda>b. Inr (list_open_orders b))"

definition pe_get_all_order_states :: "string \<Rightarrow> adapters \<Rightarrow> (exn, order_response list) result" where
  "pe_get_all_order_states did ads = bind_r (pe_get_adapter ads did) (\<lambda>b. Inr (get_all_order_states b))"

section \<open>Open orders of a broker\<close>

lemma filter_values_card:
  "dict_ok d \<Longrightarrow> length (filter P (dict_values d)) = card {k. \<exists>v. dict_get d k = Some v \<and> P v}"
proof (induction d)
  case (Cons kv d)
  obtain k v where kv: "kv = (k, v)" by force
  let ?S = "{k'. \<exists>v'. dict_get d k' = Some v' \<and> P v'}"
  have ok: "dict_ok d" "dict_get d k = None" using Cons.prems kv by (auto simp: dict_ok_def map_of_eq_None_iff)
  have "{k'. \<exists>v'. dict_get (kv # d) k' = Some v' \<and> P v'} = (if P v then insert k ?S else ?S)" using ok(2) kv by auto
  moreover have "k \<notin> ?S" using ok(2) by simp
  moreover have "?S \<subseteq> dom (dict_get d)" by auto
  then have "finite ?S" by (rule finite_subset) (rule finite_dom_map_of)
  ultimately show ?case using Cons.IH [OF ok(1)] kv by (simp add: dict_values_def)
qed (simp add: dict_values_def)

definition open_ids :: "paper_broker \<Rightarrow> string set" where
  "open_ids b = {bid. \<exists>r. dict_get (pb_orders b) bid = Some r \<and> os_status r \<notin> set terminal_statuses}"

lemma open_orders_card: "pb_inv b \<Longrightarrow> length (list_open_orders b) = card (open_ids b)"
  unfolding list_open_orders_def open_ids_def by (rule filter_values_card) (rule pb_inv_dict_ok)

lemma fewer_open:
  assumes "pb_inv b" "pb_inv b'" "keeps b b'" "dom (dict_get (pb_orders b')) \<subseteq> dom (dict_get (pb_orders b))"
  shows "length (list_open_orders b') \<le> length (list_open_orders b)"
proof -
  have "open_ids b' \<subseteq> open_ids b"
  proof
    fix bid assume "bid \<in> open_ids b'"
    then obtain r' where r': "dict_get (pb_orders b') bid = Some r'" "os_status r' \<notin> set terminal_statuses" by (auto simp: open_ids_def)
    with assms(4) obtain r where r: "dict_get (pb_orders b) bid = Some r" by blast
    with assms(3) r' have "os_status r \<notin> set terminal_statuses" by (auto simp: keeps_def)
    with r show "bid \<in> open_ids b" by (simp add: open_ids_def)
  qed
  moreover have "open_ids b \<subseteq> dom (dict_get (pb_orders b))" by (auto simp: open_ids_def)
  then have "finite (open_ids b)" by (rule finite_subset) (rule finite_dom_map_of)
  ultimately show ?thesis using open_orders_card [OF assms(1)] open_orders_card [OF assms(2)] by (simp add: card_mono)
qed

lemma dom_cancel: "dom (dict_get (pb_orders (snd (cancel_order now bid b)))) \<subseteq> dom (dict_get (pb_orders b))"
  by (auto simp: cancel_order_def Let_def split: option.splits if_splits)

lemma dom_process_order:
  assumes "pb_inv b"
  shows "dom (dict_get (pb_orders (snd (process_order ids bid b)))) \<subseteq> dom (dict_get (pb_orders b))"
  using assms
proof (cases rule: process_order_effect [of b ids bid, case_names raised skipped filled])
  case (filled order price qty avg fs b')
  then show ?thesis by (auto split: if_splits)
qed simp_all

lemma dom_process_orders:
  "pb_inv b \<Longrightarrow> dom (dict_get (pb_orders (snd (process_orders ids bids b)))) \<subseteq> dom (dict_get (pb_orders b))"
proof (induction bids arbitrary: b)
  case (Cons bid bids)
  obtain res b1 where one: "process_order ids bid b = (res, b1)" by force
  have "dom (dict_get (pb_orders b1)) \<subseteq> dom (dict_get (pb_orders b))" "pb_inv b1"
    using dom_process_order [OF Cons.prems, of ids bid] pb_inv_process_order [OF Cons.prems, of ids bid] by (simp_all add: one)
  moreover have "dom (dict_get (pb_orders (snd (process_orders ids bids b1)))) \<subseteq> dom (dict_get (pb_orders b1))"
    using Cons.IH calculation(2) .
  ultimately show ?case by (cases res; cases "process_orders ids bids b1"; cases "fst (process_orders ids bids b1)") (auto simp: one)
qed simp

lemma open_orders_cancel: "pb_reachable b \<Longrightarrow> length (list_open_orders (snd (cancel_order now bid b))) \<le> length (list_open_orders b)"
  by (rule fewer_open) (simp_all add: pb_reachable_inv keeps_cancel dom_cancel pb_inv_cancel)

lemma open_orders_tick: "pb_reachable b \<Longrightarrow> length (list_open_orders (snd (process_pending_orders ids b))) \<le> length (list_open_orders b)"
  by (rule fewer_open) (simp_all add: process_pending_orders_def pb_reachable_inv keeps_process_orders dom_process_orders pb_inv_process_orders)

lemma open_orders_price: "list_open_orders (update_market_price symbol p b) = list_open_orders b"
  by (simp add: list_open_orders_def update_market_price_def)

lemma open_orders_submit:
  assumes "pb_reachable b" "dict_get (pb_orders b) bid = None"
  shows "list_open_orders (snd (submit_order bid now rq b)) \<in> {list_open_orders b, list_open_orders b @ [new_response bid now rq]}"
proof (cases "dict_get (pb_client_id_map b) (rq_client_order_id rq)")
  case None
  then show ?thesis using assms
    by (simp add: submit_new_state pb_reachable_inv list_open_orders_def dict_values_def dict_set_new new_response_def)
next
  case (Some k)
  with submit_known_state [OF pb_reachable_inv [OF assms(1)] Some] show ?thesis by simp
qed


section \<open>Histories of requests, one at a time\<close>

text \<open>The deployments may change between requests as long as their limits are those of \<open>lims\<close>. Identifiers of orders are new.\<close>

inductive paper_step ::
  "'s deployment_repo \<Rightarrow> 'e risk_event_repo \<Rightarrow> (string \<Rightarrow> limits_doc) \<Rightarrow> adapters \<times> 'e \<Rightarrow> adapters \<times> 'e \<Rightarrow> bool"
  for repo erepo lims where
  register: "(\<And>symbol p. dict_get prices symbol = Some p \<Longrightarrow> 0 < p) \<Longrightarrow>
    paper_step repo erepo lims (ads, e) (snd (pe_register_deployment did equity prices commission now ads), e)"
| deregister: "paper_step repo erepo lims (ads, e) (snd (pe_deregister_deployment did ads), e)"
| submit: "order_request_valid rq \<Longrightarrow> (\<And>b. dict_get ads did = Some b \<Longrightarrow> dict_get (pb_orders b) bid = None) \<Longrightarrow>
    (\<And>d. dr_get_by_id repo s did = Some d \<Longrightarrow> dp_risk_limits d = lims did) \<Longrightarrow>
    paper_step repo erepo lims (ads, e) (snd (submit_paper_order repo erepo ids now bid did rq corr s (ads, e)))"
| tick: "paper_step repo erepo lims (ads, e) (snd (pe_process_pending_orders tids did ads), e)"
| cancel: "paper_step repo erepo lims (ads, e) (snd (cancel_paper_order now did bid ads), e)"
| price: "0 < p \<Longrightarrow> paper_step repo erepo lims (ads, e) (snd (pe_update_market_price did symbol p ads), e)"

definition within_open_limit :: "limits_doc \<Rightarrow> paper_broker \<Rightarrow> bool" where
  "within_open_limit doc b \<longleftrightarrow> (doc \<noteq> empty_doc \<longrightarrow> (\<forall>limits. deserialize_limits doc = Inr limits \<longrightarrow> 0 < pl_max_open_orders limits \<longrightarrow>
     int (length (list_open_orders b)) \<le> pl_max_open_orders limits))"

definition adapters_ok :: "(string \<Rightarrow> limits_doc) \<Rightarrow> adapters \<Rightarrow> bool" where
  "adapters_ok lims ads \<longleftrightarrow> (\<forall>did b. dict_get ads did = Some b \<longrightarrow> pb_reachable b \<and> within_open_limit (lims did) b)"

lemma within_open_limit_fewer: "within_open_limit doc b \<Longrightarrow> length (list_open_orders b') \<le> length (list_open_orders b) \<Longrightarrow> within_open_limit doc b'"
  by (fastforce simp: within_open_limit_def)

lemma on_adapter_ok:
  assumes "adapters_ok lims ads" "\<And>b. pb_reachable b \<Longrightarrow> within_open_limit (lims did) b \<Longrightarrow> dict_get ads did = Some b \<Longrightarrow>
      pb_reachable (snd (f b)) \<and> within_open_limit (lims did) (snd (f b))"
  shows "adapters_ok lims (snd (on_adapter did f ads))"
  using assms by (auto simp: adapters_ok_def on_adapter_def pe_get_adapter_def split: option.splits prod.splits)

lemma gate_admits_room:
  assumes "gate_paper_order repo erepo ids now did rq corr s ads e = (Inr (), e')" "dict_get ads did = Some b"
    "\<And>d. dr_get_by_id repo s did = Some d \<Longrightarrow> dp_risk_limits d = doc" "doc \<noteq> empty_doc" "deserialize_limits doc = Inr limits" "0 < pl_max_open_orders limits"
  shows "int (length (list_open_orders b)) + 1 \<le> pl_max_open_orders limits"
proof -
  obtain d where d: "dr_get_by_id repo s did = Some d"
    using assms(1) by (auto simp: gate_paper_order_def validate_deployment_for_execution_def split: option.splits)
  have "fst (enforce_order repo erepo ids did rq (get_positions now b) (get_account now now b) corr s e) = Inr ()"
    using assms(1,2) by (auto simp: gate_paper_order_def split: sum.splits)
  then have "within_limits rq (get_positions now b) (get_account now now b) limits"
    using assms(3) [OF d] assms(4,5) by (auto intro: enforced_within_limits [OF _ d])
  with assms(6) show ?thesis by (simp add: within_limits_def get_account_def Let_def)
qed

lemma submit_paper_ok:
  assumes "adapters_ok lims ads" "order_request_valid rq" "\<And>b. dict_get ads did = Some b \<Longrightarrow> dict_get (pb_orders b) bid = None"
    "\<And>d. dr_get_by_id repo s did = Some d \<Longrightarrow> dp_risk_limits d = lims did"
    "snd (submit_paper_order repo erepo ids now bid did rq corr s (ads, e)) = (ads', e')"
  shows "adapters_ok lims ads'"
proof (cases "fst (gate_paper_order repo erepo ids now did rq corr s ads e)")
  case (Inl x)
  with assms(1,5) show ?thesis by (auto simp: submit_paper_order_def split: prod.splits)
next
  case (Inr u)
  then obtain e1 where gate: "gate_paper_order repo erepo ids now did rq corr s ads e = (Inr (), e1)" by (metis old.unit.exhaust prod.collapse)
  then have "ads' = snd (on_adapter did (submit_order bid now rq) ads)" using assms(5) by (auto simp: submit_paper_order_def split: prod.splits)
  moreover have "adapters_ok lims (snd (on_adapter did (submit_order bid now rq) ads))"
  proof (rule on_adapter_ok [OF assms(1)])
    fix b assume b: "pb_reachable b" "within_open_limit (lims did) b" "dict_get ads did = Some b"
    have fresh: "dict_get (pb_orders b) bid = None" using assms(3) [OF b(3)] .
    have "pb_reachable (snd (submit_order bid now rq b))" using b(1) step_submit [OF assms(2) fresh] by (rule reach_step)
    moreover have "within_open_limit (lims did) (snd (submit_order bid now rq b))"
      using open_orders_submit [OF b(1) fresh, of now rq] gate_admits_room [OF gate b(3) assms(4)] b(2) by (fastforce simp: within_open_limit_def)
    ultimately show "pb_reachable (snd (submit_order bid now rq b)) \<and> within_open_limit (lims did) (snd (submit_order bid now rq b))" ..
  qed
  ultimately show ?thesis by simp
qed

lemma paper_step_ok:
  assumes "paper_step repo erepo lims st st'" "adapters_ok lims (fst st)"
  shows "adapters_ok lims (fst st')"
  using assms
proof cases
  case (register prices ads e did equity commission now)
  moreover have "within_open_limit doc (paper_init prices equity commission 1 True now)" for doc
    by (auto simp: within_open_limit_def paper_init_def list_open_orders_def dict_values_def)
  ultimately show ?thesis using assms(2) reach_init [OF register(3)] by (auto simp: pe_register_deployment_def adapters_ok_def split: if_splits)
next
  case (deregister ads did)
  then show ?thesis using assms(2) by (auto simp: pe_deregister_deployment_def adapters_ok_def split: if_splits)
next
  case (submit rq ads did bid s e ids now corr)
  have "adapters_ok lims ads" using assms(2) submit(1) by simp
  then show ?thesis by (rule submit_paper_ok [of lims ads rq did bid repo s erepo ids now corr e _ "snd st'"]) (use submit in auto)
next
  case (tick ads e tids did)
  then show ?thesis unfolding pe_process_pending_orders_def using assms(2)
    by (simp only: fst_conv) (rule on_adapter_ok, auto intro: reach_step step_tick within_open_limit_fewer open_orders_tick)
next
  case (cancel ads e now did bid)
  then show ?thesis unfolding cancel_paper_order_def using assms(2)
    by (simp only: fst_conv) (rule on_adapter_ok, auto intro: reach_step step_cancel within_open_limit_fewer open_orders_cancel)
next
  case (price p ads e did symbol)
  then show ?thesis unfolding pe_update_market_price_def using assms(2)
    by (simp only: fst_conv) (rule on_adapter_ok, auto intro: reach_step step_price within_open_limit_fewer simp: open_orders_price)
qed



section \<open>Requests at the same time\<close>

text \<open>
  Gate and submission are not one step: two orders that pass the gate of a deployment before either is submitted are both
  accepted, so that the broker has two more open orders than the gate saw, whatever the limit.
\<close>

theorem concurrent_orders_pass_together:
  assumes "pb_reachable b" "dict_get ads did = Some b"
    "gate_paper_order repo erepo ids now did rq1 corr1 s ads e = (Inr (), e1)" "gate_paper_order repo erepo ids' now' did rq2 corr2 s ads e1 = (Inr (), e2)"
    "dict_get (pb_orders b) bid1 = None" "dict_get (pb_orders b) bid2 = None" "bid1 \<noteq> bid2"
    "dict_get (pb_client_id_map b) (rq_client_order_id rq1) = None" "dict_get (pb_client_id_map b) (rq_client_order_id rq2) = None"
    "rq_client_order_id rq1 \<noteq> rq_client_order_id rq2"
  shows "\<exists>r1 r2 ads1 ads2. on_adapter did (submit_order bid1 now rq1) ads = (Inr r1, ads1) \<and>
    on_adapter did (submit_order bid2 now' rq2) ads1 = (Inr r2, ads2) \<and>
    get_open_orders did ads2 = Inr (list_open_orders b @ [r1, r2])"
proof -
  let ?b1 = "snd (submit_order bid1 now rq1 b)" and ?b2 = "snd (submit_order bid2 now' rq2 (snd (submit_order bid1 now rq1 b)))"
  let ?r1 = "new_response bid1 now rq1" and ?r2 = "new_response bid2 now' rq2"
  have s1: "submit_order bid1 now rq1 b = (Inr ?r1, ?b1)" using assms(8) by (simp add: submit_new_state)
  have s2: "submit_order bid2 now' rq2 ?b1 = (Inr ?r2, ?b2)" using assms(8-10) by (simp add: submit_new_state)
  have "list_open_orders ?b2 = list_open_orders b @ [?r1, ?r2]"
    using assms(5-10) by (simp add: submit_new_state list_open_orders_def dict_values_def dict_set_new new_response_def)
  then have "get_open_orders did (dict_set did ?b2 (dict_set did ?b1 ads)) = Inr (list_open_orders b @ [?r1, ?r2])"
    by (simp add: pe_get_adapter_def get_open_orders_def)
  moreover have "on_adapter did (submit_order bid1 now rq1) ads = (Inr ?r1, dict_set did ?b1 ads)"
    by (cases "submit_order bid1 now rq1 b") (use s1 assms(2) in \<open>auto simp: on_adapter_def pe_get_adapter_def\<close>)
  moreover have "on_adapter did (submit_order bid2 now' rq2) (dict_set did ?b1 ads) = (Inr ?r2, dict_set did ?b2 (dict_set did ?b1 ads))"
    by (cases "submit_order bid2 now' rq2 ?b1") (use s2 in \<open>auto simp: on_adapter_def pe_get_adapter_def\<close>)
  ultimately show ?thesis by blast
qed

definition demo_paper :: deployment where
  "demo_paper = demo_active\<lparr>dp_execution_mode := ''paper'', dp_risk_limits := empty_doc\<lparr>ld_max_open_orders := Some 1\<rparr>\<rparr>"

definition demo_paper_repo :: mock_repo where
  "demo_paper_repo = \<lparr>mr_store = [(''D1'', demo_paper)], mr_transitions = []\<rparr>"

definition demo_paper_limits :: pre_trade_risk_limits where
  "demo_paper_limits = \<lparr>pl_max_position_size = 0, pl_max_daily_loss = 0, pl_max_order_value = 0, pl_max_concentration_pct = 0, pl_max_open_orders = 1\<rparr>"

lemma demo_paper_facts:
  "dr_get_by_id mock_deployment_repo demo_paper_repo ''D1'' = Some demo_paper" "dp_risk_limits demo_paper \<noteq> empty_doc"
  "deserialize_limits (dp_risk_limits demo_paper) = Inr demo_paper_limits"
  by (simp_all add: demo_paper_repo_def mock_get_by_id_def demo_paper_def deserialize_limits_def empty_doc_def limit_decimal_def demo_paper_limits_def)

lemma paper_demo_gate:
  assumes "rq_side rq = BUY"
  shows "\<exists>e'. gate_paper_order mock_deployment_repo mock_event_repo demo_event_ids 1 ''D1'' rq ''X'' demo_paper_repo [(''D1'', demo_start)] e = (Inr (), e')"
proof -
  have "fst (enforce_order mock_deployment_repo mock_event_repo demo_event_ids ''D1'' rq (get_positions 1 demo_start) (get_account 1 1 demo_start) ''X''
      demo_paper_repo e) = Inr ()"
    using run_checks_passing [of mock_event_repo demo_event_ids 0 "''D1''" rq "''X''"
        "ordered_checks rq (get_positions 1 demo_start) (get_account 1 1 demo_start) demo_paper_limits" e] demo_paper_facts
    by (simp add: enforce_iff_check check_order_def ordered_checks_passing within_limits_def reportable_def get_account_def Let_def
        list_open_orders_def demo_start_def paper_init_def dict_values_def demo_paper_limits_def)
  moreover have "validate_deployment_for_execution mock_deployment_repo demo_paper_repo ''D1'' [(''D1'', demo_start)] = Inr ()"
    unfolding validate_deployment_for_execution_def demo_paper_facts(1) by (simp add: demo_paper_def demo_active_def dict_has_def)
  ultimately show ?thesis by (auto simp: gate_paper_order_def prod_eq_iff)
qed

theorem concurrent_orders_pass_together_witness:
  "\<exists>e1 e2 ads1 ads2 xs. gate_paper_order mock_deployment_repo mock_event_repo demo_event_ids 1 ''D1'' (demo_request 7) ''X'' demo_paper_repo [(''D1'', demo_start)] [] = (Inr (), e1) \<and>
     gate_paper_order mock_deployment_repo mock_event_repo demo_event_ids 1 ''D1'' ((demo_request 7)\<lparr>rq_client_order_id := ''C2''\<rparr>) ''X'' demo_paper_repo [(''D1'', demo_start)] e1 = (Inr (), e2) \<and>
     ads1 = snd (on_adapter ''D1'' (submit_order ''B1'' 1 (demo_request 7)) [(''D1'', demo_start)]) \<and>
     ads2 = snd (on_adapter ''D1'' (submit_order ''B2'' 1 ((demo_request 7)\<lparr>rq_client_order_id := ''C2''\<rparr>)) ads1) \<and>
     get_open_orders ''D1'' ads2 = Inr xs \<and> pl_max_open_orders demo_paper_limits < int (length xs)"
proof -
  let ?ads = "[(''D1'', demo_start)]" and ?rq2 = "(demo_request 7)\<lparr>rq_client_order_id := ''C2''\<rparr>"
  let ?gate = "\<lambda>rq. gate_paper_order mock_deployment_repo mock_event_repo demo_event_ids 1 ''D1'' rq ''X'' demo_paper_repo ?ads"
  obtain e1 where g1: "?gate (demo_request 7) [] = (Inr (), e1)" using paper_demo_gate [of "demo_request 7" "[]"] by (auto simp: demo_request_def)
  obtain e2 where g2: "?gate ?rq2 e1 = (Inr (), e2)" using paper_demo_gate [of ?rq2 e1] by (auto simp: demo_request_def)
  have "\<exists>r1 r2 ads1 ads2. on_adapter ''D1'' (submit_order ''B1'' 1 (demo_request 7)) ?ads = (Inr r1, ads1) \<and>
    on_adapter ''D1'' (submit_order ''B2'' 1 ?rq2) ads1 = (Inr r2, ads2) \<and> get_open_orders ''D1'' ads2 = Inr (list_open_orders demo_start @ [r1, r2])"
    by (rule concurrent_orders_pass_together [OF demo_start_reachable _ g1 g2]) (simp_all add: demo_start_def paper_init_def demo_request_def)
  with g1 g2 show ?thesis by (fastforce simp: demo_paper_limits_def)
qed


end
