(* ===== verification/Shadow_Broker.thy ===== *)
theory Shadow_Broker
  imports Broker_Interface Kill_Switch_Repository
begin

text \<open>
  The shadow broker, \<open>libs/contracts/mocks/shadow_broker_adapter.py\<close>: every order is filled at once, on paper, at its own price
  or the price of the market. It keeps the contract \<open>order_intake\<close>. Numbers that the adapter prints into its timeline and its profit
  report are kept as numbers.
\<close>

section \<open>State\<close>

record shadow_position =
  sp_quantity :: decimal
  sp_cost_basis :: decimal
  sp_realized_pnl :: decimal

record shadow_decision =
  sd_event_type :: string
  sd_order_id :: string
  sd_broker_order_id :: "string option"
  sd_symbol :: string
  sd_side :: order_side
  sd_order_type :: "order_type option"
  sd_quantity :: decimal
  sd_fill_price :: decimal
  sd_correlation_id :: string
  sd_timestamp :: datetime

record shadow_broker =
  sh_market_prices :: "(string, decimal) dict"
  sh_initial_equity :: decimal
  sh_orders :: "(string, order_response) dict"
  sh_client_id_map :: "(string, string) dict"
  sh_fills :: "(string, order_fill_event list) dict"
  sh_order_counter :: nat
  sh_positions :: "(string, shadow_position) dict"
  sh_timeline :: "shadow_decision list"

definition new_shadow :: "(string, decimal) dict \<Rightarrow> decimal \<Rightarrow> shadow_broker" where
  "new_shadow prices equity =
     \<lparr>sh_market_prices = prices, sh_initial_equity = equity, sh_orders = [], sh_client_id_map = [], sh_fills = [], sh_order_counter = 0,
      sh_positions = [], sh_timeline = []\<rparr>"

definition sh_update_market_price :: "string \<Rightarrow> decimal \<Rightarrow> shadow_broker \<Rightarrow> shadow_broker" where
  "sh_update_market_price symbol price b = b\<lparr>sh_market_prices := dict_set symbol price (sh_market_prices b)\<rparr>"

definition sh_market_price :: "shadow_broker \<Rightarrow> string \<Rightarrow> decimal" where
  "sh_market_price b symbol = (case dict_get (sh_market_prices b) symbol of None \<Rightarrow> 100 | Some p \<Rightarrow> p)"

section \<open>Submission\<close>

definition price_or :: "decimal option \<Rightarrow> decimal \<Rightarrow> decimal" where
  "price_or p market = (case p of None \<Rightarrow> market | Some x \<Rightarrow> if x = 0 then market else x)"

definition sh_fill_price :: "shadow_broker \<Rightarrow> order_request \<Rightarrow> decimal" where
  "sh_fill_price b rq =
     (let market = sh_market_price b (rq_symbol rq)
      in case rq_order_type rq of
           MARKET \<Rightarrow> market
         | LIMIT \<Rightarrow> price_or (rq_limit_price rq) market
         | STOP \<Rightarrow> price_or (rq_stop_price rq) market
         | STOP_LIMIT \<Rightarrow> price_or (rq_limit_price rq) market)"

definition flat_position :: shadow_position where
  "flat_position = \<lparr>sp_quantity = 0, sp_cost_basis = 0, sp_realized_pnl = 0\<rparr>"

definition update_shadow_position :: "order_side \<Rightarrow> decimal \<Rightarrow> decimal \<Rightarrow> shadow_position \<Rightarrow> shadow_position" where
  "update_shadow_position side quantity price pos =
     (let current = sp_quantity pos; cost = sp_cost_basis pos; realized = sp_realized_pnl pos
      in case side of
           BUY \<Rightarrow>
             if 0 \<le> current then
               pos\<lparr>sp_quantity := dadd current quantity, sp_cost_basis := dadd cost (dmul quantity price)\<rparr>
             else
               let close_qty = min quantity (dabs current); avg_entry = dec (cost / current);
                   realized' = dadd realized (dmul close_qty (dsub avg_entry price)); remaining = dsub quantity close_qty
               in if 0 < remaining then
                    \<lparr>sp_quantity = remaining, sp_cost_basis = dmul remaining price, sp_realized_pnl = realized'\<rparr>
                  else
                    \<lparr>sp_quantity = dadd current quantity, sp_cost_basis = dmul cost (dec (dadd current quantity / current)), sp_realized_pnl = realized'\<rparr>
         | SELL \<Rightarrow>
             if 0 < current then
               let close_qty = min quantity current; avg_entry = dec (cost / current);
                   realized' = dadd realized (dmul close_qty (dsub price avg_entry)); remaining = dsub quantity close_qty
               in if 0 < remaining then
                    \<lparr>sp_quantity = dneg remaining, sp_cost_basis = dneg (dmul remaining price), sp_realized_pnl = realized'\<rparr>
                  else
                    \<lparr>sp_quantity = dsub current quantity, sp_cost_basis = dmul cost (dec (dsub current quantity / current)), sp_realized_pnl = realized'\<rparr>
             else
               pos\<lparr>sp_quantity := dsub current quantity, sp_cost_basis := dsub cost (dmul quantity price)\<rparr>)"

definition sh_position :: "shadow_broker \<Rightarrow> string \<Rightarrow> shadow_position" where
  "sh_position b symbol = (case dict_get (sh_positions b) symbol of None \<Rightarrow> flat_position | Some pos \<Rightarrow> pos)"

definition shadow_order_id :: "nat \<Rightarrow> string" where
  "shadow_order_id n = ''SHADOW-'' @ pad6 n"

definition shadow_response :: "string \<Rightarrow> datetime \<Rightarrow> decimal \<Rightarrow> order_request \<Rightarrow> order_response" where
  "shadow_response bid now price rq =
     \<lparr>os_client_order_id = rq_client_order_id rq, os_broker_order_id = Some bid, os_symbol = rq_symbol rq, os_side = rq_side rq,
      os_order_type = rq_order_type rq, os_quantity = rq_quantity rq, os_filled_quantity = rq_quantity rq, os_average_fill_price = Some price,
      os_status = FILLED, os_limit_price = rq_limit_price rq, os_stop_price = rq_stop_price rq, os_time_in_force = rq_time_in_force rq,
      os_submitted_at = Some now, os_filled_at = Some now, os_cancelled_at = None, os_rejected_reason = None,
      os_correlation_id = rq_correlation_id rq, os_execution_mode = SHADOW\<rparr>"

definition shadow_fill :: "nat \<Rightarrow> datetime \<Rightarrow> decimal \<Rightarrow> order_request \<Rightarrow> order_fill_event" where
  "shadow_fill n now price rq =
     \<lparr>fe_fill_id = ''SHADOW-FILL-'' @ pad6 n, fe_order_id = rq_client_order_id rq, fe_broker_order_id = Some (shadow_order_id n),
      fe_symbol = rq_symbol rq, fe_side = rq_side rq, fe_price = price, fe_quantity = rq_quantity rq, fe_commission = 0, fe_filled_at = now,
      fe_broker_execution_id = Some (''SHADOW-EXEC-'' @ pad6 n), fe_correlation_id = rq_correlation_id rq\<rparr>"

definition record_decision :: "shadow_decision \<Rightarrow> shadow_broker \<Rightarrow> shadow_broker" where
  "record_decision d b = b\<lparr>sh_timeline := sh_timeline b @ [d]\<rparr>"

text \<open>The fill event's schema refuses a price that is not positive, when the order is already stored.\<close>

definition sh_submit_order :: "datetime \<Rightarrow> order_request \<Rightarrow> shadow_broker \<Rightarrow> (exn, order_response) result \<times> shadow_broker" where
  "sh_submit_order now rq b =
     (case dict_get (sh_client_id_map b) (rq_client_order_id rq) of
        Some existing_id \<Rightarrow> ((case dict_get (sh_orders b) existing_id of Some r \<Rightarrow> Inr r | None \<Rightarrow> Inl (PyError ''KeyError'')), b)
      | None \<Rightarrow>
          let n = sh_order_counter b + 1; bid = shadow_order_id n; price = sh_fill_price b rq; response = shadow_response bid now price rq;
              submitted = \<lparr>sd_event_type = ''shadow_order_submitted'', sd_order_id = rq_client_order_id rq, sd_broker_order_id = None,
                sd_symbol = rq_symbol rq, sd_side = rq_side rq, sd_order_type = Some (rq_order_type rq), sd_quantity = rq_quantity rq,
                sd_fill_price = price, sd_correlation_id = rq_correlation_id rq, sd_timestamp = now\<rparr>;
              b1 = (record_decision submitted (b\<lparr>sh_order_counter := n\<rparr>))
                     \<lparr>sh_orders := dict_set bid response (sh_orders b),
                      sh_client_id_map := dict_set (rq_client_order_id rq) bid (sh_client_id_map b)\<rparr>
          in if \<not> (0 < price \<and> 0 < rq_quantity rq) then (Inl (PyError ''pydantic.ValidationError''), b1)
             else
               (Inr response,
                record_decision
                  (submitted\<lparr>sd_event_type := ''shadow_order_filled'', sd_broker_order_id := Some bid, sd_order_type := None\<rparr>)
                  (b1\<lparr>sh_fills := dict_set bid [shadow_fill n now price rq] (sh_fills b),
                      sh_positions := dict_set (rq_symbol rq)
                        (update_shadow_position (rq_side rq) (rq_quantity rq) price (sh_position b (rq_symbol rq))) (sh_positions b)\<rparr>)))"

section \<open>Queries\<close>

definition sh_get_order :: "shadow_broker \<Rightarrow> string \<Rightarrow> (exn, order_response) result" where
  "sh_get_order b bid = (case dict_get (sh_orders b) bid of None \<Rightarrow> Inl NotFoundError | Some r \<Rightarrow> Inr r)"

definition sh_cancel_order :: "string \<Rightarrow> shadow_broker \<Rightarrow> (exn, order_response) result \<times> shadow_broker" where
  "sh_cancel_order bid b = (sh_get_order b bid, b)"

definition sh_list_open_orders :: "shadow_broker \<Rightarrow> order_response list" where
  "sh_list_open_orders b = []"

definition sh_get_fills :: "shadow_broker \<Rightarrow> string \<Rightarrow> (exn, order_fill_event list) result" where
  "sh_get_fills b bid = (case dict_get (sh_fills b) bid of None \<Rightarrow> Inl NotFoundError | Some fs \<Rightarrow> Inr fs)"

definition held :: "shadow_broker \<Rightarrow> (string, shadow_position) dict" where
  "held b = filter (\<lambda>(symbol, pos). sp_quantity pos \<noteq> 0) (sh_positions b)"

definition sh_market_value :: "shadow_broker \<Rightarrow> string \<times> shadow_position \<Rightarrow> decimal" where
  "sh_market_value b = (\<lambda>(symbol, pos). dmul (sp_quantity pos) (sh_market_price b symbol))"

definition sh_unrealized :: "shadow_broker \<Rightarrow> string \<times> shadow_position \<Rightarrow> decimal" where
  "sh_unrealized b x = dsub (sh_market_value b x) (sp_cost_basis (snd x))"

definition sh_get_positions :: "datetime \<Rightarrow> shadow_broker \<Rightarrow> position_snapshot list" where
  "sh_get_positions now b =
     map (\<lambda>(symbol, pos).
            \<lparr>ps_symbol = symbol, ps_quantity = sp_quantity pos, ps_average_entry_price = dec (sp_cost_basis pos / sp_quantity pos),
             ps_market_price = sh_market_price b symbol, ps_market_value = sh_market_value b (symbol, pos),
             ps_unrealized_pnl = sh_unrealized b (symbol, pos), ps_realized_pnl = sp_realized_pnl pos, ps_cost_basis = sp_cost_basis pos,
             ps_updated_at = now\<rparr>) (held b)"

definition sh_get_account :: "datetime \<Rightarrow> shadow_broker \<Rightarrow> account_snapshot" where
  "sh_get_account now b =
     (let unrealized = dsum (map (sh_unrealized b) (held b)); realized = dsum (map sp_realized_pnl (dict_values (sh_positions b)));
          equity = dadd (dadd (sh_initial_equity b) realized) unrealized
      in \<lparr>ac_account_id = ''SHADOW-ACCOUNT'', ac_equity = equity, ac_cash = dadd (sh_initial_equity b) realized, ac_buying_power = equity,
          ac_portfolio_value = dsum (map (sh_market_value b) (held b)), ac_daily_pnl = dadd unrealized realized, ac_pending_orders_count = 0,
          ac_positions_count = int (length (held b)), ac_updated_at = now\<rparr>)"

definition sh_get_diagnostics :: "datetime \<Rightarrow> shadow_broker \<Rightarrow> adapter_diagnostics" where
  "sh_get_diagnostics now b =
     \<lparr>ad_broker_name = ''shadow'', ad_connection_status = CONNECTED, ad_latency_ms = 0, ad_error_count_1h = 0, ad_last_heartbeat = Some now,
      ad_last_error = None, ad_market_open = True, ad_orders_submitted_today = int (length (sh_orders b)),
      ad_orders_filled_today = int (length (sh_orders b)), ad_uptime_seconds = 0\<rparr>"

record shadow_pnl_row =
  pr_symbol :: string
  pr_quantity :: decimal
  pr_cost_basis :: decimal
  pr_market_price :: decimal
  pr_unrealized_pnl :: decimal
  pr_realized_pnl :: decimal

record shadow_pnl =
  pn_total_unrealized_pnl :: decimal
  pn_total_realized_pnl :: decimal
  pn_total_equity :: decimal
  pn_positions :: "shadow_pnl_row list"

definition sh_pnl_row :: "shadow_broker \<Rightarrow> string \<times> shadow_position \<Rightarrow> shadow_pnl_row" where
  "sh_pnl_row b x =
     \<lparr>pr_symbol = fst x, pr_quantity = sp_quantity (snd x), pr_cost_basis = sp_cost_basis (snd x), pr_market_price = sh_market_price b (fst x),
      pr_unrealized_pnl = (if sp_quantity (snd x) \<noteq> 0 then sh_unrealized b x else 0), pr_realized_pnl = sp_realized_pnl (snd x)\<rparr>"

definition sh_get_pnl :: "shadow_broker \<Rightarrow> shadow_pnl" where
  "sh_get_pnl b =
     (let rows = map (sh_pnl_row b) (sh_positions b); unrealized = dsum (map pr_unrealized_pnl rows); realized = dsum (map pr_realized_pnl rows)
      in \<lparr>pn_total_unrealized_pnl = unrealized, pn_total_realized_pnl = realized,
          pn_total_equity = dadd (dadd (sh_initial_equity b) realized) unrealized, pn_positions = rows\<rparr>)"

definition sh_clear :: "shadow_broker \<Rightarrow> shadow_broker" where
  "sh_clear b = b\<lparr>sh_orders := [], sh_client_id_map := [], sh_fills := [], sh_positions := [], sh_timeline := [], sh_order_counter := 0\<rparr>"


section \<open>Histories and the contract\<close>

text \<open>The broker as it changes by submissions of valid requests, new prices and \<open>clear\<close>.\<close>

inductive shadow_step :: "shadow_broker \<Rightarrow> shadow_broker \<Rightarrow> bool" where
  submit: "order_request_valid rq \<Longrightarrow> shadow_step b (snd (sh_submit_order now rq b))"
| price: "shadow_step b (sh_update_market_price symbol p b)"
| clear: "shadow_step b (sh_clear b)"

definition sh_inv :: "shadow_broker \<Rightarrow> bool" where
  "sh_inv b \<longleftrightarrow>
     (\<forall>cid bid. dict_get (sh_client_id_map b) cid = Some bid \<longrightarrow> (\<exists>r. dict_get (sh_orders b) bid = Some r \<and> os_client_order_id r = cid)) \<and>
     (\<forall>bid r. dict_get (sh_orders b) bid = Some r \<longrightarrow> (\<exists>n \<le> sh_order_counter b. bid = shadow_order_id n) \<and> os_status r = FILLED) \<and>
     (\<forall>bid. dict_get (sh_orders b) bid = None \<longrightarrow> dict_get (sh_fills b) bid = None)"

lemma shadow_order_id_eq [simp]: "shadow_order_id m = shadow_order_id n \<longleftrightarrow> m = n"
  using mock_event_id_inject [of m n] by (simp add: shadow_order_id_def mock_event_id_def)

lemma sh_inv_known: "sh_inv b \<Longrightarrow> dict_get (sh_client_id_map b) cid = Some bid \<Longrightarrow> \<exists>r. dict_get (sh_orders b) bid = Some r \<and> os_client_order_id r = cid"
  by (simp add: sh_inv_def)

lemma sh_inv_order: "sh_inv b \<Longrightarrow> dict_get (sh_orders b) bid = Some r \<Longrightarrow> (\<exists>n \<le> sh_order_counter b. bid = shadow_order_id n) \<and> os_status r = FILLED"
  by (simp add: sh_inv_def)

lemma sh_inv_fresh: "sh_inv b \<Longrightarrow> dict_get (sh_orders b) (shadow_order_id (Suc (sh_order_counter b))) = None"
  using sh_inv_order [of b "shadow_order_id (Suc (sh_order_counter b))"]
  by (cases "dict_get (sh_orders b) (shadow_order_id (Suc (sh_order_counter b)))") auto

lemma sh_inv_initial [inv_intros]: "sh_inv (new_shadow prices equity)"
  by (simp add: sh_inv_def new_shadow_def)

lemma sh_inv_clear [inv_intros]: "sh_inv (sh_clear b)"
  by (simp add: sh_inv_def sh_clear_def)

lemma sh_inv_price [inv_intros]: "sh_inv b \<Longrightarrow> sh_inv (sh_update_market_price symbol p b)"
  by (simp add: sh_inv_def sh_update_market_price_def)

lemmas submit_defs = sh_submit_order_def record_decision_def Let_def

lemma sh_inv_submit [inv_intros]:
  assumes "sh_inv b"
  shows "sh_inv (snd (sh_submit_order now rq b))"
proof (cases "dict_get (sh_client_id_map b) (rq_client_order_id rq)")
  case None
  let ?bid = "shadow_order_id (Suc (sh_order_counter b))"
  have orders: "\<exists>r. dict_get (sh_orders (snd (sh_submit_order now rq b))) = (dict_get (sh_orders b))(?bid \<mapsto> r) \<and>
      os_client_order_id r = rq_client_order_id rq \<and> os_status r = FILLED"
    and ids: "dict_get (sh_client_id_map (snd (sh_submit_order now rq b))) = (dict_get (sh_client_id_map b))(rq_client_order_id rq \<mapsto> ?bid)"
    and counter: "sh_order_counter (snd (sh_submit_order now rq b)) = Suc (sh_order_counter b)"
    and fills: "dict_get (sh_fills (snd (sh_submit_order now rq b))) bid \<noteq> None \<Longrightarrow> bid = ?bid \<or> dict_get (sh_fills b) bid \<noteq> None" for bid
    using None by (auto simp: submit_defs fun_eq_iff shadow_response_def split: if_splits)
  from orders obtain r where r: "dict_get (sh_orders (snd (sh_submit_order now rq b))) = (dict_get (sh_orders b))(?bid \<mapsto> r)"
    "os_client_order_id r = rq_client_order_id rq" "os_status r = FILLED" by blast
  let ?b' = "snd (sh_submit_order now rq b)"
  have "\<exists>r. dict_get (sh_orders ?b') bid = Some r \<and> os_client_order_id r = cid" if "dict_get (sh_client_id_map ?b') cid = Some bid" for cid bid
    using that sh_inv_known [OF assms, of cid bid] sh_inv_fresh [OF assms] r(2) unfolding r(1) ids by (auto split: if_splits)
  moreover have "(\<exists>n \<le> sh_order_counter ?b'. bid = shadow_order_id n) \<and> os_status r' = FILLED"
    if "dict_get (sh_orders ?b') bid = Some r'" for bid r'
    using that sh_inv_order [OF assms, of bid r'] r(3) unfolding r(1) counter by (auto split: if_splits intro: le_SucI)
  moreover have "dict_get (sh_fills ?b') bid = None" if "dict_get (sh_orders ?b') bid = None" for bid
  proof (rule ccontr)
    assume "dict_get (sh_fills ?b') bid \<noteq> None"
    from fills [OF this] that have "dict_get (sh_fills b) bid \<noteq> None" "dict_get (sh_orders b) bid = None" unfolding r(1) by (auto split: if_splits)
    with assms show False by (simp add: sh_inv_def)
  qed
  ultimately show ?thesis by (simp add: sh_inv_def)
qed (use assms in \<open>simp add: sh_submit_order_def\<close>)

text \<open>The identifier of a new order is the next of the counter.\<close>

interpretation shadow: order_intake "\<lambda>_. sh_submit_order" sh_get_order "\<lambda>b. dict_get (sh_orders b)" "\<lambda>b. dict_get (sh_client_id_map b)"
  "\<lambda>_ b. shadow_order_id (Suc (sh_order_counter b))" "\<lambda>b rq. 0 < sh_fill_price b rq \<and> 0 < rq_quantity rq" sh_inv
proof (unfold_locales, goal_cases)
  case (2 b cid bid)
  then show ?case by (rule sh_inv_known)
next
  case (3 b rq bid nid now)
  then obtain r where "dict_get (sh_orders b) bid = Some r" using sh_inv_known by blast
  with 3 show ?case by (simp add: sh_submit_order_def sh_get_order_def)
next
  case (4 b rq nid now)
  then show ?case by (simp add: submit_defs fun_eq_iff shadow_response_def)
qed (simp_all add: sh_get_order_def sh_inv_submit)

lemma shadow_step_inv: "shadow_step b b' \<Longrightarrow> sh_inv b \<Longrightarrow> sh_inv b'"
  by (induction rule: shadow_step.induct) (auto intro: inv_intros)

text \<open>A repeated submission returns the first order and changes nothing, in every state that the broker can reach.\<close>

theorem shadow_retry_never_duplicates:
  assumes "shadow_step\<^sup>*\<^sup>* (new_shadow prices equity) b" "sh_submit_order now rq b = (Inr r, b')" "order_request_valid rq"
  shows "sh_submit_order now' rq b' = (Inr r, b')"
proof -
  have inv: "sh_inv b" using assms(1) by (induction rule: rtranclp_induct) (auto intro: sh_inv_initial shadow_step_inv)
  show ?thesis
  proof (cases "dict_get (sh_client_id_map b) (rq_client_order_id rq)")
    case None
    with assms(2) have "0 < sh_fill_price b rq \<and> 0 < rq_quantity rq" by (simp add: submit_defs split: if_splits)
    from shadow.submit_retry [OF inv None sh_inv_fresh [OF inv] this assms(2,3)] show ?thesis .
  next
    case (Some bid)
    with assms(2) have "b' = b" by (simp add: sh_submit_order_def)
    with assms(2) Some show ?thesis by (simp add: sh_submit_order_def)
  qed
qed


section \<open>The profit is what the fills earned\<close>

text \<open>The exact results of the operations that an update performs; the update is exact if all of them are representable.\<close>

definition update_terms :: "order_side \<Rightarrow> decimal \<Rightarrow> decimal \<Rightarrow> shadow_position \<Rightarrow> decimal list" where
  "update_terms side q p pos =
     (let cur = sp_quantity pos; cost = sp_cost_basis pos; avg = cost / cur; rest = q - \<bar>cur\<bar>;
          closing = (\<lambda>close gain left. [\<bar>cur\<bar>, avg, gain, close * gain, sp_realized_pnl pos + close * gain, q - close] @
            (if 0 < rest then [rest * p, - rest, - (rest * p)] else [left, left / cur, cost * (left / cur)]))
      in case side of
           BUY \<Rightarrow> if 0 \<le> cur then [cur + q, q * p, cost + q * p] else closing (min q \<bar>cur\<bar>) (avg - p) (cur + q)
         | SELL \<Rightarrow> if 0 < cur then closing (min q cur) (p - avg) (cur - q) else [cur - q, q * p, cost - q * p])"

definition exact_update :: "order_side \<Rightarrow> decimal \<Rightarrow> decimal \<Rightarrow> shadow_position \<Rightarrow> bool" where
  "exact_update side q p pos \<longleftrightarrow> list_all (\<lambda>x. dec x = x) (update_terms side q p pos)"

fun signed :: "order_side \<Rightarrow> decimal \<Rightarrow> decimal" where
  "signed BUY q = q"
| "signed SELL q = - q"

lemma exact_update_books:
  assumes "exact_update side q p pos"
  shows "sp_quantity (update_shadow_position side q p pos) = sp_quantity pos + signed side q \<and>
    sp_cost_basis (update_shadow_position side q p pos) - sp_realized_pnl (update_shadow_position side q p pos) =
      sp_cost_basis pos - sp_realized_pnl pos + signed side q * p"
proof (cases side)
  case BUY
  show ?thesis
  proof (cases "0 \<le> sp_quantity pos")
    case True
    with BUY assms show ?thesis by (simp add: exact_update_def update_terms_def update_shadow_position_def Let_def dadd_def dmul_def)
  next
    case False
    then have "sp_quantity pos \<noteq> 0" by auto
    with False BUY assms show ?thesis
      by (auto simp: exact_update_def update_terms_def update_shadow_position_def Let_def dadd_def dmul_def dsub_def dabs_def min_def)
        (simp_all add: field_simps)
  qed
next
  case SELL
  show ?thesis
  proof (cases "0 < sp_quantity pos")
    case True
    with SELL assms show ?thesis
      by (auto simp: exact_update_def update_terms_def update_shadow_position_def Let_def dadd_def dmul_def dsub_def dneg_def min_def)
        (simp_all add: field_simps)
  next
    case False
    with SELL assms show ?thesis by (simp add: exact_update_def update_terms_def update_shadow_position_def Let_def dsub_def dmul_def)
  qed
qed


definition ledger :: "shadow_broker \<Rightarrow> string \<Rightarrow> order_fill_event list" where
  "ledger b symbol = filter (\<lambda>f. fe_symbol f = symbol) (concat (dict_values (sh_fills b)))"

definition net_quantity :: "order_fill_event list \<Rightarrow> decimal" where
  "net_quantity fs = sum_list (map (\<lambda>f. signed (fe_side f) (fe_quantity f)) fs)"

definition money_paid :: "order_fill_event list \<Rightarrow> decimal" where
  "money_paid fs = sum_list (map (\<lambda>f. signed (fe_side f) (fe_quantity f) * fe_price f) fs)"

lemma net_quantity_simps [simp]: "net_quantity [] = 0" "net_quantity (fs @ [f]) = net_quantity fs + signed (fe_side f) (fe_quantity f)"
  by (simp_all add: net_quantity_def)

lemma money_paid_simps [simp]: "money_paid [] = 0" "money_paid (fs @ [f]) = money_paid fs + signed (fe_side f) (fe_quantity f) * fe_price f"
  by (simp_all add: money_paid_def)

text \<open>A history in which no operation on a position had to be rounded.\<close>

definition exact_request :: "shadow_broker \<Rightarrow> order_request \<Rightarrow> bool" where
  "exact_request b rq \<longleftrightarrow> dict_has (sh_client_id_map b) (rq_client_order_id rq) \<or>
     exact_update (rq_side rq) (rq_quantity rq) (sh_fill_price b rq) (sh_position b (rq_symbol rq))"

inductive exact_step :: "shadow_broker \<Rightarrow> shadow_broker \<Rightarrow> bool" where
  submit: "order_request_valid rq \<Longrightarrow> exact_request b rq \<Longrightarrow> exact_step b (snd (sh_submit_order now rq b))"
| price: "exact_step b (sh_update_market_price symbol p b)"
| clear: "exact_step b (sh_clear b)"

lemma exact_step_step: "exact_step b b' \<Longrightarrow> shadow_step b b'"
  by (induction rule: exact_step.induct) (auto intro: shadow_step.intros)

definition books_explained :: "shadow_broker \<Rightarrow> bool" where
  "books_explained b \<longleftrightarrow>
     (\<forall>symbol. sp_quantity (sh_position b symbol) = net_quantity (ledger b symbol) \<and>
        sp_cost_basis (sh_position b symbol) - sp_realized_pnl (sh_position b symbol) = money_paid (ledger b symbol))"

lemma books_explained_submit:
  assumes "sh_inv b" "books_explained b" "exact_request b rq"
  shows "books_explained (snd (sh_submit_order now rq b))"
proof -
  let ?b' = "snd (sh_submit_order now rq b)" and ?p = "sh_fill_price b rq" and ?n = "Suc (sh_order_counter b)"
  have "?b' = b \<or> (sh_fills ?b' = sh_fills b \<and> sh_positions ?b' = sh_positions b) \<or>
      (\<not> dict_has (sh_client_id_map b) (rq_client_order_id rq) \<and>
       sh_fills ?b' = dict_set (shadow_order_id ?n) [shadow_fill ?n now ?p rq] (sh_fills b) \<and>
       sh_positions ?b' = dict_set (rq_symbol rq) (update_shadow_position (rq_side rq) (rq_quantity rq) ?p (sh_position b (rq_symbol rq))) (sh_positions b))"
    by (cases "dict_get (sh_client_id_map b) (rq_client_order_id rq)") (simp_all add: submit_defs)
  then consider "?b' = b" | "sh_fills ?b' = sh_fills b" "sh_positions ?b' = sh_positions b"
    | "\<not> dict_has (sh_client_id_map b) (rq_client_order_id rq)"
      "sh_fills ?b' = dict_set (shadow_order_id ?n) [shadow_fill ?n now ?p rq] (sh_fills b)"
      "sh_positions ?b' = dict_set (rq_symbol rq) (update_shadow_position (rq_side rq) (rq_quantity rq) ?p (sh_position b (rq_symbol rq))) (sh_positions b)"
    by blast
  then show ?thesis
  proof cases
    case 1
    with assms(2) show ?thesis by simp
  next
    case 2
    with assms(2) show ?thesis by (simp add: books_explained_def sh_position_def ledger_def)
  next
    case 3
    have "dict_get (sh_fills b) (shadow_order_id ?n) = None" using sh_inv_fresh [OF assms(1)] assms(1) by (simp add: sh_inv_def)
    then have ledger: "ledger ?b' symbol = ledger b symbol @ (if symbol = rq_symbol rq then [shadow_fill ?n now ?p rq] else [])" for symbol
      using 3(2) by (simp add: ledger_def dict_values_def dict_set_new shadow_fill_def)
    have "exact_update (rq_side rq) (rq_quantity rq) ?p (sh_position b (rq_symbol rq))" using assms(3) 3(1) by (simp add: exact_request_def)
    from exact_update_books [OF this] assms(2) show ?thesis
      unfolding books_explained_def ledger by (simp add: sh_position_def 3(3) shadow_fill_def)
  qed
qed

lemma exact_reach_explained:
  assumes "exact_step\<^sup>*\<^sup>* (new_shadow prices equity) b"
  shows "sh_inv b \<and> books_explained b"
  using assms
proof (induction rule: rtranclp_induct)
  case base
  show ?case by (simp add: sh_inv_initial) (simp add: new_shadow_def books_explained_def sh_position_def flat_position_def ledger_def dict_values_def)
next
  case (step b b')
  then have "sh_inv b'" using shadow_step_inv exact_step_step by blast
  moreover from step(2) have "books_explained b'"
  proof cases
    case (submit rq now)
    with step.IH show ?thesis by (auto intro: books_explained_submit)
  next
    case (price symbol p)
    with step.IH show ?thesis by (simp add: books_explained_def sh_position_def ledger_def sh_update_market_price_def)
  next
    case clear
    then show ?thesis by (simp add: books_explained_def sh_position_def ledger_def sh_clear_def dict_values_def flat_position_def)
  qed
  ultimately show ?case by blast
qed



definition demo_shadow_request :: "string \<Rightarrow> order_side \<Rightarrow> decimal \<Rightarrow> order_request" where
  "demo_shadow_request cid side q =
     \<lparr>rq_client_order_id = cid, rq_symbol = ''EURUSD'', rq_side = side, rq_order_type = MARKET, rq_quantity = q, rq_limit_price = None,
      rq_stop_price = None, rq_time_in_force = DAY, rq_deployment_id = ''D'', rq_strategy_id = ''S'', rq_correlation_id = ''X'',
      rq_execution_mode = SHADOW, rq_metadata = []\<rparr>"

definition demo_long :: shadow_broker where
  "demo_long = snd (sh_submit_order 1 (demo_shadow_request ''C1'' BUY 10) (new_shadow [] 1000000))"

definition demo_reversed :: shadow_broker where
  "demo_reversed = snd (sh_submit_order 2 (demo_shadow_request ''C2'' SELL 15) (sh_update_market_price ''EURUSD'' 120 demo_long))"

lemma shadow_decs: "dec 10 = 10" "dec 1000 = 1000" "dec 20 = 20" "dec 200 = 200" "dec 5 = 5" "dec 100 = 100" "dec 600 = 600"
  "dec (- 5) = - 5" "dec (- 600) = - 600"
  using dec_of_int [of 10] dec_of_int [of 1000] dec_of_int [of 20] dec_of_int [of 200] dec_of_int [of 5] dec_of_int [of 100] dec_of_int [of 600]
    dec_of_int [of "- 5"] dec_of_int [of "- 600"] by simp_all

lemmas demo_shadow_defs = demo_shadow_request_def demo_long_def submit_defs new_shadow_def sh_position_def flat_position_def sh_fill_price_def
  sh_market_price_def sh_update_market_price_def update_shadow_position_def dadd_def dmul_def shadow_decs

lemma demo_reversed_reach: "exact_step\<^sup>*\<^sup>* (new_shadow [] 1000000) demo_reversed"
proof -
  have "exact_step (new_shadow [] 1000000) demo_long" unfolding demo_long_def
    by (rule exact_step.submit) (simp_all add: order_request_valid_def exact_request_def exact_update_def update_terms_def demo_shadow_defs)
  moreover have "exact_step demo_long (sh_update_market_price ''EURUSD'' 120 demo_long)" by (rule exact_step.price)
  moreover have "exact_step (sh_update_market_price ''EURUSD'' 120 demo_long) demo_reversed" unfolding demo_reversed_def
    by (rule exact_step.submit) (simp_all add: order_request_valid_def exact_request_def exact_update_def update_terms_def demo_shadow_defs)
  ultimately show ?thesis by (meson converse_rtranclp_into_rtranclp rtranclp.rtrancl_refl)
qed


text \<open>
  A price that is not positive is noticed too late: the order is stored as filled, without a fill and without a position, and a
  repetition returns it as filled.
\<close>

theorem refused_fill_leaves_order_filled:
  assumes "dict_get (sh_client_id_map b) (rq_client_order_id rq) = None" "sh_fill_price b rq \<le> 0"
  shows "\<exists>b' bid r. sh_submit_order now rq b = (Inl (PyError ''pydantic.ValidationError''), b') \<and>
    sh_submit_order now' rq b' = (Inr r, b') \<and> os_status r = FILLED \<and> os_broker_order_id r = Some bid \<and>
    sh_fills b' = sh_fills b \<and> sh_positions b' = sh_positions b"
  using assms by (simp add: submit_defs shadow_response_def)

end
