(* ===== verification/Shadow_Execution.thy ===== *)
theory Shadow_Execution
  imports Shadow_Broker Risk_Gate
begin

text \<open>
  The shadow execution service, \<open>services/api/services/shadow_execution_service.py\<close>: one shadow broker per deployment, with the check of
  the deployment and the risk gate in front of it.
\<close>

section \<open>The service\<close>

type_synonym shadow_adapters = "(string, shadow_broker) dict"

definition sx_get_adapter :: "shadow_adapters \<Rightarrow> string \<Rightarrow> (exn, shadow_broker) result" where
  "sx_get_adapter ads did = (case dict_get ads did of None \<Rightarrow> Inl NotFoundError | Some b \<Rightarrow> Inr b)"

definition sx_validate_deployment :: "'s deployment_repo \<Rightarrow> 's \<Rightarrow> string \<Rightarrow> shadow_adapters \<Rightarrow> (exn, unit) result" where
  "sx_validate_deployment repo s did ads =
     (case dr_get_by_id repo s did of
        None \<Rightarrow> Inl NotFoundError
      | Some d \<Rightarrow>
          if dp_state d \<noteq> ''active'' then Inl (StateTransitionError (Some (dp_state d)) (Some ''active''))
          else if dp_execution_mode d \<noteq> ''shadow'' then Inl (StateTransitionError (Some (dp_execution_mode d)) (Some ''shadow''))
          else if \<not> dict_has ads did then Inl NotFoundError
          else Inr ())"

definition sx_register_deployment :: "string \<Rightarrow> decimal \<Rightarrow> (string, decimal) dict \<Rightarrow> shadow_adapters \<Rightarrow> (exn, unit) result \<times> shadow_adapters" where
  "sx_register_deployment did equity prices ads =
     (if dict_has ads did then (Inl ValidationError, ads) else (Inr (), dict_set did (new_shadow prices equity) ads))"

definition sx_deregister_deployment :: "string \<Rightarrow> shadow_adapters \<Rightarrow> (exn, unit) result \<times> shadow_adapters" where
  "sx_deregister_deployment did ads = (if \<not> dict_has ads did then (Inl NotFoundError, ads) else (Inr (), dict_del did ads))"

definition execute_shadow_order ::
  "'s deployment_repo \<Rightarrow> 'e risk_event_repo \<Rightarrow> event_ids \<Rightarrow> datetime \<Rightarrow> string \<Rightarrow> order_request \<Rightarrow> string \<Rightarrow> 's \<Rightarrow> shadow_adapters \<times> 'e \<Rightarrow>
     (exn, order_response) result \<times> shadow_adapters \<times> 'e" where
  "execute_shadow_order repo erepo ids now did rq corr s st =
     (case st of (ads, e) \<Rightarrow>
        (case sx_validate_deployment repo s did ads of
           Inl x \<Rightarrow> (Inl x, ads, e)
         | Inr _ \<Rightarrow>
             (case dict_get ads did of
                None \<Rightarrow> (Inl (PyError ''KeyError''), ads, e)
              | Some b \<Rightarrow>
                  (case enforce_order repo erepo ids did rq (sh_get_positions now b) (sh_get_account now b) corr s e of
                     (Inl x, e') \<Rightarrow> (Inl x, ads, e')
                   | (Inr _, e') \<Rightarrow> (case sh_submit_order now rq b of (r, b') \<Rightarrow> (r, dict_set did b' ads, e'))))))"

definition sx_update_market_price :: "string \<Rightarrow> string \<Rightarrow> decimal \<Rightarrow> shadow_adapters \<Rightarrow> (exn, unit) result \<times> shadow_adapters" where
  "sx_update_market_price did symbol price ads =
     (case sx_get_adapter ads did of
        Inl x \<Rightarrow> (Inl x, ads)
      | Inr b \<Rightarrow> (Inr (), dict_set did (sh_update_market_price symbol price b) ads))"

definition get_shadow_decisions :: "string \<Rightarrow> shadow_adapters \<Rightarrow> (exn, shadow_decision list) result" where
  "get_shadow_decisions did ads = bind_r (sx_get_adapter ads did) (\<lambda>b. Inr (sh_timeline b))"

definition get_shadow_pnl :: "string \<Rightarrow> shadow_adapters \<Rightarrow> (exn, shadow_pnl) result" where
  "get_shadow_pnl did ads = bind_r (sx_get_adapter ads did) (\<lambda>b. Inr (sh_get_pnl b))"

definition get_shadow_positions :: "datetime \<Rightarrow> string \<Rightarrow> shadow_adapters \<Rightarrow> (exn, position_snapshot list) result" where
  "get_shadow_positions now did ads = bind_r (sx_get_adapter ads did) (\<lambda>b. Inr (sh_get_positions now b))"

definition get_shadow_account :: "datetime \<Rightarrow> string \<Rightarrow> shadow_adapters \<Rightarrow> (exn, account_snapshot) result" where
  "get_shadow_account now did ads = bind_r (sx_get_adapter ads did) (\<lambda>b. Inr (sh_get_account now b))"

section \<open>Positions stay within their limit\<close>

text \<open>The broker's table of positions has each symbol once, with quantities that fit 28 digits.\<close>

definition positions_ok :: "shadow_broker \<Rightarrow> bool" where
  "positions_ok b \<longleftrightarrow> dict_ok (sh_positions b) \<and> (\<forall>symbol. dec_repr (sp_quantity (sh_position b symbol)))"

text \<open>What the gate computes as the position after the order is what the broker then has.\<close>

lemma updated_quantity:
  assumes "dec_repr (sp_quantity pos)" "dec_repr q"
  shows "sp_quantity (update_shadow_position side q p pos) = dadd (sp_quantity pos) (if side = BUY then q else dneg q)"
proof -
  note exact = decimal.rnd_exact [OF assms(1)] decimal.rnd_exact [OF assms(2)]
  have neg: "dec (- x) = - dec x" for x by (rule decimal.rnd_minus)
  have idem: "dec (dec x) = dec x" for x by (rule decimal.rnd_exact) (rule decimal.repr_rnd)
  have swap: "- dec (x - y) = dec (y - x)" for x y using neg [of "x - y"] by simp
  show ?thesis
  proof (cases side)
    case BUY
    then show ?thesis
      by (auto simp: update_shadow_position_def Let_def dadd_def dsub_def dabs_def exact neg abs_if min_def decimal.rnd_pos_iff decimal.rnd_idem add.commute split: if_splits)
  next
    case SELL
    then show ?thesis
      by (auto simp: update_shadow_position_def Let_def dadd_def dsub_def dneg_def exact neg idem swap min_def decimal.rnd_pos_iff split: if_splits)
  qed
qed


lemma find_nonzero:
  assumes "\<And>x. ps_symbol (f x) = fst x" "\<And>x. ps_quantity (f x) = sp_quantity (snd x)"
  shows "distinct (map fst d) \<Longrightarrow>
    (case find (\<lambda>p. ps_symbol p = symbol) (map f (filter (\<lambda>(symbol, pos). sp_quantity pos \<noteq> 0) d)) of Some p \<Rightarrow> ps_quantity p | None \<Rightarrow> 0) =
    (case dict_get d symbol of None \<Rightarrow> 0 | Some pos \<Rightarrow> sp_quantity pos)"
proof (induction d)
  case (Cons x d)
  show ?case
  proof (cases "fst x = symbol")
    case True
    with Cons.prems have "dict_get d symbol = None" by (auto simp: map_of_eq_None_iff)
    with Cons True assms show ?thesis by (cases x) simp
  next
    case False
    with Cons assms show ?thesis by (cases x) simp
  qed
qed simp

lemma find_held:
  assumes "positions_ok b"
  shows "(case find_position symbol (sh_get_positions now b) of Some p \<Rightarrow> ps_quantity p | None \<Rightarrow> 0) = sp_quantity (sh_position b symbol)"
  unfolding find_position_def sh_get_positions_def held_def
  by (subst find_nonzero) (use assms in \<open>auto simp: positions_ok_def dict_ok_def sh_position_def flat_position_def split: option.splits\<close>)

lemma positions_ok_submit:
  assumes "positions_ok b" "dec_repr (rq_quantity rq)"
  shows "positions_ok (snd (sh_submit_order now rq b)) \<and>
    (snd (sh_submit_order now rq b) = b \<or> sh_positions (snd (sh_submit_order now rq b)) = sh_positions b \<or>
     (\<forall>symbol. sp_quantity (sh_position (snd (sh_submit_order now rq b)) symbol) =
       (if symbol = rq_symbol rq then dadd (sp_quantity (sh_position b symbol)) (if rq_side rq = BUY then rq_quantity rq else dneg (rq_quantity rq))
        else sp_quantity (sh_position b symbol))))"
proof -
  let ?b' = "snd (sh_submit_order now rq b)"
  have "?b' = b \<or> sh_positions ?b' = sh_positions b \<or>
      sh_positions ?b' = dict_set (rq_symbol rq)
        (update_shadow_position (rq_side rq) (rq_quantity rq) (sh_fill_price b rq) (sh_position b (rq_symbol rq))) (sh_positions b)"
    by (cases "dict_get (sh_client_id_map b) (rq_client_order_id rq)") (simp_all add: submit_defs)
  then consider "sh_positions ?b' = sh_positions b" | "sh_positions ?b' = dict_set (rq_symbol rq)
        (update_shadow_position (rq_side rq) (rq_quantity rq) (sh_fill_price b rq) (sh_position b (rq_symbol rq))) (sh_positions b)" by metis
  then show ?thesis
  proof cases
    case 1
    with assms(1) show ?thesis by (simp add: positions_ok_def sh_position_def)
  next
    case 2
    then have q: "sp_quantity (sh_position ?b' symbol) =
       (if symbol = rq_symbol rq then dadd (sp_quantity (sh_position b symbol)) (if rq_side rq = BUY then rq_quantity rq else dneg (rq_quantity rq))
        else sp_quantity (sh_position b symbol))" for symbol
      using updated_quantity [of "sh_position b (rq_symbol rq)" "rq_quantity rq"] assms by (simp add: sh_position_def [of ?b'] positions_ok_def) (simp add: sh_position_def)
    moreover have "dict_ok (sh_positions ?b')" using assms(1) 2 by (simp add: positions_ok_def)
    ultimately show ?thesis using assms(1) by (simp add: positions_ok_def dadd_def decimal.repr_rnd)
  qed
qed

text \<open>Histories of the service, one request at a time; the limits of a deployment are those of \<open>lims\<close>.\<close>

inductive shadow_request ::
  "'s deployment_repo \<Rightarrow> 'e risk_event_repo \<Rightarrow> (string \<Rightarrow> limits_doc) \<Rightarrow> shadow_adapters \<times> 'e \<Rightarrow> shadow_adapters \<times> 'e \<Rightarrow> bool"
  for repo erepo lims where
  register: "shadow_request repo erepo lims (ads, e) (snd (sx_register_deployment did equity prices ads), e)"
| deregister: "shadow_request repo erepo lims (ads, e) (snd (sx_deregister_deployment did ads), e)"
| submit: "order_request_valid rq \<Longrightarrow> dec_repr (rq_quantity rq) \<Longrightarrow> (\<And>d. dr_get_by_id repo s did = Some d \<Longrightarrow> dp_risk_limits d = lims did) \<Longrightarrow>
    shadow_request repo erepo lims (ads, e) (snd (execute_shadow_order repo erepo ids now did rq corr s (ads, e)))"
| price: "shadow_request repo erepo lims (ads, e) (snd (sx_update_market_price did symbol p ads), e)"

definition position_limited :: "limits_doc \<Rightarrow> shadow_broker \<Rightarrow> bool" where
  "position_limited doc b \<longleftrightarrow> (doc \<noteq> empty_doc \<longrightarrow> (\<forall>limits symbol. deserialize_limits doc = Inr limits \<longrightarrow> 0 < pl_max_position_size limits \<longrightarrow>
     \<bar>sp_quantity (sh_position b symbol)\<bar> \<le> pl_max_position_size limits))"

definition shadows_ok :: "(string \<Rightarrow> limits_doc) \<Rightarrow> shadow_adapters \<Rightarrow> bool" where
  "shadows_ok lims ads \<longleftrightarrow> (\<forall>did b. dict_get ads did = Some b \<longrightarrow> positions_ok b \<and> position_limited (lims did) b)"

lemma same_positions:
  assumes "sh_positions b' = sh_positions b"
  shows "positions_ok b' = positions_ok b" "position_limited doc b' = position_limited doc b"
  using assms by (simp_all add: positions_ok_def position_limited_def sh_position_def)

lemma shadow_order_ok:
  assumes "shadows_ok lims ads" "dec_repr (rq_quantity rq)" "\<And>d. dr_get_by_id repo s did = Some d \<Longrightarrow> dp_risk_limits d = lims did"
    "execute_shadow_order repo erepo ids now did rq corr s (ads, e) = (res, ads', e')"
  shows "shadows_ok lims ads'"
proof (cases "ads' = ads")
  case False
  with assms(4) obtain d b where d: "dr_get_by_id repo s did = Some d" "dict_get ads did = Some b" "ads' = dict_set did (snd (sh_submit_order now rq b)) ads"
    "fst (enforce_order repo erepo ids did rq (sh_get_positions now b) (sh_get_account now b) corr s e) = Inr ()"
    by (auto simp: execute_shadow_order_def sx_validate_deployment_def split: option.splits sum.splits prod.splits if_splits)
  have b: "positions_ok b" "position_limited (lims did) b" using assms(1) d(2) by (auto simp: shadows_ok_def)
  note after = positions_ok_submit [OF b(1) assms(2), of now]
  have "\<bar>sp_quantity (sh_position (snd (sh_submit_order now rq b)) symbol)\<bar> \<le> pl_max_position_size limits"
    if doc: "lims did \<noteq> empty_doc" "deserialize_limits (lims did) = Inr limits" "0 < pl_max_position_size limits" for limits symbol
  proof -
    have "within_limits rq (sh_get_positions now b) (sh_get_account now b) limits"
      using enforced_within_limits [OF d(4,1)] assms(3) [OF d(1)] doc by simp
    then have "dabs (dadd (sp_quantity (sh_position b (rq_symbol rq))) (if rq_side rq = BUY then rq_quantity rq else dneg (rq_quantity rq))) \<le> pl_max_position_size limits"
      using doc(3) by (simp add: within_limits_def find_held [OF b(1)])
    moreover have "dabs (dadd x y) = \<bar>dadd x y\<bar>" for x y by (simp add: dabs_def dadd_def decimal.rnd_abs decimal.rnd_idem)
    ultimately show ?thesis using after b(2) doc by (fastforce simp: position_limited_def sh_position_def)
  qed
  then have "position_limited (lims did) (snd (sh_submit_order now rq b))" by (simp add: position_limited_def)
  with assms(1) after d(3) show ?thesis by (simp add: shadows_ok_def)
qed (use assms(1) in simp)

lemma shadow_request_ok:
  assumes "shadow_request repo erepo lims st st'" "shadows_ok lims (fst st)"
  shows "shadows_ok lims (fst st')"
  using assms
proof cases
  case (register ads e did equity prices)
  moreover have "positions_ok (new_shadow prices equity) \<and> position_limited doc (new_shadow prices equity)" for doc
    using dec_repr_of_int [of 0] by (auto simp: positions_ok_def position_limited_def new_shadow_def sh_position_def flat_position_def)
  ultimately show ?thesis using assms(2) by (auto simp: sx_register_deployment_def shadows_ok_def split: if_splits)
next
  case (deregister ads e did)
  then show ?thesis using assms(2) by (auto simp: sx_deregister_deployment_def shadows_ok_def split: if_splits)
next
  case (submit rq s did ads e ids now corr)
  obtain res ads' e' where "execute_shadow_order repo erepo ids now did rq corr s (ads, e) = (res, ads', e')" by (metis prod_cases3)
  moreover have "shadows_ok lims ads" using assms(2) submit(1) by simp
  ultimately show ?thesis using shadow_order_ok [of lims ads rq repo s did erepo ids now corr e res ads' e'] submit by simp
next
  case (price ads e did symbol p)
  then show ?thesis using assms(2) same_positions [of "sh_update_market_price symbol p b" b for b]
    by (auto simp: sx_update_market_price_def sx_get_adapter_def shadows_ok_def sh_update_market_price_def split: option.splits)
qed

text \<open>
  C19. The limit on positions holds in shadow mode over every history of requests, one at a time: whatever was bought, sold, covered
  and reversed, no position of a deployment is ever larger, long or short, than its limit (for quantities of at most 28
  digits, so that the broker's position is the one that the gate computed).
\<close>

theorem shadow_positions_within_limit:
  assumes "(shadow_request repo erepo lims)\<^sup>*\<^sup>* ([], e) (ads, e')" "dict_get ads did = Some b"
    "lims did \<noteq> empty_doc" "deserialize_limits (lims did) = Inr limits" "0 < pl_max_position_size limits"
  shows "\<bar>sp_quantity (sh_position b symbol)\<bar> \<le> pl_max_position_size limits"
proof -
  have "shadows_ok lims (fst (ads, e'))"
    using assms(1) by (induction rule: rtranclp_induct) (auto simp: shadows_ok_def [of lims "[]"] intro: shadow_request_ok)
  with assms show ?thesis by (auto simp: shadows_ok_def position_limited_def)
qed


definition demo_shadow :: deployment where
  "demo_shadow = demo_active\<lparr>dp_execution_mode := ''shadow'', dp_risk_limits := empty_doc\<lparr>ld_max_position_size := Some (DecText 10)\<rparr>\<rparr>"

definition demo_shadow_repo :: mock_repo where
  "demo_shadow_repo = \<lparr>mr_store = [(''D1'', demo_shadow)], mr_transitions = []\<rparr>"

definition demo_shadow_limits :: pre_trade_risk_limits where
  "demo_shadow_limits = \<lparr>pl_max_position_size = 10, pl_max_daily_loss = 0, pl_max_order_value = 0, pl_max_concentration_pct = 0, pl_max_open_orders = 0\<rparr>"

lemma demo_shadow_facts:
  "dr_get_by_id mock_deployment_repo demo_shadow_repo ''D1'' = Some demo_shadow" "dp_risk_limits demo_shadow \<noteq> empty_doc"
  "deserialize_limits (dp_risk_limits demo_shadow) = Inr demo_shadow_limits"
  by (simp_all add: demo_shadow_repo_def mock_get_by_id_def demo_shadow_def deserialize_limits_def empty_doc_def limit_decimal_def demo_shadow_limits_def)

definition demo_shadow_state :: "shadow_adapters \<times> risk_event list" where
  "demo_shadow_state = snd (execute_shadow_order mock_deployment_repo mock_event_repo demo_event_ids 1 ''D1'' (demo_shadow_request ''C1'' BUY 10) ''X'' demo_shadow_repo
     ([(''D1'', new_shadow [] 1000000)], []))"

lemma demo_shadow_filled: "\<exists>e. demo_shadow_state = ([(''D1'', demo_long)], e)"
proof -
  let ?rq = "demo_shadow_request ''C1'' BUY 10" and ?b = "new_shadow [] 1000000"
  have "fst (enforce_order mock_deployment_repo mock_event_repo demo_event_ids ''D1'' ?rq (sh_get_positions 1 ?b) (sh_get_account 1 ?b) ''X'' demo_shadow_repo []) = Inr ()"
    using run_checks_passing [of mock_event_repo demo_event_ids 0 "''D1''" ?rq "''X''" "ordered_checks ?rq (sh_get_positions 1 ?b) (sh_get_account 1 ?b) demo_shadow_limits" "[]"]
      demo_shadow_facts
    by (simp add: enforce_iff_check check_order_def ordered_checks_passing within_limits_def reportable_def demo_shadow_limits_def find_position_def
        sh_get_positions_def held_def new_shadow_def demo_shadow_request_def dabs_def dadd_def shadow_decs)
  moreover have "sx_validate_deployment mock_deployment_repo demo_shadow_repo ''D1'' [(''D1'', ?b)] = Inr ()"
    unfolding sx_validate_deployment_def demo_shadow_facts(1) by (simp add: demo_shadow_def demo_active_def dict_has_def)
  ultimately show ?thesis
    by (auto simp: demo_shadow_state_def execute_shadow_order_def demo_long_def split: prod.splits sum.splits)
qed

theorem shadow_positions_within_limit_witness:
  "\<exists>e. (shadow_request mock_deployment_repo mock_event_repo (\<lambda>did. dp_risk_limits demo_shadow))\<^sup>*\<^sup>* ([], []) ([(''D1'', demo_long)], e) \<and>
     sp_quantity (sh_position demo_long ''EURUSD'') = 10 \<and> \<bar>sp_quantity (sh_position demo_long ''EURUSD'')\<bar> \<le> pl_max_position_size demo_shadow_limits"
proof -
  let ?step = "shadow_request mock_deployment_repo mock_event_repo (\<lambda>did. dp_risk_limits demo_shadow)"
  obtain e where e: "demo_shadow_state = ([(''D1'', demo_long)], e)" using demo_shadow_filled by blast
  have "?step ([], []) (snd (sx_register_deployment ''D1'' 1000000 [] []), [])" by (rule shadow_request.register)
  then have "?step ([], []) ([(''D1'', new_shadow [] 1000000)], [])" by (simp add: sx_register_deployment_def dict_has_def)
  moreover have "?step ([(''D1'', new_shadow [] 1000000)], []) demo_shadow_state" unfolding demo_shadow_state_def
    by (rule shadow_request.submit) (use dec_repr_of_int [of 10] demo_shadow_facts in \<open>auto simp: order_request_valid_def demo_shadow_request_def\<close>)
  ultimately have r: "?step\<^sup>*\<^sup>* ([], []) ([(''D1'', demo_long)], e)" unfolding e by (meson converse_rtranclp_into_rtranclp rtranclp.rtrancl_refl)
  have "\<bar>sp_quantity (sh_position demo_long ''EURUSD'')\<bar> \<le> pl_max_position_size demo_shadow_limits"
    by (rule shadow_positions_within_limit [OF r, of "''D1''"]) (use demo_shadow_facts in \<open>simp_all add: demo_shadow_limits_def\<close>)
  with r show ?thesis by (auto simp: demo_shadow_defs)
qed

end
