(* ===== verification/Resilient_Adapter.thy ===== *)
theory Resilient_Adapter
  imports Circuit_Breaker Kill_Switch_Venues Live_Execution
begin

text \<open>
  The adapter that puts a circuit breaker in front of another, \<open>services/api/infrastructure/resilient_adapter.py\<close>, and the retries of
  \<open>services/api/infrastructure/task_retry.py\<close>. The state is the world of the inner adapters and one breaker per adapter; \<open>env\<close> gives
  the breaker's clock and the failures of Redis from the state of the world.
\<close>

section \<open>The wrapper\<close>

type_synonym 'w guarded_world = "'w \<times> (string \<Rightarrow> circuit_breaker)"

text \<open>A call through the breaker: the inner adapter is called only if the breaker lets the call through.\<close>

definition guarded ::
  "('w \<Rightarrow> cb_env) \<Rightarrow> string \<Rightarrow> ('w \<Rightarrow> (exn, 'a) result \<times> 'w) \<Rightarrow> 'w guarded_world \<Rightarrow> (exn, 'a) result \<times> 'w guarded_world" where
  "guarded env name fn st =
     (case st of (w, bs) \<Rightarrow>
        (case execute (env w) (fst (fn w)) (bs name) of (r, called, b') \<Rightarrow> (r, if called then snd (fn w) else w, bs(name := b'))))"

definition unguarded :: "('w \<Rightarrow> (exn, 'a) result \<times> 'w) \<Rightarrow> 'w guarded_world \<Rightarrow> (exn, 'a) result \<times> 'w guarded_world" where
  "unguarded fn st = (case st of (w, bs) \<Rightarrow> (case fn w of (r, w') \<Rightarrow> (r, w', bs)))"

text \<open>The wrapper inherits \<open>is_paper_adapter\<close> from the interface, where it is false.\<close>

definition resilient :: "('w \<Rightarrow> cb_env) \<Rightarrow> string \<Rightarrow> 'w adapter \<Rightarrow> 'w guarded_world adapter" where
  "resilient env name inner =
     \<lparr>a_connect = unguarded (a_connect inner), a_disconnect = unguarded (a_disconnect inner),
      a_submit_order = (\<lambda>rq. guarded env name (a_submit_order inner rq)), a_cancel_order = (\<lambda>bid. guarded env name (a_cancel_order inner bid)),
      a_get_order = (\<lambda>bid. guarded env name (a_get_order inner bid)), a_list_open_orders = guarded env name (a_list_open_orders inner),
      a_get_fills = (\<lambda>bid. guarded env name (a_get_fills inner bid)), a_get_positions = guarded env name (a_get_positions inner),
      a_get_account = guarded env name (a_get_account inner), a_is_paper_adapter = False\<rparr>"

text \<open>The two queries that the registry's clients do not use: the market's state goes through the breaker, the diagnostics do not.\<close>

definition resilient_is_market_open ::
  "('w \<Rightarrow> cb_env) \<Rightarrow> string \<Rightarrow> ('w \<Rightarrow> (exn, bool) result \<times> 'w) \<Rightarrow> 'w guarded_world \<Rightarrow> (exn, bool) result \<times> 'w guarded_world" where
  "resilient_is_market_open env name fn = guarded env name fn"

definition resilient_get_diagnostics ::
  "('w \<Rightarrow> (exn, adapter_diagnostics) result \<times> 'w) \<Rightarrow> 'w guarded_world \<Rightarrow> (exn, adapter_diagnostics) result \<times> 'w guarded_world" where
  "resilient_get_diagnostics fn = unguarded fn"

text \<open>The host of a service with such adapters.\<close>

definition guarded_host :: "'w host \<Rightarrow> 'w guarded_world host" where
  "guarded_host h =
     \<lparr>h_now = (\<lambda>(w, bs). case h_now h w of (t, w') \<Rightarrow> (t, w', bs)),
      h_monotonic_ns = (\<lambda>(w, bs). case h_monotonic_ns h w of (t, w') \<Rightarrow> (t, w', bs)),
      h_monotonic = (\<lambda>(w, bs). case h_monotonic h w of (t, w') \<Rightarrow> (t, w', bs)),
      h_ulid = (\<lambda>(w, bs). case h_ulid h w of (u, w') \<Rightarrow> (u, w', bs)),
      h_sleep = (\<lambda>n (w, bs). (h_sleep h n w, bs))\<rparr>"

section \<open>What a guarded call can do\<close>

text \<open>A breaker that does not call answers with an exception, and one that calls passes a value on as it is.\<close>

lemma execute_value: "execute env fn b = (Inr v, called, b') \<Longrightarrow> called \<and> fn = Inr v"
  by (auto simp: execute_def execute_closed_def execute_open_def execute_half_open_def Let_def
      split: circuit_state.splits sum.splits option.splits stamp.splits if_splits)

lemma guarded_value: "guarded env name fn (w, bs) = (Inr v, w', bs') \<Longrightarrow> fn w = (Inr v, w')"
  by (auto simp: guarded_def split: prod.splits dest!: execute_value intro: prod_eqI)

lemma guarded_world: "fst (snd (guarded env name fn (w, bs))) = snd (fn w) \<or> fst (snd (guarded env name fn (w, bs))) = w"
  by (simp add: guarded_def split: prod.splits)

text \<open>An open breaker whose time has not come answers every call itself.\<close>

definition breaker_shut :: "('w \<Rightarrow> cb_env) \<Rightarrow> string \<Rightarrow> 'w guarded_world \<Rightarrow> bool" where
  "breaker_shut env name st \<longleftrightarrow> cb_state (snd st name) = OPEN \<and>
     (case cb_opened_at (snd st name) of Some (Iso t) \<Rightarrow> elapsed_s (now1 (env (fst st))) t < recovery_timeout_s (cb_config (snd st name)) | _ \<Rightarrow> True)"

lemma guarded_shut: "breaker_shut env name st \<Longrightarrow> \<exists>e. guarded env name fn st = (Inl e, st)"
  by (cases st) (auto simp: breaker_shut_def guarded_def execute_def execute_open_def split: option.splits stamp.splits)


section \<open>Wrapped adapters keep the contract of the venues\<close>

definition wrap_registry :: "('w \<Rightarrow> cb_env) \<Rightarrow> (string, 'w adapter) dict \<Rightarrow> (string, 'w guarded_world adapter) dict" where
  "wrap_registry env registry = map (\<lambda>(did, a). (did, resilient env did a)) registry"

lemma wrap_registry_mem: "(did, a) \<in> set (wrap_registry env registry) \<longleftrightarrow> (\<exists>inner. (did, inner) \<in> set registry \<and> a = resilient env did inner)"
  by (auto simp: wrap_registry_def)

lemma resilient_sel [simp]:
  "a_list_open_orders (resilient env name inner) = guarded env name (a_list_open_orders inner)"
  "a_cancel_order (resilient env name inner) bid = guarded env name (a_cancel_order inner bid)"
  "a_get_order (resilient env name inner) bid = guarded env name (a_get_order inner bid)"
  "a_get_positions (resilient env name inner) = guarded env name (a_get_positions inner)"
  "a_submit_order (resilient env name inner) rq = guarded env name (a_submit_order inner rq)"
  by (simp_all add: resilient_def)

abbreviation guarded_view :: "(string \<Rightarrow> 'w \<Rightarrow> string \<Rightarrow> order_response option) \<Rightarrow> string \<Rightarrow> 'w guarded_world \<Rightarrow> string \<Rightarrow> order_response option" where
  "guarded_view view \<equiv> \<lambda>did st. view did (fst st)"

lemma orders_kept_guarded [simp]: "orders_kept (guarded_view view) st st' = orders_kept view (fst st) (fst st')"
  by (simp add: orders_kept_def)

lemma guarded_keeps:
  assumes "ok (snd (fn (fst st))) \<and> orders_kept view (fst st) (snd (fn (fst st)))" "ok (fst st)"
  shows "ok (fst (snd (guarded env name fn st))) \<and> orders_kept view (fst st) (fst (snd (guarded env name fn st)))"
  using guarded_world [of env name fn "fst st" "snd st"] assms by auto

lemma guarded_host_sel [simp]:
  "fst (snd (h_now (guarded_host h) st)) = snd (h_now h (fst st))" "fst (snd (h_monotonic_ns (guarded_host h) st)) = snd (h_monotonic_ns h (fst st))"
  "fst (snd (h_ulid (guarded_host h) st)) = snd (h_ulid h (fst st))" "fst (h_sleep (guarded_host h) n st) = h_sleep h n (fst st)"
  by (cases st; simp add: guarded_host_def split: prod.splits)+

text \<open>
  Adapters that keep the contract of the venues (orders do not disappear, terminal orders never change, answers are true, lists of
  open orders are complete) keep it behind circuit breakers too, whatever the state of the breakers and whatever Redis does.
\<close>

lemma wrapped_venues:
  assumes "order_venues h registry view ok"
  shows "order_venues (guarded_host h) (wrap_registry env registry) (guarded_view view) (\<lambda>st. ok (fst st))"
proof -
  note v = order_venues.now_keeps [OF assms] order_venues.monotonic_keeps [OF assms] order_venues.ulid_keeps [OF assms] order_venues.sleep_keeps [OF assms]
  show ?thesis
  proof (unfold_locales, goal_cases)
    case (5 st did a)
    then obtain inner where inner: "(did, inner) \<in> set registry" "a = resilient env did inner" by (auto simp: wrap_registry_mem)
    from guarded_keeps [of ok "a_list_open_orders inner", OF order_venues.list_keeps [OF assms 5(1) inner(1)] 5(1)] inner(2) show ?case by simp
  next
    case (6 st did a bid)
    then obtain inner where inner: "(did, inner) \<in> set registry" "a = resilient env did inner" by (auto simp: wrap_registry_mem)
    from guarded_keeps [of ok "a_cancel_order inner bid", OF order_venues.cancel_keeps [OF assms 6(1) inner(1)] 6(1)] inner(2) show ?case by simp
  next
    case (7 st did a bid)
    then obtain inner where inner: "(did, inner) \<in> set registry" "a = resilient env did inner" by (auto simp: wrap_registry_mem)
    from guarded_keeps [of ok "a_get_order inner bid", OF order_venues.get_keeps [OF assms 7(1) inner(1)] 7(1)] inner(2) show ?case by simp
  next
    case (8 st did a)
    then obtain inner where inner: "(did, inner) \<in> set registry" "a = resilient env did inner" by (auto simp: wrap_registry_mem)
    from guarded_keeps [of ok "a_get_positions inner", OF order_venues.positions_keeps [OF assms 8(1) inner(1)] 8(1)] inner(2) show ?case by simp
  next
    case (9 st did a rq)
    then obtain inner where inner: "(did, inner) \<in> set registry" "a = resilient env did inner" by (auto simp: wrap_registry_mem)
    from guarded_keeps [of ok "a_submit_order inner rq", OF order_venues.submit_keeps [OF assms 9(1) inner(1) 9(3)] 9(1)] inner(2) show ?case by simp
  next
    case (10 st did a bid r st')
    then show ?case by (cases st; cases st') (auto simp: wrap_registry_mem dest!: guarded_value order_venues.get_true [OF assms])
  next
    case (11 st did a orders st' bid)
    then show ?case
      by (cases st; cases st') (auto simp: wrap_registry_mem order_exists_def order_done_def dest!: guarded_value order_venues.list_complete [OF assms])
  qed (use v in auto)
qed

interpretation wrapped_paper: order_venues "guarded_host paper_host" "wrap_registry env (paper_registry dids)" "guarded_view paper_view"
  "\<lambda>st. paper_ok dids (fst st)" for env dids
  by (rule wrapped_venues) (rule paper_venues.order_venues_axioms)


text \<open>A closed breaker passes a call that succeeds through, and only forgets its failures.\<close>

lemma guarded_closed:
  "cb_state (bs name) = CLOSED \<Longrightarrow> fn w = (Inr v, w') \<Longrightarrow> guarded env name fn (w, bs) = (Inr v, w', bs(name := (bs name)\<lparr>cb_failure_count := 0\<rparr>))"
  by (simp add: guarded_def execute_def execute_closed_def)

definition demo_breakers :: "string \<Rightarrow> circuit_breaker" where
  "demo_breakers name = cb_init demo_config None None"

lemma demo_breakers_closed [simp]: "cb_state (demo_breakers name) = CLOSED"
  by (simp add: demo_breakers_def cb_init_def load_state_from_redis_def init_defaults_def)

lemma demo_wrapped_cancel:
  "\<exists>c w' bs'. cancel_open_orders (guarded_host paper_host) (resilient (\<lambda>w. demo_env (pw_time w)) ''D1'' (paper_adapter ''D1'')) (demo_world, demo_breakers) =
     (Inr c, w', bs') \<and> cr_failed_order_ids c = []"
proof -
  let ?a = "paper_adapter ''D1''" and ?env = "\<lambda>w. demo_env (pw_time w)" and ?r = "new_response ''B1'' 5 (demo_request 7)"
  have mem: "(''D1'', ?a) \<in> set (paper_registry [''D1''])" by (simp add: paper_registry_mem)
  have l: "a_list_open_orders ?a demo_world = (Inr [?r], demo_world)"
    by (simp add: on_broker_def demo_world_def demo_broker_eq list_open_orders_def dict_values_def new_response_def)
  obtain r1 w1 where c: "a_cancel_order ?a ''B1'' demo_world = (Inr r1, w1)" "order_done paper_view ''D1'' w1 ''B1''"
    using paper_halt.cancel_answers [OF demo_world_ok mem demo_world_order] by blast
  have ok: "paper_ok [''D1''] w1" using paper_venues.cancel_keeps [OF demo_world_ok mem, of "''B1''"] c(1) by simp
  have "order_exists paper_view ''D1'' w1 ''B1''" using c(2) by (auto simp: order_exists_def order_done_def)
  then obtain r2 w2 where g: "a_get_order ?a ''B1'' w1 = (Inr r2, w2)" using paper_halt.get_answers [OF ok mem] by blast
  then have "paper_view ''D1'' w2 ''B1'' = Some r2" by (rule paper_venues.get_true [OF ok mem])
  moreover have "order_done paper_view ''D1'' w2 ''B1''"
    using order_done_kept [OF _ c(2), of w2] paper_venues.get_keeps [OF ok mem, of "''B1''"] g by simp
  ultimately have fin: "os_status r2 = CANCELLED \<or> os_status r2 = FILLED \<or> os_status r2 = REJECTED \<or> os_status r2 = EXPIRED"
    by (auto simp: order_done_def)
  let ?bs = "demo_breakers(''D1'' := (demo_breakers ''D1'')\<lparr>cb_failure_count := 0\<rparr>)"
  have l': "a_list_open_orders (resilient ?env ''D1'' ?a) (demo_world, demo_breakers) = (Inr [?r], demo_world, ?bs)"
    unfolding resilient_sel by (rule guarded_closed [where fn = "a_list_open_orders ?a", OF _ l]) simp
  have c': "a_cancel_order (resilient ?env ''D1'' ?a) ''B1'' (demo_world, ?bs) = (Inr r1, w1, ?bs)"
    unfolding resilient_sel using guarded_closed [where bs = ?bs and name = "''D1''" and env = ?env and fn = "a_cancel_order ?a ''B1''", OF _ c(1)] by simp
  have g': "a_get_order (resilient ?env ''D1'' ?a) ''B1'' (w1, ?bs) = (Inr r2, w2, ?bs)"
    unfolding resilient_sel using guarded_closed [where bs = ?bs and name = "''D1''" and env = ?env and fn = "a_get_order ?a ''B1''", OF _ g] by simp
  have "cancel_one (guarded_host paper_host) (resilient ?env ''D1'' ?a) ''B1'' (demo_world, ?bs) = (True, w2, ?bs)"
    using fin by (auto simp: cancel_one_def max_retries_def upt_rec c' g' simp del: resilient_sel)
  then show ?thesis unfolding cancel_open_orders_def l' by (simp add: new_response_def)
qed


section \<open>A shut breaker and the kill switch\<close>

text \<open>
  A shut breaker prevents the halt: when the breaker of an affected adapter is open, activating the kill switch raises, no halt is
  recorded and no order is cancelled on it, although the broker behind may be well again (the first call after the
  timeout would find out).
\<close>

theorem open_breaker_prevents_halt:
  assumes "ks_adapter_registry ks = [(did, resilient env did inner)]" "scope_affects_adapter ks d scope target did"
    "kr_get_active repo r (scope_value scope) target = None"
    "breaker_shut env did (snd (h_monotonic_ns h (snd (h_now h w))), bs)"
  shows "\<exists>e w'. activate_kill_switch (guarded_host h) repo ks scope target reason who trigger d r (w, bs) = (Inl e, r, w', bs)"
proof -
  let ?w2 = "snd (h_monotonic_ns h (snd (h_now h w)))"
  have t: "h_now (guarded_host h) (w, bs) = (fst (h_now h w), snd (h_now h w), bs)" by (simp add: guarded_host_def split: prod.splits)
  have ns: "h_monotonic_ns (guarded_host h) (snd (h_now h w), bs) = (fst (h_monotonic_ns h (snd (h_now h w))), ?w2, bs)"
    by (simp add: guarded_host_def split: prod.splits)
  obtain e where "guarded env did (a_list_open_orders inner) (?w2, bs) = (Inl e, ?w2, bs)" using guarded_shut [OF assms(4)] by blast
  then have "halt_adapters (guarded_host h) ks scope target (ks_adapter_registry ks) 0 d (?w2, bs) = (Inl e, ?w2, bs)"
    by (simp add: assms(1,2) cancel_open_orders_def)
  with assms(3) t ns show ?thesis by (simp add: activate_kill_switch_def)
qed

section \<open>A wrapped paper adapter in a live deployment\<close>

text \<open>
  The check that keeps live orders from paper adapters does not see through the wrapper: the wrapped adapter passes wherever the
  inner one would be refused.
\<close>

theorem wrapped_paper_adapter_passes_live_check:
  assumes "a_is_paper_adapter inner" "''live'' \<in> set (lv_allowed_modes lv)" "validate_deployment lv d did = Inr v" "lv_tx lv \<noteq> None"
    "dr_get_by_id (lv_deployment_repo lv) d did = Some rec" "dp_execution_mode rec = ''live''"
    "check_kill_switch lv r did (Some (rq_strategy_id rq)) (Some (rq_symbol rq)) = Inr k"
    "reg_get (lv_registry lv) did = Inr (resilient env did inner)"
  shows "pre_checks lv d r did rq = Inr (resilient env did inner)"
  using assms by (simp add: pre_checks_def resilient_def)


definition demo_shut :: "string \<Rightarrow> circuit_breaker" where
  "demo_shut name = (cb_init demo_config None None)\<lparr>cb_state := OPEN, cb_opened_at := Some (Iso 100)\<rparr>"

theorem open_breaker_prevents_halt_witness:
  "\<exists>e w'. activate_kill_switch (guarded_host paper_host) mock_ks_repo
     \<lparr>ks_adapter_registry = [(''D1'', resilient (\<lambda>w. demo_env (pw_time w)) ''D1'' (paper_adapter ''D1''))], ks_deployment_repo = mock_deployment_repo,
      ks_verification_timeout_s = 30\<rparr> GLOBAL ''global'' ''test'' ''ops'' MANUAL mock_init mock_ks_init (demo_world, demo_shut) = (Inl e, mock_ks_init, w', demo_shut)"
proof -
  have "kr_get_active mock_ks_repo mock_ks_init (scope_value GLOBAL) ''global'' = None"
    by (simp add: ks_get_active_def mock_ks_init_def dict_values_def)
  moreover have "breaker_shut (\<lambda>w. demo_env (pw_time w)) ''D1'' (snd (h_monotonic_ns paper_host (snd (h_now paper_host demo_world))), demo_shut)"
    by (simp add: breaker_shut_def demo_shut_def demo_env_def paper_host_def demo_world_def elapsed_s_def cb_init_def load_state_from_redis_def init_defaults_def demo_config_def)
  ultimately show ?thesis by (intro open_breaker_prevents_halt) (simp_all add: scope_affects_adapter_def)
qed

section \<open>Retries\<close>

text \<open>
  \<open>with_retry\<close> calls again after Python's connection errors, timeouts and other operating system errors, but not after errors that are
  permanent; a \<open>PermissionError\<close> is both, and the permanent ones are looked at first. The power of floats and the random number of the
  jitter are arguments.
\<close>

definition permanent_errors :: "string list" where
  "permanent_errors = [''ValueError'', ''UnicodeError'', ''UnicodeDecodeError'', ''UnicodeEncodeError'', ''json.JSONDecodeError'', ''pydantic.ValidationError'',
     ''TypeError'', ''KeyError'', ''PermissionError'']"

definition retriable_errors :: "string list" where
  "retriable_errors = [''ConnectionError'', ''ConnectionResetError'', ''ConnectionRefusedError'', ''ConnectionAbortedError'', ''BrokenPipeError'', ''TimeoutError'',
     ''OSError'', ''PermissionError'', ''FileNotFoundError'', ''FileExistsError'', ''InterruptedError'', ''BlockingIOError'']"

definition raised_in :: "string list \<Rightarrow> exn \<Rightarrow> bool" where
  "raised_in names e = (case e of PyError n \<Rightarrow> n \<in> set names | _ \<Rightarrow> False)"

record task_retry_config =
  tc_max_retries :: int
  tc_base_delay_seconds :: float64
  tc_max_delay_seconds :: float64
  tc_exponential_base :: float64
  tc_jitter :: bool

definition default_retry_config :: task_retry_config where
  "default_retry_config = \<lparr>tc_max_retries = 3, tc_base_delay_seconds = 1, tc_max_delay_seconds = 30, tc_exponential_base = 2, tc_jitter = True\<rparr>"

definition compute_delay :: "(float64 \<Rightarrow> nat \<Rightarrow> float64) \<Rightarrow> float64 \<Rightarrow> nat \<Rightarrow> task_retry_config \<Rightarrow> float64" where
  "compute_delay pow u attempt config =
     (let delay = min (fl (tc_base_delay_seconds config * pow (tc_exponential_base config) attempt)) (tc_max_delay_seconds config)
      in if tc_jitter config then fl (delay * fl (1 + u)) else delay)"

fun retry_attempts ::
  "(float64 \<Rightarrow> 'w \<Rightarrow> 'w) \<Rightarrow> (nat \<Rightarrow> float64) \<Rightarrow> ('w \<Rightarrow> (exn, 'a) result \<times> 'w) \<Rightarrow> task_retry_config \<Rightarrow> nat list \<Rightarrow> 'w \<Rightarrow> (exn, 'a) result \<times> 'w" where
  "retry_attempts sleep delay fn config [] w = (Inl (PyError ''RuntimeError''), w)"
| "retry_attempts sleep delay fn config (attempt # attempts) w =
     (case fn w of
        (Inr v, w1) \<Rightarrow> (Inr v, w1)
      | (Inl e, w1) \<Rightarrow>
          if raised_in permanent_errors e then (Inl e, w1)
          else if raised_in retriable_errors e then
            if tc_max_retries config \<le> int attempt then (Inl e, w1)
            else retry_attempts sleep delay fn config attempts (sleep (delay attempt) w1)
          else (Inl e, w1))"

definition with_retry ::
  "(float64 \<Rightarrow> 'w \<Rightarrow> 'w) \<Rightarrow> (float64 \<Rightarrow> nat \<Rightarrow> float64) \<Rightarrow> (nat \<Rightarrow> float64) \<Rightarrow> ('w \<Rightarrow> (exn, 'a) result \<times> 'w) \<Rightarrow> task_retry_config \<Rightarrow> 'w \<Rightarrow> (exn, 'a) result \<times> 'w" where
  "with_retry sleep pow u fn config w =
     retry_attempts sleep (\<lambda>attempt. compute_delay pow (u attempt) attempt config) fn config [0..<nat (1 + tc_max_retries config)] w"

text \<open>The state in which the \<open>k\<close>-th retry starts when all before were in vain.\<close>

fun retry_state :: "(float64 \<Rightarrow> 'w \<Rightarrow> 'w) \<Rightarrow> (nat \<Rightarrow> float64) \<Rightarrow> ('w \<Rightarrow> (exn, 'a) result \<times> 'w) \<Rightarrow> 'w \<Rightarrow> nat \<Rightarrow> 'w" where
  "retry_state sleep delay fn w 0 = w"
| "retry_state sleep delay fn w (Suc k) = sleep (delay k) (snd (fn (retry_state sleep delay fn w k)))"

definition to_retry :: "(exn, 'a) result \<Rightarrow> bool" where
  "to_retry r = (case r of Inl e \<Rightarrow> raised_in retriable_errors e \<and> \<not> raised_in permanent_errors e | Inr _ \<Rightarrow> False)"

lemma retry_attempts_step:
  "retry_attempts sleep delay fn config (k # ks) w =
     (if to_retry (fst (fn w)) \<and> int k < tc_max_retries config then retry_attempts sleep delay fn config ks (sleep (delay k) (snd (fn w))) else fn w)"
  by (cases "fn w") (auto simp: to_retry_def split: sum.splits)

lemma retry_attempts_from:
  assumes "int j \<le> tc_max_retries config"
  shows "\<exists>k\<ge>j. int k \<le> tc_max_retries config \<and> (\<forall>i. j \<le> i \<longrightarrow> i < k \<longrightarrow> to_retry (fst (fn (retry_state sleep delay fn w i)))) \<and>
    (int k < tc_max_retries config \<longrightarrow> \<not> to_retry (fst (fn (retry_state sleep delay fn w k)))) \<and>
    retry_attempts sleep delay fn config [j..<nat (1 + tc_max_retries config)] (retry_state sleep delay fn w j) = fn (retry_state sleep delay fn w k)"
  using assms
proof (induction "nat (tc_max_retries config) - j" arbitrary: j)
  case 0
  then have j: "int j = tc_max_retries config" by linarith
  then have "nat (1 + tc_max_retries config) = Suc j" by linarith
  then have "[j..<nat (1 + tc_max_retries config)] = [j]" by simp
  with j show ?case by (intro exI [of _ j]) (simp add: retry_attempts_step del: retry_attempts.simps)
next
  case (Suc n)
  then have cons: "[j..<nat (1 + tc_max_retries config)] = j # [Suc j..<nat (1 + tc_max_retries config)]" "int j < tc_max_retries config"
    by (simp_all add: upt_rec)
  show ?case
  proof (cases "to_retry (fst (fn (retry_state sleep delay fn w j)))")
    case True
    have "n = nat (tc_max_retries config) - Suc j" "int (Suc j) \<le> tc_max_retries config" using Suc.hyps(2) cons(2) by linarith+
    from Suc.hyps(1) [OF this] obtain k where k: "Suc j \<le> k" "int k \<le> tc_max_retries config"
      "\<forall>i. Suc j \<le> i \<longrightarrow> i < k \<longrightarrow> to_retry (fst (fn (retry_state sleep delay fn w i)))"
      "int k < tc_max_retries config \<longrightarrow> \<not> to_retry (fst (fn (retry_state sleep delay fn w k)))"
      "retry_attempts sleep delay fn config [Suc j..<nat (1 + tc_max_retries config)] (retry_state sleep delay fn w (Suc j)) = fn (retry_state sleep delay fn w k)" by blast
    then show ?thesis unfolding cons(1) retry_attempts_step using True cons(2)
      by (intro exI [of _ k]) (auto simp: le_less_Suc_eq dest: Suc_leI le_imp_less_or_eq)
  next
    case False
    then show ?thesis unfolding cons(1) retry_attempts_step using cons(2) by (intro exI [of _ j]) auto
  qed
qed

text \<open>
  Retries end, and exactly where they should: there is an attempt, at most \<open>max_retries\<close> after the first, before which every attempt
  raised an error to retry; it is the last one allowed or it did not raise such an error; and its outcome, a value or an exception,
  is what the caller gets, with the state that it left.
\<close>

theorem with_retry_outcome:
  assumes "0 \<le> tc_max_retries config" "st = retry_state sleep (\<lambda>attempt. compute_delay pow (u attempt) attempt config) fn w"
  shows "\<exists>k. int k \<le> tc_max_retries config \<and> (\<forall>i<k. to_retry (fst (fn (st i)))) \<and>
    (int k < tc_max_retries config \<longrightarrow> \<not> to_retry (fst (fn (st k)))) \<and> with_retry sleep pow u fn config w = fn (st k)"
  using retry_attempts_from [of 0 config fn sleep "\<lambda>attempt. compute_delay pow (u attempt) attempt config" w] assms(1)
  unfolding assms(2) with_retry_def by auto

end
