(* ===== verification/Drills.thy ===== *)
theory Drills
  imports Kill_Switch_Venues
begin

text \<open>
  Readiness drills, \<open>services/api/services/drill_service.py\<close> and \<open>libs/contracts/drill.py\<close>: four drills of a deployment, their recorded
  results, and the eligibility for live trading that follows from them. The broker adapters, the host and the repository of execution
  events are arguments; the text of an exception in a discrepancy is the exception.
\<close>

section \<open>Contracts\<close>

datatype drill_type = Kill_Switch_Drill | Rollback_Drill | Reconnect_Drill | Failover_Drill

fun drill_value :: "drill_type \<Rightarrow> string" where
  "drill_value Kill_Switch_Drill = ''kill_switch''"
| "drill_value Rollback_Drill = ''rollback''"
| "drill_value Reconnect_Drill = ''reconnect''"
| "drill_value Failover_Drill = ''failover''"

definition parse_drill :: "string \<Rightarrow> drill_type option" where
  "parse_drill s = find (\<lambda>t. drill_value t = s) [Kill_Switch_Drill, Rollback_Drill, Reconnect_Drill, Failover_Drill]"

datatype drill_problem =
    CancelFailed string exn
  | CannotRollback string
  | DiagnosticsFailed exn
  | NoAdapter
  | PositionsFailed exn
  | AccountFailed exn
  | OrdersFailed exn

datatype detail = PositionCount nat | AccountAccessible | OrderCount nat

record drill_result =
  dl_result_id :: string
  dl_deployment_id :: string
  dl_drill_type :: drill_type
  dl_passed :: bool
  dl_mtth_ms :: "int option"
  dl_timeline :: "string list"
  dl_discrepancies :: "drill_problem list"
  dl_details :: "detail list"
  dl_executed_at :: datetime
  dl_duration_ms :: int

record drill_requirement =
  dq_drill_type :: drill_type
  dq_description :: string
  dq_required :: bool

definition live_eligibility_requirements :: "drill_requirement list" where
  "live_eligibility_requirements =
     [\<lparr>dq_drill_type = Kill_Switch_Drill, dq_description = ''Kill switch activation, order cancellation, and MTTH measurement.'', dq_required = True\<rparr>,
      \<lparr>dq_drill_type = Rollback_Drill, dq_description = ''Deployment rollback from active to previous known-good state.'', dq_required = True\<rparr>,
      \<lparr>dq_drill_type = Reconnect_Drill, dq_description = ''Broker adapter reconnection after simulated disconnect.'', dq_required = True\<rparr>,
      \<lparr>dq_drill_type = Failover_Drill, dq_description = ''Broker failover with position reconciliation after recovery.'', dq_required = True\<rparr>]"

section \<open>The four drills\<close>

text \<open>What the drills use of an adapter beside the operations of the registry's clients; the list of all orders is there for some adapters.\<close>

record 'w drill_adapter = "'w adapter" +
  a_get_diagnostics :: "'w \<Rightarrow> (exn, adapter_diagnostics) result \<times> 'w"
  a_all_orders :: "('w \<Rightarrow> (exn, order_response list) result \<times> 'w) option"

fun connection_value :: "connection_status \<Rightarrow> string" where
  "connection_value CONNECTED = ''connected''"
| "connection_value DISCONNECTED = ''disconnected''"
| "connection_value RECONNECTING = ''reconnecting''"
| "connection_value ERROR = ''error''"

text \<open>
  The kill switch drill cancels by the keywords \<open>client_order_id\<close> and \<open>deployment_id\<close>. No adapter's \<open>cancel_order\<close> has such
  parameters: Python raises \<open>TypeError\<close> before the method is entered.
\<close>

definition cancel_by_keywords :: "'w drill_adapter \<Rightarrow> string \<Rightarrow> string \<Rightarrow> 'w \<Rightarrow> (exn, order_response) result \<times> 'w" where
  "cancel_by_keywords a client_order_id did w = (Inl (PyError ''TypeError''), w)"

fun drill_cancels :: "'w drill_adapter \<Rightarrow> string \<Rightarrow> order_response list \<Rightarrow> nat \<Rightarrow> drill_problem list \<Rightarrow> 'w \<Rightarrow> nat \<times> drill_problem list \<times> 'w" where
  "drill_cancels a did [] cancelled ds w = (cancelled, ds, w)"
| "drill_cancels a did (order # orders) cancelled ds w =
     (case cancel_by_keywords a (os_client_order_id order) did w of
        (Inr _, w1) \<Rightarrow> drill_cancels a did orders (cancelled + 1) ds w1
      | (Inl e, w1) \<Rightarrow> drill_cancels a did orders cancelled (ds @ [CancelFailed (os_client_order_id order) e]) w1)"

definition drill_of :: "string \<Rightarrow> drill_type \<Rightarrow> datetime \<Rightarrow> int option \<Rightarrow> string list \<Rightarrow> drill_problem list \<Rightarrow> detail list \<Rightarrow> string \<Rightarrow> drill_result" where
  "drill_of rid ty now mtth timeline ds details did =
     \<lparr>dl_result_id = rid, dl_deployment_id = did, dl_drill_type = ty, dl_passed = (length ds = 0), dl_mtth_ms = mtth, dl_timeline = timeline,
      dl_discrepancies = ds, dl_details = details, dl_executed_at = now, dl_duration_ms = 0\<rparr>"

definition new_drill :: "'w host \<Rightarrow> drill_type \<Rightarrow> int option \<Rightarrow> string list \<Rightarrow> drill_problem list \<Rightarrow> detail list \<Rightarrow> string \<Rightarrow> 'w \<Rightarrow> drill_result \<times> 'w" where
  "new_drill h ty mtth timeline ds details did w =
     (case h_ulid h w of (rid, w1) \<Rightarrow> case h_now h w1 of (now, w2) \<Rightarrow> (drill_of rid ty now mtth timeline ds details did, w2))"

definition kill_switch_drill :: "'w host \<Rightarrow> string \<Rightarrow> 'w drill_adapter option \<Rightarrow> 'w \<Rightarrow> (exn, drill_result) result \<times> 'w" where
  "kill_switch_drill h did adapter w =
     (case h_monotonic_ns h w of (start_ns, w1) \<Rightarrow>
      case (case adapter of
              None \<Rightarrow> (Inr ([''no_adapter_registered''], []), w1)
            | Some a \<Rightarrow>
                (case a_list_open_orders a w1 of
                   (Inl e, w2) \<Rightarrow> (Inl e, w2)
                 | (Inr orders, w2) \<Rightarrow>
                     (case drill_cancels a did orders 0 [] w2 of (cancelled, ds, w3) \<Rightarrow>
                        (Inr ([''found_'' @ digits (length orders) @ ''_open_orders'', ''cancelled_'' @ digits cancelled @ ''_orders''], ds), w3)))) of
        (Inl e, w4) \<Rightarrow> (Inl e, w4)
      | (Inr (events, ds), w4) \<Rightarrow>
          (case h_monotonic_ns h w4 of (end_ns, w5) \<Rightarrow>
           case new_drill h Kill_Switch_Drill (Some ((end_ns - start_ns) div 1000000))
                  ([''kill_switch_drill_started''] @ events @ [''kill_switch_drill_completed'']) ds [] did w5 of
             (r, w6) \<Rightarrow> (Inr r, w6)))"

definition rollback_states :: "string list" where
  "rollback_states = [''active'', ''frozen'', ''deactivating'']"

definition rollback_drill :: "'w host \<Rightarrow> 'd deployment_repo \<Rightarrow> 'd \<Rightarrow> string \<Rightarrow> 'w \<Rightarrow> (exn, drill_result) result \<times> 'w" where
  "rollback_drill h repo d did w =
     (let (events, ds) =
            (case dr_get_by_id repo d did of
               None \<Rightarrow> ([], [])
             | Some dep \<Rightarrow>
                 if dp_state dep \<in> set rollback_states then ([''current_state_'' @ dp_state dep, ''rollback_path_available''], [])
                 else ([''current_state_'' @ dp_state dep, ''rollback_not_available_from_'' @ dp_state dep], [CannotRollback (dp_state dep)]))
      in case new_drill h Rollback_Drill None ([''rollback_drill_started''] @ events @ [''rollback_drill_completed'']) ds [] did w of (r, w1) \<Rightarrow> (Inr r, w1))"

definition reconnect_drill :: "'w host \<Rightarrow> string \<Rightarrow> 'w drill_adapter option \<Rightarrow> 'w \<Rightarrow> (exn, drill_result) result \<times> 'w" where
  "reconnect_drill h did adapter w =
     (case (case adapter of
              None \<Rightarrow> ([''no_adapter_registered''], [NoAdapter], w)
            | Some a \<Rightarrow>
                (case a_get_diagnostics a w of
                   (Inl e, w1) \<Rightarrow> ([''diagnostics_failed''], [DiagnosticsFailed e], w1)
                 | (Inr diag, w1) \<Rightarrow>
                     ([''diagnostics_retrieved'', ''connection_status_'' @ connection_value (ad_connection_status diag), ''adapter_responsive''], [], w1))) of
        (events, ds, w1) \<Rightarrow>
          (case new_drill h Reconnect_Drill None ([''reconnect_drill_started''] @ events @ [''reconnect_drill_completed'']) ds [] did w1 of
             (r, w2) \<Rightarrow> (Inr r, w2)))"

text \<open>One part of the failover drill: a query whose failure is noted and does not end the drill.\<close>

definition drill_query ::
  "('w \<Rightarrow> (exn, 'a) result \<times> 'w) \<Rightarrow> ('a \<Rightarrow> string \<times> detail) \<Rightarrow> string \<Rightarrow> (exn \<Rightarrow> drill_problem) \<Rightarrow>
     string list \<times> drill_problem list \<times> detail list \<times> 'w \<Rightarrow> string list \<times> drill_problem list \<times> detail list \<times> 'w" where
  "drill_query query ok fail_event bad st =
     (case st of (events, ds, details, w) \<Rightarrow>
        (case query w of
           (Inr v, w1) \<Rightarrow> (events @ [fst (ok v)], ds, details @ [snd (ok v)], w1)
         | (Inl e, w1) \<Rightarrow> (events @ [fail_event], ds @ [bad e], details, w1)))"

definition failover_drill :: "'w host \<Rightarrow> string \<Rightarrow> 'w drill_adapter option \<Rightarrow> 'w \<Rightarrow> (exn, drill_result) result \<times> 'w" where
  "failover_drill h did adapter w =
     (case (case adapter of
              None \<Rightarrow> ([''no_adapter_registered''], [NoAdapter], [], w)
            | Some a \<Rightarrow>
                (case drill_query (case a_all_orders a of None \<Rightarrow> a_list_open_orders a | Some q \<Rightarrow> q)
                        (\<lambda>orders. (''retrieved_'' @ digits (length orders) @ ''_orders'', OrderCount (length orders))) ''order_retrieval_failed'' OrdersFailed
                        (drill_query (a_get_account a) (\<lambda>_. (''account_state_accessible'', AccountAccessible)) ''account_retrieval_failed'' AccountFailed
                          (drill_query (a_get_positions a)
                             (\<lambda>ps. (''retrieved_'' @ digits (length ps) @ ''_positions'', PositionCount (length ps))) ''position_retrieval_failed'' PositionsFailed
                             ([], [], [], w))) of
                   (events, ds, details, w1) \<Rightarrow> (events @ [''reconciliation_baseline_established''], ds, details, w1))) of
        (events, ds, details, w1) \<Rightarrow>
          (case new_drill h Failover_Drill None ([''failover_drill_started''] @ events @ [''failover_drill_completed'']) ds details did w1 of
             (r, w2) \<Rightarrow> (Inr r, w2)))"

section \<open>The service\<close>

record drill_event =
  de_order_id :: string
  de_event_type :: string
  de_timestamp :: datetime
  de_result :: drill_result
  de_correlation_id :: string

record ('w, 'd, 'e) drill_service =
  dv_deployment_repo :: "'d deployment_repo"
  dv_adapters :: "(string, 'w drill_adapter) dict"
  dv_save_event :: "(drill_event \<Rightarrow> 'e \<Rightarrow> (exn, unit) result \<times> 'e) option"

record ('w, 'e) drill_state =
  dt_results :: "(string, drill_result list) dict"
  dt_events :: 'e
  dt_world :: 'w

definition get_drill_history :: "('w, 'e) drill_state \<Rightarrow> string \<Rightarrow> drill_result list" where
  "get_drill_history st did = (case dict_get (dt_results st) did of None \<Rightarrow> [] | Some rs \<Rightarrow> rs)"

definition run_drill :: "'w host \<Rightarrow> ('w, 'd, 'e) drill_service \<Rightarrow> drill_type \<Rightarrow> 'd \<Rightarrow> string \<Rightarrow> 'w \<Rightarrow> (exn, drill_result) result \<times> 'w" where
  "run_drill h sv ty d did w =
     (let adapter = dict_get (dv_adapters sv) did
      in case ty of
           Kill_Switch_Drill \<Rightarrow> kill_switch_drill h did adapter w
         | Rollback_Drill \<Rightarrow> rollback_drill h (dv_deployment_repo sv) d did w
         | Reconnect_Drill \<Rightarrow> reconnect_drill h did adapter w
         | Failover_Drill \<Rightarrow> failover_drill h did adapter w)"

text \<open>The result that is kept has a fresh \<open>executed_at\<close>; it is recorded before the event is persisted.\<close>

definition execute_drill ::
  "'w host \<Rightarrow> ('w, 'd, 'e) drill_service \<Rightarrow> string \<Rightarrow> 'd \<Rightarrow> string \<Rightarrow> ('w, 'e) drill_state \<Rightarrow> (exn, drill_result) result \<times> ('w, 'e) drill_state" where
  "execute_drill h sv ty_text d did st =
     (case parse_drill ty_text of
        None \<Rightarrow> (Inl (PyError ''ValueError''), st)
      | Some ty \<Rightarrow>
          if dr_get_by_id (dv_deployment_repo sv) d did = None then (Inl NotFoundError, st)
          else
            (case h_monotonic_ns h (dt_world st) of (start_ns, w1) \<Rightarrow>
             case run_drill h sv ty d did w1 of
               (Inl e, w2) \<Rightarrow> (Inl e, st\<lparr>dt_world := w2\<rparr>)
             | (Inr r, w2) \<Rightarrow>
                 (case h_monotonic_ns h w2 of (end_ns, w3) \<Rightarrow>
                  case h_now h w3 of (now, w4) \<Rightarrow>
                    let final = r\<lparr>dl_drill_type := ty, dl_deployment_id := did, dl_executed_at := now, dl_duration_ms := (end_ns - start_ns) div 1000000\<rparr>;
                        st1 = st\<lparr>dt_results := dict_set did (get_drill_history st did @ [final]) (dt_results st), dt_world := w4\<rparr>
                    in case dv_save_event sv of
                         None \<Rightarrow> (Inr final, st1)
                       | Some save \<Rightarrow>
                           (case h_now h w4 of (t, w5) \<Rightarrow>
                            case save \<lparr>de_order_id = ''drill-'' @ dl_result_id final, de_event_type = ''drill_result'', de_timestamp = t, de_result = final,
                                       de_correlation_id = ''drill-'' @ did\<rparr> (dt_events st) of
                              (Inl e, ev) \<Rightarrow> (Inl e, st1\<lparr>dt_world := w5, dt_events := ev\<rparr>)
                            | (Inr _, ev) \<Rightarrow> (Inr final, st1\<lparr>dt_world := w5, dt_events := ev\<rparr>)))))"

definition check_live_eligibility ::
  "('w, 'd, 'e) drill_service \<Rightarrow> 'd \<Rightarrow> string \<Rightarrow> ('w, 'e) drill_state \<Rightarrow> (exn, bool \<times> drill_requirement list) result" where
  "check_live_eligibility sv d did st =
     (if dr_get_by_id (dv_deployment_repo sv) d did = None then Inl NotFoundError
      else
        let passing = map dl_drill_type (filter dl_passed (get_drill_history st did));
            missing = filter (\<lambda>req. dq_required req \<and> dq_drill_type req \<notin> set passing) live_eligibility_requirements
        in Inr (missing = [], missing))"


section \<open>What a passed drill says\<close>

lemma drill_cancels_fail: "drill_cancels a did orders n ds w = (n, ds @ map (\<lambda>order. CancelFailed (os_client_order_id order) (PyError ''TypeError'')) orders, w)"
  by (induction orders arbitrary: ds) (simp_all add: cancel_by_keywords_def)

lemma new_drill_sel:
  "new_drill h ty mtth timeline ds details did w = (r, w') \<Longrightarrow> dl_passed r = (ds = []) \<and> dl_discrepancies r = ds \<and> dl_drill_type r = ty"
  by (auto simp: new_drill_def drill_of_def split: prod.splits)

text \<open>
  The kill switch drill never cancels an order and passes exactly when there is nothing to cancel: if no adapter is
  registered for the deployment, or the adapter lists no open order. With open orders every cancellation fails with a \<open>TypeError\<close>,
  one discrepancy for each, and the broker is not asked.
\<close>

theorem kill_switch_drill_cancels_nothing:
  assumes "kill_switch_drill h did adapter w = (Inr r, w')"
  shows "(dl_passed r \<longleftrightarrow> (case adapter of None \<Rightarrow> True | Some a \<Rightarrow> fst (a_list_open_orders a (snd (h_monotonic_ns h w))) = Inr [])) \<and>
    (\<forall>a orders. adapter = Some a \<longrightarrow> fst (a_list_open_orders a (snd (h_monotonic_ns h w))) = Inr orders \<longrightarrow>
      dl_discrepancies r = map (\<lambda>order. CancelFailed (os_client_order_id order) (PyError ''TypeError'')) orders)"
  using assms by (auto simp: kill_switch_drill_def drill_cancels_fail split: option.splits prod.splits sum.splits dest!: new_drill_sel)

text \<open>The drill on a paper broker with one open order.\<close>

definition demo_drill_adapter :: "paper_world drill_adapter" where
  "demo_drill_adapter = adapter.extend (paper_adapter ''D1'')
     \<lparr>a_get_diagnostics = (\<lambda>w. on_broker ''D1'' (\<lambda>b. (Inr (get_diagnostics (pw_time w) b), b)) w),
      a_all_orders = Some (on_broker ''D1'' (\<lambda>b. (Inr (get_all_order_states b), b)))\<rparr>"

theorem kill_switch_drill_cancels_nothing_witness:
  "\<exists>r w'. kill_switch_drill paper_host ''D1'' (Some demo_drill_adapter) demo_world = (Inr r, w') \<and> \<not> dl_passed r \<and>
     dl_discrepancies r = [CancelFailed ''C1'' (PyError ''TypeError'')]"
proof -
  have l: "a_list_open_orders demo_drill_adapter demo_world = (Inr [new_response ''B1'' 5 (demo_request 7)], demo_world)"
    by (simp add: demo_drill_adapter_def adapter.defs on_broker_def paper_adapter_def demo_world_def demo_broker_eq list_open_orders_def dict_values_def new_response_def)
  have ns: "h_monotonic_ns paper_host w = (1000 * pw_time w, w)" for w by (simp add: paper_host_def)
  have "\<exists>r w'. kill_switch_drill paper_host ''D1'' (Some demo_drill_adapter) demo_world = (Inr r, w')"
    by (simp add: kill_switch_drill_def l ns drill_cancels_fail split: prod.splits)
  with kill_switch_drill_cancels_nothing [of paper_host "''D1''" "Some demo_drill_adapter" demo_world] l ns show ?thesis
    by (auto simp: new_response_def demo_request_def)
qed

section \<open>Eligibility\<close>

inductive drills :: "'w host \<Rightarrow> ('w, 'd, 'e) drill_service \<Rightarrow> ('w, 'e) drill_state \<Rightarrow> ('w, 'e) drill_state \<Rightarrow> bool" for h sv where
  start: "drills h sv st st"
| drill: "drills h sv st st1 \<Longrightarrow> execute_drill h sv ty d did st1 = (res, st2) \<Longrightarrow> drills h sv st st2"

definition drills_ok :: "('w, 'e) drill_state \<Rightarrow> bool" where
  "drills_ok st \<longleftrightarrow> (\<forall>did. \<forall>r\<in>set (get_drill_history st did). dl_passed r = (dl_discrepancies r = []) \<and> dl_deployment_id r = did)"

lemma run_drill_passed: "run_drill h sv ty d did w = (Inr r, w') \<Longrightarrow> dl_passed r = (dl_discrepancies r = [])"
  by (cases ty) (auto simp: run_drill_def kill_switch_drill_def rollback_drill_def reconnect_drill_def failover_drill_def Let_def
      split: option.splits prod.splits sum.splits if_splits dest!: new_drill_sel)

lemma execute_drill_history:
  assumes "execute_drill h sv ty d did st = (res, st')"
  shows "dt_results st' = dt_results st \<or>
    (\<exists>r. dt_results st' = dict_set did (get_drill_history st did @ [r]) (dt_results st) \<and> dl_passed r = (dl_discrepancies r = []) \<and> dl_deployment_id r = did)"
  using assms by (fastforce simp: execute_drill_def Let_def split: option.splits if_splits prod.splits sum.splits dest!: run_drill_passed)

lemma execute_drill_ok:
  assumes "execute_drill h sv ty d did st = (res, st')" "drills_ok st"
  shows "drills_ok st'"
proof -
  from execute_drill_history [OF assms(1)] obtain rs where rs: "\<forall>r\<in>set rs. dl_passed r = (dl_discrepancies r = []) \<and> dl_deployment_id r = did"
    "get_drill_history st' x = get_drill_history st x @ (if x = did then rs else [])" for x
  proof (elim disjE exE conjE)
    fix r assume "dt_results st' = dict_set did (get_drill_history st did @ [r]) (dt_results st)" "dl_passed r = (dl_discrepancies r = [])" "dl_deployment_id r = did"
    then show thesis by (intro that [of "[r]"]) (auto simp: get_drill_history_def)
  qed (auto simp: get_drill_history_def intro: that [of "[]"])
  with assms(2) show ?thesis by (auto simp: drills_ok_def)
qed

lemma drills_ok_initial: "dt_results st = [] \<Longrightarrow> drills_ok st"
  by (simp add: drills_ok_def get_drill_history_def)

text \<open>
  Eligibility is what the drills found: after any drills of any deployments, a deployment is eligible for live trading exactly
  when every one of the four drills was executed for it at least once without a discrepancy, and the requirements that are reported as
  missing are those for which this is not so.
\<close>

theorem eligible_exactly_after_drills:
  assumes "drills h sv st0 st" "dt_results st0 = []" "check_live_eligibility sv d did st = Inr (eligible, missing)"
  shows "(eligible \<longleftrightarrow> (\<forall>ty. \<exists>r\<in>set (get_drill_history st did). dl_drill_type r = ty \<and> dl_discrepancies r = [])) \<and>
    (\<forall>req\<in>set live_eligibility_requirements.
       req \<in> set missing \<longleftrightarrow> \<not> (\<exists>r\<in>set (get_drill_history st did). dl_drill_type r = dq_drill_type req \<and> dl_discrepancies r = []))"
proof -
  have "drills_ok st" using assms(1,2) by (induction rule: drills.induct) (auto intro: drills_ok_initial execute_drill_ok)
  then have p: "dl_passed r = (dl_discrepancies r = [])" if "r \<in> set (get_drill_history st did)" for r using that by (simp add: drills_ok_def)
  let ?Q = "\<lambda>ty. \<exists>r\<in>set (get_drill_history st did). dl_drill_type r = ty \<and> dl_discrepancies r = []"
  have "ty \<in> set (map dl_drill_type (filter dl_passed (get_drill_history st did))) \<longleftrightarrow> ?Q ty" for ty using p by auto
  then have m: "missing = filter (\<lambda>req. dq_required req \<and> \<not> ?Q (dq_drill_type req)) live_eligibility_requirements" "eligible = (missing = [])"
    using assms(3) unfolding check_live_eligibility_def Let_def by (simp_all only: split: if_splits) auto
  have req: "dq_required req" if "req \<in> set live_eligibility_requirements" for req using that by (auto simp: live_eligibility_requirements_def)
  have types: "\<exists>req\<in>set live_eligibility_requirements. dq_drill_type req = ty" for ty by (cases ty) (simp_all add: live_eligibility_requirements_def)
  have "missing = [] \<longleftrightarrow> (\<forall>req\<in>set live_eligibility_requirements. ?Q (dq_drill_type req))" unfolding m(1) filter_empty_conv using req by blast
  moreover have "(\<forall>req\<in>set live_eligibility_requirements. ?Q (dq_drill_type req)) \<longleftrightarrow> (\<forall>ty. ?Q ty)" using types by metis
  moreover have "req \<in> set missing \<longleftrightarrow> \<not> ?Q (dq_drill_type req)" if "req \<in> set live_eligibility_requirements" for req
    unfolding m(1) using req [OF that] that by simp
  ultimately show ?thesis using m(2) by blast
qed

end
