(* ===== verification/Indicator_Engine.thy ===== *)
theory Indicator_Engine
  imports Backtest_Executor Dsl_Lexer
begin

text \<open>
  The indicator registry and engine, \<open>libs/indicators/registry.py\<close>, \<open>libs/indicators/engine.py\<close> and
  \<open>libs/indicators/__init__.py\<close>, with the containers of \<open>libs/contracts/indicator.py\<close>. The calculators, which compute with
  \<open>numpy\<close>, are values of the registry; the text of a float inside a key is an argument. The timestamps and the metadata of a
  result, which no strategy reads, are left out.
\<close>

section \<open>Containers\<close>

datatype param = PInt int | PFloat py_float

record indicator_request =
  iq_indicator_name :: string
  iq_params :: "(string, param) dict"

record indicator_output =
  ix_indicator_name :: string
  ix_values :: "py_float list option"
  ix_components :: "(string, py_float list) dict"

definition get_component :: "indicator_output \<Rightarrow> string \<Rightarrow> py_float list option" where
  "get_component r name = dict_get (ix_components r) name"

record ohlcv =
  oh_open :: "py_float list"
  oh_high :: "py_float list"
  oh_low :: "py_float list"
  oh_close :: "py_float list"
  oh_volume :: "py_float list"
  oh_timestamps :: "py_float list"

datatype raw_values = One "py_float list" | Many "(string, py_float list) dict"

type_synonym calculator = "(string, param) dict \<Rightarrow> ohlcv \<Rightarrow> (exn, raw_values) result"
type_synonym calculators = "(string, calculator) dict"
type_synonym indicators = "(string, indicator_output) dict"

section \<open>The registry\<close>

definition canonical_name :: "string \<Rightarrow> string" where
  "canonical_name name = strip (to_upper name)"

definition ir_register :: "string \<Rightarrow> calculator \<Rightarrow> bool \<Rightarrow> calculators \<Rightarrow> (exn, calculators) result" where
  "ir_register name calc force reg =
     (let canonical = canonical_name name
      in if canonical = [] then Inl value_error
         else if dict_has reg canonical \<and> \<not> force then Inl value_error
         else Inr (dict_set canonical calc reg))"

definition ir_get :: "calculators \<Rightarrow> string \<Rightarrow> (exn, calculator) result" where
  "ir_get reg name =
     (let canonical = canonical_name name
      in case dict_get reg canonical of
           None \<Rightarrow> Inl (IndicatorNotFoundError canonical (map fst reg))
         | Some calc \<Rightarrow> Inr calc)"

definition ir_has :: "calculators \<Rightarrow> string \<Rightarrow> bool" where
  "ir_has reg name = dict_has reg (canonical_name name)"

definition ir_names :: "calculators \<Rightarrow> string list" where
  "ir_names reg = sort (map fst reg)"

text \<open>The names under which the package registers its calculators, in the order of the imports.\<close>

definition registered_names :: "string list" where
  "registered_names =
     [''SMA'', ''EMA'', ''WMA'', ''DEMA'', ''TEMA'', ''MACD'', ''RSI'', ''STOCHASTIC'', ''STOCHASTIC_RSI'', ''ROC'', ''MOM'', ''WILLIAMS_R'',
      ''CCI'', ''BOLLINGER_BANDS'', ''ATR'', ''KELTNER'', ''DONCHIAN'', ''STDDEV'', ''HISTORICAL_VOLATILITY'', ''OBV'', ''VWAP'', ''ADL'',
      ''MFI'', ''CMF'', ''ADX'', ''ROLLING_HIGH'', ''ROLLING_LOW'', ''ROLLING_MAX'', ''ROLLING_MIN'', ''ROLLING_STDDEV'', ''ZSCORE'',
      ''CALENDAR_BUSINESS_DAY_INDEX'', ''CALENDAR_DAYS_TO_MONTH_END'']"

fun register_all :: "(string \<Rightarrow> calculator) \<Rightarrow> string list \<Rightarrow> calculators \<Rightarrow> (exn, calculators) result" where
  "register_all calc [] reg = Inr reg"
| "register_all calc (n # ns) reg = bind_r (ir_register n (calc n) False reg) (register_all calc ns)"

definition default_registry :: "(string \<Rightarrow> calculator) \<Rightarrow> calculators" where
  "default_registry calc = (case register_all calc registered_names [] of Inr reg \<Rightarrow> reg | Inl _ \<Rightarrow> [])"

section \<open>The engine\<close>

definition extract_ohlcv :: "candle list \<Rightarrow> ohlcv" where
  "extract_ohlcv cs =
     \<lparr>oh_open = map (read_price ''open'') cs, oh_high = map (read_price ''high'') cs, oh_low = map (read_price ''low'') cs,
      oh_close = map (read_price ''close'') cs, oh_volume = map (read_price ''volume'') cs,
      oh_timestamps = map (\<lambda>c. round64 (of_int (cn_timestamp c) / 1000000)) cs\<rparr>"

definition wrap_result :: "string \<Rightarrow> raw_values \<Rightarrow> indicator_output" where
  "wrap_result name raw =
     (case raw of
        Many comps \<Rightarrow> \<lparr>ix_indicator_name = to_upper name, ix_values = None, ix_components = comps\<rparr>
      | One xs \<Rightarrow> \<lparr>ix_indicator_name = to_upper name, ix_values = Some xs, ix_components = []\<rparr>)"

definition compute_indicator :: "calculators \<Rightarrow> string \<Rightarrow> candle list \<Rightarrow> (string, param) dict \<Rightarrow> (exn, indicator_output) result" where
  "compute_indicator reg name cs params =
     (if cs = [] then Inl value_error
      else bind_r (ir_get reg name) (\<lambda>calc. bind_r (calc params (extract_ohlcv cs)) (\<lambda>raw. Inr (wrap_result name raw))))"

fun join_text :: "string \<Rightarrow> string list \<Rightarrow> string" where
  "join_text sep [] = []"
| "join_text sep [x] = x"
| "join_text sep (x # xs) = x @ sep @ join_text sep xs"

definition param_text :: "(py_float \<Rightarrow> string) \<Rightarrow> param \<Rightarrow> string" where
  "param_text float_text p = (case p of PInt k \<Rightarrow> int_text k | PFloat x \<Rightarrow> float_text x)"

text \<open>The loop over the counter ends at the first key that is free: at most as many are taken as there are keys, so one of the
  first \<open>length existing + 1\<close> is free.\<close>

definition free_key :: "string \<Rightarrow> (string, 'a) dict \<Rightarrow> string" where
  "free_key base existing =
     (case find (\<lambda>k. \<not> dict_has existing k)
         (base # map (\<lambda>counter. base @ ''_'' @ nat_text counter) [2..<length existing + 2]) of
        Some k \<Rightarrow> k
      | None \<Rightarrow> base)"

definition make_batch_key :: "(py_float \<Rightarrow> string) \<Rightarrow> indicator_request \<Rightarrow> (string, 'a) dict \<Rightarrow> string" where
  "make_batch_key float_text req existing =
     (let canonical = to_upper (iq_indicator_name req)
      in if \<not> dict_has existing canonical then canonical
         else
           let param_str = join_text ''_'' (map (\<lambda>(k, v). k @ ''='' @ param_text float_text v) (sort_key fst (iq_params req)))
           in free_key (if param_str \<noteq> [] then canonical @ ''_'' @ param_str else canonical @ ''_2'') existing)"

fun compute_requests :: "(py_float \<Rightarrow> string) \<Rightarrow> calculators \<Rightarrow> ohlcv \<Rightarrow> indicator_request list \<Rightarrow> indicators \<Rightarrow> (exn, indicators) result" where
  "compute_requests float_text reg x [] results = Inr results"
| "compute_requests float_text reg x (req # reqs) results =
     bind_r (ir_get reg (iq_indicator_name req)) (\<lambda>calc.
     bind_r (calc (iq_params req) x) (\<lambda>raw.
       compute_requests float_text reg x reqs
         (dict_set (make_batch_key float_text req results) (wrap_result (iq_indicator_name req) raw) results)))"

definition compute_batch :: "(py_float \<Rightarrow> string) \<Rightarrow> calculators \<Rightarrow> indicator_request list \<Rightarrow> candle list \<Rightarrow> (exn, indicators) result" where
  "compute_batch float_text reg reqs cs =
     (if cs = [] then Inl value_error else if reqs = [] then Inl value_error
      else compute_requests float_text reg (extract_ohlcv cs) reqs [])"

section \<open>The keys of a batch\<close>

lemma suffixed_keys_distinct: "distinct (base # map (\<lambda>c. base @ ''_'' @ nat_text c) [2..<n])"
  by (auto simp: distinct_map inj_on_def)

lemma find_free:
  assumes "distinct ks" "length existing < length ks"
  obtains k where "find (\<lambda>k. \<not> dict_has existing k) ks = Some k" "dict_get existing k = None"
proof -
  have "card (set (map fst existing)) \<le> length existing" by (metis card_length length_map)
  then have "card (set (map fst existing)) < card (set ks)" using assms by (simp add: distinct_card)
  then have "\<not> set ks \<subseteq> set (map fst existing)" using card_mono [of "set (map fst existing)" "set ks"] by fastforce
  then obtain k where "k \<in> set ks" "dict_get existing k = None" by (auto simp: map_of_eq_None_iff)
  then have "find (\<lambda>k. \<not> dict_has existing k) ks \<noteq> None" by (auto simp: find_None_iff)
  then obtain k where "find (\<lambda>k. \<not> dict_has existing k) ks = Some k" by auto
  moreover then have "dict_get existing k = None" by (auto simp: find_Some_iff)
  ultimately show ?thesis using that by blast
qed

lemma free_key_fresh: "dict_get existing (free_key base existing) = None"
proof -
  have "length existing < length (base # map (\<lambda>c. base @ ''_'' @ nat_text c) [2..<length existing + 2])"
    by (simp only: list.size length_map length_upt)
  from find_free [OF suffixed_keys_distinct this] show ?thesis unfolding free_key_def by (metis option.case(2))
qed

text \<open>No result of a batch overwrites another: the key of a request is always new, so there are as many results as requests.\<close>

lemma batch_key_fresh: "dict_get existing (make_batch_key float_text req existing) = None"
  by (auto simp: make_batch_key_def Let_def free_key_fresh)

lemma compute_requests_length:
  "compute_requests float_text reg x reqs results = Inr r \<Longrightarrow> length r = length results + length reqs"
proof (induction reqs arbitrary: results)
  case (Cons req reqs)
  then show ?case by (auto simp: bind_r_Inr_iff batch_key_fresh dict_set_new)
qed simp

theorem batch_keeps_every_result: "compute_batch float_text reg reqs cs = Inr r \<Longrightarrow> length r = length reqs"
  by (auto simp: compute_batch_def split: if_splits dest: compute_requests_length)

lemma register_all_new:
  assumes "distinct ns" "list_all (\<lambda>n. canonical_name n = n \<and> n \<noteq> []) ns" "set ns \<inter> fst ` set reg = {}"
  shows "register_all calc ns reg = Inr (reg @ map (\<lambda>n. (n, calc n)) ns)"
  using assms
proof (induction ns arbitrary: reg)
  case (Cons n ns)
  have "dict_get reg n = None" using Cons.prems(3) by (simp add: map_of_eq_None_iff)
  moreover have "register_all calc ns (reg @ [(n, calc n)]) = Inr ((reg @ [(n, calc n)]) @ map (\<lambda>n. (n, calc n)) ns)"
    using Cons.prems by (intro Cons.IH) auto
  ultimately show ?case using Cons.prems(2) by (simp add: ir_register_def Let_def dict_set_new)
qed simp

lemma default_registry_eq: "default_registry calc = map (\<lambda>n. (n, calc n)) registered_names"
proof -
  have "distinct registered_names" by code_simp
  moreover have "list_all (\<lambda>n. canonical_name n = n \<and> n \<noteq> []) registered_names" by code_simp
  ultimately show ?thesis by (simp add: default_registry_def register_all_new)
qed

lemma default_registry_names: "map fst (default_registry calc) = registered_names"
  by (simp add: default_registry_eq o_def)

lemma default_registry_get: "dict_get (default_registry calc) name = (if name \<in> set registered_names then Some (calc name) else None)"
  by (simp add: default_registry_eq map_of_map_restrict restrict_map_def)

end
