(* ===== verification/Signal_Strategies.thy ===== *)
theory Signal_Strategies
  imports Indicator_Engine
begin

text \<open>
  The built-in signal strategies, \<open>services/worker/strategies\<close>, and the signals of \<open>libs/contracts/signal.py\<close>. A strategy is a
  record of its identifier, its indicator requests and its evaluation; evaluation may keep a state from bar to bar, which
  only the compiled strategies do. The stamps are the identifiers and times that the environment supplies, one for the
  signal of the strategy itself and one for every sub-strategy.
\<close>

section \<open>Signals\<close>

datatype direction = LONG | SHORT | FLAT
datatype strength = STRONG | MODERATE | WEAK
datatype signal_kind = ENTRY | EXIT | SCALE_IN | SCALE_OUT | STOP_ADJUSTMENT

datatype meta = MFloat py_float | MText string | MInt int | MTexts "string list" | MFloats "(string, py_float) dict"

record trade_signal =
  tg_signal_id :: string
  tg_strategy_id :: string
  tg_deployment_id :: string
  tg_symbol :: string
  tg_direction :: direction
  tg_signal_type :: signal_kind
  tg_strength :: strength
  tg_suggested_entry :: "decimal option"
  tg_suggested_stop :: "decimal option"
  tg_suggested_target :: "decimal option"
  tg_confidence :: py_float
  tg_indicators_used :: "(string, py_float) dict"
  tg_bar_timestamp :: datetime
  tg_generated_at :: datetime
  tg_metadata :: "(string, meta) dict"
  tg_correlation_id :: string

text \<open>The constraints of the fields; the symbol is in upper case once they hold.\<close>

definition new_trade_signal :: "trade_signal \<Rightarrow> (exn, trade_signal) result" where
  "new_trade_signal g =
     (if 1 \<le> length (tg_signal_id g) \<and> length (tg_signal_id g) \<le> 255 \<and> 1 \<le> length (tg_strategy_id g) \<and> length (tg_strategy_id g) \<le> 255 \<and>
         1 \<le> length (tg_deployment_id g) \<and> length (tg_deployment_id g) \<le> 255 \<and> 1 \<le> length (tg_symbol g) \<and> length (tg_symbol g) \<le> 20 \<and>
         f_le (Num 0) (tg_confidence g) \<and> f_le (tg_confidence g) (Num 1) \<and> 1 \<le> length (tg_correlation_id g)
      then Inr (g\<lparr>tg_symbol := to_upper (tg_symbol g)\<rparr>)
      else Inl (PyError ''pydantic.ValidationError''))"

type_synonym stamps = "nat list \<Rightarrow> string \<times> datetime"

record 's signal_strategy =
  sy_strategy_id :: string
  sy_supported_symbols :: "string list"
  sy_required_indicators :: "indicator_request list"
  sy_evaluate :: "stamps \<Rightarrow> string \<Rightarrow> candle list \<Rightarrow> indicators \<Rightarrow> position_snapshot option \<Rightarrow> string \<Rightarrow> 's \<Rightarrow>
    (exn, trade_signal option) result \<times> 's"

text \<open>No built-in strategy passes a price to the helper, so the three suggested prices keep their default.\<close>

definition make_signal ::
  "string \<times> datetime \<Rightarrow> string \<Rightarrow> string \<Rightarrow> string \<Rightarrow> direction \<Rightarrow> signal_kind \<Rightarrow> strength \<Rightarrow> py_float \<Rightarrow> (string, py_float) dict \<Rightarrow>
     candle list \<Rightarrow> string \<Rightarrow> (string, meta) dict \<Rightarrow> (exn, trade_signal option) result" where
  "make_signal stamp sid did symbol dir ty strg conf used candles corr md =
     (if candles = [] then Inl (PyError ''IndexError'')
      else
        bind_r (new_trade_signal
          \<lparr>tg_signal_id = fst stamp, tg_strategy_id = sid, tg_deployment_id = did, tg_symbol = symbol, tg_direction = dir, tg_signal_type = ty,
           tg_strength = strg, tg_suggested_entry = None, tg_suggested_stop = None, tg_suggested_target = None, tg_confidence = conf,
           tg_indicators_used = used, tg_bar_timestamp = cn_timestamp (last candles), tg_generated_at = snd stamp, tg_metadata = md,
           tg_correlation_id = corr\<rparr>) (\<lambda>g. Inr (Some g)))"

section \<open>Helpers\<close>

text \<open>Python's \<open>min\<close> and \<open>max\<close> keep the first argument unless the second is smaller, or greater.\<close>

definition py_min :: "py_float \<Rightarrow> py_float \<Rightarrow> py_float" where "py_min x y = (if f_less y x then y else x)"
definition py_max :: "py_float \<Rightarrow> py_float \<Rightarrow> py_float" where "py_max x y = (if f_less x y then y else x)"

fun py_abs :: "py_float \<Rightarrow> py_float" where
  "py_abs (Num x) = Num \<bar>x\<bar>"
| "py_abs (Inf s) = Inf False"
| "py_abs NaN = NaN"

text \<open>A direction that opposes the position closes it.\<close>

definition entry_or_exit :: "direction \<Rightarrow> position_snapshot option \<Rightarrow> signal_kind" where
  "entry_or_exit dir position =
     (case position of
        None \<Rightarrow> ENTRY
      | Some p \<Rightarrow> if ps_quantity p \<noteq> 0 \<and> (dir = LONG \<and> ps_quantity p < 0 \<or> dir = SHORT \<and> 0 < ps_quantity p) then EXIT else ENTRY)"

definition clamped :: "py_float \<Rightarrow> py_float" where
  "clamped x = py_max (Num 0) (py_min x (Num 1))"

definition int_request :: "string \<Rightarrow> (string \<times> int) list \<Rightarrow> indicator_request" where
  "int_request name ps = \<lparr>iq_indicator_name = name, iq_params = map (\<lambda>(k, v). (k, PInt v)) ps\<rparr>"

text \<open>\<open>len\<close> of a result without values raises.\<close>

definition values_of :: "indicator_output \<Rightarrow> (exn, py_float list) result" where
  "values_of r = (case ix_values r of None \<Rightarrow> Inl (PyError ''TypeError'') | Some xs \<Rightarrow> Inr xs)"

definition before_last :: "'a list \<Rightarrow> 'a" where
  "before_last xs = xs ! (length xs - 2)"

section \<open>Moving average crossover\<close>

record ma_config =
  ma_deployment_id :: string
  ma_fast_period :: int
  ma_slow_period :: int
  ma_use_ema :: bool
  ma_strong_threshold_pct :: py_float
  ma_moderate_threshold_pct :: py_float
  ma_supported_symbols :: "string list"

definition ma_name :: "ma_config \<Rightarrow> string" where
  "ma_name c = (if ma_use_ema c then ''EMA'' else ''SMA'')"

definition ma_signal ::
  "ma_config \<Rightarrow> string \<times> datetime \<Rightarrow> string \<Rightarrow> candle list \<Rightarrow> position_snapshot option \<Rightarrow> string \<Rightarrow> string \<Rightarrow> string \<Rightarrow> py_float \<Rightarrow> py_float \<Rightarrow> bool \<Rightarrow>
     (exn, trade_signal option) result" where
  "ma_signal c stamp symbol candles position corr fast_key slow_key fast_curr slow_curr golden_cross =
     (let dir = (if golden_cross then LONG else SHORT); spread = py_abs (f_sub fast_curr slow_curr)
      in bind_r (if f_eq slow_curr (Num 0) then Inr (Num 0) else bind_r (f_div spread slow_curr) (\<lambda>q. Inr (f_mul q (Num 100)))) (\<lambda>spread_pct.
         bind_r (if f_less (Num 0) (ma_strong_threshold_pct c) then bind_r (f_div spread_pct (ma_strong_threshold_pct c)) (\<lambda>q. Inr (py_min q (Num 1)))
                 else Inr (Num 0)) (\<lambda>confidence.
           make_signal stamp ''ma-crossover'' (ma_deployment_id c) symbol dir (entry_or_exit dir position)
             (if f_le (ma_strong_threshold_pct c) spread_pct then STRONG else if f_le (ma_moderate_threshold_pct c) spread_pct then MODERATE else WEAK)
             (py_max (Num 0) confidence) (dict_set slow_key slow_curr [(fast_key, fast_curr)]) candles corr
             [(''fast_ma'', MFloat fast_curr), (''slow_ma'', MFloat slow_curr), (''spread_pct'', MFloat spread_pct),
              (''crossover_type'', MText (if golden_cross then ''golden_cross'' else ''death_cross''))])))"

definition ma_evaluate ::
  "ma_config \<Rightarrow> stamps \<Rightarrow> string \<Rightarrow> candle list \<Rightarrow> indicators \<Rightarrow> position_snapshot option \<Rightarrow> string \<Rightarrow> (exn, trade_signal option) result" where
  "ma_evaluate c stamp symbol candles inds position corr =
     (let fast_key = ma_name c @ ''_'' @ int_text (ma_fast_period c); slow_key = ma_name c @ ''_'' @ int_text (ma_slow_period c)
      in case (dict_get inds fast_key, dict_get inds slow_key) of
           (Some fast_result, Some slow_result) \<Rightarrow>
             bind_r (values_of fast_result) (\<lambda>fast_values.
             if length fast_values < 2 then Inr None
             else
             bind_r (values_of slow_result) (\<lambda>slow_values.
             if length slow_values < 2 then Inr None
             else
               let fast_prev = before_last fast_values; fast_curr = last fast_values;
                   slow_prev = before_last slow_values; slow_curr = last slow_values
               in if isnan fast_prev \<or> isnan fast_curr \<or> isnan slow_prev \<or> isnan slow_curr then Inr None
                  else
                    let golden_cross = (f_le fast_prev slow_prev \<and> f_less slow_curr fast_curr);
                        death_cross = (f_le slow_prev fast_prev \<and> f_less fast_curr slow_curr)
                    in if \<not> (golden_cross \<or> death_cross) then Inr None
                       else ma_signal c (stamp []) symbol candles position corr fast_key slow_key fast_curr slow_curr golden_cross))
         | _ \<Rightarrow> Inr None)"

definition ma_crossover :: "ma_config \<Rightarrow> (exn, 's signal_strategy) result" where
  "ma_crossover c =
     (if ma_slow_period c \<le> ma_fast_period c then Inl value_error
      else if f_le (ma_strong_threshold_pct c) (Num 0) \<or> f_le (ma_moderate_threshold_pct c) (Num 0) then Inl value_error
      else Inr
        \<lparr>sy_strategy_id = ''ma-crossover'', sy_supported_symbols = ma_supported_symbols c,
         sy_required_indicators = [int_request (ma_name c) [(''period'', ma_fast_period c)], int_request (ma_name c) [(''period'', ma_slow_period c)]],
         sy_evaluate = (\<lambda>stamp symbol candles inds position corr s. (ma_evaluate c stamp symbol candles inds position corr, s))\<rparr>)"

section \<open>RSI mean reversion\<close>

record rsi_config =
  rs_deployment_id :: string
  rs_rsi_period :: int
  rs_oversold :: py_float
  rs_overbought :: py_float
  rs_strong_swing :: py_float
  rs_moderate_swing :: py_float
  rs_supported_symbols :: "string list"

text \<open>The extreme of the last five valid values.\<close>

definition recent_extreme :: "(py_float \<Rightarrow> py_float \<Rightarrow> py_float) \<Rightarrow> py_float list \<Rightarrow> py_float" where
  "recent_extreme f xs = (let recent = drop (length xs - min 5 (length xs)) xs in foldl f (hd recent) (tl recent))"

definition rsi_evaluate ::
  "rsi_config \<Rightarrow> stamps \<Rightarrow> string \<Rightarrow> candle list \<Rightarrow> indicators \<Rightarrow> position_snapshot option \<Rightarrow> string \<Rightarrow> (exn, trade_signal option) result" where
  "rsi_evaluate c stamp symbol candles inds position corr =
     (let period = int_text (rs_rsi_period c)
      in case dict_get inds (''RSI_'' @ period) of
           None \<Rightarrow> Inr None
         | Some indicator \<Rightarrow>
             (case ix_values indicator of
                None \<Rightarrow> Inr None
              | Some rsi_values \<Rightarrow>
                  let valid = filter (\<lambda>x. \<not> isnan x) rsi_values
                  in if length valid < 2 then Inr None
                     else
                       let rsi_prev = before_last valid; rsi_curr = last valid;
                           dir = (if f_less rsi_prev (rs_oversold c) \<and> f_le (rs_oversold c) rsi_curr then Some LONG
                                  else if f_less (rs_overbought c) rsi_prev \<and> f_le rsi_curr (rs_overbought c) then Some SHORT else None)
                       in case dir of
                            None \<Rightarrow> Inr None
                          | Some d \<Rightarrow>
                              let swing = (if d = LONG then f_sub rsi_curr (recent_extreme py_min valid) else f_sub (recent_extreme py_max valid) rsi_curr)
                              in bind_r (f_div swing (rs_strong_swing c)) (\<lambda>q.
                                   make_signal (stamp []) ''rsi-mean-reversion'' (rs_deployment_id c) symbol d ENTRY
                                     (if f_le (rs_strong_swing c) swing then STRONG else if f_le (rs_moderate_swing c) swing then MODERATE else WEAK)
                                     (clamped q)
                                     [(''rsi_'' @ period @ ''_prev'', rsi_prev), (''rsi_'' @ period @ ''_curr'', rsi_curr)] candles corr [])))"

definition rsi_mean_reversion :: "rsi_config \<Rightarrow> 's signal_strategy" where
  "rsi_mean_reversion c =
     \<lparr>sy_strategy_id = ''rsi-mean-reversion'', sy_supported_symbols = rs_supported_symbols c,
      sy_required_indicators = [int_request ''RSI'' [(''period'', rs_rsi_period c)]],
      sy_evaluate = (\<lambda>stamp symbol candles inds position corr s. (rsi_evaluate c stamp symbol candles inds position corr, s))\<rparr>"

section \<open>MACD momentum\<close>

record macd_config =
  md_deployment_id :: string
  md_fast_period :: int
  md_slow_period :: int
  md_signal_period :: int
  md_strong_histogram :: py_float
  md_moderate_histogram :: py_float
  md_supported_symbols :: "string list"

text \<open>The last values of the two lines, or not a number for both when one is missing.\<close>

definition macd_lines :: "indicator_output \<Rightarrow> (exn, py_float \<times> py_float) result" where
  "macd_lines r =
     (case (get_component r ''macd_line'', get_component r ''signal_line'') of
        (Some xs, Some ys) \<Rightarrow> if xs = [] \<or> ys = [] then Inl (PyError ''IndexError'') else Inr (last xs, last ys)
      | _ \<Rightarrow> Inr (NaN, NaN))"

definition macd_evaluate ::
  "macd_config \<Rightarrow> stamps \<Rightarrow> string \<Rightarrow> candle list \<Rightarrow> indicators \<Rightarrow> position_snapshot option \<Rightarrow> string \<Rightarrow> (exn, trade_signal option) result" where
  "macd_evaluate c stamp symbol candles inds position corr =
     (case dict_get inds ''MACD'' of
        None \<Rightarrow> Inr None
      | Some macd \<Rightarrow>
          (case get_component macd ''histogram'' of
             None \<Rightarrow> Inr None
           | Some histogram \<Rightarrow>
               if length histogram < 2 then Inr None
               else
                 let hist_prev = before_last histogram; hist_curr = last histogram
                 in if isnan hist_prev \<or> isnan hist_curr then Inr None
                    else
                      let turning_positive = (f_le hist_prev (Num 0) \<and> f_less (Num 0) hist_curr);
                          turning_negative = (f_le (Num 0) hist_prev \<and> f_less hist_curr (Num 0))
                      in if \<not> (turning_positive \<or> turning_negative) then Inr None
                         else
                           let dir = (if turning_positive then LONG else SHORT); abs_histogram = py_abs hist_curr
                           in bind_r (if f_less (Num 0) (md_strong_histogram c)
                                      then bind_r (f_div abs_histogram (md_strong_histogram c)) (\<lambda>q. Inr (py_min q (Num 1))) else Inr (Num 0)) (\<lambda>confidence.
                              bind_r (macd_lines macd) (\<lambda>(macd_line, signal_line).
                                make_signal (stamp []) ''macd-momentum'' (md_deployment_id c) symbol dir (entry_or_exit dir position)
                                  (if f_le (md_strong_histogram c) abs_histogram then STRONG
                                   else if f_le (md_moderate_histogram c) abs_histogram then MODERATE else WEAK)
                                  (py_max (Num 0) confidence)
                                  [(''macd_line'', macd_line), (''signal_line'', signal_line), (''histogram'', hist_curr)] candles corr
                                  [(''histogram_previous'', MFloat hist_prev), (''histogram_current'', MFloat hist_curr),
                                   (''momentum_type'', MText (if turning_positive then ''positive'' else ''negative'')),
                                   (''macd_line'', MFloat macd_line), (''signal_line'', MFloat signal_line)]))))"

definition macd_momentum :: "macd_config \<Rightarrow> (exn, 's signal_strategy) result" where
  "macd_momentum c =
     (if md_slow_period c \<le> md_fast_period c then Inl value_error
      else if f_le (md_strong_histogram c) (Num 0) \<or> f_le (md_moderate_histogram c) (Num 0) then Inl value_error
      else Inr
        \<lparr>sy_strategy_id = ''macd-momentum'', sy_supported_symbols = md_supported_symbols c,
         sy_required_indicators =
           [int_request ''MACD'' [(''fast_period'', md_fast_period c), (''slow_period'', md_slow_period c), (''signal_period'', md_signal_period c)]],
         sy_evaluate = (\<lambda>stamp symbol candles inds position corr s. (macd_evaluate c stamp symbol candles inds position corr, s))\<rparr>)"

section \<open>Bollinger band breakout\<close>

record bollinger_config =
  bo_deployment_id :: string
  bo_bb_period :: int
  bo_bb_std :: py_float
  bo_volume_multiplier :: py_float
  bo_volume_lookback :: int
  bo_supported_symbols :: "string list"

definition average_volume :: "bollinger_config \<Rightarrow> candle list \<Rightarrow> py_float" where
  "average_volume c candles =
     (let k = min (nat (bo_volume_lookback c)) (length candles)
      in round64 (of_int (sum_list (map cn_volume (drop (length candles - k) candles))) / of_nat k))"

definition breakout_signal ::
  "bollinger_config \<Rightarrow> string \<times> datetime \<Rightarrow> string \<Rightarrow> candle list \<Rightarrow> position_snapshot option \<Rightarrow> string \<Rightarrow> py_float \<Rightarrow> py_float list \<Rightarrow> py_float \<Rightarrow> direction \<Rightarrow>
     (exn, trade_signal option) result" where
  "breakout_signal c stamp symbol candles position corr upper_curr middle lower_curr dir =
     (let close_curr = f_of_decimal (cn_close (last candles)); avg_volume = average_volume c candles;
          current_volume = read_price ''volume'' (last candles); band_width = f_sub upper_curr lower_curr
      in if f_less current_volume (f_mul avg_volume (bo_volume_multiplier c)) then Inr None
         else if f_le band_width (Num 0) then Inr None
         else
           let distance = (if dir = LONG then f_sub close_curr upper_curr else f_sub lower_curr close_curr)
           in bind_r (f_div distance band_width) (\<lambda>ratio.
              if middle = [] then Inl (PyError ''IndexError'')
              else
                let distance_pct = f_mul ratio (Num 100)
                in bind_r (f_div current_volume avg_volume) (\<lambda>volume_ratio.
                     make_signal stamp ''bollinger-breakout'' (bo_deployment_id c) symbol dir (entry_or_exit dir position)
                       (if f_less (Num (1 / 2)) distance_pct then STRONG else if f_less (round64 (1 / 5)) distance_pct then MODERATE else WEAK)
                       (clamped ratio)
                       [(''upper'', upper_curr), (''middle'', if isnan (last middle) then Num 0 else last middle), (''lower'', lower_curr),
                        (''close'', close_curr)] candles corr
                       [(''upper_band'', MFloat upper_curr), (''lower_band'', MFloat lower_curr), (''band_width'', MFloat band_width),
                        (''distance_pct'', MFloat distance_pct), (''current_volume'', MFloat current_volume), (''avg_volume'', MFloat avg_volume),
                        (''volume_multiplier'', MFloat volume_ratio),
                        (''breakout_type'', MText (if dir = LONG then ''above_upper'' else ''below_lower''))])))"

definition bollinger_evaluate ::
  "bollinger_config \<Rightarrow> stamps \<Rightarrow> string \<Rightarrow> candle list \<Rightarrow> indicators \<Rightarrow> position_snapshot option \<Rightarrow> string \<Rightarrow> (exn, trade_signal option) result" where
  "bollinger_evaluate c stamp symbol candles inds position corr =
     (case dict_get inds (''BBANDS_'' @ int_text (bo_bb_period c)) of
        None \<Rightarrow> Inr None
      | Some bb \<Rightarrow>
          (case (get_component bb ''upper'', get_component bb ''middle'', get_component bb ''lower'') of
             (Some upper, Some middle, Some lower) \<Rightarrow>
               if upper = [] \<or> lower = [] then Inr None
               else if isnan (last upper) \<or> isnan (last lower) then Inr None
               else if candles = [] then Inr None
               else
                 let close_curr = f_of_decimal (cn_close (last candles))
                 in if f_less (last upper) close_curr
                    then breakout_signal c (stamp []) symbol candles position corr (last upper) middle (last lower) LONG
                    else if f_less close_curr (last lower)
                    then breakout_signal c (stamp []) symbol candles position corr (last upper) middle (last lower) SHORT
                    else Inr None
           | _ \<Rightarrow> Inr None))"

definition bollinger_breakout :: "bollinger_config \<Rightarrow> (exn, 's signal_strategy) result" where
  "bollinger_breakout c =
     (if bo_bb_period c < 2 \<or> f_le (bo_bb_std c) (Num 0) \<or> f_le (bo_volume_multiplier c) (Num 0) \<or> bo_volume_lookback c < 1 then Inl value_error
      else Inr
        \<lparr>sy_strategy_id = ''bollinger-breakout'', sy_supported_symbols = bo_supported_symbols c,
         sy_required_indicators =
           [\<lparr>iq_indicator_name = ''BBANDS'', iq_params = [(''period'', PInt (bo_bb_period c)), (''std_dev'', PFloat (bo_bb_std c))]\<rparr>],
         sy_evaluate = (\<lambda>stamp symbol candles inds position corr s. (bollinger_evaluate c stamp symbol candles inds position corr, s))\<rparr>)"

section \<open>Stochastic momentum\<close>

record stochastic_config =
  sm_deployment_id :: string
  sm_stoch_period :: int
  sm_stoch_k :: int
  sm_stoch_d :: int
  sm_rsi_period :: int
  sm_oversold_zone :: py_float
  sm_overbought_zone :: py_float
  sm_rsi_long_filter :: py_float
  sm_rsi_short_filter :: py_float
  sm_supported_symbols :: "string list"

definition stochastic_signal ::
  "stochastic_config \<Rightarrow> string \<times> datetime \<Rightarrow> string \<Rightarrow> candle list \<Rightarrow> position_snapshot option \<Rightarrow> string \<Rightarrow> py_float \<Rightarrow> py_float \<Rightarrow> py_float \<Rightarrow> bool \<Rightarrow>
     (exn, trade_signal option) result" where
  "stochastic_signal c stamp symbol candles position corr k_curr d_curr rsi_curr long_crossover =
     (let dir = (if long_crossover then LONG else SHORT); divergence = py_abs (f_sub k_curr d_curr)
      in bind_r (f_div divergence (Num 20)) (\<lambda>q.
           make_signal stamp ''stochastic-momentum'' (sm_deployment_id c) symbol dir (entry_or_exit dir position)
             (if f_less (Num 10) divergence then STRONG else if f_less (Num 5) divergence then MODERATE else WEAK) (clamped q)
             [(''k'', k_curr), (''d'', d_curr), (''rsi'', rsi_curr)] candles corr
             [(''k_value'', MFloat k_curr), (''d_value'', MFloat d_curr), (''k_d_divergence'', MFloat divergence), (''rsi_value'', MFloat rsi_curr),
              (''crossover_type'', MText (if long_crossover then ''k_above_d'' else ''k_below_d'')),
              (''zone'', MText (if long_crossover then ''oversold'' else ''overbought''))]))"

definition stochastic_evaluate ::
  "stochastic_config \<Rightarrow> stamps \<Rightarrow> string \<Rightarrow> candle list \<Rightarrow> indicators \<Rightarrow> position_snapshot option \<Rightarrow> string \<Rightarrow> (exn, trade_signal option) result" where
  "stochastic_evaluate c stamp symbol candles inds position corr =
     (case (dict_get inds (''STOCH_'' @ int_text (sm_stoch_period c)), dict_get inds (''RSI_'' @ int_text (sm_rsi_period c))) of
        (Some stoch, Some rsi_result) \<Rightarrow>
          (case (get_component stoch ''k'', get_component stoch ''d'') of
             (Some k, Some d) \<Rightarrow>
               if length k < 2 \<or> length d < 2 then Inr None
               else
                 bind_r (values_of rsi_result) (\<lambda>rsi.
                 if rsi = [] then Inr None
                 else
                   let k_prev = before_last k; k_curr = last k; d_prev = before_last d; d_curr = last d; rsi_curr = last rsi
                   in if isnan k_prev \<or> isnan k_curr \<or> isnan d_prev \<or> isnan d_curr \<or> isnan rsi_curr then Inr None
                      else if f_le k_prev d_prev \<and> f_less d_curr k_curr then
                        if f_le (sm_oversold_zone c) k_curr \<or> f_le (sm_rsi_long_filter c) rsi_curr then Inr None
                        else stochastic_signal c (stamp []) symbol candles position corr k_curr d_curr rsi_curr True
                      else if f_le d_prev k_prev \<and> f_less k_curr d_curr then
                        if f_le k_curr (sm_overbought_zone c) \<or> f_le rsi_curr (sm_rsi_short_filter c) then Inr None
                        else stochastic_signal c (stamp []) symbol candles position corr k_curr d_curr rsi_curr False
                      else Inr None)
           | _ \<Rightarrow> Inr None)
      | _ \<Rightarrow> Inr None)"

definition stochastic_momentum :: "stochastic_config \<Rightarrow> (exn, 's signal_strategy) result" where
  "stochastic_momentum c =
     (let in_range = (\<lambda>x. f_le (Num 0) x \<and> f_le x (Num 100))
      in if sm_stoch_period c < 1 \<or> sm_stoch_k c < 1 \<or> sm_stoch_d c < 1 \<or> sm_rsi_period c < 1 \<or> \<not> in_range (sm_oversold_zone c) \<or>
            \<not> in_range (sm_overbought_zone c) \<or> f_le (sm_rsi_short_filter c) (sm_rsi_long_filter c) then Inl value_error
         else Inr
           \<lparr>sy_strategy_id = ''stochastic-momentum'', sy_supported_symbols = sm_supported_symbols c,
            sy_required_indicators =
              [int_request ''STOCH'' [(''period'', sm_stoch_period c), (''k_period'', sm_stoch_k c), (''d_period'', sm_stoch_d c)],
               int_request ''RSI'' [(''period'', sm_rsi_period c)]],
            sy_evaluate = (\<lambda>stamp symbol candles inds position corr s. (stochastic_evaluate c stamp symbol candles inds position corr, s))\<rparr>)"

section \<open>The composite strategy\<close>

record 's composite_config =
  co_deployment_id :: string
  co_sub_strategies :: "'s signal_strategy list"
  co_weights :: "(string, py_float) dict"
  co_quorum :: int
  co_min_confidence :: py_float
  co_supported_symbols :: "string list"

text \<open>The sub-strategies are asked in order and share the state; an exception of one of them ends the evaluation.\<close>

fun sub_signals ::
  "nat \<Rightarrow> stamps \<Rightarrow> string \<Rightarrow> candle list \<Rightarrow> indicators \<Rightarrow> position_snapshot option \<Rightarrow> string \<Rightarrow> 's signal_strategy list \<Rightarrow> 's \<Rightarrow>
     (exn, trade_signal list) result \<times> 's" where
  "sub_signals i stamp symbol candles inds position corr [] s = (Inr [], s)"
| "sub_signals i stamp symbol candles inds position corr (y # ys) s =
     (case sy_evaluate y (\<lambda>path. stamp (i # path)) symbol candles inds position corr s of
        (Inl e, s') \<Rightarrow> (Inl e, s')
      | (Inr r, s') \<Rightarrow>
          (case sub_signals (Suc i) stamp symbol candles inds position corr ys s' of
             (Inl e, s'') \<Rightarrow> (Inl e, s'')
           | (Inr gs, s'') \<Rightarrow> (Inr (case r of None \<Rightarrow> gs | Some g \<Rightarrow> g # gs), s'')))"

definition weight_of :: "(string, py_float) dict \<Rightarrow> trade_signal \<Rightarrow> py_float" where
  "weight_of weights g = (case dict_get weights (tg_strategy_id g) of None \<Rightarrow> Num 1 | Some w \<Rightarrow> w)"

definition votes_for :: "(string, py_float) dict \<Rightarrow> trade_signal list \<Rightarrow> direction \<Rightarrow> py_float" where
  "votes_for weights gs d = foldl (\<lambda>v g. if tg_direction g = d then f_add v (weight_of weights g) else v) (Num 0) gs"

definition majority_direction :: "(string, py_float) dict \<Rightarrow> trade_signal list \<Rightarrow> (exn, direction) result" where
  "majority_direction weights gs =
     (let votes = votes_for weights gs;
          max_votes = py_max (py_max (votes LONG) (votes SHORT)) (votes FLAT);
          majority = filter (\<lambda>d. f_eq (votes d) max_votes) [LONG, SHORT, FLAT]
      in if 1 < length majority then Inr (if LONG \<in> set majority then LONG else if SHORT \<in> set majority then SHORT else FLAT)
         else if majority = [] then Inl (PyError ''IndexError'') else Inr (hd majority))"

definition average_confidence :: "(string, py_float) dict \<Rightarrow> trade_signal list \<Rightarrow> (exn, py_float) result" where
  "average_confidence weights gs =
     (let weighted = foldl (\<lambda>x g. f_add x (f_mul (tg_confidence g) (weight_of weights g))) (Num 0) gs;
          total_weight = foldl (\<lambda>x g. f_add x (weight_of weights g)) (Num 0) gs
      in if f_less (Num 0) total_weight then f_div weighted total_weight else Inr (Num 0))"

definition strength_rank :: "strength \<Rightarrow> nat" where
  "strength_rank x = (case x of STRONG \<Rightarrow> 3 | MODERATE \<Rightarrow> 2 | WEAK \<Rightarrow> 1)"

text \<open>The strength of the first strongest signal.\<close>

definition strongest :: "trade_signal list \<Rightarrow> strength" where
  "strongest gs = foldl (\<lambda>x g. if strength_rank x < strength_rank (tg_strength g) then tg_strength g else x) (tg_strength (hd gs)) (tl gs)"

definition direction_value :: "direction \<Rightarrow> string" where
  "direction_value d = (case d of LONG \<Rightarrow> ''long'' | SHORT \<Rightarrow> ''short'' | FLAT \<Rightarrow> ''flat'')"

definition composite_signal ::
  "'s composite_config \<Rightarrow> string \<times> datetime \<Rightarrow> string \<Rightarrow> candle list \<Rightarrow> position_snapshot option \<Rightarrow> string \<Rightarrow> trade_signal list \<Rightarrow>
     (exn, trade_signal option) result" where
  "composite_signal c stamp symbol candles position corr gs =
     (if int (length gs) < co_quorum c then Inr None
      else
        bind_r (majority_direction (co_weights c) gs) (\<lambda>dir.
        let majority = filter (\<lambda>g. tg_direction g = dir) gs
        in if majority = [] then Inr None
           else
             bind_r (average_confidence (co_weights c) majority) (\<lambda>avg.
             if f_less avg (co_min_confidence c) then Inr None
             else
               make_signal stamp ''composite-signal'' (co_deployment_id c) symbol dir (entry_or_exit dir position) (strongest majority) avg
                 (foldl (\<lambda>d g. foldl (\<lambda>d (k, v). dict_set k v d) d (tg_indicators_used g)) [] majority) candles corr
                 [(''num_sub_signals'', MInt (int (length gs))), (''num_majority_signals'', MInt (int (length majority))),
                  (''sub_strategy_ids'', MTexts (map tg_strategy_id majority)),
                  (''voting_weights'', MFloats (dict_of (map (\<lambda>g. (tg_strategy_id g, weight_of (co_weights c) g)) majority))),
                  (''direction_votes'', MFloats (map (\<lambda>d. (direction_value d, votes_for (co_weights c) gs d)) [LONG, SHORT, FLAT])),
                  (''avg_confidence'', MFloat avg)])))"

definition composite_evaluate ::
  "'s composite_config \<Rightarrow> stamps \<Rightarrow> string \<Rightarrow> candle list \<Rightarrow> indicators \<Rightarrow> position_snapshot option \<Rightarrow> string \<Rightarrow> 's \<Rightarrow>
     (exn, trade_signal option) result \<times> 's" where
  "composite_evaluate c stamp symbol candles inds position corr s =
     (case sub_signals 0 stamp symbol candles inds position corr (co_sub_strategies c) s of
        (Inl e, s') \<Rightarrow> (Inl e, s')
      | (Inr gs, s') \<Rightarrow> (composite_signal c (stamp []) symbol candles position corr gs, s'))"

text \<open>Requests are the same when the name and the sorted parameters are.\<close>

fun deduplicated :: "indicator_request list \<Rightarrow> indicator_request list \<Rightarrow> indicator_request list" where
  "deduplicated seen [] = rev seen"
| "deduplicated seen (r # rs) =
     (if list_ex (\<lambda>q. iq_indicator_name q = iq_indicator_name r \<and> sort_key fst (iq_params q) = sort_key fst (iq_params r)) seen
      then deduplicated seen rs else deduplicated (r # seen) rs)"

definition composite_strategy :: "'s composite_config \<Rightarrow> (exn, 's signal_strategy) result" where
  "composite_strategy c =
     (if co_sub_strategies c = [] then Inl value_error
      else if co_quorum c < 1 \<or> int (length (co_sub_strategies c)) < co_quorum c then Inl value_error
      else if \<not> (f_le (Num 0) (co_min_confidence c) \<and> f_le (co_min_confidence c) (Num 1)) then Inl value_error
      else if list_ex (\<lambda>(k, w). f_le w (Num 0)) (co_weights c) then Inl value_error
      else
        let weights = (if co_weights c \<noteq> [] then co_weights c else dict_of (map (\<lambda>y. (sy_strategy_id y, Num 1)) (co_sub_strategies c)));
            c' = c\<lparr>co_weights := weights\<rparr>
        in Inr
          \<lparr>sy_strategy_id = ''composite-signal'', sy_supported_symbols = co_supported_symbols c,
           sy_required_indicators = deduplicated [] (concat (map sy_required_indicators (co_sub_strategies c))),
           sy_evaluate = composite_evaluate c'\<rparr>)"

section \<open>Compiled strategies\<close>

text \<open>A compiled strategy keeps its state in a slot of its own. Its signals have a fixed strength and confidence; the
  identifier, a hash of the parts of a text, is an argument.\<close>

type_synonym slots = "nat \<Rightarrow> strategy_state"

definition compiled_signal ::
  "(string \<times> string \<times> datetime \<times> signal_type \<times> signal_direction \<Rightarrow> string) \<Rightarrow> signal \<Rightarrow> (exn, trade_signal) result" where
  "compiled_signal digest g =
     new_trade_signal
       \<lparr>tg_signal_id = ''sig-'' @ take 32 (digest (sg_id g)), tg_strategy_id = sg_strategy_id g, tg_deployment_id = sg_deployment_id g,
        tg_symbol = sg_symbol g, tg_direction = (case sg_direction g of signal_direction.LONG \<Rightarrow> LONG | signal_direction.SHORT \<Rightarrow> SHORT),
        tg_signal_type = (case sg_signal_type g of signal_type.ENTRY \<Rightarrow> ENTRY | signal_type.EXIT \<Rightarrow> EXIT), tg_strength = MODERATE,
        tg_suggested_entry = None, tg_suggested_stop = None, tg_suggested_target = None, tg_confidence = Num 1,
        tg_indicators_used = sg_indicators_used g, tg_bar_timestamp = sg_bar_timestamp g, tg_generated_at = sg_generated_at g,
        tg_metadata = map (\<lambda>(k, v). (k, MText v)) (sg_metadata g), tg_correlation_id = sg_correlation_id g\<rparr>"

definition compiled_evaluate ::
  "(string \<Rightarrow> py_float list \<Rightarrow> (exn, py_float) result) \<Rightarrow> (string \<times> string \<times> datetime \<times> signal_type \<times> signal_direction \<Rightarrow> string) \<Rightarrow> ir_strategy \<Rightarrow> nat \<Rightarrow>
     stamps \<Rightarrow> string \<Rightarrow> candle list \<Rightarrow> indicators \<Rightarrow> position_snapshot option \<Rightarrow> string \<Rightarrow> slots \<Rightarrow> (exn, trade_signal option) result \<times> slots" where
  "compiled_evaluate libm digest st slot stamp symbol candles inds position corr s =
     (case evaluate libm st BarClock None symbol candles
         (map (\<lambda>(k, r). (k, case ix_values r of None \<Rightarrow> NoValues | Some xs \<Rightarrow> Series xs)) inds) position corr (s slot) of
        (r, ss) \<Rightarrow>
          (bind_r r (\<lambda>g. case g of None \<Rightarrow> Inr None | Some g \<Rightarrow> bind_r (compiled_signal digest g) (\<lambda>t. Inr (Some t))), s(slot := ss)))"

definition compiled_strategy ::
  "(string \<Rightarrow> py_float list \<Rightarrow> (exn, py_float) result) \<Rightarrow> (string \<times> string \<times> datetime \<times> signal_type \<times> signal_direction \<Rightarrow> string) \<Rightarrow> ir_strategy \<Rightarrow> nat \<Rightarrow>
     slots signal_strategy" where
  "compiled_strategy libm digest st slot =
     \<lparr>sy_strategy_id = ir_strategy_name (st_ir st), sy_supported_symbols = ir_universe_symbols (st_ir st),
      sy_required_indicators = map (\<lambda>ident. \<lparr>iq_indicator_name = ident, iq_params = []\<rparr>) (st_indicator_ids st),
      sy_evaluate = compiled_evaluate libm digest st slot\<rparr>"

section \<open>The strategy registry\<close>

type_synonym 's strategies = "(string, 's signal_strategy) dict"

definition sr_register :: "'s signal_strategy \<Rightarrow> bool \<Rightarrow> 's strategies \<Rightarrow> (exn, 's strategies) result" where
  "sr_register y force reg =
     (if dict_has reg (sy_strategy_id y) \<and> \<not> force then Inl (PyError ''StrategyAlreadyRegisteredError'')
      else Inr (dict_set (sy_strategy_id y) y reg))"

definition sr_get :: "'s strategies \<Rightarrow> string \<Rightarrow> (exn, 's signal_strategy) result" where
  "sr_get reg sid = (case dict_get reg sid of None \<Rightarrow> Inl (PyError ''StrategyNotFoundError'') | Some y \<Rightarrow> Inr y)"

definition sr_unregister :: "string \<Rightarrow> 's strategies \<Rightarrow> (exn, 's strategies) result" where
  "sr_unregister sid reg = (if \<not> dict_has reg sid then Inl (PyError ''StrategyNotFoundError'') else Inr (dict_del sid reg))"

definition sr_list_available :: "'s strategies \<Rightarrow> string list" where
  "sr_list_available reg = map fst reg"

definition sr_count :: "'s strategies \<Rightarrow> nat" where
  "sr_count reg = length reg"

section \<open>No signal suggests a price\<close>

text \<open>The strategies that the repository has: the built-in ones, compositions of them, and compiled ones.\<close>

inductive repo_strategy :: "slots signal_strategy \<Rightarrow> bool" where
  ma: "ma_crossover c = Inr y \<Longrightarrow> repo_strategy y"
| rsi: "repo_strategy (rsi_mean_reversion c)"
| macd: "macd_momentum c = Inr y \<Longrightarrow> repo_strategy y"
| bollinger: "bollinger_breakout c = Inr y \<Longrightarrow> repo_strategy y"
| stochastic: "stochastic_momentum c = Inr y \<Longrightarrow> repo_strategy y"
| composite: "list_all repo_strategy (co_sub_strategies c) \<Longrightarrow> composite_strategy c = Inr y \<Longrightarrow> repo_strategy y"
| compiled: "repo_strategy (compiled_strategy libm digest st slot)"

definition priceless :: "(exn, trade_signal option) result \<Rightarrow> bool" where
  "priceless r \<longleftrightarrow> (case r of Inr (Some g) \<Rightarrow> tg_suggested_entry g = None \<and> tg_suggested_stop g = None | _ \<Rightarrow> True)"

lemma priceless_simps [simp]: "priceless (Inl e)" "priceless (Inr None)"
  by (simp_all add: priceless_def)

lemma priceless_bind [simp]: "priceless (bind_r r f) \<longleftrightarrow> (\<forall>v. r = Inr v \<longrightarrow> priceless (f v))"
  by (cases r) simp_all

lemma priceless_make_signal [simp]: "priceless (make_signal stamp sid did symbol dir ty strg conf used candles corr md)"
  by (auto simp: make_signal_def new_trade_signal_def priceless_def)

lemma ma_priceless: "priceless (ma_evaluate c stamp symbol candles inds position corr)"
  by (auto simp: ma_evaluate_def ma_signal_def Let_def split: option.splits)

lemma rsi_priceless: "priceless (rsi_evaluate c stamp symbol candles inds position corr)"
  by (auto simp: rsi_evaluate_def Let_def split: option.splits)

lemma macd_priceless: "priceless (macd_evaluate c stamp symbol candles inds position corr)"
  by (auto simp: macd_evaluate_def Let_def split: option.splits prod.splits)

lemma bollinger_priceless: "priceless (bollinger_evaluate c stamp symbol candles inds position corr)"
  by (auto simp: bollinger_evaluate_def breakout_signal_def Let_def split: option.splits)

lemma stochastic_priceless: "priceless (stochastic_evaluate c stamp symbol candles inds position corr)"
  by (auto simp: stochastic_evaluate_def stochastic_signal_def Let_def split: option.splits)

lemma composite_priceless: "priceless (fst (composite_evaluate c stamp symbol candles inds position corr s))"
  by (auto simp: composite_evaluate_def composite_signal_def Let_def split: sum.splits prod.splits)

lemma compiled_priceless: "priceless (fst (compiled_evaluate libm digest st slot stamp symbol candles inds position corr s))"
  by (auto simp: compiled_evaluate_def compiled_signal_def new_trade_signal_def priceless_def bind_r_def
      split: option.splits sum.splits prod.splits if_splits)

lemma repo_strategy_priceless: "repo_strategy y \<Longrightarrow> priceless (fst (sy_evaluate y stamp symbol candles inds position corr s))"
proof (induction rule: repo_strategy.induct)
  case (ma c y)
  then show ?case by (auto simp: ma_crossover_def ma_priceless split: if_splits)
next
  case (rsi c)
  then show ?case by (simp add: rsi_mean_reversion_def rsi_priceless)
next
  case (macd c y)
  then show ?case by (auto simp: macd_momentum_def macd_priceless split: if_splits)
next
  case (bollinger c y)
  then show ?case by (auto simp: bollinger_breakout_def bollinger_priceless split: if_splits)
next
  case (stochastic c y)
  then show ?case by (auto simp: stochastic_momentum_def stochastic_priceless Let_def split: if_splits)
next
  case (composite c y)
  then show ?case by (auto simp: composite_strategy_def composite_priceless Let_def split: if_splits)
next
  case (compiled libm digest st slot)
  then show ?case by (simp add: compiled_strategy_def compiled_priceless)
qed

section \<open>The keys that strategies look up\<close>


section \<open>The keys that strategies look up\<close>

lemma nat_text_digits: "CHR ''p'' \<notin> set (nat_text n)"
proof (induction n rule: nat_text.induct)
  case (1 n)
  have "CHR ''p'' \<noteq> digit_char d" if "d < 10" for d
  proof
    assume "CHR ''p'' = digit_char d"
    then have "(of_char (digit_char d) :: nat) = of_char CHR ''p''" by simp
    with that show False by (simp add: digit_char_def)
  qed
  with 1 show ?case by (simp add: nat_text.simps [of n])
qed

lemma int_text_not_named: "int_text k \<noteq> CHR ''p'' # xs"
  using nat_text_digits [of "nat k"] by (cases "nat_text (nat k)") (auto simp: int_text_def)

lemma first_key: "make_batch_key float_text r [] = to_upper (iq_indicator_name r)"
  by (simp add: make_batch_key_def)

lemma second_key: "make_batch_key float_text (int_request name [(''period'', n)]) [(to_upper name, v)] = to_upper name @ ''_period='' @ int_text n"
  by (simp add: make_batch_key_def int_request_def free_key_def param_text_def del: upt_Suc)

lemma ma_name_upper: "to_upper (ma_name c) = ma_name c"
proof -
  have "to_upper ''EMA'' = ''EMA''" "to_upper ''SMA'' = ''SMA''" by code_simp+
  then show ?thesis by (simp add: ma_name_def)
qed

lemma ma_batch_keys:
  assumes "compute_batch float_text reg [int_request (ma_name c) [(''period'', m)], int_request (ma_name c) [(''period'', n)]] cs = Inr inds"
  shows "map fst inds = [ma_name c, ma_name c @ ''_period='' @ int_text n]"
proof -
  have name: "iq_indicator_name (int_request nm ps) = nm" for nm ps by (simp add: int_request_def)
  show ?thesis using assms by (auto simp: compute_batch_def bind_r_Inr_iff first_key second_key [of _ "ma_name c", unfolded ma_name_upper] ma_name_upper name split: if_splits)
qed

lemma ma_never_signals:
  assumes "ma_crossover c = Inr y" "compute_batch float_text reg (sy_required_indicators y) cs = Inr inds"
  shows "fst (sy_evaluate y stamp symbol candles inds position corr s) = Inr None"
proof -
  have "map fst inds = [ma_name c, ma_name c @ ''_period='' @ int_text (ma_slow_period c)]"
    using assms by (intro ma_batch_keys) (auto simp: ma_crossover_def split: if_splits)
  then have keys: "set (map fst inds) = {ma_name c, ma_name c @ ''_period='' @ int_text (ma_slow_period c)}" by (simp only: list.set)
  have "ma_name c @ ''_'' @ int_text k \<notin> set (map fst inds)" for k
    unfolding keys using int_text_not_named [of k] by simp
  then have "dict_get inds (ma_name c @ ''_'' @ int_text k) = None" for k by (simp add: map_of_eq_None_iff)
  then show ?thesis using assms(1) by (auto simp: ma_crossover_def ma_evaluate_def Let_def split: if_splits)
qed

lemma rsi_never_signals:
  assumes "compute_batch float_text reg (sy_required_indicators (rsi_mean_reversion c)) cs = Inr inds"
  shows "fst (sy_evaluate (rsi_mean_reversion c) stamp symbol candles inds position corr s) = Inr None"
  using assms
  by (auto simp: rsi_mean_reversion_def rsi_evaluate_def compute_batch_def bind_r_Inr_iff make_batch_key_def int_request_def to_upper_def is_lower_def
      Let_def split: if_splits)

lemma unregistered_names: "''BBANDS'' \<notin> set registered_names" "''STOCH'' \<notin> set registered_names"
  by code_simp+

lemma canonical_plain: "canonical_name ''BBANDS'' = ''BBANDS''" "canonical_name ''STOCH'' = ''STOCH''"
  by code_simp+

lemma unregistered_batch_fails:
  assumes "iq_indicator_name r = name" "name \<in> {''BBANDS'', ''STOCH''}" "cs \<noteq> []"
  shows "compute_batch float_text (default_registry calc) (r # rs) cs = Inl (IndicatorNotFoundError name registered_names)"
  using assms unregistered_names
  by (auto simp: compute_batch_def ir_get_def canonical_plain default_registry_get default_registry_names Let_def)

lemma first_request_named:
  "bollinger_breakout cb = Inr y \<Longrightarrow> \<exists>r rs. sy_required_indicators y = r # rs \<and> iq_indicator_name r = ''BBANDS''"
  "stochastic_momentum cs = Inr y \<Longrightarrow> \<exists>r rs. sy_required_indicators y = r # rs \<and> iq_indicator_name r = ''STOCH''"
  by (auto simp: bollinger_breakout_def stochastic_momentum_def int_request_def Let_def split: if_splits)

lemma breakout_and_stochastic_batch_fails:
  assumes "bollinger_breakout cb = Inr y \<or> stochastic_momentum cs = Inr y" "bars \<noteq> []"
  shows "\<exists>name. compute_batch float_text (default_registry calc) (sy_required_indicators y) bars = Inl (IndicatorNotFoundError name registered_names)"
  using assms(1)
proof
  assume "bollinger_breakout cb = Inr y"
  from first_request_named(1) [OF this] show ?thesis using unregistered_batch_fails assms(2) by fastforce
next
  assume "stochastic_momentum cs = Inr y"
  from first_request_named(2) [OF this] show ?thesis using unregistered_batch_fails assms(2) by fastforce
qed

end
