(* ===== verification/Position_Sizing.thy ===== *)
theory Position_Sizing
  imports Contracts
begin

text \<open>
  Position sizing, \<open>services/api/services/position_sizing_service.py\<close> and \<open>libs/contracts/position_sizing.py\<close>: five methods, each with \<open>Decimal\<close>
  arithmetic and rounding to cents, ticks and whole units. The texts that explain a result are left out.
\<close>

section \<open>Rounding\<close>

text \<open>\<open>ROUND_HALF_UP\<close> rounds halves away from zero; \<open>ROUND_DOWN\<close> is \<open>trunc\<close>.\<close>

definition round_half_up :: "rat \<Rightarrow> int" where
  "round_half_up x = (if 0 \<le> x then \<lfloor>x + 1 / 2\<rfloor> else \<lceil>x - 1 / 2\<rceil>)"

definition quantize_with :: "(rat \<Rightarrow> int) \<Rightarrow> nat \<Rightarrow> decimal \<Rightarrow> (exn, decimal) result" where
  "quantize_with mode places x =
     (let n = mode (x * 10 ^ places)
      in if 10 ^ 28 \<le> \<bar>n\<bar> then Inl (PyError ''decimal.InvalidOperation'') else Inr (of_int n / 10 ^ places))"

section \<open>Requests and results\<close>

datatype sizing_method = Fixed | Atr_Based | Kelly | Risk_Parity | Equal_Weight

record sizing_request =
  sz_symbol :: string
  sz_side :: string
  sz_method :: sizing_method
  sz_risk_per_trade_pct :: decimal
  sz_account_equity :: decimal
  sz_current_price :: decimal
  sz_max_position_size :: "decimal option"
  sz_atr_value :: "decimal option"
  sz_atr_multiplier :: decimal
  sz_win_rate :: "decimal option"
  sz_avg_win_loss_ratio :: "decimal option"
  sz_total_positions :: int
  sz_current_position_count :: int

definition opt_all :: "('a \<Rightarrow> bool) \<Rightarrow> 'a option \<Rightarrow> bool" where
  "opt_all p x = (case x of None \<Rightarrow> True | Some v \<Rightarrow> p v)"

definition sizing_request_valid :: "sizing_request \<Rightarrow> bool" where
  "sizing_request_valid q \<longleftrightarrow>
     1 \<le> length (sz_symbol q) \<and> length (sz_symbol q) \<le> 10 \<and> sz_side q \<in> set [''buy'', ''sell''] \<and>
     0 < sz_risk_per_trade_pct q \<and> sz_risk_per_trade_pct q \<le> 100 \<and> 0 < sz_account_equity q \<and> 0 \<le> sz_current_price q \<and>
     opt_all (\<lambda>v. 0 \<le> v) (sz_atr_value q) \<and> 0 < sz_atr_multiplier q \<and> opt_all (\<lambda>v. 0 \<le> v \<and> v \<le> 1) (sz_win_rate q) \<and>
     opt_all (\<lambda>v. 0 < v) (sz_avg_win_loss_ratio q) \<and> 1 \<le> sz_total_positions q \<and> 0 \<le> sz_current_position_count q"

record sizing_result =
  sr_recommended_quantity :: decimal
  sr_recommended_value :: decimal
  sr_stop_loss_price :: "decimal option"
  sr_risk_amount :: decimal
  sr_method_used :: sizing_method
  sr_was_capped :: bool

definition new_sizing_result :: "decimal \<Rightarrow> decimal \<Rightarrow> decimal option \<Rightarrow> decimal \<Rightarrow> sizing_method \<Rightarrow> bool \<Rightarrow> (exn, sizing_result) result" where
  "new_sizing_result quantity v stop risk method capped =
     (if 0 \<le> quantity \<and> 0 \<le> v \<and> 0 \<le> risk then
        Inr \<lparr>sr_recommended_quantity = quantity, sr_recommended_value = v, sr_stop_loss_price = stop, sr_risk_amount = risk,
             sr_method_used = method, sr_was_capped = capped\<rparr>
      else Inl (PyError ''pydantic.ValidationError''))"

section \<open>The methods\<close>

definition cents :: "decimal \<Rightarrow> (exn, decimal) result" where
  "cents = quantize_with round_half_up 2"

definition capped_at :: "decimal option \<Rightarrow> decimal \<Rightarrow> decimal \<times> bool" where
  "capped_at cap quantity = (case cap of None \<Rightarrow> (quantity, False) | Some m \<Rightarrow> if m < quantity then (m, True) else (quantity, False))"

definition price_to_quantity :: "decimal \<Rightarrow> decimal \<Rightarrow> decimal option \<Rightarrow> (exn, decimal \<times> decimal \<times> bool) result" where
  "price_to_quantity amount price cap =
     (if price \<le> 0 then Inr (0, 0, False)
      else
        bind_r (ddiv amount price) (\<lambda>x.
        bind_r (quantize_with trunc 0 x) (\<lambda>raw.
          let (quantity, capped) = capped_at cap raw
          in bind_r (cents (dmul quantity price)) (\<lambda>v. Inr (quantity, v, capped)))))"

definition priced_result :: "sizing_request \<Rightarrow> sizing_method \<Rightarrow> decimal \<Rightarrow> (exn, sizing_result) result" where
  "priced_result q method amount =
     bind_r (price_to_quantity amount (sz_current_price q) (sz_max_position_size q)) (\<lambda>(quantity, v, capped).
       new_sizing_result quantity v None amount method capped)"

definition risk_budget :: "sizing_request \<Rightarrow> (exn, decimal) result" where
  "risk_budget q = cents (dec (dmul (sz_account_equity q) (sz_risk_per_trade_pct q) / 100))"

definition compute_fixed :: "sizing_request \<Rightarrow> (exn, sizing_result) result" where
  "compute_fixed q =
     (case sz_max_position_size q of
        Some m \<Rightarrow>
          if 0 < m then
            bind_r (cents (if 0 < sz_current_price q then dmul m (sz_current_price q) else 0)) (\<lambda>v.
              new_sizing_result m v None 0 Fixed False)
          else bind_r (risk_budget q) (priced_result q Fixed)
      | None \<Rightarrow> bind_r (risk_budget q) (priced_result q Fixed))"

definition atr_result :: "sizing_request \<Rightarrow> decimal \<Rightarrow> decimal \<Rightarrow> decimal \<Rightarrow> (exn, sizing_result) result" where
  "atr_result q risk stop_distance raw =
     (let (quantity, capped) = capped_at (sz_max_position_size q) raw; price = sz_current_price q
      in if 0 < price then
           bind_r (cents (dmul quantity price)) (\<lambda>v.
           bind_r (cents (if sz_side q = ''buy'' then dsub price stop_distance else dadd price stop_distance)) (\<lambda>stop.
             new_sizing_result quantity v (Some stop) risk Atr_Based capped))
         else new_sizing_result quantity 0 None risk Atr_Based capped)"

definition compute_atr_based :: "sizing_request \<Rightarrow> (exn, sizing_result) result" where
  "compute_atr_based q =
     (case sz_atr_value q of
        None \<Rightarrow> Inl ValidationError
      | Some atr \<Rightarrow>
          if atr \<le> 0 then Inl ValidationError
          else
            bind_r (risk_budget q) (\<lambda>risk.
            bind_r (quantize_with round_half_up 4 (dmul atr (sz_atr_multiplier q))) (\<lambda>stop_distance.
            if stop_distance \<le> 0 then Inl ValidationError
            else bind_r (ddiv risk stop_distance) (\<lambda>x. bind_r (quantize_with trunc 0 x) (atr_result q risk stop_distance)))))"

definition max_kelly_fraction :: decimal where "max_kelly_fraction = 1 / 2"

definition half_kelly_factor :: decimal where "half_kelly_factor = 1 / 2"

definition compute_kelly :: "sizing_request \<Rightarrow> (exn, sizing_result) result" where
  "compute_kelly q =
     (case (sz_win_rate q, sz_avg_win_loss_ratio q) of
        (Some w, Some r) \<Rightarrow>
          bind_r (ddiv (dsub 1 w) r) (\<lambda>x.
            let fraction = max (min (dsub w x) max_kelly_fraction) 0
            in bind_r (quantize_with round_half_up 6 (dmul fraction half_kelly_factor)) (\<lambda>half_kelly.
               bind_r (cents (dmul (sz_account_equity q) half_kelly)) (priced_result q Kelly)))
      | _ \<Rightarrow> Inl ValidationError)"

definition compute_equal_weight :: "sizing_request \<Rightarrow> (exn, sizing_result) result" where
  "compute_equal_weight q =
     bind_r (ddiv (sz_account_equity q) (of_int (max (sz_total_positions q) 1))) (\<lambda>x. bind_r (cents x) (priced_result q Equal_Weight))"

definition compute_risk_parity :: "sizing_request \<Rightarrow> (exn, sizing_result) result" where
  "compute_risk_parity q =
     (if (case sz_atr_value q of None \<Rightarrow> True | Some atr \<Rightarrow> atr \<le> 0) then
        bind_r (compute_equal_weight q) (\<lambda>r. Inr (r\<lparr>sr_method_used := Risk_Parity\<rparr>))
      else
        bind_r (risk_budget q) (\<lambda>budget.
        bind_r (ddiv budget (of_int (max (sz_total_positions q) 1))) (\<lambda>x. bind_r (cents x) (priced_result q Risk_Parity))))"

definition compute_size :: "sizing_request \<Rightarrow> (exn, sizing_result) result" where
  "compute_size q =
     (case sz_method q of
        Fixed \<Rightarrow> compute_fixed q
      | Atr_Based \<Rightarrow> compute_atr_based q
      | Kelly \<Rightarrow> compute_kelly q
      | Risk_Parity \<Rightarrow> compute_risk_parity q
      | Equal_Weight \<Rightarrow> compute_equal_weight q)"

section \<open>Bounds\<close>

lemma dec_numeral: "(numeral k :: int) \<le> 10 ^ 28 \<Longrightarrow> dec (numeral k) = numeral k"
  using dec_of_int [of "numeral k"] by simp

lemma bind_r_Inr: "bind_r r f = Inr w \<Longrightarrow> (\<And>v. r = Inr v \<Longrightarrow> f v = Inr w \<Longrightarrow> P) \<Longrightarrow> P"
  by (auto simp: bind_r_Inr_iff)

lemma quantize_numeral:
  assumes "numeral k * 10 ^ places < (10 ^ 28 :: int)"
  shows "quantize_with round_half_up places (numeral k) = Inr (numeral k)" "quantize_with trunc places (numeral k) = Inr (numeral k)"
proof -
  have e: "numeral k * 10 ^ places = rat_of_int (numeral k * 10 ^ places)" by simp
  have "\<lfloor>rat_of_int m + 1 / 2\<rfloor> = m" for m by (rule floor_unique) simp_all
  with assms show "quantize_with round_half_up places (numeral k) = Inr (numeral k)"
    "quantize_with trunc places (numeral k) = Inr (numeral k)"
    unfolding quantize_with_def e by (simp_all add: round_half_up_def trunc_def Let_def del: of_int_mult of_int_power of_int_numeral) simp_all
qed

text \<open>A quotient that is cut to a whole number of units is less than one unit above the exact one, although the division rounds.\<close>

lemma cut_quotient:
  assumes "quantize_with trunc 0 (dec (a / p)) = Inr n" "0 \<le> a" "0 < p"
  shows "(n - 1) * p < a"
proof -
  let ?x = "dec (a / p)"
  have x: "0 \<le> ?x" using assms(2,3) by (simp add: decimal.rnd_nonneg_iff)
  have n: "n = of_int \<lfloor>?x\<rfloor>" "\<bar>\<lfloor>?x\<rfloor>\<bar> < 10 ^ 28" using assms(1) x by (auto simp: quantize_with_def Let_def trunc_def split: if_splits)
  have "0 \<le> \<lfloor>?x\<rfloor>" using x by simp
  with n(2) have "\<bar>\<lfloor>?x\<rfloor> - 1\<bar> \<le> 10 ^ 28" by linarith
  then have "dec_repr (of_int (\<lfloor>?x\<rfloor> - 1))" by (rule dec_repr_of_int)
  moreover have "of_int (\<lfloor>?x\<rfloor> - 1) < ?x" by linarith
  ultimately have "of_int (\<lfloor>?x\<rfloor> - 1) < a / p" by (rule decimal.rnd_greater_repr)
  with assms(3) n(1) show ?thesis by (simp add: field_simps)
qed

lemma capped_at_le: "capped_at cap q = (q', c) \<Longrightarrow> q' \<le> q \<and> opt_all (\<lambda>m. q' \<le> m) cap"
  by (auto simp: capped_at_def opt_all_def split: option.splits if_splits)

lemma price_to_quantity_bounds:
  assumes "price_to_quantity amount price cap = Inr (q, v, c)" "0 \<le> amount" "0 < price"
  shows "(q - 1) * price < amount \<and> opt_all (\<lambda>m. q \<le> m) cap"
proof -
  from assms(1,3) obtain raw where "quantize_with trunc 0 (dec (amount / price)) = Inr raw"
    "(let (quantity, capped) = capped_at cap raw in bind_r (cents (dmul quantity price)) (\<lambda>v. Inr (quantity, v, capped))) = Inr (q, v, c)"
    by (auto simp: price_to_quantity_def ddiv_def bind_r_Inr_iff)
  then have raw: "quantize_with trunc 0 (dec (amount / price)) = Inr raw" "capped_at cap raw = (q, c)"
    by (cases "capped_at cap raw"; simp add: bind_r_Inr_iff)+
  note cap = capped_at_le [OF raw(2)]
  have "(q - 1) * price \<le> (raw - 1) * price" using cap assms(3) by (simp add: mult_right_mono)
  also have "\<dots> < amount" by (rule cut_quotient [OF raw(1) assms(2,3)])
  finally show ?thesis using cap by simp
qed


lemma new_sizing_result_Inr:
  "new_sizing_result quantity v stop risk method capped = Inr r \<longleftrightarrow>
     0 \<le> quantity \<and> 0 \<le> v \<and> 0 \<le> risk \<and> r = \<lparr>sr_recommended_quantity = quantity, sr_recommended_value = v, sr_stop_loss_price = stop,
       sr_risk_amount = risk, sr_method_used = method, sr_was_capped = capped\<rparr>"
  by (auto simp: new_sizing_result_def)

text \<open>The money that one unit takes of the budget: the distance of the stop for the method based on it, the price otherwise.\<close>

definition unit_cost :: "sizing_request \<Rightarrow> decimal" where
  "unit_cost q =
     (case (sz_method q, sz_atr_value q) of
        (Atr_Based, Some atr) \<Rightarrow>
          (case quantize_with round_half_up 4 (dmul atr (sz_atr_multiplier q)) of Inr d \<Rightarrow> d | Inl _ \<Rightarrow> sz_current_price q)
      | _ \<Rightarrow> sz_current_price q)"

definition within_bounds :: "sizing_request \<Rightarrow> sizing_result \<Rightarrow> bool" where
  "within_bounds q r \<longleftrightarrow> 0 \<le> sr_recommended_quantity r \<and> opt_all (\<lambda>m. sr_recommended_quantity r \<le> m) (sz_max_position_size q) \<and>
     (sr_risk_amount r = 0 \<or> (sr_recommended_quantity r - 1) * unit_cost q < sr_risk_amount r)"

lemma priced_result_bounds:
  assumes "priced_result q method amount = Inr r" "0 < sz_current_price q" "sz_method q \<noteq> Atr_Based"
  shows "within_bounds q r"
proof -
  from assms(1) obtain n v c where p: "price_to_quantity amount (sz_current_price q) (sz_max_position_size q) = Inr (n, v, c)"
    "new_sizing_result n v None amount method c = Inr r" by (auto simp: priced_result_def bind_r_Inr_iff)
  then have "0 \<le> amount" by (simp add: new_sizing_result_Inr)
  from price_to_quantity_bounds [OF p(1) this assms(2)] p(2) assms(3) show ?thesis
    by (auto simp: within_bounds_def new_sizing_result_Inr unit_cost_def split: sizing_method.splits option.splits)
qed

lemma atr_bounds:
  assumes "compute_atr_based q = Inr r" "sz_method q = Atr_Based"
  shows "within_bounds q r"
proof -
  from assms(1) obtain atr risk d raw where p: "sz_atr_value q = Some atr"
    "quantize_with round_half_up 4 (dmul atr (sz_atr_multiplier q)) = Inr d" "0 < d" "quantize_with trunc 0 (dec (risk / d)) = Inr raw"
    "atr_result q risk d raw = Inr r"
    by (auto simp: compute_atr_based_def ddiv_def bind_r_Inr_iff not_le split: option.splits if_splits)
  from p(5) obtain n c v stop where p5: "capped_at (sz_max_position_size q) raw = (n, c)"
    and p6: "new_sizing_result n v stop risk Atr_Based c = Inr r"
    by (cases "capped_at (sz_max_position_size q) raw") (auto simp: atr_result_def bind_r_Inr_iff Let_def split: if_splits)
  then have "0 \<le> risk" by (simp add: new_sizing_result_Inr)
  note cut = cut_quotient [OF p(4) this p(3)] and cap = capped_at_le [OF p5]
  have "(n - 1) * d \<le> (raw - 1) * d" using cap p(3) by (simp add: mult_right_mono)
  then have "(n - 1) * d < risk" using cut by simp
  with cap p p6 assms(2) show ?thesis by (auto simp: within_bounds_def new_sizing_result_Inr unit_cost_def)
qed

lemma compute_size_within:
  assumes "compute_size q = Inr r" "0 < sz_current_price q"
  shows "within_bounds q r"
proof (cases "sz_method q")
  case Fixed
  with assms show ?thesis
    by (auto simp: compute_size_def compute_fixed_def bind_r_Inr_iff new_sizing_result_Inr within_bounds_def opt_all_def
        split: option.splits if_splits dest!: priced_result_bounds)
next
  case Atr_Based
  with assms show ?thesis by (simp add: compute_size_def atr_bounds)
next
  case Kelly
  with assms show ?thesis
    by (auto simp: compute_size_def compute_kelly_def bind_r_Inr_iff Let_def split: option.splits prod.splits dest!: priced_result_bounds)
next
  case Risk_Parity
  with assms show ?thesis
    by (auto simp: compute_size_def compute_risk_parity_def compute_equal_weight_def bind_r_Inr_iff within_bounds_def unit_cost_def
        split: option.splits if_splits dest!: priced_result_bounds)
next
  case Equal_Weight
  with assms show ?thesis by (auto simp: compute_size_def compute_equal_weight_def bind_r_Inr_iff dest!: priced_result_bounds)
qed


definition sized_request :: sizing_request where
  "sized_request = \<lparr>sz_symbol = ''AAPL'', sz_side = ''buy'', sz_method = Atr_Based, sz_risk_per_trade_pct = 2, sz_account_equity = 100000,
     sz_current_price = 175, sz_max_position_size = Some 500, sz_atr_value = Some (5 / 2), sz_atr_multiplier = 2, sz_win_rate = None,
     sz_avg_win_loss_ratio = None, sz_total_positions = 1, sz_current_position_count = 0\<rparr>"

lemma sized_request_size:
  "compute_size sized_request = Inr \<lparr>sr_recommended_quantity = 400, sr_recommended_value = 70000, sr_stop_loss_price = Some 170,
     sr_risk_amount = 2000, sr_method_used = Atr_Based, sr_was_capped = False\<rparr>"
  by (simp add: compute_size_def compute_atr_based_def atr_result_def risk_budget_def sized_request_def ddiv_def bind_r_def capped_at_def
      new_sizing_result_def cents_def dmul_def dsub_def dec_numeral quantize_numeral)


end
