(* ===== verification/Signal_Evaluation.thy ===== *)
theory Signal_Evaluation
  imports Signal_Strategies Position_Sizing Risk_Gate Kill_Switch
begin

text \<open>
  The evaluation of signals, \<open>services/api/services/signal_evaluation_service.py\<close>: six gates in order, the first that fails
  rejects the signal, and every evaluation is stored. With it the signal repository of
  \<open>libs/contracts/mocks/mock_signal_repository.py\<close>, the only one in the repository. The data quality service and the value at
  risk are arguments; the kill switch, the risk gate and the sizing are the modelled ones. The texts of the gates are
  constructors with the values they mention.
\<close>

section \<open>Evaluations\<close>

record quality_score =
  qs_composite_score :: py_float
  qs_grade :: string

datatype gate_details =
    QualityUnavailable | NoQualityScore string py_float | LowQuality py_float py_float string | QualityOk py_float string
  | HaltUnknown | Halted | NotHalted
  | DuplicateUnknown | DuplicateOf string int | NotDuplicate int
  | RiskUnavailable | RiskFailed "risk_reason option" string risk_severity | RiskPassed string
  | SizingUnavailable | ZeroSize decimal | Sized decimal decimal sizing_method
  | VarUnavailable | VarExceeds decimal decimal | VarOk decimal decimal

record gate_result =
  gt_gate_name :: string
  gt_passed :: bool
  gt_details :: gate_details

record evaluation =
  ev_signal :: trade_signal
  ev_approved :: bool
  ev_risk_gate_results :: "gate_result list"
  ev_position_size :: "decimal option"
  ev_adjusted_stop :: "decimal option"
  ev_rejection_reason :: "gate_details option"
  ev_evaluated_at :: datetime

section \<open>The signal repository\<close>

record 'g signal_repo =
  gp_save_signal :: "trade_signal \<Rightarrow> 'g \<Rightarrow> (exn, unit) result \<times> 'g"
  gp_save_evaluation :: "evaluation \<Rightarrow> 'g \<Rightarrow> (exn, unit) result \<times> 'g"
  gp_find_signals :: "'g \<Rightarrow> string \<Rightarrow> string option \<Rightarrow> datetime option \<Rightarrow> nat \<Rightarrow> (exn, trade_signal list) result"

record mock_signals =
  mg_signals :: "(string, trade_signal) dict"
  mg_evaluations :: "evaluation list"

definition mg_save_signal :: "trade_signal \<Rightarrow> mock_signals \<Rightarrow> (exn, unit) result \<times> mock_signals" where
  "mg_save_signal g m = (Inr (), m\<lparr>mg_signals := dict_set (tg_signal_id g) g (mg_signals m)\<rparr>)"

definition mg_save_evaluation :: "evaluation \<Rightarrow> mock_signals \<Rightarrow> (exn, unit) result \<times> mock_signals" where
  "mg_save_evaluation ev m = (Inr (), m\<lparr>mg_evaluations := mg_evaluations m @ [ev]\<rparr>)"

definition mg_matches :: "string \<Rightarrow> string option \<Rightarrow> datetime option \<Rightarrow> trade_signal \<Rightarrow> bool" where
  "mg_matches sid symbol since g \<longleftrightarrow>
     tg_strategy_id g = sid \<and> opt_all (\<lambda>s. tg_symbol g = to_upper s) symbol \<and> opt_all (\<lambda>t. t < tg_generated_at g) since"

definition mg_find_signals :: "mock_signals \<Rightarrow> string \<Rightarrow> string option \<Rightarrow> datetime option \<Rightarrow> nat \<Rightarrow> (exn, trade_signal list) result" where
  "mg_find_signals m sid symbol since limit =
     Inr (take limit (sort_key (\<lambda>g. - tg_generated_at g) (filter (mg_matches sid symbol since) (dict_values (mg_signals m)))))"

definition mg_find_evaluations :: "mock_signals \<Rightarrow> string \<Rightarrow> evaluation list" where
  "mg_find_evaluations m sid = filter (\<lambda>ev. tg_signal_id (ev_signal ev) = sid) (mg_evaluations m)"

definition mock_signal_repo :: "mock_signals signal_repo" where
  "mock_signal_repo = \<lparr>gp_save_signal = mg_save_signal, gp_save_evaluation = mg_save_evaluation, gp_find_signals = mg_find_signals\<rparr>"

record signal_stats =
  gx_total_signals :: nat
  gx_approved_signals :: nat
  gx_rejected_signals :: nat
  gx_by_direction :: "direction \<Rightarrow> nat"
  gx_by_strength :: "strength \<Rightarrow> nat"
  gx_avg_confidence :: py_float

definition mg_get_signal_stats :: "mock_signals \<Rightarrow> string \<Rightarrow> datetime \<Rightarrow> (exn, signal_stats) result" where
  "mg_get_signal_stats m sid since =
     (let matching = filter (mg_matches sid None (Some since)) (dict_values (mg_signals m));
          evals = filter (\<lambda>ev. mg_matches sid None (Some since) (ev_signal ev)) (mg_evaluations m);
          count = (\<lambda>p. length (filter p matching))
      in bind_r (if matching = [] then Inr (Num 0)
                 else f_div (foldl (\<lambda>x g. f_add x (tg_confidence g)) (Num 0) matching) (Num (of_nat (length matching)))) (\<lambda>avg.
         Inr \<lparr>gx_total_signals = length matching, gx_approved_signals = length (filter ev_approved evals),
              gx_rejected_signals = length (filter (\<lambda>ev. \<not> ev_approved ev) evals),
              gx_by_direction = (\<lambda>d. count (\<lambda>g. tg_direction g = d)), gx_by_strength = (\<lambda>x. count (\<lambda>g. tg_strength g = x)),
              gx_avg_confidence = avg\<rparr>))"

section \<open>The gates\<close>

record evaluator =
  el_quality :: "string \<Rightarrow> (exn, quality_score option) result"
  el_halted :: "string \<Rightarrow> string \<Rightarrow> string \<Rightarrow> (exn, bool) result"
  el_var_95 :: "string \<Rightarrow> (exn, decimal) result"
  el_var_threshold :: decimal
  el_quality_threshold :: py_float
  el_cooldown_seconds :: int

definition gate :: "string \<Rightarrow> bool \<Rightarrow> gate_details \<Rightarrow> gate_result" where
  "gate name p d = \<lparr>gt_gate_name = name, gt_passed = p, gt_details = d\<rparr>"

definition check_data_quality :: "evaluator \<Rightarrow> trade_signal \<Rightarrow> gate_result" where
  "check_data_quality v g =
     (case el_quality v (tg_symbol g) of
        Inl _ \<Rightarrow> gate ''data_quality'' False QualityUnavailable
      | Inr None \<Rightarrow> gate ''data_quality'' False (NoQualityScore (tg_symbol g) (el_quality_threshold v))
      | Inr (Some q) \<Rightarrow>
          if f_less (qs_composite_score q) (el_quality_threshold v)
          then gate ''data_quality'' False (LowQuality (qs_composite_score q) (el_quality_threshold v) (qs_grade q))
          else gate ''data_quality'' True (QualityOk (qs_composite_score q) (qs_grade q)))"

definition check_signal_halt :: "evaluator \<Rightarrow> trade_signal \<Rightarrow> string \<Rightarrow> gate_result" where
  "check_signal_halt v g did =
     (case el_halted v did (tg_strategy_id g) (tg_symbol g) of
        Inl _ \<Rightarrow> gate ''kill_switch'' False HaltUnknown
      | Inr halted \<Rightarrow> if halted then gate ''kill_switch'' False Halted else gate ''kill_switch'' True NotHalted)"

definition same_bar_signal :: "trade_signal \<Rightarrow> trade_signal \<Rightarrow> bool" where
  "same_bar_signal g x \<longleftrightarrow> tg_direction x = tg_direction g \<and> tg_bar_timestamp x = tg_bar_timestamp g \<and> tg_signal_id x \<noteq> tg_signal_id g"

definition check_duplicate :: "evaluator \<Rightarrow> 'g signal_repo \<Rightarrow> trade_signal \<Rightarrow> 'g \<Rightarrow> gate_result" where
  "check_duplicate v repo g m =
     (case gp_find_signals repo m (tg_strategy_id g) (Some (tg_symbol g)) (Some (tg_generated_at g - el_cooldown_seconds v * 1000000)) 10 of
        Inl _ \<Rightarrow> gate ''duplicate_filter'' True DuplicateUnknown
      | Inr recent \<Rightarrow>
          (case find (same_bar_signal g) recent of
             Some x \<Rightarrow> gate ''duplicate_filter'' False (DuplicateOf (tg_signal_id x) (el_cooldown_seconds v))
           | None \<Rightarrow> gate ''duplicate_filter'' True (NotDuplicate (el_cooldown_seconds v))))"

definition signal_side :: "trade_signal \<Rightarrow> order_side" where
  "signal_side g = (if tg_direction g = LONG then BUY else SELL)"

definition proxy_order :: "trade_signal \<Rightarrow> string \<Rightarrow> string \<Rightarrow> order_request" where
  "proxy_order g did corr =
     \<lparr>rq_client_order_id = ''eval-'' @ tg_signal_id g, rq_symbol = tg_symbol g, rq_side = signal_side g, rq_order_type = MARKET, rq_quantity = 1,
      rq_limit_price = None, rq_stop_price = None, rq_time_in_force = DAY, rq_deployment_id = did, rq_strategy_id = tg_strategy_id g,
      rq_correlation_id = corr, rq_execution_mode = PAPER, rq_metadata = []\<rparr>"

definition placeholder_account :: "datetime \<Rightarrow> account_snapshot" where
  "placeholder_account now =
     \<lparr>ac_account_id = ''eval-placeholder'', ac_equity = 100000, ac_cash = 100000, ac_buying_power = 200000, ac_portfolio_value = 0,
      ac_daily_pnl = 0, ac_pending_orders_count = 0, ac_positions_count = 0, ac_updated_at = now\<rparr>"

definition check_risk_gate ::
  "'s deployment_repo \<Rightarrow> 'e risk_event_repo \<Rightarrow> event_ids \<Rightarrow> datetime \<Rightarrow> trade_signal \<Rightarrow> string \<Rightarrow> string \<Rightarrow> 's \<Rightarrow> 'e \<Rightarrow> gate_result \<times> 'e" where
  "check_risk_gate drepo erepo ids now g did corr s e =
     (let order = proxy_order g did corr
      in if \<not> order_request_valid order then (gate ''risk_gate'' False RiskUnavailable, e)
         else
           case check_order drepo erepo ids did order [] (placeholder_account now) corr s e of
             (Inl _, e') \<Rightarrow> (gate ''risk_gate'' False RiskUnavailable, e')
           | (Inr r, e') \<Rightarrow>
               (if \<not> rc_passed r then gate ''risk_gate'' False (RiskFailed (rc_reason r) (rc_check_name r) (rc_severity r))
                else gate ''risk_gate'' True (RiskPassed (rc_check_name r)), e'))"

definition nonzero_price :: "decimal option \<Rightarrow> decimal option" where
  "nonzero_price x = (case x of None \<Rightarrow> None | Some v \<Rightarrow> if v = 0 then None else Some v)"

definition signal_sizing_request :: "trade_signal \<Rightarrow> sizing_request" where
  "signal_sizing_request g =
     \<lparr>sz_symbol = tg_symbol g, sz_side = (if tg_direction g = LONG then ''buy'' else ''sell''),
      sz_method = (case nonzero_price (tg_suggested_stop g) of Some _ \<Rightarrow> Atr_Based | None \<Rightarrow> Fixed),
      sz_risk_per_trade_pct = 2, sz_account_equity = 100000,
      sz_current_price = (case nonzero_price (tg_suggested_entry g) of Some p \<Rightarrow> p | None \<Rightarrow> 0), sz_max_position_size = None,
      sz_atr_value = (case (nonzero_price (tg_suggested_entry g), nonzero_price (tg_suggested_stop g)) of
                        (Some p, Some q) \<Rightarrow> Some (dabs (dsub p q)) | _ \<Rightarrow> None),
      sz_atr_multiplier = 2, sz_win_rate = None, sz_avg_win_loss_ratio = None, sz_total_positions = 1, sz_current_position_count = 0\<rparr>"

definition compute_position_size :: "trade_signal \<Rightarrow> gate_result \<times> decimal option \<times> decimal option" where
  "compute_position_size g =
     (let q = signal_sizing_request g
      in case (if sizing_request_valid q then compute_size q else Inl (PyError ''pydantic.ValidationError'')) of
           Inl _ \<Rightarrow> (gate ''position_sizing'' False SizingUnavailable, None, None)
         | Inr r \<Rightarrow>
             if sr_recommended_quantity r \<le> 0 then (gate ''position_sizing'' False (ZeroSize (sr_recommended_quantity r)), None, None)
             else (gate ''position_sizing'' True (Sized (sr_recommended_quantity r) (sr_recommended_value r) (sr_method_used r)),
                   Some (sr_recommended_quantity r), sr_stop_loss_price r))"

definition check_var_impact :: "evaluator \<Rightarrow> string \<Rightarrow> gate_result" where
  "check_var_impact v did =
     (case el_var_95 v did of
        Inl _ \<Rightarrow> gate ''var_impact'' False VarUnavailable
      | Inr x \<Rightarrow>
          if el_var_threshold v < dabs x then gate ''var_impact'' False (VarExceeds x (el_var_threshold v))
          else gate ''var_impact'' True (VarOk x (el_var_threshold v)))"

section \<open>The pipeline\<close>

text \<open>\<open>finish\<close> stores the evaluation; a failure to store it propagates.\<close>

definition finish_evaluation :: "'g signal_repo \<Rightarrow> evaluation \<Rightarrow> 'g \<Rightarrow> (exn, evaluation) result \<times> 'g" where
  "finish_evaluation repo ev m = (case gp_save_evaluation repo ev m of (r, m') \<Rightarrow> (bind_r r (\<lambda>_. Inr ev), m'))"

definition build_rejected :: "'g signal_repo \<Rightarrow> datetime \<Rightarrow> trade_signal \<Rightarrow> gate_result list \<Rightarrow> gate_details \<Rightarrow> 'g \<Rightarrow> (exn, evaluation) result \<times> 'g" where
  "build_rejected repo now g results reason m =
     finish_evaluation repo
       \<lparr>ev_signal = g, ev_approved = False, ev_risk_gate_results = results, ev_position_size = None, ev_adjusted_stop = None,
        ev_rejection_reason = Some reason, ev_evaluated_at = now\<rparr> m"

definition evaluate_signal ::
  "evaluator \<Rightarrow> 'g signal_repo \<Rightarrow> 's deployment_repo \<Rightarrow> 'e risk_event_repo \<Rightarrow> event_ids \<Rightarrow> datetime \<Rightarrow> trade_signal \<Rightarrow> string \<Rightarrow> string \<Rightarrow> 's \<Rightarrow>
     'g \<times> 'e \<Rightarrow> (exn, evaluation) result \<times> 'g \<times> 'e" where
  "evaluate_signal v repo drepo erepo ids now g did corr s me =
     (let (m, e) = me;
          reject = (\<lambda>results reason e'. case build_rejected repo now g results reason m of (r, m') \<Rightarrow> (r, m', e'));
          dq = check_data_quality v g
      in if \<not> gt_passed dq then reject [dq] (gt_details dq) e
         else
      let ks = check_signal_halt v g did
      in if \<not> gt_passed ks then reject [dq, ks] Halted e
         else
      let dup = check_duplicate v repo g m
      in if \<not> gt_passed dup then reject [dq, ks, dup] (gt_details dup) e
         else
      case check_risk_gate drepo erepo ids now g did corr s e of (risk, e') \<Rightarrow>
         if \<not> gt_passed risk then reject [dq, ks, dup, risk] (gt_details risk) e'
         else
      case compute_position_size g of (sizing, position_size, stop) \<Rightarrow>
         if \<not> gt_passed sizing then reject [dq, ks, dup, risk, sizing] (gt_details sizing) e'
         else
      let var = check_var_impact v did
      in if \<not> gt_passed var then reject [dq, ks, dup, risk, sizing, var] (gt_details var) e'
         else
           case finish_evaluation repo
             \<lparr>ev_signal = g, ev_approved = True, ev_risk_gate_results = [dq, ks, dup, risk, sizing, var], ev_position_size = position_size,
              ev_adjusted_stop = stop, ev_rejection_reason = None, ev_evaluated_at = now\<rparr> m of (r, m') \<Rightarrow> (r, m', e'))"

section \<open>What an approval means\<close>

lemma finish_evaluation_Inr: "finish_evaluation repo ev m = (Inr x, m') \<Longrightarrow> x = ev"
  by (auto simp: finish_evaluation_def bind_r_Inr_iff split: prod.splits)

lemma rejected_not_approved: "build_rejected repo now g results reason m = (Inr x, m') \<Longrightarrow> \<not> ev_approved x"
  unfolding build_rejected_def by (drule finish_evaluation_Inr) simp

lemma approved_gates:
  assumes "evaluate_signal v repo drepo erepo ids now g did corr s (m, e) = (Inr ev, m', e')" "ev_approved ev"
  shows "gt_passed (check_data_quality v g)" "gt_passed (check_signal_halt v g did)" "gt_passed (check_duplicate v repo g m)"
    "gt_passed (fst (check_risk_gate drepo erepo ids now g did corr s e))" "gt_passed (fst (compute_position_size g))"
    "gt_passed (check_var_impact v did)" "ev_signal ev = g" "ev_position_size ev = fst (snd (compute_position_size g))"
    "ev_adjusted_stop ev = snd (snd (compute_position_size g))"
  using assms
  by (auto simp: evaluate_signal_def Let_def split: prod.splits if_splits dest: rejected_not_approved finish_evaluation_Inr)

text \<open>The placeholder equity and the default risk give the same budget for every signal.\<close>

lemma signal_budget: "risk_budget (signal_sizing_request g) = Inr 2000"
  by (simp add: risk_budget_def signal_sizing_request_def cents_def dmul_def dec_numeral quantize_numeral)

lemma sized_signal:
  assumes "compute_position_size g = (gr, n, stop)" "gt_passed gr"
  obtains r where "compute_size (signal_sizing_request g) = Inr r" "sizing_request_valid (signal_sizing_request g)"
    "0 < sr_recommended_quantity r" "n = Some (sr_recommended_quantity r)" "stop = sr_stop_loss_price r"
  using assms by (auto simp: compute_position_size_def Let_def gate_def split: sum.splits if_splits)

lemma compute_size_risk:
  assumes "compute_size q = Inr r" "risk_budget q = Inr b" "sz_method q \<in> {Fixed, Atr_Based}" "sz_max_position_size q = None"
  shows "sr_risk_amount r = b"
  using assms
  by (auto simp: compute_size_def compute_fixed_def compute_atr_based_def atr_result_def capped_at_def priced_result_def new_sizing_result_Inr bind_r_Inr_iff
      Let_def split: option.splits if_splits)

lemma unpriced_size:
  assumes "compute_size q = Inr r" "sz_current_price q = 0" "sz_method q = Fixed" "sz_max_position_size q = None"
  shows "sr_recommended_quantity r = 0"
  using assms
  by (auto simp: compute_size_def compute_fixed_def priced_result_def price_to_quantity_def new_sizing_result_Inr bind_r_Inr_iff)

lemma sized_signal_priced:
  assumes "compute_size (signal_sizing_request g) = Inr r" "sizing_request_valid (signal_sizing_request g)" "0 < sr_recommended_quantity r"
  shows "0 < sz_current_price (signal_sizing_request g)"
proof (rule ccontr)
  let ?q = "signal_sizing_request g"
  assume "\<not> 0 < sz_current_price ?q"
  with assms(2) have zero: "sz_current_price ?q = 0" by (simp add: sizing_request_valid_def)
  then have "nonzero_price (tg_suggested_entry g) = None" by (auto simp: signal_sizing_request_def nonzero_price_def split: option.splits if_splits)
  then have "sz_atr_value ?q = None" by (simp add: signal_sizing_request_def)
  with assms(1) have "sz_method ?q = Fixed"
    by (auto simp: signal_sizing_request_def compute_size_def compute_atr_based_def split: option.splits)
  from unpriced_size [OF assms(1) zero this] assms(3) show False by (simp add: signal_sizing_request_def)
qed


text \<open>
  A signal that suggests no entry price is never approved: its size is zero.
\<close>

lemma unpriced_never_approved:
  assumes "evaluate_signal v repo drepo erepo ids now g did corr s (m, e) = (Inr ev, m', e')" "tg_suggested_entry g = None"
  shows "\<not> ev_approved ev"
proof
  assume "ev_approved ev"
  note gates = approved_gates [OF assms(1) this]
  obtain gr n stop where z: "compute_position_size g = (gr, n, stop)" by (cases "compute_position_size g") auto
  with gates(5) have "gt_passed gr" by simp
  from sized_signal [OF z this] obtain r where "compute_size (signal_sizing_request g) = Inr r"
    "sizing_request_valid (signal_sizing_request g)" "0 < sr_recommended_quantity r" by metis
  from sized_signal_priced [OF this] assms(2) show False by (simp add: signal_sizing_request_def nonzero_price_def)
qed

section \<open>A concrete evaluation\<close>

definition demo_evaluator :: evaluator where
  "demo_evaluator =
     \<lparr>el_quality = (\<lambda>_. Inr (Some \<lparr>qs_composite_score = Num 1, qs_grade = ''A''\<rparr>)),
      el_halted = (\<lambda>did sid symbol. Inr (is_halted mock_ks_repo mock_ks_init did (Some sid) (Some symbol))),
      el_var_95 = (\<lambda>_. Inr 0), el_var_threshold = 5000, el_quality_threshold = Num (1 / 2), el_cooldown_seconds = 300\<rparr>"

definition demo_trade_signal :: trade_signal where
  "demo_trade_signal =
     \<lparr>tg_signal_id = ''G1'', tg_strategy_id = ''macd-momentum'', tg_deployment_id = ''D1'', tg_symbol = ''AAPL'', tg_direction = LONG,
      tg_signal_type = ENTRY, tg_strength = STRONG, tg_suggested_entry = Some 175, tg_suggested_stop = Some 173, tg_suggested_target = None,
      tg_confidence = Num 1, tg_indicators_used = [], tg_bar_timestamp = 0, tg_generated_at = 1, tg_metadata = [], tg_correlation_id = ''X''\<rparr>"

lemma demo_size: "compute_position_size demo_trade_signal = (gate ''position_sizing'' True (Sized 500 87500 Atr_Based), Some 500, Some 171)"
  by (simp add: compute_position_size_def signal_sizing_request_def demo_trade_signal_def nonzero_price_def sizing_request_valid_def opt_all_def Let_def
      compute_size_def compute_atr_based_def atr_result_def risk_budget_def ddiv_def bind_r_def capped_at_def new_sizing_result_def
      cents_def dmul_def dsub_def dabs_def dec_numeral quantize_numeral)

definition demo_evaluation :: "mock_signals \<Rightarrow> (exn, evaluation) result \<times> mock_signals \<times> risk_event list" where
  "demo_evaluation m =
     evaluate_signal demo_evaluator mock_signal_repo mock_deployment_repo mock_event_repo demo_event_ids 2 demo_trade_signal ''D1'' ''bar-1'' demo_limited (m, [])"

definition no_signals :: mock_signals where
  "no_signals = \<lparr>mg_signals = [], mg_evaluations = []\<rparr>"

lemma demo_limited_facts:
  "dr_get_by_id mock_deployment_repo demo_limited ''D1'' = Some demo_deployment" "dp_risk_limits demo_deployment \<noteq> empty_doc"
  "deserialize_limits (dp_risk_limits demo_deployment) = Inr demo_limits"
  by (simp_all add: demo_limited_def mock_get_by_id_def demo_deployment_def demo_doc_def empty_doc_def deserialize_limits_def
      limit_decimal_def demo_limits_def)

lemma demo_gate_passes:
  "gt_passed (fst (check_risk_gate mock_deployment_repo mock_event_repo demo_event_ids 2 demo_trade_signal ''D1'' ''bar-1'' demo_limited []))"
proof -
  let ?o = "proxy_order demo_trade_signal ''D1'' ''bar-1''"
  have "\<exists>r. fst (check_order mock_deployment_repo mock_event_repo demo_event_ids ''D1'' ?o [] (placeholder_account 2) ''bar-1'' demo_limited []) = Inr r \<and> rc_passed r"
    using run_checks_passing [of mock_event_repo demo_event_ids 0 "''D1''" ?o "''bar-1''" "ordered_checks ?o [] (placeholder_account 2) demo_limits" "[]"]
      demo_limited_facts
    by (simp add: check_order_def ordered_checks_passing within_limits_def reportable_def demo_limits_def estimate_market_price_def proxy_order_def
        dmul_def dec_of_int [of 1, simplified])
  moreover have "order_request_valid ?o" by (simp add: order_request_valid_def proxy_order_def demo_trade_signal_def)
  ultimately show ?thesis by (auto simp: check_risk_gate_def gate_def Let_def split: prod.splits sum.splits)
qed

lemma demo_evaluation_approved:
  assumes "gt_passed (check_duplicate demo_evaluator mock_signal_repo demo_trade_signal m)"
  obtains ev e where "demo_evaluation m = (Inr ev, m\<lparr>mg_evaluations := mg_evaluations m @ [ev]\<rparr>, e)" "ev_approved ev" "ev_position_size ev = Some 500"
    "ev_adjusted_stop ev = Some 171"
proof -
  obtain risk e where risk: "check_risk_gate mock_deployment_repo mock_event_repo demo_event_ids 2 demo_trade_signal ''D1'' ''bar-1'' demo_limited [] = (risk, e)"
    by fastforce
  with demo_gate_passes have "gt_passed risk" by simp
  then show ?thesis using that assms
    by (simp add: demo_evaluation_def evaluate_signal_def risk demo_size gate_def check_data_quality_def check_signal_halt_def
        check_var_impact_def demo_evaluator_def mock_signal_repo_def mg_save_evaluation_def finish_evaluation_def
        is_halted_def mock_ks_repo_def ks_get_active_def mock_ks_init_def dict_values_def dabs_def Let_def)
qed

lemma demo_not_duplicate:
  "gt_passed (check_duplicate demo_evaluator mock_signal_repo demo_trade_signal no_signals)"
  "gt_passed (check_duplicate demo_evaluator mock_signal_repo demo_trade_signal (snd (mg_save_signal demo_trade_signal no_signals)))"
  by (simp_all add: check_duplicate_def mock_signal_repo_def mg_find_signals_def mg_save_signal_def no_signals_def dict_values_def same_bar_signal_def
      gate_def split: option.splits)


text \<open>
  The size of an approved signal ignores the limits of the deployment: for a live deployment that may not place an order above 10,
  the evaluation approves 500 units at a price of 175, because the risk gate only sees an order for one unit, without
  positions, that is valued at 1. The adjusted stop is at twice the distance of the suggested one.
\<close>

theorem approved_size_ignores_limits:
  "\<exists>ev m e. demo_evaluation no_signals = (Inr ev, m, e) \<and> ev_approved ev \<and> ev_position_size ev = Some 500 \<and>
     tg_suggested_entry demo_trade_signal = Some 175 \<and> tg_suggested_stop demo_trade_signal = Some 173 \<and> ev_adjusted_stop ev = Some 171 \<and>
     pl_max_order_value demo_limits = 10 \<and> deserialize_limits (dp_risk_limits demo_deployment) = Inr demo_limits \<and>
     fst (enforce_order mock_deployment_repo mock_event_repo demo_event_ids ''D1'' (proxy_order demo_trade_signal ''D1'' ''bar-1''\<lparr>rq_quantity := 500\<rparr>) []
       (placeholder_account 2) ''bar-1'' demo_limited []) \<noteq> Inr ()"
proof -
  let ?o = "proxy_order demo_trade_signal ''D1'' ''bar-1''\<lparr>rq_quantity := 500\<rparr>"
  have "\<not> within_limits ?o [] (placeholder_account 2) demo_limits"
    by (simp add: within_limits_def demo_limits_def estimate_market_price_def proxy_order_def dmul_def dec_numeral)
  then have "fst (enforce_order mock_deployment_repo mock_event_repo demo_event_ids ''D1'' ?o [] (placeholder_account 2) ''bar-1'' demo_limited []) \<noteq> Inr ()"
    using run_checks_passing [of mock_event_repo demo_event_ids 0 "''D1''" ?o "''bar-1''" "ordered_checks ?o [] (placeholder_account 2) demo_limits" "[]"]
      demo_limited_facts
    unfolding enforce_iff_check by (simp add: check_order_def ordered_checks_passing)
  moreover have "tg_suggested_entry demo_trade_signal = Some 175" "tg_suggested_stop demo_trade_signal = Some 173" "pl_max_order_value demo_limits = 10"
    by (simp_all add: demo_trade_signal_def demo_limits_def)
  ultimately show ?thesis using demo_evaluation_approved [OF demo_not_duplicate(1)] demo_limited_facts(3) by metis
qed

section \<open>The duplicate filter\<close>

text \<open>What the filter relies on: a saved signal replaces the one with its identifier, and a search that is not cut by its limit
  returns exactly the signals that match.\<close>

definition sought :: "string \<Rightarrow> string \<Rightarrow> datetime \<Rightarrow> trade_signal \<Rightarrow> bool" where
  "sought sid symbol since = mg_matches sid (Some symbol) (Some since)"

locale signal_store =
  fixes repo :: "'g signal_repo" and stored :: "'g \<Rightarrow> trade_signal set" and invar :: "'g \<Rightarrow> bool"
  assumes save_stores: "invar m \<Longrightarrow> gp_save_signal repo g m = (r, m') \<Longrightarrow>
      r = Inr () \<and> invar m' \<and> stored m' = insert g {x \<in> stored m. tg_signal_id x \<noteq> tg_signal_id g}"
    and find_matching: "invar m \<Longrightarrow> card {x \<in> stored m. sought sid symbol since x} \<le> limit \<Longrightarrow>
      \<exists>xs. gp_find_signals repo m sid (Some symbol) (Some since) limit = Inr xs \<and> set xs = {x \<in> stored m. sought sid symbol since x}"
begin

lemma duplicate_found:
  assumes m: "invar m" and saved: "gp_save_signal repo g m = (r, m')"
    and x: "x \<in> stored m" "tg_signal_id x \<noteq> tg_signal_id g" "tg_direction x = tg_direction g" "tg_bar_timestamp x = tg_bar_timestamp g"
    and since: "sought (tg_strategy_id g) (tg_symbol g) (tg_generated_at g - el_cooldown_seconds v * 1000000) x"
    and few: "card {y \<in> stored m'. sought (tg_strategy_id g) (tg_symbol g) (tg_generated_at g - el_cooldown_seconds v * 1000000) y} \<le> 10"
  shows "\<not> gt_passed (check_duplicate v repo g m')"
proof -
  have st: "invar m'" "stored m' = insert g {x \<in> stored m. tg_signal_id x \<noteq> tg_signal_id g}" using save_stores [OF m saved] by auto
  from find_matching [OF st(1) few] obtain xs where
    f: "gp_find_signals repo m' (tg_strategy_id g) (Some (tg_symbol g)) (Some (tg_generated_at g - el_cooldown_seconds v * 1000000)) 10 = Inr xs"
    and xs: "set xs = {y \<in> stored m'. sought (tg_strategy_id g) (tg_symbol g) (tg_generated_at g - el_cooldown_seconds v * 1000000) y}" by blast
  have "x \<in> set xs" unfolding xs using x since st(2) by simp
  then have "find (same_bar_signal g) xs \<noteq> None" using x by (auto simp: find_None_iff same_bar_signal_def)
  with f show ?thesis by (auto simp: check_duplicate_def gate_def)
qed

end

definition mg_stored :: "mock_signals \<Rightarrow> trade_signal set" where
  "mg_stored m = set (dict_values (mg_signals m))"

definition mg_inv :: "mock_signals \<Rightarrow> bool" where
  "mg_inv m \<longleftrightarrow> dict_ok (mg_signals m) \<and> (\<forall>(k, g) \<in> set (mg_signals m). k = tg_signal_id g)"

lemma mg_inv_distinct:
  assumes "mg_inv m"
  shows "distinct (dict_values (mg_signals m))"
proof -
  have "fst z = tg_signal_id (snd z)" if "z \<in> set (mg_signals m)" for z using that assms by (auto simp: mg_inv_def split_beta)
  then have "x = y" if "x \<in> set (mg_signals m)" "y \<in> set (mg_signals m)" "snd x = snd y" for x y using that by (metis prod_eqI)
  moreover have "distinct (mg_signals m)" using assms by (simp add: mg_inv_def dict_ok_def distinct_map)
  ultimately show ?thesis by (auto simp: dict_values_def distinct_map intro: inj_onI)
qed

lemma dict_set_mem: "dict_ok d \<Longrightarrow> set (dict_set k v d) = insert (k, v) {kv \<in> set d. fst kv \<noteq> k}"
  by (induction d) (auto simp: dict_ok_def image_iff)

interpretation mock_signals: signal_store mock_signal_repo mg_stored mg_inv
proof
  fix m g r m' assume m: "mg_inv m" and s: "gp_save_signal mock_signal_repo g m = (r, m')"
  then have m': "m' = m\<lparr>mg_signals := dict_set (tg_signal_id g) g (mg_signals m)\<rparr>" "r = Inr ()"
    by (auto simp: mock_signal_repo_def mg_save_signal_def)
  have d: "set (mg_signals m') = insert (tg_signal_id g, g) {kv \<in> set (mg_signals m). fst kv \<noteq> tg_signal_id g}"
    using m unfolding m' by (simp add: dict_set_mem mg_inv_def)
  have "mg_inv m'" using m unfolding mg_inv_def d by (auto simp: m')
  moreover have "mg_stored m' = insert g {x \<in> mg_stored m. tg_signal_id x \<noteq> tg_signal_id g}"
    using m unfolding mg_stored_def dict_values_def set_map d mg_inv_def by (force simp: image_iff)
  ultimately show "r = Inr () \<and> mg_inv m' \<and> mg_stored m' = insert g {x \<in> mg_stored m. tg_signal_id x \<noteq> tg_signal_id g}" using m' by simp
next
  fix m sid symbol since limit
  assume m: "mg_inv m" and c: "card {x \<in> mg_stored m. sought sid symbol since x} \<le> limit"
  let ?xs = "filter (sought sid symbol since) (dict_values (mg_signals m))"
  have "length ?xs = card (set ?xs)" using mg_inv_distinct [OF m] by (metis distinct_card distinct_filter)
  also have "set ?xs = {x \<in> mg_stored m. sought sid symbol since x}" by (auto simp: mg_stored_def)
  finally have "length ?xs \<le> limit" using c by simp
  then have "gp_find_signals mock_signal_repo m sid (Some symbol) (Some since) limit = Inr (sort_key (\<lambda>g. - tg_generated_at g) ?xs)"
    by (simp add: mock_signal_repo_def mg_find_signals_def sought_def)
  then show "\<exists>xs. gp_find_signals mock_signal_repo m sid (Some symbol) (Some since) limit = Inr xs \<and>
      set xs = {x \<in> mg_stored m. sought sid symbol since x}" by (auto simp: mg_stored_def)
qed

text \<open>Once a signal is saved, a second one of the same strategy, symbol, direction and bar fails the filter during the cooldown,
  as long as at most ten signals are in the window.\<close>

lemma second_signal_of_bar_rejected:
  assumes "mg_inv m" "x \<in> mg_stored m" "tg_signal_id x \<noteq> tg_signal_id g" "tg_direction x = tg_direction g" "tg_bar_timestamp x = tg_bar_timestamp g"
    "sought (tg_strategy_id g) (tg_symbol g) (tg_generated_at g - el_cooldown_seconds v * 1000000) x"
    "card {y \<in> mg_stored (snd (mg_save_signal g m)). sought (tg_strategy_id g) (tg_symbol g) (tg_generated_at g - el_cooldown_seconds v * 1000000) y} \<le> 10"
  shows "\<not> gt_passed (check_duplicate v mock_signal_repo g (snd (mg_save_signal g m)))"
  using mock_signals.duplicate_found [OF assms(1) _ assms(2-6), where r = "Inr ()" and m' = "snd (mg_save_signal g m)"] assms(7)
  by (simp add: mock_signal_repo_def mg_save_signal_def)

end
