(* ===== verification/Execution_Loop.thy ===== *)
theory Execution_Loop
  imports Signal_Evaluation Kill_Switch_Venues
begin

text \<open>
  The live execution loop of a strategy: \<open>services/worker/execution/strategy_execution_engine.py\<close> with the states of
  \<open>libs/contracts/execution_loop.py\<close> and the freshness gate \<open>services/api/services/data_freshness_gate.py\<close>. The engine drives a
  signal strategy, the indicator engine, the signal evaluation and a broker adapter; the clock and the identifiers come
  with every bar. Effects that happened before an exception stay.
\<close>

section \<open>The states of a loop\<close>

datatype loop_state = INITIALIZING | RUNNING | PAUSED | COOLDOWN | STOPPED | FAILED

definition valid_transitions :: "loop_state \<Rightarrow> loop_state list" where
  "valid_transitions x =
     (case x of
        INITIALIZING \<Rightarrow> [RUNNING, FAILED, STOPPED]
      | RUNNING \<Rightarrow> [PAUSED, COOLDOWN, STOPPED, FAILED]
      | PAUSED \<Rightarrow> [RUNNING, STOPPED]
      | COOLDOWN \<Rightarrow> [RUNNING, FAILED, STOPPED]
      | STOPPED \<Rightarrow> []
      | FAILED \<Rightarrow> [])"

definition loop_transition_error :: exn where
  "loop_transition_error = PyError ''InvalidStateTransitionError''"

definition validate_transition :: "loop_state \<Rightarrow> loop_state \<Rightarrow> (exn, unit) result" where
  "validate_transition x y = (if y \<notin> set (valid_transitions x) then Inl loop_transition_error else Inr ())"

definition is_terminal :: "loop_state \<Rightarrow> bool" where
  "is_terminal x \<longleftrightarrow> length (valid_transitions x) = 0"

record loop_config =
  lc_deployment_id :: string
  lc_strategy_id :: string
  lc_signal_strategy_id :: string
  lc_symbols :: "string list"
  lc_interval :: candle_interval
  lc_execution_mode :: execution_mode
  lc_max_positions_per_symbol :: int
  lc_cooldown_after_trade_s :: int
  lc_max_consecutive_errors :: nat
  lc_health_check_interval_s :: int

text \<open>The validator strips, upper-cases and deduplicates the symbols.\<close>

fun dedupe :: "string list \<Rightarrow> string list \<Rightarrow> string list" where
  "dedupe seen [] = []"
| "dedupe seen (x # xs) = (if x \<in> set seen then dedupe seen xs else x # dedupe (x # seen) xs)"

definition normalize_symbols :: "string list \<Rightarrow> (exn, string list) result" where
  "normalize_symbols xs =
     (let ys = map (\<lambda>x. to_upper (strip x)) xs in if [] \<in> set ys then Inl value_error else Inr (dedupe [] ys))"

definition id_length_ok :: "string \<Rightarrow> bool" where
  "id_length_ok x \<longleftrightarrow> 1 \<le> length x \<and> length x \<le> 128"

definition new_loop_config :: "loop_config \<Rightarrow> (exn, loop_config) result" where
  "new_loop_config c =
     (if id_length_ok (lc_deployment_id c) \<and> id_length_ok (lc_strategy_id c) \<and> id_length_ok (lc_signal_strategy_id c) \<and> lc_symbols c \<noteq> [] \<and>
         1 \<le> lc_max_positions_per_symbol c \<and> lc_max_positions_per_symbol c \<le> 100 \<and> 0 \<le> lc_cooldown_after_trade_s c \<and>
         lc_cooldown_after_trade_s c \<le> 86400 \<and> 1 \<le> lc_max_consecutive_errors c \<and> lc_max_consecutive_errors c \<le> 100 \<and>
         5 \<le> lc_health_check_interval_s c \<and> lc_health_check_interval_s c \<le> 3600
      then bind_r (normalize_symbols (lc_symbols c)) (\<lambda>ys. Inr (c\<lparr>lc_symbols := ys\<rparr>))
      else Inl (PyError ''pydantic.ValidationError''))"

section \<open>Freshness of data\<close>

record freshness_policy =
  fp_max_staleness_multiplier :: py_float
  fp_absolute_max_staleness_seconds :: int
  fp_action_on_stale :: string

definition freshness_policy_valid :: "freshness_policy \<Rightarrow> bool" where
  "freshness_policy_valid p \<longleftrightarrow>
     f_le (Num 1) (fp_max_staleness_multiplier p) \<and> 60 \<le> fp_absolute_max_staleness_seconds p \<and> fp_action_on_stale p \<in> set [''reject'', ''warn'']"

definition default_freshness_policy :: freshness_policy where
  "default_freshness_policy =
     \<lparr>fp_max_staleness_multiplier = Num 3, fp_absolute_max_staleness_seconds = 600, fp_action_on_stale = ''reject''\<rparr>"

record freshness_result =
  fr_symbol :: string
  fr_candle_timestamp :: datetime
  fr_checked_at :: datetime
  fr_age_seconds :: py_float
  fr_max_allowed_seconds :: py_float
  fr_is_fresh :: bool
  fr_action :: string

definition check_freshness :: "datetime \<Rightarrow> candle \<Rightarrow> freshness_policy \<Rightarrow> (exn, freshness_result) result" where
  "check_freshness now c p =
     (let age = round64 (of_int (now - cn_timestamp c) / 1000000);
          threshold = f_mul (Num (of_int (interval_seconds (cn_interval c)))) (fp_max_staleness_multiplier p);
          max_allowed = py_min threshold (round64 (of_int (fp_absolute_max_staleness_seconds p)));
          fresh = f_le age max_allowed;
          action = (if fresh then ''accepted'' else if fp_action_on_stale p = ''reject'' then ''rejected'' else ''warned'')
      in if 1 \<le> length (cn_symbol c) \<and> length (cn_symbol c) \<le> 10 \<and> f_le (Num 0) age \<and> f_le (Num 0) max_allowed then
           Inr \<lparr>fr_symbol = cn_symbol c, fr_candle_timestamp = cn_timestamp c, fr_checked_at = now, fr_age_seconds = age,
                fr_max_allowed_seconds = max_allowed, fr_is_fresh = fresh, fr_action = action\<rparr>
         else Inl (PyError ''pydantic.ValidationError''))"

definition is_fresh :: "datetime \<Rightarrow> candle \<Rightarrow> freshness_policy \<Rightarrow> (exn, bool) result" where
  "is_fresh now c p = bind_r (check_freshness now c p) (\<lambda>r. Inr (fr_is_fresh r))"

section \<open>The engine\<close>

record loop_engine =
  le_state :: loop_state
  le_config :: "loop_config option"
  le_started_at :: "datetime option"
  le_candle_buffer :: "(string, candle list) dict"
  le_bars_processed :: nat
  le_signals_generated :: nat
  le_signals_approved :: nat
  le_signals_rejected :: nat
  le_orders_submitted :: nat
  le_orders_filled :: nat
  le_errors :: nat
  le_consecutive_errors :: nat
  le_last_bar_at :: "datetime option"
  le_last_signal_at :: "datetime option"
  le_last_order_at :: "datetime option"

definition max_buffer_size :: nat where "max_buffer_size = 500"

definition new_loop_engine :: loop_engine where
  "new_loop_engine =
     \<lparr>le_state = INITIALIZING, le_config = None, le_started_at = None, le_candle_buffer = [], le_bars_processed = 0, le_signals_generated = 0,
      le_signals_approved = 0, le_signals_rejected = 0, le_orders_submitted = 0, le_orders_filled = 0, le_errors = 0,
      le_consecutive_errors = 0, le_last_bar_at = None, le_last_signal_at = None, le_last_order_at = None\<rparr>"

text \<open>The dependencies that are injected, and what the engine changes: itself, the state of its strategy, the world of the broker,
  the stored signals and the risk events.\<close>

record ('st, 'w, 'g, 's, 'e) loop_deps =
  ld_strategy :: "'st signal_strategy"
  ld_evaluator :: evaluator
  ld_adapter :: "'w adapter"
  ld_calculators :: calculators
  ld_float_text :: "py_float \<Rightarrow> string"
  ld_signals :: "'g signal_repo"
  ld_deployments :: "'s deployment_repo"
  ld_deployment_state :: 's
  ld_risk_events :: "'e risk_event_repo"
  ld_freshness_gate :: bool
  ld_freshness_policy :: "freshness_policy option"
  ld_live_execution_service :: bool

record ('st, 'w, 'g, 'e) loop_world =
  lw_engine :: loop_engine
  lw_strategy :: 'st
  lw_broker :: 'w
  lw_signals :: 'g
  lw_events :: 'e

record bar_env =
  be_now :: datetime
  be_bar_ulid :: string
  be_order_ulid :: string
  be_stamps :: stamps
  be_event_ids :: event_ids

definition le_start :: "bool \<Rightarrow> datetime \<Rightarrow> loop_config \<Rightarrow> loop_engine \<Rightarrow> (exn, unit) result \<times> loop_engine" where
  "le_start live_service now c x =
     (if lc_execution_mode c = LIVE \<and> \<not> live_service then (Inl (PyError ''RuntimeError''), x)
      else
        case validate_transition (le_state x) RUNNING of
          Inl e \<Rightarrow> (Inl e, x)
        | Inr _ \<Rightarrow>
            (Inr (), x\<lparr>le_config := Some c, le_state := RUNNING, le_started_at := Some now,
                       le_candle_buffer := map (\<lambda>s. (s, [])) (lc_symbols c)\<rparr>))"

definition le_move :: "loop_state \<Rightarrow> loop_engine \<Rightarrow> (exn, unit) result \<times> loop_engine" where
  "le_move y x = (case validate_transition (le_state x) y of Inl e \<Rightarrow> (Inl e, x) | Inr _ \<Rightarrow> (Inr (), x\<lparr>le_state := y\<rparr>))"

definition le_stop :: "loop_engine \<Rightarrow> (exn, unit) result \<times> loop_engine" where
  "le_stop x = (case le_move STOPPED x of (Inl e, x') \<Rightarrow> (Inl e, x') | (Inr u, x') \<Rightarrow> (Inr u, x'\<lparr>le_candle_buffer := []\<rparr>))"

definition le_pause :: "loop_engine \<Rightarrow> (exn, unit) result \<times> loop_engine" where
  "le_pause = le_move PAUSED"

definition le_resume :: "loop_engine \<Rightarrow> (exn, unit) result \<times> loop_engine" where
  "le_resume = le_move RUNNING"

definition on_engine :: "(loop_engine \<Rightarrow> loop_engine) \<Rightarrow> ('st, 'w, 'g, 'e) loop_world \<Rightarrow> ('st, 'w, 'g, 'e) loop_world" where
  "on_engine f w = w\<lparr>lw_engine := f (lw_engine w)\<rparr>"

definition bar_done :: "datetime \<Rightarrow> loop_engine \<Rightarrow> loop_engine" where
  "bar_done now x = x\<lparr>le_bars_processed := le_bars_processed x + 1, le_last_bar_at := Some now\<rparr>"

definition buffered :: "loop_engine \<Rightarrow> string \<Rightarrow> candle list" where
  "buffered x symbol = (case dict_get (le_candle_buffer x) symbol of None \<Rightarrow> [] | Some cs \<Rightarrow> cs)"

definition buffer_candle :: "candle \<Rightarrow> loop_engine \<Rightarrow> loop_engine" where
  "buffer_candle c x =
     (let cs = buffered x (cn_symbol c) @ [c]
      in x\<lparr>le_candle_buffer := dict_set (cn_symbol c) (drop (length cs - max_buffer_size) cs) (le_candle_buffer x)\<rparr>)"

definition get_position_for_symbol :: "'w adapter \<Rightarrow> string \<Rightarrow> 'w \<Rightarrow> position_snapshot option \<times> 'w" where
  "get_position_for_symbol a symbol w =
     (case a_get_positions a w of (Inl _, w') \<Rightarrow> (None, w') | (Inr ps, w') \<Rightarrow> (find (\<lambda>p. ps_symbol p = symbol) ps, w'))"

definition loop_order :: "loop_config \<Rightarrow> bar_env \<Rightarrow> string \<Rightarrow> trade_signal \<Rightarrow> evaluation \<Rightarrow> order_request" where
  "loop_order c b corr g ev =
     \<lparr>rq_client_order_id = ''ord-'' @ be_order_ulid b, rq_symbol = tg_symbol g, rq_side = signal_side g, rq_order_type = MARKET,
      rq_quantity = (case ev_position_size ev of None \<Rightarrow> 0 | Some n \<Rightarrow> n), rq_limit_price = None, rq_stop_price = None, rq_time_in_force = DAY,
      rq_deployment_id = lc_deployment_id c, rq_strategy_id = lc_strategy_id c, rq_correlation_id = corr,
      rq_execution_mode = lc_execution_mode c, rq_metadata = []\<rparr>"

definition loop_submit_order ::
  "('st, 'w, 'g, 's, 'e) loop_deps \<Rightarrow> bar_env \<Rightarrow> loop_config \<Rightarrow> string \<Rightarrow> trade_signal \<Rightarrow> evaluation \<Rightarrow> ('st, 'w, 'g, 'e) loop_world \<Rightarrow>
     (exn, unit) result \<times> ('st, 'w, 'g, 'e) loop_world" where
  "loop_submit_order d b c corr g ev w =
     (let order = loop_order c b corr g ev
      in if \<not> order_request_valid order then (Inl (PyError ''pydantic.ValidationError''), w)
         else
           case a_submit_order (ld_adapter d) order (lw_broker w) of
             (Inl e, br) \<Rightarrow> (Inl e, w\<lparr>lw_broker := br\<rparr>)
           | (Inr _, br) \<Rightarrow>
               (Inr (), on_engine (\<lambda>x. x\<lparr>le_orders_submitted := le_orders_submitted x + 1, le_last_order_at := Some (be_now b)\<rparr>) (w\<lparr>lw_broker := br\<rparr>)))"

text \<open>The part of the pipeline that follows a signal: it is saved, evaluated, its evaluation is saved once more, and an approved one
  is submitted unless the mode is shadow.\<close>

definition handle_signal ::
  "('st, 'w, 'g, 's, 'e) loop_deps \<Rightarrow> bar_env \<Rightarrow> loop_config \<Rightarrow> string \<Rightarrow> trade_signal \<Rightarrow> ('st, 'w, 'g, 'e) loop_world \<Rightarrow>
     (exn, unit) result \<times> ('st, 'w, 'g, 'e) loop_world" where
  "handle_signal d b c corr g w0 =
     (let w = on_engine (\<lambda>x. x\<lparr>le_signals_generated := le_signals_generated x + 1, le_last_signal_at := Some (be_now b)\<rparr>) w0
      in case gp_save_signal (ld_signals d) g (lw_signals w) of
           (Inl e, m) \<Rightarrow> (Inl e, w\<lparr>lw_signals := m\<rparr>)
         | (Inr _, m) \<Rightarrow>
             (case evaluate_signal (ld_evaluator d) (ld_signals d) (ld_deployments d) (ld_risk_events d) (be_event_ids b) (be_now b) g
                 (lc_deployment_id c) corr (ld_deployment_state d) (m, lw_events w) of
                (Inl e, m1, es) \<Rightarrow> (Inl e, w\<lparr>lw_signals := m1, lw_events := es\<rparr>)
              | (Inr ev, m1, es) \<Rightarrow>
                  (case gp_save_evaluation (ld_signals d) ev m1 of
                     (Inl e, m2) \<Rightarrow> (Inl e, w\<lparr>lw_signals := m2, lw_events := es\<rparr>)
                   | (Inr _, m2) \<Rightarrow>
                       let w2 = w\<lparr>lw_signals := m2, lw_events := es\<rparr>
                       in if ev_approved ev then
                            let w3 = on_engine (\<lambda>x. x\<lparr>le_signals_approved := le_signals_approved x + 1\<rparr>) w2
                            in if lc_execution_mode c \<noteq> SHADOW then loop_submit_order d b c corr g ev w3 else (Inr (), w3)
                          else (Inr (), on_engine (\<lambda>x. x\<lparr>le_signals_rejected := le_signals_rejected x + 1\<rparr>) w2))))"

definition loop_indicators :: "('st, 'w, 'g, 's, 'e) loop_deps \<Rightarrow> candle list \<Rightarrow> (exn, indicators) result" where
  "loop_indicators d cs =
     (let reqs = sy_required_indicators (ld_strategy d)
      in if reqs \<noteq> [] \<and> 1 < length cs then compute_batch (ld_float_text d) (ld_calculators d) reqs cs else Inr [])"

text \<open>Whether the optional gate rejects the bar.\<close>

definition stale_bar :: "('st, 'w, 'g, 's, 'e) loop_deps \<Rightarrow> bar_env \<Rightarrow> candle \<Rightarrow> (exn, bool) result" where
  "stale_bar d b c =
     (case ld_freshness_policy d of
        Some p \<Rightarrow>
          if ld_freshness_gate d then bind_r (check_freshness (be_now b) c p) (\<lambda>r. Inr (\<not> fr_is_fresh r \<and> fr_action r = ''rejected'')) else Inr False
      | None \<Rightarrow> Inr False)"

definition execute_bar_pipeline ::
  "('st, 'w, 'g, 's, 'e) loop_deps \<Rightarrow> bar_env \<Rightarrow> loop_config \<Rightarrow> string \<Rightarrow> candle \<Rightarrow> ('st, 'w, 'g, 'e) loop_world \<Rightarrow>
     (exn, unit) result \<times> ('st, 'w, 'g, 'e) loop_world" where
  "execute_bar_pipeline d b c corr k w0 =
     (let w = on_engine (buffer_candle k) w0; candles = buffered (lw_engine w) (cn_symbol k)
      in case stale_bar d b k of
           Inl e \<Rightarrow> (Inl e, w)
         | Inr stale \<Rightarrow>
             if stale then (Inr (), on_engine (bar_done (be_now b)) w)
             else
               (case loop_indicators d candles of
                  Inl e \<Rightarrow> (Inl e, w)
                | Inr inds \<Rightarrow>
                    (case get_position_for_symbol (ld_adapter d) (cn_symbol k) (lw_broker w) of (position, br) \<Rightarrow>
                     case sy_evaluate (ld_strategy d) (be_stamps b) (cn_symbol k) candles inds position corr (lw_strategy w) of (r, st) \<Rightarrow>
                       let w1 = w\<lparr>lw_broker := br, lw_strategy := st\<rparr>
                       in case r of
                            Inl e \<Rightarrow> (Inl e, w1)
                          | Inr None \<Rightarrow> (Inr (), on_engine (bar_done (be_now b)) w1)
                          | Inr (Some g) \<Rightarrow>
                              (case handle_signal d b c corr g w1 of
                                 (Inl e, w2) \<Rightarrow> (Inl e, w2)
                               | (Inr _, w2) \<Rightarrow> (Inr (), on_engine (bar_done (be_now b)) w2)))))"

definition record_error :: "datetime \<Rightarrow> loop_config \<Rightarrow> loop_engine \<Rightarrow> loop_engine" where
  "record_error now c x =
     (let y = x\<lparr>le_errors := le_errors x + 1, le_consecutive_errors := le_consecutive_errors x + 1, le_bars_processed := le_bars_processed x + 1,
                le_last_bar_at := Some now\<rparr>
      in if lc_max_consecutive_errors c \<le> le_consecutive_errors y then y\<lparr>le_state := FAILED\<rparr> else y)"

definition process_bar ::
  "('st, 'w, 'g, 's, 'e) loop_deps \<Rightarrow> bar_env \<Rightarrow> candle \<Rightarrow> ('st, 'w, 'g, 'e) loop_world \<Rightarrow> (exn, unit) result \<times> ('st, 'w, 'g, 'e) loop_world" where
  "process_bar d b k w =
     (if le_state (lw_engine w) \<noteq> RUNNING then (Inl loop_transition_error, w)
      else
        case le_config (lw_engine w) of
          None \<Rightarrow> (Inr (), w)
        | Some c \<Rightarrow>
            if (case el_halted (ld_evaluator d) (lc_deployment_id c) (lc_signal_strategy_id c) (cn_symbol k) of Inl _ \<Rightarrow> True | Inr h \<Rightarrow> h)
            then (Inr (), on_engine (\<lambda>x. x\<lparr>le_state := PAUSED\<rparr>) w)
            else
              (case execute_bar_pipeline d b c (''bar-'' @ be_bar_ulid b) k w of
                 (Inl _, w') \<Rightarrow> (Inr (), on_engine (record_error (be_now b) c) w')
               | (Inr _, w') \<Rightarrow> (Inr (), on_engine (\<lambda>x. x\<lparr>le_consecutive_errors := 0\<rparr>) w')))"

record loop_diagnostics =
  lg_state :: loop_state
  lg_deployment_id :: string
  lg_engine :: loop_engine
  lg_uptime :: int

definition le_diagnostics :: "datetime \<Rightarrow> loop_engine \<Rightarrow> loop_diagnostics" where
  "le_diagnostics now x =
     \<lparr>lg_state = le_state x, lg_deployment_id = (case le_config x of None \<Rightarrow> ''unknown'' | Some c \<Rightarrow> lc_deployment_id c), lg_engine = x,
      lg_uptime = (case le_started_at x of None \<Rightarrow> 0 | Some t \<Rightarrow> now - t)\<rparr>"

section \<open>The effect of a bar\<close>

lemma lw_engine_on_engine [simp]:
  "lw_engine (on_engine f w) = f (lw_engine w)" "lw_broker (on_engine f w) = lw_broker w" "lw_signals (on_engine f w) = lw_signals w"
  by (simp_all add: on_engine_def)

text \<open>What the pipeline leaves alone, and by how much it may move the counters; \<open>n\<close> is one for a bar that is done.\<close>

definition moved :: "nat \<Rightarrow> loop_engine \<Rightarrow> loop_engine \<Rightarrow> bool" where
  "moved n x y \<longleftrightarrow>
     le_state y = le_state x \<and> le_config y = le_config x \<and> le_consecutive_errors y = le_consecutive_errors x \<and> le_errors y = le_errors x \<and>
     le_candle_buffer y = le_candle_buffer x \<and> le_bars_processed y = le_bars_processed x + n \<and>
     le_orders_filled y = le_orders_filled x \<and>
     le_orders_submitted x \<le> le_orders_submitted y \<and> le_signals_approved x \<le> le_signals_approved y \<and>
     le_signals_rejected x \<le> le_signals_rejected y \<and>
     le_orders_submitted y + le_signals_approved x \<le> le_signals_approved y + le_orders_submitted x \<and>
     le_signals_approved y + le_signals_rejected y + le_signals_generated x \<le> le_signals_generated y + le_signals_approved x + le_signals_rejected x \<and>
     le_signals_generated x \<le> le_signals_generated y \<and> le_signals_generated y \<le> le_signals_generated x + 1"

lemma moved_refl [simp]: "moved 0 x x"
  by (simp add: moved_def)

lemma moved_done: "moved 0 x y \<Longrightarrow> moved (Suc 0) x (bar_done now y)"
  by (simp add: moved_def bar_done_def)

lemma submit_moved:
  assumes "loop_submit_order d b c corr g ev w = (r, w')"
  shows "lw_engine w' = lw_engine w \<or> lw_engine w' = (lw_engine w)\<lparr>le_orders_submitted := le_orders_submitted (lw_engine w) + 1, le_last_order_at := Some (be_now b)\<rparr>"
  using assms by (auto simp: loop_submit_order_def Let_def split: if_splits prod.splits sum.splits)

lemma handle_signal_moved:
  assumes "handle_signal d b c corr g w = (r, w')"
  shows "moved 0 (lw_engine w) (lw_engine w')"
  using assms
  by (auto simp: handle_signal_def moved_def Let_def split: if_splits prod.splits sum.splits dest!: submit_moved)

lemma pipeline_moved:
  assumes "execute_bar_pipeline d b c corr k w = (r, w')"
  shows "moved (if r = Inr () then 1 else 0) (buffer_candle k (lw_engine w)) (lw_engine w')"
  using assms
  by (auto simp: execute_bar_pipeline_def Let_def moved_done split: if_splits prod.splits sum.splits option.splits dest: handle_signal_moved
      intro: moved_done)

lemma buffer_candle_engine [simp]:
  "le_state (buffer_candle k x) = le_state x" "le_config (buffer_candle k x) = le_config x"
  "le_consecutive_errors (buffer_candle k x) = le_consecutive_errors x" "le_errors (buffer_candle k x) = le_errors x"
  "le_bars_processed (buffer_candle k x) = le_bars_processed x" "le_orders_submitted (buffer_candle k x) = le_orders_submitted x"
  "le_signals_approved (buffer_candle k x) = le_signals_approved x" "le_signals_rejected (buffer_candle k x) = le_signals_rejected x"
  "le_signals_generated (buffer_candle k x) = le_signals_generated x" "le_orders_filled (buffer_candle k x) = le_orders_filled x"
  by (simp_all add: buffer_candle_def Let_def)

section \<open>Histories\<close>

inductive loop_step :: "('st, 'w, 'g, 's, 'e) loop_deps \<Rightarrow> ('st, 'w, 'g, 'e) loop_world \<Rightarrow> ('st, 'w, 'g, 'e) loop_world \<Rightarrow> bool" for d where
  start: "new_loop_config c0 = Inr c \<Longrightarrow> loop_step d w (on_engine (\<lambda>x. snd (le_start (ld_live_execution_service d) now c x)) w)"
| stop: "loop_step d w (on_engine (\<lambda>x. snd (le_stop x)) w)"
| pause: "loop_step d w (on_engine (\<lambda>x. snd (le_pause x)) w)"
| resume: "loop_step d w (on_engine (\<lambda>x. snd (le_resume x)) w)"
| bar: "loop_step d w (snd (process_bar d b k w))"

definition loop_inv :: "loop_engine \<Rightarrow> bool" where
  "loop_inv x \<longleftrightarrow>
     le_orders_submitted x \<le> le_signals_approved x \<and> le_signals_approved x + le_signals_rejected x \<le> le_signals_generated x \<and>
     le_signals_generated x \<le> le_bars_processed x \<and> le_errors x \<le> le_bars_processed x \<and> le_consecutive_errors x \<le> le_errors x \<and>
     le_orders_filled x = 0 \<and> le_state x \<noteq> COOLDOWN \<and> list_all (\<lambda>(s, cs). length cs \<le> max_buffer_size) (le_candle_buffer x)"

lemma le_move_state: "le_state (snd (le_move y x)) = le_state x \<or> le_state (snd (le_move y x)) \<in> set (valid_transitions (le_state x))"
  by (simp add: le_move_def validate_transition_def)

lemma list_all_set: "list_all p d \<Longrightarrow> p (k, v) \<Longrightarrow> list_all p (dict_set k v d)"
  by (induction d) auto

lemma buffer_candle_inv: "loop_inv x \<Longrightarrow> loop_inv (buffer_candle k x)"
  by (simp add: loop_inv_def buffer_candle_def Let_def list_all_set)

lemma process_bar_cases:
  assumes "process_bar d b k w = (r, w')"
  obtains (idle) "w' = w" | (halted) "le_state (lw_engine w) = RUNNING" "w' = on_engine (\<lambda>x. x\<lparr>le_state := PAUSED\<rparr>) w"
  | (failed) c e w1 where "le_state (lw_engine w) = RUNNING" "le_config (lw_engine w) = Some c"
      "execute_bar_pipeline d b c (''bar-'' @ be_bar_ulid b) k w = (Inl e, w1)" "w' = on_engine (record_error (be_now b) c) w1"
  | (processed) c w1 where "le_state (lw_engine w) = RUNNING" "le_config (lw_engine w) = Some c"
      "execute_bar_pipeline d b c (''bar-'' @ be_bar_ulid b) k w = (Inr (), w1)" "w' = on_engine (\<lambda>x. x\<lparr>le_consecutive_errors := 0\<rparr>) w1"
  using assms by (auto simp: process_bar_def split: if_splits option.splits sum.splits prod.splits)

lemma process_bar_inv:
  assumes "loop_inv (lw_engine w)" "process_bar d b k w = (r, w')"
  shows "loop_inv (lw_engine w')"
  using assms(2)
proof (cases rule: process_bar_cases)
  case (failed c e w1)
  from buffer_candle_inv [OF assms(1), of k] pipeline_moved [OF failed(3)] failed(4) show ?thesis
    by (auto simp: loop_inv_def moved_def record_error_def Let_def)
next
  case (processed c w1)
  from buffer_candle_inv [OF assms(1), of k] pipeline_moved [OF processed(3)] processed(4) show ?thesis
    by (auto simp: loop_inv_def moved_def)
qed (use assms(1) in \<open>auto simp: loop_inv_def\<close>)

lemma process_bar_state:
  assumes "process_bar d b k w = (r, w')"
  shows "le_state (lw_engine w') = le_state (lw_engine w) \<or> le_state (lw_engine w') \<in> set (valid_transitions (le_state (lw_engine w)))"
  using assms
proof (cases rule: process_bar_cases)
  case (failed c e w1)
  with pipeline_moved [OF failed(3)] show ?thesis by (auto simp: moved_def record_error_def Let_def valid_transitions_def)
next
  case (processed c w1)
  with pipeline_moved [OF processed(3)] show ?thesis by (auto simp: moved_def)
qed (auto simp: valid_transitions_def)

lemma loop_step_inv:
  assumes "loop_step d w w'" "loop_inv (lw_engine w)"
  shows "loop_inv (lw_engine w')"
  using assms
proof (induction rule: loop_step.induct)
  case (bar w b k)
  then show ?case by (cases "process_bar d b k w") (auto intro: process_bar_inv)
qed (auto simp: loop_inv_def le_start_def le_stop_def le_pause_def le_resume_def le_move_def validate_transition_def list_all_iff
    split: sum.splits prod.splits if_splits)

lemma loop_step_state:
  assumes "loop_step d w w'"
  shows "le_state (lw_engine w') = le_state (lw_engine w) \<or> le_state (lw_engine w') \<in> set (valid_transitions (le_state (lw_engine w)))"
  using assms
proof (induction rule: loop_step.induct)
  case (bar w b k)
  then show ?case by (cases "process_bar d b k w") (auto dest: process_bar_state)
qed (auto simp: le_start_def le_stop_def le_pause_def le_resume_def le_move_def validate_transition_def split: sum.splits prod.splits if_splits)

lemma terminal_step:
  assumes "loop_step d w w'" "is_terminal (le_state (lw_engine w))"
  shows "le_state (lw_engine w') = le_state (lw_engine w) \<and> lw_broker w' = lw_broker w"
proof -
  have "le_state (lw_engine w') = le_state (lw_engine w)" using loop_step_state [OF assms(1)] assms(2) by (auto simp: is_terminal_def)
  moreover have "lw_broker w' = lw_broker w" using assms
  proof (induction rule: loop_step.induct)
    case (bar w b k)
    then have "le_state (lw_engine w) \<noteq> RUNNING" by (auto simp: is_terminal_def valid_transitions_def)
    then show ?case by (simp add: process_bar_def)
  qed simp_all
  ultimately show ?thesis by simp
qed

lemma loop_inv_new: "loop_inv new_loop_engine"
  by (simp add: loop_inv_def new_loop_engine_def)


section \<open>No strategy of the repository ever trades\<close>

lemma pipeline_cases:
  assumes "execute_bar_pipeline d b c corr k w = (r, w')"
  obtains (silent) "lw_engine w' = buffer_candle k (lw_engine w) \<or> lw_engine w' = bar_done (be_now b) (buffer_candle k (lw_engine w))"
  | (signalled) candles inds position s st g w1 r1 w2 where
      "sy_evaluate (ld_strategy d) (be_stamps b) (cn_symbol k) candles inds position corr s = (Inr (Some g), st)"
      "handle_signal d b c corr g w1 = (r1, w2)" "lw_engine w1 = buffer_candle k (lw_engine w)"
      "lw_engine w' = lw_engine w2 \<or> lw_engine w' = bar_done (be_now b) (lw_engine w2)"
  using assms
  by (auto simp: execute_bar_pipeline_def Let_def split: if_splits prod.splits sum.splits option.splits)

definition no_trade :: "loop_engine \<Rightarrow> bool" where
  "no_trade x \<longleftrightarrow> le_signals_approved x = 0 \<and> le_orders_submitted x = 0"

lemma no_trade_simps [simp]:
  "no_trade (bar_done now x) = no_trade x" "no_trade (buffer_candle k x) = no_trade x" "no_trade (record_error now c x) = no_trade x"
  by (simp_all add: no_trade_def bar_done_def record_error_def Let_def)

lemma handle_unpriced:
  assumes "handle_signal d b c corr g w = (r, w')" "tg_suggested_entry g = None" "no_trade (lw_engine w)"
  shows "no_trade (lw_engine w')"
  using assms
  by (auto simp: handle_signal_def no_trade_def Let_def split: if_splits prod.splits sum.splits dest!: unpriced_never_approved)

lemma pipeline_no_trade:
  assumes "execute_bar_pipeline d b c corr k w = (r, w')" "no_trade (lw_engine w)" "repo_strategy (ld_strategy d)"
  shows "no_trade (lw_engine w')"
  using assms(1)
proof (cases rule: pipeline_cases)
  case silent
  with assms(2) show ?thesis by auto
next
  case (signalled candles inds position s st g w1 r1 w2)
  have "tg_suggested_entry g = None"
    using repo_strategy_priceless [OF assms(3), of "be_stamps b" "cn_symbol k" candles inds position corr s] signalled(1) by (simp add: priceless_def)
  from handle_unpriced [OF signalled(2) this] signalled assms(2) show ?thesis by auto
qed

lemma loop_step_no_trade:
  assumes "loop_step d w w'" "no_trade (lw_engine w)" "repo_strategy (ld_strategy d)"
  shows "no_trade (lw_engine w')"
  using assms(1,2)
proof (induction rule: loop_step.induct)
  case (bar w b k)
  obtain r w' where p: "process_bar d b k w = (r, w')" by fastforce
  then show ?case
  proof (cases rule: process_bar_cases)
    case (failed c e w1)
    from pipeline_no_trade [OF failed(3) bar assms(3)] p failed(4) show ?thesis by simp
  next
    case (processed c w1)
    from pipeline_no_trade [OF processed(3) bar assms(3)] p processed(4) show ?thesis by (simp add: no_trade_def)
  qed (use bar p in \<open>auto simp: no_trade_def\<close>)
qed (auto simp: no_trade_def le_start_def le_stop_def le_pause_def le_resume_def le_move_def split: sum.splits prod.splits)

lemma no_trade_new: "no_trade new_loop_engine"
  by (simp add: no_trade_def new_loop_engine_def)

text \<open>
  C9. No strategy of the repository ever trades: in a loop with a built-in strategy, a composition of them or a compiled strategy,
  whatever the bars, the indicators, the services and the operations on the loop, no signal is ever approved and no order is
  ever submitted. Their signals suggest no entry price, and the sizing of the evaluation then recommends zero units.
\<close>

theorem repository_strategies_never_trade:
  assumes "(loop_step d)\<^sup>*\<^sup>* w0 w" "lw_engine w0 = new_loop_engine" "repo_strategy (ld_strategy d)"
  shows "le_signals_approved (lw_engine w) = 0 \<and> le_orders_submitted (lw_engine w) = 0"
proof -
  have "no_trade (lw_engine w)" using assms
    by (induction rule: rtranclp_induct) (auto simp: no_trade_new intro: loop_step_no_trade)
  then show ?thesis by (simp add: no_trade_def)
qed

section \<open>Two strategies stop their loop\<close>

fun process_bars :: "('st, 'w, 'g, 's, 'e) loop_deps \<Rightarrow> (bar_env \<times> candle) list \<Rightarrow> ('st, 'w, 'g, 'e) loop_world \<Rightarrow> ('st, 'w, 'g, 'e) loop_world" where
  "process_bars d [] w = w"
| "process_bars d ((b, k) # bars) w = process_bars d bars (snd (process_bar d b k w))"

lemma process_bars_not_running: "le_state (lw_engine w) \<noteq> RUNNING \<Longrightarrow> process_bars d bars w = w"
  by (induction d bars w rule: process_bars.induct) (simp_all add: process_bar_def)

text \<open>A loop on one symbol whose indicators cannot be computed, no halt and no freshness gate in the way.\<close>

definition broken_loop :: "('st, 'w, 'g, 's, 'e) loop_deps \<Rightarrow> loop_config \<Rightarrow> string \<Rightarrow> bool" where
  "broken_loop d c symbol \<longleftrightarrow>
     (\<exists>cb cs. bollinger_breakout cb = Inr (ld_strategy d) \<or> stochastic_momentum cs = Inr (ld_strategy d)) \<and>
     (\<exists>calc. ld_calculators d = default_registry calc) \<and> ld_freshness_policy d = None \<and>
     el_halted (ld_evaluator d) (lc_deployment_id c) (lc_signal_strategy_id c) symbol = Inr False"

lemma buffered_buffer_candle: "buffered (buffer_candle k x) (cn_symbol k) = (let cs = buffered x (cn_symbol k) @ [k] in drop (length cs - max_buffer_size) cs)"
  unfolding buffer_candle_def Let_def by (simp add: buffered_def [where x = "x\<lparr>le_candle_buffer := b\<rparr>" for b])

lemma buffered_grows: "length (buffered (buffer_candle k x) (cn_symbol k)) = min (Suc (length (buffered x (cn_symbol k)))) max_buffer_size"
  by (simp add: buffered_buffer_candle max_buffer_size_def Let_def)

lemma broken_indicators:
  assumes "broken_loop d c symbol" "1 < length cs"
  shows "\<exists>e. loop_indicators d cs = Inl e"
proof -
  from assms obtain cb ct calc where y: "bollinger_breakout cb = Inr (ld_strategy d) \<or> stochastic_momentum ct = Inr (ld_strategy d)"
    and reg: "ld_calculators d = default_registry calc" unfolding broken_loop_def by blast
  from assms(2) have "cs \<noteq> []" by auto
  from breakout_and_stochastic_batch_fails [OF y this, of "ld_float_text d" calc] obtain e where
    e: "compute_batch (ld_float_text d) (ld_calculators d) (sy_required_indicators (ld_strategy d)) cs = Inl e" unfolding reg by blast
  have "sy_required_indicators (ld_strategy d) \<noteq> []" using y first_request_named by fastforce
  with e assms(2) show ?thesis by (simp add: loop_indicators_def)
qed

lemma broken_bar:
  assumes "broken_loop d c (cn_symbol k)" "le_state (lw_engine w) = RUNNING" "le_config (lw_engine w) = Some c" "buffered (lw_engine w) (cn_symbol k) \<noteq> []"
  shows "lw_engine (snd (process_bar d b k w)) = record_error (be_now b) c (buffer_candle k (lw_engine w))"
proof -
  have "1 < length (buffered (buffer_candle k (lw_engine w)) (cn_symbol k))"
    using assms(4) by (cases "buffered (lw_engine w) (cn_symbol k)") (auto simp: buffered_grows max_buffer_size_def)
  from broken_indicators [OF assms(1) this] obtain e where "loop_indicators d (buffered (buffer_candle k (lw_engine w)) (cn_symbol k)) = Inl e" by blast
  with assms show ?thesis by (simp add: process_bar_def execute_bar_pipeline_def stale_bar_def broken_loop_def Let_def)
qed

lemma buffered_record_error [simp]: "buffered (record_error now c x) s = buffered x s"
  by (simp add: buffered_def record_error_def Let_def)

lemma record_error_simps:
  "le_config (record_error now c x) = le_config x" "le_consecutive_errors (record_error now c x) = Suc (le_consecutive_errors x)"
  "le_state (record_error now c x) = (if lc_max_consecutive_errors c \<le> Suc (le_consecutive_errors x) then FAILED else le_state x)"
  by (simp_all add: record_error_def Let_def)

lemma broken_bars_fail:
  assumes "broken_loop d c symbol" "le_state (lw_engine w) = RUNNING" "le_config (lw_engine w) = Some c" "buffered (lw_engine w) symbol \<noteq> []"
    "le_consecutive_errors (lw_engine w) < lc_max_consecutive_errors c"
    "lc_max_consecutive_errors c \<le> le_consecutive_errors (lw_engine w) + length bars" "list_all (\<lambda>(b, k). cn_symbol k = symbol) bars"
  shows "le_state (lw_engine (process_bars d bars w)) = FAILED"
  using assms
proof (induction bars arbitrary: w)
  case (Cons bk bars)
  obtain b k where bk: "bk = (b, k)" by fastforce
  let ?w = "snd (process_bar d b k w)"
  have s: "cn_symbol k = symbol" using Cons.prems(7) bk by simp
  have e: "lw_engine ?w = record_error (be_now b) c (buffer_candle k (lw_engine w))" using Cons.prems s by (intro broken_bar) simp_all
  show ?case
  proof (cases "lc_max_consecutive_errors c \<le> Suc (le_consecutive_errors (lw_engine w))")
    case True
    then have "le_state (lw_engine ?w) = FAILED" by (simp add: e record_error_simps)
    then show ?thesis by (simp add: bk process_bars_not_running)
  next
    case False
    have "buffered (buffer_candle k (lw_engine w)) symbol \<noteq> []"
      using buffered_grows [of k "lw_engine w"] s by (auto simp: max_buffer_size_def)
    then have "le_state (lw_engine (process_bars d bars ?w)) = FAILED"
      using Cons.prems False by (intro Cons.IH) (simp_all add: e record_error_simps)
    then show ?thesis by (simp add: bk)
  qed
qed simp

lemma lw_strategy_on_engine [simp]: "lw_strategy (on_engine f w) = lw_strategy w"
  by (simp add: on_engine_def)

lemma without_indicators:
  "bollinger_breakout cb = Inr y \<Longrightarrow> fst (sy_evaluate y stamp symbol cs [] p corr s) = Inr None"
  "stochastic_momentum ct = Inr y \<Longrightarrow> fst (sy_evaluate y stamp symbol cs [] p corr s) = Inr None"
  by (auto simp: bollinger_breakout_def stochastic_momentum_def bollinger_evaluate_def stochastic_evaluate_def Let_def split: if_splits)

lemma first_bar:
  assumes "broken_loop d c (cn_symbol k)" "le_state (lw_engine w) = RUNNING" "le_config (lw_engine w) = Some c" "buffered (lw_engine w) (cn_symbol k) = []"
  shows "lw_engine (snd (process_bar d b k w)) = (bar_done (be_now b) (buffer_candle k (lw_engine w)))\<lparr>le_consecutive_errors := 0\<rparr>"
proof -
  from assms(1) obtain cb ct where "bollinger_breakout cb = Inr (ld_strategy d) \<or> stochastic_momentum ct = Inr (ld_strategy d)"
    unfolding broken_loop_def by blast
  then have "fst (sy_evaluate (ld_strategy d) stamp symbol cs [] p corr s) = Inr None" for stamp symbol cs p corr s
    by (rule disjE) (erule without_indicators)+
  then have ev: "\<exists>st. sy_evaluate (ld_strategy d) stamp symbol cs [] p corr s = (Inr None, st)" for stamp symbol cs p corr s
    by (metis prod.collapse)
  have "loop_indicators d (buffered (buffer_candle k (lw_engine w)) (cn_symbol k)) = Inr []"
    using assms(4) by (simp add: loop_indicators_def buffered_grows Let_def)
  moreover obtain p br where "get_position_for_symbol (ld_adapter d) (cn_symbol k) (lw_broker w) = (p, br)" by fastforce
  moreover from ev obtain st where "sy_evaluate (ld_strategy d) (be_stamps b) (cn_symbol k) (buffered (buffer_candle k (lw_engine w)) (cn_symbol k)) []
      p (''bar-'' @ be_bar_ulid b) (lw_strategy w) = (Inr None, st)" by blast
  ultimately show ?thesis using assms by (simp add: process_bar_def execute_bar_pipeline_def stale_bar_def broken_loop_def Let_def)
qed


section \<open>Bars that are never fresh\<close>

text \<open>The timestamp of a candle is the opening of its bar, so a bar is as old as its interval when it closes. Under a cap of ten
  minutes, such as the default policy has, a closed bar of a longer interval is always stale.\<close>

lemma closed_bars_never_fresh:
  assumes "600 < interval_seconds (cn_interval c)" "fp_absolute_max_staleness_seconds p = 600"
    "now = cn_timestamp c + (interval_seconds (cn_interval c) + late) * 1000000" "0 \<le> late" "late < 1000000"
    "check_freshness now c p = Inr r"
  shows "\<not> fr_is_fresh r"
proof -
  let ?i = "interval_seconds (cn_interval c)"
  have i: "0 < ?i" "?i \<le> 86400" by (cases "cn_interval c"; simp add: interval_seconds_def)+
  have "rat_of_int (now - cn_timestamp c) / 1000000 = rat_of_int (?i + late)" using assms(3) by simp
  moreover have "round64 (rat_of_int (?i + late)) = Num (rat_of_int (?i + late))" using i assms(4,5) by (intro round64_of_int) simp
  ultimately have age: "round64 (rat_of_int (now - cn_timestamp c) / 1000000) = Num (rat_of_int (?i + late))" by (simp only:)
  have cap: "round64 (rat_of_int 600) = Num 600" using round64_of_int [of 600] by simp
  have "f_less (Num 600) (Num (rat_of_int (?i + late)))" using assms(1,4) by simp
  then have "\<not> f_le (Num (rat_of_int (?i + late))) (py_min t (Num 600))" for t
    by (cases t) (auto simp: py_min_def f_le_def f_eq_def)
  with assms(2,6) age cap show ?thesis by (auto simp: check_freshness_def Let_def split: if_splits)
qed

section \<open>Corners of the life cycle\<close>

text \<open>A loop that is resumed before it was started runs without a configuration and ignores every bar.\<close>

lemma resumed_before_start:
  assumes "lw_engine w = snd (le_resume new_loop_engine)"
  shows "le_state (lw_engine w) = RUNNING \<and> process_bar d b k w = (Inr (), w)"
  using assms by (simp add: le_resume_def le_move_def validate_transition_def new_loop_engine_def valid_transitions_def process_bar_def)

text \<open>The error of a bar that was in flight when the loop was stopped turns the terminal state into the other one.\<close>

lemma stopped_loop_can_fail:
  assumes "le_stop x = (Inr (), y)" "lc_max_consecutive_errors c \<le> le_consecutive_errors x + 1"
  shows "le_state y = STOPPED \<and> le_state (record_error now c y) = FAILED"
  using assms by (auto simp: le_stop_def le_move_def validate_transition_def record_error_def Let_def split: if_splits)

section \<open>Live orders\<close>

text \<open>A venue that records what it is sent.\<close>

definition recording_venue :: "order_request list adapter" where
  "recording_venue =
     \<lparr>a_connect = (\<lambda>w. (Inr (), w)), a_disconnect = (\<lambda>w. (Inr (), w)),
      a_submit_order = (\<lambda>rq w. (Inr (new_response ''V1'' 0 rq), w @ [rq])),
      a_cancel_order = (\<lambda>_ w. (Inl NotFoundError, w)), a_get_order = (\<lambda>_ w. (Inl NotFoundError, w)),
      a_list_open_orders = (\<lambda>w. (Inr [], w)), a_get_fills = (\<lambda>_ w. (Inr [], w)), a_get_positions = (\<lambda>w. (Inr [], w)),
      a_get_account = (\<lambda>w. (Inl NotFoundError, w)), a_is_paper_adapter = False\<rparr>"

definition priced_strategy :: "unit signal_strategy" where
  "priced_strategy =
     \<lparr>sy_strategy_id = ''macd-momentum'', sy_supported_symbols = [], sy_required_indicators = [],
      sy_evaluate = (\<lambda>stamp symbol candles inds position corr s. (Inr (Some demo_trade_signal), s))\<rparr>"

definition demo_loop_deps :: "'st signal_strategy \<Rightarrow> calculators \<Rightarrow> ('st, order_request list, mock_signals, mock_repo, risk_event list) loop_deps" where
  "demo_loop_deps y calcs =
     \<lparr>ld_strategy = y, ld_evaluator = demo_evaluator, ld_adapter = recording_venue, ld_calculators = calcs, ld_float_text = (\<lambda>_. []),
      ld_signals = mock_signal_repo, ld_deployments = mock_deployment_repo, ld_deployment_state = demo_limited, ld_risk_events = mock_event_repo,
      ld_freshness_gate = False, ld_freshness_policy = None, ld_live_execution_service = True\<rparr>"

definition demo_loop_config :: loop_config where
  "demo_loop_config =
     \<lparr>lc_deployment_id = ''D1'', lc_strategy_id = ''S1'', lc_signal_strategy_id = ''macd-momentum'', lc_symbols = [''AAPL''], lc_interval = D1,
      lc_execution_mode = LIVE, lc_max_positions_per_symbol = 1, lc_cooldown_after_trade_s = 60, lc_max_consecutive_errors = 5,
      lc_health_check_interval_s = 30\<rparr>"

definition demo_loop_world :: "'st \<Rightarrow> ('st, order_request list, mock_signals, risk_event list) loop_world" where
  "demo_loop_world st =
     \<lparr>lw_engine = snd (le_start True 0 demo_loop_config new_loop_engine), lw_strategy = st, lw_broker = [], lw_signals = no_signals, lw_events = []\<rparr>"

definition demo_bar_env :: bar_env where
  "demo_bar_env = \<lparr>be_now = 2, be_bar_ulid = ''1'', be_order_ulid = ''U2'', be_stamps = (\<lambda>_. (''G1'', 1)), be_event_ids = demo_event_ids\<rparr>"

definition demo_loop_bar :: candle where
  "demo_loop_bar = \<lparr>cn_symbol = ''AAPL'', cn_interval = D1, cn_open = 175, cn_high = 175, cn_low = 175, cn_close = 175, cn_volume = 10, cn_timestamp = 0,
     cn_spread = None\<rparr>"

lemma demo_loop_config_new: "new_loop_config demo_loop_config = Inr demo_loop_config"
  by code_simp

lemma demo_loop_started:
  "le_start True 0 demo_loop_config new_loop_engine =
     (Inr (), new_loop_engine\<lparr>le_config := Some demo_loop_config, le_state := RUNNING, le_started_at := Some 0, le_candle_buffer := [(''AAPL'', [])]\<rparr>)"
  by (simp add: le_start_def validate_transition_def valid_transitions_def new_loop_engine_def demo_loop_config_def)

text \<open>Nothing in the processing of a bar depends on the live execution service that a loop must have to start in live mode.\<close>

lemma live_service_unused: "process_bar (d\<lparr>ld_live_execution_service := v\<rparr>) b k w = process_bar d b k w"
proof -
  let ?d = "d\<lparr>ld_live_execution_service := v\<rparr>"
  have sel: "ld_strategy ?d = ld_strategy d" "ld_evaluator ?d = ld_evaluator d" "ld_adapter ?d = ld_adapter d" "ld_calculators ?d = ld_calculators d"
    "ld_float_text ?d = ld_float_text d" "ld_signals ?d = ld_signals d" "ld_deployments ?d = ld_deployments d"
    "ld_deployment_state ?d = ld_deployment_state d" "ld_risk_events ?d = ld_risk_events d" "ld_freshness_gate ?d = ld_freshness_gate d"
    "ld_freshness_policy ?d = ld_freshness_policy d" by simp_all
  have "loop_submit_order ?d = loop_submit_order d" by (intro ext) (unfold loop_submit_order_def sel, rule refl)
  then have "handle_signal ?d = handle_signal d" by (intro ext) (unfold handle_signal_def sel, simp only:)
  moreover have "loop_indicators ?d = loop_indicators d" by (intro ext) (unfold loop_indicators_def sel, rule refl)
  moreover have "stale_bar ?d = stale_bar d" by (intro ext) (unfold stale_bar_def sel, rule refl)
  ultimately have "execute_bar_pipeline ?d = execute_bar_pipeline d" by (intro ext) (unfold execute_bar_pipeline_def sel, simp only:)
  then show ?thesis by (unfold process_bar_def sel, simp only:)
qed

lemma demo_loop_fields [simp]:
  "ld_strategy (demo_loop_deps y cs) = y" "ld_evaluator (demo_loop_deps y cs) = demo_evaluator" "ld_adapter (demo_loop_deps y cs) = recording_venue"
  "ld_calculators (demo_loop_deps y cs) = cs" "ld_signals (demo_loop_deps y cs) = mock_signal_repo" "ld_deployments (demo_loop_deps y cs) = mock_deployment_repo"
  "ld_deployment_state (demo_loop_deps y cs) = demo_limited" "ld_risk_events (demo_loop_deps y cs) = mock_event_repo"
  "ld_freshness_policy (demo_loop_deps y cs) = None" "ld_live_execution_service (demo_loop_deps y cs) = True"
  "be_now demo_bar_env = 2" "be_bar_ulid demo_bar_env = ''1''" "be_event_ids demo_bar_env = demo_event_ids"
  "lc_deployment_id demo_loop_config = ''D1''" "lc_execution_mode demo_loop_config = LIVE"
  "lw_signals (demo_loop_world st) = no_signals" "lw_events (demo_loop_world st) = []" "lw_broker (demo_loop_world st) = []"
  "lw_strategy (demo_loop_world st) = st" "lw_engine (demo_loop_world st) = snd (le_start True 0 demo_loop_config new_loop_engine)"
  "gp_save_signal mock_signal_repo = mg_save_signal" "gp_save_evaluation mock_signal_repo = mg_save_evaluation"
  "a_submit_order recording_venue rq out = (Inr (new_response ''V1'' 0 rq), out @ [rq])" "a_get_positions recording_venue out = (Inr [], out)"
  by (simp_all add: demo_loop_deps_def demo_bar_env_def demo_loop_config_def demo_loop_world_def mock_signal_repo_def recording_venue_def)

lemma demo_not_halted: "el_halted demo_evaluator did sid symbol = Inr False"
  by (simp add: demo_evaluator_def is_halted_def mock_ks_repo_def ks_get_active_def mock_ks_init_def dict_values_def)

lemma demo_handle_signal:
  assumes "lw_signals w = no_signals" "lw_events w = []"
  obtains ev w' where "handle_signal (demo_loop_deps y cs) demo_bar_env demo_loop_config ''bar-1'' demo_trade_signal w = (Inr (), w')"
    "lw_broker w' = lw_broker w @ [loop_order demo_loop_config demo_bar_env ''bar-1'' demo_trade_signal ev]" "ev_position_size ev = Some 500"
proof -
  obtain m where saved: "mg_save_signal demo_trade_signal no_signals = (Inr (), m)" by (simp add: mg_save_signal_def)
  obtain ev e where ev: "demo_evaluation m = (Inr ev, m\<lparr>mg_evaluations := mg_evaluations m @ [ev]\<rparr>, e)" "ev_approved ev" "ev_position_size ev = Some 500"
    by (rule demo_evaluation_approved [of m]) (use demo_not_duplicate(2) saved in simp)
  have valid: "order_request_valid (loop_order demo_loop_config demo_bar_env ''bar-1'' demo_trade_signal ev)"
    using ev(3) by (simp add: order_request_valid_def loop_order_def demo_trade_signal_def demo_bar_env_def demo_loop_config_def)
  note e = ev(1) [unfolded demo_evaluation_def]
  obtain r w' where h: "handle_signal (demo_loop_deps y cs) demo_bar_env demo_loop_config ''bar-1'' demo_trade_signal w = (r, w')" by fastforce
  then have "r = Inr ()" "lw_broker w' = lw_broker w @ [loop_order demo_loop_config demo_bar_env ''bar-1'' demo_trade_signal ev]"
    using assms saved e ev(2) valid
    by (auto simp: handle_signal_def on_engine_def loop_submit_order_def mg_save_evaluation_def Let_def)
  with that h ev(3) show ?thesis by simp
qed


section \<open>The theorems on a concrete loop\<close>

definition demo_loop_fresh :: "'st \<Rightarrow> ('st, order_request list, mock_signals, risk_event list) loop_world" where
  "demo_loop_fresh st = (demo_loop_world st)\<lparr>lw_engine := new_loop_engine\<rparr>"

lemma demo_loop_starts: "loop_step (demo_loop_deps y cs) (demo_loop_fresh st) (demo_loop_world st)"
proof -
  have "on_engine (\<lambda>x. snd (le_start True 0 demo_loop_config x)) (demo_loop_fresh st) = demo_loop_world st"
    by (simp add: on_engine_def demo_loop_fresh_def demo_loop_world_def)
  with loop_step.start [OF demo_loop_config_new, of "demo_loop_deps y cs" "demo_loop_fresh st" 0] show ?thesis by simp
qed

lemma demo_loop_fresh_engine: "lw_engine (demo_loop_fresh st) = new_loop_engine"
  by (simp add: demo_loop_fresh_def)


definition demo_slots :: slots where
  "demo_slots = (\<lambda>_. \<lparr>ss_lookback_buffers = [], ss_open_trades = [], ss_bar_counter = 0, ss_cross_tf = new_aggregator []\<rparr>)"

definition demo_macd :: macd_config where
  "demo_macd = \<lparr>md_deployment_id = ''D1'', md_fast_period = 12, md_slow_period = 26, md_signal_period = 9, md_strong_histogram = Num 1,
     md_moderate_histogram = Num (1 / 2), md_supported_symbols = []\<rparr>"

definition demo_rsi :: rsi_config where
  "demo_rsi = \<lparr>rs_deployment_id = ''D1'', rs_rsi_period = 14, rs_oversold = Num 30, rs_overbought = Num 70, rs_strong_swing = Num 15,
     rs_moderate_swing = Num 8, rs_supported_symbols = []\<rparr>"

definition demo_macd_strategy :: "slots signal_strategy" where
  "demo_macd_strategy = (case macd_momentum demo_macd of Inr y \<Rightarrow> y | Inl _ \<Rightarrow> rsi_mean_reversion demo_rsi)"

text \<open>A histogram that turns positive.\<close>

definition rising :: calculators where
  "rising = [(''MACD'', \<lambda>_ _. Inr (Many [(''histogram'', [Num (- 1), Num 1])]))]"

definition demo_loop_runs :: "(slots, order_request list, mock_signals, risk_event list) loop_world" where
  "demo_loop_runs = process_bars (demo_loop_deps demo_macd_strategy rising) (replicate 2 (demo_bar_env, demo_loop_bar)) (demo_loop_world demo_slots)"

theorem repository_strategies_never_trade_witness:
  "le_signals_approved (lw_engine demo_loop_runs) = 0 \<and> le_orders_submitted (lw_engine demo_loop_runs) = 0"
proof -
  have "macd_momentum demo_macd = Inr demo_macd_strategy" by (simp add: demo_macd_strategy_def macd_momentum_def demo_macd_def)
  then have r: "repo_strategy demo_macd_strategy" by (rule repo_strategy.macd)
  let ?d = "demo_loop_deps demo_macd_strategy rising"
  have "(loop_step ?d)\<^sup>*\<^sup>* (demo_loop_fresh demo_slots) demo_loop_runs" unfolding demo_loop_runs_def
    by (simp add: numeral_2_eq_2) (meson demo_loop_starts loop_step.bar converse_rtranclp_into_rtranclp rtranclp.rtrancl_refl)
  from repository_strategies_never_trade [OF this demo_loop_fresh_engine] r show ?thesis by simp
qed

definition demo_bollinger :: bollinger_config where
  "demo_bollinger = \<lparr>bo_deployment_id = ''D1'', bo_bb_period = 20, bo_bb_std = Num 2, bo_volume_multiplier = Num 1, bo_volume_lookback = 20,
     bo_supported_symbols = []\<rparr>"

definition demo_broken :: "(unit, order_request list, mock_signals, mock_repo, risk_event list) loop_deps" where
  "demo_broken = demo_loop_deps (case bollinger_breakout demo_bollinger of Inr y \<Rightarrow> y | Inl _ \<Rightarrow> priced_strategy) (default_registry (\<lambda>_ _ _. Inr (One [])))"


end
