(* ===== verification/Governance.thy ===== *)
theory Governance
  imports Contracts
begin

text \<open>
  Overrides and approval requests, \<open>services/api/services/governance_service.py\<close>, with the in-memory repositories
  \<open>libs/contracts/mocks/mock_override_repository.py\<close> and \<open>mock_approval_repository.py\<close>. Both have the contract
  \<open>decision_repository\<close>, in which separation of duties is proved once. The audit writer is an argument of the operations; the
  histories use a log that keeps every event.
\<close>

section \<open>Records and repositories\<close>

record override_record =
  ov_id :: string
  ov_object_id :: string
  ov_object_type :: string
  ov_override_type :: string
  ov_original_state :: "(string, json) dict option"
  ov_new_state :: "(string, json) dict option"
  ov_evidence_link :: string
  ov_rationale :: string
  ov_submitter_id :: string
  ov_status :: string
  ov_reviewer_id :: "string option"
  ov_decision_rationale :: "string option"
  ov_reviewed_by :: "string option"
  ov_reviewed_at :: "datetime option"
  ov_decided_at :: "datetime option"
  ov_created_at :: datetime
  ov_updated_at :: datetime

record approval_record =
  ap_id :: string
  ap_candidate_id :: "string option"
  ap_requested_by :: string
  ap_status :: string
  ap_reviewer_id :: "string option"
  ap_decision_reason :: "string option"
  ap_decided_at :: "datetime option"
  ap_created_at :: datetime
  ap_updated_at :: datetime

type_synonym override_store = "(string, override_record) dict"
type_synonym approval_store = "(string, approval_record) dict"

definition ovr_create ::
  "string \<Rightarrow> datetime \<Rightarrow> string \<Rightarrow> string \<Rightarrow> string \<Rightarrow> (string, json) dict option \<Rightarrow> (string, json) dict option \<Rightarrow> string \<Rightarrow> string \<Rightarrow> string \<Rightarrow>
     override_store \<Rightarrow> override_store" where
  "ovr_create oid now object_id object_type override_type original new_st evidence rationale submitter d =
     dict_set oid \<lparr>ov_id = oid, ov_object_id = object_id, ov_object_type = object_type, ov_override_type = override_type, ov_original_state = original,
       ov_new_state = new_st, ov_evidence_link = evidence, ov_rationale = rationale, ov_submitter_id = submitter, ov_status = ''pending'',
       ov_reviewer_id = None, ov_decision_rationale = None, ov_reviewed_by = None, ov_reviewed_at = None, ov_decided_at = None,
       ov_created_at = now, ov_updated_at = now\<rparr> d"

definition decided_override :: "datetime \<Rightarrow> string \<Rightarrow> string \<Rightarrow> string \<Rightarrow> override_record \<Rightarrow> override_record" where
  "decided_override now reviewer st reason r =
     r\<lparr>ov_status := st, ov_reviewer_id := Some reviewer, ov_decision_rationale := Some reason, ov_reviewed_by := Some reviewer,
       ov_decided_at := Some now, ov_reviewed_at := Some now, ov_updated_at := now\<rparr>"

definition ovr_update_decision ::
  "datetime \<Rightarrow> string \<Rightarrow> string \<Rightarrow> string \<Rightarrow> string \<Rightarrow> override_store \<Rightarrow> (exn, override_record) result \<times> override_store" where
  "ovr_update_decision now oid reviewer st reason d =
     (case dict_get d oid of
        None \<Rightarrow> (Inl NotFoundError, d)
      | Some r \<Rightarrow> let r' = decided_override now reviewer st reason r in (Inr r', dict_set oid r' d))"

definition apr_seed :: "string \<Rightarrow> datetime \<Rightarrow> string \<Rightarrow> string option \<Rightarrow> approval_store \<Rightarrow> approval_store" where
  "apr_seed aid now requested_by candidate d =
     dict_set aid \<lparr>ap_id = aid, ap_candidate_id = candidate, ap_requested_by = requested_by, ap_status = ''pending'', ap_reviewer_id = None,
       ap_decision_reason = None, ap_decided_at = None, ap_created_at = now, ap_updated_at = now\<rparr> d"

definition decided_approval :: "datetime \<Rightarrow> string \<Rightarrow> string \<Rightarrow> string \<Rightarrow> approval_record \<Rightarrow> approval_record" where
  "decided_approval now reviewer st reason r =
     r\<lparr>ap_status := st, ap_reviewer_id := Some reviewer, ap_decision_reason := Some reason, ap_decided_at := Some now, ap_updated_at := now\<rparr>"

definition apr_update_decision ::
  "datetime \<Rightarrow> string \<Rightarrow> string \<Rightarrow> string \<Rightarrow> string \<Rightarrow> approval_store \<Rightarrow> (exn, approval_record) result \<times> approval_store" where
  "apr_update_decision now aid reviewer st reason d =
     (case dict_get d aid of
        None \<Rightarrow> (Inl NotFoundError, d)
      | Some r \<Rightarrow> let r' = decided_approval now reviewer st reason r in (Inr r', dict_set aid r' d))"

definition apr_count_by_status :: "string \<Rightarrow> approval_store \<Rightarrow> nat" where
  "apr_count_by_status st d = length (filter (\<lambda>r. ap_status r = st) (dict_values d))"

section \<open>The service\<close>

record audit_event =
  au_actor :: string
  au_action :: string
  au_object_id :: string
  au_object_type :: string
  au_metadata :: "(string, json) dict"

type_synonym 'a audit_writer = "audit_event \<Rightarrow> 'a \<Rightarrow> (exn, string) result \<times> 'a"

definition user_actor :: "string \<Rightarrow> string" where
  "user_actor u = ''user:'' @ u"

text \<open>Writing the event after the change: if the writer raises, the change has happened.\<close>

definition with_audit :: "'a audit_writer \<Rightarrow> audit_event \<Rightarrow> 'v \<Rightarrow> 'd \<times> 'a \<Rightarrow> (exn, 'v) result \<times> 'd \<times> 'a" where
  "with_audit aw ev v st = (case st of (d, a) \<Rightarrow> (case aw ev a of (Inl e, a') \<Rightarrow> (Inl e, d, a') | (Inr _, a') \<Rightarrow> (Inr v, d, a')))"

definition submit_override ::
  "'a audit_writer \<Rightarrow> string \<Rightarrow> datetime \<Rightarrow> string \<Rightarrow> string \<Rightarrow> string \<Rightarrow> string \<Rightarrow> (string, json) dict option \<Rightarrow> (string, json) dict option \<Rightarrow> string \<Rightarrow> string \<Rightarrow>
     string \<Rightarrow> override_store \<times> 'a \<Rightarrow> (exn, string) result \<times> override_store \<times> 'a" where
  "submit_override aw oid now submitter object_id object_type override_type original new_st evidence rationale corr st =
     with_audit aw \<lparr>au_actor = user_actor submitter, au_action = ''override.submitted'', au_object_id = oid, au_object_type = ''override'',
         au_metadata = [(''target_id'', JStr object_id), (''target_type'', JStr object_type), (''override_type'', JStr override_type), (''correlation_id'', JStr corr)]\<rparr>
       oid (ovr_create oid now object_id object_type override_type original new_st evidence rationale submitter (fst st), snd st)"

definition review_override ::
  "'a audit_writer \<Rightarrow> datetime \<Rightarrow> string \<Rightarrow> string \<Rightarrow> string \<Rightarrow> string \<Rightarrow> string \<Rightarrow> override_store \<times> 'a \<Rightarrow> (exn, override_record) result \<times> override_store \<times> 'a" where
  "review_override aw now oid reviewer decision rationale corr st =
     (case dict_get (fst st) oid of
        None \<Rightarrow> (Inl NotFoundError, st)
      | Some r \<Rightarrow>
          if reviewer = ov_submitter_id r then (Inl SeparationOfDutiesError, st)
          else
            (case ovr_update_decision now oid reviewer decision rationale (fst st) of
               (Inl e, d) \<Rightarrow> (Inl e, d, snd st)
             | (Inr r', d) \<Rightarrow>
                 with_audit aw \<lparr>au_actor = user_actor reviewer, au_action = ''override.reviewed'', au_object_id = oid, au_object_type = ''override'',
                     au_metadata = [(''decision'', JStr decision), (''correlation_id'', JStr corr)]\<rparr> r' (d, snd st)))"

definition decide_request ::
  "'a audit_writer \<Rightarrow> datetime \<Rightarrow> string \<Rightarrow> string \<Rightarrow> string \<Rightarrow> string \<Rightarrow> audit_event \<Rightarrow> approval_store \<times> 'a \<Rightarrow> (exn, approval_record) result \<times> approval_store \<times> 'a" where
  "decide_request aw now aid reviewer st_value reason ev st =
     (case dict_get (fst st) aid of
        None \<Rightarrow> (Inl NotFoundError, st)
      | Some r \<Rightarrow>
          if reviewer = ap_requested_by r then (Inl SeparationOfDutiesError, st)
          else
            (case apr_update_decision now aid reviewer st_value reason (fst st) of
               (Inl e, d) \<Rightarrow> (Inl e, d, snd st)
             | (Inr r', d) \<Rightarrow> with_audit aw ev r' (d, snd st)))"

definition approve_request ::
  "'a audit_writer \<Rightarrow> datetime \<Rightarrow> string \<Rightarrow> string \<Rightarrow> string \<Rightarrow> approval_store \<times> 'a \<Rightarrow> (exn, approval_record) result \<times> approval_store \<times> 'a" where
  "approve_request aw now aid reviewer corr =
     decide_request aw now aid reviewer ''approved'' ''Approved''
       \<lparr>au_actor = user_actor reviewer, au_action = ''approval.approved'', au_object_id = aid, au_object_type = ''approval_request'',
        au_metadata = [(''correlation_id'', JStr corr)]\<rparr>"

definition reject_request ::
  "'a audit_writer \<Rightarrow> datetime \<Rightarrow> string \<Rightarrow> string \<Rightarrow> string \<Rightarrow> string \<Rightarrow> approval_store \<times> 'a \<Rightarrow> (exn, approval_record) result \<times> approval_store \<times> 'a" where
  "reject_request aw now aid reviewer rationale corr =
     decide_request aw now aid reviewer ''rejected'' rationale
       \<lparr>au_actor = user_actor reviewer, au_action = ''approval.rejected'', au_object_id = aid, au_object_type = ''approval_request'',
        au_metadata = [(''rationale'', JStr rationale), (''correlation_id'', JStr corr)]\<rparr>"


section \<open>What both repositories promise\<close>

text \<open>The last decision on an item in a list of decisions (item, reviewer, status).\<close>

definition last_decision :: "string \<Rightarrow> (string \<times> string \<times> string) list \<Rightarrow> (string \<times> string) option" where
  "last_decision i ds = map_of (rev ds) i"

lemma last_decision_snoc [simp]: "last_decision i (ds @ [(j, x)]) = (if i = j then Some x else last_decision i ds)"
  by (simp add: last_decision_def)

lemma last_decision_Nil [simp]: "last_decision i [] = None"
  by (simp add: last_decision_def)

lemma last_decision_absent: "i \<notin> fst ` set ds \<Longrightarrow> last_decision i ds = None"
  by (simp add: last_decision_def map_of_eq_None_iff)

locale decision_repository =
  fixes decide :: "datetime \<Rightarrow> string \<Rightarrow> string \<Rightarrow> string \<Rightarrow> string \<Rightarrow> 'd \<Rightarrow> (exn, 'r) result \<times> 'd"
    and lookup :: "'d \<Rightarrow> string \<Rightarrow> 'r option"
    and submitter :: "'r \<Rightarrow> string" and reviewer :: "'r \<Rightarrow> string option" and status :: "'r \<Rightarrow> string"
  assumes decide_missing: "lookup d i = None \<Longrightarrow> decide now i u st reason d = (Inl NotFoundError, d)"
    and decide_found: "lookup d i = Some r \<Longrightarrow> \<exists>r' d'. decide now i u st reason d = (Inr r', d') \<and> lookup d' = (lookup d)(i \<mapsto> r') \<and>
      submitter r' = submitter r \<and> reviewer r' = Some u \<and> status r' = st"
begin

text \<open>The items are where the decisions made so far leave them, and nobody decided on their own item.\<close>

definition tracks :: "'d \<Rightarrow> (string \<times> string \<times> string) list \<Rightarrow> bool" where
  "tracks d ds \<longleftrightarrow> (\<forall>i r. lookup d i = Some r \<longrightarrow>
       (case last_decision i ds of
          None \<Rightarrow> reviewer r = None \<and> status r = ''pending''
        | Some (u, st) \<Rightarrow> reviewer r = Some u \<and> status r = st \<and> u \<noteq> submitter r)) \<and>
     (\<forall>i \<in> fst ` set ds. lookup d i \<noteq> None)"

lemma tracks_decide:
  assumes "tracks d ds" "lookup d i = Some r" "u \<noteq> submitter r"
  shows "\<exists>r' d'. decide now i u st reason d = (Inr r', d') \<and> tracks d' (ds @ [(i, u, st)])"
proof -
  from decide_found [OF assms(2), of now u st reason] obtain r' d' where r':
    "decide now i u st reason d = (Inr r', d')" "lookup d' = (lookup d)(i \<mapsto> r')" "submitter r' = submitter r" "reviewer r' = Some u" "status r' = st"
    by blast
  have "tracks d' (ds @ [(i, u, st)])" using assms r'(2-5) by (fastforce simp: tracks_def)
  with r'(1) show ?thesis by blast
qed

lemma tracks_new:
  assumes "tracks d ds" "lookup d i = None" "lookup d' = (lookup d)(i \<mapsto> r)" "reviewer r = None" "status r = ''pending''"
  shows "tracks d' ds"
proof -
  have "i \<notin> fst ` set ds" using assms(1,2) by (auto simp: tracks_def)
  then have "last_decision i ds = None" by (rule last_decision_absent)
  with assms show ?thesis by (auto simp: tracks_def)
qed

end

interpretation overrides: decision_repository ovr_update_decision dict_get ov_submitter_id ov_reviewer_id ov_status
  by unfold_locales (auto simp: ovr_update_decision_def Let_def decided_override_def fun_eq_iff split: option.splits)

interpretation approvals: decision_repository apr_update_decision dict_get ap_requested_by ap_reviewer_id ap_status
  by unfold_locales (auto simp: apr_update_decision_def Let_def decided_approval_def fun_eq_iff split: option.splits)

section \<open>Histories\<close>

text \<open>The audit log that keeps every event, and the decisions that it tells.\<close>

definition log_event :: "audit_event list audit_writer" where
  "log_event ev es = (Inr [], es @ [ev])"

definition override_decision :: "audit_event \<Rightarrow> (string \<times> string \<times> string) list" where
  "override_decision ev =
     (if au_action ev = ''override.reviewed'' then
        [(au_object_id ev, drop 5 (au_actor ev), case dict_get (au_metadata ev) ''decision'' of Some (JStr st) \<Rightarrow> st | _ \<Rightarrow> [])] else [])"

definition approval_decision :: "audit_event \<Rightarrow> (string \<times> string \<times> string) list" where
  "approval_decision ev =
     (if au_action ev = ''approval.approved'' then [(au_object_id ev, drop 5 (au_actor ev), ''approved'')]
      else if au_action ev = ''approval.rejected'' then [(au_object_id ev, drop 5 (au_actor ev), ''rejected'')] else [])"

record governance =
  gv_overrides :: override_store
  gv_approvals :: approval_store
  gv_log :: "audit_event list"

inductive gov_step :: "governance \<Rightarrow> governance \<Rightarrow> bool" where
  submit: "dict_get (gv_overrides g) oid = None \<Longrightarrow>
    submit_override log_event oid now u object_id object_type ty original new_st evidence rationale corr (gv_overrides g, gv_log g) = (res, d, l) \<Longrightarrow>
    gov_step g (g\<lparr>gv_overrides := d, gv_log := l\<rparr>)"
| review: "review_override log_event now oid u decision rationale corr (gv_overrides g, gv_log g) = (res, d, l) \<Longrightarrow>
    gov_step g (g\<lparr>gv_overrides := d, gv_log := l\<rparr>)"
| request: "dict_get (gv_approvals g) aid = None \<Longrightarrow> gov_step g (g\<lparr>gv_approvals := apr_seed aid now u candidate (gv_approvals g)\<rparr>)"
| approve: "approve_request log_event now aid u corr (gv_approvals g, gv_log g) = (res, d, l) \<Longrightarrow> gov_step g (g\<lparr>gv_approvals := d, gv_log := l\<rparr>)"
| reject: "reject_request log_event now aid u rationale corr (gv_approvals g, gv_log g) = (res, d, l) \<Longrightarrow> gov_step g (g\<lparr>gv_approvals := d, gv_log := l\<rparr>)"

definition gov_ok :: "governance \<Rightarrow> bool" where
  "gov_ok g \<longleftrightarrow> overrides.tracks (gv_overrides g) (concat (map override_decision (gv_log g))) \<and>
     approvals.tracks (gv_approvals g) (concat (map approval_decision (gv_log g)))"

lemma decide_request_tracks:
  assumes "approvals.tracks d (concat (map approval_decision l))" "decide_request log_event now aid u st reason ev (d, l) = (res, d', l')"
    "approval_decision ev = [(aid, u, st)]"
  shows "(d' = d \<and> l' = l) \<or> (l' = l @ [ev] \<and> approvals.tracks d' (concat (map approval_decision l')))"
proof (cases "dict_get d aid")
  case (Some r)
  with approvals.tracks_decide [OF assms(1) Some, of u now st reason] assms(2,3) show ?thesis
    by (auto simp: decide_request_def with_audit_def log_event_def split: if_splits)
qed (use assms in \<open>simp add: decide_request_def\<close>)

lemma gov_step_ok:
  assumes "gov_step g g'" "gov_ok g"
  shows "gov_ok g'"
  using assms(1)
proof cases
  case (submit oid now u object_id object_type ty original new_st evidence rationale corr res d l)
  then have d: "d = ovr_create oid now object_id object_type ty original new_st evidence rationale u (gv_overrides g)"
    "concat (map override_decision l) = concat (map override_decision (gv_log g))" "concat (map approval_decision l) = concat (map approval_decision (gv_log g))"
    by (auto simp: submit_override_def with_audit_def log_event_def override_decision_def approval_decision_def)
  have "overrides.tracks d (concat (map override_decision (gv_log g)))"
    by (rule overrides.tracks_new [of "gv_overrides g" _ oid]) (use assms(2) submit d in \<open>auto simp: gov_ok_def ovr_create_def fun_eq_iff\<close>)
  with assms(2) d submit(1) show ?thesis by (simp add: gov_ok_def)
next
  case (review now oid u decision rationale corr res d l)
  show ?thesis
  proof (cases "dict_get (gv_overrides g) oid")
    case None
    with review assms(2) show ?thesis by (simp add: review_override_def gov_ok_def)
  next
    case (Some r)
    with review assms(2) overrides.tracks_decide [of "gv_overrides g" "concat (map override_decision (gv_log g))" oid r u now decision rationale] show ?thesis
      by (auto simp: review_override_def gov_ok_def with_audit_def log_event_def override_decision_def approval_decision_def user_actor_def split: if_splits)
  qed
next
  case (request aid now u candidate)
  have "approvals.tracks (apr_seed aid now u candidate (gv_approvals g)) (concat (map approval_decision (gv_log g)))"
    by (rule approvals.tracks_new [of "gv_approvals g" _ aid]) (use assms(2) request in \<open>auto simp: gov_ok_def apr_seed_def fun_eq_iff\<close>)
  with assms(2) request(1) show ?thesis by (simp add: gov_ok_def)
next
  case (approve now aid u corr res d l)
  from assms(2) have "approvals.tracks (gv_approvals g) (concat (map approval_decision (gv_log g)))" by (simp add: gov_ok_def)
  from decide_request_tracks [OF this approve(2) [unfolded approve_request_def]] assms(2) approve(1) show ?thesis
    by (auto simp: gov_ok_def approval_decision_def override_decision_def user_actor_def)
next
  case (reject now aid u rationale corr res d l)
  from assms(2) have "approvals.tracks (gv_approvals g) (concat (map approval_decision (gv_log g)))" by (simp add: gov_ok_def)
  from decide_request_tracks [OF this reject(2) [unfolded reject_request_def]] assms(2) reject(1) show ?thesis
    by (auto simp: gov_ok_def approval_decision_def override_decision_def user_actor_def)
qed

definition no_governance :: governance where
  "no_governance = \<lparr>gv_overrides = [], gv_approvals = [], gv_log = []\<rparr>"

lemma gov_ok_initial: "gov_ok no_governance"
  by (simp add: gov_ok_def no_governance_def overrides.tracks_def approvals.tracks_def)

lemma gov_reach_ok: "gov_step\<^sup>*\<^sup>* no_governance g \<Longrightarrow> gov_ok g"
  by (induction rule: rtranclp_induct) (auto intro: gov_ok_initial gov_step_ok)


text \<open>
  A decision is not final: a request that a reviewer rejected is approved by the next one who approves it, since neither
  the service nor the repository looks at its status.
\<close>

theorem rejected_request_can_be_approved:
  assumes "dict_get d aid = Some r" "u1 \<noteq> ap_requested_by r" "u2 \<noteq> ap_requested_by r"
  shows "\<exists>r1 d1 l1 r2 d2 l2. reject_request log_event t1 aid u1 reason corr1 (d, l) = (Inr r1, d1, l1) \<and> ap_status r1 = ''rejected'' \<and>
    approve_request log_event t2 aid u2 corr2 (d1, l1) = (Inr r2, d2, l2) \<and> dict_get d2 aid = Some r2 \<and> ap_status r2 = ''approved''"
  using assms
  by (simp add: reject_request_def approve_request_def decide_request_def apr_update_decision_def decided_approval_def with_audit_def log_event_def Let_def)

definition demo_requested :: governance where
  "demo_requested = no_governance\<lparr>gv_approvals := apr_seed ''A1'' 1 ''U1'' None []\<rparr>"


theorem rejected_request_can_be_approved_witness:
  "\<exists>r2 d2 l2. approve_request log_event 3 ''A1'' ''U3'' ''X''
     (snd (reject_request log_event 2 ''A1'' ''U2'' ''no'' ''X'' (apr_seed ''A1'' 1 ''U1'' None [], []))) = (Inr r2, d2, l2) \<and> ap_status r2 = ''approved''"
proof -
  obtain r where r: "dict_get (apr_seed ''A1'' 1 ''U1'' None []) ''A1'' = Some r" "ap_requested_by r = ''U1''" by (simp add: apr_seed_def)
  from rejected_request_can_be_approved [OF r(1), of "''U2''" "''U3''" 2 "''no''" "''X''" "[]" 3 "''X''"] r(2) show ?thesis by fastforce
qed

end
