(* ===== verification/Idempotency.thy ===== *)
theory Idempotency
  imports Contracts
begin

text \<open>
  The idempotency middleware, \<open>services/api/middleware/idempotency.py\<close>, with its in-memory store.
  A request is served in two atomic parts, as the event loop runs them: \<open>dispatch_begin\<close> up to
  the point where the handler is awaited, and \<open>dispatch_end\<close> with the handler's outcome; parts of
  different requests interleave. The time is a \<open>float\<close> in seconds and the age of an entry a rounded
  difference. A response is what the code passes to the framework's response class: status,
  body and headers. The Redis store is not modelled here.
\<close>

section \<open>The store\<close>

record cached_response =
  cr_status :: int
  cr_body :: string
  cr_headers :: "(string, string) dict"
  cr_timestamp :: float64

record idem_store =
  st_store :: "(string, cached_response) dict"
  st_in_flight :: "string set"
  st_window_seconds :: int

definition idem_init :: "int \<Rightarrow> idem_store" where
  "idem_init window = \<lparr>st_store = [], st_in_flight = {}, st_window_seconds = window\<rparr>"

definition expired :: "float64 \<Rightarrow> int \<Rightarrow> cached_response \<Rightarrow> bool" where
  "expired now window c \<longleftrightarrow> of_int window < fl (now - cr_timestamp c)"

definition cleanup_expired :: "float64 \<Rightarrow> idem_store \<Rightarrow> idem_store" where
  "cleanup_expired now s =
     (let expired_keys = map fst (filter (\<lambda>(k, c). expired now (st_window_seconds s) c) (st_store s))
      in s\<lparr>st_store := foldl (\<lambda>d k. dict_del k d) (st_store s) expired_keys\<rparr>)"

definition start_request :: "float64 \<Rightarrow> string \<Rightarrow> idem_store \<Rightarrow> bool \<times> idem_store" where
  "start_request now key s =
     (let s1 = cleanup_expired now s
      in if key \<in> st_in_flight s1 then (True, s1)
         else (False, s1\<lparr>st_in_flight := insert key (st_in_flight s1)\<rparr>))"

definition store_response ::
  "float64 \<Rightarrow> string \<Rightarrow> int \<Rightarrow> string \<Rightarrow> (string, string) dict \<Rightarrow> idem_store \<Rightarrow> idem_store" where
  "store_response now key status body headers s =
     s\<lparr>st_store := dict_set key
         \<lparr>cr_status = status, cr_body = body, cr_headers = headers, cr_timestamp = now\<rparr> (st_store s)\<rparr>"

definition get_cached_response ::
  "float64 \<Rightarrow> string \<Rightarrow> idem_store \<Rightarrow> cached_response option \<times> idem_store" where
  "get_cached_response now key s =
     (case dict_get (st_store s) key of
        None \<Rightarrow> (None, s)
      | Some c \<Rightarrow>
          if expired now (st_window_seconds s) c then (None, s\<lparr>st_store := dict_del key (st_store s)\<rparr>)
          else (Some c, s))"

definition finish_request :: "string \<Rightarrow> idem_store \<Rightarrow> idem_store" where
  "finish_request key s = s\<lparr>st_in_flight := st_in_flight s - {key}\<rparr>"

section \<open>The middleware\<close>

record http_request =
  hq_method :: string
  hq_path :: string
  hq_key :: "string option"

record http_response =
  hr_status :: int
  hr_body :: string
  hr_headers :: "(string, string) dict"

definition excluded_paths :: "string list" where
  "excluded_paths = [''/health'', ''/'', ''/docs'', ''/openapi.json'', ''/redoc'', ''/auth/token'']"

definition idempotent_methods :: "string list" where
  "idempotent_methods = [''POST'', ''PUT'', ''PATCH'']"

text \<open>\<open>str.lower\<close> on the Latin-1 characters of a header name.\<close>

definition lower_char :: "char \<Rightarrow> char" where
  "lower_char c =
     (let n = of_char c :: nat
      in if 65 \<le> n \<and> n \<le> 90 \<or> 192 \<le> n \<and> n \<le> 222 \<and> n \<noteq> 215 then char_of (n + 32) else c)"

definition dropped_headers :: "string list" where
  "dropped_headers =
     [''connection'', ''content-length'', ''content-encoding'', ''transfer-encoding'', ''vary'',
      ''pragma'', ''cache-control'', ''expires'', ''set-cookie'']"

definition cached_headers_of :: "(string, string) dict \<Rightarrow> (string, string) dict" where
  "cached_headers_of headers = filter (\<lambda>(k, v). map lower_char k \<notin> set dropped_headers) headers"

definition conflict_response :: http_response where
  "conflict_response =
     \<lparr>hr_status = 409,
      hr_body = ''{\"detail\":\"Duplicate request currently being processed. Please wait and retry.\"}'',
      hr_headers = []\<rparr>"

definition with_status_header :: "string \<Rightarrow> cached_response \<Rightarrow> http_response" where
  "with_status_header v c =
     \<lparr>hr_status = cr_status c, hr_body = cr_body c,
      hr_headers = dict_set ''Idempotency-Key-Status'' v (cr_headers c)\<rparr>"

text \<open>The first part answers at once, passes the request through, or goes on to the handler under
  a key.\<close>

datatype begun = Reply http_response | PassThrough | Proceed string

definition dispatch_begin ::
  "float64 \<Rightarrow> float64 \<Rightarrow> http_request \<Rightarrow> idem_store \<Rightarrow> begun \<times> idem_store" where
  "dispatch_begin now now' rq s =
     (if hq_method rq \<notin> set idempotent_methods then (PassThrough, s)
      else if hq_path rq \<in> set excluded_paths then (PassThrough, s)
      else
        (case hq_key rq of
           None \<Rightarrow> (PassThrough, s)
         | Some key \<Rightarrow>
             if key = '''' then (PassThrough, s)
             else
               (case start_request now key s of
                  (True, s1) \<Rightarrow> (Reply conflict_response, s1)
                | (False, s1) \<Rightarrow>
                    (case get_cached_response now' key s1 of
                       (Some c, s2) \<Rightarrow> (Reply (with_status_header ''replayed'' c), finish_request key s2)
                     | (None, s2) \<Rightarrow> (Proceed key, s2)))))"

text \<open>The second part, with the handler's outcome; the \<open>finally\<close> clause releases the key in every
  case.\<close>

definition dispatch_end ::
  "float64 \<Rightarrow> string \<Rightarrow> (exn, http_response) result \<Rightarrow> idem_store \<Rightarrow> (exn, http_response) result \<times> idem_store" where
  "dispatch_end now key outcome s =
     (case outcome of
        Inl e \<Rightarrow> (Inl e, finish_request key s)
      | Inr response \<Rightarrow>
          if hr_status response < 500 then
            let headers = cached_headers_of (hr_headers response);
                s1 = store_response now key (hr_status response) (hr_body response) headers s
            in (Inr (with_status_header ''stored''
                       \<lparr>cr_status = hr_status response, cr_body = hr_body response, cr_headers = headers,
                        cr_timestamp = now\<rparr>), finish_request key s1)
          else (Inr response, finish_request key s))"

section \<open>Interleavings\<close>

text \<open>The store together with the keyed requests whose handler is running (request number and key).
  A step is labelled with a time that its clock readings do not exceed.\<close>

record idem_system =
  sy_store :: idem_store
  sy_running :: "(nat \<times> string) list"

inductive idem_step :: "float64 \<Rightarrow> idem_system \<Rightarrow> idem_system \<Rightarrow> bool" where
  arrive_answered: "dispatch_begin now now' rq (sy_store y) = (Reply r, s') \<Longrightarrow> now \<le> t \<Longrightarrow> now' \<le> t \<Longrightarrow>
    idem_step t y (y\<lparr>sy_store := s'\<rparr>)"
| arrive_unkeyed: "dispatch_begin now now' rq (sy_store y) = (PassThrough, s') \<Longrightarrow> now \<le> t \<Longrightarrow> now' \<le> t \<Longrightarrow>
    idem_step t y (y\<lparr>sy_store := s'\<rparr>)"
| arrive_started: "dispatch_begin now now' rq (sy_store y) = (Proceed key, s') \<Longrightarrow> now \<le> t \<Longrightarrow> now' \<le> t \<Longrightarrow>
    idem_step t y (y\<lparr>sy_store := s', sy_running := (rid, key) # sy_running y\<rparr>)"
| completed: "(rid, key) \<in> set (sy_running y) \<Longrightarrow> dispatch_end now key outcome (sy_store y) = (res, s') \<Longrightarrow> now \<le> t \<Longrightarrow>
    idem_step t y (y\<lparr>sy_store := s', sy_running := remove1 (rid, key) (sy_running y)\<rparr>)"

inductive idem_steps :: "float64 \<Rightarrow> idem_system \<Rightarrow> idem_system \<Rightarrow> bool" for t where
  steps_none: "idem_steps t y y"
| steps_more: "idem_steps t y y' \<Longrightarrow> idem_step t y' y'' \<Longrightarrow> idem_steps t y y''"

definition idem_start :: "int \<Rightarrow> idem_system" where
  "idem_start window = \<lparr>sy_store = idem_init window, sy_running = []\<rparr>"

text \<open>The keys in flight are those of the running handlers, each running once, and a running key has
  no stored response.\<close>

definition idem_inv :: "idem_system \<Rightarrow> bool" where
  "idem_inv y \<longleftrightarrow>
     dict_ok (st_store (sy_store y)) \<and>
     distinct (map snd (sy_running y)) \<and> st_in_flight (sy_store y) = snd ` set (sy_running y) \<and>
     (\<forall>key \<in> st_in_flight (sy_store y). dict_get (st_store (sy_store y)) key = None)"

section \<open>Effects of the two parts\<close>

lemma foldl_dict_del: "dict_get (foldl (\<lambda>d k. dict_del k d) d ks) k = (if k \<in> set ks then None else dict_get d k)"
  by (induction ks arbitrary: d) auto

lemma cleanup_get:
  "dict_get (st_store (cleanup_expired now s)) key = None \<or>
   dict_get (st_store (cleanup_expired now s)) key = dict_get (st_store s) key"
  by (simp add: cleanup_expired_def foldl_dict_del)

text \<open>Entries within the window survive, however the time differences are rounded.\<close>

lemma fresh_not_expired:
  assumes "fl_repr (of_int window)" "now \<le> t" "t \<le> cr_timestamp c + of_int window"
  shows "\<not> expired now window c"
  using float.rnd_le_repr [of "of_int window" "now - cr_timestamp c"] assms by (simp add: expired_def not_less)

lemma cleanup_fresh:
  assumes "dict_ok (st_store s)" "dict_get (st_store s) key = Some c" "\<not> expired now (st_window_seconds s) c"
  shows "dict_get (st_store (cleanup_expired now s)) key = Some c"
proof -
  have "key \<notin> set (map fst (filter (\<lambda>(k, c). expired now (st_window_seconds s) c) (st_store s)))"
    using assms dict_mem_get [OF assms(1)] by (fastforce simp: image_iff)
  then show ?thesis using assms(2) by (simp add: cleanup_expired_def foldl_dict_del)
qed

lemma foldl_dict_del_ok: "dict_ok d \<Longrightarrow> dict_ok (foldl (\<lambda>d k. dict_del k d) d ks)"
  by (induction ks arbitrary: d) auto

lemma cleanup_sel [simp]:
  "st_in_flight (cleanup_expired now s) = st_in_flight s"
  "st_window_seconds (cleanup_expired now s) = st_window_seconds s"
  "dict_ok (st_store s) \<Longrightarrow> dict_ok (st_store (cleanup_expired now s))"
  by (simp_all add: cleanup_expired_def foldl_dict_del_ok Let_def)

text \<open>What the two parts can do to the stored responses: drop expired ones, and file one.\<close>

definition only_drops :: "float64 \<Rightarrow> idem_store \<Rightarrow> idem_store \<Rightarrow> bool" where
  "only_drops t s s' \<longleftrightarrow>
     st_window_seconds s' = st_window_seconds s \<and> (dict_ok (st_store s) \<longrightarrow> dict_ok (st_store s')) \<and>
     (\<forall>k. dict_get (st_store s') k = None \<or> dict_get (st_store s') k = dict_get (st_store s) k) \<and>
     (dict_ok (st_store s) \<longrightarrow> fl_repr (of_int (st_window_seconds s)) \<longrightarrow>
       (\<forall>k c. dict_get (st_store s) k = Some c \<longrightarrow> t \<le> cr_timestamp c + of_int (st_window_seconds s) \<longrightarrow>
          dict_get (st_store s') k = Some c))"

lemma only_drops_refl [simp]: "only_drops t s s"
  by (simp add: only_drops_def)

lemma only_drops_trans: "only_drops t s s1 \<Longrightarrow> only_drops t s1 s2 \<Longrightarrow> only_drops t s s2"
  unfolding only_drops_def by (metis (no_types, lifting))

lemma only_drops_none: "only_drops t s s' \<Longrightarrow> dict_get (st_store s) k = None \<Longrightarrow> dict_get (st_store s') k = None"
  unfolding only_drops_def by metis

lemma only_drops_ok: "only_drops t s s' \<Longrightarrow> dict_ok (st_store s) \<Longrightarrow> dict_ok (st_store s')"
  by (simp add: only_drops_def)

lemma only_drops_fresh:
  "only_drops t s s' \<Longrightarrow> dict_ok (st_store s) \<Longrightarrow> fl_repr (of_int (st_window_seconds s)) \<Longrightarrow>
     dict_get (st_store s) k = Some c \<Longrightarrow> t \<le> cr_timestamp c + of_int (st_window_seconds s) \<Longrightarrow>
     dict_get (st_store s') k = Some c"
  by (simp add: only_drops_def)

lemma only_drops_flight [simp]:
  "only_drops t s (s'\<lparr>st_in_flight := f\<rparr>) \<longleftrightarrow> only_drops t s s'"
  by (simp add: only_drops_def)

lemma only_drops_cleanup: "now \<le> t \<Longrightarrow> only_drops t s (cleanup_expired now s)"
  unfolding only_drops_def by (auto simp: cleanup_get intro: cleanup_fresh dest: fresh_not_expired)

lemma only_drops_get_cached: "now \<le> t \<Longrightarrow> only_drops t s (snd (get_cached_response now key s))"
  unfolding only_drops_def get_cached_response_def
  by (auto split: option.splits dest: fresh_not_expired)

lemma start_request_cases:
  assumes "start_request now key s = (dup, s1)" "now \<le> t"
  shows "only_drops t s s1" "dup \<longleftrightarrow> key \<in> st_in_flight s"
    "st_in_flight s1 = (if dup then st_in_flight s else insert key (st_in_flight s))"
  using assms only_drops_cleanup [OF assms(2), of s]
  by (auto simp: start_request_def Let_def split: if_splits)

lemma get_cached_flight [simp]: "st_in_flight (snd (get_cached_response now key s)) = st_in_flight s"
  by (simp add: get_cached_response_def split: option.splits)

lemma begin_cases:
  assumes "dispatch_begin now now' rq s = (b, s')" "now \<le> t" "now' \<le> t"
  shows "only_drops t s s' \<and>
    (case b of Proceed key \<Rightarrow> key \<notin> st_in_flight s \<and> st_in_flight s' = insert key (st_in_flight s) \<and>
        dict_get (st_store s') key = None
     | _ \<Rightarrow> st_in_flight s' = st_in_flight s)"
proof (cases "hq_method rq \<notin> set idempotent_methods \<or> hq_path rq \<in> set excluded_paths \<or> hq_key rq \<in> {None, Some []}")
  case True
  then show ?thesis using assms(1) by (auto simp: dispatch_begin_def split: if_splits option.splits)
next
  case False
  then obtain key where key: "hq_key rq = Some key" "key \<noteq> []" by auto
  obtain dup s1 where one: "start_request now key s = (dup, s1)" by force
  note st = start_request_cases [OF one assms(2)]
  obtain cached s2 where two: "get_cached_response now' key s1 = (cached, s2)" by force
  have drops: "only_drops t s s2"
    using st(1) only_drops_get_cached [OF assms(3), of s1 key] two by (auto intro: only_drops_trans)
  have fl: "st_in_flight s2 = st_in_flight s1" using get_cached_flight [of now' key s1] two by simp
  have none: "dict_get (st_store s2) key = None" if "cached = None"
    using two that by (auto simp: get_cached_response_def split: option.splits if_splits)
  show ?thesis
    using assms(1) False key one two st drops fl none
    by (auto simp: dispatch_begin_def finish_request_def split: bool.splits option.splits)
qed

lemma end_cases:
  assumes "dispatch_end now key outcome s = (res, s')"
  shows "st_in_flight s' = st_in_flight s - {key} \<and> st_window_seconds s' = st_window_seconds s \<and>
    (dict_ok (st_store s) \<longrightarrow> dict_ok (st_store s')) \<and>
    (\<forall>k. k \<noteq> key \<longrightarrow> dict_get (st_store s') k = dict_get (st_store s) k)"
  using assms
  by (auto simp: dispatch_end_def finish_request_def store_response_def Let_def split: sum.splits if_splits)

section \<open>The invariant\<close>

lemma snd_remove1:
  assumes "distinct (map snd xs)" "(i, k) \<in> set xs"
  shows "snd ` set (remove1 (i, k) xs) = snd ` set xs - {k}" "distinct (map snd (remove1 (i, k) xs))"
proof -
  have "distinct xs" using assms(1) by (simp add: distinct_map)
  moreover have inj: "inj_on snd (set xs)" using assms(1) by (simp add: distinct_map)
  ultimately show "snd ` set (remove1 (i, k) xs) = snd ` set xs - {k}"
    using inj_on_image_set_diff [OF inj, of "set xs" "{(i, k)}"] assms(2) by (simp add: set_remove1_eq)
  show "distinct (map snd (remove1 (i, k) xs))"
    using inj \<open>distinct xs\<close> by (auto simp: distinct_map intro: inj_on_subset)
qed

lemma idem_step_inv: "idem_step t y y' \<Longrightarrow> idem_inv y \<Longrightarrow> idem_inv y'"
proof (induction rule: idem_step.induct)
  case (arrive_answered now now' rq y r s' t)
  from begin_cases [OF arrive_answered(1-3)] arrive_answered(4) show ?case
    by (auto simp: idem_inv_def only_drops_ok dest: only_drops_none)
next
  case (arrive_unkeyed now now' rq y s' t)
  from begin_cases [OF arrive_unkeyed(1-3)] arrive_unkeyed(4) show ?case
    by (auto simp: idem_inv_def only_drops_ok dest: only_drops_none)
next
  case (arrive_started now now' rq y key s' t rid)
  from begin_cases [OF arrive_started(1-3)] arrive_started(4) show ?case
    by (auto simp: idem_inv_def only_drops_ok) (metis only_drops_none snd_conv)
next
  case (completed rid key y now outcome res s' t)
  have inv: "distinct (map snd (sy_running y))" "st_in_flight (sy_store y) = snd ` set (sy_running y)"
    using completed(4) by (simp_all add: idem_inv_def)
  from end_cases [OF completed(2)] completed(4) snd_remove1 [OF inv(1) completed(1)] show ?case
    by (auto simp: idem_inv_def)
qed

lemma idem_steps_inv: "idem_steps t y y' \<Longrightarrow> idem_inv y \<Longrightarrow> idem_inv y'"
  by (induction rule: idem_steps.induct) (auto dest: idem_step_inv)

lemma idem_start_inv: "idem_inv (idem_start window)"
  by (simp add: idem_inv_def idem_start_def idem_init_def)

section \<open>Properties\<close>

text \<open>A stored response stays while the clock has not left its window: no other execution under its
  key can start, and no running one can overwrite it.\<close>

lemma idem_step_entry:
  assumes "idem_step t y y'" "idem_inv y" "fl_repr (of_int (st_window_seconds (sy_store y)))"
    "dict_get (st_store (sy_store y)) key = Some c" "t \<le> cr_timestamp c + of_int (st_window_seconds (sy_store y))"
  shows "dict_get (st_store (sy_store y')) key = Some c \<and>
    st_window_seconds (sy_store y') = st_window_seconds (sy_store y)"
  using assms
proof (induction rule: idem_step.induct)
  case (arrive_answered now now' rq y r s' t)
  then show ?case using begin_cases [OF arrive_answered(1-3)]
    by (auto simp: idem_inv_def only_drops_def)
next
  case (arrive_unkeyed now now' rq y s' t)
  then show ?case using begin_cases [OF arrive_unkeyed(1-3)]
    by (auto simp: idem_inv_def only_drops_def)
next
  case (arrive_started now now' rq y key' s' t rid)
  then show ?case using begin_cases [OF arrive_started(1-3)]
    by (auto simp: idem_inv_def only_drops_def)
next
  case (completed rid key' y now outcome res s' t)
  have "dict_get (st_store (sy_store y)) key' = None" using completed(1,4) by (force simp: idem_inv_def)
  then have "key' \<noteq> key" using completed(6) by auto
  then show ?case using end_cases [OF completed(2)] completed(6) by simp
qed

lemma idem_steps_entry:
  assumes "idem_steps t y y'" "idem_inv y" "fl_repr (of_int (st_window_seconds (sy_store y)))"
    "dict_get (st_store (sy_store y)) key = Some c" "t \<le> cr_timestamp c + of_int (st_window_seconds (sy_store y))"
  shows "dict_get (st_store (sy_store y')) key = Some c \<and>
    st_window_seconds (sy_store y') = st_window_seconds (sy_store y)"
  using assms
proof (induction rule: idem_steps.induct)
  case (steps_more y y1 y2)
  then have "dict_get (st_store (sy_store y1)) key = Some c \<and>
      st_window_seconds (sy_store y1) = st_window_seconds (sy_store y)" by simp
  then show ?case
    using idem_step_entry [OF steps_more(2) idem_steps_inv [OF steps_more(1,4)], of key c] steps_more(5,7) by simp
qed simp

lemma idem_steps_window:
  "idem_steps t y y' \<Longrightarrow> st_window_seconds (sy_store y') = st_window_seconds (sy_store y)"
proof (induction rule: idem_steps.induct)
  case (steps_more y y1 y2)
  from steps_more(2,3) show ?case
  proof (induction rule: idem_step.induct)
    case (completed rid key y' now outcome res s' t)
    then show ?case using end_cases [OF completed(2)] by simp
  qed (auto dest!: begin_cases simp: only_drops_def)
qed simp

text \<open>
  C36. Whatever the interleaving of requests, at most one handler runs under an idempotency key at a
  time, the keys in flight are exactly those of the running handlers, and a request that arrives with
  such a key is answered 409 without running its handler.
\<close>

theorem one_execution_per_key:
  assumes "idem_steps t (idem_start window) y"
  shows "distinct (map snd (sy_running y)) \<and> st_in_flight (sy_store y) = snd ` set (sy_running y) \<and>
    (\<forall>rid key now now' rq. (rid, key) \<in> set (sy_running y) \<longrightarrow> hq_key rq = Some key \<longrightarrow> key \<noteq> '''' \<longrightarrow>
       hq_method rq \<in> set idempotent_methods \<longrightarrow> hq_path rq \<notin> set excluded_paths \<longrightarrow>
       fst (dispatch_begin now now' rq (sy_store y)) = Reply conflict_response)"
proof -
  have inv: "idem_inv y" using idem_steps_inv [OF assms idem_start_inv] .
  have "fst (dispatch_begin now now' rq (sy_store y)) = Reply conflict_response"
    if "(rid, key) \<in> set (sy_running y)" "hq_key rq = Some key" "key \<noteq> []"
      "hq_method rq \<in> set idempotent_methods" "hq_path rq \<notin> set excluded_paths" for rid key now now' rq
  proof -
    have "key \<in> st_in_flight (sy_store y)" using inv that(1) by (force simp: idem_inv_def)
    then have "start_request now key (sy_store y) = (True, cleanup_expired now (sy_store y))"
      by (simp add: start_request_def)
    with that show ?thesis by (simp add: dispatch_begin_def)
  qed
  with inv show ?thesis by (simp add: idem_inv_def)
qed

definition demo_http :: http_request where
  "demo_http = \<lparr>hq_method = ''POST'', hq_path = ''/orders'', hq_key = Some ''k1''\<rparr>"

definition demo_running :: idem_system where
  "demo_running = \<lparr>sy_store = (idem_init 3600)\<lparr>st_in_flight := {''k1''}\<rparr>, sy_running = [(1, ''k1'')]\<rparr>"

lemma demo_begin: "dispatch_begin 0 0 demo_http (idem_init 3600) = (Proceed ''k1'', (idem_init 3600)\<lparr>st_in_flight := {''k1''}\<rparr>)"
  by (simp add: dispatch_begin_def demo_http_def idempotent_methods_def excluded_paths_def start_request_def
      cleanup_expired_def idem_init_def get_cached_response_def)

lemma demo_running_reached: "0 \<le> t \<Longrightarrow> idem_steps t (idem_start 3600) demo_running"
  using steps_more [OF steps_none [of t "idem_start 3600"] arrive_started [where rid = 1 and y = "idem_start 3600" and t = t]] demo_begin
  by (simp add: demo_running_def idem_start_def)

theorem one_execution_per_key_witness:
  "fst (dispatch_begin 5 5 demo_http (sy_store demo_running)) = Reply conflict_response"
  using one_execution_per_key [OF demo_running_reached [of 0]]
  by (auto simp: demo_running_def demo_http_def idempotent_methods_def excluded_paths_def)

text \<open>
  Replay: after a handler has completed under a key with a status below 500, every later request
  with that key, of any writing method and on any path, is answered with the stored status and body,
  as long as the clock is within the window of the stored response, whatever other requests
  came in between; the handler does not run again.
\<close>

theorem replay_within_window:
  assumes "idem_steps t0 (idem_start window) y" "fl_repr (of_int window)" "(rid, key) \<in> set (sy_running y)"
    "hr_status response < 500" "dispatch_end ts key (Inr response) (sy_store y) = (res, s')"
    "idem_steps t (y\<lparr>sy_store := s', sy_running := remove1 (rid, key) (sy_running y)\<rparr>) y2"
    "t \<le> ts + of_int window" "key \<noteq> ''''" "hq_key rq = Some key" "hq_method rq \<in> set idempotent_methods"
    "hq_path rq \<notin> set excluded_paths" "now \<le> t" "now' \<le> t"
  shows "\<exists>r s''. dispatch_begin now now' rq (sy_store y2) = (Reply r, s'') \<and> hr_status r = hr_status response \<and>
    hr_body r = hr_body response \<and> dict_get (hr_headers r) ''Idempotency-Key-Status'' = Some ''replayed''"
proof -
  let ?y1 = "y\<lparr>sy_store := s', sy_running := remove1 (rid, key) (sy_running y)\<rparr>"
  let ?c = "\<lparr>cr_status = hr_status response, cr_body = hr_body response,
    cr_headers = cached_headers_of (hr_headers response), cr_timestamp = ts\<rparr>"
  have inv: "idem_inv y" using idem_steps_inv [OF assms(1) idem_start_inv] .
  have step: "idem_step ts y ?y1" using assms(3,5) by (rule completed) simp
  have inv1: "idem_inv ?y1" using step inv by (rule idem_step_inv)
  have w: "st_window_seconds (sy_store y) = window"
    using idem_steps_window [OF assms(1)] by (simp add: idem_start_def idem_init_def)
  have w1: "st_window_seconds s' = window" using end_cases [OF assms(5)] w by simp
  have "dict_get (st_store s') key = Some ?c"
    using assms(4,5) by (auto simp: dispatch_end_def store_response_def finish_request_def Let_def)
  then have c2: "dict_get (st_store (sy_store y2)) key = Some ?c" and w2: "st_window_seconds (sy_store y2) = window"
    using idem_steps_entry [OF assms(6) inv1, of key ?c] assms(2,7) w1 by simp_all
  have inv2: "idem_inv y2" using idem_steps_inv [OF assms(6) inv1] .
  then have nf: "key \<notin> st_in_flight (sy_store y2)" "dict_ok (st_store (sy_store y2))"
    using c2 by (force simp: idem_inv_def)+
  obtain dup s1 where one: "start_request now key (sy_store y2) = (dup, s1)" by force
  note st = start_request_cases [OF one assms(12)]
  have "dict_get (st_store s1) key = Some ?c"
    using only_drops_fresh [OF st(1) nf(2) _ c2] assms(2,7) w2 by simp
  moreover have "st_window_seconds s1 = window" using st(1) w2 by (simp add: only_drops_def)
  moreover have "\<not> expired now' window ?c" using assms(2,7,13) by (intro fresh_not_expired) simp_all
  ultimately have "get_cached_response now' key s1 = (Some ?c, s1)" by (simp add: get_cached_response_def)
  then show ?thesis
    using assms(8-11) one st(2) nf(1)
    by (simp add: dispatch_begin_def with_status_header_def)
qed

theorem replay_within_window_witness:
  "\<exists>r s''. dispatch_begin 100 100 \<lparr>hq_method = ''PUT'', hq_path = ''/transfers'', hq_key = Some ''k1''\<rparr>
       (snd (dispatch_end 7 ''k1'' (Inr \<lparr>hr_status = 302, hr_body = ''b'', hr_headers = []\<rparr>) (sy_store demo_running))) =
     (Reply r, s'') \<and> hr_status r = 302 \<and> hr_body r = ''b''"
proof -
  let ?fin = "dispatch_end 7 ''k1'' (Inr \<lparr>hr_status = 302, hr_body = ''b'', hr_headers = []\<rparr>) (sy_store demo_running)"
  have w: "fl_repr (of_int 3600)" using fl_repr_of_int [of 3600] by simp
  have run: "(1, ''k1'') \<in> set (sy_running demo_running)" by (simp add: demo_running_def)
  have ex: "dispatch_end 7 ''k1'' (Inr \<lparr>hr_status = 302, hr_body = ''b'', hr_headers = []\<rparr>) (sy_store demo_running) =
      (fst ?fin, snd ?fin)" by simp
  show ?thesis
    using replay_within_window [OF demo_running_reached [of 0] w run _ ex steps_none [of 100], of
        "\<lparr>hq_method = ''PUT'', hq_path = ''/transfers'', hq_key = Some ''k1''\<rparr>" 100 100]
    by (auto simp: idempotent_methods_def excluded_paths_def)
qed

text \<open>
  A failed request can be retried: when the handler raised or answered with a server error, its
  outcome is passed on unchanged, nothing is stored, and the next request with that key runs its
  handler.
\<close>

theorem failure_can_be_retried:
  assumes "idem_steps t (idem_start window) y" "(rid, key) \<in> set (sy_running y)" "key \<noteq> ''''"
    "case outcome of Inl e \<Rightarrow> True | Inr response \<Rightarrow> 500 \<le> hr_status response"
    "dispatch_end ts key outcome (sy_store y) = (res, s')"
    "hq_key rq = Some key" "hq_method rq \<in> set idempotent_methods" "hq_path rq \<notin> set excluded_paths"
  shows "res = outcome \<and> st_store s' = st_store (sy_store y) \<and>
    fst (dispatch_begin now now' rq s') = Proceed key"
proof -
  have inv: "idem_inv y" using idem_steps_inv [OF assms(1) idem_start_inv] .
  have none: "dict_get (st_store (sy_store y)) key = None" using inv assms(2) by (force simp: idem_inv_def)
  have out: "res = outcome" "s' = finish_request key (sy_store y)"
    using assms(4,5) by (auto simp: dispatch_end_def split: sum.splits)
  obtain dup s1 where one: "start_request now key s' = (dup, s1)" by force
  note st = start_request_cases [OF one order.refl]
  have "\<not> dup" using st(2) out by (simp add: finish_request_def)
  moreover have "dict_get (st_store s1) key = None"
    using only_drops_none [OF st(1)] none out by (simp add: finish_request_def)
  ultimately show ?thesis
    using out one assms(3,6-8) by (simp add: dispatch_begin_def get_cached_response_def finish_request_def)
qed

theorem failure_can_be_retried_witness:
  "fst (dispatch_begin 9 9 demo_http (snd (dispatch_end 7 ''k1'' (Inl (PyError ''OSError'')) (sy_store demo_running)))) = Proceed ''k1''"
proof -
  let ?fin = "dispatch_end 7 ''k1'' (Inl (PyError ''OSError'')) (sy_store demo_running)"
  have ex: "?fin = (fst ?fin, snd ?fin)" by simp
  have run: "(1, ''k1'') \<in> set (sy_running demo_running)" by (simp add: demo_running_def)
  show ?thesis
    using failure_can_be_retried [OF demo_running_reached [of 0] run _ _ ex, of demo_http 9 9]
    by (simp add: demo_http_def idempotent_methods_def excluded_paths_def)
qed

end
