(* ===== verification/Sliding_Window.thy ===== *)
theory Sliding_Window
  imports Contracts
begin

text \<open>
  Logs of time stamps that are pruned as the clock advances: the entries of the last \<open>window\<close>
  seconds, in the float arithmetic of the program, and the log of several keys together. The
  rate limiter and the login tracker share these lemmas.
\<close>

definition recent :: "int \<Rightarrow> float64 \<Rightarrow> float64 list \<Rightarrow> float64 list" where
  "recent window now ts = filter (\<lambda>t. fl (now - of_int window) < t) ts"

text \<open>Pruning early does not change a later window: cut-offs move with the clock, rounded or not.\<close>

lemma recent_recent: "now \<le> now' \<Longrightarrow> recent window now' (recent window now ts) = recent window now' ts"
proof -
  assume "now \<le> now'"
  then have "fl (now - of_int window) \<le> fl (now' - of_int window)" by (intro float.rnd_mono) simp
  then show ?thesis by (auto simp: recent_def intro!: filter_cong)
qed

lemma recent_Nil [simp]: "recent window now [] = []"
  by (simp add: recent_def)

lemma recent_append: "recent window now (ts @ us) = recent window now ts @ recent window now us"
  by (simp add: recent_def)

definition times_of :: "string \<Rightarrow> (float64 \<times> string) list \<Rightarrow> float64 list" where
  "times_of key adm = map fst (filter (\<lambda>(t, k). k = key) adm)"

lemma times_append [simp]: "times_of key (adm @ adm') = times_of key adm @ times_of key adm'"
  by (simp add: times_of_def)

lemma times_one [simp]: "times_of key [(t, k)] = (if k = key then [t] else [])"
  by (simp add: times_of_def)

end
