(* ===== verification/Rate_Limit.thy ===== *)
theory Rate_Limit
  imports Sliding_Window
begin

text \<open>
  Request rate limiting, \<open>services/api/middleware/rate_limit.py\<close>: the backend interface and its
  contract, the in-memory backend that provides it, the middleware's classification of requests,
  and the per-endpoint dependency \<open>rate_limit\<close>. The reference is a limiter that remembers every
  admitted request; the contract's client lemmas show that a backend which prunes its log decides
  the same way. Times are floats in seconds, with rounded differences. The Redis backend
  is not modelled here.
\<close>

section \<open>The backend contract\<close>

locale rate_limit_backend =
  fixes is_allowed :: "float64 \<Rightarrow> string \<Rightarrow> int \<Rightarrow> 's \<Rightarrow> (exn, bool \<times> int) result \<times> 's"
    and calls :: "'s \<Rightarrow> string \<Rightarrow> float64 list" and window :: int
  assumes admits: "int (length (recent window now (calls s key))) < limit \<Longrightarrow>
      \<exists>s'. is_allowed now key limit s = (Inr (True, 0), s') \<and>
        calls s' = (calls s)(key := recent window now (calls s key) @ [now])"
    and denies: "0 < limit \<Longrightarrow> limit \<le> int (length (recent window now (calls s key))) \<Longrightarrow>
      \<exists>retry s'. is_allowed now key limit s = (Inr (False, retry), s') \<and>
        calls s' = (calls s)(key := recent window now (calls s key))"

text \<open>A history of requests: time, key and limit. The limiter's decisions, and those of the reference
  limiter, which keeps the log of everything it admitted.\<close>

fun run_limiter ::
  "(float64 \<Rightarrow> string \<Rightarrow> int \<Rightarrow> 's \<Rightarrow> (exn, bool \<times> int) result \<times> 's) \<Rightarrow> (float64 \<times> string \<times> int) list \<Rightarrow> 's \<Rightarrow>
     (exn, bool) result list" where
  "run_limiter f [] s = []"
| "run_limiter f ((now, key, limit) # h) s =
     (case f now key limit s of (res, s') \<Rightarrow> bind_r res (\<lambda>(ok, retry). Inr ok) # run_limiter f h s')"

fun reference_limiter ::
  "int \<Rightarrow> (float64 \<times> string \<times> int) list \<Rightarrow> (float64 \<times> string) list \<Rightarrow> bool list" where
  "reference_limiter window [] adm = []"
| "reference_limiter window ((now, key, limit) # h) adm =
     (let ok = int (length (recent window now (times_of key adm))) < limit
      in ok # reference_limiter window h (if ok then adm @ [(now, key)] else adm))"

context rate_limit_backend
begin

lemma matches_reference:
  "sorted (map fst h) \<Longrightarrow> (\<forall>(now, key, limit) \<in> set h. 0 < limit) \<Longrightarrow>
   (\<forall>(now, key, limit) \<in> set h. \<forall>k. recent window now (calls s k) = recent window now (times_of k adm)) \<Longrightarrow>
     run_limiter is_allowed h s = map Inr (reference_limiter window h adm)"
proof (induction h arbitrary: s adm)
  case (Cons r h)
  obtain now key limit where r: "r = (now, key, limit)" by (metis prod_cases3)
  have later: "now \<le> now'" if "(now', key', limit') \<in> set h" for now' key' limit'
    using Cons.prems(1) that by (force simp: r)
  have same: "recent window now (calls s key) = recent window now (times_of key adm)"
    using Cons.prems(3) by (simp add: r)
  have keep: "recent window now' (if k = key then recent window now (calls s key) @ xs else calls s k) =
      recent window now' (times_of k (if xs = [] then adm else adm @ [(now, key)]))"
    if "(now', key', limit') \<in> set h" "xs = [] \<or> xs = [now]" for now' key' limit' k xs
  proof -
    have "recent window now' (calls s j) = recent window now' (times_of j adm)" for j
      using Cons.prems(3) that(1) by (force simp: r)
    then show ?thesis
      using that(2) recent_recent [OF later [OF that(1)]] by (auto simp: recent_append)
  qed
  show ?case
  proof (cases "int (length (recent window now (calls s key))) < limit")
    case True
    then obtain s' where s': "is_allowed now key limit s = (Inr (True, 0), s')"
        "calls s' = (calls s)(key := recent window now (calls s key) @ [now])"
      using admits by blast
    have "recent window now' (calls s' k) = recent window now' (times_of k (adm @ [(now, key)]))"
      if "(now', key', limit') \<in> set h" for now' key' limit' k
      using keep [OF that, of "[now]" k] by (simp add: s'(2) split: if_splits)
    then have "run_limiter is_allowed h s' = map Inr (reference_limiter window h (adm @ [(now, key)]))"
      by (intro Cons.IH) (use Cons.prems(1,2) in \<open>auto simp: r\<close>)
    with s'(1) True same show ?thesis by (simp add: r Let_def)
  next
    case False
    moreover have "0 < limit" using Cons.prems(2) by (simp add: r)
    ultimately obtain retry s' where s': "is_allowed now key limit s = (Inr (False, retry), s')"
        "calls s' = (calls s)(key := recent window now (calls s key))"
      using denies [of limit now s key] by auto
    have "recent window now' (calls s' k) = recent window now' (times_of k adm)"
      if "(now', key', limit') \<in> set h" for now' key' limit' k
      using keep [OF that, of "[]" k] by (simp add: s'(2) split: if_splits)
    then have "run_limiter is_allowed h s' = map Inr (reference_limiter window h adm)"
      by (intro Cons.IH) (use Cons.prems(1,2) in \<open>auto simp: r\<close>)
    with s'(1) False same show ?thesis by (simp add: r Let_def)
  qed
qed simp

end

section \<open>The in-memory backend\<close>

definition window_seconds :: int where "window_seconds = 60"

type_synonym memory_backend = "(string, float64 list) dict"

definition memory_calls :: "memory_backend \<Rightarrow> string \<Rightarrow> float64 list" where
  "memory_calls s key = (case dict_get s key of None \<Rightarrow> [] | Some ts \<Rightarrow> ts)"

text \<open>With a limit of zero or less the list may be empty, and its first element does not exist.\<close>

definition is_allowed ::
  "float64 \<Rightarrow> string \<Rightarrow> int \<Rightarrow> memory_backend \<Rightarrow> (exn, bool \<times> int) result \<times> memory_backend" where
  "is_allowed now key limit s =
     (let cutoff = fl (now - of_int window_seconds);
          calls = filter (\<lambda>t. cutoff < t) (memory_calls s key);
          s1 = dict_set key calls s
      in if limit \<le> int (length calls) then
           (case calls of
              [] \<Rightarrow> (Inl (PyError ''IndexError''), s1)
            | oldest # _ \<Rightarrow>
                (Inr (False, trunc (fl (of_int window_seconds - fl (now - oldest))) + 1), s1))
         else (Inr (True, 0), dict_set key (calls @ [now]) s1))"

interpretation memory: rate_limit_backend is_allowed memory_calls window_seconds
proof (unfold_locales, goal_cases)
  case (1 now s key limit)
  then show ?case by (auto simp: is_allowed_def Let_def recent_def memory_calls_def)
next
  case (2 limit now s key)
  then show ?case by (auto simp: is_allowed_def Let_def recent_def memory_calls_def split: list.splits)
qed

section \<open>The middleware\<close>

record rate_request =
  rr_method :: string
  rr_path :: string
  rr_client_host :: "string option"

record rate_limits =
  governance_limit :: int
  auth_limit :: int
  default_limit :: int

definition rl_excluded_paths :: "string list" where
  "rl_excluded_paths = [''/health'', ''/'', ''/docs'', ''/openapi.json'', ''/redoc'']"

definition governance_prefixes :: "string list" where
  "governance_prefixes = [''/overrides'', ''/approvals'', ''/promotions'']"

definition governance_methods :: "string list" where
  "governance_methods = [''POST'', ''PUT'', ''PATCH'']"

definition auth_prefixes :: "string list" where
  "auth_prefixes = [''/auth/token'']"

definition starts_with :: "string \<Rightarrow> string \<Rightarrow> bool" where
  "starts_with path p \<longleftrightarrow> take (length p) path = p"

definition classify :: "rate_limits \<Rightarrow> rate_request \<Rightarrow> string \<times> int" where
  "classify cfg rq =
     (let client_ip = (case rr_client_host rq of Some h \<Rightarrow> h | None \<Rightarrow> ''unknown'');
          path = rr_path rq;
          is_governance = (rr_method rq \<in> set governance_methods \<and> list_ex (starts_with path) governance_prefixes);
          is_auth = (rr_method rq = ''POST'' \<and> list_ex (starts_with path) auth_prefixes)
      in if is_auth then (client_ip @ '':auth'', auth_limit cfg)
         else if is_governance then (client_ip @ '':'' @ path, governance_limit cfg)
         else (client_ip @ '':default'', default_limit cfg))"

datatype rate_decision = CallNext | TooManyRequests int

definition rate_dispatch ::
  "rate_limits \<Rightarrow> float64 \<Rightarrow> rate_request \<Rightarrow> memory_backend \<Rightarrow> (exn, rate_decision) result \<times> memory_backend" where
  "rate_dispatch cfg now rq s =
     (if rr_method rq = ''OPTIONS'' \<or> rr_path rq \<in> set rl_excluded_paths then (Inr CallNext, s)
      else
        (case classify cfg rq of (key, limit) \<Rightarrow>
           (case is_allowed now key limit s of
              (Inl e, s') \<Rightarrow> (Inl e, s')
            | (Inr (allowed, retry_after), s') \<Rightarrow>
                (Inr (if allowed then CallNext else TooManyRequests retry_after), s'))))"

text \<open>The dependency of single endpoints. \<open>decode\<close> is the token library: it fails or yields the
  \<open>sub\<close> claim, if any.\<close>

definition dependency_key :: "(string \<Rightarrow> (exn, string option) result) \<Rightarrow> string \<Rightarrow> string \<Rightarrow> string" where
  "dependency_key decode scope auth_header =
     (let user_id =
            (if starts_with auth_header ''Bearer '' then
               (case decode (drop 7 auth_header) of Inr (Some sub) \<Rightarrow> sub | _ \<Rightarrow> ''unknown'')
             else ''unknown'')
      in if scope \<noteq> '''' then user_id @ '':'' @ scope else user_id @ '':default'')"

definition rate_limit_check ::
  "(string \<Rightarrow> (exn, string option) result) \<Rightarrow> int \<Rightarrow> int \<Rightarrow> string \<Rightarrow> float64 \<Rightarrow> string \<Rightarrow> memory_backend \<Rightarrow>
     (exn, unit) result \<times> memory_backend" where
  "rate_limit_check decode max_requests window scope now auth_header s =
     (case is_allowed now (dependency_key decode scope auth_header) max_requests s of
        (Inl e, s') \<Rightarrow> (Inl e, s')
      | (Inr (allowed, retry_after), s') \<Rightarrow>
          if \<not> allowed then (Inl (RateLimitExceededError retry_after scope max_requests window), s')
          else (Inr (), s'))"

section \<open>Properties\<close>

text \<open>
  The in-memory limiter, which forgets requests outside the window, decides every request of
  every history exactly as the reference limiter that remembers them all, for any mix of keys and
  any positive limits, with a clock that does not run backwards. No request of such a history
  raises.
\<close>

theorem limiter_matches_reference:
  assumes "sorted (map fst h)" "\<forall>(now, key, limit) \<in> set h. 0 < limit"
  shows "run_limiter is_allowed h [] = map Inr (reference_limiter 60 h [])"
  using memory.matches_reference [of h "[]" "[]"] assms
  by (simp add: memory_calls_def window_seconds_def times_of_def split_def)

theorem limiter_matches_reference_witness:
  "run_limiter is_allowed [(1, ''k'', 1), (2, ''k'', 1), (2, ''j'', 1)] [] =
     map Inr (reference_limiter 60 [(1, ''k'', 1), (2, ''k'', 1), (2, ''j'', 1)] [])"
  using limiter_matches_reference [of "[(1, ''k'', 1), (2, ''k'', 1), (2, ''j'', 1)]"] by simp

text \<open>The requests under a key that a list of decisions admits.\<close>

fun admitted :: "string \<Rightarrow> (float64 \<times> string \<times> int) list \<Rightarrow> bool list \<Rightarrow> float64 list" where
  "admitted key ((now, k, limit) # h) (ok # oks) =
     (if k = key \<and> ok then now # admitted key h oks else admitted key h oks)"
| "admitted key _ _ = []"

lemma reference_bound:
  "(\<forall>(now, k, l) \<in> set h. k = key \<longrightarrow> l = limit) \<Longrightarrow>
   admitted key h (reference_limiter window h adm) = xs @ t # ys \<Longrightarrow>
     int (length (recent window t (times_of key adm @ xs))) < limit"
proof (induction h arbitrary: adm xs)
  case (Cons r h)
  obtain now k l where r: "r = (now, k, l)" by (metis prod_cases3)
  let ?ok = "int (length (recent window now (times_of k adm))) < l"
  let ?adm = "if ?ok then adm @ [(now, k)] else adm"
  have IH: "admitted key h (reference_limiter window h ?adm) = xs' @ t # ys \<Longrightarrow>
      int (length (recent window t (times_of key ?adm @ xs'))) < limit" for xs'
    using Cons.IH Cons.prems(1) by auto
  show ?case
  proof (cases "k = key \<and> ?ok")
    case False
    then have "times_of key ?adm = times_of key adm" by auto
    with False IH [of xs] Cons.prems(2) show ?thesis by (simp add: r Let_def split: if_splits)
  next
    case True
    then have a: "?adm = adm @ [(now, key)]" by auto
    have adm': "now # admitted key h (reference_limiter window h (adm @ [(now, key)])) = xs @ t # ys"
      using Cons.prems(2) True by (auto simp: r Let_def)
    show ?thesis
    proof (cases xs)
      case Nil
      with adm' have "t = now" by simp
      with Nil True Cons.prems(1) show ?thesis by (auto simp: r)
    next
      case (Cons x xs')
      with adm' have "x = now" "admitted key h (reference_limiter window h (adm @ [(now, key)])) = xs' @ t # ys"
        by auto
      with IH [of xs', unfolded a] Cons show ?thesis by simp
    qed
  qed
qed simp

text \<open>
  The rate limit holds: when a key always has the same limit, then at every admitted request
  under it, fewer than that many earlier admitted requests lie within its window; so at most
  \<open>limit\<close> requests per key are admitted in a window of 60 seconds.
\<close>

theorem at_most_limit_per_window:
  assumes "sorted (map fst h)" "\<forall>(now, k, l) \<in> set h. 0 < l" "\<forall>(now, k, l) \<in> set h. k = key \<longrightarrow> l = limit"
    "run_limiter is_allowed h [] = map Inr oks" "admitted key h oks = xs @ t # ys"
  shows "int (length (recent 60 t xs)) + 1 \<le> limit"
proof -
  have "map Inr oks = (map Inr (reference_limiter 60 h []) :: (exn, bool) result list)"
    using memory.matches_reference [of h "[]" "[]"] assms(1,2,4)
    by (simp add: memory_calls_def window_seconds_def times_of_def split_def)
  then have "oks = reference_limiter 60 h []" by (simp add: inj_map_eq_map)
  then show ?thesis
    using reference_bound [OF assms(3), of 60 "[]" xs t ys] assms(5) by (simp add: times_of_def)
qed

theorem at_most_limit_per_window_witness:
  "run_limiter is_allowed [(1, ''k'', 2), (2, ''k'', 2)] [] = map Inr [True, True] \<and>
   int (length (recent 60 2 [1])) + 1 \<le> 2"
proof -
  have "reference_limiter 60 [(1, ''k'', 2), (2, ''k'', 2)] [] = [True, True]"
    by (simp add: times_of_def recent_def)
  then have run: "run_limiter is_allowed [(1, ''k'', 2), (2, ''k'', 2)] [] = map Inr [True, True]"
    using memory.matches_reference [of "[(1, ''k'', 2), (2, ''k'', 2)]" "[]" "[]"]
    by (simp add: memory_calls_def window_seconds_def times_of_def)
  show ?thesis
    using run at_most_limit_per_window [OF _ _ _ run, of "''k''" 2 "[1]" 2 "[]"] by simp
qed

text \<open>
  The window that an endpoint asks for is not the one it gets: whatever the window, requests
  that are older than 60 seconds do not count, so a request is admitted although any number of
  requests, more than the limit, were admitted within the window. (The endpoint that sets risk
  limits asks for 10 requests per 3600 seconds and gets 10 per 60.)
\<close>

theorem dependency_window_ignored:
  assumes "0 < limit" "\<forall>t \<in> set (memory_calls s (dependency_key decode scope auth)). t \<le> fl (now - 60)"
  shows "fst (rate_limit_check decode limit window scope now auth s) = Inr ()"
proof -
  have "recent window_seconds now (memory_calls s (dependency_key decode scope auth)) = []"
    using assms(2) by (auto simp: recent_def window_seconds_def filter_empty_conv not_less)
  then obtain s' where "is_allowed now (dependency_key decode scope auth) limit s = (Inr (True, 0), s')"
    using memory.admits [of now s "dependency_key decode scope auth" limit] assms(1) by auto
  then show ?thesis by (simp add: rate_limit_check_def)
qed

theorem dependency_window_ignored_witness:
  "fst (rate_limit_check (\<lambda>_. Inr (Some ''u'')) 10 3600 ''risk_setting'' 61 ''Bearer x''
     [(''u:risk_setting'', replicate 10 1)]) = Inr ()"
proof -
  have "fl (of_int 1) = of_int 1" by (rule fl_of_int) simp
  then have one: "fl 1 = 1" by simp
  have key: "dependency_key (\<lambda>_. Inr (Some ''u'')) ''risk_setting'' ''Bearer x'' = ''u:risk_setting''"
    by (simp add: dependency_key_def starts_with_def)
  show ?thesis
    by (rule dependency_window_ignored) (simp_all add: key memory_calls_def one)
qed

text \<open>A limit of zero does not deny politely: the first request under a key raises \<open>IndexError\<close>.\<close>

lemma zero_limit_raises:
  "memory_calls s key = [] \<Longrightarrow> fst (is_allowed now key 0 s) = Inl (PyError ''IndexError'')"
  by (simp add: is_allowed_def Let_def)

lemma starts_with_append: "starts_with path p \<longleftrightarrow> (\<exists>q. path = p @ q)"
  unfolding starts_with_def by (metis append_eq_conv_conj append_take_drop_id)

lemma governance_not_auth:
  "list_ex (starts_with path) governance_prefixes \<Longrightarrow> \<not> list_ex (starts_with path) auth_prefixes"
  by (auto simp: governance_prefixes_def auth_prefixes_def starts_with_append)

text \<open>The budget of governance requests is per path and not per client: requests of one client to
  two different governance paths are counted under different keys.\<close>

lemma governance_budget_per_path:
  assumes "rr_method rq \<in> set governance_methods" "list_ex (starts_with (rr_path rq)) governance_prefixes"
    "rr_path rq \<noteq> rr_path rq'" "rr_method rq' = rr_method rq" "rr_client_host rq' = rr_client_host rq"
    "list_ex (starts_with (rr_path rq')) governance_prefixes"
  shows "fst (classify cfg rq) \<noteq> fst (classify cfg rq')"
  using assms governance_not_auth by (simp add: classify_def Let_def)

end
