(* ===== verification/Login_Tracker.thy ===== *)
theory Login_Tracker
  imports Sliding_Window
begin

text \<open>
  The lockout after failed logins, \<open>services/api/services/login_attempt_tracker.py\<close>: a log of failure
  times per account, pruned to the window whenever it is read. Clock readings are arguments; an
  operation that reads the clock twice takes two.
\<close>

section \<open>The tracker\<close>

record login_tracker =
  lt_max_attempts :: int
  lt_window_seconds :: int
  lt_store :: "(string, float64 list) dict"

definition login_init :: "int \<Rightarrow> int \<Rightarrow> login_tracker" where
  "login_init max_attempts window_seconds =
     \<lparr>lt_max_attempts = max_attempts, lt_window_seconds = window_seconds, lt_store = []\<rparr>"

definition prune :: "float64 \<Rightarrow> string \<Rightarrow> login_tracker \<Rightarrow> float64 list \<times> login_tracker" where
  "prune now email s =
     (let cutoff = fl (now - of_int (lt_window_seconds s));
          timestamps = (case dict_get (lt_store s) email of None \<Rightarrow> [] | Some ts \<Rightarrow> ts);
          valid = filter (\<lambda>t. cutoff < t) timestamps
      in (valid,
          s\<lparr>lt_store := (if valid \<noteq> [] then dict_set email valid (lt_store s)
                         else if dict_has (lt_store s) email then dict_del email (lt_store s)
                         else lt_store s)\<rparr>))"

definition record_failure :: "float64 \<Rightarrow> float64 \<Rightarrow> string \<Rightarrow> login_tracker \<Rightarrow> login_tracker" where
  "record_failure now now' email s =
     (let s1 = snd (prune now email s);
          s2 = (if dict_has (lt_store s1) email then s1 else s1\<lparr>lt_store := dict_set email [] (lt_store s1)\<rparr>);
          ts = (case dict_get (lt_store s2) email of None \<Rightarrow> [] | Some ts \<Rightarrow> ts)
      in s2\<lparr>lt_store := dict_set email (ts @ [now']) (lt_store s2)\<rparr>)"

definition record_success :: "string \<Rightarrow> login_tracker \<Rightarrow> login_tracker" where
  "record_success email s =
     (if dict_has (lt_store s) email then s\<lparr>lt_store := dict_del email (lt_store s)\<rparr> else s)"

definition is_locked :: "float64 \<Rightarrow> string \<Rightarrow> login_tracker \<Rightarrow> bool \<times> login_tracker" where
  "is_locked now email s =
     (case prune now email s of (valid, s') \<Rightarrow> (lt_max_attempts s \<le> int (length valid), s'))"

text \<open>With a limit of zero or less an account without failures has no oldest failure.\<close>

definition retry_after :: "float64 \<Rightarrow> float64 \<Rightarrow> string \<Rightarrow> login_tracker \<Rightarrow> (exn, int) result \<times> login_tracker" where
  "retry_after now now' email s =
     (case prune now email s of (valid, s') \<Rightarrow>
        (if int (length valid) < lt_max_attempts s then Inr 0
         else
           (case valid of
              [] \<Rightarrow> Inl (PyError ''IndexError'')
            | oldest # _ \<Rightarrow>
                let remaining = fl (of_int (lt_window_seconds s) - fl (now' - oldest))
                in Inr (max 1 (trunc remaining + 1))), s'))"

section \<open>Histories and the reference\<close>

datatype login_event = Failure float64 float64 string | Success string | Query float64 string

fun run_tracker :: "login_event list \<Rightarrow> login_tracker \<Rightarrow> bool list" where
  "run_tracker [] s = []"
| "run_tracker (Failure now now' email # h) s = run_tracker h (record_failure now now' email s)"
| "run_tracker (Success email # h) s = run_tracker h (record_success email s)"
| "run_tracker (Query now email # h) s =
     (case is_locked now email s of (locked, s') \<Rightarrow> locked # run_tracker h s')"

text \<open>The reference keeps every failure since the last success of the account.\<close>

fun reference_tracker :: "int \<Rightarrow> int \<Rightarrow> login_event list \<Rightarrow> (float64 \<times> string) list \<Rightarrow> bool list" where
  "reference_tracker m w [] fs = []"
| "reference_tracker m w (Failure now now' email # h) fs = reference_tracker m w h (fs @ [(now', email)])"
| "reference_tracker m w (Success email # h) fs =
     reference_tracker m w h (filter (\<lambda>(t, e). e \<noteq> email) fs)"
| "reference_tracker m w (Query now email # h) fs =
     (m \<le> int (length (recent w now (times_of email fs)))) # reference_tracker m w h fs"

fun readings :: "login_event \<Rightarrow> float64 list" where
  "readings (Failure now now' email) = [now, now']"
| "readings (Success email) = []"
| "readings (Query now email) = [now]"

definition failures :: "login_tracker \<Rightarrow> string \<Rightarrow> float64 list" where
  "failures s email = (case dict_get (lt_store s) email of None \<Rightarrow> [] | Some ts \<Rightarrow> ts)"

lemma prune_eq:
  "fst (prune now email s) = recent (lt_window_seconds s) now (failures s email)"
  "failures (snd (prune now email s)) = (failures s)(email := recent (lt_window_seconds s) now (failures s email))"
  "lt_window_seconds (snd (prune now email s)) = lt_window_seconds s"
  "lt_max_attempts (snd (prune now email s)) = lt_max_attempts s"
  by (auto simp: prune_def Let_def recent_def failures_def fun_eq_iff split: option.splits)

lemma record_failure_eq:
  "failures (record_failure now now' email s) =
     (failures s)(email := recent (lt_window_seconds s) now (failures s email) @ [now'])"
  "lt_window_seconds (record_failure now now' email s) = lt_window_seconds s"
  "lt_max_attempts (record_failure now now' email s) = lt_max_attempts s"
proof -
  let ?s = "snd (prune now email s)"
  have "failures (record_failure now now' email s) = (failures ?s)(email := failures ?s email @ [now'])"
    by (auto simp: record_failure_def Let_def failures_def fun_eq_iff split: option.splits)
  then show "failures (record_failure now now' email s) =
      (failures s)(email := recent (lt_window_seconds s) now (failures s email) @ [now'])"
    by (simp add: prune_eq)
  show "lt_window_seconds (record_failure now now' email s) = lt_window_seconds s"
    "lt_max_attempts (record_failure now now' email s) = lt_max_attempts s"
    by (simp_all add: record_failure_def Let_def prune_eq)
qed

lemma record_success_eq:
  "failures (record_success email s) = (failures s)(email := [])"
  "lt_window_seconds (record_success email s) = lt_window_seconds s"
  "lt_max_attempts (record_success email s) = lt_max_attempts s"
  by (auto simp: record_success_def failures_def fun_eq_iff split: option.splits)

lemma times_of_filter: "times_of k (filter (\<lambda>(t, e). e \<noteq> email) fs) = (if k = email then [] else times_of k fs)"
  by (induction fs) (auto simp: times_of_def)

lemma tracker_matches:
  "sorted (concat (map readings h)) \<Longrightarrow>
   (\<forall>now \<in> set (concat (map readings h)). \<forall>k.
      recent (lt_window_seconds s) now (failures s k) = recent (lt_window_seconds s) now (times_of k fs)) \<Longrightarrow>
     run_tracker h s = reference_tracker (lt_max_attempts s) (lt_window_seconds s) h fs"
proof (induction h arbitrary: s fs)
  case (Cons ev h)
  show ?case
  proof (cases ev)
    case (Failure now now' email)
    have "\<forall>u \<in> set (concat (map readings h)). now \<le> u" using Cons.prems(1) by (auto simp: Failure)
    then show ?thesis
      unfolding Failure using Cons.prems recent_recent [of now]
      by (simp add: Failure) (subst Cons.IH [of _ "fs @ [(now', email)]"]; auto simp: record_failure_eq recent_append)
  next
    case (Success email)
    have "run_tracker h (record_success email s) = reference_tracker (lt_max_attempts s) (lt_window_seconds s) h
        (filter (\<lambda>(t, e). e \<noteq> email) fs)"
      by (subst Cons.IH [of _ "filter (\<lambda>(t, e). e \<noteq> email) fs"])
        (use Cons.prems in \<open>auto simp: Success record_success_eq times_of_filter\<close>)
    then show ?thesis by (simp add: Success)
  next
    case (Query now email)
    have later: "\<forall>u \<in> set (concat (map readings h)). now \<le> u" using Cons.prems(1) by (auto simp: Query)
    have "run_tracker h (snd (prune now email s)) = reference_tracker (lt_max_attempts s) (lt_window_seconds s) h fs"
      by (subst Cons.IH [of _ fs])
        (use Cons.prems later recent_recent [of now] in \<open>auto simp: Query prune_eq\<close>)
    then show ?thesis
      using Cons.prems(2) by (simp add: Query is_locked_def prune_eq split_def)
  qed
qed simp

section \<open>Properties\<close>

text \<open>
  The lockout is exact: over every history of failures, successes and queries, an account is
  reported locked exactly when at least \<open>max_attempts\<close> failures since its last successful login
  lie within the window; pruning never changes an answer, and accounts do not influence each
  other.
\<close>

theorem lockout_exact:
  assumes "sorted (concat (map readings h))"
  shows "run_tracker h (login_init m w) = reference_tracker m w h []"
  using tracker_matches [OF assms, of "login_init m w" "[]"]
  by (simp add: login_init_def failures_def times_of_def)

theorem lockout_exact_witness:
  "run_tracker [Failure 1 1 ''a'', Failure 2 2 ''a'', Query 3 ''a'', Success ''a'', Query 4 ''a''] (login_init 2 900) =
     reference_tracker 2 900 [Failure 1 1 ''a'', Failure 2 2 ''a'', Query 3 ''a'', Success ''a'', Query 4 ''a''] []"
  using lockout_exact [of "[Failure 1 1 ''a'', Failure 2 2 ''a'', Query 3 ''a'', Success ''a'', Query 4 ''a'']" 2 900]
  by simp

lemma less_trunc_Suc: "x < of_int (trunc x + 1)"
proof -
  have "x \<le> of_int \<lceil>x\<rceil>" by (rule le_of_int_ceiling)
  moreover have "x < of_int \<lfloor>x\<rfloor> + 1" by linarith
  ultimately show ?thesis by (cases "0 \<le> x") (simp_all add: trunc_def, linarith)
qed

text \<open>
  The announced delay is enough: when an account with no more failures than the limit in its
  window is locked, \<open>retry_after\<close> is at least one second, and once that many seconds have passed
  without another failure the account is open again, whatever rounding the clock arithmetic does.
\<close>

theorem retry_after_suffices:
  assumes "retry_after now now' email s = (Inr r, s')" "lt_max_attempts s = int (length (fst (prune now email s)))"
    "0 < lt_max_attempts s" "\<forall>t \<in> set (failures s email). fl_repr t" "now' + of_int r \<le> now2"
    "\<bar>r\<bar> \<le> 2 ^ 52" "\<bar>lt_window_seconds s\<bar> \<le> 2 ^ 52"
  shows "1 \<le> r \<and> \<not> fst (is_locked now2 email s')"
proof -
  let ?w = "lt_window_seconds s"
  have valid: "fst (prune now email s) = recent ?w now (failures s email)" by (rule prune_eq(1))
  have ne: "recent ?w now (failures s email) \<noteq> []" using assms(2,3) valid by auto
  define oldest where "oldest = hd (recent ?w now (failures s email))"
  have r: "r = max 1 (trunc (fl (of_int ?w - fl (now' - oldest))) + 1)" and s': "s' = snd (prune now email s)"
    using assms(1,2) ne valid
    by (auto simp: retry_after_def oldest_def Let_def split: prod.splits if_splits list.splits)
  have repr_r: "fl_repr (of_int r)" using assms(6) by (intro fl_repr_of_int) simp
  have repr_d: "fl_repr (of_int (?w - r))" by (rule fl_repr_of_int) (use assms(6,7) in simp)
  have mem: "oldest \<in> set (failures s email)"
    using hd_in_set [OF ne] by (auto simp: oldest_def recent_def)
  have "fl (of_int ?w - fl (now' - oldest)) < of_int r"
    using less_trunc_Suc [of "fl (of_int ?w - fl (now' - oldest))"] r
    by (meson less_le_trans max.cobounded2 of_int_le_iff)
  then have "of_int ?w - fl (now' - oldest) < of_int r" using repr_r by (rule float.rnd_less_repr [rotated])
  then have "of_int (?w - r) < fl (now' - oldest)" by simp
  then have "of_int (?w - r) < now' - oldest" using repr_d by (rule float.rnd_greater_repr [rotated])
  then have "oldest \<le> now2 - of_int ?w" using assms(5) by simp
  then have gone: "oldest \<le> fl (now2 - of_int ?w)"
    using assms(4) mem by (intro float.rnd_ge_repr) auto
  let ?valid = "recent ?w now (failures s email)"
  have "?valid = oldest # tl ?valid" using ne by (simp add: oldest_def)
  then have "recent ?w now2 ?valid = recent ?w now2 (tl ?valid)"
    using gone by (metis recent_def filter.simps(2) linorder_not_le)
  then have "length (recent ?w now2 ?valid) < length ?valid"
    using ne by (metis recent_def diff_less length_0_conv length_filter_le length_greater_0_conv length_tl
        less_one order_le_less_trans zero_less_one)
  then have "\<not> fst (is_locked now2 email s')"
    using assms(2) valid by (simp add: is_locked_def s' prune_eq split_def)
  moreover have "1 \<le> r" by (simp add: r)
  ultimately show ?thesis by simp
qed

definition demo_locked :: login_tracker where
  "demo_locked = \<lparr>lt_max_attempts = 1, lt_window_seconds = 900, lt_store = [(''a'', [10])]\<rparr>"

theorem retry_after_suffices_witness:
  "fst (retry_after 20 20 ''a'' demo_locked) = Inr 891 \<and>
   \<not> fst (is_locked 911 ''a'' (snd (retry_after 20 20 ''a'' demo_locked)))"
proof -
  have fls: "fl (- 880) = - 880" "fl 10 = 10" "fl 890 = 890"
    using fl_of_int [of "- 880"] fl_of_int [of 10] fl_of_int [of 890] by simp_all
  have ra: "retry_after 20 20 ''a'' demo_locked = (Inr 891, demo_locked)"
    by (simp add: retry_after_def prune_def demo_locked_def fls trunc_def Let_def)
  have "fl_repr 10" using fl_repr_of_int [of 10] by simp
  then have "\<forall>t \<in> set (failures demo_locked ''a''). fl_repr t" by (simp add: failures_def demo_locked_def)
  moreover have "lt_max_attempts demo_locked = int (length (fst (prune 20 ''a'' demo_locked)))"
    by (simp add: prune_def demo_locked_def fls Let_def)
  ultimately show ?thesis
    using retry_after_suffices [OF ra, of 911] ra by (simp add: demo_locked_def)
qed

end
