(* ===== verification/Spec2Isabelle.thy ===== *)
theory Spec2Isabelle
  imports Circuit_Breaker Dsl_Grammar Paper_Broker Risk_Gate Kill_Switch_Venues Order_Recovery Reconciliation
    Partial_Fill_Monitor Run_Pool Synthetic_Market Paper_Execution Shadow_Execution Resilient_Adapter Drills Execution_Loop
    Governance Idempotency Rate_Limit Login_Tracker
begin

text \<open>
  FXLab is a platform for researching, deploying and running trading strategies: an HTTP API
  (\<open>services/api\<close>), shared contracts (\<open>libs/contracts\<close>), broker adapters, a strategy compiler and
  workers. This library models the parts that decide whether an order may be placed, what happens
  to it, and how the services behave under failure and repetition. Paths below are under \<open>src/\<close>.

  \<^bold>\<open>How the parts interact.\<close> A request enters through the middleware (rate limit, idempotency); a login
  passes the attempt tracker. A strategy's entry and exit conditions are checked by the DSL
  validator. A deployment is created and moved through its lifecycle by the deployment service on a
  deployment repository. An order of a deployment passes the risk gate, which reads the limits from
  that repository and writes audit events. The live execution service puts the deployment's state, the
  kill switch, the idempotency lookup and the gate in front of a broker adapter, and commits the
  order before the broker sees it; after a crash the recovery service compares the open orders with
  the broker's, the partial fill monitor does so for orders that stay partially filled, and
  reconciliation reports the differences. A strategy in the intermediate representation has its names
  resolved and its lookback buffers planned, is compiled, and then turns each bar into at most one signal.
  A backtest feeds it with the bars of the synthetic market, turns its signals into orders of the
  backtest's own broker and the fills into a trade log and metrics. A user starts backtests as research runs:
  the service records the run and executes it at once or hands it to a pool of worker threads, and the
  user may cancel it meanwhile. The paper execution service puts the risk gate in front of the paper
  broker, and the shadow execution service in front of the shadow broker, which only keeps the books; these two
  adapters are modelled themselves, and any adapter can be wrapped in a circuit breaker. The execution loop feeds
  a signal strategy with bars and indicators, has its signals evaluated (data quality, kill switch, duplicates, risk
  gate, position sizing, value at risk) and submits the approved ones. Before a deployment goes live it is drilled.
  Overrides and approvals of candidates need a second person, which the governance service checks.

  \<^bold>\<open>Theories and what they model.\<close>
  \<^item> \<open>Prelude\<close>: results of fallible code as sums (\<open>bind_r\<close>), Python dictionaries as association lists
    in insertion order, the collection of preservation lemmas.
  \<^item> \<open>Numerics\<close>: \<open>Decimal\<close> (28 digits) and \<open>float\<close> (53 bits) as rationals with a rounding after each
    operation. The locale \<open>rounding\<close> (monotone, odd, exact on representable numbers) is interpreted
    for both, and all arithmetic lemmas of the components rest on it.
  \<^item> \<open>Contracts\<close>: the exceptions of \<open>libs/contracts/errors.py\<close> and the schemas of
    \<open>libs/contracts/execution.py\<close>.
  \<^item> \<open>Circuit_Breaker\<close>: \<open>services/api/infrastructure/circuit_breaker.py\<close>, calls in the three
    states, reset, metrics, persistence to Redis write by write, restart. Lemmas: invariant over all
    histories, the exact trip threshold, failing fast, recovery, restart; two breakers that never
    recover.
  \<^item> \<open>Dsl_Lexer\<close>, \<open>Dsl_Parser\<close>, \<open>Dsl_Grammar\<close>: \<open>services/api/services/dsl_validator.py\<close>. The lexer is
    a function with a measure. The recursive descent parser takes fuel; \<open>parse_fuel\<close> is six steps
    per remaining token plus five, since each token is consumed after at most six nested calls, and
    \<open>returns_all\<close> proves that this is enough for every token list, so \<open>validate_dsl\<close> is total. The
    grammar of the parser's comment is an inductive attribute grammar, and the validator accepts
    exactly its sentences.
  \<^item> \<open>Broker_Interface\<close>, \<open>Paper_Broker\<close>: the contract of
    \<open>libs/contracts/interfaces/broker_adapter.py\<close> as the locale \<open>order_intake\<close> (idempotent submission) and its
    extension \<open>broker_adapter\<close> (cancellation), and \<open>libs/broker/paper_broker_adapter.py\<close>, which interprets both. Lemmas: invariant over all histories,
    final states, idempotent submission and cancellation, exact fills and progress of ticks for whole
    quantities; four ways in which the bookkeeping goes wrong.
  \<^item> \<open>Deployment_Repository\<close>, \<open>Deployment_Service\<close>: the states and the transition map of
    \<open>libs/contracts/deployment.py\<close>, the repository interface as a record of operations with the
    contract \<open>deployment_repository\<close>, the in-memory repository
    (\<open>libs/contracts/mocks/mock_deployment_repository.py\<close>) that interprets it, and
    \<open>services/api/services/deployment_service.py\<close> over any repository. The specification is a path
    through the transition map.
  \<^item> \<open>Risk_Gate\<close>: \<open>services/api/services/risk_gate_service.py\<close> and \<open>libs/contracts/risk.py\<close>, over any
    deployment repository and any risk event repository (contract \<open>risk_event_repository\<close>,
    interpreted on \<open>libs/contracts/mocks/mock_risk_event_repository.py\<close>). Lemmas: what the gate
    admits, failing closed, the audit trail, limits that are written and read; gaps.
  \<^item> \<open>Adapters\<close>: the broker adapters and the host as records of operations on one state of the
    world outside, and \<open>services/api/infrastructure/broker_registry.py\<close>.
  \<^item> \<open>Kill_Switch_Repository\<close>, \<open>Kill_Switch\<close>, \<open>Kill_Switch_Venues\<close>:
    \<open>services/api/services/kill_switch_service.py\<close>, \<open>libs/contracts/safety.py\<close> and
    \<open>libs/contracts/mocks/mock_kill_switch_event_repository.py\<close>. The repository's contract is the
    locale \<open>kill_switch_event_repository\<close>. The adapters may raise, change anything and answer
    differently every time; what a broker promises even then is the locale \<open>order_venues\<close>, extended
    to \<open>reachable_venues\<close> for brokers whose calls succeed, and interpreted on a world of paper brokers
    that are ticked while the service sleeps. Loops are bounded by the numbers of the code: three
    attempts, ten polls, one poll per second of the timeout. Lemmas: what is halted, which orders are
    ended, what the reports account for; a halt that is lost.
  \<^item> \<open>Order_Store\<close>: orders and execution events. The interfaces of order repository, event repository
    and transaction manager (\<open>libs/contracts/interfaces\<close>) have the contract \<open>order_store\<close>, which speaks
    of what a session sees and of what survives a crash; it is interpreted on
    \<open>services/api/repositories/sql_order_repository.py\<close>, \<open>sql_execution_event_repository.py\<close> and
    \<open>sql_transaction_manager.py\<close>, modelled as a session with commit and rollback.
  \<^item> \<open>Live_Execution\<close>: \<open>services/api/services/live_execution_service.py\<close>, over any order store (locale
    \<open>live_store\<close>), kill switch repository, deployment repository, adapters and clock. A history may
    crash at any moment, in particular between the call of the broker and its answer. Lemmas: what
    has been checked and committed before a broker is called, at most one call per client identifier;
    a cache that mixes the accounts of deployments.
  \<^item> \<open>Order_Recovery\<close>: \<open>services/api/services/orphaned_order_recovery_service.py\<close> and the phase of
    \<open>services/api/main.py\<close> that runs it at start-up (locale \<open>recovery_store\<close>). Lemmas: only orphans are
    changed; three ways in which the recovery is lost or wrong.
  \<^item> \<open>Order_Session\<close>, \<open>Partial_Fill_Monitor\<close>: what a sequence of updates in one session may change, shared by
    recovery and monitor; \<open>services/api/services/partial_fill_monitor_service.py\<close> (locale \<open>monitor_store\<close>).
    Lemmas: only partially filled orders are changed; the monitor cannot work with the registry.
  \<^item> \<open>Reconciliation\<close>: \<open>services/api/services/reconciliation_service.py\<close>, its reports and their repository,
    and a tick of \<open>services/api/infrastructure/periodic_reconciliation_job.py\<close>. Lemmas: a report is clean
    exactly when the books agree in what is compared.
  \<^item> \<open>Strategy_IR\<close>, \<open>Topological_Sort\<close>, \<open>Reference_Resolver\<close>, \<open>Lookback\<close>: the conditions, expressions and
    indicators of \<open>libs/contracts/strategy_ir.py\<close>, \<open>libs/strategy_ir/reference_resolver.py\<close> and
    \<open>libs/strategy_ir/lookback.py\<close>. Kahn's loop needs no fuel: it terminates by the sum of the positive
    in-degrees and the length of the queue. Lemmas: which strategies are accepted, that the order respects
    the dependencies, that every reference to an earlier bar is served.
  \<^item> \<open>Float64\<close>, \<open>Market_Data\<close>: floats with NaN and infinities, where every operation rounds, and the candles of
    \<open>libs/contracts/market_data.py\<close>.
  \<^item> \<open>Expressions\<close>, \<open>Cross_Timeframe\<close>, \<open>Strategy_Compiler\<close>, \<open>Compiled_Strategy\<close>, \<open>Strategy_Runs\<close>:
    \<open>libs/strategy_ir/compiler.py\<close> and \<open>libs/strategy_ir/formula_evaluator.py\<close>. The closures that the compiler builds are
    values of datatypes (\<open>value_fn\<close>, \<open>cond_fn\<close>, \<open>entry_fn\<close>, \<open>exit_fn\<close>) with an interpreter each; \<open>compile\<close> builds the strategy and
    \<open>evaluate\<close> is one bar, with buffers, open trades, bar counter and aggregator as its state. Python's own expression
    parser and the transcendental functions of \<open>math\<close> are arguments. Lemmas: the exact signal of a bar, derived fields
    solve their equations, the cross-timeframe aggregate, formulas that are accepted never get stuck; state that the
    symbols of a strategy share by mistake, parts of a strategy without effect.
  \<^item> \<open>Strategy_Risk\<close>: \<open>libs/strategy_ir/risk_translator.py\<close>. Lemmas: the drawdown halt is final, the daily block does not
    end.
  \<^item> \<open>Backtest_Broker\<close>: \<open>libs/strategy_ir/paper_broker_adapter.py\<close>, orders that wait for a bar, fills at its price with
    spread and slippage, and a book of net positions. Lemma: the book is the net of the fills.
  \<^item> \<open>Backtest_Run\<close>: the loop over the bars in \<open>services/api/services/synthetic_backtest_executor.py\<close> with the indicator
    computer and the trade pairer of \<open>services/cli/run_synthetic_backtest.py\<close>; the indicator engine is an argument, and the
    run is a recursion on the bars. Lemmas: one position per symbol, the trade log explains the balance.
  \<^item> \<open>Ir_Preprocessor\<close>: the sanitiser of submitted strategies of \<open>services/cli/run_synthetic_backtest.py\<close>, on JSON values as
    they are, with the errors that ill-typed values cause. Lemma: it is idempotent.
  \<^item> \<open>Backtest_Executor\<close>: a whole backtest, from the submitted text through sanitiser, compiler, bars and loop to the
    result of \<open>libs/contracts/backtest.py\<close>. Text parsing, schema validation, the data provider and the indicator engine are
    arguments. The Sharpe ratio is left out (it needs square roots of floats). Lemmas: bounds of the metrics, a strategy that
    compiles and fails in every run.
  \<^item> \<open>Synthetic_Market\<close>: \<open>libs/strategy_ir/synthetic_market_data_provider.py\<close>; random generator, \<open>exp\<close> and \<open>sqrt\<close> are
    arguments. Lemma: its bars are well formed whatever they return.
  \<^item> \<open>Research_Runs\<close>: \<open>services/api/services/research_run_service.py\<close> over any repository that keeps the contract
    \<open>research_run_repository\<close> of \<open>libs/contracts/interfaces\<close>, interpreted on
    \<open>libs/contracts/mocks/mock_research_run_repository.py\<close>; the schemas of \<open>libs/contracts/research_run.py\<close> and
    \<open>run_results.py\<close>. The executor and the strategy loader are arguments of the service. Lemmas: what becomes of a
    submitted run, truthful cancellation, exact pages.
  \<^item> \<open>Run_Pool\<close>: \<open>services/api/services/run_executor_pool.py\<close>. A worker is its calls to the repository, one step
    each (\<open>worker_run_execute\<close>: undisturbed, they are \<open>worker_execute\<close>); an inductive relation interleaves workers, tasks, the
    semaphore, submissions and cancellations. Lemmas: a run is executed once; an aborted worker goes on.
  \<^item> \<open>Paper_Execution\<close>: \<open>services/api/services/paper_execution_service.py\<close>, the risk gate in front of the paper brokers of
    the deployments. Lemmas: the limit on open orders over all histories of single requests; requests at the same
    time exceed it.
  \<^item> \<open>Shadow_Broker\<close>, \<open>Shadow_Execution\<close>: \<open>libs/contracts/mocks/shadow_broker_adapter.py\<close>, which interprets \<open>order_intake\<close>, and
    \<open>services/api/services/shadow_execution_service.py\<close>. Lemmas: the shown profit is what the fills earned, the limit on
    positions over all histories; an order that is filled without a fill.
  \<^item> \<open>Resilient_Adapter\<close>: \<open>services/api/infrastructure/resilient_adapter.py\<close>, a breaker around every call of another adapter, and
    the retries of \<open>services/api/infrastructure/task_retry.py\<close>. A wrapped registry is an instance of \<open>order_venues\<close>, so the
    lemmas about cancellation hold for it; an open breaker prevents a halt.
  \<^item> \<open>Drills\<close>: \<open>services/api/services/drill_service.py\<close> and \<open>libs/contracts/drill.py\<close>. Lemmas: when a deployment counts as ready;
    the kill switch drill cancels nothing.
  \<^item> \<open>Position_Sizing\<close>: \<open>services/api/services/position_sizing_service.py\<close> and \<open>libs/contracts/position_sizing.py\<close>. Lemma: the sizes
    are within their bounds in spite of the roundings.
  \<^item> \<open>Indicator_Engine\<close>, \<open>Signal_Strategies\<close>: registry and engine of \<open>libs/indicators\<close>, whose calculators are arguments, the
    six strategies and the registry of \<open>services/worker/strategies\<close>, and the compiled strategy behind the same interface. The
    loop that looks for a free key is a search among one key more than are taken, and \<open>find_free\<close> proves that this is enough.
    Lemmas: a batch keeps every result; no strategy suggests a price, two never signal, two ask for unknown indicators.
  \<^item> \<open>Signal_Evaluation\<close>: \<open>services/api/services/signal_evaluation_service.py\<close> over any signal repository (contract
    \<open>signal_store\<close>, interpreted on \<open>libs/contracts/mocks/mock_signal_repository.py\<close>). Lemmas: what an approval means, when a
    duplicate is found; the size ignores the limits of the deployment.
  \<^item> \<open>Execution_Loop\<close>: \<open>services/worker/execution/strategy_execution_engine.py\<close>, \<open>libs/contracts/execution_loop.py\<close> and
    \<open>services/api/services/data_freshness_gate.py\<close>; an inductive relation has one rule per operation on the loop. Lemmas: the
    loop is a state machine with consistent counters; no strategy of the repository trades in it, two stop it, live orders
    go straight to the venue, closed bars are never fresh.
  \<^item> \<open>Governance\<close>: \<open>services/api/services/governance_service.py\<close> with the in-memory repositories of overrides and
    approval requests, which have the contract \<open>decision_repository\<close> in common. Lemmas: the items follow the audit log and
    nobody decides on their own; decisions are not final.
  \<^item> \<open>Idempotency\<close>: \<open>services/api/middleware/idempotency.py\<close> with the in-memory store. A request
    is two atomic parts around the awaited handler; an inductive relation interleaves them.
  \<^item> \<open>Sliding_Window\<close>, \<open>Rate_Limit\<close>, \<open>Login_Tracker\<close>: \<open>services/api/middleware/rate_limit.py\<close>
    (contract \<open>rate_limit_backend\<close>, interpreted on the in-memory backend) and
    \<open>services/api/services/login_attempt_tracker.py\<close>, each proved equivalent to a reference that
    keeps the whole log.
  \<^item> This theory: properties that span the risk gate and the paper broker, and the kill switch and the
    live execution service.

  \<^bold>\<open>Conventions.\<close> Identifiers from \<open>uuid4\<close> or ULID generators and clock readings are arguments. An
  exception's message is left out, its class and attributes are kept; a raised exception is \<open>Inl\<close>.
  Operations that can raise after a partial update return the state they leave behind. Strings
  are Latin-1. Logging and metrics have no effect on results and are left out. Locks make the
  operations atomic.

  \<^bold>\<open>Not modelled.\<close> HTTP routes, the SQL repositories other than those of orders and events (seen
  through their interfaces), network adapters and the frontend. The Redis variants of the idempotency store and the
  rate limiter run scripts inside Redis. The indicator calculators, the research engines (walk-forward, Monte Carlo,
  allocation) and the services for risk analytics, data quality and attribution compute square roots and matrices of
  floats with the array library; where modelled code calls them they are arguments. The strategy service is schema
  validation around its repository. The orchestrator of several loops, the scheduler and the other command line
  tools only start processes.
\<close>

section \<open>The gate in front of the paper broker\<close>

lemma list_open_orders_submit:
  assumes "pb_inv b" "dict_get (pb_orders b) bid = None"
    "dict_get (pb_client_id_map b) (rq_client_order_id rq) = None"
  shows "list_open_orders (snd (submit_order bid now rq b)) = list_open_orders b @ [new_response bid now rq]"
  using assms
  by (simp add: submit_new_state list_open_orders_def dict_values_def dict_set_new new_response_def)

text \<open>
  The limit on open orders holds end to end: when the risk gate, looking at the paper broker's own
  positions and account, admits an order and the order is then submitted to that broker, the
  number of orders that are open afterwards does not exceed the configured limit.
\<close>

theorem open_order_limit_end_to_end:
  assumes "pb_reachable b" "dr_get_by_id repo s did = Some d" "dp_risk_limits d \<noteq> empty_doc"
    "deserialize_limits (dp_risk_limits d) = Inr limits" "0 < pl_max_open_orders limits"
    "fst (enforce_order repo erepo ids did rq (get_positions now b) (get_account now now b) corr s e) = Inr ()"
    "dict_get (pb_orders b) bid = None" "dict_get (pb_client_id_map b) (rq_client_order_id rq) = None"
  shows "int (length (list_open_orders (snd (submit_order bid now' rq b)))) \<le> pl_max_open_orders limits"
proof -
  have "within_limits rq (get_positions now b) (get_account now now b) limits"
    by (rule enforced_within_limits [OF assms(6,2-4)])
  then have "int (length (list_open_orders b)) + 1 \<le> pl_max_open_orders limits"
    using assms(5) by (simp add: within_limits_def get_account_def Let_def)
  then show ?thesis
    using list_open_orders_submit [OF pb_reachable_inv [OF assms(1)] assms(7,8)] by simp
qed

definition demo_one_order :: mock_repo where
  "demo_one_order = \<lparr>mr_store = [(''D1'', demo_active\<lparr>dp_risk_limits := empty_doc\<lparr>ld_max_open_orders := Some 1\<rparr>\<rparr>)],
     mr_transitions = []\<rparr>"

theorem open_order_limit_end_to_end_witness:
  "int (length (list_open_orders (snd (submit_order ''B1'' 5 (demo_request 7) demo_start)))) \<le> 1"
proof -
  let ?limits = "\<lparr>pl_max_position_size = 0, pl_max_daily_loss = 0, pl_max_order_value = 0,
    pl_max_concentration_pct = 0, pl_max_open_orders = 1\<rparr>"
  have d: "dr_get_by_id mock_deployment_repo demo_one_order ''D1'' =
      Some (demo_active\<lparr>dp_risk_limits := empty_doc\<lparr>ld_max_open_orders := Some 1\<rparr>\<rparr>)"
    by (simp add: demo_one_order_def mock_get_by_id_def)
  have l: "deserialize_limits (dp_risk_limits (demo_active\<lparr>dp_risk_limits := empty_doc\<lparr>ld_max_open_orders := Some 1\<rparr>\<rparr>)) =
      Inr ?limits"
    by (simp add: deserialize_limits_def empty_doc_def limit_decimal_def)
  have ok: "fst (enforce_order mock_deployment_repo mock_event_repo demo_event_ids ''D1'' (demo_request 7)
      (get_positions 1 demo_start) (get_account 1 1 demo_start) ''X'' demo_one_order []) = Inr ()"
    using run_checks_passing [of mock_event_repo demo_event_ids 0 "''D1''" "demo_request 7" "''X''"
        "ordered_checks (demo_request 7) (get_positions 1 demo_start) (get_account 1 1 demo_start) ?limits" "[]"] d l
    by (simp add: enforce_iff_check check_order_def ordered_checks_passing within_limits_def reportable_def
        empty_doc_def get_account_def Let_def list_open_orders_def demo_start_def paper_init_def dict_values_def)
  show ?thesis
    using open_order_limit_end_to_end [OF demo_start_reachable d _ l _ ok, of "''B1''" 5]
    by (simp add: empty_doc_def demo_start_def paper_init_def)
qed

section \<open>The kill switch in front of the live execution service\<close>

text \<open>
  C5. A halt stops live trading: when the last accepted request to the kill switch service about the
  global switch, the order's strategy or its symbol was an activation, a live submission is refused, no
  broker is called, and nothing in the database or outside changes.
\<close>

theorem halted_submits_nothing:
  assumes "kill_switch_event_repository (lv_ks_repo lv) invar" "invar r0" "kr_list_active (lv_ks_repo lv) r0 = []"
    "serve_all h (lv_ks_repo lv) ks requests r0 w0 = (accepted, r, w)"
    "in_force accepted (''global'', ''global'') \<or> in_force accepted (''strategy'', rq_strategy_id rq) \<or>
       in_force accepted (''symbol'', rq_symbol rq)"
  shows "\<exists>e. submit_live_order lv h' ids d r did rq corr st = (Inl e, st)"
  using halted_refused [of lv r did rq] served_keys [OF assms(1-4)] assms(5)
    kill_switch_event_repository.halted_iff [OF assms(1)] by auto

theorem halted_submits_nothing_witness:
  "\<exists>r w e. serve_all demo_host mock_ks_repo (demo_service []) demo_requests mock_ks_init 5 = (map fst demo_requests, r, w) \<and>
     submit_live_order demo_live demo_clock demo_event_ids demo_limited r ''D1'' ((demo_order 5)\<lparr>rq_strategy_id := ''S1''\<rparr>) ''X''
       demo_live_state = (Inl e, demo_live_state)"
proof -
  obtain r w where run: "serve_all demo_host (lv_ks_repo demo_live) (demo_service []) demo_requests mock_ks_init 5 =
      (map fst demo_requests, r, w)" using demo_ks_run by (metis demo_live_sel(6) prod.collapse)
  have "kill_switch_event_repository (lv_ks_repo demo_live) mock_ks_inv"
    using mock_ks.kill_switch_event_repository_axioms by simp
  from halted_submits_nothing [OF this mock_ks_inv_init _ run, of "(demo_order 5)\<lparr>rq_strategy_id := ''S1''\<rparr>" demo_clock
      demo_event_ids demo_limited "''D1''" "''X''" demo_live_state]
  have "\<exists>e. submit_live_order demo_live demo_clock demo_event_ids demo_limited r ''D1'' ((demo_order 5)\<lparr>rq_strategy_id := ''S1''\<rparr>) ''X''
       demo_live_state = (Inl e, demo_live_state)"
    by (simp add: ks_list_active_def mock_ks_init_def dict_values_def in_force_def demo_requests_def)
  with run show ?thesis by auto
qed

end
